(* ===== verification/DNC_Prelude.thy ===== *)
theory DNC_Prelude
  imports
    Main
    "HOL-Library.AList"
    "HOL-Library.Char_ord"
    "HOL-Library.List_Lexorder"
    "HOL-Library.Product_Lexorder"
    "HOL-Library.Multiset"
begin

text \<open>
  Shared vocabulary of the development: Python exceptions as values, strings and
  \<open>str.strip\<close>, dynamic values (\<open>Any\<close>) with Python's equality, insertion-ordered
  dictionaries as association lists, the interface of a keyed store as a locale, and the
  generic list lemmas the components share.
\<close>

named_theorems dict_simps \<open>rewrite rules for insertion-ordered dictionaries\<close>
named_theorems enum_defs \<open>definitions of the enumerations' values and ranks\<close>

section \<open>Exceptions and results\<close>

text \<open>
  A Python function that may raise returns \<open>Inl e\<close> for the exception and \<open>Inr v\<close> for the
  value. The constructors are the exception classes the modelled code raises; the string is
  the message.
\<close>

datatype exc =
    ValueError string
  | KeyError string
  | LookupError string
  | TypeError string
  | TimeoutError string
  | RuntimeError string
  | InvalidCheckpoint string
  | StateComponentViolation string
  | InvariantViolation string
  | DAGCycle string
  | CausalChainBroken string
  | ProvenanceTamperingViolation string
  | DNCValidationError string
  | DNCPolicyError string
  | PermissionError string
  | OverflowError string
  | AttributeError string
  | AssertionError string
  | DNCCapabilityError string
  | DNCCalibrationError string
  | DNCExecutionError string
  | DNCVerificationError string
  | IndexError string
  | DriftBoundExceeded string
  | CatastrophicForgettingDetected string
  | LearningWithoutEvents string

type_synonym 'a res = "exc + 'a"

definition is_ok :: "'a res \<Rightarrow> bool" where
  "is_ok r \<longleftrightarrow> (case r of Inl _ \<Rightarrow> False | Inr _ \<Rightarrow> True)"

text \<open>A comprehension over calls that may raise: the first exception ends it.\<close>

fun map_res :: "('a \<Rightarrow> 'b res) \<Rightarrow> 'a list \<Rightarrow> 'b list res" where
  "map_res f [] = Inr []"
| "map_res f (x # xs) = (case f x of Inl e \<Rightarrow> Inl e | Inr y \<Rightarrow> (case map_res f xs of Inl e \<Rightarrow> Inl e | Inr ys \<Rightarrow> Inr (y # ys)))"

lemma is_ok_simps [simp]: "is_ok (Inr v)" "\<not> is_ok (Inl e)"
  by (simp_all add: is_ok_def)

lemma is_ok_iff: "is_ok r \<longleftrightarrow> (\<exists>v. r = Inr v)"
  by (cases r) auto

text \<open>\<open>require P e k\<close> is \<open>if not P: raise e\<close> followed by the rest of the body.\<close>

definition require :: "bool \<Rightarrow> exc \<Rightarrow> 'a res \<Rightarrow> 'a res" where
  "require P e k = (if P then k else Inl e)"

lemma require_simps [simp]: "require True e k = k" "require False e k = Inl e"
  by (simp_all add: require_def)

lemma require_Inr_iff [simp]: "require P e k = Inr v \<longleftrightarrow> P \<and> k = Inr v"
  by (simp add: require_def)

lemma is_ok_require [simp]: "is_ok (require P e k) \<longleftrightarrow> P \<and> is_ok k"
  by (simp add: require_def)

section \<open>Strings\<close>

text \<open>
  \<open>str.isspace\<close> on the code points below 256 and \<open>str.strip()\<close>.
\<close>

definition py_isspace :: "char \<Rightarrow> bool" where
  "py_isspace c \<longleftrightarrow> (let n = (of_char c :: nat) in
     (9 \<le> n \<and> n \<le> 13) \<or> (28 \<le> n \<and> n \<le> 32) \<or> n = 133 \<or> n = 160)"

definition py_strip :: "string \<Rightarrow> string" where
  "py_strip s = rev (dropWhile py_isspace (rev (dropWhile py_isspace s)))"

text \<open>\<open>not value.strip()\<close>: the string has no character other than white space.\<close>

definition blank :: "string \<Rightarrow> bool" where
  "blank s \<longleftrightarrow> py_strip s = []"

text \<open>\<open>value and value.strip() == value\<close>, the normal form every identifier must have.\<close>

definition normalized :: "string \<Rightarrow> bool" where
  "normalized s \<longleftrightarrow> s \<noteq> [] \<and> py_strip s = s"

lemma blank_iff: "blank s \<longleftrightarrow> (\<forall>c\<in>set s. py_isspace c)"
proof
  assume "blank s"
  then have "dropWhile py_isspace (rev (dropWhile py_isspace s)) = []"
    by (simp add: blank_def py_strip_def)
  then have "\<forall>c\<in>set (dropWhile py_isspace s). py_isspace c"
    by (simp add: dropWhile_eq_Nil_conv)
  then have "dropWhile py_isspace s = []"
    by (metis hd_dropWhile hd_in_set)
  then show "\<forall>c\<in>set s. py_isspace c"
    by (simp add: dropWhile_eq_Nil_conv)
next
  assume "\<forall>c\<in>set s. py_isspace c"
  then have "dropWhile py_isspace s = []" by (simp add: dropWhile_eq_Nil_conv)
  then have "dropWhile py_isspace (rev (dropWhile py_isspace s)) = []" by (simp only: rev.simps dropWhile.simps)
  then show "blank s" by (simp only: blank_def py_strip_def rev.simps)
qed

lemma normalized_not_blank: "normalized s \<Longrightarrow> \<not> blank s"
  by (auto simp: normalized_def blank_def)

text \<open>\<open>str(n)\<close> for a natural number.\<close>

fun show_nat :: "nat \<Rightarrow> string" where
  "show_nat n = (if n < 10 then [char_of (48 + n)]
                 else show_nat (n div 10) @ [char_of (48 + n mod 10)])"

declare show_nat.simps [simp del]

definition show_int :: "int \<Rightarrow> string" where
  "show_int n = (if n < 0 then ''-'' @ show_nat (nat (- n)) else show_nat (nat n))"

section \<open>Dynamic values\<close>

text \<open>
  Values of type \<open>Any\<close> in the schema and metadata dictionaries: the JSON values without
  floating-point numbers. \<open>py_eq\<close> is Python's \<open>==\<close> on them: dictionaries compare without
  regard to order, and \<open>True\<close>, \<open>False\<close> are equal to \<open>1\<close>, \<open>0\<close>.
\<close>

datatype pyval =
    PNone
  | PBool bool
  | PInt int
  | PStr string
  | PList "pyval list"
  | PDict "(string \<times> pyval) list"

fun py_eq :: "pyval \<Rightarrow> pyval \<Rightarrow> bool" where
  "py_eq PNone PNone = True"
| "py_eq (PBool a) (PBool b) = (a = b)"
| "py_eq (PBool a) (PInt n) = ((if a then 1 else 0) = n)"
| "py_eq (PInt n) (PBool a) = ((if a then 1 else 0) = n)"
| "py_eq (PInt m) (PInt n) = (m = n)"
| "py_eq (PStr s) (PStr t) = (s = t)"
| "py_eq (PList xs) (PList ys) = list_all2 py_eq xs ys"
| "py_eq (PDict d) (PDict e) =
     (length d = length e
      \<and> list_all (\<lambda>(k, v). case map_of e k of None \<Rightarrow> False | Some w \<Rightarrow> py_eq v w) d)"
| "py_eq _ _ = False"

text \<open>
  Iterating a dynamic value (\<open>set(v)\<close>, \<open>for x in v\<close>) and the hashability test a set makes
  of its elements.
\<close>

fun py_iter :: "pyval \<Rightarrow> pyval list res" where
  "py_iter (PList vs) = Inr vs"
| "py_iter (PStr s) = Inr (map (\<lambda>c. PStr [c]) s)"
| "py_iter (PDict d) = Inr (map (\<lambda>(k, _). PStr k) d)"
| "py_iter _ = Inl (TypeError ''object is not iterable'')"

fun py_hashable :: "pyval \<Rightarrow> bool" where
  "py_hashable (PList _) = False"
| "py_hashable (PDict _) = False"
| "py_hashable _ = True"

fun py_set :: "pyval \<Rightarrow> pyval list res" where
  "py_set v = (case py_iter v of
      Inl e \<Rightarrow> Inl e
    | Inr vs \<Rightarrow> require (list_all py_hashable vs) (TypeError ''unhashable type'') (Inr vs))"

fun pstr_val :: "pyval \<Rightarrow> string" where
  "pstr_val (PStr s) = s"
| "pstr_val _ = []"

fun is_pstr :: "pyval \<Rightarrow> bool" where
  "is_pstr (PStr _) = True"
| "is_pstr _ = False"

lemma is_pstr_iff: "is_pstr v \<longleftrightarrow> (\<exists>s. v = PStr s)"
  by (cases v) auto

lemma py_set_PStrs [simp]: "py_set (PList (map PStr xs)) = Inr (map PStr xs)"
  by (simp add: list_all_iff)

lemma py_iter_map_PStr [simp]: "map pstr_val (map PStr xs) = xs"
  by (induction xs) auto

lemma PStr_in_map [simp]: "PStr s \<in> set (map PStr xs) \<longleftrightarrow> s \<in> set xs"
  by auto

section \<open>Insertion-ordered dictionaries\<close>

text \<open>
  A Python \<open>dict\<close> is an association list with distinct keys in insertion order.
  \<open>AList.update\<close> overwrites an existing key in place and appends a new one, as
  \<open>d[k] = v\<close> does; \<open>AList.delete\<close> is \<open>d.pop(k, None)\<close>; \<open>map_of d k\<close> is \<open>d.get(k)\<close>.
\<close>

type_synonym ('k, 'v) dict = "('k \<times> 'v) list"

abbreviation dict_keys :: "('k, 'v) dict \<Rightarrow> 'k list" where
  "dict_keys d \<equiv> map fst d"

abbreviation dict_ok :: "('k, 'v) dict \<Rightarrow> bool" where
  "dict_ok d \<equiv> distinct (map fst d)"

abbreviation dict_set :: "'k \<Rightarrow> 'v \<Rightarrow> ('k, 'v) dict \<Rightarrow> ('k, 'v) dict" where
  "dict_set \<equiv> AList.update"

abbreviation dict_pop :: "'k \<Rightarrow> ('k, 'v) dict \<Rightarrow> ('k, 'v) dict" where
  "dict_pop \<equiv> AList.delete"

lemma map_of_dict_set [simp, dict_simps]:
  "map_of (dict_set k v d) k' = (if k' = k then Some v else map_of d k')"
  by (simp add: AList.update_conv)

lemma map_of_dict_pop [simp, dict_simps]:
  "map_of (dict_pop k d) k' = (if k' = k then None else map_of d k')"
  by (simp add: AList.delete_conv)

lemma set_keys_dict_set [simp, dict_simps]:
  "fst ` set (dict_set k v d) = insert k (fst ` set d)"
  by (induction d) auto

lemma set_keys_dict_pop [simp, dict_simps]:
  "fst ` set (dict_pop k d) = fst ` set d - {k}"
  by (auto simp: AList.delete_eq image_iff)

lemma dict_ok_dict_set [simp, intro]: "dict_ok d \<Longrightarrow> dict_ok (dict_set k v d)"
  by (rule AList.distinct_update)

lemma dict_ok_dict_pop [simp, intro]: "dict_ok d \<Longrightarrow> dict_ok (dict_pop k d)"
  by (rule AList.distinct_delete)

lemma dict_set_new: "k \<notin> fst ` set d \<Longrightarrow> dict_set k v d = d @ [(k, v)]"
  by (induction d) auto

lemma dict_pop_new [simp]: "k \<notin> fst ` set d \<Longrightarrow> dict_pop k d = d"
  by (induction d) auto

lemma dict_pop_append [simp]: "dict_pop k (d @ e) = dict_pop k d @ dict_pop k e"
  by (simp add: AList.delete_eq)

lemma map_of_None_iff: "map_of d k = None \<longleftrightarrow> k \<notin> fst ` set d"
  by (rule map_of_eq_None_iff)

lemma map_of_Some_keys: "map_of d k = Some v \<Longrightarrow> k \<in> fst ` set d"
  by (metis map_of_None_iff option.distinct(1))

lemma length_dict_set:
  "length (dict_set k v d) = (if k \<in> fst ` set d then length d else Suc (length d))"
  by (induction d) auto

lemma set_dict_set_subset: "set (dict_set k v d) \<subseteq> insert (k, v) (set d)"
  by (induction d) auto

text \<open>
  The contract of a keyed store: what a lookup returns after a write and after a removal.
  The lemmas about a batch of writes are proved once, for every store.
\<close>

locale keyed_store =
  fixes lookup :: "'s \<Rightarrow> 'k \<Rightarrow> 'v option"
    and store :: "'k \<Rightarrow> 'v \<Rightarrow> 's \<Rightarrow> 's"
    and remove :: "'k \<Rightarrow> 's \<Rightarrow> 's"
    and invar :: "'s \<Rightarrow> bool"
  assumes lookup_store: "lookup (store k v s) k' = (if k' = k then Some v else lookup s k')"
    and lookup_remove: "lookup (remove k s) k' = (if k' = k then None else lookup s k')"
    and invar_store: "invar s \<Longrightarrow> invar (store k v s)"
    and invar_remove: "invar s \<Longrightarrow> invar (remove k s)"
begin

lemma lookup_store_all:
  "lookup (fold (\<lambda>x s. store (key x) x s) xs s) k =
     (case find (\<lambda>x. key x = k) (rev xs) of Some x \<Rightarrow> Some x | None \<Rightarrow> lookup s k)"
proof (induction xs arbitrary: s)
  case (Cons x xs)
  have find_snoc: "find P (ys @ [y]) = (case find P ys of Some z \<Rightarrow> Some z | None \<Rightarrow> find P [y])"
    for P and ys :: "'v list" and y
    by (induction ys) auto
  show ?case
    by (simp only: fold.simps comp_apply Cons.IH rev.simps find_snoc)
      (auto simp: lookup_store split: option.splits)
qed simp

lemma lookup_store_all_frame:
  "k \<notin> key ` set xs \<Longrightarrow> lookup (fold (\<lambda>x s. store (key x) x s) xs s) k = lookup s k"
  by (induction xs arbitrary: s) (auto simp: lookup_store)

lemma lookup_store_all_distinct:
  "distinct (map key xs) \<Longrightarrow> x \<in> set xs
   \<Longrightarrow> lookup (fold (\<lambda>x s. store (key x) x s) xs s) (key x) = Some x"
  by (induction xs arbitrary: s) (auto simp: lookup_store lookup_store_all_frame)

lemma invar_store_all:
  "invar s \<Longrightarrow> invar (fold (\<lambda>x s. store (key x) x s) xs s)"
  by (induction xs arbitrary: s) (auto intro: invar_store)

lemma store_store_lookup: "lookup (store k w (store k v s)) = lookup (store k w s)"
  by (rule ext) (simp add: lookup_store)

lemma remove_store_lookup:
  "lookup s k = None \<Longrightarrow> lookup (remove k (store k v s)) = lookup s"
  by (rule ext) (simp add: lookup_store lookup_remove)

end

interpretation pydict: keyed_store
  "map_of :: ('k, 'v) dict \<Rightarrow> 'k \<Rightarrow> 'v option" dict_set dict_pop dict_ok
  by unfold_locales auto

section \<open>Sequences of calls\<close>

text \<open>
  The contract of a component whose clients call its operations in any order: a step keeps the
  invariant, and the state after it extends the state before. What holds of one step then
  holds of every sequence of calls, which \<open>foldl step\<close> runs.
\<close>

locale step_machine =
  fixes step :: "'s \<Rightarrow> 'c \<Rightarrow> 's"
    and inv :: "'s \<Rightarrow> bool"
    and ext :: "'s \<Rightarrow> 's \<Rightarrow> bool"
  assumes inv_step: "inv s \<Longrightarrow> inv (step s c)"
    and ext_step: "inv s \<Longrightarrow> ext s (step s c)"
    and ext_refl: "ext s s"
    and ext_trans: "ext s t \<Longrightarrow> ext t u \<Longrightarrow> ext s u"
begin

lemma run_inv: "inv s \<Longrightarrow> inv (foldl step s cs)"
  by (induction cs arbitrary: s) (auto intro: inv_step)

lemma run_ext: "inv s \<Longrightarrow> ext s (foldl step s cs)"
proof (induction cs arbitrary: s)
  case (Cons c cs)
  from Cons.IH [OF inv_step [OF Cons.prems]] ext_step [OF Cons.prems] show ?case
    by (auto intro: ext_trans)
qed (simp add: ext_refl)

lemma run_ext_mid: "inv s \<Longrightarrow> ext (foldl step s cs) (foldl step s (cs @ ds))"
  using run_ext [OF run_inv] by simp

end

text \<open>
  A property of the state that holds through every step which a condition on the call admits
  holds through every run of such steps.
\<close>

locale guarded_machine =
  fixes step :: "'s \<Rightarrow> 'c \<Rightarrow> 's"
    and admits :: "'c \<Rightarrow> bool"
    and keeps :: "'s \<Rightarrow> bool"
  assumes step_keeps: "keeps s \<Longrightarrow> admits c \<Longrightarrow> keeps (step s c)"
begin

lemma run_keeps: "keeps s \<Longrightarrow> list_all admits cs \<Longrightarrow> keeps (foldl step s cs)"
  by (induction cs arbitrary: s) (auto intro: step_keeps)

end

section \<open>Searching\<close>

text \<open>\<open>next((x for x in xs if P x), None)\<close> is \<open>find P xs\<close>.\<close>

lemma find_Some_in: "find P xs = Some x \<Longrightarrow> x \<in> set xs \<and> P x"
  by (auto simp: find_Some_iff)

lemma find_key_distinct:
  "distinct (map key xs) \<Longrightarrow> x \<in> set xs \<Longrightarrow> find (\<lambda>y. key y = key x) xs = Some x"
  by (induction xs) force+

section \<open>Enumerations with string values\<close>

text \<open>
  \<open>E(s)\<close> for an enumeration class \<open>E\<close>: the member with the value \<open>s\<close>, or \<open>ValueError\<close>. The
  contract of an enumeration is that its members are listed and their values differ.
\<close>

definition enum_decode :: "'e list \<Rightarrow> ('e \<Rightarrow> string) \<Rightarrow> string \<Rightarrow> 'e res" where
  "enum_decode members val s =
     (case find (\<lambda>x. val x = s) members of
        None \<Rightarrow> Inl (ValueError ''not a valid member'') | Some x \<Rightarrow> Inr x)"

locale value_enum =
  fixes members :: "'e list" and val :: "'e \<Rightarrow> string"
  assumes members_all: "x \<in> set members"
    and values_distinct: "distinct (map val members)"
begin

lemma decode_value [simp]: "enum_decode members val (val x) = Inr x"
  using members_all [of x] values_distinct
  by (simp add: enum_decode_def find_key_distinct)

lemma decode_ok_iff: "is_ok (enum_decode members val s) \<longleftrightarrow> s \<in> val ` set members"
  by (auto simp: enum_decode_def find_None_iff split: option.splits dest: find_Some_in)

lemma value_member [simp]: "val x \<in> val ` set members"
  using members_all by simp

lemma value_inj: "val x = val y \<longleftrightarrow> x = y"
  using members_all values_distinct by (metis distinct_map inj_onD)

end

section \<open>Lists\<close>

lemma concat_eq_Nil_iff: "concat (map f xs) = [] \<longleftrightarrow> (\<forall>x\<in>set xs. f x = [])"
  by (induction xs) auto

lemma length_remdups_eq_distinct: "length xs = card (set xs) \<longleftrightarrow> distinct xs"
  by (metis card_distinct distinct_card)

lemma if_single_Nil [simp]: "(if P then [e] else []) = [] \<longleftrightarrow> \<not> P"
  by simp

end
