(* ===== verification/IR_Contracts.thy ===== *)
theory IR_Contracts
  imports DNC_Prelude
begin

text \<open>
  The governance contracts of a computational unit: the shared enumerations of
  \<open>kernel/contracts.py\<close> and the frozen dataclasses of \<open>ir/contracts.py\<close>. A dataclass is a
  record; its \<open>__post_init__\<close> is a function from the record of constructor arguments to the
  record or the exception it raises. The type annotations are the model's types, so the
  \<open>isinstance\<close> tests, which only reject ill-typed arguments, have no branch of their own.
\<close>

section \<open>Enumerations\<close>

datatype side_effect_class = SE_NONE | REVERSIBLE | COMPENSATABLE | IRREVERSIBLE

datatype effect_type =
  PROVIDER_CALL | FILE_WRITE | DATABASE_WRITE | NETWORK_CALL | CACHE_WRITE | PROCESS_SPAWN | CLEANUP

datatype isolation_grade =
  I0_NONE | I1_GRAPH_ONLY | I2_PROCESS_LOCAL | I3_RECORDED_EXTERNALS | I4_SANDBOXED_ENVIRONMENT

fun isolation_rank :: "isolation_grade \<Rightarrow> nat" where
  "isolation_rank I0_NONE = 0"
| "isolation_rank I1_GRAPH_ONLY = 1"
| "isolation_rank I2_PROCESS_LOCAL = 2"
| "isolation_rank I3_RECORDED_EXTERNALS = 3"
| "isolation_rank I4_SANDBOXED_ENVIRONMENT = 4"

datatype port_direction = INPUT | OUTPUT

datatype port_kind = PK_DATA | PK_CONTROL | PK_STATE | PK_RESOURCE

fun port_kind_value :: "port_kind \<Rightarrow> string" where
  "port_kind_value PK_DATA = ''DATA''"
| "port_kind_value PK_CONTROL = ''CONTROL''"
| "port_kind_value PK_STATE = ''STATE''"
| "port_kind_value PK_RESOURCE = ''RESOURCE''"

datatype port_cardinality = EXACTLY_ONE | ZERO_OR_ONE | ONE_OR_MORE | ZERO_OR_MORE

fun cardinality_value :: "port_cardinality \<Rightarrow> string" where
  "cardinality_value EXACTLY_ONE = ''EXACTLY_ONE''"
| "cardinality_value ZERO_OR_ONE = ''ZERO_OR_ONE''"
| "cardinality_value ONE_OR_MORE = ''ONE_OR_MORE''"
| "cardinality_value ZERO_OR_MORE = ''ZERO_OR_MORE''"

definition card_minimum :: "port_cardinality \<Rightarrow> nat" where
  "card_minimum c = (if c \<in> {EXACTLY_ONE, ONE_OR_MORE} then 1 else 0)"

definition card_maximum :: "port_cardinality \<Rightarrow> nat option" where
  "card_maximum c = (if c \<in> {EXACTLY_ONE, ZERO_OR_ONE} then Some 1 else None)"

lemma card_minimum_le_maximum: "card_maximum c = Some m \<Longrightarrow> card_minimum c \<le> m"
  by (auto simp: card_minimum_def card_maximum_def split: if_splits)

datatype idempotency_mode = IM_NONE | IDEMPOTENT | KEY_REQUIRED | AT_MOST_ONCE

datatype idempotency_scope = REQUEST | TASK | TENANT

datatype data_classification = PUBLIC | INTERNAL | CONFIDENTIAL | RESTRICTED

fun classification_rank :: "data_classification \<Rightarrow> nat" where
  "classification_rank PUBLIC = 0"
| "classification_rank INTERNAL = 1"
| "classification_rank CONFIDENTIAL = 2"
| "classification_rank RESTRICTED = 3"

lemma isolation_rank_inj: "isolation_rank a = isolation_rank b \<Longrightarrow> a = b"
  by (cases a; cases b; simp)

lemma classification_rank_inj: "classification_rank a = classification_rank b \<Longrightarrow> a = b"
  by (cases a; cases b; simp)

lemma port_kind_value_inj: "port_kind_value a = port_kind_value b \<Longrightarrow> a = b"
  by (cases a; cases b; simp)

text \<open>
  The ranks order the grades as their declaration does, so the library's linear orders apply
  to them.
\<close>

instantiation isolation_grade :: linorder
begin

definition less_eq_isolation_grade :: "isolation_grade \<Rightarrow> isolation_grade \<Rightarrow> bool" where
  "less_eq_isolation_grade a b \<longleftrightarrow> isolation_rank a \<le> isolation_rank b"

definition less_isolation_grade :: "isolation_grade \<Rightarrow> isolation_grade \<Rightarrow> bool" where
  "less_isolation_grade a b \<longleftrightarrow> isolation_rank a < isolation_rank b"

instance
  by standard
    (auto simp: less_eq_isolation_grade_def less_isolation_grade_def intro: isolation_rank_inj)

end

instantiation data_classification :: linorder
begin

definition less_eq_data_classification :: "data_classification \<Rightarrow> data_classification \<Rightarrow> bool" where
  "less_eq_data_classification a b \<longleftrightarrow> classification_rank a \<le> classification_rank b"

definition less_data_classification :: "data_classification \<Rightarrow> data_classification \<Rightarrow> bool" where
  "less_data_classification a b \<longleftrightarrow> classification_rank a < classification_rank b"

instance
  by standard
    (auto simp: less_eq_data_classification_def less_data_classification_def
      intro: classification_rank_inj)

end

section \<open>Port contracts\<close>

record port_contract =
  port_id :: string
  direction :: port_direction
  port_kind :: port_kind
  schema :: "(string, pyval) dict"
  cardinality :: port_cardinality
  port_description :: string

definition PortContract_post_init :: "port_contract \<Rightarrow> port_contract res" where
  "PortContract_post_init p =
     require (port_id p \<noteq> [] \<and> py_strip (port_id p) = port_id p)
       (ValueError ''port_id MUST be non-empty and whitespace-normalized'')
     (require (port_kind p = PK_CONTROL \<or> schema p \<noteq> [])
       (ValueError (port_kind_value (port_kind p) @ '' ports MUST declare a non-empty schema''))
     (Inr p))"

section \<open>Idempotency contracts\<close>

record idempotency_contract =
  idem_mode :: idempotency_mode
  idem_scope :: idempotency_scope
  key_field :: "string option"
  payload_hash_required :: bool

definition IdempotencyContract_default :: idempotency_contract where
  "IdempotencyContract_default =
     \<lparr>idem_mode = IM_NONE, idem_scope = TASK, key_field = None, payload_hash_required = True\<rparr>"

definition IdempotencyContract_post_init :: "idempotency_contract \<Rightarrow> idempotency_contract res" where
  "IdempotencyContract_post_init c =
     require (\<not> (idem_mode c = KEY_REQUIRED \<and> (key_field c = None \<or> key_field c = Some [])))
       (ValueError ''KEY_REQUIRED idempotency MUST declare key_field'')
     (require (\<not> (idem_mode c = IM_NONE \<and> key_field c \<noteq> None))
       (ValueError ''NONE idempotency cannot declare key_field'')
     (require (case key_field c of None \<Rightarrow> True | Some k \<Rightarrow> \<not> blank k)
       (ValueError ''idempotency key_field MUST be non-empty when provided'')
     (Inr c)))"

section \<open>Side-effect contracts\<close>

record side_effect_contract =
  classification :: side_effect_class
  effect_types :: "effect_type set"
  compensation_action :: "string option"
  minimum_isolation :: isolation_grade

definition SideEffectContract_default :: side_effect_contract where
  "SideEffectContract_default =
     \<lparr>classification = SE_NONE, effect_types = {}, compensation_action = None,
      minimum_isolation = I0_NONE\<rparr>"

text \<open>\<open>bool(x)\<close> for an optional string.\<close>

definition truthy_opt :: "string option \<Rightarrow> bool" where
  "truthy_opt x \<longleftrightarrow> (case x of None \<Rightarrow> False | Some s \<Rightarrow> s \<noteq> [])"

definition SideEffectContract_post_init :: "side_effect_contract \<Rightarrow> side_effect_contract res" where
  "SideEffectContract_post_init c =
     require (case compensation_action c of None \<Rightarrow> True | Some a \<Rightarrow> \<not> blank a)
       (ValueError ''compensation_action MUST be non-empty when provided'')
     (if classification c = SE_NONE then
        require (\<not> (effect_types c \<noteq> {} \<or> truthy_opt (compensation_action c)))
          (ValueError ''effect-free units cannot declare effects or compensation'')
        (require (minimum_isolation c = I0_NONE)
          (ValueError ''effect-free units MUST use I0_NONE effect isolation'')
        (Inr c))
      else
        require (effect_types c \<noteq> {})
          (ValueError ''effectful units MUST declare effect_types'')
        (require (\<not> isolation_rank (minimum_isolation c) < isolation_rank I2_PROCESS_LOCAL)
          (ValueError ''effectful units require at least process-local isolation'')
        (require (\<not> (classification c \<in> {REVERSIBLE, COMPENSATABLE}
                      \<and> \<not> truthy_opt (compensation_action c)))
          (ValueError ''reversible or compensatable effects MUST declare compensation_action'')
        (if classification c = IRREVERSIBLE then
           require (\<not> truthy_opt (compensation_action c))
             (ValueError ''irreversible effects cannot declare compensation_action'')
           (require (\<not> isolation_rank (minimum_isolation c) < isolation_rank I3_RECORDED_EXTERNALS)
             (ValueError ''irreversible effects require recorded-external isolation'')
           (Inr c))
         else Inr c))))"

section \<open>Placement contracts\<close>

record placement_contract =
  allowed_regions :: "string set"
  allowed_devices :: "string set"
  allowed_runtimes :: "string set"
  required_capabilities :: "string set"
  preferred_regions :: "string list"
  preferred_devices :: "string list"
  requires_local_inputs :: bool

definition PlacementContract_default :: placement_contract where
  "PlacementContract_default =
     \<lparr>allowed_regions = {}, allowed_devices = {}, allowed_runtimes = {},
      required_capabilities = {}, preferred_regions = [], preferred_devices = [],
      requires_local_inputs = False\<rparr>"

definition PlacementContract_post_init :: "placement_contract \<Rightarrow> placement_contract res" where
  "PlacementContract_post_init c =
     require (\<forall>v\<in>allowed_regions c. \<not> blank v)
       (ValueError ''allowed_regions MUST contain non-empty strings'')
     (require (\<forall>v\<in>allowed_devices c. \<not> blank v)
       (ValueError ''allowed_devices MUST contain non-empty strings'')
     (require (\<forall>v\<in>allowed_runtimes c. \<not> blank v)
       (ValueError ''allowed_runtimes MUST contain non-empty strings'')
     (require (\<forall>v\<in>required_capabilities c. \<not> blank v)
       (ValueError ''required_capabilities MUST contain non-empty strings'')
     (require (\<forall>v\<in>set (preferred_regions c). \<not> blank v)
       (ValueError ''preferred_regions MUST contain non-empty strings'')
     (require (\<forall>v\<in>set (preferred_devices c). \<not> blank v)
       (ValueError ''preferred_devices MUST contain non-empty strings'')
     (require (\<not> (allowed_regions c \<noteq> {} \<and> \<not> set (preferred_regions c) \<subseteq> allowed_regions c))
       (ValueError ''preferred_regions MUST be allowed'')
     (require (\<not> (allowed_devices c \<noteq> {} \<and> \<not> set (preferred_devices c) \<subseteq> allowed_devices c))
       (ValueError ''preferred_devices MUST be allowed'')
     (require (length (preferred_regions c) = card (set (preferred_regions c)))
       (ValueError ''preferred_regions MUST be unique'')
     (require (length (preferred_devices c) = card (set (preferred_devices c)))
       (ValueError ''preferred_devices MUST be unique'')
     (Inr c))))))))))"

section \<open>Security contracts and the execution context\<close>

record security_contract =
  sec_tenant_id :: "string option"
  required_permissions :: "string set"
  security_labels :: "string set"
  output_classification :: data_classification
  maximum_input_classification :: data_classification
  allowed_residencies :: "string set"
  sec_trust_zone :: string
  accepted_trust_zones :: "string set"
  confidential_compute_required :: bool

definition SecurityContract_default :: security_contract where
  "SecurityContract_default =
     \<lparr>sec_tenant_id = None, required_permissions = {}, security_labels = {},
      output_classification = INTERNAL, maximum_input_classification = RESTRICTED,
      allowed_residencies = {}, sec_trust_zone = [], accepted_trust_zones = {},
      confidential_compute_required = False\<rparr>"

definition SecurityContract_post_init :: "security_contract \<Rightarrow> security_contract res" where
  "SecurityContract_post_init c =
     require (case sec_tenant_id c of None \<Rightarrow> True | Some t \<Rightarrow> \<not> blank t)
       (ValueError ''security tenant_id MUST be non-empty when provided'')
     (require (\<forall>v\<in>required_permissions c. \<not> blank v)
       (ValueError ''required_permissions MUST contain non-empty strings'')
     (require (\<forall>v\<in>security_labels c. \<not> blank v)
       (ValueError ''security_labels MUST contain non-empty strings'')
     (require (\<forall>v\<in>allowed_residencies c. \<not> blank v)
       (ValueError ''allowed_residencies MUST contain non-empty strings'')
     (require (\<forall>v\<in>accepted_trust_zones c. \<not> blank v)
       (ValueError ''accepted_trust_zones MUST contain non-empty strings'')
     (Inr c)))))"

record execution_context =
  ctx_tenant_id :: string
  permissions :: "string set"
  isolation_grade :: isolation_grade
  region :: string
  device :: string
  runtime :: string
  capabilities :: "string set"
  ctx_trust_zone :: string
  confidential_compute :: bool

definition ExecutionContext_post_init :: "execution_context \<Rightarrow> execution_context res" where
  "ExecutionContext_post_init c =
     require (ctx_tenant_id c \<noteq> [])
       (ValueError ''execution tenant_id MUST be non-empty'')
     (require (\<forall>v\<in>permissions c. \<not> blank v)
       (ValueError ''execution permissions MUST contain non-empty strings'')
     (require (\<forall>v\<in>capabilities c. \<not> blank v)
       (ValueError ''execution capabilities MUST contain non-empty strings'')
     (Inr c)))"

section \<open>What an accepted contract guarantees\<close>

text \<open>
  The declarative reading of the side-effect contract: what the isolation grade and the
  compensation action of a unit must be, by the class of its effects.
\<close>

definition effects_governed :: "side_effect_contract \<Rightarrow> bool" where
  "effects_governed c \<longleftrightarrow>
     (case compensation_action c of None \<Rightarrow> True | Some a \<Rightarrow> \<not> blank a) \<and>
     (case classification c of
        SE_NONE \<Rightarrow> effect_types c = {} \<and> compensation_action c = None \<and> minimum_isolation c = I0_NONE
      | REVERSIBLE \<Rightarrow> effect_types c \<noteq> {} \<and> compensation_action c \<noteq> None
                      \<and> I2_PROCESS_LOCAL \<le> minimum_isolation c
      | COMPENSATABLE \<Rightarrow> effect_types c \<noteq> {} \<and> compensation_action c \<noteq> None
                      \<and> I2_PROCESS_LOCAL \<le> minimum_isolation c
      | IRREVERSIBLE \<Rightarrow> effect_types c \<noteq> {} \<and> compensation_action c = None
                      \<and> I3_RECORDED_EXTERNALS \<le> minimum_isolation c)"

lemma blank_Nil [simp]: "blank []"
  by (simp add: blank_def py_strip_def)

lemma SideEffectContract_accepts_iff:
  "SideEffectContract_post_init c = Inr d \<longleftrightarrow> d = c \<and> effects_governed c"
  unfolding effects_governed_def SideEffectContract_post_init_def truthy_opt_def
    less_eq_isolation_grade_def
  by (cases "classification c"; cases "compensation_action c") auto

lemma PlacementContract_accepts_iff:
  "PlacementContract_post_init c = Inr d \<longleftrightarrow>
     d = c
     \<and> (\<forall>v \<in> allowed_regions c \<union> allowed_devices c \<union> allowed_runtimes c
            \<union> required_capabilities c \<union> set (preferred_regions c) \<union> set (preferred_devices c).
          \<not> blank v)
     \<and> (allowed_regions c \<noteq> {} \<longrightarrow> set (preferred_regions c) \<subseteq> allowed_regions c)
     \<and> (allowed_devices c \<noteq> {} \<longrightarrow> set (preferred_devices c) \<subseteq> allowed_devices c)
     \<and> distinct (preferred_regions c) \<and> distinct (preferred_devices c)"
  by (auto simp: PlacementContract_post_init_def length_remdups_eq_distinct)

lemma IdempotencyContract_accepts_iff:
  "IdempotencyContract_post_init c = Inr d \<longleftrightarrow>
     d = c
     \<and> (case key_field c of None \<Rightarrow> idem_mode c \<noteq> KEY_REQUIRED
        | Some k \<Rightarrow> idem_mode c \<noteq> IM_NONE \<and> \<not> blank k)"
  by (cases "key_field c") (auto simp: IdempotencyContract_post_init_def)

lemma defaults_accepted:
  "is_ok (IdempotencyContract_post_init IdempotencyContract_default)"
  "is_ok (SideEffectContract_post_init SideEffectContract_default)"
  "is_ok (PlacementContract_post_init PlacementContract_default)"
  "is_ok (SecurityContract_post_init SecurityContract_default)"
  by (simp_all add: IdempotencyContract_post_init_def IdempotencyContract_default_def
      SideEffectContract_post_init_def SideEffectContract_default_def truthy_opt_def
      PlacementContract_post_init_def PlacementContract_default_def
      SecurityContract_post_init_def SecurityContract_default_def)

end
