(* ===== verification/IR_Graph.thy ===== *)
theory IR_Graph
  imports IR_Contracts
begin

text \<open>
  The data model of DNC-IR: identities and the identity registry (\<open>ir/identity.py\<close>),
  computational units (\<open>ir/unit.py\<close>), the abstract operations (\<open>ir/operations.py\<close>) and the
  structural graph with its editing methods (\<open>ir/graph.py\<close>). The well-formedness invariant of
  a graph says that the unit dictionary is keyed by the units' own identifiers.
\<close>

section \<open>Identities\<close>

text \<open>
  \<open>_validate_identity\<close> and the identifier classes, each a wrapper of its string. An
  identifier that is given no value takes a random one (\<open>uuid4\<close>); the model takes the value
  as an argument.
\<close>

definition validate_identity :: "string \<Rightarrow> string \<Rightarrow> unit res" where
  "validate_identity value name =
     require (\<not> (value = [] \<or> py_strip value \<noteq> value))
       (ValueError (name @ '' MUST be a normalized non-empty string'')) (Inr ())"

datatype unit_id = UnitID (uid_value: string)
datatype instance_id = InstanceID (inst_value: string)
datatype graph_id = GraphID (gid_value: string)
datatype mutation_id = MutationID (mid_value: string)
datatype transaction_id = TransactionID (tid_value: string)

definition mk_UnitID :: "string \<Rightarrow> unit_id res" where
  "mk_UnitID v = (case validate_identity v ''UnitID'' of Inl e \<Rightarrow> Inl e | Inr _ \<Rightarrow> Inr (UnitID v))"

lemma mk_UnitID_ok_iff: "mk_UnitID v = Inr u \<longleftrightarrow> u = UnitID v \<and> normalized v"
  by (auto simp: mk_UnitID_def validate_identity_def normalized_def require_def
      split: if_splits)

text \<open>
  Graph versions. \<open>__post_init__\<close> rejects negative components, so they are naturals.
\<close>

record graph_version =
  major :: nat
  minor :: nat
  patch :: nat
  sequence :: nat

definition initial_version :: graph_version where
  "initial_version = \<lparr>major = 1, minor = 0, patch = 0, sequence = 0\<rparr>"

definition next_sequence :: "graph_version \<Rightarrow> graph_version" where
  "next_sequence v =
     \<lparr>major = major v, minor = minor v, patch = patch v, sequence = sequence v + 1\<rparr>"

lemma next_sequence_simps [simp]:
  "major (next_sequence v) = major v" "minor (next_sequence v) = minor v"
  "patch (next_sequence v) = patch v" "sequence (next_sequence v) = Suc (sequence v)"
  by (simp_all add: next_sequence_def)

lemma next_sequence_neq [simp]: "next_sequence v \<noteq> v" "v \<noteq> next_sequence v"
  by (metis n_not_Suc_n next_sequence_simps(4))+

lemma funpow_next_sequence: "sequence ((next_sequence ^^ n) v) = sequence v + n"
  by (induction n) simp_all

lemma funpow_next_sequence_neq: "(next_sequence ^^ Suc n) v \<noteq> v"
  by (metis add_eq_self_zero funpow_next_sequence nat.distinct(1))

text \<open>The identity registry: identifiers in use and identifiers withdrawn for ever.\<close>

record identity_registry =
  active_units :: "string set"
  retired_units :: "string set"

definition empty_registry :: identity_registry where
  "empty_registry = \<lparr>active_units = {}, retired_units = {}\<rparr>"

definition register_unit :: "identity_registry \<Rightarrow> unit_id \<Rightarrow> identity_registry res" where
  "register_unit r u =
     require (uid_value u \<notin> retired_units r)
       (ValueError (''Identity Violation: Retired UnitID '' @ uid_value u @ '' cannot be reused.''))
     (require (uid_value u \<notin> active_units r)
       (ValueError (''Identity Violation: UnitID '' @ uid_value u @ '' is already active.''))
     (Inr (r\<lparr>active_units := insert (uid_value u) (active_units r)\<rparr>)))"

definition retire_unit :: "identity_registry \<Rightarrow> unit_id \<Rightarrow> identity_registry" where
  "retire_unit r u =
     (if uid_value u \<in> active_units r
      then r\<lparr>active_units := active_units r - {uid_value u},
             retired_units := insert (uid_value u) (retired_units r)\<rparr>
      else r)"

datatype registry_call = Register unit_id | Retire unit_id

text \<open>A client's calls in sequence; a call that raises leaves the registry as it was.\<close>

fun registry_step :: "identity_registry \<Rightarrow> registry_call \<Rightarrow> identity_registry" where
  "registry_step r (Register u) = (case register_unit r u of Inl _ \<Rightarrow> r | Inr r' \<Rightarrow> r')"
| "registry_step r (Retire u) = retire_unit r u"

definition registry_run :: "identity_registry \<Rightarrow> registry_call list \<Rightarrow> identity_registry" where
  "registry_run = foldl registry_step"

definition registry_inv :: "identity_registry \<Rightarrow> bool" where
  "registry_inv r \<longleftrightarrow> active_units r \<inter> retired_units r = {}"

lemma register_unit_inv: "registry_inv r \<Longrightarrow> register_unit r u = Inr r' \<Longrightarrow> registry_inv r'"
  by (auto simp: registry_inv_def register_unit_def)

lemma retire_unit_inv: "registry_inv r \<Longrightarrow> registry_inv (retire_unit r u)"
  by (auto simp: registry_inv_def retire_unit_def)

lemma register_unit_retired: "register_unit r u = Inr r' \<Longrightarrow> retired_units r' = retired_units r"
  by (auto simp: register_unit_def)

lemma retire_unit_retired: "retired_units r \<subseteq> retired_units (retire_unit r u)"
  by (auto simp: retire_unit_def)

interpretation reg: step_machine registry_step registry_inv
  "\<lambda>r s. retired_units r \<subseteq> retired_units s"
proof
  fix r c
  assume r: "registry_inv r"
  show "registry_inv (registry_step r c)"
    by (cases c) (use r in \<open>auto intro: retire_unit_inv dest: register_unit_inv split: sum.splits\<close>)
  show "retired_units r \<subseteq> retired_units (registry_step r c)"
    using retire_unit_retired by (cases c) (auto simp: register_unit_retired split: sum.splits)
qed auto

lemma registry_run_permanence:
  "registry_inv r \<Longrightarrow> registry_inv (registry_run r cs)
     \<and> retired_units r \<subseteq> retired_units (registry_run r cs)"
  unfolding registry_run_def using reg.run_inv reg.run_ext by blast

section \<open>Computational units\<close>

datatype structure_dimension = PRIMITIVE | COMPOSITE
datatype visibility_dimension = OPAQUE | INSPECTABLE
datatype lifecycle_dimension = BASE | SPECIALIZED
datatype enforcement_tier = INVARIANT | CONSTRAINT | POLICY

record unit_contract =
  input_schema :: "(string, pyval) dict"
  output_schema :: "(string, pyval) dict"
  preconditions :: "string list"
  postconditions :: "string list"
  resource_limits :: "(string, pyval) dict"
  ports :: "port_contract list"
  idempotency :: idempotency_contract
  side_effects :: side_effect_contract
  placement :: placement_contract
  security :: security_contract

definition UnitContract_default :: unit_contract where
  "UnitContract_default =
     \<lparr>input_schema = [], output_schema = [], preconditions = [], postconditions = [],
      resource_limits = [], ports = [], idempotency = IdempotencyContract_default,
      side_effects = SideEffectContract_default, placement = PlacementContract_default,
      security = SecurityContract_default\<rparr>"

definition port :: "unit_contract \<Rightarrow> string \<Rightarrow> port_contract option" where
  "port c pid = find (\<lambda>p. port_id p = pid) (ports c)"

definition validate_ports :: "unit_contract \<Rightarrow> bool" where
  "validate_ports c \<longleftrightarrow>
     (let identifiers = map port_id (ports c) in length identifiers = card (set identifiers))"

definition requires_execution_context :: "unit_contract \<Rightarrow> bool" where
  "requires_execution_context c \<longleftrightarrow>
     classification (side_effects c) \<noteq> SE_NONE
     \<or> allowed_regions (placement c) \<noteq> {}
     \<or> allowed_devices (placement c) \<noteq> {}
     \<or> allowed_runtimes (placement c) \<noteq> {}
     \<or> required_capabilities (placement c) \<noteq> {}
     \<or> requires_local_inputs (placement c)
     \<or> truthy_opt (sec_tenant_id (security c))
     \<or> required_permissions (security c) \<noteq> {}
     \<or> allowed_residencies (security c) \<noteq> {}
     \<or> sec_trust_zone (security c) \<noteq> []
     \<or> accepted_trust_zones (security c) \<noteq> {}
     \<or> confidential_compute_required (security c)"

record mutation_contract =
  allowed_mutations :: "string set"
  max_children :: int
  is_immutable :: bool

definition MutationContract_default :: mutation_contract where
  "MutationContract_default =
     \<lparr>allowed_mutations = {''ADD'', ''REMOVE'', ''CONNECT'', ''DISCONNECT'', ''REWIRE''},
      max_children = 100, is_immutable = False\<rparr>"

record unit_constraint =
  constraint_id :: string
  constraint_tier :: enforcement_tier
  expression :: string
  constraint_description :: string

record computational_unit =
  unit_id :: unit_id
  unit_name :: string
  unit_structure :: structure_dimension
  visibility :: visibility_dimension
  lifecycle :: lifecycle_dimension
  contract :: unit_contract
  mutation_contract :: mutation_contract
  constraints :: "unit_constraint list"
  unit_metadata :: "(string, pyval) dict"
  sub_units :: "unit_id list"

definition validate_dimensions :: "computational_unit \<Rightarrow> bool" where
  "validate_dimensions u \<longleftrightarrow> \<not> (unit_structure u = PRIMITIVE \<and> length (sub_units u) > 0)"

lemma validate_ports_iff: "validate_ports c \<longleftrightarrow> distinct (map port_id (ports c))"
  by (simp only: validate_ports_def Let_def length_remdups_eq_distinct)

lemma port_Some_iff:
  "validate_ports c \<Longrightarrow> port c pid = Some p \<longleftrightarrow> p \<in> set (ports c) \<and> port_id p = pid"
  by (auto simp: port_def validate_ports_iff find_key_distinct dest: find_Some_in)

section \<open>Edges, operations and the structural graph\<close>

datatype edge_type = ET_DATA | ET_CONTROL | ET_STATE | ET_DEPENDENCY | ET_RESOURCE

fun edge_type_value :: "edge_type \<Rightarrow> string" where
  "edge_type_value ET_DATA = ''DATA''"
| "edge_type_value ET_CONTROL = ''CONTROL''"
| "edge_type_value ET_STATE = ''STATE''"
| "edge_type_value ET_DEPENDENCY = ''DEPENDENCY''"
| "edge_type_value ET_RESOURCE = ''RESOURCE''"

lemma edge_type_value_inj: "edge_type_value a = edge_type_value b \<Longrightarrow> a = b"
  by (cases a; cases b; simp)

lemma edge_type_value_eq [simp]: "edge_type_value a = edge_type_value b \<longleftrightarrow> a = b"
  using edge_type_value_inj by blast

record edge =
  edge_source :: unit_id
  edge_target :: unit_id
  edge_type :: edge_type
  edge_metadata :: "(string, pyval) dict"
  source_port :: "string option"
  target_port :: "string option"

abbreviation src :: "edge \<Rightarrow> string" where "src e \<equiv> uid_value (edge_source e)"
abbreviation tgt :: "edge \<Rightarrow> string" where "tgt e \<equiv> uid_value (edge_target e)"

record structural_graph =
  graph_id :: graph_id
  version :: graph_version
  units :: "(string, computational_unit) dict"
  edges :: "edge list"
  graph_metadata :: "(string, pyval) dict"

datatype operation_type =
    ADD_UNIT | REMOVE_UNIT | CONNECT_UNITS | DISCONNECT_UNITS | REWIRE_EDGE
  | SPECIALIZE_UNIT | DESPECIALIZE_UNIT | COMPOSE_UNITS | DECOMPOSE_UNIT | UPDATE_CONTRACT

text \<open>
  The parameter dictionary of an operation, one optional field for each key that is read;
  \<open>None\<close> is an absent key. A key that is present holds a value of the annotated type.
\<close>

record op_params =
  p_unit :: "computational_unit option"
  p_unit_id :: "unit_id option"
  p_source :: "unit_id option"
  p_target :: "unit_id option"
  p_edge_type :: "edge_type option"
  p_metadata :: "(string, pyval) dict option"
  p_source_port :: "string option"
  p_target_port :: "string option"
  p_old_source :: "unit_id option"
  p_old_target :: "unit_id option"
  p_new_source :: "unit_id option"
  p_new_target :: "unit_id option"

definition no_params :: op_params where
  "no_params = \<lparr>p_unit = None, p_unit_id = None, p_source = None, p_target = None,
     p_edge_type = None, p_metadata = None, p_source_port = None, p_target_port = None,
     p_old_source = None, p_old_target = None, p_new_source = None, p_new_target = None\<rparr>"

record ir_operation =
  op_type :: operation_type
  parameters :: op_params
  rationale :: string

definition op_validate :: "ir_operation \<Rightarrow> bool" where
  "op_validate op = (let p = parameters op in
     (case op_type op of
        ADD_UNIT \<Rightarrow> p_unit p \<noteq> None
      | REMOVE_UNIT \<Rightarrow> p_unit_id p \<noteq> None
      | CONNECT_UNITS \<Rightarrow> p_source p \<noteq> None \<and> p_target p \<noteq> None \<and> p_edge_type p \<noteq> None
      | DISCONNECT_UNITS \<Rightarrow> p_source p \<noteq> None \<and> p_target p \<noteq> None
      | REWIRE_EDGE \<Rightarrow> p_old_source p \<noteq> None \<and> p_old_target p \<noteq> None
                       \<and> p_new_source p \<noteq> None \<and> p_new_target p \<noteq> None
      | _ \<Rightarrow> True))"

definition add_unit :: "structural_graph \<Rightarrow> computational_unit \<Rightarrow> structural_graph res" where
  "add_unit g u =
     require (uid_value (unit_id u) \<notin> set (dict_keys (units g)))
       (ValueError (''UnitID '' @ uid_value (unit_id u) @ '' already exists in graph.''))
     (Inr (g\<lparr>units := dict_set (uid_value (unit_id u)) u (units g)\<rparr>))"

definition remove_unit :: "structural_graph \<Rightarrow> unit_id \<Rightarrow> structural_graph res" where
  "remove_unit g i = (let uid = uid_value i in
     require (uid \<in> set (dict_keys (units g)))
       (KeyError (''UnitID '' @ uid @ '' not found in graph.''))
     (Inr (g\<lparr>units := dict_pop uid (units g),
             edges := filter (\<lambda>e. src e \<noteq> uid \<and> tgt e \<noteq> uid) (edges g)\<rparr>)))"

definition add_edge :: "structural_graph \<Rightarrow> edge \<Rightarrow> structural_graph" where
  "add_edge g e = g\<lparr>edges := edges g @ [e]\<rparr>"

text \<open>
  The match test shared by \<open>StructuralGraph.remove_edge\<close> and the \<open>DISCONNECT_UNITS\<close> branch of the
  mutation engine: an omitted edge type or port matches every edge.
\<close>

definition edge_matches ::
  "unit_id \<Rightarrow> unit_id \<Rightarrow> edge_type option \<Rightarrow> string option \<Rightarrow> string option \<Rightarrow> edge \<Rightarrow> bool" where
  "edge_matches s t et sp tp e \<longleftrightarrow>
     src e = uid_value s \<and> tgt e = uid_value t
     \<and> (case et of None \<Rightarrow> True | Some x \<Rightarrow> edge_type e = x)
     \<and> (case sp of None \<Rightarrow> True | Some p \<Rightarrow> source_port e = Some p)
     \<and> (case tp of None \<Rightarrow> True | Some p \<Rightarrow> target_port e = Some p)"

definition remove_edge ::
  "structural_graph \<Rightarrow> unit_id \<Rightarrow> unit_id \<Rightarrow> edge_type option \<Rightarrow> string option \<Rightarrow> string option
   \<Rightarrow> structural_graph" where
  "remove_edge g s t et sp tp = g\<lparr>edges := filter (\<lambda>e. \<not> edge_matches s t et sp tp e) (edges g)\<rparr>"

section \<open>The keying invariant\<close>

definition keyed_units :: "(string, computational_unit) dict \<Rightarrow> bool" where
  "keyed_units d \<longleftrightarrow> dict_ok d \<and> (\<forall>(k, u)\<in>set d. k = uid_value (unit_id u))"

definition graph_ok :: "structural_graph \<Rightarrow> bool" where
  "graph_ok g \<longleftrightarrow> keyed_units (units g)"

lemma keyed_units_set:
  "keyed_units d \<Longrightarrow> keyed_units (dict_set (uid_value (unit_id u)) u d)"
  using set_dict_set_subset [of "uid_value (unit_id u)" u d]
  by (auto simp: keyed_units_def)

lemma set_dict_pop_subset: "set (dict_pop k d) \<subseteq> set d"
  by (auto simp: AList.delete_eq)

lemma keyed_units_pop: "keyed_units d \<Longrightarrow> keyed_units (dict_pop k d)"
  using set_dict_pop_subset [of k d] by (auto simp: keyed_units_def)

lemma add_unit_ok: "graph_ok g \<Longrightarrow> add_unit g u = Inr g' \<Longrightarrow> graph_ok g'"
  by (auto simp: add_unit_def graph_ok_def keyed_units_set)

lemma remove_unit_ok: "graph_ok g \<Longrightarrow> remove_unit g i = Inr g' \<Longrightarrow> graph_ok g'"
  by (auto simp: remove_unit_def Let_def graph_ok_def keyed_units_pop)

lemma add_edge_simps [simp]:
  "units (add_edge g e) = units g" "edges (add_edge g e) = edges g @ [e]"
  "graph_metadata (add_edge g e) = graph_metadata g" "version (add_edge g e) = version g"
  "graph_id (add_edge g e) = graph_id g" "graph_ok (add_edge g e) = graph_ok g"
  by (simp_all add: add_edge_def graph_ok_def)

lemma fold_add_edge [simp]:
  "fold (\<lambda>e g. add_edge g e) es g = g\<lparr>edges := edges g @ es\<rparr>"
  by (induction es arbitrary: g) (simp_all add: add_edge_def)

lemma remove_edge_simps [simp]:
  "units (remove_edge g s t et sp tp) = units g"
  "graph_metadata (remove_edge g s t et sp tp) = graph_metadata g"
  "version (remove_edge g s t et sp tp) = version g"
  "graph_id (remove_edge g s t et sp tp) = graph_id g"
  "graph_ok (remove_edge g s t et sp tp) = graph_ok g"
  by (simp_all add: remove_edge_def graph_ok_def)

text \<open>
  Editing the unit dictionary is the keyed store of the prelude: removing a unit that was
  just added gives back every lookup.
\<close>

lemma add_remove_unit_edges:
  assumes "add_unit g u = Inr g'"
    and "\<forall>e\<in>set (edges g). src e \<noteq> uid_value (unit_id u) \<and> tgt e \<noteq> uid_value (unit_id u)"
  shows "remove_unit g' (unit_id u) = Inr g"
proof -
  let ?k = "uid_value (unit_id u)"
  from assms(1) have new: "?k \<notin> fst ` set (units g)"
    and g': "g' = g\<lparr>units := units g @ [(?k, u)]\<rparr>"
    by (auto simp: add_unit_def dict_set_new)
  have "filter (\<lambda>e. src e \<noteq> ?k \<and> tgt e \<noteq> ?k) (edges g) = edges g"
    using assms(2) by simp
  with new show ?thesis
    by (simp add: remove_unit_def g' Let_def)
qed

section \<open>Properties\<close>

text \<open>
  An identifier that was retired is refused for ever: whatever calls of \<open>register_unit\<close>
  and \<open>retire_unit\<close> a client makes in between, registering it raises the identity violation
  and the active and retired identifiers stay disjoint.
\<close>

theorem retired_identity_refused:
  assumes "registry_inv r" and "uid_value u \<in> retired_units r"
  shows "register_unit (registry_run r cs) u =
      Inl (ValueError (''Identity Violation: Retired UnitID '' @ uid_value u @ '' cannot be reused.''))
    \<and> active_units (registry_run r cs) \<inter> retired_units (registry_run r cs) = {}"
proof -
  from registry_run_permanence [OF assms(1), of cs] assms(2)
  have "uid_value u \<in> retired_units (registry_run r cs)" "registry_inv (registry_run r cs)" by auto
  then show ?thesis by (simp add: register_unit_def registry_inv_def)
qed

theorem retired_identity_refused_witness:
  "register_unit (registry_run \<lparr>active_units = {''b''}, retired_units = {''a''}\<rparr>
       [Register (UnitID ''c''), Retire (UnitID ''b''), Register (UnitID ''a'')]) (UnitID ''a'') =
      Inl (ValueError ''Identity Violation: Retired UnitID a cannot be reused.'')"
  using retired_identity_refused
    [of "\<lparr>active_units = {''b''}, retired_units = {''a''}\<rparr>" "UnitID ''a''"
        "[Register (UnitID ''c''), Retire (UnitID ''b''), Register (UnitID ''a'')]"]
  by (simp add: registry_inv_def)

end
