(* ===== verification/IR_Validator.thy ===== *)
theory IR_Validator
  imports IR_Graph
begin

text \<open>
  The validator of \<open>ir/validator.py\<close>. Each check appends to a list of errors; the model
  returns the list, in the order of the code. The second half states what a valid graph is
  without reference to the loops (\<open>wf_graph\<close>, \<open>context_admits\<close>) and proves that the validator
  decides exactly that.
\<close>

section \<open>The validator\<close>

record validation_error =
  err_tier :: enforcement_tier
  err_code :: string
  err_message :: string
  err_target :: string

record validation_result =
  is_valid :: bool
  errors :: "validation_error list"
  warnings :: "validation_error list"

definition inv_error :: "string \<Rightarrow> string \<Rightarrow> string \<Rightarrow> validation_error" where
  "inv_error code msg target =
     \<lparr>err_tier = INVARIANT, err_code = code, err_message = msg, err_target = target\<rparr>"

definition edge_label :: "edge \<Rightarrow> string" where
  "edge_label e = src e @ ''->'' @ tgt e"

definition unit_errors :: "string \<Rightarrow> computational_unit \<Rightarrow> validation_error list" where
  "unit_errors uid u = (let effects = side_effects (contract u); idem = idempotency (contract u) in
     (if \<not> validate_dimensions u
      then [inv_error ''INV_UNIT_DIMENSION''
              (''Unit '' @ uid @ '' violates dimensional structure rules.'') uid] else [])
   @ (if \<not> validate_ports (contract u)
      then [inv_error ''INV_PORT_ID_DUPLICATE''
              (''Unit '' @ uid @ '' declares duplicate port identifiers.'') uid] else [])
   @ (if classification effects \<noteq> SE_NONE \<and> idem_mode idem = IM_NONE
      then [inv_error ''INV_EFFECT_IDEMPOTENCY_REQUIRED''
              (''Effectful unit '' @ uid @ '' MUST declare idempotency semantics.'') uid] else [])
   @ (if classification effects = IRREVERSIBLE \<and> idem_mode idem \<notin> {KEY_REQUIRED, AT_MOST_ONCE}
      then [inv_error ''INV_IRREVERSIBLE_EFFECT_DUPLICATION_CONTROL''
              (''Irreversible unit '' @ uid
               @ '' MUST require an idempotency key or at-most-once dispatch.'') uid] else []))"

definition validate_edge_contract ::
  "computational_unit \<Rightarrow> computational_unit \<Rightarrow> edge \<Rightarrow> validation_error list" where
  "validate_edge_contract su tu e =
     (let typed_endpoints = (ports (contract su) \<noteq> [] \<or> ports (contract tu) \<noteq> []) in
      if (source_port e = None) \<noteq> (target_port e = None)
      then [inv_error ''INV_EDGE_PORT_BINDING_INCOMPLETE''
              ''An edge port binding MUST name both source and target ports.'' (edge_label e)]
      else (case (source_port e, target_port e) of
         (Some spid, Some tpid) \<Rightarrow>
           (case (port (contract su) spid, port (contract tu) tpid) of
              (Some sp, Some tp) \<Rightarrow>
                (if direction sp \<noteq> OUTPUT \<or> direction tp \<noteq> INPUT
                 then [inv_error ''INV_EDGE_PORT_DIRECTION''
                         ''Edges MUST connect OUTPUT ports to INPUT ports.'' (edge_label e)] else [])
              @ (if port_kind_value (port_kind sp) \<noteq> edge_type_value (edge_type e)
                    \<or> port_kind_value (port_kind tp) \<noteq> edge_type_value (edge_type e)
                 then [inv_error ''INV_EDGE_PORT_KIND''
                         ''Edge type MUST match both bound port kinds.'' (edge_label e)] else [])
              @ (if \<not> py_eq (PDict (schema sp)) (PDict (schema tp))
                 then [inv_error ''INV_EDGE_SCHEMA_MISMATCH''
                         ''Bound source and target port schemas MUST be equal.'' (edge_label e)] else [])
            | _ \<Rightarrow> [inv_error ''INV_EDGE_PORT_MISSING''
                      ''Edge references an undeclared source or target port.'' (edge_label e)])
       | _ \<Rightarrow>
           (if typed_endpoints
            then [inv_error ''INV_EDGE_PORT_BINDING_REQUIRED''
                    ''Edges touching typed units MUST bind source and target ports.'' (edge_label e)]
            else [])))"

definition locality_error ::
  "string \<Rightarrow> string set \<Rightarrow> string set \<Rightarrow> edge \<Rightarrow> validation_error list" where
  "locality_error name source_values target_values e =
     (if source_values \<noteq> {} \<and> target_values \<noteq> {} \<and> source_values \<inter> target_values = {}
      then [inv_error ''INV_EDGE_LOCALITY_CONFLICT''
              (''Local-input edge has incompatible '' @ name @ ''.'') (edge_label e)] else [])"

definition validate_edge_governance ::
  "computational_unit \<Rightarrow> computational_unit \<Rightarrow> edge \<Rightarrow> validation_error list" where
  "validate_edge_governance su tu e =
     (let ss = security (contract su); ts = security (contract tu);
          sp = placement (contract su); tp = placement (contract tu) in
     (if sec_tenant_id ss \<noteq> None \<and> sec_tenant_id ts \<noteq> None \<and> sec_tenant_id ss \<noteq> sec_tenant_id ts
      then [inv_error ''INV_EDGE_TENANT_MISMATCH''
              ''Edges cannot cross explicit tenant boundaries.'' (edge_label e)] else [])
   @ (if edge_type_value (edge_type e) \<in> {''DATA'', ''STATE'', ''RESOURCE''}
         \<and> classification_rank (output_classification ss)
             > classification_rank (maximum_input_classification ts)
      then [inv_error ''INV_EDGE_CLASSIFICATION_DOWNGRADE''
              ''Target cannot accept the source data classification.'' (edge_label e)] else [])
   @ (if allowed_residencies ss \<noteq> {} \<and> allowed_residencies ts \<noteq> {}
         \<and> allowed_residencies ss \<inter> allowed_residencies ts = {}
      then [inv_error ''INV_EDGE_RESIDENCY_CONFLICT''
              ''Connected units have no common permitted data residency.'' (edge_label e)] else [])
   @ (if sec_trust_zone ss \<noteq> [] \<and> accepted_trust_zones ts \<noteq> {}
         \<and> sec_trust_zone ss \<notin> accepted_trust_zones ts
      then [inv_error ''INV_EDGE_TRUST_ZONE_DENIED''
              ''Target does not accept the source trust zone.'' (edge_label e)] else [])
   @ (if requires_local_inputs tp
      then locality_error ''allowed_regions'' (allowed_regions sp) (allowed_regions tp) e
         @ locality_error ''allowed_devices'' (allowed_devices sp) (allowed_devices tp) e
         @ locality_error ''allowed_runtimes'' (allowed_runtimes sp) (allowed_runtimes tp) e
      else []))"

type_synonym edge_identity = "string \<times> string option \<times> string \<times> string option \<times> string"

definition edge_identity :: "edge \<Rightarrow> edge_identity" where
  "edge_identity e = (src e, source_port e, tgt e, target_port e, edge_type_value (edge_type e))"

text \<open>The loop over the edges, with the set of identities seen so far.\<close>

fun edge_loop ::
  "(string, computational_unit) dict \<Rightarrow> edge_identity set \<Rightarrow> edge list \<Rightarrow> validation_error list" where
  "edge_loop us seen [] = []"
| "edge_loop us seen (e # es) =
     (if edge_identity e \<in> seen
      then [inv_error ''INV_EDGE_DUPLICATE''
              ''Duplicate edges between the same port pair are forbidden.'' (edge_label e)] else [])
   @ (if map_of us (src e) = None
      then [inv_error ''INV_EDGE_SOURCE_MISSING''
              (''Edge references non-existent source unit '' @ src e @ ''.'') (src e)] else [])
   @ (if map_of us (tgt e) = None
      then [inv_error ''INV_EDGE_TARGET_MISSING''
              (''Edge references non-existent target unit '' @ tgt e @ ''.'') (tgt e)] else [])
   @ (case (map_of us (src e), map_of us (tgt e)) of
        (Some su, Some tu) \<Rightarrow> validate_edge_contract su tu e @ validate_edge_governance su tu e
      | _ \<Rightarrow> [])
   @ edge_loop us (insert (edge_identity e) seen) es"

text \<open>\<open>collections.Counter\<close>: a dictionary whose missing keys count 0.\<close>

type_synonym counter = "(string \<times> string, nat) dict"

definition counter_get :: "counter \<Rightarrow> string \<times> string \<Rightarrow> nat" where
  "counter_get c k = (case map_of c k of None \<Rightarrow> 0 | Some n \<Rightarrow> n)"

definition counter_inc :: "string \<times> string \<Rightarrow> counter \<Rightarrow> counter" where
  "counter_inc k c = dict_set k (counter_get c k + 1) c"

fun connection_counts :: "counter \<Rightarrow> edge list \<Rightarrow> counter" where
  "connection_counts c [] = c"
| "connection_counts c (e # es) =
     (let c1 = (case source_port e of None \<Rightarrow> c | Some p \<Rightarrow> counter_inc (src e, p) c);
          c2 = (case target_port e of None \<Rightarrow> c1 | Some p \<Rightarrow> counter_inc (tgt e, p) c1)
      in connection_counts c2 es)"

definition port_cardinality_errors ::
  "counter \<Rightarrow> string \<Rightarrow> port_contract \<Rightarrow> validation_error list" where
  "port_cardinality_errors counts uid p =
     (let count = counter_get counts (uid, port_id p) in
      if count < card_minimum (cardinality p)
         \<or> (case card_maximum (cardinality p) of None \<Rightarrow> False | Some m \<Rightarrow> count > m)
      then [inv_error ''INV_PORT_CARDINALITY''
              (''Port '' @ uid @ ''.'' @ port_id p @ '' has '' @ show_nat count
               @ '' connections; requires '' @ cardinality_value (cardinality p) @ ''.'') uid]
      else [])"

definition constraint_errors :: "string \<Rightarrow> unit_constraint \<Rightarrow> validation_error list" where
  "constraint_errors uid c =
     (if constraint_tier c = INVARIANT \<and> expression c = []
      then [inv_error ''INV_CONSTRAINT_EMPTY''
              (''Unit '' @ uid @ '' has empty invariant constraint '' @ constraint_id c @ ''.'') uid]
      else [])"

definition constraint_warnings :: "string \<Rightarrow> unit_constraint \<Rightarrow> validation_error list" where
  "constraint_warnings uid c =
     (if constraint_tier c = CONSTRAINT \<and> expression c = []
      then [\<lparr>err_tier = CONSTRAINT, err_code = ''WARN_CONSTRAINT_EMPTY'',
              err_message = ''Unit '' @ uid @ '' has empty negotiable constraint '' @ constraint_id c @ ''.'',
              err_target = uid\<rparr>]
      else [])"

definition validate_graph :: "structural_graph \<Rightarrow> validation_result" where
  "validate_graph g =
     (let counts = connection_counts [] (edges g);
          errs = concat (map (\<lambda>(uid, u). unit_errors uid u) (units g))
               @ edge_loop (units g) {} (edges g)
               @ concat (map (\<lambda>(uid, u).
                   concat (map (port_cardinality_errors counts uid) (ports (contract u)))) (units g))
               @ concat (map (\<lambda>(uid, u).
                   concat (map (constraint_errors uid) (constraints u))) (units g));
          warns = concat (map (\<lambda>(uid, u).
                   concat (map (constraint_warnings uid) (constraints u))) (units g))
      in \<lparr>is_valid = (length errs = 0), errors = errs, warnings = warns\<rparr>)"

definition context_checks ::
  "computational_unit \<Rightarrow> execution_context \<Rightarrow> (bool \<times> string \<times> string) list" where
  "context_checks u ctx =
     (let sec = security (contract u); pl = placement (contract u); eff = side_effects (contract u) in
     [(sec_tenant_id sec \<noteq> None \<and> sec_tenant_id sec \<noteq> Some (ctx_tenant_id ctx),
         ''CTX_TENANT_MISMATCH'', ''execution tenant does not match the unit tenant''),
      (\<not> required_permissions sec \<subseteq> permissions ctx,
         ''CTX_PERMISSION_MISSING'', ''execution context lacks required permissions''),
      (isolation_rank (isolation_grade ctx) < isolation_rank (minimum_isolation eff),
         ''CTX_ISOLATION_INSUFFICIENT'', ''execution isolation is below the unit minimum''),
      (allowed_regions pl \<noteq> {} \<and> region ctx \<notin> allowed_regions pl,
         ''CTX_REGION_DENIED'', ''execution region is not allowed''),
      (allowed_devices pl \<noteq> {} \<and> device ctx \<notin> allowed_devices pl,
         ''CTX_DEVICE_DENIED'', ''execution device is not allowed''),
      (allowed_runtimes pl \<noteq> {} \<and> runtime ctx \<notin> allowed_runtimes pl,
         ''CTX_RUNTIME_DENIED'', ''execution runtime is not allowed''),
      (\<not> required_capabilities pl \<subseteq> capabilities ctx,
         ''CTX_CAPABILITY_MISSING'', ''execution context lacks placement capabilities''),
      (accepted_trust_zones sec \<noteq> {} \<and> ctx_trust_zone ctx \<notin> accepted_trust_zones sec,
         ''CTX_TRUST_ZONE_DENIED'', ''execution trust zone is not accepted''),
      (sec_trust_zone sec \<noteq> [] \<and> ctx_trust_zone ctx \<noteq> sec_trust_zone sec,
         ''CTX_UNIT_TRUST_ZONE_MISMATCH'', ''execution trust zone does not match the unit declaration''),
      (allowed_residencies sec \<noteq> {} \<and> region ctx \<notin> allowed_residencies sec,
         ''CTX_RESIDENCY_DENIED'', ''execution region violates data residency''),
      (confidential_compute_required sec \<and> \<not> confidential_compute ctx,
         ''CTX_CONFIDENTIAL_COMPUTE_REQUIRED'', ''unit requires confidential compute'')])"

definition validate_execution_context ::
  "structural_graph \<Rightarrow> execution_context \<Rightarrow> validation_result" where
  "validate_execution_context g ctx =
     (let errs = concat (map (\<lambda>(uid, u).
          concat (map (\<lambda>(failed, code, msg).
            if failed then [inv_error code (''Unit '' @ uid @ '': '' @ msg @ ''.'') uid] else [])
          (context_checks u ctx))) (units g))
      in \<lparr>is_valid = (errs = []), errors = errs, warnings = []\<rparr>)"

definition evaluate_conformance_level :: "structural_graph \<Rightarrow> nat" where
  "evaluate_conformance_level g =
     (if units g = [] \<and> edges g = [] then 0
      else if \<not> is_valid (validate_graph g) then 0
      else 4)"

section \<open>What a valid graph is\<close>

definition unit_wf :: "computational_unit \<Rightarrow> bool" where
  "unit_wf u \<longleftrightarrow>
     (unit_structure u = PRIMITIVE \<longrightarrow> sub_units u = [])
     \<and> distinct (map port_id (ports (contract u)))
     \<and> (classification (side_effects (contract u)) \<noteq> SE_NONE
          \<longrightarrow> idem_mode (idempotency (contract u)) \<noteq> IM_NONE)
     \<and> (classification (side_effects (contract u)) = IRREVERSIBLE
          \<longrightarrow> idem_mode (idempotency (contract u)) \<in> {KEY_REQUIRED, AT_MOST_ONCE})
     \<and> (\<forall>c\<in>set (constraints u). constraint_tier c = INVARIANT \<longrightarrow> expression c \<noteq> [])"

text \<open>
  An edge between typed units binds a declared output port to a declared input port of its
  own kind with the same schema; an edge between untyped units binds none.
\<close>

definition edge_typed :: "computational_unit \<Rightarrow> computational_unit \<Rightarrow> edge \<Rightarrow> bool" where
  "edge_typed su tu e \<longleftrightarrow>
     (source_port e = None \<and> target_port e = None
      \<and> ports (contract su) = [] \<and> ports (contract tu) = [])
   \<or> (\<exists>sp tp. source_port e \<noteq> None \<and> target_port e \<noteq> None
        \<and> port (contract su) (the (source_port e)) = Some sp
        \<and> port (contract tu) (the (target_port e)) = Some tp
        \<and> direction sp = OUTPUT \<and> direction tp = INPUT
        \<and> port_kind_value (port_kind sp) = edge_type_value (edge_type e)
        \<and> port_kind_value (port_kind tp) = edge_type_value (edge_type e)
        \<and> py_eq (PDict (schema sp)) (PDict (schema tp)))"

definition compatible :: "string set \<Rightarrow> string set \<Rightarrow> bool" where
  "compatible A B \<longleftrightarrow> A = {} \<or> B = {} \<or> A \<inter> B \<noteq> {}"

text \<open>
  Information flow along an edge: within one tenant, never to a unit cleared for less than the
  data's classification, within a common residency and an accepted trust zone, and to
  compatible locations when the target needs its inputs locally.
\<close>

definition edge_governed :: "computational_unit \<Rightarrow> computational_unit \<Rightarrow> edge \<Rightarrow> bool" where
  "edge_governed su tu e \<longleftrightarrow>
     (let ss = security (contract su); ts = security (contract tu);
          sp = placement (contract su); tp = placement (contract tu) in
     (\<forall>a b. sec_tenant_id ss = Some a \<longrightarrow> sec_tenant_id ts = Some b \<longrightarrow> a = b)
     \<and> (edge_type e \<in> {ET_DATA, ET_STATE, ET_RESOURCE}
          \<longrightarrow> output_classification ss \<le> maximum_input_classification ts)
     \<and> compatible (allowed_residencies ss) (allowed_residencies ts)
     \<and> (sec_trust_zone ss \<noteq> [] \<longrightarrow> compatible {sec_trust_zone ss} (accepted_trust_zones ts))
     \<and> (requires_local_inputs tp \<longrightarrow>
          compatible (allowed_regions sp) (allowed_regions tp)
          \<and> compatible (allowed_devices sp) (allowed_devices tp)
          \<and> compatible (allowed_runtimes sp) (allowed_runtimes tp)))"

text \<open>The number of edge ends bound to a port.\<close>

definition port_degree :: "edge list \<Rightarrow> string \<Rightarrow> string \<Rightarrow> nat" where
  "port_degree es uid pid =
     length (filter (\<lambda>e. src e = uid \<and> source_port e = Some pid) es)
   + length (filter (\<lambda>e. tgt e = uid \<and> target_port e = Some pid) es)"

definition within_cardinality :: "port_cardinality \<Rightarrow> nat \<Rightarrow> bool" where
  "within_cardinality c n \<longleftrightarrow>
     (case c of EXACTLY_ONE \<Rightarrow> n = 1 | ZERO_OR_ONE \<Rightarrow> n \<le> 1 | ONE_OR_MORE \<Rightarrow> n \<ge> 1 | ZERO_OR_MORE \<Rightarrow> True)"

definition wf_graph :: "structural_graph \<Rightarrow> bool" where
  "wf_graph g \<longleftrightarrow>
     (\<forall>(uid, u)\<in>set (units g).
        unit_wf u
        \<and> (\<forall>p\<in>set (ports (contract u)).
             within_cardinality (cardinality p) (port_degree (edges g) uid (port_id p))))
     \<and> distinct (map edge_identity (edges g))
     \<and> (\<forall>e\<in>set (edges g). \<exists>su tu.
          map_of (units g) (src e) = Some su \<and> map_of (units g) (tgt e) = Some tu
          \<and> edge_typed su tu e \<and> edge_governed su tu e)"

definition context_admits :: "execution_context \<Rightarrow> computational_unit \<Rightarrow> bool" where
  "context_admits ctx u \<longleftrightarrow>
     (let sec = security (contract u); pl = placement (contract u) in
     (\<forall>t. sec_tenant_id sec = Some t \<longrightarrow> t = ctx_tenant_id ctx)
     \<and> required_permissions sec \<subseteq> permissions ctx
     \<and> minimum_isolation (side_effects (contract u)) \<le> isolation_grade ctx
     \<and> region ctx \<in> (if allowed_regions pl = {} then UNIV else allowed_regions pl)
     \<and> device ctx \<in> (if allowed_devices pl = {} then UNIV else allowed_devices pl)
     \<and> runtime ctx \<in> (if allowed_runtimes pl = {} then UNIV else allowed_runtimes pl)
     \<and> required_capabilities pl \<subseteq> capabilities ctx
     \<and> ctx_trust_zone ctx \<in> (if accepted_trust_zones sec = {} then UNIV else accepted_trust_zones sec)
     \<and> (sec_trust_zone sec = [] \<or> ctx_trust_zone ctx = sec_trust_zone sec)
     \<and> region ctx \<in> (if allowed_residencies sec = {} then UNIV else allowed_residencies sec)
     \<and> (confidential_compute_required sec \<longrightarrow> confidential_compute ctx))"

section \<open>The validator decides well-formedness\<close>

lemma counter_get_inc:
  "counter_get (counter_inc k c) k' = counter_get c k' + (if k' = k then 1 else 0)"
  by (simp add: counter_inc_def counter_get_def)

lemma connection_counts_degree:
  "counter_get (connection_counts c es) (uid, pid) = counter_get c (uid, pid) + port_degree es uid pid"
proof (induction es arbitrary: c)
  case Nil
  show ?case by (simp add: port_degree_def)
next
  case (Cons e es)
  then show ?case
    by (auto simp: port_degree_def counter_get_inc split: option.splits)
qed

lemma port_cardinality_errors_Nil:
  "port_cardinality_errors (connection_counts [] es) uid p = []
   \<longleftrightarrow> within_cardinality (cardinality p) (port_degree es uid (port_id p))"
proof -
  have "counter_get (connection_counts [] es) (uid, port_id p) = port_degree es uid (port_id p)"
    by (simp add: connection_counts_degree) (simp add: counter_get_def)
  then show ?thesis
    by (cases "cardinality p")
      (auto simp: port_cardinality_errors_def within_cardinality_def card_minimum_def card_maximum_def
        Let_def split: if_splits)
qed

lemma unit_errors_Nil:
  "unit_wf u \<longleftrightarrow> unit_errors uid u = [] \<and> (\<forall>c\<in>set (constraints u). constraint_errors uid c = [])"
  by (auto simp: unit_errors_def unit_wf_def validate_dimensions_def validate_ports_iff
      constraint_errors_def Let_def)

lemma validate_edge_contract_Nil: "validate_edge_contract su tu e = [] \<longleftrightarrow> edge_typed su tu e"
  by (auto simp: validate_edge_contract_def edge_typed_def Let_def split: option.splits)

lemma locality_error_Nil [simp]: "locality_error name A B e = [] \<longleftrightarrow> compatible A B"
  by (auto simp: locality_error_def compatible_def)

lemma flow_edge_types:
  "edge_type_value t \<in> {''DATA'', ''STATE'', ''RESOURCE''} \<longleftrightarrow> t \<in> {ET_DATA, ET_STATE, ET_RESOURCE}"
  by (cases t) auto

lemma tenants_agree_iff:
  "(\<forall>a b. x = Some a \<longrightarrow> y = Some b \<longrightarrow> a = b) \<longleftrightarrow> \<not> (x \<noteq> None \<and> y \<noteq> None \<and> x \<noteq> y)"
  by (cases x; cases y) auto

lemma if_Nil_iff: "(if P then xs else []) = [] \<longleftrightarrow> (P \<longrightarrow> xs = [])"
  by simp

lemma disjoint_iff_compatible: "\<not> (A \<noteq> {} \<and> B \<noteq> {} \<and> A \<inter> B = {}) \<longleftrightarrow> compatible A B"
  by (auto simp: compatible_def)

lemma zone_iff_compatible:
  "\<not> (z \<noteq> [] \<and> A \<noteq> {} \<and> z \<notin> A) \<longleftrightarrow> (z \<noteq> [] \<longrightarrow> compatible {z} A)"
  by (auto simp: compatible_def)

lemma classification_flow_iff:
  "\<not> (P \<and> classification_rank a > classification_rank b) \<longleftrightarrow> (P \<longrightarrow> a \<le> b)"
  by (auto simp: less_eq_data_classification_def)

lemma validate_edge_governance_Nil:
  "validate_edge_governance su tu e = [] \<longleftrightarrow> edge_governed su tu e"
  unfolding validate_edge_governance_def edge_governed_def Let_def flow_edge_types
    append_is_Nil_conv if_single_Nil
  by (simp only: if_Nil_iff append_is_Nil_conv tenants_agree_iff locality_error_Nil
      disjoint_iff_compatible zone_iff_compatible classification_flow_iff)

lemma edge_loop_Nil:
  "edge_loop us seen es = [] \<longleftrightarrow>
     distinct (map edge_identity es) \<and> edge_identity ` set es \<inter> seen = {}
     \<and> (\<forall>e\<in>set es. \<exists>su tu. map_of us (src e) = Some su \<and> map_of us (tgt e) = Some tu
          \<and> edge_typed su tu e \<and> edge_governed su tu e)"
proof (induction es arbitrary: seen)
  case (Cons e es)
  show ?case
    by (cases "map_of us (src e)"; cases "map_of us (tgt e)")
      (auto simp: Cons.IH validate_edge_contract_Nil validate_edge_governance_Nil)
qed simp

lemma concat_units_Nil:
  "concat (map (\<lambda>(uid, u). f uid u) us) = [] \<longleftrightarrow> (\<forall>(uid, u)\<in>set us. f uid u = [])"
  by (auto simp: case_prod_unfold)

lemma units_wf_iff:
  "(\<forall>(uid, u)\<in>S. unit_wf u \<and> Q uid u) \<longleftrightarrow>
     (\<forall>(uid, u)\<in>S. unit_errors uid u = []) \<and> (\<forall>(uid, u)\<in>S. Q uid u)
     \<and> (\<forall>(uid, u)\<in>S. \<forall>c\<in>set (constraints u). constraint_errors uid c = [])"
proof -
  have "(\<forall>x\<in>S. unit_wf (snd x)) \<longleftrightarrow> (\<forall>x\<in>S. unit_errors (fst x) (snd x) = []
     \<and> (\<forall>c\<in>set (constraints (snd x)). constraint_errors (fst x) c = []))"
    by (rule ball_cong [OF refl unit_errors_Nil])
  then show ?thesis
    by (simp add: case_prod_unfold ball_conj_distrib conj_ac)
qed

lemma validate_graph_iff: "is_valid (validate_graph g) \<longleftrightarrow> wf_graph g"
proof -
  let ?counts = "connection_counts [] (edges g)"
  have "is_valid (validate_graph g) \<longleftrightarrow>
      (\<forall>(uid, u)\<in>set (units g). unit_errors uid u = [])
    \<and> edge_loop (units g) {} (edges g) = []
    \<and> (\<forall>(uid, u)\<in>set (units g).
         concat (map (port_cardinality_errors ?counts uid) (ports (contract u))) = [])
    \<and> (\<forall>(uid, u)\<in>set (units g). concat (map (constraint_errors uid) (constraints u)) = [])"
    by (simp only: validate_graph_def Let_def length_0_conv append_is_Nil_conv concat_units_Nil
        validation_result.simps)
  also have "\<dots> \<longleftrightarrow> wf_graph g"
    unfolding wf_graph_def edge_loop_Nil concat_eq_Nil_iff port_cardinality_errors_Nil units_wf_iff
    by auto
  finally show ?thesis .
qed

lemma member_or_any: "x \<in> (if A = {} then UNIV else A) \<longleftrightarrow> \<not> (A \<noteq> {} \<and> x \<notin> A)"
  by simp

lemma tenant_is_iff: "(\<forall>t. x = Some t \<longrightarrow> t = c) \<longleftrightarrow> \<not> (x \<noteq> None \<and> x \<noteq> Some c)"
  by (cases x) auto

lemma context_checks_admit:
  "(\<forall>(failed, _)\<in>set (context_checks u ctx). \<not> failed) \<longleftrightarrow> context_admits ctx u"
  unfolding context_checks_def context_admits_def Let_def less_eq_isolation_grade_def
    member_or_any tenant_is_iff
  by (simp only: list.set ball_simps prod.case not_not not_less de_Morgan_conj HOL.conj_assoc
      imp_conv_disj simp_thms)

lemma validate_execution_context_iff:
  "is_valid (validate_execution_context g ctx) \<longleftrightarrow> (\<forall>(uid, u)\<in>set (units g). context_admits ctx u)"
proof -
  have "is_valid (validate_execution_context g ctx) \<longleftrightarrow>
     (\<forall>(uid, u)\<in>set (units g). \<forall>(failed, _)\<in>set (context_checks u ctx). \<not> failed)"
    by (auto simp: validate_execution_context_def case_prod_unfold)
  then show ?thesis by (simp only: context_checks_admit)
qed

section \<open>Properties\<close>

text \<open>
  C2: The validator accepts a graph exactly when it is well formed: dimensions, port
  identifiers and effect contracts of every unit, existence, typing, governance and uniqueness
  of every edge, and the cardinality of every port.
\<close>

theorem validator_sound_complete: "is_valid (validate_graph g) = wf_graph g"
  by (rule validate_graph_iff)

text \<open>
  The execution-context check accepts exactly the contexts that every unit of the graph
  admits (tenant, permissions, isolation, placement, trust zone, residency, confidential
  compute).
\<close>

theorem context_check_sound_complete:
  "is_valid (validate_execution_context g ctx) = list_all (context_admits ctx) (map snd (units g))"
  unfolding validate_execution_context_iff by (auto simp: list_all_iff)

end
