(* ===== verification/Demo_Graphs.thy ===== *)
theory Demo_Graphs
  imports IR_Validator
begin

text \<open>
  Small concrete graphs and operations, at which the theorems with hypotheses are instantiated.
\<close>

definition demo_unit :: "string \<Rightarrow> computational_unit" where
  "demo_unit n = \<lparr>unit_id = UnitID n, unit_name = n, unit_structure = PRIMITIVE,
     visibility = OPAQUE, lifecycle = BASE, contract = UnitContract_default,
     mutation_contract = MutationContract_default, constraints = [], unit_metadata = [], sub_units = []\<rparr>"

definition demo_edge :: "string \<Rightarrow> string \<Rightarrow> edge" where
  "demo_edge a b = \<lparr>edge_source = UnitID a, edge_target = UnitID b, edge_type = ET_DATA,
     edge_metadata = [], source_port = None, target_port = None\<rparr>"

definition demo_graph :: structural_graph where
  "demo_graph = \<lparr>graph_id = GraphID ''g'', version = initial_version,
     units = [(''a'', demo_unit ''a''), (''b'', demo_unit ''b'')],
     edges = [demo_edge ''a'' ''b''],
     graph_metadata = [(''retired_unit_ids'', PList [PStr ''z''])]\<rparr>"

definition demo_add :: "string \<Rightarrow> ir_operation" where
  "demo_add n = \<lparr>op_type = ADD_UNIT, parameters = no_params\<lparr>p_unit := Some (demo_unit n)\<rparr>, rationale = []\<rparr>"

definition demo_remove :: "string \<Rightarrow> ir_operation" where
  "demo_remove n = \<lparr>op_type = REMOVE_UNIT, parameters = no_params\<lparr>p_unit_id := Some (UnitID n)\<rparr>, rationale = []\<rparr>"

definition demo_connect :: "string \<Rightarrow> string \<Rightarrow> ir_operation" where
  "demo_connect a b = \<lparr>op_type = CONNECT_UNITS, parameters = no_params\<lparr>p_source := Some (UnitID a),
     p_target := Some (UnitID b), p_edge_type := Some ET_DATA\<rparr>, rationale = []\<rparr>"

lemmas demo_defs = demo_unit_def demo_edge_def demo_graph_def demo_add_def demo_remove_def demo_connect_def
  no_params_def initial_version_def

lemma demo_graph_wf: "wf_graph demo_graph"
  unfolding validate_graph_iff [symmetric] by code_simp

end
