(* ===== verification/Mutation.thy ===== *)
theory Mutation
  imports Demo_Graphs
begin

text \<open>
  The mutation engine (\<open>mutation/engine.py\<close>) and its undo log (\<open>mutation/undo.py\<close>). Python
  mutates the graph in place, also on the paths that report a failure, so
  \<open>apply_operation\<close> returns the graph in every case. The lemmas give the invariants an
  operation keeps (keying, permanence of retired identifiers, version counting), the
  atomicity of a failed operation, and how far \<open>rollback\<close> undoes one operation.
\<close>

section \<open>The undo log\<close>

datatype inverse_op =
    InvRemoveUnit unit_id
  | InvRestoreUnit computational_unit "edge list"
  | InvDisconnect unit_id unit_id edge_type "string option" "string option"
  | InvRestoreEdges "edge list"
  | InvRewire unit_id unit_id unit_id unit_id

type_synonym undo_log = "inverse_op list"

definition undo_push :: "undo_log \<Rightarrow> inverse_op \<Rightarrow> undo_log" where
  "undo_push l i = l @ [i]"

definition undo_pop_all :: "undo_log \<Rightarrow> inverse_op list \<times> undo_log" where
  "undo_pop_all l = (rev l, [])"

section \<open>Applying an operation\<close>

record apply_outcome =
  success :: bool
  op_notes :: "string list"
  undo :: undo_log
  result_graph :: structural_graph

text \<open>
  \<open>str(e)\<close>: the message, which \<open>KeyError\<close> shows quoted.
\<close>

fun exc_message :: "exc \<Rightarrow> string" where
  "exc_message (ValueError m) = m"
| "exc_message (KeyError m) = [CHR 0x27] @ m @ [CHR 0x27]"
| "exc_message (TypeError m) = m"
| "exc_message (TimeoutError m) = m"
| "exc_message (RuntimeError m) = m"
| "exc_message (InvalidCheckpoint m) = m"
| "exc_message (StateComponentViolation m) = m"
| "exc_message (InvariantViolation m) = m"
| "exc_message (DAGCycle m) = m"
| "exc_message (CausalChainBroken m) = m"
| "exc_message (ProvenanceTamperingViolation m) = m"
| "exc_message (DNCValidationError m) = m"
| "exc_message (DNCPolicyError m) = m"
| "exc_message (PermissionError m) = m"
| "exc_message (OverflowError m) = m"
| "exc_message (AttributeError m) = m"
| "exc_message (AssertionError m) = m"
| "exc_message (DNCCapabilityError m) = m"
| "exc_message (DNCCalibrationError m) = m"
| "exc_message (DNCExecutionError m) = m"
| "exc_message (DNCVerificationError m) = m"

definition failure :: "structural_graph \<Rightarrow> string \<Rightarrow> apply_outcome" where
  "failure g msg = \<lparr>success = False, op_notes = [msg], undo = [], result_graph = g\<rparr>"

definition done_with :: "structural_graph \<Rightarrow> inverse_op \<Rightarrow> apply_outcome" where
  "done_with g i = \<lparr>success = True, op_notes = [], undo = undo_push [] i,
     result_graph = g\<lparr>version := next_sequence (version g)\<rparr>\<rparr>"

abbreviation retired_key :: string where "retired_key \<equiv> ''retired_unit_ids''"

text \<open>\<open>set(graph.metadata.get("retired_unit_ids", []))\<close>\<close>

definition retired_values :: "structural_graph \<Rightarrow> pyval list res" where
  "retired_values g = py_set (case map_of (graph_metadata g) retired_key of
     None \<Rightarrow> PList [] | Some v \<Rightarrow> v)"

text \<open>
  \<open>sorted(retired)\<close> after the removed identifier was added: the set holds a string, so the
  comparison of elements raises unless every element is one.
\<close>

definition sorted_with :: "string \<Rightarrow> pyval list \<Rightarrow> string list res" where
  "sorted_with uid vs =
     require (list_all is_pstr vs) (TypeError ''comparison not supported between instances'')
       (Inr (sort (remdups (uid # map pstr_val vs))))"

definition apply_add_unit :: "structural_graph \<Rightarrow> computational_unit \<Rightarrow> apply_outcome" where
  "apply_add_unit g u =
     (case retired_values g of
        Inl e \<Rightarrow> failure g (exc_message e)
      | Inr retired \<Rightarrow>
          if PStr (uid_value (unit_id u)) \<in> set retired
          then failure g (''Identity Violation: Retired UnitID '' @ uid_value (unit_id u)
                          @ '' cannot be reused.'')
          else (case add_unit g u of
                  Inl e \<Rightarrow> failure g (exc_message e)
                | Inr g' \<Rightarrow> done_with g' (InvRemoveUnit (unit_id u))))"

definition apply_remove_unit :: "structural_graph \<Rightarrow> unit_id \<Rightarrow> apply_outcome" where
  "apply_remove_unit g i = (let uid = uid_value i in
     (case map_of (units g) uid of
        None \<Rightarrow> failure g (''Unit '' @ uid @ '' not found for removal.'')
      | Some removed \<Rightarrow>
          (let incident = filter (\<lambda>e. src e = uid \<or> tgt e = uid) (edges g) in
           case remove_unit g i of
             Inl e \<Rightarrow> failure g (exc_message e)
           | Inr g1 \<Rightarrow>
               (case retired_values g1 of
                  Inl e \<Rightarrow> failure g1 (exc_message e)
                | Inr retired \<Rightarrow>
                    (case sorted_with uid retired of
                       Inl e \<Rightarrow> failure g1 (exc_message e)
                     | Inr ids \<Rightarrow>
                         done_with
                           (g1\<lparr>graph_metadata :=
                                dict_set retired_key (PList (map PStr ids)) (graph_metadata g1)\<rparr>)
                           (InvRestoreUnit removed incident))))))"

definition apply_connect ::
  "structural_graph \<Rightarrow> unit_id \<Rightarrow> unit_id \<Rightarrow> edge_type \<Rightarrow> op_params \<Rightarrow> apply_outcome" where
  "apply_connect g s t et p =
     done_with
       (add_edge g \<lparr>edge_source = s, edge_target = t, edge_type = et,
          edge_metadata = (case p_metadata p of None \<Rightarrow> [] | Some m \<Rightarrow> m),
          source_port = p_source_port p, target_port = p_target_port p\<rparr>)
       (InvDisconnect s t et (p_source_port p) (p_target_port p))"

definition apply_disconnect :: "structural_graph \<Rightarrow> unit_id \<Rightarrow> unit_id \<Rightarrow> op_params \<Rightarrow> apply_outcome" where
  "apply_disconnect g s t p =
     (let m = edge_matches s t (p_edge_type p) (p_source_port p) (p_target_port p) in
      done_with (g\<lparr>edges := filter (\<lambda>e. \<not> m e) (edges g)\<rparr>)
        (InvRestoreEdges (filter m (edges g))))"

text \<open>The loop that replaces the end points of the first edge between two units.\<close>

fun rewire_first ::
  "unit_id \<Rightarrow> unit_id \<Rightarrow> unit_id \<Rightarrow> unit_id \<Rightarrow> edge list \<Rightarrow> edge list option" where
  "rewire_first os ot ns nt [] = None"
| "rewire_first os ot ns nt (e # es) =
     (if src e = uid_value os \<and> tgt e = uid_value ot
      then Some (e\<lparr>edge_source := ns, edge_target := nt\<rparr> # es)
      else map_option ((#) e) (rewire_first os ot ns nt es))"

definition apply_rewire ::
  "structural_graph \<Rightarrow> unit_id \<Rightarrow> unit_id \<Rightarrow> unit_id \<Rightarrow> unit_id \<Rightarrow> apply_outcome" where
  "apply_rewire g os ot ns nt =
     (case rewire_first os ot ns nt (edges g) of
        None \<Rightarrow> failure g ''Edge to rewire not found.''
      | Some es \<Rightarrow> done_with (g\<lparr>edges := es\<rparr>) (InvRewire ns nt os ot))"

text \<open>
  A missing key of the parameter dictionary raises inside the \<open>try\<close> block; \<open>op_validate\<close>
  excludes it. The note on an unsupported type leaves out the rendering of the type.
\<close>

definition apply_operation :: "structural_graph \<Rightarrow> ir_operation \<Rightarrow> apply_outcome" where
  "apply_operation g op =
     (if \<not> op_validate op then failure g ''Operation parameters invalid.''
      else (let p = parameters op in
        (case op_type op of
           ADD_UNIT \<Rightarrow>
             (case p_unit p of Some u \<Rightarrow> apply_add_unit g u | None \<Rightarrow> failure g ''unit'')
         | REMOVE_UNIT \<Rightarrow>
             (case p_unit_id p of Some i \<Rightarrow> apply_remove_unit g i | None \<Rightarrow> failure g ''unit_id'')
         | CONNECT_UNITS \<Rightarrow>
             (case (p_source p, p_target p, p_edge_type p) of
                (Some s, Some t, Some et) \<Rightarrow> apply_connect g s t et p
              | _ \<Rightarrow> failure g ''source'')
         | DISCONNECT_UNITS \<Rightarrow>
             (case (p_source p, p_target p) of
                (Some s, Some t) \<Rightarrow> apply_disconnect g s t p
              | _ \<Rightarrow> failure g ''source'')
         | REWIRE_EDGE \<Rightarrow>
             (case (p_old_source p, p_old_target p, p_new_source p, p_new_target p) of
                (Some os, Some ot, Some ns, Some nt) \<Rightarrow> apply_rewire g os ot ns nt
              | _ \<Rightarrow> failure g ''old_source'')
         | _ \<Rightarrow> failure g ''Unsupported operation type'')))"

section \<open>Rolling back\<close>

definition undo_one :: "structural_graph \<Rightarrow> inverse_op \<Rightarrow> exc option \<times> structural_graph" where
  "undo_one g i =
     (case i of
        InvRemoveUnit u \<Rightarrow>
          (case remove_unit g u of Inl e \<Rightarrow> (Some e, g) | Inr g' \<Rightarrow> (None, g'))
      | InvRestoreUnit u es \<Rightarrow>
          (case add_unit g u of
             Inl e \<Rightarrow> (Some e, g)
           | Inr g' \<Rightarrow> (None, fold (\<lambda>e g. add_edge g e) es g'))
      | InvDisconnect s t et sp tp \<Rightarrow> (None, remove_edge g s t (Some et) sp tp)
      | InvRestoreEdges es \<Rightarrow> (None, fold (\<lambda>e g. add_edge g e) es g)
      | InvRewire os ot ns nt \<Rightarrow>
          (None, case rewire_first os ot ns nt (edges g) of
                   None \<Rightarrow> g | Some es \<Rightarrow> g\<lparr>edges := es\<rparr>))"

fun undo_all :: "structural_graph \<Rightarrow> inverse_op list \<Rightarrow> exc option \<times> structural_graph" where
  "undo_all g [] = (None, g)"
| "undo_all g (i # js) =
     (case undo_one g i of (Some e, g') \<Rightarrow> (Some e, g') | (None, g') \<Rightarrow> undo_all g' js)"

definition rollback :: "structural_graph \<Rightarrow> undo_log \<Rightarrow> exc option \<times> structural_graph \<times> undo_log" where
  "rollback g log =
     (let (inverses, log') = undo_pop_all log in
      case undo_all g inverses of
        (Some e, g') \<Rightarrow> (Some e, g', log')
      | (None, g') \<Rightarrow> (None, g'\<lparr>version := next_sequence (version g')\<rparr>, log'))"

section \<open>Basic facts\<close>

lemma failure_simps [simp]:
  "success (failure g m) = False" "result_graph (failure g m) = g" "undo (failure g m) = []"
  by (simp_all add: failure_def)

lemma done_with_simps [simp]:
  "success (done_with g i)" "undo (done_with g i) = [i]"
  "result_graph (done_with g i) = g\<lparr>version := next_sequence (version g)\<rparr>"
  by (simp_all add: done_with_def undo_push_def)

lemmas apply_defs =
  apply_operation_def apply_add_unit_def apply_remove_unit_def apply_connect_def
  apply_disconnect_def apply_rewire_def

text \<open>
  The retired identifiers as the engine keeps them: a list of strings under the metadata
  key. \<open>retired_ids\<close> reads it as a set.
\<close>

definition retired_wf :: "structural_graph \<Rightarrow> bool" where
  "retired_wf g \<longleftrightarrow>
     (case map_of (graph_metadata g) retired_key of
        None \<Rightarrow> True | Some (PList vs) \<Rightarrow> list_all is_pstr vs | Some _ \<Rightarrow> False)"

definition retired_ids :: "structural_graph \<Rightarrow> string set" where
  "retired_ids g =
     (case map_of (graph_metadata g) retired_key of
        Some (PList vs) \<Rightarrow> pstr_val ` set vs | _ \<Rightarrow> {})"

lemma list_all_is_pstr: "list_all is_pstr vs \<Longrightarrow> vs = map PStr (map pstr_val vs)"
  by (induction vs) (auto simp: is_pstr_iff)

lemma retired_values_wf:
  assumes "retired_wf g"
  obtains xs where "retired_values g = Inr (map PStr xs)" and "retired_ids g = set xs"
proof (cases "map_of (graph_metadata g) retired_key")
  case None
  then show ?thesis
    using that [of "[]"] by (simp add: retired_values_def retired_ids_def)
next
  case (Some v)
  with assms obtain vs where v: "v = PList vs" and vs: "list_all is_pstr vs"
    by (auto simp: retired_wf_def split: pyval.splits)
  from vs have "vs = map PStr (map pstr_val vs)" by (rule list_all_is_pstr)
  then have "retired_values g = Inr (map PStr (map pstr_val vs))"
    using Some v py_set_PStrs [of "map pstr_val vs"] by (simp add: retired_values_def)
  moreover have "retired_ids g = set (map pstr_val vs)"
    by (simp add: retired_ids_def Some v)
  ultimately show ?thesis by (rule that)
qed

lemma sorted_with_PStr: "sorted_with uid (map PStr xs) = Inr (sort (remdups (uid # xs)))"
proof -
  have "list_all is_pstr (map PStr xs)" by (simp add: list_all_iff)
  then show ?thesis by (simp only: sorted_with_def require_simps py_iter_map_PStr)
qed

lemma sorted_with_set:
  "sorted_with uid (map PStr xs) = Inr ids \<Longrightarrow> set ids = insert uid (set xs)"
  by (auto simp: sorted_with_PStr simp del: remdups.simps)

lemma retired_frame:
  "graph_metadata g' = graph_metadata g
   \<Longrightarrow> retired_values g' = retired_values g \<and> retired_wf g' = retired_wf g
       \<and> retired_ids g' = retired_ids g"
  by (simp add: retired_values_def retired_wf_def retired_ids_def)

lemma retired_set:
  "graph_metadata g' = dict_set retired_key (PList (map PStr ids)) m
   \<Longrightarrow> retired_wf g' \<and> retired_ids g' = set ids"
  by (auto simp: retired_wf_def retired_ids_def list_all_iff image_image)

section \<open>The effect of a successful operation\<close>

text \<open>
  One case per kind of operation, with the resulting graph written out. The property proofs
  below start from this case distinction.
\<close>

lemma apply_add_unit_success:
  assumes "success (apply_add_unit g u)"
  obtains rv where "retired_values g = Inr rv" "PStr (uid_value (unit_id u)) \<notin> set rv"
    "uid_value (unit_id u) \<notin> fst ` set (units g)"
    "apply_add_unit g u = done_with (g\<lparr>units := units g @ [(uid_value (unit_id u), u)]\<rparr>)
       (InvRemoveUnit (unit_id u))"
proof -
  from assms obtain rv where rv: "retired_values g = Inr rv" "PStr (uid_value (unit_id u)) \<notin> set rv"
    by (auto simp: apply_add_unit_def split: sum.splits if_splits)
  with assms have new: "uid_value (unit_id u) \<notin> fst ` set (units g)"
    by (auto simp: apply_add_unit_def add_unit_def require_def split: sum.splits if_splits)
  with rv have "apply_add_unit g u = done_with (g\<lparr>units := units g @ [(uid_value (unit_id u), u)]\<rparr>)
       (InvRemoveUnit (unit_id u))"
    by (simp add: apply_add_unit_def add_unit_def dict_set_new)
  with rv new show ?thesis by (rule that)
qed

lemma apply_remove_unit_success:
  assumes "success (apply_remove_unit g i)"
  obtains removed rv ids where "map_of (units g) (uid_value i) = Some removed"
    "retired_values g = Inr rv" "sorted_with (uid_value i) rv = Inr ids"
    "apply_remove_unit g i = done_with
       (g\<lparr>units := dict_pop (uid_value i) (units g),
          edges := filter (\<lambda>e. src e \<noteq> uid_value i \<and> tgt e \<noteq> uid_value i) (edges g),
          graph_metadata := dict_set retired_key (PList (map PStr ids)) (graph_metadata g)\<rparr>)
       (InvRestoreUnit removed (filter (\<lambda>e. src e = uid_value i \<or> tgt e = uid_value i) (edges g)))"
proof -
  from assms obtain removed where r: "map_of (units g) (uid_value i) = Some removed"
    by (auto simp: apply_remove_unit_def Let_def split: option.splits)
  let ?g1 = "g\<lparr>units := dict_pop (uid_value i) (units g),
      edges := filter (\<lambda>e. src e \<noteq> uid_value i \<and> tgt e \<noteq> uid_value i) (edges g)\<rparr>"
  have rm: "remove_unit g i = Inr ?g1"
    using map_of_Some_keys [OF r] by (simp add: remove_unit_def Let_def)
  have fr: "retired_values ?g1 = retired_values g"
    using retired_frame [of ?g1 g] by simp
  from assms r rm fr obtain rv ids where rv: "retired_values g = Inr rv"
      and ids: "sorted_with (uid_value i) rv = Inr ids"
    by (auto simp: apply_remove_unit_def Let_def split: sum.splits)
  from that [OF r rv ids] r rm fr rv ids show ?thesis
    by (simp add: apply_remove_unit_def Let_def)
qed

lemma apply_operation_cases:
  assumes "success (apply_operation g op)"
  obtains (add) u where "apply_operation g op = apply_add_unit g u" "success (apply_add_unit g u)"
  | (remove) i where "apply_operation g op = apply_remove_unit g i" "success (apply_remove_unit g i)"
  | (connect) s t et where "apply_operation g op = apply_connect g s t et (parameters op)"
  | (disconnect) s t where "apply_operation g op = apply_disconnect g s t (parameters op)"
  | (rewire) os ot ns nt es where "apply_operation g op = apply_rewire g os ot ns nt"
      "rewire_first os ot ns nt (edges g) = Some es"
  using assms
  by (cases "op_type op")
    (auto simp: apply_operation_def Let_def apply_rewire_def
      split: if_splits option.splits)

lemma rewire_first_length: "rewire_first os ot ns nt es = Some es' \<Longrightarrow> length es' = length es"
  by (induction es arbitrary: es') (auto split: if_splits)

lemma apply_success_version:
  assumes "success (apply_operation g op)"
  shows "version (result_graph (apply_operation g op)) = next_sequence (version g)
    \<and> graph_id (result_graph (apply_operation g op)) = graph_id g"
  using assms
proof (cases rule: apply_operation_cases)
  case (add u)
  from add(2) show ?thesis by (rule apply_add_unit_success) (simp add: add(1))
next
  case (remove i)
  from remove(2) show ?thesis by (rule apply_remove_unit_success) (simp add: remove(1))
qed (simp_all add: apply_connect_def apply_disconnect_def apply_rewire_def Let_def)

lemma apply_success_ok:
  assumes "success (apply_operation g op)" and "graph_ok g"
  shows "graph_ok (result_graph (apply_operation g op))"
  using assms(1)
proof (cases rule: apply_operation_cases)
  case (add u)
  from add(2) show ?thesis
  proof (rule apply_add_unit_success)
    fix rv assume "uid_value (unit_id u) \<notin> fst ` set (units g)"
      and eq: "apply_add_unit g u = done_with (g\<lparr>units := units g @ [(uid_value (unit_id u), u)]\<rparr>)
         (InvRemoveUnit (unit_id u))"
    with assms(2) show ?thesis
      by (auto simp: add(1) graph_ok_def keyed_units_def)
  qed
next
  case (remove i)
  from remove(2) show ?thesis
    by (rule apply_remove_unit_success)
      (use assms(2) in \<open>simp add: remove(1) graph_ok_def keyed_units_pop\<close>)
qed (use assms(2) in \<open>simp_all add: apply_connect_def apply_disconnect_def apply_rewire_def
    Let_def graph_ok_def\<close>)

section \<open>Failed operations\<close>

lemma apply_remove_failure:
  assumes "retired_wf g" and "\<not> success (apply_remove_unit g i)"
  shows "result_graph (apply_remove_unit g i) = g"
proof (cases "map_of (units g) (uid_value i)")
  case None
  then show ?thesis by (simp add: apply_remove_unit_def Let_def)
next
  case (Some removed)
  let ?g1 = "g\<lparr>units := dict_pop (uid_value i) (units g),
      edges := filter (\<lambda>e. src e \<noteq> uid_value i \<and> tgt e \<noteq> uid_value i) (edges g)\<rparr>"
  from assms(1) obtain xs where xs: "retired_values g = Inr (map PStr xs)"
    by (rule retired_values_wf)
  have "retired_values ?g1 = retired_values g"
    using retired_frame [of ?g1 g] by simp
  moreover have "remove_unit g i = Inr ?g1"
    using map_of_Some_keys [OF Some] by (simp add: remove_unit_def Let_def)
  ultimately have "success (apply_remove_unit g i)"
    using Some xs by (simp add: apply_remove_unit_def Let_def sorted_with_PStr)
  with assms(2) show ?thesis by simp
qed

lemma apply_failure_unchanged:
  assumes "retired_wf g" and "\<not> success (apply_operation g op)"
  shows "result_graph (apply_operation g op) = g"
proof (cases "op_type op = REMOVE_UNIT \<and> op_validate op")
  case True
  then show ?thesis
    using assms apply_remove_failure by (auto simp: apply_operation_def Let_def split: option.splits)
next
  case False
  then show ?thesis
    using assms(2)
    by (cases "op_type op")
      (auto simp: apply_operation_def apply_add_unit_def apply_connect_def apply_disconnect_def
        apply_rewire_def Let_def split: option.splits sum.splits if_splits)
qed

section \<open>Identity permanence\<close>

definition identity_inv :: "structural_graph \<Rightarrow> bool" where
  "identity_inv g \<longleftrightarrow> graph_ok g \<and> retired_wf g \<and> fst ` set (units g) \<inter> retired_ids g = {}"

text \<open>A client's operations in sequence, each on the graph the one before left.\<close>

abbreviation engine_step :: "structural_graph \<Rightarrow> ir_operation \<Rightarrow> structural_graph" where
  "engine_step g op \<equiv> result_graph (apply_operation g op)"

definition engine_run :: "structural_graph \<Rightarrow> ir_operation list \<Rightarrow> structural_graph" where
  "engine_run = foldl engine_step"

lemma apply_success_identity:
  assumes "identity_inv g" and "success (apply_operation g op)"
  shows "identity_inv (result_graph (apply_operation g op))
    \<and> retired_ids g \<subseteq> retired_ids (result_graph (apply_operation g op))"
proof -
  let ?g' = "result_graph (apply_operation g op)"
  from assms have ok: "graph_ok ?g'"
    by (auto simp: identity_inv_def intro: apply_success_ok)
  from assms(1) have rwf: "retired_wf g" and disj: "fst ` set (units g) \<inter> retired_ids g = {}"
    by (auto simp: identity_inv_def)
  from rwf obtain xs where xs: "retired_values g = Inr (map PStr xs)" "retired_ids g = set xs"
    by (rule retired_values_wf)
  from assms(2) show ?thesis
  proof (cases rule: apply_operation_cases)
    case (add u)
    from add(2) show ?thesis
    proof (rule apply_add_unit_success)
      fix rv
      assume rv: "retired_values g = Inr rv" "PStr (uid_value (unit_id u)) \<notin> set rv"
        and eq: "apply_add_unit g u = done_with (g\<lparr>units := units g @ [(uid_value (unit_id u), u)]\<rparr>)
           (InvRemoveUnit (unit_id u))"
      have "retired_wf ?g' = retired_wf g \<and> retired_ids ?g' = retired_ids g"
        using retired_frame [of ?g' g] by (simp add: add(1) eq)
      moreover from rv xs have "uid_value (unit_id u) \<notin> retired_ids g" by auto
      ultimately show ?thesis
        using ok rwf disj by (auto simp: identity_inv_def add(1) eq)
    qed
  next
    case (remove i)
    from remove(2) show ?thesis
    proof (rule apply_remove_unit_success)
      fix removed rv ids
      assume rv: "retired_values g = Inr rv" and ids: "sorted_with (uid_value i) rv = Inr ids"
        and eq: "apply_remove_unit g i = done_with
           (g\<lparr>units := dict_pop (uid_value i) (units g),
              edges := filter (\<lambda>e. src e \<noteq> uid_value i \<and> tgt e \<noteq> uid_value i) (edges g),
              graph_metadata := dict_set retired_key (PList (map PStr ids)) (graph_metadata g)\<rparr>)
           (InvRestoreUnit removed (filter (\<lambda>e. src e = uid_value i \<or> tgt e = uid_value i) (edges g)))"
      from rv ids xs have "set ids = insert (uid_value i) (retired_ids g)"
        by (auto dest: sorted_with_set)
      moreover have "retired_wf ?g' \<and> retired_ids ?g' = set ids"
        by (rule retired_set [of _ _ "graph_metadata g"]) (simp add: remove(1) eq)
      moreover have "fst ` set (units ?g') = fst ` set (units g) - {uid_value i}"
        by (simp add: remove(1) eq)
      ultimately show ?thesis
        using ok disj by (auto simp: identity_inv_def)
    qed
  next
    case (connect s t et)
    have "retired_wf ?g' = retired_wf g \<and> retired_ids ?g' = retired_ids g"
      using retired_frame [of ?g' g] by (simp add: connect apply_connect_def)
    with ok rwf disj show ?thesis by (simp add: identity_inv_def connect apply_connect_def)
  next
    case (disconnect s t)
    have "retired_wf ?g' = retired_wf g \<and> retired_ids ?g' = retired_ids g"
      using retired_frame [of ?g' g] by (simp add: disconnect apply_disconnect_def Let_def)
    with ok rwf disj show ?thesis by (simp add: identity_inv_def disconnect apply_disconnect_def Let_def)
  next
    case (rewire os ot ns nt es)
    have "retired_wf ?g' = retired_wf g \<and> retired_ids ?g' = retired_ids g"
      using retired_frame [of ?g' g] by (simp add: rewire apply_rewire_def)
    with ok rwf disj show ?thesis by (simp add: identity_inv_def rewire apply_rewire_def)
  qed
qed

lemma apply_identity:
  assumes "identity_inv g"
  shows "identity_inv (result_graph (apply_operation g op))
    \<and> retired_ids g \<subseteq> retired_ids (result_graph (apply_operation g op))"
proof (cases "success (apply_operation g op)")
  case True
  with assms show ?thesis by (rule apply_success_identity)
next
  case False
  moreover from assms have "retired_wf g" by (simp add: identity_inv_def)
  ultimately show ?thesis
    using assms by (simp add: apply_failure_unchanged)
qed

interpretation engine: step_machine engine_step identity_inv
  "\<lambda>g h. retired_ids g \<subseteq> retired_ids h"
  using apply_identity by unfold_locales auto

lemma engine_run_identity:
  "identity_inv g \<Longrightarrow> identity_inv (engine_run g ops) \<and> retired_ids g \<subseteq> retired_ids (engine_run g ops)"
  unfolding engine_run_def using engine.run_inv engine.run_ext by blast

lemma removed_is_retired:
  assumes "identity_inv g" and "success (apply_remove_unit g i)"
  shows "uid_value i \<in> retired_ids (result_graph (apply_remove_unit g i))"
proof -
  from assms(1) obtain xs where xs: "retired_values g = Inr (map PStr xs)"
    by (auto simp: identity_inv_def elim: retired_values_wf)
  from assms(2) show ?thesis
  proof (rule apply_remove_unit_success)
    fix removed rv ids
    assume rv: "retired_values g = Inr rv" and ids: "sorted_with (uid_value i) rv = Inr ids"
      and eq: "apply_remove_unit g i = done_with
         (g\<lparr>units := dict_pop (uid_value i) (units g),
            edges := filter (\<lambda>e. src e \<noteq> uid_value i \<and> tgt e \<noteq> uid_value i) (edges g),
            graph_metadata := dict_set retired_key (PList (map PStr ids)) (graph_metadata g)\<rparr>)
         (InvRestoreUnit removed (filter (\<lambda>e. src e = uid_value i \<or> tgt e = uid_value i) (edges g)))"
    from rv ids xs have "uid_value i \<in> set ids" by (auto dest: sorted_with_set)
    moreover have "retired_ids (result_graph (apply_remove_unit g i)) = set ids"
      using retired_set [of "result_graph (apply_remove_unit g i)" ids "graph_metadata g"]
      by (simp add: eq)
    ultimately show ?thesis by simp
  qed
qed

section \<open>Rolling one operation back\<close>

lemma rollback_single:
  "rollback g [i] = (case undo_one g i of
     (Some e, g') \<Rightarrow> (Some e, g', []) | (None, g') \<Rightarrow> (None, g'\<lparr>version := next_sequence (version g')\<rparr>, []))"
  by (auto simp: rollback_def undo_pop_all_def split: prod.splits option.splits)

text \<open>What a rollback has to restore: the units by key and the edges, up to order.\<close>

definition same_structure :: "structural_graph \<Rightarrow> structural_graph \<Rightarrow> bool" where
  "same_structure g h \<longleftrightarrow> map_of (units g) = map_of (units h) \<and> mset (edges g) = mset (edges h)"

lemma no_incident_edges:
  assumes "wf_graph g" and "uid \<notin> fst ` set (units g)" and "e \<in> set (edges g)"
  shows "src e \<noteq> uid \<and> tgt e \<noteq> uid"
  using assms map_of_Some_keys unfolding wf_graph_def by metis

lemma rollback_add:
  assumes "wf_graph g" and "success (apply_add_unit g u)"
  shows "rollback (result_graph (apply_add_unit g u)) (undo (apply_add_unit g u))
    = (None, g\<lparr>version := next_sequence (next_sequence (version g))\<rparr>, [])"
  using assms(2)
proof (rule apply_add_unit_success)
  let ?k = "uid_value (unit_id u)"
  fix rv
  assume new: "?k \<notin> fst ` set (units g)"
    and eq: "apply_add_unit g u = done_with (g\<lparr>units := units g @ [(?k, u)]\<rparr>) (InvRemoveUnit (unit_id u))"
  have "filter (\<lambda>e. src e \<noteq> ?k \<and> tgt e \<noteq> ?k) (edges g) = edges g"
    using no_incident_edges [OF assms(1) new] by simp
  with new show ?thesis
    by (simp add: eq rollback_single undo_one_def remove_unit_def Let_def)
qed

lemma map_of_readd:
  "map_of d k = Some v \<Longrightarrow> map_of (dict_set k v (dict_pop k d)) = map_of d"
  by (rule ext) simp

lemma filter_partition_mset: "mset (filter P xs) + mset (filter (\<lambda>x. \<not> P x) xs) = mset xs"
  by (induction xs) auto

lemma rollback_remove:
  assumes "graph_ok g" and "success (apply_remove_unit g i)"
  obtains h where "rollback (result_graph (apply_remove_unit g i)) (undo (apply_remove_unit g i)) = (None, h, [])"
    and "same_structure h g" and "version h = next_sequence (next_sequence (version g))"
  using assms(2)
proof (rule apply_remove_unit_success)
  let ?k = "uid_value i"
  fix removed rv ids
  assume r: "map_of (units g) ?k = Some removed"
    and eq: "apply_remove_unit g i = done_with
         (g\<lparr>units := dict_pop ?k (units g),
            edges := filter (\<lambda>e. src e \<noteq> ?k \<and> tgt e \<noteq> ?k) (edges g),
            graph_metadata := dict_set retired_key (PList (map PStr ids)) (graph_metadata g)\<rparr>)
         (InvRestoreUnit removed (filter (\<lambda>e. src e = ?k \<or> tgt e = ?k) (edges g)))"
  from assms(1) r have k: "uid_value (unit_id removed) = ?k"
    by (auto simp: graph_ok_def keyed_units_def dest!: map_of_SomeD)
  let ?o = "apply_remove_unit g i"
  let ?h = "(result_graph ?o)\<lparr>units := dict_set ?k removed (dict_pop ?k (units g)),
     edges := filter (\<lambda>e. src e \<noteq> ?k \<and> tgt e \<noteq> ?k) (edges g) @ filter (\<lambda>e. src e = ?k \<or> tgt e = ?k) (edges g),
     version := next_sequence (next_sequence (version g))\<rparr>"
  have "rollback (result_graph ?o) (undo ?o) = (None, ?h, [])"
    by (simp add: eq rollback_single undo_one_def add_unit_def k)
  moreover have "same_structure ?h g"
    using map_of_readd [OF r] filter_partition_mset [of "\<lambda>e. src e = ?k \<or> tgt e = ?k" "edges g"]
    by (simp add: same_structure_def add.commute)
  ultimately show ?thesis by (rule that) simp
qed

lemma rollback_connect:
  "rollback (result_graph (apply_connect g s t et p)) (undo (apply_connect g s t et p))
   = (None, g\<lparr>edges := filter (\<lambda>e. \<not> edge_matches s t (Some et) (p_source_port p) (p_target_port p) e) (edges g),
             version := next_sequence (next_sequence (version g))\<rparr>, [])"
  by (simp add: apply_connect_def rollback_single undo_one_def remove_edge_def)
    (simp add: edge_matches_def split: option.splits)

lemma rollback_disconnect:
  obtains h where
    "rollback (result_graph (apply_disconnect g s t p)) (undo (apply_disconnect g s t p)) = (None, h, [])"
    and "same_structure h g" and "version h = next_sequence (next_sequence (version g))"
proof -
  let ?m = "edge_matches s t (p_edge_type p) (p_source_port p) (p_target_port p)"
  let ?h = "g\<lparr>edges := filter (\<lambda>e. \<not> ?m e) (edges g) @ filter ?m (edges g),
     version := next_sequence (next_sequence (version g))\<rparr>"
  have "rollback (result_graph (apply_disconnect g s t p)) (undo (apply_disconnect g s t p)) = (None, ?h, [])"
    by (simp add: apply_disconnect_def Let_def rollback_single undo_one_def)
  moreover have "same_structure ?h g"
    using filter_partition_mset [of ?m "edges g"] by (simp add: same_structure_def add.commute)
  ultimately show ?thesis by (rule that) simp
qed

lemma rewire_back:
  assumes "rewire_first os ot ns nt es = Some es'"
    and "\<forall>e\<in>set es. \<not> (src e = uid_value ns \<and> tgt e = uid_value nt)"
  shows "rewire_first ns nt os ot es' = Some es"
  using assms
proof (induction es arbitrary: es')
  case (Cons e es)
  show ?case
  proof (cases "src e = uid_value os \<and> tgt e = uid_value ot")
    case True
    then have "edge_source e = os" "edge_target e = ot"
      by (auto simp: unit_id.expand)
    with True Cons.prems show ?thesis by auto
  next
    case False
    with Cons.prems(1) obtain es1 where es1: "rewire_first os ot ns nt es = Some es1" "es' = e # es1"
      by auto
    from Cons.prems(2) have ne: "\<not> (src e = uid_value ns \<and> tgt e = uid_value nt)" by simp
    from Cons.IH [OF es1(1)] Cons.prems(2) have "rewire_first ns nt os ot es1 = Some es" by simp
    with ne show ?thesis by (auto simp: es1(2))
  qed
qed simp

lemma rollback_rewire:
  assumes "rewire_first os ot ns nt (edges g) = Some es"
    and "\<forall>e\<in>set (edges g). \<not> (src e = uid_value ns \<and> tgt e = uid_value nt)"
  shows "rollback (result_graph (apply_rewire g os ot ns nt)) (undo (apply_rewire g os ot ns nt))
    = (None, g\<lparr>version := next_sequence (next_sequence (version g))\<rparr>, [])"
  using assms(1) rewire_back [OF assms]
  by (simp add: apply_rewire_def rollback_single undo_one_def)

section \<open>Properties\<close>

lemma demo_graph_identity: "identity_inv demo_graph"
  by (simp add: identity_inv_def graph_ok_def keyed_units_def retired_wf_def retired_ids_def demo_defs)

text \<open>
  An operation that the engine reports as failed has left the graph as it was, so a failed
  mutation is atomic. The hypothesis is the format of the retired identifiers, which every
  operation of the engine keeps.
\<close>

theorem failed_operation_atomic:
  assumes "retired_wf g" and "\<not> success (apply_operation g op)"
  shows "result_graph (apply_operation g op) = g"
  using assms by (rule apply_failure_unchanged)

theorem failed_operation_atomic_witness:
  "result_graph (apply_operation demo_graph (demo_add ''z'')) = demo_graph"
proof (rule failed_operation_atomic)
  show "retired_wf demo_graph" by (simp add: retired_wf_def demo_defs)
  show "\<not> success (apply_operation demo_graph (demo_add ''z''))" by code_simp
qed

text \<open>
  C11: Identifiers are permanent. Over every sequence of operations, failed ones included, the
  unit dictionary stays keyed by the units' own identifiers and disjoint from the retired
  identifiers, no retired identifier is forgotten, and adding a unit with a retired identifier
  fails.
\<close>

theorem retired_units_never_return:
  assumes "identity_inv g" and "uid_value (unit_id u) \<in> retired_ids g"
  shows "identity_inv (engine_run g ops) \<and> retired_ids g \<subseteq> retired_ids (engine_run g ops)
    \<and> \<not> success (apply_add_unit (engine_run g ops) u)"
proof -
  let ?h = "engine_run g ops"
  from engine_run_identity [OF assms(1)] have inv: "identity_inv ?h" "retired_ids g \<subseteq> retired_ids ?h" by auto
  then obtain xs where "retired_values ?h = Inr (map PStr xs)" "retired_ids ?h = set xs"
    by (auto simp: identity_inv_def elim: retired_values_wf)
  with inv assms(2) show ?thesis by (auto simp: apply_add_unit_def)
qed

theorem retired_units_never_return_witness:
  "\<not> success (apply_add_unit (engine_run demo_graph [demo_add ''c'', demo_remove ''a'', demo_add ''z'']) (demo_unit ''z''))"
  using retired_units_never_return [OF demo_graph_identity, of "demo_unit ''z''"
      "[demo_add ''c'', demo_remove ''a'', demo_add ''z'']"]
  by (simp add: retired_ids_def demo_defs)

text \<open>
  Rolling a successful operation back with its undo log restores the units by key and the
  edges up to order, empties the log, raises nothing and moves the version on by two. A
  connection must not match an edge that was there, and a rewiring must not duplicate one: the
  inverses find their edge by its end points.
\<close>

definition undo_unambiguous :: "structural_graph \<Rightarrow> ir_operation \<Rightarrow> bool" where
  "undo_unambiguous g op = (let p = parameters op in
     (case op_type op of
        CONNECT_UNITS \<Rightarrow> list_all (\<lambda>e. \<not> edge_matches (the (p_source p)) (the (p_target p)) (p_edge_type p)
                           (p_source_port p) (p_target_port p) e) (edges g)
      | REWIRE_EDGE \<Rightarrow> list_all (\<lambda>e. \<not> (edge_source e = the (p_new_source p)
                           \<and> edge_target e = the (p_new_target p))) (edges g)
      | _ \<Rightarrow> True))"

lemma rollback_connect_exact:
  assumes "op_validate op" and "op_type op = CONNECT_UNITS" and "undo_unambiguous g op"
  shows "rollback (result_graph (apply_operation g op)) (undo (apply_operation g op))
    = (None, g\<lparr>version := next_sequence (next_sequence (version g))\<rparr>, [])"
proof -
  let ?p = "parameters op"
  from assms obtain s t et where p: "p_source ?p = Some s" "p_target ?p = Some t" "p_edge_type ?p = Some et"
    by (auto simp: op_validate_def Let_def)
  with assms have "apply_operation g op = apply_connect g s t et ?p"
    by (simp add: apply_operation_def Let_def)
  moreover from assms(2,3) p
  have "filter (\<lambda>e. \<not> edge_matches s t (Some et) (p_source_port ?p) (p_target_port ?p) e) (edges g) = edges g"
    by (simp add: undo_unambiguous_def Let_def list_all_iff)
  ultimately show ?thesis by (simp add: rollback_connect)
qed

lemma rollback_rewire_exact:
  assumes "op_type op = REWIRE_EDGE" and "success (apply_operation g op)" and "undo_unambiguous g op"
  shows "rollback (result_graph (apply_operation g op)) (undo (apply_operation g op))
    = (None, g\<lparr>version := next_sequence (next_sequence (version g))\<rparr>, [])"
proof -
  let ?p = "parameters op"
  from assms(1,2) obtain os ot ns nt es where p: "p_new_source ?p = Some ns" "p_new_target ?p = Some nt"
    and eq: "apply_operation g op = apply_rewire g os ot ns nt"
    and es: "rewire_first os ot ns nt (edges g) = Some es"
    by (auto simp: apply_operation_def apply_rewire_def Let_def split: if_splits option.splits)
  have "\<forall>e\<in>set (edges g). \<not> (src e = uid_value ns \<and> tgt e = uid_value nt)"
    using assms(1,3) p by (auto simp: undo_unambiguous_def Let_def list_all_iff unit_id.expand)
  from rollback_rewire [OF es this] show ?thesis by (simp add: eq)
qed

lemma same_structure_version [simp]: "same_structure (g\<lparr>version := v\<rparr>) g"
  by (simp add: same_structure_def)

theorem rollback_restores_structure:
  assumes "graph_ok g" and "wf_graph g" and "success (apply_operation g op)" and "undo_unambiguous g op"
  shows "\<exists>h. rollback (result_graph (apply_operation g op)) (undo (apply_operation g op)) = (None, h, [])
    \<and> same_structure h g \<and> version h = next_sequence (next_sequence (version g))"
proof (cases "op_type op")
  case ADD_UNIT
  with assms(3) obtain u where u: "apply_operation g op = apply_add_unit g u"
    by (auto simp: apply_operation_def Let_def split: if_splits option.splits)
  with rollback_add [OF assms(2), of u] assms(3) show ?thesis by simp
next
  case REMOVE_UNIT
  with assms(3) obtain i where i: "apply_operation g op = apply_remove_unit g i"
    by (auto simp: apply_operation_def Let_def split: if_splits option.splits)
  with assms(3) have "success (apply_remove_unit g i)" by simp
  from rollback_remove [OF assms(1) this] show ?thesis unfolding i by metis
next
  case CONNECT_UNITS
  with assms(3) have "op_validate op" by (auto simp: apply_operation_def split: if_splits)
  with rollback_connect_exact [OF _ CONNECT_UNITS assms(4)] show ?thesis by simp
next
  case DISCONNECT_UNITS
  with assms(3) obtain s t where d: "apply_operation g op = apply_disconnect g s t (parameters op)"
    by (auto simp: apply_operation_def Let_def split: if_splits option.splits)
  from rollback_disconnect [of g s t "parameters op"] show ?thesis unfolding d by metis
next
  case REWIRE_EDGE
  with rollback_rewire_exact [OF _ assms(3,4)] show ?thesis by simp
qed (use assms(3) in \<open>simp_all add: apply_operation_def Let_def split: if_splits\<close>)

theorem rollback_restores_structure_witness:
  "\<exists>h. rollback (result_graph (apply_operation demo_graph (demo_remove ''a'')))
         (undo (apply_operation demo_graph (demo_remove ''a''))) = (None, h, [])
     \<and> same_structure h demo_graph \<and> version h = next_sequence (next_sequence (version demo_graph))"
proof (rule rollback_restores_structure)
  show "graph_ok demo_graph" using demo_graph_identity by (simp add: identity_inv_def)
  show "wf_graph demo_graph" by (rule demo_graph_wf)
  show "success (apply_operation demo_graph (demo_remove ''a''))" by code_simp
  show "undo_unambiguous demo_graph (demo_remove ''a'')" by code_simp
qed

text \<open>
  Undoing a connection removes every edge of the graph that matches it, not only the edge
  it added: an omitted port matches all ports, so edges that were there before are lost.
\<close>

theorem connect_undo_removes_all_matching:
  "edges (fst (snd (rollback (result_graph (apply_connect g s t et p)) (undo (apply_connect g s t et p)))))
   = filter (\<lambda>e. \<not> edge_matches s t (Some et) (p_source_port p) (p_target_port p) e) (edges g)"
  by (simp add: rollback_connect)

end
