(* ===== verification/Provenance.thy ===== *)
theory Provenance
  imports Complex_Main Mutation
begin

text \<open>
  The provenance log (\<open>observability/provenance.py\<close>): an append-only list of events with a
  chain of integrity hashes, an index by event identifier and an index by cause. SHA-256, the
  rendering of the payload and of the time stamp as strings, the random identifiers and the
  clock are parameters of the model (\<open>hash_env\<close>, \<open>id_env\<close>); the n-th event draws the n-th
  identifier and the n-th clock reading.
\<close>

section \<open>The log\<close>

record 'p hash_env =
  sha256 :: "string \<Rightarrow> string"
  str_payload :: "'p \<Rightarrow> string"
  str_time :: "real \<Rightarrow> string"

record id_env =
  fresh_id :: "nat \<Rightarrow> string"
  clock :: "nat \<Rightarrow> real"

record 'p prov_event =
  event_id :: string
  event_type :: string
  timestamp :: real
  execution_id :: string
  step_index :: "int option"
  causal_ref :: "string option"
  payload :: 'p
  integrity_hash :: string

record 'p prov_log =
  log_execution_id :: string
  log_events :: "'p prov_event list"
  prev_hash :: string
  event_index :: "(string, 'p prov_event) dict"
  causal_index :: "(string, 'p prov_event list) dict"

definition genesis_hash :: string where
  "genesis_hash = replicate 64 (CHR ''0'')"

definition new_log :: "string \<Rightarrow> 'p prov_log" where
  "new_log eid = \<lparr>log_execution_id = eid, log_events = [], prev_hash = genesis_hash,
     event_index = [], causal_index = []\<rparr>"

definition show_opt_str :: "string option \<Rightarrow> string" where
  "show_opt_str x = (case x of None \<Rightarrow> ''None'' | Some s \<Rightarrow> s)"

definition show_opt_int :: "int option \<Rightarrow> string" where
  "show_opt_int x = (case x of None \<Rightarrow> ''None'' | Some n \<Rightarrow> show_int n)"

text \<open>
  The string that is hashed: the fields in the alphabetical order of their keys, as
  \<open>key=value\<close>, joined with \<open>|\<close>.
\<close>

definition event_text :: "'p hash_env \<Rightarrow> 'p prov_event \<Rightarrow> string" where
  "event_text env ev =
     ''causal_ref='' @ show_opt_str (causal_ref ev)
   @ ''|event_id='' @ event_id ev
   @ ''|event_type='' @ event_type ev
   @ ''|execution_id='' @ execution_id ev
   @ ''|payload='' @ str_payload env (payload ev)"

definition data_str :: "'p hash_env \<Rightarrow> 'p prov_event \<Rightarrow> string \<Rightarrow> string" where
  "data_str env ev prev =
     event_text env ev
   @ ''|prev_integrity_hash='' @ prev
   @ ''|step_index='' @ show_opt_int (step_index ev)
   @ ''|timestamp='' @ str_time env (timestamp ev)"

definition compute_hash :: "'p hash_env \<Rightarrow> 'p prov_event \<Rightarrow> string \<Rightarrow> string" where
  "compute_hash env ev prev = sha256 env (data_str env ev prev)"

definition prov_append ::
  "'p hash_env \<Rightarrow> id_env \<Rightarrow> 'p prov_log \<Rightarrow> string \<Rightarrow> int option \<Rightarrow> string option \<Rightarrow> 'p
   \<Rightarrow> 'p prov_event \<times> 'p prov_log" where
  "prov_append env ids lg etype step cref pl =
     (let n = length (log_events lg);
          ev0 = \<lparr>event_id = fresh_id ids n, event_type = etype, timestamp = clock ids n,
                 execution_id = log_execution_id lg, step_index = step, causal_ref = cref,
                 payload = pl, integrity_hash = []\<rparr>;
          ev = ev0\<lparr>integrity_hash := compute_hash env ev0 (prev_hash lg)\<rparr>;
          ci = (if truthy_opt cref
                then (let k = the cref;
                          old = (case map_of (causal_index lg) k of None \<Rightarrow> [] | Some l \<Rightarrow> l)
                      in dict_set k (old @ [ev]) (causal_index lg))
                else causal_index lg)
      in (ev, lg\<lparr>log_events := log_events lg @ [ev],
                  event_index := dict_set (event_id ev) ev (event_index lg),
                  causal_index := ci,
                  prev_hash := integrity_hash ev\<rparr>))"

fun verify_events :: "'p hash_env \<Rightarrow> string \<Rightarrow> 'p prov_event list \<Rightarrow> bool res" where
  "verify_events env prev [] = Inr True"
| "verify_events env prev (ev # evs) =
     require (compute_hash env ev prev = integrity_hash ev)
       (ProvenanceTamperingViolation (''Integrity hash mismatch at event '' @ event_id ev))
       (verify_events env (integrity_hash ev) evs)"

definition verify_chain :: "'p hash_env \<Rightarrow> 'p prov_log \<Rightarrow> bool res" where
  "verify_chain env lg =
     (if log_events lg = [] then Inr True else verify_events env genesis_hash (log_events lg))"

text \<open>
  The loop of \<open>query_causal_chain\<close>: nothing in the code bounds it, so it is a partial
  function, \<open>None\<close> being a loop that does not end.
\<close>

partial_function (option) causal_walk ::
  "(string, 'p prov_event) dict \<Rightarrow> string option \<Rightarrow> 'p prov_event list
   \<Rightarrow> ('p prov_event list res) option" where
  "causal_walk ix current chain =
     (case current of
        None \<Rightarrow> Some (Inr chain)
      | Some i \<Rightarrow>
          (case map_of ix i of
             None \<Rightarrow> Some (Inl (CausalChainBroken
                       (''Causal chain broken: event '' @ i @ '' not found in provenance log'')))
           | Some ev \<Rightarrow> causal_walk ix (causal_ref ev) (chain @ [ev])))"

definition query_causal_chain ::
  "'p prov_log \<Rightarrow> string \<Rightarrow> ('p prov_event list res) option" where
  "query_causal_chain lg i =
     map_option (\<lambda>r. case r of Inl e \<Rightarrow> Inl e | Inr chain \<Rightarrow> Inr (rev chain))
       (causal_walk (event_index lg) (Some i) [])"

text \<open>The breadth-first search of \<open>query_effects\<close>.\<close>

definition effects_of :: "(string, 'p prov_event list) dict \<Rightarrow> string \<Rightarrow> 'p prov_event list" where
  "effects_of ci k = (case map_of ci k of None \<Rightarrow> [] | Some l \<Rightarrow> l)"

function effects_loop ::
  "(string, 'p prov_event list) dict \<Rightarrow> string set \<Rightarrow> string list \<Rightarrow> 'p prov_event list
   \<Rightarrow> 'p prov_event list" where
  "effects_loop ci visited [] acc = acc"
| "effects_loop ci visited (cur # queue) acc =
     (if cur \<in> visited then effects_loop ci visited queue acc
      else effects_loop ci (insert cur visited) (queue @ map event_id (effects_of ci cur))
             (acc @ effects_of ci cur))"
  by pat_completeness auto
termination
proof (relation "measures [\<lambda>(ci, visited, queue, acc). card (fst ` set ci - visited),
                           \<lambda>(ci, visited, queue, acc). length queue]", goal_cases)
  case 1
  show ?case by simp
next
  case (2 ci visited cur queue acc)
  then show ?case by simp
next
  case (3 ci visited cur queue acc)
  show ?case
  proof (cases "cur \<in> fst ` set ci")
    case True
    with 3 have "fst ` set ci - insert cur visited \<subset> fst ` set ci - visited" by blast
    then have "card (fst ` set ci - insert cur visited) < card (fst ` set ci - visited)"
      by (intro psubset_card_mono) auto
    then show ?thesis by simp
  next
    case False
    then have "effects_of ci cur = []" by (simp add: effects_of_def map_of_None_iff [THEN iffD2])
    moreover from False have "fst ` set ci - insert cur visited = fst ` set ci - visited" by blast
    ultimately show ?thesis by simp
  qed
qed

definition query_effects :: "'p prov_log \<Rightarrow> string \<Rightarrow> 'p prov_event list" where
  "query_effects lg i = effects_loop (causal_index lg) {} [i] []"

definition prov_latest :: "'p prov_log \<Rightarrow> 'p prov_event option" where
  "prov_latest lg = (if log_events lg = [] then None else Some (last (log_events lg)))"

section \<open>The hash chain of an appended log\<close>

lemma verify_events_append:
  "verify_events env prev (xs @ ys) = Inr True \<longleftrightarrow>
     verify_events env prev xs = Inr True
     \<and> verify_events env (if xs = [] then prev else integrity_hash (last xs)) ys = Inr True"
  by (induction xs arbitrary: prev) auto

lemma verify_chain_iff:
  "verify_chain env lg = Inr True \<longleftrightarrow> verify_events env genesis_hash (log_events lg) = Inr True"
  by (simp add: verify_chain_def)

definition chain_inv :: "'p hash_env \<Rightarrow> 'p prov_log \<Rightarrow> bool" where
  "chain_inv env lg \<longleftrightarrow>
     verify_chain env lg = Inr True
     \<and> prev_hash lg = (if log_events lg = [] then genesis_hash
                        else integrity_hash (last (log_events lg)))"

lemma new_log_chain_inv: "chain_inv env (new_log eid)"
  by (simp add: chain_inv_def new_log_def verify_chain_def)

lemma prov_append_fields:
  assumes "prov_append env ids lg etype step cref pl = (ev, lg')"
  shows "log_events lg' = log_events lg @ [ev]"
    and "event_index lg' = dict_set (event_id ev) ev (event_index lg)"
    and "prev_hash lg' = integrity_hash ev"
    and "integrity_hash ev = compute_hash env ev (prev_hash lg)"
    and "event_id ev = fresh_id ids (length (log_events lg))"
    and "causal_ref ev = cref" and "payload ev = pl" and "event_type ev = etype"
    and "log_execution_id lg' = log_execution_id lg"
    and "causal_index lg' = (if truthy_opt cref
           then dict_set (the cref) (effects_of (causal_index lg) (the cref) @ [ev]) (causal_index lg)
           else causal_index lg)"
  using assms
  by (auto simp: prov_append_def Let_def compute_hash_def data_str_def event_text_def effects_of_def)

lemma prov_append_chain_inv:
  assumes "chain_inv env lg" and "prov_append env ids lg etype step cref pl = (ev, lg')"
  shows "chain_inv env lg'"
  using assms(1) prov_append_fields [OF assms(2)]
  by (auto simp: chain_inv_def verify_chain_iff verify_events_append)

section \<open>Causal structure\<close>

text \<open>
  A sequence of calls of \<open>append\<close>. A call names its cause by an identifier; \<open>append\<close> does
  not check that the identifier is in the lg.
\<close>

type_synonym 'p prov_call = "string \<times> int option \<times> string option \<times> 'p"

fun prov_run :: "'p hash_env \<Rightarrow> id_env \<Rightarrow> 'p prov_log \<Rightarrow> 'p prov_call list \<Rightarrow> 'p prov_log" where
  "prov_run env ids lg [] = lg"
| "prov_run env ids lg ((etype, step, cref, pl) # cs) =
     prov_run env ids (snd (prov_append env ids lg etype step cref pl)) cs"

definition index_inv :: "id_env \<Rightarrow> 'p prov_log \<Rightarrow> bool" where
  "index_inv ids lg \<longleftrightarrow>
     map event_id (log_events lg) = map (fresh_id ids) [0..<length (log_events lg)]
     \<and> event_index lg = map (\<lambda>ev. (event_id ev, ev)) (log_events lg)
     \<and> (\<forall>k. k \<noteq> [] \<longrightarrow>
          effects_of (causal_index lg) k = filter (\<lambda>ev. causal_ref ev = Some k) (log_events lg))
     \<and> effects_of (causal_index lg) [] = []"

lemma new_log_index_inv: "index_inv ids (new_log eid)"
  by (simp add: index_inv_def new_log_def effects_of_def)

lemma effects_of_set:
  "effects_of (dict_set k l ci) k' = (if k' = k then l else effects_of ci k')"
  by (simp add: effects_of_def)

lemma prov_append_index_inv:
  assumes inj: "inj (fresh_id ids)" and inv: "index_inv ids lg"
    and app: "prov_append env ids lg etype step cref pl = (ev, lg')"
  shows "index_inv ids lg'"
proof -
  note f = prov_append_fields [OF app]
  have ids_eq: "map event_id (log_events lg) = map (fresh_id ids) [0..<length (log_events lg)]"
    using inv by (simp add: index_inv_def)
  have "event_id ev \<notin> set (map event_id (log_events lg))"
    unfolding ids_eq f(5) using inj by (auto simp: inj_eq)
  then have "event_id ev \<notin> fst ` set (event_index lg)"
    using inv by (auto simp: index_inv_def)
  then have 1: "event_index lg' = map (\<lambda>ev. (event_id ev, ev)) (log_events lg')"
    using inv by (simp add: f index_inv_def dict_set_new)
  have 2: "map event_id (log_events lg') = map (fresh_id ids) [0..<length (log_events lg')]"
    using ids_eq by (simp add: f)
  have 3: "effects_of (causal_index lg') k = filter (\<lambda>ev. causal_ref ev = Some k) (log_events lg')"
    if "k \<noteq> []" for k
    using inv that
    by (auto simp: f index_inv_def effects_of_set truthy_opt_def split: option.splits)
  have 4: "effects_of (causal_index lg') [] = []"
    using inv by (auto simp: f index_inv_def effects_of_set truthy_opt_def split: option.splits)
  from 1 2 3 4 show ?thesis by (simp add: index_inv_def)
qed

lemma prov_run_invs:
  "inj (fresh_id ids) \<Longrightarrow> chain_inv env lg \<Longrightarrow> index_inv ids lg
   \<Longrightarrow> chain_inv env (prov_run env ids lg cs) \<and> index_inv ids (prov_run env ids lg cs)"
proof (induction env ids lg cs rule: prov_run.induct)
  case (2 env ids lg etype step cref pl cs)
  obtain ev lg' where app: "prov_append env ids lg etype step cref pl = (ev, lg')"
    by fastforce
  from 2 prov_append_chain_inv [OF _ app] prov_append_index_inv [OF _ _ app]
  show ?case by (simp add: app)
qed simp

section \<open>Causal chains\<close>

text \<open>Every event names an earlier event of the log as its cause, or none.\<close>

definition causally_closed :: "'p prov_log \<Rightarrow> bool" where
  "causally_closed lg \<longleftrightarrow>
     (\<forall>i<length (log_events lg). \<forall>c. causal_ref (log_events lg ! i) = Some c \<longrightarrow>
        (\<exists>j<i. event_id (log_events lg ! j) = c))"

text \<open>Each event of the list is the cause of the one before it.\<close>

fun linked :: "'p prov_event list \<Rightarrow> bool" where
  "linked (e # f # es) = (causal_ref e = Some (event_id f) \<and> linked (f # es))"
| "linked _ = True"

lemma index_inv_distinct:
  assumes "inj (fresh_id ids)" and "index_inv ids lg"
  shows "distinct (map event_id (log_events lg))"
proof -
  have "map event_id (log_events lg) = map (fresh_id ids) [0..<length (log_events lg)]"
    using assms(2) by (simp add: index_inv_def)
  then show ?thesis by (simp add: distinct_map inj_on_subset [OF assms(1)])
qed

lemma event_index_lookup:
  assumes "inj (fresh_id ids)" and "index_inv ids lg" and "ev \<in> set (log_events lg)"
  shows "map_of (event_index lg) (event_id ev) = Some ev"
proof -
  have "event_index lg = map (\<lambda>ev. (event_id ev, ev)) (log_events lg)"
    using assms(2) by (simp add: index_inv_def)
  moreover have "distinct (map fst (map (\<lambda>ev. (event_id ev, ev)) (log_events lg)))"
    using index_inv_distinct [OF assms(1,2)] by (simp add: comp_def)
  ultimately show ?thesis
    using assms(3) by (intro map_of_is_SomeI) auto
qed

lemma causal_walk_None: "causal_walk ix None chain = Some (Inr chain)"
  by (subst causal_walk.simps) simp

lemma causal_walk_ends:
  assumes "inj (fresh_id ids)" and "index_inv ids lg" and "causally_closed lg"
    and "i < length (log_events lg)"
  shows "\<exists>chain. causal_walk (event_index lg) (Some (event_id (log_events lg ! i))) acc
        = Some (Inr (acc @ (log_events lg ! i) # chain))
      \<and> linked ((log_events lg ! i) # chain)
      \<and> causal_ref (last ((log_events lg ! i) # chain)) = None
      \<and> set chain \<subseteq> set (log_events lg)"
  using assms(4)
proof (induction i arbitrary: acc rule: less_induct)
  case (less i)
  let ?e = "log_events lg ! i"
  from less.prems have "map_of (event_index lg) (event_id ?e) = Some ?e"
    by (intro event_index_lookup [OF assms(1,2)]) simp
  then have step: "causal_walk (event_index lg) (Some (event_id ?e)) acc
      = causal_walk (event_index lg) (causal_ref ?e) (acc @ [?e])"
    by (subst causal_walk.simps) simp
  show ?case
  proof (cases "causal_ref ?e")
    case None
    then show ?thesis
      by (intro exI [of _ "[]"]) (simp add: step causal_walk_None)
  next
    case (Some c)
    then obtain j where j: "j < i" "event_id (log_events lg ! j) = c"
      using assms(3) less.prems by (auto simp: causally_closed_def)
    with less.IH [of j "acc @ [?e]"] less.prems obtain chain where
      "causal_walk (event_index lg) (Some c) (acc @ [?e])
        = Some (Inr ((acc @ [?e]) @ (log_events lg ! j) # chain))"
      "linked ((log_events lg ! j) # chain)"
      "causal_ref (last ((log_events lg ! j) # chain)) = None" "set chain \<subseteq> set (log_events lg)"
      by auto
    with Some j less.prems show ?thesis
      by (intro exI [of _ "log_events lg ! j # chain"]) (auto simp: step)
  qed
qed

section \<open>Effects\<close>

inductive effect_of :: "'p prov_log \<Rightarrow> string \<Rightarrow> 'p prov_event \<Rightarrow> bool" for lg k where
  direct: "ev \<in> set (log_events lg) \<Longrightarrow> causal_ref ev = Some k \<Longrightarrow> effect_of lg k ev"
| further: "effect_of lg k ev' \<Longrightarrow> ev \<in> set (log_events lg) \<Longrightarrow> causal_ref ev = Some (event_id ev')
            \<Longrightarrow> effect_of lg k ev"

lemma effects_loop_complete:
  assumes "\<And>v ev. v \<in> visited \<Longrightarrow> ev \<in> set (effects_of ci v)
      \<Longrightarrow> ev \<in> set acc \<and> event_id ev \<in> visited \<union> set queue"
  shows "set acc \<subseteq> set (effects_loop ci visited queue acc)
    \<and> (\<exists>V. visited \<union> set queue \<subseteq> V \<and> (\<forall>v\<in>V. \<forall>ev\<in>set (effects_of ci v).
        ev \<in> set (effects_loop ci visited queue acc) \<and> event_id ev \<in> V))"
  using assms
proof (induction ci visited queue acc rule: effects_loop.induct)
  case (1 ci visited acc)
  then show ?case by (auto intro!: exI [of _ visited])
next
  case (2 ci visited cur queue acc)
  show ?case
  proof (cases "cur \<in> visited")
    case True
    with "2.IH"(1) "2.prems" show ?thesis by (simp add: insert_absorb)
  next
    case False
    let ?r = "effects_loop ci (insert cur visited) (queue @ map event_id (effects_of ci cur))
        (acc @ effects_of ci cur)"
    have eq: "effects_loop ci visited (cur # queue) acc = ?r" using False by simp
    have "set (acc @ effects_of ci cur) \<subseteq> set ?r
      \<and> (\<exists>V. insert cur visited \<union> set (queue @ map event_id (effects_of ci cur)) \<subseteq> V
          \<and> (\<forall>v\<in>V. \<forall>ev\<in>set (effects_of ci v). ev \<in> set ?r \<and> event_id ev \<in> V))"
      by (rule "2.IH"(2) [OF False]) (use "2.prems" in fastforce)
    then obtain V where V: "set (acc @ effects_of ci cur) \<subseteq> set ?r"
      "insert cur visited \<union> set (queue @ map event_id (effects_of ci cur)) \<subseteq> V"
      "\<forall>v\<in>V. \<forall>ev\<in>set (effects_of ci v). ev \<in> set ?r \<and> event_id ev \<in> V"
      by blast
    from V(1) have "set acc \<subseteq> set ?r" by simp
    moreover from V(2) have "visited \<union> set (cur # queue) \<subseteq> V" by simp
    ultimately show ?thesis unfolding eq using V(3) by blast
  qed
qed

lemma effects_loop_sound:
  assumes "\<And>q ev. R q \<Longrightarrow> ev \<in> set (effects_of ci q) \<Longrightarrow> S ev \<and> R (event_id ev)"
    and "\<forall>q\<in>set queue. R q" and "\<forall>ev\<in>set acc. S ev"
  shows "\<forall>ev\<in>set (effects_loop ci visited queue acc). S ev"
  using assms
proof (induction ci visited queue acc rule: effects_loop.induct)
  case (2 ci visited cur queue acc)
  show ?case
  proof (cases "cur \<in> visited")
    case True
    with 2 show ?thesis by simp
  next
    case False
    have "\<forall>ev\<in>set (effects_loop ci (insert cur visited) (queue @ map event_id (effects_of ci cur))
        (acc @ effects_of ci cur)). S ev"
      by (rule "2.IH"(2) [OF False]) (use 2 in \<open>auto\<close>)
    with False show ?thesis by simp
  qed
qed simp

lemma query_effects_exact:
  assumes inv: "index_inv ids lg" and ne: "\<And>n. fresh_id ids n \<noteq> []" and "k \<noteq> []"
  shows "set (query_effects lg k) = {ev. effect_of lg k ev}"
proof -
  have ids_ne: "event_id ev \<noteq> []" if "ev \<in> set (log_events lg)" for ev
  proof -
    from inv have "map event_id (log_events lg) = map (fresh_id ids) [0..<length (log_events lg)]"
      by (simp add: index_inv_def)
    then have "event_id ` set (log_events lg) = fresh_id ids ` set [0..<length (log_events lg)]"
      by (metis list.set_map)
    with that ne show ?thesis by (metis imageE imageI)
  qed
  have eff: "set (effects_of (causal_index lg) v) = {ev \<in> set (log_events lg). causal_ref ev = Some v}"
    if "v \<noteq> []" for v
    using inv that by (simp add: index_inv_def)
  have eff_in: "ev \<in> set (log_events lg)" if "ev \<in> set (effects_of (causal_index lg) v)" for ev v
    using inv that eff [of v] by (cases "v = []") (auto simp: index_inv_def)
  have sound: "\<forall>ev\<in>set (query_effects lg k). effect_of lg k ev"
    unfolding query_effects_def
  proof (rule effects_loop_sound
      [where R = "\<lambda>q. q = k \<or> (\<exists>ev. effect_of lg k ev \<and> event_id ev = q)"])
    fix q ev
    assume q: "q = k \<or> (\<exists>ev. effect_of lg k ev \<and> event_id ev = q)"
      and ev: "ev \<in> set (effects_of (causal_index lg) q)"
    from q have "q \<noteq> []"
      using \<open>k \<noteq> []\<close> ids_ne by (auto elim: effect_of.cases)
    from ev eff [OF this] have "ev \<in> set (log_events lg)" "causal_ref ev = Some q" by auto
    with q have "effect_of lg k ev" by (auto intro: effect_of.intros)
    then show "effect_of lg k ev \<and> (event_id ev = k \<or> (\<exists>ev'. effect_of lg k ev' \<and> event_id ev' = event_id ev))"
      by blast
  qed auto
  obtain V where kV: "k \<in> V" and V: "\<And>v ev. v \<in> V \<Longrightarrow> ev \<in> set (effects_of (causal_index lg) v)
      \<Longrightarrow> ev \<in> set (query_effects lg k) \<and> event_id ev \<in> V"
    using effects_loop_complete [of "{}" "causal_index lg" "[]" "[k]"]
    by (auto simp: query_effects_def)
  have "ev \<in> set (query_effects lg k) \<and> event_id ev \<in> V" if "effect_of lg k ev" for ev
    using that
  proof (induction rule: effect_of.induct)
    case (direct ev)
    with eff [OF \<open>k \<noteq> []\<close>] V [OF kV] show ?case by blast
  next
    case (further ev' ev)
    have "ev' \<in> set (log_events lg)" using further.hyps(1) by cases
    then have "event_id ev' \<noteq> []" by (rule ids_ne)
    then have "ev \<in> set (effects_of (causal_index lg) (event_id ev'))"
      using further.hyps eff by simp
    with V further.IH show ?case by blast
  qed
  with sound show ?thesis by blast
qed

section \<open>Tamper evidence\<close>

lemma split_last_unique:
  "xs @ c # a = ys @ c # b \<Longrightarrow> c \<notin> set a \<Longrightarrow> c \<notin> set b \<Longrightarrow> xs = ys \<and> a = b"
proof (induction xs arbitrary: ys)
  case Nil
  then show ?case by (cases ys) auto
next
  case (Cons x xs)
  then show ?case by (cases ys) auto
qed

lemma show_nat_digits: "c \<in> set (show_nat n) \<Longrightarrow> (of_char c :: nat) \<in> {48..57}"
proof (induction n rule: show_nat.induct)
  case (1 n)
  then show ?case
    by (subst (asm) (2) show_nat.simps) (auto split: if_splits)
qed

abbreviation bar :: char where "bar \<equiv> CHR ''|''"

lemma bar_notin_show_nat: "bar \<notin> set (show_nat n)"
  using show_nat_digits [of bar n] by auto

lemma bar_notin_show_opt_int: "bar \<notin> set (show_opt_int x)"
  by (auto simp: show_opt_int_def show_int_def bar_notin_show_nat split: option.splits)

text \<open>
  The documented formats the argument needs: a hexadecimal digest and a rendered float hold
  no bar.
\<close>

definition digest_format :: "'p hash_env \<Rightarrow> bool" where
  "digest_format env \<longleftrightarrow> (\<forall>s. bar \<notin> set (sha256 env s)) \<and> (\<forall>t. bar \<notin> set (str_time env t))"

text \<open>The strings \<open>verify_chain\<close> hashes, one for each event.\<close>

fun hashed_texts :: "'p hash_env \<Rightarrow> string \<Rightarrow> 'p prov_event list \<Rightarrow> string list" where
  "hashed_texts env prev [] = []"
| "hashed_texts env prev (ev # evs) = data_str env ev prev # hashed_texts env (integrity_hash ev) evs"

lemma length_hashed_texts [simp]: "length (hashed_texts env p es) = length es"
  by (induction es arbitrary: p) simp_all

lemma hashed_texts_snoc:
  "hashed_texts env p (es @ [e]) = hashed_texts env p es @ [data_str env e (if es = [] then p else integrity_hash (last es))]"
  by (induction es arbitrary: p) auto

text \<open>A position at which two lists of strings hold different strings with the same digest.\<close>

definition collides_at :: "'p hash_env \<Rightarrow> string list \<Rightarrow> string list \<Rightarrow> nat \<Rightarrow> bool" where
  "collides_at env xs ys i \<longleftrightarrow> i < length xs \<and> i < length ys \<and> xs ! i \<noteq> ys ! i \<and> sha256 env (xs ! i) = sha256 env (ys ! i)"

lemma collides_at_snoc:
  "length xs = length ys \<Longrightarrow> collides_at env (xs @ [x]) (ys @ [y]) i \<longleftrightarrow>
     collides_at env xs ys i \<or> (i = length xs \<and> x \<noteq> y \<and> sha256 env x = sha256 env y)"
  by (auto simp: collides_at_def nth_append)

text \<open>What of an event the hash covers.\<close>

definition covered :: "'p hash_env \<Rightarrow> 'p prov_event \<Rightarrow> string \<times> string \<times> string \<times> string" where
  "covered env ev = (event_text env ev, show_opt_int (step_index ev), str_time env (timestamp ev),
     integrity_hash ev)"

lemma data_str_bars:
  "data_str env ev prev =
     ((event_text env ev @ bar # (''prev_integrity_hash='' @ prev))
        @ bar # (''step_index='' @ show_opt_int (step_index ev)))
      @ bar # (''timestamp='' @ str_time env (timestamp ev))"
  by (simp add: data_str_def)

lemma data_str_parse:
  assumes "digest_format env" and "bar \<notin> set p" and "bar \<notin> set q"
    and "data_str env e p = data_str env f q"
  shows "event_text env e = event_text env f \<and> p = q
    \<and> show_opt_int (step_index e) = show_opt_int (step_index f)
    \<and> str_time env (timestamp e) = str_time env (timestamp f)"
proof -
  have t: "bar \<notin> set (''timestamp='' @ str_time env x)" for x
    using assms(1) by (simp add: digest_format_def)
  have s: "bar \<notin> set (''step_index='' @ show_opt_int x)" for x
    by (simp add: bar_notin_show_opt_int)
  have h: "bar \<notin> set (''prev_integrity_hash='' @ x)" if "bar \<notin> set x" for x
    using that by simp
  note 1 = split_last_unique [OF assms(4) [unfolded data_str_bars] t t]
  note 2 = split_last_unique [OF 1 [THEN conjunct1] s s]
  note 3 = split_last_unique [OF 2 [THEN conjunct1] h [OF assms(2)] h [OF assms(3)]]
  from 1 2 3 show ?thesis by simp
qed

lemma verified_hash_format:
  assumes "digest_format env"
  shows "verify_events env p xs = Inr True \<Longrightarrow> x \<in> set xs \<Longrightarrow> bar \<notin> set (integrity_hash x)"
proof (induction xs arbitrary: p)
  case (Cons y ys)
  have "bar \<notin> set (compute_hash env y p)"
    using assms by (simp add: compute_hash_def digest_format_def)
  with Cons show ?case by auto
qed simp

lemma verified_logs_agree:
  assumes "digest_format env"
    and "verify_events env p es = Inr True" and "verify_events env p fs = Inr True"
    and "length es = length fs" and "bar \<notin> set p"
    and "es \<noteq> [] \<longrightarrow> integrity_hash (last es) = integrity_hash (last fs)"
  shows "map (covered env) es = map (covered env) fs \<or> (\<exists>i. collides_at env (hashed_texts env p es) (hashed_texts env p fs) i)"
  using assms(2-4,6)
proof (induction es arbitrary: fs rule: rev_induct)
  case (snoc e es)
  then obtain f fs' where fs: "fs = fs' @ [f]" "length fs' = length es"
    by (cases fs rule: rev_cases) auto
  define pe where "pe = (if es = [] then p else integrity_hash (last es))"
  define pf where "pf = (if fs' = [] then p else integrity_hash (last fs'))"
  from snoc.prems fs have ve: "verify_events env p es = Inr True" "compute_hash env e pe = integrity_hash e"
    and vf: "verify_events env p fs' = Inr True" "compute_hash env f pf = integrity_hash f"
    and same: "integrity_hash e = integrity_hash f"
    by (auto simp: verify_events_append pe_def pf_def)
  note hashes = verified_hash_format [OF assms(1)]
  have bars: "bar \<notin> set pe" "bar \<notin> set pf"
    using assms(5) hashes [OF ve(1)] hashes [OF vf(1)] by (auto simp: pe_def pf_def)
  note texts = collides_at_snoc [of "hashed_texts env p es" "hashed_texts env p fs'"]
  show ?case
  proof (cases "data_str env e pe = data_str env f pf")
    case True
    from data_str_parse [OF assms(1) bars True] same
    have ef: "covered env e = covered env f" and pp: "pe = pf" by (auto simp: covered_def)
    have "es \<noteq> [] \<longrightarrow> integrity_hash (last es) = integrity_hash (last fs')"
      using pp fs(2) by (auto simp: pe_def pf_def split: if_splits)
    from snoc.IH [OF ve(1) vf(1) _ this] fs(2) ef show ?thesis
      by (auto simp: fs(1) hashed_texts_snoc texts)
  next
    case False
    moreover have "sha256 env (data_str env e pe) = sha256 env (data_str env f pf)"
      using ve(2) vf(2) same by (simp add: compute_hash_def)
    ultimately show ?thesis using fs(2) by (auto simp: fs(1) hashed_texts_snoc texts pe_def pf_def)
  qed
qed simp

text \<open>
  The hash does not distinguish an event without a cause from one whose cause is the string
  \<open>None\<close>: both render alike.
\<close>

lemma none_ref_same_text:
  "compute_hash env (e\<lparr>causal_ref := Some ''None''\<rparr>) p = compute_hash env (e\<lparr>causal_ref := None\<rparr>) p"
  by (simp add: compute_hash_def data_str_def event_text_def show_opt_str_def)

section \<open>Properties\<close>

definition demo_hash :: "string hash_env" where
  "demo_hash = \<lparr>sha256 = (\<lambda>s. show_nat (length s)), str_payload = (\<lambda>s. s), str_time = (\<lambda>_. ''0'')\<rparr>"

definition demo_ids :: id_env where
  "demo_ids = \<lparr>fresh_id = (\<lambda>n. replicate (Suc n) (CHR ''e'')), clock = (\<lambda>_. 0)\<rparr>"

lemma demo_ids_inj: "inj (fresh_id demo_ids)"
  by (rule injI) (metis demo_ids_def id_env.select_convs(1) length_replicate nat.inject)

definition demo_log :: "string prov_log" where
  "demo_log = prov_run demo_hash demo_ids (new_log ''x'')
     [(''A'', None, None, ''p''), (''B'', Some 1, Some ''e'', ''q''), (''C'', None, Some ''ee'', ''r'')]"

lemma demo_log_invs: "chain_inv demo_hash demo_log \<and> index_inv demo_ids demo_log"
  unfolding demo_log_def
  by (rule prov_run_invs [OF demo_ids_inj new_log_chain_inv new_log_index_inv])

text \<open>
  C12: A log that is only written by \<open>append\<close> always passes \<open>verify_chain\<close>, and the event
  index and the causal index agree with the list of events.
\<close>

theorem appended_log_verifies:
  assumes "inj (fresh_id ids)"
  shows "verify_chain env (prov_run env ids (new_log eid) cs) = Inr True
    \<and> index_inv ids (prov_run env ids (new_log eid) cs)"
  using prov_run_invs [OF assms new_log_chain_inv new_log_index_inv, of env eid cs]
  by (simp add: chain_inv_def)

theorem appended_log_verifies_witness:
  "verify_chain demo_hash demo_log = Inr True"
  unfolding demo_log_def using appended_log_verifies [OF demo_ids_inj] by blast

text \<open>
  C13: Tamper evidence. Take two logs of one length that pass \<open>verify_chain\<close> and end in the same
  hash. Either they agree on everything the hash covers, event by event, or they exhibit a
  collision: at some event the two strings that \<open>verify_chain\<close> hashed for it differ and have the
  same SHA-256 digest. So a tampered log that is accepted holds a collision that can be read off it.
\<close>

theorem tampering_needs_collision:
  assumes "digest_format env" and "verify_chain env l1 = Inr True" and "verify_chain env l2 = Inr True"
    and "length (log_events l1) = length (log_events l2)" and "log_events l1 \<noteq> []"
    and "integrity_hash (last (log_events l1)) = integrity_hash (last (log_events l2))"
  shows "map (covered env) (log_events l1) = map (covered env) (log_events l2)
    \<or> (\<exists>i. collides_at env (hashed_texts env genesis_hash (log_events l1)) (hashed_texts env genesis_hash (log_events l2)) i)"
proof (rule verified_logs_agree [OF assms(1)])
  show "bar \<notin> set genesis_hash" by (simp add: genesis_hash_def)
qed (use assms in \<open>auto simp: verify_chain_iff\<close>)

text \<open>
  A hash that only counts characters: the payload of the first event is replaced by another
  one of its length, the log still passes, and the two logs collide.
\<close>

definition tampered_log :: "string prov_log" where
  "tampered_log = demo_log\<lparr>log_events := (hd (log_events demo_log))\<lparr>payload := ''z''\<rparr> # tl (log_events demo_log)\<rparr>"

theorem tampering_needs_collision_witness:
  "tampered_log \<noteq> demo_log \<and> (\<exists>i. collides_at demo_hash (hashed_texts demo_hash genesis_hash (log_events demo_log))
      (hashed_texts demo_hash genesis_hash (log_events tampered_log)) i)"
proof -
  have f: "digest_format demo_hash"
    by (auto simp: digest_format_def demo_hash_def bar_notin_show_nat)
  have v: "verify_chain demo_hash demo_log = Inr True" using demo_log_invs by (simp add: chain_inv_def)
  have w: "verify_chain demo_hash tampered_log = Inr True" by code_simp
  have n: "length (log_events demo_log) = length (log_events tampered_log)" by code_simp
  have h: "integrity_hash (last (log_events demo_log)) = integrity_hash (last (log_events tampered_log))" by code_simp
  have d: "map (\<lambda>e. event_text demo_hash e) (log_events demo_log) \<noteq> map (\<lambda>e. event_text demo_hash e) (log_events tampered_log)"
    by code_simp
  then have "map (covered demo_hash) (log_events demo_log) \<noteq> map (covered demo_hash) (log_events tampered_log)"
    by (auto simp: covered_def dest: arg_cong [of _ _ "map fst"] simp: comp_def)
  moreover have "log_events demo_log \<noteq> []" using demo_log_def by (simp add: demo_log_def prov_append_def Let_def)
  ultimately show ?thesis using tampering_needs_collision [OF f v w n _ h] d by auto
qed

text \<open>
  C14: \<open>query_causal_chain\<close> ends and returns a chain: on a log whose events name earlier
  events as their causes, the query for any event gives a list that ends in it, in which each
  event is the cause of the next, and that starts at an event without a cause.
\<close>

theorem causal_chain_returned:
  assumes "inj (fresh_id ids)" and "index_inv ids lg" and "causally_closed lg"
    and "i < length (log_events lg)"
  shows "\<exists>chain. query_causal_chain lg (event_id (log_events lg ! i)) = Some (Inr chain)
      \<and> chain \<noteq> [] \<and> last chain = log_events lg ! i \<and> linked (rev chain)
      \<and> causal_ref (hd chain) = None \<and> set chain \<subseteq> set (log_events lg)"
proof -
  let ?e = "log_events lg ! i"
  from causal_walk_ends [OF assms, of "[]"] obtain chain where
    c: "causal_walk (event_index lg) (Some (event_id ?e)) [] = Some (Inr (?e # chain))"
       "linked (?e # chain)" "causal_ref (last (?e # chain)) = None" "set chain \<subseteq> set (log_events lg)"
    by auto
  then show ?thesis using assms(4)
    by (intro exI [of _ "rev (?e # chain)"]) (auto simp: query_causal_chain_def hd_append hd_rev split: if_splits)
qed

theorem causal_chain_returned_witness:
  "\<exists>chain. query_causal_chain demo_log (event_id (log_events demo_log ! 2)) = Some (Inr chain)
      \<and> chain \<noteq> [] \<and> last chain = log_events demo_log ! 2 \<and> linked (rev chain)
      \<and> causal_ref (hd chain) = None \<and> set chain \<subseteq> set (log_events demo_log)"
proof (rule causal_chain_returned [OF demo_ids_inj])
  show "index_inv demo_ids demo_log" using demo_log_invs by simp
  have refs: "map causal_ref (log_events demo_log) = [None, Some ''e'', Some ''ee'']"
    and ids: "map event_id (log_events demo_log) = [''e'', ''ee'', ''eee'']"
    by (simp_all add: demo_log_def new_log_def prov_append_def Let_def demo_ids_def)
  from arg_cong [OF refs, of length] have len: "length (log_events demo_log) = 3" by simp
  then show "2 < length (log_events demo_log)" by simp
  have nth: "causal_ref (log_events demo_log ! i) = [None, Some ''e'', Some ''ee''] ! i"
    "event_id (log_events demo_log ! i) = [''e'', ''ee'', ''eee''] ! i" if "i < 3" for i
    using that by (simp_all add: len flip: refs ids)
  have "\<exists>j<i. event_id (log_events demo_log ! j) = c"
    if "i < 3" and "causal_ref (log_events demo_log ! i) = Some c" for i c
  proof -
    from that(1) consider "i = 0" | "i = 1" | "i = 2" by linarith
    then show ?thesis using that(2) nth(1) [OF that(1)] nth(2) [of "i - 1"]
      by cases (auto intro: exI [of _ "i - 1"])
  qed
  then show "causally_closed demo_log" by (simp add: causally_closed_def len)
qed

text \<open>
  \<open>query_effects\<close> returns exactly the transitive effects of an event, whatever the causal
  graph looks like, cycles included; the search terminates on every index.
\<close>

theorem effects_exact:
  assumes "index_inv ids lg" and "\<And>n. fresh_id ids n \<noteq> []" and "k \<noteq> []"
  shows "set (query_effects lg k) = {ev. effect_of lg k ev}"
  using assms by (rule query_effects_exact)

theorem effects_exact_witness:
  "set (query_effects demo_log ''e'') = {ev. effect_of demo_log ''e'' ev}"
proof (rule effects_exact)
  show "index_inv demo_ids demo_log" using demo_log_invs by simp
  show "fresh_id demo_ids n \<noteq> []" for n by (simp add: demo_ids_def)
qed simp

text \<open>
  The hash does not tell a missing cause from the cause \<open>None\<close>: replacing one by the other
  in an event of a verified log goes unnoticed.
\<close>

theorem none_cause_not_covered:
  "compute_hash env (ev\<lparr>causal_ref := Some ''None''\<rparr>) prev = compute_hash env (ev\<lparr>causal_ref := None\<rparr>) prev"
  by (rule none_ref_same_text)

end
