(* ===== verification/Transaction.thy ===== *)
theory Transaction
  imports Provenance
begin

text \<open>
  The transaction manager (\<open>transaction/manager.py\<close>, \<open>transaction/context.py\<close>): optimistic
  concurrency check, application of the operations to a staging copy, validation of the
  candidate graph, commit or rollback, with the provenance events on every path. The graph
  lock makes the calls on one graph sequential, so a call is a function of the graph; the
  deep copies of the staging graph and of the operations are values. The message texts are
  constructors with the data the format strings embed.
\<close>

section \<open>Transactions\<close>

datatype transaction_state =
    TX_BEGIN | VALIDATING | APPLYING | COMMITTING | COMMITTED | ROLLING_BACK | ROLLED_BACK | TX_FAILED

datatype tx_error =
    OCC_Conflict graph_version graph_version
  | Operation_Invalid operation_type
  | Mutation_Failed "string list"
  | Invariant_Violated "validation_error list"
  | Staging_Rollback_Failed tx_error string

datatype tx_payload =
    BeginPayload transaction_id graph_version graph_id
  | MutationPayload transaction_id operation_type op_params
  | RolledBackPayload transaction_id "tx_error option"
  | CommittedPayload transaction_id graph_version
  | VersionPayload graph_id graph_version

record tx_context =
  tx_id :: transaction_id
  base_version :: graph_version
  operations :: "ir_operation list"
  tx_state :: transaction_state
  tx_undo :: undo_log
  tx_validation :: "validation_result option"
  error_message :: "tx_error option"

record tx_env =
  tx_hash :: "tx_payload hash_env"
  tx_ids :: id_env

text \<open>The optional log and the identifier of the last event, the cause of the next.\<close>

type_synonym tx_log = "tx_payload prov_log option"

definition log_event ::
  "tx_env \<Rightarrow> tx_log \<Rightarrow> string option \<Rightarrow> string \<Rightarrow> tx_payload \<Rightarrow> string option \<times> tx_log" where
  "log_event env pl last_ref etype pay =
     (case pl of
        None \<Rightarrow> (last_ref, None)
      | Some lg \<Rightarrow>
          (let (ev, lg') = prov_append (tx_hash env) (tx_ids env) lg etype None last_ref pay
           in (Some (event_id ev), Some lg')))"

definition rollback_staging :: "structural_graph \<Rightarrow> tx_context \<Rightarrow> tx_context" where
  "rollback_staging staging ctx =
     (case rollback staging (tx_undo ctx) of
        (Some e, _, log') \<Rightarrow>
          ctx\<lparr>tx_undo := log', tx_state := TX_FAILED,
              error_message := map_option (\<lambda>m. Staging_Rollback_Failed m (exc_message e)) (error_message ctx)\<rparr>
      | (None, _, log') \<Rightarrow> ctx\<lparr>tx_undo := log', tx_state := ROLLED_BACK\<rparr>)"

text \<open>The common tail of the three abort paths.\<close>

definition abort ::
  "tx_env \<Rightarrow> tx_log \<Rightarrow> string option \<Rightarrow> structural_graph \<Rightarrow> tx_context \<Rightarrow> tx_error \<Rightarrow> tx_context \<times> tx_log" where
  "abort env pl last_ref staging ctx err =
     (let ctx1 = rollback_staging staging (ctx\<lparr>tx_state := ROLLING_BACK, error_message := Some err\<rparr>);
          (_, pl') = log_event env pl last_ref ''STRUCTURAL_TRANSACTION_ROLLED_BACK''
                       (RolledBackPayload (tx_id ctx1) (error_message ctx1))
      in (ctx1, pl'))"

fun apply_loop ::
  "tx_env \<Rightarrow> tx_context \<Rightarrow> structural_graph \<Rightarrow> string option \<Rightarrow> tx_log \<Rightarrow> ir_operation list
   \<Rightarrow> (tx_context \<times> tx_log) + (tx_context \<times> structural_graph \<times> string option \<times> tx_log)" where
  "apply_loop env ctx staging last_ref pl [] = Inr (ctx, staging, last_ref, pl)"
| "apply_loop env ctx staging last_ref pl (op # ops) =
     (if \<not> op_validate op
      then Inl (abort env pl last_ref staging ctx (Operation_Invalid (op_type op)))
      else (let out = apply_operation staging op in
        if \<not> success out
        then Inl (abort env pl last_ref (result_graph out) ctx (Mutation_Failed (op_notes out)))
        else (let (last_ref', pl') = log_event env pl last_ref ''STRUCTURAL_MUTATION_APPLIED''
                     (MutationPayload (tx_id ctx) (op_type op) (parameters op));
                  ctx' = ctx\<lparr>tx_undo := fold (\<lambda>i l. undo_push l i) (fst (undo_pop_all (undo out))) (tx_undo ctx)\<rparr>
              in apply_loop env ctx' (result_graph out) last_ref' pl' ops)))"

record tx_result =
  tx_success :: bool
  tx_ctx :: tx_context
  tx_graph :: structural_graph
  tx_plog :: tx_log

definition commit_graph :: "structural_graph \<Rightarrow> structural_graph \<Rightarrow> structural_graph" where
  "commit_graph g staging =
     g\<lparr>units := units staging, edges := edges staging, graph_metadata := graph_metadata staging,
       version := next_sequence (version g)\<rparr>"

definition execute_transaction ::
  "tx_env \<Rightarrow> tx_log \<Rightarrow> transaction_id \<Rightarrow> structural_graph \<Rightarrow> ir_operation list \<Rightarrow> graph_version option
   \<Rightarrow> tx_result" where
  "execute_transaction env pl tid g ops base =
     (let expected = (case base of None \<Rightarrow> version g | Some v \<Rightarrow> v);
          ctx0 = \<lparr>tx_id = tid, base_version = expected, operations = ops, tx_state = TX_BEGIN,
                  tx_undo = [], tx_validation = None, error_message = None\<rparr>;
          (last_ref, pl1) = log_event env pl None ''STRUCTURAL_TRANSACTION_BEGIN''
                              (BeginPayload tid expected (graph_id g))
      in if version g \<noteq> expected
         then (let ctx = ctx0\<lparr>tx_state := TX_FAILED,
                              error_message := Some (OCC_Conflict expected (version g))\<rparr>;
                   (_, pl2) = log_event env pl1 last_ref ''STRUCTURAL_TRANSACTION_ROLLED_BACK''
                                (RolledBackPayload tid (error_message ctx))
               in \<lparr>tx_success = False, tx_ctx = ctx, tx_graph = g, tx_plog = pl2\<rparr>)
         else (case apply_loop env (ctx0\<lparr>tx_state := APPLYING\<rparr>) g last_ref pl1 ops of
             Inl (ctx, pl2) \<Rightarrow> \<lparr>tx_success = False, tx_ctx = ctx, tx_graph = g, tx_plog = pl2\<rparr>
           | Inr (ctx, staging, last_ref2, pl2) \<Rightarrow>
               (let val = validate_graph staging; ctx = ctx\<lparr>tx_validation := Some val\<rparr> in
                if \<not> is_valid val
                then (let (ctx', pl3) = abort env pl2 last_ref2 staging ctx (Invariant_Violated (errors val))
                      in \<lparr>tx_success = False, tx_ctx = ctx', tx_graph = g, tx_plog = pl3\<rparr>)
                else (let g' = commit_graph g staging;
                          (commit_ref, pl3) = log_event env pl2 last_ref2 ''STRUCTURAL_TRANSACTION_COMMITTED''
                                                (CommittedPayload tid (version g'));
                          (_, pl4) = log_event env pl3 commit_ref ''STRUCTURAL_GRAPH_VERSION_CREATED''
                                       (VersionPayload (graph_id g') (version g'))
                      in \<lparr>tx_success = True, tx_ctx = ctx\<lparr>tx_state := COMMITTED\<rparr>, tx_graph = g',
                          tx_plog = pl4\<rparr>))))"

section \<open>The abstract transaction\<close>

text \<open>
  What a transaction means for the graph, without context, log and undo: apply every
  operation in turn, and accept the result if it is well formed.
\<close>

fun apply_all :: "structural_graph \<Rightarrow> ir_operation list \<Rightarrow> structural_graph option" where
  "apply_all g [] = Some g"
| "apply_all g (op # ops) =
     (let out = apply_operation g op in
      if success out then apply_all (result_graph out) ops else None)"

definition abstract_transaction :: "structural_graph \<Rightarrow> ir_operation list \<Rightarrow> structural_graph option" where
  "abstract_transaction g ops =
     (case apply_all g ops of
        None \<Rightarrow> None
      | Some h \<Rightarrow> if wf_graph h then Some (commit_graph g h) else None)"

lemma success_validates: "success (apply_operation g op) \<Longrightarrow> op_validate op"
  by (auto simp: apply_operation_def split: if_splits)

lemma apply_loop_Inr:
  "apply_loop env ctx g last_ref pl ops = Inr (ctx', h, last_ref', pl') \<Longrightarrow> apply_all g ops = Some h"
proof (induction env ctx g last_ref pl ops rule: apply_loop.induct)
  case (2 env ctx g last_ref pl op ops)
  then show ?case by (auto simp: Let_def split: if_splits prod.splits)
qed simp

lemma apply_loop_complete:
  "apply_all g ops = Some h \<Longrightarrow>
   \<exists>ctx' last_ref' pl'. apply_loop env ctx g last_ref pl ops = Inr (ctx', h, last_ref', pl')"
proof (induction ops arbitrary: g ctx last_ref pl)
  case (Cons op ops)
  then have s: "success (apply_operation g op)" and "apply_all (result_graph (apply_operation g op)) ops = Some h"
    by (auto simp: Let_def split: if_splits)
  with Cons.IH success_validates [OF s] show ?case
    by (auto simp: Let_def split: prod.splits)
qed simp

lemma apply_loop_Inl: "(\<exists>r. apply_loop env ctx g last_ref pl ops = Inl r) \<longleftrightarrow> apply_all g ops = None"
proof (cases "apply_all g ops")
  case None
  then have "\<nexists>x. apply_loop env ctx g last_ref pl ops = Inr x"
    using apply_loop_Inr [of env ctx g last_ref pl ops] by fastforce
  with None show ?thesis by (cases "apply_loop env ctx g last_ref pl ops") auto
next
  case (Some h)
  with apply_loop_complete [OF Some, of env ctx last_ref pl] show ?thesis by auto
qed

text \<open>
  The refinement: the manager commits exactly when the base version is current and the
  abstract transaction is defined, and then its graph is the abstract result; otherwise the
  graph is untouched.
\<close>

lemma execute_transaction_refines:
  "let r = execute_transaction env pl tid g ops base;
       spec = (if base = None \<or> base = Some (version g) then abstract_transaction g ops else None)
   in tx_success r = (spec \<noteq> None) \<and> tx_graph r = (case spec of None \<Rightarrow> g | Some h \<Rightarrow> h)"
proof -
  obtain last_ref pl1 where l1: "log_event env pl None ''STRUCTURAL_TRANSACTION_BEGIN''
      (BeginPayload tid (case base of None \<Rightarrow> version g | Some v \<Rightarrow> v) (graph_id g)) = (last_ref, pl1)"
    by fastforce
  show ?thesis
  proof (cases "base = None \<or> base = Some (version g)")
    case False
    then show ?thesis
      by (auto simp: execute_transaction_def l1 Let_def split: option.splits prod.splits)
  next
    case True
    then have v: "(case base of None \<Rightarrow> version g | Some v \<Rightarrow> v) = version g" by auto
    let ?ctx = "\<lparr>tx_id = tid, base_version = version g, operations = ops, tx_state = APPLYING,
                  tx_undo = [], tx_validation = None, error_message = None\<rparr>"
    show ?thesis
    proof (cases "apply_all g ops")
      case None
      then obtain c p where "apply_loop env ?ctx g last_ref pl1 ops = Inl (c, p)"
        using apply_loop_Inl [of env ?ctx g last_ref pl1 ops] by auto
      with None True v l1 show ?thesis
        by (simp add: execute_transaction_def abstract_transaction_def Let_def)
    next
      case (Some h)
      then obtain c lr p where "apply_loop env ?ctx g last_ref pl1 ops = Inr (c, h, lr, p)"
        using apply_loop_complete [OF Some] by blast
      with Some True v l1 show ?thesis
        by (auto simp: execute_transaction_def abstract_transaction_def Let_def validate_graph_iff
            split: prod.splits)
    qed
  qed
qed

end
