(* ===== verification/Transaction_Proofs.thy ===== *)
theory Transaction_Proofs
  imports Transaction
begin

text \<open>
  What the transaction manager guarantees: an aborted transaction rolls its staging graph back
  without an exception, sequences of transactions keep the graph well formed and count
  versions, a stale base version is refused, and the provenance log of a transaction is the
  chain of its events.
\<close>

section \<open>Rolling a staging graph back\<close>

text \<open>
  Whether an inverse raises depends only on the keys of the unit dictionary. \<open>key_undo\<close> is
  its effect on them; \<open>None\<close> is the exception.
\<close>

abbreviation unit_keys :: "structural_graph \<Rightarrow> string set" where
  "unit_keys g \<equiv> fst ` set (units g)"

fun key_undo :: "string set \<Rightarrow> inverse_op \<Rightarrow> string set option" where
  "key_undo K (InvRemoveUnit i) = (if uid_value i \<in> K then Some (K - {uid_value i}) else None)"
| "key_undo K (InvRestoreUnit u es) =
     (if uid_value (unit_id u) \<in> K then None else Some (insert (uid_value (unit_id u)) K))"
| "key_undo K _ = Some K"

fun key_undo_all :: "string set \<Rightarrow> inverse_op list \<Rightarrow> string set option" where
  "key_undo_all K [] = Some K"
| "key_undo_all K (i # js) = Option.bind (key_undo K i) (\<lambda>K'. key_undo_all K' js)"

lemma undo_one_keys:
  assumes "key_undo (unit_keys g) i = Some K"
  shows "fst (undo_one g i) = None \<and> unit_keys (snd (undo_one g i)) = K"
  using assms
  by (cases i) (auto simp: undo_one_def remove_unit_def add_unit_def remove_edge_def Let_def
      split: if_splits option.splits)

lemma undo_all_keys:
  "key_undo_all (unit_keys g) js = Some K \<Longrightarrow>
   fst (undo_all g js) = None \<and> unit_keys (snd (undo_all g js)) = K"
proof (induction js arbitrary: g)
  case (Cons i js)
  then obtain K' where K': "key_undo (unit_keys g) i = Some K'" "key_undo_all K' js = Some K"
    by (auto simp: bind_eq_Some_conv)
  from undo_one_keys [OF K'(1)] obtain g' where "undo_one g i = (None, g')" "unit_keys g' = K'"
    by (metis prod.collapse)
  with Cons.IH [of g'] K'(2) show ?case by simp
qed simp

text \<open>One successful operation leaves one inverse, which takes the keys back.\<close>

lemma apply_success_undo:
  assumes "graph_ok g" and "success (apply_operation g op)"
  shows "\<exists>i. undo (apply_operation g op) = [i]
    \<and> key_undo (unit_keys (result_graph (apply_operation g op))) i = Some (unit_keys g)"
  using assms(2)
proof (cases rule: apply_operation_cases)
  case (add u)
  from add(2) show ?thesis by (rule apply_add_unit_success) (auto simp: add(1))
next
  case (remove i)
  from remove(2) show ?thesis
  proof (rule apply_remove_unit_success)
    fix removed rv ids
    assume r: "map_of (units g) (uid_value i) = Some removed"
      and eq: "apply_remove_unit g i = done_with
       (g\<lparr>units := dict_pop (uid_value i) (units g),
          edges := filter (\<lambda>e. src e \<noteq> uid_value i \<and> tgt e \<noteq> uid_value i) (edges g),
          graph_metadata := dict_set retired_key (PList (map PStr ids)) (graph_metadata g)\<rparr>)
       (InvRestoreUnit removed (filter (\<lambda>e. src e = uid_value i \<or> tgt e = uid_value i) (edges g)))"
    from assms(1) r have "uid_value (unit_id removed) = uid_value i"
      by (auto simp: graph_ok_def keyed_units_def dest!: map_of_SomeD)
    with map_of_Some_keys [OF r] show ?thesis by (auto simp: remove(1) eq)
  qed
qed (simp_all add: apply_connect_def apply_disconnect_def apply_rewire_def Let_def)

definition can_undo :: "structural_graph \<Rightarrow> undo_log \<Rightarrow> string set \<Rightarrow> bool" where
  "can_undo g l K \<longleftrightarrow> key_undo_all (unit_keys g) (rev l) = Some K"

lemma can_undo_push:
  assumes "can_undo g l K" and "graph_ok g" and "success (apply_operation g op)"
  shows "can_undo (result_graph (apply_operation g op))
    (fold (\<lambda>i l. undo_push l i) (fst (undo_pop_all (undo (apply_operation g op)))) l) K"
  using assms(1) apply_success_undo [OF assms(2,3)]
  by (auto simp: can_undo_def undo_push_def undo_pop_all_def)

lemma rollback_staging_total:
  assumes "can_undo g (tx_undo ctx) K"
  shows "tx_state (rollback_staging g ctx) = ROLLED_BACK
    \<and> error_message (rollback_staging g ctx) = error_message ctx \<and> tx_undo (rollback_staging g ctx) = []
    \<and> (\<exists>h. rollback g (tx_undo ctx) = (None, h, []) \<and> unit_keys h = K)"
proof -
  from assms obtain h where "undo_all g (rev (tx_undo ctx)) = (None, h)" "unit_keys h = K"
    unfolding can_undo_def by (metis prod.collapse undo_all_keys)
  then show ?thesis
    by (simp add: rollback_staging_def rollback_def undo_pop_all_def)
qed

lemma abort_state:
  assumes "can_undo g (tx_undo ctx) K"
  shows "tx_state (fst (abort env pl last_ref g ctx err)) = ROLLED_BACK
    \<and> error_message (fst (abort env pl last_ref g ctx err)) = Some err"
  using rollback_staging_total [of g "ctx\<lparr>tx_state := ROLLING_BACK, error_message := Some err\<rparr>" K] assms
  by (simp add: abort_def Let_def split: prod.splits)

lemma apply_loop_undo:
  assumes "identity_inv g" and "can_undo g (tx_undo ctx) K"
  shows "case apply_loop env ctx g last_ref pl ops of
      Inl (ctx', _) \<Rightarrow> tx_state ctx' = ROLLED_BACK \<and> error_message ctx' \<noteq> None
    | Inr (ctx', h, _, _) \<Rightarrow> identity_inv h \<and> can_undo h (tx_undo ctx') K"
  using assms
proof (induction env ctx g last_ref pl ops rule: apply_loop.induct)
  case (2 env ctx g last_ref pl op ops)
  let ?out = "apply_operation g op"
  consider "\<not> op_validate op" | "op_validate op" "\<not> success ?out" | "op_validate op" "success ?out"
    by blast
  then show ?case
  proof cases
    case 1
    with abort_state [OF "2.prems"(2), of env pl last_ref] show ?thesis
      by (simp add: case_prod_beta)
  next
    case b: 2
    moreover from "2.prems"(1) b(2) have "result_graph ?out = g"
      by (intro apply_failure_unchanged) (auto simp: identity_inv_def)
    ultimately show ?thesis
      using abort_state [OF "2.prems"(2), of env pl last_ref]
      by (simp add: Let_def case_prod_beta)
  next
    case 3
    obtain last_ref' pl' where l: "log_event env pl last_ref ''STRUCTURAL_MUTATION_APPLIED''
        (MutationPayload (tx_id ctx) (op_type op) (parameters op)) = (last_ref', pl')"
      by fastforce
    have "graph_ok g" using "2.prems"(1) by (simp add: identity_inv_def)
    from can_undo_push [OF "2.prems"(2) this 3(2)] apply_success_identity [OF "2.prems"(1) 3(2)]
    show ?thesis
      using "2.IH" [OF _ refl] 3 l by (simp add: Let_def)
  qed
qed (simp split: prod.splits)

section \<open>The branches of a transaction\<close>

lemma apply_loop_frame:
  "apply_loop env ctx g last_ref pl ops = Inr (ctx', h, r, pl')
   \<Longrightarrow> error_message ctx' = error_message ctx \<and> tx_id ctx' = tx_id ctx"
proof (induction env ctx g last_ref pl ops rule: apply_loop.induct)
  case (2 env ctx g last_ref pl op ops)
  then show ?case by (auto simp: Let_def split: if_splits prod.splits)
qed simp

definition base_current :: "graph_version option \<Rightarrow> structural_graph \<Rightarrow> bool" where
  "base_current base g \<longleftrightarrow> base = None \<or> base = Some (version g)"

definition start_ctx :: "transaction_id \<Rightarrow> structural_graph \<Rightarrow> ir_operation list \<Rightarrow> tx_context" where
  "start_ctx tid g ops = \<lparr>tx_id = tid, base_version = version g, operations = ops, tx_state = APPLYING,
     tx_undo = [], tx_validation = None, error_message = None\<rparr>"

lemma base_current_case: "base_current base g \<Longrightarrow> (case base of None \<Rightarrow> version g | Some v \<Rightarrow> v) = version g"
  by (auto simp: base_current_def)

lemma execute_conflict:
  assumes "\<not> base_current base g"
  shows "\<exists>v lg. base = Some v \<and> v \<noteq> version g
    \<and> (let r = execute_transaction env pl tid g ops base in
        \<not> tx_success r \<and> tx_graph r = g \<and> tx_state (tx_ctx r) = TX_FAILED
        \<and> error_message (tx_ctx r) = Some (OCC_Conflict v (version g)))"
  using assms
  by (auto simp: base_current_def execute_transaction_def Let_def split: option.splits prod.splits)

lemma execute_current:
  assumes "base_current base g"
    and "log_event env pl None ''STRUCTURAL_TRANSACTION_BEGIN''
           (BeginPayload tid (version g) (graph_id g)) = (last_ref, pl1)"
  shows "execute_transaction env pl tid g ops base =
    (case apply_loop env (start_ctx tid g ops) g last_ref pl1 ops of
       Inl (ctx, pl2) \<Rightarrow> \<lparr>tx_success = False, tx_ctx = ctx, tx_graph = g, tx_plog = pl2\<rparr>
     | Inr (ctx, staging, last_ref2, pl2) \<Rightarrow>
         (let val = validate_graph staging; ctx = ctx\<lparr>tx_validation := Some val\<rparr> in
          if \<not> is_valid val
          then (let (ctx', pl3) = abort env pl2 last_ref2 staging ctx (Invariant_Violated (errors val))
                in \<lparr>tx_success = False, tx_ctx = ctx', tx_graph = g, tx_plog = pl3\<rparr>)
          else (let g' = commit_graph g staging;
                    (commit_ref, pl3) = log_event env pl2 last_ref2 ''STRUCTURAL_TRANSACTION_COMMITTED''
                                          (CommittedPayload tid (version g'));
                    (_, pl4) = log_event env pl3 commit_ref ''STRUCTURAL_GRAPH_VERSION_CREATED''
                                 (VersionPayload (graph_id g') (version g'))
                in \<lparr>tx_success = True, tx_ctx = ctx\<lparr>tx_state := COMMITTED\<rparr>, tx_graph = g',
                    tx_plog = pl4\<rparr>)))"
  unfolding execute_transaction_def base_current_case [OF assms(1)]
  by (simp add: assms(2) start_ctx_def Let_def)

text \<open>
  A transaction that does not commit has rolled its staging graph back without an exception,
  or was refused by the version check.
\<close>

lemma execute_transaction_states:
  assumes "identity_inv g"
  shows "let r = execute_transaction env pl tid g ops base; c = tx_ctx r in
     (if tx_success r then tx_state c = COMMITTED \<and> error_message c = None
      else if base = None \<or> base = Some (version g)
           then tx_state c = ROLLED_BACK \<and> error_message c \<noteq> None
           else tx_state c = TX_FAILED \<and> error_message c = Some (OCC_Conflict (the base) (version g)))"
proof (cases "base_current base g")
  case False
  from execute_conflict [OF this, of env pl tid ops] show ?thesis by (auto simp: Let_def)
next
  case True
  then have b: "base = None \<or> base = Some (version g)" by (simp add: base_current_def)
  obtain last_ref pl1 where l1: "log_event env pl None ''STRUCTURAL_TRANSACTION_BEGIN''
      (BeginPayload tid (version g) (graph_id g)) = (last_ref, pl1)" by fastforce
  note eq = execute_current [OF True l1, of ops]
  have "can_undo g (tx_undo (start_ctx tid g ops)) (unit_keys g)"
    by (simp add: can_undo_def start_ctx_def)
  note loop = apply_loop_undo [OF assms this, of env last_ref pl1 ops]
  show ?thesis
  proof (cases "apply_loop env (start_ctx tid g ops) g last_ref pl1 ops")
    case (Inl a)
    with loop b show ?thesis by (simp add: eq Let_def split: prod.splits)
  next
    case (Inr a)
    then obtain c h lr p where a: "apply_loop env (start_ctx tid g ops) g last_ref pl1 ops = Inr (c, h, lr, p)"
      by (cases a) auto
    with loop have "can_undo h (tx_undo (c\<lparr>tx_validation := Some (validate_graph h)\<rparr>)) (unit_keys g)"
      by simp
    note ab = abort_state [OF this, of env p lr]
    have "error_message c = None" using apply_loop_frame [OF a] by (simp add: start_ctx_def)
    with ab b show ?thesis by (simp add: eq a Let_def case_prod_beta)
  qed
qed

section \<open>Sequences of transactions\<close>

text \<open>Clients take turns on one graph; each call passes its own base version, or none.\<close>

type_synonym tx_call = "transaction_id \<times> ir_operation list \<times> graph_version option"

fun tx_run :: "tx_env \<Rightarrow> tx_log \<Rightarrow> structural_graph \<Rightarrow> tx_call list \<Rightarrow> bool list \<times> structural_graph \<times> tx_log" where
  "tx_run env pl g [] = ([], g, pl)"
| "tx_run env pl g ((tid, ops, base) # cs) =
     (let r = execute_transaction env pl tid g ops base;
          (bs, g', pl') = tx_run env (tx_plog r) (tx_graph r) cs
      in (tx_success r # bs, g', pl'))"

lemma apply_all_identity:
  "identity_inv g \<Longrightarrow> apply_all g ops = Some h
   \<Longrightarrow> identity_inv h \<and> retired_ids g \<subseteq> retired_ids h \<and> graph_id h = graph_id g"
proof (induction ops arbitrary: g)
  case (Cons op ops)
  then have s: "success (apply_operation g op)" and "apply_all (result_graph (apply_operation g op)) ops = Some h"
    by (auto simp: Let_def split: if_splits)
  with Cons.IH apply_success_identity [OF Cons.prems(1) s] apply_success_version [OF s] show ?case by auto
qed simp

lemma wf_graph_commit: "wf_graph (commit_graph g h) = wf_graph h"
  by (simp add: wf_graph_def commit_graph_def)

lemma identity_inv_commit: "identity_inv (commit_graph g h) = identity_inv h"
  using retired_frame [of "commit_graph g h" h]
  by (simp add: identity_inv_def commit_graph_def graph_ok_def)

lemma retired_ids_commit: "retired_ids (commit_graph g h) = retired_ids h"
  using retired_frame [of "commit_graph g h" h] by (simp add: commit_graph_def)

lemma abstract_transaction_inv:
  assumes "identity_inv g" and "abstract_transaction g ops = Some h"
  shows "identity_inv h \<and> wf_graph h \<and> retired_ids g \<subseteq> retired_ids h
    \<and> graph_id h = graph_id g \<and> version h = next_sequence (version g)"
proof -
  from assms(2) obtain h0 where h0: "apply_all g ops = Some h0" "wf_graph h0" "h = commit_graph g h0"
    by (auto simp: abstract_transaction_def split: option.splits if_splits)
  from apply_all_identity [OF assms(1) h0(1)] h0(2) show ?thesis
    by (simp add: h0(3) wf_graph_commit identity_inv_commit retired_ids_commit)
      (simp add: commit_graph_def)
qed

lemma execute_graph:
  "tx_graph (execute_transaction env pl tid g ops base) =
     (if tx_success (execute_transaction env pl tid g ops base) then the (abstract_transaction g ops) else g)"
  "tx_success (execute_transaction env pl tid g ops base) \<longleftrightarrow>
     base_current base g \<and> abstract_transaction g ops \<noteq> None"
  using execute_transaction_refines [of env pl tid g ops base]
  by (auto simp: Let_def base_current_def split: if_splits option.splits)

lemma execute_inv:
  assumes "identity_inv g" and "wf_graph g"
  shows "let g' = tx_graph (execute_transaction env pl tid g ops base) in
    identity_inv g' \<and> wf_graph g' \<and> retired_ids g \<subseteq> retired_ids g' \<and> graph_id g' = graph_id g
    \<and> version g' = (if tx_success (execute_transaction env pl tid g ops base)
                     then next_sequence (version g) else version g)"
  using assms abstract_transaction_inv [OF assms(1)]
  by (auto simp: Let_def execute_graph)

lemma tx_run_inv:
  assumes "identity_inv g" and "wf_graph g" and "tx_run env pl g cs = (bs, g', pl')"
  shows "identity_inv g' \<and> wf_graph g' \<and> retired_ids g \<subseteq> retired_ids g'
    \<and> version g' = (next_sequence ^^ length (filter id bs)) (version g)"
  using assms
proof (induction cs arbitrary: pl g bs)
  case (Cons c cs)
  obtain tid ops base where c: "c = (tid, ops, base)" by (cases c)
  let ?r = "execute_transaction env pl tid g ops base"
  obtain bs1 where run: "tx_run env (tx_plog ?r) (tx_graph ?r) cs = (bs1, g', pl')" and bs: "bs = tx_success ?r # bs1"
    using Cons.prems(3) by (auto simp: c Let_def split: prod.splits)
  from execute_inv [OF Cons.prems(1,2), of env pl tid ops base] Cons.IH [OF _ _ run] show ?case
    by (auto simp: Let_def bs funpow_swap1)
qed simp

text \<open>Two clients that read the same version: once one has committed, the other is refused.\<close>

lemma lost_update_refused:
  assumes "tx_run env pl g cs = (bs, g', pl')" and "identity_inv g" and "wf_graph g" and "True \<in> set bs"
  shows "\<not> tx_success (execute_transaction env pl'' tid g' ops (Some (version g)))
    \<and> tx_graph (execute_transaction env pl'' tid g' ops (Some (version g))) = g'"
proof -
  from assms(4) obtain n where "length (filter id bs) = Suc n"
    by (metis (full_types) filter_empty_conv id_apply length_0_conv not0_implies_Suc)
  with tx_run_inv [OF assms(2,3,1)] funpow_next_sequence_neq [of n "version g"]
  have "version g' \<noteq> version g" by (simp del: funpow.simps)
  then have "\<not> base_current (Some (version g)) g'" by (simp add: base_current_def)
  then show ?thesis by (simp add: execute_graph)
qed

section \<open>The provenance of a transaction\<close>

text \<open>
  The events of a transaction, each the cause of the next. \<open>tx_script\<close> says which they are,
  as a function of the graph and the operations alone.
\<close>

fun chain_log :: "tx_env \<Rightarrow> tx_log \<Rightarrow> string option \<Rightarrow> (string \<times> tx_payload) list \<Rightarrow> string option \<times> tx_log" where
  "chain_log env pl r [] = (r, pl)"
| "chain_log env pl r ((etype, pay) # es) =
     (let (r', pl') = log_event env pl r etype pay in chain_log env pl' r' es)"

abbreviation begin_entry :: "transaction_id \<Rightarrow> graph_version \<Rightarrow> graph_id \<Rightarrow> string \<times> tx_payload" where
  "begin_entry tid v gid \<equiv> (''STRUCTURAL_TRANSACTION_BEGIN'', BeginPayload tid v gid)"

abbreviation mutation_entry :: "transaction_id \<Rightarrow> ir_operation \<Rightarrow> string \<times> tx_payload" where
  "mutation_entry tid op \<equiv> (''STRUCTURAL_MUTATION_APPLIED'', MutationPayload tid (op_type op) (parameters op))"

abbreviation rolled_back_entry :: "transaction_id \<Rightarrow> tx_error \<Rightarrow> string \<times> tx_payload" where
  "rolled_back_entry tid err \<equiv> (''STRUCTURAL_TRANSACTION_ROLLED_BACK'', RolledBackPayload tid (Some err))"

abbreviation commit_entries :: "transaction_id \<Rightarrow> graph_id \<Rightarrow> graph_version \<Rightarrow> (string \<times> tx_payload) list" where
  "commit_entries tid gid v \<equiv>
     [(''STRUCTURAL_TRANSACTION_COMMITTED'', CommittedPayload tid v),
      (''STRUCTURAL_GRAPH_VERSION_CREATED'', VersionPayload gid v)]"

fun mutation_script ::
  "transaction_id \<Rightarrow> structural_graph \<Rightarrow> structural_graph \<Rightarrow> ir_operation list \<Rightarrow> (string \<times> tx_payload) list" where
  "mutation_script tid g0 g [] =
     (if wf_graph g then commit_entries tid (graph_id g0) (next_sequence (version g0))
      else [rolled_back_entry tid (Invariant_Violated (errors (validate_graph g)))])"
| "mutation_script tid g0 g (op # ops) =
     (if \<not> op_validate op then [rolled_back_entry tid (Operation_Invalid (op_type op))]
      else (let out = apply_operation g op in
        if \<not> success out then [rolled_back_entry tid (Mutation_Failed (op_notes out))]
        else mutation_entry tid op # mutation_script tid g0 (result_graph out) ops))"

definition tx_script ::
  "transaction_id \<Rightarrow> structural_graph \<Rightarrow> ir_operation list \<Rightarrow> graph_version option \<Rightarrow> (string \<times> tx_payload) list" where
  "tx_script tid g ops base =
     (let v = (case base of None \<Rightarrow> version g | Some v \<Rightarrow> v) in
      begin_entry tid v (graph_id g) #
      (if v \<noteq> version g then [rolled_back_entry tid (OCC_Conflict v (version g))]
       else mutation_script tid g g ops))"

lemma abort_log:
  assumes "can_undo g (tx_undo ctx) K"
  shows "snd (abort env pl r g ctx err) = snd (chain_log env pl r [rolled_back_entry (tx_id ctx) err])"
proof -
  let ?c = "rollback_staging g (ctx\<lparr>tx_state := ROLLING_BACK, error_message := Some err\<rparr>)"
  have "error_message ?c = Some err"
    using rollback_staging_total [of g "ctx\<lparr>tx_state := ROLLING_BACK, error_message := Some err\<rparr>" K] assms
    by simp
  moreover have "tx_id ?c = tx_id ctx"
    by (simp add: rollback_staging_def split: prod.splits option.splits)
  ultimately show ?thesis by (simp add: abort_def Let_def case_prod_beta)
qed

definition finish_log :: "tx_env \<Rightarrow> structural_graph \<Rightarrow>
    (tx_context \<times> tx_log) + (tx_context \<times> structural_graph \<times> string option \<times> tx_log) \<Rightarrow> tx_log" where
  "finish_log env g0 x = (case x of
       Inl (c, pl) \<Rightarrow> pl
     | Inr (c, h, r, pl) \<Rightarrow>
         (if wf_graph h
          then snd (chain_log env pl r (commit_entries (tx_id c) (graph_id g0) (next_sequence (version g0))))
          else snd (chain_log env pl r [rolled_back_entry (tx_id c) (Invariant_Violated (errors (validate_graph h)))])))"

lemma apply_loop_log:
  assumes "identity_inv g" and "can_undo g (tx_undo ctx) K"
  shows "finish_log env g0 (apply_loop env ctx g r pl ops)
       = snd (chain_log env pl r (mutation_script (tx_id ctx) g0 g ops))"
  using assms
proof (induction env ctx g r pl ops rule: apply_loop.induct)
  case (2 env ctx g r pl op ops)
  let ?out = "apply_operation g op"
  note ab = abort_log [OF "2.prems"(2), of env pl r]
  consider "\<not> op_validate op" | "op_validate op" "\<not> success ?out" | "op_validate op" "success ?out"
    by blast
  then show ?case
  proof cases
    case 1
    with ab show ?thesis by (simp add: finish_log_def case_prod_beta)
  next
    case b: 2
    moreover from "2.prems"(1) b(2) have "result_graph ?out = g"
      by (intro apply_failure_unchanged) (auto simp: identity_inv_def)
    ultimately show ?thesis using ab by (simp add: finish_log_def Let_def case_prod_beta)
  next
    case 3
    obtain r' pl' where l: "log_event env pl r ''STRUCTURAL_MUTATION_APPLIED''
        (MutationPayload (tx_id ctx) (op_type op) (parameters op)) = (r', pl')"
      by fastforce
    have "graph_ok g" using "2.prems"(1) by (simp add: identity_inv_def)
    from can_undo_push [OF "2.prems"(2) this 3(2)] apply_success_identity [OF "2.prems"(1) 3(2)]
    show ?thesis
      using "2.IH" [OF _ refl] 3 l by (simp add: Let_def)
  qed
qed (simp add: finish_log_def)

lemma execute_transaction_log:
  assumes "identity_inv g"
  shows "tx_plog (execute_transaction env pl tid g ops base) = snd (chain_log env pl None (tx_script tid g ops base))"
proof (cases "base_current base g")
  case False
  then obtain v where "base = Some v" "v \<noteq> version g" by (auto simp: base_current_def)
  then show ?thesis
    by (simp add: execute_transaction_def tx_script_def Let_def case_prod_beta)
next
  case True
  obtain r pl1 where l1: "log_event env pl None ''STRUCTURAL_TRANSACTION_BEGIN''
      (BeginPayload tid (version g) (graph_id g)) = (r, pl1)" by fastforce
  note eq = execute_current [OF True l1, of ops]
  let ?x = "apply_loop env (start_ctx tid g ops) g r pl1 ops"
  have u: "can_undo g (tx_undo (start_ctx tid g ops)) (unit_keys g)"
    by (simp add: can_undo_def start_ctx_def)
  have fin: "tx_plog (execute_transaction env pl tid g ops base) = finish_log env g ?x"
  proof (cases ?x)
    case (Inl a)
    then show ?thesis by (simp add: eq finish_log_def case_prod_beta)
  next
    case (Inr a)
    then obtain c h lr p where a: "?x = Inr (c, h, lr, p)" by (cases a) auto
    with apply_loop_undo [OF assms u, of env r pl1 ops]
    have cu: "can_undo h (tx_undo (c\<lparr>tx_validation := Some (validate_graph h)\<rparr>)) (unit_keys g)" by simp
    have "tx_id c = tid" using apply_loop_frame [OF a] by (simp add: start_ctx_def)
    with abort_log [OF cu, of env p lr] show ?thesis
      by (simp add: eq a finish_log_def Let_def case_prod_beta validate_graph_iff)
        (simp add: commit_graph_def)
  qed
  have "tx_id (start_ctx tid g ops) = tid" by (simp add: start_ctx_def)
  with apply_loop_log [OF assms u, of env g r pl1 ops] show ?thesis
    unfolding fin by (simp add: tx_script_def base_current_case [OF True] l1)
qed

text \<open>What a chain of events adds to a log, and that it keeps the invariants of the log.\<close>

definition log_inv :: "tx_env \<Rightarrow> tx_payload prov_log \<Rightarrow> bool" where
  "log_inv env lg \<longleftrightarrow> chain_inv (tx_hash env) lg \<and> index_inv (tx_ids env) lg"

definition entry_of :: "tx_payload prov_event \<Rightarrow> string \<times> tx_payload" where
  "entry_of ev = (event_type ev, payload ev)"

fun caused_by :: "string option \<Rightarrow> 'p prov_event list \<Rightarrow> bool" where
  "caused_by r [] = True"
| "caused_by r (e # es) = (causal_ref e = r \<and> caused_by (Some (event_id e)) es)"

lemma chain_log_events:
  assumes "inj (fresh_id (tx_ids env))" and "log_inv env lg"
  shows "\<exists>evs lg'. chain_log env (Some lg) r es
       = (if evs = [] then r else Some (event_id (last evs)), Some lg')
     \<and> log_inv env lg' \<and> log_events lg' = log_events lg @ evs
     \<and> map entry_of evs = es \<and> caused_by r evs"
  using assms(2)
proof (induction es arbitrary: lg r)
  case Nil
  then show ?case by (intro exI [of _ "[]"]) simp
next
  case (Cons x es)
  obtain etype pay where x: "x = (etype, pay)" by (cases x)
  obtain ev lg1 where app: "prov_append (tx_hash env) (tx_ids env) lg etype None r pay = (ev, lg1)"
    by fastforce
  have "log_inv env lg1"
    using Cons.prems prov_append_chain_inv [OF _ app] prov_append_index_inv [OF assms(1) _ app]
    by (simp add: log_inv_def)
  from Cons.IH [OF this, of "Some (event_id ev)"] obtain evs lg' where IH:
    "chain_log env (Some lg1) (Some (event_id ev)) es
       = (if evs = [] then Some (event_id ev) else Some (event_id (last evs)), Some lg')"
    "log_inv env lg'" "log_events lg' = log_events lg1 @ evs" "map entry_of evs = es"
    "caused_by (Some (event_id ev)) evs" by blast
  with prov_append_fields [OF app] show ?case
    by (intro exI [of _ "ev # evs"] exI [of _ lg'])
      (auto simp: x log_event_def app entry_of_def [of ev])
qed

lemma causal_walk_chain:
  assumes "inj (fresh_id ids)" and "index_inv ids lg"
  shows "caused_by None evs \<Longrightarrow> set evs \<subseteq> set (log_events lg)
    \<Longrightarrow> causal_walk (event_index lg) (if evs = [] then None else Some (event_id (last evs))) acc
        = Some (Inr (acc @ rev evs))"
proof (induction evs arbitrary: acc rule: rev_induct)
  case Nil
  then show ?case by (simp add: causal_walk_None)
next
  case (snoc e es)
  have "caused_by r (es @ [e]) \<Longrightarrow> caused_by r es \<and> causal_ref e = (if es = [] then r else Some (event_id (last es)))"
    for r by (induction es arbitrary: r) auto
  from this [OF snoc.prems(1)] have c: "caused_by None es"
    "causal_ref e = (if es = [] then None else Some (event_id (last es)))" by auto
  from snoc.prems have "map_of (event_index lg) (event_id e) = Some e"
    by (intro event_index_lookup [OF assms]) simp
  then have "causal_walk (event_index lg) (Some (event_id e)) acc
      = causal_walk (event_index lg) (causal_ref e) (acc @ [e])"
    by (subst causal_walk.simps) simp
  with snoc.IH [OF c(1), of "acc @ [e]"] snoc.prems(2) c(2) show ?case by simp
qed

lemma query_chain_caused:
  assumes "inj (fresh_id ids)" and "index_inv ids lg" and "evs \<noteq> []"
    and "caused_by None evs" and "set evs \<subseteq> set (log_events lg)"
  shows "query_causal_chain lg (event_id (last evs)) = Some (Inr evs)"
  using causal_walk_chain [OF assms(1,2,4,5), of "[]"] assms(3)
  by (simp add: query_causal_chain_def)

text \<open>
  The log of a transaction: the events of the script are appended, the log stays verifiable,
  and the causal chain of the last event is the transaction from its begin on.
\<close>

lemma transaction_provenance:
  assumes "identity_inv g" and "inj (fresh_id (tx_ids env))" and "log_inv env lg"
  shows "\<exists>evs lg'. tx_plog (execute_transaction env (Some lg) tid g ops base) = Some lg'
    \<and> log_inv env lg' \<and> log_events lg' = log_events lg @ evs
    \<and> map entry_of evs = tx_script tid g ops base
    \<and> query_causal_chain lg' (event_id (last evs)) = Some (Inr evs)"
proof -
  obtain evs lg' where l: "snd (chain_log env (Some lg) None (tx_script tid g ops base)) = Some lg'"
    "log_inv env lg'" "log_events lg' = log_events lg @ evs"
    "map entry_of evs = tx_script tid g ops base" "caused_by None evs"
    using chain_log_events [OF assms(2,3), of None "tx_script tid g ops base"]
    by (metis snd_conv)
  from l(4) have "evs \<noteq> []" by (auto simp: tx_script_def Let_def)
  with l query_chain_caused [OF assms(2) _ this l(5), of lg'] show ?thesis
    by (auto simp: execute_transaction_log [OF assms(1)] log_inv_def)
qed

lemma committed_script:
  assumes "tx_success (execute_transaction env pl tid g ops base)"
  shows "tx_script tid g ops base =
    begin_entry tid (version g) (graph_id g) # map (mutation_entry tid) ops
    @ commit_entries tid (graph_id g) (next_sequence (version g))"
proof -
  from assms obtain h where h: "apply_all g ops = Some h" "wf_graph h" and b: "base_current base g"
    by (auto simp: execute_graph abstract_transaction_def split: option.splits if_splits)
  have "mutation_script tid g0 g ops = map (mutation_entry tid) ops
      @ commit_entries tid (graph_id g0) (next_sequence (version g0))" if "apply_all g ops = Some h" for g g0
    using that
  proof (induction ops arbitrary: g)
    case (Cons op ops)
    then show ?case by (auto simp: Let_def success_validates split: if_splits)
  qed (use h(2) in auto)
  with h(1) base_current_case [OF b] show ?thesis by (simp add: tx_script_def Let_def)
qed

section \<open>Properties\<close>

definition demo_env :: tx_env where
  "demo_env = \<lparr>tx_hash = \<lparr>sha256 = (\<lambda>s. show_nat (length s)), str_payload = (\<lambda>_. ''p''), str_time = (\<lambda>_. ''0'')\<rparr>,
     tx_ids = demo_ids\<rparr>"

definition demo_ops :: "ir_operation list" where
  "demo_ops = [demo_add ''c'', demo_connect ''b'' ''c'', demo_remove ''a'']"

lemma demo_commits: "abstract_transaction demo_graph demo_ops \<noteq> None"
  unfolding abstract_transaction_def validate_graph_iff [symmetric] by code_simp

lemma demo_log_inv: "log_inv demo_env (new_log ''x'')"
  by (simp add: log_inv_def new_log_chain_inv new_log_index_inv)

text \<open>
  C1: The transaction manager refines the abstract transaction. It commits exactly when the
  base version is the graph's version, every operation succeeds in turn and the resulting graph
  is well formed; the graph then becomes that result with the next version, and in every other
  case the graph is the one before the call.
\<close>

theorem transaction_refines_spec:
  "let r = execute_transaction env pl tid g ops base;
       spec = (if base = None \<or> base = Some (version g) then abstract_transaction g ops else None)
   in tx_success r = (spec \<noteq> None) \<and> tx_graph r = (case spec of None \<Rightarrow> g | Some h \<Rightarrow> h)"
  by (rule execute_transaction_refines)

text \<open>
  C5: The final state of a transaction: COMMITTED without an error when it succeeds,
  FAILED with the conflict when the base version is stale, and ROLLED_BACK with an error in
  every other case. In particular rolling the staging graph back never raises.
\<close>

theorem transaction_final_state:
  assumes "identity_inv g"
  shows "let r = execute_transaction env pl tid g ops base; c = tx_ctx r in
     (if tx_success r then tx_state c = COMMITTED \<and> error_message c = None
      else if base = None \<or> base = Some (version g)
           then tx_state c = ROLLED_BACK \<and> error_message c \<noteq> None
           else tx_state c = TX_FAILED \<and> error_message c = Some (OCC_Conflict (the base) (version g)))"
  using assms by (rule execute_transaction_states)

theorem transaction_final_state_witness:
  "tx_state (tx_ctx (execute_transaction demo_env None (TransactionID ''t'') demo_graph [demo_add ''a''] None))
   = ROLLED_BACK"
proof -
  have "abstract_transaction demo_graph [demo_add ''a''] = None"
    unfolding abstract_transaction_def validate_graph_iff [symmetric] by code_simp
  then have "\<not> tx_success (execute_transaction demo_env None (TransactionID ''t'') demo_graph [demo_add ''a''] None)"
    by (simp add: execute_graph)
  with transaction_final_state [OF demo_graph_identity, of demo_env None "TransactionID ''t''" "[demo_add ''a'']" None]
  show ?thesis by (simp add: Let_def)
qed

text \<open>
  C3: Over every sequence of transactions on one graph, committed or not, the graph stays
  well formed, identifiers stay permanent, and the version is the initial one moved on once for
  each commit.
\<close>

theorem transactions_keep_graph_wf:
  assumes "identity_inv g" and "wf_graph g" and "tx_run env pl g cs = (bs, g', pl')"
  shows "identity_inv g' \<and> wf_graph g' \<and> retired_ids g \<subseteq> retired_ids g'
    \<and> version g' = (next_sequence ^^ length (filter id bs)) (version g)"
  using assms by (rule tx_run_inv)

definition demo_calls :: "tx_call list" where
  "demo_calls = [(TransactionID ''t'', demo_ops, None), (TransactionID ''u'', [demo_add ''a''], Some initial_version)]"

theorem transactions_keep_graph_wf_witness:
  "wf_graph (fst (snd (tx_run demo_env None demo_graph demo_calls)))"
  using transactions_keep_graph_wf [OF demo_graph_identity demo_graph_wf, of demo_env None demo_calls]
  by (metis prod.collapse)

text \<open>
  C4: No lost update. Once some transaction has committed on a graph, a client that still
  holds the version from before is refused, whatever its operations, and the graph keeps the
  committed state.
\<close>

theorem stale_transaction_refused:
  assumes "tx_run env pl g cs = (bs, g', pl')" and "identity_inv g" and "wf_graph g" and "True \<in> set bs"
  shows "\<not> tx_success (execute_transaction env pl'' tid g' ops (Some (version g)))
    \<and> tx_graph (execute_transaction env pl'' tid g' ops (Some (version g))) = g'"
  using assms by (rule lost_update_refused)

theorem stale_transaction_refused_witness:
  "\<not> tx_success (execute_transaction demo_env None (TransactionID ''v'')
      (fst (snd (tx_run demo_env None demo_graph demo_calls))) demo_ops (Some (version demo_graph)))"
proof -
  obtain bs g' pl' where r: "tx_run demo_env None demo_graph demo_calls = (bs, g', pl')"
    by (metis prod.collapse)
  have "tx_success (execute_transaction demo_env None (TransactionID ''t'') demo_graph demo_ops None)"
    using demo_commits by (simp add: execute_graph base_current_def)
  with r have "True \<in> set bs" by (auto simp: demo_calls_def Let_def split: prod.splits)
  from stale_transaction_refused [OF r demo_graph_identity demo_graph_wf this] show ?thesis
    by (simp add: r)
qed

text \<open>
  C6: The provenance of a transaction. The log gains exactly the events of the script (begin,
  the applied mutations in order, then commit and version creation, or one rollback with the
  reason), it still verifies, and the causal chain of the last event is the whole transaction.
\<close>

theorem transaction_provenance_exact:
  assumes "identity_inv g" and "inj (fresh_id (tx_ids env))" and "log_inv env lg"
  shows "\<exists>evs lg'. tx_plog (execute_transaction env (Some lg) tid g ops base) = Some lg'
    \<and> log_inv env lg' \<and> log_events lg' = log_events lg @ evs
    \<and> map entry_of evs = tx_script tid g ops base
    \<and> query_causal_chain lg' (event_id (last evs)) = Some (Inr evs)"
  using assms by (rule transaction_provenance)

theorem transaction_provenance_exact_witness:
  "\<exists>evs lg'. tx_plog (execute_transaction demo_env (Some (new_log ''x'')) (TransactionID ''t'') demo_graph demo_ops None) = Some lg'
    \<and> log_inv demo_env lg' \<and> log_events lg' = log_events (new_log ''x'') @ evs
    \<and> map entry_of evs = tx_script (TransactionID ''t'') demo_graph demo_ops None
    \<and> query_causal_chain lg' (event_id (last evs)) = Some (Inr evs)"
proof (rule transaction_provenance_exact)
  show "identity_inv demo_graph" by (rule demo_graph_identity)
  show "inj (fresh_id (tx_ids demo_env))" using demo_ids_inj by (simp add: demo_env_def)
  show "log_inv demo_env (new_log ''x'')" by (rule demo_log_inv)
qed

text \<open>
  A committed transaction leaves one event per operation, in order, between its begin and
  its commit, and names the new version.
\<close>

theorem committed_transaction_script:
  assumes "tx_success (execute_transaction env pl tid g ops base)"
  shows "tx_script tid g ops base =
    begin_entry tid (version g) (graph_id g) # map (mutation_entry tid) ops
    @ commit_entries tid (graph_id g) (next_sequence (version g))"
  using assms by (rule committed_script)

theorem committed_transaction_script_witness:
  "length (tx_script (TransactionID ''t'') demo_graph demo_ops None) = 6"
proof -
  have "tx_success (execute_transaction demo_env None (TransactionID ''t'') demo_graph demo_ops None)"
    using demo_commits by (simp add: execute_graph base_current_def)
  from committed_transaction_script [OF this] show ?thesis by (simp add: demo_ops_def)
qed

end
