(* ===== verification/Schema.thy ===== *)
theory Schema
  imports IR_Graph
begin

text \<open>
  Schema versions and headers (\<open>kernel/versioning.py\<close>) and the structural validation of
  serialised graphs (\<open>ir/schema.py\<close>). Documents are dynamic values. The exception texts are
  those of the code except that the rendering (\<open>repr\<close>) of an offending value is left out.
\<close>

section \<open>Schema versions\<close>

record schema_version =
  sv_major :: nat
  sv_minor :: nat
  sv_patch :: nat

definition show_version :: "schema_version \<Rightarrow> string" where
  "show_version v = show_nat (sv_major v) @ ''.'' @ show_nat (sv_minor v) @ ''.'' @ show_nat (sv_patch v)"

text \<open>The pattern \<open>0|[1-9][0-9]*\<close> and the value of a part that matches it.\<close>

definition is_digit :: "char \<Rightarrow> bool" where
  "is_digit c \<longleftrightarrow> (of_char c :: nat) \<in> {48..57}"

definition digit_value :: "char \<Rightarrow> nat" where
  "digit_value c = of_char c - 48"

definition is_numeral :: "string \<Rightarrow> bool" where
  "is_numeral s \<longleftrightarrow> s \<noteq> [] \<and> list_all is_digit s \<and> (hd s = CHR ''0'' \<longrightarrow> tl s = [])"

definition read_nat :: "string \<Rightarrow> nat" where
  "read_nat s = foldl (\<lambda>n c. 10 * n + digit_value c) 0 s"

text \<open>The groups of the pattern: the text before and after the first separator.\<close>

definition split_dot :: "string \<Rightarrow> string \<times> string" where
  "split_dot s = (takeWhile (\<lambda>c. c \<noteq> CHR ''.'') s, tl (dropWhile (\<lambda>c. c \<noteq> CHR ''.'') s))"

definition parse_version :: "pyval \<Rightarrow> schema_version res" where
  "parse_version v =
     (case v of
        PStr s \<Rightarrow>
          (let (a, s1) = split_dot s; (b, c) = split_dot s1 in
           require (s = a @ ''.'' @ b @ ''.'' @ c \<and> is_numeral a \<and> is_numeral b \<and> is_numeral c)
             (DNCValidationError ''invalid DNC-IR schema_version'')
           (Inr \<lparr>sv_major = read_nat a, sv_minor = read_nat b, sv_patch = read_nat c\<rparr>))
      | _ \<Rightarrow> Inl (DNCValidationError ''schema_version MUST be a semantic-version string''))"

definition schema_id_const :: string where "schema_id_const = ''dnc.ir.structural_graph''"
definition schema_version_const :: string where "schema_version_const = ''1.3.0''"
definition compatibility_const :: string where "compatibility_const = ''2026.07.phase1''"

definition supported_versions :: "string list" where
  "supported_versions = [''1.1.0'', ''1.2.0'', schema_version_const]"

type_synonym document = "(string, pyval) dict"

definition header_fields :: "string list" where
  "header_fields = [''compatibility_version'', ''schema_id'', ''schema_version'']"

fun join_comma :: "string list \<Rightarrow> string" where
  "join_comma [] = []"
| "join_comma [s] = s"
| "join_comma (s # ss) = s @ '', '' @ join_comma ss"

definition has_key :: "document \<Rightarrow> string \<Rightarrow> bool" where
  "has_key d k \<longleftrightarrow> map_of d k \<noteq> None"

definition validate_schema_header :: "document \<Rightarrow> schema_version option res" where
  "validate_schema_header d =
     (let present = filter (has_key d) header_fields in
      if present = [] then Inr None
      else require (present = header_fields)
        (DNCValidationError (''partial DNC-IR schema header; missing: ''
           @ join_comma (filter (\<lambda>k. \<not> has_key d k) header_fields)))
      (require (map_of d ''schema_id'' = Some (PStr schema_id_const))
        (DNCValidationError ''unsupported DNC-IR schema_id'')
      (case parse_version (the (map_of d ''schema_version'')) of
         Inl e \<Rightarrow> Inl e
       | Inr incoming \<Rightarrow>
           require (\<exists>s\<in>set supported_versions. map_of d ''schema_version'' = Some (PStr s))
             (DNCValidationError ''unsupported DNC-IR schema_version'')
           (require (map_of d ''compatibility_version'' = Some (PStr compatibility_const))
             (DNCValidationError ''unsupported DNC-IR compatibility_version'')
           (Inr (Some incoming))))))"

definition schema_header :: document where
  "schema_header = [(''schema_id'', PStr schema_id_const), (''schema_version'', PStr schema_version_const),
     (''compatibility_version'', PStr compatibility_const)]"

section \<open>Field checks\<close>

datatype field_type = TString | TObject | TArray | TBoolean

fun type_name_of :: "field_type \<Rightarrow> string" where
  "type_name_of TString = ''string''"
| "type_name_of TObject = ''object''"
| "type_name_of TArray = ''array''"
| "type_name_of TBoolean = ''boolean''"

fun has_type :: "field_type \<Rightarrow> pyval \<Rightarrow> bool" where
  "has_type TString (PStr _) = True"
| "has_type TObject (PDict _) = True"
| "has_type TArray (PList _) = True"
| "has_type TBoolean (PBool _) = True"
| "has_type _ _ = False"

definition require_type :: "document \<Rightarrow> string \<Rightarrow> field_type \<Rightarrow> string \<Rightarrow> unit res" where
  "require_type d k t prefix =
     (case map_of d k of
        None \<Rightarrow> Inl (DNCValidationError (prefix @ ''.'' @ k @ '' is required''))
      | Some v \<Rightarrow> require (has_type t v)
          (DNCValidationError (prefix @ ''.'' @ k @ '' MUST be a '' @ type_name_of t)) (Inr ()))"

definition validate_optional_type :: "document \<Rightarrow> string \<Rightarrow> field_type \<Rightarrow> unit res" where
  "validate_optional_type d k t =
     (case map_of d k of
        None \<Rightarrow> Inr ()
      | Some v \<Rightarrow> require (has_type t v)
          (DNCValidationError (''document.'' @ k @ '' MUST be a '' @ type_name_of t)) (Inr ()))"

text \<open>\<open>x; y\<close>: the second check runs if the first does not raise.\<close>

definition seq :: "unit res \<Rightarrow> 'a res \<Rightarrow> 'a res" where
  "seq x y = (case x of Inl e \<Rightarrow> Inl e | Inr _ \<Rightarrow> y)"

fun for_each :: "('a \<Rightarrow> unit res) \<Rightarrow> 'a list \<Rightarrow> unit res" where
  "for_each f [] = Inr ()"
| "for_each f (x # xs) = seq (f x) (for_each f xs)"

fun dict_of :: "pyval \<Rightarrow> document" where
  "dict_of (PDict d) = d"
| "dict_of _ = []"

fun list_of :: "pyval \<Rightarrow> pyval list" where
  "list_of (PList vs) = vs"
| "list_of _ = []"

definition field :: "document \<Rightarrow> string \<Rightarrow> pyval" where
  "field d k = (case map_of d k of None \<Rightarrow> PNone | Some v \<Rightarrow> v)"

definition require_enum :: "document \<Rightarrow> string \<Rightarrow> string list \<Rightarrow> string \<Rightarrow> unit res" where
  "require_enum d k vals prefix =
     seq (require_type d k TString prefix)
       (require (pstr_val (field d k) \<in> set vals)
         (DNCValidationError (prefix @ ''.'' @ k @ '' is unsupported'')) (Inr ()))"

definition require_nullable_string :: "document \<Rightarrow> string \<Rightarrow> string \<Rightarrow> unit res" where
  "require_nullable_string d k prefix =
     (case map_of d k of
        None \<Rightarrow> Inl (DNCValidationError (prefix @ ''.'' @ k @ '' is required''))
      | Some PNone \<Rightarrow> Inr ()
      | Some (PStr s) \<Rightarrow> require (\<not> blank s)
          (DNCValidationError (prefix @ ''.'' @ k @ '' MUST be non-empty when provided'')) (Inr ())
      | Some _ \<Rightarrow> Inl (DNCValidationError (prefix @ ''.'' @ k @ '' MUST be a string or null'')))"

definition require_string_array :: "document \<Rightarrow> string \<Rightarrow> string \<Rightarrow> unit res" where
  "require_string_array d k prefix =
     seq (require_type d k TArray prefix)
       (let vs = list_of (field d k) in
        require (list_all (\<lambda>v. is_pstr v \<and> \<not> blank (pstr_val v)) vs)
          (DNCValidationError (prefix @ ''.'' @ k @ '' MUST contain non-empty strings''))
        (require (length vs = card (set vs))
          (DNCValidationError (prefix @ ''.'' @ k @ '' MUST contain unique strings'')) (Inr ())))"

section \<open>Enumeration values\<close>

fun direction_value :: "port_direction \<Rightarrow> string" where
  "direction_value INPUT = ''INPUT''"
| "direction_value OUTPUT = ''OUTPUT''"

fun mode_value :: "idempotency_mode \<Rightarrow> string" where
  "mode_value IM_NONE = ''NONE''"
| "mode_value IDEMPOTENT = ''IDEMPOTENT''"
| "mode_value KEY_REQUIRED = ''KEY_REQUIRED''"
| "mode_value AT_MOST_ONCE = ''AT_MOST_ONCE''"

fun scope_value :: "idempotency_scope \<Rightarrow> string" where
  "scope_value REQUEST = ''REQUEST''"
| "scope_value TASK = ''TASK''"
| "scope_value TENANT = ''TENANT''"

fun effect_class_value :: "side_effect_class \<Rightarrow> string" where
  "effect_class_value SE_NONE = ''NONE''"
| "effect_class_value REVERSIBLE = ''REVERSIBLE''"
| "effect_class_value COMPENSATABLE = ''COMPENSATABLE''"
| "effect_class_value IRREVERSIBLE = ''IRREVERSIBLE''"

fun effect_value :: "effect_type \<Rightarrow> string" where
  "effect_value PROVIDER_CALL = ''PROVIDER_CALL''"
| "effect_value FILE_WRITE = ''FILE_WRITE''"
| "effect_value DATABASE_WRITE = ''DATABASE_WRITE''"
| "effect_value NETWORK_CALL = ''NETWORK_CALL''"
| "effect_value CACHE_WRITE = ''CACHE_WRITE''"
| "effect_value PROCESS_SPAWN = ''PROCESS_SPAWN''"
| "effect_value CLEANUP = ''CLEANUP''"

fun isolation_value :: "isolation_grade \<Rightarrow> string" where
  "isolation_value I0_NONE = ''I0_NONE''"
| "isolation_value I1_GRAPH_ONLY = ''I1_GRAPH_ONLY''"
| "isolation_value I2_PROCESS_LOCAL = ''I2_PROCESS_LOCAL''"
| "isolation_value I3_RECORDED_EXTERNALS = ''I3_RECORDED_EXTERNALS''"
| "isolation_value I4_SANDBOXED_ENVIRONMENT = ''I4_SANDBOXED_ENVIRONMENT''"

fun data_class_value :: "data_classification \<Rightarrow> string" where
  "data_class_value PUBLIC = ''PUBLIC''"
| "data_class_value INTERNAL = ''INTERNAL''"
| "data_class_value CONFIDENTIAL = ''CONFIDENTIAL''"
| "data_class_value RESTRICTED = ''RESTRICTED''"

definition directions :: "port_direction list" where "directions = [INPUT, OUTPUT]"
definition kinds :: "port_kind list" where "kinds = [PK_DATA, PK_CONTROL, PK_STATE, PK_RESOURCE]"
definition cardinalities :: "port_cardinality list" where
  "cardinalities = [EXACTLY_ONE, ZERO_OR_ONE, ONE_OR_MORE, ZERO_OR_MORE]"
definition modes :: "idempotency_mode list" where "modes = [IM_NONE, IDEMPOTENT, KEY_REQUIRED, AT_MOST_ONCE]"
definition scopes :: "idempotency_scope list" where "scopes = [REQUEST, TASK, TENANT]"
definition effect_classes :: "side_effect_class list" where
  "effect_classes = [SE_NONE, REVERSIBLE, COMPENSATABLE, IRREVERSIBLE]"
definition effects :: "effect_type list" where
  "effects = [PROVIDER_CALL, FILE_WRITE, DATABASE_WRITE, NETWORK_CALL, CACHE_WRITE, PROCESS_SPAWN, CLEANUP]"
definition isolations :: "isolation_grade list" where
  "isolations = [I0_NONE, I1_GRAPH_ONLY, I2_PROCESS_LOCAL, I3_RECORDED_EXTERNALS, I4_SANDBOXED_ENVIRONMENT]"
definition data_classes :: "data_classification list" where
  "data_classes = [PUBLIC, INTERNAL, CONFIDENTIAL, RESTRICTED]"

interpretation direction: value_enum directions direction_value
  by unfold_locales (auto simp: directions_def, metis port_direction.exhaust)

interpretation kind: value_enum kinds port_kind_value
  by unfold_locales (auto simp: kinds_def, metis port_kind.exhaust)

interpretation cardinality: value_enum cardinalities cardinality_value
  by unfold_locales (auto simp: cardinalities_def, metis port_cardinality.exhaust)

interpretation mode: value_enum modes mode_value
  by unfold_locales (auto simp: modes_def, metis idempotency_mode.exhaust)

interpretation scope: value_enum scopes scope_value
  by unfold_locales (auto simp: scopes_def, metis idempotency_scope.exhaust)

interpretation effect_class: value_enum effect_classes effect_class_value
  by unfold_locales (auto simp: effect_classes_def, metis side_effect_class.exhaust)

interpretation effect: value_enum effects effect_value
  by unfold_locales (auto simp: effects_def, metis effect_type.exhaust)

interpretation isolation: value_enum isolations isolation_value
  by unfold_locales (auto simp: isolations_def, metis isolation_grade.exhaust)

interpretation data_class: value_enum data_classes data_class_value
  by unfold_locales (auto simp: data_classes_def, metis data_classification.exhaust)

section \<open>Validation of a document\<close>

definition validate_governance_contract :: "document \<Rightarrow> string \<Rightarrow> unit res" where
  "validate_governance_contract c prefix =
     seq (for_each (\<lambda>k. require_type c k TObject prefix) [''idempotency'', ''side_effects'', ''placement'', ''security''])
     (let idem = dict_of (field c ''idempotency''); ip = prefix @ ''.idempotency'';
          eff = dict_of (field c ''side_effects''); ep = prefix @ ''.side_effects'';
          pla = dict_of (field c ''placement''); pp = prefix @ ''.placement'';
          sec = dict_of (field c ''security''); sp = prefix @ ''.security''
      in for_each id
       [require_enum idem ''mode'' (map mode_value modes) ip,
        require_enum idem ''scope'' (map scope_value scopes) ip,
        require_nullable_string idem ''key_field'' ip,
        require_type idem ''payload_hash_required'' TBoolean ip,
        require_enum eff ''classification'' (map effect_class_value effect_classes) ep,
        seq (require_string_array eff ''effect_types'' ep)
          (require (list_all (\<lambda>v. pstr_val v \<in> effect_value ` set effects) (list_of (field eff ''effect_types'')))
            (DNCValidationError (ep @ ''.effect_types contains an unsupported value'')) (Inr ())),
        require_nullable_string eff ''compensation_action'' ep,
        require_enum eff ''minimum_isolation'' (map isolation_value isolations) ep,
        for_each (\<lambda>k. require_string_array pla k pp)
          [''allowed_regions'', ''allowed_devices'', ''allowed_runtimes'', ''required_capabilities'',
           ''preferred_regions'', ''preferred_devices''],
        require_type pla ''requires_local_inputs'' TBoolean pp,
        require_nullable_string sec ''tenant_id'' sp,
        for_each (\<lambda>k. require_string_array sec k sp)
          [''required_permissions'', ''security_labels'', ''allowed_residencies'', ''accepted_trust_zones''],
        require_enum sec ''output_classification'' (map data_class_value data_classes) sp,
        require_enum sec ''maximum_input_classification'' (map data_class_value data_classes) sp,
        require_type sec ''trust_zone'' TString sp,
        require_type sec ''confidential_compute_required'' TBoolean sp])"

text \<open>The three enumeration checks of a port, whose texts have no field separator of their own.\<close>

definition validate_port_document :: "string \<Rightarrow> nat \<times> pyval \<Rightarrow> unit res" where
  "validate_port_document base ip =
     (let (index, p) = ip; prefix = base @ ''.ports.'' @ show_nat index; d = dict_of p in
      require (has_type TObject p) (DNCValidationError (prefix @ '' MUST be an object''))
      (for_each id
        [for_each (\<lambda>k. require_type d k TString prefix)
           [''port_id'', ''direction'', ''kind'', ''cardinality'', ''description''],
         require_type d ''schema'' TObject prefix,
         require (pstr_val (field d ''direction'') \<in> direction_value ` set directions)
           (DNCValidationError (prefix @ ''.direction is unsupported'')) (Inr ()),
         require (pstr_val (field d ''kind'') \<in> port_kind_value ` set kinds)
           (DNCValidationError (prefix @ ''.kind is unsupported'')) (Inr ()),
         require (pstr_val (field d ''cardinality'') \<in> cardinality_value ` set cardinalities)
           (DNCValidationError (prefix @ ''.cardinality is unsupported'')) (Inr ())]))"

definition typed_schema :: "schema_version option \<Rightarrow> bool" where
  "typed_schema sv = (case sv of None \<Rightarrow> False | Some v \<Rightarrow> show_version v \<in> {''1.2.0'', ''1.3.0''})"

definition governed_schema :: "schema_version option \<Rightarrow> bool" where
  "governed_schema sv = (case sv of None \<Rightarrow> False | Some v \<Rightarrow> show_version v = ''1.3.0'')"

definition validate_unit_document :: "schema_version option \<Rightarrow> string \<times> pyval \<Rightarrow> unit res" where
  "validate_unit_document sv ku =
     (let (key, u) = ku; d = dict_of u; prefix = ''units.'' @ key in
      require (has_type TObject u) (DNCValidationError ''units MUST map string IDs to unit objects'')
      (for_each id
        [require_type d ''unit_id'' TString prefix,
         require (pstr_val (field d ''unit_id'') = key)
           (DNCValidationError (prefix @ ''.unit_id MUST match its containing key'')) (Inr ()),
         for_each (\<lambda>k. require_type d k TString prefix) [''name'', ''structure'', ''visibility'', ''lifecycle''],
         if typed_schema sv
         then seq (require_type d ''contract'' TObject prefix)
           (let c = dict_of (field d ''contract''); cp = prefix @ ''.contract'' in
            seq (require_type c ''ports'' TArray cp)
           (seq (for_each (validate_port_document cp) (enumerate 0 (list_of (field c ''ports''))))
            (if governed_schema sv then validate_governance_contract c cp else Inr ())))
         else Inr ()]))"

definition require_port_field :: "document \<Rightarrow> string \<Rightarrow> string \<Rightarrow> unit res" where
  "require_port_field d k prefix =
     (case map_of d k of
        None \<Rightarrow> Inl (DNCValidationError (prefix @ ''.'' @ k @ '' is required''))
      | Some v \<Rightarrow> require (v = PNone \<or> is_pstr v)
          (DNCValidationError (prefix @ ''.'' @ k @ '' MUST be a string or null'')) (Inr ()))"

definition validate_edge_document :: "schema_version option \<Rightarrow> nat \<times> pyval \<Rightarrow> unit res" where
  "validate_edge_document sv ie =
     (let (index, e) = ie; d = dict_of e; prefix = ''edges.'' @ show_nat index in
      require (has_type TObject e) (DNCValidationError (prefix @ '' MUST be an object''))
      (seq (for_each (\<lambda>k. require_type d k TString prefix) [''source'', ''target'', ''edge_type''])
       (if typed_schema sv
        then for_each (\<lambda>k. require_port_field d k prefix) [''source_port'', ''target_port'']
        else Inr ())))"

definition validate_version_field :: "document \<Rightarrow> string \<Rightarrow> unit res" where
  "validate_version_field v k =
     require (case map_of v k of Some (PInt n) \<Rightarrow> 0 \<le> n | _ \<Rightarrow> False)
       (DNCValidationError (''version.'' @ k @ '' MUST be a non-negative integer'')) (Inr ())"

text \<open>
  A \<open>version\<close>, \<open>units\<close> or \<open>edges\<close> entry that is present has the right type when its content
  is checked.
\<close>

definition validate_ir_document :: "pyval \<Rightarrow> unit res" where
  "validate_ir_document doc =
     require (has_type TObject doc) (DNCValidationError ''DNC-IR document MUST be an object'')
     (let d = dict_of doc in
      case validate_schema_header d of
        Inl e \<Rightarrow> Inl e
      | Inr sv \<Rightarrow>
          for_each id
           [require_type d ''graph_id'' TString ''document'',
            require (pstr_val (field d ''graph_id'') \<noteq> []) (DNCValidationError ''graph_id MUST be non-empty'') (Inr ()),
            if sv \<noteq> None
            then for_each id [require_type d ''version'' TObject ''document'', require_type d ''units'' TObject ''document'',
                   require_type d ''edges'' TArray ''document'', require_type d ''metadata'' TObject ''document'']
            else for_each id [validate_optional_type d ''version'' TObject, validate_optional_type d ''units'' TObject,
                   validate_optional_type d ''edges'' TArray, validate_optional_type d ''metadata'' TObject],
            if map_of d ''version'' \<noteq> None
            then for_each (validate_version_field (dict_of (field d ''version''))) [''major'', ''minor'', ''patch'', ''sequence'']
            else Inr (),
            for_each (validate_unit_document sv) (dict_of (field d ''units'')),
            for_each (validate_edge_document sv) (enumerate 0 (list_of (field d ''edges'')))])"

section \<open>Printing and parsing of versions\<close>

lemma digit_char: "d < 10 \<Longrightarrow> is_digit (char_of (48 + d)) \<and> digit_value (char_of (48 + d)) = d"
  by (simp add: is_digit_def digit_value_def)

lemma char_of_digit: "is_digit c \<Longrightarrow> char_of (48 + digit_value c) = c \<and> digit_value c < 10"
  by (auto simp: is_digit_def digit_value_def)

lemma digit_zero: "is_digit c \<Longrightarrow> digit_value c = 0 \<longleftrightarrow> c = CHR ''0''"
proof
  assume "is_digit c" "digit_value c = 0"
  then show "c = CHR ''0''" using char_of_digit [of c] by (simp add: char_of_def bit_0)
qed (simp add: digit_value_def)

lemma read_nat_snoc [simp]: "read_nat (s @ [c]) = 10 * read_nat s + digit_value c"
  by (simp add: read_nat_def)

lemma read_show_nat [simp]: "read_nat (show_nat n) = n"
proof (induction n rule: show_nat.induct)
  case (1 n)
  show ?case
    by (cases "n < 10")
      (simp_all add: show_nat.simps [of n] 1 digit_char [THEN conjunct2] read_nat_def [of "[_]"])
qed

lemma show_nat_shape:
  "list_all is_digit (show_nat n) \<and> show_nat n \<noteq> [] \<and> (hd (show_nat n) = CHR ''0'' \<longrightarrow> n = 0)"
proof (induction n rule: show_nat.induct)
  case (1 n)
  have "n = 0" if "n < 10" "char_of (48 + n) = CHR ''0''"
    using digit_char [OF that(1)] unfolding that(2) by (simp add: digit_value_def)
  with 1 show ?case
    by (cases "n < 10") (auto simp: show_nat.simps [of n] digit_char hd_append)
qed

lemma show_nat_numeral: "is_numeral (show_nat n)"
  using show_nat_shape [of n] by (auto simp: is_numeral_def show_nat.simps [of 0])

lemma read_nat_pos: "s \<noteq> [] \<Longrightarrow> list_all is_digit s \<Longrightarrow> hd s \<noteq> CHR ''0'' \<Longrightarrow> 0 < read_nat s"
proof (induction s rule: rev_induct)
  case (snoc c s)
  then show ?case
    by (cases "s = []") (auto simp: read_nat_def [of "[_]"] digit_zero intro: gr0I)
qed simp

lemma show_read_nat: "s \<noteq> [] \<Longrightarrow> list_all is_digit s \<Longrightarrow> hd s \<noteq> CHR ''0'' \<Longrightarrow> show_nat (read_nat s) = s"
proof (induction s rule: rev_induct)
  case (snoc c s)
  then have c: "char_of (48 + digit_value c) = c" "digit_value c < 10" using char_of_digit by auto
  show ?case
  proof (cases "s = []")
    case True
    with c show ?thesis by (simp add: read_nat_def [of "[_]"] show_nat.simps [of "digit_value c"])
  next
    case False
    with snoc.prems have "0 < read_nat s" by (intro read_nat_pos) auto
    with False snoc c show ?thesis
      by (simp add: show_nat.simps [of "10 * read_nat s + digit_value c"])
  qed
qed simp

lemma show_read_numeral:
  assumes "is_numeral s"
  shows "show_nat (read_nat s) = s"
proof (cases "hd s = CHR ''0''")
  case True
  with assms have s: "s = ''0''" by (cases s) (auto simp: is_numeral_def)
  show ?thesis unfolding s by code_simp
qed (use assms in \<open>simp add: is_numeral_def show_read_nat\<close>)

lemma dot_no_digit: "is_digit c \<Longrightarrow> c \<noteq> CHR ''.''"
  by (auto simp: is_digit_def)

lemma split_dot_numeral: "list_all is_digit a \<Longrightarrow> split_dot (a @ CHR ''.'' # s) = (a, s)"
  by (induction a) (auto simp: split_dot_def dot_no_digit)

text \<open>
  Printing and parsing of schema versions are inverse: every version is parsed back from
  its text, and a text that is accepted is exactly what the parsed version prints, so that no
  two texts denote one version.
\<close>

theorem schema_version_roundtrip:
  "parse_version (PStr (show_version v)) = Inr v
   \<and> (parse_version (PStr s) = Inr w \<longrightarrow> s = show_version w)"
proof
  show "parse_version (PStr (show_version v)) = Inr v"
    using show_nat_shape show_nat_numeral
    by (simp add: parse_version_def show_version_def split_dot_numeral require_def)
  show "parse_version (PStr s) = Inr w \<longrightarrow> s = show_version w"
    by (auto simp: parse_version_def show_version_def require_def show_read_numeral split: prod.splits if_splits)
qed

theorem schema_version_roundtrip_witness:
  "''1.3.0'' = show_version \<lparr>sv_major = 1, sv_minor = 3, sv_patch = 0\<rparr>"
proof -
  have "parse_version (PStr ''1.3.0'') = Inr \<lparr>sv_major = 1, sv_minor = 3, sv_patch = 0\<rparr>" by code_simp
  then show ?thesis using schema_version_roundtrip by blast
qed

end
