(* ===== verification/Kahn.thy ===== *)
theory Kahn
  imports DNC_Prelude
begin

text \<open>
  Kahn's algorithm, which the projector (\<open>projection/projector.py\<close>) and the scheduler
  (\<open>scheduler/scheduler.py\<close>) both contain: the loop over a queue of nodes without open
  predecessors, and the interface of the graphs it runs on as a locale. The locale's lemmas
  say that the order found respects every edge, and that it covers the nodes exactly when the
  graph has no cycle.
\<close>

section \<open>The loop\<close>

definition deg :: "('a, int) dict \<Rightarrow> 'a \<Rightarrow> int" where
  "deg d v = (case map_of d v of None \<Rightarrow> 0 | Some n \<Rightarrow> n)"

text \<open>The inner loop: decrement the degree of each successor; those that reach 0 are queued.\<close>

fun relax :: "('a, int) dict \<Rightarrow> 'a list \<Rightarrow> ('a, int) dict \<times> 'a list" where
  "relax d [] = (d, [])"
| "relax d (v # vs) =
     (let n = deg d v - 1; (d', q) = relax (dict_set v n d) vs
      in (d', if n = 0 then v # q else q))"

definition positive :: "('a, int) dict \<Rightarrow> 'a set" where
  "positive d = {k \<in> fst ` set d. 0 < deg d k}"

lemma deg_dict_set [simp]: "deg (dict_set v n d) w = (if w = v then n else deg d w)"
  by (simp add: deg_def)

lemma deg_nonzero_key: "deg d v \<noteq> 0 \<Longrightarrow> v \<in> fst ` set d"
  by (auto simp: deg_def split: option.splits dest: map_of_Some_keys)

lemma positive_iff: "k \<in> positive d \<longleftrightarrow> 0 < deg d k"
  using deg_nonzero_key [of d k] by (auto simp: positive_def)

lemma finite_positive [simp]: "finite (positive d)"
  by (simp add: positive_def)

lemma relax_measure: "card (positive (fst (relax d vs))) + length (snd (relax d vs)) \<le> card (positive d)"
proof (induction vs arbitrary: d)
  case (Cons v vs)
  let ?n = "deg d v - 1" and ?d = "dict_set v (deg d v - 1) d"
  have IH: "card (positive (fst (relax ?d vs))) + length (snd (relax ?d vs)) \<le> card (positive ?d)"
    by (rule Cons.IH)
  show ?case
  proof (cases "?n = 0")
    case True
    then have "positive ?d = positive d - {v}" and "v \<in> positive d"
      by (auto simp: positive_iff split: if_splits)
    then have "card (positive d) = Suc (card (positive ?d))"
      by (metis card.remove finite_positive)
    with IH True show ?thesis by (simp add: Let_def case_prod_beta)
  next
    case False
    have "positive ?d \<subseteq> positive d" by (auto simp: positive_iff split: if_splits)
    then have "card (positive ?d) \<le> card (positive d)" by (simp add: card_mono)
    with IH False show ?thesis by (simp add: Let_def case_prod_beta)
  qed
qed simp

text \<open>
  The outer loop. \<open>visit\<close> is what the code does with a node it takes from the queue: it
  appends the node to the order, or counts it.
\<close>

function kahn_loop ::
  "('a \<Rightarrow> 's \<Rightarrow> 's) \<Rightarrow> ('a \<Rightarrow> 'a list) \<Rightarrow> ('a, int) dict \<Rightarrow> 'a list \<Rightarrow> 's \<Rightarrow> 's" where
  "kahn_loop visit succs d [] acc = acc"
| "kahn_loop visit succs d (u # queue) acc =
     (let (d', q) = relax d (succs u) in kahn_loop visit succs d' (queue @ q) (visit u acc))"
  by pat_completeness auto
termination
proof (relation "measure (\<lambda>(visit, succs, d, queue, acc). card (positive d) + length queue)", goal_cases)
  case (2 visit succs d u queue acc x d' q)
  then have "relax d (succs u) = (d', q)" by simp
  with relax_measure [of d "succs u"] show ?case by simp
qed simp

abbreviation kahn_order :: "('a \<Rightarrow> 'a list) \<Rightarrow> ('a, int) dict \<Rightarrow> 'a list \<Rightarrow> 'a list" where
  "kahn_order succs d queue \<equiv> kahn_loop (\<lambda>u acc. acc @ [u]) succs d queue []"

lemma kahn_loop_fold_gen:
  "f = (\<lambda>u acc. acc @ [u]) \<Longrightarrow>
   kahn_loop visit succs d queue (fold visit xs acc) = fold visit (kahn_loop f succs d queue xs) acc"
proof (induction f succs d queue xs rule: kahn_loop.induct)
  case (2 f succs d u queue xs)
  obtain d' q where r: "relax d (succs u) = (d', q)" by fastforce
  from "2.IH" [OF r [symmetric] refl "2.prems"] "2.prems" show ?case by (simp add: r)
qed simp

lemma kahn_loop_fold: "kahn_loop visit succs d queue acc = fold visit (kahn_order succs d queue) acc"
  using kahn_loop_fold_gen [OF refl, of visit succs d queue "[]" acc] by simp

lemma kahn_loop_count: "kahn_loop (\<lambda>_ n. n + 1) succs d queue (n :: nat) = n + length (kahn_order succs d queue)"
proof -
  have "fold (\<lambda>_ n. n + 1) xs n = n + length xs" for xs :: "'a list" and n :: nat
    by (induction xs arbitrary: n) auto
  then show ?thesis unfolding kahn_loop_fold [of "\<lambda>_ n. n + 1"] by simp
qed

text \<open>The initial queue: the nodes of degree 0 in the order of the dictionary.\<close>

definition zero_nodes :: "('a, int) dict \<Rightarrow> 'a list" where
  "zero_nodes d = map fst (filter (\<lambda>(n, k). k = 0) d)"

text \<open>
  Building the graph: \<open>{n: [] for n in nodes}\<close>, \<open>{n: 0 for n in nodes}\<close>, and an edge that is
  added to the adjacency and counted at its target.
\<close>

definition dict_const :: "'v \<Rightarrow> 'a list \<Rightarrow> ('a, 'v) dict" where
  "dict_const c ns = fold (\<lambda>n d. dict_set n c d) ns []"

definition adj_get :: "('a, 'a list) dict \<Rightarrow> 'a \<Rightarrow> 'a list" where
  "adj_get adj u = (case map_of adj u of None \<Rightarrow> [] | Some l \<Rightarrow> l)"

definition add_link :: "'a \<Rightarrow> 'a \<Rightarrow> ('a, 'a list) dict \<times> ('a, int) dict \<Rightarrow> ('a, 'a list) dict \<times> ('a, int) dict" where
  "add_link u v ai = (dict_set u (adj_get (fst ai) u @ [v]) (fst ai), dict_set v (deg (snd ai) v + 1) (snd ai))"

section \<open>Adjacency and degrees after a list of edges\<close>

lemma dict_const_fold:
  "dict_ok d \<Longrightarrow> dict_ok (fold (\<lambda>n d. dict_set n c d) ns d)
     \<and> set (dict_keys (fold (\<lambda>n d. dict_set n c d) ns d)) = set (dict_keys d) \<union> set ns"
proof (induction ns arbitrary: d)
  case (Cons n ns)
  from Cons.IH [OF dict_ok_dict_set [OF Cons.prems, of n c]] show ?case by simp
qed simp

lemma dict_const_keys: "dict_ok (dict_const c ns)" "set (dict_keys (dict_const c ns)) = set ns"
  using dict_const_fold [of "[]" c ns] by (simp_all add: dict_const_def)

lemma dict_const_key_set [simp]: "fst ` set (dict_const c ns) = set ns"
  using dict_const_keys(2) [of c ns] by simp

lemma dict_const_keys_same: "dict_keys (dict_const c ns) = dict_keys (dict_const c' ns)"
proof -
  have "map fst d = map fst e \<Longrightarrow> map fst (fold (\<lambda>n d. dict_set n c d) ns d) = map fst (fold (\<lambda>n d. dict_set n c' d) ns e)"
    for d e by (induction ns arbitrary: d e) (auto simp: update_keys)
  then show ?thesis by (simp add: dict_const_def)
qed

lemma dict_const_keys_distinct: "distinct ns \<Longrightarrow> dict_const c ns = map (\<lambda>n. (n, c)) ns"
proof -
  have "distinct (map fst d @ ns) \<Longrightarrow> fold (\<lambda>n d. dict_set n c d) ns d = d @ map (\<lambda>n. (n, c)) ns" for d
    by (induction ns arbitrary: d) (auto simp: dict_set_new)
  from this [of "[]"] show "distinct ns \<Longrightarrow> ?thesis" by (simp add: dict_const_def)
qed

lemma dict_const_lookup: "map_of (dict_const c ns) k = (if k \<in> set ns then Some c else None)"
proof -
  have "map_of (fold (\<lambda>n d. dict_set n c d) ns d) k = (if k \<in> set ns then Some c else map_of d k)" for d
    by (induction ns arbitrary: d) auto
  then show ?thesis by (simp add: dict_const_def)
qed

lemma deg_const [simp]: "deg (dict_const 0 ns) v = 0"
  by (simp add: deg_def dict_const_lookup)

lemma adj_const [simp]: "adj_get (dict_const [] ns) v = []"
  by (simp add: adj_get_def dict_const_lookup)

lemma dict_keys_set_old: "k \<in> set (dict_keys d) \<Longrightarrow> dict_keys (dict_set k v d) = dict_keys d"
  by (induction d) auto

lemma adj_get_set: "adj_get (dict_set k l adj) u = (if u = k then l else adj_get adj u)"
  by (simp add: adj_get_def)

definition out_list :: "('a \<times> 'a) list \<Rightarrow> 'a \<Rightarrow> 'a list" where
  "out_list ps u = map snd (filter (\<lambda>p. fst p = u) ps)"

lemma links_lookup:
  "adj_get (fst (fold (\<lambda>(u, v). add_link u v) ps ai)) w = adj_get (fst ai) w @ out_list ps w"
  "deg (snd (fold (\<lambda>(u, v). add_link u v) ps ai)) w = deg (snd ai) w + int (count_list (map snd ps) w)"
  by (induction ps arbitrary: ai) (auto simp: add_link_def out_list_def adj_get_set)

lemma add_link_keys:
  assumes "u \<in> set (dict_keys (fst ai))" and "v \<in> set (dict_keys (snd ai))"
  shows "dict_keys (fst (add_link u v ai)) = dict_keys (fst ai)"
    and "dict_keys (snd (add_link u v ai)) = dict_keys (snd ai)"
  using assms unfolding add_link_def fst_conv snd_conv by (simp_all only: dict_keys_set_old)

lemma links_keys:
  "set ps \<subseteq> set (dict_keys (fst ai)) \<times> set (dict_keys (snd ai))
   \<Longrightarrow> dict_keys (fst (fold (\<lambda>(u, v). add_link u v) ps ai)) = dict_keys (fst ai)
     \<and> dict_keys (snd (fold (\<lambda>(u, v). add_link u v) ps ai)) = dict_keys (snd ai)"
proof (induction ps arbitrary: ai)
  case (Cons p ps)
  let ?ai = "add_link (fst p) (snd p) ai"
  have "fst p \<in> set (dict_keys (fst ai))" "snd p \<in> set (dict_keys (snd ai))"
    using Cons.prems by (simp_all add: mem_Times_iff)
  note k = add_link_keys [OF this]
  have "set ps \<subseteq> set (dict_keys (fst ?ai)) \<times> set (dict_keys (snd ?ai))"
    unfolding k using Cons.prems by simp
  from Cons.IH [OF this] show ?case unfolding k by (simp add: case_prod_beta)
qed simp

lemma count_out_lists:
  assumes "fst ` set ps \<subseteq> N" and "finite N"
  shows "(\<Sum>u\<in>N. int (count_list (out_list ps u) v)) = int (count_list (map snd ps) v)"
  using assms(1)
proof (induction ps)
  case (Cons p ps)
  have "(\<Sum>u\<in>N. int (count_list (out_list (p # ps) u) v))
      = (\<Sum>u\<in>N. int (count_list (out_list ps u) v) + (if u = fst p then (if snd p = v then 1 else 0) else 0))"
    by (rule sum.cong) (auto simp: out_list_def)
  also have "\<dots> = int (count_list (map snd ps) v) + (if snd p = v then 1 else 0)"
    using Cons assms(2) by (simp add: sum.distrib sum.delta)
  finally show ?case by simp
qed (simp add: out_list_def)

lemma count_list_sort [simp]: "count_list (sort xs) v = count_list xs v"
  by (metis count_mset mset_sort)

lemma set_out_list: "set (out_list ps u) = {v. (u, v) \<in> set ps}"
  by (force simp: out_list_def)

section \<open>What the inner loop does\<close>

lemma relax_deg: "deg (fst (relax d vs)) w = deg d w - int (count_list vs w)"
  by (induction vs arbitrary: d) (auto simp: Let_def case_prod_beta)

lemma count_list_nonzero: "w \<in> set vs \<longleftrightarrow> 0 < count_list vs w"
  by (metis count_list_0_iff gr0I less_numeral_extra(3))

lemma relax_queue:
  assumes "\<And>w. w \<in> set vs \<Longrightarrow> int (count_list vs w) \<le> deg d w"
  shows "distinct (snd (relax d vs)) \<and> set (snd (relax d vs)) = {w \<in> set vs. deg d w = int (count_list vs w)}"
  using assms
proof (induction vs arbitrary: d)
  case (Cons v vs)
  let ?n = "deg d v - 1" and ?d = "dict_set v (deg d v - 1) d"
  have ge: "int (count_list vs w) \<le> deg ?d w" if "w \<in> set vs" for w
    using Cons.prems [of w] that by (auto split: if_splits)
  let ?q = "snd (relax ?d vs)"
  have IH: "distinct ?q" "set ?q = {w \<in> set vs. deg ?d w = int (count_list vs w)}"
    using Cons.IH [OF ge] by blast+
  have le: "int (count_list vs v) \<le> ?n" using Cons.prems [of v] by simp
  have q: "snd (relax d (v # vs)) = (if ?n = 0 then v # ?q else ?q)"
    by (simp add: Let_def case_prod_beta)
  have mem: "w \<in> set ?q \<longleftrightarrow> w \<in> set vs \<and> deg d w = int (count_list (v # vs) w)" for w
    unfolding IH(2) by auto
  show ?case
  proof (cases "?n = 0")
    case True
    with le have "count_list vs v = 0" by simp
    then have v: "v \<notin> set vs" by (simp add: count_list_0_iff)
    then have "deg d v = int (count_list (v # vs) v)" using True \<open>count_list vs v = 0\<close> by simp
    then have "set (v # ?q) = {w \<in> set (v # vs). deg d w = int (count_list (v # vs) w)}"
      unfolding set_eq_iff list.set insert_iff mem_Collect_eq mem by blast
    moreover have "distinct (v # ?q)" using IH(1) v mem [of v] by simp
    moreover have "snd (relax d (v # vs)) = v # ?q" using q True by simp
    ultimately show ?thesis by (simp only: simp_thms)
  next
    case False
    have "v \<in> set vs" if "deg d v = int (count_list (v # vs) v)"
      using that False count_list_nonzero [of v vs] by simp
    then have "set ?q = {w \<in> set (v # vs). deg d w = int (count_list (v # vs) w)}"
      unfolding set_eq_iff list.set insert_iff mem_Collect_eq mem by blast
    moreover have "snd (relax d (v # vs)) = ?q" using q False by simp
    ultimately show ?thesis using IH(1) by (simp only: simp_thms)
  qed
qed simp

text \<open>The loop sees the degrees only, not the order of the dictionary.\<close>

lemma relax_snd_cong: "(\<And>v. deg d v = deg d' v) \<Longrightarrow> snd (relax d vs) = snd (relax d' vs)"
proof (induction vs arbitrary: d d')
  case (Cons v vs)
  have "snd (relax (dict_set v (deg d' v - 1) d) vs) = snd (relax (dict_set v (deg d' v - 1) d') vs)"
    by (rule Cons.IH) (simp add: Cons.prems)
  then show ?case by (simp only: relax.simps Let_def case_prod_beta snd_conv Cons.prems [of v])
qed simp

lemma kahn_loop_deg_cong:
  "(\<And>v. deg d v = deg d' v) \<Longrightarrow> kahn_loop visit succs d queue acc = kahn_loop visit succs d' queue acc"
proof (induction visit succs d queue acc arbitrary: d' rule: kahn_loop.induct)
  case (2 visit succs d u queue acc)
  let ?r = "relax d (succs u)" and ?r' = "relax d' (succs u)"
  have q: "snd ?r = snd ?r'" by (rule relax_snd_cong) (rule "2.prems")
  have "deg (fst ?r) v = deg (fst ?r') v" for v by (simp add: relax_deg "2.prems")
  from "2.IH" [OF refl prod.collapse this] show ?case by (simp add: case_prod_beta q)
qed simp

lemma zero_nodes_distinct: "dict_ok d \<Longrightarrow> distinct (zero_nodes d)"
  by (simp add: zero_nodes_def distinct_map_filter)

lemma set_zero_nodes: "dict_ok d \<Longrightarrow> set (zero_nodes d) = {v \<in> set (dict_keys d). deg d v = 0}"
  by (force simp: zero_nodes_def deg_def)

section \<open>Topological orders\<close>

definition edge_rel :: "'a list \<Rightarrow> ('a \<Rightarrow> 'a list) \<Rightarrow> ('a \<times> 'a) set" where
  "edge_rel ns succs = {(u, v). u \<in> set ns \<and> v \<in> set (succs u)}"

text \<open>Every predecessor of a node in the list comes before it.\<close>

definition topo :: "'a list \<Rightarrow> ('a \<Rightarrow> 'a list) \<Rightarrow> 'a list \<Rightarrow> bool" where
  "topo ns succs xs \<longleftrightarrow>
     (\<forall>as v bs. xs = as @ v # bs \<longrightarrow> (\<forall>u\<in>set ns. v \<in> set (succs u) \<longrightarrow> u \<in> set as))"

lemma topo_Nil [simp]: "topo ns succs []"
  by (simp add: topo_def)

lemma topo_snoc:
  "topo ns succs (xs @ [v]) \<longleftrightarrow> topo ns succs xs \<and> (\<forall>u\<in>set ns. v \<in> set (succs u) \<longrightarrow> u \<in> set xs)"
proof
  assume t: "topo ns succs (xs @ [v])"
  have "topo ns succs xs"
    unfolding topo_def
  proof (intro allI impI ballI)
    fix as w bs u
    assume "xs = as @ w # bs" "u \<in> set ns" "w \<in> set (succs u)"
    with t show "u \<in> set as" unfolding topo_def by (metis append.assoc append_Cons)
  qed
  with t show "topo ns succs xs \<and> (\<forall>u\<in>set ns. v \<in> set (succs u) \<longrightarrow> u \<in> set xs)"
    unfolding topo_def by blast
next
  assume r: "topo ns succs xs \<and> (\<forall>u\<in>set ns. v \<in> set (succs u) \<longrightarrow> u \<in> set xs)"
  show "topo ns succs (xs @ [v])"
    unfolding topo_def
  proof (intro allI impI ballI)
    fix as w bs u
    assume eq: "xs @ [v] = as @ w # bs" and u: "u \<in> set ns" "w \<in> set (succs u)"
    show "u \<in> set as"
    proof (cases bs rule: rev_cases)
      case Nil
      with eq r u show ?thesis by auto
    next
      case (snoc cs z)
      with eq have "xs = as @ w # cs" by auto
      with r u show ?thesis unfolding topo_def by blast
    qed
  qed
qed

lemma topo_acyclic:
  assumes "topo ns succs xs" and "distinct xs" and "set xs = set ns"
    and "\<And>u. u \<in> set ns \<Longrightarrow> set (succs u) \<subseteq> set ns"
  shows "acyclic (edge_rel ns succs)"
proof (rule acyclicI_order)
  fix u v
  assume e: "(u, v) \<in> edge_rel ns succs"
  then have u: "u \<in> set ns" "v \<in> set (succs u)" by (auto simp: edge_rel_def)
  with assms(3,4) have "v \<in> set xs" by blast
  then obtain as bs where xs: "xs = as @ v # bs" by (meson split_list)
  with assms(1) u have "u \<in> set as" unfolding topo_def by blast
  then obtain as1 as2 where as: "as = as1 @ u # as2" by (meson split_list)
  have f: "length (dropWhile (\<lambda>y. y \<noteq> w) (ys @ w # zs)) = Suc (length zs)" if "w \<notin> set ys" for w ys zs
    using that by (subst dropWhile_append2) auto
  have "length (dropWhile (\<lambda>y. y \<noteq> v) xs) = Suc (length bs)"
    using f [of v as bs] assms(2) xs by simp
  moreover have "length (dropWhile (\<lambda>y. y \<noteq> u) xs) = Suc (length (as2 @ v # bs))"
    using f [of u as1 "as2 @ v # bs"] assms(2) xs as by simp
  ultimately show "length (dropWhile (\<lambda>y. y \<noteq> v) xs) < length (dropWhile (\<lambda>y. y \<noteq> u) xs)"
    by simp
qed

section \<open>The graphs the loop runs on\<close>

text \<open>
  The contract between the loop and a caller that built the adjacency and the degrees: the
  nodes are distinct, successors are nodes, and the degree of a node counts the edges into it.
\<close>

locale kahn_graph =
  fixes nodes :: "'g \<Rightarrow> 'a list"
    and succs :: "'g \<Rightarrow> 'a \<Rightarrow> 'a list"
    and indeg :: "'g \<Rightarrow> ('a, int) dict"
    and ok :: "'g \<Rightarrow> bool"
  assumes nodes_distinct: "ok g \<Longrightarrow> distinct (nodes g)"
    and succs_nodes: "ok g \<Longrightarrow> u \<in> set (nodes g) \<Longrightarrow> set (succs g u) \<subseteq> set (nodes g)"
    and indeg_keys: "ok g \<Longrightarrow> dict_keys (indeg g) = nodes g"
    and indeg_count: "ok g \<Longrightarrow> v \<in> set (nodes g) \<Longrightarrow>
      deg (indeg g) v = (\<Sum>u\<in>set (nodes g). int (count_list (succs g u) v))"
begin

text \<open>The edges into \<open>v\<close> from nodes that are not in the order yet.\<close>

definition open_edges :: "'g \<Rightarrow> 'a list \<Rightarrow> 'a \<Rightarrow> int" where
  "open_edges g xs v = (\<Sum>u\<in>set (nodes g) - set xs. int (count_list (succs g u) v))"

definition loop_inv :: "'g \<Rightarrow> ('a, int) dict \<Rightarrow> 'a list \<Rightarrow> 'a list \<Rightarrow> bool" where
  "loop_inv g d queue xs \<longleftrightarrow>
     distinct (xs @ queue) \<and> set (xs @ queue) \<subseteq> set (nodes g)
     \<and> (\<forall>v\<in>set (nodes g). deg d v = open_edges g xs v)
     \<and> (\<forall>v\<in>set (nodes g). v \<in> set (xs @ queue) \<longleftrightarrow> open_edges g xs v = 0)
     \<and> topo (nodes g) (succs g) xs"

lemma open_edges_nonneg: "0 \<le> open_edges g xs v"
  by (simp add: open_edges_def sum_nonneg)

lemma open_edges_snoc:
  assumes "u \<in> set (nodes g)" and "u \<notin> set xs"
  shows "open_edges g (xs @ [u]) v = open_edges g xs v - int (count_list (succs g u) v)"
proof -
  have "set (nodes g) - set (xs @ [u]) = (set (nodes g) - set xs) - {u}" by auto
  moreover have "u \<in> set (nodes g) - set xs" using assms by simp
  ultimately show ?thesis
    by (simp only: open_edges_def) (simp add: sum.remove [of "set (nodes g) - set xs" u])
qed

lemma open_edges_zero:
  assumes "open_edges g xs v = 0" and "u \<in> set (nodes g)" and "v \<in> set (succs g u)"
  shows "u \<in> set xs"
proof (rule ccontr)
  assume "u \<notin> set xs"
  with assms(2) have u: "u \<in> set (nodes g) - set xs" by simp
  have "int (count_list (succs g u) v) \<le> open_edges g xs v"
    unfolding open_edges_def by (rule member_le_sum [OF u]) auto
  with assms(1,3) show False by (simp add: count_list_nonzero)
qed

lemma open_edges_pos:
  assumes "open_edges g xs v \<noteq> 0"
  obtains u where "u \<in> set (nodes g) - set xs" and "v \<in> set (succs g u)"
proof -
  from assms obtain u where "u \<in> set (nodes g) - set xs" "int (count_list (succs g u) v) \<noteq> 0"
    unfolding open_edges_def using sum.not_neutral_contains_not_neutral by blast
  then show ?thesis by (intro that [of u]) (auto simp: count_list_nonzero)
qed

lemma loop_inv_start:
  assumes "ok g" and "set queue = set (zero_nodes (indeg g))" and "distinct queue"
  shows "loop_inv g (indeg g) queue []"
proof -
  have d: "distinct (map fst (indeg g))" using indeg_keys [OF assms(1)] nodes_distinct [OF assms(1)] by simp
  have deg: "deg (indeg g) v = open_edges g [] v" if "v \<in> set (nodes g)" for v
    using indeg_count [OF assms(1) that] by (simp add: open_edges_def)
  have lookup: "deg (indeg g) n = k" if "(n, k) \<in> set (indeg g)" for n k
    using d that by (simp add: deg_def)
  have keys: "set (nodes g) = fst ` set (indeg g)" by (simp flip: indeg_keys [OF assms(1)])
  have "set (zero_nodes (indeg g)) = {v \<in> set (nodes g). deg (indeg g) v = 0}"
    unfolding keys zero_nodes_def using lookup by force
  then show ?thesis
    using assms(2,3) deg by (auto simp: loop_inv_def)
qed

lemma loop_inv_step:
  assumes "ok g" and "loop_inv g d (u # queue) xs" and "relax d (succs g u) = (d', q)"
  shows "loop_inv g d' (queue @ q) (xs @ [u])"
proof -
  from assms(2) have dist: "distinct (xs @ u # queue)" and sub: "set (xs @ u # queue) \<subseteq> set (nodes g)"
    and deg: "\<And>v. v \<in> set (nodes g) \<Longrightarrow> deg d v = open_edges g xs v"
    and zero: "\<And>v. v \<in> set (nodes g) \<Longrightarrow> v \<in> set (xs @ u # queue) \<longleftrightarrow> open_edges g xs v = 0"
    and topo: "topo (nodes g) (succs g) xs"
    by (auto simp: loop_inv_def)
  have u: "u \<in> set (nodes g)" "u \<notin> set xs" using sub dist by auto
  note os = open_edges_snoc [OF u]
  have su: "set (succs g u) \<subseteq> set (nodes g)" by (rule succs_nodes [OF assms(1) u(1)])
  have ge: "int (count_list (succs g u) w) \<le> deg d w" if "w \<in> set (succs g u)" for w
    using os [of w] open_edges_nonneg [of g "xs @ [u]" w] deg [of w] su that by auto
  have q: "distinct q" "set q = {w \<in> set (succs g u). deg d w = int (count_list (succs g u) w)}"
    using relax_queue [OF ge] assms(3) by simp_all
  have deg': "deg d' v = open_edges g (xs @ [u]) v" if "v \<in> set (nodes g)" for v
    using relax_deg [of d "succs g u" v] assms(3) deg [OF that] os [of v] by simp
  have "set q \<inter> set (xs @ u # queue) = {}"
  proof -
    have False if "w \<in> set q" "w \<in> set (xs @ u # queue)" for w
    proof -
      from that(1) q su have w: "w \<in> set (nodes g)" "w \<in> set (succs g u)" "deg d w = int (count_list (succs g u) w)"
        by auto
      with zero [OF w(1)] that(2) deg [OF w(1)] show False by (simp add: count_list_nonzero)
    qed
    then show ?thesis by blast
  qed
  then have dist': "distinct ((xs @ [u]) @ queue @ q)" using dist q(1) by auto
  have zero': "v \<in> set ((xs @ [u]) @ queue @ q) \<longleftrightarrow> open_edges g (xs @ [u]) v = 0" if "v \<in> set (nodes g)" for v
  proof (cases "v \<in> set (succs g u)")
    case True
    then have "v \<in> set q \<longleftrightarrow> open_edges g (xs @ [u]) v = 0" using q deg [OF that] os [of v] by auto
    moreover have "0 < open_edges g xs v"
      using ge [OF True] deg [OF that] True count_list_nonzero [of v "succs g u"] by simp
    ultimately show ?thesis using zero [OF that] by auto
  next
    case False
    then have "open_edges g (xs @ [u]) v = open_edges g xs v" "v \<notin> set q" using os [of v] q by auto
    with zero [OF that] show ?thesis by auto
  qed
  have "\<forall>w\<in>set (nodes g). u \<in> set (succs g w) \<longrightarrow> w \<in> set xs"
    using open_edges_zero [of g xs u] zero [OF u(1)] by simp
  with topo have "topo (nodes g) (succs g) (xs @ [u])" by (simp add: topo_snoc)
  with dist' zero' deg' sub q su show ?thesis unfolding loop_inv_def by auto
qed

lemma loop_inv_end:
  "ok g \<Longrightarrow> f = (\<lambda>u acc. acc @ [u]) \<Longrightarrow> s = succs g \<Longrightarrow> loop_inv g d queue xs
   \<Longrightarrow> \<exists>d'. loop_inv g d' [] (kahn_loop f s d queue xs)"
proof (induction f s d queue xs rule: kahn_loop.induct)
  case (2 f s d u queue xs)
  obtain d' q where r: "relax d (s u) = (d', q)" by fastforce
  with "2.prems" have "loop_inv g d' (queue @ q) (xs @ [u])" by (metis loop_inv_step)
  with "2.IH" [OF r [symmetric] refl] "2.prems" r show ?case by simp
qed auto

text \<open>What a caller gets, whatever order the initial queue has.\<close>

lemma order_props:
  assumes "ok g" and "set queue = set (zero_nodes (indeg g))" and "distinct queue"
  defines "xs \<equiv> kahn_order (succs g) (indeg g) queue"
  shows "distinct xs" and "set xs \<subseteq> set (nodes g)" and "topo (nodes g) (succs g) xs"
    and "v \<in> set (nodes g) - set xs \<Longrightarrow> \<exists>u\<in>set (nodes g) - set xs. v \<in> set (succs g u)"
proof -
  from loop_inv_end [OF assms(1) refl refl loop_inv_start [OF assms(1-3)]]
  obtain d where "loop_inv g d [] xs" by (auto simp: xs_def)
  then have inv: "distinct xs" "set xs \<subseteq> set (nodes g)" "topo (nodes g) (succs g) xs"
    and z: "\<And>v. v \<in> set (nodes g) \<Longrightarrow> v \<in> set xs \<longleftrightarrow> open_edges g xs v = 0"
    by (auto simp: loop_inv_def)
  from inv show "distinct xs" "set xs \<subseteq> set (nodes g)" "topo (nodes g) (succs g) xs" .
  assume v: "v \<in> set (nodes g) - set xs"
  with z [of v] have "open_edges g xs v \<noteq> 0" by simp
  then show "\<exists>u\<in>set (nodes g) - set xs. v \<in> set (succs g u)" by (rule open_edges_pos) blast
qed

lemma order_complete_iff:
  assumes "ok g" and "set queue = set (zero_nodes (indeg g))" and "distinct queue"
  defines "xs \<equiv> kahn_order (succs g) (indeg g) queue"
  shows "length xs = length (nodes g) \<longleftrightarrow> acyclic (edge_rel (nodes g) (succs g))"
    and "length xs = length (nodes g) \<longleftrightarrow> set xs = set (nodes g)"
proof -
  note p = order_props [OF assms(1-3), folded xs_def]
  have n: "distinct (nodes g)" by (rule nodes_distinct [OF assms(1)])
  show len: "length xs = length (nodes g) \<longleftrightarrow> set xs = set (nodes g)"
    using p(1,2) n by (metis card_subset_eq distinct_card finite_set)
  let ?r = "edge_rel (nodes g) (succs g)"
  have "set xs = set (nodes g)" if ac: "acyclic ?r"
  proof (rule ccontr)
    assume "set xs \<noteq> set (nodes g)"
    with p(2) obtain v0 where v0: "v0 \<in> set (nodes g) - set xs" by blast
    have "?r \<subseteq> set (nodes g) \<times> set (nodes g)"
      using succs_nodes [OF assms(1)] by (auto simp: edge_rel_def)
    then have "finite ?r" by (rule finite_subset) simp
    with ac have "wf ?r" by (simp add: finite_acyclic_wf)
    then obtain v where "v \<in> set (nodes g) - set xs" "\<And>u. (u, v) \<in> ?r \<Longrightarrow> u \<notin> set (nodes g) - set xs"
      using v0 by (metis wfE_min)
    with p(4) [of v] show False by (auto simp: edge_rel_def)
  qed
  moreover have "acyclic ?r" if "set xs = set (nodes g)"
    by (rule topo_acyclic [OF p(3,1) that succs_nodes [OF assms(1)]])
  ultimately show "length xs = length (nodes g) \<longleftrightarrow> acyclic ?r" using len by blast
qed

end

end
