(* ===== verification/Projection.thy ===== *)
theory Projection
  imports Kahn Demo_Graphs
begin

text \<open>
  The projection of a structural graph to an executable DAG (\<open>projection/projector.py\<close>,
  \<open>projection/executable_graph.py\<close>, \<open>projection/projection_validator.py\<close>): validation, the
  context check, Kahn's algorithm with sorted queues and the fallback for cycles, and the
  construction of nodes and edges. The lists of errors that the exception texts embed are left
  out of the texts.
\<close>

section \<open>The executable DAG\<close>

record executable_node =
  node_unit_id :: unit_id
  node_name :: string
  node_metadata :: "(string, pyval) dict"
  node_idempotency :: idempotency_contract
  node_side_effects :: side_effect_contract
  node_placement :: placement_contract
  node_security :: security_contract

record executable_edge =
  ee_source :: unit_id
  ee_target :: unit_id
  ee_type :: string
  ee_metadata :: "(string, pyval) dict"
  ee_source_port :: "string option"
  ee_target_port :: "string option"

record executable_dag =
  dag_graph_id :: graph_id
  source_version :: graph_version
  dag_nodes :: "(string, executable_node) dict"
  dag_edges :: "executable_edge list"
  topological_order :: "unit_id list"
  dag_metadata :: "(string, pyval) dict"

section \<open>The projector\<close>

definition execution_edge :: "edge \<Rightarrow> bool" where
  "execution_edge e \<longleftrightarrow> edge_type e \<in> {ET_DATA, ET_CONTROL, ET_DEPENDENCY}"

fun link_edges ::
  "edge list \<Rightarrow> (string, string list) dict \<times> (string, int) dict
   \<Rightarrow> (string, string list) dict \<times> (string, int) dict" where
  "link_edges [] ai = ai"
| "link_edges (e # es) ai =
     (if execution_edge e \<and> src e \<in> set (dict_keys (fst ai)) \<and> tgt e \<in> set (dict_keys (snd ai))
      then link_edges es (add_link (src e) (tgt e) ai)
      else link_edges es ai)"

definition projection_links ::
  "structural_graph \<Rightarrow> (string, string list) dict \<times> (string, int) dict" where
  "projection_links g =
     link_edges (edges g) (dict_const [] (dict_keys (units g)), dict_const 0 (dict_keys (units g)))"

definition proj_succs :: "structural_graph \<Rightarrow> string \<Rightarrow> string list" where
  "proj_succs g u = sort (adj_get (fst (projection_links g)) u)"

definition proj_indeg :: "structural_graph \<Rightarrow> (string, int) dict" where
  "proj_indeg g = snd (projection_links g)"

definition id_at :: "structural_graph \<Rightarrow> string \<Rightarrow> unit_id" where
  "id_at g u = unit_id (the (map_of (units g) u))"

text \<open>The order found by the loop over the queue.\<close>

definition projected_prefix :: "structural_graph \<Rightarrow> unit_id list" where
  "projected_prefix g =
     kahn_loop (\<lambda>u acc. acc @ [id_at g u]) (proj_succs g) (proj_indeg g) (sort (zero_nodes (proj_indeg g))) []"

definition cycle_warning :: string where
  "cycle_warning = ''Structural graph contains cycles in execution edges; topological sort linearized via fallback order.''"

definition topo_order :: "structural_graph \<Rightarrow> unit_id list \<times> string list" where
  "topo_order g =
     (let xs = projected_prefix g in
      if length xs \<noteq> length (units g)
      then (xs @ map (id_at g) (sort (filter (\<lambda>u. id_at g u \<notin> set xs) (dict_keys (units g)))), [cycle_warning])
      else (xs, []))"

definition make_node :: "computational_unit \<Rightarrow> executable_node" where
  "make_node u = \<lparr>node_unit_id = unit_id u, node_name = unit_name u, node_metadata = unit_metadata u,
     node_idempotency = idempotency (contract u), node_side_effects = side_effects (contract u),
     node_placement = placement (contract u), node_security = security (contract u)\<rparr>"

definition make_edge :: "edge \<Rightarrow> executable_edge" where
  "make_edge e = \<lparr>ee_source = edge_source e, ee_target = edge_target e,
     ee_type = edge_type_value (edge_type e), ee_metadata = edge_metadata e,
     ee_source_port = source_port e, ee_target_port = target_port e\<rparr>"

definition or_empty :: "string option \<Rightarrow> string" where
  "or_empty x = (case x of None \<Rightarrow> [] | Some s \<Rightarrow> s)"

definition edge_key :: "edge \<Rightarrow> string \<times> string \<times> string \<times> string \<times> string" where
  "edge_key e = (src e, tgt e, edge_type_value (edge_type e), or_empty (source_port e), or_empty (target_port e))"

definition build_dag :: "structural_graph \<Rightarrow> executable_dag" where
  "build_dag g =
     \<lparr>dag_graph_id = graph_id g, source_version = version g,
      dag_nodes = fold (\<lambda>(k, u) d. dict_set k (make_node u) d) (sort_key fst (units g)) [],
      dag_edges = map make_edge (sort_key edge_key (edges g)),
      topological_order = fst (topo_order g),
      dag_metadata = graph_metadata g\<rparr>"

definition project ::
  "structural_graph \<Rightarrow> execution_context option \<Rightarrow> (executable_dag \<times> string list) res" where
  "project g ctx =
     require (is_valid (validate_graph g)) (ValueError ''Cannot project invalid Structural Graph'')
     (require (\<not> ((\<exists>u\<in>set (map snd (units g)). requires_execution_context (contract u)) \<and> ctx = None))
        (ValueError ''Cannot project governed graph without an ExecutionContext'')
     (require (case ctx of None \<Rightarrow> True | Some c \<Rightarrow> is_valid (validate_execution_context g c))
        (ValueError ''ExecutionContext does not satisfy Structural Graph'')
     (Inr (build_dag g, snd (topo_order g)))))"

text \<open>\<open>ProjectionValidator.validate\<close>; a graph identifier is never falsy.\<close>

definition projection_validate :: "executable_dag \<Rightarrow> bool" where
  "projection_validate dag \<longleftrightarrow>
     \<not> (dag_nodes dag = [] \<and> topological_order dag \<noteq> [])
     \<and> list_all (\<lambda>i. uid_value i \<in> set (dict_keys (dag_nodes dag))) (topological_order dag)"

section \<open>The projector as a client of Kahn's algorithm\<close>

text \<open>The execution edges of the graph between its units, as pairs of keys.\<close>

definition exec_pairs :: "structural_graph \<Rightarrow> (string \<times> string) list" where
  "exec_pairs g = map (\<lambda>e. (src e, tgt e))
     (filter (\<lambda>e. execution_edge e \<and> src e \<in> set (dict_keys (units g)) \<and> tgt e \<in> set (dict_keys (units g))) (edges g))"

lemma link_edges_fold:
  "set (dict_keys (fst ai)) = K \<Longrightarrow> set (dict_keys (snd ai)) = K \<Longrightarrow>
   link_edges es ai = fold (\<lambda>(u, v). add_link u v)
     (map (\<lambda>e. (src e, tgt e)) (filter (\<lambda>e. execution_edge e \<and> src e \<in> K \<and> tgt e \<in> K) es)) ai"
proof (induction es arbitrary: ai)
  case (Cons e es)
  show ?case
  proof (cases "execution_edge e \<and> src e \<in> K \<and> tgt e \<in> K")
    case True
    with Cons.prems have "src e \<in> set (dict_keys (fst ai))" "tgt e \<in> set (dict_keys (snd ai))" by auto
    note k = add_link_keys [OF this]
    have "set (dict_keys (fst (add_link (src e) (tgt e) ai))) = K" "set (dict_keys (snd (add_link (src e) (tgt e) ai))) = K"
      unfolding k using Cons.prems by auto
    from Cons.IH [OF this] True Cons.prems show ?thesis by simp
  next
    case False
    with Cons show ?thesis by auto
  qed
qed simp

lemma projection_links_fold:
  "projection_links g = fold (\<lambda>(u, v). add_link u v) (exec_pairs g)
     (dict_const [] (dict_keys (units g)), dict_const 0 (dict_keys (units g)))"
  unfolding projection_links_def exec_pairs_def
  by (rule link_edges_fold) simp_all

lemma exec_pairs_keys: "set (exec_pairs g) \<subseteq> set (dict_keys (units g)) \<times> set (dict_keys (units g))"
  by (auto simp: exec_pairs_def)

lemma proj_succs_eq: "proj_succs g u = sort (out_list (exec_pairs g) u)"
  by (simp add: proj_succs_def projection_links_fold links_lookup(1))

lemma proj_indeg_eq: "deg (proj_indeg g) v = int (count_list (map snd (exec_pairs g)) v)"
  by (simp add: proj_indeg_def projection_links_fold links_lookup(2))

lemma proj_indeg_keys: "dict_keys (proj_indeg g) = dict_keys (dict_const (0 :: int) (dict_keys (units g)))"
proof -
  let ?ai = "(dict_const [] (dict_keys (units g)), dict_const (0 :: int) (dict_keys (units g)))"
  have "set (exec_pairs g) \<subseteq> set (dict_keys (fst ?ai)) \<times> set (dict_keys (snd ?ai))"
    using exec_pairs_keys [of g] by (simp only: fst_conv snd_conv dict_const_keys)
  from links_keys [OF this] show ?thesis by (simp add: proj_indeg_def projection_links_fold)
qed

abbreviation proj_nodes :: "structural_graph \<Rightarrow> string list" where
  "proj_nodes g \<equiv> dict_keys (dict_const (0 :: int) (dict_keys (units g)))"

lemma proj_nodes_set: "set (proj_nodes g) = set (dict_keys (units g))"
  by (rule dict_const_keys)

interpretation proj: kahn_graph proj_nodes proj_succs proj_indeg "\<lambda>_. True"
proof
  fix g v
  assume "v \<in> set (proj_nodes g)"
  have "fst ` set (exec_pairs g) \<subseteq> set (proj_nodes g)"
    using exec_pairs_keys [of g] by (auto simp: proj_nodes_set)
  then show "deg (proj_indeg g) v = (\<Sum>u\<in>set (proj_nodes g). int (count_list (proj_succs g u) v))"
    by (simp add: proj_succs_eq proj_indeg_eq count_out_lists)
next
  fix g u
  assume "u \<in> set (proj_nodes g)"
  show "set (proj_succs g u) \<subseteq> set (proj_nodes g)"
    using exec_pairs_keys [of g] by (auto simp: proj_succs_eq set_out_list proj_nodes_set)
qed (rule dict_const_keys(1), rule proj_indeg_keys)

section \<open>The order\<close>

definition key_order :: "structural_graph \<Rightarrow> string list" where
  "key_order g = kahn_order (proj_succs g) (proj_indeg g) (sort (zero_nodes (proj_indeg g)))"

lemma projected_prefix_map: "projected_prefix g = map (id_at g) (key_order g)"
proof -
  have "fold (\<lambda>u acc. acc @ [f u]) xs acc = acc @ map f xs" for f :: "string \<Rightarrow> unit_id" and xs acc
    by (induction xs arbitrary: acc) auto
  then show ?thesis
    by (simp add: projected_prefix_def key_order_def kahn_loop_fold [of "\<lambda>u acc. acc @ [id_at g u]"])
qed

lemma proj_queue: "distinct (sort (zero_nodes (proj_indeg g)))"
  by (simp add: zero_nodes_distinct proj_indeg_keys dict_const_keys(1))

lemmas proj_order = proj.order_props [OF TrueI set_sort proj_queue, folded key_order_def]
lemmas proj_complete = proj.order_complete_iff [OF TrueI set_sort proj_queue, folded key_order_def]

lemma graph_ok_keys: "graph_ok g \<Longrightarrow> dict_ok (units g)"
  by (simp add: graph_ok_def keyed_units_def)

lemma id_at_key: "graph_ok g \<Longrightarrow> u \<in> set (dict_keys (units g)) \<Longrightarrow> id_at g u = UnitID u"
  by (force simp: graph_ok_def keyed_units_def id_at_def)

lemma map_id_at: "graph_ok g \<Longrightarrow> set us \<subseteq> set (dict_keys (units g)) \<Longrightarrow> map (id_at g) us = map UnitID us"
  by (rule map_cong [OF refl]) (metis id_at_key subset_iff)

lemma proj_nodes_units: "graph_ok g \<Longrightarrow> proj_nodes g = dict_keys (units g)"
  by (simp add: graph_ok_keys dict_const_keys_distinct)

lemma prefix_ids: "graph_ok g \<Longrightarrow> projected_prefix g = map UnitID (key_order g)"
  using proj_order(2) [of g] by (simp add: projected_prefix_map map_id_at proj_nodes_units)

text \<open>The keys the fallback appends, and the whole order as keys.\<close>

definition fallback :: "structural_graph \<Rightarrow> string list" where
  "fallback g = sort (filter (\<lambda>u. u \<notin> set (key_order g)) (dict_keys (units g)))"

lemma topo_order_keys:
  assumes "graph_ok g"
  shows "fst (topo_order g) = map UnitID (key_order g @ fallback g)"
    and "snd (topo_order g) = [] \<longleftrightarrow> set (key_order g) = set (dict_keys (units g))"
proof -
  have len: "length (key_order g) = length (units g) \<longleftrightarrow> set (key_order g) = set (dict_keys (units g))"
    using proj_complete(2) [of g] by (simp add: proj_nodes_units [OF assms])
  then show "snd (topo_order g) = [] \<longleftrightarrow> set (key_order g) = set (dict_keys (units g))"
    by (simp add: topo_order_def Let_def prefix_ids [OF assms])
  have flt: "filter (\<lambda>u. id_at g u \<notin> set (projected_prefix g)) (dict_keys (units g))
      = filter (\<lambda>u. u \<notin> set (key_order g)) (dict_keys (units g))"
    by (rule filter_cong [OF refl]) (auto simp: id_at_key [OF assms] prefix_ids [OF assms])
  have "map (id_at g) (fallback g) = map UnitID (fallback g)"
    by (rule map_id_at [OF assms]) (auto simp: fallback_def)
  moreover have "fallback g = []" if "set (key_order g) = set (dict_keys (units g))"
    using that by (simp add: fallback_def)
  ultimately show "fst (topo_order g) = map UnitID (key_order g @ fallback g)"
    using len unfolding topo_order_def Let_def flt fallback_def [symmetric]
    by (simp add: prefix_ids [OF assms])
qed

lemma topo_order_perm:
  assumes "graph_ok g"
  shows "mset (fst (topo_order g)) = mset (map (unit_id \<circ> snd) (units g))"
proof -
  have "distinct (key_order g @ fallback g)"
    using proj_order(1) [of g] graph_ok_keys [OF assms] by (auto simp: fallback_def)
  moreover have "set (key_order g @ fallback g) = set (dict_keys (units g))"
    using proj_order(2) [of g] by (auto simp: proj_nodes_units [OF assms] fallback_def)
  ultimately have "mset (key_order g @ fallback g) = mset (dict_keys (units g))"
    using graph_ok_keys [OF assms] by (metis set_eq_iff_mset_eq_distinct)
  then have "mset (map UnitID (key_order g @ fallback g)) = mset (map UnitID (dict_keys (units g)))"
    by (simp only: mset_map)
  moreover have "map UnitID (dict_keys (units g)) = map (unit_id \<circ> snd) (units g)"
    using assms by (auto simp: graph_ok_def keyed_units_def)
  ultimately show ?thesis by (simp only: topo_order_keys(1) [OF assms])
qed

text \<open>The execution edges of a graph as a relation on unit keys.\<close>

definition exec_rel :: "structural_graph \<Rightarrow> (string \<times> string) set" where
  "exec_rel g = (\<lambda>e. (src e, tgt e)) ` set (filter execution_edge (edges g))"

lemma wf_graph_ends: "wf_graph g \<Longrightarrow> e \<in> set (edges g) \<Longrightarrow> src e \<in> set (dict_keys (units g)) \<and> tgt e \<in> set (dict_keys (units g))"
  unfolding wf_graph_def by (metis list.set_map map_of_Some_keys)

lemma exec_rel_pairs: "wf_graph g \<Longrightarrow> set (exec_pairs g) = exec_rel g"
  using wf_graph_ends by (fastforce simp: exec_pairs_def exec_rel_def)

lemma proj_edge_rel: "edge_rel (proj_nodes g) (proj_succs g) = set (exec_pairs g)"
  using exec_pairs_keys [of g] by (auto simp: edge_rel_def proj_succs_eq set_out_list)

lemma warning_iff_cyclic:
  assumes "graph_ok g" and "wf_graph g"
  shows "snd (topo_order g) = [] \<longleftrightarrow> acyclic (exec_rel g)"
proof -
  have "edge_rel (dict_keys (units g)) (proj_succs g) = exec_rel g"
    using proj_edge_rel [of g] by (simp only: proj_nodes_units [OF assms(1)] exec_rel_pairs [OF assms(2)])
  with proj_complete [of g] topo_order_keys(2) [OF assms(1)] show ?thesis
    by (simp add: proj_nodes_units [OF assms(1)])
qed

lemma order_respects_edges:
  assumes "graph_ok g" and "wf_graph g" and "acyclic (exec_rel g)"
    and "e \<in> set (edges g)" and "execution_edge e"
  shows "\<exists>as bs. fst (topo_order g) = as @ edge_target e # bs \<and> edge_source e \<in> set as"
proof -
  have "snd (topo_order g) = []" using warning_iff_cyclic assms(1-3) by blast
  with topo_order_keys(2) [OF assms(1)] have all: "set (key_order g) = set (dict_keys (units g))" by simp
  have "(src e, tgt e) \<in> set (exec_pairs g)"
    using assms(4,5) by (auto simp: exec_rel_pairs [OF assms(2)] exec_rel_def)
  then have t: "tgt e \<in> set (proj_succs g (src e))" by (simp add: proj_succs_eq set_out_list)
  from wf_graph_ends [OF assms(2,4)] have ends: "src e \<in> set (proj_nodes g)" "tgt e \<in> set (key_order g)"
    by (simp_all add: all)
  then obtain as bs where ko: "key_order g = as @ tgt e # bs" by (meson split_list)
  with proj_order(3) [of g] ends(1) t have "src e \<in> set as" unfolding topo_def by blast
  then have "UnitID (src e) \<in> set (map UnitID as)" unfolding list.set_map by (rule imageI)
  moreover have "fst (topo_order g) = map UnitID as @ UnitID (tgt e) # map UnitID (bs @ fallback g)"
    by (simp add: topo_order_keys(1) [OF assms(1)] ko)
  ultimately show ?thesis unfolding unit_id.collapse by blast
qed

section \<open>Independence of insertion order\<close>

lemma sort_mset_cong: "mset xs = mset ys \<Longrightarrow> sort xs = sort ys"
  by (metis properties_for_sort mset_sort sorted_sort)

lemma sort_key_mset_cong:
  assumes "mset xs = mset ys" and "inj_on f (set xs)"
  shows "sort_key f xs = sort_key f ys"
  by (rule sort_key_inj_key_eq) (use assms in simp_all)

lemma mset_filter_map_cong:
  "mset xs = mset ys \<Longrightarrow> mset (map f (filter P xs)) = mset (map f (filter P ys))"
  by simp

lemma exec_pairs_perm:
  assumes "mset (units g) = mset (units h)" and "mset (edges g) = mset (edges h)"
  shows "mset (exec_pairs g) = mset (exec_pairs h)"
  using assms(2) mset_eq_setD [OF assms(1)] unfolding exec_pairs_def by simp

lemma key_order_perm:
  assumes "mset (units g) = mset (units h)" and "mset (edges g) = mset (edges h)"
  shows "key_order g = key_order h"
proof -
  note ps = exec_pairs_perm [OF assms]
  have succs: "proj_succs g = proj_succs h"
  proof
    fix u
    show "proj_succs g u = proj_succs h u"
      unfolding proj_succs_eq out_list_def by (rule sort_mset_cong) (simp add: ps)
  qed
  have deg: "deg (proj_indeg g) v = deg (proj_indeg h) v" for v
    unfolding proj_indeg_eq by (metis count_mset mset_map ps)
  have keys: "set (dict_keys (proj_indeg g)) = set (dict_keys (proj_indeg h))"
    using mset_eq_setD [OF assms(1)] by (simp add: proj_indeg_keys)
  have ok: "dict_ok (proj_indeg g)" "dict_ok (proj_indeg h)"
    by (simp_all add: proj_indeg_keys dict_const_keys(1))
  have "set (zero_nodes (proj_indeg g)) = set (zero_nodes (proj_indeg h))"
    unfolding set_zero_nodes [OF ok(1)] set_zero_nodes [OF ok(2)] keys deg ..
  then have "mset (zero_nodes (proj_indeg g)) = mset (zero_nodes (proj_indeg h))"
    using zero_nodes_distinct ok by (metis set_eq_iff_mset_eq_distinct)
  then have "sort (zero_nodes (proj_indeg g)) = sort (zero_nodes (proj_indeg h))"
    by (rule sort_mset_cong)
  with kahn_loop_deg_cong [OF deg] show ?thesis unfolding key_order_def succs by metis
qed

lemma graph_ok_perm: "mset (units g) = mset (units h) \<Longrightarrow> graph_ok g = graph_ok h"
  using mset_eq_setD [of "units g" "units h"] mset_eq_imp_distinct_iff [of "map fst (units g)" "map fst (units h)"]
  by (simp add: graph_ok_def keyed_units_def)

lemma build_dag_perm:
  assumes "graph_ok g" and "mset (units g) = mset (units h)" and "mset (edges g) = mset (edges h)"
    and "inj_on edge_key (set (edges g))"
    and "graph_id g = graph_id h" and "version g = version h" and "graph_metadata g = graph_metadata h"
  shows "build_dag g = build_dag h \<and> snd (topo_order g) = snd (topo_order h)"
proof -
  have ok: "graph_ok h" using assms(1) graph_ok_perm [OF assms(2)] by simp
  note ko = key_order_perm [OF assms(2,3)]
  have keys: "mset (dict_keys (units g)) = mset (dict_keys (units h))" using assms(2) by simp
  have "fallback g = fallback h"
    unfolding fallback_def ko by (rule sort_mset_cong) (simp only: mset_filter keys)
  then have order: "fst (topo_order g) = fst (topo_order h)"
    by (simp add: topo_order_keys(1) assms(1) ok ko)
  have warn: "snd (topo_order g) = snd (topo_order h)"
    using mset_eq_length [OF assms(2)] prefix_ids [OF assms(1)] prefix_ids [OF ok] ko
    by (simp add: topo_order_def Let_def)
  have "inj_on fst (set (units g))"
    using graph_ok_keys [OF assms(1)] by (simp add: distinct_map)
  from sort_key_mset_cong [OF assms(2) this] sort_key_mset_cong [OF assms(3,4)] order warn
  show ?thesis by (simp add: build_dag_def assms(5-7))
qed

section \<open>Nodes\<close>

abbreviation node_key :: "executable_node \<Rightarrow> string" where
  "node_key n \<equiv> uid_value (node_unit_id n)"

lemma graph_ok_keyed: "graph_ok g \<Longrightarrow> (k, u) \<in> set (units g) \<Longrightarrow> uid_value (unit_id u) = k"
  by (auto simp: graph_ok_def keyed_units_def)

lemma dag_nodes_store:
  assumes "graph_ok g"
  shows "dag_nodes (build_dag g)
    = fold (\<lambda>n d. dict_set (node_key n) n d) (map (make_node \<circ> snd) (sort_key fst (units g))) []"
  unfolding build_dag_def executable_dag.simps fold_map comp_def
  by (rule fold_cong) (auto simp: make_node_def graph_ok_keyed [OF assms])

lemma dag_nodes_lookup:
  assumes "graph_ok g"
  shows "map_of (dag_nodes (build_dag g)) k = map_option make_node (map_of (units g) k)"
proof -
  let ?ns = "map (make_node \<circ> snd) (sort_key fst (units g))"
  note keyed = graph_ok_keyed [OF assms]
  have keys: "map node_key ?ns = map fst (sort_key fst (units g))"
    by (auto simp: make_node_def keyed)
  have "distinct (map node_key ?ns)"
    unfolding keys using graph_ok_keys [OF assms] by (metis distinct_map distinct_sort set_sort)
  note here = pydict.lookup_store_all_distinct [OF this, where s = "[]"]
  note missing = pydict.lookup_store_all_frame [where key = node_key and xs = ?ns and s = "[]"]
  show ?thesis
  proof (cases "map_of (units g) k")
    case None
    then have "k \<notin> set (map node_key ?ns)" unfolding keys by (simp add: map_of_None_iff)
    then have "k \<notin> node_key ` set ?ns" by (simp only: list.set_map not_False_eq_True)
    from missing [OF this] None show ?thesis unfolding dag_nodes_store [OF assms] by simp
  next
    case (Some u)
    then have u: "(k, u) \<in> set (units g)" by (rule map_of_SomeD)
    then have "make_node u \<in> set ?ns" by force
    from here [OF this] Some keyed [OF u] show ?thesis
      unfolding dag_nodes_store [OF assms] by (simp add: make_node_def)
  qed
qed

lemma projection_validates:
  assumes "graph_ok g"
  shows "projection_validate (build_dag g)"
proof -
  have keys: "set (dict_keys (dag_nodes (build_dag g))) = set (dict_keys (units g))"
  proof -
    have "dom (map_of (dag_nodes (build_dag g))) = dom (map_of (units g))"
      by (auto simp: dom_def dag_nodes_lookup [OF assms])
    then show ?thesis by (simp add: dom_map_of_conv_image_fst)
  qed
  have "set (topological_order (build_dag g)) \<subseteq> UnitID ` set (dict_keys (units g))"
    using proj_order(2) [of g]
    by (auto simp: build_dag_def topo_order_keys(1) [OF assms] fallback_def)
  then have sub: "uid_value i \<in> set (dict_keys (units g))" if "i \<in> set (topological_order (build_dag g))" for i
    using that by force
  then have "topological_order (build_dag g) = []" if "dag_nodes (build_dag g) = []"
    using that keys by (metis (no_types, lifting) empty_iff ex_in_conv list.map_disc_iff list.set(1) set_empty)
  with keys sub show ?thesis by (auto simp: projection_validate_def list_all_iff)
qed

lemma project_ok_iff:
  "is_ok (project g ctx) \<longleftrightarrow>
     wf_graph g \<and> (case ctx of
        None \<Rightarrow> list_all (\<lambda>u. \<not> requires_execution_context (contract u)) (map snd (units g))
      | Some c \<Rightarrow> list_all (context_admits c) (map snd (units g)))"
  unfolding project_def validate_graph_iff validate_execution_context_iff
  by (auto simp: list_all_iff split: option.splits)

lemma project_result:
  assumes "project g ctx = Inr (dag, ws)"
  shows "wf_graph g" and "dag = build_dag g" and "ws = snd (topo_order g)"
  using assms by (auto simp: project_def validate_graph_iff)

section \<open>Properties\<close>

text \<open>
  The projector accepts a graph exactly when it is well formed, and a graph with governed
  units only together with an execution context that every unit admits.
\<close>

theorem projection_accepts_iff:
  "is_ok (project g ctx) =
     (wf_graph g \<and> (case ctx of
        None \<Rightarrow> list_all (\<lambda>u. \<not> requires_execution_context (contract u)) (map snd (units g))
      | Some c \<Rightarrow> list_all (context_admits c) (map snd (units g))))"
  by (rule project_ok_iff)

text \<open>
  C15: What a projection returns: the topological order is a permutation of the units; the
  warning is given exactly when the execution edges have a cycle; without it the source of
  every execution edge comes before its target; each node is the projection of its unit; the
  edges are the graph's edges up to order; and the DAG passes the projection validator.
\<close>

theorem projected_dag_correct:
  assumes "graph_ok g" and "project g ctx = Inr (dag, ws)"
  shows "mset (topological_order dag) = mset (map (unit_id \<circ> snd) (units g))
    \<and> (ws = [] \<longleftrightarrow> acyclic (exec_rel g))
    \<and> (ws = [] \<longrightarrow> (\<forall>e\<in>set (edges g). execution_edge e \<longrightarrow>
         (\<exists>as bs. topological_order dag = as @ edge_target e # bs \<and> edge_source e \<in> set as)))
    \<and> (\<forall>k. map_of (dag_nodes dag) k = map_option make_node (map_of (units g) k))
    \<and> mset (dag_edges dag) = mset (map make_edge (edges g))
    \<and> projection_validate dag"
proof -
  note [simp] = project_result(2,3) [OF assms(2)]
  note wf = project_result(1) [OF assms(2)]
  have order: "topological_order dag = fst (topo_order g)" by (simp add: build_dag_def)
  note ac = warning_iff_cyclic [OF assms(1) wf]
  have "mset (topological_order dag) = mset (map (unit_id \<circ> snd) (units g))"
    unfolding order by (rule topo_order_perm [OF assms(1)])
  moreover have "ws = [] \<longrightarrow> (\<forall>e\<in>set (edges g). execution_edge e \<longrightarrow>
         (\<exists>as bs. topological_order dag = as @ edge_target e # bs \<and> edge_source e \<in> set as))"
    unfolding order using order_respects_edges [OF assms(1) wf] ac by simp
  moreover have "mset (dag_edges dag) = mset (map make_edge (edges g))" by (simp add: build_dag_def)
  ultimately show ?thesis
    using ac dag_nodes_lookup [OF assms(1)] projection_validates [OF assms(1)] by simp
qed

lemma demo_graph_ok: "graph_ok demo_graph"
  by (simp add: graph_ok_def keyed_units_def demo_defs)

lemma demo_projects: "project demo_graph None = Inr (build_dag demo_graph, snd (topo_order demo_graph))"
proof -
  have "list_all (\<lambda>u. \<not> requires_execution_context (contract u)) (map snd (units demo_graph))"
    by code_simp
  then show ?thesis
    by (simp add: project_def validate_graph_iff demo_graph_wf list_all_iff)
qed

theorem projected_dag_correct_witness:
  "mset (topological_order (build_dag demo_graph)) = mset [UnitID ''a'', UnitID ''b'']"
  using projected_dag_correct [OF demo_graph_ok demo_projects] by (simp add: demo_defs)

text \<open>
  The projection is deterministic in the content of the graph: the order in which units
  and edges were inserted does not show in the executable DAG or in the warning, provided no
  two edges agree on the sort key.
\<close>

theorem projection_insertion_order_irrelevant:
  assumes "graph_ok g" and "mset (units g) = mset (units h)" and "mset (edges g) = mset (edges h)"
    and "inj_on edge_key (set (edges g))"
    and "graph_id g = graph_id h" and "version g = version h" and "graph_metadata g = graph_metadata h"
  shows "build_dag g = build_dag h \<and> snd (topo_order g) = snd (topo_order h)"
  using assms by (rule build_dag_perm)

theorem projection_insertion_order_irrelevant_witness:
  "build_dag demo_graph = build_dag (demo_graph\<lparr>units := rev (units demo_graph)\<rparr>)"
  using projection_insertion_order_irrelevant [OF demo_graph_ok, of "demo_graph\<lparr>units := rev (units demo_graph)\<rparr>"]
  by (simp add: demo_graph_def)

end
