(* ===== verification/Serialization.thy ===== *)
theory Serialization
  imports Schema Projection "HOL-Library.Monad_Syntax"
begin

text \<open>
  Serialisation of structural graphs (\<open>ir/serialization.py\<close>). A document is a dynamic value;
  \<open>to_doc\<close> is \<open>to_dict\<close> and \<open>from_doc\<close> is \<open>from_dict\<close>. \<open>from_dict\<close> turns every exception of the
  decoder into one error, so the decoder is option valued. It is modelled on documents whose
  free fields (schemas, metadata, texts, flags) have the annotated types; on others it fails
  here, where Python would store the value as it is. Python's sets are finite sets.
\<close>

section \<open>Enumerations of the units\<close>

fun structure_value :: "structure_dimension \<Rightarrow> string" where
  "structure_value PRIMITIVE = ''PRIMITIVE''"
| "structure_value COMPOSITE = ''COMPOSITE''"

fun visibility_value :: "visibility_dimension \<Rightarrow> string" where
  "visibility_value OPAQUE = ''OPAQUE''"
| "visibility_value INSPECTABLE = ''INSPECTABLE''"

fun lifecycle_value :: "lifecycle_dimension \<Rightarrow> string" where
  "lifecycle_value BASE = ''BASE''"
| "lifecycle_value SPECIALIZED = ''SPECIALIZED''"

fun tier_value :: "enforcement_tier \<Rightarrow> string" where
  "tier_value INVARIANT = ''INVARIANT''"
| "tier_value CONSTRAINT = ''CONSTRAINT''"
| "tier_value POLICY = ''POLICY''"

definition structures :: "structure_dimension list" where "structures = [PRIMITIVE, COMPOSITE]"
definition visibilities :: "visibility_dimension list" where "visibilities = [OPAQUE, INSPECTABLE]"
definition lifecycles :: "lifecycle_dimension list" where "lifecycles = [BASE, SPECIALIZED]"
definition tiers :: "enforcement_tier list" where "tiers = [INVARIANT, CONSTRAINT, POLICY]"
definition edge_types :: "edge_type list" where
  "edge_types = [ET_DATA, ET_CONTROL, ET_STATE, ET_DEPENDENCY, ET_RESOURCE]"

interpretation structure_enum: value_enum structures structure_value
  by unfold_locales (auto simp: structures_def, metis structure_dimension.exhaust)

interpretation visibility_enum: value_enum visibilities visibility_value
  by unfold_locales (auto simp: visibilities_def, metis visibility_dimension.exhaust)

interpretation lifecycle_enum: value_enum lifecycles lifecycle_value
  by unfold_locales (auto simp: lifecycles_def, metis lifecycle_dimension.exhaust)

interpretation tier_enum: value_enum tiers tier_value
  by unfold_locales (auto simp: tiers_def, metis enforcement_tier.exhaust)

interpretation edge_type_enum: value_enum edge_types edge_type_value
  by unfold_locales (auto simp: edge_types_def, metis edge_type.exhaust)

section \<open>Encoding\<close>

definition PStrs :: "string list \<Rightarrow> pyval" where
  "PStrs xs = PList (map PStr xs)"

definition opt_str :: "string option \<Rightarrow> pyval" where
  "opt_str x = (case x of None \<Rightarrow> PNone | Some s \<Rightarrow> PStr s)"

definition sorted_strs :: "string set \<Rightarrow> pyval" where
  "sorted_strs S = PStrs (sorted_list_of_set S)"

definition port_doc :: "port_contract \<Rightarrow> pyval" where
  "port_doc p = PDict
     [(''port_id'', PStr (port_id p)), (''direction'', PStr (direction_value (direction p))),
      (''kind'', PStr (port_kind_value (port_kind p))), (''schema'', PDict (schema p)),
      (''cardinality'', PStr (cardinality_value (cardinality p))), (''description'', PStr (port_description p))]"

definition idempotency_doc :: "idempotency_contract \<Rightarrow> pyval" where
  "idempotency_doc c = PDict
     [(''mode'', PStr (mode_value (idem_mode c))), (''scope'', PStr (scope_value (idem_scope c))),
      (''key_field'', opt_str (key_field c)), (''payload_hash_required'', PBool (payload_hash_required c))]"

definition side_effects_doc :: "side_effect_contract \<Rightarrow> pyval" where
  "side_effects_doc c = PDict
     [(''classification'', PStr (effect_class_value (classification c))),
      (''effect_types'', sorted_strs (effect_value ` effect_types c)),
      (''compensation_action'', opt_str (compensation_action c)),
      (''minimum_isolation'', PStr (isolation_value (minimum_isolation c)))]"

definition placement_doc :: "placement_contract \<Rightarrow> pyval" where
  "placement_doc c = PDict
     [(''allowed_regions'', sorted_strs (allowed_regions c)), (''allowed_devices'', sorted_strs (allowed_devices c)),
      (''allowed_runtimes'', sorted_strs (allowed_runtimes c)),
      (''required_capabilities'', sorted_strs (required_capabilities c)),
      (''preferred_regions'', PStrs (preferred_regions c)), (''preferred_devices'', PStrs (preferred_devices c)),
      (''requires_local_inputs'', PBool (requires_local_inputs c))]"

definition security_doc :: "security_contract \<Rightarrow> pyval" where
  "security_doc c = PDict
     [(''tenant_id'', opt_str (sec_tenant_id c)), (''required_permissions'', sorted_strs (required_permissions c)),
      (''security_labels'', sorted_strs (security_labels c)),
      (''output_classification'', PStr (data_class_value (output_classification c))),
      (''maximum_input_classification'', PStr (data_class_value (maximum_input_classification c))),
      (''allowed_residencies'', sorted_strs (allowed_residencies c)), (''trust_zone'', PStr (sec_trust_zone c)),
      (''accepted_trust_zones'', sorted_strs (accepted_trust_zones c)),
      (''confidential_compute_required'', PBool (confidential_compute_required c))]"

definition contract_doc :: "unit_contract \<Rightarrow> pyval" where
  "contract_doc c = PDict
     [(''input_schema'', PDict (input_schema c)), (''output_schema'', PDict (output_schema c)),
      (''preconditions'', PStrs (preconditions c)), (''postconditions'', PStrs (postconditions c)),
      (''resource_limits'', PDict (resource_limits c)), (''ports'', PList (map port_doc (ports c))),
      (''idempotency'', idempotency_doc (idempotency c)), (''side_effects'', side_effects_doc (side_effects c)),
      (''placement'', placement_doc (placement c)), (''security'', security_doc (security c))]"

definition mutation_contract_doc :: "mutation_contract \<Rightarrow> pyval" where
  "mutation_contract_doc m = PDict
     [(''allowed_mutations'', sorted_strs (allowed_mutations m)), (''max_children'', PInt (max_children m)),
      (''is_immutable'', PBool (is_immutable m))]"

definition constraint_doc :: "unit_constraint \<Rightarrow> pyval" where
  "constraint_doc c = PDict
     [(''constraint_id'', PStr (constraint_id c)), (''tier'', PStr (tier_value (constraint_tier c))),
      (''expression'', PStr (expression c)), (''description'', PStr (constraint_description c))]"

definition unit_doc :: "computational_unit \<Rightarrow> pyval" where
  "unit_doc u = PDict
     [(''unit_id'', PStr (uid_value (unit_id u))), (''name'', PStr (unit_name u)),
      (''structure'', PStr (structure_value (unit_structure u))),
      (''visibility'', PStr (visibility_value (visibility u))),
      (''lifecycle'', PStr (lifecycle_value (lifecycle u))), (''contract'', contract_doc (contract u)),
      (''mutation_contract'', mutation_contract_doc (mutation_contract u)),
      (''constraints'', PList (map constraint_doc (constraints u))), (''metadata'', PDict (unit_metadata u)),
      (''sub_units'', PStrs (map uid_value (sub_units u)))]"

definition edge_doc :: "edge \<Rightarrow> pyval" where
  "edge_doc e = PDict
     [(''source'', PStr (src e)), (''target'', PStr (tgt e)), (''edge_type'', PStr (edge_type_value (edge_type e))),
      (''metadata'', PDict (edge_metadata e)), (''source_port'', opt_str (source_port e)),
      (''target_port'', opt_str (target_port e))]"

definition version_doc :: "graph_version \<Rightarrow> pyval" where
  "version_doc v = PDict [(''major'', PInt (int (major v))), (''minor'', PInt (int (minor v))),
     (''patch'', PInt (int (patch v))), (''sequence'', PInt (int (sequence v)))]"

definition to_doc :: "structural_graph \<Rightarrow> pyval" where
  "to_doc g = PDict (schema_header @
     [(''graph_id'', PStr (gid_value (graph_id g))), (''version'', version_doc (version g)),
      (''units'', PDict (map (\<lambda>k. (k, unit_doc (the (map_of (units g) k)))) (sort (dict_keys (units g))))),
      (''edges'', PList (map edge_doc (sort_key edge_key (edges g)))),
      (''metadata'', PDict (graph_metadata g))])"

section \<open>Decoding\<close>

fun str_of :: "pyval \<Rightarrow> string option" where
  "str_of (PStr s) = Some s"
| "str_of _ = None"

fun bool_of :: "pyval \<Rightarrow> bool option" where
  "bool_of (PBool b) = Some b"
| "bool_of _ = None"

fun int_of :: "pyval \<Rightarrow> int option" where
  "int_of (PInt n) = Some n"
| "int_of _ = None"

fun obj_of :: "pyval \<Rightarrow> document option" where
  "obj_of (PDict d) = Some d"
| "obj_of _ = None"

fun arr_of :: "pyval \<Rightarrow> pyval list option" where
  "arr_of (PList vs) = Some vs"
| "arr_of _ = None"

fun nullable_of :: "pyval \<Rightarrow> string option option" where
  "nullable_of PNone = Some None"
| "nullable_of (PStr s) = Some (Some s)"
| "nullable_of _ = None"

definition ok_of :: "'a res \<Rightarrow> 'a option" where
  "ok_of r = (case r of Inl _ \<Rightarrow> None | Inr v \<Rightarrow> Some v)"

fun traverse :: "('a \<Rightarrow> 'b option) \<Rightarrow> 'a list \<Rightarrow> 'b list option" where
  "traverse f [] = Some []"
| "traverse f (x # xs) = do { y \<leftarrow> f x; ys \<leftarrow> traverse f xs; Some (y # ys) }"

definition strs_of :: "pyval \<Rightarrow> string list option" where
  "strs_of v = do { vs \<leftarrow> arr_of v; traverse str_of vs }"

text \<open>\<open>d[k]\<close> and \<open>d.get(k, default)\<close>.\<close>

definition at_key :: "document \<Rightarrow> string \<Rightarrow> pyval option" where
  "at_key d k = map_of d k"

definition at_default :: "document \<Rightarrow> string \<Rightarrow> pyval \<Rightarrow> pyval option" where
  "at_default d k v = (case map_of d k of None \<Rightarrow> Some v | Some w \<Rightarrow> Some w)"

definition enum_at :: "'e list \<Rightarrow> ('e \<Rightarrow> string) \<Rightarrow> pyval option \<Rightarrow> 'e option" where
  "enum_at members val v = do { w \<leftarrow> v; s \<leftarrow> str_of w; ok_of (enum_decode members val s) }"

definition port_from :: "pyval \<Rightarrow> port_contract option" where
  "port_from v = do {
     d \<leftarrow> obj_of v;
     pid \<leftarrow> at_key d ''port_id'' \<bind> str_of;
     dir \<leftarrow> enum_at directions direction_value (at_key d ''direction'');
     knd \<leftarrow> enum_at kinds port_kind_value (at_key d ''kind'');
     sch \<leftarrow> at_default d ''schema'' (PDict []) \<bind> obj_of;
     crd \<leftarrow> enum_at cardinalities cardinality_value (at_default d ''cardinality'' (PStr ''EXACTLY_ONE''));
     dsc \<leftarrow> at_default d ''description'' (PStr []) \<bind> str_of;
     ok_of (PortContract_post_init \<lparr>port_id = pid, direction = dir, port_kind = knd, schema = sch,
       cardinality = crd, port_description = dsc\<rparr>) }"

definition idempotency_from :: "pyval \<Rightarrow> idempotency_contract option" where
  "idempotency_from v = do {
     d \<leftarrow> obj_of v;
     m \<leftarrow> enum_at modes mode_value (at_default d ''mode'' (PStr ''NONE''));
     s \<leftarrow> enum_at scopes scope_value (at_default d ''scope'' (PStr ''TASK''));
     k \<leftarrow> at_default d ''key_field'' PNone \<bind> nullable_of;
     h \<leftarrow> at_default d ''payload_hash_required'' (PBool True) \<bind> bool_of;
     ok_of (IdempotencyContract_post_init \<lparr>idem_mode = m, idem_scope = s, key_field = k, payload_hash_required = h\<rparr>) }"

definition side_effects_from :: "pyval \<Rightarrow> side_effect_contract option" where
  "side_effects_from v = do {
     d \<leftarrow> obj_of v;
     c \<leftarrow> enum_at effect_classes effect_class_value (at_default d ''classification'' (PStr ''NONE''));
     es \<leftarrow> at_default d ''effect_types'' (PList []) \<bind> strs_of;
     ts \<leftarrow> traverse (\<lambda>s. ok_of (enum_decode effects effect_value s)) es;
     a \<leftarrow> at_default d ''compensation_action'' PNone \<bind> nullable_of;
     i \<leftarrow> enum_at isolations isolation_value (at_default d ''minimum_isolation'' (PStr ''I0_NONE''));
     ok_of (SideEffectContract_post_init \<lparr>classification = c, effect_types = set ts, compensation_action = a,
       minimum_isolation = i\<rparr>) }"

definition placement_from :: "pyval \<Rightarrow> placement_contract option" where
  "placement_from v = do {
     d \<leftarrow> obj_of v;
     r \<leftarrow> at_default d ''allowed_regions'' (PList []) \<bind> strs_of;
     dv \<leftarrow> at_default d ''allowed_devices'' (PList []) \<bind> strs_of;
     rt \<leftarrow> at_default d ''allowed_runtimes'' (PList []) \<bind> strs_of;
     rc \<leftarrow> at_default d ''required_capabilities'' (PList []) \<bind> strs_of;
     pr \<leftarrow> at_default d ''preferred_regions'' (PList []) \<bind> strs_of;
     pd \<leftarrow> at_default d ''preferred_devices'' (PList []) \<bind> strs_of;
     li \<leftarrow> at_default d ''requires_local_inputs'' (PBool False) \<bind> bool_of;
     ok_of (PlacementContract_post_init \<lparr>allowed_regions = set r, allowed_devices = set dv, allowed_runtimes = set rt,
       required_capabilities = set rc, preferred_regions = pr, preferred_devices = pd, requires_local_inputs = li\<rparr>) }"

definition security_from :: "pyval \<Rightarrow> security_contract option" where
  "security_from v = do {
     d \<leftarrow> obj_of v;
     t \<leftarrow> at_default d ''tenant_id'' PNone \<bind> nullable_of;
     p \<leftarrow> at_default d ''required_permissions'' (PList []) \<bind> strs_of;
     l \<leftarrow> at_default d ''security_labels'' (PList []) \<bind> strs_of;
     oc \<leftarrow> enum_at data_classes data_class_value (at_default d ''output_classification'' (PStr ''INTERNAL''));
     ic \<leftarrow> enum_at data_classes data_class_value (at_default d ''maximum_input_classification'' (PStr ''RESTRICTED''));
     r \<leftarrow> at_default d ''allowed_residencies'' (PList []) \<bind> strs_of;
     z \<leftarrow> at_default d ''trust_zone'' (PStr []) \<bind> str_of;
     a \<leftarrow> at_default d ''accepted_trust_zones'' (PList []) \<bind> strs_of;
     cc \<leftarrow> at_default d ''confidential_compute_required'' (PBool False) \<bind> bool_of;
     ok_of (SecurityContract_post_init \<lparr>sec_tenant_id = t, required_permissions = set p, security_labels = set l,
       output_classification = oc, maximum_input_classification = ic, allowed_residencies = set r,
       sec_trust_zone = z, accepted_trust_zones = set a, confidential_compute_required = cc\<rparr>) }"

definition contract_keys :: "string list" where
  "contract_keys = [''input_schema'', ''output_schema'', ''preconditions'', ''postconditions'', ''resource_limits'',
     ''ports'', ''idempotency'', ''side_effects'', ''placement'', ''security'']"

text \<open>A key that is no field of \<open>UnitContract\<close> makes the call with keyword arguments raise.\<close>

definition contract_from :: "pyval \<Rightarrow> unit_contract option" where
  "contract_from v = do {
     d \<leftarrow> obj_of v;
     ps \<leftarrow> at_default d ''ports'' (PList []) \<bind> arr_of;
     prts \<leftarrow> traverse port_from ps;
     idem \<leftarrow> at_default d ''idempotency'' (PDict []) \<bind> idempotency_from;
     eff \<leftarrow> at_default d ''side_effects'' (PDict []) \<bind> side_effects_from;
     pla \<leftarrow> at_default d ''placement'' (PDict []) \<bind> placement_from;
     sec \<leftarrow> at_default d ''security'' (PDict []) \<bind> security_from;
     ins \<leftarrow> at_default d ''input_schema'' (PDict []) \<bind> obj_of;
     outs \<leftarrow> at_default d ''output_schema'' (PDict []) \<bind> obj_of;
     pre \<leftarrow> at_default d ''preconditions'' (PList []) \<bind> strs_of;
     post \<leftarrow> at_default d ''postconditions'' (PList []) \<bind> strs_of;
     lim \<leftarrow> at_default d ''resource_limits'' (PDict []) \<bind> obj_of;
     (if set (dict_keys d) \<subseteq> set contract_keys
      then Some \<lparr>input_schema = ins, output_schema = outs, preconditions = pre, postconditions = post,
             resource_limits = lim, ports = prts, idempotency = idem, side_effects = eff, placement = pla, security = sec\<rparr>
      else None) }"

definition mutation_contract_from :: "pyval \<Rightarrow> mutation_contract option" where
  "mutation_contract_from v = do {
     d \<leftarrow> obj_of v;
     a \<leftarrow> at_default d ''allowed_mutations'' (PList []) \<bind> strs_of;
     m \<leftarrow> at_default d ''max_children'' (PInt 100) \<bind> int_of;
     i \<leftarrow> at_default d ''is_immutable'' (PBool False) \<bind> bool_of;
     Some \<lparr>allowed_mutations = set a, max_children = m, is_immutable = i\<rparr> }"

definition constraint_from :: "pyval \<Rightarrow> unit_constraint option" where
  "constraint_from v = do {
     d \<leftarrow> obj_of v;
     i \<leftarrow> at_key d ''constraint_id'' \<bind> str_of;
     t \<leftarrow> enum_at tiers tier_value (at_key d ''tier'');
     e \<leftarrow> at_key d ''expression'' \<bind> str_of;
     s \<leftarrow> at_key d ''description'' \<bind> str_of;
     Some \<lparr>constraint_id = i, constraint_tier = t, expression = e, constraint_description = s\<rparr> }"

definition unit_from :: "pyval \<Rightarrow> computational_unit option" where
  "unit_from v = do {
     d \<leftarrow> obj_of v;
     i \<leftarrow> at_key d ''unit_id'' \<bind> str_of;
     uid \<leftarrow> ok_of (mk_UnitID i);
     n \<leftarrow> at_key d ''name'' \<bind> str_of;
     st \<leftarrow> enum_at structures structure_value (at_key d ''structure'');
     vi \<leftarrow> enum_at visibilities visibility_value (at_key d ''visibility'');
     li \<leftarrow> enum_at lifecycles lifecycle_value (at_key d ''lifecycle'');
     ss \<leftarrow> at_default d ''sub_units'' (PList []) \<bind> strs_of;
     subs \<leftarrow> traverse (\<lambda>s. ok_of (mk_UnitID s)) ss;
     md \<leftarrow> at_default d ''metadata'' (PDict []) \<bind> obj_of;
     c \<leftarrow> at_default d ''contract'' (PDict []) \<bind> contract_from;
     mc \<leftarrow> at_default d ''mutation_contract'' (PDict []) \<bind> mutation_contract_from;
     cs \<leftarrow> at_default d ''constraints'' (PList []) \<bind> arr_of;
     cons \<leftarrow> traverse constraint_from cs;
     Some \<lparr>unit_id = uid, unit_name = n, unit_structure = st, visibility = vi, lifecycle = li, contract = c,
       mutation_contract = mc, constraints = cons, unit_metadata = md, sub_units = subs\<rparr> }"

definition edge_from :: "pyval \<Rightarrow> edge option" where
  "edge_from v = do {
     d \<leftarrow> obj_of v;
     s \<leftarrow> at_key d ''source'' \<bind> str_of;
     so \<leftarrow> ok_of (mk_UnitID s);
     t \<leftarrow> at_key d ''target'' \<bind> str_of;
     ta \<leftarrow> ok_of (mk_UnitID t);
     et \<leftarrow> enum_at edge_types edge_type_value (at_key d ''edge_type'');
     md \<leftarrow> at_default d ''metadata'' (PDict []) \<bind> obj_of;
     sp \<leftarrow> at_default d ''source_port'' PNone \<bind> nullable_of;
     tp \<leftarrow> at_default d ''target_port'' PNone \<bind> nullable_of;
     Some \<lparr>edge_source = so, edge_target = ta, edge_type = et, edge_metadata = md, source_port = sp, target_port = tp\<rparr> }"

definition version_part :: "document \<Rightarrow> string \<Rightarrow> int \<Rightarrow> nat option" where
  "version_part d k def = do { n \<leftarrow> at_default d k (PInt def) \<bind> int_of; (if 0 \<le> n then Some (nat n) else None) }"

definition version_from :: "pyval \<Rightarrow> graph_version option" where
  "version_from v = do {
     d \<leftarrow> obj_of v;
     ma \<leftarrow> version_part d ''major'' 1;
     mi \<leftarrow> version_part d ''minor'' 0;
     pa \<leftarrow> version_part d ''patch'' 0;
     sq \<leftarrow> version_part d ''sequence'' 0;
     Some \<lparr>major = ma, minor = mi, patch = pa, sequence = sq\<rparr> }"

fun add_units :: "structural_graph \<Rightarrow> pyval list \<Rightarrow> structural_graph option" where
  "add_units g [] = Some g"
| "add_units g (v # vs) = do { u \<leftarrow> unit_from v; g' \<leftarrow> ok_of (add_unit g u); add_units g' vs }"

definition from_validated :: "document \<Rightarrow> structural_graph option" where
  "from_validated d = do {
     i \<leftarrow> at_key d ''graph_id'' \<bind> str_of;
     _ \<leftarrow> ok_of (validate_identity i ''GraphID'');
     ver \<leftarrow> at_default d ''version'' (PDict []) \<bind> version_from;
     md \<leftarrow> at_default d ''metadata'' (PDict []) \<bind> obj_of;
     us \<leftarrow> at_default d ''units'' (PDict []) \<bind> obj_of;
     g \<leftarrow> add_units \<lparr>graph_id = GraphID i, version = ver, units = [], edges = [], graph_metadata = md\<rparr> (map snd us);
     es \<leftarrow> at_default d ''edges'' (PList []) \<bind> arr_of;
     edgs \<leftarrow> traverse edge_from es;
     Some (fold (\<lambda>e g. add_edge g e) edgs g) }"

definition from_doc :: "pyval \<Rightarrow> structural_graph res" where
  "from_doc v =
     (case validate_ir_document v of
        Inl e \<Rightarrow> Inl e
      | Inr _ \<Rightarrow> (case from_validated (dict_of v) of
          None \<Rightarrow> Inl (DNCValidationError ''invalid DNC-IR document semantics'')
        | Some g \<Rightarrow> Inr g))"

section \<open>Decoding what was encoded\<close>

text \<open>
  The objects a program can hold: the constructors accepted their arguments, and Python sets
  are finite.
\<close>

definition built_contract :: "unit_contract \<Rightarrow> bool" where
  "built_contract c \<longleftrightarrow>
     list_all (\<lambda>p. is_ok (PortContract_post_init p)) (ports c)
     \<and> is_ok (IdempotencyContract_post_init (idempotency c))
     \<and> is_ok (SideEffectContract_post_init (side_effects c))
     \<and> is_ok (PlacementContract_post_init (placement c))
     \<and> is_ok (SecurityContract_post_init (security c))
     \<and> finite (allowed_regions (placement c)) \<and> finite (allowed_devices (placement c))
     \<and> finite (allowed_runtimes (placement c)) \<and> finite (required_capabilities (placement c))
     \<and> finite (required_permissions (security c)) \<and> finite (security_labels (security c))
     \<and> finite (allowed_residencies (security c)) \<and> finite (accepted_trust_zones (security c))"

definition built_unit :: "computational_unit \<Rightarrow> bool" where
  "built_unit u \<longleftrightarrow>
     normalized (uid_value (unit_id u)) \<and> list_all (\<lambda>i. normalized (uid_value i)) (sub_units u)
     \<and> built_contract (contract u) \<and> finite (allowed_mutations (mutation_contract u))"

definition built_graph_obj :: "structural_graph \<Rightarrow> bool" where
  "built_graph_obj g \<longleftrightarrow>
     graph_ok g \<and> normalized (gid_value (graph_id g))
     \<and> list_all (\<lambda>(k, u). built_unit u) (units g)
     \<and> list_all (\<lambda>e. normalized (src e) \<and> normalized (tgt e)) (edges g)"

lemma ok_of_Inr [simp]: "ok_of (Inr v) = Some v"
  by (simp add: ok_of_def)

lemma at_default_hit: "map_of d k = Some v \<Longrightarrow> at_default d k w = Some v"
  by (simp add: at_default_def)

lemma traverse_map: "(\<And>x. x \<in> set xs \<Longrightarrow> f (h x) = Some x) \<Longrightarrow> traverse f (map h xs) = Some xs"
  by (induction xs) auto

lemma strs_of_PStrs [simp]: "strs_of (PStrs xs) = Some xs"
  by (simp add: strs_of_def PStrs_def traverse_map)

lemma strs_of_sorted [simp]: "strs_of (sorted_strs S) = Some (sorted_list_of_set S)"
  by (simp add: sorted_strs_def)

lemma nullable_opt [simp]: "nullable_of (opt_str x) = Some x"
  by (cases x) (simp_all add: opt_str_def)

lemma post_init_ok:
  "is_ok (PortContract_post_init p) \<Longrightarrow> PortContract_post_init p = Inr p"
  "is_ok (IdempotencyContract_post_init i) \<Longrightarrow> IdempotencyContract_post_init i = Inr i"
  "is_ok (SideEffectContract_post_init s) \<Longrightarrow> SideEffectContract_post_init s = Inr s"
  "is_ok (PlacementContract_post_init q) \<Longrightarrow> PlacementContract_post_init q = Inr q"
  "is_ok (SecurityContract_post_init t) \<Longrightarrow> SecurityContract_post_init t = Inr t"
  by (auto simp: PortContract_post_init_def IdempotencyContract_post_init_def SideEffectContract_post_init_def
      PlacementContract_post_init_def SecurityContract_post_init_def require_def split: if_splits option.splits)

lemma port_roundtrip: "is_ok (PortContract_post_init p) \<Longrightarrow> port_from (port_doc p) = Some p"
  using post_init_ok(1) [of p] by (cases p) (simp add: port_from_def port_doc_def at_key_def at_default_def enum_at_def)

lemma idempotency_roundtrip:
  "is_ok (IdempotencyContract_post_init c) \<Longrightarrow> idempotency_from (idempotency_doc c) = Some c"
  using post_init_ok(2) [of c] by (cases c) (simp add: idempotency_from_def idempotency_doc_def at_default_def enum_at_def)

lemma traverse_effects: "traverse (\<lambda>s. ok_of (enum_decode effects effect_value s)) (map effect_value ts) = Some ts"
  by (rule traverse_map) simp

lemma effect_values_list:
  "\<exists>ts. sorted_list_of_set (effect_value ` E) = map effect_value ts \<and> set ts = E"
proof -
  have fin: "finite E" by (rule finite_subset [OF _ finite_set [of effects]]) (auto intro: effect.members_all)
  let ?l = "sorted_list_of_set (effect_value ` E)"
  have "set ?l = effect_value ` E" using fin by simp
  then have "\<exists>ts. ?l = map effect_value ts \<and> set ts \<subseteq> E"
    by (intro exI [of _ "map (inv_into E effect_value) ?l"]) (auto simp: map_idI f_inv_into_f inv_into_into intro!: map_idI [symmetric])
  then obtain ts where ts: "?l = map effect_value ts" "set ts \<subseteq> E" by blast
  have "effect_value ` set ts = effect_value ` E" by (metis \<open>set ?l = effect_value ` E\<close> list.set_map ts(1))
  moreover have "inj effect_value" by (rule injI) (simp add: effect.value_inj)
  ultimately have "set ts = E" by (simp add: inj_image_eq_iff)
  with ts show ?thesis by blast
qed

lemma side_effects_roundtrip:
  assumes "is_ok (SideEffectContract_post_init c)"
  shows "side_effects_from (side_effects_doc c) = Some c"
proof -
  obtain ts where "sorted_list_of_set (effect_value ` effect_types c) = map effect_value ts" "set ts = effect_types c"
    using effect_values_list by blast
  then show ?thesis
    using post_init_ok(3) [OF assms]
    by (cases c) (simp add: side_effects_from_def side_effects_doc_def at_default_def enum_at_def traverse_effects)
qed

lemma placement_roundtrip:
  assumes "is_ok (PlacementContract_post_init c)" and "finite (allowed_regions c)" "finite (allowed_devices c)"
    "finite (allowed_runtimes c)" "finite (required_capabilities c)"
  shows "placement_from (placement_doc c) = Some c"
  using post_init_ok(4) [OF assms(1)] assms(2-)
  by (cases c) (simp add: placement_from_def placement_doc_def at_default_def)

lemma security_roundtrip:
  assumes "is_ok (SecurityContract_post_init c)" and "finite (required_permissions c)" "finite (security_labels c)"
    "finite (allowed_residencies c)" "finite (accepted_trust_zones c)"
  shows "security_from (security_doc c) = Some c"
  using post_init_ok(5) [OF assms(1)] assms(2-)
  by (cases c) (simp add: security_from_def security_doc_def at_default_def enum_at_def)

lemma contract_roundtrip:
  assumes "built_contract c"
  shows "contract_from (contract_doc c) = Some c"
proof -
  have "traverse port_from (map port_doc (ports c)) = Some (ports c)"
    by (rule traverse_map) (use assms in \<open>auto simp: built_contract_def list_all_iff intro: port_roundtrip\<close>)
  moreover have "idempotency_from (idempotency_doc (idempotency c)) = Some (idempotency c)"
    "side_effects_from (side_effects_doc (side_effects c)) = Some (side_effects c)"
    "placement_from (placement_doc (placement c)) = Some (placement c)"
    "security_from (security_doc (security c)) = Some (security c)"
    using assms by (auto simp: built_contract_def intro: idempotency_roundtrip side_effects_roundtrip
        placement_roundtrip security_roundtrip)
  ultimately show ?thesis
    by (cases c) (simp add: contract_from_def contract_doc_def at_default_def contract_keys_def)
qed

lemma constraint_roundtrip [simp]: "constraint_from (constraint_doc c) = Some c"
  by (cases c) (simp add: constraint_from_def constraint_doc_def at_key_def enum_at_def)

lemma mutation_contract_roundtrip:
  "finite (allowed_mutations m) \<Longrightarrow> mutation_contract_from (mutation_contract_doc m) = Some m"
  by (cases m) (simp add: mutation_contract_from_def mutation_contract_doc_def at_default_def)

lemma mk_UnitID_normalized: "normalized (uid_value i) \<Longrightarrow> mk_UnitID (uid_value i) = Inr i"
  by (simp add: mk_UnitID_ok_iff)

lemma unit_roundtrip:
  assumes "built_unit u"
  shows "unit_from (unit_doc u) = Some u"
proof -
  have "traverse (\<lambda>s. ok_of (mk_UnitID s)) (map uid_value (sub_units u)) = Some (sub_units u)"
    by (rule traverse_map) (use assms in \<open>simp add: built_unit_def list_all_iff mk_UnitID_normalized\<close>)
  moreover have "traverse constraint_from (map constraint_doc (constraints u)) = Some (constraints u)"
    by (rule traverse_map) simp
  moreover have "contract_from (contract_doc (contract u)) = Some (contract u)"
    "mutation_contract_from (mutation_contract_doc (mutation_contract u)) = Some (mutation_contract u)"
    "mk_UnitID (uid_value (unit_id u)) = Inr (unit_id u)"
    using assms by (auto simp: built_unit_def contract_roundtrip mutation_contract_roundtrip mk_UnitID_normalized)
  ultimately show ?thesis
    by (cases u) (simp add: unit_from_def unit_doc_def at_key_def at_default_def enum_at_def)
qed

lemma edge_roundtrip:
  assumes "normalized (src e)" and "normalized (tgt e)"
  shows "edge_from (edge_doc e) = Some e"
  using mk_UnitID_normalized [OF assms(1)] mk_UnitID_normalized [OF assms(2)]
  by (cases e) (simp add: edge_from_def edge_doc_def at_key_def at_default_def enum_at_def)

lemma version_roundtrip [simp]: "version_from (version_doc v) = Some v"
  by (cases v) (simp add: version_from_def version_doc_def version_part_def at_default_def)

lemma add_units_fresh:
  assumes "\<forall>u\<in>set us. built_unit u" and "distinct (map (uid_value \<circ> unit_id) us)"
    and "\<forall>u\<in>set us. uid_value (unit_id u) \<notin> set (dict_keys (units g))"
  shows "add_units g (map unit_doc us) = Some (g\<lparr>units := units g @ map (\<lambda>u. (uid_value (unit_id u), u)) us\<rparr>)"
  using assms
proof (induction us arbitrary: g)
  case (Cons u us)
  let ?k = "uid_value (unit_id u)"
  have a: "add_unit g u = Inr (g\<lparr>units := units g @ [(?k, u)]\<rparr>)"
    using Cons.prems(3) by (simp add: add_unit_def dict_set_new)
  have "add_units (g\<lparr>units := units g @ [(?k, u)]\<rparr>) (map unit_doc us)
      = Some (g\<lparr>units := (units g @ [(?k, u)]) @ map (\<lambda>u. (uid_value (unit_id u), u)) us\<rparr>)"
    by (rule trans [OF Cons.IH]) (use Cons.prems in \<open>auto simp: rev_image_eqI\<close>)
  then show ?case using Cons.prems(1) by (simp add: unit_roundtrip a)
qed simp

section \<open>Encoded documents are valid\<close>

lemma seq_simps [simp]: "seq (Inr u) y = y" "seq (Inl e) y = Inl e"
  by (simp_all add: seq_def)

lemma for_each_ok: "(\<And>x. x \<in> set xs \<Longrightarrow> f x = Inr ()) \<Longrightarrow> for_each f xs = Inr ()"
  by (induction xs) auto

lemma require_type_ok: "map_of d k = Some v \<Longrightarrow> has_type t v \<Longrightarrow> require_type d k t p = Inr ()"
  by (simp add: require_type_def)

lemma field_hit: "map_of d k = Some v \<Longrightarrow> field d k = v"
  by (simp add: field_def)

lemma require_enum_ok:
  "map_of d k = Some (PStr s) \<Longrightarrow> s \<in> set vals \<Longrightarrow> require_enum d k vals p = Inr ()"
  by (simp add: require_enum_def require_type_def field_def)

lemma require_nullable_ok:
  "map_of d k = Some (opt_str x) \<Longrightarrow> (\<And>s. x = Some s \<Longrightarrow> \<not> blank s) \<Longrightarrow> require_nullable_string d k p = Inr ()"
  by (cases x) (simp_all add: require_nullable_string_def opt_str_def)

lemma inj_PStr: "inj PStr"
  by (rule injI) simp

lemma require_array_ok:
  "map_of d k = Some (PStrs xs) \<Longrightarrow> distinct xs \<Longrightarrow> (\<And>s. s \<in> set xs \<Longrightarrow> \<not> blank s)
   \<Longrightarrow> require_string_array d k p = Inr ()"
  by (auto simp: require_string_array_def require_type_def field_def PStrs_def list_all_iff
      length_remdups_eq_distinct distinct_map inj_on_def card_image distinct_card)

lemma require_sorted_ok:
  "map_of d k = Some (sorted_strs S) \<Longrightarrow> finite S \<Longrightarrow> (\<And>s. s \<in> S \<Longrightarrow> \<not> blank s)
   \<Longrightarrow> require_string_array d k p = Inr ()"
  by (rule require_array_ok [of d k "sorted_list_of_set S"]) (simp_all add: sorted_strs_def)

lemma effect_value_not_blank: "\<not> blank (effect_value e)"
  by (cases e) (simp_all add: blank_def py_strip_def py_isspace_def)

lemma effect_types_finite: "finite (E :: effect_type set)"
  by (rule finite_subset [OF _ finite_set [of effects]]) (auto intro: effect.members_all)

lemma contract_nonblank:
  assumes "built_contract c"
  shows "key_field (idempotency c) = Some s \<Longrightarrow> \<not> blank s"
    and "compensation_action (side_effects c) = Some s \<Longrightarrow> \<not> blank s"
    and "sec_tenant_id (security c) = Some s \<Longrightarrow> \<not> blank s"
    and "s \<in> allowed_regions (placement c) \<union> allowed_devices (placement c) \<union> allowed_runtimes (placement c)
         \<union> required_capabilities (placement c) \<union> set (preferred_regions (placement c)) \<union> set (preferred_devices (placement c))
         \<Longrightarrow> \<not> blank s"
    and "s \<in> required_permissions (security c) \<union> security_labels (security c) \<union> allowed_residencies (security c)
         \<union> accepted_trust_zones (security c) \<Longrightarrow> \<not> blank s"
    and "distinct (preferred_regions (placement c))" and "distinct (preferred_devices (placement c))"
  using assms unfolding built_contract_def is_ok_iff
  by (auto simp: IdempotencyContract_accepts_iff SideEffectContract_accepts_iff effects_governed_def
      PlacementContract_accepts_iff SecurityContract_post_init_def split: option.splits)

lemma governance_valid:
  assumes "built_contract c"
  shows "validate_governance_contract (dict_of (contract_doc c)) p = Inr ()"
proof -
  note nb = contract_nonblank [OF assms]
  have fin: "finite (allowed_regions (placement c))" "finite (allowed_devices (placement c))"
    "finite (allowed_runtimes (placement c))" "finite (required_capabilities (placement c))"
    "finite (required_permissions (security c))" "finite (security_labels (security c))"
    "finite (allowed_residencies (security c))" "finite (accepted_trust_zones (security c))"
    using assms by (auto simp: built_contract_def)
  let ?d = "dict_of (contract_doc c)"
  let ?i = "dict_of (idempotency_doc (idempotency c))" and ?e = "dict_of (side_effects_doc (side_effects c))"
  let ?q = "dict_of (placement_doc (placement c))" and ?s = "dict_of (security_doc (security c))"
  have f: "field ?d ''idempotency'' = idempotency_doc (idempotency c)" "field ?d ''side_effects'' = side_effects_doc (side_effects c)"
    "field ?d ''placement'' = placement_doc (placement c)" "field ?d ''security'' = security_doc (security c)"
    by (simp_all add: contract_doc_def field_def)
  have top: "for_each (\<lambda>k. require_type ?d k TObject p) [''idempotency'', ''side_effects'', ''placement'', ''security''] = Inr ()"
    by (simp add: contract_doc_def require_type_def idempotency_doc_def side_effects_doc_def placement_doc_def security_doc_def)
  have idem: "require_enum ?i ''mode'' (map mode_value modes) ip = Inr ()" "require_enum ?i ''scope'' (map scope_value scopes) ip = Inr ()"
    "require_nullable_string ?i ''key_field'' ip = Inr ()" "require_type ?i ''payload_hash_required'' TBoolean ip = Inr ()" for ip
    using require_nullable_ok [of ?i "''key_field''" "key_field (idempotency c)" ip] nb(1)
    by (simp_all add: idempotency_doc_def require_type_def require_enum_def field_def)
  have eff: "require_enum ?e ''classification'' (map effect_class_value effect_classes) ep = Inr ()"
    "require_string_array ?e ''effect_types'' ep = Inr ()"
    "require_nullable_string ?e ''compensation_action'' ep = Inr ()"
    "require_enum ?e ''minimum_isolation'' (map isolation_value isolations) ep = Inr ()" for ep
    using require_nullable_ok [of ?e "''compensation_action''" "compensation_action (side_effects c)" ep] nb(2)
      require_sorted_ok [of ?e "''effect_types''" "effect_value ` effect_types (side_effects c)" ep]
      effect_types_finite effect_value_not_blank
    by (force simp: side_effects_doc_def require_type_def require_enum_def field_def)+
  have types: "list_all (\<lambda>v. pstr_val v \<in> effect_value ` set effects) (list_of (field ?e ''effect_types''))"
    by (auto simp: side_effects_doc_def field_def sorted_strs_def PStrs_def list_all_iff effect_types_finite)
  have pla: "for_each (\<lambda>k. require_string_array ?q k pp)
      [''allowed_regions'', ''allowed_devices'', ''allowed_runtimes'', ''required_capabilities'',
       ''preferred_regions'', ''preferred_devices''] = Inr ()"
    "require_type ?q ''requires_local_inputs'' TBoolean pp = Inr ()" for pp
    using require_sorted_ok [of ?q _ _ pp] require_array_ok [of ?q _ _ pp] fin nb(4,6,7)
    by (simp_all add: placement_doc_def require_type_def)
  have sec: "require_nullable_string ?s ''tenant_id'' sp = Inr ()"
    "for_each (\<lambda>k. require_string_array ?s k sp)
      [''required_permissions'', ''security_labels'', ''allowed_residencies'', ''accepted_trust_zones''] = Inr ()"
    "require_enum ?s ''output_classification'' (map data_class_value data_classes) sp = Inr ()"
    "require_enum ?s ''maximum_input_classification'' (map data_class_value data_classes) sp = Inr ()"
    "require_type ?s ''trust_zone'' TString sp = Inr ()"
    "require_type ?s ''confidential_compute_required'' TBoolean sp = Inr ()" for sp
    using require_sorted_ok [of ?s _ _ sp] require_nullable_ok [of ?s "''tenant_id''" _ sp] fin nb(3,5)
    by (simp_all add: security_doc_def require_type_def require_enum_def field_def)
  show ?thesis
    unfolding validate_governance_contract_def top f Let_def
    by (simp add: idem eff types pla sec del: for_each.simps(2))
      (simp add: idem eff types pla sec)
qed

definition current_version :: schema_version where
  "current_version = \<lparr>sv_major = 1, sv_minor = 3, sv_patch = 0\<rparr>"

lemma current_version_parsed: "parse_version (PStr schema_version_const) = Inr current_version"
  by code_simp

lemma current_version_schema: "typed_schema (Some current_version)" "governed_schema (Some current_version)"
  by code_simp+

lemma header_valid: "validate_schema_header (schema_header @ d) = Inr (Some current_version)"
proof -
  have p: "parse_version (the (map_of (schema_header @ d) ''schema_version'')) = Inr current_version"
    using current_version_parsed by (simp add: schema_header_def)
  show ?thesis
    unfolding validate_schema_header_def p
    by (simp add: has_key_def header_fields_def schema_header_def supported_versions_def)
qed

lemma port_valid: "validate_port_document base (n, port_doc p) = Inr ()"
  by (simp add: validate_port_document_def port_doc_def require_type_def field_def)

lemma unit_valid:
  assumes "built_unit u"
  shows "validate_unit_document (Some current_version) (uid_value (unit_id u), unit_doc u) = Inr ()"
proof -
  let ?d = "dict_of (unit_doc u)" and ?c = "dict_of (contract_doc (contract u))"
  have c: "map_of ?d ''contract'' = Some (contract_doc (contract u))" by (simp add: unit_doc_def)
  have ports: "map_of ?c ''ports'' = Some (PList (map port_doc (ports (contract u))))" by (simp add: contract_doc_def)
  have "for_each (validate_port_document cp) (enumerate 0 (map port_doc (ports (contract u)))) = Inr ()" for cp
    by (rule for_each_ok) (auto simp: in_set_enumerate_eq port_valid)
  moreover have "validate_governance_contract ?c cp = Inr ()" for cp
    using assms by (simp add: built_unit_def governance_valid)
  moreover have "has_type TObject (contract_doc (contract u))" "has_type TObject (unit_doc u)"
    by (simp_all add: contract_doc_def unit_doc_def)
  moreover have "require_type ?d ''unit_id'' TString cp = Inr ()" "require_type ?d ''name'' TString cp = Inr ()"
    "require_type ?d ''structure'' TString cp = Inr ()" "require_type ?d ''visibility'' TString cp = Inr ()"
    "require_type ?d ''lifecycle'' TString cp = Inr ()" "pstr_val (field ?d ''unit_id'') = uid_value (unit_id u)" for cp
    by (simp_all add: unit_doc_def require_type_def field_def)
  ultimately show ?thesis
    by (simp add: validate_unit_document_def current_version_schema Let_def field_hit [OF c] field_hit [OF ports]
        require_type_ok [OF c] require_type_ok [OF ports])
qed

lemma edge_valid: "validate_edge_document (Some current_version) (n, edge_doc e) = Inr ()"
  by (cases "source_port e"; cases "target_port e")
    (simp_all add: validate_edge_document_def edge_doc_def require_type_def require_port_field_def opt_str_def
      current_version_schema)

lemma units_sorted:
  assumes "graph_ok g"
  shows "map (\<lambda>k. (k, the (map_of (units g) k))) (sort (dict_keys (units g))) = sort_key fst (units g)"
proof -
  let ?xs = "sort_key fst (units g)"
  have "sort (dict_keys (units g)) = map fst ?xs"
    by (rule properties_for_sort) simp_all
  moreover have "(fst x, the (map_of (units g) (fst x))) = x" if "x \<in> set ?xs" for x
    using graph_ok_keys [OF assms] that by (cases x) simp
  ultimately show ?thesis by (simp only: map_map) (rule map_idI, simp)
qed

definition canonical :: "structural_graph \<Rightarrow> structural_graph" where
  "canonical g = g\<lparr>units := sort_key fst (units g), edges := sort_key edge_key (edges g)\<rparr>"

lemma unit_docs:
  assumes "graph_ok g"
  shows "map (\<lambda>k. (k, unit_doc (the (map_of (units g) k)))) (sort (dict_keys (units g)))
    = map (\<lambda>(k, u). (k, unit_doc u)) (sort_key fst (units g))"
  unfolding units_sorted [OF assms, symmetric] by simp

lemma to_doc_valid:
  assumes "built_graph_obj g"
  shows "validate_ir_document (to_doc g) = Inr ()"
proof -
  from assms have ok: "graph_ok g" and gid: "gid_value (graph_id g) \<noteq> []"
    and us: "\<And>k u. (k, u) \<in> set (units g) \<Longrightarrow> built_unit u"
    by (auto simp: built_graph_obj_def normalized_def list_all_iff)
  let ?d = "dict_of (to_doc g)" and ?us = "map (\<lambda>(k, u). (k, unit_doc u)) (sort_key fst (units g))"
  have h: "validate_schema_header ?d = Inr (Some current_version)"
    by (simp add: to_doc_def header_valid)
  have fs: "map_of ?d ''graph_id'' = Some (PStr (gid_value (graph_id g)))" "map_of ?d ''version'' = Some (version_doc (version g))"
    "map_of ?d ''units'' = Some (PDict ?us)" "map_of ?d ''edges'' = Some (PList (map edge_doc (sort_key edge_key (edges g))))"
    "map_of ?d ''metadata'' = Some (PDict (graph_metadata g))"
    by (simp_all add: to_doc_def schema_header_def unit_docs [OF ok])
  have "for_each (validate_unit_document (Some current_version)) ?us = Inr ()"
    by (rule for_each_ok) (use us unit_valid graph_ok_keyed [OF ok] in force)
  moreover have "for_each (validate_edge_document (Some current_version)) (enumerate 0 (map edge_doc (sort_key edge_key (edges g)))) = Inr ()"
    by (rule for_each_ok) (auto simp: in_set_enumerate_eq edge_valid)
  moreover have "validate_version_field (dict_of (version_doc (version g))) k = Inr ()"
    if "k \<in> {''major'', ''minor'', ''patch'', ''sequence''}" for k
    using that by (auto simp: validate_version_field_def version_doc_def)
  moreover have "has_type TObject (version_doc (version g))" "has_type TObject (to_doc g)"
    by (simp_all add: version_doc_def to_doc_def)
  ultimately show ?thesis
    using gid by (simp add: validate_ir_document_def h fs fs [THEN field_hit] require_type_def)
qed

lemma from_validated_to_doc:
  assumes "built_graph_obj g"
  shows "from_validated (dict_of (to_doc g)) = Some (canonical g)"
proof -
  from assms have ok: "graph_ok g" and gid: "normalized (gid_value (graph_id g))"
    and us: "\<And>k u. (k, u) \<in> set (units g) \<Longrightarrow> built_unit u"
    and es: "\<And>e. e \<in> set (edges g) \<Longrightarrow> normalized (src e) \<and> normalized (tgt e)"
    by (auto simp: built_graph_obj_def list_all_iff)
  let ?xs = "sort_key fst (units g)"
  have vi: "validate_identity (gid_value (graph_id g)) ''GraphID'' = Inr ()"
    using gid by (simp add: validate_identity_def normalized_def)
  have keys: "map (uid_value \<circ> unit_id) (map snd ?xs) = map fst ?xs"
    using graph_ok_keyed [OF ok] by auto
  have dist: "distinct (map fst ?xs)"
    using graph_ok_keys [OF ok] by (metis distinct_map distinct_sort set_sort)
  have addu: "add_units g0 (map snd (map (\<lambda>(k, u). (k, unit_doc u)) ?xs)) = Some (g0\<lparr>units := ?xs\<rparr>)"
    if "units g0 = []" for g0
  proof -
    have "add_units g0 (map unit_doc (map snd ?xs))
        = Some (g0\<lparr>units := units g0 @ map (\<lambda>u. (uid_value (unit_id u), u)) (map snd ?xs)\<rparr>)"
    proof (rule add_units_fresh)
      show "\<forall>u\<in>set (map snd ?xs). built_unit u" using us by auto
      show "distinct (map (uid_value \<circ> unit_id) (map snd ?xs))" unfolding keys by (rule dist)
    qed (simp add: that)
    moreover have "map snd (map (\<lambda>(k, u). (k, unit_doc u)) ?xs) = map unit_doc (map snd ?xs)" by auto
    moreover have "map (\<lambda>u. (uid_value (unit_id u), u)) (map snd ?xs) = ?xs"
      using graph_ok_keyed [OF ok] by (auto intro!: map_idI)
    ultimately show ?thesis using that by (simp only: append_Nil)
  qed
  have edgs: "traverse edge_from (map edge_doc (sort_key edge_key (edges g))) = Some (sort_key edge_key (edges g))"
    by (rule traverse_map) (use es edge_roundtrip in auto)
  show ?thesis
    by (simp add: from_validated_def to_doc_def schema_header_def at_key_def at_default_def vi unit_docs [OF ok]
        addu [simplified] edgs canonical_def)
qed

lemma roundtrip_canonical: "built_graph_obj g \<Longrightarrow> from_doc (to_doc g) = Inr (canonical g)"
  by (simp add: from_doc_def to_doc_valid from_validated_to_doc)

lemma to_doc_canonical:
  assumes "graph_ok g"
  shows "to_doc (canonical g) = to_doc g"
proof -
  have "graph_ok (canonical g) = graph_ok g" by (rule graph_ok_perm) (simp add: canonical_def)
  with assms have ok: "graph_ok (canonical g)" by simp
  have "sort_key fst (sort_key fst (units g)) = sort_key fst (units g)"
    and "sort_key edge_key (sort_key edge_key (edges g)) = sort_key edge_key (edges g)"
    by (simp_all add: sort_key_id_if_sorted)
  then show ?thesis
    unfolding to_doc_def unit_docs [OF ok] unit_docs [OF assms] by (simp add: canonical_def)
qed

lemma demo_graph_built: "built_graph_obj demo_graph"
proof -
  have "graph_ok demo_graph" by (rule demo_graph_ok)
  moreover have "normalized ''g'' \<and> normalized ''a'' \<and> normalized ''b''" by code_simp
  moreover have "built_contract UnitContract_default"
  proof -
    have "is_ok (IdempotencyContract_post_init IdempotencyContract_default)"
      "is_ok (SideEffectContract_post_init SideEffectContract_default)"
      "is_ok (PlacementContract_post_init PlacementContract_default)"
      "is_ok (SecurityContract_post_init SecurityContract_default)" by code_simp+
    then show ?thesis
      by (simp add: built_contract_def UnitContract_default_def PlacementContract_default_def SecurityContract_default_def)
  qed
  moreover have "finite (allowed_mutations MutationContract_default)"
    by (simp add: MutationContract_default_def)
  ultimately show ?thesis
    by (simp add: built_graph_obj_def built_unit_def demo_defs)
qed

text \<open>
  C8: Serialising a graph and reading the document back succeeds: the document passes the
  schema validation, and the graph that is read has the same identifier, version, metadata,
  units and edges (in canonical order). Writing it again gives the same document.
\<close>

theorem serialization_roundtrip:
  assumes "built_graph_obj g"
  shows "\<exists>h. from_doc (to_doc g) = Inr h \<and> graph_id h = graph_id g \<and> version h = version g
    \<and> graph_metadata h = graph_metadata g \<and> mset (units h) = mset (units g) \<and> mset (edges h) = mset (edges g)
    \<and> to_doc h = to_doc g"
  using roundtrip_canonical [OF assms] to_doc_canonical [of g] assms
  by (intro exI [of _ "canonical g"]) (simp add: canonical_def built_graph_obj_def)

theorem serialization_roundtrip_witness:
  "\<exists>h. from_doc (to_doc demo_graph) = Inr h \<and> mset (units h) = mset (units demo_graph)"
  using serialization_roundtrip [OF demo_graph_built] by blast

end
