(* ===== verification/Replay.thy ===== *)
theory Replay
  imports Transaction_Proofs Serialization
begin

text \<open>
  Structural replay (\<open>replay/structural_replay.py\<close>): the committed batches of operations are run
  again, one transaction each, on a copy of the initial graph. The text of a document
  (\<open>json.dumps\<close> with sorted keys) and SHA-256 are the parameters \<open>dumps\<close> and \<open>sha\<close>; the
  identifiers the manager draws are the sequence \<open>tids\<close>.
\<close>

datatype reproducibility_grade =
  R0_NONE | R1_MANIFEST_ONLY | R2_DETERMINISTIC_CORE | R3_RECORDED_EXTERNALS | R4_ENVIRONMENT_REPLAY

record replay_result =
  rr_success :: bool
  rr_graph :: structural_graph
  rr_grade :: reproducibility_grade
  rr_canonical_hash :: string
  rr_failed_index :: "nat option"
  rr_failure_reason :: "tx_error option"

record replay_env =
  re_tx :: tx_env
  re_tids :: "nat \<Rightarrow> transaction_id"
  re_dumps :: "pyval \<Rightarrow> string"
  re_sha :: "string \<Rightarrow> string"

definition to_json :: "(pyval \<Rightarrow> string) \<Rightarrow> structural_graph \<Rightarrow> string" where
  "to_json dumps g = dumps (to_doc g)"

definition canonical_graph_hash :: "replay_env \<Rightarrow> structural_graph \<Rightarrow> string" where
  "canonical_graph_hash env g = re_sha env (to_json (re_dumps env) g)"

text \<open>The loop of \<open>replay_with_evidence\<close> from the batch with the given index on.\<close>

fun replay_loop :: "replay_env \<Rightarrow> tx_log \<Rightarrow> nat \<Rightarrow> structural_graph \<Rightarrow> ir_operation list list \<Rightarrow> replay_result" where
  "replay_loop env pl index g [] =
     \<lparr>rr_success = True, rr_graph = g, rr_grade = R2_DETERMINISTIC_CORE, rr_canonical_hash = canonical_graph_hash env g,
      rr_failed_index = None, rr_failure_reason = None\<rparr>"
| "replay_loop env pl index g (ops # opss) =
     (let r = execute_transaction (re_tx env) pl (re_tids env index) g ops (Some (version g)) in
      if tx_success r then replay_loop env (tx_plog r) (Suc index) (tx_graph r) opss
      else \<lparr>rr_success = False, rr_graph = tx_graph r, rr_grade = R2_DETERMINISTIC_CORE,
            rr_canonical_hash = canonical_graph_hash env (tx_graph r),
            rr_failed_index = Some index, rr_failure_reason = error_message (tx_ctx r)\<rparr>)"

definition replay_with_evidence :: "replay_env \<Rightarrow> tx_log \<Rightarrow> structural_graph \<Rightarrow> ir_operation list list \<Rightarrow> replay_result" where
  "replay_with_evidence env pl g opss = replay_loop env pl 0 g opss"

definition replay :: "replay_env \<Rightarrow> tx_log \<Rightarrow> structural_graph \<Rightarrow> ir_operation list list \<Rightarrow> bool \<times> structural_graph" where
  "replay env pl g opss = (let r = replay_with_evidence env pl g opss in (rr_success r, rr_graph r))"

definition verify_replay ::
  "replay_env \<Rightarrow> tx_log \<Rightarrow> structural_graph \<Rightarrow> ir_operation list list \<Rightarrow> structural_graph \<Rightarrow> bool" where
  "verify_replay env pl g opss expected =
     (let (ok, h) = replay env pl g opss in
      ok \<and> to_json (re_dumps env) h = to_json (re_dumps env) expected)"

section \<open>Replay against the abstract transaction\<close>

fun commit_all :: "structural_graph \<Rightarrow> ir_operation list list \<Rightarrow> structural_graph option" where
  "commit_all g [] = Some g"
| "commit_all g (ops # opss) = (case abstract_transaction g ops of None \<Rightarrow> None | Some h \<Rightarrow> commit_all h opss)"

lemma replay_step:
  "tx_success (execute_transaction env pl tid g ops (Some (version g))) \<longleftrightarrow> abstract_transaction g ops \<noteq> None"
  "tx_graph (execute_transaction env pl tid g ops (Some (version g))) =
     (case abstract_transaction g ops of None \<Rightarrow> g | Some h \<Rightarrow> h)"
  using execute_transaction_refines [of env pl tid g ops "Some (version g)"] by (simp_all add: Let_def)

lemma replay_loop_success:
  "commit_all g opss = Some h \<Longrightarrow>
     rr_success (replay_loop env pl i g opss) \<and> rr_graph (replay_loop env pl i g opss) = h
     \<and> rr_failed_index (replay_loop env pl i g opss) = None"
  by (induction opss arbitrary: g pl i) (auto simp: Let_def replay_step split: option.splits)

lemma replay_loop_failure:
  "commit_all g opss = None \<Longrightarrow>
     \<exists>n h. n < length opss \<and> commit_all g (take n opss) = Some h \<and> abstract_transaction h (opss ! n) = None
       \<and> \<not> rr_success (replay_loop env pl i g opss) \<and> rr_graph (replay_loop env pl i g opss) = h
       \<and> rr_failed_index (replay_loop env pl i g opss) = Some (i + n)"
proof (induction opss arbitrary: g pl i)
  case (Cons ops opss)
  show ?case
  proof (cases "abstract_transaction g ops")
    case None
    then show ?thesis by (intro exI [of _ 0] exI [of _ g]) (simp add: Let_def replay_step)
  next
    case (Some h)
    let ?r = "execute_transaction (re_tx env) pl (re_tids env i) g ops (Some (version g))"
    from Some Cons.prems have "commit_all h opss = None" by simp
    from Cons.IH [OF this, of "tx_plog ?r" "Suc i"] obtain n k where
      n: "n < length opss" "commit_all h (take n opss) = Some k" "abstract_transaction k (opss ! n) = None"
      "\<not> rr_success (replay_loop env (tx_plog ?r) (Suc i) h opss)" "rr_graph (replay_loop env (tx_plog ?r) (Suc i) h opss) = k"
      "rr_failed_index (replay_loop env (tx_plog ?r) (Suc i) h opss) = Some (Suc i + n)" by blast
    have "replay_loop env pl i g (ops # opss) = replay_loop env (tx_plog ?r) (Suc i) h opss"
      using Some by (simp add: Let_def replay_step)
    with n Some show ?thesis by (intro exI [of _ "Suc n"] exI [of _ k]) simp
  qed
qed simp

text \<open>The batches of a history that were committed.\<close>

definition committed_batches :: "bool list \<Rightarrow> tx_call list \<Rightarrow> ir_operation list list" where
  "committed_batches bs cs = map (\<lambda>(_, _, ops, _). ops) (filter fst (zip bs cs))"

lemma committed_batches_Cons [simp]:
  "committed_batches (b # bs) ((tid, ops, base) # cs) = (if b then ops # committed_batches bs cs else committed_batches bs cs)"
  by (simp add: committed_batches_def)

lemma history_commits: "tx_run env pl g cs = (bs, g', pl') \<Longrightarrow> commit_all g (committed_batches bs cs) = Some g'"
proof (induction cs arbitrary: pl g bs)
  case (Cons c cs)
  obtain tid ops base where c: "c = (tid, ops, base)" by (cases c)
  let ?r = "execute_transaction env pl tid g ops base"
  from Cons.prems obtain bs1 where run: "tx_run env (tx_plog ?r) (tx_graph ?r) cs = (bs1, g', pl')" and bs: "bs = tx_success ?r # bs1"
    by (auto simp: c Let_def split: prod.splits)
  note IH = Cons.IH [OF run]
  show ?case
  proof (cases "tx_success ?r")
    case True
    then have "abstract_transaction g ops = Some (tx_graph ?r)" using execute_graph [of env pl tid g ops base] by auto
    with IH True show ?thesis by (simp add: c bs)
  next
    case False
    then have "tx_graph ?r = g" using execute_graph(1) [of env pl tid g ops base] by simp
    with IH False show ?thesis by (simp add: c bs)
  qed
qed (simp add: committed_batches_def)

section \<open>Properties\<close>

definition demo_replay_env :: replay_env where
  "demo_replay_env = \<lparr>re_tx = demo_env, re_tids = (\<lambda>_. TransactionID ''r''), re_dumps = (\<lambda>_. []), re_sha = id\<rparr>"

text \<open>
  C7: Replay reconstructs history: take any sequence of transactions on a graph, committed or
  refused, and replay its committed batches on the initial graph with other identifiers, clock
  and log. The replay succeeds, ends in the same graph with the same version, and the
  verification against that graph succeeds.
\<close>

theorem replay_reproduces_history:
  assumes "tx_run env pl g cs = (bs, g', pl')"
  shows "rr_success (replay_with_evidence renv rpl g (committed_batches bs cs))
    \<and> rr_graph (replay_with_evidence renv rpl g (committed_batches bs cs)) = g'
    \<and> rr_canonical_hash (replay_with_evidence renv rpl g (committed_batches bs cs)) = canonical_graph_hash renv g'
    \<and> verify_replay renv rpl g (committed_batches bs cs) g'"
proof -
  note c = history_commits [OF assms]
  have "rr_canonical_hash (replay_loop renv rpl i g opss) = canonical_graph_hash renv (rr_graph (replay_loop renv rpl i g opss))"
    for i opss by (induction opss arbitrary: rpl i g) (simp_all add: Let_def)
  then show ?thesis
    using replay_loop_success [OF c, of renv rpl 0]
    by (simp add: replay_with_evidence_def verify_replay_def replay_def Let_def)
qed

theorem replay_reproduces_history_witness:
  "verify_replay demo_replay_env None demo_graph
     (committed_batches (fst (tx_run demo_env None demo_graph demo_calls)) demo_calls)
     (fst (snd (tx_run demo_env None demo_graph demo_calls)))"
proof -
  obtain bs g' pl' where r: "tx_run demo_env None demo_graph demo_calls = (bs, g', pl')" by (metis prod.collapse)
  from replay_reproduces_history [OF r] show ?thesis by (simp add: r)
qed

text \<open>
  A replay that fails reports the first batch that cannot be committed and keeps the graph
  that the batches before it produced.
\<close>

theorem failed_replay_reports_first_batch:
  assumes "\<not> rr_success (replay_with_evidence env pl g opss)"
  shows "\<exists>n h. rr_failed_index (replay_with_evidence env pl g opss) = Some n \<and> n < length opss
    \<and> commit_all g (take n opss) = Some h \<and> abstract_transaction h (opss ! n) = None
    \<and> rr_graph (replay_with_evidence env pl g opss) = h"
proof -
  have "commit_all g opss = None"
  proof (rule ccontr)
    assume "commit_all g opss \<noteq> None"
    with replay_loop_success assms show False by (auto simp: replay_with_evidence_def)
  qed
  from replay_loop_failure [OF this, of env pl 0] show ?thesis by (auto simp: replay_with_evidence_def)
qed

theorem failed_replay_reports_first_batch_witness:
  "rr_failed_index (replay_with_evidence demo_replay_env None demo_graph [[demo_add ''a'']]) = Some 0"
proof -
  have "abstract_transaction demo_graph [demo_add ''a''] = None"
    unfolding abstract_transaction_def validate_graph_iff [symmetric] by code_simp
  then have "\<not> rr_success (replay_with_evidence demo_replay_env None demo_graph [[demo_add ''a'']])"
    by (simp add: replay_with_evidence_def Let_def replay_step)
  from failed_replay_reports_first_batch [OF this] show ?thesis by auto
qed

text \<open>
  The canonical hash depends on the content of a graph only: two graphs with the same
  identifier, version, metadata, units and edges have the same canonical hash whatever the
  order of insertion, provided no two edges agree on the sort key.
\<close>

theorem canonical_hash_insertion_order:
  assumes "graph_ok g" and "mset (units g) = mset (units h)" and "mset (edges g) = mset (edges h)"
    and "inj_on edge_key (set (edges g))"
    and "graph_id g = graph_id h" and "version g = version h" and "graph_metadata g = graph_metadata h"
  shows "canonical_graph_hash env g = canonical_graph_hash env h"
proof -
  have ok: "graph_ok h" using assms(1) graph_ok_perm [OF assms(2)] by simp
  have "inj_on fst (set (units g))" using graph_ok_keys [OF assms(1)] by (simp add: distinct_map)
  then have "sort_key fst (units g) = sort_key fst (units h)" by (rule sort_key_mset_cong [OF assms(2)])
  moreover have "sort_key edge_key (edges g) = sort_key edge_key (edges h)" by (rule sort_key_mset_cong [OF assms(3,4)])
  ultimately have "to_doc g = to_doc h"
    unfolding to_doc_def unit_docs [OF assms(1)] unit_docs [OF ok] using assms(5-7) by simp
  then show ?thesis by (simp add: canonical_graph_hash_def to_json_def)
qed

theorem canonical_hash_insertion_order_witness:
  "canonical_graph_hash demo_replay_env demo_graph
   = canonical_graph_hash demo_replay_env (demo_graph\<lparr>units := rev (units demo_graph)\<rparr>)"
  by (rule canonical_hash_insertion_order [OF demo_graph_ok]) (simp_all add: demo_graph_def)

end
