(* ===== verification/Working_Memory.thy ===== *)
theory Working_Memory
  imports DNC_Prelude
begin

text \<open>
  The values the runtime works on (\<open>runtime/types.py\<close>), the working memory and the history log
  (\<open>state/working_memory.py\<close>). A slot of a buffer holds one of the two sentinels or a value of
  the modules, whose type is a parameter.
\<close>

section \<open>Runtime types\<close>

record module_instance_id =
  inst_type_id :: string
  inst_uuid :: string

record module_type_id =
  type_name :: string
  contract_hash :: string

datatype 'v slot = UNBOUND | PENDING | Val 'v

record 'v buffer =
  buf_input :: "'v slot"
  buf_output :: "'v slot"
  buf_metadata :: "(string, pyval) dict"

definition unbound_input :: "'v buffer" where
  "unbound_input = \<lparr>buf_input = UNBOUND, buf_output = UNBOUND, buf_metadata = []\<rparr>"

definition with_input :: "'v slot \<Rightarrow> 'v buffer" where
  "with_input v = \<lparr>buf_input = v, buf_output = UNBOUND, buf_metadata = []\<rparr>"

definition completed_buffer :: "'v slot \<Rightarrow> 'v slot \<Rightarrow> (string, pyval) dict option \<Rightarrow> 'v buffer" where
  "completed_buffer i r m =
     \<lparr>buf_input = i, buf_output = r, buf_metadata = (case m of None \<Rightarrow> [] | Some d \<Rightarrow> d)\<rparr>"

text \<open>\<open>repr(instance_id)\<close>: the type and the first eight characters of the identifier.\<close>

definition show_instance :: "module_instance_id \<Rightarrow> string" where
  "show_instance i = ''ModuleInstanceID('' @ inst_type_id i @ '', '' @ take 8 (inst_uuid i) @ '')''"

section \<open>Working memory\<close>

type_synonym 'v working_memory = "(module_instance_id, 'v buffer) dict"

definition wm_getitem :: "'v working_memory \<Rightarrow> module_instance_id \<Rightarrow> 'v buffer res" where
  "wm_getitem wm i = (case map_of wm i of
      None \<Rightarrow> Inl (KeyError (show_instance i @ '' not in working memory''))
    | Some b \<Rightarrow> Inr b)"

definition wm_setitem :: "'v working_memory \<Rightarrow> module_instance_id \<Rightarrow> 'v buffer \<Rightarrow> 'v working_memory" where
  "wm_setitem wm i b = dict_set i b wm"

definition wm_contains :: "'v working_memory \<Rightarrow> module_instance_id \<Rightarrow> bool" where
  "wm_contains wm i \<longleftrightarrow> i \<in> set (dict_keys wm)"

definition wm_register :: "'v working_memory \<Rightarrow> module_instance_id \<Rightarrow> 'v working_memory res" where
  "wm_register wm i =
     require (\<not> wm_contains wm i)
       (ValueError (''ModuleInstanceID '' @ show_instance i @ '' already registered in working memory''))
     (Inr (dict_set i unbound_input wm))"

definition is_bound :: "'v working_memory \<Rightarrow> module_instance_id \<Rightarrow> bool" where
  "is_bound wm i = (case map_of wm i of None \<Rightarrow> False | Some b \<Rightarrow> buf_input b \<noteq> UNBOUND)"

definition is_complete :: "'v working_memory \<Rightarrow> module_instance_id \<Rightarrow> bool" where
  "is_complete wm i =
     (case map_of wm i of None \<Rightarrow> False | Some b \<Rightarrow> buf_output b \<noteq> UNBOUND \<and> buf_output b \<noteq> PENDING)"

definition get_output :: "'v working_memory \<Rightarrow> module_instance_id \<Rightarrow> 'v res" where
  "get_output wm i = (case wm_getitem wm i of
      Inl e \<Rightarrow> Inl e
    | Inr b \<Rightarrow> (case buf_output b of
          UNBOUND \<Rightarrow> Inl (ValueError (''ModuleInstanceID '' @ show_instance i @ '' output is UNBOUND''))
        | PENDING \<Rightarrow> Inl (ValueError (''ModuleInstanceID '' @ show_instance i @ '' output is PENDING''))
        | Val v \<Rightarrow> Inr v))"

lemma get_output_ok_iff: "is_ok (get_output wm i) \<longleftrightarrow> is_complete wm i"
  by (auto simp: get_output_def wm_getitem_def is_complete_def split: option.splits slot.splits)

lemma get_output_Inr_iff: "get_output wm i = Inr v \<longleftrightarrow> (\<exists>b. map_of wm i = Some b \<and> buf_output b = Val v)"
  by (auto simp: get_output_def wm_getitem_def split: option.splits slot.splits)

lemma is_complete_setitem:
  "is_complete (wm_setitem wm i b) j =
     (if j = i then buf_output b \<noteq> UNBOUND \<and> buf_output b \<noteq> PENDING else is_complete wm j)"
  by (simp add: is_complete_def wm_setitem_def)

lemma is_complete_contains: "is_complete wm i \<Longrightarrow> wm_contains wm i"
  by (auto simp: is_complete_def wm_contains_def split: option.splits dest: map_of_Some_keys)

section \<open>The history log\<close>

record 'x history_entry =
  h_index :: nat
  h_timestamp :: nat
  mutation_type :: string
  target_module :: module_instance_id
  before_value :: 'x
  after_value :: 'x
  trigger_ref :: "string option"

record 'x history_log =
  h_entries :: "'x history_entry list"
  index_counter :: nat

definition new_history :: "'x history_log" where
  "new_history = \<lparr>h_entries = [], index_counter = 0\<rparr>"

definition history_append ::
  "'x history_log \<Rightarrow> string \<Rightarrow> module_instance_id \<Rightarrow> 'x \<Rightarrow> 'x \<Rightarrow> string option \<Rightarrow> nat \<times> 'x history_log" where
  "history_append h mt tm bv av ref =
     (index_counter h,
      h\<lparr>h_entries := h_entries h @ [\<lparr>h_index = index_counter h, h_timestamp = 0, mutation_type = mt,
           target_module = tm, before_value = bv, after_value = av, trigger_ref = ref\<rparr>],
        index_counter := index_counter h + 1\<rparr>)"

definition history_truncate :: "'x history_log \<Rightarrow> 'x history_log" where
  "history_truncate h = h\<lparr>h_entries := [], index_counter := 0\<rparr>"

text \<open>\<open>HistoryLog.copy\<close> and \<open>WorkingMemory.copy\<close> give an object with the same contents.\<close>

definition history_copy :: "'x history_log \<Rightarrow> 'x history_log" where
  "history_copy h = new_history\<lparr>h_entries := h_entries h, index_counter := index_counter h\<rparr>"

definition wm_copy :: "'v working_memory \<Rightarrow> 'v working_memory" where
  "wm_copy wm = wm"

text \<open>The indices of the entries are their positions.\<close>

definition history_inv :: "'x history_log \<Rightarrow> bool" where
  "history_inv h \<longleftrightarrow> map h_index (h_entries h) = [0..<length (h_entries h)] \<and> index_counter h = length (h_entries h)"

datatype 'x history_call =
    HAppend string module_instance_id 'x 'x "string option"
  | HTruncate
  | HCopy

fun history_step :: "'x history_log \<Rightarrow> 'x history_call \<Rightarrow> 'x history_log" where
  "history_step h (HAppend mt tm bv av ref) = snd (history_append h mt tm bv av ref)"
| "history_step h HTruncate = history_truncate h"
| "history_step h HCopy = history_copy h"

lemma history_step_inv: "history_inv h \<Longrightarrow> history_inv (history_step h c)"
  by (cases c) (auto simp: history_inv_def history_append_def history_truncate_def history_copy_def new_history_def)

interpretation history: step_machine history_step history_inv "\<lambda>_ _. True"
  by unfold_locales (auto intro: history_step_inv)

section \<open>Properties\<close>

text \<open>
  In a history log that was used in any way (appends, truncations after checkpoints,
  copies), every entry carries its own position as its index, and the index that the next
  append returns is the number of entries.
\<close>

theorem history_indices_are_positions:
  "map h_index (h_entries (foldl history_step new_history cs))
     = [0..<length (h_entries (foldl history_step new_history cs))]
   \<and> fst (history_append (foldl history_step new_history cs) mt tm bv av ref)
     = length (h_entries (foldl history_step new_history cs))"
proof -
  have "history_inv (new_history :: 'a history_log)" by (simp add: history_inv_def new_history_def)
  from history.run_inv [OF this, of cs] show ?thesis
    by (simp add: history_inv_def history_append_def)
qed

end
