(* ===== verification/Scheduler.thy ===== *)
theory Scheduler
  imports Kahn Working_Memory
begin

text \<open>
  The scheduler (\<open>scheduler/scheduler.py\<close>): it keeps the execution graph as adjacency,
  reverse adjacency and degrees, refuses cycles, and says which module instances can run on a
  working memory. Errors leave the scheduler's fields as the code leaves them, so the
  operations return the scheduler in every case. The order in which the inputs of a module are
  gathered is the order of the memory addresses of the identifiers, a parameter here.
\<close>

section \<open>The scheduler\<close>

type_synonym mid = module_instance_id

record scheduler =
  s_graph :: "(mid, mid list) dict"
  s_reverse :: "(mid, mid list) dict"
  s_in_degree :: "(mid, int) dict"
  dispatch_order :: "mid list option"

definition new_scheduler :: scheduler where
  "new_scheduler = \<lparr>s_graph = [], s_reverse = [], s_in_degree = [], dispatch_order = None\<rparr>"

definition connect :: "mid \<Rightarrow> mid \<Rightarrow> scheduler \<Rightarrow> scheduler" where
  "connect u d s =
     s\<lparr>s_graph := dict_set u (adj_get (s_graph s) u @ [d]) (s_graph s),
       s_reverse := dict_set d (adj_get (s_reverse s) d @ [u]) (s_reverse s),
       s_in_degree := dict_set d (deg (s_in_degree s) d + 1) (s_in_degree s)\<rparr>"

fun add_edges :: "(mid \<times> mid) list \<Rightarrow> scheduler \<Rightarrow> exc option \<times> scheduler" where
  "add_edges [] s = (None, s)"
| "add_edges ((u, d) # es) s =
     (if u \<notin> set (dict_keys (s_graph s)) \<or> d \<notin> set (dict_keys (s_graph s))
      then (Some (ValueError (''Edge references unknown node: '' @ show_instance u @ '' -> '' @ show_instance d)), s)
      else if d \<notin> set (adj_get (s_graph s) u) then add_edges es (connect u d s)
      else add_edges es s)"

definition has_cycle :: "scheduler \<Rightarrow> bool" where
  "has_cycle s =
     (if s_in_degree s = [] then False
      else kahn_loop (\<lambda>_ n. n + 1) (adj_get (s_graph s)) (s_in_degree s) (zero_nodes (s_in_degree s)) 0
             \<noteq> length (s_in_degree s))"

definition cycle_error :: exc where
  "cycle_error = DAGCycle ''Edge list creates a cycle in the execution graph. INV-2 violation: G must be a DAG.''"

definition set_graph :: "mid list \<Rightarrow> (mid \<times> mid) list \<Rightarrow> scheduler \<Rightarrow> exc option \<times> scheduler" where
  "set_graph nodes es s =
     (let s0 = s\<lparr>s_graph := dict_const [] nodes, s_reverse := dict_const [] nodes,
                s_in_degree := dict_const 0 nodes\<rparr>
      in case add_edges es s0 of
           (Some e, s1) \<Rightarrow> (Some e, s1)
         | (None, s1) \<Rightarrow>
             if has_cycle s1
             then (Some cycle_error, s1\<lparr>s_graph := [], s_reverse := [], s_in_degree := []\<rparr>)
             else (None, s1))"

definition get_dispatch_order :: "scheduler \<Rightarrow> mid list res \<times> scheduler" where
  "get_dispatch_order s =
     (case dispatch_order s of
        Some xs \<Rightarrow> (Inr xs, s)
      | None \<Rightarrow>
          (let xs = kahn_order (adj_get (s_graph s)) (s_in_degree s) (zero_nodes (s_in_degree s)) in
           if length xs \<noteq> length (s_in_degree s)
           then (Inl (DAGCycle ''Cycle detected during topological sort''), s)
           else (Inr xs, s\<lparr>dispatch_order := Some xs\<rparr>)))"

definition are_preconditions_met :: "scheduler \<Rightarrow> mid \<Rightarrow> 'v working_memory \<Rightarrow> bool" where
  "are_preconditions_met s n wm =
     list_all (\<lambda>u. case map_of wm u of
         None \<Rightarrow> False
       | Some b \<Rightarrow> \<not> (buf_output b = UNBOUND \<or> buf_output b = PENDING)) (adj_get (s_reverse s) n)"

definition get_runnable :: "scheduler \<Rightarrow> 'v working_memory \<Rightarrow> mid list res \<times> scheduler" where
  "get_runnable s wm =
     (case get_dispatch_order s of
        (Inl e, s') \<Rightarrow> (Inl e, s')
      | (Inr xs, s') \<Rightarrow> (Inr (filter (\<lambda>n. \<not> is_complete wm n \<and> are_preconditions_met s n wm) xs), s'))"

text \<open>The argument of a module: the single input, or the list of inputs.\<close>

datatype 'v module_arg = One 'v | Many "'v list"

fun gather :: "'v working_memory \<Rightarrow> mid list \<Rightarrow> 'v list res" where
  "gather wm [] = Inr []"
| "gather wm (u # us) =
     (case get_output wm u of
        Inl e \<Rightarrow> Inl e
      | Inr v \<Rightarrow> (case gather wm us of Inl e \<Rightarrow> Inl e | Inr vs \<Rightarrow> Inr (v # vs)))"

definition dispatch ::
  "(mid \<Rightarrow> nat) \<Rightarrow> scheduler \<Rightarrow> 'v working_memory \<Rightarrow> mid \<Rightarrow> ('v module_arg \<Rightarrow> 'v slot res)
   \<Rightarrow> 'v slot res \<times> 'v working_memory" where
  "dispatch addr s wm i fn =
     (case gather wm (sort_key addr (adj_get (s_reverse s) i)) of
        Inl e \<Rightarrow> (Inl e, wm)
      | Inr inputs \<Rightarrow>
          (case map_of wm i of
             None \<Rightarrow> (Inl (ValueError (''Instance '' @ show_instance i @ '' not in working memory'')), wm)
           | Some b \<Rightarrow>
               (case fn (case inputs of [v] \<Rightarrow> One v | _ \<Rightarrow> Many inputs) of
                  Inl e \<Rightarrow> (Inl e, wm)
                | Inr r \<Rightarrow>
                    (Inr r, wm_setitem wm i \<lparr>buf_input = buf_input b, buf_output = r,
                                             buf_metadata = buf_metadata b\<rparr>))))"

definition scheduler_step :: "scheduler \<Rightarrow> 'v working_memory \<Rightarrow> mid list res \<times> scheduler" where
  "scheduler_step s wm = get_runnable s wm"

section \<open>The graph the scheduler has built\<close>

text \<open>
  \<open>built nodes ps s\<close>: the fields of the scheduler are those of the edges \<open>ps\<close> without
  repetitions.
\<close>

definition built :: "mid list \<Rightarrow> (mid \<times> mid) list \<Rightarrow> scheduler \<Rightarrow> bool" where
  "built nodes ps s \<longleftrightarrow>
     (s_graph s, s_in_degree s)
       = fold (\<lambda>(u, v). add_link u v) ps (dict_const [] nodes, dict_const 0 nodes)
     \<and> (\<forall>v. adj_get (s_reverse s) v = map fst (filter (\<lambda>p. snd p = v) ps))
     \<and> set ps \<subseteq> set nodes \<times> set nodes \<and> distinct ps"

lemma built_graph:
  assumes "built nodes ps s"
  shows "adj_get (s_graph s) u = out_list ps u"
    and "deg (s_in_degree s) v = int (count_list (map snd ps) v)"
    and "dict_keys (s_graph s) = dict_keys (dict_const (0 :: int) nodes)"
    and "dict_keys (s_in_degree s) = dict_keys (dict_const (0 :: int) nodes)"
proof -
  let ?ai = "(dict_const [] nodes, dict_const (0 :: int) nodes)"
  from assms have eq: "(s_graph s, s_in_degree s) = fold (\<lambda>(u, v). add_link u v) ps ?ai"
    and ps: "set ps \<subseteq> set nodes \<times> set nodes" by (auto simp: built_def)
  have g: "s_graph s = fst (fold (\<lambda>(u, v). add_link u v) ps ?ai)"
    "s_in_degree s = snd (fold (\<lambda>(u, v). add_link u v) ps ?ai)" by (metis eq fst_conv snd_conv)+
  show "adj_get (s_graph s) u = out_list ps u" unfolding g links_lookup by simp
  show "deg (s_in_degree s) v = int (count_list (map snd ps) v)" unfolding g links_lookup by simp
  have "set ps \<subseteq> set (dict_keys (fst ?ai)) \<times> set (dict_keys (snd ?ai))" using ps by simp
  note k = links_keys [OF this]
  note dict_const_keys_same [of "[] :: mid list" nodes "0 :: int"]
  with k show "dict_keys (s_graph s) = dict_keys (dict_const (0 :: int) nodes)" unfolding g by simp
  from k show "dict_keys (s_in_degree s) = dict_keys (dict_const (0 :: int) nodes)" unfolding g by simp
qed

lemma built_connect:
  assumes "built nodes ps s" and "u \<in> set nodes" and "d \<in> set nodes" and "d \<notin> set (adj_get (s_graph s) u)"
  shows "built nodes (ps @ [(u, d)]) (connect u d s)"
proof -
  from assms(4) have "(u, d) \<notin> set ps"
    by (simp add: built_graph(1) [OF assms(1)] set_out_list)
  moreover have "(s_graph (connect u d s), s_in_degree (connect u d s)) = add_link u d (s_graph s, s_in_degree s)"
    by (simp add: connect_def add_link_def)
  ultimately show ?thesis
    using assms by (auto simp: built_def connect_def adj_get_set)
qed

lemma built_mem_keys: "built nodes ps s \<Longrightarrow> x \<in> set (dict_keys (s_graph s)) \<longleftrightarrow> x \<in> set nodes"
  by (simp add: built_graph(3))

lemma add_edges_built:
  assumes "built nodes ps s"
  shows "(if set es \<subseteq> set nodes \<times> set nodes
      then \<exists>ps' s'. add_edges es s = (None, s') \<and> built nodes ps' s' \<and> set ps' = set ps \<union> set es
             \<and> dispatch_order s' = dispatch_order s
      else \<exists>m s'. add_edges es s = (Some (ValueError m), s'))"
  using assms
proof (induction es arbitrary: s ps)
  case Nil
  then show ?case by auto
next
  case (Cons e es)
  obtain u d where e: "e = (u, d)" by (cases e)
  note mem = built_mem_keys [OF Cons.prems]
  show ?case
  proof (cases "u \<in> set nodes \<and> d \<in> set nodes")
    case False
    then show ?thesis by (auto simp: e mem [simplified])
  next
    case ud: True
    show ?thesis
    proof (cases "d \<in> set (adj_get (s_graph s) u)")
      case True
      then have "(u, d) \<in> set ps" by (simp add: built_graph(1) [OF Cons.prems] set_out_list)
      with Cons.IH [OF Cons.prems] ud True show ?thesis
        by (auto simp: e mem [simplified] insert_absorb split: if_splits)
    next
      case False
      from ud have "built nodes (ps @ [(u, d)]) (connect u d s)"
        by (intro built_connect [OF Cons.prems _ _ False]) auto
      from Cons.IH [OF this] ud False show ?thesis
        by (auto simp: e mem [simplified] connect_def split: if_splits)
    qed
  qed
qed

section \<open>The scheduler as a client of Kahn's algorithm\<close>

definition sched_ok :: "scheduler \<Rightarrow> bool" where
  "sched_ok s \<longleftrightarrow> (\<exists>nodes ps. built nodes ps s)"

abbreviation sched_nodes :: "scheduler \<Rightarrow> mid list" where
  "sched_nodes s \<equiv> dict_keys (s_in_degree s)"

abbreviation sched_succs :: "scheduler \<Rightarrow> mid \<Rightarrow> mid list" where
  "sched_succs s \<equiv> adj_get (s_graph s)"

lemma built_nodes: "built nodes ps s \<Longrightarrow> set (sched_nodes s) = set nodes"
  by (simp add: built_graph(4))

interpretation sched: kahn_graph sched_nodes sched_succs s_in_degree sched_ok
proof
  fix s
  assume "sched_ok s"
  then obtain nodes ps where b: "built nodes ps s" by (auto simp: sched_ok_def)
  then have ps: "set ps \<subseteq> set nodes \<times> set nodes" by (simp add: built_def)
  show "distinct (sched_nodes s)" unfolding built_graph(4) [OF b] by (rule dict_const_keys(1))
  fix v
  have "fst ` set ps \<subseteq> set (sched_nodes s)" unfolding built_nodes [OF b] using ps by auto
  then show "deg (s_in_degree s) v = (\<Sum>u\<in>set (sched_nodes s). int (count_list (sched_succs s u) v))"
    by (simp add: built_graph(1,2) [OF b] count_out_lists)
  show "set (sched_succs s v) \<subseteq> set (sched_nodes s)"
    unfolding built_nodes [OF b] built_graph(1) [OF b] set_out_list using ps by auto
qed simp

lemma sched_queue: "sched_ok s \<Longrightarrow> distinct (zero_nodes (s_in_degree s))"
  using sched.nodes_distinct by (rule zero_nodes_distinct)

lemmas sched_order = sched.order_props [OF _ refl sched_queue]
lemmas sched_complete = sched.order_complete_iff [OF _ refl sched_queue]

lemma built_edge_rel:
  assumes "built nodes ps s"
  shows "edge_rel (sched_nodes s) (sched_succs s) = set ps"
proof -
  have "set ps \<subseteq> set nodes \<times> set nodes" using assms by (simp add: built_def)
  then show ?thesis
    unfolding edge_rel_def built_nodes [OF assms] built_graph(1) [OF assms] set_out_list by auto
qed

lemma has_cycle_iff:
  assumes "built nodes ps s"
  shows "has_cycle s \<longleftrightarrow> \<not> acyclic (set ps)"
proof -
  have ok: "sched_ok s" using assms by (auto simp: sched_ok_def)
  have "ps = []" if "s_in_degree s = []"
  proof -
    have "set nodes = {}" using built_nodes [OF assms] that by simp
    with assms show ?thesis by (auto simp: built_def)
  qed
  moreover have "has_cycle s \<longleftrightarrow> \<not> acyclic (set ps)" if "s_in_degree s \<noteq> []"
    using sched_complete(1) [OF ok ok] that built_edge_rel [OF assms]
    by (simp add: has_cycle_def kahn_loop_count del: One_nat_def)
  ultimately show ?thesis by (cases "s_in_degree s = []") (auto simp: has_cycle_def acyclic_def)
qed

lemma built_start:
  "built nodes [] (s\<lparr>s_graph := dict_const [] nodes, s_reverse := dict_const [] nodes, s_in_degree := dict_const 0 nodes\<rparr>)"
  by (simp add: built_def)

lemma set_graph_outcome:
  "(if \<not> set es \<subseteq> set nodes \<times> set nodes then \<exists>m. fst (set_graph nodes es s) = Some (ValueError m)
    else if \<not> acyclic (set es)
         then fst (set_graph nodes es s) = Some cycle_error \<and> s_in_degree (snd (set_graph nodes es s)) = []
         else fst (set_graph nodes es s) = None
              \<and> (\<exists>ps. built nodes ps (snd (set_graph nodes es s)) \<and> set ps = set es)
              \<and> dispatch_order (snd (set_graph nodes es s)) = dispatch_order s)"
proof (cases "set es \<subseteq> set nodes \<times> set nodes")
  case False
  with add_edges_built [OF built_start [of nodes s], of es] show ?thesis
    by (auto simp: set_graph_def Let_def)
next
  case True
  with add_edges_built [OF built_start [of nodes s], of es] obtain ps s' where
    a: "add_edges es (s\<lparr>s_graph := dict_const [] nodes, s_reverse := dict_const [] nodes, s_in_degree := dict_const 0 nodes\<rparr>) = (None, s')"
    and b: "built nodes ps s'" and ps: "set ps = set es" and d: "dispatch_order s' = dispatch_order s"
    by auto
  from has_cycle_iff [OF b] ps True b d show ?thesis
    by (auto simp: set_graph_def Let_def a)
qed

section \<open>Dispatch order and runnable modules\<close>

lemma preconditions_iff:
  "are_preconditions_met s n wm \<longleftrightarrow> (\<forall>u\<in>set (adj_get (s_reverse s) n). is_complete wm u)"
  by (auto simp: are_preconditions_met_def is_complete_def list_all_iff split: option.splits)

lemma built_reverse: "built nodes ps s \<Longrightarrow> set (adj_get (s_reverse s) v) = {u. (u, v) \<in> set ps}"
  by (force simp: built_def)

text \<open>A scheduler whose cache is empty or holds the order of its own graph.\<close>

definition cache_ok :: "scheduler \<Rightarrow> bool" where
  "cache_ok s \<longleftrightarrow> (case dispatch_order s of None \<Rightarrow> True
     | Some xs \<Rightarrow> xs = kahn_order (sched_succs s) (s_in_degree s) (zero_nodes (s_in_degree s)))"

lemma dispatch_order_result:
  assumes "built nodes ps s" and "acyclic (set ps)" and "cache_ok s"
  defines "xs \<equiv> kahn_order (sched_succs s) (s_in_degree s) (zero_nodes (s_in_degree s))"
  shows "get_dispatch_order s = (Inr xs, s\<lparr>dispatch_order := Some xs\<rparr>)"
    and "distinct xs" and "set xs = set nodes" and "topo nodes (out_list ps) xs"
proof -
  have ok: "sched_ok s" using assms(1) by (auto simp: sched_ok_def)
  note c = sched_complete [OF ok ok, folded xs_def, unfolded built_edge_rel [OF assms(1)]]
  from c(1) assms(2) have len: "length xs = length (s_in_degree s)" by simp
  then show "get_dispatch_order s = (Inr xs, s\<lparr>dispatch_order := Some xs\<rparr>)"
    using assms(3) by (auto simp: get_dispatch_order_def cache_ok_def xs_def Let_def split: option.splits)
  note o = sched_order [OF ok ok, folded xs_def]
  show "distinct xs" by (rule o(1))
  from c(2) len built_nodes [OF assms(1)] show "set xs = set nodes" by simp
  from o(3) show "topo nodes (out_list ps) xs"
    unfolding topo_def built_nodes [OF assms(1)] built_graph(1) [OF assms(1)] .
qed

lemma runnable_result:
  assumes "built nodes ps s" and "acyclic (set ps)" and "cache_ok s"
  obtains rs where "fst (get_runnable s wm) = Inr rs" and "distinct rs"
    and "set rs = {n \<in> set nodes. \<not> is_complete wm n \<and> (\<forall>u. (u, n) \<in> set ps \<longrightarrow> is_complete wm u)}"
proof -
  let ?P = "\<lambda>n. \<not> is_complete wm n \<and> are_preconditions_met s n wm"
  note d = dispatch_order_result [OF assms]
  show ?thesis
  proof (rule that)
    show "fst (get_runnable s wm) = Inr (filter ?P (kahn_order (sched_succs s) (s_in_degree s) (zero_nodes (s_in_degree s))))"
      by (simp add: get_runnable_def d(1))
  qed (use d in \<open>auto simp: preconditions_iff built_reverse [OF assms(1)]\<close>)
qed

text \<open>Progress: as long as some module is not complete, some module can run.\<close>

lemma runnable_progress:
  assumes "built nodes ps s" and "acyclic (set ps)" and "cache_ok s"
    and "n \<in> set nodes" and "\<not> is_complete wm n"
  obtains rs where "fst (get_runnable s wm) = Inr rs" and "rs \<noteq> []"
proof -
  have "wf (set ps)" using assms(2) by (simp add: finite_acyclic_wf)
  then obtain m where m: "m \<in> {n \<in> set nodes. \<not> is_complete wm n}"
    "\<And>u. (u, m) \<in> set ps \<Longrightarrow> u \<notin> {n \<in> set nodes. \<not> is_complete wm n}"
    using assms(4,5) by (metis (mono_tags, lifting) mem_Collect_eq wfE_min)
  have "set ps \<subseteq> set nodes \<times> set nodes" using assms(1) by (simp add: built_def)
  with m have "m \<in> set nodes \<and> \<not> is_complete wm m \<and> (\<forall>u. (u, m) \<in> set ps \<longrightarrow> is_complete wm u)" by auto
  moreover obtain rs where rs: "fst (get_runnable s wm) = Inr rs"
    "set rs = {n \<in> set nodes. \<not> is_complete wm n \<and> (\<forall>u. (u, n) \<in> set ps \<longrightarrow> is_complete wm u)}"
    by (rule runnable_result [OF assms(1-3)])
  ultimately have "m \<in> set rs" by blast
  with rs(1) show ?thesis by (intro that [of rs]) auto
qed

section \<open>Running to completion\<close>

lemma gather_ok: "\<forall>u\<in>set us. is_complete wm u \<Longrightarrow> \<exists>vs. gather wm us = Inr vs"
proof (induction us)
  case (Cons u us)
  then obtain v where "get_output wm u = Inr v" by (metis get_output_ok_iff is_ok_iff list.set_intros(1))
  with Cons show ?case by auto
qed simp

lemma dispatch_completes:
  assumes "\<forall>u\<in>set (adj_get (s_reverse s) i). is_complete wm u" and "wm_contains wm i"
    and "\<And>a. \<exists>v. fn a = Inr (Val v)"
  shows "is_complete (snd (dispatch addr s wm i fn)) j \<longleftrightarrow> j = i \<or> is_complete wm j"
    and "wm_contains (snd (dispatch addr s wm i fn)) j \<longleftrightarrow> wm_contains wm j"
proof -
  obtain vs where g: "gather wm (sort_key addr (adj_get (s_reverse s) i)) = Inr vs"
    using gather_ok [of "sort_key addr (adj_get (s_reverse s) i)" wm] assms(1) by auto
  obtain b where b: "map_of wm i = Some b"
    using assms(2) map_of_None_iff [of wm i] by (auto simp: wm_contains_def)
  obtain v where "fn (case vs of [v] \<Rightarrow> One v | _ \<Rightarrow> Many vs) = Inr (Val v)" using assms(3) by blast
  with g b have d: "snd (dispatch addr s wm i fn)
      = wm_setitem wm i \<lparr>buf_input = buf_input b, buf_output = Val v, buf_metadata = buf_metadata b\<rparr>"
    by (simp add: dispatch_def)
  show "is_complete (snd (dispatch addr s wm i fn)) j \<longleftrightarrow> j = i \<or> is_complete wm j"
    by (auto simp: d is_complete_setitem)
  show "wm_contains (snd (dispatch addr s wm i fn)) j \<longleftrightarrow> wm_contains wm j"
    using assms(2) by (auto simp: d wm_setitem_def wm_contains_def)
qed

text \<open>A client that asks for the runnable modules and dispatches each of them.\<close>

type_synonym 'v modules = "mid \<Rightarrow> 'v module_arg \<Rightarrow> 'v slot res"

definition dispatch_all ::
  "(mid \<Rightarrow> nat) \<Rightarrow> scheduler \<Rightarrow> 'v modules \<Rightarrow> mid list \<Rightarrow> 'v working_memory \<Rightarrow> 'v working_memory" where
  "dispatch_all addr s f rs wm = foldl (\<lambda>wm i. snd (dispatch addr s wm i (f i))) wm rs"

definition round :: "(mid \<Rightarrow> nat) \<Rightarrow> 'v modules \<Rightarrow> scheduler \<times> 'v working_memory \<Rightarrow> scheduler \<times> 'v working_memory" where
  "round addr f x = (case x of (s, wm) \<Rightarrow>
     (case scheduler_step s wm of
        (Inl _, s') \<Rightarrow> (s', wm)
      | (Inr rs, s') \<Rightarrow> (s', dispatch_all addr s' f rs wm)))"

definition total_modules :: "'v modules \<Rightarrow> bool" where
  "total_modules f \<longleftrightarrow> (\<forall>i a. \<exists>v. f i a = Inr (Val v))"

lemma dispatch_all_completes:
  assumes "total_modules f"
    and "\<forall>i\<in>set rs. wm_contains wm i \<and> (\<forall>u\<in>set (adj_get (s_reverse s) i). is_complete wm u)"
  shows "(\<forall>j. is_complete (dispatch_all addr s f rs wm) j \<longleftrightarrow> j \<in> set rs \<or> is_complete wm j)
    \<and> (\<forall>j. wm_contains (dispatch_all addr s f rs wm) j \<longleftrightarrow> wm_contains wm j)"
  using assms(2)
proof (induction rs arbitrary: wm)
  case Nil
  then show ?case by (simp add: dispatch_all_def)
next
  case (Cons i rs)
  let ?wm = "snd (dispatch addr s wm i (f i))"
  note d = dispatch_completes [of s i wm "f i" addr]
  have d1: "is_complete ?wm j \<longleftrightarrow> j = i \<or> is_complete wm j" and d2: "wm_contains ?wm j \<longleftrightarrow> wm_contains wm j" for j
    using d Cons.prems assms(1) by (auto simp: total_modules_def)
  have "(\<forall>j. is_complete (dispatch_all addr s f rs ?wm) j \<longleftrightarrow> j \<in> set rs \<or> is_complete ?wm j)
    \<and> (\<forall>j. wm_contains (dispatch_all addr s f rs ?wm) j \<longleftrightarrow> wm_contains ?wm j)"
    by (rule Cons.IH) (use Cons.prems d1 d2 in auto)
  then show ?case by (auto simp: dispatch_all_def d1 d2)
qed

text \<open>The modules that are not complete yet.\<close>

definition incomplete :: "mid list \<Rightarrow> 'v working_memory \<Rightarrow> mid set" where
  "incomplete nodes wm = {n \<in> set nodes. \<not> is_complete wm n}"

definition ready :: "mid list \<Rightarrow> (mid \<times> mid) list \<Rightarrow> scheduler \<times> 'v working_memory \<Rightarrow> bool" where
  "ready nodes ps x \<longleftrightarrow> built nodes ps (fst x) \<and> cache_ok (fst x) \<and> (\<forall>n\<in>set nodes. wm_contains (snd x) n)"

lemma round_step:
  assumes "total_modules f" and "acyclic (set ps)" and "ready nodes ps x"
  shows "ready nodes ps (round addr f x)
    \<and> (incomplete nodes (snd x) \<noteq> {} \<longrightarrow> incomplete nodes (snd (round addr f x)) \<subset> incomplete nodes (snd x))
    \<and> incomplete nodes (snd (round addr f x)) \<subseteq> incomplete nodes (snd x)"
proof -
  obtain s wm where x: "x = (s, wm)" by (cases x)
  from assms(3) have b: "built nodes ps s" and c: "cache_ok s" and w: "\<forall>n\<in>set nodes. wm_contains wm n"
    by (auto simp: ready_def x)
  obtain rs where rs: "fst (get_runnable s wm) = Inr rs"
    "set rs = {n \<in> set nodes. \<not> is_complete wm n \<and> (\<forall>u. (u, n) \<in> set ps \<longrightarrow> is_complete wm u)}"
    by (rule runnable_result [OF b assms(2) c])
  let ?s = "s\<lparr>dispatch_order := Some (kahn_order (sched_succs s) (s_in_degree s) (zero_nodes (s_in_degree s)))\<rparr>"
  have s': "get_runnable s wm = (Inr rs, ?s)"
    using rs(1) by (simp add: get_runnable_def dispatch_order_result(1) [OF b assms(2) c])
  have r: "round addr f (s, wm) = (?s, dispatch_all addr ?s f rs wm)" by (simp add: round_def scheduler_step_def s')
  have b': "built nodes ps ?s" "cache_ok ?s" using b by (simp_all add: built_def cache_ok_def)
  have "\<forall>i\<in>set rs. wm_contains wm i \<and> (\<forall>u\<in>set (adj_get (s_reverse ?s) i). is_complete wm u)"
    using w rs(2) built_reverse [OF b'(1)] by auto
  note d = dispatch_all_completes [OF assms(1) this, of addr]
  then have "incomplete nodes (dispatch_all addr ?s f rs wm) = incomplete nodes wm - set rs"
    by (auto simp: incomplete_def)
  moreover have "incomplete nodes wm \<inter> set rs \<noteq> {}" if "incomplete nodes wm \<noteq> {}"
  proof -
    from that obtain n where "n \<in> set nodes" "\<not> is_complete wm n" by (auto simp: incomplete_def)
    from runnable_progress [OF b assms(2) c this] rs(1) have "rs \<noteq> []" by (metis sum.inject(2))
    then have "hd rs \<in> set rs" by simp
    moreover from this have "hd rs \<in> incomplete nodes wm" unfolding rs(2) incomplete_def by blast
    ultimately show ?thesis by blast
  qed
  ultimately show ?thesis unfolding x r ready_def fst_conv snd_conv using b' d w by blast
qed

lemma rounds_complete:
  assumes "total_modules f" and "acyclic (set ps)"
  shows "ready nodes ps x \<Longrightarrow> card (incomplete nodes (snd x)) \<le> k
    \<Longrightarrow> incomplete nodes (snd ((round addr f ^^ k) x)) = {}"
proof (induction k arbitrary: x)
  case 0
  then show ?case by (simp add: incomplete_def)
next
  case (Suc k)
  note st = round_step [OF assms Suc.prems(1), of addr]
  have "finite (incomplete nodes (snd x))" by (simp add: incomplete_def)
  have "card (incomplete nodes (snd (round addr f x))) \<le> k"
  proof (cases "incomplete nodes (snd x) = {}")
    case True
    with st have "incomplete nodes (snd (round addr f x)) = {}" by blast
    then show ?thesis by simp
  next
    case False
    with st have "incomplete nodes (snd (round addr f x)) \<subset> incomplete nodes (snd x)" by blast
    from psubset_card_mono [OF \<open>finite (incomplete nodes (snd x))\<close> this] Suc.prems(2) show ?thesis by linarith
  qed
  with Suc.IH [of "round addr f x"] st show ?case by (simp add: funpow_swap1)
qed

lemma set_graph_built:
  assumes "set_graph nodes es s = (None, s')"
  obtains ps where "built nodes ps s'" and "set ps = set es" and "acyclic (set es)"
    and "set es \<subseteq> set nodes \<times> set nodes" and "dispatch_order s' = dispatch_order s"
  using set_graph_outcome [of es nodes s] assms by (auto split: if_splits)

lemma fresh_cache_ok: "dispatch_order s = None \<Longrightarrow> cache_ok s"
  by (simp add: cache_ok_def)

section \<open>Properties\<close>

definition demo_mid :: "string \<Rightarrow> mid" where
  "demo_mid n = \<lparr>inst_type_id = n, inst_uuid = n\<rparr>"

abbreviation demo_nodes :: "mid list" where
  "demo_nodes \<equiv> [demo_mid ''a'', demo_mid ''b'']"

abbreviation demo_links :: "(mid \<times> mid) list" where
  "demo_links \<equiv> [(demo_mid ''a'', demo_mid ''b'')]"

definition demo_sched :: scheduler where
  "demo_sched = snd (set_graph demo_nodes demo_links new_scheduler)"

lemma demo_sched_set: "set_graph demo_nodes demo_links new_scheduler = (None, demo_sched)"
proof -
  have "fst (set_graph demo_nodes demo_links new_scheduler) = None" by code_simp
  then show ?thesis by (simp add: demo_sched_def prod_eq_iff)
qed

text \<open>
  \<open>set_graph\<close> accepts an edge list exactly when all its nodes are known and it has no
  cycle, whatever the state of the scheduler; a cycle over known nodes raises DAGCycle and
  leaves the scheduler without a graph.
\<close>

theorem set_graph_decides_dag:
  "(fst (set_graph nodes es s) = None) = (set es \<subseteq> set nodes \<times> set nodes \<and> acyclic (set es))
   \<and> (fst (set_graph nodes es s) = Some cycle_error) = (set es \<subseteq> set nodes \<times> set nodes \<and> \<not> acyclic (set es))
   \<and> (set es \<subseteq> set nodes \<times> set nodes \<and> s_in_degree (snd (set_graph nodes es s)) \<noteq> [] \<longrightarrow> acyclic (set es))"
  using set_graph_outcome [of es nodes s] by (auto simp: cycle_error_def split: if_splits)

theorem set_graph_decides_dag_witness:
  "acyclic (set demo_links)"
proof -
  have "s_in_degree (snd (set_graph demo_nodes demo_links new_scheduler)) \<noteq> []" by code_simp
  with set_graph_decides_dag [of demo_nodes demo_links new_scheduler] show ?thesis by simp
qed

text \<open>
  The dispatch order of a scheduler whose graph was just set lists every node once, and
  every upstream module before its downstream modules.
\<close>

theorem dispatch_order_topological:
  assumes "set_graph nodes es s0 = (None, s)" and "dispatch_order s0 = None"
  shows "\<exists>xs. fst (get_dispatch_order s) = Inr xs \<and> distinct xs \<and> set xs = set nodes
    \<and> (\<forall>(u, v)\<in>set es. \<exists>as bs. xs = as @ v # bs \<and> u \<in> set as)"
proof -
  obtain ps where b: "built nodes ps s" and ps: "set ps = set es" and ac: "acyclic (set ps)"
    and sub: "set es \<subseteq> set nodes \<times> set nodes" and c: "cache_ok s"
    by (metis assms fresh_cache_ok set_graph_built)
  note d = dispatch_order_result [OF b ac c]
  let ?xs = "kahn_order (sched_succs s) (s_in_degree s) (zero_nodes (s_in_degree s))"
  have "\<exists>as bs. ?xs = as @ v # bs \<and> u \<in> set as" if "(u, v) \<in> set es" for u v
  proof -
    from that sub have uv: "u \<in> set nodes" "v \<in> set ?xs" by (auto simp: d(3))
    from uv(2) obtain as bs where xs: "?xs = as @ v # bs" by (meson split_list)
    have "v \<in> set (out_list ps u)" using that by (simp add: set_out_list ps)
    with d(4) xs uv(1) show ?thesis unfolding topo_def by blast
  qed
  with d show ?thesis by (intro exI [of _ ?xs]) auto
qed

theorem dispatch_order_topological_witness:
  "\<exists>xs. fst (get_dispatch_order demo_sched) = Inr xs \<and> distinct xs \<and> set xs = set demo_nodes
    \<and> (\<exists>as bs. xs = as @ demo_mid ''b'' # bs \<and> demo_mid ''a'' \<in> set as)"
  using dispatch_order_topological [OF demo_sched_set] by (simp add: new_scheduler_def)

text \<open>
  \<open>get_runnable\<close> returns exactly the modules that have no output yet and whose upstream
  modules all have one (neither UNBOUND nor PENDING), each once; and as long as some module
  has no output, it returns at least one.
\<close>

theorem runnable_exact_and_live:
  assumes "set_graph nodes es s0 = (None, s)" and "dispatch_order s0 = None"
  shows "\<exists>rs. fst (get_runnable s wm) = Inr rs \<and> distinct rs
    \<and> set rs = {n \<in> set nodes. \<not> is_complete wm n \<and> (\<forall>u. (u, n) \<in> set es \<longrightarrow> is_complete wm u)}
    \<and> (rs = [] \<longleftrightarrow> (\<forall>n\<in>set nodes. is_complete wm n))"
proof -
  obtain ps where b: "built nodes ps s" and ps: "set ps = set es" and ac: "acyclic (set ps)" and c: "cache_ok s"
    by (metis assms fresh_cache_ok set_graph_built)
  obtain rs where rs: "fst (get_runnable s wm) = Inr rs" "distinct rs"
    "set rs = {n \<in> set nodes. \<not> is_complete wm n \<and> (\<forall>u. (u, n) \<in> set ps \<longrightarrow> is_complete wm u)}"
    by (rule runnable_result [OF b ac c])
  have "rs \<noteq> []" if "n \<in> set nodes" "\<not> is_complete wm n" for n
    by (rule runnable_progress [OF b ac c that]) (use rs(1) in simp)
  moreover have "rs = []" if "\<forall>n\<in>set nodes. is_complete wm n"
    using rs(3) that by (metis (no_types, lifting) empty_Collect_eq set_empty)
  ultimately show ?thesis using rs by (intro exI [of _ rs]) (auto simp: ps)
qed

theorem runnable_exact_and_live_witness:
  "\<exists>rs. fst (get_runnable demo_sched ([] :: nat working_memory)) = Inr rs \<and> set rs = {demo_mid ''a''}"
  using runnable_exact_and_live [OF demo_sched_set, of "[] :: nat working_memory"]
  by (auto simp: new_scheduler_def is_complete_def demo_mid_def)

text \<open>
  C16: Scheduling terminates, for a scheduler that has not computed a dispatch order before its graph
  was set (one that has keeps the stale order, see below): if every module of the graph has a slot in
  the working memory and returns a value when it is called, then asking for the runnable modules
  and dispatching them completes every module after at most as many rounds as there are
  modules, whatever the address order of the inputs.
\<close>

theorem scheduling_completes:
  assumes "set_graph nodes es s0 = (None, s)" and "dispatch_order s0 = None"
    and "total_modules f" and "\<forall>n\<in>set nodes. wm_contains wm n"
  shows "\<forall>n\<in>set nodes. is_complete (snd ((round addr f ^^ length nodes) (s, wm))) n"
proof -
  obtain ps where b: "built nodes ps s" and ac: "acyclic (set ps)" and c: "cache_ok s"
    by (metis assms(1,2) fresh_cache_ok set_graph_built)
  then have "ready nodes ps (s, wm)" using assms(4) by (simp add: ready_def)
  moreover have "card (incomplete nodes wm) \<le> length nodes"
    by (rule le_trans [OF card_mono card_length]) (auto simp: incomplete_def)
  ultimately have "incomplete nodes (snd ((round addr f ^^ length nodes) (s, wm))) = {}"
    using rounds_complete [OF assms(3) ac] by simp
  then show ?thesis by (auto simp: incomplete_def)
qed

theorem scheduling_completes_witness:
  "is_complete (snd ((round (\<lambda>_. 0) (\<lambda>_ _. Inr (Val (7 :: nat))) ^^ length demo_nodes)
     (demo_sched, map (\<lambda>n. (n, unbound_input)) demo_nodes))) (hd demo_nodes)"
proof -
  have "dispatch_order new_scheduler = None" by (simp add: new_scheduler_def)
  moreover have "total_modules (\<lambda>_ _. Inr (Val (7 :: nat)))" by (simp add: total_modules_def)
  moreover have "\<forall>n\<in>set demo_nodes. wm_contains (map (\<lambda>n. (n, unbound_input)) demo_nodes) n"
    by (simp add: wm_contains_def)
  ultimately show ?thesis
    by (intro scheduling_completes [OF demo_sched_set, THEN bspec]) simp_all
qed

text \<open>
  The cached dispatch order survives \<open>set_graph\<close>: a scheduler that has computed an order
  once keeps returning it for every graph that is set later.
\<close>

theorem dispatch_order_cache_is_stale:
  assumes "dispatch_order s = Some xs" and "set_graph nodes es s = (None, s')"
  shows "get_dispatch_order s' = (Inr xs, s')"
proof -
  from assms(2) have "dispatch_order s' = dispatch_order s" by (rule set_graph_built)
  with assms(1) show ?thesis by (simp add: get_dispatch_order_def)
qed

theorem dispatch_order_cache_is_stale_witness:
  "fst (get_dispatch_order (snd (set_graph [demo_mid ''c''] [] (demo_sched\<lparr>dispatch_order := Some demo_nodes\<rparr>))))
   = Inr demo_nodes"
proof -
  let ?s = "demo_sched\<lparr>dispatch_order := Some demo_nodes\<rparr>"
  have "fst (set_graph [demo_mid ''c''] [] ?s) = None" by code_simp
  then have "set_graph [demo_mid ''c''] [] ?s = (None, snd (set_graph [demo_mid ''c''] [] ?s))"
    by (simp add: prod_eq_iff)
  from dispatch_order_cache_is_stale [OF _ this] show ?thesis by simp
qed

end
