(* ===== verification/Execution_State.thy ===== *)
theory Execution_State
  imports Complex_Main Scheduler
begin

text \<open>
  The execution state and its parts: checkpoints (\<open>state/checkpoint.py\<close>), the state with its
  snapshots (\<open>state/execution_state.py\<close>), the registry of module types (\<open>state/registry.py\<close>)
  and the runtime invariant checks (\<open>invariants/runtime_invariants.py\<close>). A snapshot is the
  dictionary that \<open>to_dict\<close> builds; an entry is \<open>None\<close> when the key is absent. Time stamps and
  random identifiers are arguments.
\<close>

section \<open>Checkpoints\<close>

datatype 's checkpoint = Checkpoint
  (ck_step: int) (ck_execution_id: string) (ck_timestamp: real) (ck_snapshot: 's)
  (ck_provenance_ref: string) (ck_valid: bool)

definition checkpoint_take :: "int \<Rightarrow> string \<Rightarrow> 's \<Rightarrow> string \<Rightarrow> real \<Rightarrow> 's checkpoint" where
  "checkpoint_take step eid snap ref now = Checkpoint step eid now snap ref False"

datatype 's checkpoint_record = CheckpointRecord (max_checkpoints: nat) (checkpoints: "'s checkpoint list")

definition new_checkpoint_record :: "'s checkpoint_record" where
  "new_checkpoint_record = CheckpointRecord 100 []"

definition cr_add :: "'s checkpoint_record \<Rightarrow> 's checkpoint \<Rightarrow> 's checkpoint_record res" where
  "cr_add cr ck =
     require (ck_valid ck)
       (InvalidCheckpoint (''Cannot add invalid checkpoint (step='' @ show_int (ck_step ck) @ '')''))
     (let cks = checkpoints cr @ [ck] in
      Inr (CheckpointRecord (max_checkpoints cr)
             (if length cks > max_checkpoints cr then tl cks else cks)))"

definition cr_latest :: "'s checkpoint_record \<Rightarrow> 's checkpoint option" where
  "cr_latest cr = (if checkpoints cr = [] then None else Some (last (checkpoints cr)))"

definition cr_get :: "'s checkpoint_record \<Rightarrow> int \<Rightarrow> 's checkpoint option" where
  "cr_get cr i = find (\<lambda>ck. ck_step ck = i) (rev (checkpoints cr))"

section \<open>The registry of module types\<close>

text \<open>
  Signatures are kept as their rendering; the compatibility form of \<open>register\<close>, which takes a
  name, builds its contract first.
\<close>

record module_contract =
  mc_type_id :: module_type_id
  mc_output_signature :: string
  mc_input_signature :: "(string, string) dict"
  mc_capabilities :: "string list"
  mc_cost_weight :: real
  mc_implementation :: "string option"

record module_registry =
  mr_contracts :: "(module_type_id, module_contract) dict"
  mr_type_id_index :: "(string, module_type_id) dict"

definition empty_module_registry :: module_registry where
  "empty_module_registry = \<lparr>mr_contracts = [], mr_type_id_index = []\<rparr>"

definition compat_contract :: "string \<Rightarrow> string option \<Rightarrow> module_contract" where
  "compat_contract name impl =
     \<lparr>mc_type_id = \<lparr>type_name = name, contract_hash = ''compat:'' @ name\<rparr>, mc_output_signature = ''object'',
      mc_input_signature = [], mc_capabilities = [], mc_cost_weight = 1, mc_implementation = impl\<rparr>"

definition show_type_id :: "module_type_id \<Rightarrow> string" where
  "show_type_id i = ''ModuleTypeID('' @ type_name i @ '', hash='' @ take 8 (contract_hash i) @ '')''"

definition mr_register :: "module_registry \<Rightarrow> module_contract \<Rightarrow> module_registry res" where
  "mr_register r c = (let i = mc_type_id c in
     require (i \<notin> set (dict_keys (mr_contracts r)))
       (ValueError (''ModuleTypeID '' @ show_type_id i
          @ '' already registered. INV-4 violation: one document per module type.''))
     (Inr (r\<lparr>mr_contracts := dict_set i c (mr_contracts r),
             mr_type_id_index := dict_set (type_name i) i (mr_type_id_index r)\<rparr>)))"

definition mr_get :: "module_registry \<Rightarrow> module_type_id \<Rightarrow> module_contract res" where
  "mr_get r i = (case map_of (mr_contracts r) i of
      None \<Rightarrow> Inl (KeyError (''ModuleTypeID '' @ show_type_id i @ '' not found in registry''))
    | Some c \<Rightarrow> Inr c)"

definition mr_get_by_name :: "module_registry \<Rightarrow> string \<Rightarrow> module_contract res" where
  "mr_get_by_name r n = (case map_of (mr_type_id_index r) n of
      None \<Rightarrow> Inl (KeyError (''Module name '' @ n @ '' not found in registry''))
    | Some i \<Rightarrow> (case map_of (mr_contracts r) i of None \<Rightarrow> Inl (KeyError (show_type_id i)) | Some c \<Rightarrow> Inr c))"

record type_snapshot =
  ts_name :: string
  ts_contract_hash :: string
  ts_input_signature :: "(string, string) dict"
  ts_output_signature :: string
  ts_capabilities :: "string list"
  ts_cost_weight :: real

definition mr_snapshot :: "module_registry \<Rightarrow> (string, type_snapshot) dict" where
  "mr_snapshot r = fold (\<lambda>(i, c) d. dict_set (type_name i)
     \<lparr>ts_name = type_name i, ts_contract_hash = contract_hash i, ts_input_signature = mc_input_signature c,
      ts_output_signature = mc_output_signature c, ts_capabilities = sort (remdups (mc_capabilities c)),
      ts_cost_weight = mc_cost_weight c\<rparr> d) (mr_contracts r) []"

section \<open>Snapshots and the execution state\<close>

datatype 'v snapshot = Snapshot
  (sn_W: "'v working_memory option option")
  (sn_M: "(string, type_snapshot) dict option option")
  (sn_C: "'v snapshot option checkpoint_record option option")
  (sn_H: "'v slot history_log option option")
  (sn_step_index: "int option")
  (sn_execution_id: "string option")
  (sn_rng_state: "int option")
  (sn_G: "scheduler option")
  (sn_budget: "real option")

type_synonym 'v ckpt_record = "'v snapshot option checkpoint_record"

text \<open>\<open>Checkpoint.validate\<close>: the checkpoint with its flag set, or the first failed condition.\<close>

definition require_component :: "string \<Rightarrow> 'x option option \<Rightarrow> 'a res \<Rightarrow> 'a res" where
  "require_component key c k =
     require (c \<noteq> None) (InvalidCheckpoint (''Checkpoint validation failed: '' @ key @ '' missing from es_snapshot''))
     (require (c \<noteq> Some None) (InvalidCheckpoint (''Checkpoint validation failed: '' @ key @ '' component is None'')) k)"

definition checkpoint_validate :: "'v snapshot option checkpoint \<Rightarrow> 'v snapshot option checkpoint res" where
  "checkpoint_validate ck =
     (case ck_snapshot ck of
        None \<Rightarrow> Inl (InvalidCheckpoint ''Checkpoint validation failed: es_snapshot is None'')
      | Some sn \<Rightarrow>
          require (0 \<le> ck_step ck)
            (InvalidCheckpoint (''Checkpoint validation failed: step_index '' @ show_int (ck_step ck)
               @ '' is not a valid integer''))
          (require_component ''W'' (sn_W sn)
          (require_component ''M'' (sn_M sn)
          (require_component ''C'' (sn_C sn)
          (require_component ''H'' (sn_H sn)
          (Inr (Checkpoint (ck_step ck) (ck_execution_id ck) (ck_timestamp ck) (ck_snapshot ck)
                  (ck_provenance_ref ck) True)))))))"

record 'v execution_state =
  es_step_index :: int
  es_execution_id :: string
  es_rng_state :: int
  es_W :: "'v working_memory option"
  es_M :: "(string, type_snapshot) dict option"
  es_C :: "'v ckpt_record option"
  es_H :: "'v slot history_log option"
  es_G :: "scheduler option"
  es_budget :: real

definition new_execution_state :: "string \<Rightarrow> 'v execution_state" where
  "new_execution_state eid =
     \<lparr>es_step_index = 0, es_execution_id = eid, es_rng_state = 0, es_W = Some [], es_M = Some [],
      es_C = Some new_checkpoint_record, es_H = Some new_history, es_G = None, es_budget = 1\<rparr>"

definition component_error :: "'v execution_state \<Rightarrow> string \<Rightarrow> nat \<Rightarrow> exc" where
  "component_error es name i =
     StateComponentViolation (''Execution state component '' @ name @ ''['' @ show_nat i
       @ ''] is None at step '' @ show_int (es_step_index es)
       @ ''. Execution MUST halt per state-management.md DEF-1.'')"

definition validate_components :: "'v execution_state \<Rightarrow> unit res" where
  "validate_components es =
     require (es_W es \<noteq> None) (component_error es ''W'' 0)
     (require (es_M es \<noteq> None) (component_error es ''M'' 1)
     (require (es_C es \<noteq> None) (component_error es ''C'' 2)
     (require (es_H es \<noteq> None) (component_error es ''H'' 3)
     (Inr ()))))"

definition pending_count :: "'v execution_state \<Rightarrow> nat" where
  "pending_count es =
     (case es_W es of
        None \<Rightarrow> 1
      | Some wm \<Rightarrow> if wm = [] then 1 else length (filter (\<lambda>i. \<not> is_complete wm i) (dict_keys wm)))"

definition advance_step :: "'v execution_state \<Rightarrow> int \<times> 'v execution_state" where
  "advance_step es = (es_step_index es + 1, es\<lparr>es_step_index := es_step_index es + 1\<rparr>)"

definition advance_rng :: "int \<Rightarrow> 'v execution_state \<Rightarrow> int \<times> 'v execution_state" where
  "advance_rng n es = (es_rng_state es + n, es\<lparr>es_rng_state := es_rng_state es + n\<rparr>)"

definition initialize_from_seed :: "int \<Rightarrow> 'v execution_state \<Rightarrow> 'v execution_state" where
  "initialize_from_seed seed es = es\<lparr>es_rng_state := seed\<rparr>"

definition get_rng_int :: "'v execution_state \<Rightarrow> int \<Rightarrow> int" where
  "get_rng_int es bound = (es_rng_state es * 1103515245 + 12345) mod 2 ^ 31 mod bound"

definition set_execution_id :: "string \<Rightarrow> 'v execution_state \<Rightarrow> 'v execution_state" where
  "set_execution_id eid es = es\<lparr>es_execution_id := eid\<rparr>"

definition to_dict :: "'v execution_state \<Rightarrow> 'v snapshot" where
  "to_dict es = Snapshot (Some (es_W es)) (Some (es_M es)) (Some (es_C es)) (Some (es_H es))
     (Some (es_step_index es)) (Some (es_execution_id es)) (Some (es_rng_state es)) (es_G es) None"

definition get_or :: "'a \<Rightarrow> 'a option \<Rightarrow> 'a" where
  "get_or d x = (case x of None \<Rightarrow> d | Some v \<Rightarrow> v)"

definition from_dict :: "string \<Rightarrow> 'v snapshot \<Rightarrow> 'v execution_state res" where
  "from_dict fresh_uuid sn =
     (let es = \<lparr>es_step_index = get_or 0 (sn_step_index sn),
                es_execution_id = get_or fresh_uuid (sn_execution_id sn),
                es_rng_state = get_or 0 (sn_rng_state sn),
                es_W = get_or (Some []) (sn_W sn), es_M = get_or (Some []) (sn_M sn),
                es_C = get_or (Some new_checkpoint_record) (sn_C sn),
                es_H = get_or (Some new_history) (sn_H sn),
                es_G = sn_G sn, es_budget = get_or 1 (sn_budget sn)\<rparr>
      in case validate_components es of Inl e \<Rightarrow> Inl e | Inr _ \<Rightarrow> Inr es)"

text \<open>
  \<open>ExecutionState.copy\<close>: an empty component counts as false in Python and is replaced by a
  new one.
\<close>

definition es_copy :: "'v execution_state \<Rightarrow> 'v execution_state" where
  "es_copy es =
     \<lparr>es_step_index = es_step_index es, es_execution_id = es_execution_id es,
      es_rng_state = es_rng_state es,
      es_W = Some (case es_W es of None \<Rightarrow> [] | Some wm \<Rightarrow> if wm = [] then [] else wm_copy wm),
      es_M = Some (case es_M es of None \<Rightarrow> [] | Some m \<Rightarrow> m),
      es_C = Some (CheckpointRecord 100 (case es_C es of None \<Rightarrow> [] | Some cr \<Rightarrow> checkpoints cr)),
      es_H = Some (case es_H es of None \<Rightarrow> new_history
                   | Some h \<Rightarrow> if h_entries h = [] then new_history else history_copy h),
      es_G = es_G es, es_budget = 1\<rparr>"

section \<open>Runtime invariants\<close>

definition check_state_components :: "'v execution_state \<Rightarrow> unit res" where
  "check_state_components es =
     require (es_W es \<noteq> None) (StateComponentViolation ''INV-1: execution state component W is None'')
     (require (es_M es \<noteq> None) (StateComponentViolation ''INV-1: execution state component M is None'')
     (require (es_C es \<noteq> None) (StateComponentViolation ''INV-1: execution state component C is None'')
     (require (es_H es \<noteq> None) (StateComponentViolation ''INV-1: execution state component H is None'')
     (Inr ()))))"

definition check_dag :: "scheduler option \<Rightarrow> unit res" where
  "check_dag g =
     (case g of
        None \<Rightarrow> Inr ()
      | Some s \<Rightarrow>
          require (s_in_degree s \<noteq> []) (InvariantViolation ''INV-2: execution graph has no nodes'')
          (require (\<not> has_cycle s)
            (InvariantViolation ''INV-2: execution graph contains a cycle. G must be a DAG.'')
          (Inr ())))"

definition check_checkpoint_record :: "'v ckpt_record option \<Rightarrow> unit res" where
  "check_checkpoint_record c =
     (case c of
        None \<Rightarrow> Inl (InvariantViolation ''INV-1: Checkpoint record C(t) is None. State-Component Violation.'')
      | Some cr \<Rightarrow> require (length (checkpoints cr) \<le> 100)
          (InvariantViolation ''INV-STATE-3: Checkpoint record length exceeds MAX_CHECKPOINTS=100'') (Inr ()))"

definition check_step_index :: "int \<Rightarrow> unit res" where
  "check_step_index i =
     require (0 \<le> i)
       (InvariantViolation (''INV-FM-3: step_index '' @ show_int i @ '' is negative. Must be >= 0.''))
     (Inr ())"

text \<open>
  The checks of single buffers and of the history log repeat that the components exist, which
  the first check has established.
\<close>

definition check_invariants :: "'v execution_state \<Rightarrow> unit res" where
  "check_invariants es =
     (case check_state_components es of Inl e \<Rightarrow> Inl e | Inr _ \<Rightarrow>
     (case check_dag (es_G es) of Inl e \<Rightarrow> Inl e | Inr _ \<Rightarrow>
     (case check_checkpoint_record (es_C es) of Inl e \<Rightarrow> Inl e | Inr _ \<Rightarrow>
      check_step_index (es_step_index es))))"

section \<open>Checkpoint records\<close>

text \<open>Adding checkpoints in sequence; a refused one leaves the record as it was.\<close>

definition cr_step :: "'s checkpoint_record \<Rightarrow> 's checkpoint \<Rightarrow> 's checkpoint_record" where
  "cr_step cr ck = (case cr_add cr ck of Inl _ \<Rightarrow> cr | Inr cr' \<Rightarrow> cr')"

definition keep_last :: "nat \<Rightarrow> 'a list \<Rightarrow> 'a list" where
  "keep_last n xs = drop (length xs - n) xs"

lemma keep_last_short: "length xs \<le> n \<Longrightarrow> keep_last n xs = xs"
  by (simp add: keep_last_def)

lemma length_keep_last: "length (keep_last n xs) = min n (length xs)"
  by (simp add: keep_last_def)

lemma keep_last_snoc:
  "keep_last n (xs @ [x]) = (let ys = keep_last n xs @ [x] in if length ys > n then tl ys else ys)"
proof (cases "length xs < n")
  case True
  then show ?thesis by (simp add: keep_last_def Let_def)
next
  case False
  have "keep_last n xs @ [x] = drop (length xs - n) (xs @ [x])" by (simp add: keep_last_def)
  then have "tl (keep_last n xs @ [x]) = drop (Suc 0) (drop (length xs - n) (xs @ [x]))"
    by (simp only: drop_Suc drop_0)
  also have "\<dots> = keep_last n (xs @ [x])"
    using False by (simp add: keep_last_def Suc_diff_le del: drop_append)
  finally show ?thesis using False by (simp add: Let_def length_keep_last)
qed

lemma cr_step_checkpoints:
  "max_checkpoints (cr_step cr ck) = max_checkpoints cr"
  "checkpoints (cr_step cr ck) =
     (if ck_valid ck then (let ys = checkpoints cr @ [ck] in if length ys > max_checkpoints cr then tl ys else ys)
      else checkpoints cr)"
  by (auto simp: cr_step_def cr_add_def require_def Let_def)

lemma cr_run_checkpoints:
  assumes "length (checkpoints cr) \<le> max_checkpoints cr"
  shows "max_checkpoints (foldl cr_step cr cks) = max_checkpoints cr
    \<and> checkpoints (foldl cr_step cr cks) = keep_last (max_checkpoints cr) (checkpoints cr @ filter ck_valid cks)"
proof (induction cks rule: rev_induct)
  case Nil
  from assms show ?case by (simp add: keep_last_short)
next
  case (snoc ck cks)
  then show ?case
    using keep_last_snoc [of "max_checkpoints cr" "checkpoints cr @ filter ck_valid cks" ck]
    by (simp add: cr_step_checkpoints)
qed

section \<open>Snapshots\<close>

definition components_present :: "'v execution_state \<Rightarrow> bool" where
  "components_present es \<longleftrightarrow> es_W es \<noteq> None \<and> es_M es \<noteq> None \<and> es_C es \<noteq> None \<and> es_H es \<noteq> None"

lemma validate_components_iff: "validate_components es = Inr u \<longleftrightarrow> components_present es"
  by (auto simp: validate_components_def components_present_def)

lemma from_to_dict:
  "from_dict fresh (to_dict es) =
     (case validate_components es of Inl e \<Rightarrow> Inl e | Inr _ \<Rightarrow> Inr (es\<lparr>es_budget := 1\<rparr>))"
proof -
  have "validate_components (es\<lparr>es_budget := 1\<rparr>) = validate_components es"
    by (simp add: validate_components_def component_error_def)
  moreover have "from_dict fresh (to_dict es) =
     (case validate_components (es\<lparr>es_budget := 1\<rparr>) of Inl e \<Rightarrow> Inl e | Inr _ \<Rightarrow> Inr (es\<lparr>es_budget := 1\<rparr>))"
    by (cases es) (simp add: from_dict_def to_dict_def get_or_def Let_def split: sum.split)
  ultimately show ?thesis by simp
qed

lemma es_copy_eq:
  assumes "components_present es" and "max_checkpoints (the (es_C es)) = 100" and "history_inv (the (es_H es))"
  shows "es_copy es = es\<lparr>es_budget := 1\<rparr>"
proof -
  obtain wm m cr h where c: "es_W es = Some wm" "es_M es = Some m" "es_C es = Some cr" "es_H es = Some h"
    using assms(1) by (auto simp: components_present_def)
  have "CheckpointRecord 100 (checkpoints cr) = cr"
    using assms(2) by (cases cr) (simp add: c)
  moreover have "(if h_entries h = [] then new_history else history_copy h) = h"
    using assms(3) by (cases h) (auto simp: c history_inv_def history_copy_def new_history_def)
  ultimately show ?thesis
    using c by (cases es) (auto simp: es_copy_def wm_copy_def)
qed

text \<open>A snapshot of a state with all its components is a valid checkpoint.\<close>

lemma checkpoint_of_state:
  assumes "components_present es" and "0 \<le> i"
  shows "checkpoint_validate (checkpoint_take i eid (Some (to_dict es)) ref now)
    = Inr (Checkpoint i eid now (Some (to_dict es)) ref True)"
  using assms
  by (auto simp: checkpoint_validate_def checkpoint_take_def require_component_def to_dict_def components_present_def)

section \<open>Registrations\<close>

text \<open>The name index points at registered types of that name.\<close>

definition registry_index_inv :: "module_registry \<Rightarrow> bool" where
  "registry_index_inv r \<longleftrightarrow>
     (\<forall>n i. map_of (mr_type_id_index r) n = Some i \<longrightarrow> type_name i = n \<and> i \<in> set (dict_keys (mr_contracts r)))
     \<and> (\<forall>i\<in>set (dict_keys (mr_contracts r)). type_name i \<in> set (dict_keys (mr_type_id_index r)))
     \<and> (\<forall>(i, c)\<in>set (mr_contracts r). mc_type_id c = i)"

definition mr_step :: "module_registry \<Rightarrow> module_contract \<Rightarrow> module_registry" where
  "mr_step r c = (case mr_register r c of Inl _ \<Rightarrow> r | Inr r' \<Rightarrow> r')"

lemma mr_register_ok:
  "mr_register r c = Inr r' \<longleftrightarrow> mc_type_id c \<notin> fst ` set (mr_contracts r)
     \<and> r' = r\<lparr>mr_contracts := mr_contracts r @ [(mc_type_id c, c)],
              mr_type_id_index := dict_set (type_name (mc_type_id c)) (mc_type_id c) (mr_type_id_index r)\<rparr>"
  by (auto simp: mr_register_def Let_def dict_set_new)

lemma mr_register_inv: "registry_index_inv r \<Longrightarrow> mr_register r c = Inr r' \<Longrightarrow> registry_index_inv r'"
  by (auto simp: registry_index_inv_def mr_register_ok)

lemma mr_register_keeps:
  "mr_register r c = Inr r' \<Longrightarrow> map_of (mr_contracts r) \<subseteq>\<^sub>m map_of (mr_contracts r')"
  by (auto simp: mr_register_def Let_def map_le_def dest: map_of_Some_keys)

interpretation types: step_machine mr_step registry_index_inv
  "\<lambda>r s. map_of (mr_contracts r) \<subseteq>\<^sub>m map_of (mr_contracts s)"
proof
  fix r c
  assume r: "registry_index_inv r"
  show "registry_index_inv (mr_step r c)"
    using r mr_register_inv by (auto simp: mr_step_def split: sum.splits)
  show "map_of (mr_contracts r) \<subseteq>\<^sub>m map_of (mr_contracts (mr_step r c))"
    using mr_register_keeps by (auto simp: mr_step_def split: sum.splits)
qed (auto intro: map_le_trans)

section \<open>Properties\<close>

text \<open>
  A checkpoint record that is filled by \<open>add\<close> holds the valid checkpoints only, in order,
  and of these the last hundred; the bound of the record is never exceeded.
\<close>

theorem checkpoint_record_window:
  "checkpoints (foldl cr_step new_checkpoint_record cks) = keep_last 100 (filter ck_valid cks)
   \<and> length (checkpoints (foldl cr_step new_checkpoint_record cks)) \<le> 100"
  using cr_run_checkpoints [of new_checkpoint_record cks]
  by (simp add: new_checkpoint_record_def length_keep_last)

text \<open>
  Restoring a snapshot gives back the state it was taken from, or the error that the first
  missing component raises; the remaining budget is not part of the snapshot and comes back as
  1.0.
\<close>

theorem snapshot_roundtrip:
  "from_dict fresh (to_dict es) =
     (case validate_components es of Inl e \<Rightarrow> Inl e | Inr _ \<Rightarrow> Inr (es\<lparr>es_budget := 1\<rparr>))"
  by (rule from_to_dict)

text \<open>
  The deterministic random integer is in the requested range, and below \<open>2^31\<close>.
\<close>

theorem rng_int_in_range:
  assumes "0 < bound"
  shows "0 \<le> get_rng_int es bound \<and> get_rng_int es bound < bound \<and> get_rng_int es bound < 2 ^ 31"
proof -
  let ?x = "(es_rng_state es * 1103515245 + 12345) mod 2 ^ 31"
  have "0 \<le> ?x" "?x < 2 ^ 31" by simp_all
  moreover from this(1) have "?x mod bound \<le> ?x" by (rule zmod_le_nonneg_dividend)
  ultimately show ?thesis using assms unfolding get_rng_int_def by (meson le_less_trans pos_mod_bound pos_mod_sign)
qed

theorem rng_int_in_range_witness:
  "0 \<le> get_rng_int (new_execution_state ''e'' :: nat execution_state) 6
   \<and> get_rng_int (new_execution_state ''e'' :: nat execution_state) 6 < 6"
  using rng_int_in_range [of 6 "new_execution_state ''e'' :: nat execution_state"] by simp

text \<open>
  A state whose components are present, whose graph was accepted by the scheduler and has a
  node, and whose checkpoint record was filled by \<open>add\<close>, passes all runtime invariant checks.
\<close>

theorem accepted_state_passes_invariants:
  assumes "components_present es" and "0 \<le> es_step_index es"
    and "es_C es = Some (foldl cr_step new_checkpoint_record cks)"
    and "set_graph nodes edgs s0 = (None, s)" and "nodes \<noteq> []" and "es_G es = Some s"
  shows "check_invariants es = Inr ()"
proof -
  obtain ps where b: "built nodes ps s" and ps: "set ps = set edgs" and ac: "acyclic (set edgs)"
    by (rule set_graph_built [OF assms(4)])
  from has_cycle_iff [OF b] ps ac have "\<not> has_cycle s" by simp
  moreover from built_nodes [OF b] assms(5) have "s_in_degree s \<noteq> []" by auto
  moreover have "length (checkpoints (foldl cr_step new_checkpoint_record cks)) \<le> 100" for cks :: "'a snapshot option checkpoint list"
    using cr_run_checkpoints [of new_checkpoint_record cks]
    by (simp add: new_checkpoint_record_def length_keep_last)
  ultimately show ?thesis
    using assms(1,2,3,6)
    by (simp add: check_invariants_def check_state_components_def check_dag_def check_checkpoint_record_def
        check_step_index_def components_present_def)
qed

theorem accepted_state_passes_invariants_witness:
  "check_invariants (new_execution_state ''e''\<lparr>es_G := Some demo_sched\<rparr> :: nat execution_state) = Inr ()"
  by (rule accepted_state_passes_invariants [OF _ _ _ demo_sched_set, where cks = "[]"])
    (simp_all add: components_present_def new_execution_state_def)

text \<open>
  One contract per module type: over every sequence of registrations, refused ones
  included, a contract once registered stays the one that lookup returns, registering its type
  again is refused, and every name in the index resolves to a registered type of that name.
\<close>

theorem module_registry_single_ownership:
  assumes "registry_index_inv r" and "mr_get r i = Inr c"
  shows "mr_get (foldl mr_step r cs) i = Inr c
    \<and> (\<forall>d. mc_type_id d = i \<longrightarrow> \<not> is_ok (mr_register (foldl mr_step r cs) d))
    \<and> (\<exists>d. mr_get_by_name (foldl mr_step r cs) (type_name i) = Inr d \<and> type_name (mc_type_id d) = type_name i)"
proof -
  let ?s = "foldl mr_step r cs"
  from assms(2) have "map_of (mr_contracts r) i = Some c" by (auto simp: mr_get_def split: option.splits)
  with types.run_ext [OF assms(1), of cs] have m: "map_of (mr_contracts ?s) i = Some c"
    by (auto simp: map_le_def dom_def)
  have inv: "registry_index_inv ?s" by (rule types.run_inv [OF assms(1)])
  from map_of_Some_keys [OF m] have k: "i \<in> fst ` set (mr_contracts ?s)" .
  with inv have "type_name i \<in> fst ` set (mr_type_id_index ?s)" by (auto simp: registry_index_inv_def)
  then obtain j where j: "map_of (mr_type_id_index ?s) (type_name i) = Some j"
    using map_of_None_iff [of "mr_type_id_index ?s" "type_name i"] by fastforce
  with inv have tj: "type_name j = type_name i" "j \<in> fst ` set (mr_contracts ?s)"
    by (auto simp: registry_index_inv_def)
  then obtain d where d: "map_of (mr_contracts ?s) j = Some d"
    using map_of_None_iff [of "mr_contracts ?s" j] by fastforce
  then have "mc_type_id d = j" using inv by (auto simp: registry_index_inv_def dest!: map_of_SomeD)
  with m k j d tj show ?thesis by (auto simp: mr_get_def mr_get_by_name_def mr_register_def Let_def)
qed

theorem module_registry_single_ownership_witness:
  "mr_get (foldl mr_step (mr_step empty_module_registry (compat_contract ''m'' None))
     [compat_contract ''n'' None, compat_contract ''m'' (Some ''x'')]) (mc_type_id (compat_contract ''m'' None))
   = Inr (compat_contract ''m'' None)"
proof -
  have e: "registry_index_inv empty_module_registry"
    by (simp add: registry_index_inv_def empty_module_registry_def)
  have "mr_get (mr_step empty_module_registry (compat_contract ''m'' None)) (mc_type_id (compat_contract ''m'' None))
      = Inr (compat_contract ''m'' None)"
    by (simp add: mr_step_def mr_register_def empty_module_registry_def mr_get_def Let_def)
  from module_registry_single_ownership [OF types.inv_step [OF e] this] show ?thesis by blast
qed

end
