(* ===== verification/Event_Repository.thy ===== *)
theory Event_Repository
  imports DNC_Prelude "HOL-Library.Sublist"
begin

text \<open>
  The event repository (\<open>persistence/repository.py\<close>, events and messages of
  \<open>persistence/contracts.py\<close>): event streams per tenant and aggregate under optimistic
  concurrency control, the transactional outbox, and the inbox that makes receipt idempotent.
  A method that raises may have changed the repository before it does (\<open>append\<close> inserts an
  empty stream), so the operations return the exception beside the new state.
\<close>

section \<open>Events, messages and the repository\<close>

record durable_event =
  ev_event_id :: string
  ev_tenant_id :: string
  ev_aggregate_id :: string
  ev_aggregate_version :: int
  ev_event_type :: string
  ev_payload :: "(string, pyval) dict"
  ev_timestamp_ns :: int

record outbox_message =
  om_message_id :: string
  om_tenant_id :: string
  om_topic :: string
  om_payload :: "(string, pyval) dict"
  om_idempotency_key :: string
  om_published :: bool

type_synonym scoped = "string \<times> string"

record event_repository =
  r_events :: "(scoped, durable_event list) dict"
  r_outbox :: "(scoped, outbox_message) dict"
  r_inbox :: "(scoped, string) dict"

definition new_repository :: event_repository where
  "new_repository = \<lparr>r_events = [], r_outbox = [], r_inbox = []\<rparr>"

text \<open>The events of one aggregate, none when the repository has no such key.\<close>

definition repo_load :: "event_repository \<Rightarrow> string \<Rightarrow> string \<Rightarrow> durable_event list" where
  "repo_load r tenant aggregate =
     (case map_of (r_events r) (tenant, aggregate) of None \<Rightarrow> [] | Some evs \<Rightarrow> evs)"

definition setdefault_stream :: "scoped \<Rightarrow> event_repository \<Rightarrow> event_repository" where
  "setdefault_stream k r =
     (case map_of (r_events r) k of None \<Rightarrow> r\<lparr>r_events := dict_set k [] (r_events r)\<rparr> | Some _ \<Rightarrow> r)"

definition stream_version :: "durable_event list \<Rightarrow> int" where
  "stream_version evs = (if evs = [] then 0 else ev_aggregate_version (last evs))"

definition all_events :: "event_repository \<Rightarrow> durable_event list" where
  "all_events r = concat (map snd (r_events r))"

definition message_key :: "outbox_message \<Rightarrow> scoped" where
  "message_key m = (om_tenant_id m, om_message_id m)"

definition put_messages :: "outbox_message list \<Rightarrow> (scoped, outbox_message) dict \<Rightarrow> (scoped, outbox_message) dict" where
  "put_messages ms d = fold (\<lambda>m d. dict_set (message_key m) m d) ms d"

text \<open>The checks of \<open>append\<close> in their order, on the repository in which the stream exists.\<close>

definition append_error :: "durable_event \<Rightarrow> int \<Rightarrow> outbox_message list \<Rightarrow> event_repository \<Rightarrow> exc option" where
  "append_error e expected ms r =
     (let current = stream_version (repo_load r (ev_tenant_id e) (ev_aggregate_id e));
          ids = map om_message_id ms
      in if current \<noteq> expected \<or> ev_aggregate_version e \<noteq> current + 1
         then Some (ValueError ''optimistic concurrency conflict'')
         else if \<exists>x\<in>set (all_events r). ev_event_id x = ev_event_id e \<and> ev_tenant_id x = ev_tenant_id e
         then Some (ValueError ''duplicate durable event'')
         else if length ids \<noteq> card (set ids) \<or> (\<exists>i\<in>set ids. map_of (r_outbox r) (ev_tenant_id e, i) \<noteq> None)
         then Some (ValueError ''duplicate outbox message'')
         else if \<exists>m\<in>set ms. om_tenant_id m \<noteq> ev_tenant_id e
         then Some (ValueError ''outbox tenant MUST match event tenant'')
         else None)"

definition repo_append ::
  "durable_event \<Rightarrow> int \<Rightarrow> outbox_message list \<Rightarrow> event_repository \<Rightarrow> exc option \<times> event_repository" where
  "repo_append e expected ms r0 =
     (let k = (ev_tenant_id e, ev_aggregate_id e);
          r = setdefault_stream k r0;
          evs = repo_load r (ev_tenant_id e) (ev_aggregate_id e)
      in case append_error e expected ms r of
           Some x \<Rightarrow> (Some x, r)
         | None \<Rightarrow> (None, r\<lparr>r_events := dict_set k (evs @ [e]) (r_events r),
             r_outbox := put_messages ms (r_outbox r)\<rparr>))"

definition pending_outbox :: "event_repository \<Rightarrow> string \<Rightarrow> outbox_message list" where
  "pending_outbox r tenant =
     filter (\<lambda>m. om_tenant_id m = tenant \<and> \<not> om_published m)
       (map (\<lambda>k. the (map_of (r_outbox r) k)) (sort (dict_keys (r_outbox r))))"

definition mark_published :: "string \<Rightarrow> string \<Rightarrow> event_repository \<Rightarrow> event_repository res" where
  "mark_published mid tenant r =
     (case map_of (r_outbox r) (tenant, mid) of
        None \<Rightarrow> Inl (KeyError ''unknown tenant-scoped outbox message'')
      | Some m \<Rightarrow> Inr (r\<lparr>r_outbox := dict_set (tenant, mid) (m\<lparr>om_published := True\<rparr>) (r_outbox r)\<rparr>))"

definition receive_once :: "outbox_message \<Rightarrow> string \<Rightarrow> event_repository \<Rightarrow> (bool \<times> event_repository) res" where
  "receive_once m fp r =
     (let k = (om_tenant_id m, om_idempotency_key m) in
      case map_of (r_inbox r) k of
        None \<Rightarrow> Inr (True, r\<lparr>r_inbox := dict_set k fp (r_inbox r)\<rparr>)
      | Some prev \<Rightarrow> require (prev = fp) (ValueError ''idempotency key reused with conflicting result'') (Inr (False, r)))"


type_synonym repo_backup =
  "(scoped, durable_event list) dict \<times> (scoped, outbox_message) dict \<times> (scoped, string) dict"

definition repo_snapshot :: "event_repository \<Rightarrow> repo_backup" where
  "repo_snapshot r = (r_events r, r_outbox r, r_inbox r)"

definition repo_restore :: "repo_backup \<Rightarrow> event_repository \<Rightarrow> event_repository" where
  "repo_restore b r = (case b of (evs, out, inb) \<Rightarrow> r\<lparr>r_events := evs, r_outbox := out, r_inbox := inb\<rparr>)"

section \<open>Sequences of calls\<close>

datatype repo_call =
    Append durable_event int "outbox_message list"
  | MarkPublished string string
  | ReceiveOnce outbox_message string

fun repo_step :: "event_repository \<Rightarrow> repo_call \<Rightarrow> event_repository" where
  "repo_step r (Append e v ms) = snd (repo_append e v ms r)"
| "repo_step r (MarkPublished mid tenant) = (case mark_published mid tenant r of Inl _ \<Rightarrow> r | Inr r' \<Rightarrow> r')"
| "repo_step r (ReceiveOnce m fp) = (case receive_once m fp r of Inl _ \<Rightarrow> r | Inr (_, r') \<Rightarrow> r')"

text \<open>
  The invariant: every stream holds the events of its key with the versions 1, 2, ... in order,
  a tenant's event identifiers are unique, and messages are filed under their own key.
\<close>

definition stream_ok :: "scoped \<Rightarrow> durable_event list \<Rightarrow> bool" where
  "stream_ok k evs \<longleftrightarrow>
     list_all (\<lambda>e. (ev_tenant_id e, ev_aggregate_id e) = k) evs
     \<and> map ev_aggregate_version evs = map int [1..<Suc (length evs)]"

definition event_name :: "durable_event \<Rightarrow> scoped" where
  "event_name e = (ev_tenant_id e, ev_event_id e)"

definition repo_inv :: "event_repository \<Rightarrow> bool" where
  "repo_inv r \<longleftrightarrow>
     dict_ok (r_events r) \<and> list_all (\<lambda>(k, evs). stream_ok k evs) (r_events r)
     \<and> distinct (map event_name (all_events r))
     \<and> dict_ok (r_outbox r) \<and> list_all (\<lambda>(k, m). k = message_key m) (r_outbox r)"

text \<open>What later states keep: streams only grow, messages stay, receipts are permanent.\<close>

definition same_message :: "outbox_message \<Rightarrow> outbox_message \<Rightarrow> bool" where
  "same_message m n \<longleftrightarrow> n\<lparr>om_published := om_published m\<rparr> = m \<and> (om_published m \<longrightarrow> om_published n)"

definition repo_ext :: "event_repository \<Rightarrow> event_repository \<Rightarrow> bool" where
  "repo_ext r s \<longleftrightarrow>
     (\<forall>t a. prefix (repo_load r t a) (repo_load s t a))
     \<and> (\<forall>k m. map_of (r_outbox r) k = Some m \<longrightarrow> (\<exists>n. map_of (r_outbox s) k = Some n \<and> same_message m n))
     \<and> (\<forall>k fp. map_of (r_inbox r) k = Some fp \<longrightarrow> map_of (r_inbox s) k = Some fp)"

lemma setdefault_stream_simps [simp]:
  "repo_load (setdefault_stream k r) t a = repo_load r t a"
  "all_events (setdefault_stream k r) = all_events r"
  "r_outbox (setdefault_stream k r) = r_outbox r"
  "r_inbox (setdefault_stream k r) = r_inbox r"
proof -
  show "repo_load (setdefault_stream k r) t a = repo_load r t a"
    by (auto simp: setdefault_stream_def repo_load_def split: option.splits)
  show "all_events (setdefault_stream k r) = all_events r"
    by (auto simp: setdefault_stream_def all_events_def map_of_None_iff dict_set_new split: option.splits)
qed (auto simp: setdefault_stream_def split: option.splits)

lemma stream_ok_Nil [simp]: "stream_ok k []"
  by (simp add: stream_ok_def)

lemma setdefault_stream_inv: "repo_inv r \<Longrightarrow> repo_inv (setdefault_stream k r)"
  unfolding repo_inv_def setdefault_stream_simps
  by (auto simp: setdefault_stream_def list_all_iff split: option.splits dest!: set_dict_set_subset [THEN subsetD])

lemma repo_load_ok: "repo_inv r \<Longrightarrow> stream_ok (t, a) (repo_load r t a)"
  by (auto simp: repo_inv_def repo_load_def list_all_iff split: option.splits dest!: map_of_SomeD)

lemma stream_ok_version: "stream_ok k evs \<Longrightarrow> stream_version evs = int (length evs)"
proof (cases evs rule: rev_cases)
  case (snoc ys y)
  assume "stream_ok k evs"
  then show ?thesis by (simp add: snoc stream_ok_def stream_version_def)
qed (simp add: stream_version_def)

lemma stream_ok_snoc:
  assumes "stream_ok k evs" and "(ev_tenant_id e, ev_aggregate_id e) = k"
    and "ev_aggregate_version e = int (length evs) + 1"
  shows "stream_ok k (evs @ [e])"
  using assms by (simp add: stream_ok_def)

text \<open>Replacing a stream by an extension of it, in the concatenation of all streams.\<close>

lemma mset_all_events_extend:
  "dict_ok d \<Longrightarrow> map_of d k = Some evs
   \<Longrightarrow> mset (concat (map snd (dict_set k (evs @ xs) d))) = mset (concat (map snd d)) + mset xs"
  by (induction d) (auto split: if_splits)

lemma put_messages_lookup:
  "map_of (put_messages ms d) k = (case find (\<lambda>m. message_key m = k) (rev ms) of Some m \<Rightarrow> Some m | None \<Rightarrow> map_of d k)"
  unfolding put_messages_def by (rule pydict.lookup_store_all)

lemma put_messages_inv:
  "dict_ok d \<and> list_all (\<lambda>(k, m). k = message_key m) d
   \<Longrightarrow> dict_ok (put_messages ms d) \<and> list_all (\<lambda>(k, m). k = message_key m) (put_messages ms d)"
proof (induction ms arbitrary: d)
  case (Cons m ms)
  have "list_all (\<lambda>(k, m). k = message_key m) (dict_set (message_key m) m d)"
    using Cons.prems by (auto simp: list_all_iff dest!: set_dict_set_subset [THEN subsetD])
  with Cons show ?case by (simp add: put_messages_def)
qed (simp add: put_messages_def)

text \<open>What an accepted event has to satisfy.\<close>

definition append_accepts :: "durable_event \<Rightarrow> int \<Rightarrow> outbox_message list \<Rightarrow> event_repository \<Rightarrow> bool" where
  "append_accepts e v ms r \<longleftrightarrow>
     v = stream_version (repo_load r (ev_tenant_id e) (ev_aggregate_id e)) \<and> ev_aggregate_version e = v + 1
     \<and> event_name e \<notin> event_name ` set (all_events r)
     \<and> distinct (map message_key ms) \<and> (\<forall>m\<in>set ms. om_tenant_id m = ev_tenant_id e)
     \<and> message_key ` set ms \<inter> fst ` set (r_outbox r) = {}"

lemma setdefault_stream_hit:
  "map_of (r_events (setdefault_stream (t, a) r)) (t, a) = Some (repo_load r t a)"
  by (auto simp: setdefault_stream_def repo_load_def split: option.splits)

lemma messages_distinct_iff:
  assumes "\<forall>m\<in>set ms. om_tenant_id m = t"
  shows "distinct (map message_key ms) \<longleftrightarrow> length (map om_message_id ms) = card (set (map om_message_id ms))"
proof -
  have "map message_key ms = map (Pair t) (map om_message_id ms)" using assms by (simp add: message_key_def)
  then have "distinct (map message_key ms) \<longleftrightarrow> distinct (map om_message_id ms)"
    by (metis distinct_map inj_on_def prod.inject)
  then show ?thesis by (simp only: length_remdups_eq_distinct)
qed

lemma messages_fresh_iff:
  assumes "\<forall>m\<in>set ms. om_tenant_id m = t"
  shows "message_key ` set ms \<inter> fst ` set d = {} \<longleftrightarrow> (\<forall>i\<in>set (map om_message_id ms). map_of d (t, i) = None)"
  using assms by (force simp: message_key_def map_of_None_iff)

lemma append_error_setdefault [simp]: "append_error e v ms (setdefault_stream k r) = append_error e v ms r"
  by (simp only: append_error_def setdefault_stream_simps)

lemma fst_append [simp]: "fst (repo_append e v ms r) = append_error e v ms r"
  by (simp add: repo_append_def Let_def split: option.splits)

lemma append_accepted_iff: "append_error e v ms r = None \<longleftrightarrow> append_accepts e v ms r"
proof (cases "\<forall>m\<in>set ms. om_tenant_id m = ev_tenant_id e")
  case True
  have "event_name e \<notin> event_name ` set (all_events r)
      \<longleftrightarrow> \<not> (\<exists>x\<in>set (all_events r). ev_event_id x = ev_event_id e \<and> ev_tenant_id x = ev_tenant_id e)"
    by (auto simp: event_name_def image_iff)
  with True messages_distinct_iff [OF True] messages_fresh_iff [OF True, of "r_outbox r"] show ?thesis
    by (auto simp: append_accepts_def append_error_def Let_def)
qed (auto simp: append_accepts_def append_error_def Let_def)

lemma append_rejected:
  "append_error e v ms r \<noteq> None \<Longrightarrow> snd (repo_append e v ms r) = setdefault_stream (ev_tenant_id e, ev_aggregate_id e) r"
  by (auto simp: repo_append_def Let_def)

lemma append_accepted:
  assumes "append_error e v ms r = None"
  shows "snd (repo_append e v ms r) =
    (setdefault_stream (ev_tenant_id e, ev_aggregate_id e) r)
      \<lparr>r_events := dict_set (ev_tenant_id e, ev_aggregate_id e) (repo_load r (ev_tenant_id e) (ev_aggregate_id e) @ [e])
         (r_events (setdefault_stream (ev_tenant_id e, ev_aggregate_id e) r)),
       r_outbox := put_messages ms (r_outbox r)\<rparr>"
  using assms by (auto simp: repo_append_def Let_def split: if_splits)

lemma append_load:
  assumes "append_error e v ms r = None"
  shows "repo_load (snd (repo_append e v ms r)) t a =
    (if (t, a) = (ev_tenant_id e, ev_aggregate_id e) then repo_load r t a @ [e] else repo_load r t a)"
proof -
  have "repo_load (setdefault_stream (ev_tenant_id e, ev_aggregate_id e) r) t a = repo_load r t a" by simp
  then show ?thesis unfolding append_accepted [OF assms] by (auto simp: repo_load_def)
qed

lemma append_inv:
  assumes "repo_inv r"
  shows "repo_inv (snd (repo_append e v ms r))"
proof (cases "append_error e v ms r")
  case None
  let ?t = "ev_tenant_id e" and ?a = "ev_aggregate_id e"
  let ?r = "setdefault_stream (?t, ?a) r" and ?evs = "repo_load r ?t ?a"
  let ?new = "dict_set (?t, ?a) (?evs @ [e]) (r_events ?r)"
  have ri: "repo_inv ?r" by (rule setdefault_stream_inv [OF assms])
  from None have acc: "append_accepts e v ms r" by (simp add: append_accepted_iff)
  have st: "stream_ok (?t, ?a) ?evs" by (rule repo_load_ok [OF assms])
  have "stream_ok (?t, ?a) (?evs @ [e])"
    using acc stream_ok_version [OF st] by (intro stream_ok_snoc [OF st]) (auto simp: append_accepts_def)
  then have "list_all (\<lambda>(k, evs). stream_ok k evs) ?new"
    using ri by (auto simp: repo_inv_def list_all_iff dest!: set_dict_set_subset [THEN subsetD])
  moreover have "distinct (map event_name (concat (map snd ?new)))"
  proof -
    have "mset (concat (map snd ?new)) = mset (all_events r) + {#e#}"
      using mset_all_events_extend [OF _ setdefault_stream_hit, of ?t ?a r "[e]"] ri
      by (simp add: repo_inv_def flip: all_events_def)
    then have "mset (map event_name (concat (map snd ?new))) = mset (event_name e # map event_name (all_events r))"
      by simp
    then have "distinct (map event_name (concat (map snd ?new))) = distinct (event_name e # map event_name (all_events r))"
      by (rule mset_eq_imp_distinct_iff)
    then show ?thesis using acc assms by (auto simp: append_accepts_def repo_inv_def)
  qed
  ultimately show ?thesis
    unfolding append_accepted [OF None] using ri put_messages_inv [of "r_outbox r" ms]
    by (simp add: repo_inv_def all_events_def)
next
  case (Some x)
  then show ?thesis using append_rejected [of e v ms r] setdefault_stream_inv [OF assms] by simp
qed

lemma append_outbox_keeps:
  assumes "map_of (r_outbox r) k = Some m"
  shows "map_of (r_outbox (snd (repo_append e v ms r))) k = Some m"
proof (cases "append_error e v ms r")
  case None
  then have "message_key ` set ms \<inter> fst ` set (r_outbox r) = {}" by (simp add: append_accepted_iff append_accepts_def)
  with assms have "find (\<lambda>m. message_key m = k) (rev ms) = None"
    by (auto simp: find_None_iff dest: map_of_Some_keys)
  with assms show ?thesis unfolding append_accepted [OF None] by (simp add: put_messages_lookup)
next
  case (Some x)
  with assms show ?thesis using append_rejected [of e v ms r] by simp
qed

lemma same_message_refl [simp]: "same_message m m"
  by (simp add: same_message_def)

lemma same_message_trans: "same_message m n \<Longrightarrow> same_message n p \<Longrightarrow> same_message m p"
  by (cases m; cases n; cases p) (auto simp: same_message_def)

lemma append_ext: "repo_ext r (snd (repo_append e v ms r))"
proof (cases "append_error e v ms r")
  case None
  have "r_inbox (snd (repo_append e v ms r)) = r_inbox r" unfolding append_accepted [OF None] by simp
  then show ?thesis
    unfolding repo_ext_def append_load [OF None]
    by (auto dest: append_outbox_keeps [of r _ _ e v ms])
qed (use append_rejected [of e v ms r] in \<open>auto simp: repo_ext_def\<close>)

lemma mark_published_ok:
  assumes "mark_published mid t r = Inr s"
  shows "r_events s = r_events r \<and> r_inbox s = r_inbox r
    \<and> (\<exists>m. map_of (r_outbox r) (t, mid) = Some m \<and> r_outbox s = dict_set (t, mid) (m\<lparr>om_published := True\<rparr>) (r_outbox r))"
  using assms by (auto simp: mark_published_def split: option.splits)

lemma mark_published_inv:
  assumes "mark_published mid t r = Inr s" and "repo_inv r"
  shows "repo_inv s \<and> repo_ext r s"
proof -
  obtain m where m: "map_of (r_outbox r) (t, mid) = Some m"
    and s: "r_outbox s = dict_set (t, mid) (m\<lparr>om_published := True\<rparr>) (r_outbox r)" "r_events s = r_events r" "r_inbox s = r_inbox r"
    using mark_published_ok [OF assms(1)] by blast
  have "message_key m = (t, mid)"
    using assms(2) map_of_SomeD [OF m] by (auto simp: repo_inv_def list_all_iff)
  then have "list_all (\<lambda>(k, m). k = message_key m) (r_outbox s)"
    using assms(2) unfolding s
    by (auto simp: repo_inv_def list_all_iff message_key_def dest!: set_dict_set_subset [THEN subsetD])
  moreover have "dict_ok (r_outbox s)" using assms(2) by (simp add: repo_inv_def s)
  moreover have "repo_ext r s"
    using m by (auto simp: repo_ext_def s repo_load_def same_message_def)
  ultimately show ?thesis
    using assms(2) by (simp add: repo_inv_def s all_events_def)
qed

lemma receive_once_ok:
  assumes "receive_once m fp r = Inr (b, s)"
  shows "r_events s = r_events r \<and> r_outbox s = r_outbox r
    \<and> map_of (r_inbox s) = (map_of (r_inbox r))((om_tenant_id m, om_idempotency_key m) \<mapsto> fp)
    \<and> (b \<longleftrightarrow> map_of (r_inbox r) (om_tenant_id m, om_idempotency_key m) = None)
    \<and> (\<not> b \<longrightarrow> map_of (r_inbox r) (om_tenant_id m, om_idempotency_key m) = Some fp)"
  using assms by (auto simp: receive_once_def Let_def fun_eq_iff split: option.splits)

lemma receive_once_inv:
  "receive_once m fp r = Inr (b, s) \<Longrightarrow> repo_inv r \<Longrightarrow> repo_inv s \<and> repo_ext r s"
  using receive_once_ok [of m fp r b s]
  by (cases b) (auto simp: repo_inv_def repo_ext_def repo_load_def all_events_def)

lemma repo_step_inv: "repo_inv r \<Longrightarrow> repo_inv (repo_step r c) \<and> repo_ext r (repo_step r c)"
proof (cases c)
  case (Append e v ms)
  then show "repo_inv r \<Longrightarrow> ?thesis" by (simp add: append_inv append_ext)
next
  case (MarkPublished mid t)
  then show "repo_inv r \<Longrightarrow> ?thesis"
    using mark_published_inv [of mid t r] by (auto simp: repo_ext_def split: sum.splits)
next
  case (ReceiveOnce m fp)
  then show "repo_inv r \<Longrightarrow> ?thesis"
    using receive_once_inv [of m fp r] by (auto simp: repo_ext_def split: sum.splits)
qed

lemma repo_ext_trans: "repo_ext r s \<Longrightarrow> repo_ext s u \<Longrightarrow> repo_ext r u"
  unfolding repo_ext_def by (meson prefix_order.trans same_message_trans)

interpretation repo: step_machine repo_step repo_inv repo_ext
  by unfold_locales (auto simp: repo_step_inv repo_ext_def [of s s for s] intro: repo_ext_trans)

lemma new_repository_inv: "repo_inv new_repository"
  by (simp add: repo_inv_def new_repository_def all_events_def)

section \<open>Properties\<close>

definition demo_event :: "string \<Rightarrow> int \<Rightarrow> durable_event" where
  "demo_event i v = \<lparr>ev_event_id = i, ev_tenant_id = ''t'', ev_aggregate_id = ''a'', ev_aggregate_version = v,
     ev_event_type = ''E'', ev_payload = [], ev_timestamp_ns = 0\<rparr>"

definition demo_message :: outbox_message where
  "demo_message = \<lparr>om_message_id = ''m'', om_tenant_id = ''t'', om_topic = ''x'', om_payload = [],
     om_idempotency_key = ''k'', om_published = False\<rparr>"

definition demo_repository :: event_repository where
  "demo_repository = repo_step new_repository (Append (demo_event ''e1'' 1) 0 [demo_message])"

lemma demo_repository_inv: "repo_inv demo_repository"
  unfolding demo_repository_def by (simp add: repo_step_inv new_repository_inv del: repo_step.simps)



text \<open>
  \<open>append\<close> accepts an event exactly when the expected version is the current one, the event
  is the next version, its identifier is new for the tenant and its messages are new, distinct
  and of the same tenant. An accepted event is the last of its stream and its messages are in
  the outbox; no other stream changes. A refused one changes no stream, message or receipt.
\<close>

theorem append_outcome:
  "(fst (repo_append e v ms r) = None \<longleftrightarrow> append_accepts e v ms r)
   \<and> (append_accepts e v ms r \<longrightarrow>
        (\<forall>t a. repo_load (snd (repo_append e v ms r)) t a =
           repo_load r t a @ (if (t, a) = (ev_tenant_id e, ev_aggregate_id e) then [e] else []))
        \<and> (\<forall>m\<in>set ms. map_of (r_outbox (snd (repo_append e v ms r))) (message_key m) = Some m))
   \<and> (\<not> append_accepts e v ms r \<longrightarrow>
        (\<forall>t a. repo_load (snd (repo_append e v ms r)) t a = repo_load r t a)
        \<and> r_outbox (snd (repo_append e v ms r)) = r_outbox r \<and> r_inbox (snd (repo_append e v ms r)) = r_inbox r)"
proof (intro conjI impI)
  assume acc: "append_accepts e v ms r"
  then have ok: "append_error e v ms r = None" by (simp add: append_accepted_iff)
  show "\<forall>t a. repo_load (snd (repo_append e v ms r)) t a =
      repo_load r t a @ (if (t, a) = (ev_tenant_id e, ev_aggregate_id e) then [e] else [])"
    using append_load [OF ok] by auto
  have "distinct (map message_key ms)" using acc by (simp add: append_accepts_def)
  then show "\<forall>m\<in>set ms. map_of (r_outbox (snd (repo_append e v ms r))) (message_key m) = Some m"
    unfolding append_accepted [OF ok] using pydict.lookup_store_all_distinct by (fastforce simp: put_messages_def)
qed (auto simp: append_accepted_iff append_rejected)

theorem append_outcome_witness:
  "\<not> append_accepts (demo_event ''e1'' 2) 1 [] demo_repository
   \<and> repo_load (snd (repo_append (demo_event ''e1'' 2) 1 [] demo_repository)) ''t'' ''a'' = repo_load demo_repository ''t'' ''a''"
proof -
  have "fst (repo_append (demo_event ''e1'' 2) 1 [] demo_repository) \<noteq> None" by code_simp
  then show ?thesis using append_outcome [of "demo_event ''e1'' 2" 1 "[]" demo_repository] by meson
qed

text \<open>
  Optimistic concurrency: after an accepted append, any append that still expects the version
  before it is refused, however many other calls come in between.
\<close>

theorem stale_append_refused:
  assumes "repo_inv r" and "fst (repo_append e v ms r) = None"
    and "ev_tenant_id e' = ev_tenant_id e" and "ev_aggregate_id e' = ev_aggregate_id e"
  shows "fst (repo_append e' v ms' (foldl repo_step (snd (repo_append e v ms r)) cs))
    = Some (ValueError ''optimistic concurrency conflict'')"
proof -
  let ?r = "snd (repo_append e v ms r)"
  let ?s = "foldl repo_step ?r cs"
  let ?load = "\<lambda>r. repo_load r (ev_tenant_id e) (ev_aggregate_id e)"
  have inv: "repo_inv ?r" "repo_inv ?s" by (simp_all add: append_inv assms(1) repo.run_inv)
  have "prefix (?load ?r) (?load ?s)" using repo.run_ext [OF inv(1), of cs] by (simp add: repo_ext_def)
  then have "length (?load ?r) \<le> length (?load ?s)" by (rule prefix_length_le)
  moreover have "length (?load ?r) = Suc (length (?load r))" using append_load [of e v ms r] assms(2) by simp
  moreover have "v = int (length (?load r))"
    using assms(2) stream_ok_version [OF repo_load_ok [OF assms(1)]] by (simp add: append_accepted_iff append_accepts_def)
  ultimately have "stream_version (?load ?s) \<noteq> v"
    using stream_ok_version [OF repo_load_ok [OF inv(2)], of "ev_tenant_id e" "ev_aggregate_id e"] by linarith
  then show ?thesis unfolding fst_append using assms(3,4) by (simp add: append_error_def)
qed

theorem stale_append_refused_witness:
  "fst (repo_append (demo_event ''e9'' 2) 1 [] (foldl repo_step (snd (repo_append (demo_event ''e2'' 2) 1 [] demo_repository))
     [ReceiveOnce demo_message ''f'']))
   = Some (ValueError ''optimistic concurrency conflict'')"
proof (rule stale_append_refused [OF demo_repository_inv])
  show "fst (repo_append (demo_event ''e2'' 2) 1 [] demo_repository) = None" by code_simp
qed (simp_all add: demo_event_def)

text \<open>
  A message is received once: after it has been received with a result, every later receipt
  of its idempotency key reports a duplicate and changes nothing when the result is the same,
  and raises when the result differs.
\<close>

theorem receive_is_idempotent:
  assumes "repo_inv r" and "receive_once m fp r = Inr (b, r')"
    and "om_tenant_id m' = om_tenant_id m" and "om_idempotency_key m' = om_idempotency_key m"
  shows "receive_once m' fp' (foldl repo_step r' cs) =
    (if fp' = fp then Inr (False, foldl repo_step r' cs)
     else Inl (ValueError ''idempotency key reused with conflicting result''))"
proof -
  have "repo_inv r'" using receive_once_inv [OF assms(2,1)] by simp
  then have "repo_ext r' (foldl repo_step r' cs)" by (rule repo.run_ext)
  moreover have "map_of (r_inbox r') (om_tenant_id m, om_idempotency_key m) = Some fp"
    using receive_once_ok [OF assms(2)] by simp
  ultimately have "map_of (r_inbox (foldl repo_step r' cs)) (om_tenant_id m, om_idempotency_key m) = Some fp"
    by (simp add: repo_ext_def)
  then show ?thesis by (auto simp: receive_once_def Let_def assms(3,4) require_def)
qed

theorem receive_is_idempotent_witness:
  "\<exists>s. receive_once demo_message ''f'' s = Inr (False, s)"
proof -
  let ?r = "demo_repository\<lparr>r_inbox := dict_set (''t'', ''k'') ''f'' (r_inbox demo_repository)\<rparr>"
  have "r_inbox demo_repository = []" by code_simp
  then have "receive_once demo_message ''f'' demo_repository = Inr (True, ?r)"
    by (simp add: receive_once_def demo_message_def Let_def)
  from receive_is_idempotent [OF demo_repository_inv this refl refl, of "''f''" "[]"] show ?thesis by auto
qed

end
