(* ===== verification/Backups.thy ===== *)
theory Backups
  imports DNC_Prelude
begin

text \<open>
  Components with \<open>snapshot()\<close> and \<open>restore(...)\<close>, as \<open>capture_execution_snapshot\<close> and
  \<open>restore_execution_snapshot\<close> of \<open>system.py\<close> use them: a client may take snapshots at any time
  and put any of them back later. A run is a sequence of calls of the component mixed with both;
  the snapshots taken so far are kept in the order they were taken.
\<close>

datatype 'c backed_call = Call 'c | Take_snapshot | Restore_snapshot nat

fun backed_step ::
  "('s \<Rightarrow> 'c \<Rightarrow> 's) \<Rightarrow> ('s \<Rightarrow> 'b) \<Rightarrow> ('b \<Rightarrow> 's \<Rightarrow> 's) \<Rightarrow> 's \<times> 'b list \<Rightarrow> 'c backed_call \<Rightarrow> 's \<times> 'b list" where
  "backed_step step save put (s, bs) (Call c) = (step s c, bs)"
| "backed_step step save put (s, bs) Take_snapshot = (s, bs @ [save s])"
| "backed_step step save put (s, bs) (Restore_snapshot i) = (if i < length bs then put (bs ! i) s else s, bs)"

definition backed_run ::
  "('s \<Rightarrow> 'c \<Rightarrow> 's) \<Rightarrow> ('s \<Rightarrow> 'b) \<Rightarrow> ('b \<Rightarrow> 's \<Rightarrow> 's) \<Rightarrow> 's \<Rightarrow> 'c backed_call list \<Rightarrow> 's" where
  "backed_run step save put s cs = fst (foldl (backed_step step save put) (s, []) cs)"

text \<open>
  The contract of such a component: restoring a snapshot gives the state back it was taken
  of, or is refused and leaves the state as it is.
\<close>

locale backups =
  fixes step :: "'s \<Rightarrow> 'c \<Rightarrow> 's"
    and save :: "'s \<Rightarrow> 'b"
    and put :: "'b \<Rightarrow> 's \<Rightarrow> 's"
  assumes put_save: "put (save s) t = s \<or> put (save s) t = t"
begin

lemma run_Nil [simp]: "backed_run step save put s [] = s"
  by (simp add: backed_run_def)

lemma run_Call: "backed_run step save put s (cs @ [Call c]) = step (backed_run step save put s cs) c"
  by (cases "foldl (backed_step step save put) (s, []) cs") (simp add: backed_run_def)

text \<open>
  What holds now and did not hold at the start was brought about by a call: no restoration of
  a snapshot of the run brings anything new.
\<close>

lemma appears_by_call:
  assumes "\<not> P s" and "P (backed_run step save put s cs)"
  shows "\<exists>before c after. cs = before @ Call c # after \<and> \<not> P (backed_run step save put s before) \<and> P (step (backed_run step save put s before) c)"
proof (rule ccontr)
  assume no: "\<nexists>before c after. cs = before @ Call c # after \<and> \<not> P (backed_run step save put s before) \<and> P (step (backed_run step save put s before) c)"
  have "\<not> P (fst (foldl (backed_step step save put) (s, []) before))
      \<and> (\<forall>b\<in>set (snd (foldl (backed_step step save put) (s, []) before)). \<exists>t. b = save t \<and> \<not> P t)"
    if "cs = before @ after" for before after
    using that
  proof (induction before arbitrary: after rule: rev_induct)
    case (snoc c before)
    obtain t bs where t: "foldl (backed_step step save put) (s, []) before = (t, bs)" by fastforce
    from snoc.IH [of "c # after"] snoc.prems t
    have IH: "\<not> P t" "\<forall>b\<in>set bs. \<exists>t. b = save t \<and> \<not> P t" by simp_all
    show ?case
    proof (cases c)
      case (Call x)
      have "backed_run step save put s before = t" by (simp add: backed_run_def t)
      then have "\<not> P (step t x)" using no snoc.prems IH(1) Call by auto
      then show ?thesis by (simp add: t Call IH(2))
    next
      case (Restore_snapshot i)
      have "\<not> P (put (bs ! i) t)" if i: "i < length bs"
      proof -
        from IH(2) i obtain u where "bs ! i = save u" "\<not> P u" by (meson nth_mem)
        then show ?thesis using put_save [of u t] IH(1) by auto
      qed
      then show ?thesis by (simp add: t Restore_snapshot IH)
    qed (use IH in \<open>auto simp: t\<close>)
  qed (simp add: assms(1))
  from this [of cs "[]"] assms(2) show False by (simp add: backed_run_def)
qed

end

text \<open>What every call keeps, restorations keep as well.\<close>

locale guarded_backups = guarded_machine step admits keeps + backups step save put
  for step :: "'s \<Rightarrow> 'c \<Rightarrow> 's" and admits :: "'c \<Rightarrow> bool" and keeps :: "'s \<Rightarrow> bool"
    and save :: "'s \<Rightarrow> 'b" and put :: "'b \<Rightarrow> 's \<Rightarrow> 's"
begin

lemma backed_run_keeps:
  assumes "keeps s" and "\<And>c. Call c \<in> set cs \<Longrightarrow> admits c"
  shows "keeps (backed_run step save put s cs)"
proof (rule ccontr)
  assume "\<not> keeps (backed_run step save put s cs)"
  with appears_by_call [of "\<lambda>t. \<not> keeps t" s cs] assms(1)
  obtain before c after where "cs = before @ Call c # after" "keeps (backed_run step save put s before)" "\<not> keeps (step (backed_run step save put s before) c)"
    by auto
  with step_keeps [of "backed_run step save put s before" c] assms(2) [of c] show False by simp
qed

end

end
