(* ===== verification/Work_Queue.thy ===== *)
theory Work_Queue
  imports Backups Complex_Main
begin

text \<open>
  The durable work queue (\<open>persistence/workers.py\<close>, items and leases of
  \<open>persistence/contracts.py\<close>): submission under idempotency keys, leases with fencing tokens,
  heartbeats, completion, and the reconciliation of expired leases. Resource amounts are
  compared but never computed with, so they are real numbers. No method changes the queue
  before it raises.
\<close>

declare map_of_eq_Some_iff [simp del] Some_eq_map_of_iff [simp del]

section \<open>Items, leases and results\<close>

datatype work_status = WS_READY | WS_LEASED | WS_COMPLETED | WS_FAILED | WS_RECONCILIATION_REQUIRED

record work_item =
  wi_work_id :: string
  wi_tenant_id :: string
  wi_task_id :: string
  wi_action_id :: string
  wi_expected_aggregate_version :: int
  wi_capability :: string
  wi_isolation_grade :: string
  wi_deadline_ns :: int
  wi_retry_class :: string
  wi_idempotency_key :: string
  wi_trace_id :: string
  wi_policy_labels :: "string set"
  wi_artifact_refs :: "string list"
  wi_required_resources :: "(string, real) dict"
  wi_irreversible :: bool

record lease =
  l_work_id :: string
  l_worker_id :: string
  l_fencing_token :: int
  l_expires_at_ns :: int
  l_heartbeat_at_ns :: int

record worker_result =
  wr_work_id :: string
  wr_worker_id :: string
  wr_fencing_token :: int
  wr_output_ref :: string
  wr_effect_ids :: "string list"
  wr_cleanup_complete :: bool
  wr_fingerprint :: string

record work_queue =
  q_items :: "(string, work_item) dict"
  q_status :: "(string, work_status) dict"
  q_leases :: "(string, lease) dict"
  q_results :: "(string, worker_result) dict"
  q_fencing :: int

definition new_queue :: work_queue where
  "new_queue = \<lparr>q_items = [], q_status = [], q_leases = [], q_results = [], q_fencing = 0\<rparr>"

text \<open>Equality of two items: the resource dictionaries compare without regard to order.\<close>

definition resources_eq :: "(string, real) dict \<Rightarrow> (string, real) dict \<Rightarrow> bool" where
  "resources_eq d e \<longleftrightarrow> length d = length e \<and> list_all (\<lambda>(k, v). map_of e k = Some v) d"

definition item_eq :: "work_item \<Rightarrow> work_item \<Rightarrow> bool" where
  "item_eq a b \<longleftrightarrow> a\<lparr>wi_required_resources := []\<rparr> = b\<lparr>wi_required_resources := []\<rparr>
     \<and> resources_eq (wi_required_resources a) (wi_required_resources b)"

section \<open>Operations\<close>

definition q_submit :: "work_item \<Rightarrow> work_queue \<Rightarrow> (bool \<times> work_queue) res" where
  "q_submit item q =
     (case find (\<lambda>v. wi_tenant_id v = wi_tenant_id item \<and> wi_idempotency_key v = wi_idempotency_key item)
         (map snd (q_items q)) of
        Some existing \<Rightarrow> require (item_eq existing item) (ValueError ''conflicting work idempotency key'') (Inr (False, q))
      | None \<Rightarrow> Inr (True, q\<lparr>q_items := dict_set (wi_work_id item) item (q_items q),
          q_status := dict_set (wi_work_id item) WS_READY (q_status q)\<rparr>))"

definition resources_suffice :: "work_item \<Rightarrow> (string, real) dict \<Rightarrow> bool" where
  "resources_suffice item res \<longleftrightarrow>
     list_all (\<lambda>(k, v). v \<le> (case map_of res k of None \<Rightarrow> 0 | Some x \<Rightarrow> x)) (wi_required_resources item)"

definition q_lease ::
  "string \<Rightarrow> string \<Rightarrow> int \<Rightarrow> int \<Rightarrow> (string, real) dict \<Rightarrow> work_queue \<Rightarrow> (lease \<times> work_queue) res" where
  "q_lease w worker now duration res q =
     (case map_of (q_items q) w of
        None \<Rightarrow> Inl (KeyError w)
      | Some item \<Rightarrow>
          require (0 < duration) (ValueError ''lease duration MUST be positive'')
          (case map_of (q_status q) w of
             None \<Rightarrow> Inl (KeyError w)
           | Some st \<Rightarrow>
               require (st = WS_READY) (ValueError ''work item is not ready'')
               (require (now < wi_deadline_ns item) (TimeoutError ''work item deadline expired'')
               (require (resources_suffice item res) (ValueError ''worker resources do not satisfy work item'')
               (let token = q_fencing q + 1;
                    l = \<lparr>l_work_id = w, l_worker_id = worker, l_fencing_token = token,
                         l_expires_at_ns = now + duration, l_heartbeat_at_ns = now\<rparr>
                in Inr (l, q\<lparr>q_fencing := token, q_leases := dict_set w l (q_leases q),
                     q_status := dict_set w WS_LEASED (q_status q)\<rparr>))))))"

definition require_lease :: "string \<Rightarrow> int \<Rightarrow> work_queue \<Rightarrow> lease res" where
  "require_lease w token q =
     (case map_of (q_leases q) w of
        None \<Rightarrow> Inl (ValueError ''stale or missing fencing token'')
      | Some l \<Rightarrow> require (l_fencing_token l = token) (ValueError ''stale or missing fencing token'') (Inr l))"

definition q_heartbeat :: "string \<Rightarrow> int \<Rightarrow> int \<Rightarrow> int \<Rightarrow> work_queue \<Rightarrow> (lease \<times> work_queue) res" where
  "q_heartbeat w token now duration q =
     (case require_lease w token q of
        Inl e \<Rightarrow> Inl e
      | Inr l \<Rightarrow>
          require (0 < duration) (ValueError ''heartbeat duration MUST be positive'')
          (require (now < l_expires_at_ns l) (TimeoutError ''lease already expired'')
          (let renewed = \<lparr>l_work_id = w, l_worker_id = l_worker_id l, l_fencing_token = l_fencing_token l,
                 l_expires_at_ns = now + duration, l_heartbeat_at_ns = now\<rparr>
           in Inr (renewed, q\<lparr>q_leases := dict_set w renewed (q_leases q)\<rparr>))))"

definition q_complete :: "worker_result \<Rightarrow> work_queue \<Rightarrow> (bool \<times> work_queue) res" where
  "q_complete r q =
     (case map_of (q_results q) (wr_work_id r) of
        Some prev \<Rightarrow> require (prev = r) (ValueError ''conflicting duplicate worker result'') (Inr (False, q))
      | None \<Rightarrow>
          (case require_lease (wr_work_id r) (wr_fencing_token r) q of
             Inl e \<Rightarrow> Inl e
           | Inr l \<Rightarrow>
               require (l_worker_id l = wr_worker_id r) (ValueError ''worker result identity does not own lease'')
               (Inr (True, q\<lparr>q_results := dict_set (wr_work_id r) r (q_results q),
                  q_status := dict_set (wr_work_id r) WS_COMPLETED (q_status q),
                  q_leases := dict_pop (wr_work_id r) (q_leases q)\<rparr>))))"

text \<open>The loop over a copy of the leases; \<open>self._items[work_id]\<close> raises for an unknown item.\<close>

fun reconcile_loop :: "int \<Rightarrow> (string \<times> lease) list \<Rightarrow> string list \<Rightarrow> work_queue \<Rightarrow> (string list \<times> work_queue) res" where
  "reconcile_loop now [] changed q = Inr (changed, q)"
| "reconcile_loop now ((w, l) # ls) changed q =
     (if l_expires_at_ns l \<le> now
      then (case map_of (q_items q) w of
          None \<Rightarrow> Inl (KeyError w)
        | Some item \<Rightarrow> reconcile_loop now ls (changed @ [w])
            (q\<lparr>q_status := dict_set w (if wi_irreversible item then WS_RECONCILIATION_REQUIRED else WS_READY) (q_status q),
               q_leases := dict_pop w (q_leases q)\<rparr>))
      else reconcile_loop now ls changed q)"

definition q_reconcile :: "int \<Rightarrow> work_queue \<Rightarrow> (string list \<times> work_queue) res" where
  "q_reconcile now q =
     (case reconcile_loop now (q_leases q) [] q of Inl e \<Rightarrow> Inl e | Inr (changed, q') \<Rightarrow> Inr (sort changed, q'))"

definition q_status_of :: "string \<Rightarrow> work_queue \<Rightarrow> work_status res" where
  "q_status_of w q = (case map_of (q_status q) w of None \<Rightarrow> Inl (KeyError w) | Some st \<Rightarrow> Inr st)"

type_synonym queue_backup =
  "(string, work_item) dict \<times> (string, work_status) dict \<times> (string, lease) dict \<times> (string, worker_result) dict \<times> int"

definition q_snapshot :: "work_queue \<Rightarrow> queue_backup" where
  "q_snapshot q = (q_items q, q_status q, q_leases q, q_results q, q_fencing q)"

definition q_restore :: "queue_backup \<Rightarrow> work_queue \<Rightarrow> work_queue res" where
  "q_restore b q =
     (case b of (items, status, leases, results, fencing) \<Rightarrow>
        require (set (dict_keys status) = set (dict_keys items) \<and> set (dict_keys leases) \<subseteq> set (dict_keys items)
            \<and> set (dict_keys results) \<subseteq> set (dict_keys items))
          (ValueError ''work queue backup references unknown work items'')
        (Inr (q\<lparr>q_items := items, q_status := status, q_leases := leases, q_results := results, q_fencing := fencing\<rparr>)))"

section \<open>Sequences of calls\<close>

datatype queue_call =
    Submit work_item
  | LeaseWork string string int int "(string, real) dict"
  | Heartbeat string int int int
  | Complete worker_result
  | Reconcile int

definition outcome :: "work_queue \<Rightarrow> ('a \<times> work_queue) res \<Rightarrow> work_queue" where
  "outcome q x = (case x of Inl _ \<Rightarrow> q | Inr (_, q') \<Rightarrow> q')"

fun queue_step :: "work_queue \<Rightarrow> queue_call \<Rightarrow> work_queue" where
  "queue_step q (Submit i) = outcome q (q_submit i q)"
| "queue_step q (LeaseWork w worker now dur res) = outcome q (q_lease w worker now dur res q)"
| "queue_step q (Heartbeat w token now dur) = outcome q (q_heartbeat w token now dur q)"
| "queue_step q (Complete r) = outcome q (q_complete r q)"
| "queue_step q (Reconcile now) = outcome q (q_reconcile now q)"

text \<open>
  Runs in which snapshots of the queue are taken and restored; a restoration that is refused
  leaves the queue as it is.
\<close>

definition q_put :: "queue_backup \<Rightarrow> work_queue \<Rightarrow> work_queue" where
  "q_put b q = (case q_restore b q of Inl _ \<Rightarrow> q | Inr q' \<Rightarrow> q')"

definition queue_run :: "work_queue \<Rightarrow> queue_call backed_call list \<Rightarrow> work_queue" where
  "queue_run = backed_run queue_step q_snapshot q_put"

text \<open>
  The invariant: every record belongs to a known item, tokens have been issued, an item that
  is marked as leased has its lease, and leases and results are filed under their item.
\<close>

definition queue_inv :: "work_queue \<Rightarrow> bool" where
  "queue_inv q \<longleftrightarrow>
     set (dict_keys (q_status q)) = set (dict_keys (q_items q))
     \<and> set (dict_keys (q_leases q)) \<subseteq> set (dict_keys (q_items q))
     \<and> set (dict_keys (q_results q)) \<subseteq> set (dict_keys (q_items q))
     \<and> dict_ok (q_leases q)
     \<and> (\<forall>w l. map_of (q_leases q) w = Some l \<longrightarrow> l_work_id l = w \<and> 0 < l_fencing_token l \<and> l_fencing_token l \<le> q_fencing q)
     \<and> (\<forall>w. map_of (q_status q) w = Some WS_LEASED \<longrightarrow> map_of (q_leases q) w \<noteq> None)
     \<and> (\<forall>w r. map_of (q_results q) w = Some r \<longrightarrow> wr_work_id r = w)
     \<and> 0 \<le> q_fencing q"

text \<open>A token that was issued and is not the current one of the item.\<close>

definition dead_token :: "work_queue \<Rightarrow> string \<Rightarrow> int \<Rightarrow> bool" where
  "dead_token q w token \<longleftrightarrow>
     token \<le> q_fencing q \<and> (\<forall>l. map_of (q_leases q) w = Some l \<longrightarrow> l_fencing_token l \<noteq> token)"

definition queue_ext :: "work_queue \<Rightarrow> work_queue \<Rightarrow> bool" where
  "queue_ext q p \<longleftrightarrow>
     q_fencing q \<le> q_fencing p
     \<and> set (dict_keys (q_items q)) \<subseteq> set (dict_keys (q_items p))
     \<and> (\<forall>w token. dead_token q w token \<longrightarrow> dead_token p w token)
     \<and> (\<forall>w r. map_of (q_results q) w = Some r \<longrightarrow> map_of (q_results p) w = Some r)"

lemma outcome_simps [simp]: "outcome q (Inl e) = q" "outcome q (Inr (x, p)) = p"
  by (simp_all add: outcome_def)

lemma queue_ext_refl [simp]: "queue_ext q q"
  by (simp add: queue_ext_def)

lemma queue_ext_trans: "queue_ext q p \<Longrightarrow> queue_ext p o' \<Longrightarrow> queue_ext q o'"
  by (auto simp: queue_ext_def)

lemma require_lease_iff:
  "require_lease w token q = Inr l \<longleftrightarrow> map_of (q_leases q) w = Some l \<and> l_fencing_token l = token"
  by (auto simp: require_lease_def split: option.splits)

text \<open>What each operation does when it succeeds.\<close>

lemma submit_ok:
  "q_submit item q = Inr (b, p) \<Longrightarrow>
     p = (if b then q\<lparr>q_items := dict_set (wi_work_id item) item (q_items q),
            q_status := dict_set (wi_work_id item) WS_READY (q_status q)\<rparr> else q)"
  by (auto simp: q_submit_def split: option.splits)

lemma lease_ok:
  "q_lease w worker now dur res q = Inr (l, p) \<Longrightarrow>
     (\<exists>item. map_of (q_items q) w = Some item \<and> now < wi_deadline_ns item \<and> resources_suffice item res)
     \<and> map_of (q_status q) w = Some WS_READY \<and> 0 < dur
     \<and> l = \<lparr>l_work_id = w, l_worker_id = worker, l_fencing_token = q_fencing q + 1,
         l_expires_at_ns = now + dur, l_heartbeat_at_ns = now\<rparr>
     \<and> p = q\<lparr>q_fencing := q_fencing q + 1, q_leases := dict_set w l (q_leases q),
         q_status := dict_set w WS_LEASED (q_status q)\<rparr>"
  by (auto simp: q_lease_def Let_def split: option.splits)

lemma heartbeat_ok:
  "q_heartbeat w token now dur q = Inr (l, p) \<Longrightarrow>
     (\<exists>l0. map_of (q_leases q) w = Some l0 \<and> l_fencing_token l0 = token \<and> now < l_expires_at_ns l0
        \<and> l = l0\<lparr>l_work_id := w, l_expires_at_ns := now + dur, l_heartbeat_at_ns := now\<rparr>)
     \<and> p = q\<lparr>q_leases := dict_set w l (q_leases q)\<rparr>"
  by (auto simp: q_heartbeat_def Let_def require_lease_iff split: sum.splits)

lemma complete_ok:
  "q_complete r q = Inr (b, p) \<Longrightarrow>
     if b then map_of (q_results q) (wr_work_id r) = None
       \<and> (\<exists>l. map_of (q_leases q) (wr_work_id r) = Some l \<and> l_fencing_token l = wr_fencing_token r
            \<and> l_worker_id l = wr_worker_id r)
       \<and> p = q\<lparr>q_results := dict_set (wr_work_id r) r (q_results q),
              q_status := dict_set (wr_work_id r) WS_COMPLETED (q_status q),
              q_leases := dict_pop (wr_work_id r) (q_leases q)\<rparr>
     else map_of (q_results q) (wr_work_id r) = Some r \<and> p = q"
  by (auto simp: q_complete_def require_lease_iff split: option.splits sum.splits)

definition after_expiry :: "work_queue \<Rightarrow> string \<Rightarrow> work_status" where
  "after_expiry q w = (if wi_irreversible (the (map_of (q_items q) w)) then WS_RECONCILIATION_REQUIRED else WS_READY)"

definition expired :: "int \<Rightarrow> (string \<times> lease) list \<Rightarrow> string list" where
  "expired now ls = map fst (filter (\<lambda>(w, l). l_expires_at_ns l \<le> now) ls)"

lemma expired_Cons [simp]:
  "expired now ((w, l) # ls) = (if l_expires_at_ns l \<le> now then w # expired now ls else expired now ls)"
  "expired now [] = []"
  by (simp_all add: expired_def)

lemma reconcile_loop_result:
  assumes "fst ` set ls \<subseteq> fst ` set (q_items q)"
  shows "\<exists>p. reconcile_loop now ls changed q = Inr (changed @ expired now ls, p)
    \<and> q_items p = q_items q \<and> q_results p = q_results q \<and> q_fencing p = q_fencing q
    \<and> (dict_ok (q_leases q) \<longrightarrow> dict_ok (q_leases p))
    \<and> (\<forall>w. map_of (q_leases p) w = (if w \<in> set (expired now ls) then None else map_of (q_leases q) w))
    \<and> (\<forall>w. map_of (q_status p) w = (if w \<in> set (expired now ls) then Some (after_expiry q w) else map_of (q_status q) w))
    \<and> fst ` set (q_status p) = fst ` set (q_status q) \<union> set (expired now ls)"
  using assms
proof (induction ls arbitrary: changed q)
  case (Cons x ls)
  obtain w l where x: "x = (w, l)" by (cases x)
  from Cons.prems obtain item where it: "map_of (q_items q) w = Some item"
    by (metis x image_eqI insert_subset list.set_intros(1) map_of_None_iff not_Some_eq fst_conv subsetD)
  show ?case
  proof (cases "l_expires_at_ns l \<le> now")
    case True
    let ?q = "q\<lparr>q_status := dict_set w (after_expiry q w) (q_status q), q_leases := dict_pop w (q_leases q)\<rparr>"
    have "reconcile_loop now (x # ls) changed q = reconcile_loop now ls (changed @ [w]) ?q"
      using True it by (simp add: x after_expiry_def)
    moreover have "after_expiry ?q v = after_expiry q v" for v by (simp add: after_expiry_def)
    ultimately show ?thesis
      using Cons.IH [of ?q "changed @ [w]"] Cons.prems True by (auto simp: x)
  next
    case False
    with Cons show ?thesis by (auto simp: x)
  qed
qed simp

lemma reconcile_result:
  assumes "queue_inv q"
  shows "\<exists>p. q_reconcile now q = Inr (sort (expired now (q_leases q)), p)
    \<and> q_items p = q_items q \<and> q_results p = q_results q \<and> q_fencing p = q_fencing q \<and> dict_ok (q_leases p)
    \<and> (\<forall>w. map_of (q_leases p) w = (if w \<in> set (expired now (q_leases q)) then None else map_of (q_leases q) w))
    \<and> (\<forall>w. map_of (q_status p) w = (if w \<in> set (expired now (q_leases q)) then Some (after_expiry q w) else map_of (q_status q) w))
    \<and> fst ` set (q_status p) = fst ` set (q_status q)"
proof -
  have "set (expired now (q_leases q)) \<subseteq> fst ` set (q_status q)"
    using assms by (auto simp: queue_inv_def expired_def)
  with reconcile_loop_result [of "q_leases q" q now "[]"] assms show ?thesis
    by (auto simp: q_reconcile_def queue_inv_def)
qed

lemma expired_iff:
  assumes "queue_inv q"
  shows "w \<in> set (expired now (q_leases q)) \<longleftrightarrow> (\<exists>l. map_of (q_leases q) w = Some l \<and> l_expires_at_ns l \<le> now)"
proof -
  have "dict_ok (q_leases q)" using assms by (simp add: queue_inv_def)
  then show ?thesis by (force simp: expired_def map_of_eq_Some_iff)
qed

lemma keys_mono: "(\<And>k. map_of e k = None \<Longrightarrow> map_of d k = None) \<Longrightarrow> fst ` set d \<subseteq> fst ` set e"
  unfolding map_of_None_iff by blast

text \<open>Every operation keeps the invariant and extends the queue.\<close>

lemma submit_step:
  assumes "queue_inv q" and "q_submit item q = Inr (b, p)"
  shows "queue_inv p \<and> queue_ext q p"
  using submit_ok [OF assms(2)] assms(1)
  by (cases b) (auto simp: queue_inv_def queue_ext_def dead_token_def)

lemma lease_step:
  assumes "queue_inv q" and "q_lease w worker now dur res q = Inr (l, p)"
  shows "queue_inv p \<and> queue_ext q p"
proof -
  from lease_ok [OF assms(2)] obtain item where it: "map_of (q_items q) w = Some item"
    and l: "l_fencing_token l = q_fencing q + 1" "l_work_id l = w"
    and p: "p = q\<lparr>q_fencing := q_fencing q + 1, q_leases := dict_set w l (q_leases q),
       q_status := dict_set w WS_LEASED (q_status q)\<rparr>" by auto
  have w: "w \<in> fst ` set (q_items q)" using it by (rule map_of_Some_keys)
  have "queue_inv p" using assms(1) w l by (auto simp: queue_inv_def p intro: order.trans [of _ "q_fencing q"])
  moreover have "queue_ext q p" using l by (auto simp: queue_ext_def dead_token_def p)
  ultimately show ?thesis ..
qed

lemma heartbeat_step:
  assumes "queue_inv q" and "q_heartbeat w token now dur q = Inr (l, p)"
  shows "queue_inv p \<and> queue_ext q p"
proof -
  from heartbeat_ok [OF assms(2)] obtain l0 where l0: "map_of (q_leases q) w = Some l0"
    and l: "l_fencing_token l = l_fencing_token l0" "l_work_id l = w"
    and p: "p = q\<lparr>q_leases := dict_set w l (q_leases q)\<rparr>" by auto
  have w: "w \<in> fst ` set (q_leases q)" using l0 by (rule map_of_Some_keys)
  have "0 < l_fencing_token l0 \<and> l_fencing_token l0 \<le> q_fencing q" using assms(1) l0 by (simp add: queue_inv_def)
  then have "queue_inv p" using assms(1) w l by (auto simp: queue_inv_def p)
  moreover have "queue_ext q p" using l l0 by (auto simp: queue_ext_def dead_token_def p)
  ultimately show ?thesis ..
qed

lemma complete_step:
  assumes "queue_inv q" and "q_complete r q = Inr (b, p)"
  shows "queue_inv p \<and> queue_ext q p"
proof (cases b)
  case True
  from complete_ok [OF assms(2)] True obtain l where n: "map_of (q_results q) (wr_work_id r) = None"
    and l: "map_of (q_leases q) (wr_work_id r) = Some l"
    and p: "p = q\<lparr>q_results := dict_set (wr_work_id r) r (q_results q),
       q_status := dict_set (wr_work_id r) WS_COMPLETED (q_status q), q_leases := dict_pop (wr_work_id r) (q_leases q)\<rparr>"
    by auto
  have "wr_work_id r \<in> fst ` set (q_items q)"
    using map_of_Some_keys [OF l] assms(1) by (auto simp: queue_inv_def)
  then have "queue_inv p" using assms(1) unfolding queue_inv_def p by auto
  moreover have "queue_ext q p" using n by (auto simp: queue_ext_def dead_token_def p)
  ultimately show ?thesis ..
next
  case False
  with complete_ok [OF assms(2)] assms(1) show ?thesis by simp
qed

lemma reconcile_step:
  assumes "queue_inv q" and "q_reconcile now q = Inr (ws, p)"
  shows "queue_inv p \<and> queue_ext q p"
proof -
  from reconcile_result [OF assms(1), of now] assms(2)
  have p: "q_items p = q_items q" "q_results p = q_results q" "q_fencing p = q_fencing q" "dict_ok (q_leases p)"
    "\<And>w. map_of (q_leases p) w = (if w \<in> set (expired now (q_leases q)) then None else map_of (q_leases q) w)"
    "\<And>w. map_of (q_status p) w = (if w \<in> set (expired now (q_leases q)) then Some (after_expiry q w) else map_of (q_status q) w)"
    "fst ` set (q_status p) = fst ` set (q_status q)" by auto
  have "fst ` set (q_leases p) \<subseteq> fst ` set (q_leases q)"
    by (rule keys_mono) (simp only: p(5) if_cancel)
  also have "\<dots> \<subseteq> fst ` set (q_items q)" using assms(1) by (simp add: queue_inv_def)
  finally have keys: "fst ` set (q_leases p) \<subseteq> fst ` set (q_items q)" .
  have "queue_inv p"
    using assms(1) keys p(4) unfolding queue_inv_def p(1,2,3,5,6) set_map p(7)
    by (simp add: after_expiry_def)
  moreover have "queue_ext q p" by (auto simp: queue_ext_def dead_token_def p)
  ultimately show ?thesis ..
qed

lemma queue_step_inv: "queue_inv q \<Longrightarrow> queue_inv (queue_step q c) \<and> queue_ext q (queue_step q c)"
  by (cases c) (auto simp: outcome_def split: sum.splits
      dest: submit_step lease_step heartbeat_step complete_step reconcile_step)

interpretation queue: step_machine queue_step queue_inv queue_ext
  by unfold_locales (auto simp: queue_step_inv intro: queue_ext_trans)

text \<open>A dead token stays dead, also through restorations of snapshots in which it was dead.\<close>

interpretation dead: guarded_backups queue_step "\<lambda>_. True" "\<lambda>q. queue_inv q \<and> dead_token q w token" q_snapshot q_put
  for w token
proof
  fix q c assume "queue_inv q \<and> dead_token q w token"
  with queue_step_inv [of q c] show "queue_inv (queue_step q c) \<and> dead_token (queue_step q c) w token"
    by (simp add: queue_ext_def)
next
  fix q p show "q_put (q_snapshot q) p = q \<or> q_put (q_snapshot q) p = p"
    by (simp add: q_put_def q_restore_def q_snapshot_def require_def)
qed

lemma new_queue_inv: "queue_inv new_queue"
  by (simp add: queue_inv_def new_queue_def)

section \<open>Properties\<close>

definition demo_item :: "string \<Rightarrow> string \<Rightarrow> bool \<Rightarrow> work_item" where
  "demo_item w k irr = \<lparr>wi_work_id = w, wi_tenant_id = ''t'', wi_task_id = ''task'', wi_action_id = ''act'',
     wi_expected_aggregate_version = 0, wi_capability = ''c'', wi_isolation_grade = ''I2'', wi_deadline_ns = 100,
     wi_retry_class = ''r'', wi_idempotency_key = k, wi_trace_id = ''tr'', wi_policy_labels = {},
     wi_artifact_refs = [], wi_required_resources = [], wi_irreversible = irr\<rparr>"

definition demo_result :: "int \<Rightarrow> worker_result" where
  "demo_result token = \<lparr>wr_work_id = ''w'', wr_worker_id = ''x'', wr_fencing_token = token, wr_output_ref = ''o'',
     wr_effect_ids = [], wr_cleanup_complete = True, wr_fingerprint = ''f''\<rparr>"

text \<open>One item, leased by worker \<open>x\<close> under token 1 until time 10.\<close>

definition demo_queue :: "bool \<Rightarrow> work_queue" where
  "demo_queue irr = foldl queue_step new_queue [Submit (demo_item ''w'' ''k'' irr), LeaseWork ''w'' ''x'' 0 10 []]"

lemma demo_queue_inv: "queue_inv (demo_queue irr)"
  unfolding demo_queue_def by (rule queue.run_inv [OF new_queue_inv])

lemma dead_token_refused:
  assumes "dead_token q (wr_work_id r) (wr_fencing_token r)"
  shows "outcome q (q_complete r q) = q \<and> (\<forall>p. q_complete r q \<noteq> Inr (True, p))
    \<and> require_lease (wr_work_id r) (wr_fencing_token r) q = Inl (ValueError ''stale or missing fencing token'')"
proof -
  have l: "require_lease (wr_work_id r) (wr_fencing_token r) q = Inl (ValueError ''stale or missing fencing token'')"
    using assms by (auto simp: dead_token_def require_lease_def require_def split: option.splits)
  then show ?thesis by (auto simp: q_complete_def require_def split: option.splits)
qed

lemma heartbeat_dead: "require_lease w token q = Inl e \<Longrightarrow> q_heartbeat w token now dur q = Inl e"
  by (simp add: q_heartbeat_def)

text \<open>
  C10: Fencing. When the reconciliation has found a lease expired, its token is dead for ever: after
  any later calls, which may take snapshots of the queue and restore any snapshot taken since the
  reconciliation, the worker that held it cannot renew the lease, and a result it sends changes
  nothing and is not accepted.
\<close>

theorem expired_lease_fenced:
  assumes "queue_inv q" and "map_of (q_leases q) w = Some l" and "l_expires_at_ns l \<le> now"
    and "q_reconcile now q = Inr (ws, p)"
    and "wr_work_id r = w" and "wr_fencing_token r = l_fencing_token l"
  shows "w \<in> set ws
    \<and> q_heartbeat w (l_fencing_token l) t dur (queue_run p cs) = Inl (ValueError ''stale or missing fencing token'')
    \<and> queue_step (queue_run p cs) (Complete r) = queue_run p cs
    \<and> (\<forall>s. q_complete r (queue_run p cs) \<noteq> Inr (True, s))"
proof -
  have ex: "w \<in> set (expired now (q_leases q))" using assms(2,3) expired_iff [OF assms(1)] by blast
  have p: "queue_inv p" using reconcile_step [OF assms(1,4)] by simp
  have "map_of (q_leases p) w = None" "q_fencing p = q_fencing q" and ws: "w \<in> set ws"
    using reconcile_result [OF assms(1), of now] assms(4) ex by auto
  moreover have "l_fencing_token l \<le> q_fencing q" using assms(1,2) by (simp add: queue_inv_def)
  ultimately have "dead_token p w (l_fencing_token l)" by (simp add: dead_token_def)
  then have "dead_token (queue_run p cs) (wr_work_id r) (wr_fencing_token r)"
    using dead.backed_run_keeps [of p w "l_fencing_token l" cs] p assms(5,6) by (simp add: queue_run_def)
  from dead_token_refused [OF this] ws show ?thesis using assms(5,6) heartbeat_dead by auto
qed

theorem expired_lease_fenced_witness:
  "queue_step (queue_run (queue_step (demo_queue False) (Reconcile 10))
      [Take_snapshot, Call (LeaseWork ''w'' ''y'' 20 5 []), Restore_snapshot 0, Call (LeaseWork ''w'' ''z'' 30 5 [])])
     (Complete (demo_result 1))
   = queue_run (queue_step (demo_queue False) (Reconcile 10))
      [Take_snapshot, Call (LeaseWork ''w'' ''y'' 20 5 []), Restore_snapshot 0, Call (LeaseWork ''w'' ''z'' 30 5 [])]"
proof -
  let ?q = "demo_queue False"
  obtain p where p: "q_reconcile 10 ?q = Inr (sort (expired 10 (q_leases ?q)), p)"
    using reconcile_result [OF demo_queue_inv] by blast
  let ?l = "\<lparr>l_work_id = ''w'', l_worker_id = ''x'', l_fencing_token = 1, l_expires_at_ns = 10, l_heartbeat_at_ns = 0\<rparr>"
  have l: "map_of (q_leases ?q) ''w'' = Some ?l" by code_simp
  have s: "queue_step ?q (Reconcile 10) = p" using p by simp
  have "wr_work_id (demo_result 1) = ''w''" "wr_fencing_token (demo_result 1) = l_fencing_token ?l" "l_expires_at_ns ?l \<le> 10"
    by (simp_all add: demo_result_def)
  from expired_lease_fenced [OF demo_queue_inv l this(3) p this(1,2)] show ?thesis unfolding s by blast
qed

text \<open>
  The fencing counter is part of the snapshot. A snapshot that is older than the reconciliation
  therefore brings the expired lease back with its token, and the result of the old worker is
  accepted; and a snapshot older than a lease makes the queue issue the token of that lease
  a second time.
\<close>

lemma older_snapshot_revives_token:
  "map_option fst (case q_complete (demo_result 1)
      (queue_run (demo_queue False) [Take_snapshot, Call (Reconcile 10), Restore_snapshot 0]) of
        Inl _ \<Rightarrow> None | Inr x \<Rightarrow> Some x) = Some True"
  by code_simp

lemma older_snapshot_reissues_token:
  "map_option l_worker_id (map_of (q_leases (queue_run new_queue
      [Call (Submit (demo_item ''w'' ''k'' False)), Take_snapshot, Call (LeaseWork ''w'' ''x'' 0 10 []), Restore_snapshot 0,
       Call (LeaseWork ''w'' ''y'' 0 10 [])])) ''w'') = Some ''y''
   \<and> map_option l_fencing_token (map_of (q_leases (queue_run new_queue
      [Call (Submit (demo_item ''w'' ''k'' False)), Take_snapshot, Call (LeaseWork ''w'' ''x'' 0 10 []), Restore_snapshot 0,
       Call (LeaseWork ''w'' ''y'' 0 10 [])])) ''w'') = map_option l_fencing_token (map_of (q_leases (demo_queue False)) ''w'')"
  by code_simp

text \<open>
  A work item is completed at most once: after a result has been accepted, every other
  result for the item is refused and the same result is reported as a duplicate, whatever
  happens in between; neither changes the queue.
\<close>

theorem completion_at_most_once:
  assumes "queue_inv q" and "q_complete r q = Inr (True, p)" and "wr_work_id r' = wr_work_id r"
  shows "q_complete r' (foldl queue_step p cs) =
    (if r' = r then Inr (False, foldl queue_step p cs) else Inl (ValueError ''conflicting duplicate worker result''))"
proof -
  have "queue_inv p" using complete_step [OF assms(1,2)] by simp
  then have "queue_ext p (foldl queue_step p cs)" by (rule queue.run_ext)
  moreover have "map_of (q_results p) (wr_work_id r) = Some r" using complete_ok [OF assms(2)] by simp
  ultimately have "map_of (q_results (foldl queue_step p cs)) (wr_work_id r) = Some r" by (simp add: queue_ext_def)
  then show ?thesis by (simp add: q_complete_def assms(3) require_def)
qed

theorem completion_at_most_once_witness:
  "\<exists>p. q_complete (demo_result 1) (demo_queue True) = Inr (True, p)
     \<and> q_complete (demo_result 1) p = Inr (False, p)"
proof -
  have "map_option fst (case q_complete (demo_result 1) (demo_queue True) of Inl _ \<Rightarrow> None | Inr x \<Rightarrow> Some x) = Some True"
    by code_simp
  then obtain p where p: "q_complete (demo_result 1) (demo_queue True) = Inr (True, p)"
    by (auto split: sum.splits)
  with completion_at_most_once [OF demo_queue_inv p refl, of "[]"] show ?thesis by simp
qed

text \<open>The items a run submits.\<close>

definition submits :: "string \<Rightarrow> queue_call \<Rightarrow> bool" where
  "submits w c \<longleftrightarrow> (case c of Submit i \<Rightarrow> wi_work_id i = w | _ \<Rightarrow> False)"

definition abandoned :: "string \<Rightarrow> work_queue \<Rightarrow> bool" where
  "abandoned w q \<longleftrightarrow> map_of (q_status q) w = Some WS_RECONCILIATION_REQUIRED \<and> map_of (q_leases q) w = None"

lemma abandoned_step:
  assumes "queue_inv q" and "abandoned w q" and "\<not> submits w c"
  shows "abandoned w (queue_step q c)"
proof (cases c)
  case (Submit i)
  with assms(2,3) show ?thesis
    by (auto simp: outcome_def abandoned_def submits_def split: sum.splits dest!: submit_ok)
next
  case (LeaseWork v worker now dur res)
  with assms(2) show ?thesis
    by (auto simp: outcome_def abandoned_def split: sum.splits dest!: lease_ok)
next
  case (Heartbeat v token now dur)
  with assms(2) show ?thesis
    by (auto simp: outcome_def abandoned_def split: sum.splits dest!: heartbeat_ok)
next
  case (Complete r)
  with assms(2) show ?thesis
    by (auto simp: outcome_def abandoned_def split: sum.splits if_splits dest!: complete_ok)
next
  case (Reconcile now)
  from reconcile_result [OF assms(1), of now] assms(2) expired_iff [OF assms(1), of w now] show ?thesis
    by (auto simp: Reconcile abandoned_def)
qed

lemma abandoned_run:
  "queue_inv q \<Longrightarrow> abandoned w q \<Longrightarrow> list_all (\<lambda>c. \<not> submits w c) cs \<Longrightarrow> abandoned w (foldl queue_step q cs)"
  by (induction cs arbitrary: q) (auto simp: abandoned_step queue_step_inv)

text \<open>
  An irreversible item whose lease expired is not run again: reconciliation marks it, and as
  long as its identifier is not submitted anew no call leases it or completes it. (A reversible
  one is ready again.)
\<close>

theorem irreversible_work_not_rerun:
  assumes "queue_inv q" and "map_of (q_items q) w = Some item" and "map_of (q_leases q) w = Some l"
    and "l_expires_at_ns l \<le> now" and "q_reconcile now q = Inr (ws, p)"
    and "list_all (\<lambda>c. \<not> submits w c) cs"
  shows "q_status_of w p = Inr (if wi_irreversible item then WS_RECONCILIATION_REQUIRED else WS_READY)
    \<and> (wi_irreversible item \<longrightarrow>
        \<not> is_ok (q_lease w worker t dur res (foldl queue_step p cs))
        \<and> q_status_of w (foldl queue_step p cs) = Inr WS_RECONCILIATION_REQUIRED)"
proof -
  have ex: "w \<in> set (expired now (q_leases q))" using assms(3,4) expired_iff [OF assms(1)] by blast
  have p: "queue_inv p" using reconcile_step [OF assms(1,5)] by simp
  have st: "map_of (q_status p) w = Some (after_expiry q w)" "map_of (q_leases p) w = None"
    using reconcile_result [OF assms(1), of now] assms(5) ex by auto
  show ?thesis
  proof (cases "wi_irreversible item")
    case True
    then have "abandoned w p" using st assms(2) by (simp add: abandoned_def after_expiry_def)
    then have ab: "abandoned w (foldl queue_step p cs)" by (rule abandoned_run [OF p _ assms(6)])
    then have "\<not> is_ok (q_lease w worker t dur res (foldl queue_step p cs))"
      by (auto simp: is_ok_iff abandoned_def dest!: lease_ok)
    then show ?thesis using st assms(2) True ab by (simp add: q_status_of_def after_expiry_def abandoned_def)
  next
    case False
    then show ?thesis using st assms(2) by (simp add: q_status_of_def after_expiry_def)
  qed
qed

theorem irreversible_work_not_rerun_witness:
  "\<not> is_ok (q_lease ''w'' ''y'' 20 5 [] (queue_step (demo_queue True) (Reconcile 10)))"
proof -
  let ?q = "demo_queue True"
  obtain p where p: "q_reconcile 10 ?q = Inr (sort (expired 10 (q_leases ?q)), p)"
    using reconcile_result [OF demo_queue_inv] by blast
  let ?l = "\<lparr>l_work_id = ''w'', l_worker_id = ''x'', l_fencing_token = 1, l_expires_at_ns = 10, l_heartbeat_at_ns = 0\<rparr>"
  have l: "map_of (q_leases ?q) ''w'' = Some ?l" by code_simp
  have "map_option wi_irreversible (map_of (q_items ?q) ''w'') = Some True" by code_simp
  then obtain item where i: "map_of (q_items ?q) ''w'' = Some item" "wi_irreversible item" by auto
  from irreversible_work_not_rerun [OF demo_queue_inv i(1) l _ p, of "[]"] i(2) p show ?thesis by simp
qed

text \<open>
  An item submitted under the identifier of another one, with a new idempotency key, replaces it
  and is ready whatever the status of the first was.
\<close>

lemma resubmission_resets_status:
  "q_status_of ''w'' (foldl queue_step (demo_queue True) [Reconcile 10, Submit (demo_item ''w'' ''other'' True)]) = Inr WS_READY"
  by code_simp

text \<open>
  The backup of any queue that was reached by calls is accepted by \<open>restore\<close> and gives the
  same queue back.
\<close>

theorem queue_backup_restores:
  "q_restore (q_snapshot (foldl queue_step new_queue cs)) q0 = Inr (foldl queue_step new_queue cs)"
  using queue.run_inv [OF new_queue_inv, of cs]
  by (simp add: q_restore_def q_snapshot_def queue_inv_def)

end
