(* ===== verification/Object_Store.thy ===== *)
theory Object_Store
  imports DNC_Prelude Complex_Main
begin

text \<open>
  The content-addressed object store (\<open>persistence/object_store.py\<close>) and the recovery
  objectives (\<open>persistence/recovery.py\<close>). SHA-256 is the parameter \<open>sha\<close>, from byte strings
  of any type to hexadecimal digests. The lock makes the methods atomic.
\<close>

type_synonym 'b object_store = "(string \<times> string, 'b) dict"

definition os_put :: "('b \<Rightarrow> string) \<Rightarrow> 'b \<Rightarrow> string \<Rightarrow> 'b object_store \<Rightarrow> string \<times> 'b object_store" where
  "os_put sha bytes tenant s = (sha bytes, dict_set (tenant, sha bytes) bytes s)"

definition os_get :: "('b \<Rightarrow> string) \<Rightarrow> string \<Rightarrow> string \<Rightarrow> 'b object_store \<Rightarrow> 'b res" where
  "os_get sha digest tenant s =
     (case map_of s (tenant, digest) of
        None \<Rightarrow> Inl (KeyError ''unknown tenant-scoped object'')
      | Some bytes \<Rightarrow> require (sha bytes = digest) (ValueError ''object integrity verification failed'') (Inr bytes))"

definition corrupt_for_test :: "string \<Rightarrow> string \<Rightarrow> 'b \<Rightarrow> 'b object_store \<Rightarrow> 'b object_store" where
  "corrupt_for_test digest tenant bytes s = dict_set (tenant, digest) bytes s"

definition os_snapshot :: "'b object_store \<Rightarrow> 'b object_store" where
  "os_snapshot s = s"

fun check_backup :: "('b \<Rightarrow> string) \<Rightarrow> 'b object_store \<Rightarrow> unit res" where
  "check_backup sha [] = Inr ()"
| "check_backup sha (((tenant, digest), bytes) # rest) =
     require (sha bytes = digest) (ValueError ''backup object integrity verification failed'')
     (require (tenant \<noteq> []) (ValueError ''backup object tenant MUST be non-empty'')
     (check_backup sha rest))"

definition os_restore :: "('b \<Rightarrow> string) \<Rightarrow> 'b object_store \<Rightarrow> 'b object_store \<Rightarrow> 'b object_store res" where
  "os_restore sha backup s = (case check_backup sha backup of Inl e \<Rightarrow> Inl e | Inr _ \<Rightarrow> Inr backup)"

datatype 'b store_call = Put 'b string | Corrupt string string 'b

fun store_step :: "('b \<Rightarrow> string) \<Rightarrow> 'b object_store \<Rightarrow> 'b store_call \<Rightarrow> 'b object_store" where
  "store_step sha s (Put bytes tenant) = snd (os_put sha bytes tenant s)"
| "store_step sha s (Corrupt digest tenant bytes) = corrupt_for_test digest tenant bytes s"

text \<open>Whether a call damages the stored object of a tenant.\<close>

definition damages :: "('b \<Rightarrow> string) \<Rightarrow> string \<Rightarrow> string \<Rightarrow> 'b store_call \<Rightarrow> bool" where
  "damages sha digest tenant c =
     (case c of Put _ _ \<Rightarrow> False | Corrupt d t bytes \<Rightarrow> d = digest \<and> t = tenant \<and> sha bytes \<noteq> digest)"

definition holds_object :: "('b \<Rightarrow> string) \<Rightarrow> string \<Rightarrow> string \<Rightarrow> 'b object_store \<Rightarrow> bool" where
  "holds_object sha digest tenant s \<longleftrightarrow> (\<exists>bytes. map_of s (tenant, digest) = Some bytes \<and> sha bytes = digest)"

lemma holds_object_step:
  "holds_object sha digest tenant s \<Longrightarrow> \<not> damages sha digest tenant c \<Longrightarrow> holds_object sha digest tenant (store_step sha s c)"
  by (cases c) (auto simp: holds_object_def damages_def os_put_def corrupt_for_test_def)

lemma holds_object_run:
  "holds_object sha digest tenant s \<Longrightarrow> list_all (\<lambda>c. \<not> damages sha digest tenant c) cs
   \<Longrightarrow> holds_object sha digest tenant (foldl (store_step sha) s cs)"
  by (induction cs arbitrary: s) (auto simp: holds_object_step)

lemma check_backup_iff:
  "check_backup sha s = Inr () \<longleftrightarrow> (\<forall>((tenant, digest), bytes)\<in>set s. sha bytes = digest \<and> tenant \<noteq> [])"
  by (induction s) auto

text \<open>
  Objects are addressed by content: what \<open>get\<close> returns always has the digest that was asked
  for, also in a damaged store. An object that was put can be got for its tenant after any
  other calls that do not damage it, and it is the same object unless SHA-256 has a collision.
\<close>

theorem stored_object_intact:
  assumes "s = foldl (store_step sha) (snd (os_put sha bytes tenant s0)) cs"
  shows "(\<forall>digest t found. os_get sha digest t s = Inr found \<longrightarrow> sha found = digest)
    \<and> (list_all (\<lambda>c. \<not> damages sha (sha bytes) tenant c) cs \<longrightarrow>
        (\<exists>found. os_get sha (sha bytes) tenant s = Inr found \<and> (found = bytes \<or> (sha found = sha bytes \<and> found \<noteq> bytes))))"
proof (intro conjI allI impI)
  fix digest t found
  assume "os_get sha digest t s = Inr found"
  then show "sha found = digest" by (auto simp: os_get_def split: option.splits)
next
  assume nd: "list_all (\<lambda>c. \<not> damages sha (sha bytes) tenant c) cs"
  have "holds_object sha (sha bytes) tenant (snd (os_put sha bytes tenant s0))"
    by (simp add: holds_object_def os_put_def)
  then have "holds_object sha (sha bytes) tenant s" unfolding assms by (rule holds_object_run [OF _ nd])
  then show "\<exists>found. os_get sha (sha bytes) tenant s = Inr found \<and> (found = bytes \<or> (sha found = sha bytes \<and> found \<noteq> bytes))"
    by (auto simp: holds_object_def os_get_def)
qed

theorem stored_object_intact_witness:
  "\<exists>found. os_get id ''x'' ''t'' (foldl (store_step id) (snd (os_put id ''x'' ''t'' [])) [Put ''y'' ''t'']) = Inr found"
  using stored_object_intact [of _ id "''x''" "''t''" "[]" "[Put ''y'' ''t'']", OF refl] by (auto simp: damages_def)

text \<open>
  \<open>restore\<close> accepts exactly the backups in which every object has its digest and a tenant,
  and then the store is the backup; a store in which some object was put for the empty tenant
  has a backup that cannot be restored.
\<close>

theorem backup_accepted_iff:
  "(os_restore sha backup s = Inr backup \<longleftrightarrow> (\<forall>((tenant, digest), bytes)\<in>set backup. sha bytes = digest \<and> tenant \<noteq> []))
   \<and> \<not> is_ok (os_restore sha (os_snapshot (snd (os_put sha bytes [] s))) t)"
proof
  show "os_restore sha backup s = Inr backup \<longleftrightarrow> (\<forall>((tenant, digest), bytes)\<in>set backup. sha bytes = digest \<and> tenant \<noteq> [])"
    unfolding check_backup_iff [symmetric] by (auto simp: os_restore_def split: sum.splits)
  let ?s = "dict_set ([], sha bytes) bytes s"
  have "(([], sha bytes), bytes) \<in> set ?s" by (metis map_of_SomeD map_of_dict_set)
  then have "check_backup sha ?s \<noteq> Inr ()" unfolding check_backup_iff by force
  then show "\<not> is_ok (os_restore sha (os_snapshot (snd (os_put sha bytes [] s))) t)"
    by (auto simp: os_restore_def os_snapshot_def os_put_def split: sum.splits)
qed

theorem backup_accepted_iff_witness:
  "os_restore id [((''t'', ''x''), ''x'')] [] = Inr [((''t'', ''x''), ''x'')]"
  by (rule backup_accepted_iff [THEN conjunct1, THEN iffD2]) simp

section \<open>Recovery objectives\<close>

record recovery_objectives =
  maximum_lost_events :: int
  maximum_recovery_ticks :: int
  minimum_availability :: real

record fault_campaign_result =
  fc_faults :: "string list"
  fc_lost_events :: int
  fc_recovery_ticks :: int
  fc_availability :: real
  fc_duplicate_irreversible_effects :: int
  fc_semantic_match :: bool
  fc_tenant_isolation_violations :: int

definition meets :: "fault_campaign_result \<Rightarrow> recovery_objectives \<Rightarrow> bool" where
  "meets r ob \<longleftrightarrow>
     fc_lost_events r \<le> maximum_lost_events ob \<and> fc_recovery_ticks r \<le> maximum_recovery_ticks ob
     \<and> minimum_availability ob \<le> fc_availability r \<and> fc_duplicate_irreversible_effects r = 0
     \<and> fc_semantic_match r \<and> fc_tenant_isolation_violations r = 0"

lemma meets_weaker:
  "meets r ob \<Longrightarrow> maximum_lost_events ob \<le> maximum_lost_events ob'
   \<Longrightarrow> maximum_recovery_ticks ob \<le> maximum_recovery_ticks ob'
   \<Longrightarrow> minimum_availability ob' \<le> minimum_availability ob \<Longrightarrow> meets r ob'"
  by (auto simp: meets_def)

end
