(* ===== verification/Handoff.thy ===== *)
theory Handoff
  imports DNC_Prelude Complex_Main
begin

text \<open>
  The distributed handoff protocol (\<open>distributed/protocol.py\<close>): messages, the receiver that
  discards duplicates within a window, and the coordinator. The clock and fresh identifiers
  are arguments of the calls that read them; time stamps are only compared, so they are real
  numbers. On a state transfer the guarded block cannot raise for typed messages, so the
  refusal (\<open>_make_nack\<close>) is modelled as a function but no branch of \<open>receive_message\<close> reaches it.
\<close>

section \<open>Messages, receiver and coordinator\<close>

datatype handoff_message_type =
  HM_PREPARE | HM_COMMIT | HM_ABORT | HM_STATE_TRANSFER | HM_ACK | HM_NACK | HM_HEARTBEAT

datatype handoff_status = HS_PENDING | HS_PREPARING | HS_COMMITTED | HS_ABORTED | HS_FAILED

type_synonym payload = "(string, pyval) dict"

record handoff_message =
  hm_message_id :: string
  hm_handoff_id :: string
  hm_sender :: string
  hm_receiver :: string
  hm_type :: handoff_message_type
  hm_step_index :: int
  hm_payload :: payload
  hm_timestamp :: real
  hm_provenance_ref :: string
  hm_retry_count :: int

record processed =
  pr_result :: payload
  pr_timestamp :: real

record receiver =
  window_size :: int
  seen_ids :: "string set"
  message_history :: "(string, processed) dict"

definition new_receiver :: "int \<Rightarrow> receiver" where
  "new_receiver n = \<lparr>window_size = n, seen_ids = {}, message_history = []\<rparr>"

definition is_duplicate :: "receiver \<Rightarrow> string \<Rightarrow> bool" where
  "is_duplicate r mid \<longleftrightarrow> mid \<in> seen_ids r"

definition record_message :: "real \<Rightarrow> handoff_message \<Rightarrow> payload \<Rightarrow> receiver \<Rightarrow> receiver" where
  "record_message now m result r =
     (if hm_message_id m \<in> seen_ids r then r
      else let seen = insert (hm_message_id m) (seen_ids r);
               hist = dict_set (hm_message_id m) \<lparr>pr_result = result, pr_timestamp = now\<rparr> (message_history r);
               r' = r\<lparr>seen_ids := seen, message_history := hist\<rparr>
           in if window_size r < int (card seen)
              then let oldest = fst (hd (sort_key (\<lambda>x. pr_timestamp (snd x)) hist))
                   in r'\<lparr>seen_ids := seen - {oldest}, message_history := dict_pop oldest hist\<rparr>
              else r')"

definition get_cached_result :: "receiver \<Rightarrow> string \<Rightarrow> payload option" where
  "get_cached_result r mid = map_option pr_result (map_of (message_history r) mid)"

record handoff_record =
  hr_handoff_id :: string
  hr_sender :: string
  hr_receiver :: string
  hr_status :: handoff_status
  hr_prepare_sent_at :: "real option"
  hr_commit_sent_at :: "real option"
  hr_completed_at :: "real option"
  hr_abort_sent_at :: "real option"
  hr_error :: "string option"
  hr_message_count :: int
  hr_retry_count :: int

record coordinator =
  co_node_id :: string
  co_mode :: string
  handoff_records :: "(string, handoff_record) dict"
  participant_states :: "(string, payload) dict"

definition new_coordinator :: "string \<Rightarrow> string \<Rightarrow> coordinator" where
  "new_coordinator node mode = \<lparr>co_node_id = node, co_mode = mode, handoff_records = [], participant_states = []\<rparr>"

definition initiate_handoff ::
  "string \<Rightarrow> string \<Rightarrow> real \<Rightarrow> string \<Rightarrow> string \<Rightarrow> payload \<Rightarrow> string \<Rightarrow> int \<Rightarrow> coordinator
   \<Rightarrow> handoff_message \<times> coordinator" where
  "initiate_handoff hid mid now sender target p prov step c =
     (\<lparr>hm_message_id = mid, hm_handoff_id = hid, hm_sender = sender, hm_receiver = target,
       hm_type = HM_STATE_TRANSFER, hm_step_index = step, hm_payload = p, hm_timestamp = now,
       hm_provenance_ref = prov, hm_retry_count = 0\<rparr>,
      c\<lparr>handoff_records := dict_set hid
           \<lparr>hr_handoff_id = hid, hr_sender = sender, hr_receiver = target, hr_status = HS_PENDING,
            hr_prepare_sent_at = None, hr_commit_sent_at = None, hr_completed_at = None, hr_abort_sent_at = None,
            hr_error = None, hr_message_count = 0, hr_retry_count = 0\<rparr> (handoff_records c),
        participant_states := dict_set hid p (participant_states c)\<rparr>)"

definition make_reply :: "handoff_message_type \<Rightarrow> payload \<Rightarrow> string \<Rightarrow> real \<Rightarrow> handoff_message \<Rightarrow> handoff_message" where
  "make_reply ty p mid now m =
     \<lparr>hm_message_id = mid, hm_handoff_id = hm_handoff_id m, hm_sender = hm_receiver m, hm_receiver = hm_sender m,
      hm_type = ty, hm_step_index = hm_step_index m, hm_payload = p, hm_timestamp = now,
      hm_provenance_ref = hm_provenance_ref m, hm_retry_count = 0\<rparr>"

definition make_ack :: "bool \<Rightarrow> string \<Rightarrow> real \<Rightarrow> handoff_message \<Rightarrow> handoff_message" where
  "make_ack already = make_reply HM_ACK [(''already_processed'', PBool already)]"

definition make_nack :: "string \<Rightarrow> string \<Rightarrow> real \<Rightarrow> handoff_message \<Rightarrow> handoff_message" where
  "make_nack err = make_reply HM_NACK [(''error'', PStr err)]"

definition update_record :: "real \<Rightarrow> string \<Rightarrow> handoff_status \<Rightarrow> string option \<Rightarrow> coordinator \<Rightarrow> coordinator" where
  "update_record now hid st err c =
     (case map_of (handoff_records c) hid of
        None \<Rightarrow> c
      | Some r \<Rightarrow>
          let r1 = r\<lparr>hr_status := st\<rparr>;
              r2 = (case err of Some (x # xs) \<Rightarrow> r1\<lparr>hr_error := Some (x # xs)\<rparr> | _ \<Rightarrow> r1);
              r3 = (if st = HS_COMMITTED then r2\<lparr>hr_completed_at := Some now\<rparr> else r2)
          in c\<lparr>handoff_records := dict_set hid r3 (handoff_records c)\<rparr>)"

text \<open>A delivery: the message, the clock readings and the identifier drawn while it is handled.\<close>

record delivery =
  d_message :: handoff_message
  d_record_time :: real
  d_update_time :: real
  d_reply_time :: real
  d_reply_id :: string

definition receive_message ::
  "delivery \<Rightarrow> coordinator \<times> receiver \<Rightarrow> handoff_message option \<times> coordinator \<times> receiver" where
  "receive_message d s =
     (let (c, r) = s; m = d_message d; hid = hm_handoff_id m;
          ack = (\<lambda>already. Some (make_ack already (d_reply_id d) (d_reply_time d) m));
          rec = (\<lambda>st. record_message (d_record_time d) m [(''status'', PStr st)] r)
      in if is_duplicate r (hm_message_id m) then (ack True, c, r)
         else case hm_type m of
           HM_STATE_TRANSFER \<Rightarrow>
             (ack False,
              update_record (d_update_time d) hid HS_COMMITTED None
                (c\<lparr>participant_states := dict_set hid (hm_payload m) (participant_states c)\<rparr>),
              rec ''accepted'')
         | HM_COMMIT \<Rightarrow> (ack False, update_record (d_update_time d) hid HS_COMMITTED None c, rec ''committed'')
         | HM_ABORT \<Rightarrow>
             (ack False,
              update_record (d_update_time d) hid HS_ABORTED None
                (c\<lparr>participant_states := dict_pop hid (participant_states c)\<rparr>),
              rec ''aborted'')
         | _ \<Rightarrow> (None, c, r))"

definition get_record :: "coordinator \<Rightarrow> string \<Rightarrow> handoff_record option" where
  "get_record c hid = map_of (handoff_records c) hid"

definition list_pending_handoffs :: "coordinator \<Rightarrow> string list" where
  "list_pending_handoffs c = map fst (filter (\<lambda>(_, r). hr_status r = HS_PENDING) (handoff_records c))"

text \<open>\<open>None\<close>: no contract; \<open>Some None\<close>: a contract without the attribute \<open>distribution_model\<close>.\<close>

definition handoff_needs_distribution :: "string option option \<Rightarrow> bool" where
  "handoff_needs_distribution contract =
     (case contract of
        None \<Rightarrow> False
      | Some attr \<Rightarrow> (case attr of None \<Rightarrow> ''single_node'' | Some s \<Rightarrow> s)
          \<in> {''distributed'', ''multi_node'', ''cross_process''})"

section \<open>The deduplication window\<close>

definition receiver_inv :: "receiver \<Rightarrow> bool" where
  "receiver_inv r \<longleftrightarrow>
     seen_ids r = fst ` set (message_history r) \<and> dict_ok (message_history r)
     \<and> int (card (seen_ids r)) \<le> max 0 (window_size r)"

definition deliver :: "coordinator \<times> receiver \<Rightarrow> delivery \<Rightarrow> coordinator \<times> receiver" where
  "deliver s d = snd (receive_message d s)"

lemma record_message_inv:
  assumes "receiver_inv r"
  shows "receiver_inv (record_message now m result r)"
proof (cases "hm_message_id m \<in> seen_ids r")
  case False
  let ?i = "hm_message_id m"
  let ?hist = "dict_set ?i \<lparr>pr_result = result, pr_timestamp = now\<rparr> (message_history r)"
  let ?old = "fst (hd (sort_key (\<lambda>x. pr_timestamp (snd x)) ?hist))"
  have keys: "fst ` set ?hist = insert ?i (seen_ids r)" using assms by (simp add: receiver_inv_def)
  have fin: "finite (seen_ids r)" using assms by (simp add: receiver_inv_def)
  have ne: "sort_key (\<lambda>x. pr_timestamp (snd x)) ?hist \<noteq> []"
    using keys by (metis empty_set image_empty insert_not_empty set_sort)
  then have "?old \<in> insert ?i (seen_ids r)" unfolding keys [symmetric] by (metis hd_in_set image_eqI set_sort)
  then have "card (insert ?i (seen_ids r) - {?old}) = card (seen_ids r)" using False fin by simp
  then show ?thesis
    using False assms keys fin by (auto simp: record_message_def Let_def receiver_inv_def)
qed (simp add: record_message_def assms)

lemma record_message_window [simp]: "window_size (record_message now m result r) = window_size r"
  by (simp add: record_message_def Let_def)

lemma record_message_seen:
  assumes "finite (seen_ids r)" and "int (card (insert (hm_message_id m) (seen_ids r))) \<le> window_size r"
  shows "seen_ids (record_message now m result r) = insert (hm_message_id m) (seen_ids r)"
  using assms by (auto simp: record_message_def Let_def insert_absorb)

lemma deliver_duplicate: "is_duplicate (snd s) (hm_message_id (d_message d)) \<Longrightarrow> deliver s d = s"
  by (cases s) (simp add: deliver_def receive_message_def)

lemma deliver_receiver:
  "snd (deliver s d) = snd s
   \<or> (\<exists>st. snd (deliver s d) = record_message (d_record_time d) (d_message d) [(''status'', PStr st)] (snd s))"
  by (cases s) (auto simp: deliver_def receive_message_def Let_def split: handoff_message_type.splits)

lemma deliver_inv: "receiver_inv (snd s) \<Longrightarrow> receiver_inv (snd (deliver s d)) \<and> window_size (snd (deliver s d)) = window_size (snd s)"
  using deliver_receiver [of s d] by (auto simp: record_message_inv)

interpretation handoff: step_machine deliver "\<lambda>s. receiver_inv (snd s)"
    "\<lambda>s t. window_size (snd t) = window_size (snd s)"
  by unfold_locales (simp_all add: deliver_inv)

text \<open>Whether a message of the type is recorded when it is handled.\<close>

definition effective :: "handoff_message_type \<Rightarrow> bool" where
  "effective ty \<longleftrightarrow> ty \<in> {HM_STATE_TRANSFER, HM_COMMIT, HM_ABORT}"

lemma deliver_seen:
  assumes "receiver_inv (snd s)" and "int (card (insert (hm_message_id (d_message d)) (seen_ids (snd s)))) \<le> window_size (snd s)"
  shows "seen_ids (snd (deliver s d)) =
    (if effective (hm_type (d_message d)) then insert (hm_message_id (d_message d)) (seen_ids (snd s)) else seen_ids (snd s))"
proof -
  have "finite (seen_ids (snd s))" using assms(1) by (simp add: receiver_inv_def)
  with record_message_seen [OF this assms(2)] show ?thesis
    by (cases s) (auto simp: deliver_def receive_message_def Let_def is_duplicate_def effective_def insert_absorb
        split: handoff_message_type.splits)
qed

text \<open>The deliveries without those of a message handled before: the protocol without retries.\<close>

fun without_retries :: "string set \<Rightarrow> delivery list \<Rightarrow> delivery list" where
  "without_retries seen [] = []"
| "without_retries seen (d # ds) =
     (if hm_message_id (d_message d) \<in> seen then without_retries seen ds
      else d # without_retries (if effective (hm_type (d_message d)) then insert (hm_message_id (d_message d)) seen else seen) ds)"

lemma retries_absorbed_run:
  assumes "receiver_inv (snd s)"
    and "int (card (seen_ids (snd s) \<union> (\<lambda>d. hm_message_id (d_message d)) ` set ds)) \<le> window_size (snd s)"
  shows "foldl deliver s ds = foldl deliver s (without_retries (seen_ids (snd s)) ds)"
  using assms
proof (induction ds arbitrary: s)
  case (Cons d ds)
  let ?i = "hm_message_id (d_message d)" and ?ids = "(\<lambda>d. hm_message_id (d_message d)) ` set ds"
  have fin: "finite (seen_ids (snd s))" using Cons.prems(1) by (simp add: receiver_inv_def)
  show ?case
  proof (cases "?i \<in> seen_ids (snd s)")
    case True
    then have "deliver s d = s" by (simp add: deliver_duplicate is_duplicate_def)
    with True Cons.IH [OF Cons.prems(1)] Cons.prems(2) show ?thesis by (simp add: insert_absorb)
  next
    case False
    have "card (insert ?i (seen_ids (snd s))) \<le> card (seen_ids (snd s) \<union> insert ?i ?ids)"
      using fin by (intro card_mono) auto
    then have seen: "seen_ids (snd (deliver s d)) =
        (if effective (hm_type (d_message d)) then insert ?i (seen_ids (snd s)) else seen_ids (snd s))"
      using Cons.prems by (intro deliver_seen) auto
    have inv: "receiver_inv (snd (deliver s d))" "window_size (snd (deliver s d)) = window_size (snd s)"
      using deliver_inv [OF Cons.prems(1)] by auto
    have "card (seen_ids (snd (deliver s d)) \<union> ?ids) \<le> card (seen_ids (snd s) \<union> insert ?i ?ids)"
      unfolding seen using fin by (intro card_mono) auto
    then have "foldl deliver (deliver s d) ds = foldl deliver (deliver s d) (without_retries (seen_ids (snd (deliver s d))) ds)"
      using Cons.prems(2) inv by (intro Cons.IH) auto
    with False show ?thesis by (simp add: seen)
  qed
qed simp

lemma new_receiver_inv: "receiver_inv (new_receiver n)"
  by (simp add: receiver_inv_def new_receiver_def)

section \<open>Properties\<close>

definition demo_delivery :: "handoff_message_type \<Rightarrow> string \<Rightarrow> delivery" where
  "demo_delivery ty i = \<lparr>d_message = \<lparr>hm_message_id = i, hm_handoff_id = ''h'', hm_sender = ''a'', hm_receiver = ''b'',
       hm_type = ty, hm_step_index = 0, hm_payload = [(''x'', PInt 1)], hm_timestamp = 0, hm_provenance_ref = [], hm_retry_count = 0\<rparr>,
     d_record_time = 0, d_update_time = 0, d_reply_time = 0, d_reply_id = ''r''\<rparr>"

text \<open>
  C23: Retried messages are absorbed: as long as the messages fit into the deduplication window,
  delivering them with any retries, in any interleaving, leaves coordinator and receiver as
  delivering each handled message once, at its first arrival, and a retry is acknowledged as
  already processed.
\<close>

theorem retries_absorbed:
  assumes "receiver_inv (snd s)"
    and "int (card (seen_ids (snd s) \<union> (\<lambda>d. hm_message_id (d_message d)) ` set ds)) \<le> window_size (snd s)"
  shows "foldl deliver s ds = foldl deliver s (without_retries (seen_ids (snd s)) ds)
    \<and> (\<forall>d. hm_message_id (d_message d) \<in> seen_ids (snd (foldl deliver s ds)) \<longrightarrow>
        receive_message d (foldl deliver s ds) =
          (Some (make_ack True (d_reply_id d) (d_reply_time d) (d_message d)), foldl deliver s ds))"
proof
  show "foldl deliver s ds = foldl deliver s (without_retries (seen_ids (snd s)) ds)"
    by (rule retries_absorbed_run [OF assms])
  show "\<forall>d. hm_message_id (d_message d) \<in> seen_ids (snd (foldl deliver s ds)) \<longrightarrow>
      receive_message d (foldl deliver s ds) =
        (Some (make_ack True (d_reply_id d) (d_reply_time d) (d_message d)), foldl deliver s ds)"
    by (cases "foldl deliver s ds") (simp add: receive_message_def is_duplicate_def)
qed

theorem retries_absorbed_witness:
  "foldl deliver (new_coordinator ''n'' ''m'', new_receiver 5)
     [demo_delivery HM_STATE_TRANSFER ''i'', demo_delivery HM_ABORT ''j'', demo_delivery HM_STATE_TRANSFER ''i'']
   = foldl deliver (new_coordinator ''n'' ''m'', new_receiver 5)
     [demo_delivery HM_STATE_TRANSFER ''i'', demo_delivery HM_ABORT ''j'']"
proof -
  let ?s = "(new_coordinator ''n'' ''m'', new_receiver 5)"
  let ?ds = "[demo_delivery HM_STATE_TRANSFER ''i'', demo_delivery HM_ABORT ''j'', demo_delivery HM_STATE_TRANSFER ''i'']"
  have "receiver_inv (snd ?s)" by (simp add: new_receiver_inv)
  moreover have "int (card (seen_ids (snd ?s) \<union> (\<lambda>d. hm_message_id (d_message d)) ` set ?ds)) \<le> window_size (snd ?s)"
    by (simp add: new_receiver_def demo_delivery_def insert_commute)
  ultimately have "foldl deliver ?s ?ds = foldl deliver ?s (without_retries (seen_ids (snd ?s)) ?ds)"
    using retries_absorbed by blast
  moreover have "without_retries (seen_ids (snd ?s)) ?ds = [demo_delivery HM_STATE_TRANSFER ''i'', demo_delivery HM_ABORT ''j'']"
    by (simp add: new_receiver_def demo_delivery_def effective_def)
  ultimately show ?thesis by metis
qed

text \<open>
  The receiver's memory is bounded: after any deliveries it remembers at most as many
  messages as its window, exactly those whose results it has cached.
\<close>

theorem window_bounded:
  "(let r = snd (foldl deliver (c, new_receiver n) ds) in
     int (card (seen_ids r)) \<le> max 0 n \<and> (\<forall>i. is_duplicate r i \<longleftrightarrow> get_cached_result r i \<noteq> None))"
proof -
  let ?r = "snd (foldl deliver (c, new_receiver n) ds)"
  have inv: "receiver_inv ?r" by (rule handoff.run_inv) (simp add: new_receiver_inv)
  have "window_size ?r = window_size (snd (c, new_receiver n))" by (rule handoff.run_ext) (simp add: new_receiver_inv)
  then have "window_size ?r = n" by (simp add: new_receiver_def)
  moreover have "is_duplicate ?r i \<longleftrightarrow> get_cached_result ?r i \<noteq> None" for i
    using inv map_of_None_iff [of "message_history ?r" i] by (auto simp: receiver_inv_def is_duplicate_def get_cached_result_def)
  moreover have "int (card (seen_ids ?r)) \<le> max 0 (window_size ?r)" using inv unfolding receiver_inv_def by (elim conjE)
  ultimately show ?thesis by (simp add: Let_def)
qed

text \<open>A commit that arrives after the abort of its handoff marks it committed although its state is gone.\<close>

lemma commit_after_abort:
  "(let (c, r) = foldl deliver (snd (initiate_handoff ''h'' ''i'' 0 ''a'' ''b'' [] [] 0 (new_coordinator ''n'' ''m'')), new_receiver 5)
       [demo_delivery HM_ABORT ''j'', demo_delivery HM_COMMIT ''k'']
    in map_option hr_status (get_record c ''h'') = Some HS_COMMITTED \<and> map_of (participant_states c) ''h'' = None)"
  by code_simp

end
