(* ===== verification/Memory_Store.thy ===== *)
theory Memory_Store
  imports DNC_Prelude Complex_Main
begin

text \<open>
  Governed memory (\<open>memory/contracts.py\<close>, \<open>memory/stores.py\<close>, \<open>memory/compression.py\<close>): records with
  their constructor checks, the store of one kind, retrieval, deletion under legal hold,
  invalidation by dependency, backup, and checked compression. Trust and reranking scores are
  floating-point numbers that are compared and negated; they are real numbers here, and so is
  the information loss of a compression. The set of words of a text
  (\<open>set(str(x).casefold().split())\<close>) is the argument \<open>tokens\<close>.
\<close>

section \<open>Records\<close>

datatype memory_kind = MK_WORKING | MK_EPISODIC | MK_SEMANTIC | MK_PROCEDURAL | MK_CALIBRATION | MK_AUDIT

definition memory_kinds :: "memory_kind list" where
  "memory_kinds = [MK_WORKING, MK_EPISODIC, MK_SEMANTIC, MK_PROCEDURAL, MK_CALIBRATION, MK_AUDIT]"

fun memory_kind_value :: "memory_kind \<Rightarrow> string" where
  "memory_kind_value MK_WORKING = ''WORKING''"
| "memory_kind_value MK_EPISODIC = ''EPISODIC''"
| "memory_kind_value MK_SEMANTIC = ''SEMANTIC''"
| "memory_kind_value MK_PROCEDURAL = ''PROCEDURAL''"
| "memory_kind_value MK_CALIBRATION = ''CALIBRATION''"
| "memory_kind_value MK_AUDIT = ''AUDIT''"

interpretation memory_kind_enum: value_enum memory_kinds memory_kind_value
  by unfold_locales (auto simp: memory_kinds_def, metis memory_kind.exhaust)

record memory_record =
  mr_record_id :: string
  mr_kind :: memory_kind
  mr_tenant_id :: string
  mr_content :: pyval
  mr_provenance :: "string list"
  mr_security_labels :: "string set"
  mr_trust :: real
  mr_created_at_ns :: int
  mr_expires_at_ns :: "int option"
  mr_legal_hold :: bool
  mr_dependencies :: "string list"
  mr_domain :: string
  mr_model_fingerprint :: "string option"
  mr_policy_fingerprint :: "string option"
  mr_integrity_verified :: bool
  mr_deleted :: bool
  mr_metadata :: "(string, pyval) dict"

definition MemoryRecord_post_init :: "memory_record \<Rightarrow> memory_record res" where
  "MemoryRecord_post_init r =
     require (mr_record_id r \<noteq> [] \<and> mr_tenant_id r \<noteq> [] \<and> mr_provenance r \<noteq> [])
       (ValueError ''memory identity, tenant, and provenance MUST be non-empty'')
     (require (0 \<le> mr_trust r \<and> mr_trust r \<le> 1) (ValueError ''memory trust MUST be between 0 and 1'')
     (require (case mr_expires_at_ns r of None \<Rightarrow> True | Some e \<Rightarrow> mr_created_at_ns r \<le> e)
       (ValueError ''memory expiry MUST not precede creation'') (Inr r)))"

section \<open>The store of one kind\<close>

record memory_store =
  ms_kind :: memory_kind
  ms_records :: "(string, memory_record) dict"

definition new_store :: "memory_kind \<Rightarrow> memory_store" where
  "new_store k = \<lparr>ms_kind = k, ms_records = []\<rparr>"

lemma new_store_simps [simp]: "ms_kind (new_store k) = k" "ms_records (new_store k) = []"
  by (simp_all add: new_store_def)

definition ms_put :: "memory_record \<Rightarrow> memory_store \<Rightarrow> memory_store res" where
  "ms_put r s =
     require (mr_kind r = ms_kind s) (ValueError ''record kind MUST match memory namespace'')
     (require (map_of (ms_records s) (mr_record_id r) = None) (ValueError (''memory record already exists: '' @ mr_record_id r))
     (Inr (s\<lparr>ms_records := dict_set (mr_record_id r) r (ms_records s)\<rparr>)))"

definition ms_get :: "string \<Rightarrow> string \<Rightarrow> memory_store \<Rightarrow> memory_record option" where
  "ms_get i tenant s =
     (case map_of (ms_records s) i of
        None \<Rightarrow> None
      | Some r \<Rightarrow> if mr_tenant_id r \<noteq> tenant \<or> mr_deleted r then None else Some r)"

text \<open>\<open>replace(record, deleted=True, content=None)\<close>\<close>

definition tombstone :: "memory_record \<Rightarrow> memory_record" where
  "tombstone r = r\<lparr>mr_deleted := True, mr_content := PNone\<rparr>"

definition ms_delete :: "string \<Rightarrow> string \<Rightarrow> memory_store \<Rightarrow> memory_store res" where
  "ms_delete i tenant s =
     (case ms_get i tenant s of
        None \<Rightarrow> Inl (KeyError (''unknown memory record: '' @ i))
      | Some r \<Rightarrow> require (\<not> mr_legal_hold r) (PermissionError ''memory under legal hold cannot be deleted'')
          (Inr (s\<lparr>ms_records := dict_set i (tombstone r) (ms_records s)\<rparr>)))"

record retrieval =
  rq_tenant_id :: string
  rq_allowed_labels :: "string set"
  rq_now_ns :: int
  rq_minimum_trust :: real
  rq_domain :: "string option"
  rq_query :: string
  rq_critical :: bool

definition admissible :: "retrieval \<Rightarrow> memory_record \<Rightarrow> bool" where
  "admissible q r \<longleftrightarrow>
     mr_tenant_id r = rq_tenant_id q \<and> \<not> mr_deleted r \<and> mr_security_labels r \<subseteq> rq_allowed_labels q
     \<and> rq_minimum_trust q \<le> mr_trust r
     \<and> (case mr_expires_at_ns r of None \<Rightarrow> True | Some e \<Rightarrow> rq_now_ns q < e)
     \<and> (case rq_domain q of None \<Rightarrow> True | Some d \<Rightarrow> mr_domain r = d)
     \<and> (\<not> rq_critical q \<or> mr_integrity_verified r)"

definition retrieval_score ::
  "(pyval \<Rightarrow> string set) \<Rightarrow> (memory_record \<Rightarrow> real) option \<Rightarrow> retrieval \<Rightarrow> memory_record \<Rightarrow> real \<times> real \<times> int \<times> string" where
  "retrieval_score tokens rerank q r =
     (- (case rerank of None \<Rightarrow> 0 | Some f \<Rightarrow> f r), - mr_trust r,
      - int (card (tokens (PStr (rq_query q)) \<inter> tokens (mr_content r))), mr_record_id r)"

definition ms_retrieve ::
  "(pyval \<Rightarrow> string set) \<Rightarrow> (memory_record \<Rightarrow> real) option \<Rightarrow> retrieval \<Rightarrow> memory_store \<Rightarrow> memory_record list res" where
  "ms_retrieve tokens rerank q s =
     (let candidates = filter (admissible q) (map snd (ms_records s)) in
      require (\<not> (rq_critical q \<and> rerank = None)) (ValueError ''critical retrieval requires an exact reranker'')
      (Inr (sort_key (retrieval_score tokens rerank q) candidates)))"

definition ms_snapshot :: "memory_store \<Rightarrow> memory_record list" where
  "ms_snapshot s = map (\<lambda>k. the (map_of (ms_records s) k)) (sort (dict_keys (ms_records s)))"

section \<open>All kinds together\<close>

type_synonym governed_memory = "memory_kind \<Rightarrow> memory_store"

definition new_memory :: governed_memory where
  "new_memory k = new_store k"

definition gm_put :: "memory_record \<Rightarrow> governed_memory \<Rightarrow> governed_memory res" where
  "gm_put r m = (case ms_put r (m (mr_kind r)) of Inl e \<Rightarrow> Inl e | Inr s \<Rightarrow> Inr (m(mr_kind r := s)))"

text \<open>The inner loop of \<open>invalidate_dependencies\<close> over a snapshot of one store.\<close>

fun invalidate_loop :: "string set \<Rightarrow> memory_record list \<Rightarrow> string list \<Rightarrow> memory_store \<Rightarrow> string list \<times> memory_store" where
  "invalidate_loop changed [] ids s = (ids, s)"
| "invalidate_loop changed (r # rs) ids s =
     (if \<not> mr_deleted r \<and> set (mr_dependencies r) \<inter> changed \<noteq> {}
      then invalidate_loop changed rs (ids @ [mr_record_id r])
        (s\<lparr>ms_records := dict_set (mr_record_id r) (tombstone r) (ms_records s)\<rparr>)
      else invalidate_loop changed rs ids s)"

fun invalidate_kinds :: "string set \<Rightarrow> memory_kind list \<Rightarrow> string list \<Rightarrow> governed_memory \<Rightarrow> string list \<times> governed_memory" where
  "invalidate_kinds changed [] ids m = (ids, m)"
| "invalidate_kinds changed (k # ks) ids m =
     (let (ids', s) = invalidate_loop changed (ms_snapshot (m k)) ids (m k)
      in invalidate_kinds changed ks ids' (m(k := s)))"

definition invalidate_dependencies :: "string set \<Rightarrow> governed_memory \<Rightarrow> string list \<times> governed_memory" where
  "invalidate_dependencies changed m =
     (let (ids, m') = invalidate_kinds changed memory_kinds [] m in (sort ids, m'))"

type_synonym memory_backup = "(string, memory_record list) dict"

definition gm_snapshot :: "governed_memory \<Rightarrow> memory_backup" where
  "gm_snapshot m = map (\<lambda>k. (memory_kind_value k, ms_snapshot (m k))) memory_kinds"

fun put_all :: "memory_record list \<Rightarrow> memory_store \<Rightarrow> memory_store res" where
  "put_all [] s = Inr s"
| "put_all (r # rs) s = (case ms_put r s of Inl e \<Rightarrow> Inl e | Inr s' \<Rightarrow> put_all rs s')"

fun restore_kinds :: "memory_backup \<Rightarrow> memory_kind list \<Rightarrow> governed_memory \<Rightarrow> governed_memory res" where
  "restore_kinds b [] m = Inr m"
| "restore_kinds b (k # ks) m =
     (case put_all (case map_of b (memory_kind_value k) of None \<Rightarrow> [] | Some rs \<Rightarrow> rs) (m k) of
        Inl e \<Rightarrow> Inl e
      | Inr s \<Rightarrow> restore_kinds b ks (m(k := s)))"

definition gm_restore :: "memory_backup \<Rightarrow> governed_memory \<Rightarrow> governed_memory res" where
  "gm_restore b m = restore_kinds b memory_kinds new_memory"

section \<open>Compression\<close>

record compression_result =
  cr_record :: memory_record
  cr_source_ids :: "string list"
  cr_preserved_ids :: "string list"
  cr_information_loss :: real

definition compress_records ::
  "memory_record list \<Rightarrow> string \<Rightarrow> pyval \<Rightarrow> string list \<Rightarrow> real \<Rightarrow> compression_result res" where
  "compress_records rs out summary preserved max_loss =
     require (rs \<noteq> []) (ValueError ''compression requires source records'')
     (require (card (mr_tenant_id ` set rs) = 1) (ValueError ''compression cannot cross tenants'')
     (let sources = map mr_record_id rs in
      require (set preserved \<subseteq> set sources) (ValueError ''preservation claims MUST reference source records'')
      (let loss = 1 - real (card (set preserved)) / real (card (set sources)) in
       require (loss \<le> max_loss) (ValueError ''compression exceeds information-loss threshold'')
       (case MemoryRecord_post_init
          \<lparr>mr_record_id = out, mr_kind = MK_SEMANTIC, mr_tenant_id = mr_tenant_id (hd rs), mr_content = summary,
           mr_provenance = sources, mr_security_labels = \<Union> (mr_security_labels ` set rs),
           mr_trust = Min (mr_trust ` set rs), mr_created_at_ns = Max (mr_created_at_ns ` set rs),
           mr_expires_at_ns = None, mr_legal_hold = False, mr_dependencies = sources, mr_domain = ''general'',
           mr_model_fingerprint = None, mr_policy_fingerprint = None, mr_integrity_verified = False,
           mr_deleted = False, mr_metadata = []\<rparr> of
          Inl e \<Rightarrow> Inl e
        | Inr r \<Rightarrow> Inr \<lparr>cr_record = r, cr_source_ids = sources, cr_preserved_ids = preserved, cr_information_loss = loss\<rparr>))))"

section \<open>The invariant\<close>

definition store_inv :: "memory_kind \<Rightarrow> memory_store \<Rightarrow> bool" where
  "store_inv k s \<longleftrightarrow> ms_kind s = k \<and> dict_ok (ms_records s)
     \<and> (\<forall>(i, r)\<in>set (ms_records s). mr_record_id r = i \<and> mr_kind r = k)"

definition memory_inv :: "governed_memory \<Rightarrow> bool" where
  "memory_inv m \<longleftrightarrow> (\<forall>k. store_inv k (m k))"

abbreviation mem_lookup :: "governed_memory \<Rightarrow> memory_kind \<Rightarrow> string \<Rightarrow> memory_record option" where
  "mem_lookup m k \<equiv> map_of (ms_records (m k))"

text \<open>What later states keep of a record: it stays as it is, or becomes its own tombstone once.\<close>

definition memory_ext :: "governed_memory \<Rightarrow> governed_memory \<Rightarrow> bool" where
  "memory_ext m m' \<longleftrightarrow>
     (\<forall>k i r. mem_lookup m k i = Some r \<longrightarrow> (\<exists>r'. mem_lookup m' k i = Some r' \<and> (r' = r \<or> \<not> mr_deleted r \<and> r' = tombstone r)))"

datatype memory_call = MPut memory_record | MDelete memory_kind string string | MInvalidate "string set"

fun memory_step :: "governed_memory \<Rightarrow> memory_call \<Rightarrow> governed_memory" where
  "memory_step m (MPut r) = (case gm_put r m of Inl _ \<Rightarrow> m | Inr m' \<Rightarrow> m')"
| "memory_step m (MDelete k i tenant) = (case ms_delete i tenant (m k) of Inl _ \<Rightarrow> m | Inr s \<Rightarrow> m(k := s))"
| "memory_step m (MInvalidate changed) = snd (invalidate_dependencies changed m)"

lemma tombstone_simps [simp]:
  "mr_record_id (tombstone r) = mr_record_id r" "mr_kind (tombstone r) = mr_kind r"
  "mr_tenant_id (tombstone r) = mr_tenant_id r" "mr_deleted (tombstone r)" "mr_content (tombstone r) = PNone"
  by (simp_all add: tombstone_def)

lemma tombstone_accepted: "MemoryRecord_post_init r = Inr r \<Longrightarrow> MemoryRecord_post_init (tombstone r) = Inr (tombstone r)"
  by (simp add: MemoryRecord_post_init_def tombstone_def split: option.splits)

lemma store_inv_lookup: "store_inv k s \<Longrightarrow> map_of (ms_records s) i = Some r \<Longrightarrow> mr_record_id r = i \<and> mr_kind r = k"
  by (auto simp: store_inv_def dest: map_of_SomeD)

lemma store_inv_set:
  "store_inv k s \<Longrightarrow> mr_record_id r = i \<Longrightarrow> mr_kind r = k \<Longrightarrow> store_inv k (s\<lparr>ms_records := dict_set i r (ms_records s)\<rparr>)"
  by (auto simp: store_inv_def dest!: set_dict_set_subset [THEN subsetD])

lemma ms_put_ok: "ms_put r s = Inr s' \<longleftrightarrow> mr_kind r = ms_kind s \<and> map_of (ms_records s) (mr_record_id r) = None
    \<and> s' = s\<lparr>ms_records := dict_set (mr_record_id r) r (ms_records s)\<rparr>"
  by (auto simp: ms_put_def)

lemma ms_delete_ok:
  "ms_delete i tenant s = Inr s' \<longleftrightarrow>
     (\<exists>r. map_of (ms_records s) i = Some r \<and> mr_tenant_id r = tenant \<and> \<not> mr_deleted r \<and> \<not> mr_legal_hold r
        \<and> s' = s\<lparr>ms_records := dict_set i (tombstone r) (ms_records s)\<rparr>)"
  by (auto simp: ms_delete_def ms_get_def split: option.splits)

definition affected :: "string set \<Rightarrow> memory_record \<Rightarrow> bool" where
  "affected changed r \<longleftrightarrow> \<not> mr_deleted r \<and> set (mr_dependencies r) \<inter> changed \<noteq> {}"

lemma invalidate_loop_result:
  assumes "store_inv k s" and "distinct (map mr_record_id rs)" and "\<forall>r\<in>set rs. map_of (ms_records s) (mr_record_id r) = Some r"
  shows "fst (invalidate_loop changed rs ids s) = ids @ map mr_record_id (filter (affected changed) rs)
    \<and> store_inv k (snd (invalidate_loop changed rs ids s))
    \<and> (\<forall>i. map_of (ms_records (snd (invalidate_loop changed rs ids s))) i =
        map_option (\<lambda>r. if r \<in> set rs \<and> affected changed r then tombstone r else r) (map_of (ms_records s) i))"
  using assms
proof (induction rs arbitrary: ids s)
  case (Cons r rs)
  note r = Cons.prems(3) [THEN bspec, of r, simplified]
  show ?case
  proof (cases "affected changed r")
    case True
    let ?s = "s\<lparr>ms_records := dict_set (mr_record_id r) (tombstone r) (ms_records s)\<rparr>"
    have step: "invalidate_loop changed (r # rs) ids s = invalidate_loop changed rs (ids @ [mr_record_id r]) ?s"
      using True by (simp add: affected_def)
    have inv: "store_inv k ?s"
      using store_inv_lookup [OF Cons.prems(1) r] by (intro store_inv_set [OF Cons.prems(1)]) simp_all
    have "\<forall>x\<in>set rs. map_of (ms_records ?s) (mr_record_id x) = Some x"
      using Cons.prems(2,3) by (auto simp: image_iff)
    note IH = Cons.IH [OF inv _ this, of "ids @ [mr_record_id r]"]
    have dead: "\<not> affected changed (tombstone r)" by (simp add: affected_def)
    have "map_of (ms_records (snd (invalidate_loop changed (r # rs) ids s))) i =
        map_option (\<lambda>x. if x \<in> set (r # rs) \<and> affected changed x then tombstone x else x) (map_of (ms_records s) i)" for i
    proof (cases "i = mr_record_id r")
      case True
      with IH Cons.prems(2) r dead \<open>affected changed r\<close> show ?thesis unfolding step by simp
    next
      case False
      then have "x \<noteq> r" if "map_of (ms_records s) i = Some x" for x
        using store_inv_lookup [OF Cons.prems(1) that] by auto
      with IH Cons.prems(2) False show ?thesis unfolding step by (cases "map_of (ms_records s) i") auto
    qed
    with IH Cons.prems(2) True show ?thesis unfolding step by simp
  next
    case False
    then have step: "invalidate_loop changed (r # rs) ids s = invalidate_loop changed rs ids s"
      by (auto simp: affected_def)
    have "(\<lambda>x. if x \<in> set (r # rs) \<and> affected changed x then tombstone x else x)
        = (\<lambda>x. if x \<in> set rs \<and> affected changed x then tombstone x else x)" using False by auto
    then show ?thesis unfolding step using Cons.IH [OF Cons.prems(1), of ids] Cons.prems(2,3) False by simp
  qed
qed (simp add: option.map_ident)

lemma snapshot_records:
  assumes "store_inv k s"
  shows "map mr_record_id (ms_snapshot s) = sort (dict_keys (ms_records s))"
    and "set (ms_snapshot s) = set (map snd (ms_records s))"
    and "\<forall>r\<in>set (ms_snapshot s). map_of (ms_records s) (mr_record_id r) = Some r"
proof -
  have ok: "dict_ok (ms_records s)" using assms by (simp add: store_inv_def)
  have hit: "map_of (ms_records s) i = Some (the (map_of (ms_records s) i)) \<and> mr_record_id (the (map_of (ms_records s) i)) = i"
    if "i \<in> fst ` set (ms_records s)" for i
    using that store_inv_lookup [OF assms] by (metis map_of_None_iff option.collapse)
  show "map mr_record_id (ms_snapshot s) = sort (dict_keys (ms_records s))"
    unfolding ms_snapshot_def map_map by (rule map_idI) (use hit in auto)
  show "\<forall>r\<in>set (ms_snapshot s). map_of (ms_records s) (mr_record_id r) = Some r"
    using hit by (auto simp: ms_snapshot_def)
  show "set (ms_snapshot s) = set (map snd (ms_records s))"
    using ok by (force simp: ms_snapshot_def)
qed

lemma invalidate_store:
  assumes "store_inv k s"
  shows "fst (invalidate_loop changed (ms_snapshot s) ids s) = ids @ map mr_record_id (filter (affected changed) (ms_snapshot s))
    \<and> store_inv k (snd (invalidate_loop changed (ms_snapshot s) ids s))
    \<and> (\<forall>i. map_of (ms_records (snd (invalidate_loop changed (ms_snapshot s) ids s))) i =
        map_option (\<lambda>r. if affected changed r then tombstone r else r) (map_of (ms_records s) i))"
proof -
  have "distinct (map mr_record_id (ms_snapshot s))"
    unfolding snapshot_records(1) [OF assms] using assms by (simp add: store_inv_def)
  note res = invalidate_loop_result [OF assms this snapshot_records(3) [OF assms], of changed ids]
  have "r \<in> set (ms_snapshot s)" if "map_of (ms_records s) i = Some r" for i r
    using map_of_SomeD [OF that] snapshot_records(2) [OF assms] by force
  then have "map_option (\<lambda>r. if r \<in> set (ms_snapshot s) \<and> affected changed r then tombstone r else r) (map_of (ms_records s) i)
      = map_option (\<lambda>r. if affected changed r then tombstone r else r) (map_of (ms_records s) i)" for i
    by (cases "map_of (ms_records s) i") auto
  with res show ?thesis by simp
qed

lemma invalidate_kinds_result:
  assumes "memory_inv m" and "distinct ks"
  shows "memory_inv (snd (invalidate_kinds changed ks ids m))
    \<and> (\<forall>k i. mem_lookup (snd (invalidate_kinds changed ks ids m)) k i =
        map_option (\<lambda>r. if k \<in> set ks \<and> affected changed r then tombstone r else r) (mem_lookup m k i))
    \<and> fst (invalidate_kinds changed ks ids m)
      = ids @ concat (map (\<lambda>k. map mr_record_id (filter (affected changed) (ms_snapshot (m k)))) ks)"
  using assms
proof (induction ks arbitrary: ids m)
  case (Cons k ks)
  have k: "store_inv k (m k)" using Cons.prems(1) by (simp add: memory_inv_def)
  obtain ids' s where l: "invalidate_loop changed (ms_snapshot (m k)) ids (m k) = (ids', s)" by fastforce
  from invalidate_store [OF k, of changed ids] l
  have s: "store_inv k s" "\<And>i. map_of (ms_records s) i = map_option (\<lambda>r. if affected changed r then tombstone r else r) (mem_lookup m k i)"
    "ids' = ids @ map mr_record_id (filter (affected changed) (ms_snapshot (m k)))" by auto
  have "memory_inv (m(k := s))" using Cons.prems(1) s(1) by (simp add: memory_inv_def)
  note IH = Cons.IH [OF this, of ids']
  have eq: "map (\<lambda>j. map mr_record_id (filter (affected changed) (ms_snapshot ((m(k := s)) j)))) ks
      = map (\<lambda>j. map mr_record_id (filter (affected changed) (ms_snapshot (m j)))) ks"
    using Cons.prems(2) by auto
  have "fst (invalidate_kinds changed (k # ks) ids m)
      = ids' @ concat (map (\<lambda>j. map mr_record_id (filter (affected changed) (ms_snapshot ((m(k := s)) j)))) ks)"
    using IH Cons.prems(2) by (simp add: l del: fun_upd_apply)
  then have "fst (invalidate_kinds changed (k # ks) ids m)
      = ids @ concat (map (\<lambda>k. map mr_record_id (filter (affected changed) (ms_snapshot (m k)))) (k # ks))"
    unfolding eq s(3) by simp
  moreover have "mem_lookup (snd (invalidate_kinds changed (k # ks) ids m)) j i =
      map_option (\<lambda>r. if j \<in> set (k # ks) \<and> affected changed r then tombstone r else r) (mem_lookup m j i)" for j i
  proof -
    have "mem_lookup (snd (invalidate_kinds changed ks ids' (m(k := s)))) j i =
        map_option (\<lambda>r. if j \<in> set ks \<and> affected changed r then tombstone r else r) (mem_lookup (m(k := s)) j i)"
      using IH Cons.prems(2) by (simp del: fun_upd_apply)
    then show ?thesis
      using Cons.prems(2) s(2) [of i] by (cases "j = k") (simp_all add: l option.map_ident)
  qed
  moreover have "memory_inv (snd (invalidate_kinds changed (k # ks) ids m))"
    using IH Cons.prems(2) by (simp add: l del: fun_upd_apply)
  ultimately show ?case by blast
qed (simp add: option.map_ident)

lemma memory_kinds_all [simp]: "k \<in> set memory_kinds"
  by (rule memory_kind_enum.members_all)

lemma distinct_memory_kinds: "distinct memory_kinds"
  by (simp add: memory_kinds_def)

lemma invalidate_result:
  assumes "memory_inv m"
  shows "memory_inv (snd (invalidate_dependencies changed m))
    \<and> (\<forall>k i. mem_lookup (snd (invalidate_dependencies changed m)) k i =
        map_option (\<lambda>r. if affected changed r then tombstone r else r) (mem_lookup m k i))"
  using invalidate_kinds_result [OF assms distinct_memory_kinds, of changed "[]"]
  by (simp add: invalidate_dependencies_def case_prod_beta)

lemma gm_put_ok:
  assumes "memory_inv m" and "gm_put r m = Inr m'"
  shows "mem_lookup m (mr_kind r) (mr_record_id r) = None
    \<and> memory_inv m' \<and> (\<forall>k i. mem_lookup m' k i = (if k = mr_kind r \<and> i = mr_record_id r then Some r else mem_lookup m k i))"
  using assms store_inv_set [of "mr_kind r" "m (mr_kind r)" r]
  by (auto simp: gm_put_def ms_put_ok memory_inv_def split: sum.splits)

lemma ms_delete_step:
  assumes "memory_inv m" and "ms_delete i tenant (m k) = Inr s"
  shows "memory_inv (m(k := s)) \<and> (\<exists>r. mem_lookup m k i = Some r \<and> \<not> mr_deleted r \<and> \<not> mr_legal_hold r
    \<and> (\<forall>k' j. mem_lookup (m(k := s)) k' j = (if k' = k \<and> j = i then Some (tombstone r) else mem_lookup m k' j)))"
proof -
  from assms(2) obtain r where r: "mem_lookup m k i = Some r" "\<not> mr_deleted r" "\<not> mr_legal_hold r"
    and s: "s = (m k)\<lparr>ms_records := dict_set i (tombstone r) (ms_records (m k))\<rparr>" by (auto simp: ms_delete_ok)
  have k: "store_inv k (m k)" using assms(1) by (simp add: memory_inv_def)
  have "store_inv k s" unfolding s using store_inv_lookup [OF k r(1)] by (intro store_inv_set [OF k]) simp_all
  with assms(1) r show ?thesis by (auto simp: memory_inv_def s)
qed

lemma memory_step_inv: "memory_inv m \<Longrightarrow> memory_inv (memory_step m c) \<and> memory_ext m (memory_step m c)"
proof (cases c)
  case (MPut r)
  assume "memory_inv m"
  then show ?thesis using gm_put_ok [of m r] by (auto simp: MPut memory_ext_def split: sum.splits)
next
  case (MDelete k i tenant)
  assume m: "memory_inv m"
  show ?thesis
  proof (cases "ms_delete i tenant (m k)")
    case (Inr s)
    from ms_delete_step [OF m Inr] show ?thesis by (auto simp: MDelete Inr memory_ext_def simp del: fun_upd_apply)
  qed (simp add: MDelete m memory_ext_def)
next
  case (MInvalidate changed)
  assume "memory_inv m"
  then show ?thesis using invalidate_result [of m changed] by (auto simp: MInvalidate memory_ext_def affected_def)
qed

lemma memory_ext_trans: "memory_ext m n \<Longrightarrow> memory_ext n p \<Longrightarrow> memory_ext m p"
  unfolding memory_ext_def by (metis tombstone_simps(4))

interpretation memory: step_machine memory_step memory_inv memory_ext
  by unfold_locales (auto simp: memory_step_inv memory_ext_def [of m m for m] intro: memory_ext_trans)

lemma new_memory_inv: "memory_inv new_memory"
  by (simp add: memory_inv_def new_memory_def new_store_def store_inv_def)

section \<open>Backup\<close>

lemma put_all_fresh:
  assumes "\<forall>r\<in>set rs. mr_kind r = ms_kind s" and "distinct (map mr_record_id rs)"
    and "\<forall>r\<in>set rs. map_of (ms_records s) (mr_record_id r) = None"
  shows "\<exists>s'. put_all rs s = Inr s' \<and> ms_kind s' = ms_kind s
    \<and> (\<forall>i. map_of (ms_records s') i = (case find (\<lambda>r. mr_record_id r = i) rs of Some r \<Rightarrow> Some r | None \<Rightarrow> map_of (ms_records s) i))"
  using assms
proof (induction rs arbitrary: s)
  case (Cons r rs)
  let ?s = "s\<lparr>ms_records := dict_set (mr_record_id r) r (ms_records s)\<rparr>"
  have "ms_put r s = Inr ?s" using Cons.prems by (simp add: ms_put_ok)
  moreover have "\<exists>s'. put_all rs ?s = Inr s' \<and> ms_kind s' = ms_kind ?s
    \<and> (\<forall>i. map_of (ms_records s') i = (case find (\<lambda>r. mr_record_id r = i) rs of Some r \<Rightarrow> Some r | None \<Rightarrow> map_of (ms_records ?s) i))"
  proof (rule Cons.IH)
    show "\<forall>x\<in>set rs. map_of (ms_records ?s) (mr_record_id x) = None"
      using Cons.prems(2,3) by (auto simp: image_iff)
  qed (use Cons.prems in auto)
  moreover have "find (\<lambda>x. mr_record_id x = mr_record_id r) rs = None"
    using Cons.prems(2) by (auto simp: find_None_iff image_iff)
  then have "(case find (\<lambda>x. mr_record_id x = i) rs of Some x \<Rightarrow> Some x | None \<Rightarrow> map_of (ms_records ?s) i)
      = (case find (\<lambda>x. mr_record_id x = i) (r # rs) of Some x \<Rightarrow> Some x | None \<Rightarrow> map_of (ms_records s) i)" for i
    by (cases "i = mr_record_id r") (auto split: option.splits)
  ultimately show ?case by simp
qed simp

lemma put_snapshot:
  assumes "store_inv k s"
  shows "\<exists>s'. put_all (ms_snapshot s) (new_store k) = Inr s' \<and> ms_kind s' = k \<and> map_of (ms_records s') = map_of (ms_records s)"
proof -
  let ?rs = "ms_snapshot s"
  have d: "distinct (map mr_record_id ?rs)"
    unfolding snapshot_records(1) [OF assms] using assms by (simp add: store_inv_def)
  have kind: "\<forall>r\<in>set ?rs. mr_kind r = ms_kind (new_store k)"
    using snapshot_records(3) [OF assms] store_inv_lookup [OF assms] by (auto simp: new_store_def)
  have "\<forall>r\<in>set ?rs. map_of (ms_records (new_store k)) (mr_record_id r) = None" by simp
  from put_all_fresh [OF kind d this] obtain s' where s': "put_all ?rs (new_store k) = Inr s'" "ms_kind s' = k"
    "\<forall>i. map_of (ms_records s') i = (case find (\<lambda>r. mr_record_id r = i) ?rs of Some r \<Rightarrow> Some r | None \<Rightarrow> None)"
    unfolding new_store_simps map_of.simps by blast
  have "map_of (ms_records s') i = map_of (ms_records s) i" for i
  proof (cases "map_of (ms_records s) i")
    case None
    then have "i \<notin> mr_record_id ` set ?rs"
      using snapshot_records(1) [OF assms] by (metis list.set_map map_of_None_iff set_sort)
    then show ?thesis using s'(3) None by (auto simp: find_None_iff split: option.splits dest: find_Some_in)
  next
    case (Some r)
    then have r: "r \<in> set ?rs" "mr_record_id r = i"
      using snapshot_records(2) [OF assms] store_inv_lookup [OF assms] by (force dest: map_of_SomeD)+
    then show ?thesis using s'(3) Some find_key_distinct [OF d r(1)] by simp
  qed
  with s' show ?thesis by auto
qed

lemma snapshot_lookup: "map_of (gm_snapshot m) (memory_kind_value k) = Some (ms_snapshot (m k))"
  by (cases k) (simp_all add: gm_snapshot_def memory_kinds_def)

lemma restore_kinds_snapshot:
  assumes "memory_inv m" and "distinct ks" and "\<forall>k\<in>set ks. n k = new_store k"
  shows "\<exists>n'. restore_kinds (gm_snapshot m) ks n = Inr n'
    \<and> (\<forall>k\<in>set ks. map_of (ms_records (n' k)) = map_of (ms_records (m k)) \<and> ms_kind (n' k) = k) \<and> (\<forall>k. k \<notin> set ks \<longrightarrow> n' k = n k)"
  using assms(2,3)
proof (induction ks arbitrary: n)
  case (Cons k ks)
  have "store_inv k (m k)" using assms(1) by (simp add: memory_inv_def)
  from put_snapshot [OF this] obtain s where s: "put_all (ms_snapshot (m k)) (new_store k) = Inr s" "ms_kind s = k"
    "map_of (ms_records s) = map_of (ms_records (m k))" by blast
  have "\<forall>j\<in>set ks. (n(k := s)) j = new_store j" using Cons.prems by auto
  from Cons.IH [of "n(k := s)", OF _ this] Cons.prems(1) obtain n' where
    n': "restore_kinds (gm_snapshot m) ks (n(k := s)) = Inr n'"
      "\<forall>k\<in>set ks. map_of (ms_records (n' k)) = map_of (ms_records (m k)) \<and> ms_kind (n' k) = k"
      "\<forall>j. j \<notin> set ks \<longrightarrow> n' j = (n(k := s)) j" by (auto simp del: fun_upd_apply)
  have "restore_kinds (gm_snapshot m) (k # ks) n = Inr n'"
    using Cons.prems(2) s(1) n'(1) by (simp add: snapshot_lookup del: fun_upd_apply)
  moreover have "n' k = s" using n'(3) Cons.prems(1) by simp
  ultimately show ?case using n'(2,3) s(2,3) by auto
qed simp

section \<open>Properties\<close>

definition demo_record :: "string \<Rightarrow> bool \<Rightarrow> memory_record" where
  "demo_record i hold = \<lparr>mr_record_id = i, mr_kind = MK_SEMANTIC, mr_tenant_id = ''t'', mr_content = PStr ''fact'',
     mr_provenance = [''p''], mr_security_labels = {''s''}, mr_trust = 1, mr_created_at_ns = 0, mr_expires_at_ns = None,
     mr_legal_hold = hold, mr_dependencies = [''d''], mr_domain = ''general'', mr_model_fingerprint = None,
     mr_policy_fingerprint = None, mr_integrity_verified = True, mr_deleted = False, mr_metadata = []\<rparr>"

text \<open>
  Retrieval is exact: it returns every admissible record of the store (right tenant, labels
  cleared, trusted, not deleted or expired, right domain, verified if critical) and nothing
  else, ordered by score; it raises exactly for a critical request without a reranker.
\<close>

theorem retrieval_exact:
  "(is_ok (ms_retrieve tokens rerank q s) \<longleftrightarrow> \<not> rq_critical q \<or> rerank \<noteq> None)
   \<and> (\<forall>rs. ms_retrieve tokens rerank q s = Inr rs \<longrightarrow>
        mset rs = filter_mset (admissible q) (mset (map snd (ms_records s)))
        \<and> sorted (map (retrieval_score tokens rerank q) rs))"
  by (auto simp: ms_retrieve_def Let_def)

theorem retrieval_exact_witness:
  "ms_retrieve (\<lambda>_. {}) None \<lparr>rq_tenant_id = ''u'', rq_allowed_labels = {''s''}, rq_now_ns = 0, rq_minimum_trust = 0,
     rq_domain = None, rq_query = [], rq_critical = False\<rparr> ((new_store MK_SEMANTIC)\<lparr>ms_records := [(''r'', demo_record ''r'' False)]\<rparr>)
   = Inr []"
proof -
  let ?q = "\<lparr>rq_tenant_id = ''u'', rq_allowed_labels = {''s''}, rq_now_ns = 0, rq_minimum_trust = 0 :: real,
     rq_domain = None, rq_query = [], rq_critical = False\<rparr>"
  let ?s = "(new_store MK_SEMANTIC)\<lparr>ms_records := [(''r'', demo_record ''r'' False)]\<rparr>"
  have "is_ok (ms_retrieve (\<lambda>_. {}) None ?q ?s)" using retrieval_exact by simp
  then obtain rs where rs: "ms_retrieve (\<lambda>_. {}) None ?q ?s = Inr rs" by (auto simp: is_ok_iff)
  then have "mset rs = filter_mset (admissible ?q) (mset (map snd (ms_records ?s)))" using retrieval_exact by blast
  then show ?thesis using rs by (simp add: admissible_def demo_record_def)
qed



text \<open>Invalidation by dependency erases a record under legal hold, which \<open>delete\<close> refuses to do.\<close>

lemma invalidation_erases_held_records:
  assumes "memory_inv m" and "mem_lookup m k i = Some r" and "mr_legal_hold r" and "affected changed r"
  shows "mem_lookup (memory_step m (MInvalidate changed)) k i = Some (tombstone r)"
  using invalidate_result [OF assms(1), of changed] assms(2,4) by simp

text \<open>
  A backup of a memory that was reached by calls is accepted by \<open>restore\<close>, and the restored
  memory holds the same records, kind by kind.
\<close>

theorem memory_backup_restores:
  "\<exists>n. gm_restore (gm_snapshot (foldl memory_step new_memory cs)) m0 = Inr n
     \<and> (\<forall>k. map_of (ms_records (n k)) = map_of (ms_records (foldl memory_step new_memory cs k)) \<and> ms_kind (n k) = k)"
  using restore_kinds_snapshot [OF memory.run_inv [OF new_memory_inv] distinct_memory_kinds, of new_memory cs]
  by (auto simp: gm_restore_def new_memory_def)

text \<open>
  Compression does not launder records: the summary belongs to the tenant of the sources, may
  only be retrieved with clearance for the labels of every source, is trusted no more than any
  source, names exactly the sources as dependencies, and claims to preserve only sources.
\<close>

theorem compression_keeps_governance:
  assumes "compress_records rs out summary preserved max_loss = Inr c" and "r \<in> set rs"
  shows "mr_tenant_id (cr_record c) = mr_tenant_id r \<and> mr_security_labels r \<subseteq> mr_security_labels (cr_record c)
    \<and> (admissible q (cr_record c) \<longrightarrow> mr_security_labels r \<subseteq> rq_allowed_labels q \<and> mr_tenant_id r = rq_tenant_id q
        \<and> rq_minimum_trust q \<le> mr_trust r)
    \<and> mr_trust (cr_record c) \<le> mr_trust r
    \<and> mr_dependencies (cr_record c) = map mr_record_id rs \<and> set (cr_preserved_ids c) \<subseteq> mr_record_id ` set rs
    \<and> 0 \<le> cr_information_loss c \<and> cr_information_loss c \<le> max_loss"
proof -
  from assms(1) have c: "mr_tenant_id (cr_record c) = mr_tenant_id (hd rs)" "mr_trust (cr_record c) = Min (mr_trust ` set rs)"
    "mr_security_labels (cr_record c) = \<Union> (mr_security_labels ` set rs)" "mr_dependencies (cr_record c) = map mr_record_id rs"
    "cr_preserved_ids c = preserved" "set preserved \<subseteq> mr_record_id ` set rs" "card (mr_tenant_id ` set rs) = 1" "rs \<noteq> []"
    "cr_information_loss c = 1 - real (card (set preserved)) / real (card (mr_record_id ` set rs))" "cr_information_loss c \<le> max_loss"
    by (auto simp: compress_records_def Let_def MemoryRecord_post_init_def split: sum.splits)
  have one: "mr_tenant_id (hd rs) = mr_tenant_id r"
    using c(7,8) assms(2) by (metis card_1_singletonE hd_in_set imageI singletonD)
  have "card (set preserved) \<le> card (mr_record_id ` set rs)" using c(6) by (intro card_mono) auto
  then have loss: "0 \<le> cr_information_loss c" unfolding c(9) using c(8) by (simp add: divide_le_eq_1 card_gt_0_iff)
  have trust: "mr_trust (cr_record c) \<le> mr_trust r" unfolding c(2) using assms(2) by (intro Min_le) auto
  have labels: "mr_security_labels r \<subseteq> mr_security_labels (cr_record c)" unfolding c(3) using assms(2) by auto
  show ?thesis using one loss trust labels c(1,4,5,6,10) by (auto simp: admissible_def)
qed

theorem compression_keeps_governance_witness:
  "\<exists>c. compress_records [demo_record ''r'' False] ''out'' (PStr ''s'') [''r''] 0 = Inr c \<and> mr_tenant_id (cr_record c) = ''t''"
proof -
  obtain c where c: "compress_records [demo_record ''r'' False] ''out'' (PStr ''s'') [''r''] 0 = Inr c"
    by (simp add: compress_records_def MemoryRecord_post_init_def demo_record_def Let_def)
  from compression_keeps_governance [OF c, of "demo_record ''r'' False"] c show ?thesis by (simp add: demo_record_def)
qed

end
