(* ===== verification/Skills.thy ===== *)
theory Skills
  imports Backups Complex_Main
begin

text \<open>
  Reusable skills (\<open>memory/contracts.py\<close>, \<open>memory/skills.py\<close>): manifests and their constructor,
  induction from episodes, and the registry with its lifecycle, promotion, rollback and
  invalidation. The canonical hash of a manifest's content is the argument \<open>chash\<close>; rates are
  compared with constants only and are real numbers. The operations of the registry return
  the exception beside the state where the code changes the state before it raises
  (\<open>rollback\<close>).
\<close>

declare map_of_eq_Some_iff [simp del] Some_eq_map_of_iff [simp del]

section \<open>Manifests and evaluations\<close>

datatype skill_lifecycle =
  SL_DRAFT | SL_SANDBOXED | SL_EVALUATED | SL_SHADOW | SL_CANARY | SL_ACTIVE | SL_QUARANTINED | SL_RETIRED | SL_ROLLED_BACK

record episode =
  ep_episode_id :: string
  ep_tenant_id :: string
  ep_task_fingerprint :: string
  ep_actions :: "string list"
  ep_outcome :: real
  ep_verified :: bool
  ep_evidence_ids :: "string list"
  ep_negative :: bool

record skill_content =
  sk_skill_id :: string
  sk_version :: string
  sk_tenant_id :: string
  sk_procedure :: "string list"
  sk_permissions :: "string set"
  sk_domains :: "string set"
  sk_source_episode_ids :: "string list"
  sk_negative_episode_ids :: "string list"
  sk_dependency_fingerprints :: "string set"

record skill_manifest = skill_content +
  sk_name :: string
  sk_lifecycle :: skill_lifecycle
  sk_evaluation_artifact_ids :: "string list"
  sk_parent_version :: "string option"
  sk_fingerprint :: string

definition SkillManifest_post_init :: "(skill_content \<Rightarrow> string) \<Rightarrow> skill_manifest \<Rightarrow> skill_manifest res" where
  "SkillManifest_post_init chash m =
     require (sk_skill_id m \<noteq> [] \<and> sk_version m \<noteq> [] \<and> sk_tenant_id m \<noteq> [] \<and> sk_name m \<noteq> [])
       (ValueError ''skill identity fields MUST be non-empty'')
     (require (sk_procedure m \<noteq> [] \<and> sk_source_episode_ids m \<noteq> [])
       (ValueError ''skill MUST have a procedure and verified source episodes'')
     (let expected = chash (skill_content.truncate m) in
      require (sk_fingerprint m = [] \<or> sk_fingerprint m = expected)
        (ValueError ''skill fingerprint does not match manifest content'')
      (Inr (m\<lparr>sk_fingerprint := expected\<rparr>))))"

record skill_evaluation =
  se_artifact_id :: string
  se_skill_fingerprint :: string
  se_held_out_tasks :: int
  se_baseline_success :: real
  se_skill_success :: real
  se_harmful_transfer_rate :: real
  se_poisoning_detection_rate :: real
  se_permission_violations :: int

definition promotable :: "skill_evaluation \<Rightarrow> bool" where
  "promotable e \<longleftrightarrow> 0 < se_held_out_tasks e \<and> se_baseline_success e < se_skill_success e
     \<and> se_harmful_transfer_rate e \<le> 5 / 100 \<and> 95 / 100 \<le> se_poisoning_detection_rate e
     \<and> se_permission_violations e = 0"

definition induce_skill ::
  "(skill_content \<Rightarrow> string) \<Rightarrow> string \<Rightarrow> string \<Rightarrow> string \<Rightarrow> string list \<Rightarrow> string set \<Rightarrow> string set \<Rightarrow> episode list
   \<Rightarrow> string set \<Rightarrow> skill_manifest res" where
  "induce_skill chash skill_id version name procedure permissions domains episodes deps =
     (let pos = filter (\<lambda>e. ep_verified e \<and> \<not> ep_negative e \<and> 0 < ep_outcome e) episodes;
          neg = filter (\<lambda>e. ep_verified e \<and> ep_negative e) episodes
      in require (pos \<noteq> []) (ValueError ''skill induction requires a verified positive episode'')
        (require (card (ep_tenant_id ` set episodes) = 1) (ValueError ''skill induction cannot cross tenant boundaries'')
        (SkillManifest_post_init chash
          \<lparr>sk_skill_id = skill_id, sk_version = version, sk_tenant_id = ep_tenant_id (hd pos), sk_procedure = procedure,
           sk_permissions = permissions, sk_domains = domains, sk_source_episode_ids = map ep_episode_id pos,
           sk_negative_episode_ids = map ep_episode_id neg, sk_dependency_fingerprints = deps, sk_name = name,
           sk_lifecycle = SL_DRAFT, sk_evaluation_artifact_ids = [], sk_parent_version = None, sk_fingerprint = []\<rparr>)))"

section \<open>The registry\<close>

type_synonym skill_key = "string \<times> string"

record skill_registry =
  sr_versions :: "(skill_key, skill_manifest) dict"
  sr_evaluations :: "(string, skill_evaluation) dict"
  sr_disabled :: "string set"

definition new_skill_registry :: skill_registry where
  "new_skill_registry = \<lparr>sr_versions = [], sr_evaluations = [], sr_disabled = {}\<rparr>"

fun forward :: "skill_lifecycle \<Rightarrow> skill_lifecycle option" where
  "forward SL_DRAFT = Some SL_SANDBOXED"
| "forward SL_SANDBOXED = Some SL_EVALUATED"
| "forward SL_EVALUATED = Some SL_SHADOW"
| "forward SL_SHADOW = Some SL_CANARY"
| "forward SL_CANARY = Some SL_ACTIVE"
| "forward _ = None"

definition sr_register :: "skill_manifest \<Rightarrow> skill_registry \<Rightarrow> skill_registry res" where
  "sr_register m s =
     (let k = (sk_skill_id m, sk_version m) in
      require (map_of (sr_versions s) k = None) (ValueError ''skill version already exists'')
      (Inr (s\<lparr>sr_versions := dict_set k m (sr_versions s)\<rparr>)))"

definition sr_get :: "string \<Rightarrow> string \<Rightarrow> skill_registry \<Rightarrow> skill_manifest option" where
  "sr_get i v s = map_of (sr_versions s) (i, v)"

definition sr_require :: "string \<Rightarrow> string \<Rightarrow> skill_registry \<Rightarrow> skill_manifest res" where
  "sr_require i v s =
     (case sr_get i v s of None \<Rightarrow> Inl (KeyError (''unknown skill version: '' @ i @ '':'' @ v)) | Some m \<Rightarrow> Inr m)"

text \<open>The loop that retires the other active versions of a skill.\<close>

definition demote_others :: "skill_manifest \<Rightarrow> (skill_key, skill_manifest) dict \<Rightarrow> (skill_key, skill_manifest) dict" where
  "demote_others m d =
     map (\<lambda>(k, x). (k, if sk_skill_id x = sk_skill_id m \<and> sk_tenant_id x = sk_tenant_id m
            \<and> sk_version x \<noteq> sk_version m \<and> sk_lifecycle x = SL_ACTIVE
          then x\<lparr>sk_lifecycle := SL_ROLLED_BACK\<rparr> else x)) d"

text \<open>The checks of \<open>transition\<close> in their order, for a lifecycle other than the current one.\<close>

definition transition_error :: "skill_lifecycle \<Rightarrow> skill_manifest \<Rightarrow> skill_registry \<Rightarrow> exc option" where
  "transition_error l current s =
     (let evaluation = map_of (sr_evaluations s) (sk_fingerprint current) in
      if l \<notin> {SL_QUARANTINED, SL_RETIRED, SL_ROLLED_BACK} \<and> forward (sk_lifecycle current) \<noteq> Some l
      then Some (ValueError ''illegal skill lifecycle transition'')
      else if l = SL_EVALUATED \<and> evaluation = None
      then Some (ValueError ''skill evaluation artifact is required'')
      else if l \<in> {SL_SHADOW, SL_CANARY, SL_ACTIVE} \<and> \<not> (case evaluation of None \<Rightarrow> False | Some e \<Rightarrow> promotable e)
      then Some (ValueError ''skill does not meet promotion thresholds'')
      else None)"

definition moved_manifest :: "skill_lifecycle \<Rightarrow> skill_manifest \<Rightarrow> skill_registry \<Rightarrow> skill_manifest" where
  "moved_manifest l current s =
     (if l = SL_EVALUATED
      then current\<lparr>sk_evaluation_artifact_ids := [se_artifact_id (the (map_of (sr_evaluations s) (sk_fingerprint current)))]\<rparr>
      else current)\<lparr>sk_lifecycle := l\<rparr>"

definition sr_transition ::
  "string \<Rightarrow> string \<Rightarrow> skill_lifecycle \<Rightarrow> skill_registry \<Rightarrow> (skill_manifest \<times> skill_registry) res" where
  "sr_transition i v l s =
     (case sr_require i v s of
        Inl e \<Rightarrow> Inl e
      | Inr current \<Rightarrow>
          if l = sk_lifecycle current then Inr (current, s)
          else (case transition_error l current s of
              Some e \<Rightarrow> Inl e
            | None \<Rightarrow>
                let updated = moved_manifest l current s;
                    versions = (if l = SL_ACTIVE then demote_others current (sr_versions s) else sr_versions s)
                in Inr (updated, s\<lparr>sr_versions := dict_set (i, v) updated versions\<rparr>)))"

definition record_evaluation :: "skill_evaluation \<Rightarrow> skill_registry \<Rightarrow> skill_registry res" where
  "record_evaluation e s =
     require (se_skill_fingerprint e \<in> set (map (\<lambda>(_, m). sk_fingerprint m) (sr_versions s)))
       (KeyError ''evaluation references unknown skill fingerprint'')
     (Inr (s\<lparr>sr_evaluations := dict_set (se_skill_fingerprint e) e (sr_evaluations s)\<rparr>))"

definition sr_active :: "string \<Rightarrow> string \<Rightarrow> string set \<Rightarrow> skill_registry \<Rightarrow> skill_manifest list" where
  "sr_active tenant domain perms s =
     filter (\<lambda>m. sk_lifecycle m = SL_ACTIVE \<and> sk_skill_id m \<notin> sr_disabled s \<and> sk_tenant_id m = tenant
         \<and> domain \<in> sk_domains m \<and> sk_permissions m \<subseteq> perms)
       (sort_key (\<lambda>m. (sk_skill_id m, sk_version m)) (map snd (sr_versions s)))"

definition drifted :: "string set \<Rightarrow> skill_manifest \<Rightarrow> bool" where
  "drifted changed m \<longleftrightarrow> sk_dependency_fingerprints m \<inter> changed \<noteq> {} \<and> sk_lifecycle m \<notin> {SL_RETIRED, SL_ROLLED_BACK}"

definition sr_invalidate :: "string set \<Rightarrow> skill_registry \<Rightarrow> string list \<times> skill_registry" where
  "sr_invalidate changed s =
     (sort (map (\<lambda>(_, m). sk_skill_id m @ '':'' @ sk_version m) (filter (\<lambda>(_, m). drifted changed m) (sr_versions s))),
      s\<lparr>sr_versions := map (\<lambda>(k, m). (k, if drifted changed m then m\<lparr>sk_lifecycle := SL_QUARANTINED\<rparr> else m)) (sr_versions s)\<rparr>)"

definition sr_rollback :: "string \<Rightarrow> string \<Rightarrow> skill_registry \<Rightarrow> skill_manifest res \<times> skill_registry" where
  "sr_rollback i v s =
     (case sr_transition i v SL_ROLLED_BACK s of
        Inl e \<Rightarrow> (Inl e, s)
      | Inr (failed, s1) \<Rightarrow>
          (case sk_parent_version failed of
             None \<Rightarrow> (Inr failed, s1)
           | Some pv \<Rightarrow>
               (case sr_require i pv s1 of
                  Inl e \<Rightarrow> (Inl e, s1)
                | Inr parent \<Rightarrow>
                    if (case map_of (sr_evaluations s1) (sk_fingerprint parent) of None \<Rightarrow> False | Some e \<Rightarrow> promotable e)
                    then (Inr failed, s1\<lparr>sr_versions :=
                           dict_set (i, sk_version parent) (parent\<lparr>sk_lifecycle := SL_ACTIVE\<rparr>) (sr_versions s1)\<rparr>)
                    else (Inl (ValueError ''parent skill version is not qualified for rollback''), s1))))"

definition sr_disable :: "string \<Rightarrow> skill_registry \<Rightarrow> skill_registry res" where
  "sr_disable i s =
     require (\<exists>k\<in>set (dict_keys (sr_versions s)). fst k = i) (KeyError (''unknown skill: '' @ i))
       (Inr (s\<lparr>sr_disabled := insert i (sr_disabled s)\<rparr>))"

definition sr_snapshot ::
  "skill_registry \<Rightarrow> (skill_key, skill_manifest) dict \<times> (string, skill_evaluation) dict \<times> string set" where
  "sr_snapshot s = (sr_versions s, sr_evaluations s, sr_disabled s)"

definition sr_restore ::
  "(skill_key, skill_manifest) dict \<times> (string, skill_evaluation) dict \<times> string set \<Rightarrow> skill_registry \<Rightarrow> skill_registry" where
  "sr_restore b s = (case b of (vs, es, ds) \<Rightarrow> s\<lparr>sr_versions := vs, sr_evaluations := es, sr_disabled := ds\<rparr>)"

section \<open>Sequences of calls\<close>

datatype skill_call =
    SRegister skill_manifest
  | STransition string string skill_lifecycle
  | SEvaluate skill_evaluation
  | SInvalidate "string set"
  | SRollback string string
  | SDisable string

definition kept :: "skill_registry \<Rightarrow> skill_registry res \<Rightarrow> skill_registry" where
  "kept s x = (case x of Inl _ \<Rightarrow> s | Inr s' \<Rightarrow> s')"

fun skill_step :: "skill_registry \<Rightarrow> skill_call \<Rightarrow> skill_registry" where
  "skill_step s (SRegister m) = kept s (sr_register m s)"
| "skill_step s (STransition i v l) = (case sr_transition i v l s of Inl _ \<Rightarrow> s | Inr (_, s') \<Rightarrow> s')"
| "skill_step s (SEvaluate e) = kept s (record_evaluation e s)"
| "skill_step s (SInvalidate changed) = snd (sr_invalidate changed s)"
| "skill_step s (SRollback i v) = snd (sr_rollback i v s)"
| "skill_step s (SDisable i) = kept s (sr_disable i s)"

text \<open>Runs in which snapshots of the registry are taken and restored.\<close>

definition skill_run :: "skill_registry \<Rightarrow> skill_call backed_call list \<Rightarrow> skill_registry" where
  "skill_run = backed_run skill_step sr_snapshot sr_restore"

interpretation skills: backups skill_step sr_snapshot sr_restore
  by unfold_locales (simp add: sr_snapshot_def sr_restore_def)

lemma kept_simps [simp]: "kept s (Inl e) = s" "kept s (Inr s') = s'"
  by (simp_all add: kept_def)

text \<open>Manifests are filed under their own identity.\<close>

definition skills_keyed :: "skill_registry \<Rightarrow> bool" where
  "skills_keyed s \<longleftrightarrow> dict_ok (sr_versions s)
     \<and> (\<forall>k m. map_of (sr_versions s) k = Some m \<longrightarrow> k = (sk_skill_id m, sk_version m))"

lemma map_of_map_values: "map_of (map (\<lambda>(k, x). (k, f x)) d) k = map_option f (map_of d k)"
  by (induction d) auto

lemma demote_lookup:
  "map_of (demote_others m d) k =
     map_option (\<lambda>x. if sk_skill_id x = sk_skill_id m \<and> sk_tenant_id x = sk_tenant_id m
        \<and> sk_version x \<noteq> sk_version m \<and> sk_lifecycle x = SL_ACTIVE
      then x\<lparr>sk_lifecycle := SL_ROLLED_BACK\<rparr> else x) (map_of d k)"
  unfolding demote_others_def by (rule map_of_map_values)

lemma demote_keys [simp]: "map fst (demote_others m d) = map fst d"
  by (auto simp: demote_others_def)

lemma invalidate_lookup:
  "map_of (sr_versions (snd (sr_invalidate changed s))) k =
     map_option (\<lambda>m. if drifted changed m then m\<lparr>sk_lifecycle := SL_QUARANTINED\<rparr> else m) (map_of (sr_versions s) k)"
  by (simp add: sr_invalidate_def map_of_map_values)

text \<open>What a successful transition does.\<close>

lemma transition_cases:
  assumes "sr_transition i v l s = Inr (m, s')"
  obtains (same) "s' = s"
    | (plain) c where "map_of (sr_versions s) (i, v) = Some c" "transition_error l c s = None" "l \<noteq> SL_ACTIVE"
        "m = moved_manifest l c s" "s' = s\<lparr>sr_versions := dict_set (i, v) m (sr_versions s)\<rparr>"
    | (activated) c where "map_of (sr_versions s) (i, v) = Some c" "transition_error l c s = None" "l = SL_ACTIVE"
        "m = moved_manifest l c s" "s' = s\<lparr>sr_versions := dict_set (i, v) m (demote_others c (sr_versions s))\<rparr>"
proof (cases "map_of (sr_versions s) (i, v)")
  case None
  with assms show thesis by (simp add: sr_transition_def sr_require_def sr_get_def)
next
  case (Some c)
  then have t: "(if l = sk_lifecycle c then Inr (c, s)
      else (case transition_error l c s of Some e \<Rightarrow> Inl e
        | None \<Rightarrow> Inr (moved_manifest l c s, s\<lparr>sr_versions := dict_set (i, v) (moved_manifest l c s)
            (if l = SL_ACTIVE then demote_others c (sr_versions s) else sr_versions s)\<rparr>))) = Inr (m, s')"
    using assms by (simp only: sr_transition_def sr_require_def sr_get_def Let_def option.case sum.case)
  show thesis
  proof (cases "l = sk_lifecycle c")
    case True
    with t show thesis using same by simp
  next
    case False
    with t have e: "transition_error l c s = None" by (simp split: option.splits)
    with t False have "m = moved_manifest l c s" "s' = s\<lparr>sr_versions := dict_set (i, v) (moved_manifest l c s)
        (if l = SL_ACTIVE then demote_others c (sr_versions s) else sr_versions s)\<rparr>" by auto
    with Some e plain activated show thesis by (cases "l = SL_ACTIVE") simp_all
  qed
qed

lemma moved_simps [simp]:
  "sk_lifecycle (moved_manifest l c s) = l" "sk_skill_id (moved_manifest l c s) = sk_skill_id c"
  "sk_version (moved_manifest l c s) = sk_version c" "sk_tenant_id (moved_manifest l c s) = sk_tenant_id c"
  "sk_fingerprint (moved_manifest l c s) = sk_fingerprint c"
  by (simp_all add: moved_manifest_def)

lemma keyed_set:
  "skills_keyed s \<Longrightarrow> k = (sk_skill_id m, sk_version m) \<Longrightarrow> skills_keyed (s\<lparr>sr_versions := dict_set k m (sr_versions s)\<rparr>)"
  by (auto simp: skills_keyed_def)

lemma keyed_demote:
  assumes "skills_keyed s"
  shows "skills_keyed (s\<lparr>sr_versions := demote_others c (sr_versions s)\<rparr>)"
  using assms by (auto simp: skills_keyed_def demote_lookup)

lemma keyed_lookup: "skills_keyed s \<Longrightarrow> map_of (sr_versions s) k = Some m \<Longrightarrow> k = (sk_skill_id m, sk_version m)"
  unfolding skills_keyed_def by blast

lemma keyed_transition:
  assumes "skills_keyed s" and "sr_transition i v l s = Inr (m, s')"
  shows "skills_keyed s'"
  using assms(2)
proof (cases rule: transition_cases)
  case (plain c)
  then show ?thesis using keyed_lookup [OF assms(1) plain(1)] keyed_set [OF assms(1), of "(i, v)" m] by simp
next
  case (activated c)
  then show ?thesis
    using keyed_lookup [OF assms(1) activated(1)] keyed_set [OF keyed_demote [OF assms(1), of c], of "(i, v)" m] by simp
qed (simp add: assms(1))

lemma rollback_cases:
  obtains (error) "snd (sr_rollback i v s) = s"
    | (no_parent) m where "sr_transition i v SL_ROLLED_BACK s = Inr (m, snd (sr_rollback i v s))"
    | (parent) m s1 pv p e where "sr_transition i v SL_ROLLED_BACK s = Inr (m, s1)" "map_of (sr_versions s1) (i, pv) = Some p"
        "map_of (sr_evaluations s1) (sk_fingerprint p) = Some e" "promotable e"
        "snd (sr_rollback i v s) = s1\<lparr>sr_versions := dict_set (i, sk_version p) (p\<lparr>sk_lifecycle := SL_ACTIVE\<rparr>) (sr_versions s1)\<rparr>"
proof (cases "sr_transition i v SL_ROLLED_BACK s")
  case (Inl e)
  then show thesis using error by (simp add: sr_rollback_def)
next
  case (Inr x)
  obtain m s1 where x: "x = (m, s1)" by fastforce
  show thesis
  proof (cases "snd (sr_rollback i v s) = s1")
    case True
    then show thesis using no_parent Inr x by simp
  next
    case False
    then show thesis using parent Inr x
      by (auto simp: sr_rollback_def sr_require_def sr_get_def split: option.splits if_splits)
  qed
qed

lemma keyed_step: "skills_keyed s \<Longrightarrow> skills_keyed (skill_step s c)"
proof (cases c)
  case (SRegister m)
  assume "skills_keyed s"
  then show ?thesis using keyed_set [of s _ m] by (auto simp: SRegister sr_register_def Let_def require_def)
next
  case (STransition i v l)
  assume "skills_keyed s"
  then show ?thesis using keyed_transition [of s i v l] by (auto simp: STransition split: sum.splits)
next
  case (SRollback i v)
  assume s: "skills_keyed s"
  have "skills_keyed (snd (sr_rollback i v s))"
  proof (cases rule: rollback_cases [of i v s])
    case (parent m s1 pv p e)
    have s1: "skills_keyed s1" by (rule keyed_transition [OF s parent(1)])
    show ?thesis unfolding parent(5) using keyed_lookup [OF s1 parent(2)] by (intro keyed_set [OF s1]) simp
  next
    case (no_parent m)
    then show ?thesis by (rule keyed_transition [OF s])
  qed (simp add: s)
  then show ?thesis by (simp add: SRollback)
next
  case (SInvalidate changed)
  assume "skills_keyed s"
  moreover have "map fst (sr_versions (snd (sr_invalidate changed s))) = map fst (sr_versions s)"
    by (auto simp: sr_invalidate_def)
  ultimately show ?thesis unfolding skills_keyed_def SInvalidate skill_step.simps invalidate_lookup
    by (auto split: if_splits)
qed (auto simp: skills_keyed_def record_evaluation_def sr_disable_def require_def)

section \<open>Promotion\<close>

definition promoted :: "skill_lifecycle \<Rightarrow> bool" where
  "promoted l \<longleftrightarrow> l \<in> {SL_SHADOW, SL_CANARY, SL_ACTIVE}"

definition promotable_on_record :: "skill_registry \<Rightarrow> skill_manifest \<Rightarrow> bool" where
  "promotable_on_record s m \<longleftrightarrow> (case map_of (sr_evaluations s) (sk_fingerprint m) of None \<Rightarrow> False | Some e \<Rightarrow> promotable e)"

lemma transition_promotable: "transition_error l c s = None \<Longrightarrow> promoted l \<Longrightarrow> promotable_on_record s c"
  by (auto simp: transition_error_def promoted_def promotable_on_record_def Let_def split: if_splits)

text \<open>How a version comes to be promoted: by its registration, or with a promotable evaluation on record.\<close>

lemma transition_promotes:
  assumes "sr_transition i v l s = Inr (x, s')" and "map_of (sr_versions s') k = Some m" and "promoted (sk_lifecycle m)"
  shows "map_of (sr_versions s) k = Some m \<or> promotable_on_record s m"
  using assms(1)
proof (cases rule: transition_cases)
  case (plain c)
  then show ?thesis
    using assms(2,3) transition_promotable [of l c s] by (auto simp: promotable_on_record_def split: if_splits)
next
  case (activated c)
  then show ?thesis
    using assms(2,3) transition_promotable [of l c s]
    by (auto simp: promotable_on_record_def demote_lookup promoted_def split: if_splits)
qed (use assms(2) in simp)

lemma transition_evaluations: "sr_transition i v l s = Inr (x, s') \<Longrightarrow> sr_evaluations s' = sr_evaluations s"
  by (erule transition_cases) simp_all

lemma rollback_promotes:
  assumes "map_of (sr_versions (snd (sr_rollback i v s))) k = Some m" and "promoted (sk_lifecycle m)"
  shows "map_of (sr_versions s) k = Some m \<or> promotable_on_record s m"
proof (cases rule: rollback_cases [of i v s])
  case (parent x s1 pv p e)
  show ?thesis
  proof (cases "k = (i, sk_version p)")
    case True
    then show ?thesis
      using assms(1) parent(3,4) transition_evaluations [OF parent(1)] unfolding parent(5)
      by (auto simp: promotable_on_record_def)
  next
    case False
    then show ?thesis using transition_promotes [OF parent(1) _ assms(2)] assms(1) unfolding parent(5) by auto
  qed
qed (use assms transition_promotes in auto)

lemma step_promotes:
  assumes "map_of (sr_versions (skill_step s c)) k = Some m" and "promoted (sk_lifecycle m)"
  shows "map_of (sr_versions s) k = Some m \<or> c = SRegister m \<or> promotable_on_record s m"
proof (cases c)
  case (SRegister x)
  with assms show ?thesis by (auto simp: sr_register_def Let_def require_def split: if_splits)
next
  case (STransition i v l)
  with assms(1) show ?thesis by (auto split: sum.splits dest: transition_promotes [OF _ _ assms(2)])
next
  case (SInvalidate changed)
  with assms show ?thesis
    by (auto simp: invalidate_lookup promoted_def split: if_splits)
next
  case (SRollback i v)
  with assms rollback_promotes show ?thesis by auto
qed (use assms in \<open>auto simp: record_evaluation_def sr_disable_def require_def split: if_splits\<close>)

lemma rollback_evaluations: "sr_evaluations (snd (sr_rollback i v s)) = sr_evaluations s"
  by (cases rule: rollback_cases [of i v s]) (auto dest: transition_evaluations)

lemma step_evaluations:
  "map_of (sr_evaluations (skill_step s c)) fp = Some e \<Longrightarrow> map_of (sr_evaluations s) fp \<noteq> Some e \<Longrightarrow> c = SEvaluate e"
  by (cases c) (auto simp: sr_register_def record_evaluation_def sr_disable_def sr_invalidate_def rollback_evaluations
      require_def Let_def split: if_splits sum.splits dest: transition_evaluations)

text \<open>An evaluation is on record only if it was recorded by a call.\<close>

lemma evaluations_recorded:
  assumes "map_of (sr_evaluations (skill_run new_skill_registry cs)) fp = Some e"
  shows "Call (SEvaluate e) \<in> set cs"
proof -
  let ?P = "\<lambda>s. map_of (sr_evaluations s) fp = Some e"
  have "\<not> ?P new_skill_registry" by (simp add: new_skill_registry_def)
  from skills.appears_by_call [of ?P, OF this, of cs] assms
  obtain before c after where c: "cs = before @ Call c # after" "\<not> ?P (skill_run new_skill_registry before)"
      "?P (skill_step (skill_run new_skill_registry before) c)"
    unfolding skill_run_def by blast
  from step_evaluations [OF c(3,2)] show ?thesis by (simp add: c(1))
qed

lemma keyed_run: "skills_keyed (foldl skill_step new_skill_registry cs)"
  by (induction cs rule: rev_induct) (simp_all add: keyed_step, simp add: skills_keyed_def new_skill_registry_def)

section \<open>One active version\<close>

definition active_at :: "(skill_key, skill_manifest) dict \<Rightarrow> skill_key \<Rightarrow> string \<Rightarrow> string \<Rightarrow> bool" where
  "active_at d k i t =
     (case map_of d k of None \<Rightarrow> False
      | Some m \<Rightarrow> sk_lifecycle m = SL_ACTIVE \<and> sk_skill_id m = i \<and> sk_tenant_id m = t)"

definition single_active :: "skill_registry \<Rightarrow> bool" where
  "single_active s \<longleftrightarrow> (\<forall>k k' i t. active_at (sr_versions s) k i t \<longrightarrow> active_at (sr_versions s) k' i t \<longrightarrow> k = k')"

definition no_rollback :: "skill_call \<Rightarrow> bool" where
  "no_rollback c = (case c of SRollback _ _ \<Rightarrow> False | SRegister m \<Rightarrow> sk_lifecycle m = SL_DRAFT | _ \<Rightarrow> True)"

lemma single_active_mono:
  "single_active s \<Longrightarrow> (\<And>k i t. active_at (sr_versions s') k i t \<Longrightarrow> active_at (sr_versions s) k i t) \<Longrightarrow> single_active s'"
  unfolding single_active_def by blast

lemma active_at_set:
  "active_at (dict_set k m d) k' i t \<longleftrightarrow>
     (if k' = k then sk_lifecycle m = SL_ACTIVE \<and> sk_skill_id m = i \<and> sk_tenant_id m = t else active_at d k' i t)"
  by (simp add: active_at_def)

lemma active_at_demote:
  "active_at (demote_others c d) k i t \<Longrightarrow>
     active_at d k i t \<and> (\<forall>x. map_of d k = Some x \<longrightarrow> i = sk_skill_id c \<and> t = sk_tenant_id c \<longrightarrow> sk_version x = sk_version c)"
  by (auto simp: active_at_def demote_lookup split: option.splits if_splits)

lemma single_active_activate:
  assumes "skills_keyed s" and "single_active s" and "map_of (sr_versions s) k = Some c"
    and "sk_skill_id m = sk_skill_id c" and "sk_tenant_id m = sk_tenant_id c"
  shows "single_active (s\<lparr>sr_versions := dict_set k m (demote_others c (sr_versions s))\<rparr>)"
proof -
  have kc: "k = (sk_skill_id c, sk_version c)" by (rule keyed_lookup [OF assms(1,3)])
  have other: "k' = k" if "active_at (demote_others c (sr_versions s)) k' (sk_skill_id c) (sk_tenant_id c)" for k'
  proof -
    from active_at_demote [OF that] have a: "active_at (sr_versions s) k' (sk_skill_id c) (sk_tenant_id c)"
      and v: "\<And>x. map_of (sr_versions s) k' = Some x \<Longrightarrow> sk_version x = sk_version c" by auto
    show ?thesis
    proof (cases "map_of (sr_versions s) k'")
      case None
      with a show ?thesis by (simp add: active_at_def)
    next
      case (Some x)
      with a have "sk_skill_id x = sk_skill_id c" by (simp add: active_at_def)
      with keyed_lookup [OF assms(1) Some] v [OF Some] kc show ?thesis by simp
    qed
  qed
  have "k1 = k2" if "active_at (demote_others c (sr_versions s)) k1 i t" "active_at (demote_others c (sr_versions s)) k2 i t" for k1 k2 i t
    using assms(2) that [THEN active_at_demote] unfolding single_active_def by blast
  note same = this
  let ?d = "dict_set k m (demote_others c (sr_versions s))"
  have "k1 = k2" if a: "active_at ?d k1 i t" "active_at ?d k2 i t" for k1 k2 i t
  proof (cases "k1 = k \<or> k2 = k")
    case True
    then have "i = sk_skill_id c \<and> t = sk_tenant_id c" using a assms(4,5) by (auto simp: active_at_set)
    then show ?thesis using a True other by (auto simp: active_at_set split: if_splits)
  next
    case False
    then show ?thesis using a same by (simp add: active_at_set)
  qed
  then show ?thesis by (simp add: single_active_def)
qed

lemma single_active_step:
  assumes "skills_keyed s" and "single_active s" and "no_rollback c"
  shows "single_active (skill_step s c)"
proof (cases c)
  case (SRegister m)
  then show ?thesis
    using assms(2,3) by (cases "sr_register m s")
      (auto simp: no_rollback_def sr_register_def Let_def active_at_set elim!: single_active_mono split: if_splits)
next
  case (STransition i v l)
  show ?thesis
  proof (cases "sr_transition i v l s")
    case (Inr x)
    obtain m s' where x: "x = (m, s')" by fastforce
    from Inr [unfolded x] have "single_active s'"
    proof (cases rule: transition_cases)
      case (plain c)
      show ?thesis
        by (rule single_active_mono [OF assms(2)]) (use plain in \<open>auto simp: active_at_set split: if_splits\<close>)
    next
      case (activated c)
      show ?thesis unfolding activated(5) using activated(1,4) by (intro single_active_activate [OF assms(1,2)]) simp_all
    qed (simp add: assms(2))
    then show ?thesis by (simp add: STransition Inr x)
  qed (simp add: STransition assms(2))
next
  case (SEvaluate e)
  then show ?thesis using assms(2) by (auto simp: record_evaluation_def require_def single_active_def)
next
  case (SInvalidate changed)
  show ?thesis unfolding SInvalidate skill_step.simps
    by (rule single_active_mono [OF assms(2)])
      (auto simp: active_at_def invalidate_lookup split: option.splits if_splits)
next
  case (SDisable i)
  then show ?thesis using assms(2) by (auto simp: sr_disable_def require_def single_active_def)
qed (use assms(3) in \<open>simp add: no_rollback_def\<close>)

lemma single_active_run:
  "list_all no_rollback cs \<Longrightarrow> single_active (foldl skill_step new_skill_registry cs)"
proof (induction cs rule: rev_induct)
  case Nil
  show ?case by (simp add: single_active_def new_skill_registry_def active_at_def)
next
  case (snoc c cs)
  then show ?case using single_active_step [OF keyed_run] by simp
qed

section \<open>Properties\<close>

definition demo_skill :: "string \<Rightarrow> string option \<Rightarrow> skill_manifest" where
  "demo_skill v parent = \<lparr>sk_skill_id = ''s'', sk_version = v, sk_tenant_id = ''t'', sk_procedure = [''p''], sk_permissions = {},
     sk_domains = {''d''}, sk_source_episode_ids = [''e''], sk_negative_episode_ids = [], sk_dependency_fingerprints = {},
     sk_name = ''n'', sk_lifecycle = SL_DRAFT, sk_evaluation_artifact_ids = [], sk_parent_version = parent, sk_fingerprint = v\<rparr>"

definition demo_evaluation :: "string \<Rightarrow> skill_evaluation" where
  "demo_evaluation v = \<lparr>se_artifact_id = ''a'', se_skill_fingerprint = v, se_held_out_tasks = 10, se_baseline_success = 0,
     se_skill_success = 1, se_harmful_transfer_rate = 0, se_poisoning_detection_rate = 1, se_permission_violations = 0\<rparr>"

definition demo_promotion :: "string \<Rightarrow> string option \<Rightarrow> skill_call list" where
  "demo_promotion v parent = SRegister (demo_skill v parent) # SEvaluate (demo_evaluation v)
     # map (STransition ''s'' v) [SL_SANDBOXED, SL_EVALUATED, SL_SHADOW, SL_CANARY, SL_ACTIVE]"

text \<open>
  C24: A skill is used only after a promotable evaluation. After any calls, snapshots and
  restorations, a version that is shadowed, in canary or active was brought to what it is now by a
  call: either it was registered with that status, or at that moment the evaluation on record for
  its fingerprint, recorded by an earlier call, was promotable (improved success, rare harm and
  no permission violation). This covers promotions and rollbacks to a parent version.
\<close>

theorem promoted_skills_were_evaluated:
  assumes "sr_get i v (skill_run new_skill_registry cs) = Some m"
    and "sk_lifecycle m \<in> {SL_SHADOW, SL_CANARY, SL_ACTIVE}"
  shows "\<exists>before c after. cs = before @ Call c # after
    \<and> sr_get i v (skill_run new_skill_registry before) \<noteq> Some m
    \<and> sr_get i v (skill_step (skill_run new_skill_registry before) c) = Some m
    \<and> (c = SRegister m \<or>
        (\<exists>e. Call (SEvaluate e) \<in> set before \<and> promotable e
          \<and> map_of (sr_evaluations (skill_run new_skill_registry before)) (sk_fingerprint m) = Some e))"
proof -
  let ?P = "\<lambda>s. map_of (sr_versions s) (i, v) = Some m"
  have "\<not> ?P new_skill_registry" by (simp add: new_skill_registry_def)
  from skills.appears_by_call [of ?P, OF this, of cs] assms(1)
  obtain before c after where c: "cs = before @ Call c # after" "\<not> ?P (skill_run new_skill_registry before)"
      "?P (skill_step (skill_run new_skill_registry before) c)"
    unfolding sr_get_def skill_run_def by blast
  have "c = SRegister m \<or> promotable_on_record (skill_run new_skill_registry before) m"
    using step_promotes [OF c(3)] c(2) assms(2) unfolding promoted_def by blast
  then have "c = SRegister m \<or> (\<exists>e. Call (SEvaluate e) \<in> set before \<and> promotable e
      \<and> map_of (sr_evaluations (skill_run new_skill_registry before)) (sk_fingerprint m) = Some e)"
    by (auto simp: promotable_on_record_def split: option.splits dest: evaluations_recorded)
  with c show ?thesis unfolding sr_get_def by blast
qed

theorem promoted_skills_were_evaluated_witness:
  "\<exists>e. Call (SEvaluate e) \<in> set (Take_snapshot # map Call (demo_promotion ''1'' None) @ [Take_snapshot, Restore_snapshot 1]) \<and> promotable e"
proof -
  let ?cs = "Take_snapshot # map Call (demo_promotion ''1'' None) @ [Take_snapshot, Restore_snapshot 1]"
  have "map_option sk_lifecycle (sr_get ''s'' ''1'' (skill_run new_skill_registry ?cs)) = Some SL_ACTIVE" by code_simp
  then obtain m where m: "sr_get ''s'' ''1'' (skill_run new_skill_registry ?cs) = Some m" "sk_lifecycle m = SL_ACTIVE" by auto
  have "Call (SRegister m) \<notin> set ?cs" using m(2) by (auto simp: demo_promotion_def demo_skill_def)
  moreover have "\<exists>before c after. ?cs = before @ Call c # after \<and> (c = SRegister m \<or> (\<exists>e. Call (SEvaluate e) \<in> set before \<and> promotable e))"
    using promoted_skills_were_evaluated [OF m(1)] m(2) by blast
  ultimately show ?thesis by (metis in_set_conv_decomp Un_iff set_append)
qed

text \<open>
  Promotion keeps at most one active version of a skill per tenant, for registries filled
  with drafts and changed by transitions, evaluations, invalidations and disabling.
\<close>

theorem one_active_version:
  assumes "list_all no_rollback cs"
    and "m \<in> set (sr_active t d p (foldl skill_step new_skill_registry cs))"
    and "m' \<in> set (sr_active t d p (foldl skill_step new_skill_registry cs))"
    and "sk_skill_id m = sk_skill_id m'"
  shows "m = m'"
proof -
  let ?s = "foldl skill_step new_skill_registry cs"
  have ok: "dict_ok (sr_versions ?s)" using keyed_run by (simp add: skills_keyed_def)
  from assms(2,3) obtain k k' where k: "map_of (sr_versions ?s) k = Some m" "map_of (sr_versions ?s) k' = Some m'"
    by (auto simp: sr_active_def map_of_eq_Some_iff [OF ok])
  with assms(2-4) have "active_at (sr_versions ?s) k (sk_skill_id m) t" "active_at (sr_versions ?s) k' (sk_skill_id m) t"
    by (simp_all add: active_at_def sr_active_def)
  then have "k = k'" using single_active_run [OF assms(1)] unfolding single_active_def by blast
  with k show ?thesis by simp
qed

theorem one_active_version_witness:
  "hd (sr_active ''t'' ''d'' {} (foldl skill_step new_skill_registry (demo_promotion ''1'' None)))
   = last (sr_active ''t'' ''d'' {} (foldl skill_step new_skill_registry (demo_promotion ''1'' None)))"
proof -
  let ?a = "sr_active ''t'' ''d'' {} (foldl skill_step new_skill_registry (demo_promotion ''1'' None))"
  have nr: "list_all no_rollback (demo_promotion ''1'' None)" by (simp add: demo_promotion_def no_rollback_def demo_skill_def)
  have ids: "map sk_skill_id ?a = [''s'']" by code_simp
  then have ne: "?a \<noteq> []" by (metis list.map_disc_iff list.distinct(1))
  then have "sk_skill_id (hd ?a) = hd (map sk_skill_id ?a)" "sk_skill_id (last ?a) = last (map sk_skill_id ?a)"
    by (rule hd_map [symmetric], rule last_map [symmetric])
  then have "sk_skill_id (hd ?a) = sk_skill_id (last ?a)" unfolding ids by (simp only: list.sel last.simps simp_thms if_True)
  then show ?thesis by (rule one_active_version [OF nr hd_in_set [OF ne] last_in_set [OF ne]])
qed

text \<open>
  Rolling a version back activates its parent without retiring the version that is active, so
  after the rollback of an old version two versions of the skill are active.
\<close>

lemma rollback_activates_second_version:
  "map sk_version (sr_active ''t'' ''d'' {} (foldl skill_step new_skill_registry
     (demo_promotion ''3'' None @ [SRegister (demo_skill ''1'' None), SEvaluate (demo_evaluation ''1''),
       SRegister (demo_skill ''2'' (Some ''1'')), SRollback ''s'' ''2''])))
   = [''1'', ''3'']"
  by code_simp

end
