(* ===== verification/Planner.thy ===== *)
theory Planner
  imports Execution_State Schema
begin

text \<open>
  The planner (\<open>planner/pipeline.py\<close>): task analysis, module selection, graph construction and
  validation, and the difference of two graphs. The deterministic identifiers of module instances
  are name-based UUIDs; the function \<open>uuid5\<close> from names to identifiers is an argument. Costs are
  real numbers.
\<close>

declare map_of_eq_Some_iff [simp del] Some_eq_map_of_iff [simp del]

section \<open>Strings\<close>

text \<open>\<open>str.lower\<close> on the code points below 256, and \<open>str.split()\<close>.\<close>

definition lower_char :: "char \<Rightarrow> char" where
  "lower_char c = (let n = (of_char c :: nat) in
     if (65 \<le> n \<and> n \<le> 90) \<or> (192 \<le> n \<and> n \<le> 222 \<and> n \<noteq> 215) then char_of (n + 32) else c)"

definition py_lower :: "string \<Rightarrow> string" where
  "py_lower s = map lower_char s"

function py_split :: "string \<Rightarrow> string list" where
  "py_split s =
     (let t = dropWhile py_isspace s in
      if t = [] then [] else takeWhile (\<lambda>c. \<not> py_isspace c) t # py_split (dropWhile (\<lambda>c. \<not> py_isspace c) t))"
  by pat_completeness auto

termination
proof (relation "measure length")
  fix s t :: string
  assume t: "t = dropWhile py_isspace s" and ne: "t \<noteq> []"
  have "\<not> py_isspace (hd t)" using t ne hd_dropWhile by blast
  then have "length (dropWhile (\<lambda>c. \<not> py_isspace c) t) < length t"
    using ne by (cases t) (auto simp: less_Suc_eq_le length_dropWhile_le)
  also have "\<dots> \<le> length s" unfolding t by (rule length_dropWhile_le)
  finally show "(dropWhile (\<lambda>c. \<not> py_isspace c) t, s) \<in> measure length" by simp
qed simp

declare py_split.simps [simp del]

section \<open>Tasks, goals and graphs\<close>

record sub_goal =
  sg_goal_id :: string
  sg_description :: string
  sg_required_capabilities :: "string list"

record vertex_assignment =
  va_instance_id :: mid
  va_type_id :: module_type_id
  va_cost_estimate :: real
  va_preference_score :: real

record execution_graph =
  g_vertices :: "vertex_assignment list"
  g_edges :: "(mid \<times> mid) list"
  g_cost_weights :: "(mid, real) dict"

definition empty_execution_graph :: execution_graph where
  "empty_execution_graph = \<lparr>g_vertices = [], g_edges = [], g_cost_weights = []\<rparr>"

definition get_vertices :: "execution_graph \<Rightarrow> mid list" where
  "get_vertices g = map va_instance_id (g_vertices g)"

definition to_scheduler_input :: "execution_graph \<Rightarrow> mid list \<times> (mid \<times> mid) list" where
  "to_scheduler_input g = (get_vertices g, g_edges g)"

definition total_cost :: "execution_graph \<Rightarrow> real" where
  "total_cost g =
     sum_list (map (\<lambda>v. get_or 1 (map_of (g_cost_weights g) (va_instance_id v))) (g_vertices g))
     + real (length (g_edges g)) * (1 / 10)"

datatype planning_failure =
    PLANNING_INCOMPLETE
  | PLANNING_CYCLE_ERROR
  | RESOURCE_BUDGET_EXCEEDED real real

datatype planning_result = Plan_success execution_graph | Plan_fail planning_failure

text \<open>
  The constraints of a task are not read by the planner. Of the replanning context only the state
  is passed on, and the block of \<open>GraphBuilder.build\<close> that looks at it has no effect: the scheduler
  it finds there has no \<open>get_vertices\<close>, the exception is caught, and its loop would change nothing.
\<close>

record planning_task =
  pt_task_description :: string
  pt_available_modules :: module_registry
  pt_resource_budget :: real

section \<open>Task analysis\<close>

definition capability_map :: "module_registry \<Rightarrow> (string, string list) dict" where
  "capability_map r =
     fold (\<lambda>(i, c). fold (\<lambda>cap d. dict_set cap (adj_get d cap @ [type_name i]) d) (remdups (mc_capabilities c)))
       (mr_contracts r) []"

definition add_goal :: "(string, string list) dict \<Rightarrow> sub_goal list \<Rightarrow> string \<Rightarrow> sub_goal list" where
  "add_goal cm goals token =
     (if token \<in> set (dict_keys cm)
      then goals @ [\<lparr>sg_goal_id = ''goal_'' @ show_nat (length goals), sg_description = ''achieve_'' @ token,
                     sg_required_capabilities = [token]\<rparr>]
      else goals)"

definition analyze :: "string \<Rightarrow> module_registry \<Rightarrow> sub_goal list" where
  "analyze descr r =
     (let goals = foldl (add_goal (capability_map r)) [] (py_split (py_lower descr)) in
      if goals = []
      then [\<lparr>sg_goal_id = ''goal_default'', sg_description = descr, sg_required_capabilities = []\<rparr>]
      else goals)"

section \<open>Module selection\<close>

definition shared_capabilities :: "sub_goal \<Rightarrow> module_contract \<Rightarrow> string list" where
  "shared_capabilities goal c = filter (\<lambda>cap. cap \<in> set (mc_capabilities c)) (remdups (sg_required_capabilities goal))"

definition eligible :: "sub_goal \<Rightarrow> module_contract \<Rightarrow> bool" where
  "eligible goal c \<longleftrightarrow> \<not> (sg_required_capabilities goal \<noteq> [] \<and> shared_capabilities goal c = [])"

definition module_score :: "sub_goal \<Rightarrow> module_contract \<Rightarrow> real" where
  "module_score goal c = mc_cost_weight c + 1 / 10 * real (length (shared_capabilities goal c))"

definition better ::
  "sub_goal \<Rightarrow> real \<Rightarrow> module_contract option \<times> real \<Rightarrow> module_contract \<Rightarrow> module_contract option \<times> real" where
  "better goal remaining best c =
     (if \<not> eligible goal c then best
      else if snd best < module_score goal c \<and> mc_cost_weight c \<le> remaining then (Some c, module_score goal c)
      else best)"

definition best_contract :: "sub_goal \<Rightarrow> real \<Rightarrow> module_registry \<Rightarrow> module_contract option" where
  "best_contract goal remaining r = fst (foldl (better goal remaining) (None, - 1) (map snd (mr_contracts r)))"

fun select :: "sub_goal list \<Rightarrow> module_registry \<Rightarrow> real \<Rightarrow> (sub_goal \<times> module_contract option) list" where
  "select [] r remaining = []"
| "select (goal # goals) r remaining =
     (case best_contract goal remaining r of
        None \<Rightarrow> (goal, None) # select goals r remaining
      | Some c \<Rightarrow> (goal, Some c) # select goals r (remaining - mc_cost_weight c))"

section \<open>Graph construction\<close>

definition new_instance_id :: "(string \<Rightarrow> string) \<Rightarrow> string \<Rightarrow> nat \<Rightarrow> mid" where
  "new_instance_id uuid5 type_id counter =
     \<lparr>inst_type_id = type_id, inst_uuid = uuid5 (''dnc:'' @ type_id @ '':'' @ show_nat counter)\<rparr>"

fun build_vertices ::
  "(string \<Rightarrow> string) \<Rightarrow> nat \<Rightarrow> (sub_goal \<times> module_contract option) list
   \<Rightarrow> (string, mid) dict \<times> execution_graph \<Rightarrow> (string, mid) dict \<times> execution_graph" where
  "build_vertices uuid5 i [] x = x"
| "build_vertices uuid5 i ((goal, None) # sels) x = build_vertices uuid5 (Suc i) sels x"
| "build_vertices uuid5 i ((goal, Some c) # sels) (im, g) =
     (let n = new_instance_id uuid5 (type_name (mc_type_id c)) i in
      build_vertices uuid5 (Suc i) sels
        (dict_set (sg_goal_id goal) n im,
         g\<lparr>g_vertices := g_vertices g @ [\<lparr>va_instance_id = n, va_type_id = mc_type_id c,
             va_cost_estimate = mc_cost_weight c, va_preference_score = 1\<rparr>],
           g_cost_weights := dict_set n (mc_cost_weight c) (g_cost_weights g)\<rparr>))"

fun build_edges :: "(string, mid) dict \<Rightarrow> (sub_goal \<times> module_contract option) list \<Rightarrow> (mid \<times> mid) list" where
  "build_edges im ((g0, c0) # (g1, c1) # sels) =
     (if c1 = None then []
      else case (map_of im (sg_goal_id g0), map_of im (sg_goal_id g1)) of
             (Some u, Some d) \<Rightarrow> [(u, d)]
           | _ \<Rightarrow> [])
     @ build_edges im ((g1, c1) # sels)"
| "build_edges im _ = []"

definition build :: "(string \<Rightarrow> string) \<Rightarrow> (sub_goal \<times> module_contract option) list \<Rightarrow> execution_graph" where
  "build uuid5 sels =
     (case build_vertices uuid5 0 sels ([], empty_execution_graph) of
        (im, g) \<Rightarrow> g\<lparr>g_edges := g_edges g @ build_edges im sels\<rparr>)"

section \<open>Validation and the pipeline\<close>

definition validate_plan :: "execution_graph \<Rightarrow> real \<Rightarrow> planning_failure option res" where
  "validate_plan g budget =
     (if g_vertices g = [] then Inr (Some PLANNING_INCOMPLETE)
      else case fst (set_graph (get_vertices g) (g_edges g) new_scheduler) of
             Some (DAGCycle _) \<Rightarrow> Inr (Some PLANNING_CYCLE_ERROR)
           | Some e \<Rightarrow> Inl e
           | None \<Rightarrow> Inr (if budget < total_cost g then Some (RESOURCE_BUDGET_EXCEEDED (total_cost g) budget)
                          else None))"

definition plan_graph :: "(string \<Rightarrow> string) \<Rightarrow> planning_task \<Rightarrow> execution_graph" where
  "plan_graph uuid5 task =
     build uuid5 (select (analyze (pt_task_description task) (pt_available_modules task))
                    (pt_available_modules task) (pt_resource_budget task))"

definition plan :: "(string \<Rightarrow> string) \<Rightarrow> planning_task \<Rightarrow> planning_result res" where
  "plan uuid5 task = (let g = plan_graph uuid5 task in
     case validate_plan g (pt_resource_budget task) of
       Inl e \<Rightarrow> Inl e
     | Inr (Some reason) \<Rightarrow> Inr (Plan_fail reason)
     | Inr None \<Rightarrow> Inr (Plan_success g))"

text \<open>
  The sets of the difference are lists without repetitions, in the order in which the graphs have
  the instances.
\<close>

definition compute_graph_diff ::
  "execution_graph \<Rightarrow> execution_graph \<Rightarrow> 'v working_memory \<Rightarrow> mid list \<times> mid list \<times> mid list" where
  "compute_graph_diff g_old g_new wm =
     (let old_ids = remdups (get_vertices g_old); new_ids = remdups (get_vertices g_new);
          common = filter (\<lambda>i. i \<in> set new_ids) old_ids;
          new_only = filter (\<lambda>i. i \<notin> set old_ids) new_ids
      in (filter (wm_contains wm) common,
          filter (\<lambda>i. i \<notin> set new_ids) old_ids,
          new_only @ filter (\<lambda>i. \<not> wm_contains wm i) common))"

section \<open>What the phases produce\<close>

lemma adj_step_keys:
  "fst ` set (fold (\<lambda>cap d. dict_set cap (adj_get d cap @ [x]) d) caps d) = fst ` set d \<union> set caps"
  by (induction caps arbitrary: d) auto

lemma capability_map_keys:
  "fst ` set (capability_map r) = (\<Union>c\<in>snd ` set (mr_contracts r). set (mc_capabilities c))"
proof -
  have "fst ` set (fold (\<lambda>(i, c). fold (\<lambda>cap d. dict_set cap (adj_get d cap @ [type_name i]) d) (remdups (mc_capabilities c))) cs d)
      = fst ` set d \<union> (\<Union>c\<in>snd ` set cs. set (mc_capabilities c))" for cs d
    by (induction cs arbitrary: d) (simp_all add: adj_step_keys case_prod_beta Un_assoc)
  from this [of "mr_contracts r" "[]"] show ?thesis by (simp add: capability_map_def)
qed

text \<open>The goals are numbered by their position, so their identifiers differ.\<close>

definition numbered :: "sub_goal list \<Rightarrow> bool" where
  "numbered goals \<longleftrightarrow> map sg_goal_id goals = map (\<lambda>n. ''goal_'' @ show_nat n) [0..<length goals]"

lemma show_nat_inj: "show_nat m = show_nat n \<longleftrightarrow> m = n"
  by (metis read_show_nat)

lemma foldl_add_goal:
  "numbered goals \<Longrightarrow> numbered (foldl (add_goal cm) goals ts)
   \<and> map sg_required_capabilities (foldl (add_goal cm) goals ts)
     = map sg_required_capabilities goals @ map (\<lambda>t. [t]) (filter (\<lambda>t. t \<in> fst ` set cm) ts)"
proof (induction ts arbitrary: goals)
  case (Cons t ts)
  have "numbered (add_goal cm goals t)" using Cons.prems by (auto simp: numbered_def add_goal_def)
  from Cons.IH [OF this] show ?case by (simp add: add_goal_def)
qed simp

lemma analyze_goals:
  "map sg_required_capabilities (analyze descr r) =
     (let ts = filter (\<lambda>t. \<exists>c\<in>snd ` set (mr_contracts r). t \<in> set (mc_capabilities c)) (py_split (py_lower descr))
      in if ts = [] then [[]] else map (\<lambda>t. [t]) ts)"
proof -
  let ?goals = "foldl (add_goal (capability_map r)) [] (py_split (py_lower descr))"
  have "map sg_required_capabilities ?goals = map (\<lambda>t. [t])
      (filter (\<lambda>t. \<exists>c\<in>snd ` set (mr_contracts r). t \<in> set (mc_capabilities c)) (py_split (py_lower descr)))"
    using foldl_add_goal [of "[]" "capability_map r"] by (simp add: numbered_def capability_map_keys)
  then show ?thesis by (auto simp: analyze_def Let_def dest: arg_cong [where f = length])
qed

lemma analyze_distinct: "distinct (map sg_goal_id (analyze descr r))"
proof -
  let ?goals = "foldl (add_goal (capability_map r)) [] (py_split (py_lower descr))"
  have "numbered ?goals" using foldl_add_goal [of "[]" "capability_map r"] by (simp add: numbered_def)
  then have "distinct (map sg_goal_id ?goals)"
    by (auto simp: numbered_def distinct_map inj_on_def show_nat_inj)
  then show ?thesis by (simp add: analyze_def Let_def)
qed

text \<open>The selected contract has the greatest score of those that fit and can be paid.\<close>

definition candidates :: "sub_goal \<Rightarrow> real \<Rightarrow> module_contract set \<Rightarrow> module_contract set" where
  "candidates goal remaining cs = {c \<in> cs. eligible goal c \<and> mc_cost_weight c \<le> remaining \<and> - 1 < module_score goal c}"

definition best_of :: "sub_goal \<Rightarrow> module_contract set \<Rightarrow> module_contract option \<times> real \<Rightarrow> bool" where
  "best_of goal C x =
     (case fst x of
        None \<Rightarrow> snd x = - 1 \<and> C = {}
      | Some c \<Rightarrow> c \<in> C \<and> snd x = module_score goal c \<and> (\<forall>d\<in>C. module_score goal d \<le> module_score goal c))"

lemma candidates_insert:
  "candidates goal remaining (insert c C) =
     (if eligible goal c \<and> mc_cost_weight c \<le> remaining \<and> - 1 < module_score goal c
      then insert c (candidates goal remaining C) else candidates goal remaining C)"
  by (auto simp: candidates_def)

lemma better_best_of:
  assumes "best_of goal (candidates goal remaining C) x"
  shows "best_of goal (candidates goal remaining (insert c C)) (better goal remaining x c)"
proof (cases "fst x")
  case None
  with assms show ?thesis by (auto simp: best_of_def better_def candidates_insert)
next
  case (Some b)
  with assms have b: "b \<in> candidates goal remaining C" "snd x = module_score goal b"
    and max: "\<And>d. d \<in> candidates goal remaining C \<Longrightarrow> module_score goal d \<le> module_score goal b"
    by (auto simp: best_of_def)
  from b(1) have "- 1 < module_score goal b" by (simp add: candidates_def)
  with Some b max show ?thesis
    by (auto simp: best_of_def better_def candidates_insert intro: order_trans less_imp_le)
qed

lemma foldl_better:
  "best_of goal (candidates goal remaining (set cs)) (foldl (better goal remaining) (None, - 1) cs)"
proof (induction cs rule: rev_induct)
  case Nil
  then show ?case by (simp add: best_of_def candidates_def)
next
  case (snoc c cs)
  from better_best_of [OF snoc, of c] show ?case by simp
qed

lemma best_contract_spec:
  "(case best_contract goal remaining r of
      None \<Rightarrow> candidates goal remaining (snd ` set (mr_contracts r)) = {}
    | Some c \<Rightarrow> c \<in> candidates goal remaining (snd ` set (mr_contracts r))
        \<and> (\<forall>d\<in>candidates goal remaining (snd ` set (mr_contracts r)). module_score goal d \<le> module_score goal c))"
  using foldl_better [of goal remaining "map snd (mr_contracts r)"]
  by (auto simp: best_contract_def best_of_def split: option.splits)

text \<open>Selection: one entry per goal; selected contracts are registered, fit, and are paid for.\<close>

definition selected :: "(sub_goal \<times> module_contract option) list \<Rightarrow> (sub_goal \<times> module_contract) list" where
  "selected sels = List.map_filter (\<lambda>(g, c). map_option (Pair g) c) sels"

lemma selected_simps [simp]:
  "selected [] = []" "selected ((g, None) # sels) = selected sels"
  "selected ((g, Some c) # sels) = (g, c) # selected sels"
  by (simp_all add: selected_def List.map_filter_simps)

lemma select_goals: "map fst (select goals r remaining) = goals"
  by (induction goals arbitrary: remaining) (auto split: option.splits)

lemma select_candidates:
  "(g, c) \<in> set (selected (select goals r remaining))
   \<Longrightarrow> g \<in> set goals \<and> c \<in> snd ` set (mr_contracts r) \<and> eligible g c"
proof (induction goals arbitrary: remaining)
  case (Cons goal goals)
  then show ?case
    using best_contract_spec [of goal remaining r]
    by (auto simp: candidates_def split: option.splits)
qed simp

lemma select_cost:
  "0 \<le> remaining \<Longrightarrow> (\<Sum>(g, c)\<leftarrow>selected (select goals r remaining). mc_cost_weight c) \<le> remaining"
proof (induction goals arbitrary: remaining)
  case (Cons goal goals)
  show ?case
  proof (cases "best_contract goal remaining r")
    case None
    with Cons show ?thesis by simp
  next
    case (Some c)
    with best_contract_spec [of goal remaining r] have "mc_cost_weight c \<le> remaining" by (simp add: candidates_def)
    with Cons.IH [of "remaining - mc_cost_weight c"] Some show ?thesis by simp
  qed
qed simp

section \<open>The graph that is built\<close>

text \<open>The selections that have a contract, with their positions.\<close>

fun picks :: "nat \<Rightarrow> (sub_goal \<times> module_contract option) list \<Rightarrow> (nat \<times> sub_goal \<times> module_contract) list" where
  "picks i [] = []"
| "picks i ((g, None) # sels) = picks (Suc i) sels"
| "picks i ((g, Some c) # sels) = (i, g, c) # picks (Suc i) sels"

definition pick_id :: "(string \<Rightarrow> string) \<Rightarrow> nat \<times> sub_goal \<times> module_contract \<Rightarrow> mid" where
  "pick_id uuid5 x = new_instance_id uuid5 (type_name (mc_type_id (snd (snd x)))) (fst x)"

definition pick_vertex :: "(string \<Rightarrow> string) \<Rightarrow> nat \<times> sub_goal \<times> module_contract \<Rightarrow> vertex_assignment" where
  "pick_vertex uuid5 x = \<lparr>va_instance_id = pick_id uuid5 x, va_type_id = mc_type_id (snd (snd x)),
     va_cost_estimate = mc_cost_weight (snd (snd x)), va_preference_score = 1\<rparr>"

lemma build_vertices_eq:
  "build_vertices uuid5 i sels (im, g) =
     (fold (\<lambda>x. dict_set (sg_goal_id (fst (snd x))) (pick_id uuid5 x)) (picks i sels) im,
      g\<lparr>g_vertices := g_vertices g @ map (pick_vertex uuid5) (picks i sels),
        g_cost_weights := fold (\<lambda>x. dict_set (pick_id uuid5 x) (mc_cost_weight (snd (snd x)))) (picks i sels) (g_cost_weights g)\<rparr>)"
proof (induction i sels arbitrary: im g rule: picks.induct)
  case (3 i g c sels)
  then show ?case by (simp add: Let_def pick_id_def pick_vertex_def)
qed simp_all

lemma fold_dict_set_mem:
  "map_of (fold (\<lambda>x. dict_set (k x) (v x)) xs d) key = Some y
   \<Longrightarrow> (\<exists>x\<in>set xs. k x = key \<and> v x = y) \<or> map_of d key = Some y"
proof (induction xs arbitrary: d)
  case (Cons a xs)
  from Cons.IH [of "dict_set (k a) (v a) d"] Cons.prems show ?case by (auto split: if_splits)
qed simp

lemma fold_dict_set_lookup:
  "distinct (map k xs) \<Longrightarrow> x \<in> set xs \<Longrightarrow> map_of (fold (\<lambda>x. dict_set (k x) (v x)) xs d) (k x) = Some (v x)"
proof (induction xs arbitrary: d)
  case (Cons a xs)
  have frame: "key \<notin> k ` set ys \<Longrightarrow> map_of (fold (\<lambda>x. dict_set (k x) (v x)) ys e) key = map_of e key" for key ys e
    by (induction ys arbitrary: e) auto
  from Cons show ?case by (auto simp: frame)
qed simp

abbreviation goal_ids :: "(string \<Rightarrow> string) \<Rightarrow> (sub_goal \<times> module_contract option) list \<Rightarrow> (string, mid) dict" where
  "goal_ids uuid5 sels \<equiv> fold (\<lambda>x. dict_set (sg_goal_id (fst (snd x))) (pick_id uuid5 x)) (picks 0 sels) []"

lemma build_eq:
  "build uuid5 sels =
     \<lparr>g_vertices = map (pick_vertex uuid5) (picks 0 sels), g_edges = build_edges (goal_ids uuid5 sels) sels,
      g_cost_weights = fold (\<lambda>x. dict_set (pick_id uuid5 x) (mc_cost_weight (snd (snd x)))) (picks 0 sels) []\<rparr>"
  by (simp add: build_def build_vertices_eq empty_execution_graph_def)

lemma build_vertices_ids: "get_vertices (build uuid5 sels) = map (pick_id uuid5) (picks 0 sels)"
  by (simp add: get_vertices_def build_eq pick_vertex_def)

lemma build_edges_ran: "set (build_edges im sels) \<subseteq> ran (map_of im) \<times> ran (map_of im)"
  by (induction im sels rule: build_edges.induct) (auto split: option.splits if_splits intro: ranI)

lemma build_edges_known: "set (g_edges (build uuid5 sels)) \<subseteq> set (get_vertices (build uuid5 sels)) \<times> set (get_vertices (build uuid5 sels))"
proof -
  have "ran (map_of (goal_ids uuid5 sels)) \<subseteq> pick_id uuid5 ` set (picks 0 sels)"
    by (auto simp: ran_def dest!: fold_dict_set_mem)
  with build_edges_ran [of "goal_ids uuid5 sels" sels] show ?thesis
    by (simp add: build_vertices_ids) (simp add: build_eq, blast)
qed

lemma picks_selected: "map snd (picks i sels) = selected sels"
  by (induction i sels rule: picks.induct) auto

lemma picks_positions: "sorted_wrt (<) (map fst (picks i sels)) \<and> set (map fst (picks i sels)) \<subseteq> {i..<i + length sels}"
  by (induction i sels rule: picks.induct) auto

text \<open>An edge leads from a selection to the next one.\<close>

lemma build_edges_next:
  assumes "\<And>x. x \<in> set (picks i sels) \<Longrightarrow> map_of im (sg_goal_id (fst (snd x))) = Some (pick_id uuid5 x)"
    and "\<And>g. (g, None) \<in> set sels \<Longrightarrow> map_of im (sg_goal_id g) = None"
    and "(u, d) \<in> set (build_edges im sels)"
  shows "\<exists>x\<in>set (picks i sels). \<exists>y\<in>set (picks i sels). u = pick_id uuid5 x \<and> d = pick_id uuid5 y \<and> fst y = Suc (fst x)"
  using assms
proof (induction im sels arbitrary: i rule: build_edges.induct)
  case (1 im g0 c0 g1 c1 sels)
  have tl: "set (picks (Suc i) ((g1, c1) # sels)) \<subseteq> set (picks i ((g0, c0) # (g1, c1) # sels))"
    by (cases c0) auto
  show ?case
  proof (cases "(u, d) \<in> set (build_edges im ((g1, c1) # sels))")
    case True
    have "\<exists>x\<in>set (picks (Suc i) ((g1, c1) # sels)). \<exists>y\<in>set (picks (Suc i) ((g1, c1) # sels)).
        u = pick_id uuid5 x \<and> d = pick_id uuid5 y \<and> fst y = Suc (fst x)"
    proof (rule 1(1))
      fix x
      assume "x \<in> set (picks (Suc i) ((g1, c1) # sels))"
      with tl show "map_of im (sg_goal_id (fst (snd x))) = Some (pick_id uuid5 x)" by (intro 1(2)) blast
    next
      fix g
      assume "(g, None) \<in> set ((g1, c1) # sels)"
      then show "map_of im (sg_goal_id g) = None" by (intro 1(3)) simp
    qed (rule True)
    with tl show ?thesis by blast
  next
    case False
    with 1(4) have c1: "c1 \<noteq> None" and u: "map_of im (sg_goal_id g0) = Some u" and d: "map_of im (sg_goal_id g1) = Some d"
      by (auto split: option.splits if_splits)
    from u 1(3) [of g0] have "c0 \<noteq> None" by (cases c0) auto
    with c1 obtain a b where ab: "c0 = Some a" "c1 = Some b" by auto
    with 1(2) [of "(i, g0, a)"] 1(2) [of "(Suc i, g1, b)"] u d
    have "u = pick_id uuid5 (i, g0, a)" "d = pick_id uuid5 (Suc i, g1, b)" by simp_all
    with ab show ?thesis by (intro bexI [of _ "(i, g0, a)"] bexI [of _ "(Suc i, g1, b)"]) auto
  qed
qed simp_all

lemma goal_ids_lookup:
  assumes "distinct (map (sg_goal_id \<circ> fst) sels)"
  shows "x \<in> set (picks 0 sels) \<Longrightarrow> map_of (goal_ids uuid5 sels) (sg_goal_id (fst (snd x))) = Some (pick_id uuid5 x)"
    and "(g, None) \<in> set sels \<Longrightarrow> map_of (goal_ids uuid5 sels) (sg_goal_id g) = None"
proof -
  have sub: "distinct (map (sg_goal_id \<circ> fst) sels) \<Longrightarrow> distinct (map (\<lambda>x. sg_goal_id (fst (snd x))) (picks i sels))
      \<and> (\<forall>x\<in>set (picks i sels). (fst (snd x), Some (snd (snd x))) \<in> set sels)" for i
    by (induction i sels rule: picks.induct) force+
  from fold_dict_set_lookup [OF conjunct1 [OF sub [OF assms]]]
  show "x \<in> set (picks 0 sels) \<Longrightarrow> map_of (goal_ids uuid5 sels) (sg_goal_id (fst (snd x))) = Some (pick_id uuid5 x)" .
  show "map_of (goal_ids uuid5 sels) (sg_goal_id g) = None" if n: "(g, None) \<in> set sels"
  proof (rule ccontr)
    assume "map_of (goal_ids uuid5 sels) (sg_goal_id g) \<noteq> None"
    then obtain x where x: "x \<in> set (picks 0 sels)" "sg_goal_id (fst (snd x)) = sg_goal_id g"
      using fold_dict_set_mem by fastforce
    with sub [OF assms, of 0] have m: "(fst (snd x), Some (snd (snd x))) \<in> set sels" by blast
    have "inj_on (sg_goal_id \<circ> fst) (set sels)" using assms by (simp add: distinct_map)
    from inj_onD [OF this _ m n] x(2) show False by simp
  qed
qed

text \<open>If the identifiers of the instances differ, the graph is a chain, or several, and acyclic.\<close>

lemma build_acyclic:
  assumes "distinct (map (sg_goal_id \<circ> fst) sels)" and "distinct (get_vertices (build uuid5 sels))"
  shows "acyclic (set (g_edges (build uuid5 sels)))"
proof -
  let ?P = "set (picks 0 sels)"
  have inj: "inj_on (pick_id uuid5) ?P"
    using assms(2) by (simp add: build_vertices_ids distinct_map)
  define rank where "rank n = fst (the_inv_into ?P (pick_id uuid5) n)" for n
  have rank: "rank (pick_id uuid5 x) = fst x" if "x \<in> ?P" for x
    using that inj by (simp add: rank_def the_inv_into_f_f)
  have "set (g_edges (build uuid5 sels)) \<subseteq> measure rank"
  proof
    fix e
    assume "e \<in> set (g_edges (build uuid5 sels))"
    then have "(fst e, snd e) \<in> set (build_edges (goal_ids uuid5 sels) sels)" by (simp add: build_eq)
    from build_edges_next [OF goal_ids_lookup(1) [OF assms(1)] goal_ids_lookup(2) [OF assms(1)] this]
    obtain x y where "x \<in> ?P" "y \<in> ?P" "e = (pick_id uuid5 x, pick_id uuid5 y)" "fst y = Suc (fst x)"
      by (metis prod.collapse)
    then show "e \<in> measure rank" by (simp add: rank)
  qed
  then show ?thesis by (metis acyclic_subset wf_acyclic wf_measure)
qed

lemma build_total_cost:
  assumes "distinct (get_vertices (build uuid5 sels))"
  shows "total_cost (build uuid5 sels) =
    (\<Sum>(g, c)\<leftarrow>selected sels. mc_cost_weight c) + real (length (g_edges (build uuid5 sels))) / 10"
proof -
  have d: "distinct (map (pick_id uuid5) (picks 0 sels))" using assms by (simp add: build_vertices_ids)
  let ?cw = "g_cost_weights (build uuid5 sels)"
  have "get_or 1 (map_of ?cw (pick_id uuid5 x)) = mc_cost_weight (snd (snd x))" if "x \<in> set (picks 0 sels)" for x
    using fold_dict_set_lookup [OF d that, of "\<lambda>x. mc_cost_weight (snd (snd x))" "[]"]
    by (simp add: build_eq get_or_def)
  then have "map (\<lambda>v. get_or 1 (map_of ?cw (va_instance_id v))) (g_vertices (build uuid5 sels))
      = map (\<lambda>x. mc_cost_weight (snd (snd x))) (picks 0 sels)"
    by (simp add: build_eq pick_vertex_def)
  moreover have "\<dots> = map (\<lambda>(g, c). mc_cost_weight c) (selected sels)"
    by (simp add: picks_selected [of 0 sels, symmetric] case_prod_beta comp_def)
  ultimately show ?thesis by (simp add: total_cost_def)
qed

lemma validate_plan_cases:
  assumes "set (g_edges g) \<subseteq> set (get_vertices g) \<times> set (get_vertices g)"
  shows "validate_plan g budget = Inr (
    if g_vertices g = [] then Some PLANNING_INCOMPLETE
    else if \<not> acyclic (set (g_edges g)) then Some PLANNING_CYCLE_ERROR
    else if budget < total_cost g then Some (RESOURCE_BUDGET_EXCEEDED (total_cost g) budget) else None)"
  using set_graph_outcome [of "g_edges g" "get_vertices g" new_scheduler] assms
  by (auto simp: validate_plan_def cycle_error_def)

lemmas plan_validated = validate_plan_cases [OF build_edges_known]

lemma plan_success:
  assumes "plan uuid5 task = Inr (Plan_success g)"
  shows "g_vertices g \<noteq> [] \<and> fst (set_graph (get_vertices g) (g_edges g) new_scheduler) = None
    \<and> set (g_edges g) \<subseteq> set (get_vertices g) \<times> set (get_vertices g) \<and> acyclic (set (g_edges g))
    \<and> total_cost g \<le> pt_resource_budget task
    \<and> (\<forall>v\<in>set (g_vertices g). \<exists>c\<in>snd ` set (mr_contracts (pt_available_modules task)).
         \<exists>goal\<in>set (analyze (pt_task_description task) (pt_available_modules task)).
           va_type_id v = mc_type_id c \<and> va_cost_estimate v = mc_cost_weight c \<and> eligible goal c)"
proof -
  let ?r = "pt_available_modules task"
  let ?goals = "analyze (pt_task_description task) ?r"
  let ?sels = "select ?goals ?r (pt_resource_budget task)"
  have g: "g = build uuid5 ?sels"
    using assms by (auto simp: plan_def plan_graph_def Let_def split: sum.splits option.splits)
  have v: "validate_plan g (pt_resource_budget task) = Inr None"
    using assms by (auto simp: plan_def plan_graph_def Let_def g split: sum.splits option.splits)
  note k = build_edges_known [of uuid5 ?sels, folded g]
  from v have ok: "g_vertices g \<noteq> []" "acyclic (set (g_edges g))" "total_cost g \<le> pt_resource_budget task"
    by (auto simp: validate_plan_cases [OF k] split: if_splits)
  moreover have "fst (set_graph (get_vertices g) (g_edges g) new_scheduler) = None"
    using set_graph_outcome [of "g_edges g" "get_vertices g" new_scheduler] k ok(2) by simp
  moreover have "\<exists>c\<in>snd ` set (mr_contracts ?r). \<exists>goal\<in>set ?goals.
      va_type_id v = mc_type_id c \<and> va_cost_estimate v = mc_cost_weight c \<and> eligible goal c"
    if "v \<in> set (g_vertices g)" for v
  proof -
    from that obtain x where x: "x \<in> set (picks 0 ?sels)" "v = pick_vertex uuid5 x" by (auto simp: g build_eq)
    then have "(fst (snd x), snd (snd x)) \<in> set (selected ?sels)"
      unfolding picks_selected [of 0, symmetric] by simp
    from select_candidates [OF this] x(2) show ?thesis
      by (intro bexI [of _ "snd (snd x)"] bexI [of _ "fst (snd x)"]) (auto simp: pick_vertex_def)
  qed
  ultimately show ?thesis using k by blast
qed

lemma plan_total: "\<exists>res. plan uuid5 task = Inr res"
  by (simp add: plan_def plan_graph_def Let_def plan_validated split: option.split)

section \<open>Properties\<close>

text \<open>
  C20: The planner never raises, and a plan it returns can be run: it has a vertex, the scheduler
  accepts its graph, which is acyclic over the plan's own vertices, its cost is within the
  budget, and every vertex stands for a registered module type that offers a capability the task
  asks for (if it asks for any).
\<close>

theorem planner_success_sound:
  "\<exists>res. plan uuid5 task = Inr res \<and> (\<forall>g. res = Plan_success g \<longrightarrow>
     g_vertices g \<noteq> [] \<and> fst (set_graph (get_vertices g) (g_edges g) new_scheduler) = None
     \<and> set (g_edges g) \<subseteq> set (get_vertices g) \<times> set (get_vertices g) \<and> acyclic (set (g_edges g))
     \<and> total_cost g \<le> pt_resource_budget task
     \<and> (\<forall>v\<in>set (g_vertices g). \<exists>c\<in>snd ` set (mr_contracts (pt_available_modules task)).
          \<exists>goal\<in>set (analyze (pt_task_description task) (pt_available_modules task)).
            va_type_id v = mc_type_id c \<and> va_cost_estimate v = mc_cost_weight c \<and> eligible goal c))"
  using plan_total [of uuid5 task] plan_success [of uuid5 task] by blast

definition demo_module :: "string \<Rightarrow> string \<Rightarrow> real \<Rightarrow> module_contract" where
  "demo_module name cap cost = (compat_contract name None)\<lparr>mc_capabilities := [cap], mc_cost_weight := cost\<rparr>"

definition demo_task :: "string \<Rightarrow> real \<Rightarrow> planning_task" where
  "demo_task descr budget = \<lparr>pt_task_description = descr,
     pt_available_modules = foldl mr_step empty_module_registry [demo_module ''A'' ''read'' 1, demo_module ''B'' ''write'' 5],
     pt_resource_budget = budget\<rparr>"

theorem planner_success_sound_witness:
  "total_cost (plan_graph id (demo_task ''Read  WRITE'' 7)) \<le> 7
   \<and> acyclic (set (g_edges (plan_graph id (demo_task ''Read  WRITE'' 7))))"
proof -
  have p: "plan id (demo_task ''Read  WRITE'' 7) = Inr (Plan_success (plan_graph id (demo_task ''Read  WRITE'' 7)))"
    by code_simp
  obtain res where "plan id (demo_task ''Read  WRITE'' 7) = Inr res"
    and "\<forall>g. res = Plan_success g \<longrightarrow> acyclic (set (g_edges g)) \<and> total_cost g \<le> pt_resource_budget (demo_task ''Read  WRITE'' 7)"
    using planner_success_sound [of id "demo_task ''Read  WRITE'' 7"] by blast
  with p show ?thesis by (simp add: demo_task_def)
qed

text \<open>
  A goal for which no module can be paid is dropped, and planning succeeds without it: here the
  graph has no vertex for the goal of writing.
\<close>

theorem unmet_goal_dropped:
  "map sg_required_capabilities (analyze ''read write'' (pt_available_modules (demo_task ''read write'' 2)))
     = [[''read''], [''write'']]
   \<and> plan id (demo_task ''read write'' 2) = Inr (Plan_success (plan_graph id (demo_task ''read write'' 2)))
   \<and> map (type_name \<circ> va_type_id) (g_vertices (plan_graph id (demo_task ''read write'' 2))) = [''A'']"
  by code_simp

text \<open>
  Which plans succeed: with distinct instance identifiers and a budget that is not negative, the
  planner fails exactly when no goal gets a module or when the cost of the edges, which selection
  does not count, exceeds what selection has left of the budget. It never reports a cycle.
\<close>

theorem planner_succeeds_iff:
  fixes uuid5 task
  defines "sels \<equiv> select (analyze (pt_task_description task) (pt_available_modules task))
                     (pt_available_modules task) (pt_resource_budget task)"
  assumes "distinct (get_vertices (plan_graph uuid5 task))"
  shows "plan uuid5 task =
    (if selected sels = [] then Inr (Plan_fail PLANNING_INCOMPLETE)
     else if pt_resource_budget task - (\<Sum>(g, c)\<leftarrow>selected sels. mc_cost_weight c)
             < real (length (g_edges (plan_graph uuid5 task))) / 10
     then Inr (Plan_fail (RESOURCE_BUDGET_EXCEEDED (total_cost (plan_graph uuid5 task)) (pt_resource_budget task)))
     else Inr (Plan_success (plan_graph uuid5 task)))"
proof -
  let ?g = "plan_graph uuid5 task"
  have g: "?g = build uuid5 sels" by (simp add: plan_graph_def sels_def)
  have "map (sg_goal_id \<circ> fst) sels = map sg_goal_id (map fst sels)" by simp
  then have dg: "distinct (map (sg_goal_id \<circ> fst) sels)"
    by (simp only: sels_def select_goals analyze_distinct)
  have "acyclic (set (g_edges ?g))" unfolding g by (rule build_acyclic [OF dg]) (use assms(2) in \<open>simp add: g\<close>)
  moreover have "g_vertices ?g = [] \<longleftrightarrow> selected sels = []"
    by (simp add: g build_eq picks_selected [of 0, symmetric])
  moreover have "total_cost ?g = (\<Sum>(g, c)\<leftarrow>selected sels. mc_cost_weight c) + real (length (g_edges ?g)) / 10"
    unfolding g by (rule build_total_cost) (use assms(2) in \<open>simp add: g\<close>)
  ultimately show ?thesis
    by (auto simp: plan_def Let_def validate_plan_cases [OF build_edges_known [of uuid5 sels, folded g]])
qed

end
