(* ===== verification/Decision_Policy.thy ===== *)
theory Decision_Policy
  imports Execution_State
begin

text \<open>
  The decision policy (\<open>execution/decision_policy.py\<close>): \<open>RulePolicy\<close> with its counters, its rules
  in the order the code tries them, and the metadata of the last decision. The reasoning texts are
  constructors of a datatype; the time a decision took is an argument. The observation is absent,
  a dictionary, or an object of another class.
\<close>

section \<open>Decisions and observations\<close>

datatype policy_decision = CONTINUE | REPLAN | PAUSE | TERMINATE | ROLLBACK

definition policy_decisions :: "policy_decision list" where
  "policy_decisions = [CONTINUE, REPLAN, PAUSE, TERMINATE, ROLLBACK]"

datatype reasoning =
    Critical_section_active
  | Replan_limit_reached int
  | Resource_budget_exhausted
  | Failure_detected
  | All_modules_complete
  | Step_deadline_missed
  | Default_continue
  | No_decision_made_yet

record decision_metadata =
  dm_decision :: policy_decision
  dm_reasoning :: "reasoning option"
  dm_confidence :: "real option"
  dm_alternative_considered :: "policy_decision list"
  dm_policy_version :: string
  dm_latency_ms :: real

text \<open>Python's truth value of a dynamic value, of a float and of the entries of an observation.\<close>

fun py_truthy :: "pyval \<Rightarrow> bool" where
  "py_truthy PNone = False"
| "py_truthy (PBool b) = b"
| "py_truthy (PInt n) = (n \<noteq> 0)"
| "py_truthy (PStr s) = (s \<noteq> [])"
| "py_truthy (PList vs) = (vs \<noteq> [])"
| "py_truthy (PDict d) = (d \<noteq> [])"

datatype obs_value = OVal pyval | OFloat real

fun obs_truthy :: "obs_value \<Rightarrow> bool" where
  "obs_truthy (OVal v) = py_truthy v"
| "obs_truthy (OFloat r) = (r \<noteq> 0)"

datatype policy_observation = Obs_None | Obs_Dict "(string, obs_value) dict" | Obs_Other

section \<open>The rule policy\<close>

record 'v rule_policy =
  rp_version :: string
  rp_policy_type :: string
  rp_max_replans :: int
  rp_resource_threshold :: real
  rp_replan_cooldown_steps :: int
  rp_replan_count :: int
  rp_last_replan_step :: int
  rp_last_decision :: "policy_decision option"
  rp_last_metadata :: "decision_metadata option"
  rp_critical_section :: bool
  rp_current_observation :: policy_observation
  rp_current_es :: "'v execution_state option"

definition new_rule_policy :: "int \<Rightarrow> real \<Rightarrow> int \<Rightarrow> 'v rule_policy" where
  "new_rule_policy max_replans threshold cooldown =
     \<lparr>rp_version = ''1.0.0'', rp_policy_type = ''rule'', rp_max_replans = max_replans,
      rp_resource_threshold = threshold, rp_replan_cooldown_steps = cooldown, rp_replan_count = 0,
      rp_last_replan_step = - 1, rp_last_decision = None, rp_last_metadata = None,
      rp_critical_section = False, rp_current_observation = Obs_None, rp_current_es = None\<rparr>"

definition set_critical_section :: "bool \<Rightarrow> 'v rule_policy \<Rightarrow> 'v rule_policy" where
  "set_critical_section active p = p\<lparr>rp_critical_section := active\<rparr>"

definition set_observation :: "policy_observation \<Rightarrow> 'v rule_policy \<Rightarrow> 'v rule_policy" where
  "set_observation obs p = p\<lparr>rp_current_observation := obs\<rparr>"

definition set_execution_state :: "'v execution_state \<Rightarrow> 'v rule_policy \<Rightarrow> 'v rule_policy" where
  "set_execution_state es p = p\<lparr>rp_current_es := Some es\<rparr>"

definition is_resource_exhausted :: "'v rule_policy \<Rightarrow> 'v execution_state \<Rightarrow> bool" where
  "is_resource_exhausted p es \<longleftrightarrow> es_budget es < rp_resource_threshold p"

definition is_failure_detected :: "policy_observation \<Rightarrow> bool" where
  "is_failure_detected obs =
     (case obs of
        Obs_Dict d \<Rightarrow> (case map_of d ''failure_detected'' of None \<Rightarrow> False | Some v \<Rightarrow> obs_truthy v)
      | _ \<Rightarrow> False)"

definition is_all_modules_complete :: "'v execution_state \<Rightarrow> bool" where
  "is_all_modules_complete es \<longleftrightarrow> pending_count es = 0"

definition is_step_deadline_missed :: "'v execution_state \<Rightarrow> bool" where
  "is_step_deadline_missed es = False"

definition can_replan :: "'v rule_policy \<Rightarrow> bool" where
  "can_replan p =
     (if rp_critical_section p then False
      else if rp_max_replans p \<le> rp_replan_count p then False
      else case rp_current_es p of
             None \<Rightarrow> True
           | Some es \<Rightarrow> \<not> (0 \<le> rp_last_replan_step p
                            \<and> es_step_index es - rp_last_replan_step p < rp_replan_cooldown_steps p))"

text \<open>
  \<open>_apply_rules\<close> and \<open>_get_reasoning\<close> read the observation and the state that \<open>decide\<close> has stored
  in the policy.
\<close>

definition apply_rules :: "'v rule_policy \<Rightarrow> policy_observation \<Rightarrow> 'v execution_state \<Rightarrow> policy_decision" where
  "apply_rules p obs es =
     (if rp_critical_section p then CONTINUE
      else if rp_max_replans p \<le> rp_replan_count p then TERMINATE
      else if is_resource_exhausted p es \<and> can_replan p then REPLAN
      else if is_failure_detected obs then (if can_replan p then REPLAN else ROLLBACK)
      else if is_all_modules_complete es then TERMINATE
      else if is_step_deadline_missed es \<and> can_replan p then REPLAN
      else CONTINUE)"

definition get_reasoning :: "'v rule_policy \<Rightarrow> policy_observation \<Rightarrow> 'v execution_state \<Rightarrow> reasoning" where
  "get_reasoning p obs es =
     (if rp_critical_section p then Critical_section_active
      else if rp_max_replans p \<le> rp_replan_count p then Replan_limit_reached (rp_max_replans p)
      else if is_resource_exhausted p es then Resource_budget_exhausted
      else if is_failure_detected obs then Failure_detected
      else if is_all_modules_complete es then All_modules_complete
      else if is_step_deadline_missed es then Step_deadline_missed
      else Default_continue)"

definition policy_decide ::
  "policy_observation \<Rightarrow> 'v execution_state \<Rightarrow> real \<Rightarrow> 'v rule_policy \<Rightarrow> policy_decision \<times> 'v rule_policy" where
  "policy_decide obs es latency p0 =
     (let p = set_execution_state es (set_observation obs p0);
          d = apply_rules p obs es;
          p1 = p\<lparr>rp_last_decision := Some d,
                 rp_last_metadata := Some
                   \<lparr>dm_decision = d, dm_reasoning = Some (get_reasoning p obs es), dm_confidence = Some 1,
                    dm_alternative_considered = filter (\<lambda>x. x \<noteq> d) policy_decisions,
                    dm_policy_version = rp_version p, dm_latency_ms = latency\<rparr>\<rparr>
      in (d, if d = REPLAN
             then p1\<lparr>rp_replan_count := rp_replan_count p1 + 1, rp_last_replan_step := es_step_index es\<rparr>
             else p1))"

definition get_decision_metadata :: "'v rule_policy \<Rightarrow> decision_metadata" where
  "get_decision_metadata p =
     (case rp_last_metadata p of
        None \<Rightarrow> \<lparr>dm_decision = CONTINUE, dm_reasoning = Some No_decision_made_yet, dm_confidence = None,
                 dm_alternative_considered = [], dm_policy_version = rp_version p, dm_latency_ms = 0\<rparr>
      | Some m \<Rightarrow> m)"

definition reset_policy :: "'v rule_policy \<Rightarrow> 'v rule_policy" where
  "reset_policy p = p\<lparr>rp_replan_count := 0, rp_last_replan_step := - 1, rp_last_decision := None,
                      rp_last_metadata := None\<rparr>"

section \<open>Sequences of decisions\<close>

text \<open>
  The calls a client makes between two resets. \<open>replan_steps\<close> is the list of the step indices
  at which the policy decided to replan, latest first.
\<close>

datatype 'v policy_call =
    Decide policy_observation "'v execution_state" real
  | Set_critical bool
  | Set_observation policy_observation
  | Set_state "'v execution_state"

fun policy_step :: "int list \<times> 'v rule_policy \<Rightarrow> 'v policy_call \<Rightarrow> int list \<times> 'v rule_policy" where
  "policy_step (rs, p) (Decide obs es latency) =
     (case policy_decide obs es latency p of (d, p') \<Rightarrow>
        (if d = REPLAN then es_step_index es # rs else rs, p'))"
| "policy_step (rs, p) (Set_critical b) = (rs, set_critical_section b p)"
| "policy_step (rs, p) (Set_observation obs) = (rs, set_observation obs p)"
| "policy_step (rs, p) (Set_state es) = (rs, set_execution_state es p)"

fun spaced :: "int \<Rightarrow> int list \<Rightarrow> bool" where
  "spaced c (y # x # xs) \<longleftrightarrow> (0 \<le> x \<longrightarrow> c \<le> y - x) \<and> spaced c (x # xs)"
| "spaced c _ \<longleftrightarrow> True"

definition replan_inv :: "int list \<times> 'v rule_policy \<Rightarrow> bool" where
  "replan_inv x \<longleftrightarrow> (case x of (rs, p) \<Rightarrow>
     rp_replan_count p = int (length rs) \<and> rp_last_replan_step p = (case rs of [] \<Rightarrow> - 1 | y # _ \<Rightarrow> y)
     \<and> (rs \<noteq> [] \<longrightarrow> int (length rs) \<le> rp_max_replans p) \<and> spaced (rp_replan_cooldown_steps p) rs)"

lemma apply_rules_REPLAN:
  assumes "apply_rules p obs es = REPLAN" and "rp_current_es p = Some es"
  shows "\<not> rp_critical_section p" and "rp_replan_count p < rp_max_replans p"
    and "0 \<le> rp_last_replan_step p \<longrightarrow> rp_replan_cooldown_steps p \<le> es_step_index es - rp_last_replan_step p"
    and "is_resource_exhausted p es \<or> is_failure_detected obs"
  using assms by (auto simp: apply_rules_def can_replan_def is_step_deadline_missed_def split: if_splits)

lemma decide_REPLAN:
  assumes "fst (policy_decide obs es latency p) = REPLAN"
  shows "\<not> rp_critical_section p" and "rp_replan_count p < rp_max_replans p"
    and "0 \<le> rp_last_replan_step p \<longrightarrow> rp_replan_cooldown_steps p \<le> es_step_index es - rp_last_replan_step p"
    and "is_resource_exhausted p es \<or> is_failure_detected obs"
  using apply_rules_REPLAN [of "set_execution_state es (set_observation obs p)" obs es] assms
  by (simp_all add: policy_decide_def Let_def set_execution_state_def set_observation_def is_resource_exhausted_def)

lemma decide_state:
  fixes obs es latency p
  defines "p' \<equiv> snd (policy_decide obs es latency p)" and "d \<equiv> fst (policy_decide obs es latency p)"
  shows "rp_max_replans p' = rp_max_replans p" and "rp_replan_cooldown_steps p' = rp_replan_cooldown_steps p"
    and "rp_replan_count p' = rp_replan_count p + (if d = REPLAN then 1 else 0)"
    and "rp_last_replan_step p' = (if d = REPLAN then es_step_index es else rp_last_replan_step p)"
    and "rp_critical_section p' = rp_critical_section p"
    and "rp_resource_threshold p' = rp_resource_threshold p"
    and "rp_version p' = rp_version p" and "rp_policy_type p' = rp_policy_type p"
  by (auto simp: p'_def d_def policy_decide_def Let_def set_execution_state_def set_observation_def)

lemma replan_inv_step: "replan_inv x \<Longrightarrow> replan_inv (policy_step x c)"
proof (induction x c rule: policy_step.induct)
  case (1 rs p obs es latency)
  let ?r = "policy_decide obs es latency p"
  show ?case
  proof (cases "fst ?r = REPLAN")
    case True
    note d = decide_REPLAN [OF True] and s = decide_state [of obs es latency p]
    from 1 True d s show ?thesis
      by (cases rs) (auto simp: replan_inv_def case_prod_beta)
  next
    case False
    with 1 decide_state [of obs es latency p] show ?thesis by (auto simp: replan_inv_def case_prod_beta)
  qed
qed (auto simp: replan_inv_def set_critical_section_def set_observation_def set_execution_state_def)

lemma policy_step_limits:
  "rp_max_replans (snd (policy_step x c)) = rp_max_replans (snd x)
   \<and> rp_replan_cooldown_steps (snd (policy_step x c)) = rp_replan_cooldown_steps (snd x)"
  by (induction x c rule: policy_step.induct)
    (auto simp: case_prod_beta decide_state set_critical_section_def set_observation_def set_execution_state_def)

interpretation replans: step_machine policy_step replan_inv
  "\<lambda>x y. rp_max_replans (snd y) = rp_max_replans (snd x)
     \<and> rp_replan_cooldown_steps (snd y) = rp_replan_cooldown_steps (snd x)"
  by unfold_locales (simp_all add: replan_inv_step policy_step_limits)

lemma spaced_nth: "spaced c xs \<Longrightarrow> Suc i < length xs \<Longrightarrow> 0 \<le> xs ! Suc i \<Longrightarrow> c \<le> xs ! i - xs ! Suc i"
proof (induction c xs arbitrary: i rule: spaced.induct)
  case (1 c y x xs)
  then show ?case by (cases i) auto
qed auto

section \<open>Properties\<close>

text \<open>
  C21: Replanning is bounded: whatever calls are made between two resets, a rule policy decides to
  replan at most \<open>max_replans\<close> times (never, if that is negative), and two successive replans
  are at least the cooldown apart in step indices.
\<close>

theorem policy_replans_bounded:
  fixes cs m thr cd
  defines "rs \<equiv> fst (foldl policy_step ([], new_rule_policy m thr cd) cs)"
  shows "length rs \<le> nat m \<and> (\<forall>i. Suc i < length rs \<longrightarrow> 0 \<le> rs ! Suc i \<longrightarrow> cd \<le> rs ! i - rs ! Suc i)"
proof -
  let ?x = "([], new_rule_policy m thr cd)"
  let ?y = "foldl policy_step ?x cs"
  have i0: "replan_inv ?x" by (simp add: replan_inv_def new_rule_policy_def)
  from replans.run_inv [OF i0] have "replan_inv ?y" .
  moreover from replans.run_ext [OF i0, of cs]
  have "rp_max_replans (snd ?y) = m" "rp_replan_cooldown_steps (snd ?y) = cd" by (simp_all add: new_rule_policy_def)
  ultimately show ?thesis
    by (auto simp: replan_inv_def rs_def case_prod_beta intro!: spaced_nth)
qed

definition demo_policy_calls :: "nat policy_call list" where
  "demo_policy_calls =
     map (\<lambda>i. Decide Obs_None (new_execution_state ''e''\<lparr>es_budget := 0, es_step_index := i\<rparr>) 0) [0, 2, 4, 9]"

theorem policy_replans_bounded_witness:
  "fst (foldl policy_step ([], new_rule_policy 2 (1 / 10) 3) demo_policy_calls) = [4, 0]
   \<and> length (fst (foldl policy_step ([], new_rule_policy 2 (1 / 10) 3) demo_policy_calls)) \<le> 2"
proof
  show "fst (foldl policy_step ([], new_rule_policy 2 (1 / 10) 3) demo_policy_calls) = [4, 0]" by code_simp
  show "length (fst (foldl policy_step ([], new_rule_policy 2 (1 / 10) 3) demo_policy_calls)) \<le> 2"
    using policy_replans_bounded [of 2 "1 / 10" 3 demo_policy_calls] by simp
qed

text \<open>
  A policy in its critical section always continues; outside it, a policy that has used up its
  replans always terminates, whatever is left to do.
\<close>

theorem policy_limits_win:
  "fst (policy_decide obs es latency p) = CONTINUE" if "rp_critical_section p"
  using that by (simp add: policy_decide_def apply_rules_def set_execution_state_def set_observation_def Let_def)

theorem policy_exhausted_terminates:
  assumes "\<not> rp_critical_section p" and "rp_max_replans p \<le> rp_replan_count p"
  shows "fst (policy_decide obs es latency p) = TERMINATE"
  using assms by (simp add: policy_decide_def apply_rules_def set_execution_state_def set_observation_def Let_def)

end
