(* ===== verification/Cost_Semantics.thy ===== *)
theory Cost_Semantics
  imports Execution_State
begin

text \<open>
  Cost accounting (\<open>cost/semantics.py\<close>): the budget of an execution with its charges per module
  instance, the forecaster over the last hundred steps, and the staged checkpoints. Costs are
  real numbers.
\<close>

declare map_of_eq_Some_iff [simp del] Some_eq_map_of_iff [simp del]

section \<open>The budget\<close>

record cost_budget =
  cb_total_budget :: real
  cb_consumed :: real
  per_module_budgets :: "(mid, real) dict"

definition new_cost_budget :: "real \<Rightarrow> cost_budget" where
  "new_cost_budget tot = \<lparr>cb_total_budget = tot, cb_consumed = 0, per_module_budgets = []\<rparr>"

definition cb_remaining :: "cost_budget \<Rightarrow> real" where
  "cb_remaining b = cb_total_budget b - cb_consumed b"

definition is_exhausted :: "cost_budget \<Rightarrow> bool" where
  "is_exhausted b \<longleftrightarrow> cb_remaining b \<le> 0"

definition charge :: "mid \<Rightarrow> real \<Rightarrow> cost_budget \<Rightarrow> bool \<times> cost_budget" where
  "charge i cost b =
     (let b' = b\<lparr>cb_consumed := cb_consumed b + cost,
                 per_module_budgets :=
                   (case map_of (per_module_budgets b) i of
                      None \<Rightarrow> dict_set i cost (per_module_budgets b)
                    | Some c \<Rightarrow> dict_set i (c + cost) (per_module_budgets b))\<rparr>
      in (\<not> is_exhausted b', b'))"

definition forecast_exhaustion :: "real \<Rightarrow> cost_budget \<Rightarrow> real option" where
  "forecast_exhaustion avg b = (if avg \<le> 0 then None else Some (cb_remaining b / avg))"

section \<open>The forecaster\<close>

text \<open>The forecaster and the stages refer to a budget, which their operations take as an argument.\<close>

record cost_forecaster =
  cf_step_costs :: "real list"
  cf_replan_threshold :: real

definition new_cost_forecaster :: cost_forecaster where
  "new_cost_forecaster = \<lparr>cf_step_costs = [], cf_replan_threshold = 2 / 10\<rparr>"

definition record_step :: "real \<Rightarrow> cost_forecaster \<Rightarrow> cost_forecaster" where
  "record_step cost f = (let cs = cf_step_costs f @ [cost] in
     f\<lparr>cf_step_costs := (if length cs > 100 then tl cs else cs)\<rparr>)"

definition avg_step_cost :: "cost_forecaster \<Rightarrow> real" where
  "avg_step_cost f =
     (if cf_step_costs f = [] then 0 else sum_list (cf_step_costs f) / real (length (cf_step_costs f)))"

definition should_trigger_replan :: "cost_forecaster \<Rightarrow> cost_budget \<Rightarrow> bool" where
  "should_trigger_replan f b = (let avg = avg_step_cost f in
     if avg \<le> 0 then False
     else case forecast_exhaustion avg b of
            None \<Rightarrow> False
          | Some steps_remaining \<Rightarrow> steps_remaining < cf_replan_threshold f * cb_total_budget b)"

definition set_replan_threshold :: "real \<Rightarrow> cost_forecaster \<Rightarrow> cost_forecaster" where
  "set_replan_threshold fraction f = f\<lparr>cf_replan_threshold := fraction\<rparr>"

section \<open>Staged checkpoints\<close>

record staged_budget =
  sb_stages :: "real list"
  sb_triggered :: "real list"

definition new_staged_budget :: staged_budget where
  "new_staged_budget = \<lparr>sb_stages = [25 / 100, 5 / 10, 75 / 100, 9 / 10, 95 / 100, 1], sb_triggered = []\<rparr>"

definition fraction_consumed :: "cost_budget \<Rightarrow> real" where
  "fraction_consumed b = (if cb_total_budget b > 0 then cb_consumed b / cb_total_budget b else 0)"

definition check_stage :: "cost_budget \<Rightarrow> staged_budget \<Rightarrow> real option \<times> staged_budget" where
  "check_stage b s =
     (case find (\<lambda>stage. stage \<le> fraction_consumed b \<and> stage \<notin> set (sb_triggered s)) (sb_stages s) of
        None \<Rightarrow> (None, s)
      | Some stage \<Rightarrow> (Some stage, s\<lparr>sb_triggered := stage # sb_triggered s\<rparr>))"

definition reset_stages :: "staged_budget \<Rightarrow> staged_budget" where
  "reset_stages s = s\<lparr>sb_triggered := []\<rparr>"

section \<open>Accounting\<close>

lemma sum_values_dict_set:
  fixes d :: "('k, real) dict"
  assumes "dict_ok d"
  shows "sum_list (map snd (dict_set k v d))
    = sum_list (map snd d) + v - (case map_of d k of None \<Rightarrow> 0 | Some c \<Rightarrow> c)"
  using assms by (induction d) (auto simp: map_of_None_iff [THEN iffD2])

text \<open>What was charged to the modules is what the budget has consumed.\<close>

definition accounts_balance :: "cost_budget \<Rightarrow> bool" where
  "accounts_balance b \<longleftrightarrow> dict_ok (per_module_budgets b) \<and> sum_list (map snd (per_module_budgets b)) = cb_consumed b"

definition charge_step :: "cost_budget \<Rightarrow> mid \<times> real \<Rightarrow> cost_budget" where
  "charge_step b x = snd (charge (fst x) (snd x) b)"

lemma charge_step_fields:
  "cb_total_budget (charge_step b x) = cb_total_budget b"
  "cb_consumed (charge_step b x) = cb_consumed b + snd x"
  by (simp_all add: charge_step_def charge_def Let_def)

lemma charge_step_account:
  "map_of (per_module_budgets (charge_step b x)) i =
     (if i = fst x then Some ((case map_of (per_module_budgets b) i of None \<Rightarrow> 0 | Some c \<Rightarrow> c) + snd x)
      else map_of (per_module_budgets b) i)"
  by (simp add: charge_step_def charge_def Let_def split: option.splits)

lemma charge_balance: "accounts_balance b \<Longrightarrow> accounts_balance (charge_step b x)"
  by (auto simp: accounts_balance_def charge_step_def charge_def Let_def sum_values_dict_set split: option.splits)

interpretation accounts: step_machine charge_step accounts_balance
  "\<lambda>b c. cb_total_budget c = cb_total_budget b"
  by unfold_locales (simp_all add: charge_balance charge_step_fields)

lemma charges_consumed: "cb_consumed (foldl charge_step b xs) = cb_consumed b + sum_list (map snd xs)"
  by (induction xs arbitrary: b) (simp_all add: charge_step_fields)

lemma charges_per_module:
  "map_of (per_module_budgets (foldl charge_step (new_cost_budget tot) xs)) i =
     (if i \<in> fst ` set xs then Some (sum_list (map snd (filter (\<lambda>x. fst x = i) xs))) else None)"
proof (induction xs rule: rev_induct)
  case Nil
  then show ?case by (simp add: new_cost_budget_def)
next
  case (snoc x xs)
  have "filter (\<lambda>y. fst y = fst x) xs = []" if "fst x \<notin> fst ` set xs"
    using that by (induction xs) auto
  with snoc show ?case by (auto simp: charge_step_account)
qed

section \<open>Stages\<close>

text \<open>Asking repeatedly, without a charge in between.\<close>

fun ask_stages :: "nat \<Rightarrow> cost_budget \<Rightarrow> staged_budget \<Rightarrow> real option list" where
  "ask_stages 0 b s = []"
| "ask_stages (Suc n) b s = (case check_stage b s of (r, s') \<Rightarrow> r # ask_stages n b s')"

lemma find_filter: "find P xs = (case filter P xs of [] \<Rightarrow> None | x # _ \<Rightarrow> Some x)"
  by (induction xs) auto

lemma ask_stages_due:
  assumes "distinct (sb_stages s)"
  shows "ask_stages n b s =
    (let due = filter (\<lambda>g. g \<le> fraction_consumed b \<and> g \<notin> set (sb_triggered s)) (sb_stages s)
     in map Some (take n due) @ replicate (n - length due) None)"
  using assms
proof (induction n arbitrary: s)
  case (Suc n)
  let ?due = "filter (\<lambda>g. g \<le> fraction_consumed b \<and> g \<notin> set (sb_triggered s)) (sb_stages s)"
  show ?case
  proof (cases ?due)
    case Nil
    then have "check_stage b s = (None, s)" by (simp add: check_stage_def find_filter)
    with Suc Nil show ?thesis by simp
  next
    case (Cons g gs)
    let ?s = "s\<lparr>sb_triggered := g # sb_triggered s\<rparr>"
    from Cons have c: "check_stage b s = (Some g, ?s)" by (simp add: check_stage_def find_filter)
    have "filter (\<lambda>h. h \<le> fraction_consumed b \<and> h \<notin> set (sb_triggered ?s)) (sb_stages ?s) = filter (\<lambda>h. h \<noteq> g) ?due"
      by (auto intro: filter_cong)
    also have "\<dots> = gs"
      using Cons Suc.prems by (metis (mono_tags, lifting) distinct.simps(2) distinct_filter filter.simps(2) filter_True)
    finally show ?thesis using Suc.IH [of ?s] Suc.prems Cons c by simp
  qed
qed simp

section \<open>Properties\<close>

text \<open>
  Accounting: after any sequence of charges the consumed amount is the sum of the charges, each
  module's account is the sum of its own charges (and modules that were not charged have none),
  the accounts add up to the consumed amount, and a charge reports success exactly when
  something remains.
\<close>

theorem charges_accounted:
  fixes xs and tot :: real
  defines "b \<equiv> foldl charge_step (new_cost_budget tot) xs"
  shows "cb_consumed b = sum_list (map snd xs) \<and> cb_remaining b = tot - sum_list (map snd xs)
    \<and> sum_list (map snd (per_module_budgets b)) = cb_consumed b
    \<and> map_of (per_module_budgets b) i =
        (if i \<in> fst ` set xs then Some (sum_list (map snd (filter (\<lambda>x. fst x = i) xs))) else None)
    \<and> (fst (charge i cost b) \<longleftrightarrow> sum_list (map snd xs) + cost < tot)"
proof -
  have "accounts_balance (new_cost_budget tot)" by (simp add: accounts_balance_def new_cost_budget_def)
  note inv = accounts.run_inv [OF this, of xs] and t = accounts.run_ext [OF this, of xs]
  have c: "cb_consumed b = sum_list (map snd xs)" "cb_total_budget b = tot"
    using charges_consumed [of "new_cost_budget tot" xs] t by (simp_all add: b_def new_cost_budget_def)
  then show ?thesis
    using inv charges_per_module [of tot xs i]
    by (auto simp: accounts_balance_def cb_remaining_def is_exhausted_def charge_def Let_def b_def [symmetric])
qed

text \<open>
  Stages: asking \<open>n\<close> times reports the stages that the consumed fraction has reached, lowest
  first and each once, and then nothing more.
\<close>

theorem stages_reported_once_in_order:
  "ask_stages n b new_staged_budget =
     (let due = filter (\<lambda>g. g \<le> fraction_consumed b) [25 / 100, 5 / 10, 75 / 100, 9 / 10, 95 / 100, 1]
      in map Some (take n due) @ replicate (n - length due) None)"
  using ask_stages_due [of new_staged_budget n b] by (simp add: new_staged_budget_def)

end
