(* ===== verification/Runtime_Loop.thy ===== *)
theory Runtime_Loop
  imports Planner Decision_Policy Cost_Semantics
begin

text \<open>
  The runtime (\<open>runtime/runtime.py\<close>) and the trace it writes (\<open>execution/execution_trace.py\<close>): the
  control loop of observing, deciding, acting and assessing, with replanning, rollback to
  checkpoints and dispatch of modules. The decision policy is an argument, a record of the
  operations the runtime calls; \<open>rule_policy_ops\<close> is the rule policy. Modules and providers are
  functions held in the runtime's fields, as in the code. Identifiers, hash orders, the text of
  values and clock readings are arguments. An operation that raises returns the exception with
  the runtime and the execution state as the code leaves them.
\<close>

declare map_of_eq_Some_iff [simp del] Some_eq_map_of_iff [simp del]

section \<open>Types\<close>

datatype provider_mode = PM_DEV | PM_PROD

datatype runtime_state = RS_INIT | RS_RUNNING | RS_IDLE | RS_TERMINATED | RS_FAILED

datatype decision = D_CONTINUE | D_REPLAN | D_IDLE | D_PAUSE | D_ROLLBACK | D_TERMINATE

datatype assessment_kind = OUTCOME_MET | OUTCOME_DEGRADED | OUTCOME_FAILED

datatype execution_capability =
    CAP_REASONING | CAP_RETRIEVAL | CAP_PLANNING | CAP_VERIFICATION | CAP_SIMULATION
  | CAP_OPTIMIZATION | CAP_EXECUTION | CAP_EMBEDDING | CAP_TRANSCRIPTION | CAP_TRANSLATION

record observation =
  obs_signals :: "pyval list"
  obs_timestamp :: real

record latency_config =
  OBSERVE_BUDGET_MS :: real
  DECIDE_BUDGET_MS :: real
  ACT_BUDGET_MS :: real
  CONTROL_LOOP_BUDGET_MS :: real
  CONTROL_LOOP_GRACE_MS :: real
  DECISION_LATENCY_BUDGET_MS :: real
  MAX_REPLANS_PER_EXECUTION :: int
  MAX_ASYNC_PENDING :: int
  ASYNC_COMPLETION_TIMEOUT_MS :: real

definition default_latency_config :: latency_config where
  "default_latency_config =
     \<lparr>OBSERVE_BUDGET_MS = 5, DECIDE_BUDGET_MS = 10, ACT_BUDGET_MS = 1000, CONTROL_LOOP_BUDGET_MS = 50,
      CONTROL_LOOP_GRACE_MS = 10, DECISION_LATENCY_BUDGET_MS = 100, MAX_REPLANS_PER_EXECUTION = 3,
      MAX_ASYNC_PENDING = 50, ASYNC_COMPLETION_TIMEOUT_MS = 500\<rparr>"

definition validate_config :: "latency_config \<Rightarrow> unit res" where
  "validate_config c =
     require (0 < OBSERVE_BUDGET_MS c \<and> 0 < DECIDE_BUDGET_MS c
        \<and> OBSERVE_BUDGET_MS c + DECIDE_BUDGET_MS c < ACT_BUDGET_MS c
        \<and> OBSERVE_BUDGET_MS c + DECIDE_BUDGET_MS c \<le> CONTROL_LOOP_BUDGET_MS c
        \<and> 0 \<le> CONTROL_LOOP_GRACE_MS c
        \<and> OBSERVE_BUDGET_MS c + DECIDE_BUDGET_MS c \<le> DECISION_LATENCY_BUDGET_MS c
        \<and> 1 \<le> MAX_REPLANS_PER_EXECUTION c \<and> MAX_REPLANS_PER_EXECUTION c \<le> 10)
       (AssertionError []) (Inr ())"

section \<open>The regression monitor\<close>

datatype trial_class = Classified string | Unclassified

record trial_result =
  tr_scenario_id :: string
  tr_metric_name :: string
  tr_higher_is_better :: bool
  tr_classification :: trial_class
  tr_current_mean :: real
  tr_baseline_mean :: real

record regression_monitor =
  rm_rollback_threshold :: int
  rm_regression_count :: int

definition new_regression_monitor :: "int \<Rightarrow> regression_monitor res" where
  "new_regression_monitor threshold =
     require (1 \<le> threshold) (ValueError ''rollback_threshold must be at least one'')
     (Inr \<lparr>rm_rollback_threshold = threshold, rm_regression_count = 0\<rparr>)"

definition trial_outcome :: "trial_result \<Rightarrow> string" where
  "trial_outcome r =
     (case tr_classification r of
        Classified name \<Rightarrow> name
      | Unclassified \<Rightarrow>
          (if (if tr_higher_is_better r then tr_baseline_mean r \<le> tr_current_mean r
               else tr_current_mean r \<le> tr_baseline_mean r)
           then ''WIN'' else ''LOSS''))"

definition is_regression :: "(string, (string, string) dict) dict \<Rightarrow> trial_result \<Rightarrow> bool" where
  "is_regression prior_results r \<longleftrightarrow>
     map_of (get_or [] (map_of prior_results (tr_scenario_id r))) (tr_metric_name r) \<in> {Some ''WIN'', Some ''TIE''}
     \<and> trial_outcome r = ''LOSS''"

definition should_rollback :: "regression_monitor \<Rightarrow> bool" where
  "should_rollback m \<longleftrightarrow> rm_rollback_threshold m \<le> rm_regression_count m"

definition check_regressions ::
  "trial_result list \<Rightarrow> (string, (string, string) dict) dict \<Rightarrow> regression_monitor \<Rightarrow> bool \<times> regression_monitor" where
  "check_regressions results prior_results m =
     (let m' = foldl (\<lambda>m r. if is_regression prior_results r
                            then m\<lparr>rm_regression_count := rm_regression_count m + 1\<rparr> else m) m results
      in (should_rollback m', m'))"

section \<open>The execution trace\<close>

datatype termination_reason =
    ALL_MODULES_COMPLETE | TERMINATE_DECISION | RESOURCE_EXHAUSTED | UNRECOVERABLE_FAILURE | EXTERNAL_SIGNAL | INCOMPLETE

record decision_record =
  dr_decision :: decision
  dr_policy_type :: string
  dr_policy_version :: string
  dr_reasoning :: "reasoning option"
  dr_confidence :: "real option"
  dr_alternative_considered :: "policy_decision list"
  dr_latency_ms :: real

record 'v module_invocation_record =
  mi_module_instance_id :: string
  mi_module_type :: string
  mi_capability :: execution_capability
  mi_input_size_bytes :: nat
  mi_output_size_bytes :: nat
  mi_provider_id :: string
  mi_recorded_output :: "'v slot"

record state_mutation_record =
  sm_mutation_type :: string
  sm_target :: string
  sm_step_before :: int
  sm_step_after :: int
  sm_module_type :: string

record resource_usage_record =
  ru_step_index :: int
  ru_budget_remaining :: real
  ru_cpu_time_ms :: real
  ru_memory_bytes :: int
  ru_network_calls :: nat

record 'v execution_record =
  er_step_index :: int
  er_loop_iteration :: nat
  er_observation :: observation
  er_decision :: decision_record
  er_module_invocations :: "'v module_invocation_record list"
  er_state_mutations :: "state_mutation_record list"
  er_resource_usage :: resource_usage_record
  er_timestamp :: string

record 'v execution_trace =
  et_execution_id :: string
  et_resource_budget :: real
  et_random_seed :: int
  et_latency_config :: latency_config
  et_timestamp_start :: string
  et_timestamp_end :: "string option"
  et_execution_record :: "'v execution_record list"
  et_termination_reason :: "termination_reason option"

definition add_execution_record :: "'v execution_record \<Rightarrow> 'v execution_trace \<Rightarrow> 'v execution_trace" where
  "add_execution_record r t = t\<lparr>et_execution_record := et_execution_record t @ [r]\<rparr>"

definition finalize_trace :: "termination_reason \<Rightarrow> string \<Rightarrow> 'v execution_trace \<Rightarrow> 'v execution_trace" where
  "finalize_trace reason now t = t\<lparr>et_timestamp_end := Some now, et_termination_reason := Some reason\<rparr>"

definition trace_is_complete :: "'v execution_trace \<Rightarrow> bool" where
  "trace_is_complete t \<longleftrightarrow> et_timestamp_end t \<noteq> None \<and> et_termination_reason t \<noteq> None"

section \<open>The runtime\<close>

record 'v provider_result =
  pres_output :: "'v slot"
  pres_error :: "string option"

record 'v provider =
  prov_supports :: "execution_capability \<Rightarrow> bool"
  prov_execute :: "execution_capability \<Rightarrow> string \<Rightarrow> 'v provider_result res"

text \<open>What the runtime calls of its decision policy; \<open>set_critical_section\<close> is optional.\<close>

record ('p, 'v) policy_ops =
  po_decide :: "policy_observation \<Rightarrow> 'v execution_state \<Rightarrow> real \<Rightarrow> 'p \<Rightarrow> policy_decision \<times> 'p"
  po_metadata :: "'p \<Rightarrow> decision_metadata"
  po_set_critical_section :: "(bool \<Rightarrow> 'p \<Rightarrow> 'p) option"
  po_policy_type :: "'p \<Rightarrow> string"
  po_version :: "'p \<Rightarrow> string"

definition rule_policy_ops :: "('v rule_policy, 'v) policy_ops" where
  "rule_policy_ops = \<lparr>po_decide = policy_decide, po_metadata = get_decision_metadata,
     po_set_critical_section = Some set_critical_section, po_policy_type = rp_policy_type, po_version = rp_version\<rparr>"

record 'v run_env =
  env_uuid5 :: "string \<Rightarrow> string"
  env_hash_order :: "mid \<Rightarrow> nat"
  env_str :: "'v slot \<Rightarrow> string"
  env_repr_size :: "'v slot \<Rightarrow> nat"

record clock =
  clk_observed :: real
  clk_decide_latency :: real
  clk_checkpoint :: real
  clk_elapsed_ms :: real
  clk_iso :: string
  clk_fresh_uuid :: string

record ('p, 'v) runtime =
  rt_config :: latency_config
  rt_registry :: module_registry
  rt_cost_budget :: cost_budget
  rt_cost_forecaster :: cost_forecaster
  rt_staged_checkpoint :: staged_budget
  rt_state :: runtime_state
  rt_replan_count :: int
  rt_critical_section :: bool
  rt_async_pending :: "mid list"
  rt_pending_signals :: "pyval list"
  rt_loop_iteration_times :: "real list"
  rt_module_dispatch_fn :: "(mid \<Rightarrow> 'v slot res) option"
  rt_current_graph :: "execution_graph option"
  rt_provider_mode :: provider_mode
  rt_providers :: "'v provider list"
  rt_node_capabilities :: "(mid, execution_capability) dict"
  rt_regression_monitor :: regression_monitor
  rt_decision_policy :: 'p
  rt_last_policy_metadata :: "decision_metadata option"
  rt_trace_enabled :: bool
  rt_execution_trace :: "'v execution_trace option"

definition new_runtime :: "latency_config \<Rightarrow> real \<Rightarrow> 'p \<Rightarrow> bool \<Rightarrow> ('p, 'v) runtime res" where
  "new_runtime config budget policy trace_enabled =
     (case validate_config config of
        Inl e \<Rightarrow> Inl e
      | Inr _ \<Rightarrow> Inr
          \<lparr>rt_config = config, rt_registry = empty_module_registry, rt_cost_budget = new_cost_budget budget,
           rt_cost_forecaster = new_cost_forecaster, rt_staged_checkpoint = new_staged_budget,
           rt_state = RS_INIT, rt_replan_count = 0, rt_critical_section = False, rt_async_pending = [],
           rt_pending_signals = [], rt_loop_iteration_times = [], rt_module_dispatch_fn = None,
           rt_current_graph = None, rt_provider_mode = PM_DEV, rt_providers = [], rt_node_capabilities = [],
           rt_regression_monitor = \<lparr>rm_rollback_threshold = 1, rm_regression_count = 0\<rparr>,
           rt_decision_policy = policy, rt_last_policy_metadata = None, rt_trace_enabled = trace_enabled,
           rt_execution_trace = None\<rparr>)"

text \<open>The policy a runtime gets when none is given.\<close>

definition default_policy :: "latency_config \<Rightarrow> 'v rule_policy" where
  "default_policy config = new_rule_policy (MAX_REPLANS_PER_EXECUTION config) (1 / 10) 3"

definition register_module :: "module_contract \<Rightarrow> ('p, 'v) runtime \<Rightarrow> ('p, 'v) runtime res" where
  "register_module c rt =
     (case mr_register (rt_registry rt) c of Inl e \<Rightarrow> Inl e | Inr r \<Rightarrow> Inr (rt\<lparr>rt_registry := r\<rparr>))"

definition set_dispatch_fn :: "(mid \<Rightarrow> 'v slot res) \<Rightarrow> ('p, 'v) runtime \<Rightarrow> ('p, 'v) runtime" where
  "set_dispatch_fn fn rt = rt\<lparr>rt_module_dispatch_fn := Some fn\<rparr>"

definition register_provider :: "'v provider \<Rightarrow> ('p, 'v) runtime \<Rightarrow> ('p, 'v) runtime" where
  "register_provider p rt = rt\<lparr>rt_providers := rt_providers rt @ [p]\<rparr>"

definition set_provider_mode :: "provider_mode \<Rightarrow> ('p, 'v) runtime \<Rightarrow> ('p, 'v) runtime" where
  "set_provider_mode m rt = rt\<lparr>rt_provider_mode := m\<rparr>"

definition set_node_capabilities :: "(mid, execution_capability) dict \<Rightarrow> ('p, 'v) runtime \<Rightarrow> ('p, 'v) runtime" where
  "set_node_capabilities caps rt = rt\<lparr>rt_node_capabilities := caps\<rparr>"

definition runtime_check_regressions ::
  "trial_result list \<Rightarrow> (string, (string, string) dict) dict \<Rightarrow> ('p, 'v) runtime \<Rightarrow> bool \<times> ('p, 'v) runtime" where
  "runtime_check_regressions results prior rt =
     (case check_regressions results prior (rt_regression_monitor rt) of
        (b, m) \<Rightarrow> (b, rt\<lparr>rt_regression_monitor := m\<rparr>))"

definition new_trace :: "('p, 'v) runtime \<Rightarrow> 'v execution_state \<Rightarrow> string \<Rightarrow> 'v execution_trace" where
  "new_trace rt es now =
     \<lparr>et_execution_id = es_execution_id es, et_resource_budget = cb_total_budget (rt_cost_budget rt),
      et_random_seed = es_rng_state es, et_latency_config = rt_config rt, et_timestamp_start = now,
      et_timestamp_end = None, et_execution_record = [], et_termination_reason = None\<rparr>"

section \<open>Starting an execution\<close>

fun register_nodes :: "mid list \<Rightarrow> 'v working_memory \<Rightarrow> exc option \<times> 'v working_memory" where
  "register_nodes [] wm = (None, wm)"
| "register_nodes (n # ns) wm =
     (case wm_register wm n of Inl e \<Rightarrow> (Some e, wm) | Inr wm' \<Rightarrow> register_nodes ns wm')"

text \<open>
  \<open>initiate\<close>: the identifier of the new state is the argument \<open>eid\<close>. When it raises, the new
  state is not returned; when planning fails, it is returned without a graph.
\<close>

definition initiate ::
  "'v run_env \<Rightarrow> string \<Rightarrow> string \<Rightarrow> string \<Rightarrow> int \<Rightarrow> ('p, 'v) runtime \<Rightarrow> 'v execution_state res \<times> ('p, 'v) runtime" where
  "initiate env eid now descr seed rt0 =
     (let es = (initialize_from_seed seed (new_execution_state eid))
            \<lparr>es_W := Some [], es_M := Some (mr_snapshot (rt_registry rt0)), es_C := Some new_checkpoint_record,
             es_H := Some new_history, es_budget := cb_remaining (rt_cost_budget rt0)\<rparr>;
          rt = rt0\<lparr>rt_execution_trace := (if rt_trace_enabled rt0 then Some (new_trace rt0 es now) else None),
                   rt_state := RS_RUNNING\<rparr>;
          task = \<lparr>pt_task_description = descr, pt_available_modules = rt_registry rt,
                  pt_resource_budget = cb_remaining (rt_cost_budget rt)\<rparr>
      in case plan (env_uuid5 env) task of
           Inl e \<Rightarrow> (Inl e, rt)
         | Inr (Plan_fail _) \<Rightarrow> (Inr es, rt\<lparr>rt_state := RS_FAILED\<rparr>)
         | Inr (Plan_success g) \<Rightarrow>
             (let rt1 = rt\<lparr>rt_current_graph := Some g\<rparr>; (nodes, edgs) = to_scheduler_input g in
              case set_graph nodes edgs new_scheduler of
                (Some e, _) \<Rightarrow> (Inl e, rt1)
              | (None, sched) \<Rightarrow>
                  (case register_nodes nodes [] of
                     (Some e, _) \<Rightarrow> (Inl e, rt1)
                   | (None, wm) \<Rightarrow>
                       (let es1 = es\<lparr>es_G := Some sched, es_W := Some wm\<rparr> in
                        case check_invariants es1 of Inl e \<Rightarrow> (Inl e, rt1) | Inr _ \<Rightarrow> (Inr es1, rt1)))))"

section \<open>Observing and deciding\<close>

definition observe :: "real \<Rightarrow> ('p, 'v) runtime \<Rightarrow> observation" where
  "observe now rt = \<lparr>obs_signals = rt_pending_signals rt, obs_timestamp = now\<rparr>"

fun map_decision :: "policy_decision \<Rightarrow> decision" where
  "map_decision CONTINUE = D_CONTINUE"
| "map_decision REPLAN = D_REPLAN"
| "map_decision PAUSE = D_PAUSE"
| "map_decision TERMINATE = D_TERMINATE"
| "map_decision ROLLBACK = D_ROLLBACK"

text \<open>
  The runnable modules of the state's scheduler, whose cached order changes. A state without a
  working memory, which the runtime never builds, raises at the first use of it.
\<close>

definition runnable_of :: "'v execution_state \<Rightarrow> mid list res \<times> 'v execution_state" where
  "runnable_of es =
     (case es_G es of
        None \<Rightarrow> (Inr [], es)
      | Some s \<Rightarrow>
          (case es_W es of
             None \<Rightarrow> (Inl (AttributeError ''NoneType''), es)
           | Some wm \<Rightarrow> (case get_runnable s wm of (r, s') \<Rightarrow> (r, es\<lparr>es_G := Some s'\<rparr>))))"

definition ask_policy ::
  "('p, 'v) policy_ops \<Rightarrow> real \<Rightarrow> observation \<Rightarrow> 'v execution_state \<Rightarrow> ('p, 'v) runtime
   \<Rightarrow> policy_decision \<times> ('p, 'v) runtime" where
  "ask_policy ops latency obs es rt =
     (let p = (case po_set_critical_section ops of
                 None \<Rightarrow> rt_decision_policy rt
               | Some f \<Rightarrow> f (rt_critical_section rt) (rt_decision_policy rt));
          arg = Obs_Dict [(''signals'', OVal (PList (obs_signals obs))), (''timestamp'', OFloat (obs_timestamp obs))];
          (d, p') = po_decide ops arg es latency p
      in (d, rt\<lparr>rt_decision_policy := p', rt_last_policy_metadata := Some (po_metadata ops p')\<rparr>))"

definition decide ::
  "('p, 'v) policy_ops \<Rightarrow> real \<Rightarrow> observation \<Rightarrow> ('p, 'v) runtime \<Rightarrow> 'v execution_state
   \<Rightarrow> decision res \<times> ('p, 'v) runtime \<times> 'v execution_state" where
  "decide ops latency obs rt0 es =
     (if rt_state rt0 \<noteq> RS_RUNNING then (Inr D_TERMINATE, rt0, es)
      else case ask_policy ops latency obs es rt0 of (pd, rt) \<Rightarrow>
        if should_trigger_replan (rt_cost_forecaster rt) (rt_cost_budget rt) then (Inr D_REPLAN, rt, es)
        else if MAX_REPLANS_PER_EXECUTION (rt_config rt) \<le> rt_replan_count rt then (Inr D_TERMINATE, rt, es)
        else if map_decision pd \<noteq> D_CONTINUE then (Inr (map_decision pd), rt, es)
        else if obs_signals obs = []
        then (case runnable_of es of
                (Inl e, es') \<Rightarrow> (Inl e, rt, es')
              | (Inr rs, es') \<Rightarrow> (Inr (if rs = [] then D_TERMINATE else D_CONTINUE), rt, es'))
        else (Inr D_CONTINUE, rt, es))"

section \<open>Acting\<close>

definition backpressure_active :: "('p, 'v) runtime \<Rightarrow> bool" where
  "backpressure_active rt \<longleftrightarrow> MAX_ASYNC_PENDING (rt_config rt) \<le> int (length (rt_async_pending rt))"

text \<open>
  The result of one module, or \<open>None\<close> when nothing can run it: through the first provider that
  supports the capability bound to it, or by the dispatch function.
\<close>

definition run_module :: "'v run_env \<Rightarrow> ('p, 'v) runtime \<Rightarrow> 'v working_memory \<Rightarrow> mid \<Rightarrow> 'v slot option res" where
  "run_module env rt wm m =
     (case rt_provider_mode rt of
        PM_PROD \<Rightarrow>
          (case map_of (rt_node_capabilities rt) m of
             None \<Rightarrow> Inl (RuntimeError (''no provider bound for module '' @ show_instance m))
           | Some cap \<Rightarrow>
               (case find (\<lambda>p. prov_supports p cap) (rt_providers rt) of
                  None \<Rightarrow> Inl (RuntimeError (''no provider bound for module '' @ show_instance m))
                | Some p \<Rightarrow>
                    (case wm_getitem wm m of
                       Inl e \<Rightarrow> Inl e
                     | Inr b \<Rightarrow>
                         (case prov_execute p cap (env_str env (buf_input b)) of
                            Inl e \<Rightarrow> Inl e
                          | Inr r \<Rightarrow>
                              (case pres_error r of
                                 Some e \<Rightarrow> Inl (RuntimeError (if e = [] then ''provider execution failed'' else e))
                               | None \<Rightarrow> Inr (Some (pres_output r)))))))
      | PM_DEV \<Rightarrow>
          (case rt_module_dispatch_fn rt of
             None \<Rightarrow> Inr None
           | Some f \<Rightarrow> (case f m of Inl e \<Rightarrow> Inl e | Inr r \<Rightarrow> Inr (Some r))))"

fun act_loop ::
  "'v run_env \<Rightarrow> ('p, 'v) runtime \<Rightarrow> mid list \<Rightarrow> 'v execution_state \<Rightarrow> mid list \<Rightarrow> mid list res \<times> 'v execution_state" where
  "act_loop env rt [] es dispatched = (Inr dispatched, es)"
| "act_loop env rt (m # ms) es dispatched =
     (if backpressure_active rt then (Inr dispatched, es)
      else case es_W es of
             None \<Rightarrow> (Inl (AttributeError ''NoneType''), es)
           | Some wm \<Rightarrow>
               (case run_module env rt wm m of
                  Inl e \<Rightarrow> (Inl e, es)
                | Inr None \<Rightarrow> act_loop env rt ms es dispatched
                | Inr (Some r) \<Rightarrow>
                    (case wm_getitem wm m of
                       Inl e \<Rightarrow> (Inl e, es)
                     | Inr b \<Rightarrow>
                         (let es1 = es\<lparr>es_W := Some (wm_setitem wm m (completed_buffer (buf_input b) r None))\<rparr> in
                          case check_invariants es1 of
                            Inl e \<Rightarrow> (Inl e, es1)
                          | Inr _ \<Rightarrow> act_loop env rt ms (snd (advance_step es1)) (dispatched @ [m])))))"

definition rollback_to_checkpoint :: "string \<Rightarrow> 'v execution_state \<Rightarrow> bool res \<times> 'v execution_state" where
  "rollback_to_checkpoint fresh es =
     (case (case es_C es of None \<Rightarrow> None | Some cr \<Rightarrow> cr_latest cr) of
        None \<Rightarrow> (Inr False, es)
      | Some ck \<Rightarrow>
          (case ck_snapshot ck of
             None \<Rightarrow> (Inl (AttributeError ''NoneType''), es)
           | Some sn \<Rightarrow>
               (case from_dict fresh sn of
                  Inl e \<Rightarrow> (Inl e, es)
                | Inr restored \<Rightarrow>
                    (Inr True, es\<lparr>es_W := es_W restored, es_M := es_M restored, es_C := es_C restored,
                       es_H := es_H restored, es_G := es_G restored, es_step_index := es_step_index restored,
                       es_execution_id := es_execution_id restored, es_rng_state := es_rng_state restored,
                       es_budget := es_budget restored\<rparr>))))"

text \<open>The last part of a replan: the new graph takes the place of the old one.\<close>

definition adopt_graph ::
  "'v run_env \<Rightarrow> execution_graph \<Rightarrow> execution_graph \<Rightarrow> ('p, 'v) runtime \<Rightarrow> 'v execution_state
   \<Rightarrow> mid list res \<times> ('p, 'v) runtime \<times> 'v execution_state" where
  "adopt_graph env g_old g_new rt es =
     (case es_W es of
        None \<Rightarrow> (Inl (AttributeError ''NoneType''), rt, es)
      | Some wm \<Rightarrow>
          (case compute_graph_diff g_old g_new wm of (retained, retired_early, new_only) \<Rightarrow>
             case set_graph (get_vertices g_new) (g_edges g_new) new_scheduler of
               (Some e, _) \<Rightarrow> (Inl e, rt, es)
             | (None, sched) \<Rightarrow>
                 (let es1 = es\<lparr>es_G := Some sched\<rparr>; rt1 = rt\<lparr>rt_current_graph := Some g_new\<rparr>;
                      order = sort_key (env_hash_order env) new_only
                  in case register_nodes order wm of
                       (Some e, wm') \<Rightarrow> (Inl e, rt1, es1\<lparr>es_W := Some wm'\<rparr>)
                     | (None, wm') \<Rightarrow>
                         (Inr order, rt1\<lparr>rt_staged_checkpoint := reset_stages (rt_staged_checkpoint rt1)\<rparr>,
                          snd (advance_step (es1\<lparr>es_W := Some wm'\<rparr>))))))"

definition execute_replan ::
  "'v run_env \<Rightarrow> real \<Rightarrow> ('p, 'v) runtime \<Rightarrow> 'v execution_state
   \<Rightarrow> mid list res \<times> ('p, 'v) runtime \<times> 'v execution_state" where
  "execute_replan env now rt0 es =
     (if rt_critical_section rt0 then (Inr [], rt0, es)
      else if MAX_REPLANS_PER_EXECUTION (rt_config rt0) \<le> rt_replan_count rt0 then (Inr [], rt0, es)
      else if es_G es = None then (Inr [], rt0, es)
      else let rt = rt0\<lparr>rt_replan_count := rt_replan_count rt0 + 1\<rparr> in
        case checkpoint_validate (checkpoint_take (es_step_index es) (es_execution_id es) (Some (to_dict es)) ''PRE_REPLAN'' now) of
          Inl e \<Rightarrow> (Inl e, rt, es)
        | Inr ck \<Rightarrow>
            (case es_C es of
               None \<Rightarrow> (Inl (AttributeError ''NoneType''), rt, es)
             | Some cr \<Rightarrow>
                 (case cr_add cr ck of
                    Inl e \<Rightarrow> (Inl e, rt, es)
                  | Inr cr' \<Rightarrow>
                      (let es1 = es\<lparr>es_C := Some cr'\<rparr>;
                           task = \<lparr>pt_task_description = ''replan'', pt_available_modules = rt_registry rt,
                                   pt_resource_budget = cb_remaining (rt_cost_budget rt)\<rparr>
                       in case plan (env_uuid5 env) task of
                            Inl e \<Rightarrow> (Inl e, rt, es1)
                          | Inr (Plan_fail _) \<Rightarrow> (Inr [], rt, es1)
                          | Inr (Plan_success g_new) \<Rightarrow>
                              (case rt_current_graph rt of
                                 None \<Rightarrow> (Inl (AttributeError ''NoneType''), rt, es1)
                               | Some g_old \<Rightarrow> adopt_graph env g_old g_new rt es1)))))"

definition act ::
  "'v run_env \<Rightarrow> clock \<Rightarrow> decision \<Rightarrow> ('p, 'v) runtime \<Rightarrow> 'v execution_state
   \<Rightarrow> mid list res \<times> ('p, 'v) runtime \<times> 'v execution_state" where
  "act env clk d rt es =
     (if d \<in> {D_TERMINATE, D_IDLE, D_PAUSE} then (Inr [], rt, es)
      else if d = D_ROLLBACK
      then (case rollback_to_checkpoint (clk_fresh_uuid clk) es of
              (Inl e, es') \<Rightarrow> (Inl e, rt, es') | (Inr _, es') \<Rightarrow> (Inr [], rt, es'))
      else if d = D_REPLAN then execute_replan env (clk_checkpoint clk) rt es
      else (case runnable_of es of
              (Inl e, es') \<Rightarrow> (Inl e, rt, es')
            | (Inr runnable, es') \<Rightarrow> (case act_loop env rt runnable es' [] of (r, es'') \<Rightarrow> (r, rt, es''))))"

definition assess :: "mid list \<Rightarrow> 'v execution_state \<Rightarrow> assessment_kind res" where
  "assess dispatched es =
     (if dispatched = [] then Inr OUTCOME_MET
      else case es_W es of
             None \<Rightarrow> Inl (TypeError ''NoneType'')
           | Some wm \<Rightarrow> Inr (if list_all (\<lambda>m. case map_of wm m of
                                   None \<Rightarrow> False
                                 | Some b \<Rightarrow> \<not> (buf_output b = UNBOUND \<or> buf_output b = PENDING)) dispatched
                             then OUTCOME_MET else OUTCOME_DEGRADED))"

section \<open>The loop\<close>

fun invocation_records ::
  "'v run_env \<Rightarrow> ('p, 'v) runtime \<Rightarrow> 'v working_memory \<Rightarrow> int \<Rightarrow> int \<Rightarrow> mid list
   \<Rightarrow> ('v module_invocation_record \<times> state_mutation_record) list res" where
  "invocation_records env rt wm before after [] = Inr []"
| "invocation_records env rt wm before after (m # ms) =
     (case wm_getitem wm m of
        Inl e \<Rightarrow> Inl e
      | Inr b \<Rightarrow>
          (case invocation_records env rt wm before after ms of
             Inl e \<Rightarrow> Inl e
           | Inr rs \<Rightarrow> Inr
               ((\<lparr>mi_module_instance_id = inst_uuid m, mi_module_type = inst_type_id m,
                  mi_capability = get_or CAP_EXECUTION (map_of (rt_node_capabilities rt) m),
                  mi_input_size_bytes = env_repr_size env (buf_input b),
                  mi_output_size_bytes = env_repr_size env (buf_output b),
                  mi_provider_id = (if rt_provider_mode rt = PM_PROD then ''provider'' else ''local''),
                  mi_recorded_output = buf_output b\<rparr>,
                 \<lparr>sm_mutation_type = ''OUTPUT_BOUND'', sm_target = inst_uuid m, sm_step_before = before,
                  sm_step_after = after, sm_module_type = inst_type_id m\<rparr>) # rs)))"

definition decision_record_of :: "('p, 'v) policy_ops \<Rightarrow> ('p, 'v) runtime \<Rightarrow> decision \<Rightarrow> decision_record" where
  "decision_record_of ops rt d =
     (let md = rt_last_policy_metadata rt in
      \<lparr>dr_decision = d, dr_policy_type = po_policy_type ops (rt_decision_policy rt),
       dr_policy_version = po_version ops (rt_decision_policy rt),
       dr_reasoning = (case md of None \<Rightarrow> None | Some x \<Rightarrow> dm_reasoning x),
       dr_confidence = (case md of None \<Rightarrow> None | Some x \<Rightarrow> dm_confidence x),
       dr_alternative_considered = (case md of None \<Rightarrow> [] | Some x \<Rightarrow> dm_alternative_considered x),
       dr_latency_ms = (case md of None \<Rightarrow> 0 | Some x \<Rightarrow> dm_latency_ms x)\<rparr>)"

definition record_trace_iteration ::
  "('p, 'v) policy_ops \<Rightarrow> 'v run_env \<Rightarrow> clock \<Rightarrow> observation \<Rightarrow> decision \<Rightarrow> mid list \<Rightarrow> int \<Rightarrow> 'v execution_state
   \<Rightarrow> ('p, 'v) runtime \<Rightarrow> exc option \<times> ('p, 'v) runtime" where
  "record_trace_iteration ops env clk obs d dispatched step_before es rt0 =
     (let trace = (case rt_execution_trace rt0 of None \<Rightarrow> new_trace rt0 es (clk_iso clk) | Some t \<Rightarrow> t);
          rt = rt0\<lparr>rt_execution_trace := Some trace\<rparr>
      in case (case es_W es of
                 None \<Rightarrow> if dispatched = [] then Inr [] else Inl (TypeError ''NoneType'')
               | Some wm \<Rightarrow> invocation_records env rt wm step_before (es_step_index es) dispatched) of
           Inl e \<Rightarrow> (Some e, rt)
         | Inr recs \<Rightarrow>
             (let t1 = add_execution_record
                  \<lparr>er_step_index = step_before, er_loop_iteration = length (et_execution_record trace),
                   er_observation = obs, er_decision = decision_record_of ops rt d,
                   er_module_invocations = map fst recs, er_state_mutations = map snd recs,
                   er_resource_usage = \<lparr>ru_step_index = es_step_index es,
                     ru_budget_remaining = cb_remaining (rt_cost_budget rt), ru_cpu_time_ms = clk_elapsed_ms clk,
                     ru_memory_bytes = 0,
                     ru_network_calls = length (filter (\<lambda>i. mi_provider_id i = ''provider'') (map fst recs))\<rparr>,
                   er_timestamp = clk_iso clk\<rparr> trace
              in (None, rt\<lparr>rt_execution_trace := Some
                    (if d = D_TERMINATE \<and> \<not> trace_is_complete t1
                     then finalize_trace TERMINATE_DECISION (clk_iso clk) t1 else t1)\<rparr>)))"

definition push_time :: "real \<Rightarrow> real list \<Rightarrow> real list" where
  "push_time x ts = (let ts' = ts @ [x] in if length ts' > 10 then tl ts' else ts')"

definition after_decision :: "decision \<Rightarrow> runtime_state \<Rightarrow> runtime_state" where
  "after_decision d st = (if d = D_TERMINATE then RS_TERMINATED else if d = D_PAUSE then RS_IDLE else st)"

definition step ::
  "('p, 'v) policy_ops \<Rightarrow> 'v run_env \<Rightarrow> clock \<Rightarrow> ('p, 'v) runtime \<Rightarrow> 'v execution_state
   \<Rightarrow> exc option \<times> ('p, 'v) runtime \<times> 'v execution_state" where
  "step ops env clk rt0 es0 =
     (let obs = observe (clk_observed clk) rt0 in
      case decide ops (clk_decide_latency clk) obs rt0 es0 of
        (Inl e, rt, es) \<Rightarrow> (Some e, rt, es)
      | (Inr d, rt, es) \<Rightarrow>
          (case act env clk d rt es of
             (Inl e, rt, es) \<Rightarrow> (Some e, rt, es)
           | (Inr dispatched, rt, es) \<Rightarrow>
               (case assess dispatched es of
                  Inl e \<Rightarrow> (Some e, rt, es)
                | Inr _ \<Rightarrow>
                    (let rt = rt\<lparr>rt_loop_iteration_times := push_time (clk_elapsed_ms clk) (rt_loop_iteration_times rt),
                                 rt_state := after_decision d (rt_state rt)\<rparr>
                     in if rt_trace_enabled rt
                        then (case record_trace_iteration ops env clk obs d dispatched (es_step_index es0) es rt of
                                (x, rt) \<Rightarrow> (x, rt, es))
                        else (None, rt, es)))))"

definition resume :: "('p, 'v) runtime \<Rightarrow> ('p, 'v) runtime" where
  "resume rt = (if rt_state rt = RS_IDLE then rt\<lparr>rt_state := RS_RUNNING\<rparr> else rt)"

text \<open>\<open>DNCRuntime\<close>: a runtime with a given registry.\<close>

definition new_dnc_runtime ::
  "module_registry option \<Rightarrow> latency_config \<Rightarrow> real \<Rightarrow> 'p \<Rightarrow> bool \<Rightarrow> ('p, 'v) runtime res" where
  "new_dnc_runtime registry config budget policy trace_enabled =
     (case new_runtime config budget policy trace_enabled of
        Inl e \<Rightarrow> Inl e
      | Inr rt \<Rightarrow> Inr (case registry of None \<Rightarrow> rt | Some r \<Rightarrow> rt\<lparr>rt_registry := r\<rparr>))"

end
