(* ===== verification/Runtime_Proofs.thy ===== *)
theory Runtime_Proofs
  imports Runtime_Loop
begin

text \<open>
  The correctness of the control loop: the invariant of the execution state over every sequence
  of calls, the bound on replans, rollback as the inverse of a replan, the final states, and that
  a run with modules that return comes to its end with every module complete.
\<close>

declare map_of_eq_Some_iff [simp del] Some_eq_map_of_iff [simp del]

section \<open>Graphs over a working memory\<close>

definition dag_over :: "scheduler \<Rightarrow> 'v working_memory \<Rightarrow> bool" where
  "dag_over s wm \<longleftrightarrow> (\<exists>nodes ps. built nodes ps s \<and> acyclic (set ps) \<and> cache_ok s \<and> nodes \<noteq> []
     \<and> (\<forall>n\<in>set nodes. wm_contains wm n))"

lemma dag_over_mono:
  "dag_over s wm \<Longrightarrow> (\<And>n. wm_contains wm n \<Longrightarrow> wm_contains wm' n) \<Longrightarrow> dag_over s wm'"
  by (auto simp: dag_over_def)

lemma set_graph_new:
  assumes "set_graph nodes edgs new_scheduler = (None, s)"
  obtains ps where "built nodes ps s" and "set ps = set edgs" and "acyclic (set ps)" and "cache_ok s"
proof -
  from set_graph_outcome [of edgs nodes new_scheduler] assms have "dispatch_order s = None"
    by (auto simp: new_scheduler_def split: if_splits)
  then have "cache_ok s" by (simp add: cache_ok_def)
  moreover obtain ps where "built nodes ps s" "set ps = set edgs" "acyclic (set edgs)"
    by (rule set_graph_built [OF assms])
  ultimately show ?thesis using that by simp
qed

lemma dag_over_set:
  assumes "set_graph nodes edgs new_scheduler = (None, s)" and "nodes \<noteq> []" and "\<forall>n\<in>set nodes. wm_contains wm n"
  shows "dag_over s wm"
proof -
  obtain ps where "built nodes ps s" "acyclic (set ps)" "cache_ok s" by (rule set_graph_new [OF assms(1)])
  with assms(2,3) show ?thesis unfolding dag_over_def by blast
qed

lemma runnable_cached:
  assumes "built nodes ps s" and "acyclic (set ps)" and "cache_ok s"
  obtains rs s' where "get_runnable s wm = (Inr rs, s')" and "built nodes ps s'" and "cache_ok s'"
    and "get_runnable s' wm = (Inr rs, s')" and "distinct rs"
    and "set rs = {n \<in> set nodes. \<not> is_complete wm n \<and> (\<forall>u. (u, n) \<in> set ps \<longrightarrow> is_complete wm u)}"
proof -
  let ?s = "s\<lparr>dispatch_order := Some (kahn_order (sched_succs s) (s_in_degree s) (zero_nodes (s_in_degree s)))\<rparr>"
  obtain rs where rs: "fst (get_runnable s wm) = Inr rs" "distinct rs"
    "set rs = {n \<in> set nodes. \<not> is_complete wm n \<and> (\<forall>u. (u, n) \<in> set ps \<longrightarrow> is_complete wm u)}"
    by (rule runnable_result [OF assms])
  have s': "get_runnable s wm = (Inr rs, ?s)"
    using rs(1) by (simp add: get_runnable_def dispatch_order_result(1) [OF assms])
  have b: "built nodes ps ?s" "cache_ok ?s" using assms(1) by (simp_all add: built_def cache_ok_def)
  have "get_runnable ?s wm = (Inr rs, ?s)"
    using s' by (simp add: get_runnable_def dispatch_order_result(1) [OF assms]
        dispatch_order_result(1) [OF b(1) assms(2) b(2)] are_preconditions_met_def)
  from s' b this rs(2,3) show ?thesis by (rule that)
qed

lemma dag_over_runnable:
  assumes "dag_over s wm"
  obtains rs s' where "get_runnable s wm = (Inr rs, s')" and "dag_over s' wm"
proof -
  from assms obtain nodes ps where g: "built nodes ps s" "acyclic (set ps)" "cache_ok s" "nodes \<noteq> []"
    "\<forall>n\<in>set nodes. wm_contains wm n" by (auto simp: dag_over_def)
  obtain rs s' where "get_runnable s wm = (Inr rs, s')" "built nodes ps s'" "cache_ok s'"
    by (rule runnable_cached [OF g(1-3)])
  with g that show ?thesis unfolding dag_over_def by blast
qed

lemma dag_over_check:
  assumes "dag_over s wm"
  shows "check_dag (Some s) = Inr ()" and "\<forall>n\<in>set (sched_nodes s). wm_contains wm n"
proof -
  from assms obtain nodes ps where g: "built nodes ps s" "acyclic (set ps)" "nodes \<noteq> []"
    "\<forall>n\<in>set nodes. wm_contains wm n" by (auto simp: dag_over_def)
  from built_nodes [OF g(1)] g(3) have "s_in_degree s \<noteq> []" by auto
  with has_cycle_iff [OF g(1)] g(2) show "check_dag (Some s) = Inr ()" by (simp add: check_dag_def)
  from built_nodes [OF g(1)] g(4) show "\<forall>n\<in>set (sched_nodes s). wm_contains wm n" by simp
qed

section \<open>The invariant of the execution state\<close>

text \<open>
  All components are present, the graph is acyclic and every node of it is registered in the
  working memory, the checkpoint record is within its bound, and every checkpoint holds the
  snapshot of a state that was good.
\<close>

definition core_ok :: "'v execution_state \<Rightarrow> bool" where
  "core_ok es \<longleftrightarrow> components_present es \<and> 0 \<le> es_step_index es
     \<and> dag_over (the (es_G es)) (the (es_W es)) \<and> es_G es \<noteq> None
     \<and> max_checkpoints (the (es_C es)) = 100 \<and> length (checkpoints (the (es_C es))) \<le> 100"

inductive good_state :: "'v execution_state \<Rightarrow> bool" where
  good_stateI: "good_state es" if "core_ok es"
    and "\<forall>ck. ck \<in> set (checkpoints (the (es_C es))) \<longrightarrow>
           (\<exists>es'. good_state es' \<and> ck_snapshot ck = Some (to_dict es'))"

inductive_cases good_stateE: "good_state es"

lemma good_core: "good_state es \<Longrightarrow> core_ok es"
  by (erule good_stateE)

lemma good_checkpoint:
  "good_state es \<Longrightarrow> ck \<in> set (checkpoints (the (es_C es)))
   \<Longrightarrow> \<exists>es'. good_state es' \<and> ck_snapshot ck = Some (to_dict es')"
  by (erule good_stateE) blast

text \<open>Changing what the invariant does not mention, or keeping the record, keeps it.\<close>

lemma good_update:
  assumes "good_state es" and "core_ok es'" and "es_C es' = es_C es"
  shows "good_state es'"
  using assms good_checkpoint by (intro good_stateI) auto

lemma good_budget: "good_state es \<Longrightarrow> good_state (es\<lparr>es_budget := b\<rparr>)"
  using good_update [of es "es\<lparr>es_budget := b\<rparr>"] good_core [of es]
  by (simp add: core_ok_def components_present_def)

lemma core_ok_fields:
  assumes "core_ok es"
  obtains wm cr s where "es_W es = Some wm" and "es_C es = Some cr" and "es_G es = Some s" and "dag_over s wm"
  using assms by (auto simp: core_ok_def components_present_def)

lemma core_ok_check:
  assumes "core_ok es"
  shows "check_invariants es = Inr ()"
proof -
  obtain wm cr s where "es_W es = Some wm" "es_C es = Some cr" "es_G es = Some s" "dag_over s wm"
    using assms by (rule core_ok_fields)
  with assms dag_over_check(1) [of s wm] show ?thesis
    by (auto simp: core_ok_def check_invariants_def check_state_components_def check_checkpoint_record_def
        check_step_index_def components_present_def)
qed

lemma runnable_of_good:
  assumes "good_state es"
  obtains rs es' where "runnable_of es = (Inr rs, es')" and "good_state es'" and "es_C es' = es_C es" and "es_W es' = es_W es"
proof -
  obtain wm cr s where f: "es_W es = Some wm" "es_C es = Some cr" "es_G es = Some s" "dag_over s wm"
    using good_core [OF assms] by (rule core_ok_fields)
  obtain rs s' where r: "get_runnable s wm = (Inr rs, s')" "dag_over s' wm" by (rule dag_over_runnable [OF f(4)])
  let ?es = "es\<lparr>es_G := Some s'\<rparr>"
  have "good_state ?es"
    by (rule good_update [OF assms])
      (use good_core [OF assms] f r in \<open>simp_all add: core_ok_def components_present_def\<close>)
  moreover have "runnable_of es = (Inr rs, ?es)" using f r by (simp add: runnable_of_def)
  ultimately show ?thesis using that by simp
qed

lemma wm_contains_set: "wm_contains (wm_setitem wm i b) j \<longleftrightarrow> j = i \<or> wm_contains wm j"
  by (simp add: wm_contains_def wm_setitem_def)

lemma good_store:
  assumes "good_state es" and "es_W es = Some wm"
  shows "good_state (es\<lparr>es_W := Some (wm_setitem wm m b)\<rparr>)"
proof (rule good_update [OF assms(1)])
  have "dag_over (the (es_G es)) (wm_setitem wm m b)"
    using good_core [OF assms(1)] assms(2) by (auto simp: core_ok_def wm_contains_set elim: dag_over_mono)
  with good_core [OF assms(1)] show "core_ok (es\<lparr>es_W := Some (wm_setitem wm m b)\<rparr>)"
    by (simp add: core_ok_def components_present_def)
qed simp

lemma good_advance: "good_state es \<Longrightarrow> good_state (snd (advance_step es))"
  using good_update [of es "snd (advance_step es)"] good_core [of es]
  by (simp add: core_ok_def components_present_def advance_step_def)

lemma act_loop_good: "good_state es \<Longrightarrow> good_state (snd (act_loop env rt ms es acc))"
proof (induction ms arbitrary: es acc)
  case (Cons m ms)
  obtain wm where wm: "es_W es = Some wm" using good_core [OF Cons.prems] by (rule core_ok_fields)
  note st = good_store [OF Cons.prems wm, of m]
  show ?case
    using Cons wm st Cons.IH [OF good_advance [OF st]]
    by (auto simp: Let_def split: sum.splits option.splits)
qed simp

lemma rollback_good: "good_state es \<Longrightarrow> good_state (snd (rollback_to_checkpoint fresh es))"
proof -
  assume g: "good_state es"
  obtain cr where cr: "es_C es = Some cr" using good_core [OF g] by (rule core_ok_fields)
  show ?thesis
  proof (cases "checkpoints cr = []")
    case True
    with g cr show ?thesis by (simp add: rollback_to_checkpoint_def cr_latest_def)
  next
    case False
    let ?ck = "last (checkpoints cr)"
    from False have "?ck \<in> set (checkpoints (the (es_C es)))" by (simp add: cr)
    from good_checkpoint [OF g this] obtain es' where es': "good_state es'" "ck_snapshot ?ck = Some (to_dict es')" by blast
    then have "components_present es'" using good_core by (auto simp: core_ok_def)
    then obtain u where "validate_components es' = Inr u" using validate_components_iff [of es' "()"] by auto
    then have "from_dict fresh (to_dict es') = Inr (es'\<lparr>es_budget := 1\<rparr>)" by (simp add: from_to_dict)
    then have "snd (rollback_to_checkpoint fresh es) = es'\<lparr>es_budget := 1\<rparr>"
      using False es'(2) cr by (cases es') (simp add: rollback_to_checkpoint_def cr_latest_def)
    with good_budget [OF es'(1)] show ?thesis by simp
  qed
qed

section \<open>Replanning\<close>

lemma register_nodes_ok:
  "register_nodes ns wm = (None, wm') \<longleftrightarrow>
     distinct ns \<and> (\<forall>n\<in>set ns. \<not> wm_contains wm n) \<and> wm' = wm @ map (\<lambda>n. (n, unbound_input)) ns"
proof (induction ns arbitrary: wm)
  case (Cons n ns)
  show ?case
  proof (cases "wm_contains wm n")
    case True
    then show ?thesis by (simp add: wm_register_def)
  next
    case False
    then have "wm_register wm n = Inr (wm @ [(n, unbound_input)])"
      by (simp add: wm_register_def wm_contains_def dict_set_new)
    then show ?thesis using Cons.IH [of "wm @ [(n, unbound_input)]"] False
      by (auto simp: wm_contains_def)
  qed
qed auto

lemma registered:
  fixes wm :: "'v working_memory"
  assumes "register_nodes ns wm = (None, wm')"
  shows "wm_contains wm' n \<longleftrightarrow> n \<in> set ns \<or> wm_contains wm n" and "is_complete wm' n \<longleftrightarrow> is_complete wm n"
proof -
  note r = assms [unfolded register_nodes_ok]
  then show "wm_contains wm' n \<longleftrightarrow> n \<in> set ns \<or> wm_contains wm n" by (auto simp: wm_contains_def image_iff)
  have "\<not> is_complete (map (\<lambda>n. (n, unbound_input :: 'v buffer)) ns) n"
    by (induction ns) (auto simp: is_complete_def unbound_input_def)
  moreover have "\<not> is_complete wm n" if "n \<in> set ns" using r that is_complete_contains by blast
  ultimately show "is_complete wm' n \<longleftrightarrow> is_complete wm n"
    using r by (auto simp: is_complete_def map_add_def split: option.splits)
qed

lemma graph_diff_sets:
  assumes "compute_graph_diff g_old g_new wm = (retained, retired_early, new_only)"
  shows "set retained = {i \<in> set (get_vertices g_old) \<inter> set (get_vertices g_new). wm_contains wm i}"
    and "set retired_early = set (get_vertices g_old) - set (get_vertices g_new)"
    and "set new_only = set (get_vertices g_new) - set retained" and "distinct new_only"
  using assms by (auto simp: compute_graph_diff_def Let_def)

lemma adopt_graph_good:
  assumes "good_state es" and "plan uuid5 task = Inr (Plan_success g_new)"
    and "adopt_graph env g_old g_new rt es = (Inr ns, rt', es')"
  shows "good_state es' \<and> es_C es' = es_C es \<and> rt_replan_count rt' = rt_replan_count rt \<and> rt_config rt' = rt_config rt
    \<and> rt_critical_section rt' = rt_critical_section rt"
proof -
  obtain wm where wm: "es_W es = Some wm" using good_core [OF assms(1)] by (rule core_ok_fields)
  obtain retained retired new_only where d: "compute_graph_diff g_old g_new wm = (retained, retired, new_only)"
    by (cases "compute_graph_diff g_old g_new wm") auto
  obtain s where s: "set_graph (get_vertices g_new) (g_edges g_new) new_scheduler = (None, s)"
    using plan_success [OF assms(2)] by (metis prod.collapse)
  let ?order = "sort_key (env_hash_order env) new_only"
  from assms(3) wm d s obtain wm' where r: "register_nodes ?order wm = (None, wm')"
    and es': "es' = snd (advance_step (es\<lparr>es_G := Some s, es_W := Some wm'\<rparr>))"
    and rt': "rt' = rt\<lparr>rt_current_graph := Some g_new, rt_staged_checkpoint := reset_stages (rt_staged_checkpoint rt)\<rparr>"
    by (auto simp: adopt_graph_def Let_def split: prod.splits option.splits)
  have "get_vertices g_new \<noteq> []" using plan_success [OF assms(2)] by (simp add: get_vertices_def)
  moreover have "\<forall>n\<in>set (get_vertices g_new). wm_contains wm' n"
    using graph_diff_sets [OF d] by (auto simp: registered(1) [OF r])
  ultimately have "dag_over s wm'" by (rule dag_over_set [OF s])
  then have "core_ok es'"
    using good_core [OF assms(1)] by (simp add: es' core_ok_def components_present_def advance_step_def)
  moreover have "es_C es' = es_C es" by (simp add: es' advance_step_def)
  ultimately show ?thesis using good_update [OF assms(1)] rt' by simp
qed

text \<open>The checkpoint a replan takes, and the record with it.\<close>

definition pre_replan :: "real \<Rightarrow> 'v execution_state \<Rightarrow> 'v snapshot option checkpoint" where
  "pre_replan now es = Checkpoint (es_step_index es) (es_execution_id es) now (Some (to_dict es)) ''PRE_REPLAN'' True"

definition with_checkpoint :: "real \<Rightarrow> 'v execution_state \<Rightarrow> 'v execution_state" where
  "with_checkpoint now es = es\<lparr>es_C := Some (cr_step (the (es_C es)) (pre_replan now es))\<rparr>"

lemma with_checkpoint_latest:
  assumes "core_ok es"
  shows "cr_latest (the (es_C (with_checkpoint now es))) = Some (pre_replan now es)"
proof -
  let ?cks = "checkpoints (the (es_C es))"
  have "last (tl (?cks @ [c])) = c" if "?cks \<noteq> []" for c using that by (cases ?cks) auto
  with assms show ?thesis
    by (auto simp: with_checkpoint_def cr_latest_def cr_step_checkpoints pre_replan_def Let_def core_ok_def tl_append
        split: list.splits)
qed

lemma with_checkpoint_good: "good_state es \<Longrightarrow> good_state (with_checkpoint now es)"
proof (rule good_stateI)
  assume g: "good_state es"
  let ?cks = "checkpoints (the (es_C es))" and ?new = "checkpoints (the (es_C (with_checkpoint now es)))"
  have new: "?new = (let ys = ?cks @ [pre_replan now es] in if length ys > 100 then tl ys else ys)"
    using good_core [OF g] by (simp add: with_checkpoint_def cr_step_checkpoints pre_replan_def core_ok_def)
  then have "length ?new \<le> 100" using good_core [OF g] by (auto simp: core_ok_def Let_def)
  then show "core_ok (with_checkpoint now es)"
    using good_core [OF g] by (auto simp: core_ok_def with_checkpoint_def components_present_def cr_step_checkpoints(1))
  have "set ?new \<subseteq> insert (pre_replan now es) (set ?cks)"
    by (auto simp: new Let_def dest: list.set_sel(2) [rotated])
  moreover have "ck_snapshot (pre_replan now es) = Some (to_dict es)" by (simp add: pre_replan_def)
  ultimately show "\<forall>ck. ck \<in> set ?new \<longrightarrow> (\<exists>es'. good_state es' \<and> ck_snapshot ck = Some (to_dict es'))"
    using g good_checkpoint [OF g] by blast
qed

lemma execute_replan_cases:
  assumes g: "good_state es" and r: "execute_replan env now rt es = (Inr ns, rt', es')"
  obtains (Skip) "rt_critical_section rt \<or> MAX_REPLANS_PER_EXECUTION (rt_config rt) \<le> rt_replan_count rt"
      and "es' = es" and "rt' = rt"
  | (Replan) "\<not> rt_critical_section rt" and "rt_replan_count rt < MAX_REPLANS_PER_EXECUTION (rt_config rt)"
      and "rt_replan_count rt' = rt_replan_count rt + 1" and "rt_config rt' = rt_config rt"
      and "rt_critical_section rt' = rt_critical_section rt"
      and "es_C es' = es_C (with_checkpoint now es)" and "good_state es'"
proof (cases "rt_critical_section rt \<or> MAX_REPLANS_PER_EXECUTION (rt_config rt) \<le> rt_replan_count rt")
  case True
  then have "execute_replan env now rt es = (Inr [], rt, es)" by (auto simp: execute_replan_def)
  with r True show ?thesis by (intro Skip) auto
next
  case False
  obtain wm cr s where f: "es_W es = Some wm" "es_C es = Some cr" "es_G es = Some s"
    using good_core [OF g] by (rule core_ok_fields)
  have p: "components_present es" "0 \<le> es_step_index es" using good_core [OF g] by (auto simp: core_ok_def)
  have a: "cr_add cr (pre_replan now es) = Inr (cr_step cr (pre_replan now es))"
    by (simp add: cr_step_def cr_add_def pre_replan_def Let_def)
  let ?rt = "rt\<lparr>rt_replan_count := rt_replan_count rt + 1\<rparr>"
  let ?task = "\<lparr>pt_task_description = ''replan'', pt_available_modules = rt_registry rt,
      pt_resource_budget = cb_remaining (rt_cost_budget rt)\<rparr>"
  have eq: "execute_replan env now rt es =
     (case plan (env_uuid5 env) ?task of
        Inl e \<Rightarrow> (Inl e, ?rt, with_checkpoint now es)
      | Inr (Plan_fail _) \<Rightarrow> (Inr [], ?rt, with_checkpoint now es)
      | Inr (Plan_success g_new) \<Rightarrow>
          (case rt_current_graph rt of
             None \<Rightarrow> (Inl (AttributeError ''NoneType''), ?rt, with_checkpoint now es)
           | Some g_old \<Rightarrow> adopt_graph env g_old g_new ?rt (with_checkpoint now es)))"
    using False f checkpoint_of_state [OF p] a
    by (simp add: execute_replan_def Let_def with_checkpoint_def pre_replan_def
        split: sum.split planning_result.split option.split)
  obtain res where res: "plan (env_uuid5 env) ?task = Inr res" using plan_total by blast
  show ?thesis
  proof (cases res)
    case (Plan_success gn)
    with r eq res obtain go where "adopt_graph env go gn ?rt (with_checkpoint now es) = (Inr ns, rt', es')"
      by (auto split: option.splits)
    from adopt_graph_good [OF with_checkpoint_good [OF g] res [unfolded Plan_success] this] False
    show ?thesis by (intro Replan) auto
  next
    case (Plan_fail x)
    with r eq res False with_checkpoint_good [OF g] show ?thesis by (intro Replan) auto
  qed
qed

section \<open>One iteration of the loop\<close>

lemma ask_policy_fields:
  "ask_policy ops latency obs es rt = (d, rt') \<Longrightarrow>
     rt' = rt\<lparr>rt_decision_policy := rt_decision_policy rt', rt_last_policy_metadata := rt_last_policy_metadata rt'\<rparr>"
  by (auto simp: ask_policy_def Let_def split: prod.splits)

text \<open>What an iteration keeps of the runtime, whatever it decides.\<close>

definition same_setup :: "('p, 'v) runtime \<Rightarrow> ('p, 'v) runtime \<Rightarrow> bool" where
  "same_setup rt rt' \<longleftrightarrow> rt_config rt' = rt_config rt \<and> rt_critical_section rt' = rt_critical_section rt"

lemma decide_good:
  assumes "good_state es" and "decide ops latency obs rt es = (r, rt', es')"
  shows "good_state es' \<and> es_C es' = es_C es \<and> (\<exists>d. r = Inr d) \<and> same_setup rt rt'
    \<and> rt_replan_count rt' = rt_replan_count rt"
proof (cases "rt_state rt = RS_RUNNING")
  case True
  obtain pd rt1 where a: "ask_policy ops latency obs es rt = (pd, rt1)" by fastforce
  have f: "rt_config rt1 = rt_config rt" "rt_critical_section rt1 = rt_critical_section rt"
    "rt_replan_count rt1 = rt_replan_count rt"
    by (subst ask_policy_fields [OF a], simp)+
  obtain rs es1 where "runnable_of es = (Inr rs, es1)" "good_state es1" "es_C es1 = es_C es"
    by (rule runnable_of_good [OF assms(1)])
  with assms a f True show ?thesis
    by (auto simp: decide_def same_setup_def split: if_splits)
next
  case False
  with assms show ?thesis by (auto simp: decide_def same_setup_def)
qed

lemma act_good:
  assumes "good_state es" and "act env clk d rt es = (Inr ns, rt', es')"
  shows "good_state es' \<and> same_setup rt rt' \<and> rt_replan_count rt \<le> rt_replan_count rt'
    \<and> (rt_replan_count rt' \<noteq> rt_replan_count rt \<longrightarrow>
        d = D_REPLAN \<and> rt_replan_count rt' \<le> MAX_REPLANS_PER_EXECUTION (rt_config rt) \<and> \<not> rt_critical_section rt)"
proof -
  consider "d \<in> {D_TERMINATE, D_IDLE, D_PAUSE}" | "d = D_ROLLBACK" | "d = D_REPLAN" | "d = D_CONTINUE"
    by (cases d) auto
  then show ?thesis
  proof cases
    case 3
    then have "execute_replan env (clk_checkpoint clk) rt es = (Inr ns, rt', es')" using assms(2) by (simp add: act_def)
    from assms(1) this show ?thesis
      by (cases rule: execute_replan_cases) (use assms(1) 3 in \<open>auto simp: same_setup_def\<close>)
  next
    case 4
    obtain rs es1 where r: "runnable_of es = (Inr rs, es1)" "good_state es1" by (rule runnable_of_good [OF assms(1)])
    with 4 assms(2) act_loop_good [OF r(2), of env rt rs "[]"] show ?thesis
      by (auto simp: act_def same_setup_def split: prod.splits)
  qed (use assms rollback_good [OF assms(1), of "clk_fresh_uuid clk"] in
      \<open>auto simp: act_def same_setup_def split: prod.splits sum.splits\<close>)
qed

lemma record_trace_fields:
  "record_trace_iteration ops env clk obs d ns i es rt = (x, rt') \<Longrightarrow> rt' = rt\<lparr>rt_execution_trace := rt_execution_trace rt'\<rparr>"
  by (auto simp: record_trace_iteration_def Let_def split: sum.splits)

lemma step_cases:
  assumes "step ops env clk rt es = (None, rt', es')"
  obtains d rt1 es1 ns rt2 times trace where
    "decide ops (clk_decide_latency clk) (observe (clk_observed clk) rt) rt es = (Inr d, rt1, es1)"
    and "act env clk d rt1 es1 = (Inr ns, rt2, es')"
    and "rt' = rt2\<lparr>rt_loop_iteration_times := times, rt_state := after_decision d (rt_state rt2), rt_execution_trace := trace\<rparr>"
proof -
  from assms obtain d rt1 es1 where d: "decide ops (clk_decide_latency clk) (observe (clk_observed clk) rt) rt es = (Inr d, rt1, es1)"
    by (auto simp: step_def Let_def split: prod.splits sum.splits)
  with assms obtain ns rt2 es2 where a: "act env clk d rt1 es1 = (Inr ns, rt2, es2)"
    by (auto simp: step_def Let_def split: prod.splits sum.splits)
  let ?rt = "rt2\<lparr>rt_loop_iteration_times := push_time (clk_elapsed_ms clk) (rt_loop_iteration_times rt2),
      rt_state := after_decision d (rt_state rt2)\<rparr>"
  from assms d a obtain k where k: "assess ns es2 = Inr k"
    by (auto simp: step_def Let_def split: sum.splits)
  show ?thesis
  proof (cases "rt_trace_enabled rt2")
    case True
    with assms d a k have "record_trace_iteration ops env clk (observe (clk_observed clk) rt) d ns (es_step_index es) es2 ?rt = (None, rt')"
      and "es' = es2" by (auto simp: step_def Let_def split: prod.splits)
    with record_trace_fields [OF this(1)] d a show ?thesis by (auto intro: that)
  next
    case False
    with assms d a k have "rt' = ?rt" "es' = es2" by (auto simp: step_def Let_def)
    then have "rt' = ?rt\<lparr>rt_execution_trace := rt_execution_trace rt2\<rparr>" by simp
    then show ?thesis by (rule that [OF d a [folded \<open>es' = es2\<close>]])
  qed
qed

lemma step_good:
  assumes "good_state es" and "step ops env clk rt es = (None, rt', es')"
  shows "good_state es' \<and> same_setup rt rt' \<and> rt_replan_count rt \<le> rt_replan_count rt'
    \<and> (rt_replan_count rt' \<noteq> rt_replan_count rt \<longrightarrow>
        rt_replan_count rt' \<le> MAX_REPLANS_PER_EXECUTION (rt_config rt) \<and> \<not> rt_critical_section rt)"
  using assms(2)
proof (rule step_cases)
  fix d rt1 es1 ns rt2 times trace
  assume d: "decide ops (clk_decide_latency clk) (observe (clk_observed clk) rt) rt es = (Inr d, rt1, es1)"
    and a: "act env clk d rt1 es1 = (Inr ns, rt2, es')"
    and rt': "rt' = rt2\<lparr>rt_loop_iteration_times := times, rt_state := after_decision d (rt_state rt2), rt_execution_trace := trace\<rparr>"
  note dg = decide_good [OF assms(1) d]
  then have "good_state es1" by blast
  from act_good [OF this a] dg have "good_state es' \<and> same_setup rt rt2 \<and> rt_replan_count rt \<le> rt_replan_count rt2
    \<and> (rt_replan_count rt2 \<noteq> rt_replan_count rt \<longrightarrow>
        rt_replan_count rt2 \<le> MAX_REPLANS_PER_EXECUTION (rt_config rt) \<and> \<not> rt_critical_section rt)"
    by (auto simp: same_setup_def)
  moreover have "rt_config rt' = rt_config rt2" "rt_critical_section rt' = rt_critical_section rt2"
    "rt_replan_count rt' = rt_replan_count rt2" by (simp_all add: rt')
  ultimately show ?thesis by (simp add: same_setup_def)
qed

section \<open>Sequences of calls\<close>

text \<open>
  A component whose operations may raise: a run stops at the first exception. What a step that
  does not raise keeps, a run that does not raise keeps.
\<close>

locale raising_machine =
  fixes step :: "'s \<Rightarrow> 'c \<Rightarrow> exc option \<times> 's"
    and inv :: "'s \<Rightarrow> bool"
    and ext :: "'s \<Rightarrow> 's \<Rightarrow> bool"
    and run :: "'c list \<Rightarrow> 's \<Rightarrow> exc option \<times> 's"
  assumes run_Nil: "run [] s = (None, s)"
    and run_Cons: "run (c # cs) s = (case step s c of (Some e, s') \<Rightarrow> (Some e, s') | (None, s') \<Rightarrow> run cs s')"
    and step_inv: "inv s \<Longrightarrow> step s c = (None, s') \<Longrightarrow> inv s'"
    and step_ext: "inv s \<Longrightarrow> step s c = (None, s') \<Longrightarrow> ext s s'"
    and ext_refl: "ext s s"
    and ext_trans: "ext s t \<Longrightarrow> ext t u \<Longrightarrow> ext s u"
begin

lemma run_keeps: "inv s \<Longrightarrow> run cs s = (None, s') \<Longrightarrow> inv s' \<and> ext s s'"
proof (induction cs arbitrary: s)
  case (Cons c cs)
  from Cons.prems(2) obtain t where t: "step s c = (None, t)" "run cs t = (None, s')"
    by (auto simp: run_Cons split: prod.splits option.splits)
  from Cons.IH [OF step_inv [OF Cons.prems(1) t(1)] t(2)] step_ext [OF Cons.prems(1) t(1)]
  show ?case by (blast intro: ext_trans)
qed (simp add: run_Nil ext_refl)

end

text \<open>The calls a client makes on a started execution, writes to the fields of the runtime included.\<close>

datatype 'v runtime_call =
    Step clock
  | Resume
  | Register module_contract
  | Dispatch_fn "mid \<Rightarrow> 'v slot res"
  | Provider "'v provider"
  | Mode provider_mode
  | Capabilities "(mid, execution_capability) dict"
  | Signals "pyval list"
  | Critical bool
  | Charge mid real

fun do_call ::
  "('p, 'v) policy_ops \<Rightarrow> 'v run_env \<Rightarrow> ('p, 'v) runtime \<times> 'v execution_state \<Rightarrow> 'v runtime_call
   \<Rightarrow> exc option \<times> ('p, 'v) runtime \<times> 'v execution_state" where
  "do_call ops env (rt, es) (Step clk) = step ops env clk rt es"
| "do_call ops env (rt, es) Resume = (None, resume rt, es)"
| "do_call ops env (rt, es) (Register c) =
     (case register_module c rt of Inl e \<Rightarrow> (Some e, rt, es) | Inr rt' \<Rightarrow> (None, rt', es))"
| "do_call ops env (rt, es) (Dispatch_fn f) = (None, set_dispatch_fn f rt, es)"
| "do_call ops env (rt, es) (Provider p) = (None, register_provider p rt, es)"
| "do_call ops env (rt, es) (Mode m) = (None, set_provider_mode m rt, es)"
| "do_call ops env (rt, es) (Capabilities d) = (None, set_node_capabilities d rt, es)"
| "do_call ops env (rt, es) (Signals xs) = (None, rt\<lparr>rt_pending_signals := xs\<rparr>, es)"
| "do_call ops env (rt, es) (Critical b) = (None, rt\<lparr>rt_critical_section := b\<rparr>, es)"
| "do_call ops env (rt, es) (Charge m c) = (None, rt\<lparr>rt_cost_budget := snd (charge m c (rt_cost_budget rt))\<rparr>, es)"

fun run_calls ::
  "('p, 'v) policy_ops \<Rightarrow> 'v run_env \<Rightarrow> 'v runtime_call list \<Rightarrow> ('p, 'v) runtime \<times> 'v execution_state
   \<Rightarrow> exc option \<times> ('p, 'v) runtime \<times> 'v execution_state" where
  "run_calls ops env [] x = (None, x)"
| "run_calls ops env (c # cs) x =
     (case do_call ops env x c of (Some e, x') \<Rightarrow> (Some e, x') | (None, x') \<Rightarrow> run_calls ops env cs x')"

definition conf_ok :: "('p, 'v) runtime \<times> 'v execution_state \<Rightarrow> bool" where
  "conf_ok x \<longleftrightarrow> good_state (snd x) \<and> rt_replan_count (fst x) \<le> MAX_REPLANS_PER_EXECUTION (rt_config (fst x))"

definition conf_ext :: "('p, 'v) runtime \<times> 'v execution_state \<Rightarrow> ('p, 'v) runtime \<times> 'v execution_state \<Rightarrow> bool" where
  "conf_ext x y \<longleftrightarrow> rt_config (fst y) = rt_config (fst x) \<and> rt_replan_count (fst x) \<le> rt_replan_count (fst y)"

lemma do_call_keeps:
  "conf_ok x \<Longrightarrow> do_call ops env x c = (None, x') \<Longrightarrow> conf_ok x' \<and> conf_ext x x'"
proof (induction ops env x c rule: do_call.induct)
  case (1 ops env rt es clk)
  then have g: "good_state es" and s: "step ops env clk rt es = (None, fst x', snd x')" by (simp_all add: conf_ok_def)
  from step_good [OF g s] 1(1) show ?case by (auto simp: conf_ok_def conf_ext_def same_setup_def)
qed (auto simp: conf_ok_def conf_ext_def resume_def register_module_def set_dispatch_fn_def register_provider_def
    set_provider_mode_def set_node_capabilities_def split: sum.splits)

interpretation loop: raising_machine "do_call ops env" conf_ok conf_ext "run_calls ops env"
  for ops :: "('p, 'v) policy_ops" and env :: "'v run_env"
proof
  show "conf_ok x \<Longrightarrow> do_call ops env x c = (None, x') \<Longrightarrow> conf_ok x'" for x x' c
    using do_call_keeps by blast
  show "conf_ok x \<Longrightarrow> do_call ops env x c = (None, x') \<Longrightarrow> conf_ext x x'" for x x' c
    using do_call_keeps by blast
qed (auto simp: conf_ext_def)

lemma initiate_cases:
  assumes "initiate env eid now descr seed rt = (Inr es, rt')" and "es_G es \<noteq> None"
  obtains g s wm tr where
    "plan (env_uuid5 env) \<lparr>pt_task_description = descr, pt_available_modules = rt_registry rt,
                  pt_resource_budget = cb_remaining (rt_cost_budget rt)\<rparr> = Inr (Plan_success g)"
    and "set_graph (get_vertices g) (g_edges g) new_scheduler = (None, s)"
    and "register_nodes (get_vertices g) [] = (None, wm)"
    and "es = (initialize_from_seed seed (new_execution_state eid))
            \<lparr>es_W := Some wm, es_M := Some (mr_snapshot (rt_registry rt)), es_C := Some new_checkpoint_record,
             es_H := Some new_history, es_budget := cb_remaining (rt_cost_budget rt), es_G := Some s\<rparr>"
    and "rt' = rt\<lparr>rt_execution_trace := tr, rt_state := RS_RUNNING, rt_current_graph := Some g\<rparr>"
  using assms
  by (auto simp: initiate_def Let_def to_scheduler_input_def new_execution_state_def initialize_from_seed_def
      split: sum.splits planning_result.splits prod.splits option.splits intro: that)

lemma initiate_good:
  assumes "initiate env eid now descr seed rt = (Inr es, rt')" and "es_G es \<noteq> None"
  shows "good_state es" and "rt_config rt' = rt_config rt" and "rt_replan_count rt' = rt_replan_count rt"
proof -
  show "good_state es"
    using assms
  proof (rule initiate_cases)
    fix g s wm tr
    assume p: "plan (env_uuid5 env) \<lparr>pt_task_description = descr, pt_available_modules = rt_registry rt,
                  pt_resource_budget = cb_remaining (rt_cost_budget rt)\<rparr> = Inr (Plan_success g)"
      and s: "set_graph (get_vertices g) (g_edges g) new_scheduler = (None, s)"
      and r: "register_nodes (get_vertices g) [] = (None, wm)"
      and es: "es = (initialize_from_seed seed (new_execution_state eid))
            \<lparr>es_W := Some wm, es_M := Some (mr_snapshot (rt_registry rt)), es_C := Some new_checkpoint_record,
             es_H := Some new_history, es_budget := cb_remaining (rt_cost_budget rt), es_G := Some s\<rparr>"
    have "get_vertices g \<noteq> []" using plan_success [OF p] by (simp add: get_vertices_def)
    then have "dag_over s wm" by (rule dag_over_set [OF s]) (simp add: registered(1) [OF r])
    then have "core_ok es"
      by (simp add: es core_ok_def components_present_def new_checkpoint_record_def initialize_from_seed_def new_execution_state_def)
    then show "good_state es"
      by (rule good_stateI) (simp add: es new_checkpoint_record_def initialize_from_seed_def new_execution_state_def)
  qed
  show "rt_config rt' = rt_config rt" "rt_replan_count rt' = rt_replan_count rt"
    using assms by (auto elim!: initiate_cases)
qed

section \<open>Rollback and final states\<close>

lemma replan_then_rollback:
  assumes "good_state es" and "execute_replan env now rt es = (Inr ns, rt', es')"
    and "rt_replan_count rt' \<noteq> rt_replan_count rt"
  shows "rollback_to_checkpoint fresh es' = (Inr True, es\<lparr>es_budget := 1\<rparr>)"
  using assms(1,2)
proof (cases rule: execute_replan_cases)
  case Skip
  with assms(3) show ?thesis by simp
next
  case Replan
  have "es_C es' \<noteq> None" using Replan(6) by (simp add: with_checkpoint_def)
  moreover have "cr_latest (the (es_C es')) = Some (pre_replan now es)"
    using with_checkpoint_latest [OF good_core [OF assms(1)]] Replan(6) by simp
  moreover have "validate_components es = Inr ()"
    using good_core [OF assms(1)] by (simp add: validate_components_iff core_ok_def)
  ultimately show ?thesis
    by (cases es) (auto simp: rollback_to_checkpoint_def pre_replan_def from_to_dict)
qed

lemma record_trace_no_modules:
  "fst (record_trace_iteration ops env clk obs d [] i es rt) = None"
  by (simp add: record_trace_iteration_def Let_def split: option.split)

lemma step_not_running:
  assumes "rt_state rt \<noteq> RS_RUNNING" and "step ops env clk rt es = (x, rt', es')"
  shows "x = None \<and> es' = es \<and> rt_state rt' = RS_TERMINATED \<and> rt_decision_policy rt' = rt_decision_policy rt
    \<and> rt_replan_count rt' = rt_replan_count rt \<and> rt_state (resume rt') = RS_TERMINATED"
proof -
  have d: "decide ops l obs rt es = (Inr D_TERMINATE, rt, es)" for l obs using assms(1) by (simp add: decide_def)
  have a: "act env clk D_TERMINATE rt es = (Inr [], rt, es)" by (simp add: act_def)
  have "fst (step ops env clk rt es) = None"
    by (simp add: step_def Let_def d a assess_def case_prod_beta record_trace_no_modules)
  with assms(2) have s: "step ops env clk rt es = (None, rt', es')" and x: "x = None" by simp_all
  from s show ?thesis by (rule step_cases) (use d a x in \<open>auto simp: after_decision_def resume_def\<close>)
qed

section \<open>Runs that complete\<close>

lemma dispatch_loop_completes:
  assumes "rt_provider_mode rt = PM_DEV" and "rt_module_dispatch_fn rt = Some f" and "\<forall>m. \<exists>v. f m = Inr (Val v)"
    and "\<not> backpressure_active rt"
  shows "good_state es \<Longrightarrow> es_W es = Some wm \<Longrightarrow> \<forall>m\<in>set ms. wm_contains wm m \<Longrightarrow>
    \<exists>es' wm'. act_loop env rt ms es acc = (Inr (acc @ ms), es') \<and> good_state es' \<and> es_W es' = Some wm'
      \<and> (\<forall>j. is_complete wm' j \<longleftrightarrow> j \<in> set ms \<or> is_complete wm j) \<and> (\<forall>j. wm_contains wm' j \<longleftrightarrow> wm_contains wm j)
      \<and> es_G es' = es_G es \<and> es_budget es' = es_budget es"
proof (induction ms arbitrary: es wm acc)
  case (Cons m ms)
  obtain b where b: "map_of wm m = Some b"
    using Cons.prems(3) map_of_None_iff [of wm m] by (auto simp: wm_contains_def)
  obtain v where v: "f m = Inr (Val v)" using assms(3) by blast
  let ?wm = "wm_setitem wm m (completed_buffer (buf_input b) (Val v) None)"
  let ?es = "es\<lparr>es_W := Some ?wm\<rparr>"
  note g = good_store [OF Cons.prems(1,2), of m "completed_buffer (buf_input b) (Val v) None"]
  have l: "act_loop env rt (m # ms) es acc = act_loop env rt ms (snd (advance_step ?es)) (acc @ [m])"
    using assms b v Cons.prems(2) core_ok_check [OF good_core [OF g]]
    by (simp add: run_module_def wm_getitem_def Let_def)
  have c: "is_complete ?wm j \<longleftrightarrow> j = m \<or> is_complete wm j" and w: "wm_contains ?wm j \<longleftrightarrow> wm_contains wm j" for j
    using Cons.prems(3) by (auto simp: is_complete_setitem completed_buffer_def wm_contains_set)
  have "es_W (snd (advance_step ?es)) = Some ?wm" and "\<forall>m\<in>set ms. wm_contains ?wm m"
    using Cons.prems(3) by (auto simp: advance_step_def w)
  from Cons.IH [OF good_advance [OF g] this, of "acc @ [m]"] show ?case
    unfolding l by (auto simp: c w advance_step_def simp del: act_loop.simps)
qed simp

lemma invocation_records_ok:
  "\<forall>n\<in>set ns. wm_contains wm n \<Longrightarrow> \<exists>rs. invocation_records env rt wm i j ns = Inr rs"
proof (induction ns)
  case (Cons n ns)
  then obtain b where "wm_getitem wm n = Inr b"
    using map_of_None_iff [of wm n] by (auto simp: wm_contains_def wm_getitem_def split: option.splits)
  with Cons show ?case by auto
qed simp

lemma step_ok:
  assumes "decide ops (clk_decide_latency clk) (observe (clk_observed clk) rt) rt es = (Inr d, rt1, es1)"
    and "act env clk d rt1 es1 = (Inr ns, rt2, es2)" and "es_W es2 = Some wm" and "\<forall>n\<in>set ns. wm_contains wm n"
  obtains times trace where "step ops env clk rt es =
    (None, rt2\<lparr>rt_loop_iteration_times := times, rt_state := after_decision d (rt_state rt2), rt_execution_trace := trace\<rparr>, es2)"
proof -
  have "\<exists>k. assess ns es2 = Inr k" by (simp add: assess_def assms(3))
  then obtain k where k: "assess ns es2 = Inr k" by blast
  have "fst (record_trace_iteration ops env clk obs d ns i es2 rt') = None" for obs i rt'
  proof -
    let ?tr = "case rt_execution_trace rt' of None \<Rightarrow> new_trace rt' es2 (clk_iso clk) | Some t \<Rightarrow> t"
    obtain rs where "invocation_records env (rt'\<lparr>rt_execution_trace := Some ?tr\<rparr>) wm i (es_step_index es2) ns = Inr rs"
      using invocation_records_ok [OF assms(4)] by blast
    then show ?thesis by (simp add: record_trace_iteration_def Let_def assms(3))
  qed
  then have "fst (step ops env clk rt es) = None"
    using assms(1,2) k by (simp add: step_def Let_def case_prod_beta)
  then obtain rt' es' where s: "step ops env clk rt es = (None, rt', es')" by (cases "step ops env clk rt es") auto
  from s show ?thesis by (rule step_cases) (use assms(1,2) s in \<open>auto intro: that\<close>)
qed

text \<open>
  A running execution under the rule policy, in which nothing asks for a replan and every module
  instance of the working memory is a node of the graph.
\<close>

definition live ::
  "(mid \<Rightarrow> 'v slot res) \<Rightarrow> mid list \<Rightarrow> (mid \<times> mid) list \<Rightarrow> ('v rule_policy, 'v) runtime \<Rightarrow> 'v execution_state \<Rightarrow> bool" where
  "live f nodes ps rt es \<longleftrightarrow>
     rt_state rt = RS_RUNNING \<and> rt_provider_mode rt = PM_DEV \<and> rt_module_dispatch_fn rt = Some f
     \<and> rt_pending_signals rt = [] \<and> \<not> rt_critical_section rt \<and> \<not> backpressure_active rt
     \<and> \<not> should_trigger_replan (rt_cost_forecaster rt) (rt_cost_budget rt)
     \<and> rt_replan_count rt < MAX_REPLANS_PER_EXECUTION (rt_config rt)
     \<and> rp_replan_count (rt_decision_policy rt) < rp_max_replans (rt_decision_policy rt)
     \<and> rp_resource_threshold (rt_decision_policy rt) \<le> es_budget es
     \<and> good_state es \<and> nodes \<noteq> [] \<and> acyclic (set ps)
     \<and> (\<exists>s wm. es_G es = Some s \<and> es_W es = Some wm \<and> built nodes ps s \<and> cache_ok s
          \<and> (\<forall>n. wm_contains wm n \<longleftrightarrow> n \<in> set nodes))"

lemma pending_count_zero:
  assumes "es_W es = Some wm" and "\<forall>n. wm_contains wm n \<longleftrightarrow> n \<in> set nodes" and "nodes \<noteq> []"
  shows "pending_count es = 0 \<longleftrightarrow> incomplete nodes wm = {}"
proof -
  have k: "set (dict_keys wm) = set nodes" using assms(2) by (auto simp: wm_contains_def)
  with assms(3) have "wm \<noteq> []" by auto
  then have "pending_count es = 0 \<longleftrightarrow> (\<forall>n\<in>set (dict_keys wm). is_complete wm n)"
    using assms(1) by (auto simp: pending_count_def filter_empty_conv)
  then show ?thesis unfolding k by (auto simp: incomplete_def)
qed

lemma live_policy:
  assumes "live f nodes ps rt es" and "es_W es = Some wm" and "\<forall>n. wm_contains wm n \<longleftrightarrow> n \<in> set nodes"
    and "obs_signals obs = []"
  obtains p md where "ask_policy rule_policy_ops latency obs es rt =
      (if incomplete nodes wm = {} then TERMINATE else CONTINUE,
       rt\<lparr>rt_decision_policy := p, rt_last_policy_metadata := md\<rparr>)"
    and "rp_replan_count p < rp_max_replans p" and "rp_resource_threshold p \<le> es_budget es"
proof -
  let ?p = "set_critical_section (rt_critical_section rt) (rt_decision_policy rt)"
  let ?arg = "Obs_Dict [(''signals'', OVal (PList (obs_signals obs))), (''timestamp'', OFloat (obs_timestamp obs))]"
  let ?r = "policy_decide ?arg es latency ?p"
  have l: "\<not> rt_critical_section rt" "rp_replan_count (rt_decision_policy rt) < rp_max_replans (rt_decision_policy rt)"
    "rp_resource_threshold (rt_decision_policy rt) \<le> es_budget es" "nodes \<noteq> []"
    using assms(1) by (auto simp: live_def)
  have d: "fst ?r = (if incomplete nodes wm = {} then TERMINATE else CONTINUE)"
    using l pending_count_zero [OF assms(2,3) l(4)]
    by (simp add: policy_decide_def Let_def apply_rules_def set_critical_section_def set_execution_state_def
        set_observation_def is_resource_exhausted_def is_failure_detected_def is_all_modules_complete_def
        is_step_deadline_missed_def)
  then have nr: "fst ?r \<noteq> REPLAN" by simp
  have "ask_policy rule_policy_ops latency obs es rt = (fst ?r, rt\<lparr>rt_decision_policy := snd ?r,
      rt_last_policy_metadata := Some (get_decision_metadata (snd ?r))\<rparr>)"
    by (simp add: ask_policy_def rule_policy_ops_def case_prod_beta Let_def)
  then show ?thesis
    by (rule that [unfolded d [symmetric]]) (use l nr in \<open>simp_all add: decide_state set_critical_section_def\<close>)
qed

abbreviation unfinished :: "mid list \<Rightarrow> 'v execution_state \<Rightarrow> mid set" where
  "unfinished nodes es \<equiv> incomplete nodes (the (es_W es))"

lemma live_step:
  assumes "live f nodes ps rt es" and "\<forall>m. \<exists>v. f m = Inr (Val v)" and "unfinished nodes es \<noteq> {}"
  obtains rt' es' where "step rule_policy_ops env clk rt es = (None, rt', es')" and "live f nodes ps rt' es'"
    and "unfinished nodes es' \<subset> unfinished nodes es"
proof -
  from assms(1) obtain s wm where g: "good_state es" "es_G es = Some s" "es_W es = Some wm" "built nodes ps s" "cache_ok s"
    and ac: "acyclic (set ps)" and w: "\<forall>n. wm_contains wm n \<longleftrightarrow> n \<in> set nodes" by (auto simp: live_def)
  have st: "rt_state rt = RS_RUNNING" "rt_pending_signals rt = []"
    "\<not> should_trigger_replan (rt_cost_forecaster rt) (rt_cost_budget rt)"
    "rt_replan_count rt < MAX_REPLANS_PER_EXECUTION (rt_config rt)"
    "rt_provider_mode rt = PM_DEV" "rt_module_dispatch_fn rt = Some f" "\<not> backpressure_active rt"
    using assms(1) by (auto simp: live_def)
  let ?obs = "observe (clk_observed clk) rt"
  have os: "obs_signals ?obs = []" using st(2) by (simp add: observe_def)
  obtain p md where ask: "ask_policy rule_policy_ops (clk_decide_latency clk) ?obs es rt =
      (if incomplete nodes wm = {} then TERMINATE else CONTINUE,
       rt\<lparr>rt_decision_policy := p, rt_last_policy_metadata := md\<rparr>)"
    and p: "rp_replan_count p < rp_max_replans p" "rp_resource_threshold p \<le> es_budget es"
    by (rule live_policy [OF assms(1) g(3) w os])
  obtain rs s' where r: "get_runnable s wm = (Inr rs, s')" "built nodes ps s'" "cache_ok s'"
    "get_runnable s' wm = (Inr rs, s')"
    "set rs = {n \<in> set nodes. \<not> is_complete wm n \<and> (\<forall>u. (u, n) \<in> set ps \<longrightarrow> is_complete wm u)}"
    by (rule runnable_cached [OF g(4) ac g(5)])
  obtain n where "n \<in> set nodes" "\<not> is_complete wm n" using assms(3) g(3) by (auto simp: incomplete_def)
  from runnable_progress [OF g(4) ac g(5) this] r(1) have ne: "rs \<noteq> []" by (metis fst_conv sum.inject(2))
  let ?rt = "rt\<lparr>rt_decision_policy := p, rt_last_policy_metadata := md\<rparr>" and ?es = "es\<lparr>es_G := Some s'\<rparr>"
  have q: "runnable_of es = (Inr rs, ?es)" using g r(1) by (simp add: runnable_of_def)
  have qg: "good_state ?es" by (rule runnable_of_good [OF g(1)]) (use q in simp)
  have d: "decide rule_policy_ops (clk_decide_latency clk) ?obs rt es = (Inr D_CONTINUE, ?rt, ?es)"
    using st ask q ne assms(3) g(3) by (simp add: decide_def observe_def)
  have "\<forall>m\<in>set rs. wm_contains wm m" using r(5) w by auto
  moreover have "es_W ?es = Some wm" using g by simp
  moreover have "rt_provider_mode ?rt = PM_DEV" "rt_module_dispatch_fn ?rt = Some f" "\<not> backpressure_active ?rt"
    using st by (simp_all add: backpressure_active_def)
  ultimately obtain es2 wm2 where a: "act_loop env ?rt rs ?es [] = (Inr rs, es2)" "good_state es2" "es_W es2 = Some wm2"
    "\<forall>j. is_complete wm2 j \<longleftrightarrow> j \<in> set rs \<or> is_complete wm j" "\<forall>j. wm_contains wm2 j \<longleftrightarrow> wm_contains wm j"
    "es_G es2 = Some s'" "es_budget es2 = es_budget es"
    using dispatch_loop_completes [OF _ _ assms(2) _ qg, of ?rt wm rs env "[]"] by auto
  have act: "act env clk D_CONTINUE ?rt ?es = (Inr rs, ?rt, es2)"
    using a(1) g r(4) by (simp add: act_def runnable_of_def)
  have "\<forall>n\<in>set rs. wm_contains wm2 n" using a(5) r(5) w by auto
  from step_ok [OF d act a(3) this] obtain times trace where
    s: "step rule_policy_ops env clk rt es =
        (None, ?rt\<lparr>rt_loop_iteration_times := times, rt_state := after_decision D_CONTINUE (rt_state ?rt),
                   rt_execution_trace := trace\<rparr>, es2)" by blast
  show ?thesis
  proof (rule that [OF s])
    show "live f nodes ps (?rt\<lparr>rt_loop_iteration_times := times, rt_state := after_decision D_CONTINUE (rt_state ?rt),
        rt_execution_trace := trace\<rparr>) es2"
      using assms(1) p a r(2,3) w by (auto simp: live_def after_decision_def backpressure_active_def)
    have "unfinished nodes es2 = unfinished nodes es - set rs" using a(3,4) g(3) by (auto simp: incomplete_def)
    moreover have "hd rs \<in> set rs" "set rs \<subseteq> unfinished nodes es" using ne r(5) g(3) by (auto simp: incomplete_def)
    ultimately show "unfinished nodes es2 \<subset> unfinished nodes es" by blast
  qed
qed

lemma finished_step:
  assumes "live f nodes ps rt es" and "unfinished nodes es = {}"
  obtains rt' where "step rule_policy_ops env clk rt es = (None, rt', es)" and "rt_state rt' = RS_TERMINATED"
proof -
  from assms(1) obtain s wm where g: "es_W es = Some wm" and w: "\<forall>n. wm_contains wm n \<longleftrightarrow> n \<in> set nodes"
    by (auto simp: live_def)
  have st: "rt_state rt = RS_RUNNING" "rt_pending_signals rt = []"
    "\<not> should_trigger_replan (rt_cost_forecaster rt) (rt_cost_budget rt)"
    "rt_replan_count rt < MAX_REPLANS_PER_EXECUTION (rt_config rt)"
    using assms(1) by (auto simp: live_def)
  let ?obs = "observe (clk_observed clk) rt"
  have os: "obs_signals ?obs = []" using st(2) by (simp add: observe_def)
  obtain p md where ask: "ask_policy rule_policy_ops (clk_decide_latency clk) ?obs es rt =
      (if incomplete nodes wm = {} then TERMINATE else CONTINUE,
       rt\<lparr>rt_decision_policy := p, rt_last_policy_metadata := md\<rparr>)"
    by (rule live_policy [OF assms(1) g w os])
  let ?rt = "rt\<lparr>rt_decision_policy := p, rt_last_policy_metadata := md\<rparr>"
  have d: "decide rule_policy_ops (clk_decide_latency clk) ?obs rt es = (Inr D_TERMINATE, ?rt, es)"
    using st ask assms(2) g by (simp add: decide_def)
  have a: "act env clk D_TERMINATE ?rt es = (Inr [], ?rt, es)" by (simp add: act_def)
  have "\<forall>n\<in>set []. wm_contains wm n" by simp
  then obtain times trace where s: "step rule_policy_ops env clk rt es =
      (None, ?rt\<lparr>rt_loop_iteration_times := times, rt_state := after_decision D_TERMINATE (rt_state ?rt),
                 rt_execution_trace := trace\<rparr>, es)" by (rule step_ok [OF d a g])
  show ?thesis by (rule that [OF s]) (simp add: after_decision_def)
qed

lemma terminated_run:
  "rt_state rt = RS_TERMINATED \<Longrightarrow>
   \<exists>rt'. run_calls ops env (map Step clks) (rt, es) = (None, rt', es) \<and> rt_state rt' = RS_TERMINATED"
proof (induction clks arbitrary: rt)
  case (Cons c clks)
  obtain x rt' es' where s: "step ops env c rt es = (x, rt', es')" by (metis prod_cases3)
  have "rt_state rt \<noteq> RS_RUNNING" using Cons.prems by simp
  from step_not_running [OF this s] Cons.IH [of rt'] s show ?case by auto
qed simp

lemma live_run:
  assumes "\<forall>m. \<exists>v. f m = Inr (Val v)"
  shows "live f nodes ps rt es \<Longrightarrow> card (unfinished nodes es) < length clks \<Longrightarrow>
    \<exists>rt' es'. run_calls rule_policy_ops env (map Step clks) (rt, es) = (None, rt', es')
      \<and> rt_state rt' = RS_TERMINATED \<and> unfinished nodes es' = {} \<and> es_W es' \<noteq> None"
proof (induction clks arbitrary: rt es)
  case (Cons c clks)
  show ?case
  proof (cases "unfinished nodes es = {}")
    case True
    obtain rt' where s: "step rule_policy_ops env c rt es = (None, rt', es)" "rt_state rt' = RS_TERMINATED"
      by (rule finished_step [OF Cons.prems(1) True])
    from terminated_run [OF s(2)] obtain rt'' where
      "run_calls rule_policy_ops env (map Step clks) (rt', es) = (None, rt'', es)" "rt_state rt'' = RS_TERMINATED" by blast
    with s True Cons.prems(1) show ?thesis by (auto simp: live_def)
  next
    case False
    obtain rt' es' where s: "step rule_policy_ops env c rt es = (None, rt', es')" "live f nodes ps rt' es'"
      "unfinished nodes es' \<subset> unfinished nodes es"
      by (rule live_step [OF Cons.prems(1) assms False])
    have "finite (unfinished nodes es)" by (simp add: incomplete_def)
    from psubset_card_mono [OF this s(3)] Cons.prems(2) have "card (unfinished nodes es') < length clks" by simp
    from Cons.IH [OF s(2) this] s(1) show ?thesis by simp
  qed
qed simp

lemma initiate_live:
  assumes "new_dnc_runtime (Some reg) cfg budget (default_policy cfg) tr = Inr rt0"
    and "1 / 10 \<le> budget" and "0 < MAX_ASYNC_PENDING cfg"
    and "initiate env eid now descr seed (set_dispatch_fn f rt0) = (Inr es, rt)" and "es_G es = Some s"
  obtains nodes ps where "live f nodes ps rt es" and "set (sched_nodes s) = set nodes"
    and "card (unfinished nodes es) \<le> length (sched_nodes s)"
proof -
  from assms(5) have G: "es_G es \<noteq> None" by simp
  note ig = initiate_good(1) [OF assms(4) G]
  have rt0: "rt_config rt0 = cfg" "rt_cost_budget rt0 = new_cost_budget budget" "rt_decision_policy rt0 = default_policy cfg"
    "rt_cost_forecaster rt0 = new_cost_forecaster" "rt_provider_mode rt0 = PM_DEV" "rt_pending_signals rt0 = []"
    "\<not> rt_critical_section rt0" "rt_async_pending rt0 = []" "rt_replan_count rt0 = 0" "1 \<le> MAX_REPLANS_PER_EXECUTION cfg"
    using assms(1) by (auto simp: new_dnc_runtime_def new_runtime_def validate_config_def split: sum.splits)
  from assms(4) G show ?thesis
  proof (rule initiate_cases)
    fix g s' wm trc
    assume p: "plan (env_uuid5 env) \<lparr>pt_task_description = descr, pt_available_modules = rt_registry (set_dispatch_fn f rt0),
                  pt_resource_budget = cb_remaining (rt_cost_budget (set_dispatch_fn f rt0))\<rparr> = Inr (Plan_success g)"
      and s: "set_graph (get_vertices g) (g_edges g) new_scheduler = (None, s')"
      and r: "register_nodes (get_vertices g) [] = (None, wm)"
      and es: "es = (initialize_from_seed seed (new_execution_state eid))
            \<lparr>es_W := Some wm, es_M := Some (mr_snapshot (rt_registry (set_dispatch_fn f rt0))),
             es_C := Some new_checkpoint_record, es_H := Some new_history,
             es_budget := cb_remaining (rt_cost_budget (set_dispatch_fn f rt0)), es_G := Some s'\<rparr>"
      and rt: "rt = set_dispatch_fn f rt0\<lparr>rt_execution_trace := trc, rt_state := RS_RUNNING, rt_current_graph := Some g\<rparr>"
    obtain ps where b: "built (get_vertices g) ps s'" "acyclic (set ps)" "cache_ok s'" by (rule set_graph_new [OF s])
    have "get_vertices g \<noteq> []" using plan_success [OF p] by (simp add: get_vertices_def)
    moreover have "\<not> should_trigger_replan new_cost_forecaster b'" for b'
      by (simp add: should_trigger_replan_def avg_step_cost_def new_cost_forecaster_def)
    ultimately have "live f (get_vertices g) ps rt es"
      using b ig rt0 assms(2,3) registered(1) [OF r]
      by (simp add: live_def es rt set_dispatch_fn_def backpressure_active_def default_policy_def new_rule_policy_def
          cb_remaining_def new_cost_budget_def wm_contains_def)
    moreover have n: "set (sched_nodes s) = set (get_vertices g)" using built_nodes [OF b(1)] assms(5) by (simp add: es)
    moreover have "card (unfinished (get_vertices g) es) \<le> length (sched_nodes s)"
    proof -
      have "unfinished (get_vertices g) es \<subseteq> set (sched_nodes s)" unfolding n by (auto simp: incomplete_def)
      then show ?thesis by (meson List.finite_set card_length card_mono le_trans)
    qed
    ultimately show ?thesis by (rule that)
  qed
qed

section \<open>A concrete execution\<close>

definition demo_env :: "nat run_env" where
  "demo_env = \<lparr>env_uuid5 = id, env_hash_order = (\<lambda>_. 0), env_str = (\<lambda>_. []), env_repr_size = (\<lambda>_. 0)\<rparr>"

definition demo_clock :: clock where
  "demo_clock = \<lparr>clk_observed = 0, clk_decide_latency = 0, clk_checkpoint = 0, clk_elapsed_ms = 1, clk_iso = ''t'',
     clk_fresh_uuid = ''u''\<rparr>"

definition demo_runtime :: "(nat rule_policy, nat) runtime" where
  "demo_runtime = projr (new_dnc_runtime (Some (pt_available_modules (demo_task [] 0))) default_latency_config 100
     (default_policy default_latency_config) True)"

definition demo_modules :: "mid \<Rightarrow> nat slot res" where
  "demo_modules m = Inr (Val 7)"

definition demo_start :: "nat execution_state res \<times> (nat rule_policy, nat) runtime" where
  "demo_start = initiate demo_env ''e'' ''t'' ''read write'' 0 (set_dispatch_fn demo_modules demo_runtime)"

definition demo_es :: "nat execution_state" where
  "demo_es = projr (fst demo_start)"

definition demo_rt :: "(nat rule_policy, nat) runtime" where
  "demo_rt = snd demo_start"

lemma demo_runtime_ok:
  "new_dnc_runtime (Some (pt_available_modules (demo_task [] 0))) default_latency_config 100
     (default_policy default_latency_config) True = Inr demo_runtime"
  by (simp add: demo_runtime_def new_dnc_runtime_def new_runtime_def validate_config_def default_latency_config_def)

lemma demo_started:
  "initiate demo_env ''e'' ''t'' ''read write'' 0 (set_dispatch_fn demo_modules demo_runtime) = (Inr demo_es, demo_rt)"
  "es_G demo_es \<noteq> None" "length (sched_nodes (the (es_G demo_es))) = 2"
  "rt_replan_count (set_dispatch_fn demo_modules demo_runtime)
     \<le> MAX_REPLANS_PER_EXECUTION (rt_config (set_dispatch_fn demo_modules demo_runtime))"
proof -
  have "isl (fst demo_start) = False" by code_simp
  then show "initiate demo_env ''e'' ''t'' ''read write'' 0 (set_dispatch_fn demo_modules demo_runtime) = (Inr demo_es, demo_rt)"
    unfolding demo_es_def demo_rt_def demo_start_def [symmetric] by (metis prod.collapse sum.collapse(2))
  have "(case es_G demo_es of None \<Rightarrow> False | Some s \<Rightarrow> length (s_in_degree s) = 2) = True" by code_simp
  then show "es_G demo_es \<noteq> None" "length (sched_nodes (the (es_G demo_es))) = 2" by (auto split: option.splits)
  show "rt_replan_count (set_dispatch_fn demo_modules demo_runtime)
     \<le> MAX_REPLANS_PER_EXECUTION (rt_config (set_dispatch_fn demo_modules demo_runtime))" by code_simp
qed

definition demo_calls :: "nat runtime_call list" where
  "demo_calls = [Step demo_clock, Critical True, Step demo_clock, Critical False]"

lemma demo_run_ok:
  obtains rt es where "run_calls rule_policy_ops demo_env demo_calls (demo_rt, demo_es) = (None, rt, es)"
proof -
  have "(fst (run_calls rule_policy_ops demo_env demo_calls (demo_rt, demo_es)) = None) = True" by code_simp
  then show ?thesis by (metis prod.collapse that)
qed

section \<open>Properties\<close>

text \<open>
  C17: The control loop keeps the runtime invariants: after a successful start, whatever the decision
  policy, the modules and the client do, a sequence of calls that raises nothing ends in a state
  that passes all invariant checks, in which every node of the graph is registered in the
  working memory, and with no more replans than the configuration allows.
\<close>

theorem runtime_keeps_invariants:
  assumes "initiate env eid now descr seed rt = (Inr es, rt1)" and "es_G es \<noteq> None"
    and "rt_replan_count rt \<le> MAX_REPLANS_PER_EXECUTION (rt_config rt)"
    and "run_calls ops env cs (rt1, es) = (None, rt2, es2)"
  shows "check_invariants es2 = Inr ()
    \<and> (\<exists>s wm. es_G es2 = Some s \<and> es_W es2 = Some wm \<and> (\<forall>n\<in>set (sched_nodes s). wm_contains wm n))
    \<and> rt_replan_count rt \<le> rt_replan_count rt2
    \<and> rt_replan_count rt2 \<le> MAX_REPLANS_PER_EXECUTION (rt_config rt)"
proof -
  note i = initiate_good [OF assms(1,2)]
  have "conf_ok (rt1, es)" using i assms(3) by (simp add: conf_ok_def)
  from loop.run_keeps [OF this assms(4)] have c: "conf_ok (rt2, es2)" "conf_ext (rt1, es) (rt2, es2)" by auto
  then have "core_ok es2" using good_core by (auto simp: conf_ok_def)
  moreover from this obtain wm cr s where "es_W es2 = Some wm" "es_G es2 = Some s" "dag_over s wm"
    by (rule core_ok_fields)
  ultimately show ?thesis
    using c i dag_over_check(2) [of s wm] core_ok_check by (auto simp: conf_ok_def conf_ext_def)
qed

theorem runtime_keeps_invariants_witness:
  "\<exists>rt es. run_calls rule_policy_ops demo_env demo_calls (demo_rt, demo_es) = (None, rt, es) \<and> check_invariants es = Inr ()"
proof -
  obtain rt es where "run_calls rule_policy_ops demo_env demo_calls (demo_rt, demo_es) = (None, rt, es)" by (rule demo_run_ok)
  with runtime_keeps_invariants [OF demo_started(1,2,4) this] show ?thesis by blast
qed

text \<open>
  C19: Rolling back undoes a replan: in every state the loop reaches, right after a replan, whether it
  found a plan or not, rolling back to the latest checkpoint restores the execution state as it
  was before, except for the remaining budget, which comes back as 1.0.
\<close>

theorem rollback_undoes_replan:
  assumes "initiate env eid now descr seed rt = (Inr es, rt1)" and "es_G es \<noteq> None"
    and "rt_replan_count rt \<le> MAX_REPLANS_PER_EXECUTION (rt_config rt)"
    and "run_calls ops env cs (rt1, es) = (None, rt2, es2)"
    and "execute_replan env t rt2 es2 = (Inr ns, rt3, es3)" and "rt_replan_count rt3 \<noteq> rt_replan_count rt2"
  shows "rollback_to_checkpoint fresh es3 = (Inr True, es2\<lparr>es_budget := 1\<rparr>)"
proof -
  have "conf_ok (rt1, es)" using initiate_good [OF assms(1,2)] assms(3) by (simp add: conf_ok_def)
  from loop.run_keeps [OF this assms(4)] have "good_state es2" by (simp add: conf_ok_def)
  from replan_then_rollback [OF this assms(5,6)] show ?thesis .
qed

theorem rollback_undoes_replan_witness:
  "\<exists>ns rt es. execute_replan demo_env 0 demo_rt demo_es = (Inr ns, rt, es)
     \<and> rollback_to_checkpoint ''u'' es = (Inr True, demo_es\<lparr>es_budget := 1\<rparr>)"
proof -
  have "(case execute_replan demo_env 0 demo_rt demo_es of (r, rt, es) \<Rightarrow>
      \<not> isl r \<and> rt_replan_count rt \<noteq> rt_replan_count demo_rt) = True" by code_simp
  moreover obtain x rt es where x: "execute_replan demo_env 0 demo_rt demo_es = (x, rt, es)" by (rule prod_cases3)
  ultimately have n: "\<not> isl x" "rt_replan_count rt \<noteq> rt_replan_count demo_rt" by simp_all
  then obtain ns where "x = Inr ns" by (cases x) simp_all
  with x n(2) have r: "execute_replan demo_env 0 demo_rt demo_es = (Inr ns, rt, es)"
    "rt_replan_count rt \<noteq> rt_replan_count demo_rt" by simp_all
  have "run_calls rule_policy_ops demo_env [] (demo_rt, demo_es) = (None, demo_rt, demo_es)" by simp
  from rollback_undoes_replan [OF demo_started(1,2,4) this r] r(1) show ?thesis by blast
qed

text \<open>
  Final states are final: in a runtime that is not running, an iteration changes nothing of the
  execution state, asks the policy nothing, raises nothing, and leaves the runtime terminated.
  This includes a paused runtime, which an iteration before \<open>resume\<close> terminates.
\<close>

theorem not_running_is_final:
  assumes "rt_state rt \<noteq> RS_RUNNING" and "step ops env clk rt es = (x, rt', es')"
  shows "x = None \<and> es' = es \<and> rt_state rt' = RS_TERMINATED \<and> rt_decision_policy rt' = rt_decision_policy rt
    \<and> rt_replan_count rt' = rt_replan_count rt \<and> rt_state (resume rt') = RS_TERMINATED"
  using assms by (rule step_not_running)

theorem not_running_is_final_witness:
  "snd (snd (step rule_policy_ops demo_env demo_clock (demo_rt\<lparr>rt_state := RS_IDLE\<rparr>) demo_es)) = demo_es
   \<and> rt_state (fst (snd (step rule_policy_ops demo_env demo_clock (demo_rt\<lparr>rt_state := RS_IDLE\<rparr>) demo_es))) = RS_TERMINATED"
proof -
  obtain x rt es where s: "step rule_policy_ops demo_env demo_clock (demo_rt\<lparr>rt_state := RS_IDLE\<rparr>) demo_es = (x, rt, es)"
    by (rule prod_cases3)
  have "rt_state (demo_rt\<lparr>rt_state := RS_IDLE\<rparr>) \<noteq> RS_RUNNING" by simp
  from not_running_is_final [OF this s] s show ?thesis by simp
qed

text \<open>
  C18: Runs complete: a new runtime with the default rule policy, a positive limit of pending modules
  (\<open>MAX_ASYNC_PENDING\<close>) and a budget above the policy's threshold, whose modules all return a
  value, runs a planned task to its end. With more
  iterations than the graph has nodes, nothing raises, every module is complete and the runtime
  is terminated.
\<close>

theorem runtime_completes:
  assumes "new_dnc_runtime (Some reg) cfg budget (default_policy cfg) tr = Inr rt0"
    and "1 / 10 \<le> budget" and "0 < MAX_ASYNC_PENDING cfg" and "\<forall>m. \<exists>v. f m = Inr (Val v)"
    and "initiate env eid now descr seed (set_dispatch_fn f rt0) = (Inr es, rt)" and "es_G es = Some s"
    and "length (sched_nodes s) < length clks"
  shows "\<exists>rt' es' wm. run_calls rule_policy_ops env (map Step clks) (rt, es) = (None, rt', es')
    \<and> rt_state rt' = RS_TERMINATED \<and> es_W es' = Some wm \<and> filter (\<lambda>n. \<not> is_complete wm n) (sched_nodes s) = []"
proof -
  obtain nodes ps where l: "live f nodes ps rt es" "set (sched_nodes s) = set nodes"
    "card (unfinished nodes es) \<le> length (sched_nodes s)"
    by (rule initiate_live [OF assms(1-3,5,6)])
  have "card (unfinished nodes es) < length clks" using l(3) assms(7) by simp
  from live_run [OF assms(4) l(1) this, of env] obtain rt' es' where
    "run_calls rule_policy_ops env (map Step clks) (rt, es) = (None, rt', es')" "rt_state rt' = RS_TERMINATED"
    "unfinished nodes es' = {}" "es_W es' \<noteq> None" by blast
  then show ?thesis using l(2) by (auto simp: incomplete_def filter_empty_conv)
qed

theorem runtime_completes_witness:
  "\<exists>rt es wm. run_calls rule_policy_ops demo_env (map Step (replicate 3 demo_clock)) (demo_rt, demo_es) = (None, rt, es)
     \<and> rt_state rt = RS_TERMINATED \<and> es_W es = Some wm
     \<and> filter (\<lambda>n. \<not> is_complete wm n) (sched_nodes (the (es_G demo_es))) = []"
proof -
  have G: "es_G demo_es = Some (the (es_G demo_es))" using demo_started(2) by simp
  show ?thesis
    by (rule runtime_completes [OF demo_runtime_ok _ _ _ demo_started(1) G])
      (simp_all add: default_latency_config_def demo_modules_def demo_started(3) [simplified])
qed

text \<open>
  The trace of an iteration that replans lists the newly registered modules as invoked and their
  outputs as bound, although nothing has run and the outputs are unbound.
\<close>

theorem replan_traced_as_invocation:
  "(case step rule_policy_ops demo_env demo_clock demo_rt (demo_es\<lparr>es_budget := 0\<rparr>) of (x, rt, es) \<Rightarrow>
      x = None \<and> rt_replan_count rt = 1
      \<and> map (\<lambda>r. map mi_recorded_output (er_module_invocations r)) (et_execution_record (the (rt_execution_trace rt))) = [[UNBOUND]]
      \<and> map (\<lambda>r. map sm_mutation_type (er_state_mutations r)) (et_execution_record (the (rt_execution_trace rt)))
        = [[''OUTPUT_BOUND'']])"
  by code_simp

text \<open>
  A replan that comes back to a module instance of an earlier graph raises: the instance is still
  registered in the working memory. Here a first replan leaves the graph of module \<open>A\<close>, a second
  one, with less budget, returns to it.
\<close>

theorem replan_back_raises:
  "(case initiate demo_env ''e'' ''t'' ''read'' 0 (set_dispatch_fn demo_modules demo_runtime) of
      (Inr es, rt) \<Rightarrow>
        (case execute_replan demo_env 0 rt es of
           (Inr _, rt1, es1) \<Rightarrow>
             (case execute_replan demo_env 0
                (rt1\<lparr>rt_cost_budget := snd (charge (new_instance_id id ''B'' 0) 96 (rt_cost_budget rt1))\<rparr>) es1 of
                (Inl (ValueError _), rt2, es2) \<Rightarrow> rt_replan_count rt2 = 2
              | _ \<Rightarrow> False)
         | _ \<Rightarrow> False)
    | _ \<Rightarrow> False)"
  by code_simp

end
