(* ===== verification/Artifact_Registry.thy ===== *)
theory Artifact_Registry
  imports Serialization Object_Store
begin

text \<open>
  The tenant-scoped registries of artifacts and graphs (\<open>registry.py\<close>) over the object store, the
  serialiser and the validator. Bytes are strings of code points below 256. SHA-256 and the text
  layer (\<open>json.dumps\<close> with sorted keys, UTF-8 and \<open>json.loads\<close>) are parameters. A registration that
  raises after the object was stored leaves it in the store, so the operations return the
  registry in every case. The locks make the methods atomic.
\<close>

declare map_of_eq_Some_iff [simp del] Some_eq_map_of_iff [simp del]

record json_env =
  je_sha :: "string \<Rightarrow> string"
  je_dumps :: "pyval \<Rightarrow> string res"
  je_encode :: "string \<Rightarrow> string"
  je_decode :: "string \<Rightarrow> string option"
  je_loads :: "string \<Rightarrow> pyval res"

text \<open>\<open>except (TypeError, ValueError)\<close> that raises a validation error instead.\<close>

fun data_error :: "exc \<Rightarrow> bool" where
  "data_error (TypeError _) = True"
| "data_error (ValueError _) = True"
| "data_error _ = False"

fun payload_error :: "exc \<Rightarrow> bool" where
  "payload_error (DNCValidationError _) = True"
| "payload_error e = data_error e"

definition reraise :: "(exc \<Rightarrow> bool) \<Rightarrow> string \<Rightarrow> exc \<Rightarrow> exc" where
  "reraise P msg e = (if P e then DNCValidationError msg else e)"

section \<open>References and validation\<close>

definition is_hex :: "char \<Rightarrow> bool" where
  "is_hex c \<longleftrightarrow> c \<in> set ''0123456789abcdef''"

definition hex_digest :: "string \<Rightarrow> bool" where
  "hex_digest s \<longleftrightarrow> length s = 64 \<and> list_all is_hex s"

definition content_ref_ok :: "string \<Rightarrow> bool" where
  "content_ref_ok s \<longleftrightarrow> take 7 s = ''sha256:'' \<and> hex_digest (drop 7 s)"

definition validate_tenant :: "string \<Rightarrow> string res" where
  "validate_tenant tenant =
     require (normalized tenant) (DNCValidationError ''tenant_id MUST be normalized and non-empty'') (Inr tenant)"

definition validate_content_ref :: "string \<Rightarrow> string res" where
  "validate_content_ref ref =
     require (content_ref_ok ref) (DNCValidationError ''content_ref MUST be a lowercase sha256:<digest> reference'') (Inr ref)"

definition ref_digest :: "string \<Rightarrow> string res" where
  "ref_digest ref = (case validate_content_ref ref of Inl e \<Rightarrow> Inl e | Inr r \<Rightarrow> Inr (drop 7 r))"

definition validate_tenant_context :: "string \<Rightarrow> execution_context option \<Rightarrow> string res" where
  "validate_tenant_context tenant ctx =
     (case validate_tenant tenant of
        Inl e \<Rightarrow> Inl e
      | Inr t \<Rightarrow>
          require (case ctx of None \<Rightarrow> True | Some c \<Rightarrow> ctx_tenant_id c = t)
            (DNCPolicyError ''execution context tenant does not match registry tenant'') (Inr t))"

fun intercalate :: "string \<Rightarrow> string list \<Rightarrow> string" where
  "intercalate sep [] = []"
| "intercalate sep [x] = x"
| "intercalate sep (x # xs) = x @ sep @ intercalate sep xs"

definition validation_message :: "string \<Rightarrow> validation_result \<Rightarrow> string" where
  "validation_message label r =
     ''invalid '' @ label @ '': '' @ intercalate ''; '' (map (\<lambda>i. err_code i @ '': '' @ err_message i) (errors r))"

definition admit_graph :: "structural_graph \<Rightarrow> execution_context option \<Rightarrow> unit res" where
  "admit_graph g ctx =
     require (is_valid (validate_graph g)) (DNCValidationError (validation_message ''graph'' (validate_graph g)))
     (require (\<not> (list_ex (\<lambda>(uid, u). requires_execution_context (contract u)) (units g) \<and> ctx = None))
        (DNCPolicyError ''governed graph registration and load require an ExecutionContext'')
     (case ctx of
        None \<Rightarrow> Inr ()
      | Some c \<Rightarrow>
          require (is_valid (validate_execution_context g c))
            (DNCPolicyError (validation_message ''execution context'' (validate_execution_context g c)))
          (Inr ())))"

text \<open>\<open>_validate_metadata\<close>: the metadata as JSON text and back; an empty or missing dictionary counts as empty.\<close>

definition validate_metadata :: "json_env \<Rightarrow> (string, pyval) dict \<Rightarrow> (string, pyval) dict res" where
  "validate_metadata env md =
     (case je_dumps env (PDict md) of
        Inl e \<Rightarrow> Inl (reraise data_error ''artifact metadata MUST be finite JSON data'' e)
      | Inr text \<Rightarrow>
          (case je_loads env text of
             Inl e \<Rightarrow> Inl e
           | Inr (PDict d) \<Rightarrow> Inr d
           | Inr _ \<Rightarrow> Inl (DNCValidationError ''artifact metadata MUST be an object'')))"

section \<open>The artifact registry\<close>

record artifact_record =
  ar_content_ref :: string
  ar_tenant_id :: string
  ar_media_type :: string
  ar_size_bytes :: nat
  ar_metadata :: "(string, pyval) dict"

record artifact_registry =
  areg_store :: "string object_store"
  areg_records :: "(string \<times> string, artifact_record) dict"

definition empty_artifact_registry :: artifact_registry where
  "empty_artifact_registry = \<lparr>areg_store = [], areg_records = []\<rparr>"

definition artifact_record_eq :: "artifact_record \<Rightarrow> artifact_record \<Rightarrow> bool" where
  "artifact_record_eq a b \<longleftrightarrow> ar_content_ref a = ar_content_ref b \<and> ar_tenant_id a = ar_tenant_id b
     \<and> ar_media_type a = ar_media_type b \<and> ar_size_bytes a = ar_size_bytes b
     \<and> py_eq (PDict (ar_metadata a)) (PDict (ar_metadata b))"

definition artifact_register ::
  "json_env \<Rightarrow> string \<Rightarrow> string \<Rightarrow> string \<Rightarrow> (string, pyval) dict \<Rightarrow> artifact_registry
   \<Rightarrow> artifact_record res \<times> artifact_registry" where
  "artifact_register env bytes tenant media_type md reg =
     (case validate_tenant tenant of
        Inl e \<Rightarrow> (Inl e, reg)
      | Inr t \<Rightarrow>
          if \<not> normalized media_type
          then (Inl (DNCValidationError ''artifact media_type MUST be normalized and non-empty''), reg)
          else case validate_metadata env md of
            Inl e \<Rightarrow> (Inl e, reg)
          | Inr descr \<Rightarrow>
              (case os_put (je_sha env) bytes t (areg_store reg) of (digest, store) \<Rightarrow>
                 (let reg1 = reg\<lparr>areg_store := store\<rparr> in
                  case validate_content_ref (''sha256:'' @ digest) of
                    Inl e \<Rightarrow> (Inl e, reg1)
                  | Inr ref \<Rightarrow>
                      (let rec = \<lparr>ar_content_ref = ref, ar_tenant_id = t, ar_media_type = media_type,
                                  ar_size_bytes = length bytes, ar_metadata = descr\<rparr>;
                           conflict = (case map_of (areg_records reg1) (t, ref) of
                                         None \<Rightarrow> False | Some prev \<Rightarrow> \<not> artifact_record_eq prev rec)
                       in if conflict
                          then (Inl (DNCValidationError ''artifact content is already registered with a conflicting descriptor''), reg1)
                          else (Inr rec, reg1\<lparr>areg_records := dict_set (t, ref) rec (areg_records reg1)\<rparr>)))))"

definition artifact_lookup :: "string \<Rightarrow> string \<Rightarrow> artifact_registry \<Rightarrow> artifact_record res" where
  "artifact_lookup ref tenant reg =
     (case validate_tenant tenant of
        Inl e \<Rightarrow> Inl e
      | Inr t \<Rightarrow>
          (case validate_content_ref ref of
             Inl e \<Rightarrow> Inl e
           | Inr r \<Rightarrow>
               (case map_of (areg_records reg) (t, r) of
                  None \<Rightarrow> Inl (KeyError ''unknown tenant-scoped artifact'')
                | Some rec \<Rightarrow> Inr rec)))"

definition artifact_get :: "json_env \<Rightarrow> string \<Rightarrow> string \<Rightarrow> artifact_registry \<Rightarrow> string res" where
  "artifact_get env ref tenant reg =
     (case artifact_lookup ref tenant reg of
        Inl e \<Rightarrow> Inl e
      | Inr rec \<Rightarrow>
          (case ref_digest (ar_content_ref rec) of
             Inl e \<Rightarrow> Inl e
           | Inr digest \<Rightarrow>
               (case os_get (je_sha env) digest (ar_tenant_id rec) (areg_store reg) of
                  Inl e \<Rightarrow> Inl e
                | Inr bytes \<Rightarrow>
                    require (length bytes = ar_size_bytes rec)
                      (DNCValidationError ''artifact descriptor size does not match stored content'') (Inr bytes))))"

definition artifact_all :: "string \<Rightarrow> artifact_registry \<Rightarrow> artifact_record list res" where
  "artifact_all tenant reg =
     (case validate_tenant tenant of
        Inl e \<Rightarrow> Inl e
      | Inr t \<Rightarrow> Inr (map snd (filter (\<lambda>(k, _). fst k = t) (sort_key fst (areg_records reg)))))"

section \<open>The graph registry\<close>

record graph_record =
  gr_content_ref :: string
  gr_tenant_id :: string
  gr_graph_id :: string
  gr_graph_version :: string
  gr_schema_id :: string
  gr_schema_version :: string
  gr_unit_count :: nat
  gr_edge_count :: nat

record graph_registry =
  greg_store :: "string object_store"
  greg_records :: "(string \<times> string, graph_record) dict"

definition empty_graph_registry :: graph_registry where
  "empty_graph_registry = \<lparr>greg_store = [], greg_records = []\<rparr>"

definition show_graph_version :: "graph_version \<Rightarrow> string" where
  "show_graph_version v = ''v'' @ show_nat (major v) @ ''.'' @ show_nat (minor v) @ ''.'' @ show_nat (patch v)
     @ ''-'' @ show_nat (sequence v)"

definition describe_graph :: "string \<Rightarrow> string \<Rightarrow> structural_graph \<Rightarrow> graph_record" where
  "describe_graph ref tenant g =
     \<lparr>gr_content_ref = ref, gr_tenant_id = tenant, gr_graph_id = gid_value (graph_id g),
      gr_graph_version = show_graph_version (version g), gr_schema_id = schema_id_const,
      gr_schema_version = schema_version_const, gr_unit_count = length (units g), gr_edge_count = length (edges g)\<rparr>"

text \<open>\<open>DNWIRSerializer.from_json\<close> on decoded bytes; bytes that are not UTF-8 raise a \<open>ValueError\<close>.\<close>

definition from_json :: "json_env \<Rightarrow> string \<Rightarrow> structural_graph res" where
  "from_json env text =
     (case je_loads env text of
        Inl e \<Rightarrow> Inl (reraise data_error ''DNC-IR payload MUST be valid JSON'' e)
      | Inr d \<Rightarrow> from_doc d)"

definition from_payload :: "json_env \<Rightarrow> string \<Rightarrow> structural_graph res" where
  "from_payload env bytes =
     (case je_decode env bytes of None \<Rightarrow> Inl (ValueError ''utf-8'') | Some text \<Rightarrow> from_json env text)"

definition graph_payload :: "json_env \<Rightarrow> structural_graph \<Rightarrow> string res" where
  "graph_payload env g =
     (case je_dumps env (to_doc g) of
        Inl e \<Rightarrow> Inl (reraise data_error ''graph document MUST contain finite JSON data'' e)
      | Inr text \<Rightarrow> Inr (je_encode env text))"

text \<open>What registration checks before it stores anything: the payload and the graph read back from it.\<close>

definition graph_admission ::
  "json_env \<Rightarrow> structural_graph \<Rightarrow> execution_context option \<Rightarrow> (string \<times> structural_graph) res" where
  "graph_admission env g ctx =
     (case admit_graph g ctx of
        Inl e \<Rightarrow> Inl e
      | Inr _ \<Rightarrow>
          (case graph_payload env g of
             Inl e \<Rightarrow> Inl e
           | Inr payload \<Rightarrow>
               (case from_payload env payload of
                  Inl e \<Rightarrow> Inl e
                | Inr h \<Rightarrow> (case admit_graph h ctx of Inl e \<Rightarrow> Inl e | Inr _ \<Rightarrow> Inr (payload, h)))))"

definition graph_register ::
  "json_env \<Rightarrow> structural_graph \<Rightarrow> string \<Rightarrow> execution_context option \<Rightarrow> graph_registry
   \<Rightarrow> graph_record res \<times> graph_registry" where
  "graph_register env g tenant ctx reg =
     (case validate_tenant_context tenant ctx of
        Inl e \<Rightarrow> (Inl e, reg)
      | Inr t \<Rightarrow>
          (case graph_admission env g ctx of
             Inl e \<Rightarrow> (Inl e, reg)
           | Inr (payload, h) \<Rightarrow>
               (case os_put (je_sha env) payload t (greg_store reg) of (digest, store) \<Rightarrow>
                  (let reg1 = reg\<lparr>greg_store := store\<rparr> in
                   case validate_content_ref (''sha256:'' @ digest) of
                     Inl e \<Rightarrow> (Inl e, reg1)
                   | Inr ref \<Rightarrow>
                       (let rec = describe_graph ref t h;
                            conflict = (case map_of (greg_records reg1) (t, ref) of None \<Rightarrow> False | Some prev \<Rightarrow> prev \<noteq> rec)
                        in if conflict
                           then (Inl (DNCValidationError ''graph content conflicts with its registered descriptor''), reg1)
                           else (Inr rec, reg1\<lparr>greg_records := dict_set (t, ref) rec (greg_records reg1)\<rparr>))))))"

definition graph_lookup :: "string \<Rightarrow> string \<Rightarrow> graph_registry \<Rightarrow> graph_record res" where
  "graph_lookup ref tenant reg =
     (case validate_tenant tenant of
        Inl e \<Rightarrow> Inl e
      | Inr t \<Rightarrow>
          (case validate_content_ref ref of
             Inl e \<Rightarrow> Inl e
           | Inr r \<Rightarrow>
               (case map_of (greg_records reg) (t, r) of
                  None \<Rightarrow> Inl (KeyError ''unknown tenant-scoped graph'')
                | Some rec \<Rightarrow> Inr rec)))"

definition graph_load ::
  "json_env \<Rightarrow> string \<Rightarrow> string \<Rightarrow> execution_context option \<Rightarrow> graph_registry \<Rightarrow> structural_graph res" where
  "graph_load env ref tenant ctx reg =
     (case validate_tenant_context tenant ctx of
        Inl e \<Rightarrow> Inl e
      | Inr t \<Rightarrow>
          (case graph_lookup ref t reg of
             Inl e \<Rightarrow> Inl e
           | Inr rec \<Rightarrow>
               (case ref_digest (gr_content_ref rec) of Inl e \<Rightarrow> Inl e | Inr digest \<Rightarrow>
               (case os_get (je_sha env) digest t (greg_store reg) of
                  Inl e \<Rightarrow> Inl e
                | Inr payload \<Rightarrow>
                    (case je_decode env payload of
                       None \<Rightarrow> Inl (DNCValidationError ''registered graph MUST be UTF-8 JSON'')
                     | Some text \<Rightarrow>
                         (case from_json env text of
                            Inl e \<Rightarrow> Inl (reraise payload_error ''registered graph MUST be valid DNC-IR JSON'' e)
                          | Inr h \<Rightarrow>
                              (case admit_graph h ctx of
                                 Inl e \<Rightarrow> Inl e
                               | Inr _ \<Rightarrow>
                                   require (describe_graph (gr_content_ref rec) t h = rec)
                                     (DNCValidationError ''registered graph descriptor does not match stored content'')
                                     (Inr h))))))))"

definition graph_all :: "string \<Rightarrow> graph_registry \<Rightarrow> graph_record list res" where
  "graph_all tenant reg =
     (case validate_tenant tenant of
        Inl e \<Rightarrow> Inl e
      | Inr t \<Rightarrow> Inr (map snd (filter (\<lambda>(k, _). fst k = t) (sort_key fst (greg_records reg)))))"

section \<open>What other calls leave in place\<close>

text \<open>
  The calls on a registry and on the object store behind it, which other parts of the system may
  share. A call is harmless for a stored object if it stores nothing else under its digest.
\<close>

datatype graph_registry_call =
    Register_graph structural_graph string "execution_context option"
  | Graph_store "string store_call"

fun graph_registry_step :: "json_env \<Rightarrow> graph_registry \<Rightarrow> graph_registry_call \<Rightarrow> graph_registry" where
  "graph_registry_step env reg (Register_graph g tenant ctx) = snd (graph_register env g tenant ctx reg)"
| "graph_registry_step env reg (Graph_store c) = reg\<lparr>greg_store := store_step (je_sha env) (greg_store reg) c\<rparr>"

datatype artifact_registry_call =
    Register_artifact string string string "(string, pyval) dict"
  | Artifact_store "string store_call"

fun artifact_registry_step :: "json_env \<Rightarrow> artifact_registry \<Rightarrow> artifact_registry_call \<Rightarrow> artifact_registry" where
  "artifact_registry_step env reg (Register_artifact bytes tenant mt md) = snd (artifact_register env bytes tenant mt md reg)"
| "artifact_registry_step env reg (Artifact_store c) = reg\<lparr>areg_store := store_step (je_sha env) (areg_store reg) c\<rparr>"

fun store_harmless :: "(string \<Rightarrow> string) \<Rightarrow> string \<Rightarrow> string \<Rightarrow> string store_call \<Rightarrow> bool" where
  "store_harmless sha tenant bytes (Put other t) \<longleftrightarrow> (t = tenant \<and> sha other = sha bytes \<longrightarrow> other = bytes)"
| "store_harmless sha tenant bytes (Corrupt digest t other) \<longleftrightarrow> (t = tenant \<and> digest = sha bytes \<longrightarrow> other = bytes)"

fun graph_harmless :: "json_env \<Rightarrow> string \<Rightarrow> string \<Rightarrow> graph_registry_call \<Rightarrow> bool" where
  "graph_harmless env tenant bytes (Register_graph g t ctx) \<longleftrightarrow>
     (case graph_payload env g of Inl _ \<Rightarrow> True | Inr p \<Rightarrow> t = tenant \<and> je_sha env p = je_sha env bytes \<longrightarrow> p = bytes)"
| "graph_harmless env tenant bytes (Graph_store c) \<longleftrightarrow> store_harmless (je_sha env) tenant bytes c"

fun artifact_harmless :: "json_env \<Rightarrow> string \<Rightarrow> string \<Rightarrow> artifact_registry_call \<Rightarrow> bool" where
  "artifact_harmless env tenant bytes (Register_artifact other t mt md) \<longleftrightarrow>
     (t = tenant \<and> je_sha env other = je_sha env bytes \<longrightarrow> other = bytes)"
| "artifact_harmless env tenant bytes (Artifact_store c) \<longleftrightarrow> store_harmless (je_sha env) tenant bytes c"

lemma store_step_keeps:
  "map_of s (tenant, sha bytes) = Some bytes \<Longrightarrow> store_harmless sha tenant bytes c
   \<Longrightarrow> map_of (store_step sha s c) (tenant, sha bytes) = Some bytes"
  by (cases c) (auto simp: os_put_def corrupt_for_test_def)

lemma validate_tenant_Inr: "validate_tenant t = Inr u \<longleftrightarrow> u = t \<and> normalized t"
  by (auto simp: validate_tenant_def)

lemma validate_tenant_context_Inr:
  "validate_tenant_context t ctx = Inr u \<longleftrightarrow> u = t \<and> normalized t \<and> (\<forall>c. ctx = Some c \<longrightarrow> ctx_tenant_id c = t)"
  by (auto simp: validate_tenant_context_def validate_tenant_def split: sum.splits option.splits)

lemma validate_content_ref_Inr: "validate_content_ref r = Inr u \<longleftrightarrow> u = r \<and> content_ref_ok r"
  by (auto simp: validate_content_ref_def)

lemma graph_register_cases:
  obtains (Refused) e where "graph_register env g tenant ctx reg = (Inl e, reg)"
  | (Stored) p h x where "graph_admission env g ctx = Inr (p, h)" and "normalized tenant"
      and "validate_tenant_context tenant ctx = Inr tenant"
      and "graph_register env g tenant ctx reg =
        (x, reg\<lparr>greg_store := dict_set (tenant, je_sha env p) p (greg_store reg),
               greg_records := (case x of Inl _ \<Rightarrow> greg_records reg
                  | Inr rec \<Rightarrow> dict_set (tenant, gr_content_ref rec) rec (greg_records reg))\<rparr>)"
      and "(\<exists>e. x = Inl e) \<or> (x = Inr (describe_graph (''sha256:'' @ je_sha env p) tenant h)
            \<and> content_ref_ok (''sha256:'' @ je_sha env p)
            \<and> map_of (greg_records reg) (tenant, ''sha256:'' @ je_sha env p)
                \<in> {None, Some (describe_graph (''sha256:'' @ je_sha env p) tenant h)})"
proof (cases "validate_tenant_context tenant ctx")
  case (Inl e)
  then show ?thesis by (intro Refused) (simp add: graph_register_def)
next
  case t: (Inr u)
  then have u: "u = tenant" "normalized tenant" by (auto simp: validate_tenant_context_Inr)
  show ?thesis
  proof (cases "graph_admission env g ctx")
    case (Inl e)
    with t show ?thesis by (intro Refused) (simp add: graph_register_def)
  next
    case (Inr ph)
    obtain p h where ph: "ph = (p, h)" by (cases ph)
    let ?x = "fst (graph_register env g tenant ctx reg)"
    have dg: "gr_content_ref (describe_graph r u' h') = r" for r u' h' by (simp add: describe_graph_def)
    show ?thesis
      by (rule Stored [of p h ?x])
        (use t u Inr ph in \<open>auto simp: graph_register_def os_put_def Let_def validate_content_ref_def require_def dg
            split: sum.splits option.splits if_splits\<close>)
  qed
qed

definition graph_kept :: "json_env \<Rightarrow> string \<Rightarrow> string \<Rightarrow> graph_record \<Rightarrow> graph_registry \<Rightarrow> bool" where
  "graph_kept env tenant payload rec reg \<longleftrightarrow>
     map_of (greg_store reg) (tenant, je_sha env payload) = Some payload
     \<and> map_of (greg_records reg) (tenant, gr_content_ref rec) = Some rec"

lemma graph_register_keeps:
  assumes "graph_kept env tenant payload rec reg" and "graph_harmless env tenant payload (Register_graph g t ctx)"
  shows "graph_kept env tenant payload rec (snd (graph_register env g t ctx reg))"
proof (cases rule: graph_register_cases [of env g t ctx reg])
  case (Refused e)
  with assms show ?thesis by simp
next
  case (Stored p h x)
  from Stored(1) have p: "graph_payload env g = Inr p" by (auto simp: graph_admission_def split: sum.splits)
  have "gr_content_ref (describe_graph r u' h') = r" for r u' h' by (simp add: describe_graph_def)
  with Stored(4,5) assms p show ?thesis by (auto simp: graph_kept_def)
qed

interpretation graphs: guarded_machine "graph_registry_step env" "graph_harmless env tenant payload"
  "graph_kept env tenant payload rec" for env tenant payload rec
proof
  fix reg c
  assume k: "graph_kept env tenant payload rec reg" and h: "graph_harmless env tenant payload c"
  show "graph_kept env tenant payload rec (graph_registry_step env reg c)"
  proof (cases c)
    case (Register_graph g t ctx)
    with k h graph_register_keeps show ?thesis by simp
  next
    case (Graph_store sc)
    with k h store_step_keeps [of "greg_store reg" tenant "je_sha env" payload sc] show ?thesis
      by (simp add: graph_kept_def)
  qed
qed

definition artifact_kept :: "json_env \<Rightarrow> string \<Rightarrow> string \<Rightarrow> artifact_registry \<Rightarrow> bool" where
  "artifact_kept env tenant bytes reg \<longleftrightarrow>
     map_of (areg_store reg) (tenant, je_sha env bytes) = Some bytes
     \<and> (\<exists>rec. map_of (areg_records reg) (tenant, ''sha256:'' @ je_sha env bytes) = Some rec
          \<and> ar_content_ref rec = ''sha256:'' @ je_sha env bytes \<and> ar_tenant_id rec = tenant
          \<and> ar_size_bytes rec = length bytes)"

lemma artifact_register_keeps:
  assumes "artifact_kept env tenant bytes reg" and "artifact_harmless env tenant bytes (Register_artifact other t mt md)"
  shows "artifact_kept env tenant bytes (snd (artifact_register env other t mt md reg))"
  using assms
  by (auto simp: artifact_kept_def artifact_register_def os_put_def Let_def validate_tenant_Inr validate_content_ref_Inr
      artifact_record_eq_def split: sum.splits option.splits if_splits)

interpretation artifacts: guarded_machine "artifact_registry_step env" "artifact_harmless env tenant bytes"
  "artifact_kept env tenant bytes" for env tenant bytes
proof
  fix reg c
  assume k: "artifact_kept env tenant bytes reg" and h: "artifact_harmless env tenant bytes c"
  show "artifact_kept env tenant bytes (artifact_registry_step env reg c)"
  proof (cases c)
    case (Register_artifact other t mt md)
    with k h artifact_register_keeps show ?thesis by simp
  next
    case (Artifact_store sc)
    with k h store_step_keeps [of "areg_store reg" tenant "je_sha env" bytes sc] show ?thesis
      by (simp add: artifact_kept_def)
  qed
qed

section \<open>Properties\<close>

lemma graph_registered:
  assumes "graph_register env g tenant ctx reg = (Inr rec, reg')" and "graph_payload env g = Inr payload"
  obtains h where "from_payload env payload = Inr h" and "admit_graph h ctx = Inr ()"
    and "rec = describe_graph (''sha256:'' @ je_sha env payload) tenant h"
    and "content_ref_ok (''sha256:'' @ je_sha env payload)" and "validate_tenant_context tenant ctx = Inr tenant"
    and "graph_kept env tenant payload rec reg'"
proof (cases rule: graph_register_cases [of env g tenant ctx reg])
  case (Refused e)
  with assms(1) show ?thesis by simp
next
  case (Stored p h x)
  from Stored(1) assms(2) have p: "p = payload" "from_payload env payload = Inr h" "admit_graph h ctx = Inr ()"
    by (auto simp: graph_admission_def split: sum.splits)
  from Stored(4) assms(1) have x: "x = Inr rec" by simp
  with Stored(5) p have rec: "rec = describe_graph (''sha256:'' @ je_sha env payload) tenant h"
    "content_ref_ok (''sha256:'' @ je_sha env payload)" by auto
  have "graph_kept env tenant payload rec reg'" using Stored(4) assms(1) x p(1) by (auto simp: graph_kept_def)
  then show ?thesis by (rule that [OF p(2,3) rec Stored(3)])
qed

lemma kept_graph_loads:
  assumes "graph_kept env tenant payload rec reg" and "from_payload env payload = Inr h" and "admit_graph h ctx = Inr ()"
    and "rec = describe_graph (''sha256:'' @ je_sha env payload) tenant h"
    and "content_ref_ok (''sha256:'' @ je_sha env payload)" and "validate_tenant_context tenant ctx = Inr tenant"
  shows "graph_load env (gr_content_ref rec) tenant ctx reg = Inr h"
proof -
  have rd: "ref_digest (gr_content_ref rec) = Inr (je_sha env payload)"
    and rc: "gr_content_ref rec = ''sha256:'' @ je_sha env payload"
    using assms(4,5) by (simp_all add: describe_graph_def ref_digest_def validate_content_ref_def)
  have "graph_lookup (gr_content_ref rec) tenant reg = Inr rec"
    using assms(1,5,6) rc
    by (auto simp: graph_lookup_def graph_kept_def validate_tenant_context_Inr validate_tenant_def validate_content_ref_def)
  moreover have "os_get (je_sha env) (je_sha env payload) tenant (greg_store reg) = Inr payload"
    using assms(1) by (simp add: os_get_def graph_kept_def)
  moreover obtain s where "je_decode env payload = Some s" "from_json env s = Inr h"
    using assms(2) by (auto simp: from_payload_def split: option.splits)
  ultimately show ?thesis using assms(3,4,6) rd rc by (simp add: graph_load_def)
qed

lemma admit_graph_ok:
  "admit_graph g ctx = Inr () \<longleftrightarrow> wf_graph g
     \<and> (ctx = None \<longrightarrow> list_all (\<lambda>u. \<not> requires_execution_context (contract u)) (map snd (units g)))
     \<and> (\<forall>c. ctx = Some c \<longrightarrow> is_valid (validate_execution_context g c))"
  by (cases ctx) (auto simp: admit_graph_def validate_graph_iff list_ex_iff list_all_iff)

text \<open>
  C26: A registered graph can be loaded: after a registration, and after any other calls that store
  nothing different under its digest, loading its reference for the same tenant and context
  returns the graph that was read back and admitted when it was registered. That graph is well
  formed, it is governed by the context or needs none, and the record describes it.
\<close>

theorem registered_graph_loads:
  assumes "graph_register env g tenant ctx reg = (Inr rec, reg')" and "graph_payload env g = Inr payload"
    and "list_all (graph_harmless env tenant payload) cs"
  shows "\<exists>h. graph_load env (gr_content_ref rec) tenant ctx (foldl (graph_registry_step env) reg' cs) = Inr h
    \<and> from_payload env payload = Inr h \<and> wf_graph h
    \<and> (ctx = None \<longrightarrow> list_all (\<lambda>u. \<not> requires_execution_context (contract u)) (map snd (units h)))
    \<and> (\<forall>c. ctx = Some c \<longrightarrow> is_valid (validate_execution_context h c))
    \<and> rec = describe_graph (''sha256:'' @ je_sha env payload) tenant h"
proof -
  obtain h where h: "from_payload env payload = Inr h" "admit_graph h ctx = Inr ()"
    "rec = describe_graph (''sha256:'' @ je_sha env payload) tenant h"
    "content_ref_ok (''sha256:'' @ je_sha env payload)" "validate_tenant_context tenant ctx = Inr tenant"
    and k: "graph_kept env tenant payload rec reg'"
    by (rule graph_registered [OF assms(1,2)])
  from kept_graph_loads [OF graphs.run_keeps [OF k assms(3)] h] h(1,3) h(2) [unfolded admit_graph_ok]
  show ?thesis by blast
qed

definition demo_json :: json_env where
  "demo_json = \<lparr>je_sha = (\<lambda>_. replicate 64 CHR ''a''), je_dumps = (\<lambda>_. Inr ''{}''), je_encode = id, je_decode = Some,
     je_loads = (\<lambda>_. Inr (to_doc demo_graph))\<rparr>"

theorem registered_graph_loads_witness:
  "\<exists>rec reg h. graph_register demo_json demo_graph ''t'' None empty_graph_registry = (Inr rec, reg)
     \<and> graph_load demo_json (gr_content_ref rec) ''t'' None (foldl (graph_registry_step demo_json) reg
         [Register_graph demo_graph ''t'' None, Graph_store (Put ''y'' ''u'')]) = Inr h"
proof -
  let ?r = "graph_register demo_json demo_graph ''t'' None empty_graph_registry"
  have a: "admit_graph demo_graph None = Inr ()" and b: "admit_graph (canonical demo_graph) None = Inr ()"
    by code_simp+
  have p: "graph_payload demo_json demo_graph = Inr ''{}''" by (simp add: graph_payload_def demo_json_def)
  have "from_payload demo_json ''{}'' = Inr (canonical demo_graph)"
    using roundtrip_canonical [OF demo_graph_built] by (simp add: from_payload_def from_json_def demo_json_def)
  with a b p have "graph_admission demo_json demo_graph None = Inr (''{}'', canonical demo_graph)"
    by (simp add: graph_admission_def)
  moreover have "validate_tenant_context ''t'' None = Inr ''t''" by code_simp
  moreover have "validate_content_ref (''sha256:'' @ je_sha demo_json ''{}'') = Inr (''sha256:'' @ je_sha demo_json ''{}'')"
    by code_simp
  ultimately obtain rec reg where r: "?r = (Inr rec, reg)"
    by (simp add: graph_register_def os_put_def Let_def empty_graph_registry_def)
  have "list_all (graph_harmless demo_json ''t'' ''{}'') [Register_graph demo_graph ''t'' None, Graph_store (Put ''y'' ''u'')]"
    by (simp add: p)
  from registered_graph_loads [OF r p this] r show ?thesis by blast
qed

text \<open>
  A registered artifact can be read back: after any other calls that store nothing different
  under its digest, the bytes that were registered are returned.
\<close>

theorem registered_artifact_intact:
  assumes "artifact_register env bytes tenant mt md reg = (Inr rec, reg')"
    and "list_all (artifact_harmless env tenant bytes) cs"
  shows "artifact_get env (ar_content_ref rec) tenant (foldl (artifact_registry_step env) reg' cs) = Inr bytes"
proof -
  have r: "ar_content_ref rec = ''sha256:'' @ je_sha env bytes" "content_ref_ok (''sha256:'' @ je_sha env bytes)"
    "normalized tenant" "artifact_kept env tenant bytes reg'"
    using assms(1)
    by (auto simp: artifact_kept_def artifact_register_def os_put_def Let_def validate_tenant_Inr validate_content_ref_Inr
        split: sum.splits option.splits if_splits)
  from artifacts.run_keeps [OF r(4) assms(2)] r(1-3) show ?thesis
    by (auto simp: artifact_get_def artifact_lookup_def artifact_kept_def validate_tenant_def validate_content_ref_def
        os_get_def ref_digest_def)
qed

text \<open>
  Tenants are isolated: a record that lookup returns was registered for the tenant that asks, by
  a registration for that tenant.
\<close>

definition records_owned :: "string set \<Rightarrow> graph_registry \<Rightarrow> bool" where
  "records_owned T reg \<longleftrightarrow> (\<forall>k rec. map_of (greg_records reg) k = Some rec \<longrightarrow>
     fst k \<in> T \<and> gr_tenant_id rec = fst k \<and> gr_content_ref rec = snd k)"

lemma records_owned_step:
  assumes "records_owned T reg"
  shows "records_owned (T \<union> (case c of Register_graph g t ctx \<Rightarrow> {t} | Graph_store _ \<Rightarrow> {})) (graph_registry_step env reg c)"
proof (cases c)
  case (Register_graph g t ctx)
  show ?thesis
  proof (cases rule: graph_register_cases [of env g t ctx reg])
    case (Refused e)
    with assms Register_graph show ?thesis by (auto simp: records_owned_def)
  next
    case (Stored p h x)
    with assms Register_graph show ?thesis by (auto simp: records_owned_def describe_graph_def split: if_splits)
  qed
next
  case (Graph_store x2)
  with assms show ?thesis by (simp add: records_owned_def)
qed

lemma records_owned_run:
  "records_owned T reg \<Longrightarrow>
   records_owned (T \<union> {t. \<exists>g ctx. Register_graph g t ctx \<in> set cs}) (foldl (graph_registry_step env) reg cs)"
proof (induction cs arbitrary: T reg)
  case (Cons c cs)
  have "T \<union> {t. \<exists>g ctx. Register_graph g t ctx \<in> set (c # cs)}
      = (T \<union> (case c of Register_graph g t ctx \<Rightarrow> {t} | Graph_store _ \<Rightarrow> {})) \<union> {t. \<exists>g ctx. Register_graph g t ctx \<in> set cs}"
    by (cases c) auto
  with Cons.IH [OF records_owned_step [OF Cons.prems, of c env]] show ?case by simp
qed simp

theorem registry_tenant_isolation:
  assumes "graph_lookup ref tenant (foldl (graph_registry_step env) empty_graph_registry cs) = Inr rec"
  shows "gr_tenant_id rec = tenant \<and> gr_content_ref rec = ref \<and> (\<exists>g ctx. Register_graph g tenant ctx \<in> set cs)"
proof -
  have "records_owned {} empty_graph_registry" by (simp add: records_owned_def empty_graph_registry_def)
  from records_owned_run [OF this, of cs env] assms show ?thesis
    by (auto simp: records_owned_def graph_lookup_def validate_tenant_Inr validate_content_ref_Inr
        split: sum.splits option.splits)
qed

end
