(* ===== verification/Py_Library.thy ===== *)
theory Py_Library
  imports Complex_Main DNC_Prelude
begin

text \<open>
  What the components use of the language's library: string methods on code points below 256,
  \<open>min\<close> and \<open>max\<close> with a key; and the normal forms of free text and of data
  (\<open>cognition/canonical.py\<close>).
\<close>

text \<open>
  \<open>str.casefold\<close> on code points below 256: the sharp s becomes two
  letters; the micro sign, whose folded form lies above 255 and has no other preimage below
  256, is left as it is.
\<close>

definition casefold_char :: "char \<Rightarrow> string" where
  "casefold_char c = (let n = (of_char c :: nat) in
     if (65 \<le> n \<and> n \<le> 90) \<or> (192 \<le> n \<and> n \<le> 222 \<and> n \<noteq> 215) then [char_of (n + 32)]
     else if n = 223 then ''ss'' else [c])"

definition casefold :: "string \<Rightarrow> string" where
  "casefold s = concat (map casefold_char s)"

text \<open>\<open>str.startswith\<close> and the substring test.\<close>

definition starts :: "string \<Rightarrow> string \<Rightarrow> bool" where
  "starts p s \<longleftrightarrow> take (length p) s = p"

fun contains_text :: "string \<Rightarrow> string \<Rightarrow> bool" where
  "contains_text p [] \<longleftrightarrow> p = []"
| "contains_text p (c # cs) \<longleftrightarrow> starts p (c # cs) \<or> contains_text p cs"

text \<open>\<open>normalize_text\<close>: strip, white space collapsed to one blank, folded case.\<close>

fun collapse :: "bool \<Rightarrow> string \<Rightarrow> string" where
  "collapse blank_before [] = []"
| "collapse blank_before (c # cs) =
     (if py_isspace c then (if blank_before then collapse True cs else CHR '' '' # collapse True cs)
      else c # collapse False cs)"

definition normalize_text :: "string \<Rightarrow> string" where
  "normalize_text s = casefold (collapse False (py_strip s))"

lemma collapse_no_double:
  "\<not> (\<exists>a b. collapse p s = a @ [CHR '' '', CHR '' ''] @ b) \<and> (p \<longrightarrow> (\<nexists>b. collapse p s = CHR '' '' # b))"
proof (induction s arbitrary: p)
  case (Cons c s)
  have sp: "py_isspace CHR '' ''" by code_simp
  show ?case
    using Cons.IH [of True] Cons.IH [of False] sp by (auto simp: Cons_eq_append_conv)
qed simp

section \<open>Least and greatest by a key\<close>

text \<open>\<open>min(xs, key=k)\<close> and \<open>max(xs, key=k)\<close> return the first extremal element.\<close>

fun min_on :: "('a \<Rightarrow> 'k::linorder) \<Rightarrow> 'a \<Rightarrow> 'a list \<Rightarrow> 'a" where
  "min_on k x [] = x"
| "min_on k x (y # ys) = min_on k (if k y < k x then y else x) ys"

fun max_on :: "('a \<Rightarrow> 'k::linorder) \<Rightarrow> 'a \<Rightarrow> 'a list \<Rightarrow> 'a" where
  "max_on k x [] = x"
| "max_on k x (y # ys) = max_on k (if k x < k y then y else x) ys"

lemma min_on_in: "min_on k x ys \<in> set (x # ys)"
  by (induction ys arbitrary: x) (auto split: if_splits)

lemma min_on_le_start: "k (min_on k x ys) \<le> k x"
proof (induction ys arbitrary: x)
  case (Cons y ys)
  from Cons.IH [of "if k y < k x then y else x"] show ?case by (auto split: if_splits)
qed simp

lemma min_on_least: "y \<in> set (x # ys) \<Longrightarrow> k (min_on k x ys) \<le> k y"
proof (induction ys arbitrary: x)
  case (Cons z ys)
  show ?case
  proof (cases "y \<in> set ys")
    case True
    with Cons.IH [of "if k z < k x then z else x"] show ?thesis by simp
  next
    case False
    with Cons.prems have "y = x \<or> y = z" by auto
    with min_on_le_start [of k "if k z < k x then z else x" ys] show ?thesis by (auto split: if_splits)
  qed
qed simp

lemma max_on_in: "max_on k x ys \<in> set (x # ys)"
  by (induction ys arbitrary: x) (auto split: if_splits)

section \<open>Canonical data\<close>

lemma snd_size_pyval: "kv \<in> set kvs \<Longrightarrow> size (snd kv :: pyval) < Suc (size_list (size_prod (\<lambda>_. 0) size) kvs)"
  by (induction kvs) (auto split: prod.splits simp: less_Suc_eq_le)

lemma elem_size_pyval: "v \<in> set vs \<Longrightarrow> size (v :: pyval) < Suc (size_list size vs)"
  by (induction vs) auto

text \<open>\<open>canonical_data\<close>: keys in order, entries that are \<open>None\<close> left out.\<close>

function canonical_data :: "pyval \<Rightarrow> pyval" where
  "canonical_data (PDict kvs) =
     PDict (map (\<lambda>kv. (fst kv, canonical_data (snd kv))) (sort_key fst (filter (\<lambda>kv. snd kv \<noteq> PNone) kvs)))"
| "canonical_data (PList vs) = PList (map canonical_data vs)"
| "canonical_data (PStr s) = PStr s"
| "canonical_data PNone = PNone"
| "canonical_data (PBool b) = PBool b"
| "canonical_data (PInt i) = PInt i"
  by pat_completeness auto

termination
  by (relation "measure size") (auto simp: snd_size_pyval elem_size_pyval)

lemma canonical_data_None [simp]: "canonical_data v = PNone \<longleftrightarrow> v = PNone"
  by (cases v) auto

lemma canonical_data_idem: "canonical_data (canonical_data v) = canonical_data v"
proof (induction v rule: canonical_data.induct)
  case (1 kvs)
  let ?c = "map (\<lambda>kv. (fst kv, canonical_data (snd kv))) (sort_key fst (filter (\<lambda>kv. snd kv \<noteq> PNone) kvs))"
  have "filter (\<lambda>kv. snd kv \<noteq> PNone) ?c = ?c" by (auto simp: filter_id_conv)
  moreover have "sort_key fst ?c = ?c" by (rule sort_key_id_if_sorted) (simp add: o_def)
  ultimately have "canonical_data (canonical_data (PDict kvs)) = PDict (map (\<lambda>kv. (fst kv, canonical_data (snd kv))) ?c)"
    by simp
  also have "\<dots> = canonical_data (PDict kvs)" using 1 by auto
  finally show ?case .
qed auto

end
