(* ===== verification/Structural_Control.thy ===== *)
theory Structural_Control
  imports Complex_Main Projection Transaction_Proofs Py_Library
begin

text \<open>
  Proposals for structural change and their authorisation (\<open>dcc/dcc_contracts.py\<close>,
  \<open>dcc/computation_generator.py\<close>, \<open>dcc/structural_controller.py\<close>). Floating-point values are real
  numbers. The texts of rejection reasons, which render floats, are constructors with the rendered
  values; keys of an operation's parameters that the engine never reads are left out.
\<close>

declare map_of_eq_Some_iff [simp del] Some_eq_map_of_iff [simp del]

section \<open>Contracts\<close>

record mutation_proposal =
  mp_proposal_id :: string
  mp_target_graph_id :: string
  mp_candidate_operations :: "ir_operation list"
  mp_rationale :: string
  mp_expected_utility :: real
  mp_estimated_cost :: real
  mp_risk_assessment :: string

record authorization_decision =
  ad_proposal_id :: string
  ad_authorized :: bool
  ad_transaction_id :: "string option"
  ad_rejection_reason :: "string option"
  ad_conditions :: "string list"

record generation_objective =
  go_task_description :: string
  go_target_outcome :: string
  go_constraints :: "string list"
  go_cost_budget :: real
  go_max_units :: int
  go_max_edges :: int
  go_require_specialization :: bool
  go_allow_composition :: bool

datatype necessity_signal =
    OBJECTIVE_VIOLATION | CONSTRAINT_VIOLATION | CAPACITY_INSUFFICIENCY | PERFORMANCE_DEGRADATION
  | FAULT_RECOVERY_REQUIREMENT | ENVIRONMENT_SHIFT | COMPOSITION_REQUIREMENT

record generation_context =
  gc_objective :: generation_objective
  gc_available_unit_templates :: "computational_unit list"
  gc_current_unit_count :: int
  gc_current_edge_count :: int
  gc_last_observed_utility :: real
  gc_recent_mutation_count :: int
  gc_cycles_since_mutation :: int
  gc_prior_mutation_harmed :: bool
  gc_necessity_signals :: "necessity_signal set"

section \<open>The generator\<close>

definition clone_unit_template :: "computational_unit \<Rightarrow> string \<Rightarrow> computational_unit res" where
  "clone_unit_template template suffix =
     (case mk_UnitID (uid_value (unit_id template) @ ''_'' @ suffix) of
        Inl e \<Rightarrow> Inl e
      | Inr i \<Rightarrow> Inr (template\<lparr>unit_id := i, unit_name := unit_name template @ ''_'' @ suffix\<rparr>))"

definition generated_unit :: "nat \<Rightarrow> nat \<Rightarrow> computational_unit res" where
  "generated_unit counter n =
     (case mk_UnitID (''gen_unit_'' @ show_nat counter @ ''_'' @ show_nat n) of
        Inl e \<Rightarrow> Inl e
      | Inr i \<Rightarrow> Inr \<lparr>unit_id = i, unit_name = ''GeneratedUnit_'' @ show_nat n, unit_structure = PRIMITIVE, visibility = INSPECTABLE,
          lifecycle = BASE, contract = UnitContract_default, mutation_contract = MutationContract_default, constraints = [],
          unit_metadata = [], sub_units = []\<rparr>)"

definition add_op :: "computational_unit \<Rightarrow> ir_operation" where
  "add_op u = \<lparr>op_type = ADD_UNIT, parameters = no_params\<lparr>p_unit := Some u\<rparr>, rationale = []\<rparr>"

definition connect_op :: "unit_id \<Rightarrow> unit_id \<Rightarrow> ir_operation" where
  "connect_op s t =
     \<lparr>op_type = CONNECT_UNITS, parameters = no_params\<lparr>p_source := Some s, p_target := Some t, p_edge_type := Some ET_DATA\<rparr>,
      rationale = []\<rparr>"

definition make_proposal ::
  "string \<Rightarrow> nat \<Rightarrow> structural_graph \<Rightarrow> ir_operation list \<Rightarrow> string \<Rightarrow> generation_context \<Rightarrow> real \<Rightarrow> real \<Rightarrow> string \<Rightarrow> mutation_proposal" where
  "make_proposal prefix counter g ops purpose x utility cost risk =
     \<lparr>mp_proposal_id = prefix @ show_nat counter @ ''_'' @ show_nat (length (units g)), mp_target_graph_id = gid_value (graph_id g),
      mp_candidate_operations = ops, mp_rationale = purpose @ go_task_description (gc_objective x),
      mp_expected_utility = utility, mp_estimated_cost = cost, mp_risk_assessment = risk\<rparr>"

definition create_expansion_proposal :: "nat \<Rightarrow> structural_graph \<Rightarrow> generation_context \<Rightarrow> mutation_proposal option res" where
  "create_expansion_proposal counter g x =
     (let n = length (units g); max_edges = go_max_edges (gc_objective x) in
      case (case gc_available_unit_templates x of
              [] \<Rightarrow> generated_unit counter n
            | template # _ \<Rightarrow> clone_unit_template template (''gen_'' @ show_nat n)) of
        Inl e \<Rightarrow> Inl e
      | Inr u \<Rightarrow>
          (case (if 0 < n \<and> gc_current_edge_count x < max_edges
                 then (case mk_UnitID (hd (dict_keys (units g))) of
                         Inl e \<Rightarrow> Inl e | Inr i \<Rightarrow> Inr [add_op u, connect_op i (unit_id u)])
                 else Inr [add_op u]) of
             Inl e \<Rightarrow> Inl e
           | Inr ops \<Rightarrow>
               if max_edges \<le> gc_current_edge_count x \<and> 0 < n then Inr None
               else Inr (Some (make_proposal ''gen_prop_'' counter g ops ''Expand computation for: '' x (8/10) 1 ''LOW''))))"

definition create_wiring_proposal :: "nat \<Rightarrow> structural_graph \<Rightarrow> generation_context \<Rightarrow> mutation_proposal option res" where
  "create_wiring_proposal counter g x =
     (if length (units g) < 2 then Inr None
      else case mk_UnitID (last (dict_keys (units g))) of
        Inl e \<Rightarrow> Inl e
      | Inr s \<Rightarrow>
          (case mk_UnitID (hd (dict_keys (units g))) of
             Inl e \<Rightarrow> Inl e
           | Inr t \<Rightarrow> Inr (Some (make_proposal ''gen_wire_'' counter g [connect_op s t]
                          ''Wire isolated computation for: '' x (6/10) (3/10) ''LOW''))))"

definition create_specialization_proposal :: "nat \<Rightarrow> structural_graph \<Rightarrow> generation_context \<Rightarrow> mutation_proposal option res" where
  "create_specialization_proposal counter g x =
     (case dict_keys (units g) of
        [] \<Rightarrow> Inr None
      | k # _ \<Rightarrow>
          (case mk_UnitID k of
             Inl e \<Rightarrow> Inl e
           | Inr i \<Rightarrow> Inr (Some (make_proposal ''gen_spec_'' counter g
                 [\<lparr>op_type = SPECIALIZE_UNIT, parameters = no_params\<lparr>p_unit_id := Some i\<rparr>, rationale = []\<rparr>]
                 ''Specialize unit for: '' x (5/10) (5/10) ''MEDIUM''))))"

definition create_composition_proposal :: "nat \<Rightarrow> structural_graph \<Rightarrow> generation_context \<Rightarrow> mutation_proposal option res" where
  "create_composition_proposal counter g x =
     (if length (units g) < 2 then Inr None
      else if go_max_edges (gc_objective x) \<le> gc_current_edge_count x then Inr None
      else case map_res mk_UnitID (take 2 (dict_keys (units g))) of
        Inl e \<Rightarrow> Inl e
      | Inr _ \<Rightarrow> Inr (Some (make_proposal ''gen_comp_'' counter g
            [\<lparr>op_type = COMPOSE_UNITS, parameters = no_params, rationale = []\<rparr>] ''Compose units for: '' x (7/10) (15/10) ''MEDIUM'')))"

definition wants_expansion :: "generation_context \<Rightarrow> bool" where
  "wants_expansion x =
     (let obj = gc_objective x; signals = gc_necessity_signals x; n = gc_current_unit_count x;
          capacity_insufficient = (n < go_max_units obj div 2);
          urgent_restructure = (signals \<inter> {OBJECTIVE_VIOLATION, CONSTRAINT_VIOLATION, PERFORMANCE_DEGRADATION,
             FAULT_RECOVERY_REQUIREMENT, ENVIRONMENT_SHIFT} \<noteq> {});
          needs_composition_capacity = (COMPOSITION_REQUIREMENT \<in> signals \<and> n < 2);
          needs_capacity = (CAPACITY_INSUFFICIENCY \<in> signals \<or> needs_composition_capacity \<or> urgent_restructure
             \<or> (capacity_insufficient \<and> (gc_last_observed_utility x < 70/100 \<or> gc_prior_mutation_harmed x)))
      in n < go_max_units obj \<and> (n = 0 \<or> needs_capacity))"

definition wants_wiring :: "structural_graph \<Rightarrow> generation_context \<Rightarrow> bool" where
  "wants_wiring g x \<longleftrightarrow>
     gc_current_edge_count x < go_max_edges (gc_objective x) \<and> 2 \<le> length (units g)
     \<and> (gc_current_edge_count x = 0
        \<or> ((gc_last_observed_utility x < 65/100 \<or> FAULT_RECOVERY_REQUIREMENT \<in> gc_necessity_signals x
             \<or> ENVIRONMENT_SHIFT \<in> gc_necessity_signals x) \<and> \<not> gc_prior_mutation_harmed x))"

definition wants_specialization :: "structural_graph \<Rightarrow> generation_context \<Rightarrow> bool" where
  "wants_specialization g x \<longleftrightarrow>
     (go_require_specialization (gc_objective x) \<or> OBJECTIVE_VIOLATION \<in> gc_necessity_signals x) \<and> 0 < length (units g)"

definition wants_composition :: "structural_graph \<Rightarrow> generation_context \<Rightarrow> bool" where
  "wants_composition g x \<longleftrightarrow>
     go_allow_composition (gc_objective x) \<and> 2 \<le> length (units g)
     \<and> (gc_last_observed_utility x < 62/100 \<or> gc_prior_mutation_harmed x \<or> COMPOSITION_REQUIREMENT \<in> gc_necessity_signals x)
     \<and> gc_cycles_since_mutation x > 3"

text \<open>A strategy that applies adds its proposal, if it makes one; an exception ends the generation.\<close>

definition strategy ::
  "bool \<Rightarrow> mutation_proposal option res \<Rightarrow> mutation_proposal list res \<Rightarrow> mutation_proposal list res" where
  "strategy wanted proposal proposals =
     (case proposals of
        Inl e \<Rightarrow> Inl e
      | Inr ps \<Rightarrow>
          if \<not> wanted then Inr ps
          else case proposal of Inl e \<Rightarrow> Inl e | Inr None \<Rightarrow> Inr ps | Inr (Some p) \<Rightarrow> Inr (ps @ [p]))"

definition generate_proposals :: "structural_graph \<Rightarrow> generation_context \<Rightarrow> nat \<Rightarrow> mutation_proposal list res \<times> nat" where
  "generate_proposals g x counter =
     (let c = counter + 1 in
      (strategy (wants_composition g x) (create_composition_proposal c g x)
        (strategy (wants_specialization g x) (create_specialization_proposal c g x)
          (strategy (wants_wiring g x) (create_wiring_proposal c g x)
            (strategy (wants_expansion x) (create_expansion_proposal c g x) (Inr [])))), c))"

section \<open>The controller\<close>

datatype decision_type = DT_AUTHORIZE | DT_REJECT | DT_DEFER | DT_REQUEST_REVISION

fun decision_type_value :: "decision_type \<Rightarrow> string" where
  "decision_type_value DT_AUTHORIZE = ''AUTHORIZE''"
| "decision_type_value DT_REJECT = ''REJECT''"
| "decision_type_value DT_DEFER = ''DEFER''"
| "decision_type_value DT_REQUEST_REVISION = ''REQUEST_REVISION''"

record evaluation_criteria =
  ec_min_utility :: real
  ec_max_risk :: string
  ec_max_cost :: real
  ec_require_rationale :: bool
  ec_require_alignment :: bool
  ec_max_units :: int
  ec_max_edges :: int

datatype rejection_reason =
    Utility_below real real
  | Risk_exceeds string string
  | Cost_exceeds real real
  | Lacks_rationale

record proposal_evaluation =
  pe_proposal :: mutation_proposal
  pe_decision :: decision_type
  pe_score :: real
  pe_rejection_reasons :: "rejection_reason list"
  pe_conditions :: "string list"
  pe_evaluated_at :: nat
  pe_context_budget :: real
  pe_risk_tolerance :: string

record evaluation_context =
  ex_current_graph :: structural_graph
  ex_active_objectives :: "string list"
  ex_constraints :: "string list"
  ex_available_budget :: real
  ex_risk_tolerance :: string
  ex_criteria :: evaluation_criteria
  ex_stability_baseline_utility :: real
  ex_cycles_since_mutation :: int
  ex_recent_mutation_count :: int

record structural_controller =
  sc_decision_counter :: nat
  sc_authorized_history :: "string list"

definition new_structural_controller :: structural_controller where
  "new_structural_controller = \<lparr>sc_decision_counter = 0, sc_authorized_history = []\<rparr>"

definition risk_level :: "string \<Rightarrow> int option" where
  "risk_level r = map_of [(''LOW'', 0), (''MEDIUM'', 1), (''HIGH'', 2)] r"

definition risk_score :: "string \<Rightarrow> real" where
  "risk_score r = (case map_of [(''LOW'', 1), (''MEDIUM'', 6/10), (''HIGH'', 2/10)] r of None \<Rightarrow> 0 | Some s \<Rightarrow> s)"

definition base_score :: "mutation_proposal \<Rightarrow> real" where
  "base_score p =
     6/10 * mp_expected_utility p + 2/10 * max 0 (1 - mp_estimated_cost p / 10) + 2/10 * risk_score (mp_risk_assessment p)"

definition complexity_penalty :: "evaluation_context \<Rightarrow> real" where
  "complexity_penalty x =
     (let unit_ratio = real (length (units (ex_current_graph x))) / real_of_int (max (ec_max_units (ex_criteria x)) 1)
      in if unit_ratio > 5/10 then max 0 ((unit_ratio - 5/10) * (3/10)) else 0)"

definition churn_penalty :: "evaluation_context \<Rightarrow> real" where
  "churn_penalty x =
     (if ex_cycles_since_mutation x < 3 then max 0 (20/100 - real_of_int (ex_cycles_since_mutation x) * (7/100))
      else if ex_recent_mutation_count x > 10 then min (10/100) (real_of_int (ex_recent_mutation_count x - 10) * (1/100))
      else 0)"

definition compute_score :: "mutation_proposal \<Rightarrow> evaluation_context \<Rightarrow> real" where
  "compute_score p x =
     (let marginal_utility = mp_expected_utility p - ex_stability_baseline_utility x;
          net_marginal = max 0 (marginal_utility - complexity_penalty x - churn_penalty x)
      in if marginal_utility \<le> 0 then base_score p
         else if net_marginal < 5/100 then base_score p + 5/100 * net_marginal / (5/100)
         else min 1 (base_score p + min (20/100) (net_marginal * (5/10))))"

definition rejection_reasons :: "mutation_proposal \<Rightarrow> evaluation_context \<Rightarrow> rejection_reason list" where
  "rejection_reasons p x =
     (if mp_expected_utility p < ec_min_utility (ex_criteria x)
      then [Utility_below (mp_expected_utility p) (ec_min_utility (ex_criteria x))] else [])
     @ (if (case risk_level (mp_risk_assessment p) of None \<Rightarrow> 3 | Some r \<Rightarrow> r)
            > (case risk_level (ex_risk_tolerance x) of None \<Rightarrow> 2 | Some r \<Rightarrow> r)
        then [Risk_exceeds (mp_risk_assessment p) (ex_risk_tolerance x)] else [])
     @ (if mp_estimated_cost p > ex_available_budget x then [Cost_exceeds (mp_estimated_cost p) (ex_available_budget x)] else [])
     @ (if ec_require_rationale (ex_criteria x) \<and> mp_rationale p = [] then [Lacks_rationale] else [])"

definition evaluate_single :: "nat \<Rightarrow> mutation_proposal \<Rightarrow> evaluation_context \<Rightarrow> proposal_evaluation" where
  "evaluate_single counter p x =
     (let reasons = rejection_reasons p x; score = compute_score p x;
          decision = (if reasons \<noteq> [] then DT_REJECT
                      else if score \<ge> 8/10 then DT_AUTHORIZE
                      else if score \<ge> 5/10 then DT_DEFER else DT_REJECT)
      in \<lparr>pe_proposal = p, pe_decision = decision, pe_score = score, pe_rejection_reasons = reasons, pe_conditions = [],
          pe_evaluated_at = counter, pe_context_budget = ex_available_budget x, pe_risk_tolerance = ex_risk_tolerance x\<rparr>)"

definition evaluate_proposals ::
  "mutation_proposal list \<Rightarrow> evaluation_context \<Rightarrow> structural_controller \<Rightarrow> proposal_evaluation list \<times> structural_controller" where
  "evaluate_proposals ps x s =
     (let c = sc_decision_counter s + 1
      in (map (\<lambda>p. evaluate_single c p x) ps, s\<lparr>sc_decision_counter := c\<rparr>))"

definition authorize_evaluation ::
  "proposal_evaluation \<Rightarrow> structural_controller \<Rightarrow> authorization_decision \<times> structural_controller" where
  "authorize_evaluation e s =
     (let s' = s\<lparr>sc_decision_counter := sc_decision_counter s + 1\<rparr>; pid = mp_proposal_id (pe_proposal e) in
      if pe_decision e \<noteq> DT_AUTHORIZE
      then (\<lparr>ad_proposal_id = pid, ad_authorized = False, ad_transaction_id = None,
             ad_rejection_reason = Some (''Decision was '' @ decision_type_value (pe_decision e) @ '', not AUTHORIZE''), ad_conditions = []\<rparr>, s')
      else (\<lparr>ad_proposal_id = pid, ad_authorized = True, ad_transaction_id = None, ad_rejection_reason = None,
             ad_conditions = pe_conditions e\<rparr>,
            s'\<lparr>sc_authorized_history := sc_authorized_history s @ [pid]\<rparr>))"

text \<open>\<open>sort(reverse=True)\<close> keeps the order of equal scores, as sorting by the negated score does.\<close>

definition authorize_top_scoring ::
  "proposal_evaluation list \<Rightarrow> structural_controller \<Rightarrow> authorization_decision option \<times> structural_controller" where
  "authorize_top_scoring es s =
     (case sort_key (\<lambda>e. - pe_score e) (filter (\<lambda>e. pe_decision e = DT_AUTHORIZE) es) of
        [] \<Rightarrow> (None, s)
      | best # _ \<Rightarrow> (case authorize_evaluation best s of (d, s') \<Rightarrow> (Some d, s')))"

definition authorized_proposals :: "proposal_evaluation list \<Rightarrow> mutation_proposal list" where
  "authorized_proposals es = map pe_proposal (filter (\<lambda>e. pe_decision e = DT_AUTHORIZE) es)"

definition rejected_proposals :: "proposal_evaluation list \<Rightarrow> (mutation_proposal \<times> rejection_reason list) list" where
  "rejected_proposals es = map (\<lambda>e. (pe_proposal e, pe_rejection_reasons e)) (filter (\<lambda>e. pe_decision e = DT_REJECT) es)"

definition deferred_proposals :: "proposal_evaluation list \<Rightarrow> mutation_proposal list" where
  "deferred_proposals es = map pe_proposal (filter (\<lambda>e. pe_decision e = DT_DEFER) es)"

section \<open>What the generator proposes\<close>

text \<open>
  The shape of a proposal: one new unit, alone in an empty graph or connected to an existing unit
  when there is room for an edge; one new edge; or a specialisation or a composition.
\<close>

definition expands :: "structural_graph \<Rightarrow> generation_context \<Rightarrow> ir_operation list \<Rightarrow> bool" where
  "expands g x ops \<longleftrightarrow> wants_expansion x
     \<and> (\<exists>u. ops = [add_op u] \<and> units g = []
          \<or> (\<exists>i. ops = [add_op u, connect_op i (unit_id u)] \<and> gc_current_edge_count x < go_max_edges (gc_objective x)))"

definition wires :: "structural_graph \<Rightarrow> generation_context \<Rightarrow> ir_operation list \<Rightarrow> bool" where
  "wires g x ops \<longleftrightarrow> wants_wiring g x \<and> (\<exists>s t. ops = [connect_op s t])"

definition reshapes :: "ir_operation list \<Rightarrow> bool" where
  "reshapes ops \<longleftrightarrow> (\<exists>op. ops = [op] \<and> op_type op \<in> {SPECIALIZE_UNIT, COMPOSE_UNITS})"

lemma make_proposal_operations [simp]: "mp_candidate_operations (make_proposal pre c g ops why x u k r) = ops"
  by (simp add: make_proposal_def)

lemma op_inject [simp]:
  "add_op u = add_op v \<longleftrightarrow> u = v" "connect_op s t = connect_op s' t' \<longleftrightarrow> s = s' \<and> t = t'"
  by (auto simp: add_op_def connect_op_def no_params_def)

lemma expansion_shape:
  assumes "create_expansion_proposal c g x = Inr (Some p)" and "wants_expansion x"
  shows "expands g x (mp_candidate_operations p)"
  using assms
  by (auto simp: create_expansion_proposal_def expands_def Let_def split: sum.splits if_splits)

lemma wiring_shape: "create_wiring_proposal c g x = Inr (Some p) \<Longrightarrow> wants_wiring g x \<Longrightarrow> wires g x (mp_candidate_operations p)"
  by (auto simp: create_wiring_proposal_def wires_def split: sum.splits if_splits)

lemma specialization_shape: "create_specialization_proposal c g x = Inr (Some p) \<Longrightarrow> reshapes (mp_candidate_operations p)"
  by (auto simp: create_specialization_proposal_def reshapes_def split: sum.splits if_splits list.splits)

lemma composition_shape: "create_composition_proposal c g x = Inr (Some p) \<Longrightarrow> reshapes (mp_candidate_operations p)"
  by (auto simp: create_composition_proposal_def reshapes_def split: sum.splits if_splits)

lemma strategy_member:
  assumes "strategy w r acc = Inr ps" and "p \<in> set ps"
  shows "(\<exists>qs. acc = Inr qs \<and> p \<in> set qs) \<or> (w \<and> r = Inr (Some p))"
  using assms by (auto simp: strategy_def split: sum.splits if_splits option.splits)

lemma proposal_shape:
  assumes "fst (generate_proposals g x c) = Inr ps" and "p \<in> set ps"
  shows "expands g x (mp_candidate_operations p) \<or> wires g x (mp_candidate_operations p) \<or> reshapes (mp_candidate_operations p)"
proof -
  let ?e = "strategy (wants_expansion x) (create_expansion_proposal (c + 1) g x) (Inr [])"
  let ?w = "strategy (wants_wiring g x) (create_wiring_proposal (c + 1) g x) ?e"
  let ?s = "strategy (wants_specialization g x) (create_specialization_proposal (c + 1) g x) ?w"
  have "strategy (wants_composition g x) (create_composition_proposal (c + 1) g x) ?s = Inr ps"
    using assms(1) by (simp only: generate_proposals_def Let_def fst_conv)
  from strategy_member [OF this assms(2)] composition_shape
  have 1: "(\<exists>qs. ?s = Inr qs \<and> p \<in> set qs) \<or> reshapes (mp_candidate_operations p)" by blast
  have 2: "(\<exists>qs. ?w = Inr qs \<and> p \<in> set qs) \<or> reshapes (mp_candidate_operations p)" if "?s = Inr qs" "p \<in> set qs" for qs
    using strategy_member [OF that] specialization_shape by blast
  have 3: "(\<exists>qs. ?e = Inr qs \<and> p \<in> set qs) \<or> wires g x (mp_candidate_operations p)" if "?w = Inr qs" "p \<in> set qs" for qs
    using strategy_member [OF that] wiring_shape by blast
  have 4: "expands g x (mp_candidate_operations p)" if "?e = Inr qs" "p \<in> set qs" for qs
    using strategy_member [OF that] expansion_shape by auto
  from 1 2 3 4 show ?thesis by blast
qed

section \<open>What a committed proposal does\<close>

lemma apply_add_op:
  assumes "success (apply_operation g (add_op u))"
  shows "units (result_graph (apply_operation g (add_op u))) = units g @ [(uid_value (unit_id u), u)]
    \<and> edges (result_graph (apply_operation g (add_op u))) = edges g"
proof -
  have a: "apply_operation g (add_op u) = apply_add_unit g u"
    by (simp add: apply_operation_def add_op_def op_validate_def)
  with assms show ?thesis by (auto elim: apply_add_unit_success)
qed

lemma apply_connect_op:
  "units (result_graph (apply_operation g (connect_op s t))) = units g
   \<and> length (edges (result_graph (apply_operation g (connect_op s t)))) = length (edges g) + 1"
  by (simp add: apply_operation_def connect_op_def op_validate_def apply_connect_def add_edge_def no_params_def)

lemma apply_reshape: "reshapes ops \<Longrightarrow> apply_all g ops = None"
  by (auto simp: reshapes_def apply_operation_def)

lemma abstract_transaction_structure:
  "abstract_transaction g ops = Some h \<Longrightarrow> \<exists>k. apply_all g ops = Some k \<and> units h = units k \<and> edges h = edges k"
  by (auto simp: abstract_transaction_def commit_graph_def split: option.splits if_splits)

text \<open>
  Specialisations and compositions, which the generator proposes, are operations that the engine
  does not support: no transaction with such a proposal ever commits.
\<close>

theorem reshaping_never_commits:
  assumes "create_specialization_proposal c g x = Inr (Some p) \<or> create_composition_proposal c g x = Inr (Some p)"
  shows "\<not> tx_success (execute_transaction env pl tid h (mp_candidate_operations p) base)"
proof -
  have "reshapes (mp_candidate_operations p)" using assms specialization_shape composition_shape by blast
  then have "abstract_transaction h (mp_candidate_operations p) = None" by (simp add: apply_reshape abstract_transaction_def)
  then show ?thesis using execute_graph(2) [of env pl tid h "mp_candidate_operations p" base] by simp
qed

end
