(* ===== verification/Adaptation.thy ===== *)
theory Adaptation
  imports Structural_Control
begin

text \<open>
  Assessment of executions and learning from them (\<open>dcc/assessment_engine.py\<close> up to the closed-loop
  orchestrator, \<open>dcc/learning_engine.py\<close>). Floating-point values are real numbers. Of the metadata of
  an assessment the entries that copy fields of the execution result are left out.
\<close>

section \<open>Assessment\<close>

record execution_result =
  xr_graph_id :: string
  xr_graph_version :: string
  xr_execution_time_ms :: real
  xr_output :: pyval
  xr_error :: "string option"
  xr_metrics :: "(string, real) dict"
  xr_units_executed :: int
  xr_edges_traversed :: int
  xr_success :: bool

record assessment =
  as_assessment_id :: string
  as_proposal_id :: string
  as_graph_before :: string
  as_graph_after :: string
  as_execution_result :: execution_result
  as_pre_transaction_utility_estimate :: real
  as_post_execution_utility_measured :: real
  as_improvement_delta :: real
  as_cost_actual :: real
  as_risk_actual :: string
  as_alignment_score :: real
  as_baseline_utility :: real
  as_prediction_error :: real

record adaptation_knowledge =
  ak_past_assessments :: "assessment list"
  ak_proposal_outcomes :: "(string, string) dict"
  ak_cumulative_improvement :: real

definition measured_utility :: "execution_result \<Rightarrow> real" where
  "measured_utility r = (case map_of (xr_metrics r) ''utility'' of None \<Rightarrow> 0 | Some u \<Rightarrow> u)"

definition assess_risk :: "execution_result \<Rightarrow> string" where
  "assess_risk r = (if \<not> xr_success r then ''HIGH'' else if xr_execution_time_ms r > 5000 then ''MEDIUM'' else ''LOW'')"

definition compute_alignment :: "mutation_proposal \<Rightarrow> execution_result \<Rightarrow> real" where
  "compute_alignment p r =
     (if \<not> xr_success r then 0 else min 1 (measured_utility r / max (mp_expected_utility p) (1/100)))"

definition assess_execution ::
  "execution_result \<Rightarrow> mutation_proposal \<Rightarrow> string \<Rightarrow> string \<Rightarrow> real option \<Rightarrow> nat \<Rightarrow> assessment \<times> nat" where
  "assess_execution r p before after baseline counter =
     (let c = counter + 1; post_utility = measured_utility r;
          comparison = (case baseline of None \<Rightarrow> mp_expected_utility p | Some b \<Rightarrow> b)
      in (\<lparr>as_assessment_id = ''assess_'' @ show_nat c, as_proposal_id = mp_proposal_id p, as_graph_before = before,
           as_graph_after = after, as_execution_result = r, as_pre_transaction_utility_estimate = mp_expected_utility p,
           as_post_execution_utility_measured = post_utility, as_improvement_delta = post_utility - comparison,
           as_cost_actual = xr_execution_time_ms r / 1000, as_risk_actual = assess_risk r,
           as_alignment_score = compute_alignment p r, as_baseline_utility = comparison,
           as_prediction_error = post_utility - mp_expected_utility p\<rparr>, c))"

definition outcome_word :: "real \<Rightarrow> string" where
  "outcome_word delta = (if delta > 0 then ''SUCCESSFUL'' else ''UNSUCCESSFUL'')"

definition update_adaptation_knowledge :: "adaptation_knowledge \<Rightarrow> assessment \<Rightarrow> adaptation_knowledge" where
  "update_adaptation_knowledge k a =
     k\<lparr>ak_past_assessments := ak_past_assessments k @ [a],
       ak_proposal_outcomes := dict_set (as_proposal_id a) (outcome_word (as_improvement_delta a)) (ak_proposal_outcomes k),
       ak_cumulative_improvement := ak_cumulative_improvement k + as_improvement_delta a\<rparr>"

definition should_adapt :: "assessment \<Rightarrow> real \<Rightarrow> bool" where
  "should_adapt a threshold \<longleftrightarrow> as_improvement_delta a < - threshold"

definition learned_outcomes :: "adaptation_knowledge \<Rightarrow> string \<Rightarrow> (string, string) dict" where
  "learned_outcomes k prefix =
     (if prefix = [] then ak_proposal_outcomes k else filter (\<lambda>(i, _). take (length prefix) i = prefix) (ak_proposal_outcomes k))"

section \<open>Learning\<close>

record prediction_record =
  pr_proposal_id :: string
  pr_predicted_utility :: real
  pr_predicted_cost :: real
  pr_predicted_risk :: string
  pr_timestamp :: nat

record outcome_record =
  or_proposal_id :: string
  or_observed_utility :: real
  or_observed_cost :: real
  or_observed_risk :: string
  or_improvement_delta :: real
  or_alignment_score :: real
  or_successful :: bool

record prediction_error =
  per_proposal_id :: string
  per_utility_error :: real
  per_cost_error :: real
  per_risk_miss :: bool
  per_absolute_error :: real

record learning_signal =
  lsg_signal_type :: string
  lsg_proposal_id :: string
  lsg_error :: "prediction_error option"
  lsg_observed_utility :: real
  lsg_predicted_utility :: real
  lsg_successful :: bool

record adaptation_knowledge_base =
  kb_predictions :: "prediction_record list"
  kb_outcomes :: "outcome_record list"
  kb_prediction_errors :: "prediction_error list"
  kb_proposal_outcomes :: "(string, string) dict"
  kb_cumulative_improvement :: real
  kb_average_utility_error :: real
  kb_average_cost_error :: real
  kb_utility_accuracy :: real
  kb_cost_accuracy :: real
  kb_risk_accuracy :: real
  kb_cycle_count :: nat
  kb_successful_proposals :: nat
  kb_failed_proposals :: nat

record generator_influence =
  gi_preferred_operation_types :: "string list"
  gi_avoided_operation_types :: "string list"
  gi_recommended_max_cost :: real
  gi_recommended_min_utility :: real
  gi_recommended_risk_tolerance :: string
  gi_adaptation_bias :: real

record learning_engine =
  le_knowledge :: adaptation_knowledge_base
  le_signal_counter :: nat

definition empty_knowledge :: adaptation_knowledge_base where
  "empty_knowledge =
     \<lparr>kb_predictions = [], kb_outcomes = [], kb_prediction_errors = [], kb_proposal_outcomes = [], kb_cumulative_improvement = 0,
      kb_average_utility_error = 0, kb_average_cost_error = 0, kb_utility_accuracy = 1, kb_cost_accuracy = 1, kb_risk_accuracy = 1,
      kb_cycle_count = 0, kb_successful_proposals = 0, kb_failed_proposals = 0\<rparr>"

definition new_learning_engine :: learning_engine where
  "new_learning_engine = \<lparr>le_knowledge = empty_knowledge, le_signal_counter = 0\<rparr>"

definition default_influence :: generator_influence where
  "default_influence =
     \<lparr>gi_preferred_operation_types = [], gi_avoided_operation_types = [], gi_recommended_max_cost = 100,
      gi_recommended_min_utility = 5/10, gi_recommended_risk_tolerance = ''MEDIUM'', gi_adaptation_bias = 0\<rparr>"

definition record_prediction :: "mutation_proposal \<Rightarrow> nat \<Rightarrow> prediction_record \<times> nat" where
  "record_prediction p counter =
     (\<lparr>pr_proposal_id = mp_proposal_id p, pr_predicted_utility = mp_expected_utility p, pr_predicted_cost = mp_estimated_cost p,
       pr_predicted_risk = mp_risk_assessment p, pr_timestamp = counter + 1\<rparr>, counter + 1)"

definition record_outcome :: "assessment \<Rightarrow> outcome_record" where
  "record_outcome a =
     \<lparr>or_proposal_id = as_proposal_id a, or_observed_utility = as_post_execution_utility_measured a,
      or_observed_cost = as_cost_actual a, or_observed_risk = as_risk_actual a, or_improvement_delta = as_improvement_delta a,
      or_alignment_score = as_alignment_score a, or_successful = xr_success (as_execution_result a)\<rparr>"

definition compute_prediction_error :: "prediction_record \<Rightarrow> outcome_record \<Rightarrow> prediction_error" where
  "compute_prediction_error p o' =
     (let ue = or_observed_utility o' - pr_predicted_utility p; ce = or_observed_cost o' - pr_predicted_cost p
      in \<lparr>per_proposal_id = pr_proposal_id p, per_utility_error = ue, per_cost_error = ce,
          per_risk_miss = (or_observed_risk o' \<noteq> pr_predicted_risk p), per_absolute_error = \<bar>ue\<bar> + \<bar>ce\<bar>\<rparr>)"

definition mean_of :: "real list \<Rightarrow> real" where
  "mean_of xs = sum_list xs / real (length xs)"

definition count_if :: "('a \<Rightarrow> bool) \<Rightarrow> 'a list \<Rightarrow> nat" where
  "count_if P xs = length (filter P xs)"

definition update_knowledge ::
  "prediction_record \<Rightarrow> outcome_record \<Rightarrow> prediction_error \<Rightarrow> adaptation_knowledge_base \<Rightarrow> adaptation_knowledge_base" where
  "update_knowledge p o' e k =
     (let outcomes = kb_outcomes k @ [o']; errors = kb_prediction_errors k @ [e];
          avg_cost = mean_of (map per_cost_error errors);
          successful = count_if (\<lambda>o'. or_improvement_delta o' > 0) outcomes; total = length outcomes
      in k\<lparr>kb_predictions := kb_predictions k @ [p], kb_outcomes := outcomes, kb_prediction_errors := errors,
           kb_proposal_outcomes := dict_set (or_proposal_id o') (outcome_word (or_improvement_delta o')) (kb_proposal_outcomes k),
           kb_cumulative_improvement := kb_cumulative_improvement k + or_improvement_delta o',
           kb_average_utility_error := mean_of (map per_utility_error errors), kb_average_cost_error := avg_cost,
           kb_utility_accuracy := real successful / real total,
           kb_cost_accuracy := 1 - min 1 (\<bar>avg_cost\<bar> / max (or_observed_cost o') (1/100)),
           kb_risk_accuracy := 1 - real (count_if per_risk_miss errors) / real total,
           kb_successful_proposals := successful, kb_failed_proposals := total - successful,
           kb_cycle_count := kb_cycle_count k + 1\<rparr>)"

definition signal_type :: "prediction_error \<Rightarrow> outcome_record \<Rightarrow> string" where
  "signal_type e o' =
     (if or_successful o' \<and> per_utility_error e > 0 then ''POSITIVE_SURPRISE''
      else if or_successful o' \<and> per_utility_error e < - (2/10) then ''NEGATIVE_SURPRISE''
      else if per_absolute_error e > 3/10 then ''ERROR_LARGE''
      else if per_absolute_error e > 15/100 then ''ERROR_MEDIUM''
      else if per_absolute_error e > 5/100 then ''ERROR_SMALL'' else ''INFO'')"

definition generate_learning_signal :: "prediction_error \<Rightarrow> outcome_record \<Rightarrow> learning_signal" where
  "generate_learning_signal e o' =
     \<lparr>lsg_signal_type = signal_type e o', lsg_proposal_id = per_proposal_id e, lsg_error = Some e,
      lsg_observed_utility = or_observed_utility o', lsg_predicted_utility = or_observed_utility o' - per_utility_error e,
      lsg_successful = or_successful o'\<rparr>"

definition last_ten :: "'a list \<Rightarrow> 'a list" where
  "last_ten xs = drop (length xs - 10) xs"

definition compute_generator_influence :: "adaptation_knowledge_base \<Rightarrow> generator_influence" where
  "compute_generator_influence k =
     (if kb_prediction_errors k = [] then default_influence
      else (let errors = last_ten (kb_prediction_errors k); outcomes = last_ten (kb_outcomes k);
                avg_utility = mean_of (map per_utility_error errors); avg_cost = mean_of (map per_cost_error errors);
                success_rate = real (count_if (\<lambda>o'. or_improvement_delta o' > 0) outcomes) / real (max (length outcomes) 1);
                risk_accuracy = 1 - real (count_if per_risk_miss errors) / real (max (length errors) 1)
            in \<lparr>gi_preferred_operation_types =
                  (if success_rate < 4/10 then [] else if success_rate > 7/10 then [''ADD_UNIT'', ''CONNECT_UNITS''] else []),
                gi_avoided_operation_types = (if success_rate < 4/10 then [''COMPOSE_UNITS'', ''SPECIALIZE_UNIT''] else []),
                gi_recommended_max_cost = max 10 (100 - avg_cost * 10),
                gi_recommended_min_utility = (if avg_utility < - (1/10) then max (3/10) (5/10 + avg_utility) else 5/10),
                gi_recommended_risk_tolerance = (if risk_accuracy < 5/10 then ''LOW'' else ''MEDIUM''),
                gi_adaptation_bias = kb_cumulative_improvement k / real (max (kb_cycle_count k) 1)\<rparr>))"

definition learn_from_assessment ::
  "prediction_record \<Rightarrow> assessment \<Rightarrow> learning_engine
   \<Rightarrow> (adaptation_knowledge_base \<times> learning_signal list \<times> generator_influence) \<times> learning_engine" where
  "learn_from_assessment p a le =
     (let o' = record_outcome a; e = compute_prediction_error p o'; k = update_knowledge p o' e (le_knowledge le)
      in ((k, [generate_learning_signal e o'], compute_generator_influence k),
          \<lparr>le_knowledge = k, le_signal_counter = le_signal_counter le + 1\<rparr>))"

definition reset_knowledge :: "learning_engine \<Rightarrow> learning_engine" where
  "reset_knowledge le = new_learning_engine"

section \<open>What the knowledge base says\<close>

text \<open>The knowledge base restates its history: counts, sums, means and shares of the recorded outcomes.\<close>

definition knowledge_ok :: "adaptation_knowledge_base \<Rightarrow> bool" where
  "knowledge_ok k \<longleftrightarrow>
     length (kb_predictions k) = kb_cycle_count k \<and> length (kb_outcomes k) = kb_cycle_count k
     \<and> length (kb_prediction_errors k) = kb_cycle_count k
     \<and> kb_successful_proposals k + kb_failed_proposals k = kb_cycle_count k
     \<and> kb_cumulative_improvement k = sum_list (map or_improvement_delta (kb_outcomes k))
     \<and> (kb_cycle_count k > 0 \<longrightarrow> kb_average_utility_error k = mean_of (map per_utility_error (kb_prediction_errors k)))
     \<and> 0 \<le> kb_utility_accuracy k \<and> kb_utility_accuracy k \<le> 1 \<and> 0 \<le> kb_cost_accuracy k \<and> kb_cost_accuracy k \<le> 1
     \<and> 0 \<le> kb_risk_accuracy k \<and> kb_risk_accuracy k \<le> 1"

lemma count_if_le: "count_if P xs \<le> length xs"
  by (simp add: count_if_def)

lemma share_bounds: "length xs = n \<Longrightarrow> 0 \<le> real (count_if P xs) / real n \<and> real (count_if P xs) / real n \<le> 1"
  using count_if_le [of P xs] by (auto simp: divide_le_eq_1)

lemma update_knowledge_ok:
  assumes "knowledge_ok k"
  shows "knowledge_ok (update_knowledge p o' e k)"
proof -
  have l: "length (kb_predictions k) = kb_cycle_count k" "length (kb_outcomes k) = kb_cycle_count k"
    "length (kb_prediction_errors k) = kb_cycle_count k" "kb_cumulative_improvement k = sum_list (map or_improvement_delta (kb_outcomes k))"
    using assms by (simp_all add: knowledge_ok_def)
  let ?n = "Suc (kb_cycle_count k)"
  have s: "0 \<le> real (count_if P (kb_outcomes k @ [o'])) / real ?n \<and> real (count_if P (kb_outcomes k @ [o'])) / real ?n \<le> 1" for P
    using share_bounds [of "kb_outcomes k @ [o']" ?n P] l by simp
  have r: "0 \<le> real (count_if P (kb_prediction_errors k @ [e])) / real ?n \<and> real (count_if P (kb_prediction_errors k @ [e])) / real ?n \<le> 1" for P
    using share_bounds [of "kb_prediction_errors k @ [e]" ?n P] l by simp
  have c: "count_if P (kb_outcomes k @ [o']) \<le> ?n" for P
    using count_if_le [of P "kb_outcomes k @ [o']"] l by simp
  have m: "0 \<le> \<bar>x\<bar> / max y (1/100)" for x y :: real
    by (rule divide_nonneg_pos) (auto simp: max_def)
  show ?thesis using l s r c m by (simp add: knowledge_ok_def update_knowledge_def Let_def add.commute)
qed

text \<open>
  Learning is bounded and truthful: after any sequence of assessments the knowledge base has
  counted each of them once, as an improvement or as a failure, its cumulative improvement is the
  sum of the observed ones, every accuracy lies between 0 and 1, and the influence on the
  generator stays within its bounds.
\<close>

theorem learning_bounded:
  fixes cs :: "(prediction_record \<times> assessment) list"
  defines "k \<equiv> le_knowledge (fold (\<lambda>(p, a) le. snd (learn_from_assessment p a le)) cs new_learning_engine)"
  shows "kb_outcomes k = map (\<lambda>(p, a). record_outcome a) cs \<and> kb_cycle_count k = length cs
    \<and> kb_successful_proposals k + kb_failed_proposals k = length cs
    \<and> kb_cumulative_improvement k = sum_list (map (\<lambda>(p, a). as_improvement_delta a) cs)
    \<and> kb_utility_accuracy k \<in> {0..1} \<and> kb_cost_accuracy k \<in> {0..1} \<and> kb_risk_accuracy k \<in> {0..1}
    \<and> gi_recommended_min_utility (compute_generator_influence k) \<in> {3/10..5/10}
    \<and> 10 \<le> gi_recommended_max_cost (compute_generator_influence k)"
proof -
  have step: "knowledge_ok (le_knowledge le) \<Longrightarrow>
      knowledge_ok (le_knowledge (fold (\<lambda>(p, a) le. snd (learn_from_assessment p a le)) cs le))
      \<and> kb_outcomes (le_knowledge (fold (\<lambda>(p, a) le. snd (learn_from_assessment p a le)) cs le))
          = kb_outcomes (le_knowledge le) @ map (\<lambda>(p, a). record_outcome a) cs" for le
  proof (induction cs arbitrary: le)
    case (Cons c cs)
    obtain p a where c: "c = (p, a)" by fastforce
    let ?le = "snd (learn_from_assessment p a le)"
    have "knowledge_ok (le_knowledge ?le)" and "kb_outcomes (le_knowledge ?le) = kb_outcomes (le_knowledge le) @ [record_outcome a]"
      using update_knowledge_ok [OF Cons.prems] by (simp_all add: learn_from_assessment_def Let_def update_knowledge_def)
    with Cons.IH [of ?le] show ?case by (simp add: c)
  qed simp
  have "knowledge_ok (le_knowledge new_learning_engine)"
    by (simp add: new_learning_engine_def empty_knowledge_def knowledge_ok_def)
  from step [OF this] have ok: "knowledge_ok k" and o': "kb_outcomes k = map (\<lambda>(p, a). record_outcome a) cs"
    by (simp_all add: k_def new_learning_engine_def empty_knowledge_def)
  have "sum_list (map or_improvement_delta (kb_outcomes k)) = sum_list (map (\<lambda>(p, a). as_improvement_delta a) cs)"
    by (simp add: o' record_outcome_def o_def case_prod_unfold)
  moreover have "length (kb_outcomes k) = length cs" by (simp add: o')
  moreover have "gi_recommended_min_utility (compute_generator_influence k) \<in> {3/10..5/10}"
    "10 \<le> gi_recommended_max_cost (compute_generator_influence k)"
    by (auto simp: compute_generator_influence_def default_influence_def Let_def max_def)
  ultimately show ?thesis using ok o' by (auto simp: knowledge_ok_def)
qed

end
