(* ===== verification/Cognition.thy ===== *)
theory Cognition
  imports IR_Contracts Py_Library
begin

text \<open>
  The contracts of the cognitive runtime (\<open>cognition/contracts.py\<close>): the enumerations with their
  string values and one record per class with the checks of its constructor on well-typed
  arguments. Floating-point values are real numbers; they are only compared.
\<close>

section \<open>Enumerations\<close>

datatype risk_class =
  RISK_LOW | RISK_MEDIUM | RISK_HIGH | RISK_CRITICAL

definition risk_class_members :: "risk_class list" where
  "risk_class_members = [RISK_LOW, RISK_MEDIUM, RISK_HIGH, RISK_CRITICAL]"

fun risk_class_value :: "risk_class \<Rightarrow> string" where
  "risk_class_value RISK_LOW = ''LOW''"
| "risk_class_value RISK_MEDIUM = ''MEDIUM''"
| "risk_class_value RISK_HIGH = ''HIGH''"
| "risk_class_value RISK_CRITICAL = ''CRITICAL''"

interpretation risk_class: value_enum risk_class_members risk_class_value
  by unfold_locales (auto simp: risk_class_members_def, metis risk_class.exhaust)

datatype epistemic_status =
  ES_VERIFIED_FACT | ES_DIRECT_OBSERVATION | ES_RETRIEVED_CLAIM | ES_MODEL_INFERENCE | ES_FACT
   | ES_OBSERVATION | ES_ASSUMPTION | ES_PREDICTION | ES_CONFLICT | ES_UNKNOWN
   | ES_CAPABILITY_LIMIT | ES_UNVERIFIABLE | ES_RETRACTED

definition epistemic_status_members :: "epistemic_status list" where
  "epistemic_status_members = [ES_VERIFIED_FACT, ES_DIRECT_OBSERVATION, ES_RETRIEVED_CLAIM, ES_MODEL_INFERENCE, ES_FACT
    , ES_OBSERVATION, ES_ASSUMPTION, ES_PREDICTION, ES_CONFLICT, ES_UNKNOWN, ES_CAPABILITY_LIMIT
    , ES_UNVERIFIABLE, ES_RETRACTED]"

fun epistemic_status_value :: "epistemic_status \<Rightarrow> string" where
  "epistemic_status_value ES_VERIFIED_FACT = ''VERIFIED_FACT''"
| "epistemic_status_value ES_DIRECT_OBSERVATION = ''DIRECT_OBSERVATION''"
| "epistemic_status_value ES_RETRIEVED_CLAIM = ''RETRIEVED_CLAIM''"
| "epistemic_status_value ES_MODEL_INFERENCE = ''MODEL_INFERENCE''"
| "epistemic_status_value ES_FACT = ''FACT''"
| "epistemic_status_value ES_OBSERVATION = ''OBSERVATION''"
| "epistemic_status_value ES_ASSUMPTION = ''ASSUMPTION''"
| "epistemic_status_value ES_PREDICTION = ''PREDICTION''"
| "epistemic_status_value ES_CONFLICT = ''CONFLICT''"
| "epistemic_status_value ES_UNKNOWN = ''UNKNOWN''"
| "epistemic_status_value ES_CAPABILITY_LIMIT = ''CAPABILITY_LIMIT''"
| "epistemic_status_value ES_UNVERIFIABLE = ''UNVERIFIABLE''"
| "epistemic_status_value ES_RETRACTED = ''RETRACTED''"

interpretation epistemic_status: value_enum epistemic_status_members epistemic_status_value
  by unfold_locales (auto simp: epistemic_status_members_def, metis epistemic_status.exhaust)

datatype cognitive_action_type =
  CA_REASON | CA_CONTINUE | CA_BRANCH | CA_VERIFY | CA_RETRIEVE | CA_OBSERVE_OR_TEST | CA_ASK
   | CA_REPAIR | CA_REUSE_SKILL | CA_RESTRUCTURE | CA_ESCALATE | CA_RESUME | CA_STOP
   | CA_ABSTAIN

definition cognitive_action_type_members :: "cognitive_action_type list" where
  "cognitive_action_type_members = [CA_REASON, CA_CONTINUE, CA_BRANCH, CA_VERIFY, CA_RETRIEVE, CA_OBSERVE_OR_TEST, CA_ASK, CA_REPAIR
    , CA_REUSE_SKILL, CA_RESTRUCTURE, CA_ESCALATE, CA_RESUME, CA_STOP, CA_ABSTAIN]"

fun cognitive_action_type_value :: "cognitive_action_type \<Rightarrow> string" where
  "cognitive_action_type_value CA_REASON = ''REASON''"
| "cognitive_action_type_value CA_CONTINUE = ''CONTINUE''"
| "cognitive_action_type_value CA_BRANCH = ''BRANCH''"
| "cognitive_action_type_value CA_VERIFY = ''VERIFY''"
| "cognitive_action_type_value CA_RETRIEVE = ''RETRIEVE''"
| "cognitive_action_type_value CA_OBSERVE_OR_TEST = ''OBSERVE_OR_TEST''"
| "cognitive_action_type_value CA_ASK = ''ASK''"
| "cognitive_action_type_value CA_REPAIR = ''REPAIR''"
| "cognitive_action_type_value CA_REUSE_SKILL = ''REUSE_SKILL''"
| "cognitive_action_type_value CA_RESTRUCTURE = ''RESTRUCTURE''"
| "cognitive_action_type_value CA_ESCALATE = ''ESCALATE''"
| "cognitive_action_type_value CA_RESUME = ''RESUME''"
| "cognitive_action_type_value CA_STOP = ''STOP''"
| "cognitive_action_type_value CA_ABSTAIN = ''ABSTAIN''"

interpretation cognitive_action_type: value_enum cognitive_action_type_members cognitive_action_type_value
  by unfold_locales (auto simp: cognitive_action_type_members_def, metis cognitive_action_type.exhaust)

datatype halting_decision_type =
  HD_STOP | HD_CONTINUE | HD_ABSTAIN | HD_ASK | HD_VERIFY | HD_REPAIR | HD_ESCALATE

definition halting_decision_type_members :: "halting_decision_type list" where
  "halting_decision_type_members = [HD_STOP, HD_CONTINUE, HD_ABSTAIN, HD_ASK, HD_VERIFY, HD_REPAIR, HD_ESCALATE]"

fun halting_decision_type_value :: "halting_decision_type \<Rightarrow> string" where
  "halting_decision_type_value HD_STOP = ''STOP''"
| "halting_decision_type_value HD_CONTINUE = ''CONTINUE''"
| "halting_decision_type_value HD_ABSTAIN = ''ABSTAIN''"
| "halting_decision_type_value HD_ASK = ''ASK''"
| "halting_decision_type_value HD_VERIFY = ''VERIFY''"
| "halting_decision_type_value HD_REPAIR = ''REPAIR''"
| "halting_decision_type_value HD_ESCALATE = ''ESCALATE''"

interpretation halting_decision_type: value_enum halting_decision_type_members halting_decision_type_value
  by unfold_locales (auto simp: halting_decision_type_members_def, metis halting_decision_type.exhaust)

datatype cognitive_tier =
  TIER_INVARIANT | TIER_CONSTRAINT | TIER_POLICY | TIER_PREFERENCE

definition cognitive_tier_members :: "cognitive_tier list" where
  "cognitive_tier_members = [TIER_INVARIANT, TIER_CONSTRAINT, TIER_POLICY, TIER_PREFERENCE]"

fun cognitive_tier_value :: "cognitive_tier \<Rightarrow> string" where
  "cognitive_tier_value TIER_INVARIANT = ''INVARIANT''"
| "cognitive_tier_value TIER_CONSTRAINT = ''CONSTRAINT''"
| "cognitive_tier_value TIER_POLICY = ''POLICY''"
| "cognitive_tier_value TIER_PREFERENCE = ''PREFERENCE''"

interpretation cognitive_tier: value_enum cognitive_tier_members cognitive_tier_value
  by unfold_locales (auto simp: cognitive_tier_members_def, metis cognitive_tier.exhaust)

datatype evidence_source_type =
  EV_USER_PROVIDED | EV_SYSTEM | EV_RETRIEVED | EV_TOOL | EV_MODEL | EV_HUMAN

definition evidence_source_type_members :: "evidence_source_type list" where
  "evidence_source_type_members = [EV_USER_PROVIDED, EV_SYSTEM, EV_RETRIEVED, EV_TOOL, EV_MODEL, EV_HUMAN]"

fun evidence_source_type_value :: "evidence_source_type \<Rightarrow> string" where
  "evidence_source_type_value EV_USER_PROVIDED = ''USER_PROVIDED''"
| "evidence_source_type_value EV_SYSTEM = ''SYSTEM''"
| "evidence_source_type_value EV_RETRIEVED = ''RETRIEVED''"
| "evidence_source_type_value EV_TOOL = ''TOOL''"
| "evidence_source_type_value EV_MODEL = ''MODEL''"
| "evidence_source_type_value EV_HUMAN = ''HUMAN''"

interpretation evidence_source_type: value_enum evidence_source_type_members evidence_source_type_value
  by unfold_locales (auto simp: evidence_source_type_members_def, metis evidence_source_type.exhaust)

datatype relation_type =
  REL_SUPPORTS | REL_CONTRADICTS | REL_DEPENDS_ON | REL_INVALIDATES

definition relation_type_members :: "relation_type list" where
  "relation_type_members = [REL_SUPPORTS, REL_CONTRADICTS, REL_DEPENDS_ON, REL_INVALIDATES]"

fun relation_type_value :: "relation_type \<Rightarrow> string" where
  "relation_type_value REL_SUPPORTS = ''SUPPORTS''"
| "relation_type_value REL_CONTRADICTS = ''CONTRADICTS''"
| "relation_type_value REL_DEPENDS_ON = ''DEPENDS_ON''"
| "relation_type_value REL_INVALIDATES = ''INVALIDATES''"

interpretation relation_type: value_enum relation_type_members relation_type_value
  by unfold_locales (auto simp: relation_type_members_def, metis relation_type.exhaust)

datatype invalidation_status =
  IV_CURRENT | IV_STALE | IV_INVALID | IV_SUPERSEDED

definition invalidation_status_members :: "invalidation_status list" where
  "invalidation_status_members = [IV_CURRENT, IV_STALE, IV_INVALID, IV_SUPERSEDED]"

fun invalidation_status_value :: "invalidation_status \<Rightarrow> string" where
  "invalidation_status_value IV_CURRENT = ''CURRENT''"
| "invalidation_status_value IV_STALE = ''STALE''"
| "invalidation_status_value IV_INVALID = ''INVALID''"
| "invalidation_status_value IV_SUPERSEDED = ''SUPERSEDED''"

interpretation invalidation_status: value_enum invalidation_status_members invalidation_status_value
  by unfold_locales (auto simp: invalidation_status_members_def, metis invalidation_status.exhaust)

datatype hypothesis_status =
  HS_PROPOSED | HS_ACTIVE | HS_TEST_PLANNED | HS_OBSERVATION_RECEIVED | HS_SUPPORTED | HS_WEAKENED
   | HS_FALSIFIED | HS_UNRESOLVED | HS_ACCEPTED_FOR_ACTION | HS_RETIRED

definition hypothesis_status_members :: "hypothesis_status list" where
  "hypothesis_status_members = [HS_PROPOSED, HS_ACTIVE, HS_TEST_PLANNED, HS_OBSERVATION_RECEIVED, HS_SUPPORTED, HS_WEAKENED
    , HS_FALSIFIED, HS_UNRESOLVED, HS_ACCEPTED_FOR_ACTION, HS_RETIRED]"

fun hypothesis_status_value :: "hypothesis_status \<Rightarrow> string" where
  "hypothesis_status_value HS_PROPOSED = ''PROPOSED''"
| "hypothesis_status_value HS_ACTIVE = ''ACTIVE''"
| "hypothesis_status_value HS_TEST_PLANNED = ''TEST_PLANNED''"
| "hypothesis_status_value HS_OBSERVATION_RECEIVED = ''OBSERVATION_RECEIVED''"
| "hypothesis_status_value HS_SUPPORTED = ''SUPPORTED''"
| "hypothesis_status_value HS_WEAKENED = ''WEAKENED''"
| "hypothesis_status_value HS_FALSIFIED = ''FALSIFIED''"
| "hypothesis_status_value HS_UNRESOLVED = ''UNRESOLVED''"
| "hypothesis_status_value HS_ACCEPTED_FOR_ACTION = ''ACCEPTED_FOR_ACTION''"
| "hypothesis_status_value HS_RETIRED = ''RETIRED''"

interpretation hypothesis_status: value_enum hypothesis_status_members hypothesis_status_value
  by unfold_locales (auto simp: hypothesis_status_members_def, metis hypothesis_status.exhaust)

datatype task_lifecycle_state =
  TL_RECEIVED | TL_NORMALIZED | TL_POLICY_BOUND | TL_ACTIVE | TL_WAITING_INPUT
   | TL_WAITING_APPROVAL | TL_WAITING_OUTCOME | TL_PAUSED | TL_COMPLETED | TL_ABSTAINED
   | TL_CANCELLED | TL_FAILED | TL_ESCALATED

definition task_lifecycle_state_members :: "task_lifecycle_state list" where
  "task_lifecycle_state_members = [TL_RECEIVED, TL_NORMALIZED, TL_POLICY_BOUND, TL_ACTIVE, TL_WAITING_INPUT, TL_WAITING_APPROVAL
    , TL_WAITING_OUTCOME, TL_PAUSED, TL_COMPLETED, TL_ABSTAINED, TL_CANCELLED, TL_FAILED
    , TL_ESCALATED]"

fun task_lifecycle_state_value :: "task_lifecycle_state \<Rightarrow> string" where
  "task_lifecycle_state_value TL_RECEIVED = ''RECEIVED''"
| "task_lifecycle_state_value TL_NORMALIZED = ''NORMALIZED''"
| "task_lifecycle_state_value TL_POLICY_BOUND = ''POLICY_BOUND''"
| "task_lifecycle_state_value TL_ACTIVE = ''ACTIVE''"
| "task_lifecycle_state_value TL_WAITING_INPUT = ''WAITING_INPUT''"
| "task_lifecycle_state_value TL_WAITING_APPROVAL = ''WAITING_APPROVAL''"
| "task_lifecycle_state_value TL_WAITING_OUTCOME = ''WAITING_OUTCOME''"
| "task_lifecycle_state_value TL_PAUSED = ''PAUSED''"
| "task_lifecycle_state_value TL_COMPLETED = ''COMPLETED''"
| "task_lifecycle_state_value TL_ABSTAINED = ''ABSTAINED''"
| "task_lifecycle_state_value TL_CANCELLED = ''CANCELLED''"
| "task_lifecycle_state_value TL_FAILED = ''FAILED''"
| "task_lifecycle_state_value TL_ESCALATED = ''ESCALATED''"

interpretation task_lifecycle_state: value_enum task_lifecycle_state_members task_lifecycle_state_value
  by unfold_locales (auto simp: task_lifecycle_state_members_def, metis task_lifecycle_state.exhaust)

datatype action_lifecycle_state =
  AL_PROPOSED | AL_VALIDATED | AL_POLICY_CHECKED | AL_AUTHORIZED | AL_PREPARED | AL_EXECUTING
   | AL_OBSERVED | AL_VERIFIED | AL_ASSESSED | AL_CLOSED | AL_REJECTED | AL_CANCELLED
   | AL_TIMED_OUT | AL_FAILED | AL_COMPENSATION_REQUIRED | AL_QUARANTINED

definition action_lifecycle_state_members :: "action_lifecycle_state list" where
  "action_lifecycle_state_members = [AL_PROPOSED, AL_VALIDATED, AL_POLICY_CHECKED, AL_AUTHORIZED, AL_PREPARED, AL_EXECUTING
    , AL_OBSERVED, AL_VERIFIED, AL_ASSESSED, AL_CLOSED, AL_REJECTED, AL_CANCELLED, AL_TIMED_OUT
    , AL_FAILED, AL_COMPENSATION_REQUIRED, AL_QUARANTINED]"

fun action_lifecycle_state_value :: "action_lifecycle_state \<Rightarrow> string" where
  "action_lifecycle_state_value AL_PROPOSED = ''PROPOSED''"
| "action_lifecycle_state_value AL_VALIDATED = ''VALIDATED''"
| "action_lifecycle_state_value AL_POLICY_CHECKED = ''POLICY_CHECKED''"
| "action_lifecycle_state_value AL_AUTHORIZED = ''AUTHORIZED''"
| "action_lifecycle_state_value AL_PREPARED = ''PREPARED''"
| "action_lifecycle_state_value AL_EXECUTING = ''EXECUTING''"
| "action_lifecycle_state_value AL_OBSERVED = ''OBSERVED''"
| "action_lifecycle_state_value AL_VERIFIED = ''VERIFIED''"
| "action_lifecycle_state_value AL_ASSESSED = ''ASSESSED''"
| "action_lifecycle_state_value AL_CLOSED = ''CLOSED''"
| "action_lifecycle_state_value AL_REJECTED = ''REJECTED''"
| "action_lifecycle_state_value AL_CANCELLED = ''CANCELLED''"
| "action_lifecycle_state_value AL_TIMED_OUT = ''TIMED_OUT''"
| "action_lifecycle_state_value AL_FAILED = ''FAILED''"
| "action_lifecycle_state_value AL_COMPENSATION_REQUIRED = ''COMPENSATION_REQUIRED''"
| "action_lifecycle_state_value AL_QUARANTINED = ''QUARANTINED''"

interpretation action_lifecycle_state: value_enum action_lifecycle_state_members action_lifecycle_state_value
  by unfold_locales (auto simp: action_lifecycle_state_members_def, metis action_lifecycle_state.exhaust)

datatype outcome_lifecycle_state =
  OL_PREDICTED | OL_IMMEDIATE_OBSERVED | OL_INTERIM_ASSESSED | OL_DELAYED_PENDING
   | OL_DELAYED_OBSERVED | OL_CLOSED | OL_LEARNING_ELIGIBLE

definition outcome_lifecycle_state_members :: "outcome_lifecycle_state list" where
  "outcome_lifecycle_state_members = [OL_PREDICTED, OL_IMMEDIATE_OBSERVED, OL_INTERIM_ASSESSED, OL_DELAYED_PENDING
    , OL_DELAYED_OBSERVED, OL_CLOSED, OL_LEARNING_ELIGIBLE]"

fun outcome_lifecycle_state_value :: "outcome_lifecycle_state \<Rightarrow> string" where
  "outcome_lifecycle_state_value OL_PREDICTED = ''PREDICTED''"
| "outcome_lifecycle_state_value OL_IMMEDIATE_OBSERVED = ''IMMEDIATE_OBSERVED''"
| "outcome_lifecycle_state_value OL_INTERIM_ASSESSED = ''INTERIM_ASSESSED''"
| "outcome_lifecycle_state_value OL_DELAYED_PENDING = ''DELAYED_PENDING''"
| "outcome_lifecycle_state_value OL_DELAYED_OBSERVED = ''DELAYED_OBSERVED''"
| "outcome_lifecycle_state_value OL_CLOSED = ''CLOSED''"
| "outcome_lifecycle_state_value OL_LEARNING_ELIGIBLE = ''LEARNING_ELIGIBLE''"

interpretation outcome_lifecycle_state: value_enum outcome_lifecycle_state_members outcome_lifecycle_state_value
  by unfold_locales (auto simp: outcome_lifecycle_state_members_def, metis outcome_lifecycle_state.exhaust)

datatype clarification_status =
  CL_NOT_REQUIRED | CL_REQUIRED | CL_ANSWERED

definition clarification_status_members :: "clarification_status list" where
  "clarification_status_members = [CL_NOT_REQUIRED, CL_REQUIRED, CL_ANSWERED]"

fun clarification_status_value :: "clarification_status \<Rightarrow> string" where
  "clarification_status_value CL_NOT_REQUIRED = ''NOT_REQUIRED''"
| "clarification_status_value CL_REQUIRED = ''REQUIRED''"
| "clarification_status_value CL_ANSWERED = ''ANSWERED''"

interpretation clarification_status: value_enum clarification_status_members clarification_status_value
  by unfold_locales (auto simp: clarification_status_members_def, metis clarification_status.exhaust)

section \<open>Records and their checks\<close>

record clarification_request =
  clr_request_id :: string
  clr_task_id :: string
  clr_question :: string
  clr_ambiguous_fields :: "string list"
  clr_status :: clarification_status
  clr_tenant_id :: string
  clr_schema_version :: string

definition ClarificationRequest_post_init :: "clarification_request \<Rightarrow> clarification_request res" where
  "ClarificationRequest_post_init x =
     require (clr_request_id x \<noteq> [] \<and> clr_task_id x \<noteq> [])
       (ValueError ''clarification request IDs MUST be non-empty'') (
     require (clr_question x \<noteq> [])
       (ValueError ''clarification question MUST be non-empty'') (
     require (clr_ambiguous_fields x \<noteq> [])
       (ValueError ''clarification requests MUST name ambiguous fields'') (Inr x)))"

record rationale_code =
  rc_code :: string
  rc_label :: string
  rc_evidence_ids :: "string list"
  rc_policy_refs :: "string list"
  rc_thresholds :: "(string, real) dict"
  rc_schema_version :: string

definition hidden_label :: "string \<Rightarrow> bool" where
  "hidden_label label \<longleftrightarrow> (let n = map (\<lambda>c. if c = CHR ''-'' then CHR ''_'' else c) (casefold label) in
     contains_text ''chain_of_thought'' n \<or> contains_text ''hidden reasoning'' n)"

definition RationaleCode_post_init :: "rationale_code \<Rightarrow> rationale_code res" where
  "RationaleCode_post_init x =
     require (rc_code x \<noteq> [] \<and> rc_label x \<noteq> [])
       (ValueError ''rationale code and label MUST be non-empty'') (
     require (\<not> hidden_label (rc_label x))
       (ValueError ''rationale codes MUST NOT encode hidden chain-of-thought'') (Inr x))"

record confidence_estimate =
  cf_estimate_id :: string
  cf_target_id :: string
  cf_target_type :: string
  cf_p_correct :: "real option"
  cf_failure_probability :: "real option"
  cf_lower_bound :: "real option"
  cf_upper_bound :: "real option"
  cf_method :: string
  cf_calibration_model :: "string option"
  cf_calibration_dataset :: "string option"
  cf_calibration_split :: "string option"
  cf_calibration_version :: "string option"
  cf_domain :: string
  cf_risk_class :: risk_class
  cf_capability_fingerprint :: "string option"
  cf_prompt_fingerprint :: "string option"
  cf_verifier_fingerprints :: "string list"
  cf_sample_count :: int
  cf_semantic_cluster_count :: int
  cf_correlation_groups :: "string list"
  cf_held_out_metrics :: "(string, real) dict"
  cf_shift_indicators :: "(string, real) dict"
  cf_applicability_status :: string
  cf_schema_version :: string
  cf_metadata :: "(string, pyval) dict"

definition ConfidenceEstimate_post_init :: "confidence_estimate \<Rightarrow> confidence_estimate res" where
  "ConfidenceEstimate_post_init x =
     require (cf_estimate_id x \<noteq> [] \<and> cf_target_id x \<noteq> [] \<and> cf_target_type x \<noteq> [])
       (ValueError ''confidence estimate IDs MUST be non-empty'') (
     require (case cf_p_correct x of None \<Rightarrow> True | Some v \<Rightarrow> 0 \<le> v \<and> v \<le> 1)
       (ValueError ''p_correct MUST be between 0 and 1'') (
     require (case cf_failure_probability x of None \<Rightarrow> True | Some v \<Rightarrow> 0 \<le> v \<and> v \<le> 1)
       (ValueError ''failure_probability MUST be between 0 and 1'') (
     require (case cf_lower_bound x of None \<Rightarrow> True | Some v \<Rightarrow> 0 \<le> v \<and> v \<le> 1)
       (ValueError ''lower_bound MUST be between 0 and 1'') (
     require (case cf_upper_bound x of None \<Rightarrow> True | Some v \<Rightarrow> 0 \<le> v \<and> v \<le> 1)
       (ValueError ''upper_bound MUST be between 0 and 1'') (
     require ((\<forall>v \<in> {cf_p_correct x, cf_failure_probability x, cf_lower_bound x, cf_upper_bound x}. v = None)
         \<or> cf_applicability_status x \<in> {''calibrated'', ''extrapolated''})
       (ValueError ''numeric confidence requires applicable calibration evidence'') (
     require (\<not> (cf_sample_count x < 0 \<or> cf_semantic_cluster_count x < 0))
       (ValueError ''confidence sample and cluster counts MUST be non-negative'') (Inr x)))))))"

record action_outcome =
  ao_outcome_id :: string
  ao_action_id :: string
  ao_attempt_id :: string
  ao_trace_id :: string
  ao_lifecycle_state :: outcome_lifecycle_state
  ao_execution_status :: string
  ao_observations :: "string list"
  ao_artifact_refs :: "string list"
  ao_exceptions :: "string list"
  ao_provider_fingerprint :: "string option"
  ao_snapshot_id :: "string option"
  ao_replay_grade :: "string option"
  ao_isolation_grade :: "string option"
  ao_realized_costs :: "(string, real) dict"
  ao_side_effect_refs :: "string list"
  ao_compensation_status :: string
  ao_verifier_results :: "string list"
  ao_contradiction_ids :: "string list"
  ao_confidence_ref :: "string option"
  ao_predicted_realized_deltas :: "(string, real) dict"
  ao_cleanup_confirmed :: bool
  ao_tenant_id :: string
  ao_security_labels :: "string list"
  ao_schema_version :: string

definition ActionOutcome_post_init :: "action_outcome \<Rightarrow> action_outcome res" where
  "ActionOutcome_post_init x =
     require (ao_outcome_id x \<noteq> [] \<and> ao_action_id x \<noteq> [] \<and> ao_attempt_id x \<noteq> [] \<and> ao_trace_id x \<noteq> [])
       (ValueError ''outcome/action/attempt/trace IDs MUST be non-empty'') (Inr x)"

record objective_constraint =
  oc_constraint_id :: string
  oc_predicate :: string
  oc_label :: string
  oc_tier :: cognitive_tier
  oc_scope :: string
  oc_activation_condition :: string
  oc_violation_severity :: risk_class
  oc_detector_version :: string
  oc_override_authority :: "string option"
  oc_override_forbidden :: bool
  oc_remediation :: string

definition ObjectiveConstraint_post_init :: "objective_constraint \<Rightarrow> objective_constraint res" where
  "ObjectiveConstraint_post_init x =
     require (oc_constraint_id x \<noteq> [])
       (ValueError ''constraint_id MUST be non-empty'') (
     require (oc_predicate x \<noteq> [])
       (ValueError ''predicate MUST be non-empty'') (
     require (oc_label x \<noteq> [])
       (ValueError ''label MUST be non-empty'') (Inr x)))"

record cognitive_budgets =
  bud_tokens :: "int option"
  bud_money :: "real option"
  bud_wall_time_ms :: "int option"
  bud_accelerator_time_ms :: "int option"
  bud_tool_calls :: "int option"
  bud_branch_count :: "int option"
  bud_attempt_count :: "int option"

definition CognitiveBudgets_post_init :: "cognitive_budgets \<Rightarrow> cognitive_budgets res" where
  "CognitiveBudgets_post_init x =
     require (case bud_tokens x of None \<Rightarrow> True | Some v \<Rightarrow> \<not> v < 0)
       (ValueError ''tokens MUST be non-negative when provided'') (
     require (case bud_money x of None \<Rightarrow> True | Some v \<Rightarrow> \<not> v < 0)
       (ValueError ''money MUST be non-negative when provided'') (
     require (case bud_wall_time_ms x of None \<Rightarrow> True | Some v \<Rightarrow> \<not> v < 0)
       (ValueError ''wall_time_ms MUST be non-negative when provided'') (
     require (case bud_accelerator_time_ms x of None \<Rightarrow> True | Some v \<Rightarrow> \<not> v < 0)
       (ValueError ''accelerator_time_ms MUST be non-negative when provided'') (
     require (case bud_tool_calls x of None \<Rightarrow> True | Some v \<Rightarrow> \<not> v < 0)
       (ValueError ''tool_calls MUST be non-negative when provided'') (
     require (case bud_branch_count x of None \<Rightarrow> True | Some v \<Rightarrow> \<not> v < 0)
       (ValueError ''branch_count MUST be non-negative when provided'') (
     require (case bud_attempt_count x of None \<Rightarrow> True | Some v \<Rightarrow> \<not> v < 0)
       (ValueError ''attempt_count MUST be non-negative when provided'') (Inr x)))))))"

record goal_invariant =
  gi_objective :: string
  gi_success_criteria :: "string list"
  gi_constraints :: "string list"
  gi_authority :: "string list"
  gi_mandatory_verification :: "string list"

definition GoalInvariant_post_init :: "goal_invariant \<Rightarrow> goal_invariant res" where
  "GoalInvariant_post_init x =
     require (gi_objective x \<noteq> [])
       (ValueError ''objective MUST be non-empty'') (Inr x)"

record policy_context =
  pcx_risk_class :: risk_class
  pcx_budget :: "real option"
  pcx_deadline :: "string option"
  pcx_data_boundaries :: "string list"
  pcx_side_effect_boundaries :: "string list"

definition PolicyContext_post_init :: "policy_context \<Rightarrow> policy_context res" where
  "PolicyContext_post_init x =
     require (case pcx_budget x of None \<Rightarrow> True | Some v \<Rightarrow> \<not> v < 0)
       (ValueError ''budget MUST be non-negative when provided'') (Inr x)"

record task_spec =
  tsk_task_id :: string
  tsk_description :: string
  tsk_goal :: goal_invariant
  tsk_policy :: policy_context
  tsk_parent_task_id :: "string option"
  tsk_tenant_id :: string
  tsk_actor_id :: string
  tsk_session_id :: string
  tsk_expected_output_contract :: "(string, pyval) dict"
  tsk_constraints :: "objective_constraint list"
  tsk_prohibited_outcomes :: "string list"
  tsk_soft_preferences :: "string list"
  tsk_domain :: string
  tsk_data_classification :: string
  tsk_jurisdiction_tags :: "string list"
  tsk_budgets :: cognitive_budgets
  tsk_required_evidence :: "string list"
  tsk_acceptable_uncertainty :: "real option"
  tsk_abstention_rule :: string
  tsk_escalation_rule :: string
  tsk_side_effect_class :: side_effect_class
  tsk_retention_policy :: string
  tsk_audit_policy :: string
  tsk_user_sources :: "string list"
  tsk_system_sources :: "string list"
  tsk_retrieved_sources :: "string list"
  tsk_security_labels :: "string list"
  tsk_schema_version :: string
  tsk_metadata :: "(string, pyval) dict"

definition TaskSpec_post_init :: "task_spec \<Rightarrow> task_spec res" where
  "TaskSpec_post_init x =
     require (tsk_task_id x \<noteq> [])
       (ValueError ''task_id MUST be non-empty'') (
     require (tsk_description x \<noteq> [])
       (ValueError ''description MUST be non-empty'') (
     require (tsk_tenant_id x \<noteq> [])
       (ValueError ''tenant_id MUST be non-empty'') (
     require (tsk_actor_id x \<noteq> [])
       (ValueError ''actor_id MUST be non-empty'') (
     require (tsk_session_id x \<noteq> [])
       (ValueError ''session_id MUST be non-empty'') (
     require (case tsk_acceptable_uncertainty x of None \<Rightarrow> True | Some v \<Rightarrow> 0 \<le> v \<and> v \<le> 1)
       (ValueError ''acceptable_uncertainty MUST be between 0 and 1'') (Inr x))))))"

definition normalized_objective :: "task_spec \<Rightarrow> string" where
  "normalized_objective t = normalize_text (gi_objective (tsk_goal t))"

text \<open>Fields that need clarification before high-risk work.\<close>

definition ambiguous_task_fields :: "task_spec \<Rightarrow> string list" where
  "ambiguous_task_fields t =
     (if tsk_expected_output_contract t = [] then [''expected_output_contract''] else [])
     @ (if tsk_required_evidence t = [] then [''required_evidence''] else [])
     @ (if tsk_acceptable_uncertainty t = None then [''acceptable_uncertainty''] else [])"

record evidence_item =
  evi_evidence_id :: string
  evi_source :: string
  evi_summary :: string
  evi_supports :: "string list"
  evi_contradicts :: "string list"
  evi_verifier :: "string option"
  evi_confidence :: "real option"
  evi_metadata :: "(string, pyval) dict"

definition EvidenceItem_post_init :: "evidence_item \<Rightarrow> evidence_item res" where
  "EvidenceItem_post_init x =
     require (evi_evidence_id x \<noteq> [])
       (ValueError ''evidence_id MUST be non-empty'') (
     require (evi_source x \<noteq> [])
       (ValueError ''source MUST be non-empty'') (
     require (case evi_confidence x of None \<Rightarrow> True | Some v \<Rightarrow> 0 \<le> v \<and> v \<le> 1)
       (ValueError ''confidence MUST be between 0 and 1'') (Inr x)))"

record evidence_ref =
  evr_evidence_id :: string
  evr_artifact_hash :: string
  evr_source_type :: evidence_source_type
  evr_source_identity :: string
  evr_acquired_at :: string
  evr_tenant_id :: string
  evr_security_labels :: "string list"
  evr_freshness :: "string option"
  evr_trust_policy :: string
  evr_authority_level :: string
  evr_independence_group :: string
  evr_chain_of_custody :: "string list"
  evr_transformation_lineage :: "string list"
  evr_prompt_injection_untrusted :: bool
  evr_signature :: "string option"
  evr_verifier_results :: "string list"
  evr_supports :: "string list"
  evr_contradicts :: "string list"
  evr_retention_obligations :: "string list"
  evr_deletion_obligations :: "string list"
  evr_schema_version :: string
  evr_metadata :: "(string, pyval) dict"

definition EvidenceRef_post_init :: "evidence_ref \<Rightarrow> evidence_ref res" where
  "EvidenceRef_post_init x =
     require (evr_evidence_id x \<noteq> [])
       (ValueError ''evidence_id MUST be non-empty'') (
     require (evr_artifact_hash x \<noteq> [])
       (ValueError ''artifact_hash MUST be non-empty'') (
     require (evr_source_identity x \<noteq> [])
       (ValueError ''source_identity MUST be non-empty'') (
     require (evr_acquired_at x \<noteq> [])
       (ValueError ''acquired_at MUST be non-empty'') (
     require (evr_tenant_id x \<noteq> [])
       (ValueError ''tenant_id MUST be non-empty'') (Inr x)))))"

record epistemic_item =
  ei_item_id :: string
  ei_status :: epistemic_status
  ei_content :: string
  ei_tenant_id :: string
  ei_normalized_claim :: "string option"
  ei_subject :: "string option"
  ei_predicate :: "string option"
  ei_object :: "string option"
  ei_scope :: string
  ei_temporal_validity :: "string option"
  ei_confidence_ref :: "string option"
  ei_evidence_ids :: "string list"
  ei_support_ids :: "string list"
  ei_contradiction_ids :: "string list"
  ei_depends_on :: "string list"
  ei_independence_group :: string
  ei_freshness :: "string option"
  ei_expires_at :: "string option"
  ei_invalidation_status :: invalidation_status
  ei_security_labels :: "string list"
  ei_ir_unit_refs :: "string list"
  ei_schema_version :: string
  ei_metadata :: "(string, pyval) dict"

definition EpistemicItem_post_init :: "epistemic_item \<Rightarrow> epistemic_item res" where
  "EpistemicItem_post_init x =
     require (ei_item_id x \<noteq> [])
       (ValueError ''item_id MUST be non-empty'') (
     require (ei_content x \<noteq> [])
       (ValueError ''content MUST be non-empty'') (
     require (ei_tenant_id x \<noteq> [])
       (ValueError ''tenant_id MUST be non-empty'') (Inr x)))"

definition canonical_claim :: "epistemic_item \<Rightarrow> string" where
  "canonical_claim x = (case ei_normalized_claim x of
     None \<Rightarrow> normalize_text (ei_content x)
   | Some c \<Rightarrow> if c = [] then normalize_text (ei_content x) else c)"

record epistemic_relation =
  er_relation_id :: string
  er_relation_type :: relation_type
  er_source_id :: string
  er_target_id :: string
  er_tenant_id :: string
  er_evidence_ids :: "string list"
  er_security_labels :: "string list"
  er_schema_version :: string

definition EpistemicRelation_post_init :: "epistemic_relation \<Rightarrow> epistemic_relation res" where
  "EpistemicRelation_post_init x =
     require (er_relation_id x \<noteq> [])
       (ValueError ''relation_id MUST be non-empty'') (
     require (er_source_id x \<noteq> [] \<and> er_target_id x \<noteq> [])
       (ValueError ''relation endpoints MUST be non-empty'') (Inr x))"

record hypothesis =
  hyp_hypothesis_id :: string
  hyp_proposition :: string
  hyp_status :: hypothesis_status
  hyp_scope :: string
  hyp_prior :: "real option"
  hyp_posterior :: "real option"
  hyp_qualitative_uncertainty :: string
  hyp_supporting_evidence :: "string list"
  hyp_contradicting_evidence :: "string list"
  hyp_assumptions :: "string list"
  hyp_depends_on :: "string list"
  hyp_predicted_observations :: "string list"
  hyp_strongest_falsifier :: string
  hyp_discriminating_actions :: "string list"
  hyp_decision_relevance :: string
  hyp_cost_of_being_wrong :: risk_class
  hyp_accepted_for_action :: bool
  hyp_tenant_id :: string
  hyp_security_labels :: "string list"
  hyp_schema_version :: string
  hyp_metadata :: "(string, pyval) dict"

definition Hypothesis_post_init :: "hypothesis \<Rightarrow> hypothesis res" where
  "Hypothesis_post_init x =
     require (hyp_hypothesis_id x \<noteq> [])
       (ValueError ''hypothesis_id MUST be non-empty'') (
     require (hyp_proposition x \<noteq> [])
       (ValueError ''proposition MUST be non-empty'') (
     require (case hyp_prior x of None \<Rightarrow> True | Some v \<Rightarrow> 0 \<le> v \<and> v \<le> 1)
       (ValueError ''prior MUST be between 0 and 1'') (
     require (case hyp_posterior x of None \<Rightarrow> True | Some v \<Rightarrow> 0 \<le> v \<and> v \<le> 1)
       (ValueError ''posterior MUST be between 0 and 1'') (
     require (\<not> (hyp_accepted_for_action x \<and> hyp_status x \<noteq> HS_ACCEPTED_FOR_ACTION))
       (ValueError ''accepted_for_action requires ACCEPTED_FOR_ACTION status'') (Inr x)))))"

record ir_unit_reference =
  iru_graph_id :: string
  iru_graph_version :: string
  iru_unit_id :: string
  iru_relation :: string
  iru_semantic_role :: string
  iru_tenant_id :: string
  iru_schema_version :: string

definition IRUnitReference_post_init :: "ir_unit_reference \<Rightarrow> ir_unit_reference res" where
  "IRUnitReference_post_init x =
     require (iru_graph_id x \<noteq> [] \<and> iru_graph_version x \<noteq> [] \<and> iru_unit_id x \<noteq> [])
       (ValueError ''IR references MUST include graph_id, graph_version, and unit_id'') (Inr x)"

record no_op_decision =
  nod_proposal_id :: string
  nod_source_state_id :: string
  nod_accepted_no_op :: bool
  nod_isolation_grade :: string
  nod_rationale :: string
  nod_uncaptured_state :: "string list"

definition NoOpDecision_post_init :: "no_op_decision \<Rightarrow> no_op_decision res" where
  "NoOpDecision_post_init x =
     require (nod_proposal_id x \<noteq> [])
       (ValueError ''proposal_id MUST be non-empty'') (
     require (nod_source_state_id x \<noteq> [])
       (ValueError ''source_state_id MUST be non-empty'') (
     require (nod_isolation_grade x \<noteq> [])
       (ValueError ''isolation_grade MUST be non-empty'') (
     require (nod_rationale x \<noteq> [])
       (ValueError ''rationale MUST be non-empty'') (Inr x))))"

text \<open>The metadata of a proposal may hold a decision object beside plain values.\<close>

datatype metadata_value = Plain pyval | No_op no_op_decision

record cognitive_proposal =
  cp_proposal_id :: string
  cp_task_id :: string
  cp_action_type :: cognitive_action_type
  cp_rationale :: string
  cp_preconditions :: "string list"
  cp_expected_effects :: "string list"
  cp_evidence_requirements :: "string list"
  cp_estimated_cost :: real
  cp_estimated_latency_ms :: int
  cp_risk :: risk_class
  cp_reversible :: bool
  cp_metadata :: "(string, metadata_value) dict"

definition CognitiveProposal_post_init :: "cognitive_proposal \<Rightarrow> cognitive_proposal res" where
  "CognitiveProposal_post_init x =
     require (cp_proposal_id x \<noteq> [])
       (ValueError ''proposal_id MUST be non-empty'') (
     require (cp_task_id x \<noteq> [])
       (ValueError ''task_id MUST be non-empty'') (
     require (cp_rationale x \<noteq> [])
       (ValueError ''rationale MUST be non-empty'') (
     require (\<not> cp_estimated_cost x < 0)
       (ValueError ''estimated_cost MUST be non-negative'') (
     require (\<not> cp_estimated_latency_ms x < 0)
       (ValueError ''estimated_latency_ms MUST be non-negative'') (Inr x)))))"

record cognitive_decision =
  cdn_proposal_id :: string
  cdn_authorized :: bool
  cdn_selected :: bool
  cdn_rejection_reason :: "string option"
  cdn_conditions :: "string list"
  cdn_audit_record_id :: "string option"

definition CognitiveDecision_post_init :: "cognitive_decision \<Rightarrow> cognitive_decision res" where
  "CognitiveDecision_post_init x =
     require (cdn_proposal_id x \<noteq> [])
       (ValueError ''proposal_id MUST be non-empty'') (
     require (\<not> (cdn_selected x \<and> \<not> cdn_authorized x))
       (ValueError ''selected cognitive decisions MUST be authorized'') (Inr x))"

record halting_decision =
  hd_task_id :: string
  hd_decision :: halting_decision_type
  hd_answer_state_id :: "string option"
  hd_calibrated_risk :: "real option"
  hd_evidence_ids :: "string list"
  hd_unresolved_contradictions :: "string list"
  hd_missing_information :: "string list"
  hd_marginal_value_estimate :: "real option"
  hd_rationale :: string

definition HaltingDecision_post_init :: "halting_decision \<Rightarrow> halting_decision res" where
  "HaltingDecision_post_init x =
     require (hd_task_id x \<noteq> [])
       (ValueError ''task_id MUST be non-empty'') (
     require (case hd_calibrated_risk x of None \<Rightarrow> True | Some v \<Rightarrow> 0 \<le> v \<and> v \<le> 1)
       (ValueError ''calibrated_risk MUST be between 0 and 1'') (
     require (case hd_marginal_value_estimate x of None \<Rightarrow> True | Some v \<Rightarrow> \<not> v < 0)
       (ValueError ''marginal_value_estimate MUST be non-negative'') (
     require (\<not> (hd_decision x = HD_STOP \<and> hd_answer_state_id x = None))
       (ValueError ''STOP decisions MUST identify an answer_state_id'') (
     require (\<not> (hd_decision x = HD_STOP \<and> hd_calibrated_risk x = None))
       (ValueError ''STOP decisions MUST include calibrated_risk'') (
     require (\<not> (hd_decision x = HD_STOP \<and> hd_unresolved_contradictions x \<noteq> []))
       (ValueError ''STOP decisions MUST NOT have unresolved contradictions'') (
     require (\<not> (hd_decision x = HD_STOP \<and> hd_missing_information x \<noteq> []))
       (ValueError ''STOP decisions MUST NOT have missing information'') (Inr x)))))))"

section \<open>What the constructors admit\<close>

text \<open>A halting decision that stops names its answer and a calibrated risk and leaves nothing open.\<close>

lemma stop_decision_complete:
  assumes "HaltingDecision_post_init x = Inr y" and "hd_decision x = HD_STOP"
  shows "y = x \<and> (\<exists>a. hd_answer_state_id x = Some a) \<and> (\<exists>r. hd_calibrated_risk x = Some r \<and> 0 \<le> r \<and> r \<le> 1)
    \<and> hd_unresolved_contradictions x = [] \<and> hd_missing_information x = []"
  using assms by (auto simp: HaltingDecision_post_init_def split: option.splits)

lemma numeric_confidence_applicable:
  assumes "ConfidenceEstimate_post_init x = Inr y" and "cf_lower_bound x = Some v"
  shows "0 \<le> v \<and> v \<le> 1 \<and> cf_applicability_status x \<in> {''calibrated'', ''extrapolated''}"
  using assms by (auto simp: ConfidenceEstimate_post_init_def)

end
