(* ===== verification/Policy_Learning.thy ===== *)
theory Policy_Learning
  imports Cognition Py_Library Backups
begin

text \<open>
  Learned policies inside a deterministic envelope (\<open>policy_learning/*.py\<close>): decision logs, the
  tabular predictor, constrained selection, off-policy estimates, monitoring, and the registry that
  promotes and rolls back policy versions. Floating-point values are real numbers; the canonical
  hash is a parameter.
\<close>

declare map_of_eq_Some_iff [simp del] Some_eq_map_of_iff [simp del]

section \<open>Contracts\<close>

record logged_candidate =
  lc_action_id :: string
  lc_propensity :: real
  lc_predicted_cost :: real
  lc_predicted_risk :: real

definition LoggedCandidate_post_init :: "logged_candidate \<Rightarrow> logged_candidate res" where
  "LoggedCandidate_post_init c =
     require (\<not> (lc_action_id c = [] \<or> \<not> (0 < lc_propensity c \<and> lc_propensity c \<le> 1)))
       (ValueError ''candidate action and propensity MUST be valid'') (
     require (\<not> (lc_predicted_cost c < 0 \<or> \<not> (0 \<le> lc_predicted_risk c \<and> lc_predicted_risk c \<le> 1)))
       (ValueError ''candidate cost/risk MUST be bounded'') (Inr c))"

record decision_example =
  de_decision_id :: string
  de_task_fingerprint :: string
  de_context_key :: string
  de_candidates :: "logged_candidate list"
  de_selected_action_id :: string
  de_policy_version :: string
  de_outcome :: "real option"
  de_realized_cost :: "real option"
  de_constraint_violation :: bool
  de_delayed_correction :: "real option"
  de_censored :: bool
  de_split :: string

definition selected_candidate :: "decision_example \<Rightarrow> logged_candidate option" where
  "selected_candidate e = find (\<lambda>c. lc_action_id c = de_selected_action_id e) (de_candidates e)"

definition corrected_outcome :: "decision_example \<Rightarrow> real option" where
  "corrected_outcome e = (case de_delayed_correction e of Some v \<Rightarrow> Some v | None \<Rightarrow> de_outcome e)"

record prediction =
  prd_outcome :: real
  prd_cost :: real
  prd_risk :: real

record learned_policy_version =
  lpv_policy_id :: string
  lpv_version :: string
  lpv_training_data_hash :: string
  lpv_model_hash :: string
  lpv_maximum_risk :: real
  lpv_maximum_cost :: real
  lpv_exploration_epsilon :: real
  lpv_fingerprint :: string

type_synonym policy_content = "string \<times> string \<times> string \<times> string \<times> real \<times> real \<times> real"

definition policy_content :: "learned_policy_version \<Rightarrow> policy_content" where
  "policy_content p =
     (lpv_policy_id p, lpv_version p, lpv_training_data_hash p, lpv_model_hash p, lpv_maximum_risk p, lpv_maximum_cost p,
      lpv_exploration_epsilon p)"

definition LearnedPolicyVersion_post_init :: "(policy_content \<Rightarrow> string) \<Rightarrow> learned_policy_version \<Rightarrow> learned_policy_version res" where
  "LearnedPolicyVersion_post_init h p =
     require (lpv_policy_id p \<noteq> [] \<and> lpv_version p \<noteq> [] \<and> lpv_training_data_hash p \<noteq> [] \<and> lpv_model_hash p \<noteq> [])
       (ValueError ''policy identity and lineage MUST be complete'') (
     require (\<not> (\<not> (0 \<le> lpv_maximum_risk p \<and> lpv_maximum_risk p \<le> 1) \<or> lpv_maximum_cost p < 0))
       (ValueError ''policy constraints MUST be bounded'') (
     require (0 \<le> lpv_exploration_epsilon p \<and> lpv_exploration_epsilon p \<le> 1/10)
       (ValueError ''exploration MUST remain within the safe envelope'') (
     require (\<not> (lpv_fingerprint p \<noteq> [] \<and> lpv_fingerprint p \<noteq> h (policy_content p)))
       (ValueError ''learned policy fingerprint mismatch'')
       (Inr (p\<lparr>lpv_fingerprint := h (policy_content p)\<rparr>)))))"

record learned_decision =
  pd_action_id :: string
  pd_propensities :: "(string, real) dict"
  pd_used_learned_policy :: bool
  pd_reason_codes :: "string list"

record ope_estimate =
  ope_ips :: real
  ope_self_normalized_ips :: real
  ope_doubly_robust :: real
  ope_effective_sample_size :: real
  ope_supported_fraction :: real
  ope_sensitivity_range :: "real \<times> real"

datatype policy_lifecycle = PL_SHADOW | PL_CANARY | PL_ACTIVE | PL_ROLLED_BACK

record promotion_evidence =
  pev_evidence_id :: string
  pev_policy_fingerprint :: string
  pev_estimate :: ope_estimate
  pev_baseline_value :: real
  pev_calibration_error :: real
  pev_shadow_guardrail_regressions :: int
  pev_lower_confidence_bound :: real

record policy_monitor =
  pm_regret :: real
  pm_constraint_violations :: int
  pm_delayed_outcome_fraction :: real
  pm_distribution_shift :: real
  pm_feedback_concentration :: real

definition healthy :: "policy_monitor \<Rightarrow> bool" where
  "healthy m \<longleftrightarrow> pm_regret m \<le> 5/100 \<and> pm_constraint_violations m = 0 \<and> pm_distribution_shift m \<le> 1/10
     \<and> pm_feedback_concentration m \<le> 8/10"

section \<open>Data sets\<close>

record dataset_validation =
  dv_valid :: bool
  dv_errors :: "string list"
  dv_data_hash :: string
  dv_minimum_propensity :: real
  dv_supported_fraction :: real

definition example_errors :: "string set \<Rightarrow> decision_example \<Rightarrow> string list" where
  "example_errors seen e =
     (let i = de_decision_id e; ids = map lc_action_id (de_candidates e) in
      (if i \<in> seen then [''DUPLICATE_DECISION:'' @ i] else [])
      @ (if de_candidates e = [] then [''EMPTY_CANDIDATES:'' @ i]
         else (if \<not> distinct ids then [''DUPLICATE_CANDIDATE:'' @ i] else [])
           @ (if de_selected_action_id e \<notin> set ids then [''SELECTED_ACTION_MISSING:'' @ i] else [])
           @ (if \<bar>sum_list (map lc_propensity (de_candidates e)) - 1\<bar> > 1/1000000 then [''PROPENSITY_SUM:'' @ i] else [])
           @ (if de_outcome e = None \<and> \<not> de_censored e then [''MISSING_OUTCOME:'' @ i] else [])))"

fun dataset_errors :: "string set \<Rightarrow> decision_example list \<Rightarrow> string list" where
  "dataset_errors seen [] = []"
| "dataset_errors seen (e # es) = example_errors seen e @ dataset_errors (insert (de_decision_id e) seen) es"

definition split_tasks :: "bool \<Rightarrow> decision_example list \<Rightarrow> string set" where
  "split_tasks train es =
     de_task_fingerprint ` {e \<in> set es. de_candidates e \<noteq> [] \<and> (de_split e = ''train'') = train}"

fun commas :: "string list \<Rightarrow> string" where
  "commas [] = []"
| "commas [s] = s"
| "commas (s # ss) = s @ '','' @ commas ss"

definition validate_decision_dataset :: "(decision_example list \<Rightarrow> string) \<Rightarrow> decision_example list \<Rightarrow> dataset_validation" where
  "validate_decision_dataset h es =
     (let leakage = sorted_list_of_set (split_tasks True es \<inter> split_tasks False es);
          errors = dataset_errors {} es @ (if leakage \<noteq> [] then [''TASK_SPLIT_LEAKAGE:'' @ commas leakage] else []);
          usable = filter (\<lambda>e. de_candidates e \<noteq> []) es;
          propensities = concat (map (\<lambda>e. map lc_propensity (de_candidates e)) usable);
          supported = filter (\<lambda>e. list_all (\<lambda>c. lc_propensity c > 0) (de_candidates e)) usable
      in \<lparr>dv_valid = (errors = []), dv_errors = errors, dv_data_hash = h es,
          dv_minimum_propensity = (if propensities = [] then 0 else Min (set propensities)),
          dv_supported_fraction = (if es = [] then 0 else real (length supported) / real (length es))\<rparr>)"

section \<open>The predictor\<close>

record shadow_predictor =
  sp_predictions :: "(string \<times> string, prediction) dict"
  sp_global :: prediction
  sp_training_hash :: string

definition new_predictor :: shadow_predictor where
  "new_predictor = \<lparr>sp_predictions = [], sp_global = \<lparr>prd_outcome = 0, prd_cost = 0, prd_risk = 1\<rparr>, sp_training_hash = []\<rparr>"

definition usable :: "decision_example \<Rightarrow> bool" where
  "usable e \<longleftrightarrow> \<not> de_censored e \<and> corrected_outcome e \<noteq> None"

definition aggregate :: "decision_example list \<Rightarrow> prediction" where
  "aggregate es = (let n = real (length es) in
     \<lparr>prd_outcome = sum_list (map (\<lambda>e. the (corrected_outcome e)) es) / n,
      prd_cost = sum_list (map (\<lambda>e. case de_realized_cost e of None \<Rightarrow> 0 | Some c \<Rightarrow> c) es) / n,
      prd_risk = sum_list (map (\<lambda>e. if de_constraint_violation e then 1 else 0) es) / n\<rparr>)"

definition buckets :: "decision_example list \<Rightarrow> (string \<times> string, decision_example list) dict" where
  "buckets es = fold (\<lambda>e d. let k = (de_context_key e, de_selected_action_id e) in
     dict_set k ((case map_of d k of None \<Rightarrow> [] | Some xs \<Rightarrow> xs) @ [e]) d) es []"

definition fit :: "(decision_example list \<Rightarrow> string) \<Rightarrow> decision_example list \<Rightarrow> shadow_predictor res" where
  "fit h es =
     (let us = filter usable es in
      require (us \<noteq> []) (ValueError ''predictor requires uncensored outcome data'')
      (Inr \<lparr>sp_predictions = map (\<lambda>(k, xs). (k, aggregate xs)) (buckets us), sp_global = aggregate us, sp_training_hash = h us\<rparr>))"

definition predict :: "shadow_predictor \<Rightarrow> string \<Rightarrow> string \<Rightarrow> prediction" where
  "predict m context_key action_id =
     (case map_of (sp_predictions m) (context_key, action_id) of None \<Rightarrow> sp_global m | Some p \<Rightarrow> p)"

section \<open>Constrained selection\<close>

text \<open>\<open>round\<close>: to the nearest integer, ties to the even one.\<close>

definition py_round :: "real \<Rightarrow> int" where
  "py_round x =
     (let f = \<lfloor>x\<rfloor>; d = x - real_of_int f
      in if d < 1/2 then f else if d > 1/2 then f + 1 else if even f then f else f + 1)"

definition eligible_actions ::
  "learned_policy_version \<Rightarrow> shadow_predictor \<Rightarrow> string \<Rightarrow> string set \<Rightarrow> string list \<Rightarrow> (string \<times> real) list" where
  "eligible_actions policy m context_key safe candidates =
     map (\<lambda>a. (a, prd_outcome (predict m context_key a) - prd_cost (predict m context_key a)))
       (filter (\<lambda>a. a \<in> safe \<and> prd_risk (predict m context_key a) \<le> lpv_maximum_risk policy
                    \<and> prd_cost (predict m context_key a) \<le> lpv_maximum_cost policy) candidates)"

definition propensities_of :: "real \<Rightarrow> string list \<Rightarrow> string \<Rightarrow> (string, real) dict" where
  "propensities_of eps actions best =
     (let base = fold (\<lambda>a d. dict_set a (eps / real (length actions)) d) actions []
      in dict_set best ((case map_of base best of None \<Rightarrow> 0 | Some v \<Rightarrow> v) + (1 - eps)) base)"

definition select_action ::
  "learned_policy_version \<Rightarrow> shadow_predictor \<Rightarrow> string \<Rightarrow> string list \<Rightarrow> string \<Rightarrow> string set \<Rightarrow> bool \<Rightarrow> int \<Rightarrow> learned_decision" where
  "select_action policy m context_key candidates deterministic safe canary_allowed index =
     (let eligible = eligible_actions policy m context_key safe candidates in
      if \<not> canary_allowed \<or> eligible = []
      then \<lparr>pd_action_id = deterministic, pd_propensities = [(deterministic, 1)], pd_used_learned_policy = False,
            pd_reason_codes = [''DETERMINISTIC_GUARDRAIL'']\<rparr>
      else (let actions = map fst (sort_key (\<lambda>(a, v). (- v, a)) eligible); best = hd actions;
                eps = lpv_exploration_epsilon policy;
                selected = (if eps \<noteq> 0 \<and> index mod max 1 (py_round (1 / eps)) = 0
                            then actions ! nat (index mod int (length actions)) else best)
            in \<lparr>pd_action_id = selected, pd_propensities = propensities_of eps actions best, pd_used_learned_policy = True,
                pd_reason_codes = [''LEARNED_CONSTRAINED'']\<rparr>))"

section \<open>Off-policy evaluation\<close>

definition target_of :: "(string, (string, real) dict) dict \<Rightarrow> decision_example \<Rightarrow> (string, real) dict" where
  "target_of targets e = (case map_of targets (de_decision_id e) of None \<Rightarrow> [] | Some t \<Rightarrow> t)"

text \<open>The selected action is in the target, hence among the candidates, so that \<open>next\<close> never fails.\<close>

definition ope_row ::
  "(string, (string, real) dict) dict \<Rightarrow> shadow_predictor \<Rightarrow> real \<Rightarrow> decision_example \<Rightarrow> (real \<times> real \<times> real) option res" where
  "ope_row targets m maximum_weight e =
     (case corrected_outcome e of
        None \<Rightarrow> Inr None
      | Some outcome \<Rightarrow>
          if de_censored e then Inr None
          else (let target = target_of targets e in
            require (fst ` set target \<subseteq> lc_action_id ` set (de_candidates e))
              (ValueError ''target policy references actions outside logged candidate support'') (
            require (\<not> (target \<noteq> [] \<and> \<bar>sum_list (map snd target) - 1\<bar> > 1/1000000))
              (ValueError ''target policy propensities MUST sum to one'') (
            require (\<not> list_ex (\<lambda>(_, q). q < 0 \<or> q > 1) target)
              (ValueError ''target policy propensities MUST be probabilities'')
            (let q = (case map_of target (de_selected_action_id e) of None \<Rightarrow> 0 | Some q \<Rightarrow> q) in
             if q \<le> 0 then Inr None
             else case selected_candidate e of
                    None \<Rightarrow> Inl (RuntimeError ''StopIteration'')
                  | Some c \<Rightarrow>
                      (let weight = min (q / lc_propensity c) maximum_weight;
                           target_model = sum_list (map (\<lambda>(a, r). r * prd_outcome (predict m (de_context_key e) a)) target);
                           logged_model = prd_outcome (predict m (de_context_key e) (de_selected_action_id e))
                       in Inr (Some (weight, outcome, target_model + weight * (outcome - logged_model)))))))))"

definition estimate_of :: "(real \<times> real \<times> real) list \<Rightarrow> nat \<Rightarrow> ope_estimate" where
  "estimate_of rows examples =
     (let n = real (length rows); ws = sum_list (map fst rows);
          wo = sum_list (map (\<lambda>(w, o', _). w * o') rows);
          ips = wo / n; snips = wo / ws; dr = sum_list (map (\<lambda>(_, _, d). d) rows) / n;
          lo = min ips (min snips dr); hi = max ips (max snips dr); spread = hi - lo
      in \<lparr>ope_ips = ips, ope_self_normalized_ips = snips, ope_doubly_robust = dr,
          ope_effective_sample_size = ws\<^sup>2 / sum_list (map (\<lambda>(w, _). w\<^sup>2) rows),
          ope_supported_fraction = n / real examples, ope_sensitivity_range = (lo - spread, hi + spread)\<rparr>)"

text \<open>A maximum weight of 0 makes every weight 0, and the division by their sum fails.\<close>

definition evaluate_off_policy ::
  "decision_example list \<Rightarrow> (string, (string, real) dict) dict \<Rightarrow> shadow_predictor \<Rightarrow> real \<Rightarrow> ope_estimate res" where
  "evaluate_off_policy es targets m maximum_weight =
     (case map_res (ope_row targets m maximum_weight) es of
        Inl e \<Rightarrow> Inl e
      | Inr rs \<Rightarrow>
          (let rows = List.map_filter id rs in
           require (rows \<noteq> []) (ValueError ''off-policy evaluation has no supported uncensored rows'') (
           require (sum_list (map fst rows) \<noteq> 0) (RuntimeError ''ZeroDivisionError'')
           (Inr (estimate_of rows (length es))))))"

section \<open>Monitoring\<close>

record prediction_evaluation =
  pve_outcome_calibration_error :: real
  pve_cost_error :: real
  pve_risk_error :: real
  pve_unseen_context_fraction :: real

definition evaluate_predictions ::
  "shadow_predictor \<Rightarrow> decision_example list \<Rightarrow> string set \<Rightarrow> prediction_evaluation res" where
  "evaluate_predictions m es training_contexts =
     (let us = filter usable es; n = real (length us);
          pred = (\<lambda>e. predict m (de_context_key e) (de_selected_action_id e))
      in require (us \<noteq> []) (ValueError ''prediction evaluation requires uncensored outcomes'')
         (Inr \<lparr>pve_outcome_calibration_error = sum_list (map (\<lambda>e. \<bar>prd_outcome (pred e) - the (corrected_outcome e)\<bar>) us) / n,
               pve_cost_error = sum_list (map (\<lambda>e. \<bar>prd_cost (pred e) - (case de_realized_cost e of None \<Rightarrow> 0 | Some c \<Rightarrow> c)\<bar>) us) / n,
               pve_risk_error = sum_list (map (\<lambda>e. \<bar>prd_risk (pred e) - (if de_constraint_violation e then 1 else 0)\<bar>) us) / n,
               pve_unseen_context_fraction = real (length (filter (\<lambda>e. de_context_key e \<notin> training_contexts) us)) / n\<rparr>))"

record shadow_comparison =
  shc_decisions :: nat
  shc_agreement :: real
  shc_learned_value :: real
  shc_deterministic_value :: real
  shc_guardrail_regressions :: nat

definition compare_shadow ::
  "string list \<Rightarrow> string list \<Rightarrow> real list \<Rightarrow> real list \<Rightarrow> bool list \<Rightarrow> shadow_comparison res" where
  "compare_shadow learned_actions det_actions learned_values det_values regressions =
     (let n = length learned_actions in
      require (length det_actions = n \<and> length learned_values = n \<and> length det_values = n \<and> length regressions = n \<and> n \<noteq> 0)
        (ValueError ''shadow comparison inputs MUST be aligned and non-empty'')
      (Inr \<lparr>shc_decisions = n, shc_agreement = real (length (filter (\<lambda>(a, b). a = b) (zip learned_actions det_actions))) / real n,
            shc_learned_value = sum_list learned_values / real n, shc_deterministic_value = sum_list det_values / real n,
            shc_guardrail_regressions = length (filter id regressions)\<rparr>))"

definition calculate_policy_monitor ::
  "real list \<Rightarrow> real list \<Rightarrow> bool list \<Rightarrow> bool list \<Rightarrow> bool list \<Rightarrow> int list \<Rightarrow> policy_monitor res" where
  "calculate_policy_monitor learned oracle violations delayed shifted counts =
     (let n = length learned in
      require (length oracle = n \<and> length violations = n \<and> length delayed = n \<and> length shifted = n \<and> length counts = n
               \<and> sum_list counts = int n \<and> n \<noteq> 0 \<and> counts \<noteq> [])
        (ValueError ''monitor inputs MUST be aligned and non-empty'')
      (Inr \<lparr>pm_regret = sum_list (map (\<lambda>(o', l). max 0 (o' - l)) (zip oracle learned)) / real n,
            pm_constraint_violations = int (length (filter id violations)),
            pm_delayed_outcome_fraction = real (length (filter id delayed)) / real n,
            pm_distribution_shift = real (length (filter id shifted)) / real n,
            pm_feedback_concentration = real_of_int (Max (set counts)) / real n\<rparr>))"

section \<open>The registry\<close>

record learned_policy_registry =
  lpr_policies :: "(string, learned_policy_version) dict"
  lpr_lifecycle :: "(string, policy_lifecycle) dict"
  lpr_evidence :: "(string, promotion_evidence) dict"
  lpr_kill_switch :: bool

definition empty_policy_registry :: learned_policy_registry where
  "empty_policy_registry = \<lparr>lpr_policies = [], lpr_lifecycle = [], lpr_evidence = [], lpr_kill_switch = False\<rparr>"

definition policy_register :: "learned_policy_version \<Rightarrow> learned_policy_registry \<Rightarrow> learned_policy_registry res" where
  "policy_register p r = (let f = lpv_fingerprint p in
     require (f \<notin> set (dict_keys (lpr_policies r))) (ValueError ''learned policy version already registered'')
     (Inr (r\<lparr>lpr_policies := dict_set f p (lpr_policies r), lpr_lifecycle := dict_set f PL_SHADOW (lpr_lifecycle r)\<rparr>)))"

definition policy_record_evidence :: "promotion_evidence \<Rightarrow> learned_policy_registry \<Rightarrow> learned_policy_registry res" where
  "policy_record_evidence e r =
     require (pev_policy_fingerprint e \<in> set (dict_keys (lpr_policies r))) (KeyError ''promotion evidence references unknown policy'')
     (Inr (r\<lparr>lpr_evidence := dict_set (pev_policy_fingerprint e) e (lpr_evidence r)\<rparr>))"

definition require_evidence :: "string \<Rightarrow> learned_policy_registry \<Rightarrow> promotion_evidence res" where
  "require_evidence f r =
     require (map_of (lpr_lifecycle r) f = Some PL_SHADOW) (ValueError ''policy must be in shadow before canary'')
     (case map_of (lpr_evidence r) f of None \<Rightarrow> Inl (ValueError ''promotion evidence is required'') | Some e \<Rightarrow> Inr e)"

definition insufficient :: "promotion_evidence \<Rightarrow> bool" where
  "insufficient e \<longleftrightarrow>
     (let est = pev_estimate e; a = ope_ips est; b = ope_self_normalized_ips est; c = ope_doubly_robust est in
      ope_effective_sample_size est < 10 \<or> ope_supported_fraction est < 8/10 \<or> max a (max b c) - min a (min b c) > 1/10
      \<or> pev_lower_confidence_bound e \<le> pev_baseline_value e \<or> pev_calibration_error e > 5/100 \<or> pev_shadow_guardrail_regressions e \<noteq> 0)"

definition promote_canary :: "string \<Rightarrow> learned_policy_registry \<Rightarrow> learned_policy_registry res" where
  "promote_canary f r =
     (case require_evidence f r of
        Inl e \<Rightarrow> Inl e
      | Inr ev \<Rightarrow>
          require (\<not> insufficient ev) (ValueError ''learned policy promotion evidence is insufficient or discordant'')
          (Inr (r\<lparr>lpr_lifecycle := dict_set f PL_CANARY (lpr_lifecycle r)\<rparr>)))"

definition promote_active :: "string \<Rightarrow> learned_policy_registry \<Rightarrow> learned_policy_registry res" where
  "promote_active f r =
     require (\<not> (lpr_kill_switch r \<or> map_of (lpr_lifecycle r) f \<noteq> Some PL_CANARY))
       (ValueError ''only enabled canary policy can become active'')
     (Inr (r\<lparr>lpr_lifecycle := dict_set f PL_ACTIVE
          (map (\<lambda>(k, l). (k, if l = PL_ACTIVE then PL_ROLLED_BACK else l)) (lpr_lifecycle r))\<rparr>))"

definition can_execute :: "string \<Rightarrow> risk_class \<Rightarrow> learned_policy_registry \<Rightarrow> bool" where
  "can_execute f risk r \<longleftrightarrow> \<not> lpr_kill_switch r \<and> risk = RISK_LOW
     \<and> (map_of (lpr_lifecycle r) f = Some PL_CANARY \<or> map_of (lpr_lifecycle r) f = Some PL_ACTIVE)"

definition policy_rollback :: "string \<Rightarrow> learned_policy_registry \<Rightarrow> learned_policy_registry res" where
  "policy_rollback f r =
     require (f \<in> set (dict_keys (lpr_policies r))) (KeyError ''unknown learned policy'')
     (Inr (r\<lparr>lpr_lifecycle := dict_set f PL_ROLLED_BACK (lpr_lifecycle r)\<rparr>))"

definition policy_snapshot ::
  "learned_policy_registry \<Rightarrow> (string, learned_policy_version) dict \<times> (string, policy_lifecycle) dict
     \<times> (string, promotion_evidence) dict \<times> bool" where
  "policy_snapshot r = (lpr_policies r, lpr_lifecycle r, lpr_evidence r, lpr_kill_switch r)"

fun policy_restore ::
  "(string, learned_policy_version) dict \<times> (string, policy_lifecycle) dict \<times> (string, promotion_evidence) dict \<times> bool
   \<Rightarrow> learned_policy_registry \<Rightarrow> learned_policy_registry" where
  "policy_restore (ps, ls, es, k) r = r\<lparr>lpr_policies := ps, lpr_lifecycle := ls, lpr_evidence := es, lpr_kill_switch := k\<rparr>"

section \<open>The life of a policy version\<close>

datatype policy_call =
    Reg_policy learned_policy_version | Reg_evidence promotion_evidence | To_canary string | To_active string
  | Roll_back string | Set_kill bool

definition policy_do :: "policy_call \<Rightarrow> learned_policy_registry \<Rightarrow> learned_policy_registry res" where
  "policy_do c r =
     (case c of
        Reg_policy p \<Rightarrow> policy_register p r
      | Reg_evidence e \<Rightarrow> policy_record_evidence e r
      | To_canary f \<Rightarrow> promote_canary f r
      | To_active f \<Rightarrow> promote_active f r
      | Roll_back f \<Rightarrow> policy_rollback f r
      | Set_kill k \<Rightarrow> Inr (r\<lparr>lpr_kill_switch := k\<rparr>))"

definition policy_step :: "learned_policy_registry \<Rightarrow> policy_call \<Rightarrow> learned_policy_registry" where
  "policy_step r c = (case policy_do c r of Inl _ \<Rightarrow> r | Inr r' \<Rightarrow> r')"

text \<open>Runs in which snapshots of the registry are taken and restored.\<close>

definition policy_run :: "learned_policy_registry \<Rightarrow> policy_call backed_call list \<Rightarrow> learned_policy_registry" where
  "policy_run = backed_run policy_step policy_snapshot policy_restore"

lemma policy_restore_snapshot: "policy_restore (policy_snapshot r) s = r"
  by (simp add: policy_snapshot_def)

lemma known_iff: "f \<in> fst ` set d \<longleftrightarrow> map_of d f \<noteq> None"
  by (simp add: map_of_eq_None_iff)

lemmas policy_ops = known_iff policy_register_def policy_record_evidence_def promote_canary_def promote_active_def policy_rollback_def
  require_evidence_def

definition promoted :: "policy_lifecycle option \<Rightarrow> bool" where
  "promoted l \<longleftrightarrow> l = Some PL_CANARY \<or> l = Some PL_ACTIVE"

text \<open>
  Every entry of the life cycle belongs to a registered policy, at most one is active, and who is
  promoted has sufficient evidence among \<open>E\<close>, the evidence that was recorded.
\<close>

definition policies_ok :: "promotion_evidence set \<Rightarrow> learned_policy_registry \<Rightarrow> bool" where
  "policies_ok E r \<longleftrightarrow>
     (\<forall>f. map_of (lpr_lifecycle r) f = None \<longleftrightarrow> map_of (lpr_policies r) f = None)
     \<and> (\<forall>f g. map_of (lpr_lifecycle r) f = Some PL_ACTIVE \<and> map_of (lpr_lifecycle r) g = Some PL_ACTIVE \<longrightarrow> f = g)
     \<and> (\<forall>f e. map_of (lpr_evidence r) f = Some e \<longrightarrow> e \<in> E \<and> pev_policy_fingerprint e = f)
     \<and> (\<forall>f. promoted (map_of (lpr_lifecycle r) f) \<longrightarrow> (\<exists>e\<in>E. pev_policy_fingerprint e = f \<and> \<not> insufficient e))"

lemma demote_policy_lookup:
  "map_of (map (\<lambda>(k, l). (k, if l = PL_ACTIVE then PL_ROLLED_BACK else l)) d) f =
     map_option (\<lambda>l. if l = PL_ACTIVE then PL_ROLLED_BACK else l) (map_of d f)"
  by (simp add: map_of_map)

lemma promote_canary_Inr:
  assumes "promote_canary f r = Inr r'"
  obtains ev where "map_of (lpr_evidence r) f = Some ev" "\<not> insufficient ev" "map_of (lpr_lifecycle r) f = Some PL_SHADOW"
    "r' = r\<lparr>lpr_lifecycle := dict_set f PL_CANARY (lpr_lifecycle r)\<rparr>"
  using assms by (auto simp: promote_canary_def require_evidence_def split: sum.splits option.splits)

lemma policy_do_ok:
  assumes "policies_ok E r" and "policy_do c r = Inr r'" and "\<And>e. c = Reg_evidence e \<Longrightarrow> e \<in> E"
  shows "policies_ok E r'"
proof (cases c)
  case (Reg_policy p)
  have "map_of (lpr_lifecycle r) (lpv_fingerprint p) = None"
    using assms(1,2) by (auto simp: Reg_policy policy_do_def policy_ops Let_def policies_ok_def)
  with assms(1,2) show ?thesis
    by (auto simp: Reg_policy policy_do_def policy_ops Let_def policies_ok_def promoted_def split: if_splits)
next
  case (Reg_evidence e)
  with assms show ?thesis by (auto simp: policy_do_def policy_ops policies_ok_def split: if_splits)
next
  case (To_canary f)
  then obtain ev where ev: "map_of (lpr_evidence r) f = Some ev" "\<not> insufficient ev" and l: "map_of (lpr_lifecycle r) f = Some PL_SHADOW"
      and r': "r' = r\<lparr>lpr_lifecycle := dict_set f PL_CANARY (lpr_lifecycle r)\<rparr>"
    using assms(2) by (auto simp: policy_do_def elim: promote_canary_Inr)
  have "ev \<in> E \<and> pev_policy_fingerprint ev = f" using assms(1) ev(1) unfolding policies_ok_def by blast
  moreover have "map_of (lpr_policies r) f \<noteq> None" using assms(1) l unfolding policies_ok_def by (metis option.distinct(1))
  ultimately show ?thesis
    using assms(1) ev(2) unfolding policies_ok_def promoted_def r' by (auto split: if_splits)
next
  case (To_active f)
  then have "map_of (lpr_lifecycle r) f = Some PL_CANARY" using assms(2) by (auto simp: policy_do_def promote_active_def)
  then have "map_of (lpr_policies r) f \<noteq> None" using assms(1) unfolding policies_ok_def by (metis option.distinct(1))
  with To_active assms(1,2) show ?thesis
    by (auto simp: policy_do_def policy_ops policies_ok_def promoted_def demote_policy_lookup split: if_splits)
next
  case (Roll_back f)
  with assms(1,2) show ?thesis
    by (auto simp: policy_do_def policy_ops policies_ok_def promoted_def split: if_splits)
next
  case (Set_kill k)
  with assms(1,2) show ?thesis by (auto simp: policy_do_def policies_ok_def)
qed

interpretation policies: guarded_backups policy_step "\<lambda>c. \<forall>e. c = Reg_evidence e \<longrightarrow> e \<in> E" "policies_ok E"
    policy_snapshot policy_restore for E
  by unfold_locales (auto simp: policy_step_def policy_restore_snapshot split: sum.split intro: policy_do_ok)

definition is_rolled_back :: "string \<Rightarrow> learned_policy_registry \<Rightarrow> bool" where
  "is_rolled_back f r \<longleftrightarrow> map_of (lpr_policies r) f \<noteq> None \<and> map_of (lpr_lifecycle r) f = Some PL_ROLLED_BACK"

lemma rolled_back_step: "is_rolled_back f r \<Longrightarrow> is_rolled_back f (policy_step r c)"
  by (cases c) (auto simp: is_rolled_back_def policy_step_def policy_do_def policy_ops demote_policy_lookup Let_def
      split: sum.splits if_splits option.splits)

interpretation rolled_back: guarded_backups policy_step "\<lambda>_. True" "is_rolled_back f" policy_snapshot policy_restore for f
  by unfold_locales (auto simp: policy_restore_snapshot rolled_back_step)

text \<open>
  C37: A learned policy executes only inside its envelope: after any sequence of calls, snapshots and
  restorations of them, a policy that may execute is registered, the kill switch is off, the risk
  is low and sufficient promotion evidence for it was recorded; at most one policy is active; and
  a policy that was rolled back never executes again, unless a snapshot that is older than the
  rollback is restored: any later calls are covered, with restorations of every snapshot taken since.
\<close>

theorem learned_policy_envelope:
  fixes cs :: "policy_call backed_call list"
  defines "r \<equiv> policy_run empty_policy_registry cs"
  shows "(can_execute f risk r \<longrightarrow> f \<in> fst ` set (lpr_policies r) \<and> \<not> lpr_kill_switch r \<and> risk = RISK_LOW
        \<and> (\<exists>e. Call (Reg_evidence e) \<in> set cs \<and> pev_policy_fingerprint e = f \<and> \<not> insufficient e))
    \<and> (map_of (lpr_lifecycle r) f = Some PL_ACTIVE \<and> map_of (lpr_lifecycle r) g = Some PL_ACTIVE \<longrightarrow> f = g)
    \<and> (map_of (lpr_lifecycle r) f = Some PL_ROLLED_BACK \<longrightarrow> \<not> can_execute f risk' (policy_run r ds))"
proof -
  let ?E = "{e. Call (Reg_evidence e) \<in> set cs}"
  have "policies_ok ?E empty_policy_registry" by (simp add: policies_ok_def empty_policy_registry_def promoted_def)
  then have ok: "policies_ok ?E r" unfolding r_def policy_run_def by (rule policies.backed_run_keeps) auto
  have "map_of (lpr_policies r) f \<noteq> None" if "map_of (lpr_lifecycle r) f = Some l" for l
    using ok that unfolding policies_ok_def by (metis option.distinct(1))
  moreover have "is_rolled_back f (policy_run r ds)" if "is_rolled_back f r"
    using that unfolding policy_run_def by (rule rolled_back.backed_run_keeps) simp
  ultimately show ?thesis
    using ok unfolding known_iff policies_ok_def can_execute_def promoted_def is_rolled_back_def by auto
qed

definition demo_policy :: learned_policy_version where
  "demo_policy = \<lparr>lpv_policy_id = ''p'', lpv_version = ''1'', lpv_training_data_hash = ''d'', lpv_model_hash = ''m'', lpv_maximum_risk = 1/2,
     lpv_maximum_cost = 5, lpv_exploration_epsilon = 1/10, lpv_fingerprint = ''f''\<rparr>"

definition demo_evidence :: promotion_evidence where
  "demo_evidence = \<lparr>pev_evidence_id = ''e'', pev_policy_fingerprint = ''f'',
     pev_estimate = \<lparr>ope_ips = 7/10, ope_self_normalized_ips = 7/10, ope_doubly_robust = 7/10, ope_effective_sample_size = 20,
       ope_supported_fraction = 1, ope_sensitivity_range = (7/10, 7/10)\<rparr>,
     pev_baseline_value = 1/2, pev_calibration_error = 0, pev_shadow_guardrail_regressions = 0, pev_lower_confidence_bound = 6/10\<rparr>"

abbreviation demo_calls :: "policy_call backed_call list" where
  "demo_calls \<equiv> [Call (Reg_policy demo_policy), Call (Reg_evidence demo_evidence), Take_snapshot, Call (To_canary ''f''),
     Call (To_active ''f'')]"

lemmas demo_policy_run = policy_run_def backed_run_def policy_step_def policy_do_def policy_ops empty_policy_registry_def
  demo_policy_def demo_evidence_def insufficient_def can_execute_def Let_def

theorem learned_policy_envelope_witness:
  "can_execute ''f'' RISK_LOW (policy_run empty_policy_registry demo_calls)
   \<and> ''f'' \<in> fst ` set (lpr_policies (policy_run empty_policy_registry demo_calls))
   \<and> map_of (lpr_lifecycle (policy_run empty_policy_registry (demo_calls @ [Call (Roll_back ''f'')]))) ''f'' = Some PL_ROLLED_BACK
   \<and> \<not> can_execute ''f'' RISK_LOW
      (policy_run (policy_run empty_policy_registry (demo_calls @ [Call (Roll_back ''f'')])) (demo_calls @ [Restore_snapshot 0]))"
proof -
  have a: "can_execute ''f'' RISK_LOW (policy_run empty_policy_registry demo_calls)"
    by (simp add: demo_policy_run)
  have b: "map_of (lpr_lifecycle (policy_run empty_policy_registry (demo_calls @ [Call (Roll_back ''f'')]))) ''f'' = Some PL_ROLLED_BACK"
    by (simp add: demo_policy_run)
  show ?thesis
    using a b learned_policy_envelope [of "''f''" RISK_LOW demo_calls]
      learned_policy_envelope [of "''f''" RISK_LOW "demo_calls @ [Call (Roll_back ''f'')]" "''f''" RISK_LOW
        "demo_calls @ [Restore_snapshot 0]"] by blast
qed

text \<open>Restoring a snapshot that is older than the rollback lets the policy execute again.\<close>

lemma older_snapshot_revives_policy:
  "can_execute ''f'' RISK_LOW (policy_run empty_policy_registry
     (demo_calls @ [Take_snapshot, Call (Roll_back ''f''), Restore_snapshot 1]))"
  by (simp add: demo_policy_run policy_snapshot_def)

section \<open>Selection stays inside the envelope\<close>

lemma propensities_lookup:
  "map_of (fold (\<lambda>a d. dict_set a v d) actions d) x = (if x \<in> set actions then Some v else map_of d x)"
  by (induction actions arbitrary: d) auto

lemma fold_set_keys: "dict_ok d \<Longrightarrow> dict_ok (fold (\<lambda>a d. dict_set a v d) actions d)
    \<and> fst ` set (fold (\<lambda>a d. dict_set a v d) actions d) = set actions \<union> fst ` set d"
  by (induction actions arbitrary: d) auto

lemma dict_sum:
  assumes "dict_ok d"
  shows "sum_list (map snd d) = (\<Sum>k\<in>fst ` set d. the (map_of d k))"
proof -
  have "sum_list (map snd d) = (\<Sum>x\<in>set d. snd x)"
    using assms by (simp add: sum_list_distinct_conv_sum_set distinct_map)
  also have "\<dots> = (\<Sum>x\<in>set d. the (map_of d (fst x)))"
    using assms by (intro sum.cong) auto
  also have "\<dots> = (\<Sum>k\<in>fst ` set d. the (map_of d k))"
    using assms by (simp add: sum.reindex distinct_map)
  finally show ?thesis .
qed

lemma propensities_sum:
  assumes "distinct actions" and "best \<in> set actions"
  shows "sum_list (map snd (propensities_of eps actions best)) = 1"
proof -
  let ?v = "eps / real (length actions)"
  let ?base = "fold (\<lambda>a d. dict_set a ?v d) actions []"
  let ?d = "propensities_of eps actions best"
  have d: "?d = dict_set best (?v + (1 - eps)) ?base"
    using assms(2) by (simp add: propensities_of_def Let_def propensities_lookup)
  have k: "dict_ok ?base" "fst ` set ?base = set actions" using fold_set_keys [of "[]" ?v actions] by simp_all
  have "fst ` set ?d = set actions" using k(2) assms(2) unfolding d by auto
  then have "sum_list (map snd ?d) = (\<Sum>a\<in>set actions. the (map_of ?d a))"
    using dict_sum [of ?d] k(1) by (simp add: d)
  also have "\<dots> = (\<Sum>a\<in>set actions. ?v + (if a = best then 1 - eps else 0))"
    by (intro sum.cong) (auto simp: d propensities_lookup)
  also have "\<dots> = real (card (set actions)) * ?v + (1 - eps)"
    using assms(2) by (simp add: sum.distrib)
  also have "real (card (set actions)) * ?v = eps"
    using assms by (cases actions) (auto simp: distinct_card)
  finally show ?thesis by simp
qed

lemma index_mod_in: "xs \<noteq> [] \<Longrightarrow> xs ! nat (i mod int (length xs)) \<in> set xs"
  by (rule nth_mem) (simp add: nat_less_iff)

lemma propensities_nonneg:
  assumes "best \<in> set actions" and "0 \<le> eps" and "eps \<le> 1"
  shows "list_all (\<lambda>(a, q). 0 \<le> q) (propensities_of eps actions best)"
proof -
  let ?v = "eps / real (length actions)"
  let ?base = "fold (\<lambda>a d. dict_set a ?v d) actions []"
  let ?d = "dict_set best (?v + (1 - eps)) ?base"
  have d: "propensities_of eps actions best = ?d"
    using assms(1) by (simp add: propensities_of_def Let_def propensities_lookup)
  have "dict_ok ?d" using fold_set_keys [of "[]" ?v actions] by simp
  then have mq: "map_of ?d a = Some q" if "(a, q) \<in> set ?d" for a q using that by (rule map_of_is_SomeI)
  have q: "q = ?v \<or> q = ?v + (1 - eps)" if "(a, q) \<in> set ?d" for a q
    using mq [OF that] by (cases "a = best") (auto simp: propensities_lookup split: if_splits)
  have "0 \<le> ?v" using assms(2) by simp
  then have "0 \<le> q" if "(a, q) \<in> set ?d" for a q using q [OF that] assms(3) by linarith
  then show ?thesis unfolding d list_all_iff by blast
qed

text \<open>
  A learned decision is constrained: when the learned policy is used, the chosen action is one of
  the candidates, safe, and predicted within the risk and cost limits, and the recorded
  propensities are a probability distribution; otherwise the action is the deterministic one, with
  propensity 1. Without permission the learned policy is never used.
\<close>

theorem learned_selection_constrained:
  assumes "distinct candidates" and "0 \<le> lpv_exploration_epsilon policy" and "lpv_exploration_epsilon policy \<le> 1"
    and d_def: "d = select_action policy m key candidates det safe allowed index"
  shows "(if pd_used_learned_policy d
      then allowed \<and> pd_action_id d \<in> set candidates \<inter> safe
        \<and> prd_risk (predict m key (pd_action_id d)) \<le> lpv_maximum_risk policy
        \<and> prd_cost (predict m key (pd_action_id d)) \<le> lpv_maximum_cost policy
      else pd_action_id d = det \<and> pd_propensities d = [(det, 1)])
    \<and> sum_list (map snd (pd_propensities d)) = 1 \<and> list_all (\<lambda>(a, q). 0 \<le> q) (pd_propensities d)"
proof (cases "\<not> allowed \<or> eligible_actions policy m key safe candidates = []")
  case True
  then show ?thesis by (auto simp: d_def select_action_def)
next
  case False
  let ?el = "eligible_actions policy m key safe candidates" and ?eps = "lpv_exploration_epsilon policy"
  let ?acts = "map fst (sort_key (\<lambda>(a, v). (- v, a)) ?el)"
  have s: "set ?acts = fst ` set ?el" by simp
  have m: "a \<in> set candidates \<inter> safe \<and> prd_risk (predict m key a) \<le> lpv_maximum_risk policy
      \<and> prd_cost (predict m key a) \<le> lpv_maximum_cost policy" if "a \<in> set ?acts" for a
    using that unfolding s by (auto simp: eligible_actions_def)
  have ne: "?acts \<noteq> []" using False by (metis empty_set image_is_empty s set_empty)
  then have best: "hd ?acts \<in> set ?acts" by (rule hd_in_set)
  have "pd_action_id d \<in> set ?acts"
    using False best index_mod_in [OF ne, of index] by (simp add: d_def select_action_def Let_def del: set_map set_sort)
  moreover have "distinct (map fst ?el)"
    using assms(1) by (simp add: eligible_actions_def o_def)
  then have "distinct ?acts" by (metis mset_map mset_sort mset_eq_imp_distinct_iff)
  then have "sum_list (map snd (propensities_of ?eps ?acts (hd ?acts))) = 1" using best by (rule propensities_sum)
  moreover have "list_all (\<lambda>(a, q). 0 \<le> q) (propensities_of ?eps ?acts (hd ?acts))"
    using best assms(2,3) by (rule propensities_nonneg)
  moreover have "pd_used_learned_policy d" "pd_propensities d = propensities_of ?eps ?acts (hd ?acts)"
    using False by (simp_all add: d_def select_action_def Let_def)
  ultimately show ?thesis using m False by simp
qed

definition demo_predictor :: shadow_predictor where
  "demo_predictor = \<lparr>sp_predictions = [((''k'', ''a''), \<lparr>prd_outcome = 3, prd_cost = 1, prd_risk = 1/10\<rparr>)],
     sp_global = \<lparr>prd_outcome = 0, prd_cost = 0, prd_risk = 1\<rparr>, sp_training_hash = ''d''\<rparr>"

theorem learned_selection_constrained_witness:
  "pd_used_learned_policy (select_action demo_policy demo_predictor ''k'' [''a'', ''b''] ''b'' {''a'', ''b''} True 3)
   \<and> pd_action_id (select_action demo_policy demo_predictor ''k'' [''a'', ''b''] ''b'' {''a'', ''b''} True 3) \<in> {''a'', ''b''}
   \<and> sum_list (map snd (pd_propensities (select_action demo_policy demo_predictor ''k'' [''a'', ''b''] ''b'' {''a'', ''b''} True 3))) = 1"
proof -
  have u: "pd_used_learned_policy (select_action demo_policy demo_predictor ''k'' [''a'', ''b''] ''b'' {''a'', ''b''} True 3)"
    by (simp add: select_action_def eligible_actions_def predict_def demo_policy_def demo_predictor_def Let_def)
  show ?thesis
    using u learned_selection_constrained [OF _ _ _ refl, of "[''a'', ''b'']" demo_policy demo_predictor "''k''" "''b''" "{''a'', ''b''}" True 3]
    by (simp add: demo_policy_def)
qed

end
