(* ===== verification/Cognitive_State.thy ===== *)
theory Cognitive_State
  imports Cognition "HOL-Library.Sublist"
begin

text \<open>
  The cognitive state of a task (\<open>cognition/state.py\<close>): the lifecycle rules, the immutable state
  with its operations, and the invalidation of dependent items, whose loop terminates with
  exactly the dependents. A state is replaced by a new one, whose constructor checks run again.
  Messages that display a collection or an enumeration member are given without it.
\<close>

declare map_of_eq_Some_iff [simp del] Some_eq_map_of_iff [simp del]

section \<open>Lifecycles\<close>

fun task_transitions :: "task_lifecycle_state \<Rightarrow> task_lifecycle_state list" where
  "task_transitions TL_RECEIVED = [TL_NORMALIZED, TL_CANCELLED, TL_FAILED]"
| "task_transitions TL_NORMALIZED = [TL_POLICY_BOUND, TL_CANCELLED, TL_FAILED]"
| "task_transitions TL_POLICY_BOUND = [TL_ACTIVE, TL_CANCELLED, TL_FAILED, TL_ESCALATED]"
| "task_transitions TL_ACTIVE = [TL_WAITING_INPUT, TL_WAITING_APPROVAL, TL_WAITING_OUTCOME, TL_PAUSED,
     TL_COMPLETED, TL_ABSTAINED, TL_CANCELLED, TL_FAILED, TL_ESCALATED]"
| "task_transitions TL_WAITING_INPUT = [TL_ACTIVE, TL_CANCELLED, TL_FAILED, TL_ESCALATED]"
| "task_transitions TL_WAITING_APPROVAL = [TL_ACTIVE, TL_CANCELLED, TL_FAILED, TL_ESCALATED]"
| "task_transitions TL_WAITING_OUTCOME = [TL_ACTIVE, TL_CANCELLED, TL_FAILED, TL_ESCALATED]"
| "task_transitions TL_PAUSED = [TL_ACTIVE, TL_CANCELLED, TL_FAILED]"
| "task_transitions _ = []"

definition action_sequence :: "action_lifecycle_state list" where
  "action_sequence = [AL_PROPOSED, AL_VALIDATED, AL_POLICY_CHECKED, AL_AUTHORIZED, AL_PREPARED, AL_EXECUTING,
     AL_OBSERVED, AL_VERIFIED, AL_ASSESSED, AL_CLOSED]"

definition action_alternative_terminals :: "action_lifecycle_state list" where
  "action_alternative_terminals = [AL_REJECTED, AL_CANCELLED, AL_TIMED_OUT, AL_FAILED, AL_COMPENSATION_REQUIRED, AL_QUARANTINED]"

fun hypothesis_transitions :: "hypothesis_status \<Rightarrow> hypothesis_status list" where
  "hypothesis_transitions HS_PROPOSED = [HS_ACTIVE, HS_RETIRED]"
| "hypothesis_transitions HS_ACTIVE = [HS_TEST_PLANNED, HS_RETIRED]"
| "hypothesis_transitions HS_TEST_PLANNED = [HS_OBSERVATION_RECEIVED, HS_RETIRED]"
| "hypothesis_transitions HS_OBSERVATION_RECEIVED = [HS_SUPPORTED, HS_WEAKENED, HS_FALSIFIED, HS_UNRESOLVED]"
| "hypothesis_transitions HS_SUPPORTED = [HS_ACCEPTED_FOR_ACTION, HS_RETIRED, HS_ACTIVE]"
| "hypothesis_transitions HS_WEAKENED = [HS_ACCEPTED_FOR_ACTION, HS_RETIRED, HS_ACTIVE]"
| "hypothesis_transitions HS_FALSIFIED = [HS_RETIRED]"
| "hypothesis_transitions HS_UNRESOLVED = [HS_ACCEPTED_FOR_ACTION, HS_RETIRED, HS_ACTIVE]"
| "hypothesis_transitions HS_ACCEPTED_FOR_ACTION = [HS_RETIRED, HS_ACTIVE]"
| "hypothesis_transitions HS_RETIRED = []"

definition outcome_sequence :: "outcome_lifecycle_state list" where
  "outcome_sequence = [OL_PREDICTED, OL_IMMEDIATE_OBSERVED, OL_INTERIM_ASSESSED, OL_DELAYED_PENDING,
     OL_DELAYED_OBSERVED, OL_CLOSED, OL_LEARNING_ELIGIBLE]"

definition validate_transition :: "string \<Rightarrow> 'a option \<Rightarrow> 'a \<Rightarrow> ('a \<Rightarrow> 'a list) \<Rightarrow> 'a \<Rightarrow> unit res" where
  "validate_transition name current next_state transitions initial =
     (if current = Some next_state then Inr ()
      else require (next_state \<in> set (case current of None \<Rightarrow> [initial] | Some c \<Rightarrow> transitions c))
        (ValueError (''illegal '' @ name @ '' lifecycle transition'')) (Inr ()))"

definition validate_task_transition :: "task_lifecycle_state option \<Rightarrow> task_lifecycle_state \<Rightarrow> unit res" where
  "validate_task_transition current next_state = validate_transition ''task'' current next_state task_transitions TL_RECEIVED"

definition validate_hypothesis_transition :: "hypothesis_status option \<Rightarrow> hypothesis_status \<Rightarrow> unit res" where
  "validate_hypothesis_transition current next_state =
     validate_transition ''hypothesis'' current next_state hypothesis_transitions HS_PROPOSED"

text \<open>The element after \<open>x\<close> in a sequence.\<close>

fun seq_next :: "'a list \<Rightarrow> 'a \<Rightarrow> 'a list" where
  "seq_next (y # z # zs) x = (if y = x then [z] else seq_next (z # zs) x)"
| "seq_next _ x = []"

definition action_allowed :: "action_lifecycle_state option \<Rightarrow> action_lifecycle_state list" where
  "action_allowed current =
     (case current of
        None \<Rightarrow> [AL_PROPOSED]
      | Some c \<Rightarrow>
          if c \<in> set action_alternative_terminals \<or> c = AL_CLOSED then []
          else seq_next action_sequence c @ action_alternative_terminals)"

definition validate_action_transition :: "action_lifecycle_state option \<Rightarrow> action_lifecycle_state \<Rightarrow> unit res" where
  "validate_action_transition current next_state =
     (if current = Some next_state then Inr ()
      else require (next_state \<in> set (action_allowed current)) (ValueError ''illegal action lifecycle transition'') (Inr ()))"

definition validate_outcome_transition :: "outcome_lifecycle_state option \<Rightarrow> outcome_lifecycle_state \<Rightarrow> unit res" where
  "validate_outcome_transition current next_state =
     (if current = Some next_state then Inr ()
      else require (next_state \<in> set (case current of
             None \<Rightarrow> [OL_PREDICTED]
           | Some c \<Rightarrow> if c \<noteq> OL_LEARNING_ELIGIBLE then seq_next outcome_sequence c else []))
        (ValueError ''illegal outcome lifecycle transition'') (Inr ()))"

section \<open>The state\<close>

datatype evidence = Ev_item evidence_item | Ev_ref evidence_ref

fun evidence_id_of :: "evidence \<Rightarrow> string" where
  "evidence_id_of (Ev_item e) = evi_evidence_id e"
| "evidence_id_of (Ev_ref e) = evr_evidence_id e"

text \<open>\<open>getattr(evidence, "tenant_id", task tenant)\<close>: an evidence item has no tenant of its own.\<close>

fun evidence_tenant :: "string \<Rightarrow> evidence \<Rightarrow> string" where
  "evidence_tenant own (Ev_item e) = own"
| "evidence_tenant own (Ev_ref e) = evr_tenant_id e"

definition COGNITIVE_SCHEMA_VERSION :: string where
  "COGNITIVE_SCHEMA_VERSION = ''2026-07-31.phase3.v1''"

record cognitive_state =
  cgs_task :: task_spec
  cgs_schema_version :: string
  cgs_epistemic_items :: "epistemic_item list"
  cgs_epistemic_history :: "epistemic_item list"
  cgs_evidence :: "evidence list"
  cgs_relations :: "epistemic_relation list"
  cgs_hypotheses :: "hypothesis list"
  cgs_action_states :: "(string, action_lifecycle_state) dict"
  cgs_materialized_views :: "(string, string list) dict"
  cgs_invalidated_views :: "string list"
  cgs_event_log :: "(string, pyval) dict list"
  cgs_answer_state_id :: "string option"
  cgs_verified_answer :: bool
  cgs_calibrated_risk :: "real option"
  cgs_marginal_value_estimate :: "real option"
  cgs_metadata :: "(string, pyval) dict"

abbreviation cgs_tenant :: "cognitive_state \<Rightarrow> string" where
  "cgs_tenant s \<equiv> tsk_tenant_id (cgs_task s)"

abbreviation item_ids :: "cognitive_state \<Rightarrow> string list" where
  "item_ids s \<equiv> map ei_item_id (cgs_epistemic_items s)"

definition CognitiveState_post_init :: "cognitive_state \<Rightarrow> cognitive_state res" where
  "CognitiveState_post_init s =
     require (list_all (\<lambda>i. ei_tenant_id i = cgs_tenant s) (cgs_epistemic_items s))
       (ValueError ''epistemic item tenant_id MUST match task tenant_id'') (
     require (list_all (\<lambda>i. ei_tenant_id i = cgs_tenant s) (cgs_epistemic_history s))
       (ValueError ''epistemic history tenant_id MUST match task tenant_id'') (
     require (list_all (\<lambda>e. evidence_tenant (cgs_tenant s) e = cgs_tenant s) (cgs_evidence s))
       (ValueError ''evidence tenant_id MUST match task tenant_id'') (
     require (case cgs_calibrated_risk s of None \<Rightarrow> True | Some r \<Rightarrow> 0 \<le> r \<and> r \<le> 1)
       (ValueError ''calibrated_risk MUST be between 0 and 1'') (
     require (case cgs_marginal_value_estimate s of None \<Rightarrow> True | Some v \<Rightarrow> \<not> v < 0)
       (ValueError ''marginal_value_estimate MUST be non-negative'') (Inr s)))))"

definition unresolved_contradictions :: "cognitive_state \<Rightarrow> string list" where
  "unresolved_contradictions s = map ei_item_id (filter (\<lambda>i. ei_status i = ES_CONFLICT) (cgs_epistemic_items s))"

definition missing_information :: "cognitive_state \<Rightarrow> string list" where
  "missing_information s =
     map ei_item_id (filter (\<lambda>i. ei_status i \<in> {ES_UNKNOWN, ES_CAPABILITY_LIMIT}) (cgs_epistemic_items s))"

definition evidence_ids :: "cognitive_state \<Rightarrow> string list" where
  "evidence_ids s = map evidence_id_of (cgs_evidence s)"

definition current_epistemic_items :: "cognitive_state \<Rightarrow> epistemic_item list" where
  "current_epistemic_items s = filter (\<lambda>i. ei_invalidation_status i = IV_CURRENT) (cgs_epistemic_items s)"

text \<open>The set of verifiers reads \<open>item.verifier\<close>, an attribute that evidence references do not have.\<close>

fun verifier_names :: "evidence list \<Rightarrow> string list res" where
  "verifier_names [] = Inr []"
| "verifier_names (Ev_ref e # es) = Inl (AttributeError ''verifier'')"
| "verifier_names (Ev_item e # es) =
     (case verifier_names es of
        Inl x \<Rightarrow> Inl x
      | Inr vs \<Rightarrow> Inr (case evi_verifier e of None \<Rightarrow> vs | Some v \<Rightarrow> v # vs))"

definition has_mandatory_verification :: "cognitive_state \<Rightarrow> bool res" where
  "has_mandatory_verification s =
     (if gi_mandatory_verification (tsk_goal (cgs_task s)) = [] then Inr True
      else if \<not> cgs_verified_answer s then Inr False
      else case verifier_names (cgs_evidence s) of
             Inl e \<Rightarrow> Inl e
           | Inr vs \<Rightarrow> Inr (list_all (\<lambda>v. v \<in> set vs) (gi_mandatory_verification (tsk_goal (cgs_task s)))))"

section \<open>Operations\<close>

definition with_epistemic_item :: "epistemic_item \<Rightarrow> cognitive_state \<Rightarrow> cognitive_state res" where
  "with_epistemic_item item s =
     require (ei_item_id item \<notin> set (item_ids s)) (ValueError (''epistemic item already exists: '' @ ei_item_id item))
     (CognitiveState_post_init (s\<lparr>
        cgs_schema_version := COGNITIVE_SCHEMA_VERSION,
        cgs_epistemic_items := cgs_epistemic_items s @ [item],
        cgs_event_log := cgs_event_log s @
          [[(''event'', PStr ''epistemic_item_appended''), (''item_id'', PStr (ei_item_id item)),
            (''status'', PStr (epistemic_status_value (ei_status item)))]]\<rparr>))"

definition with_evidence :: "evidence \<Rightarrow> cognitive_state \<Rightarrow> cognitive_state res" where
  "with_evidence e s =
     require (evidence_id_of e \<notin> set (evidence_ids s)) (ValueError (''evidence already exists: '' @ evidence_id_of e))
     (CognitiveState_post_init (s\<lparr>
        cgs_schema_version := COGNITIVE_SCHEMA_VERSION,
        cgs_evidence := cgs_evidence s @ [e],
        cgs_event_log := cgs_event_log s @
          [[(''event'', PStr ''evidence_appended''), (''evidence_id'', PStr (evidence_id_of e))]]\<rparr>))"

definition with_relation :: "epistemic_relation \<Rightarrow> cognitive_state \<Rightarrow> cognitive_state res" where
  "with_relation r s =
     require (er_source_id r \<in> set (item_ids s) \<and> er_target_id r \<in> set (item_ids s))
       (ValueError ''relation endpoints MUST reference existing epistemic items'') (
     require (er_relation_id r \<notin> set (map er_relation_id (cgs_relations s)))
       (ValueError (''relation already exists: '' @ er_relation_id r))
     (CognitiveState_post_init (s\<lparr>
        cgs_relations := cgs_relations s @ [r],
        cgs_event_log := cgs_event_log s @
          [[(''event'', PStr ''relation_appended''), (''relation_id'', PStr (er_relation_id r)),
            (''relation_type'', PStr (relation_type_value (er_relation_type r)))]]\<rparr>)))"

definition with_hypothesis :: "hypothesis \<Rightarrow> cognitive_state \<Rightarrow> cognitive_state res" where
  "with_hypothesis h s =
     require (hyp_hypothesis_id h \<notin> set (map hyp_hypothesis_id (cgs_hypotheses s)))
       (ValueError (''hypothesis already exists: '' @ hyp_hypothesis_id h)) (
     require (hyp_tenant_id h = cgs_tenant s) (ValueError ''hypothesis tenant_id MUST match task tenant_id'')
     (CognitiveState_post_init (s\<lparr>
        cgs_hypotheses := cgs_hypotheses s @ [h],
        cgs_event_log := cgs_event_log s @
          [[(''event'', PStr ''hypothesis_appended''), (''hypothesis_id'', PStr (hyp_hypothesis_id h))]]\<rparr>)))"

definition transition_event :: "string \<Rightarrow> action_lifecycle_state option \<Rightarrow> action_lifecycle_state \<Rightarrow> (string, pyval) dict" where
  "transition_event action_id previous next_state =
     [(''event'', PStr ''action_transition''), (''action_id'', PStr action_id),
      (''from'', case previous of None \<Rightarrow> PNone | Some p \<Rightarrow> PStr (action_lifecycle_state_value p)),
      (''to'', PStr (action_lifecycle_state_value next_state))]"

definition with_action_transition :: "string \<Rightarrow> action_lifecycle_state \<Rightarrow> cognitive_state \<Rightarrow> cognitive_state res" where
  "with_action_transition action_id next_state s =
     require (action_id \<noteq> []) (ValueError ''action_id MUST be non-empty'')
     (let previous = map_of (cgs_action_states s) action_id in
      if previous = Some next_state then Inr s
      else case validate_action_transition previous next_state of
             Inl e \<Rightarrow> Inl e
           | Inr _ \<Rightarrow>
               CognitiveState_post_init (s\<lparr>
                 cgs_action_states := dict_set action_id next_state (cgs_action_states s),
                 cgs_event_log := cgs_event_log s @ [transition_event action_id previous next_state]\<rparr>))"

text \<open>
  One round of the invalidation loop visits the items, then the relations. A visit adds a new
  identifier if something it depends on is already invalid.
\<close>

definition visit :: "('a \<Rightarrow> string set \<Rightarrow> bool) \<Rightarrow> ('a \<Rightarrow> string) \<Rightarrow> 'a \<Rightarrow> string list \<times> bool \<Rightarrow> string list \<times> bool" where
  "visit depends new x acc =
     (if new x \<notin> set (fst acc) \<and> depends x (set (fst acc)) then (fst acc @ [new x], True) else acc)"

definition item_depends :: "epistemic_item \<Rightarrow> string set \<Rightarrow> bool" where
  "item_depends i invalid \<longleftrightarrow> list_ex (\<lambda>d. d \<in> invalid) (ei_depends_on i)"

definition relation_depends :: "epistemic_relation \<Rightarrow> string set \<Rightarrow> bool" where
  "relation_depends r invalid \<longleftrightarrow> er_relation_type r = REL_DEPENDS_ON \<and> er_target_id r \<in> invalid"

definition invalid_round ::
  "epistemic_item list \<Rightarrow> epistemic_relation list \<Rightarrow> string list \<Rightarrow> string list \<times> bool" where
  "invalid_round items rels invalid =
     fold (visit relation_depends er_source_id) rels (fold (visit item_depends ei_item_id) items (invalid, False))"

lemma visit_apply [simp]:
  "visit depends new x (iv, b) = (if new x \<notin> set iv \<and> depends x (set iv) then (iv @ [new x], True) else (iv, b))"
  by (simp add: visit_def)

lemma visit_fold_grows:
  assumes "fold (visit depends new) xs (iv, b) = (iv', b')"
  shows "set iv \<subseteq> set iv' \<and> set iv' \<subseteq> set iv \<union> new ` set xs \<and> (b \<longrightarrow> b') \<and> (b' \<and> \<not> b \<longrightarrow> set iv \<noteq> set iv')
    \<and> (\<not> b' \<longrightarrow> iv' = iv \<and> (\<forall>x\<in>set xs. depends x (set iv) \<longrightarrow> new x \<in> set iv))"
  using assms
proof (induction xs arbitrary: iv b)
  case (Cons x xs)
  show ?case
  proof (cases "new x \<notin> set iv \<and> depends x (set iv)")
    case True
    with Cons.prems have "fold (visit depends new) xs (iv @ [new x], True) = (iv', b')" by simp
    from Cons.IH [OF this] True show ?thesis by auto
  next
    case False
    with Cons.prems have "fold (visit depends new) xs (iv, b) = (iv', b')" by auto
    from Cons.IH [OF this] False show ?thesis by auto
  qed
qed auto

lemma invalid_round_grows:
  assumes "invalid_round items rels iv = (iv', b)"
  shows "set iv \<subseteq> set iv' \<and> set iv' \<subseteq> set iv \<union> ei_item_id ` set items \<union> er_source_id ` set rels
    \<and> (b \<longrightarrow> set iv \<noteq> set iv')
    \<and> (\<not> b \<longrightarrow> iv' = iv \<and> (\<forall>i\<in>set items. item_depends i (set iv) \<longrightarrow> ei_item_id i \<in> set iv)
         \<and> (\<forall>r\<in>set rels. relation_depends r (set iv) \<longrightarrow> er_source_id r \<in> set iv))"
proof -
  obtain m c where m: "fold (visit item_depends ei_item_id) items (iv, False) = (m, c)" by fastforce
  with assms have r: "fold (visit relation_depends er_source_id) rels (m, c) = (iv', b)" by (simp add: invalid_round_def)
  from visit_fold_grows [OF m] visit_fold_grows [OF r] show ?thesis by (cases c) auto
qed

lemma card_remaining: "A \<subset> B \<Longrightarrow> B \<subseteq> A \<union> U \<Longrightarrow> finite U \<Longrightarrow> card (U - B) < card (U - A)"
  by (rule psubset_card_mono) auto

function invalid_loop :: "epistemic_item list \<Rightarrow> epistemic_relation list \<Rightarrow> string list \<Rightarrow> string list" where
  "invalid_loop items rels invalid =
     (case invalid_round items rels invalid of
        (invalid', changed) \<Rightarrow> if changed then invalid_loop items rels invalid' else invalid')"
  by pat_completeness auto

termination
proof (relation "measure (\<lambda>(items, rels, iv). card ((ei_item_id ` set items \<union> er_source_id ` set rels) - set iv))")
  fix items rels iv iv' changed
  assume x: "(iv', changed) = invalid_round items rels iv" and changed
  let ?U = "ei_item_id ` set items \<union> er_source_id ` set rels"
  have e: "invalid_round items rels iv = (iv', True)" using x \<open>changed\<close> by simp
  have "set iv \<subset> set iv'" and "set iv' \<subseteq> set iv \<union> ?U"
    using invalid_round_grows [OF e] by (auto simp only: psubset_eq Un_assoc simp_thms)
  then have "card (?U - set iv') < card (?U - set iv)" by (intro card_remaining) simp_all
  then show "((items, rels, iv'), items, rels, iv) \<in> measure (\<lambda>(items, rels, iv). card ((ei_item_id ` set items \<union> er_source_id ` set rels) - set iv))"
    by simp
qed simp

declare invalid_loop.simps [simp del]

definition invalidate_item :: "string list \<Rightarrow> epistemic_item \<Rightarrow> epistemic_item" where
  "invalidate_item invalid i =
     (if ei_item_id i \<in> set invalid \<and> ei_invalidation_status i = IV_CURRENT then i\<lparr>ei_invalidation_status := IV_INVALID\<rparr> else i)"

definition invalidate_from :: "string \<Rightarrow> string \<Rightarrow> cognitive_state \<Rightarrow> cognitive_state res" where
  "invalidate_from item_id reason s =
     require (item_id \<in> set (item_ids s)) (KeyError (''unknown epistemic item: '' @ item_id))
     (let invalid = invalid_loop (cgs_epistemic_items s) (cgs_relations s) [item_id];
          views = map fst (filter (\<lambda>(view_id, deps). list_ex (\<lambda>d. d \<in> set invalid) deps) (cgs_materialized_views s))
      in CognitiveState_post_init (s\<lparr>
           cgs_epistemic_items := map (invalidate_item invalid) (cgs_epistemic_items s),
           cgs_invalidated_views := sort (remdups (cgs_invalidated_views s @ views)),
           cgs_event_log := cgs_event_log s @
             [[(''event'', PStr ''dependency_invalidation''), (''root_item_id'', PStr item_id),
               (''invalidated_item_ids'', PList (map PStr (sort invalid))), (''reason'', PStr reason)]]\<rparr>))"

definition with_materialized_view :: "string \<Rightarrow> string list \<Rightarrow> cognitive_state \<Rightarrow> cognitive_state res" where
  "with_materialized_view view_id deps s =
     require (set deps \<subseteq> set (item_ids s)) (ValueError ''view dependencies are unknown'')
     (CognitiveState_post_init (s\<lparr>cgs_materialized_views := dict_set view_id deps (cgs_materialized_views s)\<rparr>))"

section \<open>The invalidation loop\<close>

text \<open>What depends directly on what: items on their dependencies, sources of a dependency on its target.\<close>

definition depends_edge :: "epistemic_item list \<Rightarrow> epistemic_relation list \<Rightarrow> (string \<times> string) set" where
  "depends_edge items rels =
     {(d, x). \<exists>i\<in>set items. x = ei_item_id i \<and> d \<in> set (ei_depends_on i)}
     \<union> {(d, x). \<exists>r\<in>set rels. er_relation_type r = REL_DEPENDS_ON \<and> d = er_target_id r \<and> x = er_source_id r}"

lemma visit_fold_within:
  assumes "\<And>x S. x \<in> set xs \<Longrightarrow> depends x S \<Longrightarrow> \<exists>d\<in>S. (d, new x) \<in> E" and "set (fst acc) \<subseteq> E\<^sup>* `` R"
  shows "set (fst (fold (visit depends new) xs acc)) \<subseteq> E\<^sup>* `` R"
  using assms
proof (induction xs arbitrary: acc)
  case (Cons x xs)
  have "set (fst (visit depends new x acc)) \<subseteq> E\<^sup>* `` R"
  proof (cases "depends x (set (fst acc))")
    case True
    with Cons.prems(1) obtain d where "d \<in> set (fst acc)" "(d, new x) \<in> E" by force
    with Cons.prems(2) have "new x \<in> E\<^sup>* `` R" by (blast intro: rtrancl_into_rtrancl)
    with Cons.prems(2) show ?thesis by (auto simp: visit_def)
  next
    case False
    with Cons.prems(2) show ?thesis by (simp add: visit_def)
  qed
  with Cons.IH [of "visit depends new x acc"] Cons.prems(1) show ?case by simp
qed simp

lemma invalid_round_within:
  "set (fst (invalid_round items rels iv)) \<subseteq> (depends_edge items rels)\<^sup>* `` set iv"
  unfolding invalid_round_def
  by (intro visit_fold_within)
    (auto simp: relation_depends_def item_depends_def depends_edge_def list_ex_iff)

lemma rtrancl_Image_eq: "A \<subseteq> B \<Longrightarrow> B \<subseteq> E\<^sup>* `` A \<Longrightarrow> E\<^sup>* `` B = E\<^sup>* `` A"
  by (blast intro: rtrancl_trans)

lemma invalid_loop_exact: "set (invalid_loop items rels iv) = (depends_edge items rels)\<^sup>* `` set iv"
proof (induction items rels iv rule: invalid_loop.induct)
  case (1 items rels iv)
  let ?E = "depends_edge items rels"
  obtain iv' b where e: "invalid_round items rels iv = (iv', b)" by fastforce
  have g: "set iv \<subseteq> set iv'" using invalid_round_grows [OF e] by (simp only: simp_thms)
  have w: "set iv' \<subseteq> ?E\<^sup>* `` set iv" using invalid_round_within [of items rels iv] e by simp
  show ?case
  proof (cases b)
    case True
    have "set (invalid_loop items rels iv) = ?E\<^sup>* `` set iv'"
      using 1 [OF e [symmetric] True] True e by (simp add: invalid_loop.simps)
    also have "\<dots> = ?E\<^sup>* `` set iv" using g w by (rule rtrancl_Image_eq)
    finally show ?thesis .
  next
    case False
    have "iv' = iv" and c: "\<And>d x. (d, x) \<in> ?E \<Longrightarrow> d \<in> set iv \<Longrightarrow> x \<in> set iv"
      using invalid_round_grows [OF e] False
      by (auto simp: depends_edge_def item_depends_def relation_depends_def list_ex_iff)
    have "x \<in> set iv" if "(d, x) \<in> ?E\<^sup>*" "d \<in> set iv" for d x
      using that by (induction rule: rtrancl_induct) (auto intro: c)
    with \<open>iv' = iv\<close> e False show ?thesis by (auto simp: invalid_loop.simps)
  qed
qed

lemma post_init_Inr: "CognitiveState_post_init s = Inr t \<Longrightarrow> t = s"
  by (simp add: CognitiveState_post_init_def)

text \<open>
  C27: Invalidation is exact: the loop ends, and the items that become invalid are precisely those
  that were current and are the given item or depend on it through any chain of dependencies
  and relations; no item is removed or otherwise changed, and the views that become
  invalid are precisely those with such a dependency.
\<close>

theorem invalidation_exact:
  assumes "invalidate_from item_id reason s = Inr t"
  defines "D \<equiv> {x. (item_id, x) \<in> (depends_edge (cgs_epistemic_items s) (cgs_relations s))\<^sup>*}"
  shows "cgs_epistemic_items t =
      map (\<lambda>i. if ei_item_id i \<in> D \<and> ei_invalidation_status i = IV_CURRENT
               then i\<lparr>ei_invalidation_status := IV_INVALID\<rparr> else i) (cgs_epistemic_items s)
    \<and> set (cgs_invalidated_views t) =
        set (cgs_invalidated_views s) \<union> {v. \<exists>deps. (v, deps) \<in> set (cgs_materialized_views s) \<and> set deps \<inter> D \<noteq> {}}
    \<and> item_id \<in> D"
proof -
  let ?iv = "invalid_loop (cgs_epistemic_items s) (cgs_relations s) [item_id]"
  have D: "set ?iv = D" by (auto simp: invalid_loop_exact D_def)
  let ?vs = "map fst (filter (\<lambda>(view_id, deps). list_ex (\<lambda>d. d \<in> set ?iv) deps) (cgs_materialized_views s))"
  have "CognitiveState_post_init (s\<lparr>cgs_epistemic_items := map (invalidate_item ?iv) (cgs_epistemic_items s),
      cgs_invalidated_views := sort (remdups (cgs_invalidated_views s @ ?vs)),
      cgs_event_log := cgs_event_log s @ [[(''event'', PStr ''dependency_invalidation''), (''root_item_id'', PStr item_id),
        (''invalidated_item_ids'', PList (map PStr (sort ?iv))), (''reason'', PStr reason)]]\<rparr>) = Inr t"
    using assms(1) by (simp add: invalidate_from_def Let_def)
  from post_init_Inr [OF this]
  have t: "cgs_epistemic_items t = map (invalidate_item ?iv) (cgs_epistemic_items s)"
    "cgs_invalidated_views t = sort (remdups (cgs_invalidated_views s @ ?vs))" by simp_all
  have v: "set ?vs = {v. \<exists>deps. (v, deps) \<in> set (cgs_materialized_views s) \<and> set deps \<inter> D \<noteq> {}}"
    unfolding D by (force simp: list_ex_iff)
  show ?thesis unfolding t set_sort set_remdups set_append v unfolding invalidate_item_def D by (simp add: D_def)
qed

section \<open>Runs of operations\<close>

datatype cognitive_call =
    Add_item epistemic_item
  | Add_evidence evidence
  | Add_relation epistemic_relation
  | Add_hypothesis hypothesis
  | Move_action string action_lifecycle_state
  | Invalidate string string
  | Add_view string "string list"

fun cognitive_do :: "cognitive_call \<Rightarrow> cognitive_state \<Rightarrow> cognitive_state res" where
  "cognitive_do (Add_item i) s = with_epistemic_item i s"
| "cognitive_do (Add_evidence e) s = with_evidence e s"
| "cognitive_do (Add_relation r) s = with_relation r s"
| "cognitive_do (Add_hypothesis h) s = with_hypothesis h s"
| "cognitive_do (Move_action a st) s = with_action_transition a st s"
| "cognitive_do (Invalidate i reason) s = invalidate_from i reason s"
| "cognitive_do (Add_view v deps) s = with_materialized_view v deps s"

text \<open>A call that raises leaves the caller with the state it had.\<close>

definition cognitive_step :: "cognitive_state \<Rightarrow> cognitive_call \<Rightarrow> cognitive_state" where
  "cognitive_step s c = (case cognitive_do c s of Inl _ \<Rightarrow> s | Inr t \<Rightarrow> t)"

text \<open>What every operation leaves of a state: items with their content, evidence, hypotheses and the event log.\<close>

definition same_item :: "epistemic_item \<Rightarrow> epistemic_item \<Rightarrow> bool" where
  "same_item i j \<longleftrightarrow> j = i \<or> (ei_invalidation_status i = IV_CURRENT \<and> j = i\<lparr>ei_invalidation_status := IV_INVALID\<rparr>)"

definition items_extend :: "epistemic_item list \<Rightarrow> epistemic_item list \<Rightarrow> bool" where
  "items_extend xs ys \<longleftrightarrow> (\<exists>js. prefix js ys \<and> list_all2 same_item xs js)"

definition state_extends :: "cognitive_state \<Rightarrow> cognitive_state \<Rightarrow> bool" where
  "state_extends s t \<longleftrightarrow>
     cgs_task t = cgs_task s
     \<and> items_extend (cgs_epistemic_items s) (cgs_epistemic_items t)
     \<and> prefix (cgs_evidence s) (cgs_evidence t) \<and> prefix (cgs_relations s) (cgs_relations t)
     \<and> prefix (cgs_hypotheses s) (cgs_hypotheses t) \<and> prefix (cgs_event_log s) (cgs_event_log t)"

definition state_ok :: "cognitive_state \<Rightarrow> bool" where
  "state_ok s \<longleftrightarrow> CognitiveState_post_init s = Inr s \<and> distinct (item_ids s) \<and> distinct (evidence_ids s)
     \<and> distinct (map er_relation_id (cgs_relations s)) \<and> distinct (map hyp_hypothesis_id (cgs_hypotheses s))
     \<and> list_all (\<lambda>h. hyp_tenant_id h = cgs_tenant s) (cgs_hypotheses s)
     \<and> list_all (\<lambda>r. er_source_id r \<in> set (item_ids s) \<and> er_target_id r \<in> set (item_ids s)) (cgs_relations s)
     \<and> list_all (\<lambda>(v, deps). set deps \<subseteq> set (item_ids s)) (cgs_materialized_views s)"

lemma same_item_refl: "same_item i i"
  by (simp add: same_item_def)

lemma same_item_trans: "same_item i j \<Longrightarrow> same_item j k \<Longrightarrow> same_item i k"
  by (auto simp: same_item_def)

lemma same_items_refl [simp]: "list_all2 same_item xs xs"
  by (simp add: list_all2_refl same_item_refl)

lemma invalidate_same: "same_item i (invalidate_item iv i)"
  by (simp add: same_item_def invalidate_item_def)

lemma invalidate_ids [simp]: "ei_item_id (invalidate_item iv i) = ei_item_id i" "ei_tenant_id (invalidate_item iv i) = ei_tenant_id i"
  by (simp_all add: invalidate_item_def)

lemma items_extend_append: "items_extend xs (xs @ ys)"
  unfolding items_extend_def by (rule exI [of _ xs]) simp

lemma items_extend_refl: "items_extend xs xs"
  using items_extend_append [of xs "[]"] by simp

lemma items_extend_invalidate: "items_extend xs (map (invalidate_item iv) xs)"
  unfolding items_extend_def
  by (rule exI [of _ "map (invalidate_item iv) xs"]) (simp add: list_all2_map2 list_all2_same invalidate_same)

lemma items_extend_trans:
  assumes "items_extend xs ys" and "items_extend ys zs"
  shows "items_extend xs zs"
proof -
  from assms(1) obtain js new where js: "ys = js @ new" "list_all2 same_item xs js"
    unfolding items_extend_def prefix_def by blast
  from assms(2) js(1) obtain ks where ks: "prefix ks zs" "list_all2 same_item (js @ new) ks"
    unfolding items_extend_def by blast
  from ks(2) obtain as bs where as: "ks = as @ bs" "list_all2 same_item js as" unfolding list_all2_append1 by blast
  from js(2) as(2) have "list_all2 same_item xs as" by (rule list_all2_trans [rotated]) (rule same_item_trans)
  moreover have "prefix as zs" using ks(1) as(1) by (meson append_prefixD)
  ultimately show ?thesis unfolding items_extend_def by blast
qed

text \<open>Each operation as a check and an update of the state.\<close>

lemma with_epistemic_item_Inr:
  "with_epistemic_item item s = Inr t \<longleftrightarrow> ei_item_id item \<notin> set (item_ids s) \<and> CognitiveState_post_init t = Inr t \<and>
     t = s\<lparr>cgs_schema_version := COGNITIVE_SCHEMA_VERSION, cgs_epistemic_items := cgs_epistemic_items s @ [item],
        cgs_event_log := cgs_event_log s @ [[(''event'', PStr ''epistemic_item_appended''), (''item_id'', PStr (ei_item_id item)),
            (''status'', PStr (epistemic_status_value (ei_status item)))]]\<rparr>"
  unfolding with_epistemic_item_def require_Inr_iff by (metis post_init_Inr)

lemma with_evidence_Inr:
  "with_evidence e s = Inr t \<longleftrightarrow> evidence_id_of e \<notin> set (evidence_ids s) \<and> CognitiveState_post_init t = Inr t \<and>
     t = s\<lparr>cgs_schema_version := COGNITIVE_SCHEMA_VERSION, cgs_evidence := cgs_evidence s @ [e],
        cgs_event_log := cgs_event_log s @ [[(''event'', PStr ''evidence_appended''), (''evidence_id'', PStr (evidence_id_of e))]]\<rparr>"
  unfolding with_evidence_def require_Inr_iff by (metis post_init_Inr)

lemma with_relation_Inr:
  "with_relation r s = Inr t \<longleftrightarrow> (er_source_id r \<in> set (item_ids s) \<and> er_target_id r \<in> set (item_ids s))
     \<and> er_relation_id r \<notin> set (map er_relation_id (cgs_relations s)) \<and> CognitiveState_post_init t = Inr t \<and>
     t = s\<lparr>cgs_relations := cgs_relations s @ [r],
        cgs_event_log := cgs_event_log s @ [[(''event'', PStr ''relation_appended''), (''relation_id'', PStr (er_relation_id r)),
            (''relation_type'', PStr (relation_type_value (er_relation_type r)))]]\<rparr>"
  unfolding with_relation_def require_Inr_iff by (metis post_init_Inr)

lemma with_hypothesis_Inr:
  "with_hypothesis h s = Inr t \<longleftrightarrow> hyp_hypothesis_id h \<notin> set (map hyp_hypothesis_id (cgs_hypotheses s))
     \<and> hyp_tenant_id h = cgs_tenant s \<and> CognitiveState_post_init t = Inr t \<and>
     t = s\<lparr>cgs_hypotheses := cgs_hypotheses s @ [h],
        cgs_event_log := cgs_event_log s @ [[(''event'', PStr ''hypothesis_appended''), (''hypothesis_id'', PStr (hyp_hypothesis_id h))]]\<rparr>"
  unfolding with_hypothesis_def require_Inr_iff by (metis post_init_Inr)

lemma with_action_transition_Inr:
  assumes "with_action_transition a st s = Inr t"
  shows "t = s \<or> (map_of (cgs_action_states s) a \<noteq> Some st \<and> st \<in> set (action_allowed (map_of (cgs_action_states s) a))
     \<and> CognitiveState_post_init t = Inr t \<and>
     t = s\<lparr>cgs_action_states := dict_set a st (cgs_action_states s),
           cgs_event_log := cgs_event_log s @ [transition_event a (map_of (cgs_action_states s) a) st]\<rparr>)"
proof (cases "map_of (cgs_action_states s) a = Some st")
  case False
  with assms have "st \<in> set (action_allowed (map_of (cgs_action_states s) a))"
    and c: "CognitiveState_post_init (s\<lparr>cgs_action_states := dict_set a st (cgs_action_states s),
        cgs_event_log := cgs_event_log s @ [transition_event a (map_of (cgs_action_states s) a) st]\<rparr>) = Inr t"
    by (auto simp: with_action_transition_def validate_action_transition_def require_def Let_def split: if_splits)
  with False post_init_Inr [OF c] show ?thesis by simp
qed (use assms in \<open>simp add: with_action_transition_def Let_def\<close>)

lemma invalidate_from_Inr:
  assumes "invalidate_from item_id reason s = Inr t"
  shows "\<exists>iv views ev. CognitiveState_post_init t = Inr t \<and> t = s\<lparr>
     cgs_epistemic_items := map (invalidate_item iv) (cgs_epistemic_items s), cgs_invalidated_views := views,
     cgs_event_log := cgs_event_log s @ [(''event'', PStr ''dependency_invalidation'') # ev]\<rparr>"
  using assms unfolding invalidate_from_def require_Inr_iff Let_def by (metis post_init_Inr)

lemma with_materialized_view_Inr:
  "with_materialized_view v deps s = Inr t \<longleftrightarrow> set deps \<subseteq> set (item_ids s) \<and> CognitiveState_post_init t = Inr t \<and>
     t = s\<lparr>cgs_materialized_views := dict_set v deps (cgs_materialized_views s)\<rparr>"
  unfolding with_materialized_view_def require_Inr_iff by (metis post_init_Inr)

lemmas operation_Inr = with_epistemic_item_Inr with_evidence_Inr with_relation_Inr with_hypothesis_Inr with_materialized_view_Inr

lemma operation_extends:
  assumes "cognitive_do c s = Inr t"
  shows "state_extends s t"
proof (cases c)
  case (Move_action a st)
  with assms with_action_transition_Inr [of a st s t] show ?thesis
    by (auto simp: state_extends_def items_extend_refl)
next
  case (Invalidate i reason)
  with assms invalidate_from_Inr [of i reason s t] show ?thesis
    by (auto simp: state_extends_def items_extend_invalidate)
qed (use assms in \<open>auto simp: operation_Inr state_extends_def items_extend_refl items_extend_append\<close>)

lemma state_ok_views_set:
  "list_all (\<lambda>(v, deps). set deps \<subseteq> A) d \<Longrightarrow> set deps \<subseteq> A \<Longrightarrow> list_all (\<lambda>(v, deps). set deps \<subseteq> A) (dict_set v deps d)"
  using set_dict_set_subset [of v deps d] by (fastforce simp: list_all_iff)

lemma operation_keeps:
  assumes "state_ok s" and "cognitive_do c s = Inr t"
  shows "state_ok t"
proof (cases c)
  case (Move_action a st)
  with assms with_action_transition_Inr [of a st s t] show ?thesis
    by (auto simp: state_ok_def evidence_ids_def)
next
  case (Invalidate i reason)
  with assms invalidate_from_Inr [of i reason s t] show ?thesis
    by (auto simp: state_ok_def evidence_ids_def o_def image_image)
next
  case (Add_view v deps)
  with assms show ?thesis by (auto simp: operation_Inr state_ok_def evidence_ids_def intro!: state_ok_views_set)
qed (use assms in \<open>auto simp: operation_Inr state_ok_def evidence_ids_def list_all_iff\<close>)

lemma state_extends_refl: "state_extends s s"
  by (simp add: state_extends_def items_extend_refl)

lemma state_extends_trans: "state_extends s t \<Longrightarrow> state_extends t u \<Longrightarrow> state_extends s u"
  unfolding state_extends_def by (metis items_extend_trans prefix_order.trans)

interpretation cognitive: step_machine cognitive_step state_ok state_extends
proof
  fix s c
  assume "state_ok s"
  then show "state_ok (cognitive_step s c)" and "state_extends s (cognitive_step s c)"
    by (auto simp: cognitive_step_def state_extends_refl operation_extends operation_keeps split: sum.split)
qed (auto intro: state_extends_refl state_extends_trans)

text \<open>
  C29: The state only grows: from a consistent state, every sequence of operations leads to a
  consistent state of the same task (own tenant, distinct identifiers, relations and views
  over known items), in which every earlier item is still there at its place, at most marked
  invalid, and evidence, relations, hypotheses and the event log have only been appended to.
\<close>

theorem cognitive_state_append_only:
  assumes "state_ok s"
  shows "state_ok (foldl cognitive_step s cs) \<and> state_extends s (foldl cognitive_step s cs)"
  using cognitive.run_inv [OF assms] cognitive.run_ext [OF assms] by simp

section \<open>The lifecycle of an action\<close>

definition is_move :: "string \<Rightarrow> (string, pyval) dict \<Rightarrow> bool" where
  "is_move a ev \<longleftrightarrow> map_of ev ''event'' = Some (PStr ''action_transition'') \<and> map_of ev ''action_id'' = Some (PStr a)"

definition action_history :: "string \<Rightarrow> (string, pyval) dict list \<Rightarrow> pyval option list" where
  "action_history a evs = map (\<lambda>ev. map_of ev ''to'') (filter (is_move a) evs)"

text \<open>The paths an action may take: along the sequence, possibly leaving it for one alternative end.\<close>

definition lifecycle_path :: "action_lifecycle_state list \<Rightarrow> bool" where
  "lifecycle_path p \<longleftrightarrow>
     (\<exists>n. 0 < n \<and> n \<le> length action_sequence \<and> p = take n action_sequence)
     \<or> (\<exists>n e. 0 < n \<and> n < length action_sequence \<and> e \<in> set action_alternative_terminals \<and> p = take n action_sequence @ [e])"

definition recorded :: "action_lifecycle_state list \<Rightarrow> pyval option list" where
  "recorded p = map (\<lambda>st. Some (PStr (action_lifecycle_state_value st))) p"

definition moves_ok :: "cognitive_state \<Rightarrow> bool" where
  "moves_ok s \<longleftrightarrow>
     (\<forall>a. map_of (cgs_action_states s) a = None \<longrightarrow> action_history a (cgs_event_log s) = [])
     \<and> (\<forall>a st. map_of (cgs_action_states s) a = Some st \<longrightarrow>
           (\<exists>p. lifecycle_path p \<and> last p = st \<and> action_history a (cgs_event_log s) = recorded p))"

lemma path_start: "lifecycle_path [AL_PROPOSED]"
  unfolding lifecycle_path_def by (rule disjI1, rule exI [of _ 1]) (simp add: action_sequence_def)

lemma next_in_sequence:
  assumes "0 < n" and "n \<le> length action_sequence" and "st \<in> set (action_allowed (Some (last (take n action_sequence))))"
  shows "n < length action_sequence \<and> (st = action_sequence ! n \<or> st \<in> set action_alternative_terminals)"
proof -
  have "n \<in> {1, 2, 3, 4, 5, 6, 7, 8, 9, 10}" using assms(1,2) unfolding action_sequence_def by (simp, presburger)
  then show ?thesis using assms(3)
    by (elim insertE emptyE) (simp_all add: action_sequence_def action_allowed_def action_alternative_terminals_def)
qed

lemma path_extend:
  assumes "lifecycle_path p" and "st \<in> set (action_allowed (Some (last p)))"
  shows "lifecycle_path (p @ [st])"
  using assms(1) unfolding lifecycle_path_def
proof (elim disjE exE conjE)
  fix n assume n: "0 < n" "n \<le> length action_sequence" "p = take n action_sequence"
  from next_in_sequence [OF n(1,2)] assms(2) n(3)
  have "n < length action_sequence" and "st = action_sequence ! n \<or> st \<in> set action_alternative_terminals" by auto
  then show "(\<exists>n. 0 < n \<and> n \<le> length action_sequence \<and> p @ [st] = take n action_sequence)
      \<or> (\<exists>n e. 0 < n \<and> n < length action_sequence \<and> e \<in> set action_alternative_terminals \<and> p @ [st] = take n action_sequence @ [e])"
    using n by (metis Suc_leI take_Suc_conv_app_nth zero_less_Suc)
qed (use assms(2) in \<open>auto simp: action_allowed_def\<close>)

lemma other_event [simp]: "\<not> is_move a ((''event'', PStr e) # ev)" if "e \<noteq> ''action_transition''"
  using that by (simp add: is_move_def)

lemma action_history_append: "action_history a (evs @ [ev]) = action_history a evs @ (if is_move a ev then [map_of ev ''to''] else [])"
  by (simp add: action_history_def)

lemma move_event: "is_move b (transition_event a prev st) \<longleftrightarrow> b = a"
  "map_of (transition_event a prev st) ''to'' = Some (PStr (action_lifecycle_state_value st))"
  by (auto simp: is_move_def transition_event_def)

lemma moves_ok_move:
  assumes "moves_ok s" and "st \<in> set (action_allowed (map_of (cgs_action_states s) a))"
  shows "moves_ok (s\<lparr>cgs_action_states := dict_set a st (cgs_action_states s),
    cgs_event_log := cgs_event_log s @ [transition_event a (map_of (cgs_action_states s) a) st]\<rparr>)"
proof -
  have "\<exists>p. lifecycle_path p \<and> last p = st
      \<and> action_history a (cgs_event_log s) @ [Some (PStr (action_lifecycle_state_value st))] = recorded p"
  proof (cases "map_of (cgs_action_states s) a")
    case None
    with assms have "st = AL_PROPOSED" "action_history a (cgs_event_log s) = []"
      by (simp_all add: moves_ok_def action_allowed_def)
    then show ?thesis by (intro exI [of _ "[AL_PROPOSED]"]) (simp add: path_start recorded_def)
  next
    case (Some cur)
    with assms(1) obtain p where p: "lifecycle_path p" "last p = cur" "action_history a (cgs_event_log s) = recorded p"
      unfolding moves_ok_def by blast
    with assms(2) Some path_extend [of p st] show ?thesis
      by (intro exI [of _ "p @ [st]"]) (simp add: recorded_def)
  qed
  with assms(1) show ?thesis
    by (simp add: moves_ok_def action_history_append move_event)
qed

lemma moves_ok_other:
  assumes "moves_ok s" and "cgs_action_states t = cgs_action_states s"
    and "cgs_event_log t \<in> {cgs_event_log s, cgs_event_log s @ [(''event'', PStr e) # ev]}" and "e \<noteq> ''action_transition''"
  shows "moves_ok t"
proof -
  have "action_history a (cgs_event_log t) = action_history a (cgs_event_log s)" for a
    using assms(3,4) by (auto simp: action_history_append)
  with assms(1,2) show ?thesis by (simp add: moves_ok_def)
qed

lemma operation_moves_ok:
  assumes "moves_ok s" and "cognitive_do c s = Inr t"
  shows "moves_ok t"
proof (cases c)
  case (Move_action a st)
  with assms have "with_action_transition a st s = Inr t" by simp
  from with_action_transition_Inr [OF this] moves_ok_move [OF assms(1), of st a] assms(1) show ?thesis by metis
next
  case (Invalidate i reason)
  with assms have "invalidate_from i reason s = Inr t" by simp
  from invalidate_from_Inr [OF this] show ?thesis 
    by (elim exE conjE) (rule moves_ok_other [OF assms(1), where e = "''dependency_invalidation''"], simp_all)
next
  case (Add_item i)
  with assms show ?thesis
    by (intro moves_ok_other [OF assms(1), where e = "''epistemic_item_appended''"]) (auto simp: operation_Inr)
next
  case (Add_evidence e)
  with assms show ?thesis
    by (intro moves_ok_other [OF assms(1), where e = "''evidence_appended''"]) (auto simp: operation_Inr)
next
  case (Add_relation r)
  with assms show ?thesis
    by (intro moves_ok_other [OF assms(1), where e = "''relation_appended''"]) (auto simp: operation_Inr)
next
  case (Add_hypothesis h)
  with assms show ?thesis
    by (intro moves_ok_other [OF assms(1), where e = "''hypothesis_appended''"]) (auto simp: operation_Inr)
next
  case (Add_view v deps)
  with assms show ?thesis
    by (intro moves_ok_other [OF assms(1), where e = "[]"]) (auto simp: operation_Inr)
qed

interpretation action_moves: guarded_machine cognitive_step "\<lambda>_. True" moves_ok
  by unfold_locales (auto simp: cognitive_step_def operation_moves_ok split: sum.split)

text \<open>
  C28: Actions take their prescribed course: in every state reached by operations from one without
  actions, the event log holds for each action exactly the states it went through, from
  PROPOSED along the fixed sequence, with at most one step aside, to an alternative end. So no
  action executes that was not validated, checked and authorised before, in this order.
\<close>

theorem action_lifecycle_respected:
  assumes "cgs_action_states s = []" and "cgs_event_log s = []"
    and "map_of (cgs_action_states (foldl cognitive_step s cs)) a = Some st"
  shows "\<exists>p. lifecycle_path p \<and> last p = st \<and> action_history a (cgs_event_log (foldl cognitive_step s cs)) = recorded p"
proof -
  have "moves_ok s" using assms(1,2) by (simp add: moves_ok_def action_history_def)
  then have "moves_ok (foldl cognitive_step s cs)" by (rule action_moves.run_keeps) (simp add: list_all_iff)
  with assms(3) show ?thesis unfolding moves_ok_def by blast
qed

section \<open>Instances\<close>

definition demo_task_spec :: task_spec where
  "demo_task_spec =
     \<lparr>tsk_task_id = ''x'', tsk_description = ''x'', tsk_goal = \<lparr>gi_objective = ''x'',
     gi_success_criteria = [], gi_constraints = [], gi_authority = [], gi_mandatory_verification =
     [''proof'']\<rparr>, tsk_policy = \<lparr>pcx_risk_class = RISK_MEDIUM, pcx_budget = None, pcx_deadline =
     None, pcx_data_boundaries = [], pcx_side_effect_boundaries = []\<rparr>, tsk_parent_task_id = None,
     tsk_tenant_id = ''x'', tsk_actor_id = ''x'', tsk_session_id = ''x'', tsk_expected_output_contract = [],
     tsk_constraints = [], tsk_prohibited_outcomes = [], tsk_soft_preferences = [], tsk_domain = ''x'',
     tsk_data_classification = ''x'', tsk_jurisdiction_tags = [], tsk_budgets = \<lparr>bud_tokens = None,
     bud_money = None, bud_wall_time_ms = None, bud_accelerator_time_ms = None, bud_tool_calls = None,
     bud_branch_count = None, bud_attempt_count = None\<rparr>, tsk_required_evidence = [],
     tsk_acceptable_uncertainty = None, tsk_abstention_rule = ''x'', tsk_escalation_rule = ''x'',
     tsk_side_effect_class = SE_NONE, tsk_retention_policy = ''x'', tsk_audit_policy = ''x'', tsk_user_sources
     = [], tsk_system_sources = [], tsk_retrieved_sources = [], tsk_security_labels = [], tsk_schema_version =
     ''x'', tsk_metadata = []\<rparr>"

definition demo_claim_item :: "string \<Rightarrow> string list \<Rightarrow> epistemic_item" where
  "demo_claim_item i deps =
     \<lparr>ei_item_id = i, ei_status = ES_FACT, ei_content = ''x'', ei_tenant_id = ''x'', ei_normalized_claim =
     None, ei_subject = None, ei_predicate = None, ei_object = None, ei_scope = ''x'', ei_temporal_validity =
     None, ei_confidence_ref = None, ei_evidence_ids = [], ei_support_ids = [], ei_contradiction_ids = [],
     ei_depends_on = deps, ei_independence_group = ''x'', ei_freshness = None, ei_expires_at = None,
     ei_invalidation_status = IV_CURRENT, ei_security_labels = [], ei_ir_unit_refs = [], ei_schema_version =
     ''x'', ei_metadata = []\<rparr>"

definition demo_cognitive_state :: cognitive_state where
  "demo_cognitive_state = \<lparr>cgs_task = demo_task_spec, cgs_schema_version = COGNITIVE_SCHEMA_VERSION,
     cgs_epistemic_items = [demo_claim_item ''a'' [], demo_claim_item ''b'' [''a''], demo_claim_item ''c'' [''b'']], cgs_epistemic_history = [],
     cgs_evidence = [], cgs_relations = [], cgs_hypotheses = [], cgs_action_states = [],
     cgs_materialized_views = [(''v'', [''c''])], cgs_invalidated_views = [], cgs_event_log = [],
     cgs_answer_state_id = None, cgs_verified_answer = True, cgs_calibrated_risk = None,
     cgs_marginal_value_estimate = None, cgs_metadata = []\<rparr>"

lemma demo_state_ok: "state_ok demo_cognitive_state"
  by (simp add: state_ok_def demo_cognitive_state_def demo_claim_item_def demo_task_spec_def CognitiveState_post_init_def evidence_ids_def)

theorem invalidation_exact_witness:
  "\<exists>t. invalidate_from ''a'' ''retracted'' demo_cognitive_state = Inr t
     \<and> ei_invalidation_status (cgs_epistemic_items t ! 2) = IV_INVALID \<and> cgs_invalidated_views t \<noteq> []"
proof -
  let ?s = demo_cognitive_state
  let ?E = "depends_edge (cgs_epistemic_items ?s) (cgs_relations ?s)"
  have "(''a'', ''b'') \<in> ?E" "(''b'', ''c'') \<in> ?E"
    by (auto simp: depends_edge_def demo_cognitive_state_def demo_claim_item_def)
  then have c: "(''a'', ''c'') \<in> ?E\<^sup>*" by (meson r_into_rtrancl rtrancl.rtrancl_into_rtrancl)
  obtain t where t: "invalidate_from ''a'' ''retracted'' ?s = Inr t"
    by (simp add: invalidate_from_def Let_def demo_cognitive_state_def demo_claim_item_def demo_task_spec_def CognitiveState_post_init_def
        invalidate_item_def)
  have "ei_invalidation_status (cgs_epistemic_items t ! 2) = IV_INVALID"
    using invalidation_exact [OF t] c by (simp add: demo_cognitive_state_def demo_claim_item_def)
  moreover have "''v'' \<in> set (cgs_invalidated_views t)"
    using invalidation_exact [OF t] c by (simp add: demo_cognitive_state_def)
  ultimately show ?thesis using t by auto
qed

theorem cognitive_state_append_only_witness:
  "state_ok (foldl cognitive_step demo_cognitive_state [Add_item (demo_claim_item ''d'' [''a'']), Invalidate ''a'' ''r''])
   \<and> state_extends demo_cognitive_state
       (foldl cognitive_step demo_cognitive_state [Add_item (demo_claim_item ''d'' [''a'']), Invalidate ''a'' ''r''])"
  by (rule cognitive_state_append_only [OF demo_state_ok])

theorem action_lifecycle_respected_witness:
  "\<exists>p. lifecycle_path p \<and> last p = AL_VALIDATED \<and> action_history ''x''
     (cgs_event_log (foldl cognitive_step demo_cognitive_state [Move_action ''x'' AL_PROPOSED, Move_action ''x'' AL_EXECUTING,
        Move_action ''x'' AL_VALIDATED])) = recorded p"
proof (rule action_lifecycle_respected)
  show "cgs_action_states demo_cognitive_state = []" and "cgs_event_log demo_cognitive_state = []"
    by (simp_all add: demo_cognitive_state_def)
  show "map_of (cgs_action_states (foldl cognitive_step demo_cognitive_state [Move_action ''x'' AL_PROPOSED,
      Move_action ''x'' AL_EXECUTING, Move_action ''x'' AL_VALIDATED])) ''x'' = Some AL_VALIDATED"
    by (simp add: cognitive_step_def with_action_transition_def validate_action_transition_def action_allowed_def
        action_sequence_def action_alternative_terminals_def demo_cognitive_state_def demo_claim_item_def demo_task_spec_def
        CognitiveState_post_init_def Let_def)
qed

text \<open>
  The check of mandatory verifiers raises as soon as the evidence contains a reference, because
  references have no \<open>verifier\<close> attribute.
\<close>

lemma evidence_ref_breaks_verification:
  assumes "gi_mandatory_verification (tsk_goal (cgs_task s)) \<noteq> []" and "cgs_verified_answer s"
    and "Ev_ref e \<in> set (cgs_evidence s)"
  shows "has_mandatory_verification s = Inl (AttributeError ''verifier'')"
proof -
  have "Ev_ref e \<in> set es \<Longrightarrow> verifier_names es = Inl (AttributeError ''verifier'')" for es
    by (induction es rule: verifier_names.induct) auto
  with assms show ?thesis by (simp add: has_mandatory_verification_def)
qed

end
