(* ===== verification/Repair.thy ===== *)
theory Repair
  imports Cognitive_State Mutation
begin

text \<open>
  Localised repair of the cognitive state (\<open>repair/contracts.py\<close>, \<open>repair/analysis.py\<close>,
  \<open>repair/engine.py\<close>). The recomputation and the verification of an item are functions the caller
  passes, which may raise. The execution snapshot of the whole system that is captured before and
  restored after an exception is not part of the model: the result of a repair says which
  cognitive state it assigned, or that it assigned none.
\<close>

declare map_of_eq_Some_iff [simp del] Some_eq_map_of_iff [simp del]

section \<open>Contracts\<close>

datatype artifact_kind = AK_CLAIM | AK_PLAN | AK_ACTION | AK_OUTPUT | AK_MEMORY | AK_SKILL

datatype artifact_validity = AV_CURRENT | AV_STALE | AV_INVALID

record repair_artifact =
  ra_artifact_id :: string
  ra_kind :: artifact_kind
  ra_depends_on :: "string list"
  ra_validity :: artifact_validity
  ra_payload :: "(epistemic_item + string) option"

definition RepairArtifact_post_init :: "repair_artifact \<Rightarrow> repair_artifact res" where
  "RepairArtifact_post_init a =
     require (ra_artifact_id a \<noteq> []) (ValueError ''repair artifact_id MUST be non-empty'') (
     require (ra_artifact_id a \<notin> set (ra_depends_on a)) (ValueError ''repair artifacts MUST NOT depend on themselves'') (Inr a))"

record dependency_cut =
  dc_root_ids :: "string list"
  dc_affected_ids :: "string list"
  dc_unaffected_ids :: "string list"
  dc_topological_order :: "string list"

datatype repair_action = RA_LOCAL_REPAIR | RA_ROLLBACK | RA_RECOMPUTE | RA_ASK | RA_ABSTAIN

record repair_candidate =
  rcd_candidate_id :: string
  rcd_action :: repair_action
  rcd_target_ids :: "string list"
  rcd_rationale :: string
  rcd_estimated_cost :: real
  rcd_preserves_unaffected :: bool
  rcd_requires_input :: bool

record repair_outcome =
  ro_success :: bool
  ro_action :: repair_action
  ro_affected_ids :: "string list"
  ro_reverified_ids :: "string list"
  ro_preserved_ids :: "string list"
  ro_snapshot_id :: string
  ro_reason_codes :: "string list"
  ro_avoided_recomputation :: nat

datatype failure_source = FS_WORKER | FS_PROVIDER | FS_TOOL

record runtime_failure =
  rf_failure_id :: string
  rf_source :: failure_source
  rf_retryable :: bool
  rf_state_corrupted :: bool
  rf_input_required :: bool
  rf_metadata :: "(string, pyval) dict"

section \<open>The dependency dcut\<close>

definition artifact_depends :: "repair_artifact \<Rightarrow> string set \<Rightarrow> bool" where
  "artifact_depends a affected \<longleftrightarrow> list_ex (\<lambda>d. d \<in> affected) (ra_depends_on a)"

text \<open>The loop over the artifacts, repeated while it adds one; the set is the list of its elements.\<close>

function affected_loop :: "repair_artifact list \<Rightarrow> string list \<Rightarrow> string list" where
  "affected_loop as affected =
     (case fold (visit artifact_depends ra_artifact_id) as (affected, False) of
        (affected', changed) \<Rightarrow> if changed then affected_loop as affected' else affected')"
  by pat_completeness auto

termination
proof (relation "measure (\<lambda>(as, affected). card (ra_artifact_id ` set as - set affected))")
  fix as affected affected' changed
  assume x: "(affected', changed) = fold (visit artifact_depends ra_artifact_id) as (affected, False)" and changed
  have "set affected \<subset> set affected'" and "set affected' \<subseteq> set affected \<union> ra_artifact_id ` set as"
    using visit_fold_grows [OF x [symmetric]] \<open>changed\<close> by (auto simp only: psubset_eq simp_thms)
  then show "((as, affected'), as, affected) \<in> measure (\<lambda>(as, affected). card (ra_artifact_id ` set as - set affected))"
    by (simp add: card_remaining)
qed simp

declare affected_loop.simps [simp del]

text \<open>
  Topological order in layers: the sorted artifacts without pending dependencies come next, and
  are then removed from the dependencies of the others.
\<close>

function layers :: "(string \<times> string set) list \<Rightarrow> string list res" where
  "layers deps =
     (if deps = [] then Inr []
      else (let ready = sort (map fst (filter (\<lambda>(_, vs). vs = {}) deps)) in
        if ready = [] then Inl (ValueError ''repair dependency graph MUST be acyclic'')
        else case layers (map (\<lambda>(k, vs). (k, vs - set ready)) (filter (\<lambda>(k, _). k \<notin> set ready) deps)) of
               Inl e \<Rightarrow> Inl e
             | Inr rest \<Rightarrow> Inr (ready @ rest)))"
  by pat_completeness auto

termination
proof (relation "measure length")
  fix deps :: "(string \<times> string set) list" and ready
  assume r: "ready = sort (map fst (filter (\<lambda>(_, vs). vs = {}) deps))" and "ready \<noteq> []"
  then have "filter (\<lambda>(_, vs). vs = {}) deps \<noteq> []" by (metis list.map_disc_iff sort_key_simps(1))
  then obtain x where "x \<in> set (filter (\<lambda>(_, vs). vs = {}) deps)" by (meson last_in_set)
  then have "(fst x, {}) \<in> set deps" and "fst x \<in> set ready" unfolding r by auto
  then obtain k where "(k, {}) \<in> set deps" and "k \<in> set ready" by blast
  then have "length (filter (\<lambda>(k, _). k \<notin> set ready) deps) < length deps"
    by (intro length_filter_less [of "(k, {})"]) auto
  then show "(map (\<lambda>(k, vs). (k, vs - set ready)) (filter (\<lambda>(k, _). k \<notin> set ready) deps), deps) \<in> measure length"
    by simp
qed simp

declare layers.simps [simp del]

definition topological_order_of :: "repair_artifact list \<Rightarrow> string list res" where
  "topological_order_of as =
     layers (map (\<lambda>a. (ra_artifact_id a, set (ra_depends_on a) \<inter> ra_artifact_id ` set as)) as)"

definition dependency_cut_of :: "repair_artifact list \<Rightarrow> string list \<Rightarrow> dependency_cut res" where
  "dependency_cut_of as roots =
     (let ids = map ra_artifact_id as; missing = filter (\<lambda>r. r \<notin> set ids) roots in
      require (distinct ids) (ValueError ''repair artifacts MUST have unique IDs'') (
      require (missing = []) (KeyError ''unknown repair roots'')
      (let affected = affected_loop as (remdups roots) in
       case topological_order_of (filter (\<lambda>a. ra_artifact_id a \<in> set affected) as) of
         Inl e \<Rightarrow> Inl e
       | Inr order \<Rightarrow>
           Inr \<lparr>dc_root_ids = sort roots, dc_affected_ids = order,
                dc_unaffected_ids = sort (filter (\<lambda>i. i \<notin> set affected) ids), dc_topological_order = order\<rparr>)))"

definition propagate_stale :: "repair_artifact list \<Rightarrow> dependency_cut \<Rightarrow> repair_artifact list res" where
  "propagate_stale as dcut =
     map_res (\<lambda>a. if ra_artifact_id a \<in> set (dc_affected_ids dcut)
        then RepairArtifact_post_init
          (a\<lparr>ra_validity := (if ra_artifact_id a \<in> set (dc_root_ids dcut) then AV_INVALID else AV_STALE)\<rparr>)
        else Inr a) as"

section \<open>Repair\<close>

definition cognitive_artifacts :: "cognitive_state \<Rightarrow> repair_artifact list res" where
  "cognitive_artifacts s =
     map_res RepairArtifact_post_init
       (map (\<lambda>i. \<lparr>ra_artifact_id = ei_item_id i, ra_kind = AK_CLAIM, ra_depends_on = ei_depends_on i, ra_validity = AV_CURRENT,
                  ra_payload = Some (Inl i)\<rparr>) (cgs_epistemic_items s)
        @ map (\<lambda>(v, deps). \<lparr>ra_artifact_id = v, ra_kind = AK_OUTPUT, ra_depends_on = deps, ra_validity = AV_CURRENT,
                  ra_payload = Some (Inr v)\<rparr>) (cgs_materialized_views s))"

definition repair_candidate_of ::
  "string \<Rightarrow> repair_action \<Rightarrow> dependency_cut \<Rightarrow> string \<Rightarrow> real \<Rightarrow> bool \<Rightarrow> bool \<Rightarrow> repair_candidate" where
  "repair_candidate_of i action dcut why cost preserves needs =
     \<lparr>rcd_candidate_id = i, rcd_action = action, rcd_target_ids = dc_affected_ids dcut, rcd_rationale = why,
      rcd_estimated_cost = cost, rcd_preserves_unaffected = preserves, rcd_requires_input = needs\<rparr>"

definition generate_repair_candidates :: "dependency_cut \<Rightarrow> bool \<Rightarrow> bool \<Rightarrow> repair_candidate list" where
  "generate_repair_candidates dcut input_available snapshot_available =
     (let n = real (length (dc_affected_ids dcut)) in
      [repair_candidate_of ''local'' RA_LOCAL_REPAIR dcut ''recompute dependency cut'' n True False,
       repair_candidate_of ''recompute'' RA_RECOMPUTE dcut ''recompute affected closure'' (n * (12/10)) True False,
       repair_candidate_of ''abstain'' RA_ABSTAIN dcut ''avoid unsupported output'' 0 True False]
      @ (if snapshot_available then [repair_candidate_of ''rollback'' RA_ROLLBACK dcut ''restore checkpoint'' (5/10) False False] else [])
      @ (if \<not> input_available then [repair_candidate_of ''ask'' RA_ASK dcut ''request missing repair evidence'' (1/10) True True] else []))"

text \<open>\<open>type(exc).__name__\<close>\<close>

fun exc_name :: "exc \<Rightarrow> string" where
  "exc_name (ValueError _) = ''ValueError''"
| "exc_name (KeyError _) = ''KeyError''"
| "exc_name (TypeError _) = ''TypeError''"
| "exc_name (TimeoutError _) = ''TimeoutError''"
| "exc_name (RuntimeError _) = ''RuntimeError''"
| "exc_name (InvalidCheckpoint _) = ''InvalidCheckpoint''"
| "exc_name (StateComponentViolation _) = ''StateComponentViolation''"
| "exc_name (InvariantViolation _) = ''InvariantViolation''"
| "exc_name (DAGCycle _) = ''DAGCycle''"
| "exc_name (CausalChainBroken _) = ''CausalChainBroken''"
| "exc_name (ProvenanceTamperingViolation _) = ''ProvenanceTamperingViolation''"
| "exc_name (DNCValidationError _) = ''DNCValidationError''"
| "exc_name (DNCPolicyError _) = ''DNCPolicyError''"
| "exc_name (PermissionError _) = ''PermissionError''"
| "exc_name (OverflowError _) = ''OverflowError''"
| "exc_name (AttributeError _) = ''AttributeError''"
| "exc_name (AssertionError _) = ''AssertionError''"
| "exc_name (DNCCapabilityError _) = ''DNCCapabilityError''"
| "exc_name (DNCCalibrationError _) = ''DNCCalibrationError''"
| "exc_name (DNCExecutionError _) = ''DNCExecutionError''"
| "exc_name (DNCVerificationError _) = ''DNCVerificationError''"
| "exc_name (LookupError _) = ''LookupError''"
| "exc_name (IndexError _) = ''IndexError''"
| "exc_name (DriftBoundExceeded _) = ''DriftBoundExceeded''"
| "exc_name (CatastrophicForgettingDetected _) = ''CatastrophicForgettingDetected''"
| "exc_name (LearningWithoutEvents _) = ''LearningWithoutEvents''"

text \<open>The recomputation of one item: identity and tenant are kept, the result is current and verified.\<close>

definition recompute_item ::
  "(epistemic_item \<Rightarrow> epistemic_item res) \<Rightarrow> (epistemic_item \<Rightarrow> bool res) \<Rightarrow> string \<Rightarrow> string \<Rightarrow> epistemic_item \<Rightarrow> epistemic_item res" where
  "recompute_item recompute verify tenant item_id item =
     (case recompute item of
        Inl e \<Rightarrow> Inl e
      | Inr r \<Rightarrow>
          require (\<not> (ei_item_id r \<noteq> item_id \<or> ei_tenant_id r \<noteq> tenant)) (ValueError ''recomputed item identity or tenant changed'')
          (case EpistemicItem_post_init (r\<lparr>ei_invalidation_status := IV_CURRENT\<rparr>) of
             Inl e \<Rightarrow> Inl e
           | Inr r' \<Rightarrow>
               (case verify r' of
                  Inl e \<Rightarrow> Inl e
                | Inr ok \<Rightarrow> require ok (ValueError (''reverification failed: '' @ item_id)) (Inr r'))))"

fun recompute_loop ::
  "(epistemic_item \<Rightarrow> epistemic_item res) \<Rightarrow> (epistemic_item \<Rightarrow> bool res) \<Rightarrow> string \<Rightarrow> (string, epistemic_item) dict
   \<Rightarrow> string list \<Rightarrow> (string, epistemic_item) dict \<Rightarrow> (string, epistemic_item) dict res" where
  "recompute_loop recompute verify tenant by_id [] repaired = Inr repaired"
| "recompute_loop recompute verify tenant by_id (i # is) repaired =
     (case map_of by_id i of
        None \<Rightarrow> Inl (KeyError i)
      | Some item \<Rightarrow>
          (case recompute_item recompute verify tenant i item of
             Inl e \<Rightarrow> Inl e
           | Inr r \<Rightarrow> recompute_loop recompute verify tenant by_id is (dict_set i r repaired)))"

text \<open>The body of the \<open>try\<close> block: the repaired state and the affected views.\<close>

definition repaired_state ::
  "(epistemic_item \<Rightarrow> epistemic_item res) \<Rightarrow> (epistemic_item \<Rightarrow> bool res) \<Rightarrow> string \<Rightarrow> dependency_cut \<Rightarrow> cognitive_state
   \<Rightarrow> (cognitive_state \<times> string list) res" where
  "repaired_state recompute verify origin dcut s =
     (let by_id = fold (\<lambda>i d. dict_set (ei_item_id i) i d) (cgs_epistemic_items s) [];
          claims = filter (\<lambda>i. i \<in> set (item_ids s)) (dc_topological_order dcut)
      in case recompute_loop recompute verify (cgs_tenant s) by_id claims [] of
           Inl e \<Rightarrow> Inl e
         | Inr repaired \<Rightarrow>
             (let items = map (\<lambda>i. case map_of repaired (ei_item_id i) of None \<Rightarrow> i | Some r \<Rightarrow> r) (cgs_epistemic_items s);
                  current = map ei_item_id (filter (\<lambda>i. ei_invalidation_status i = IV_CURRENT) items);
                  views = filter (\<lambda>v. v \<in> set (dict_keys (cgs_materialized_views s))) (dc_topological_order dcut);
                  incomplete = filter (\<lambda>v. \<not> set (the (map_of (cgs_materialized_views s) v)) \<subseteq> set current) views
              in case incomplete of
                   v # _ \<Rightarrow> Inl (ValueError (''repair closure incomplete: '' @ v))
                 | [] \<Rightarrow>
                     (case map_res (\<lambda>i. EpistemicItem_post_init ((the (map_of by_id i))\<lparr>ei_invalidation_status := IV_INVALID\<rparr>)) claims of
                        Inl e \<Rightarrow> Inl e
                      | Inr revisions \<Rightarrow>
                          (case CognitiveState_post_init
                             (s\<lparr>cgs_epistemic_items := items, cgs_epistemic_history := cgs_epistemic_history s @ revisions,
                                cgs_invalidated_views := filter (\<lambda>v. v \<notin> set (dc_affected_ids dcut)) (cgs_invalidated_views s),
                                cgs_event_log := cgs_event_log s @ [[(''event'', PStr ''localized_repair''), (''root'', PStr origin),
                                  (''affected'', PList (map PStr (dc_affected_ids dcut)))]]\<rparr>) of
                             Inl e \<Rightarrow> Inl e
                           | Inr t \<Rightarrow> Inr (t, views)))))"

text \<open>
  What \<open>execute_localized_repair\<close> returns and assigns once the snapshot is captured: after an
  exception in the \<open>try\<close> block nothing has been assigned (\<open>None\<close>), and the code restores the snapshot.
\<close>

definition execute_localized_repair ::
  "(epistemic_item \<Rightarrow> epistemic_item res) \<Rightarrow> (epistemic_item \<Rightarrow> bool res) \<Rightarrow> nat \<Rightarrow> string \<Rightarrow> cognitive_state option
   \<Rightarrow> (repair_outcome \<times> cognitive_state option) res" where
  "execute_localized_repair recompute verify cycle origin st =
     (case st of
        None \<Rightarrow> Inl (ValueError ''localized repair requires cognitive state'')
      | Some s \<Rightarrow>
          (case cognitive_artifacts s of
             Inl e \<Rightarrow> Inl e
           | Inr as \<Rightarrow>
               (case dependency_cut_of as [origin] of
                  Inl e \<Rightarrow> Inl e
                | Inr dcut \<Rightarrow>
                    (let snapshot_id = ''repair:'' @ origin @ '':'' @ show_nat cycle;
                         claims = filter (\<lambda>i. i \<in> set (item_ids s)) (dc_topological_order dcut)
                     in case repaired_state recompute verify origin dcut s of
                          Inl e \<Rightarrow>
                            Inr (\<lparr>ro_success = False, ro_action = RA_ROLLBACK, ro_affected_ids = dc_affected_ids dcut,
                                  ro_reverified_ids = [], ro_preserved_ids = dc_unaffected_ids dcut, ro_snapshot_id = snapshot_id,
                                  ro_reason_codes = [exc_name e, exc_message e], ro_avoided_recomputation = 0\<rparr>, None)
                        | Inr (t, views) \<Rightarrow>
                            Inr (\<lparr>ro_success = True, ro_action = RA_LOCAL_REPAIR, ro_affected_ids = dc_affected_ids dcut,
                                  ro_reverified_ids = claims @ views, ro_preserved_ids = dc_unaffected_ids dcut,
                                  ro_snapshot_id = snapshot_id, ro_reason_codes = [''REPAIR_CLOSURE_VERIFIED''],
                                  ro_avoided_recomputation = length (dc_unaffected_ids dcut)\<rparr>, Some t)))))"

definition recovery_action :: "runtime_failure \<Rightarrow> repair_action" where
  "recovery_action f =
     (if rf_input_required f then RA_ASK
      else if rf_state_corrupted f then RA_ROLLBACK
      else if rf_retryable f \<and> rf_source f \<in> {FS_WORKER, FS_PROVIDER, FS_TOOL} then RA_RECOMPUTE
      else RA_ABSTAIN)"

section \<open>What the cut contains\<close>

definition artifact_edge :: "repair_artifact list \<Rightarrow> (string \<times> string) set" where
  "artifact_edge as = {(d, x). \<exists>a\<in>set as. x = ra_artifact_id a \<and> d \<in> set (ra_depends_on a)}"

lemma affected_loop_exact: "set (affected_loop as iv) = (artifact_edge as)\<^sup>* `` set iv"
proof (induction as iv rule: affected_loop.induct)
  case (1 as iv)
  let ?E = "artifact_edge as"
  obtain iv' b where e: "fold (visit artifact_depends ra_artifact_id) as (iv, False) = (iv', b)" by fastforce
  have g: "set iv \<subseteq> set iv'" using visit_fold_grows [OF e] by (simp only: simp_thms)
  have w: "set iv' \<subseteq> ?E\<^sup>* `` set iv"
    using visit_fold_within [of as artifact_depends ra_artifact_id ?E "(iv, False)" "set iv"] e
    by (auto simp: artifact_depends_def artifact_edge_def list_ex_iff)
  show ?case
  proof (cases b)
    case True
    have "set (affected_loop as iv) = ?E\<^sup>* `` set iv'"
      using 1 [OF e [symmetric] True] True e by (simp add: affected_loop.simps)
    also have "\<dots> = ?E\<^sup>* `` set iv" using g w by (rule rtrancl_Image_eq)
    finally show ?thesis .
  next
    case False
    have "iv' = iv" and c: "\<And>d x. (d, x) \<in> ?E \<Longrightarrow> d \<in> set iv \<Longrightarrow> x \<in> set iv"
      using visit_fold_grows [OF e] False by (auto simp: artifact_edge_def artifact_depends_def list_ex_iff)
    have "x \<in> set iv" if "(d, x) \<in> ?E\<^sup>*" "d \<in> set iv" for d x
      using that by (induction rule: rtrancl_induct) (auto intro: c)
    with \<open>iv' = iv\<close> e False show ?thesis by (auto simp: affected_loop.simps)
  qed
qed

text \<open>An element stands after another one in a list.\<close>

definition after :: "'a list \<Rightarrow> 'a \<Rightarrow> 'a \<Rightarrow> bool" where
  "after xs v k \<longleftrightarrow> (\<exists>ys zs. xs = ys @ k # zs \<and> v \<in> set ys)"

lemma after_append: "after ys v k \<Longrightarrow> after (xs @ ys) v k"
  unfolding after_def by (metis Un_iff append.assoc set_append)

lemma after_split: "v \<in> set xs \<Longrightarrow> k \<in> set ys \<Longrightarrow> after (xs @ ys) v k"
  unfolding after_def by (metis Un_iff append.assoc set_append split_list)

definition pending_ok :: "(string \<times> string set) list \<Rightarrow> bool" where
  "pending_ok deps \<longleftrightarrow> distinct (map fst deps) \<and> (\<forall>(k, vs)\<in>set deps. vs \<subseteq> fst ` set deps)"

lemma rest_keys: "fst ` set (map (\<lambda>(k, vs). (k, vs - R)) (filter (\<lambda>(k, _). k \<notin> R) deps)) = fst ` set deps - R"
  by force

lemma pending_ok_rest:
  assumes "pending_ok deps"
  shows "pending_ok (map (\<lambda>(k, vs). (k, vs - R)) (filter (\<lambda>(k, _). k \<notin> R) deps))"
proof -
  let ?rest = "map (\<lambda>(k, vs). (k, vs - R)) (filter (\<lambda>(k, _). k \<notin> R) deps)"
  have "map fst ?rest = filter (\<lambda>k. k \<notin> R) (map fst deps)" by (simp add: filter_map o_def case_prod_unfold)
  then have "distinct (map fst ?rest)" using assms by (simp add: pending_ok_def del: filter_map)
  moreover have "vs \<subseteq> fst ` set deps - R" if "(k, vs) \<in> set ?rest" for k vs
  proof -
    obtain ws where "(k, ws) \<in> set deps" "vs = ws - R" using \<open>(k, vs) \<in> set ?rest\<close> by auto
    with assms show ?thesis by (auto simp: pending_ok_def)
  qed
  ultimately show ?thesis unfolding pending_ok_def rest_keys by blast
qed

lemma layers_sound:
  "layers deps = Inr order \<Longrightarrow> pending_ok deps \<Longrightarrow>
   distinct order \<and> set order = fst ` set deps \<and> (\<forall>(k, vs)\<in>set deps. \<forall>v\<in>vs. after order v k)"
proof (induction deps arbitrary: order rule: layers.induct)
  case (1 deps)
  show ?case
  proof (cases "deps = []")
    case False
    let ?ready = "sort (map fst (filter (\<lambda>(_, vs). vs = {}) deps))"
    let ?rest = "map (\<lambda>(k, vs). (k, vs - set ?ready)) (filter (\<lambda>(k, _). k \<notin> set ?ready) deps)"
    have ne: "?ready \<noteq> []" and "layers ?rest \<noteq> Inl e" for e
      using "1.prems"(1) False by (subst (asm) layers.simps, auto simp: Let_def split: if_splits sum.splits)+
    then obtain os where os: "layers ?rest = Inr os" by (metis sum.exhaust)
    have o': "order = ?ready @ os"
      using "1.prems"(1) False ne os by (subst (asm) layers.simps) (simp add: Let_def)
    have d: "distinct (map fst deps)" and sub: "\<And>k vs. (k, vs) \<in> set deps \<Longrightarrow> vs \<subseteq> fst ` set deps"
      using "1.prems"(2) by (auto simp: pending_ok_def)
    have keys: "fst ` set ?rest = fst ` set deps - set ?ready" by (rule rest_keys)
    have "pending_ok ?rest" using "1.prems"(2) by (rule pending_ok_rest)
    from "1.IH" [OF False refl ne os this]
    have ih: "distinct os" "set os = fst ` set deps - set ?ready" "\<And>k vs v. (k, vs) \<in> set ?rest \<Longrightarrow> v \<in> vs \<Longrightarrow> after os v k"
      unfolding keys by blast+
    have "distinct ?ready" using d by (simp add: distinct_map_filter)
    moreover have "set ?ready \<subseteq> fst ` set deps" by force
    moreover have "after order v k" if kv: "(k, vs) \<in> set deps" "v \<in> vs" for k vs v
    proof -
      have k: "k \<notin> set ?ready"
        using kv(2) by (auto dest: eq_key_imp_eq_value [OF d kv(1)])
      have "k \<in> set os" unfolding ih(2) using k kv(1) by force
      show ?thesis
      proof (cases "v \<in> set ?ready")
        case True
        then show ?thesis unfolding o' using \<open>k \<in> set os\<close> by (rule after_split)
      next
        case False
        have "(k, vs - set ?ready) \<in> set ?rest" using k kv(1) by force
        with ih(3) kv(2) False have "after os v k" by blast
        then show ?thesis unfolding o' by (rule after_append)
      qed
    qed
    ultimately show ?thesis using ih(1,2) unfolding o' by auto
  next
    case True
    then show ?thesis using "1.prems"(1) by (simp add: layers.simps)
  qed
qed

definition pending_edge :: "(string \<times> string set) list \<Rightarrow> (string \<times> string) set" where
  "pending_edge deps = {(v, k). \<exists>vs. (k, vs) \<in> set deps \<and> v \<in> vs}"

lemma layers_complete: "acyclic (pending_edge deps) \<Longrightarrow> pending_ok deps \<Longrightarrow> \<exists>order. layers deps = Inr order"
proof (induction deps rule: layers.induct)
  case (1 deps)
  show ?case
  proof (cases "deps = []")
    case False
    let ?ready = "sort (map fst (filter (\<lambda>(_, vs). vs = {}) deps))"
    let ?rest = "map (\<lambda>(k, vs). (k, vs - set ?ready)) (filter (\<lambda>(k, _). k \<notin> set ?ready) deps)"
    have sub: "\<And>k vs. (k, vs) \<in> set deps \<Longrightarrow> vs \<subseteq> fst ` set deps"
      using "1.prems"(2) by (auto simp: pending_ok_def)
    have "pending_edge deps \<subseteq> (fst ` set deps) \<times> (fst ` set deps)" using sub by (force simp: pending_edge_def)
    then have "finite (pending_edge deps)" by (rule finite_subset) simp
    then have "wf (pending_edge deps)" using "1.prems"(1) by (rule finite_acyclic_wf)
    then obtain k where k: "k \<in> fst ` set deps" "\<And>v. (v, k) \<in> pending_edge deps \<Longrightarrow> v \<notin> fst ` set deps"
      using False by (metis wfE_min' image_is_empty set_empty)
    then obtain vs where vs: "(k, vs) \<in> set deps" by force
    have "(v, k) \<in> pending_edge deps" if "v \<in> vs" for v using vs that by (auto simp: pending_edge_def)
    with k(2) sub [OF vs] have "vs = {}" by blast
    with vs have "k \<in> set ?ready" by force
    then have ne: "?ready \<noteq> []" by (metis empty_iff empty_set)
    have "pending_edge ?rest \<subseteq> pending_edge deps" by (auto simp: pending_edge_def)
    then have ac: "acyclic (pending_edge ?rest)" using "1.prems"(1) acyclic_subset by blast
    have "pending_ok ?rest" using "1.prems"(2) by (rule pending_ok_rest)
    from "1.IH" [OF False refl ne ac this] show ?thesis
      using False ne by (subst layers.simps) (auto simp: Let_def)
  qed (simp add: layers.simps)
qed

lemma pending_ok_artifacts:
  assumes "distinct (map ra_artifact_id as)"
  shows "pending_ok (map (\<lambda>a. (ra_artifact_id a, set (ra_depends_on a) \<inter> ra_artifact_id ` set as)) as)"
  using assms by (auto simp: pending_ok_def o_def image_image)

text \<open>
  The dependency cut is exact: on artifacts with distinct identifiers, what is affected by the roots
  is what depends on one of them through any chain; the order lists each affected artifact once,
  after all affected artifacts that it depends on; the others are unaffected. A cut is returned
  whenever the dependencies are acyclic.
\<close>

lemma topological_order_exact:
  assumes "distinct (map ra_artifact_id as)" and "topological_order_of as = Inr order"
  shows "distinct order \<and> set order = ra_artifact_id ` set as
    \<and> (\<forall>a\<in>set as. \<forall>d\<in>set (ra_depends_on a) \<inter> ra_artifact_id ` set as. after order d (ra_artifact_id a))"
proof -
  let ?deps = "map (\<lambda>a. (ra_artifact_id a, set (ra_depends_on a) \<inter> ra_artifact_id ` set as)) as"
  have keys: "fst ` set ?deps = ra_artifact_id ` set as" by force
  from layers_sound [OF assms(2) [unfolded topological_order_of_def] pending_ok_artifacts [OF assms(1)]] show ?thesis unfolding keys by auto
qed

lemma dependency_cut_result:
  assumes "dependency_cut_of as roots = Inr c"
  shows "distinct (dc_affected_ids c) \<and> set (dc_affected_ids c) = (artifact_edge as)\<^sup>* `` set roots
    \<and> dc_topological_order c = dc_affected_ids c
    \<and> set (dc_unaffected_ids c) = ra_artifact_id ` set as - (artifact_edge as)\<^sup>* `` set roots
    \<and> (\<forall>a\<in>set as. ra_artifact_id a \<in> set (dc_affected_ids c) \<longrightarrow>
         (\<forall>d\<in>set (ra_depends_on a) \<inter> set (dc_affected_ids c). after (dc_topological_order c) d (ra_artifact_id a)))"
proof -
  let ?iv = "affected_loop as (remdups roots)"
  let ?as = "filter (\<lambda>a. ra_artifact_id a \<in> set ?iv) as"
  have iv: "set ?iv = (artifact_edge as)\<^sup>* `` set roots" by (simp add: affected_loop_exact)
  have d: "distinct (map ra_artifact_id as)" and r: "set roots \<subseteq> ra_artifact_id ` set as"
    using assms by (auto simp: dependency_cut_of_def Let_def filter_empty_conv split: sum.splits)
  obtain order where o': "topological_order_of ?as = Inr order"
    and c: "dc_affected_ids c = order" "dc_topological_order c = order" "dc_unaffected_ids c = sort (filter (\<lambda>i. i \<notin> set ?iv) (map ra_artifact_id as))"
    using assms by (auto simp: dependency_cut_of_def Let_def split: sum.splits)
  have "distinct (map ra_artifact_id ?as)" using d by (simp add: distinct_map_filter)
  note t = topological_order_exact [OF this o']
  have "(artifact_edge as)\<^sup>* `` set roots \<subseteq> ra_artifact_id ` set as"
  proof
    fix x assume "x \<in> (artifact_edge as)\<^sup>* `` set roots"
    then obtain y where "(y, x) \<in> (artifact_edge as)\<^sup>*" "y \<in> set roots" by blast
    then show "x \<in> ra_artifact_id ` set as" using r by (induction rule: rtrancl_induct) (auto simp: artifact_edge_def)
  qed
  then have s: "ra_artifact_id ` set ?as = set ?iv" unfolding iv by force
  show ?thesis using t unfolding s c by (auto simp: iv)
qed

lemma dependency_cut_returns:
  assumes "distinct (map ra_artifact_id as)" and "set roots \<subseteq> ra_artifact_id ` set as" and "acyclic (artifact_edge as)"
  shows "\<exists>c. dependency_cut_of as roots = Inr c"
proof -
  let ?as = "filter (\<lambda>a. ra_artifact_id a \<in> set (affected_loop as (remdups roots))) as"
  let ?deps = "map (\<lambda>a. (ra_artifact_id a, set (ra_depends_on a) \<inter> ra_artifact_id ` set ?as)) ?as"
  have "pending_edge ?deps \<subseteq> artifact_edge as" by (auto simp: pending_edge_def artifact_edge_def)
  then have "acyclic (pending_edge ?deps)" using assms(3) acyclic_subset by blast
  moreover have "distinct (map ra_artifact_id ?as)" using assms(1) by (simp add: distinct_map_filter)
  ultimately obtain order where "topological_order_of ?as = Inr order"
    unfolding topological_order_of_def using layers_complete pending_ok_artifacts by blast
  moreover have "filter (\<lambda>r. r \<notin> set (map ra_artifact_id as)) roots = []" using assms(2) by (auto simp: filter_empty_conv)
  ultimately show ?thesis using assms(1) by (simp add: dependency_cut_of_def Let_def)
qed

section \<open>What a repair does\<close>

lemma recompute_item_result:
  assumes "recompute_item recompute verify tenant i item = Inr r"
  shows "ei_item_id r = i \<and> ei_tenant_id r = tenant \<and> ei_invalidation_status r = IV_CURRENT \<and> verify r = Inr True
    \<and> (\<exists>r0. recompute item = Inr r0 \<and> r = r0\<lparr>ei_invalidation_status := IV_CURRENT\<rparr>)"
  using assms by (auto simp: recompute_item_def EpistemicItem_post_init_def split: sum.splits)

lemma recompute_loop_result:
  "recompute_loop recompute verify tenant by_id is rep = Inr rep' \<Longrightarrow>
   (\<forall>i\<in>set is. \<exists>item r. map_of by_id i = Some item \<and> recompute_item recompute verify tenant i item = Inr r \<and> map_of rep' i = Some r)
   \<and> (\<forall>i. i \<notin> set is \<longrightarrow> map_of rep' i = map_of rep i)"
proof (induction recompute verify tenant by_id "is" rep rule: recompute_loop.induct)
  case (2 recompute verify tenant by_id i "is" rep)
  obtain item r where r: "map_of by_id i = Some item" "recompute_item recompute verify tenant i item = Inr r"
      "recompute_loop recompute verify tenant by_id is (dict_set i r rep) = Inr rep'"
    using "2.prems" by (auto split: option.splits sum.splits)
  note ih = "2.IH" [OF r(1,2,3)]
  show ?case using r ih by (cases "i \<in> set is") auto
qed simp

definition items_by_id :: "cognitive_state \<Rightarrow> (string, epistemic_item) dict" where
  "items_by_id s = fold (\<lambda>i d. dict_set (ei_item_id i) i d) (cgs_epistemic_items s) []"

lemma items_by_id_lookup:
  assumes "distinct (item_ids s)" and "i \<in> set (cgs_epistemic_items s)"
  shows "map_of (items_by_id s) (ei_item_id i) = Some i"
proof -
  have "distinct (map ei_item_id is) \<Longrightarrow> i \<in> set is \<Longrightarrow>
      map_of (fold (\<lambda>i d. dict_set (ei_item_id i) i d) is d) (ei_item_id i) = Some i" for "is" d
  proof (induction "is" arbitrary: d)
    case (Cons j "is")
    have "map_of (fold (\<lambda>i d. dict_set (ei_item_id i) i d) is d) k = map_of d k" if "k \<notin> ei_item_id ` set is" for k d
      using that by (induction "is" arbitrary: d) auto
    with Cons show ?case by (cases "i = j") auto
  qed simp
  with assms show ?thesis by (simp add: items_by_id_def)
qed

text \<open>An item and what a repair makes of it.\<close>

definition repaired_from ::
  "(epistemic_item \<Rightarrow> epistemic_item res) \<Rightarrow> (epistemic_item \<Rightarrow> bool res) \<Rightarrow> epistemic_item \<Rightarrow> epistemic_item \<Rightarrow> bool" where
  "repaired_from recompute verify i r \<longleftrightarrow> ei_item_id r = ei_item_id i \<and> verify r = Inr True
     \<and> (\<exists>r0. recompute i = Inr r0 \<and> r = r0\<lparr>ei_invalidation_status := IV_CURRENT\<rparr>)"

definition current_ids :: "cognitive_state \<Rightarrow> string set" where
  "current_ids s = {ei_item_id i | i. i \<in> set (cgs_epistemic_items s) \<and> ei_invalidation_status i = IV_CURRENT}"

lemma map_res_image:
  assumes "map_res f xs = Inr ys" and "\<And>x y. f x = Inr y \<Longrightarrow> y = g x"
  shows "set ys = g ` set xs"
  using assms(1) by (induction xs arbitrary: ys) (auto split: sum.splits dest: assms(2))

lemma repaired_state_result:
  assumes "repaired_state recompute verify origin c s = Inr (t, views)" and "distinct (item_ids s)"
  shows "list_all2 (\<lambda>i r. if ei_item_id i \<in> set (dc_topological_order c) then repaired_from recompute verify i r else r = i)
      (cgs_epistemic_items s) (cgs_epistemic_items t)
    \<and> cgs_invalidated_views t = filter (\<lambda>v. v \<notin> set (dc_affected_ids c)) (cgs_invalidated_views s)
    \<and> (\<forall>v\<in>set (dc_topological_order c). \<forall>deps. map_of (cgs_materialized_views s) v = Some deps \<longrightarrow> set deps \<subseteq> current_ids t)
    \<and> (\<exists>revisions. cgs_epistemic_history t = cgs_epistemic_history s @ revisions
        \<and> set revisions = {i\<lparr>ei_invalidation_status := IV_INVALID\<rparr> | i.
            i \<in> set (cgs_epistemic_items s) \<and> ei_item_id i \<in> set (dc_topological_order c)})"
proof -
  let ?claims = "filter (\<lambda>i. i \<in> set (item_ids s)) (dc_topological_order c)"
  obtain rep where rep: "recompute_loop recompute verify (cgs_tenant s) (items_by_id s) ?claims [] = Inr rep"
    using assms(1) by (auto simp: repaired_state_def items_by_id_def Let_def split: sum.splits)
  let ?items = "map (\<lambda>i. case map_of rep (ei_item_id i) of None \<Rightarrow> i | Some r \<Rightarrow> r) (cgs_epistemic_items s)"
  let ?current = "map ei_item_id (filter (\<lambda>i. ei_invalidation_status i = IV_CURRENT) ?items)"
  let ?views = "filter (\<lambda>v. v \<in> set (dict_keys (cgs_materialized_views s))) (dc_topological_order c)"
  let ?bad = "filter (\<lambda>v. \<not> set (the (map_of (cgs_materialized_views s) v)) \<subseteq> set ?current) ?views"
  have bad: "?bad = []"
    using assms(1) rep by (auto simp: repaired_state_def items_by_id_def [symmetric] Let_def split: list.splits)
  let ?rev = "\<lambda>i. (the (map_of (items_by_id s) i))\<lparr>ei_invalidation_status := IV_INVALID\<rparr>"
  obtain revs where revs: "map_res (\<lambda>i. EpistemicItem_post_init (?rev i)) ?claims = Inr revs" and t: "t = s\<lparr>cgs_epistemic_items := ?items, cgs_epistemic_history := cgs_epistemic_history s @ revs,
      cgs_invalidated_views := filter (\<lambda>v. v \<notin> set (dc_affected_ids c)) (cgs_invalidated_views s),
      cgs_event_log := cgs_event_log s @ [[(''event'', PStr ''localized_repair''), (''root'', PStr origin),
        (''affected'', PList (map PStr (dc_affected_ids c)))]]\<rparr>"
    using assms(1) rep bad
    by (auto simp: repaired_state_def items_by_id_def [symmetric] Let_def split: sum.splits dest!: post_init_Inr)
  have "set revs = ?rev ` set ?claims" using map_res_image [OF revs] by (simp add: EpistemicItem_post_init_def)
  also have "\<dots> = {i\<lparr>ei_invalidation_status := IV_INVALID\<rparr> | i.
      i \<in> set (cgs_epistemic_items s) \<and> ei_item_id i \<in> set (dc_topological_order c)}"
    using items_by_id_lookup [OF assms(2)] by force
  finally have h: "set revs = \<dots>" .
  note l = recompute_loop_result [OF rep]
  have "if ei_item_id i \<in> set (dc_topological_order c) then repaired_from recompute verify i r else r = i"
    if i: "i \<in> set (cgs_epistemic_items s)" and r: "r = (case map_of rep (ei_item_id i) of None \<Rightarrow> i | Some r \<Rightarrow> r)" for i r
    using l items_by_id_lookup [OF assms(2) i] i r recompute_item_result
    by (cases "ei_item_id i \<in> set (dc_topological_order c)") (fastforce simp: repaired_from_def)+
  then have "list_all2 (\<lambda>i r. if ei_item_id i \<in> set (dc_topological_order c) then repaired_from recompute verify i r else r = i)
      (cgs_epistemic_items s) ?items"
    by (auto simp: list_all2_conv_all_nth)
  moreover have "set deps \<subseteq> set ?current" if "v \<in> set (dc_topological_order c)" "map_of (cgs_materialized_views s) v = Some deps" for v deps
  proof -
    have "v \<in> set ?views" using that(1) map_of_Some_keys [OF that(2)] by simp
    with bad have "set (the (map_of (cgs_materialized_views s) v)) \<subseteq> set ?current" unfolding filter_empty_conv by blast
    then show ?thesis unfolding that(2) option.sel .
  qed
  moreover have "set ?current = current_ids t" by (auto simp: current_ids_def t)
  ultimately show ?thesis using h by (simp add: t)
qed

text \<open>Dependencies of the state: of items and of views on the items they list.\<close>

definition state_edge :: "cognitive_state \<Rightarrow> (string \<times> string) set" where
  "state_edge s = {(d, x). (\<exists>i\<in>set (cgs_epistemic_items s). x = ei_item_id i \<and> d \<in> set (ei_depends_on i))
     \<or> (\<exists>deps. (x, deps) \<in> set (cgs_materialized_views s) \<and> d \<in> set deps)}"

lemma map_res_checked:
  assumes "map_res f xs = Inr ys" and "\<And>x y. f x = Inr y \<Longrightarrow> y = x"
  shows "ys = xs"
  using assms(1)
proof (induction xs arbitrary: ys)
  case (Cons x xs)
  then show ?case using assms(2) by (auto split: sum.splits)
qed simp

lemma artifact_post_init_Inr: "RepairArtifact_post_init a = Inr b \<Longrightarrow> b = a"
  by (simp add: RepairArtifact_post_init_def)

lemma cognitive_artifacts_result:
  assumes "cognitive_artifacts s = Inr as"
  shows "artifact_edge as = state_edge s \<and> ra_artifact_id ` set as = set (item_ids s) \<union> fst ` set (cgs_materialized_views s)
    \<and> (distinct (map ra_artifact_id as) \<longrightarrow> distinct (item_ids s))"
proof -
  have "as = map (\<lambda>i. \<lparr>ra_artifact_id = ei_item_id i, ra_kind = AK_CLAIM, ra_depends_on = ei_depends_on i, ra_validity = AV_CURRENT,
                  ra_payload = Some (Inl i)\<rparr>) (cgs_epistemic_items s)
        @ map (\<lambda>(v, deps). \<lparr>ra_artifact_id = v, ra_kind = AK_OUTPUT, ra_depends_on = deps, ra_validity = AV_CURRENT,
                  ra_payload = Some (Inr v)\<rparr>) (cgs_materialized_views s)"
    using map_res_checked [OF assms [unfolded cognitive_artifacts_def]] artifact_post_init_Inr by blast
  then show ?thesis by (auto simp: artifact_edge_def state_edge_def o_def image_iff) force+
qed

text \<open>
  C36: A localised repair that succeeds recomputes the items that depend on the given one through
  the dependencies that items and materialised views list, directly or indirectly, and nothing
  else: each of them is current and has passed the verification, every other item is untouched,
  no affected view is left invalid, every affected view rests on current items, and the
  superseded items are appended to the history, marked invalid. The reported identifiers are
  those of the affected and of the remaining items and views. (Dependencies that are only
  stated as \<open>DEPENDS_ON\<close> relations are not followed.)
\<close>

theorem repair_recomputes_dependants:
  assumes "execute_localized_repair recompute verify cycle origin (Some s) = Inr (out, Some t)"
  defines "D \<equiv> {x. (origin, x) \<in> (state_edge s)\<^sup>*}"
  shows "ro_success out
    \<and> list_all2 (\<lambda>i r. if ei_item_id i \<in> D then repaired_from recompute verify i r else r = i)
        (cgs_epistemic_items s) (cgs_epistemic_items t)
    \<and> set (ro_affected_ids out) = D
    \<and> set (ro_preserved_ids out) = set (item_ids s) \<union> fst ` set (cgs_materialized_views s) - D
    \<and> set (cgs_invalidated_views t) = set (cgs_invalidated_views s) - D
    \<and> (\<forall>v\<in>D. \<forall>deps. map_of (cgs_materialized_views s) v = Some deps \<longrightarrow> set deps \<subseteq> current_ids t)
    \<and> (\<exists>revisions. cgs_epistemic_history t = cgs_epistemic_history s @ revisions
        \<and> set revisions = {i\<lparr>ei_invalidation_status := IV_INVALID\<rparr> | i. i \<in> set (cgs_epistemic_items s) \<and> ei_item_id i \<in> D})"
proof -
  obtain as c where as: "cognitive_artifacts s = Inr as" and c: "dependency_cut_of as [origin] = Inr c"
    using assms(1) by (auto simp: execute_localized_repair_def Let_def split: sum.splits)
  note a = cognitive_artifacts_result [OF as] and d = dependency_cut_result [OF c]
  have "distinct (map ra_artifact_id as)" using c by (auto simp: dependency_cut_of_def Let_def)
  then have di: "distinct (item_ids s)" using a by blast
  have D: "set (dc_affected_ids c) = D" "set (dc_topological_order c) = D"
    "set (dc_unaffected_ids c) = set (item_ids s) \<union> fst ` set (cgs_materialized_views s) - D"
    using a d by (auto simp: D_def)
  obtain views where r: "repaired_state recompute verify origin c s = Inr (t, views)"
    and o': "ro_success out" "ro_affected_ids out = dc_affected_ids c" "ro_preserved_ids out = dc_unaffected_ids c"
    using assms(1) as c by (auto simp: execute_localized_repair_def Let_def split: sum.splits)
  show ?thesis using repaired_state_result [OF r di] unfolding o' D by (simp add: o' D set_diff_eq)
qed

section \<open>Instances\<close>

definition demo_repair :: "(epistemic_item \<Rightarrow> bool res) \<Rightarrow> (repair_outcome \<times> cognitive_state option) res" where
  "demo_repair verify = execute_localized_repair Inr verify 0 ''b'' (Some demo_cognitive_state)"

lemma demo_repair_runs:
  "map_sum id (\<lambda>(out, t). (t \<noteq> None, ro_affected_ids out)) (demo_repair (\<lambda>_. Inr True)) = Inr (True, [''b'', ''c'', ''v''])"
  by code_simp

theorem repair_recomputes_dependants_witness:
  "\<exists>out t. demo_repair (\<lambda>_. Inr True) = Inr (out, Some t) \<and> ro_success out
     \<and> cgs_epistemic_items t ! 0 = demo_claim_item ''a'' [] \<and> ei_invalidation_status (cgs_epistemic_items t ! 1) = IV_CURRENT"
proof -
  obtain out t where r: "demo_repair (\<lambda>_. Inr True) = Inr (out, Some t)" and s: "ro_affected_ids out = [''b'', ''c'', ''v'']"
    using demo_repair_runs by (cases "demo_repair (\<lambda>_. Inr True)") auto
  note u = repair_recomputes_dependants [OF r [unfolded demo_repair_def]]
  let ?D = "{x. (''b'', x) \<in> (state_edge demo_cognitive_state)\<^sup>*}"
  have D: "?D = {''b'', ''c'', ''v''}" using u s by auto
  have "list_all2 (\<lambda>i r. if ei_item_id i \<in> ?D then repaired_from Inr (\<lambda>_. Inr True) i r else r = i)
      (cgs_epistemic_items demo_cognitive_state) (cgs_epistemic_items t)"
    using u by blast
  then show ?thesis unfolding D using r u
    by (auto simp: demo_cognitive_state_def demo_claim_item_def repaired_from_def list_all2_Cons1)
qed

text \<open>
  Invalidation follows the \<open>DEPENDS_ON\<close> relations, the cut of a repair does not: an item that
  depends on another one by a relation only is invalidated with it but not repaired with it.
\<close>

definition related_state :: cognitive_state where
  "related_state = demo_cognitive_state\<lparr>cgs_epistemic_items := [demo_claim_item ''a'' [], demo_claim_item ''b'' []],
     cgs_materialized_views := [], cgs_relations := [\<lparr>er_relation_id = ''r'', er_relation_type = REL_DEPENDS_ON,
       er_source_id = ''b'', er_target_id = ''a'', er_tenant_id = ''x'', er_evidence_ids = [], er_security_labels = [], er_schema_version = ''x''\<rparr>]\<rparr>"

definition statuses :: "cognitive_state res \<Rightarrow> invalidation_status list" where
  "statuses r = (case r of Inl _ \<Rightarrow> [] | Inr s \<Rightarrow> map ei_invalidation_status (cgs_epistemic_items s))"

theorem relation_dependants_not_repaired:
  "statuses (invalidate_from ''a'' ''r'' related_state) = [IV_INVALID, IV_INVALID]
   \<and> statuses (map_sum id (\<lambda>(out, t). the t) (execute_localized_repair Inr (\<lambda>_. Inr True) 0 ''a''
        (case invalidate_from ''a'' ''r'' related_state of Inl _ \<Rightarrow> None | Inr s \<Rightarrow> Some s))) = [IV_CURRENT, IV_INVALID]"
  by code_simp

end
