(* ===== verification/Capabilities.thy ===== *)
theory Capabilities
  imports Cognition
begin

text \<open>
  Capability cards, their registry and the broker that selects one (\<open>capabilities/contracts.py\<close>,
  \<open>registry.py\<close>, \<open>broker.py\<close>). Costs and competence are real numbers; they are only compared. A
  change listener is a value; registration returns the notifications it sends. The image of
  a registry is a record whose optional keys are options.
\<close>

declare map_of_eq_Some_iff [simp del] Some_eq_map_of_iff [simp del]

section \<open>Contracts\<close>

datatype capability_lifecycle = CLC_DRAFT | CLC_ACTIVE | CLC_DEGRADED | CLC_SUSPENDED | CLC_RETIRED

definition capability_lifecycles :: "capability_lifecycle list" where
  "capability_lifecycles = [CLC_DRAFT, CLC_ACTIVE, CLC_DEGRADED, CLC_SUSPENDED, CLC_RETIRED]"

fun capability_lifecycle_value :: "capability_lifecycle \<Rightarrow> string" where
  "capability_lifecycle_value CLC_DRAFT = ''DRAFT''"
| "capability_lifecycle_value CLC_ACTIVE = ''ACTIVE''"
| "capability_lifecycle_value CLC_DEGRADED = ''DEGRADED''"
| "capability_lifecycle_value CLC_SUSPENDED = ''SUSPENDED''"
| "capability_lifecycle_value CLC_RETIRED = ''RETIRED''"

interpretation capability_lifecycle: value_enum capability_lifecycles capability_lifecycle_value
  by unfold_locales (auto simp: capability_lifecycles_def, metis capability_lifecycle.exhaust)

datatype health_status = HL_UNKNOWN | HL_HEALTHY | HL_DEGRADED | HL_UNHEALTHY

definition health_statuses :: "health_status list" where
  "health_statuses = [HL_UNKNOWN, HL_HEALTHY, HL_DEGRADED, HL_UNHEALTHY]"

fun health_status_value :: "health_status \<Rightarrow> string" where
  "health_status_value HL_UNKNOWN = ''UNKNOWN''"
| "health_status_value HL_HEALTHY = ''HEALTHY''"
| "health_status_value HL_DEGRADED = ''DEGRADED''"
| "health_status_value HL_UNHEALTHY = ''UNHEALTHY''"

interpretation health_status: value_enum health_statuses health_status_value
  by unfold_locales (auto simp: health_statuses_def, metis health_status.exhaust)

datatype capability_feature =
  CF_STREAMING | CF_STRUCTURED_OUTPUT | CF_TOOL_CALLING | CF_CANCELLATION | CF_USAGE | CF_DETERMINISTIC
  | CF_HUMAN_APPROVAL | CF_LOCAL

definition capability_features :: "capability_feature list" where
  "capability_features = [CF_STREAMING, CF_STRUCTURED_OUTPUT, CF_TOOL_CALLING, CF_CANCELLATION, CF_USAGE,
     CF_DETERMINISTIC, CF_HUMAN_APPROVAL, CF_LOCAL]"

fun capability_feature_value :: "capability_feature \<Rightarrow> string" where
  "capability_feature_value CF_STREAMING = ''STREAMING''"
| "capability_feature_value CF_STRUCTURED_OUTPUT = ''STRUCTURED_OUTPUT''"
| "capability_feature_value CF_TOOL_CALLING = ''TOOL_CALLING''"
| "capability_feature_value CF_CANCELLATION = ''CANCELLATION''"
| "capability_feature_value CF_USAGE = ''USAGE''"
| "capability_feature_value CF_DETERMINISTIC = ''DETERMINISTIC''"
| "capability_feature_value CF_HUMAN_APPROVAL = ''HUMAN_APPROVAL''"
| "capability_feature_value CF_LOCAL = ''LOCAL''"

interpretation capability_feature: value_enum capability_features capability_feature_value
  by unfold_locales (auto simp: capability_features_def, metis capability_feature.exhaust)

record capability_card =
  cc_capability_id :: string
  cc_name :: string
  cc_provider_id :: string
  cc_provider_version :: string
  cc_model_id :: string
  cc_supported_actions :: "cognitive_action_type set"
  cc_risk_limit :: risk_class
  cc_features :: "capability_feature set"
  cc_permissions :: "string set"
  cc_calibration_domains :: "string set"
  cc_locality :: string
  cc_competence :: real
  cc_cost_per_call :: real
  cc_latency_ms :: int
  cc_max_tokens :: "int option"
  cc_max_parallelism :: int
  cc_lifecycle :: capability_lifecycle
  cc_health :: health_status
  cc_expires_at_ns :: "int option"
  cc_fingerprint :: string
  cc_failure_modes :: "string list"
  cc_metadata :: "(string \<times> pyval) list"

definition CapabilityCard_post_init :: "capability_card \<Rightarrow> capability_card res" where
  "CapabilityCard_post_init c =
     require (cc_capability_id c \<noteq> []) (ValueError ''capability_id MUST be non-empty'') (
     require (cc_name c \<noteq> []) (ValueError ''name MUST be non-empty'') (
     require (cc_provider_id c \<noteq> []) (ValueError ''provider_id MUST be non-empty'') (
     require (cc_provider_version c \<noteq> []) (ValueError ''provider_version MUST be non-empty'') (
     require (cc_model_id c \<noteq> []) (ValueError ''model_id MUST be non-empty'') (
     require (cc_supported_actions c \<noteq> {}) (ValueError ''supported_actions MUST be non-empty'') (
     require (0 \<le> cc_competence c \<and> cc_competence c \<le> 1) (ValueError ''competence MUST be between 0 and 1'') (
     require (\<not> (cc_cost_per_call c < 0 \<or> cc_latency_ms c < 0)) (ValueError ''cost and latency MUST be non-negative'') (
     require (case cc_max_tokens c of None \<Rightarrow> True | Some n \<Rightarrow> \<not> n \<le> 0) (ValueError ''max_tokens MUST be positive'') (
     require (\<not> cc_max_parallelism c \<le> 0) (ValueError ''max_parallelism MUST be positive'') (Inr c))))))))))"

definition is_expired :: "capability_card \<Rightarrow> int \<Rightarrow> bool" where
  "is_expired c now \<longleftrightarrow> (case cc_expires_at_ns c of None \<Rightarrow> False | Some e \<Rightarrow> now \<ge> e)"

record capability_requirement =
  rq_action_type :: cognitive_action_type
  rq_risk_class :: risk_class
  rq_required_features :: "capability_feature set"
  rq_required_permissions :: "string set"
  rq_locality :: "string option"
  rq_domain :: "string option"
  rq_minimum_competence :: real
  rq_maximum_cost :: "real option"
  rq_maximum_latency_ms :: "int option"
  rq_token_budget :: "int option"

record capability_rejection =
  rj_capability_id :: string
  rj_reason_codes :: "string list"

record capability_selection =
  cs_selected :: "capability_card option"
  cs_requirement :: capability_requirement
  cs_satisfied :: bool
  cs_reason :: string
  cs_candidates :: "string list"
  cs_rejections :: "capability_rejection list"

record model_change_event =
  mc_capability_id :: string
  mc_previous_fingerprint :: string
  mc_current_fingerprint :: string

section \<open>The registry\<close>

record 'l capability_registry =
  cr_cards :: "(string, capability_card) dict"
  cr_disabled :: "string set"
  cr_change_listeners :: "'l list"

definition cap_register ::
  "capability_card \<Rightarrow> 'l capability_registry \<Rightarrow> ('l \<times> model_change_event) list \<times> 'l capability_registry" where
  "cap_register crd reg =
     (let previous = map_of (cr_cards reg) (cc_capability_id crd);
          reg' = reg\<lparr>cr_cards := dict_set (cc_capability_id crd) crd (cr_cards reg)\<rparr>
      in (case previous of
            None \<Rightarrow> []
          | Some p \<Rightarrow>
              if cc_fingerprint p \<noteq> cc_fingerprint crd
              then map (\<lambda>l. (l, \<lparr>mc_capability_id = cc_capability_id crd, mc_previous_fingerprint = cc_fingerprint p,
                                 mc_current_fingerprint = cc_fingerprint crd\<rparr>)) (cr_change_listeners reg)
              else [], reg'))"

definition cap_get :: "string \<Rightarrow> 'l capability_registry \<Rightarrow> capability_card option" where
  "cap_get i reg = map_of (cr_cards reg) i"

definition cap_all :: "'l capability_registry \<Rightarrow> capability_card list" where
  "cap_all reg = map snd (sort_key fst (cr_cards reg))"

definition card_available :: "string set \<Rightarrow> int \<Rightarrow> capability_card \<Rightarrow> bool" where
  "card_available disabled now c \<longleftrightarrow>
     cc_capability_id c \<notin> disabled \<and> cc_lifecycle c = CLC_ACTIVE \<and> cc_health c \<in> {HL_HEALTHY, HL_UNKNOWN} \<and> \<not> is_expired c now"

definition cap_available :: "int \<Rightarrow> 'l capability_registry \<Rightarrow> capability_card list" where
  "cap_available now reg = filter (card_available (cr_disabled reg) now) (cap_all reg)"

definition cap_require :: "string \<Rightarrow> 'l capability_registry \<Rightarrow> capability_card res" where
  "cap_require i reg = (case cap_get i reg of None \<Rightarrow> Inl (KeyError (''unknown capability: '' @ i)) | Some c \<Rightarrow> Inr c)"

text \<open>\<open>replace\<close> builds a new card, so the checks of the constructor run again.\<close>

definition cap_replace :: "string \<Rightarrow> (capability_card \<Rightarrow> capability_card) \<Rightarrow> 'l capability_registry \<Rightarrow> 'l capability_registry res" where
  "cap_replace i f reg =
     (case cap_require i reg of
        Inl e \<Rightarrow> Inl e
      | Inr c \<Rightarrow>
          (case CapabilityCard_post_init (f c) of
             Inl e \<Rightarrow> Inl e
           | Inr c' \<Rightarrow> Inr (reg\<lparr>cr_cards := dict_set i c' (cr_cards reg)\<rparr>)))"

definition set_health :: "string \<Rightarrow> health_status \<Rightarrow> 'l capability_registry \<Rightarrow> 'l capability_registry res" where
  "set_health i h reg = cap_replace i (\<lambda>c. c\<lparr>cc_health := h\<rparr>) reg"

definition set_lifecycle :: "string \<Rightarrow> capability_lifecycle \<Rightarrow> 'l capability_registry \<Rightarrow> 'l capability_registry res" where
  "set_lifecycle i l reg = cap_replace i (\<lambda>c. c\<lparr>cc_lifecycle := l\<rparr>) reg"

definition cap_disable :: "string \<Rightarrow> 'l capability_registry \<Rightarrow> 'l capability_registry res" where
  "cap_disable i reg =
     (case cap_require i reg of Inl e \<Rightarrow> Inl e | Inr _ \<Rightarrow> Inr (reg\<lparr>cr_disabled := insert i (cr_disabled reg)\<rparr>))"

definition cap_enable :: "string \<Rightarrow> 'l capability_registry \<Rightarrow> 'l capability_registry res" where
  "cap_enable i reg =
     (case cap_require i reg of Inl e \<Rightarrow> Inl e | Inr _ \<Rightarrow> Inr (reg\<lparr>cr_disabled := cr_disabled reg - {i}\<rparr>))"

definition is_disabled :: "string \<Rightarrow> 'l capability_registry \<Rightarrow> bool" where
  "is_disabled i reg \<longleftrightarrow> i \<in> cr_disabled reg"

definition add_change_listener :: "'l \<Rightarrow> 'l capability_registry \<Rightarrow> 'l capability_registry" where
  "add_change_listener l reg = reg\<lparr>cr_change_listeners := cr_change_listeners reg @ [l]\<rparr>"

record card_image =
  im_capability_id :: string
  im_name :: string
  im_provider_id :: string
  im_provider_version :: string
  im_model_id :: string
  im_supported_actions :: "string list"
  im_risk_limit :: string
  im_features :: "string list option"
  im_permissions :: "string list option"
  im_calibration_domains :: "string list option"
  im_locality :: "string option"
  im_competence :: "real option"
  im_cost_per_call :: "real option"
  im_latency_ms :: "int option"
  im_max_tokens :: "int option"
  im_max_parallelism :: "int option"
  im_lifecycle :: "string option"
  im_health :: "string option"
  im_expires_at_ns :: "int option"
  im_fingerprint :: "string option"
  im_failure_modes :: "string list option"
  im_metadata :: "(string \<times> pyval) list option"

fun canonical_items :: "pyval \<Rightarrow> (string \<times> pyval) list" where
  "canonical_items (PDict kvs) = kvs"
| "canonical_items _ = []"

definition canonical_metadata :: "(string \<times> pyval) list \<Rightarrow> (string \<times> pyval) list" where
  "canonical_metadata md = canonical_items (canonical_data (PDict md))"

definition card_to_image :: "capability_card \<Rightarrow> card_image" where
  "card_to_image c =
     \<lparr>im_capability_id = cc_capability_id c, im_name = cc_name c, im_provider_id = cc_provider_id c,
      im_provider_version = cc_provider_version c, im_model_id = cc_model_id c,
      im_supported_actions = sorted_list_of_set (cognitive_action_type_value ` cc_supported_actions c),
      im_risk_limit = risk_class_value (cc_risk_limit c),
      im_features = Some (sorted_list_of_set (capability_feature_value ` cc_features c)),
      im_permissions = Some (sorted_list_of_set (cc_permissions c)),
      im_calibration_domains = Some (sorted_list_of_set (cc_calibration_domains c)),
      im_locality = Some (cc_locality c), im_competence = Some (cc_competence c),
      im_cost_per_call = Some (cc_cost_per_call c), im_latency_ms = Some (cc_latency_ms c),
      im_max_tokens = cc_max_tokens c, im_max_parallelism = Some (cc_max_parallelism c),
      im_lifecycle = Some (capability_lifecycle_value (cc_lifecycle c)), im_health = Some (health_status_value (cc_health c)),
      im_expires_at_ns = cc_expires_at_ns c, im_fingerprint = Some (cc_fingerprint c),
      im_failure_modes = Some (cc_failure_modes c), im_metadata = Some (canonical_metadata (cc_metadata c))\<rparr>"

definition snapshot_state :: "'l capability_registry \<Rightarrow> card_image list \<times> string list" where
  "snapshot_state reg = (map card_to_image (cap_all reg), sorted_list_of_set (cr_disabled reg))"

fun decode_all :: "(string \<Rightarrow> 'e res) \<Rightarrow> string list \<Rightarrow> 'e list res" where
  "decode_all f [] = Inr []"
| "decode_all f (s # ss) =
     (case f s of Inl e \<Rightarrow> Inl e | Inr v \<Rightarrow> (case decode_all f ss of Inl e \<Rightarrow> Inl e | Inr vs \<Rightarrow> Inr (v # vs)))"

abbreviation default :: "'a \<Rightarrow> 'a option \<Rightarrow> 'a" where
  "default d x \<equiv> (case x of None \<Rightarrow> d | Some v \<Rightarrow> v)"

definition image_to_card :: "card_image \<Rightarrow> capability_card res" where
  "image_to_card m =
     (case decode_all (enum_decode cognitive_action_type_members cognitive_action_type_value) (im_supported_actions m) of
        Inl e \<Rightarrow> Inl e | Inr actions \<Rightarrow>
     (case enum_decode risk_class_members risk_class_value (im_risk_limit m) of
        Inl e \<Rightarrow> Inl e | Inr risk \<Rightarrow>
     (case decode_all (enum_decode capability_features capability_feature_value) (default [] (im_features m)) of
        Inl e \<Rightarrow> Inl e | Inr features \<Rightarrow>
     (case enum_decode capability_lifecycles capability_lifecycle_value (default ''ACTIVE'' (im_lifecycle m)) of
        Inl e \<Rightarrow> Inl e | Inr lifecycle \<Rightarrow>
     (case enum_decode health_statuses health_status_value (default ''UNKNOWN'' (im_health m)) of
        Inl e \<Rightarrow> Inl e | Inr health \<Rightarrow>
     CapabilityCard_post_init
       \<lparr>cc_capability_id = im_capability_id m, cc_name = im_name m, cc_provider_id = im_provider_id m,
        cc_provider_version = im_provider_version m, cc_model_id = im_model_id m, cc_supported_actions = set actions,
        cc_risk_limit = risk, cc_features = set features, cc_permissions = set (default [] (im_permissions m)),
        cc_calibration_domains = set (default [] (im_calibration_domains m)), cc_locality = default ''remote'' (im_locality m),
        cc_competence = default 0 (im_competence m), cc_cost_per_call = default 0 (im_cost_per_call m),
        cc_latency_ms = default 0 (im_latency_ms m), cc_max_tokens = im_max_tokens m,
        cc_max_parallelism = default 1 (im_max_parallelism m), cc_lifecycle = lifecycle, cc_health = health,
        cc_expires_at_ns = im_expires_at_ns m, cc_fingerprint = default [] (im_fingerprint m),
        cc_failure_modes = default [] (im_failure_modes m), cc_metadata = default [] (im_metadata m)\<rparr>)))))"

fun restore_cards :: "card_image list \<Rightarrow> (string, capability_card) dict \<Rightarrow> (string, capability_card) dict res" where
  "restore_cards [] cards = Inr cards"
| "restore_cards (m # ms) cards =
     (case image_to_card m of
        Inl e \<Rightarrow> Inl e
      | Inr c \<Rightarrow>
          if cc_capability_id c \<in> fst ` set cards
          then Inl (ValueError (''duplicate capability in registry snapshot: '' @ cc_capability_id c))
          else restore_cards ms (dict_set (cc_capability_id c) c cards))"

definition restore_state :: "card_image list \<times> string list \<Rightarrow> 'l capability_registry \<Rightarrow> 'l capability_registry res" where
  "restore_state st reg =
     (case restore_cards (fst st) [] of
        Inl e \<Rightarrow> Inl e
      | Inr cards \<Rightarrow>
          require (set (snd st) \<subseteq> fst ` set cards) (ValueError ''disabled capabilities are unknown'')
            (Inr (reg\<lparr>cr_cards := cards, cr_disabled := set (snd st)\<rparr>)))"

section \<open>The broker\<close>

fun risk_order :: "risk_class \<Rightarrow> nat" where
  "risk_order RISK_LOW = 1"
| "risk_order RISK_MEDIUM = 2"
| "risk_order RISK_HIGH = 3"
| "risk_order RISK_CRITICAL = 4"

definition broker_reasons :: "capability_card \<Rightarrow> capability_requirement \<Rightarrow> string set \<Rightarrow> string list" where
  "broker_reasons c r available =
     (if cc_capability_id c \<notin> available then [''UNAVAILABLE''] else [])
     @ (if rq_action_type r \<notin> cc_supported_actions c then [''ACTION_UNSUPPORTED''] else [])
     @ (if risk_order (cc_risk_limit c) < risk_order (rq_risk_class r) then [''RISK_LIMIT''] else [])
     @ (if \<not> rq_required_features r \<subseteq> cc_features c then [''FEATURES_MISSING''] else [])
     @ (if \<not> rq_required_permissions r \<subseteq> cc_permissions c then [''PERMISSIONS_MISSING''] else [])
     @ (if (case rq_locality r of None \<Rightarrow> False | Some l \<Rightarrow> cc_locality c \<noteq> l) then [''LOCALITY_MISMATCH''] else [])
     @ (if (case rq_domain r of None \<Rightarrow> False | Some d \<Rightarrow> d \<noteq> [] \<and> d \<notin> cc_calibration_domains c) then [''DOMAIN_UNCALIBRATED''] else [])
     @ (if cc_competence c < rq_minimum_competence r then [''COMPETENCE_LOW''] else [])
     @ (if (case rq_maximum_cost r of None \<Rightarrow> False | Some m \<Rightarrow> cc_cost_per_call c > m) then [''COST_BUDGET''] else [])
     @ (if (case rq_maximum_latency_ms r of None \<Rightarrow> False | Some m \<Rightarrow> cc_latency_ms c > m) then [''LATENCY_BUDGET''] else [])
     @ (if (case rq_token_budget r of None \<Rightarrow> False
            | Some b \<Rightarrow> (case cc_max_tokens c of None \<Rightarrow> False | Some m \<Rightarrow> b > m)) then [''TOKEN_BUDGET''] else [])"

definition card_key :: "capability_card \<Rightarrow> real \<times> real \<times> int \<times> string" where
  "card_key c = (- cc_competence c, cc_cost_per_call c, cc_latency_ms c, cc_capability_id c)"

definition broker_match :: "capability_requirement \<Rightarrow> int \<Rightarrow> 'l capability_registry \<Rightarrow> capability_selection" where
  "broker_match r now reg =
     (let available = set (map cc_capability_id (cap_available now reg));
          candidates = filter (\<lambda>c. broker_reasons c r available = []) (cap_all reg);
          rejections = map (\<lambda>c. \<lparr>rj_capability_id = cc_capability_id c, rj_reason_codes = broker_reasons c r available\<rparr>)
                         (filter (\<lambda>c. broker_reasons c r available \<noteq> []) (cap_all reg))
      in case candidates of
           [] \<Rightarrow> \<lparr>cs_selected = None, cs_requirement = r, cs_satisfied = False,
                  cs_reason = ''no capability satisfies all requirements'', cs_candidates = [], cs_rejections = rejections\<rparr>
         | c # cs \<Rightarrow> \<lparr>cs_selected = Some (min_on card_key c cs), cs_requirement = r, cs_satisfied = True,
                  cs_reason = ''capability matched'', cs_candidates = map cc_capability_id candidates,
                  cs_rejections = rejections\<rparr>)"

section \<open>Registries that calls produce\<close>

definition card_ok :: "capability_card \<Rightarrow> bool" where
  "card_ok c \<longleftrightarrow> CapabilityCard_post_init c = Inr c \<and> finite (cc_permissions c) \<and> finite (cc_calibration_domains c)"

definition registry_ok :: "'l capability_registry \<Rightarrow> bool" where
  "registry_ok reg \<longleftrightarrow> dict_ok (cr_cards reg) \<and> cr_disabled reg \<subseteq> fst ` set (cr_cards reg)
     \<and> (\<forall>i c. (i, c) \<in> set (cr_cards reg) \<longrightarrow> i = cc_capability_id c \<and> card_ok c)"

datatype 'l capability_call =
    Cap_register capability_card
  | Cap_health string health_status
  | Cap_lifecycle string capability_lifecycle
  | Cap_disable string
  | Cap_enable string
  | Cap_listen 'l

definition keep_old :: "'s \<Rightarrow> 's res \<Rightarrow> 's" where
  "keep_old s r = (case r of Inl _ \<Rightarrow> s | Inr t \<Rightarrow> t)"

fun capability_step :: "'l capability_registry \<Rightarrow> 'l capability_call \<Rightarrow> 'l capability_registry" where
  "capability_step reg (Cap_register c) = snd (cap_register c reg)"
| "capability_step reg (Cap_health i h) = keep_old reg (set_health i h reg)"
| "capability_step reg (Cap_lifecycle i l) = keep_old reg (set_lifecycle i l reg)"
| "capability_step reg (Cap_disable i) = keep_old reg (cap_disable i reg)"
| "capability_step reg (Cap_enable i) = keep_old reg (cap_enable i reg)"
| "capability_step reg (Cap_listen l) = add_change_listener l reg"

definition cap_call_ok :: "'l capability_call \<Rightarrow> bool" where
  "cap_call_ok c \<longleftrightarrow> (\<forall>crd. c = Cap_register crd \<longrightarrow> card_ok crd)"

lemma registry_ok_set:
  assumes "registry_ok reg" and "card_ok c" and "i = cc_capability_id c"
  shows "registry_ok (reg\<lparr>cr_cards := dict_set i c (cr_cards reg)\<rparr>)"
  using assms set_dict_set_subset [of i c "cr_cards reg"] unfolding registry_ok_def by auto

lemma registry_okD: "registry_ok reg \<Longrightarrow> map_of (cr_cards reg) i = Some c \<Longrightarrow> cc_capability_id c = i \<and> card_ok c"
  unfolding registry_ok_def by (blast dest: map_of_SomeD)

lemma cap_replace_ok:
  assumes "registry_ok reg" and "\<And>c. card_ok c \<Longrightarrow> card_ok (f c) \<and> cc_capability_id (f c) = cc_capability_id c"
  shows "registry_ok (keep_old reg (cap_replace i f reg))"
proof (cases "map_of (cr_cards reg) i")
  case None
  with assms(1) show ?thesis by (simp add: cap_replace_def cap_require_def cap_get_def keep_old_def)
next
  case (Some c)
  have c: "cc_capability_id c = i" "card_ok (f c)" "cc_capability_id (f c) = i"
    using registry_okD [OF assms(1) Some] assms(2) by auto
  from c(2) have "CapabilityCard_post_init (f c) = Inr (f c)" by (simp add: card_ok_def)
  with Some registry_ok_set [OF assms(1) c(2)] c(3) show ?thesis
    by (simp add: cap_replace_def cap_require_def cap_get_def keep_old_def)
qed

lemma card_ok_update [simp]: "card_ok (c\<lparr>cc_health := h\<rparr>) = card_ok c" "card_ok (c\<lparr>cc_lifecycle := l\<rparr>) = card_ok c"
  by (simp_all add: card_ok_def CapabilityCard_post_init_def)

interpretation capabilities: guarded_machine capability_step cap_call_ok registry_ok
proof
  fix reg :: "'l capability_registry" and c :: "'l capability_call"
  assume ok: "registry_ok reg" and "cap_call_ok c"
  then show "registry_ok (capability_step reg c)"
  proof (cases c)
    case (Cap_register crd)
    with ok \<open>cap_call_ok c\<close> show ?thesis
      by (simp add: cap_register_def Let_def cap_call_ok_def registry_ok_set)
  next
    case (Cap_health i h)
    with ok show ?thesis by (simp add: set_health_def cap_replace_ok)
  next
    case (Cap_lifecycle i l)
    with ok show ?thesis by (simp add: set_lifecycle_def cap_replace_ok)
  qed (use ok in \<open>auto simp: cap_disable_def cap_enable_def cap_require_def cap_get_def keep_old_def add_change_listener_def
      registry_ok_def dest: map_of_Some_keys split: option.splits\<close>)
qed

section \<open>Selection\<close>

text \<open>What a requirement asks of a card, and the registry of its availability.\<close>

definition meets_requirement :: "capability_requirement \<Rightarrow> capability_card \<Rightarrow> bool" where
  "meets_requirement r c \<longleftrightarrow> rq_action_type r \<in> cc_supported_actions c \<and> risk_order (rq_risk_class r) \<le> risk_order (cc_risk_limit c)
     \<and> rq_required_features r \<subseteq> cc_features c \<and> rq_required_permissions r \<subseteq> cc_permissions c
     \<and> (\<forall>l. rq_locality r = Some l \<longrightarrow> cc_locality c = l)
     \<and> (\<forall>d. rq_domain r = Some d \<and> d \<noteq> [] \<longrightarrow> d \<in> cc_calibration_domains c)
     \<and> rq_minimum_competence r \<le> cc_competence c
     \<and> (\<forall>m. rq_maximum_cost r = Some m \<longrightarrow> cc_cost_per_call c \<le> m)
     \<and> (\<forall>m. rq_maximum_latency_ms r = Some m \<longrightarrow> cc_latency_ms c \<le> m)
     \<and> (\<forall>b m. rq_token_budget r = Some b \<and> cc_max_tokens c = Some m \<longrightarrow> b \<le> m)"

definition eligible_card :: "'l capability_registry \<Rightarrow> int \<Rightarrow> capability_requirement \<Rightarrow> capability_card \<Rightarrow> bool" where
  "eligible_card reg now r c \<longleftrightarrow> c \<in> snd ` set (cr_cards reg) \<and> card_available (cr_disabled reg) now c \<and> meets_requirement r c"

lemma case_option_False: "(case x of None \<Rightarrow> False | Some v \<Rightarrow> P v) \<longleftrightarrow> (\<exists>v. x = Some v \<and> P v)"
  by (cases x) simp_all

lemma broker_reasons_Nil: "broker_reasons c r A = [] \<longleftrightarrow> cc_capability_id c \<in> A \<and> meets_requirement r c"
  unfolding broker_reasons_def meets_requirement_def append_is_Nil_conv if_single_Nil case_option_False by (simp add: not_less) blast

lemma set_cap_all [simp]: "set (cap_all reg) = snd ` set (cr_cards reg)"
  by (simp add: cap_all_def)

lemma registry_card_unique:
  assumes "registry_ok reg" and "c \<in> snd ` set (cr_cards reg)" and "d \<in> snd ` set (cr_cards reg)"
    and "cc_capability_id c = cc_capability_id d"
  shows "c = d"
proof -
  from assms obtain i j where ij: "(i, c) \<in> set (cr_cards reg)" "(j, d) \<in> set (cr_cards reg)" by auto
  with assms(1,4) have "i = j" unfolding registry_ok_def by metis
  with ij assms(1) show ?thesis by (auto simp: registry_ok_def dest: eq_key_imp_eq_value)
qed

lemma candidate_iff:
  assumes "registry_ok reg" and "c \<in> snd ` set (cr_cards reg)"
  shows "broker_reasons c r (set (map cc_capability_id (cap_available now reg))) = [] \<longleftrightarrow> eligible_card reg now r c"
proof -
  have "cc_capability_id c \<in> set (map cc_capability_id (cap_available now reg)) \<longleftrightarrow> card_available (cr_disabled reg) now c"
  proof
    assume "cc_capability_id c \<in> set (map cc_capability_id (cap_available now reg))"
    then obtain d where d: "d \<in> snd ` set (cr_cards reg)" "card_available (cr_disabled reg) now d" "cc_capability_id c = cc_capability_id d"
      by (auto simp: cap_available_def)
    with registry_card_unique [OF assms d(1,3)] show "card_available (cr_disabled reg) now c" by simp
  qed (use assms(2) in \<open>auto simp: cap_available_def\<close>)
  with assms(2) show ?thesis by (simp add: broker_reasons_Nil eligible_card_def)
qed

text \<open>
  C31: The broker is sound, complete and optimal: in every registry that calls produce, it selects a
  registered card that is enabled, active, healthy, not expired and meets the requirement, of
  the highest competence, then lowest cost, latency and identifier, whenever there is one; it
  selects nothing only if no card is eligible; candidates are exactly the eligible cards, and
  every other card is rejected with a reason.
\<close>

theorem broker_selects_best:
  assumes "list_all cap_call_ok cs"
  defines "reg \<equiv> foldl capability_step \<lparr>cr_cards = [], cr_disabled = {}, cr_change_listeners = []\<rparr> cs"
  shows "(case cs_selected (broker_match r now reg) of
       None \<Rightarrow> \<not> (\<exists>c. eligible_card reg now r c)
     | Some c \<Rightarrow> eligible_card reg now r c \<and> (\<forall>d. eligible_card reg now r d \<longrightarrow> card_key c \<le> card_key d))
    \<and> set (cs_candidates (broker_match r now reg)) = cc_capability_id ` {c. eligible_card reg now r c}
    \<and> rj_capability_id ` set (cs_rejections (broker_match r now reg)) =
        cc_capability_id ` {c \<in> snd ` set (cr_cards reg). \<not> eligible_card reg now r c}
    \<and> list_all (\<lambda>x. rj_reason_codes x \<noteq> []) (cs_rejections (broker_match r now reg))"
proof -
  have ok: "registry_ok reg" unfolding reg_def
    by (rule capabilities.run_keeps [OF _ assms(1)]) (simp add: registry_ok_def)
  let ?A = "set (map cc_capability_id (cap_available now reg))"
  let ?cand = "filter (\<lambda>c. broker_reasons c r ?A = []) (cap_all reg)"
  have e: "set ?cand = {c. eligible_card reg now r c}"
    using candidate_iff [OF ok, where r = r and now = now] by (auto simp: eligible_card_def)
  have j: "{c \<in> set (cap_all reg). broker_reasons c r ?A \<noteq> []} = {c \<in> snd ` set (cr_cards reg). \<not> eligible_card reg now r c}"
    using candidate_iff [OF ok, where r = r and now = now] by auto
  have rej: "cs_rejections (broker_match r now reg) =
      map (\<lambda>c. \<lparr>rj_capability_id = cc_capability_id c, rj_reason_codes = broker_reasons c r ?A\<rparr>)
        (filter (\<lambda>c. broker_reasons c r ?A \<noteq> []) (cap_all reg))"
    by (simp add: broker_match_def Let_def split: list.split)
  have "rj_capability_id ` set (cs_rejections (broker_match r now reg)) =
      cc_capability_id ` {c \<in> set (cap_all reg). broker_reasons c r ?A \<noteq> []}"
    unfolding rej by (simp add: image_image)
  moreover have "list_all (\<lambda>x. rj_reason_codes x \<noteq> []) (cs_rejections (broker_match r now reg))"
    unfolding rej by (simp add: list_all_iff)
  moreover have "cs_candidates (broker_match r now reg) = map cc_capability_id ?cand"
    by (cases ?cand) (simp_all add: broker_match_def Let_def)
  then have "set (cs_candidates (broker_match r now reg)) = cc_capability_id ` set ?cand" by simp
  moreover have "case cs_selected (broker_match r now reg) of
       None \<Rightarrow> set ?cand = {}
     | Some c \<Rightarrow> c \<in> set ?cand \<and> (\<forall>d \<in> set ?cand. card_key c \<le> card_key d)"
  proof (cases ?cand)
    case Nil
    then show ?thesis by (simp add: broker_match_def Let_def)
  next
    case (Cons c cs)
    then have "cs_selected (broker_match r now reg) = Some (min_on card_key c cs)" by (simp add: broker_match_def Let_def)
    with Cons min_on_in [of card_key c cs] min_on_least [of _ c cs card_key] show ?thesis by simp
  qed
  ultimately show ?thesis unfolding e j by (auto split: option.splits)
qed

definition demo_card :: capability_card where
  "demo_card = \<lparr>cc_capability_id = ''c'', cc_name = ''n'', cc_provider_id = ''p'', cc_provider_version = ''1'', cc_model_id = ''m'',
     cc_supported_actions = {CA_REASON}, cc_risk_limit = RISK_HIGH, cc_features = {CF_LOCAL}, cc_permissions = {''read''},
     cc_calibration_domains = {}, cc_locality = ''local'', cc_competence = 1, cc_cost_per_call = 0, cc_latency_ms = 5,
     cc_max_tokens = None, cc_max_parallelism = 1, cc_lifecycle = CLC_ACTIVE, cc_health = HL_HEALTHY, cc_expires_at_ns = Some 9,
     cc_fingerprint = ''f'', cc_failure_modes = [], cc_metadata = [(''b'', PNone), (''a'', PInt 1)]\<rparr>"

definition demo_requirement :: capability_requirement where
  "demo_requirement = \<lparr>rq_action_type = CA_REASON, rq_risk_class = RISK_LOW, rq_required_features = {}, rq_required_permissions = {''read''},
     rq_locality = None, rq_domain = None, rq_minimum_competence = 0, rq_maximum_cost = Some 1, rq_maximum_latency_ms = None,
     rq_token_budget = Some 100\<rparr>"

lemma demo_card_ok: "list_all cap_call_ok [Cap_register demo_card, Cap_disable ''c'', Cap_enable ''c'']"
  by (simp add: cap_call_ok_def card_ok_def CapabilityCard_post_init_def demo_card_def)

theorem broker_selects_best_witness:
  "cs_selected (broker_match demo_requirement 8 (foldl capability_step
     \<lparr>cr_cards = [], cr_disabled = {}, cr_change_listeners = ([] :: nat list)\<rparr>
     [Cap_register demo_card, Cap_disable ''c'', Cap_enable ''c''])) \<noteq> None"
proof -
  let ?reg = "foldl capability_step \<lparr>cr_cards = [], cr_disabled = {}, cr_change_listeners = ([] :: nat list)\<rparr>
     [Cap_register demo_card, Cap_disable ''c'', Cap_enable ''c'']"
  have "eligible_card ?reg 8 demo_requirement demo_card"
    by (simp add: eligible_card_def meets_requirement_def card_available_def is_expired_def demo_card_def demo_requirement_def cap_register_def
        cap_disable_def cap_enable_def cap_require_def cap_get_def keep_old_def Let_def)
  with broker_selects_best [OF demo_card_ok, where r = demo_requirement and now = 8] show ?thesis
    by (auto split: option.splits simp del: foldl.simps)
qed

section \<open>Images of registries\<close>

context value_enum
begin

lemma decode_all_values:
  "set ss \<subseteq> range val \<Longrightarrow> \<exists>ys. decode_all (enum_decode members val) ss = Inr ys \<and> map val ys = ss"
proof (induction ss)
  case (Cons s ss)
  then obtain y ys where "s = val y" "decode_all (enum_decode members val) ss = Inr ys" "map val ys = ss" by auto
  then show ?case by (intro exI [of _ "y # ys"]) simp
qed simp

lemma finite_members: "finite (A :: 'e set)"
  by (rule finite_subset [of _ "set members"]) (simp_all add: members_all subset_eq)

lemma decode_all_sorted: "\<exists>ys. decode_all (enum_decode members val) (sorted_list_of_set (val ` A)) = Inr ys \<and> set ys = A"
proof -
  note fin = finite_members [of A]
  have "set (sorted_list_of_set (val ` A)) = val ` A" using fin by simp
  with decode_all_values [of "sorted_list_of_set (val ` A)"] obtain ys
    where ys: "decode_all (enum_decode members val) (sorted_list_of_set (val ` A)) = Inr ys"
      "map val ys = sorted_list_of_set (val ` A)" by auto
  then have "val ` set ys = val ` A" using fin by (metis finite_imageI set_map set_sorted_list_of_set)
  moreover have "inj val" by (simp add: inj_def value_inj)
  ultimately have "set ys = A" by (simp add: inj_image_eq_iff)
  with ys(1) show ?thesis by blast
qed

end

definition canonical_card :: "capability_card \<Rightarrow> capability_card" where
  "canonical_card c = c\<lparr>cc_metadata := canonical_metadata (cc_metadata c)\<rparr>"

lemma image_roundtrip:
  assumes "card_ok c"
  shows "image_to_card (card_to_image c) = Inr (canonical_card c)"
proof -
  obtain as where as: "decode_all (enum_decode cognitive_action_type_members cognitive_action_type_value)
      (sorted_list_of_set (cognitive_action_type_value ` cc_supported_actions c)) = Inr as" "set as = cc_supported_actions c"
    using cognitive_action_type.decode_all_sorted by blast
  obtain fs where fs: "decode_all (enum_decode capability_features capability_feature_value)
      (sorted_list_of_set (capability_feature_value ` cc_features c)) = Inr fs" "set fs = cc_features c"
    using capability_feature.decode_all_sorted by blast
  from assms have "CapabilityCard_post_init (canonical_card c) = Inr (canonical_card c)" "finite (cc_permissions c)"
    "finite (cc_calibration_domains c)"
    by (simp_all add: card_ok_def CapabilityCard_post_init_def canonical_card_def)
  with as fs show ?thesis by (cases c) (simp add: image_to_card_def card_to_image_def canonical_card_def)
qed

lemma restore_cards_images:
  assumes "\<forall>c \<in> set cs. card_ok c" and "distinct (map cc_capability_id cs)"
    and "fst ` set d \<inter> cc_capability_id ` set cs = {}"
  shows "restore_cards (map card_to_image cs) d = Inr (d @ map (\<lambda>c. (cc_capability_id c, canonical_card c)) cs)"
  using assms
proof (induction cs arbitrary: d)
  case (Cons c cs)
  have i: "image_to_card (card_to_image c) = Inr (canonical_card c)" using Cons.prems(1) by (simp add: image_roundtrip)
  have k: "cc_capability_id (canonical_card c) = cc_capability_id c" by (simp add: canonical_card_def)
  have n: "cc_capability_id c \<notin> fst ` set d" using Cons.prems(3) by auto
  have "fst ` set (d @ [(cc_capability_id c, canonical_card c)]) \<inter> cc_capability_id ` set cs = {}"
    using Cons.prems(2,3) by auto
  with Cons.IH [of "d @ [(cc_capability_id c, canonical_card c)]"] Cons.prems(1,2) i k n show ?case
    by (simp add: dict_set_new)
qed simp

text \<open>
  The image of a registry restores it: every registry that calls produce is restored from its
  image with the same cards, in the order of their identifiers and with canonical
  metadata (keys in order, entries that are \<open>None\<close> dropped), and the same disabled cards.
\<close>

theorem registry_image_restores:
  assumes "list_all cap_call_ok cs"
  defines "reg \<equiv> foldl capability_step \<lparr>cr_cards = [], cr_disabled = {}, cr_change_listeners = []\<rparr> cs"
  shows "restore_state (snapshot_state reg) other =
    Inr (other\<lparr>cr_cards := map (\<lambda>(i, c). (i, canonical_card c)) (sort_key fst (cr_cards reg)), cr_disabled := cr_disabled reg\<rparr>)"
proof -
  have ok: "registry_ok reg" unfolding reg_def
    by (rule capabilities.run_keeps [OF _ assms(1)]) (simp add: registry_ok_def)
  have p: "i = cc_capability_id c \<and> card_ok c" if "(i, c) \<in> set (sort_key fst (cr_cards reg))" for i c
    using ok that by (simp add: registry_ok_def)
  then have m: "map (\<lambda>c. (cc_capability_id c, canonical_card c)) (cap_all reg) =
      map (\<lambda>(i, c). (i, canonical_card c)) (sort_key fst (cr_cards reg))"
    unfolding cap_all_def by (auto simp: o_def)
  have "map cc_capability_id (cap_all reg) = map fst (sort_key fst (cr_cards reg))"
    unfolding cap_all_def using p by (auto simp: o_def)
  moreover have "distinct (map fst (sort_key fst (cr_cards reg)))"
    using ok by (simp add: registry_ok_def distinct_map)
  ultimately have "distinct (map cc_capability_id (cap_all reg))" by simp
  moreover have "\<forall>c \<in> set (cap_all reg). card_ok c" using p by (auto simp: cap_all_def)
  ultimately have r: "restore_cards (map card_to_image (cap_all reg)) [] =
      Inr (map (\<lambda>(i, c). (i, canonical_card c)) (sort_key fst (cr_cards reg)))"
    using restore_cards_images [of "cap_all reg" "[]"] m by simp
  have d: "cr_disabled reg \<subseteq> fst ` set (cr_cards reg)" "finite (cr_disabled reg)"
    using ok finite_subset by (auto simp: registry_ok_def)
  have "fst ` set (map (\<lambda>(i, c). (i, canonical_card c)) (sort_key fst (cr_cards reg))) = fst ` set (cr_cards reg)"
    by (force simp: image_iff)
  with d r show ?thesis by (simp add: restore_state_def snapshot_state_def)
qed

theorem registry_image_restores_witness:
  "\<exists>reg. restore_state (snapshot_state (foldl capability_step
        \<lparr>cr_cards = [], cr_disabled = {}, cr_change_listeners = ([] :: nat list)\<rparr>
        [Cap_register demo_card, Cap_disable ''c'', Cap_enable ''c'']))
      \<lparr>cr_cards = [], cr_disabled = {}, cr_change_listeners = [5 :: nat]\<rparr> = Inr reg \<and> cr_change_listeners reg = [5]"
  by (intro exI conjI, rule registry_image_restores [OF demo_card_ok]) simp

end
