(* ===== verification/Semantics.thy ===== *)
theory Semantics
  imports Capabilities Cognitive_State Decision_Policy Transaction_Proofs
begin

text \<open>
  Semantic graph candidates and experiments (\<open>semantics/contracts.py\<close>, \<open>semantics/validation.py\<close>,
  \<open>semantics/synthesis.py\<close>, \<open>semantics/experiments.py\<close>). The fingerprint of a candidate, SHA-256 of a
  canonical text, is a parameter. Resource limits of a template are whole numbers; other
  floating-point values are real numbers. The time of an availability test is an argument.
\<close>

declare map_of_eq_Some_iff [simp del] Some_eq_map_of_iff [simp del]

section \<open>Contracts\<close>

record semantic_unit_template =
  sut_template_id :: string
  sut_version :: string
  sut_purpose :: string
  sut_action_type :: cognitive_action_type
  sut_input_schema :: "(string, pyval) dict"
  sut_output_schema :: "(string, pyval) dict"
  sut_required_capability_id :: string
  sut_permissions :: "string set"
  sut_preconditions :: "string list"
  sut_postconditions :: "string list"
  sut_resource_limits :: "(string, int) dict"
  sut_risk_class :: risk_class
  sut_side_effect_class :: side_effect_class

definition SemanticUnitTemplate_post_init :: "semantic_unit_template \<Rightarrow> semantic_unit_template res" where
  "SemanticUnitTemplate_post_init t =
     require (sut_template_id t \<noteq> [] \<and> sut_version t \<noteq> [] \<and> sut_purpose t \<noteq> [] \<and> sut_required_capability_id t \<noteq> [])
       (ValueError ''semantic template identity, purpose, and capability MUST be complete'') (
     require (\<not> (sut_input_schema t = [] \<or> sut_output_schema t = []))
       (ValueError ''semantic templates MUST declare input and output schemas'') (Inr t))"

definition template_contract :: "semantic_unit_template \<Rightarrow> unit_contract" where
  "template_contract t =
     UnitContract_default\<lparr>input_schema := sut_input_schema t, output_schema := sut_output_schema t,
       preconditions := sut_preconditions t, postconditions := sut_postconditions t,
       resource_limits := map (\<lambda>(k, n). (k, PInt n)) (sut_resource_limits t)\<rparr>"

record semantic_graph_candidate =
  sgc_candidate_id :: string
  sgc_task_id :: string
  sgc_operations :: "ir_operation list"
  sgc_units :: "computational_unit list"
  sgc_semantic_justification :: string
  sgc_predicted_evidence :: "string list"
  sgc_provenance_refs :: "string list"
  sgc_capability_ids :: "string list"
  sgc_source_kinds :: "string list"
  sgc_hypothesis_ids :: "string list"
  sgc_estimated_cost :: real
  sgc_required_isolation_grade :: string
  sgc_semantic_fingerprint :: string

definition SemanticGraphCandidate_post_init :: "semantic_graph_candidate \<Rightarrow> semantic_graph_candidate res" where
  "SemanticGraphCandidate_post_init c =
     require (sgc_candidate_id c \<noteq> [] \<and> sgc_task_id c \<noteq> [] \<and> sgc_semantic_justification c \<noteq> [] \<and> sgc_semantic_fingerprint c \<noteq> [])
       (ValueError ''semantic candidate identity and justification MUST be complete'') (
     require (\<not> (sgc_operations c = [] \<or> sgc_units c = []))
       (ValueError ''semantic candidates MUST contain units and operations'') (
     require (\<not> (sgc_predicted_evidence c = [] \<or> sgc_provenance_refs c = []))
       (ValueError ''semantic candidates MUST predict evidence and declare provenance'') (
     require (\<not> sgc_estimated_cost c < 0) (ValueError ''semantic candidate cost MUST be non-negative'') (Inr c))))"

datatype experiment_outcome_status = EO_SUPPORTED | EO_FALSIFIED | EO_INCONCLUSIVE | EO_NON_IDENTIFIABLE

record causal_validity =
  cv_intervention :: string
  cv_control :: "string option"
  cv_confounders :: "string list"
  cv_isolation_grade :: string
  cv_outcome_access :: string
  cv_randomized :: bool

definition identifiable :: "causal_validity \<Rightarrow> bool" where
  "identifiable v \<longleftrightarrow>
     cv_intervention v \<noteq> [] \<and> cv_control v \<notin> {None, Some []} \<and> cv_outcome_access v \<noteq> []
     \<and> cv_isolation_grade v \<in> {''I3_RECORDED_EXTERNALS'', ''I4_SANDBOXED_ENVIRONMENT''}
     \<and> (cv_randomized v \<or> cv_confounders v = [])"

record experiment_proposal =
  xp_experiment_id :: string
  xp_task_id :: string
  xp_hypothesis_id :: string
  xp_predicted_observations :: "string list"
  xp_falsifier :: string
  xp_expected_information_gain :: real
  xp_expected_decision_value :: real
  xp_cost :: real
  xp_risk :: real
  xp_side_effect_class :: side_effect_class
  xp_required_isolation_grade :: string
  xp_causal_validity :: causal_validity

definition isolation_order :: "string \<Rightarrow> int option" where
  "isolation_order g =
     map_of [(''I0_NONE'', 0), (''I1_GRAPH_ONLY'', 1), (''I2_PROCESS_LOCAL'', 2), (''I3_RECORDED_EXTERNALS'', 3),
             (''I4_SANDBOXED_ENVIRONMENT'', 4)] g"

definition isolation_or :: "int \<Rightarrow> string \<Rightarrow> int" where
  "isolation_or d g = (case isolation_order g of None \<Rightarrow> d | Some n \<Rightarrow> n)"

definition ExperimentProposal_post_init :: "experiment_proposal \<Rightarrow> experiment_proposal res" where
  "ExperimentProposal_post_init p =
     require (xp_experiment_id p \<noteq> [] \<and> xp_task_id p \<noteq> [] \<and> xp_hypothesis_id p \<noteq> [] \<and> xp_falsifier p \<noteq> [])
       (ValueError ''experiment identity and falsifier MUST be complete'') (
     require (xp_predicted_observations p \<noteq> []) (ValueError ''experiments MUST declare predicted observations'') (
     require (\<not> (xp_expected_information_gain p < 0 \<or> xp_expected_decision_value p < 0 \<or> xp_cost p < 0 \<or> xp_risk p < 0))
       (ValueError ''experiment value, cost, and risk MUST be non-negative'') (
     require (\<not> (xp_side_effect_class p \<noteq> SE_NONE \<and> isolation_or (- 1) (xp_required_isolation_grade p) < 3))
       (ValueError ''effectful experiments require recorded-external isolation'') (Inr p))))"

record experiment_outcome =
  xo_experiment_id :: string
  xo_hypothesis_id :: string
  xo_observation :: string
  xo_status :: experiment_outcome_status
  xo_matched_prediction :: "string option"
  xo_causal_validity :: causal_validity
  xo_evidence_ref :: string

section \<open>Validation of candidates\<close>

record semantic_validation =
  sv_valid :: bool
  sv_reason_codes :: "string list"

fun operation_type_value :: "operation_type \<Rightarrow> string" where
  "operation_type_value ADD_UNIT = ''ADD_UNIT''"
| "operation_type_value REMOVE_UNIT = ''REMOVE_UNIT''"
| "operation_type_value CONNECT_UNITS = ''CONNECT_UNITS''"
| "operation_type_value DISCONNECT_UNITS = ''DISCONNECT_UNITS''"
| "operation_type_value REWIRE_EDGE = ''REWIRE_EDGE''"
| "operation_type_value SPECIALIZE_UNIT = ''SPECIALIZE_UNIT''"
| "operation_type_value DESPECIALIZE_UNIT = ''DESPECIALIZE_UNIT''"
| "operation_type_value COMPOSE_UNITS = ''COMPOSE_UNITS''"
| "operation_type_value DECOMPOSE_UNIT = ''DECOMPOSE_UNIT''"
| "operation_type_value UPDATE_CONTRACT = ''UPDATE_CONTRACT''"

text \<open>A reason code with the identifier it is about, when the condition holds.\<close>

definition reason_if :: "bool \<Rightarrow> string \<Rightarrow> string list" where
  "reason_if b s = (if b then [s] else [])"

definition capability_reasons :: "'l capability_registry \<Rightarrow> int \<Rightarrow> string set \<Rightarrow> string \<Rightarrow> string list" where
  "capability_reasons reg now granted i =
     (case cap_get i reg of
        None \<Rightarrow> [''CAPABILITY_UNAVAILABLE:'' @ i]
      | Some c \<Rightarrow>
          if c \<notin> set (cap_available now reg) then [''CAPABILITY_UNAVAILABLE:'' @ i]
          else reason_if (\<not> cc_permissions c \<subseteq> granted) (''PERMISSION:'' @ i))"

text \<open>\<open>registry.get(capability_id) if capability_id else None\<close> on a value of the metadata.\<close>

definition bound_card :: "'l capability_registry \<Rightarrow> pyval option \<Rightarrow> capability_card option res" where
  "bound_card reg v =
     (case v of
        None \<Rightarrow> Inr None
      | Some w \<Rightarrow>
          if \<not> py_truthy w then Inr None
          else if \<not> py_hashable w then Inl (TypeError ''unhashable type'')
          else Inr (if is_pstr w then cap_get (pstr_val w) reg else None))"

text \<open>\<open>Enum(value)\<close> of a metadata entry; whatever is not a member's value raises, which the code catches.\<close>

definition decode_entry :: "'e list \<Rightarrow> ('e \<Rightarrow> string) \<Rightarrow> pyval option \<Rightarrow> 'e option" where
  "decode_entry members val v =
     (case v of Some (PStr s) \<Rightarrow> (case enum_decode members val s of Inl _ \<Rightarrow> None | Inr x \<Rightarrow> Some x) | _ \<Rightarrow> None)"

definition binding_reasons :: "capability_card option \<Rightarrow> cognitive_action_type option \<Rightarrow> risk_class option \<Rightarrow> string \<Rightarrow> string list" where
  "binding_reasons crd action risk i =
     (case (action, risk) of
        (Some a, Some r) \<Rightarrow>
          (case crd of
             None \<Rightarrow> []
           | Some c \<Rightarrow> reason_if (a \<notin> cc_supported_actions c) (''ACTION_UNSUPPORTED:'' @ i)
               @ reason_if (risk_order r > risk_order (cc_risk_limit c)) (''RISK_LIMIT:'' @ i))
      | _ \<Rightarrow> [''SEMANTIC_METADATA:'' @ i])"

definition unit_reasons ::
  "'l capability_registry \<Rightarrow> string \<Rightarrow> string set \<Rightarrow> string list \<Rightarrow> computational_unit \<Rightarrow> string list res" where
  "unit_reasons reg tenant granted capability_ids u =
     (let i = uid_value (unit_id u); entry = map_of (unit_metadata u); cid = entry ''capability_id'' in
      case bound_card reg cid of
        Inl e \<Rightarrow> Inl e
      | Inr crd \<Rightarrow>
          (case py_set (case entry ''required_permissions'' of None \<Rightarrow> PList [] | Some v \<Rightarrow> v) of
             Inl e \<Rightarrow> Inl e
           | Inr needed \<Rightarrow>
               Inr (reason_if (entry ''tenant_id'' \<noteq> Some (PStr tenant)) (''TENANT_MISMATCH:'' @ i)
                 @ reason_if (input_schema (contract u) = [] \<or> output_schema (contract u) = []) (''SCHEMA_REQUIRED:'' @ i)
                 @ reason_if (case entry ''semantic_justification'' of None \<Rightarrow> True | Some v \<Rightarrow> \<not> py_truthy v)
                     (''JUSTIFICATION_REQUIRED:'' @ i)
                 @ reason_if (cid \<notin> (\<lambda>s. Some (PStr s)) ` set capability_ids) (''CAPABILITY_BINDING:'' @ i)
                 @ binding_reasons crd
                     (decode_entry cognitive_action_type_members cognitive_action_type_value (entry ''action_type''))
                     (decode_entry risk_class_members risk_class_value (entry ''risk_class'')) i
                 @ reason_if (\<not> list_all (\<lambda>v. is_pstr v \<and> pstr_val v \<in> granted) needed) (''UNIT_PERMISSION:'' @ i))))"

definition operation_reasons :: "string set \<Rightarrow> ir_operation \<Rightarrow> string list" where
  "operation_reasons declared op =
     reason_if (rationale op = []) ''OPERATION_RATIONALE_REQUIRED''
     @ reason_if (op_type op \<notin> {ADD_UNIT, CONNECT_UNITS}) (''OPERATION_NOT_SEMANTIC:'' @ operation_type_value (op_type op))
     @ (if op_type op = ADD_UNIT
        then (case p_unit (parameters op) of
                None \<Rightarrow> [''UNDECLARED_ADDED_UNIT'']
              | Some u \<Rightarrow> reason_if (uid_value (unit_id u) \<notin> declared) ''UNDECLARED_ADDED_UNIT'')
        else [])"

definition added_units :: "string set \<Rightarrow> ir_operation list \<Rightarrow> string set" where
  "added_units declared ops =
     declared \<inter> (\<lambda>op. uid_value (unit_id (the (p_unit (parameters op)))))
       ` {op \<in> set ops. op_type op = ADD_UNIT \<and> p_unit (parameters op) \<noteq> None}"

definition validate_semantic_candidate ::
  "semantic_graph_candidate \<Rightarrow> 'l capability_registry \<Rightarrow> int \<Rightarrow> string \<Rightarrow> string \<Rightarrow> real \<Rightarrow> string set \<Rightarrow> string \<Rightarrow> semantic_validation res" where
  "validate_semantic_candidate c reg now task tenant budget granted grade =
     (let declared = set (map (\<lambda>u. uid_value (unit_id u)) (sgc_units c)) in
      case map_res (unit_reasons reg tenant granted (sgc_capability_ids c)) (sgc_units c) of
        Inl e \<Rightarrow> Inl e
      | Inr rss \<Rightarrow>
          (let reasons = reason_if (sgc_task_id c \<noteq> task) ''TASK_MISMATCH''
                 @ reason_if (sgc_estimated_cost c > budget) ''COST_BUDGET''
                 @ reason_if (sgc_provenance_refs c = []) ''PROVENANCE_REQUIRED''
                 @ reason_if (isolation_or (- 1) grade < isolation_or 99 (sgc_required_isolation_grade c)) ''ISOLATION_GRADE''
                 @ concat (map (capability_reasons reg now granted) (sgc_capability_ids c))
                 @ concat rss
                 @ concat (map (operation_reasons declared) (sgc_operations c))
                 @ reason_if (added_units declared (sgc_operations c) \<noteq> declared) ''DECLARED_UNIT_OPERATION_MISMATCH''
           in Inr \<lparr>sv_valid = (reasons = []), sv_reason_codes = reasons\<rparr>))"

section \<open>Synthesis of candidates\<close>

record synthesis_request =
  syn_state :: cognitive_state
  syn_templates :: "semantic_unit_template list"
  syn_provenance_refs :: "string list"
  syn_available_budget :: real
  syn_granted_permissions :: "string set"
  syn_max_hypothesis_branches :: nat
  syn_verifier_needs :: "string list"
  syn_skill_template_ids :: "string list"

text \<open>The number of branches is a natural number, as the check of the constructor requires.\<close>

definition SynthesisRequest_post_init :: "synthesis_request \<Rightarrow> synthesis_request res" where
  "SynthesisRequest_post_init r =
     require (\<not> syn_available_budget r < 0) (ValueError ''synthesis budget and branch bound MUST be non-negative'') (
     require (syn_provenance_refs r \<noteq> []) (ValueError ''synthesis requires provenance references'') (Inr r))"

record semantic_payload =
  sp_task :: string
  sp_template :: string
  sp_version :: string
  sp_hypotheses :: "string list"
  sp_unknowns :: "string list"
  sp_verifiers :: "string list"

definition wanted_actions :: "synthesis_request \<Rightarrow> cognitive_action_type set" where
  "wanted_actions r =
     (let s = syn_state r in
      {CA_REASON} \<union> (if missing_information s \<noteq> [] then {CA_RETRIEVE} else {})
      \<union> (if syn_verifier_needs r \<noteq> [] \<or> cgs_answer_state_id s \<notin> {None, Some []} then {CA_VERIFY} else {})
      \<union> (if cgs_hypotheses s \<noteq> [] \<and> syn_max_hypothesis_branches r > 0 then {CA_OBSERVE_OR_TEST} else {}))"

definition branch_hypotheses :: "synthesis_request \<Rightarrow> hypothesis list" where
  "branch_hypotheses r = take (syn_max_hypothesis_branches r) (cgs_hypotheses (syn_state r))"

definition template_usable :: "'l capability_registry \<Rightarrow> int \<Rightarrow> synthesis_request \<Rightarrow> semantic_unit_template \<Rightarrow> bool" where
  "template_usable reg now r t \<longleftrightarrow>
     (case cap_get (sut_required_capability_id t) reg of
        None \<Rightarrow> False
      | Some c \<Rightarrow> c \<in> set (cap_available now reg) \<and> sut_action_type t \<in> cc_supported_actions c
          \<and> sut_permissions t \<subseteq> cc_permissions c \<and> \<not> risk_order (sut_risk_class t) > risk_order (cc_risk_limit c)
          \<and> \<not> risk_order (sut_risk_class t) > risk_order (pcx_risk_class (tsk_policy (cgs_task (syn_state r)))))"

definition payload_of :: "synthesis_request \<Rightarrow> semantic_unit_template \<Rightarrow> semantic_payload" where
  "payload_of r t =
     \<lparr>sp_task = tsk_task_id (cgs_task (syn_state r)), sp_template = sut_template_id t, sp_version = sut_version t,
      sp_hypotheses = (if sut_action_type t = CA_OBSERVE_OR_TEST then map hyp_hypothesis_id (branch_hypotheses r) else []),
      sp_unknowns = (if sut_action_type t = CA_RETRIEVE then missing_information (syn_state r) else []),
      sp_verifiers = (if sut_action_type t = CA_VERIFY then syn_verifier_needs r else [])\<rparr>"

definition justification :: "synthesis_request \<Rightarrow> semantic_unit_template \<Rightarrow> string" where
  "justification r t = sut_purpose t @ '' for '' @ normalize_text (gi_objective (tsk_goal (cgs_task (syn_state r))))"

definition predicted_evidence :: "cognitive_action_type \<Rightarrow> synthesis_request \<Rightarrow> string list" where
  "predicted_evidence action r =
     (if action = CA_RETRIEVE then map (\<lambda>i. ''resolve:'' @ i) (missing_information (syn_state r))
      else if action = CA_VERIFY
      then (if syn_verifier_needs r = [] then [''answer-verification''] else map (\<lambda>v. ''verifier-result:'' @ v) (syn_verifier_needs r))
      else if action = CA_OBSERVE_OR_TEST
      then (let os = concat (map hyp_predicted_observations (branch_hypotheses r)) in if os = [] then [''hypothesis-observation''] else os)
      else [''candidate-answer''])"

definition source_kind :: "cognitive_action_type \<Rightarrow> bool \<Rightarrow> string" where
  "source_kind action is_skill =
     (if action = CA_RETRIEVE then ''unknown'' else if action = CA_VERIFY then ''verifier''
      else if action = CA_OBSERVE_OR_TEST then ''hypothesis'' else if is_skill then ''skill'' else ''goal'')"

definition semantic_unit :: "synthesis_request \<Rightarrow> semantic_unit_template \<Rightarrow> string \<Rightarrow> unit_id \<Rightarrow> computational_unit" where
  "semantic_unit r t fp i =
     \<lparr>unit_id = i, unit_name = sut_purpose t, unit_structure = PRIMITIVE, visibility = INSPECTABLE, lifecycle = SPECIALIZED,
      contract = template_contract t, mutation_contract = MutationContract_default, constraints = [],
      unit_metadata =
        [(''semantic_template_id'', PStr (sut_template_id t)), (''semantic_template_version'', PStr (sut_version t)),
         (''semantic_fingerprint'', PStr fp), (''task_id'', PStr (tsk_task_id (cgs_task (syn_state r)))),
         (''tenant_id'', PStr (cgs_tenant (syn_state r))), (''action_type'', PStr (cognitive_action_type_value (sut_action_type t))),
         (''capability_id'', PStr (sut_required_capability_id t)),
         (''required_permissions'', PList (map PStr (sorted_list_of_set (sut_permissions t)))),
         (''risk_class'', PStr (risk_class_value (sut_risk_class t))),
         (''provenance_refs'', PList (map PStr (syn_provenance_refs r))), (''semantic_justification'', PStr (justification r t))],
      sub_units = []\<rparr>"

definition candidate_of :: "(semantic_payload \<Rightarrow> string) \<Rightarrow> synthesis_request \<Rightarrow> semantic_unit_template \<Rightarrow> semantic_graph_candidate res" where
  "candidate_of h r t =
     (let fp = h (payload_of r t) in
      case mk_UnitID (''sem_'' @ take 16 fp) of
        Inl e \<Rightarrow> Inl e
      | Inr i \<Rightarrow>
          (let u = semantic_unit r t fp i in
           SemanticGraphCandidate_post_init
             \<lparr>sgc_candidate_id = ''candidate:'' @ take 16 fp, sgc_task_id = tsk_task_id (cgs_task (syn_state r)),
              sgc_operations = [\<lparr>op_type = ADD_UNIT, parameters = no_params\<lparr>p_unit := Some u\<rparr>, rationale = justification r t\<rparr>],
              sgc_units = [u], sgc_semantic_justification = justification r t,
              sgc_predicted_evidence = predicted_evidence (sut_action_type t) r, sgc_provenance_refs = syn_provenance_refs r,
              sgc_capability_ids = [sut_required_capability_id t],
              sgc_source_kinds = [source_kind (sut_action_type t) (sut_template_id t \<in> set (syn_skill_template_ids r))],
              sgc_hypothesis_ids = (if sut_action_type t = CA_OBSERVE_OR_TEST then map hyp_hypothesis_id (branch_hypotheses r) else []),
              sgc_estimated_cost = (case map_of (sut_resource_limits t) ''cost'' of None \<Rightarrow> 0 | Some n \<Rightarrow> real_of_int n),
              sgc_required_isolation_grade = (if sut_side_effect_class t \<noteq> SE_NONE then ''I3_RECORDED_EXTERNALS'' else ''I1_GRAPH_ONLY''),
              sgc_semantic_fingerprint = fp\<rparr>))"

definition semantic_deduplicate :: "semantic_graph_candidate list \<Rightarrow> semantic_graph_candidate list" where
  "semantic_deduplicate cs =
     map snd (sort_key fst
       (fold (\<lambda>c d. case map_of d (sgc_semantic_fingerprint c) of
                      None \<Rightarrow> dict_set (sgc_semantic_fingerprint c) c d
                    | Some existing \<Rightarrow>
                        if sgc_candidate_id c < sgc_candidate_id existing then dict_set (sgc_semantic_fingerprint c) c d else d) cs []))"

definition synthesize ::
  "(semantic_payload \<Rightarrow> string) \<Rightarrow> 'l capability_registry \<Rightarrow> int \<Rightarrow> synthesis_request \<Rightarrow> semantic_graph_candidate list res" where
  "synthesize h reg now r =
     (let templates = filter (\<lambda>t. sut_action_type t \<in> wanted_actions r \<or> sut_template_id t \<in> set (syn_skill_template_ids r)) (syn_templates r)
      in case map_res (candidate_of h r) (filter (template_usable reg now r) templates) of
           Inl e \<Rightarrow> Inl e
         | Inr cs \<Rightarrow> Inr (semantic_deduplicate cs))"

section \<open>Experiments\<close>

record experiment_selection =
  xs_selected :: "experiment_proposal option"
  xs_rejected :: "(string \<times> string) list"
  xs_alternatives :: "experiment_proposal list"

definition experiment_refusal :: "real \<Rightarrow> string \<Rightarrow> experiment_proposal \<Rightarrow> string option" where
  "experiment_refusal budget grade p =
     (if xp_cost p > budget then Some ''COST_BUDGET''
      else if isolation_or (- 1) grade < isolation_or 99 (xp_required_isolation_grade p) then Some ''ISOLATION_GRADE''
      else if \<not> identifiable (xp_causal_validity p) then Some ''NON_IDENTIFIABLE'' else None)"

definition experiment_key :: "experiment_proposal \<Rightarrow> real \<times> string" where
  "experiment_key p =
     (- ((xp_expected_information_gain p + xp_expected_decision_value p) / max (xp_cost p + xp_risk p) (1 / 10 ^ 12)), xp_experiment_id p)"

definition select_experiment :: "experiment_proposal list \<Rightarrow> real \<Rightarrow> string \<Rightarrow> experiment_selection" where
  "select_experiment ps budget grade =
     (let ordered = sort_key experiment_key (filter (\<lambda>p. experiment_refusal budget grade p = None) ps)
      in \<lparr>xs_selected = (case ordered of [] \<Rightarrow> None | p # _ \<Rightarrow> Some p),
          xs_rejected = List.map_filter (\<lambda>p. map_option (\<lambda>why. (xp_experiment_id p, why)) (experiment_refusal budget grade p)) ps,
          xs_alternatives = drop 1 ordered\<rparr>)"

definition assess_observation :: "experiment_proposal \<Rightarrow> string \<Rightarrow> string \<Rightarrow> experiment_outcome" where
  "assess_observation p observation evidence_ref =
     (let n = normalize_text observation; matched = find (\<lambda>q. normalize_text q = n) (xp_predicted_observations p)
      in \<lparr>xo_experiment_id = xp_experiment_id p, xo_hypothesis_id = xp_hypothesis_id p, xo_observation = observation,
          xo_status = (if \<not> identifiable (xp_causal_validity p) then EO_NON_IDENTIFIABLE
                       else if normalize_text (xp_falsifier p) = n then EO_FALSIFIED
                       else if matched \<noteq> None then EO_SUPPORTED else EO_INCONCLUSIVE),
          xo_matched_prediction = matched, xo_causal_validity = xp_causal_validity p, xo_evidence_ref = evidence_ref\<rparr>)"

section \<open>Adding a plain unit\<close>

lemma wf_add_plain_unit:
  assumes "wf_graph g" and "unit_wf u" and "ports (contract u) = []" and "uid_value (unit_id u) \<notin> fst ` set (units g)"
  shows "wf_graph (g\<lparr>units := units g @ [(uid_value (unit_id u), u)]\<rparr>)"
proof -
  have "map_of (units g @ [(uid_value (unit_id u), u)]) k = Some v" if "map_of (units g) k = Some v" for k v
    using that by (simp add: map_add_def)
  then show ?thesis using assms(1-3) unfolding wf_graph_def by fastforce
qed

lemma plain_unit_commits:
  assumes "identity_inv g" and "wf_graph g" and "unit_wf u" and "ports (contract u) = []"
    and new: "uid_value (unit_id u) \<notin> fst ` set (units g)" "uid_value (unit_id u) \<notin> retired_ids g"
  shows "abstract_transaction g [\<lparr>op_type = ADD_UNIT, parameters = no_params\<lparr>p_unit := Some u\<rparr>, rationale = w\<rparr>] =
    Some (commit_graph g (g\<lparr>units := units g @ [(uid_value (unit_id u), u)]\<rparr>))"
proof -
  let ?op = "\<lparr>op_type = ADD_UNIT, parameters = no_params\<lparr>p_unit := Some u\<rparr>, rationale = w\<rparr>"
  let ?g = "g\<lparr>units := units g @ [(uid_value (unit_id u), u)]\<rparr>"
  from assms(1) obtain xs where "retired_values g = Inr (map PStr xs)" "retired_ids g = set xs"
    by (auto simp: identity_inv_def elim: retired_values_wf)
  moreover have "dict_set (uid_value (unit_id u)) u (units g) = units g @ [(uid_value (unit_id u), u)]"
    using new(1) by (rule dict_set_new)
  ultimately have "apply_operation g ?op = done_with ?g (InvRemoveUnit (unit_id u))"
    using new by (auto simp: apply_operation_def op_validate_def apply_add_unit_def add_unit_def)
  moreover have "wf_graph ?g" using assms(2-4) new(1) by (rule wf_add_plain_unit)
  then have "wf_graph (?g\<lparr>version := v\<rparr>)" for v by (simp add: wf_graph_def)
  ultimately show ?thesis by (simp add: abstract_transaction_def done_with_def commit_graph_def)
qed

section \<open>What is synthesised\<close>

lemma reason_if_simps [simp]: "reason_if b s = [] \<longleftrightarrow> \<not> b" "reason_if False s = []"
  by (simp_all add: reason_if_def)

lemma dedup_subset: "set (semantic_deduplicate cs) \<subseteq> set cs"
proof -
  let ?step = "\<lambda>c d. case map_of d (sgc_semantic_fingerprint c) of
      None \<Rightarrow> dict_set (sgc_semantic_fingerprint c) c d
    | Some existing \<Rightarrow> if sgc_candidate_id c < sgc_candidate_id existing then dict_set (sgc_semantic_fingerprint c) c d else d"
  have "snd ` set (fold ?step cs d) \<subseteq> set cs \<union> snd ` set d" for d
  proof (induction cs arbitrary: d)
    case (Cons c cs)
    have "snd ` set (dict_set (sgc_semantic_fingerprint c) c d) \<subseteq> insert c (snd ` set d)"
      using set_dict_set_subset [of "sgc_semantic_fingerprint c" c d] by auto
    then have "snd ` set (?step c d) \<subseteq> insert c (snd ` set d)" by (simp split: option.split) blast
    from order_trans [OF Cons.IH [of "?step c d"] Un_mono [OF order_refl this]] show ?case by simp
  qed simp
  from this [of "[]"] show ?thesis by (simp add: semantic_deduplicate_def)
qed

lemma map_res_member: "map_res f xs = Inr ys \<Longrightarrow> y \<in> set ys \<Longrightarrow> \<exists>x\<in>set xs. f x = Inr y"
  by (induction xs arbitrary: ys) (auto split: sum.splits)

lemma synthesized_from:
  assumes "synthesize h reg now r = Inr cs" and "c \<in> set cs"
  obtains t where "t \<in> set (syn_templates r)" "template_usable reg now r t" "candidate_of h r t = Inr c"
proof -
  from assms(1) obtain ds where ds: "map_res (candidate_of h r) (filter (template_usable reg now r)
      (filter (\<lambda>t. sut_action_type t \<in> wanted_actions r \<or> sut_template_id t \<in> set (syn_skill_template_ids r)) (syn_templates r))) = Inr ds"
    and "cs = semantic_deduplicate ds" by (auto simp: synthesize_def Let_def split: sum.splits)
  with assms(2) dedup_subset [of ds] have "c \<in> set ds" by auto
  from map_res_member [OF ds this] show ?thesis using that by auto
qed

lemma candidate_of_Inr:
  assumes "candidate_of h r t = Inr c"
  obtains i where "sgc_units c = [semantic_unit r t (h (payload_of r t)) i]"
    "sgc_operations c = [\<lparr>op_type = ADD_UNIT, parameters = no_params\<lparr>p_unit := Some (semantic_unit r t (h (payload_of r t)) i)\<rparr>,
       rationale = justification r t\<rparr>]"
    "sgc_task_id c = tsk_task_id (cgs_task (syn_state r))" "sgc_capability_ids c = [sut_required_capability_id t]"
    "sgc_provenance_refs c = syn_provenance_refs r" "sgc_provenance_refs c \<noteq> []"
  using assms by (auto simp: candidate_of_def SemanticGraphCandidate_post_init_def Let_def split: sum.splits)

lemma semantic_unit_simps [simp]:
  "unit_id (semantic_unit r t fp i) = i" "contract (semantic_unit r t fp i) = template_contract t"
  "unit_wf (semantic_unit r t fp i)" "ports (contract (semantic_unit r t fp i)) = []"
  by (simp_all add: semantic_unit_def template_contract_def unit_wf_def UnitContract_default_def SideEffectContract_default_def)

lemma added_single:
  "added_units {uid_value (unit_id u)} [\<lparr>op_type = ADD_UNIT, parameters = no_params\<lparr>p_unit := Some u\<rparr>, rationale = w\<rparr>] = {uid_value (unit_id u)}"
  by (force simp: added_units_def)

lemma justification_nonempty [simp]: "justification r t \<noteq> []"
  by (simp add: justification_def)

lemma semantic_unit_accepted:
  assumes "template_usable reg now r t" and "sut_input_schema t \<noteq> []" and "sut_output_schema t \<noteq> []"
    and "cap_get (sut_required_capability_id t) reg = Some k" and "cc_permissions k \<subseteq> granted"
  shows "unit_reasons reg (cgs_tenant (syn_state r)) granted [sut_required_capability_id t] (semantic_unit r t fp i) = Inr []"
proof -
  have k: "sut_action_type t \<in> cc_supported_actions k" "sut_permissions t \<subseteq> granted" "\<not> risk_order (sut_risk_class t) > risk_order (cc_risk_limit k)"
    using assms by (auto simp: template_usable_def)
  have "set (sorted_list_of_set (sut_permissions t)) \<subseteq> granted"
    using k(2) by (cases "finite (sut_permissions t)") auto
  moreover have "bound_card reg (Some (PStr (sut_required_capability_id t))) \<in> {Inr None, Inr (Some k)}"
    using assms(4) by (simp add: bound_card_def)
  ultimately show ?thesis
    using k(1,3) assms(2,3)
    by (auto simp: unit_reasons_def semantic_unit_def Let_def template_contract_def binding_reasons_def decode_entry_def list_all_iff)
qed

text \<open>
  Synthesis is sound: every synthesised candidate is accepted by the validator for its task and
  tenant, within a budget that covers it, an isolation that suffices and permissions that include
  those of its capability, and its operations commit on every well-formed graph that has not used
  its identifier, where they add exactly its unit.
\<close>

lemma synthesized_candidates_apply:
  assumes "synthesize h reg now r = Inr cs" and "c \<in> set cs"
    and "list_all (\<lambda>t. SemanticUnitTemplate_post_init t = Inr t) (syn_templates r)"
    and "sgc_estimated_cost c \<le> budget" and "isolation_or 99 (sgc_required_isolation_grade c) \<le> isolation_or (- 1) grade"
    and "\<Union> (cc_permissions ` set (cap_available now reg)) \<subseteq> granted"
    and "identity_inv g" and "wf_graph g"
    and "(\<lambda>u. uid_value (unit_id u)) ` set (sgc_units c) \<inter> (fst ` set (units g) \<union> retired_ids g) = {}"
  shows "validate_semantic_candidate c reg now (tsk_task_id (cgs_task (syn_state r))) (cgs_tenant (syn_state r)) budget granted grade
      = Inr \<lparr>sv_valid = True, sv_reason_codes = []\<rparr>
    \<and> (\<exists>k. abstract_transaction g (sgc_operations c) = Some k \<and> wf_graph k
        \<and> units k = units g @ map (\<lambda>u. (uid_value (unit_id u), u)) (sgc_units c) \<and> edges k = edges g)"
proof -
  from assms(1,2) obtain t where t: "t \<in> set (syn_templates r)" "template_usable reg now r t" "candidate_of h r t = Inr c"
    by (rule synthesized_from)
  from t(3) obtain i where c: "sgc_units c = [semantic_unit r t (h (payload_of r t)) i]"
    "sgc_operations c = [\<lparr>op_type = ADD_UNIT, parameters = no_params\<lparr>p_unit := Some (semantic_unit r t (h (payload_of r t)) i)\<rparr>,
       rationale = justification r t\<rparr>]"
    "sgc_task_id c = tsk_task_id (cgs_task (syn_state r))" "sgc_capability_ids c = [sut_required_capability_id t]"
    "sgc_provenance_refs c \<noteq> []" by (rule candidate_of_Inr)
  let ?u = "semantic_unit r t (h (payload_of r t)) i"
  from t(2) obtain k where k: "cap_get (sut_required_capability_id t) reg = Some k" "k \<in> set (cap_available now reg)"
    by (auto simp: template_usable_def split: option.splits)
  then have perm: "cc_permissions k \<subseteq> granted" using assms(6) by blast
  have "sut_input_schema t \<noteq> []" "sut_output_schema t \<noteq> []"
    using assms(3) t(1) by (auto simp: list_all_iff SemanticUnitTemplate_post_init_def)
  from semantic_unit_accepted [OF t(2) this k(1) perm]
  have "validate_semantic_candidate c reg now (tsk_task_id (cgs_task (syn_state r))) (cgs_tenant (syn_state r)) budget granted grade
      = Inr \<lparr>sv_valid = True, sv_reason_codes = []\<rparr>"
    using c k perm assms(4,5)
      added_single [of ?u "justification r t"]
    by (simp add: validate_semantic_candidate_def Let_def capability_reasons_def operation_reasons_def)
  moreover have "uid_value (unit_id ?u) \<notin> fst ` set (units g)" "uid_value (unit_id ?u) \<notin> retired_ids g"
    using assms(9) by (auto simp: c(1))
  from plain_unit_commits [OF assms(7,8) semantic_unit_simps(3,4) this]
  have "abstract_transaction g (sgc_operations c) = Some (commit_graph g (g\<lparr>units := units g @ [(uid_value (unit_id ?u), ?u)]\<rparr>))"
    by (simp add: c(2))
  moreover from abstract_transaction_inv [OF assms(7) this]
  have "wf_graph (commit_graph g (g\<lparr>units := units g @ [(uid_value (unit_id ?u), ?u)]\<rparr>))" by blast
  ultimately show ?thesis by (simp add: c(1) commit_graph_def)
qed

definition demo_registry :: "nat capability_registry" where
  "demo_registry = \<lparr>cr_cards = [(''c'', demo_card)], cr_disabled = {}, cr_change_listeners = []\<rparr>"

definition demo_template :: semantic_unit_template where
  "demo_template = \<lparr>sut_template_id = ''t'', sut_version = ''1'', sut_purpose = ''p'', sut_action_type = CA_REASON,
     sut_input_schema = [(''i'', PNone)], sut_output_schema = [(''o'', PNone)], sut_required_capability_id = ''c'',
     sut_permissions = {''read''}, sut_preconditions = [], sut_postconditions = [], sut_resource_limits = [(''cost'', 2)],
     sut_risk_class = RISK_LOW, sut_side_effect_class = SE_NONE\<rparr>"

definition demo_request :: synthesis_request where
  "demo_request = \<lparr>syn_state = demo_cognitive_state, syn_templates = [demo_template], syn_provenance_refs = [''r''],
     syn_available_budget = 5, syn_granted_permissions = {''read''}, syn_max_hypothesis_branches = 3, syn_verifier_needs = [],
     syn_skill_template_ids = []\<rparr>"

lemma demo_usable: "template_usable demo_registry 8 demo_request demo_template"
  by (simp add: template_usable_def demo_registry_def demo_request_def demo_template_def cap_get_def cap_available_def cap_all_def
      card_available_def is_expired_def demo_card_def demo_cognitive_state_def demo_task_spec_def)

lemma demo_id: "mk_UnitID (''sem_'' @ take 16 ''f'') = Inr (UnitID ''sem_f'')"
  by code_simp

lemma demo_synthesis:
  obtains c where "synthesize (\<lambda>_. ''f'') demo_registry 8 demo_request = Inr [c]"
    "sgc_units c = [semantic_unit demo_request demo_template ''f'' (UnitID ''sem_f'')]" "sgc_estimated_cost c = 2"
    "sgc_required_isolation_grade c = ''I1_GRAPH_ONLY''"
proof -
  obtain c where c: "candidate_of (\<lambda>_. ''f'') demo_request demo_template = Inr c"
    "sgc_units c = [semantic_unit demo_request demo_template ''f'' (UnitID ''sem_f'')]" "sgc_estimated_cost c = 2"
    "sgc_required_isolation_grade c = ''I1_GRAPH_ONLY''"
    using demo_id
    by (simp add: candidate_of_def Let_def SemanticGraphCandidate_post_init_def predicted_evidence_def demo_template_def demo_request_def
        demo_cognitive_state_def demo_task_spec_def)
  have "filter (\<lambda>t. sut_action_type t \<in> wanted_actions demo_request \<or> sut_template_id t \<in> set (syn_skill_template_ids demo_request))
      (syn_templates demo_request) = [demo_template]"
    by (simp add: demo_request_def demo_template_def wanted_actions_def Let_def)
  with c(1) demo_usable have "synthesize (\<lambda>_. ''f'') demo_registry 8 demo_request = Inr [c]"
    by (simp add: synthesize_def semantic_deduplicate_def)
  with c show ?thesis by (intro that)
qed

lemma demo_request_ok:
  "list_all (\<lambda>t. SemanticUnitTemplate_post_init t = Inr t) (syn_templates demo_request)"
  "\<Union> (cc_permissions ` set (cap_available 8 demo_registry)) \<subseteq> {''read''}"
  "isolation_or 99 ''I1_GRAPH_ONLY'' \<le> isolation_or (- 1) ''I2_PROCESS_LOCAL''"
  "(\<lambda>u. uid_value (unit_id u)) ` set [semantic_unit demo_request demo_template ''f'' (UnitID ''sem_f'')]
     \<inter> (fst ` set (units demo_graph) \<union> retired_ids demo_graph) = {}"
proof -
  show "isolation_or 99 ''I1_GRAPH_ONLY'' \<le> isolation_or (- 1) ''I2_PROCESS_LOCAL''" by code_simp
qed (simp_all add: demo_request_def demo_template_def SemanticUnitTemplate_post_init_def cap_available_def cap_all_def demo_registry_def
    demo_card_def retired_ids_def demo_defs)

text \<open>A selected experiment is feasible and of the best value for its cost; nothing is selected only if nothing is feasible.\<close>

lemma experiment_selected_best:
  "case xs_selected (select_experiment ps budget grade) of
     None \<Rightarrow> \<forall>p\<in>set ps. experiment_refusal budget grade p \<noteq> None
   | Some p \<Rightarrow> p \<in> set ps \<and> experiment_refusal budget grade p = None
       \<and> (\<forall>q\<in>set ps. experiment_refusal budget grade q = None \<longrightarrow> experiment_key p \<le> experiment_key q)"
proof -
  let ?f = "filter (\<lambda>p. experiment_refusal budget grade p = None) ps"
  have m: "q \<in> set (sort_key experiment_key ?f) \<longleftrightarrow> q \<in> set ps \<and> experiment_refusal budget grade q = None" for q by simp
  show ?thesis
  proof (cases "sort_key experiment_key ?f")
    case Nil
    with m show ?thesis by (simp add: select_experiment_def)
  next
    case (Cons p qs)
    have "sorted (map experiment_key (p # qs))" unfolding Cons [symmetric] by simp
    then have "experiment_key p \<le> experiment_key q" if "q \<in> set (p # qs)" for q using that by auto
    with m [unfolded Cons] have "p \<in> set ps \<and> experiment_refusal budget grade p = None
        \<and> (\<forall>q\<in>set ps. experiment_refusal budget grade q = None \<longrightarrow> experiment_key p \<le> experiment_key q)"
      by (metis list.set_intros(1))
    then show ?thesis by (simp add: select_experiment_def Cons)
  qed
qed

text \<open>
  A skill template that retrieves, used while no information is missing, predicts no evidence: its
  candidate is refused by the constructor, and the exception ends the whole synthesis.
\<close>

lemma retrieval_skill_raises:
  assumes "sut_action_type t = CA_RETRIEVE" and "missing_information (syn_state r) = []"
    and "t \<in> set (syn_templates r)" and "sut_template_id t \<in> set (syn_skill_template_ids r)" and "template_usable reg now r t"
  shows "\<not> is_ok (synthesize h reg now r)"
proof -
  have "\<not> is_ok (candidate_of h r t)"
    using assms(1,2) by (auto simp: candidate_of_def Let_def predicted_evidence_def SemanticGraphCandidate_post_init_def is_ok_def split: sum.splits)
  moreover have "x \<in> set xs \<Longrightarrow> map_res f xs = Inr ys \<Longrightarrow> is_ok (f x)" for f :: "semantic_unit_template \<Rightarrow> semantic_graph_candidate res" and x xs ys
    by (induction xs arbitrary: ys) (auto simp: is_ok_def split: sum.splits)
  moreover have "t \<in> set (filter (template_usable reg now r)
      (filter (\<lambda>t. sut_action_type t \<in> wanted_actions r \<or> sut_template_id t \<in> set (syn_skill_template_ids r)) (syn_templates r)))"
    using assms(3-5) by simp
  ultimately show ?thesis unfolding synthesize_def Let_def is_ok_def
    by (cases "map_res (candidate_of h r) (filter (template_usable reg now r)
      (filter (\<lambda>t. sut_action_type t \<in> wanted_actions r \<or> sut_template_id t \<in> set (syn_skill_template_ids r)) (syn_templates r)))")
      (simp, blast)
qed

text \<open>The unit of an effectful template declares no side effects: the class stays with the candidate's isolation grade.\<close>

lemma effects_not_declared: "classification (side_effects (contract (semantic_unit r t fp i))) = SE_NONE"
  by (simp add: template_contract_def UnitContract_default_def SideEffectContract_default_def)

end
