(* ===== verification/Enterprise.thy ===== *)
theory Enterprise
  imports Py_Library
begin

text \<open>
  The enterprise controls (\<open>enterprise/*.py\<close>): workload identities and their authorisation, quotas,
  kill switches, the redacted audit log with retention and legal hold, data governance,
  service-level objectives, stable policy inputs and signed artifacts. Strings are characters of
  code points below 256. The costs of a quota are floating-point values with their infinities
  and NaN; finite values are added exactly. SHA-256 and the signature check are parameters.
\<close>

declare map_of_eq_Some_iff [simp del] Some_eq_map_of_iff [simp del]

section \<open>Identities and authorisation\<close>

record workload_identity =
  wi_subject :: string
  wi_tenant_id :: string
  wi_roles :: "string set"
  wi_attributes :: "(string, string) dict"
  wi_issued_at_ns :: int
  wi_expires_at_ns :: int
  wi_credential_ref :: string

definition WorkloadIdentity_post_init :: "workload_identity \<Rightarrow> workload_identity res" where
  "WorkloadIdentity_post_init i =
     require (wi_subject i \<noteq> [] \<and> wi_tenant_id i \<noteq> [] \<and> wi_credential_ref i \<noteq> [])
       (ValueError ''workload identity fields MUST be non-empty'')
     (require (\<not> wi_expires_at_ns i \<le> wi_issued_at_ns i)
       (ValueError ''workload identity expiry MUST follow issuance'') (Inr i))"

definition valid_at :: "workload_identity \<Rightarrow> int \<Rightarrow> bool" where
  "valid_at i now \<longleftrightarrow> wi_issued_at_ns i \<le> now \<and> now < wi_expires_at_ns i"

record authorization_request =
  arq_tenant_id :: string
  arq_action :: string
  arq_resource :: string
  arq_required_roles :: "string set"
  arq_required_attributes :: "(string, string) dict"
  arq_high_impact :: bool

record approval =
  ap_approval_id :: string
  ap_tenant_id :: string
  ap_action :: string
  ap_resource :: string
  ap_approver_subject :: string
  ap_expires_at_ns :: int
  ap_approver_roles :: "string set"

definition approval_applies :: "workload_identity \<Rightarrow> authorization_request \<Rightarrow> int \<Rightarrow> approval \<Rightarrow> bool" where
  "approval_applies i r now a \<longleftrightarrow>
     ap_tenant_id a = arq_tenant_id r \<and> ap_action a = arq_action r \<and> ap_resource a = arq_resource r
     \<and> ap_approver_subject a \<noteq> wi_subject i \<and> ''approver'' \<in> ap_approver_roles a \<and> now < ap_expires_at_ns a"

definition authorize ::
  "workload_identity \<Rightarrow> authorization_request \<Rightarrow> int \<Rightarrow> approval option \<Rightarrow> bool \<times> string list" where
  "authorize i r now a =
     (let reasons =
        (if \<not> valid_at i now then [''IDENTITY_EXPIRED''] else [])
        @ (if wi_tenant_id i \<noteq> arq_tenant_id r then [''TENANT_MISMATCH''] else [])
        @ (if \<not> arq_required_roles r \<subseteq> wi_roles i then [''ROLE_MISSING''] else [])
        @ (if list_ex (\<lambda>(k, v). map_of (wi_attributes i) k \<noteq> Some v) (arq_required_attributes r)
           then [''ATTRIBUTE_MISMATCH''] else [])
        @ (if arq_high_impact r \<and> \<not> (case a of None \<Rightarrow> False | Some ap \<Rightarrow> approval_applies i r now ap)
           then [''INDEPENDENT_APPROVAL_REQUIRED''] else [])
      in (reasons = [], reasons))"

section \<open>Quotas\<close>

datatype pyfloat = NaN | NegInf | PosInf | Fin real

fun flt_less :: "pyfloat \<Rightarrow> pyfloat \<Rightarrow> bool" where
  "flt_less (Fin x) (Fin y) \<longleftrightarrow> x < y"
| "flt_less NegInf (Fin _) \<longleftrightarrow> True"
| "flt_less NegInf PosInf \<longleftrightarrow> True"
| "flt_less (Fin _) PosInf \<longleftrightarrow> True"
| "flt_less _ _ \<longleftrightarrow> False"

fun flt_add :: "pyfloat \<Rightarrow> pyfloat \<Rightarrow> pyfloat" where
  "flt_add (Fin x) (Fin y) = Fin (x + y)"
| "flt_add NaN _ = NaN"
| "flt_add _ NaN = NaN"
| "flt_add NegInf PosInf = NaN"
| "flt_add PosInf NegInf = NaN"
| "flt_add NegInf _ = NegInf"
| "flt_add PosInf _ = PosInf"
| "flt_add _ NegInf = NegInf"
| "flt_add _ PosInf = PosInf"

record tenant_quota =
  tq_maximum_cost :: pyfloat
  tq_maximum_actions :: int
  tq_used_cost :: pyfloat
  tq_used_actions :: int

definition new_quota :: "pyfloat \<Rightarrow> int \<Rightarrow> tenant_quota" where
  "new_quota cost actions = \<lparr>tq_maximum_cost = cost, tq_maximum_actions = actions, tq_used_cost = Fin 0, tq_used_actions = 0\<rparr>"

definition consume :: "tenant_quota \<Rightarrow> pyfloat \<Rightarrow> tenant_quota res" where
  "consume q cost =
     require (\<not> (flt_less cost (Fin 0) \<or> flt_less (tq_maximum_cost q) (flt_add (tq_used_cost q) cost)
                 \<or> tq_used_actions q + 1 > tq_maximum_actions q))
       (PermissionError ''tenant quota exceeded'')
       (Inr (q\<lparr>tq_used_cost := flt_add (tq_used_cost q) cost, tq_used_actions := tq_used_actions q + 1\<rparr>))"

section \<open>Kill switches\<close>

record kill_switches =
  ks_global_disabled :: bool
  ks_tenants :: "string set"
  ks_capabilities :: "string set"
  ks_models :: "string set"
  ks_skills :: "string set"
  ks_actions :: "string set"

definition no_switches :: kill_switches where
  "no_switches = \<lparr>ks_global_disabled = False, ks_tenants = {}, ks_capabilities = {}, ks_models = {}, ks_skills = {}, ks_actions = {}\<rparr>"

definition permitted :: "kill_switches \<Rightarrow> string \<Rightarrow> string \<Rightarrow> string \<Rightarrow> string \<Rightarrow> string \<Rightarrow> bool" where
  "permitted k tenant capability model skill action \<longleftrightarrow>
     \<not> (ks_global_disabled k \<or> tenant \<in> ks_tenants k \<or> capability \<in> ks_capabilities k \<or> model \<in> ks_models k
        \<or> skill \<in> ks_skills k \<or> action \<in> ks_actions k)"

definition ks_snapshot ::
  "kill_switches \<Rightarrow> bool \<times> string set \<times> string set \<times> string set \<times> string set \<times> string set" where
  "ks_snapshot k = (ks_global_disabled k, ks_tenants k, ks_capabilities k, ks_models k, ks_skills k, ks_actions k)"

fun ks_restore ::
  "bool \<times> string set \<times> string set \<times> string set \<times> string set \<times> string set \<Rightarrow> kill_switches \<Rightarrow> kill_switches" where
  "ks_restore (g, ts, cs, ms, ss, acts) k =
     k\<lparr>ks_global_disabled := g, ks_tenants := ts, ks_capabilities := cs, ks_models := ms, ks_skills := ss, ks_actions := acts\<rparr>"

section \<open>Redaction\<close>

text \<open>The two regular expressions, matched without regard to case.\<close>

definition fold_letter :: "char \<Rightarrow> char" where
  "fold_letter c = (let n = (of_char c :: nat) in if 65 \<le> n \<and> n \<le> 90 then char_of (n + 32) else c)"

definition word_char :: "char \<Rightarrow> bool" where
  "word_char c \<longleftrightarrow> (let n = (of_char c :: nat) in
     (48 \<le> n \<and> n \<le> 57) \<or> (65 \<le> n \<and> n \<le> 90) \<or> n = 95 \<or> (97 \<le> n \<and> n \<le> 122)
     \<or> n \<in> {170, 178, 179, 181, 185, 186, 188, 189, 190} \<or> (192 \<le> n \<and> n \<noteq> 215 \<and> n \<noteq> 247))"

definition secret_key :: "string \<Rightarrow> bool" where
  "secret_key key \<longleftrightarrow> (let k = map fold_letter key in
     contains_text ''secret'' k \<or> contains_text ''token'' k \<or> contains_text ''password'' k \<or> contains_text ''credential'' k
     \<or> contains_text ''authorization'' k)"

text \<open>\<open>bearer\s+\S+\<close>, and a keyword followed by \<open>\s*[:=]\s*\S+\<close>, at the start of a text in lower case.\<close>

definition bearer_here :: "string \<Rightarrow> bool" where
  "bearer_here s \<longleftrightarrow> starts ''bearer'' s \<and>
     (case drop 6 s of [] \<Rightarrow> False | c # cs \<Rightarrow> py_isspace c \<and> dropWhile py_isspace cs \<noteq> [])"

definition assigned_after :: "string \<Rightarrow> bool" where
  "assigned_after s \<longleftrightarrow>
     (case dropWhile py_isspace s of [] \<Rightarrow> False | c # cs \<Rightarrow> c \<in> {CHR '':'', CHR ''=''} \<and> dropWhile py_isspace cs \<noteq> [])"

definition assignment_here :: "string \<Rightarrow> bool" where
  "assignment_here s \<longleftrightarrow>
     list_ex (\<lambda>w. starts w s \<and> assigned_after (drop (length w) s))
       [''api_key'', ''api-key'', ''apikey'', ''token'', ''password'', ''secret'']"

fun secret_from :: "bool \<Rightarrow> string \<Rightarrow> bool" where
  "secret_from after_word [] \<longleftrightarrow> False"
| "secret_from after_word (c # cs) \<longleftrightarrow>
     (\<not> after_word \<and> (bearer_here (c # cs) \<or> assignment_here (c # cs))) \<or> secret_from (word_char c) cs"

definition secret_value :: "string \<Rightarrow> bool" where
  "secret_value s \<longleftrightarrow> secret_from False (map fold_letter s)"

definition redacted_mark :: pyval where
  "redacted_mark = PStr ''[REDACTED]''"

function redact_telemetry :: "pyval \<Rightarrow> pyval" where
  "redact_telemetry (PDict kvs) =
     PDict (map (\<lambda>kv. (fst kv, if secret_key (fst kv) then redacted_mark else redact_telemetry (snd kv))) kvs)"
| "redact_telemetry (PList vs) = PList (map redact_telemetry vs)"
| "redact_telemetry (PStr s) = (if secret_value s then redacted_mark else PStr s)"
| "redact_telemetry PNone = PNone"
| "redact_telemetry (PBool b) = PBool b"
| "redact_telemetry (PInt i) = PInt i"
  by pat_completeness auto

termination
  by (relation "measure size") (auto simp: snd_size_pyval elem_size_pyval)

section \<open>The audit log\<close>

record audit_record =
  au_record_id :: string
  au_tenant_id :: string
  au_event :: string
  au_payload :: "(string \<times> pyval) list"
  au_created_at_ns :: int
  au_retain_until_ns :: int
  au_legal_hold :: bool

type_synonym audit_log = "(string \<times> string, audit_record) dict"

text \<open>\<open>redact_telemetry\<close> of a dictionary is a dictionary.\<close>

fun dict_items :: "pyval \<Rightarrow> (string \<times> pyval) list" where
  "dict_items (PDict kvs) = kvs"
| "dict_items _ = []"

definition audit_append :: "audit_record \<Rightarrow> audit_log \<Rightarrow> audit_log res" where
  "audit_append r lg =
     require ((au_tenant_id r, au_record_id r) \<notin> fst ` set lg) (ValueError ''audit record is immutable'')
       (Inr (dict_set (au_tenant_id r, au_record_id r)
               (r\<lparr>au_payload := dict_items (redact_telemetry (PDict (au_payload r)))\<rparr>) lg))"

definition purgeable :: "int \<Rightarrow> audit_record \<Rightarrow> bool" where
  "purgeable now r \<longleftrightarrow> \<not> au_legal_hold r \<and> au_retain_until_ns r \<le> now"

fun purge_loop :: "int \<Rightarrow> audit_log \<Rightarrow> string list \<Rightarrow> audit_log \<Rightarrow> string list \<times> audit_log" where
  "purge_loop now [] removed lg = (removed, lg)"
| "purge_loop now ((k, r) # rest) removed lg =
     (if purgeable now r then purge_loop now rest (removed @ [au_record_id r]) (dict_pop k lg)
      else purge_loop now rest removed lg)"

definition audit_purge :: "int \<Rightarrow> audit_log \<Rightarrow> string list \<times> audit_log" where
  "audit_purge now lg = (case purge_loop now lg [] lg of (removed, lg') \<Rightarrow> (sort removed, lg'))"

definition audit_records :: "string \<Rightarrow> audit_log \<Rightarrow> audit_record list" where
  "audit_records tenant lg = map snd (filter (\<lambda>(k, _). fst k = tenant) (sort_key fst lg))"

definition audit_snapshot :: "audit_log \<Rightarrow> audit_log" where
  "audit_snapshot lg = lg"

definition audit_restore :: "audit_log \<Rightarrow> audit_log \<Rightarrow> audit_log" where
  "audit_restore state lg = state"

section \<open>Data governance\<close>

record data_asset =
  da_asset_id :: string
  da_tenant_id :: string
  da_residency :: string
  da_key_version :: string
  da_legal_hold :: bool
  da_deleted :: bool

type_synonym asset_table = "(string \<times> string, data_asset) dict"

definition asset_register :: "data_asset \<Rightarrow> string set \<Rightarrow> asset_table \<Rightarrow> asset_table res" where
  "asset_register a allowed t =
     require (da_residency a \<in> allowed) (PermissionError ''data residency policy denied asset'')
     (require ((da_tenant_id a, da_asset_id a) \<notin> fst ` set t) (ValueError ''data asset registration is immutable'')
       (Inr (dict_set (da_tenant_id a, da_asset_id a) a t)))"

definition rotate_key :: "string \<Rightarrow> string \<Rightarrow> string \<Rightarrow> asset_table \<Rightarrow> asset_table res" where
  "rotate_key asset_id tenant key_version t =
     (case map_of t (tenant, asset_id) of
        None \<Rightarrow> Inl (KeyError asset_id)
      | Some a \<Rightarrow> Inr (dict_set (tenant, asset_id) (a\<lparr>da_key_version := key_version\<rparr>) t))"

definition asset_delete :: "string \<Rightarrow> string \<Rightarrow> asset_table \<Rightarrow> asset_table res" where
  "asset_delete asset_id tenant t =
     (case map_of t (tenant, asset_id) of
        None \<Rightarrow> Inl (KeyError asset_id)
      | Some a \<Rightarrow>
          require (\<not> da_legal_hold a) (PermissionError ''asset under legal hold cannot be deleted'')
            (Inr (dict_set (tenant, asset_id) (a\<lparr>da_deleted := True\<rparr>) t)))"

definition assets_snapshot :: "asset_table \<Rightarrow> asset_table" where
  "assets_snapshot t = t"

definition assets_restore :: "asset_table \<Rightarrow> asset_table \<Rightarrow> asset_table" where
  "assets_restore state t = state"

section \<open>Telemetry, objectives, policy inputs and artifacts\<close>

record telemetry_event =
  te_trace_id :: string
  te_tenant_id :: string
  te_name :: string
  te_timestamp_ns :: int
  te_attributes :: "(string \<times> pyval) list"

definition te_redacted :: "telemetry_event \<Rightarrow> telemetry_event" where
  "te_redacted e = e\<lparr>te_attributes := dict_items (redact_telemetry (PDict (te_attributes e)))\<rparr>"

record slo_definition =
  slo_name :: string
  slo_target :: real
  slo_risk_class :: string
  slo_window :: string

definition SLODefinition_post_init :: "slo_definition \<Rightarrow> slo_definition res" where
  "SLODefinition_post_init d =
     require (0 \<le> slo_target d \<and> slo_target d \<le> 1) (ValueError ''SLO target MUST be between zero and one'') (Inr d)"

record slo_result =
  sr_definition :: slo_definition
  sr_observed :: real
  sr_met :: bool
  sr_error_budget_remaining :: real

definition evaluate_slo :: "slo_definition \<Rightarrow> int \<Rightarrow> int \<Rightarrow> slo_result res" where
  "evaluate_slo d successful total_count =
     require (\<not> (total_count \<le> 0 \<or> \<not> (0 \<le> successful \<and> successful \<le> total_count)))
       (ValueError ''SLO observations MUST be valid and non-empty'')
     (let observed = of_int successful / of_int total_count;
          allowed_failures = 1 - slo_target d;
          actual_failures = 1 - observed
      in Inr \<lparr>sr_definition = d, sr_observed = observed, sr_met = (observed \<ge> slo_target d),
              sr_error_budget_remaining = max 0 (allowed_failures - actual_failures)\<rparr>)"

record stable_policy_input =
  pi_tenant_id :: pyval
  pi_subject :: pyval
  pi_action :: pyval
  pi_resource :: pyval
  pi_policy_version :: pyval
  pi_risk_class :: pyval
  pi_permissions :: "pyval list"

definition required_fields :: "string list" where
  "required_fields = [''tenant_id'', ''subject'', ''action'', ''resource'', ''policy_version'', ''risk_class'', ''permissions'']"

definition build_policy_input :: "(string, pyval) dict \<Rightarrow> pyval \<Rightarrow> stable_policy_input res" where
  "build_policy_input trusted untrusted =
     require (set (dict_keys trusted) = set required_fields)
       (ValueError ''policy input MUST contain exactly the stable trusted fields'')
     (let get = (\<lambda>k. the (map_of trusted k)) in
      case py_set (get ''permissions'') of
        Inl e \<Rightarrow> Inl e
      | Inr ps \<Rightarrow>
          Inr \<lparr>pi_tenant_id = get ''tenant_id'', pi_subject = get ''subject'', pi_action = get ''action'',
               pi_resource = get ''resource'', pi_policy_version = get ''policy_version'',
               pi_risk_class = get ''risk_class'', pi_permissions = ps\<rparr>)"

record signed_artifact =
  sa_artifact_id :: string
  sa_digest :: string
  sa_signer :: string
  sa_signature :: string
  sa_provenance_ref :: string

definition verify_digest :: "('b \<Rightarrow> string) \<Rightarrow> signed_artifact \<Rightarrow> 'b \<Rightarrow> bool" where
  "verify_digest sha a payload \<longleftrightarrow> sha payload = sa_digest a"

definition artifact_verify ::
  "('b \<Rightarrow> string) \<Rightarrow> signed_artifact \<Rightarrow> 'b \<Rightarrow> (string \<Rightarrow> string \<Rightarrow> string \<Rightarrow> bool) \<Rightarrow> bool" where
  "artifact_verify sha a payload check \<longleftrightarrow>
     verify_digest sha a payload \<and> check (sa_signer a) (sa_digest a) (sa_signature a)"

section \<open>Properties\<close>

lemma authorize_iff:
  "fst (authorize i r now a) \<longleftrightarrow>
     valid_at i now \<and> wi_tenant_id i = arq_tenant_id r \<and> arq_required_roles r \<subseteq> wi_roles i
     \<and> (\<forall>(k, v) \<in> set (arq_required_attributes r). map_of (wi_attributes i) k = Some v)
     \<and> (arq_high_impact r \<longrightarrow> (\<exists>ap. a = Some ap \<and> approval_applies i r now ap))"
  by (auto simp: authorize_def Let_def list_ex_iff split: option.splits)

lemma high_impact_needs_other_approver:
  "arq_high_impact r \<Longrightarrow> fst (authorize i r now a) \<Longrightarrow>
   \<exists>ap. a = Some ap \<and> ap_approver_subject ap \<noteq> wi_subject i \<and> now < ap_expires_at_ns ap"
  by (auto simp: authorize_iff approval_applies_def)

text \<open>
  A quota is not exceeded: after any sequence of requests whose costs are numbers, the accepted
  costs and actions stay within the maxima.
\<close>

definition quota_charge :: "tenant_quota \<Rightarrow> pyfloat \<Rightarrow> tenant_quota" where
  "quota_charge q c = (case consume q c of Inl _ \<Rightarrow> q | Inr q' \<Rightarrow> q')"

definition quota_ok :: "pyfloat \<Rightarrow> int \<Rightarrow> tenant_quota \<Rightarrow> bool" where
  "quota_ok m n q \<longleftrightarrow> tq_maximum_cost q = m \<and> tq_maximum_actions q = n \<and> tq_used_actions q \<le> n
     \<and> tq_used_cost q \<notin> {NaN, NegInf} \<and> \<not> flt_less m (tq_used_cost q)"

interpretation quota: guarded_machine quota_charge "\<lambda>c. c \<noteq> NaN" "quota_ok m n" for m n
proof
  fix q c
  assume "quota_ok m n q" and "c \<noteq> NaN"
  then show "quota_ok m n (quota_charge q c)"
    by (cases "tq_used_cost q"; cases c) (auto simp: quota_ok_def quota_charge_def consume_def require_def)
qed

lemma quota_bounded:
  assumes "m \<noteq> NaN" and "\<not> flt_less m (Fin 0)" and "0 \<le> n" and "NaN \<notin> set cs"
  shows "quota_ok m n (foldl quota_charge (new_quota m n) cs)"
  by (rule quota.run_keeps) (use assms in \<open>auto simp: quota_ok_def new_quota_def list_all_iff\<close>)

text \<open>A cost that is NaN is accepted, and after it every cost that is not negative.\<close>

lemma nan_cost_lifts_limit:
  assumes "0 \<le> k" and "k < n"
  shows "\<exists>q. consume (\<lparr>tq_maximum_cost = m, tq_maximum_actions = n, tq_used_cost = u, tq_used_actions = k\<rparr>) NaN = Inr q
    \<and> (\<forall>c. k + 1 < n \<and> \<not> flt_less c (Fin 0) \<longrightarrow> (\<exists>q'. consume q c = Inr q'))"
proof -
  have "flt_add u NaN = NaN" by (cases u) auto
  moreover have "\<not> flt_less m NaN" by (cases m) auto
  ultimately show ?thesis using assms by (auto simp: consume_def require_def)
qed

text \<open>What a value must satisfy to carry no secret: every secret key holds the mark, no text looks like one.\<close>

function leak_free :: "pyval \<Rightarrow> bool" where
  "leak_free (PDict kvs) \<longleftrightarrow>
     list_all (\<lambda>kv. if secret_key (fst kv) then snd kv = redacted_mark else leak_free (snd kv)) kvs"
| "leak_free (PList vs) \<longleftrightarrow> list_all leak_free vs"
| "leak_free (PStr s) \<longleftrightarrow> \<not> secret_value s"
| "leak_free PNone \<longleftrightarrow> True"
| "leak_free (PBool b) \<longleftrightarrow> True"
| "leak_free (PInt i) \<longleftrightarrow> True"
  by pat_completeness auto

termination
  by (relation "measure size") (auto simp: snd_size_pyval elem_size_pyval)

lemma mark_leak_free: "leak_free redacted_mark"
  unfolding redacted_mark_def leak_free.simps by code_simp

lemma redact_leak_free: "leak_free (redact_telemetry v)"
  by (induction v rule: redact_telemetry.induct) (auto simp: list_all_iff mark_leak_free)

lemma redact_unchanged: "leak_free v \<Longrightarrow> redact_telemetry v = v"
  by (induction v rule: redact_telemetry.induct)
    (auto simp: list_all_iff prod_eq_iff intro!: map_idI split: if_splits)

text \<open>
  Redaction is exact: what it returns carries no secret, and it changes a value only if the
  value carries one; so redacting twice is redacting once.
\<close>

theorem redaction_exact:
  "leak_free (redact_telemetry v) \<and> (redact_telemetry v = v \<longleftrightarrow> leak_free v)
   \<and> redact_telemetry (redact_telemetry v) = redact_telemetry v"
  using redact_leak_free [of v] redact_unchanged [of v] redact_unchanged [OF redact_leak_free, of v] by metis

lemma redact_items_leak_free: "leak_free (PDict (dict_items (redact_telemetry (PDict kvs))))"
  using redact_leak_free [of "PDict kvs"] by simp

subsection \<open>The audit log\<close>

definition stored_form :: "audit_record \<Rightarrow> audit_record" where
  "stored_form r = r\<lparr>au_payload := dict_items (redact_telemetry (PDict (au_payload r)))\<rparr>"

datatype audit_call = Audit_append audit_record | Audit_purge int

fun audit_step :: "audit_log \<Rightarrow> audit_call \<Rightarrow> audit_log" where
  "audit_step lg (Audit_append r) = (case audit_append r lg of Inl _ \<Rightarrow> lg | Inr lg' \<Rightarrow> lg')"
| "audit_step lg (Audit_purge now) = snd (audit_purge now lg)"

definition audit_inv :: "audit_record set \<Rightarrow> audit_log \<Rightarrow> bool" where
  "audit_inv S lg \<longleftrightarrow> dict_ok lg \<and>
     (\<forall>k r. map_of lg k = Some r \<longrightarrow> k = (au_tenant_id r, au_record_id r) \<and> r \<in> stored_form ` S)"

fun spares :: "audit_record \<Rightarrow> audit_call \<Rightarrow> bool" where
  "spares r (Audit_append r') \<longleftrightarrow> True"
| "spares r (Audit_purge now) \<longleftrightarrow> \<not> purgeable now r"

lemma purge_loop_result:
  "dict_ok rest \<Longrightarrow> dict_ok lg \<Longrightarrow> purge_loop now rest removed lg = (rm, lg') \<Longrightarrow>
   dict_ok lg' \<and> map_of lg' k =
     (case map_of rest k of None \<Rightarrow> map_of lg k | Some r \<Rightarrow> if purgeable now r then None else map_of lg k)"
proof (induction now rest removed lg arbitrary: rm lg' rule: purge_loop.induct)
  case (2 now k' r rest removed lg)
  then show ?case
    by (auto simp: map_of_None_iff split: if_splits option.splits dest: map_of_Some_keys)
qed simp

lemma map_of_purge:
  assumes "dict_ok lg"
  shows "map_of (snd (audit_purge now lg)) k =
    (case map_of lg k of None \<Rightarrow> None | Some r \<Rightarrow> if purgeable now r then None else Some r)"
    and "dict_ok (snd (audit_purge now lg))"
proof -
  obtain rm lg' where p: "purge_loop now lg [] lg = (rm, lg')" by fastforce
  then have s: "snd (audit_purge now lg) = lg'" by (simp add: audit_purge_def)
  from purge_loop_result [OF assms assms p, of k]
  show "map_of (snd (audit_purge now lg)) k =
      (case map_of lg k of None \<Rightarrow> None | Some r \<Rightarrow> if purgeable now r then None else Some r)"
    and "dict_ok (snd (audit_purge now lg))"
    unfolding s by (cases "map_of lg k"; simp)+
qed

lemma audit_step_append:
  "audit_step lg (Audit_append r) =
     (if map_of lg (au_tenant_id r, au_record_id r) = None
      then dict_set (au_tenant_id r, au_record_id r) (stored_form r) lg else lg)"
  by (simp add: audit_append_def stored_form_def map_of_None_iff require_def)

lemma stored_form_key [simp]: "au_tenant_id (stored_form r) = au_tenant_id r" "au_record_id (stored_form r) = au_record_id r"
  by (simp_all add: stored_form_def)

interpretation audit: guarded_machine audit_step "\<lambda>c. \<forall>r. c = Audit_append r \<longrightarrow> r \<in> S" "audit_inv S" for S
proof
  fix lg c
  assume inv: "audit_inv S lg" and adm: "\<forall>r. c = Audit_append r \<longrightarrow> r \<in> S"
  show "audit_inv S (audit_step lg c)"
  proof (cases c)
    case (Audit_append r)
    then show ?thesis using inv adm by (auto simp: audit_inv_def audit_step_append simp del: audit_step.simps)
  next
    case (Audit_purge now)
    then show ?thesis using inv map_of_purge [of lg now]
      by (auto simp: audit_inv_def split: option.splits if_splits)
  qed
qed

interpretation retention: guarded_machine audit_step "spares r" "\<lambda>lg :: audit_log. dict_ok lg \<and> map_of lg k = Some r" for r k
proof
  fix lg :: audit_log and c
  assume k: "dict_ok lg \<and> map_of lg k = Some r" and s: "spares r c"
  show "dict_ok (audit_step lg c) \<and> map_of (audit_step lg c) k = Some r"
  proof (cases c)
    case (Audit_append r')
    then show ?thesis using k by (auto simp: audit_step_append simp del: audit_step.simps)
  next
    case (Audit_purge now)
    then show ?thesis using k s map_of_purge [of lg now] by simp
  qed
qed

text \<open>
  C35: The audit log is immutable, redacted and retained: in every log reached by appends and purges,
  a record stands under its own tenant and identifier, is the redacted form of a record that
  was appended, carries no secret and cannot be overwritten; and it stays, unchanged, through
  any further calls unless a purge at or after the end of its retention meets it without legal
  hold.
\<close>

theorem audit_log_governed:
  assumes "lg = foldl audit_step [] cs" and "map_of lg (t, i) = Some r"
  shows "au_tenant_id r = t \<and> au_record_id r = i \<and> (\<exists>r0. Audit_append r0 \<in> set cs \<and> r = stored_form r0)
    \<and> leak_free (PDict (au_payload r))
    \<and> (\<forall>r'. au_tenant_id r' = t \<and> au_record_id r' = i \<longrightarrow> audit_append r' lg = Inl (ValueError ''audit record is immutable''))
    \<and> (\<forall>ds. list_all (spares r) ds \<longrightarrow> map_of (foldl audit_step lg ds) (t, i) = Some r)"
proof -
  have "audit_inv {r. Audit_append r \<in> set cs} lg"
    unfolding assms(1) by (rule audit.run_keeps) (auto simp: audit_inv_def list_all_iff)
  with assms(2) have d: "dict_ok lg" and r: "au_tenant_id r = t" "au_record_id r = i" "r \<in> stored_form ` {r. Audit_append r \<in> set cs}"
    by (auto simp: audit_inv_def)
  have "leak_free (PDict (au_payload r))" 
    using r(3) redact_items_leak_free by (auto simp: stored_form_def simp del: leak_free.simps redact_telemetry.simps)
  moreover have "map_of (foldl audit_step lg ds) (t, i) = Some r" if "list_all (spares r) ds" for ds
    using retention.run_keeps [of lg "(t, i)" r ds] d assms(2) that by simp
  moreover have "audit_append r' lg = Inl (ValueError ''audit record is immutable'')"
    if "au_tenant_id r' = t \<and> au_record_id r' = i" for r'
    using assms(2) that by (auto simp: audit_append_def require_def dest: map_of_Some_keys)
  ultimately show ?thesis using r by auto
qed

definition demo_audit :: "string \<Rightarrow> bool \<Rightarrow> audit_record" where
  "demo_audit i hold = \<lparr>au_record_id = i, au_tenant_id = ''t'', au_event = ''invoke'', au_payload = [(''Password'', PStr ''x'')],
     au_created_at_ns = 1, au_retain_until_ns = 10, au_legal_hold = hold\<rparr>"

theorem audit_log_governed_witness:
  "\<exists>r. map_of (foldl audit_step [] [Audit_append (demo_audit ''r1'' False), Audit_append (demo_audit ''r2'' True),
        Audit_purge 9, Audit_purge 20]) (''t'', ''r2'') = Some r
     \<and> au_legal_hold r \<and> au_payload r = [(''Password'', redacted_mark)]"
proof -
  let ?cs = "[Audit_append (demo_audit ''r1'' False), Audit_append (demo_audit ''r2'' True)]"
  let ?r = "stored_form (demo_audit ''r2'' True)"
  have k: "secret_key ''Password''" by code_simp
  have m: "map_of (foldl audit_step [] ?cs) (''t'', ''r2'') = Some ?r"
    by (simp add: audit_append_def demo_audit_def stored_form_def)
  have "list_all (spares ?r) [Audit_purge 9, Audit_purge 20]" by (simp add: purgeable_def stored_form_def demo_audit_def)
  with audit_log_governed [OF refl m]
  have "map_of (foldl audit_step (foldl audit_step [] ?cs) [Audit_purge 9, Audit_purge 20]) (''t'', ''r2'') = Some ?r" by blast
  moreover have "au_legal_hold ?r \<and> au_payload ?r = [(''Password'', redacted_mark)]"
    using k by (simp add: stored_form_def demo_audit_def)
  ultimately show ?thesis by (simp only: foldl_append [symmetric] append.simps) blast
qed

subsection \<open>Data assets\<close>

datatype asset_call = Asset_register data_asset "string set" | Asset_rotate string string string | Asset_delete string string

definition asset_run :: "asset_table res \<Rightarrow> asset_table \<Rightarrow> asset_table" where
  "asset_run x t = (case x of Inl _ \<Rightarrow> t | Inr t' \<Rightarrow> t')"

fun asset_step :: "asset_table \<Rightarrow> asset_call \<Rightarrow> asset_table" where
  "asset_step t (Asset_register a allowed) = asset_run (asset_register a allowed t) t"
| "asset_step t (Asset_rotate i tenant key) = asset_run (rotate_key i tenant key t) t"
| "asset_step t (Asset_delete i tenant) = asset_run (asset_delete i tenant t) t"

definition asset_follows :: "data_asset \<Rightarrow> data_asset \<Rightarrow> bool" where
  "asset_follows a b \<longleftrightarrow> da_asset_id b = da_asset_id a \<and> da_tenant_id b = da_tenant_id a \<and> da_residency b = da_residency a
     \<and> da_legal_hold b = da_legal_hold a \<and> (da_deleted a \<longrightarrow> da_deleted b) \<and> (da_legal_hold a \<longrightarrow> da_deleted b = da_deleted a)"

definition assets_follow :: "asset_table \<Rightarrow> asset_table \<Rightarrow> bool" where
  "assets_follow t t' \<longleftrightarrow> (\<forall>k a. map_of t k = Some a \<longrightarrow> (\<exists>b. map_of t' k = Some b \<and> asset_follows a b))"

lemma asset_follows_refl: "asset_follows a a"
  by (simp add: asset_follows_def)

lemma asset_follows_trans: "asset_follows a b \<Longrightarrow> asset_follows b c \<Longrightarrow> asset_follows a c"
  by (auto simp: asset_follows_def)

lemma assets_follow_set: "map_of t k = Some a \<Longrightarrow> asset_follows a b \<Longrightarrow> assets_follow t (dict_set k b t)"
  by (auto simp: assets_follow_def asset_follows_refl)

lemma assets_follow_add: "k \<notin> fst ` set t \<Longrightarrow> assets_follow t (dict_set k b t)"
  by (auto simp: assets_follow_def asset_follows_refl dest: map_of_Some_keys)

lemma assets_follow_same: "assets_follow t t"
  by (simp add: assets_follow_def asset_follows_refl)

lemma assets_follow_step: "assets_follow t (asset_step t c)"
proof (cases c)
  case (Asset_register a allowed)
  then show ?thesis
    by (simp add: asset_run_def asset_register_def require_def assets_follow_same assets_follow_add)
next
  case (Asset_rotate i tenant key)
  then show ?thesis
    by (auto simp: asset_run_def rotate_key_def assets_follow_same asset_follows_def intro!: assets_follow_set split: option.splits)
next
  case (Asset_delete i tenant)
  then show ?thesis
    by (auto simp: asset_run_def asset_delete_def require_def assets_follow_same asset_follows_def intro!: assets_follow_set
        split: option.splits)
qed

interpretation assets: step_machine asset_step "\<lambda>_. True" assets_follow
proof
  show "assets_follow s s" for s by (rule assets_follow_same)
  show "assets_follow s u" if "assets_follow s t" "assets_follow t u" for s t u
    using that unfolding assets_follow_def by (meson asset_follows_trans)
qed (simp_all add: assets_follow_step)

lemma assets_governed:
  "map_of t k = Some a \<Longrightarrow> \<exists>b. map_of (foldl asset_step t cs) k = Some b \<and> asset_follows a b"
  using assets.run_ext [of t cs] unfolding assets_follow_def by blast

subsection \<open>Objectives and kill switches\<close>

lemma evaluate_slo_bounds:
  assumes "SLODefinition_post_init d = Inr d" and "evaluate_slo d s n = Inr r"
  shows "0 \<le> sr_observed r \<and> sr_observed r \<le> 1 \<and> 0 \<le> sr_error_budget_remaining r
    \<and> sr_error_budget_remaining r \<le> 1 - slo_target d
    \<and> sr_error_budget_remaining r = (if sr_met r then sr_observed r - slo_target d else 0)"
  using assms by (auto simp: SLODefinition_post_init_def evaluate_slo_def Let_def)

lemma kill_switches_roundtrip: "ks_restore (ks_snapshot k) k' = k"
  by (simp add: ks_snapshot_def)

end
