(* ===== verification/Calibration.thy ===== *)
theory Calibration
  imports Capabilities Cognitive_State Schema
begin

text \<open>
  Calibration (\<open>assurance/calibration.py\<close>, \<open>policy.py\<close>): the registry of calibration artifacts with
  its invalidation on model changes, risk thresholds, confidence bounds and isotonic
  regression. Floating-point values are real numbers; the hash of an artifact's content and the
  score of a population shift are parameters.
\<close>

declare map_of_eq_Some_iff [simp del] Some_eq_map_of_iff [simp del]

section \<open>Calibration artifacts\<close>

datatype calibration_status =
  CAL_DRAFT | CAL_CALIBRATED | CAL_EXTRAPOLATED | CAL_SHIFTED | CAL_INSUFFICIENT_DATA | CAL_INVALIDATED | CAL_RETIRED

record calibration_key =
  ck_domain :: string
  ck_risk_class :: risk_class
  ck_capability_fingerprint :: string
  ck_prompt_fingerprint :: string
  ck_decoding_fingerprint :: string
  ck_verifier_fingerprints :: "string list"
  ck_task_distribution :: string

definition CalibrationKey_post_init :: "calibration_key \<Rightarrow> calibration_key res" where
  "CalibrationKey_post_init k =
     require (ck_domain k \<noteq> [] \<and> ck_capability_fingerprint k \<noteq> [] \<and> ck_prompt_fingerprint k \<noteq> [] \<and> ck_decoding_fingerprint k \<noteq> []
       \<and> ck_task_distribution k \<noteq> []) (ValueError ''calibration applicability key MUST be complete'') (Inr k)"

record calibration_metrics =
  cm_count :: int
  cm_brier_score :: real
  cm_log_loss :: real
  cm_expected_calibration_error :: real
  cm_selective_risk :: "(real \<times> real) list"
  cm_reliability :: "(real \<times> real \<times> int) list"

record calibration_artifact =
  ca_artifact_id :: string
  ca_version :: string
  ca_key :: calibration_key
  ca_method :: string
  ca_parameters :: "real list"
  ca_dataset_id :: string
  ca_split :: string
  ca_metrics :: calibration_metrics
  ca_status :: calibration_status
  ca_assumptions :: "string list"
  ca_subgroup_metrics :: "(string, calibration_metrics) dict"
  ca_shift_score :: "real option"
  ca_content_hash :: string
  ca_reason :: string

type_synonym hashed_content =
  "string \<times> string \<times> calibration_key \<times> string \<times> real list \<times> string \<times> string \<times> calibration_metrics \<times> string list"

definition hashed_content :: "calibration_artifact \<Rightarrow> hashed_content" where
  "hashed_content a = (ca_artifact_id a, ca_version a, ca_key a, ca_method a, ca_parameters a, ca_dataset_id a, ca_split a,
     ca_metrics a, ca_assumptions a)"

definition CalibrationArtifact_post_init :: "(hashed_content \<Rightarrow> string) \<Rightarrow> calibration_artifact \<Rightarrow> calibration_artifact res" where
  "CalibrationArtifact_post_init h a =
     require (ca_artifact_id a \<noteq> [] \<and> ca_version a \<noteq> [] \<and> ca_method a \<noteq> [] \<and> ca_dataset_id a \<noteq> [] \<and> ca_split a \<noteq> [])
       (ValueError ''calibration artifact identity and provenance MUST be complete'') (
     require (\<not> (ca_content_hash a \<noteq> [] \<and> ca_content_hash a \<noteq> h (hashed_content a)))
       (DNCCalibrationError ''calibration artifact content hash mismatch'') (
     require (\<not> (ca_status a = CAL_CALIBRATED \<and> cm_count (ca_metrics a) < 2))
       (DNCCalibrationError ''calibrated artifacts require held-out outcome evidence'') (Inr a)))"

type_synonym calibration_table = "(string, calibration_artifact) dict"

definition calibration_register ::
  "(hashed_content \<Rightarrow> string) \<Rightarrow> calibration_artifact \<Rightarrow> calibration_table \<Rightarrow> (calibration_artifact \<times> calibration_table) res" where
  "calibration_register h a0 t =
     require (\<not> (ca_status a0 = CAL_CALIBRATED \<and> casefold (ca_split a0) \<notin> {''held-out'', ''validation'', ''test''}))
       (DNCCalibrationError ''calibrated artifacts MUST use a held-out split'')
     (case (if ca_content_hash a0 = [] then CalibrationArtifact_post_init h (a0\<lparr>ca_content_hash := h (hashed_content a0)\<rparr>) else Inr a0) of
        Inl e \<Rightarrow> Inl e
      | Inr a \<Rightarrow>
          require (case map_of t (ca_artifact_id a) of None \<Rightarrow> True | Some existing \<Rightarrow> existing = a)
            (DNCCalibrationError ''calibration artifact ID cannot be replaced with different content'')
            (Inr (a, dict_set (ca_artifact_id a) a t)))"

text \<open>Versions compare by their parts, numbers before words; \<open>int\<close> rejects the superscript digits that \<open>isdigit\<close> accepts.\<close>

fun split_parts :: "string \<Rightarrow> string list" where
  "split_parts [] = [[]]"
| "split_parts (c # cs) =
     (if c = CHR ''.'' \<or> c = CHR ''-'' then [] # split_parts cs
      else case split_parts cs of [] \<Rightarrow> [[c]] | p # ps \<Rightarrow> (c # p) # ps)"

definition py_isdigit :: "char \<Rightarrow> bool" where
  "py_isdigit c \<longleftrightarrow> is_digit c \<or> (of_char c :: nat) \<in> {178, 179, 185}"

definition version_piece :: "string \<Rightarrow> (nat \<times> nat \<times> string) res" where
  "version_piece p =
     (if p \<noteq> [] \<and> list_all py_isdigit p
      then require (list_all is_digit p) (ValueError ''invalid literal for int()'') (Inr (0, read_nat p, []))
      else Inr (1, 0, p))"

definition version_key :: "string \<Rightarrow> (nat \<times> nat \<times> string) list res" where
  "version_key v = map_res version_piece (split_parts v)"

text \<open>\<open>max(xs, key=version)\<close>: the keys of all elements are computed, so that any of them may raise.\<close>

definition latest_version :: "('a \<Rightarrow> string) \<Rightarrow> 'a list \<Rightarrow> 'a option res" where
  "latest_version ver xs =
     (case map_res (\<lambda>x. version_key (ver x)) xs of
        Inl e \<Rightarrow> Inl e
      | Inr ks \<Rightarrow> (case zip ks xs of [] \<Rightarrow> Inr None | p # ps \<Rightarrow> Inr (Some (snd (max_on fst p ps)))))"

definition applies_to :: "calibration_key \<Rightarrow> calibration_artifact \<Rightarrow> bool" where
  "applies_to k a \<longleftrightarrow> ca_key a = k \<and> ca_status a = CAL_CALIBRATED"

definition calibration_applicable :: "calibration_key \<Rightarrow> calibration_table \<Rightarrow> calibration_artifact option res" where
  "calibration_applicable k t = latest_version ca_version (filter (applies_to k) (map snd t))"

definition require_applicable :: "calibration_key \<Rightarrow> calibration_table \<Rightarrow> calibration_artifact res" where
  "require_applicable k t =
     (case calibration_applicable k t of
        Inl e \<Rightarrow> Inl e
      | Inr None \<Rightarrow> Inl (DNCCalibrationError ''no applicable calibrated artifact'')
      | Inr (Some a) \<Rightarrow> Inr a)"

definition uses_fingerprint :: "string \<Rightarrow> calibration_artifact \<Rightarrow> bool" where
  "uses_fingerprint fp a \<longleftrightarrow> fp = ck_capability_fingerprint (ca_key a) \<or> fp \<in> set (ck_verifier_fingerprints (ca_key a))"

definition invalidated :: "string \<Rightarrow> calibration_artifact \<Rightarrow> calibration_artifact" where
  "invalidated reason a = a\<lparr>ca_status := CAL_INVALIDATED, ca_reason := reason\<rparr>"

text \<open>\<open>replace\<close> runs the checks of the constructor on the changed artifact.\<close>

fun invalidate_artifacts ::
  "(hashed_content \<Rightarrow> string) \<Rightarrow> string \<Rightarrow> string \<Rightarrow> calibration_table \<Rightarrow> string list \<Rightarrow> calibration_table
   \<Rightarrow> string list res \<times> calibration_table" where
  "invalidate_artifacts h fp reason [] affected t = (Inr affected, t)"
| "invalidate_artifacts h fp reason ((i, a) # rest) affected t =
     (if uses_fingerprint fp a
      then (case CalibrationArtifact_post_init h (invalidated reason a) of
              Inl e \<Rightarrow> (Inl e, t)
            | Inr a' \<Rightarrow> invalidate_artifacts h fp reason rest (affected @ [i]) (dict_set i a' t))
      else invalidate_artifacts h fp reason rest affected t)"

definition invalidate_fingerprint ::
  "(hashed_content \<Rightarrow> string) \<Rightarrow> string \<Rightarrow> string \<Rightarrow> calibration_table \<Rightarrow> string list res \<times> calibration_table" where
  "invalidate_fingerprint h fp reason t =
     (case invalidate_artifacts h fp reason t [] t of
        (Inl e, t') \<Rightarrow> (Inl e, t')
      | (Inr affected, t') \<Rightarrow> (Inr (sort affected), t'))"

definition mark_shifted ::
  "(hashed_content \<Rightarrow> string) \<Rightarrow> string \<Rightarrow> real \<Rightarrow> string \<Rightarrow> calibration_table \<Rightarrow> (calibration_artifact \<times> calibration_table) res" where
  "mark_shifted h i score reason t =
     (case map_of t i of
        None \<Rightarrow> Inl (KeyError i)
      | Some a \<Rightarrow>
          (case CalibrationArtifact_post_init h (a\<lparr>ca_status := CAL_SHIFTED, ca_shift_score := Some score, ca_reason := reason\<rparr>) of
             Inl e \<Rightarrow> Inl e
           | Inr a' \<Rightarrow> Inr (a', dict_set i a' t)))"

definition assess_shift ::
  "(hashed_content \<Rightarrow> string) \<Rightarrow> (real list \<Rightarrow> real list \<Rightarrow> real res) \<Rightarrow> string \<Rightarrow> real list \<Rightarrow> real list \<Rightarrow> real \<Rightarrow> calibration_table
   \<Rightarrow> (calibration_artifact \<times> calibration_table) res" where
  "assess_shift h population_shift i reference observed threshold t =
     require (\<not> threshold < 0) (ValueError ''shift threshold MUST be non-negative'')
     (case population_shift reference observed of
        Inl e \<Rightarrow> Inl e
      | Inr score \<Rightarrow>
          (case map_of t i of
             None \<Rightarrow> Inl (KeyError i)
           | Some a \<Rightarrow>
               if score > threshold then mark_shifted h i score ''population shift threshold exceeded'' t
               else case CalibrationArtifact_post_init h (a\<lparr>ca_shift_score := Some score\<rparr>) of
                      Inl e \<Rightarrow> Inl e
                    | Inr a' \<Rightarrow> Inr (a', dict_set i a' t)))"

definition handle_model_change ::
  "(hashed_content \<Rightarrow> string) \<Rightarrow> model_change_event \<Rightarrow> calibration_table \<Rightarrow> unit res \<times> calibration_table" where
  "handle_model_change h ev t =
     (if mc_previous_fingerprint ev = [] then (Inr (), t)
      else case invalidate_fingerprint h (mc_previous_fingerprint ev) ''provider/model fingerprint changed'' t of
             (Inl e, t') \<Rightarrow> (Inl e, t')
           | (Inr _, t') \<Rightarrow> (Inr (), t'))"

subsection \<open>Calibrations after a change of model\<close>

definition artifact_ok :: "(hashed_content \<Rightarrow> string) \<Rightarrow> calibration_artifact \<Rightarrow> bool" where
  "artifact_ok h a \<longleftrightarrow> CalibrationArtifact_post_init h a = Inr a
     \<and> (ca_status a = CAL_CALIBRATED \<longrightarrow> casefold (ca_split a) \<in> {''held-out'', ''validation'', ''test''})"

definition calibrations_ok :: "(hashed_content \<Rightarrow> string) \<Rightarrow> calibration_table \<Rightarrow> bool" where
  "calibrations_ok h t \<longleftrightarrow> dict_ok t \<and> (\<forall>i a. map_of t i = Some a \<longrightarrow> ca_artifact_id a = i \<and> artifact_ok h a)"

definition artifact_follows :: "calibration_artifact \<Rightarrow> calibration_artifact \<Rightarrow> bool" where
  "artifact_follows a b \<longleftrightarrow> hashed_content b = hashed_content a \<and> (ca_status b = CAL_CALIBRATED \<longrightarrow> ca_status a = CAL_CALIBRATED)"

definition calibrations_follow :: "calibration_table \<Rightarrow> calibration_table \<Rightarrow> bool" where
  "calibrations_follow t t' \<longleftrightarrow> (\<forall>i a. map_of t i = Some a \<longrightarrow> (\<exists>b. map_of t' i = Some b \<and> artifact_follows a b))"

lemma artifact_follows_refl [simp]: "artifact_follows a a"
  by (simp add: artifact_follows_def)

lemma artifact_follows_trans: "artifact_follows a b \<Longrightarrow> artifact_follows b c \<Longrightarrow> artifact_follows a c"
  by (auto simp: artifact_follows_def)

lemma calibrations_follow_refl [simp]: "calibrations_follow t t"
  by (simp add: calibrations_follow_def)

lemma calibrations_follow_trans: "calibrations_follow t u \<Longrightarrow> calibrations_follow u v \<Longrightarrow> calibrations_follow t v"
  unfolding calibrations_follow_def by (meson artifact_follows_trans)

lemma calibrations_set:
  assumes "calibrations_ok h t" and "artifact_ok h b" and "ca_artifact_id b = i" and "\<And>a. map_of t i = Some a \<Longrightarrow> artifact_follows a b"
  shows "calibrations_ok h (dict_set i b t)" and "calibrations_follow t (dict_set i b t)"
  using assms by (auto simp: calibrations_ok_def calibrations_follow_def)

lemma updates_follow [simp]:
  "artifact_follows a (invalidated reason a)"
  "artifact_follows a (a\<lparr>ca_status := CAL_SHIFTED, ca_shift_score := s, ca_reason := reason\<rparr>)"
  "artifact_follows a (a\<lparr>ca_shift_score := s\<rparr>)"
  by (simp_all add: artifact_follows_def hashed_content_def invalidated_def)

lemma updates_ok:
  assumes "artifact_ok h a"
  shows "artifact_ok h (invalidated reason a)"
    "artifact_ok h (a\<lparr>ca_status := CAL_SHIFTED, ca_shift_score := s, ca_reason := reason\<rparr>)"
    "artifact_ok h (a\<lparr>ca_shift_score := s\<rparr>)"
  using assms by (auto simp: artifact_ok_def CalibrationArtifact_post_init_def hashed_content_def invalidated_def)

lemma artifact_okD: "artifact_ok h a \<Longrightarrow> CalibrationArtifact_post_init h a = Inr a"
  by (simp add: artifact_ok_def)

lemma invalidate_artifacts_result:
  assumes "calibrations_ok h t" and "dict_ok rest" and "\<And>i a. map_of rest i = Some a \<Longrightarrow> map_of t i = Some a"
  shows "\<exists>xs t'. invalidate_artifacts h fp reason rest affected t = (Inr xs, t') \<and> calibrations_ok h t' \<and> calibrations_follow t t'
    \<and> (\<forall>i. map_of t' i = (case map_of rest i of
          None \<Rightarrow> map_of t i
        | Some a \<Rightarrow> Some (if uses_fingerprint fp a then invalidated reason a else a)))"
  using assms
proof (induction rest arbitrary: affected t)
  case Nil
  then show ?case by simp
next
  case (Cons p rest)
  obtain i a where p: "p = (i, a)" by (cases p)
  from Cons.prems(3) [of i a] p have a: "map_of t i = Some a" by simp
  with Cons.prems(1) have ok: "ca_artifact_id a = i" "artifact_ok h a" by (auto simp: calibrations_ok_def)
  have ni: "map_of rest i = None" and dr: "dict_ok rest" using Cons.prems(2) p by (auto simp: map_of_None_iff)
  show ?case
  proof (cases "uses_fingerprint fp a")
    case True
    let ?t = "dict_set i (invalidated reason a) t"
    have post: "CalibrationArtifact_post_init h (invalidated reason a) = Inr (invalidated reason a)"
      using updates_ok(1) [OF ok(2)] by (rule artifact_okD)
    have n: "ca_artifact_id (invalidated reason a) = i" using ok(1) by (simp add: invalidated_def)
    have f: "artifact_follows x (invalidated reason a)" if "map_of t i = Some x" for x using a that by simp
    note s = calibrations_set [OF Cons.prems(1) updates_ok(1) [OF ok(2)] n f]
    have m: "map_of ?t j = Some b" if "map_of rest j = Some b" for j b
      using Cons.prems(3) [of j b] that ni p by (auto split: if_splits)
    from Cons.IH [OF s(1) dr m] obtain xs t' where "invalidate_artifacts h fp reason rest (affected @ [i]) ?t = (Inr xs, t')"
      "calibrations_ok h t'" "calibrations_follow ?t t'" "\<forall>j. map_of t' j = (case map_of rest j of
          None \<Rightarrow> map_of ?t j | Some b \<Rightarrow> Some (if uses_fingerprint fp b then invalidated reason b else b))" by blast
    with True p post ni s(2) show ?thesis
      by (intro exI [of _ xs] exI [of _ t']) (auto intro: calibrations_follow_trans split: option.split)
  next
    case False
    have m: "map_of t j = Some b" if "map_of rest j = Some b" for j b
      using Cons.prems(3) [of j b] that ni p by (cases "j = i") auto
    from Cons.IH [OF Cons.prems(1) dr m, of affected] obtain xs t' where "invalidate_artifacts h fp reason rest affected t = (Inr xs, t')"
      "calibrations_ok h t'" "calibrations_follow t t'" "\<forall>j. map_of t' j = (case map_of rest j of
          None \<Rightarrow> map_of t j | Some b \<Rightarrow> Some (if uses_fingerprint fp b then invalidated reason b else b))" by blast
    with False p ni a show ?thesis by (intro exI [of _ xs] exI [of _ t']) auto
  qed
qed

lemma invalidate_fingerprint_result:
  assumes "calibrations_ok h t"
  shows "\<exists>xs t'. invalidate_fingerprint h fp reason t = (Inr xs, t') \<and> calibrations_ok h t' \<and> calibrations_follow t t'
    \<and> (\<forall>i. map_of t' i = map_option (\<lambda>a. if uses_fingerprint fp a then invalidated reason a else a) (map_of t i))"
proof -
  have d: "dict_ok t" using assms by (simp add: calibrations_ok_def)
  from invalidate_artifacts_result [OF assms d, of fp reason "[]"] obtain xs t' where l: "invalidate_artifacts h fp reason t [] t = (Inr xs, t')"
    "calibrations_ok h t'" "calibrations_follow t t'" "\<forall>i. map_of t' i = (case map_of t i of
        None \<Rightarrow> map_of t i | Some a \<Rightarrow> Some (if uses_fingerprint fp a then invalidated reason a else a))" by blast
  then have "\<forall>i. map_of t' i = map_option (\<lambda>a. if uses_fingerprint fp a then invalidated reason a else a) (map_of t i)"
    by (simp add: option.case_eq_if map_option_case)
  with l show ?thesis by (simp add: invalidate_fingerprint_def)
qed

datatype calibration_call =
    Cal_register calibration_artifact
  | Cal_invalidate string string
  | Cal_shift string real string
  | Cal_assess string "real list" "real list" real
  | Cal_model_change model_change_event

definition table_or :: "calibration_table \<Rightarrow> (calibration_artifact \<times> calibration_table) res \<Rightarrow> calibration_table" where
  "table_or t r = (case r of Inl _ \<Rightarrow> t | Inr (_, t') \<Rightarrow> t')"

lemma table_or_simps [simp]: "table_or t (Inl e) = t" "table_or t (Inr (a, t')) = t'"
  by (simp_all add: table_or_def)

fun calibration_step ::
  "(hashed_content \<Rightarrow> string) \<Rightarrow> (real list \<Rightarrow> real list \<Rightarrow> real res) \<Rightarrow> calibration_table \<Rightarrow> calibration_call \<Rightarrow> calibration_table" where
  "calibration_step h ps t (Cal_register a) =
     (if CalibrationArtifact_post_init h a = Inr a then table_or t (calibration_register h a t) else t)"
| "calibration_step h ps t (Cal_invalidate fp reason) = snd (invalidate_fingerprint h fp reason t)"
| "calibration_step h ps t (Cal_shift i score reason) = table_or t (mark_shifted h i score reason t)"
| "calibration_step h ps t (Cal_assess i ref obs th) = table_or t (assess_shift h ps i ref obs th t)"
| "calibration_step h ps t (Cal_model_change ev) = snd (handle_model_change h ev t)"

lemma mark_shifted_result:
  assumes "calibrations_ok h t"
  shows "calibrations_ok h (table_or t (mark_shifted h i score reason t)) \<and> calibrations_follow t (table_or t (mark_shifted h i score reason t))"
proof (cases "map_of t i")
  case None
  with assms show ?thesis by (simp add: mark_shifted_def table_or_def)
next
  case (Some a)
  with assms have ok: "ca_artifact_id a = i" "artifact_ok h a" by (auto simp: calibrations_ok_def)
  let ?b = "a\<lparr>ca_status := CAL_SHIFTED, ca_shift_score := Some score, ca_reason := reason\<rparr>"
  have "calibrations_ok h (dict_set i ?b t)" "calibrations_follow t (dict_set i ?b t)"
    by (rule calibrations_set [OF assms updates_ok(2) [OF ok(2)]]; use ok(1) Some in simp)+
  with Some artifact_okD [OF updates_ok(2) [OF ok(2)]] show ?thesis by (simp add: mark_shifted_def table_or_def)
qed

lemma assess_shift_result:
  assumes "calibrations_ok h t"
  shows "calibrations_ok h (table_or t (assess_shift h ps i ref obs th t)) \<and> calibrations_follow t (table_or t (assess_shift h ps i ref obs th t))"
proof (cases "map_of t i")
  case None
  with assms show ?thesis by (simp add: assess_shift_def table_or_def require_def split: sum.split)
next
  case (Some a)
  with assms have ok: "ca_artifact_id a = i" "artifact_ok h a" by (auto simp: calibrations_ok_def)
  have "calibrations_ok h (dict_set i (a\<lparr>ca_shift_score := s\<rparr>) t)" "calibrations_follow t (dict_set i (a\<lparr>ca_shift_score := s\<rparr>) t)" for s
    by (rule calibrations_set [OF assms updates_ok(3) [OF ok(2)]]; use ok(1) Some in simp)+
  moreover have "\<exists>s. table_or t (assess_shift h ps i ref obs th t) \<in> {t, dict_set i (a\<lparr>ca_shift_score := Some s\<rparr>) t,
      table_or t (mark_shifted h i s ''population shift threshold exceeded'' t)}"
    using Some artifact_okD [OF updates_ok(3) [OF ok(2)]]
    by (cases "ps ref obs") (auto simp: assess_shift_def require_def)
  ultimately show ?thesis using assms mark_shifted_result [OF assms, of i] by (elim exE insertE emptyE) simp_all
qed

lemma calibration_register_result:
  assumes "calibrations_ok h t" and "CalibrationArtifact_post_init h a = Inr a"
  shows "calibrations_ok h (table_or t (calibration_register h a t)) \<and> calibrations_follow t (table_or t (calibration_register h a t))"
proof (cases "calibration_register h a t")
  case (Inl e)
  with assms(1) show ?thesis by (simp add: table_or_def)
next
  case (Inr r)
  let ?b = "if ca_content_hash a = [] then a\<lparr>ca_content_hash := h (hashed_content a)\<rparr> else a"
  have "CalibrationArtifact_post_init h ?b = Inr ?b"
    using assms(2) by (auto simp: CalibrationArtifact_post_init_def hashed_content_def)
  with Inr have b: "artifact_ok h ?b" "r = (?b, dict_set (ca_artifact_id ?b) ?b t)"
    "\<And>x. map_of t (ca_artifact_id ?b) = Some x \<Longrightarrow> x = ?b"
    by (auto simp: calibration_register_def artifact_ok_def split: if_splits option.splits)
  have f: "artifact_follows x ?b" if "map_of t (ca_artifact_id ?b) = Some x" for x using b(3) [OF that] by simp
  from calibrations_set [OF assms(1) b(1) refl f] Inr b(2) show ?thesis by simp
qed

lemma model_change_result:
  assumes "calibrations_ok h t"
  shows "\<exists>t'. handle_model_change h ev t = (Inr (), t') \<and> calibrations_ok h t' \<and> calibrations_follow t t'
    \<and> (mc_previous_fingerprint ev \<noteq> [] \<longrightarrow> (\<forall>i. map_of t' i =
         map_option (\<lambda>a. if uses_fingerprint (mc_previous_fingerprint ev) a
                          then invalidated ''provider/model fingerprint changed'' a else a) (map_of t i)))"
  using invalidate_fingerprint_result [OF assms, of "mc_previous_fingerprint ev" "''provider/model fingerprint changed''"] assms
  by (auto simp: handle_model_change_def)

interpretation calibrations: step_machine "calibration_step h ps" "calibrations_ok h" calibrations_follow for h ps
proof
  fix t c
  assume ok: "calibrations_ok h t"
  have "calibrations_ok h (calibration_step h ps t c) \<and> calibrations_follow t (calibration_step h ps t c)"
  proof (cases c)
    case (Cal_register a)
    with ok calibration_register_result [OF ok, of a] show ?thesis by simp
  next
    case (Cal_invalidate fp reason)
    with invalidate_fingerprint_result [OF ok, of fp reason] show ?thesis by auto
  next
    case (Cal_shift i s reason)
    with mark_shifted_result [OF ok] show ?thesis by simp
  next
    case (Cal_assess i ref obs th)
    with assess_shift_result [OF ok] show ?thesis by simp
  next
    case (Cal_model_change ev)
    with model_change_result [OF ok, of ev] show ?thesis by auto
  qed
  then show "calibrations_ok h (calibration_step h ps t c)" and "calibrations_follow t (calibration_step h ps t c)" by auto
qed (auto intro: calibrations_follow_trans)

text \<open>
  The listener that was added for the calibration registry handles the events it is notified of;
  the other listeners do not touch the table.
\<close>

definition notify ::
  "(hashed_content \<Rightarrow> string) \<Rightarrow> 'l \<Rightarrow> ('l \<times> model_change_event) list \<Rightarrow> calibration_table \<Rightarrow> calibration_table" where
  "notify h l evs t = fold (\<lambda>(m, ev) t. if m = l then snd (handle_model_change h ev t) else t) evs t"

definition revoked :: "string \<Rightarrow> calibration_artifact \<Rightarrow> calibration_artifact" where
  "revoked fp a = (if uses_fingerprint fp a then invalidated ''provider/model fingerprint changed'' a else a)"

lemma revoked_twice [simp]: "revoked fp (revoked fp a) = revoked fp a"
  by (simp add: revoked_def invalidated_def uses_fingerprint_def)

text \<open>However often the listener is registered, the events of one change revoke the artifacts once.\<close>

lemma notify_result:
  assumes "calibrations_ok h t" and "mc_previous_fingerprint ev \<noteq> []"
  shows "calibrations_ok h (notify h l (map (\<lambda>m. (m, ev)) ls) t)
    \<and> (\<forall>i. map_of (notify h l (map (\<lambda>m. (m, ev)) ls) t) i =
        (if l \<in> set ls then map_option (revoked (mc_previous_fingerprint ev)) (map_of t i) else map_of t i))"
  using assms(1)
proof (induction ls arbitrary: t)
  case (Cons m ls)
  show ?case
  proof (cases "m = l")
    case True
    from model_change_result [OF Cons.prems, of ev] assms(2)
    obtain t' where t': "handle_model_change h ev t = (Inr (), t')" "calibrations_ok h t'"
      "\<And>i. map_of t' i = map_option (revoked (mc_previous_fingerprint ev)) (map_of t i)"
      by (auto simp: revoked_def [abs_def])
    from Cons.IH [OF t'(2)] show ?thesis
      by (simp add: notify_def True t'(1,3) option.map_comp comp_def)
  qed (use Cons.IH [OF Cons.prems] in \<open>auto simp: notify_def\<close>)
qed (simp add: notify_def)

text \<open>
  C33: A change of model revokes its calibrations: registering a capability card with a new
  fingerprint notifies the calibration registry, if its listener was added, and right afterwards
  no artifact is applicable for any key that uses the old fingerprint. Whatever is registered,
  invalidated, shifted or assessed later, an artifact that was in the registry at the change and
  used the old fingerprint keeps its content and is never calibrated again. (An artifact that is
  registered later, under an identifier of its own, is judged on its own.)
\<close>

theorem model_change_revokes:
  assumes "cap_get (cc_capability_id new) reg = Some old" and "cc_fingerprint old \<noteq> cc_fingerprint new" and "cc_fingerprint old \<noteq> []"
    and "l \<in> set (cr_change_listeners reg)" and "t = foldl (calibration_step h ps) [] cs"
    and "t' = notify h l (fst (cap_register new reg)) t"
  shows "(\<forall>k. ck_capability_fingerprint k = cc_fingerprint old \<or> cc_fingerprint old \<in> set (ck_verifier_fingerprints k)
       \<longrightarrow> calibration_applicable k t' = Inr None)
    \<and> (\<forall>i a ds. map_of t i = Some a \<and> uses_fingerprint (cc_fingerprint old) a \<longrightarrow>
         (\<exists>b. map_of (foldl (calibration_step h ps) t' ds) i = Some b \<and> hashed_content b = hashed_content a \<and> ca_status b \<noteq> CAL_CALIBRATED))"
proof -
  let ?fp = "cc_fingerprint old"
  have ok: "calibrations_ok h t" unfolding assms(5) by (rule calibrations.run_inv) (simp add: calibrations_ok_def)
  let ?ev = "\<lparr>mc_capability_id = cc_capability_id new, mc_previous_fingerprint = ?fp, mc_current_fingerprint = cc_fingerprint new\<rparr>"
  have "fst (cap_register new reg) = map (\<lambda>m. (m, ?ev)) (cr_change_listeners reg)"
    using assms(1,2) by (simp add: cap_register_def cap_get_def Let_def)
  with notify_result [OF ok, of ?ev l "cr_change_listeners reg"] assms(3,4,6) have ok': "calibrations_ok h t'"
    and m: "map_of t' i = map_option (\<lambda>a. if uses_fingerprint ?fp a then invalidated ''provider/model fingerprint changed'' a else a) (map_of t i)" for i
    by (auto simp: revoked_def [abs_def])
  have "filter (applies_to k) (map snd t') = []"
    if k: "ck_capability_fingerprint k = ?fp \<or> ?fp \<in> set (ck_verifier_fingerprints k)" for k
  proof -
    have "\<not> applies_to k b" if "(i, b) \<in> set t'" for i b
    proof
      assume ap: "applies_to k b"
      have "map_of t' i = Some b" using that ok' by (simp add: calibrations_ok_def)
      with m obtain a where "b = (if uses_fingerprint ?fp a then invalidated ''provider/model fingerprint changed'' a else a)" by force
      with ap k show False by (auto simp: applies_to_def uses_fingerprint_def invalidated_def split: if_splits)
    qed
    then show ?thesis by (auto simp: filter_empty_conv)
  qed
  then have 1: "calibration_applicable k t' = Inr None"
    if "ck_capability_fingerprint k = ?fp \<or> ?fp \<in> set (ck_verifier_fingerprints k)" for k
    using that by (simp add: calibration_applicable_def latest_version_def)
  have 2: "\<exists>b. map_of (foldl (calibration_step h ps) t' ds) i = Some b \<and> hashed_content b = hashed_content a \<and> ca_status b \<noteq> CAL_CALIBRATED"
    if "map_of t i = Some a" "uses_fingerprint ?fp a" for i a ds
  proof -
    have "map_of t' i = Some (invalidated ''provider/model fingerprint changed'' a)" using m that by simp
    with calibrations.run_ext [OF ok', of ps ds] show ?thesis
      unfolding calibrations_follow_def artifact_follows_def by (fastforce simp: invalidated_def hashed_content_def)
  qed
  from 1 2 show ?thesis by blast
qed

definition demo_artifact :: calibration_artifact where
  "demo_artifact = \<lparr>ca_artifact_id = ''a'', ca_version = ''1.0'',
     ca_key = \<lparr>ck_domain = ''d'', ck_risk_class = RISK_LOW, ck_capability_fingerprint = ''f'', ck_prompt_fingerprint = ''p'',
       ck_decoding_fingerprint = ''x'', ck_verifier_fingerprints = [], ck_task_distribution = ''y''\<rparr>,
     ca_method = ''m'', ca_parameters = [], ca_dataset_id = ''ds'', ca_split = ''Test'',
     ca_metrics = \<lparr>cm_count = 5, cm_brier_score = 0, cm_log_loss = 0, cm_expected_calibration_error = 0, cm_selective_risk = [],
       cm_reliability = []\<rparr>,
     ca_status = CAL_CALIBRATED, ca_assumptions = [], ca_subgroup_metrics = [], ca_shift_score = None, ca_content_hash = [], ca_reason = []\<rparr>"

theorem model_change_revokes_witness:
  "calibration_applicable (ca_key demo_artifact)
     (notify (\<lambda>_. ''h'') ''calibrations'' (fst (cap_register (demo_card\<lparr>cc_fingerprint := ''g''\<rparr>)
        \<lparr>cr_cards = [(''c'', demo_card)], cr_disabled = {}, cr_change_listeners = [''other'', ''calibrations'']\<rparr>))
      (foldl (calibration_step (\<lambda>_. ''h'') (\<lambda>_ _. Inr 0)) [] [Cal_register demo_artifact])) = Inr None"
proof -
  let ?reg = "\<lparr>cr_cards = [(''c'', demo_card)], cr_disabled = {}, cr_change_listeners = [''other'', ''calibrations'']\<rparr>"
  let ?new = "demo_card\<lparr>cc_fingerprint := ''g''\<rparr>"
  have 1: "cap_get (cc_capability_id ?new) ?reg = Some demo_card" by (simp add: cap_get_def demo_card_def)
  have 2: "cc_fingerprint demo_card \<noteq> cc_fingerprint ?new" "cc_fingerprint demo_card \<noteq> []" by (simp_all add: demo_card_def)
  have 3: "''calibrations'' \<in> set (cr_change_listeners ?reg)" by simp
  have "ck_capability_fingerprint (ca_key demo_artifact) = cc_fingerprint demo_card" by (simp add: demo_artifact_def demo_card_def)
  with model_change_revokes [OF 1 2 3 refl refl] show ?thesis by blast
qed

section \<open>Risk thresholds\<close>

record risk_threshold_policy =
  rtp_policy_id :: string
  rtp_version :: string
  rtp_domain :: string
  rtp_thresholds :: "(risk_class, real) dict"
  rtp_approved_by :: string
  rtp_human_approval_ref :: string
  rtp_deterministic_evidence_fallback :: bool

definition threshold_of :: "risk_threshold_policy \<Rightarrow> risk_class \<Rightarrow> real" where
  "threshold_of p r = (case map_of (rtp_thresholds p) r of None \<Rightarrow> 0 | Some x \<Rightarrow> x)"

definition RiskThresholdPolicy_post_init :: "risk_threshold_policy \<Rightarrow> risk_threshold_policy res" where
  "RiskThresholdPolicy_post_init p =
     require (rtp_policy_id p \<noteq> [] \<and> rtp_version p \<noteq> [] \<and> rtp_domain p \<noteq> [] \<and> rtp_approved_by p \<noteq> [] \<and> rtp_human_approval_ref p \<noteq> [])
       (DNCPolicyError ''risk threshold policy requires human approval provenance'') (
     require (set (dict_keys (rtp_thresholds p)) = set risk_class_members)
       (DNCPolicyError ''risk threshold policy MUST cover every risk class'') (
     require (\<not> list_ex (\<lambda>(_, x). \<not> (0 \<le> x \<and> x \<le> 1)) (rtp_thresholds p))
       (DNCPolicyError ''risk thresholds MUST be between 0 and 1'') (
     require (sorted (map (threshold_of p) risk_class_members))
       (DNCPolicyError ''risk thresholds MUST be non-decreasing with risk class'') (Inr p))))"

definition threshold_for :: "risk_threshold_policy \<Rightarrow> risk_class \<Rightarrow> string \<Rightarrow> real res" where
  "threshold_for p r domain =
     require (\<not> (domain \<noteq> rtp_domain p \<and> rtp_domain p \<noteq> ''*'')) (DNCPolicyError ''risk policy is inapplicable to domain'')
     (case map_of (rtp_thresholds p) r of None \<Rightarrow> Inl (KeyError (risk_class_value r)) | Some x \<Rightarrow> Inr x)"

type_synonym policy_table = "(string \<times> string, risk_threshold_policy) dict"

definition risk_policy_register :: "risk_threshold_policy \<Rightarrow> policy_table \<Rightarrow> policy_table" where
  "risk_policy_register p t = dict_set (rtp_domain p, rtp_version p) p t"

definition risk_policy_latest :: "string \<Rightarrow> policy_table \<Rightarrow> risk_threshold_policy option res" where
  "risk_policy_latest domain t =
     latest_version rtp_version (map snd (filter (\<lambda>(k, p). fst k = domain \<or> fst k = ''*'') t))"

lemma threshold_bounds:
  assumes "RiskThresholdPolicy_post_init p = Inr p" and "domain = rtp_domain p \<or> rtp_domain p = ''*''"
  shows "threshold_for p r domain = Inr (threshold_of p r) \<and> 0 \<le> threshold_of p r \<and> threshold_of p r \<le> 1"
proof -
  have "r \<in> fst ` set (rtp_thresholds p)"
    using assms(1) risk_class.members_all [of r] by (auto simp: RiskThresholdPolicy_post_init_def)
  then obtain x where x: "map_of (rtp_thresholds p) r = Some x" by (metis map_of_None_iff option.exhaust)
  then have "(r, x) \<in> set (rtp_thresholds p)" by (rule map_of_SomeD)
  with assms(1) have "0 \<le> x \<and> x \<le> 1" by (auto simp: RiskThresholdPolicy_post_init_def list_ex_iff)
  with x assms(2) show ?thesis by (auto simp: threshold_for_def threshold_of_def)
qed

text \<open>A higher risk never has a lower threshold.\<close>

lemma threshold_monotone:
  assumes "RiskThresholdPolicy_post_init p = Inr p" and "risk_order r \<le> risk_order s"
  shows "threshold_of p r \<le> threshold_of p s"
  using assms by (cases r; cases s) (simp_all add: RiskThresholdPolicy_post_init_def risk_class_members_def)

definition calibrated_lower_bound :: "calibration_artifact \<Rightarrow> real \<Rightarrow> real \<Rightarrow> real res" where
  "calibrated_lower_bound a probability z =
     require (ca_status a = CAL_CALIBRATED) (DNCCalibrationError ''confidence cannot be issued from an inapplicable artifact'') (
     require (0 \<le> probability \<and> probability \<le> 1) (ValueError ''probability MUST be between 0 and 1'')
     (Inr (max 0 (probability - z * sqrt (probability * (1 - probability) / of_int (cm_count (ca_metrics a)))))))"

definition issue_confidence ::
  "string \<Rightarrow> string \<Rightarrow> string \<Rightarrow> real \<Rightarrow> calibration_artifact \<Rightarrow> int \<Rightarrow> string list \<Rightarrow> confidence_estimate res" where
  "issue_confidence estimate_id target_id target_type probability a cluster_count groups =
     (case calibrated_lower_bound a probability (196 / 100) of
        Inl e \<Rightarrow> Inl e
      | Inr lower \<Rightarrow>
          ConfidenceEstimate_post_init
            \<lparr>cf_estimate_id = estimate_id, cf_target_id = target_id, cf_target_type = target_type,
             cf_p_correct = Some probability, cf_failure_probability = Some (1 - probability), cf_lower_bound = Some lower,
             cf_upper_bound = Some (min 1 (probability + (probability - lower))), cf_method = ca_method a,
             cf_calibration_model = Some (ca_artifact_id a), cf_calibration_dataset = Some (ca_dataset_id a),
             cf_calibration_split = Some (ca_split a), cf_calibration_version = Some (ca_version a),
             cf_domain = ck_domain (ca_key a), cf_risk_class = ck_risk_class (ca_key a),
             cf_capability_fingerprint = Some (ck_capability_fingerprint (ca_key a)),
             cf_prompt_fingerprint = Some (ck_prompt_fingerprint (ca_key a)),
             cf_verifier_fingerprints = ck_verifier_fingerprints (ca_key a),
             cf_sample_count = cm_count (ca_metrics a), cf_semantic_cluster_count = cluster_count,
             cf_correlation_groups = groups,
             cf_held_out_metrics = [(''brier_score'', cm_brier_score (ca_metrics a)), (''log_loss'', cm_log_loss (ca_metrics a)),
               (''expected_calibration_error'', cm_expected_calibration_error (ca_metrics a))],
             cf_shift_indicators = [], cf_applicability_status = ''calibrated'', cf_schema_version = COGNITIVE_SCHEMA_VERSION, cf_metadata = []\<rparr>)"

text \<open>
  A confidence is issued from every calibrated artifact with held-out evidence, and its interval
  contains the probability.
\<close>

lemma issue_confidence_bounds:
  assumes "CalibrationArtifact_post_init h a = Inr a" and "ca_status a = CAL_CALIBRATED" and "0 \<le> p" and "p \<le> 1"
    and "eid \<noteq> []" and "tid \<noteq> []" and "tt \<noteq> []" and "0 \<le> n"
  shows "\<exists>c l u. issue_confidence eid tid tt p a n gs = Inr c \<and> cf_lower_bound c = Some l \<and> cf_upper_bound c = Some u
    \<and> 0 \<le> l \<and> l \<le> p \<and> p \<le> u \<and> u \<le> 1 \<and> cf_applicability_status c = ''calibrated''"
proof -
  have c: "2 \<le> cm_count (ca_metrics a)" using assms(1,2) by (simp add: CalibrationArtifact_post_init_def)
  define l where "l = max 0 (p - 196 / 100 * sqrt (p * (1 - p) / of_int (cm_count (ca_metrics a))))"
  have "0 \<le> sqrt (p * (1 - p) / of_int (cm_count (ca_metrics a)))" using assms(3,4) c by simp
  then have l: "0 \<le> l" "l \<le> p" using assms(3) by (auto simp: l_def)
  have "calibrated_lower_bound a p (196 / 100) = Inr l" using assms(2-4) by (simp add: calibrated_lower_bound_def l_def)
  then show ?thesis using assms(3-8) l c
    by (auto simp: issue_confidence_def ConfidenceEstimate_post_init_def)
qed

section \<open>Isotonic regression\<close>

text \<open>
  \<open>fit_isotonic\<close>: blocks of a score, a mean label and a count. Two neighbours whose means decrease
  are merged and the loop steps back; otherwise it moves on.
\<close>

type_synonym block = "real \<times> real \<times> nat"

fun merge_blocks :: "block \<Rightarrow> block \<Rightarrow> block" where
  "merge_blocks (x, y, m) (x', y', n) = (x', (y * real m + y' * real n) / real (m + n), m + n)"

function iso_loop :: "block list \<Rightarrow> nat \<Rightarrow> block list" where
  "iso_loop bs i =
     (if Suc i < length bs
      then if fst (snd (bs ! i)) > fst (snd (bs ! Suc i))
           then iso_loop (take i bs @ [merge_blocks (bs ! i) (bs ! Suc i)] @ drop (i + 2) bs) (i - 1)
           else iso_loop bs (Suc i)
      else bs)"
  by pat_completeness auto

termination
  by (relation "measures [\<lambda>(bs, i). length bs, \<lambda>(bs, i). length bs - i]") auto

declare iso_loop.simps [simp del]

definition fit_isotonic :: "(real \<times> real) list \<Rightarrow> (real \<times> real) list" where
  "fit_isotonic points = map (\<lambda>(x, y, n). (x, y)) (iso_loop (map (\<lambda>(x, y). (x, y, 1)) (sort points)) 0)"

abbreviation block_mean :: "block \<Rightarrow> real" where
  "block_mean b \<equiv> fst (snd b)"

definition block_weight :: "block list \<Rightarrow> real" where
  "block_weight bs = sum_list (map (\<lambda>(x, y, n). y * real n) bs)"

definition block_count :: "block list \<Rightarrow> nat" where
  "block_count bs = sum_list (map (\<lambda>(x, y, n). n) bs)"

definition blocks_ok :: "block list \<Rightarrow> bool" where
  "blocks_ok bs \<longleftrightarrow> sorted (map fst bs) \<and> (\<forall>b \<in> set bs. 0 < snd (snd b))"

lemma split_at_two: "Suc i < length bs \<Longrightarrow> bs = take i bs @ [bs ! i, bs ! Suc i] @ drop (i + 2) bs"
  by (metis Cons_nth_drop_Suc Suc_lessD add_2_eq_Suc' append_Cons append_Nil append_take_drop_id)

lemma merge_props:
  fixes bs :: "block list"
  assumes "bs = as @ [b, c] @ ds" and "blocks_ok bs"
  defines "ms \<equiv> as @ [merge_blocks b c] @ ds"
  shows "blocks_ok ms \<and> block_weight ms = block_weight bs \<and> block_count ms = block_count bs"
proof -
  obtain x y m x' y' n where bc: "b = (x, y, m)" "c = (x', y', n)" by (cases b; cases c) auto
  have mn: "0 < m" "0 < n" using assms(1,2) bc by (auto simp: blocks_ok_def)
  then have "(y * real m + y' * real n) / real (m + n) * real (m + n) = y * real m + y' * real n" by simp
  then have "block_weight ms = block_weight bs" "block_count ms = block_count bs"
    by (simp_all add: ms_def assms(1) bc block_weight_def block_count_def)
  moreover have "blocks_ok ms" using assms(1,2) mn by (auto simp: blocks_ok_def bc ms_def sorted_append)
  ultimately show ?thesis by simp
qed

lemma iso_loop_result:
  assumes "blocks_ok bs" and "sorted (map block_mean (take (Suc i) bs))"
  shows "blocks_ok (iso_loop bs i) \<and> sorted (map block_mean (iso_loop bs i))
    \<and> block_weight (iso_loop bs i) = block_weight bs \<and> block_count (iso_loop bs i) = block_count bs"
  using assms
proof (induction bs i rule: iso_loop.induct)
  case (1 bs i)
  show ?case
  proof (cases "Suc i < length bs")
    case False
    with 1(3,4) show ?thesis by (simp add: iso_loop.simps [of bs i])
  next
    case more: True
    show ?thesis
    proof (cases "block_mean (bs ! i) > block_mean (bs ! Suc i)")
      case True
      let ?ms = "take i bs @ [merge_blocks (bs ! i) (bs ! Suc i)] @ drop (i + 2) bs"
      have m: "blocks_ok ?ms" "block_weight ?ms = block_weight bs" "block_count ?ms = block_count bs"
        using merge_props [OF split_at_two [OF more] 1(3)] by auto
      have "take (Suc (i - 1)) ?ms = (if i = 0 then take 1 ?ms else take i bs)" using more by (cases i) auto
      moreover have "sorted (map block_mean (take i bs))"
        using 1(4) more by (simp add: take_Suc_conv_app_nth sorted_append)
      ultimately have "sorted (map block_mean (take (Suc (i - 1)) ?ms))" by (cases i) simp_all
      from 1(1) [OF more True m(1) this] m(2,3) more True show ?thesis by (simp add: iso_loop.simps [of bs i])
    next
      case False
      have "sorted (map block_mean (take (Suc (Suc i)) bs))"
      proof -
        have "take (Suc (Suc i)) bs = take i bs @ [bs ! i, bs ! Suc i]"
          using more by (simp add: take_Suc_conv_app_nth)
        with 1(4) False more show ?thesis
          by (fastforce simp: take_Suc_conv_app_nth [of i bs] sorted_append)
      qed
      from 1(2) [OF more False 1(3) this] more False show ?thesis by (simp add: iso_loop.simps [of bs i])
    qed
  qed
qed

lemma sorted_fst: "sorted xs \<Longrightarrow> sorted (map fst (xs :: (real \<times> real) list))"
  by (induction xs) (fastforce simp: less_eq_prod_def)+

text \<open>
  Isotonic regression returns a monotone fit: scores and fitted means are both in ascending
  order, no block is empty, and the blocks together contain all points with the same total.
\<close>

theorem fit_isotonic_monotone:
  "\<exists>bs. fit_isotonic points = map (\<lambda>(x, y, n). (x, y)) bs
     \<and> sorted (map fst (fit_isotonic points)) \<and> sorted (map snd (fit_isotonic points))
     \<and> block_count bs = length points \<and> block_weight bs = sum_list (map snd points)"
proof -
  let ?b = "map (\<lambda>(x, y). (x, y, 1 :: nat)) (sort points)"
  have "sorted (map fst (sort points))"
    by (rule sorted_fst) simp
  then have ok: "blocks_ok ?b" by (auto simp: blocks_ok_def o_def case_prod_beta)
  have s: "sorted (map block_mean (take (Suc 0) ?b))" by (cases ?b) auto
  have w: "block_weight ?b = sum_list (map snd (sort points))" and c: "block_count ?b = length points"
    by (simp_all add: block_weight_def block_count_def o_def case_prod_beta sum_list_triv)
  have "sum_list (map snd (sort points)) = sum_list (map snd points)"
    by (metis mset_map mset_sort sum_mset_sum_list)
  with iso_loop_result [OF ok s] w c show ?thesis
    by (intro exI [of _ "iso_loop ?b 0"]) (simp add: fit_isotonic_def blocks_ok_def o_def case_prod_beta)
qed

end
