(* ===== verification/Halting.thy ===== *)
theory Halting
  imports Calibration
begin

text \<open>
  Clustering of attempts and adaptive halting (\<open>assurance/semantic.py\<close>, \<open>halting/contracts.py\<close>,
  \<open>halting/policy.py\<close>). The similarity of two texts, \<open>difflib\<close>'s ratio, is a parameter;
  floating-point values are real numbers. A set of claims is the list of its elements.
\<close>

declare map_of_eq_Some_iff [simp del] Some_eq_map_of_iff [simp del]

section \<open>Semantic clusters\<close>

record semantic_attempt =
  sat_attempt_id :: string
  sat_conclusion :: string
  sat_atomic_claims :: "string list"
  sat_correlation_group :: string
  sat_verifier_coverage :: real
  sat_weight :: real

definition SemanticAttempt_post_init :: "semantic_attempt \<Rightarrow> semantic_attempt res" where
  "SemanticAttempt_post_init a =
     require (sat_attempt_id a \<noteq> [] \<and> sat_conclusion a \<noteq> [] \<and> sat_correlation_group a \<noteq> [])
       (ValueError ''semantic attempt identity, conclusion, and correlation group are required'') (
     require (0 \<le> sat_verifier_coverage a \<and> sat_verifier_coverage a \<le> 1 \<and> \<not> sat_weight a \<le> 0)
       (ValueError ''coverage and weight are invalid'') (Inr a))"

record semantic_cluster =
  scl_cluster_id :: string
  scl_normalized_conclusion :: string
  scl_attempt_ids :: "string list"
  scl_normalized_claims :: "string list"
  scl_correlation_groups :: "string list"
  scl_independent_weight :: real
  scl_verifier_coverage :: real

definition claim_similarity :: "string list \<Rightarrow> string list \<Rightarrow> real" where
  "claim_similarity left right =
     (let a = normalize_text ` set left; b = normalize_text ` set right
      in if a \<noteq> {} \<or> b \<noteq> {} then real (card (a \<inter> b)) / real (card (a \<union> b)) else 1)"

type_synonym ratio = "string \<Rightarrow> string \<Rightarrow> real"

definition fits_group :: "ratio \<Rightarrow> real \<Rightarrow> semantic_attempt \<Rightarrow> semantic_attempt list \<Rightarrow> bool" where
  "fits_group ratio threshold a g \<longleftrightarrow>
     ratio (normalize_text (sat_conclusion (hd g))) (normalize_text (sat_conclusion a)) \<ge> threshold
     \<and> claim_similarity (sat_atomic_claims (hd g)) (sat_atomic_claims a) \<ge> threshold"

fun add_to_group :: "ratio \<Rightarrow> real \<Rightarrow> semantic_attempt \<Rightarrow> semantic_attempt list list \<Rightarrow> semantic_attempt list list" where
  "add_to_group ratio threshold a [] = [[a]]"
| "add_to_group ratio threshold a (g # gs) =
     (if fits_group ratio threshold a g then (g @ [a]) # gs else g # add_to_group ratio threshold a gs)"

definition correlation_weights :: "semantic_attempt list \<Rightarrow> (string, real) dict" where
  "correlation_weights g =
     fold (\<lambda>a d. dict_set (sat_correlation_group a)
        (max (case map_of d (sat_correlation_group a) of None \<Rightarrow> 0 | Some w \<Rightarrow> w) (sat_weight a)) d) g []"

definition make_cluster :: "nat \<Rightarrow> semantic_attempt list \<Rightarrow> semantic_cluster" where
  "make_cluster index g =
     \<lparr>scl_cluster_id = ''cluster-'' @ show_nat (index + 1), scl_normalized_conclusion = normalize_text (sat_conclusion (hd g)),
      scl_attempt_ids = map sat_attempt_id g,
      scl_normalized_claims = sorted_list_of_set (normalize_text ` (\<Union>a \<in> set g. set (sat_atomic_claims a))),
      scl_correlation_groups = sort (dict_keys (correlation_weights g)),
      scl_independent_weight = sum_list (map snd (correlation_weights g)),
      scl_verifier_coverage = sum_list (map (\<lambda>a. sat_verifier_coverage a * sat_weight a) g) / sum_list (map sat_weight g)\<rparr>"

definition group_attempts :: "ratio \<Rightarrow> real \<Rightarrow> semantic_attempt list \<Rightarrow> semantic_attempt list list" where
  "group_attempts ratio threshold attempts = fold (add_to_group ratio threshold) attempts []"

definition cluster_attempts :: "ratio \<Rightarrow> real \<Rightarrow> semantic_attempt list \<Rightarrow> semantic_cluster list res" where
  "cluster_attempts ratio threshold attempts =
     require (0 \<le> threshold \<and> threshold \<le> 1) (ValueError ''similarity_threshold MUST be between 0 and 1'')
     (let groups = group_attempts ratio threshold attempts
      in Inr (sort_key (\<lambda>c. (- scl_independent_weight c, scl_cluster_id c))
           (map (\<lambda>(i, g). make_cluster i g) (List.enumerate 0 groups))))"

record contradiction =
  con_contradiction_id :: string
  con_left_id :: string
  con_right_id :: string
  con_reason :: string
  con_critical :: bool

definition make_contradiction :: "string \<Rightarrow> string \<Rightarrow> string \<Rightarrow> (string \<times> string) \<times> contradiction" where
  "make_contradiction a b reason =
     (let l = min a b; r = max a b in
      ((l, r), \<lparr>con_contradiction_id = ''contradiction:'' @ l @ '':'' @ r, con_left_id = l, con_right_id = r, con_reason = reason,
         con_critical = True\<rparr>))"

definition opt_text :: "string option \<Rightarrow> string" where
  "opt_text x = normalize_text (case x of None \<Rightarrow> [] | Some s \<Rightarrow> s)"

definition truthy :: "string option \<Rightarrow> bool" where
  "truthy x \<longleftrightarrow> (case x of None \<Rightarrow> False | Some s \<Rightarrow> s \<noteq> [])"

definition conflicting :: "epistemic_item \<Rightarrow> epistemic_item \<Rightarrow> bool" where
  "conflicting l r \<longleftrightarrow> opt_text (ei_subject l) = opt_text (ei_subject r) \<and> opt_text (ei_predicate l) = opt_text (ei_predicate r)
     \<and> opt_text (ei_object l) \<noteq> opt_text (ei_object r) \<and> ei_scope l = ei_scope r"

fun conflict_pairs :: "epistemic_item list \<Rightarrow> ((string \<times> string) \<times> contradiction) list" where
  "conflict_pairs [] = []"
| "conflict_pairs (l # rest) =
     map (\<lambda>r. make_contradiction (ei_item_id l) (ei_item_id r) ''conflicting structured objects'') (filter (conflicting l) rest)
     @ conflict_pairs rest"

definition detect_contradictions :: "epistemic_item list \<Rightarrow> epistemic_relation list \<Rightarrow> contradiction list" where
  "detect_contradictions items rels =
     (let explicit = map (\<lambda>r. make_contradiction (er_source_id r) (er_target_id r) ''explicit relation'')
                       (filter (\<lambda>r. er_relation_type r = REL_CONTRADICTS) rels);
          structured = filter (\<lambda>i. truthy (ei_subject i) \<and> truthy (ei_predicate i) \<and> truthy (ei_object i)) items;
          found = fold (\<lambda>(k, c) d. dict_set k c d) (explicit @ conflict_pairs structured) []
      in map snd (sort_key fst found))"

section \<open>Halting contracts\<close>

datatype inference_action = IA_SAMPLE | IA_DIVERSIFY | IA_VERIFY | IA_RETRIEVE | IA_ASK | IA_STOP | IA_ABSTAIN

definition inference_actions :: "inference_action list" where
  "inference_actions = [IA_SAMPLE, IA_DIVERSIFY, IA_VERIFY, IA_RETRIEVE, IA_ASK, IA_STOP, IA_ABSTAIN]"

fun inference_action_value :: "inference_action \<Rightarrow> string" where
  "inference_action_value IA_SAMPLE = ''SAMPLE''"
| "inference_action_value IA_DIVERSIFY = ''DIVERSIFY''"
| "inference_action_value IA_VERIFY = ''VERIFY''"
| "inference_action_value IA_RETRIEVE = ''RETRIEVE''"
| "inference_action_value IA_ASK = ''ASK''"
| "inference_action_value IA_STOP = ''STOP''"
| "inference_action_value IA_ABSTAIN = ''ABSTAIN''"

datatype halting_policy_mode = HPM_FIXED_ATTEMPT | HPM_FIXED_REFINEMENT | HPM_SELF_CONSISTENCY | HPM_ADAPTIVE

record attempt_record =
  at_attempt_id :: string
  at_task_id :: string
  at_conclusion :: string
  at_atomic_claims :: "string list"
  at_model_fingerprint :: string
  at_prompt_fingerprint :: string
  at_seed_family :: string
  at_retrieval_fingerprint :: string
  at_verifier_result_ids :: "string list"
  at_tokens :: int
  at_cost :: real
  at_latency_ms :: int
  at_completed :: bool

definition AttemptRecord_post_init :: "attempt_record \<Rightarrow> attempt_record res" where
  "AttemptRecord_post_init a =
     require (at_attempt_id a \<noteq> [] \<and> at_task_id a \<noteq> [] \<and> at_model_fingerprint a \<noteq> [] \<and> at_prompt_fingerprint a \<noteq> [] \<and> at_seed_family a \<noteq> [])
       (ValueError ''attempt identity and diversity fingerprints MUST be complete'') (
     require (\<not> (at_tokens a < 0 \<or> at_cost a < 0 \<or> at_latency_ms a < 0))
       (ValueError ''attempt resource usage MUST be non-negative'') (Inr a))"

definition correlation_group :: "attempt_record \<Rightarrow> string" where
  "correlation_group a = at_model_fingerprint a @ '':'' @ at_prompt_fingerprint a @ '':'' @ at_seed_family a @ '':'' @ at_retrieval_fingerprint a"

definition to_semantic :: "attempt_record \<Rightarrow> semantic_attempt res" where
  "to_semantic a =
     SemanticAttempt_post_init
       \<lparr>sat_attempt_id = at_attempt_id a, sat_conclusion = at_conclusion a, sat_atomic_claims = at_atomic_claims a,
        sat_correlation_group = correlation_group a,
        sat_verifier_coverage = (if at_verifier_result_ids a \<noteq> [] then 1 else 0), sat_weight = 1\<rparr>"

record inference_budget =
  ib_max_attempts :: int
  ib_max_tokens :: int
  ib_max_cost :: real
  ib_max_time_ms :: int
  ib_max_single_attempt_tokens :: "int option"
  ib_max_single_attempt_cost :: "real option"
  ib_max_single_attempt_time_ms :: "int option"

definition InferenceBudget_post_init :: "inference_budget \<Rightarrow> inference_budget res" where
  "InferenceBudget_post_init b =
     require (\<not> (ib_max_attempts b \<le> 0 \<or> ib_max_tokens b < 0 \<or> ib_max_cost b < 0 \<or> ib_max_time_ms b < 0))
       (ValueError ''inference budget limits are invalid'') (Inr b)"

record budget_status =
  bst_attempts :: int
  bst_tokens :: int
  bst_cost :: real
  bst_time_ms :: int
  bst_exhausted :: bool
  bst_tail_violations :: "string list"

record halting_context =
  hx_task_id :: string
  hx_domain :: string
  hx_risk_class :: risk_class
  hx_attempts :: "attempt_record list"
  hx_budget :: inference_budget
  hx_mandatory_checks_passed :: bool
  hx_output_contract_satisfied :: bool
  hx_confidence :: "confidence_estimate option"
  hx_critical_contradictions :: "string list"
  hx_missing_information :: "string list"
  hx_ambiguous_fields :: "string list"
  hx_calibration_shifted :: bool
  hx_expected_action_values :: "(inference_action, real) dict"
  hx_action_costs :: "(inference_action, real) dict"
  hx_available_actions :: "inference_action set"

definition HaltingContext_post_init :: "halting_context \<Rightarrow> halting_context res" where
  "HaltingContext_post_init x =
     require (hx_task_id x \<noteq> [] \<and> hx_domain x \<noteq> []) (ValueError ''halting context task and domain MUST be non-empty'') (
     require (\<not> list_ex (\<lambda>a. at_task_id a \<noteq> hx_task_id x) (hx_attempts x))
       (ValueError ''all attempts MUST belong to the active task'') (Inr x))"

record inference_decision =
  id_action :: inference_action
  id_reason_codes :: "string list"
  id_budget_status :: budget_status
  id_threshold :: "real option"
  id_calibrated_lower_bound :: "real option"
  id_cluster_count :: int
  id_leading_cluster_weight :: real
  id_alternatives :: "inference_action list"
  id_policy_mode :: halting_policy_mode

section \<open>Policies\<close>

definition exceeds :: "'a::linorder option \<Rightarrow> 'a \<Rightarrow> bool" where
  "exceeds limit x \<longleftrightarrow> (case limit of None \<Rightarrow> False | Some m \<Rightarrow> x > m)"

definition tail_violations :: "inference_budget \<Rightarrow> attempt_record \<Rightarrow> string list" where
  "tail_violations b a =
     (if exceeds (ib_max_single_attempt_tokens b) (at_tokens a) then [''TOKENS:'' @ at_attempt_id a] else [])
     @ (if exceeds (ib_max_single_attempt_cost b) (at_cost a) then [''COST:'' @ at_attempt_id a] else [])
     @ (if exceeds (ib_max_single_attempt_time_ms b) (at_latency_ms a) then [''TIME:'' @ at_attempt_id a] else [])"

definition budget_status_of :: "halting_context \<Rightarrow> budget_status" where
  "budget_status_of x =
     (let n = int (length (hx_attempts x)); tokens = sum_list (map at_tokens (hx_attempts x));
          cost = sum_list (map at_cost (hx_attempts x)); time_ms = sum_list (map at_latency_ms (hx_attempts x));
          tails = concat (map (tail_violations (hx_budget x)) (hx_attempts x)); b = hx_budget x
      in \<lparr>bst_attempts = n, bst_tokens = tokens, bst_cost = cost, bst_time_ms = time_ms,
          bst_exhausted = (n \<ge> ib_max_attempts b \<or> tokens \<ge> ib_max_tokens b \<or> cost \<ge> ib_max_cost b \<or> time_ms \<ge> ib_max_time_ms b \<or> tails \<noteq> []),
          bst_tail_violations = tails\<rparr>)"

definition minimum_stop_checks :: "halting_context \<Rightarrow> bool" where
  "minimum_stop_checks x \<longleftrightarrow> hx_mandatory_checks_passed x \<and> hx_output_contract_satisfied x \<and> hx_critical_contradictions x = []
     \<and> hx_missing_information x = []
     \<and> (case hx_confidence x of None \<Rightarrow> False | Some c \<Rightarrow> cf_applicability_status c = ''calibrated'')"

definition base_decision :: "inference_action \<Rightarrow> string \<Rightarrow> budget_status \<Rightarrow> halting_policy_mode \<Rightarrow> inference_decision" where
  "base_decision action reason status mode =
     \<lparr>id_action = action, id_reason_codes = [reason], id_budget_status = status, id_threshold = None,
      id_calibrated_lower_bound = None, id_cluster_count = 0, id_leading_cluster_weight = 0, id_alternatives = [], id_policy_mode = mode\<rparr>"

definition fixed_attempt_decide :: "int \<Rightarrow> halting_context \<Rightarrow> inference_decision" where
  "fixed_attempt_decide attempts x =
     (let status = budget_status_of x;
          action = (if int (length (hx_attempts x)) \<ge> attempts then (if minimum_stop_checks x then IA_STOP else IA_ABSTAIN) else IA_SAMPLE);
          action' = (if bst_exhausted status \<and> action \<noteq> IA_STOP then IA_ABSTAIN else action)
      in base_decision action' ''FIXED_ATTEMPT_BASELINE'' status HPM_FIXED_ATTEMPT)"

definition fixed_refinement_decide :: "int \<Rightarrow> halting_context \<Rightarrow> inference_decision" where
  "fixed_refinement_decide refinements x =
     (let status = budget_status_of x; n = int (length (hx_attempts x));
          action = (if bst_exhausted status \<and> n \<le> refinements then IA_ABSTAIN
                    else if n > refinements then (if minimum_stop_checks x then IA_STOP else IA_ABSTAIN) else IA_SAMPLE)
      in base_decision action ''FIXED_REFINEMENT_BASELINE'' status HPM_FIXED_REFINEMENT)"

definition attempt_clusters :: "ratio \<Rightarrow> halting_context \<Rightarrow> semantic_cluster list res" where
  "attempt_clusters ratio x =
     (case map_res to_semantic (hx_attempts x) of Inl e \<Rightarrow> Inl e | Inr as \<Rightarrow> cluster_attempts ratio (88 / 100) as)"

definition leading_fraction :: "semantic_cluster list \<Rightarrow> real" where
  "leading_fraction cs =
     (let w = sum_list (map scl_independent_weight cs)
      in case cs of [] \<Rightarrow> 0 | c # _ \<Rightarrow> if w \<noteq> 0 then scl_independent_weight c / w else 0)"

definition self_consistency_decide :: "ratio \<Rightarrow> int \<Rightarrow> real \<Rightarrow> halting_context \<Rightarrow> inference_decision res" where
  "self_consistency_decide ratio attempts minimum x =
     (case attempt_clusters ratio x of
        Inl e \<Rightarrow> Inl e
      | Inr clusters \<Rightarrow>
          (let status = budget_status_of x; fraction = leading_fraction clusters;
               action = (if int (length (hx_attempts x)) \<ge> attempts
                         then (if fraction \<ge> minimum \<and> minimum_stop_checks x then IA_STOP else IA_ABSTAIN)
                         else if bst_exhausted status then IA_ABSTAIN else IA_SAMPLE)
           in Inr ((base_decision action ''SELF_CONSISTENCY_BASELINE'' status HPM_SELF_CONSISTENCY)
                \<lparr>id_cluster_count := int (length clusters), id_leading_cluster_weight := fraction\<rparr>)))"

record adaptive_policy =
  ap_threshold_policy :: risk_threshold_policy
  ap_enabled :: bool
  ap_minimum_independent_groups :: int
  ap_minimum_leading_fraction :: real
  ap_fallback_attempts :: int

definition value_or_zero :: "(inference_action, real) dict \<Rightarrow> inference_action \<Rightarrow> real" where
  "value_or_zero d a = (case map_of d a of None \<Rightarrow> 0 | Some v \<Rightarrow> v)"

text \<open>
  The key of \<open>max\<close> contains the name of the action, so the result does not depend on the order in
  which the set of available actions is iterated.
\<close>

definition best_next_action :: "halting_context \<Rightarrow> inference_action \<times> real \<times> real" where
  "best_next_action x =
     (case filter (\<lambda>a. a \<in> hx_available_actions x \<and> a \<notin> {IA_STOP, IA_ABSTAIN}) inference_actions of
        [] \<Rightarrow> (IA_ABSTAIN, 0, 0)
      | a # as \<Rightarrow>
          (let selected = max_on (\<lambda>a. (value_or_zero (hx_expected_action_values x) a - value_or_zero (hx_action_costs x) a,
                                        inference_action_value a)) a as
           in (selected, value_or_zero (hx_expected_action_values x) selected, value_or_zero (hx_action_costs x) selected)))"

definition early_decision ::
  "inference_action \<Rightarrow> string \<Rightarrow> budget_status \<Rightarrow> semantic_cluster list \<Rightarrow> real \<Rightarrow> inference_action list \<Rightarrow> inference_decision" where
  "early_decision action reason status clusters fraction alternatives =
     (base_decision action reason status HPM_ADAPTIVE)
       \<lparr>id_cluster_count := int (length clusters), id_leading_cluster_weight := fraction, id_alternatives := alternatives\<rparr>"

definition late_decision ::
  "inference_action \<Rightarrow> string list \<Rightarrow> budget_status \<Rightarrow> real \<Rightarrow> real option \<Rightarrow> semantic_cluster list \<Rightarrow> real \<Rightarrow> inference_action list
   \<Rightarrow> inference_decision" where
  "late_decision action reasons status threshold lower clusters fraction alternatives =
     \<lparr>id_action = action, id_reason_codes = reasons, id_budget_status = status, id_threshold = Some threshold,
      id_calibrated_lower_bound = lower, id_cluster_count = int (length clusters), id_leading_cluster_weight = fraction,
      id_alternatives = alternatives, id_policy_mode = HPM_ADAPTIVE\<rparr>"

definition applicable_confidence :: "halting_context \<Rightarrow> bool" where
  "applicable_confidence x \<longleftrightarrow>
     (case hx_confidence x of None \<Rightarrow> False | Some c \<Rightarrow> cf_applicability_status c = ''calibrated'')"

definition independent_groups :: "semantic_cluster list \<Rightarrow> int" where
  "independent_groups clusters = (case clusters of [] \<Rightarrow> 0 | lead # _ \<Rightarrow> int (length (scl_correlation_groups lead)))"

definition stable_clusters :: "adaptive_policy \<Rightarrow> semantic_cluster list \<Rightarrow> bool" where
  "stable_clusters p clusters \<longleftrightarrow> clusters \<noteq> [] \<and> leading_fraction clusters \<ge> ap_minimum_leading_fraction p
     \<and> independent_groups clusters \<ge> ap_minimum_independent_groups p"

definition lower_bound_of :: "halting_context \<Rightarrow> real option" where
  "lower_bound_of x = (case hx_confidence x of None \<Rightarrow> None | Some c \<Rightarrow> cf_lower_bound c)"

definition may_stop :: "adaptive_policy \<Rightarrow> halting_context \<Rightarrow> semantic_cluster list \<Rightarrow> real \<Rightarrow> bool" where
  "may_stop p x clusters threshold \<longleftrightarrow>
     hx_mandatory_checks_passed x \<and> hx_output_contract_satisfied x \<and> applicable_confidence x
     \<and> (case lower_bound_of x of None \<Rightarrow> False | Some l \<Rightarrow> l \<ge> threshold) \<and> stable_clusters p clusters
     \<and> fst (snd (best_next_action x)) \<le> snd (snd (best_next_action x))"

definition adaptive_late :: "adaptive_policy \<Rightarrow> halting_context \<Rightarrow> semantic_cluster list \<Rightarrow> real \<Rightarrow> inference_decision" where
  "adaptive_late p x clusters threshold =
     (let available = hx_available_actions x;
          late = (\<lambda>action reasons. late_decision action reasons (budget_status_of x) threshold (lower_bound_of x) clusters
                    (leading_fraction clusters) (filter (\<lambda>a. a \<in> available) inference_actions))
      in if clusters \<noteq> [] \<and> independent_groups clusters < ap_minimum_independent_groups p \<and> IA_DIVERSIFY \<in> available
         then late IA_DIVERSIFY [''INDEPENDENCE_INSUFFICIENT'']
         else if may_stop p x clusters threshold \<and> IA_STOP \<in> available
         then late IA_STOP [''MANDATORY_CHECKS_PASS'', ''CALIBRATED_BOUND_MET'', ''SEMANTIC_STABILITY'', ''MARGINAL_VALUE_EXHAUSTED'']
         else let next_action = (if \<not> applicable_confidence x \<and> IA_VERIFY \<in> available then IA_VERIFY else fst (best_next_action x));
                  next_action' = (if next_action \<notin> available \<or> next_action \<in> {IA_STOP, IA_ABSTAIN} then IA_SAMPLE else next_action)
              in late next_action' [''STOP_PRECONDITIONS_UNMET''])"

definition adaptive_decide :: "ratio \<Rightarrow> adaptive_policy \<Rightarrow> halting_context \<Rightarrow> inference_decision res" where
  "adaptive_decide ratio p x =
     (if \<not> ap_enabled p then Inr (fixed_attempt_decide (ap_fallback_attempts p) x)
      else case attempt_clusters ratio x of
        Inl e \<Rightarrow> Inl e
      | Inr clusters \<Rightarrow>
          (let status = budget_status_of x; available = hx_available_actions x;
               early = (\<lambda>action reason. Inr (early_decision action reason status clusters (leading_fraction clusters)
                          (filter (\<lambda>a. a \<in> available) inference_actions)))
           in if hx_ambiguous_fields x \<noteq> [] \<and> IA_ASK \<in> available then early IA_ASK ''AMBIGUITY_REQUIRES_CLARIFICATION''
              else if hx_missing_information x \<noteq> [] \<and> IA_RETRIEVE \<in> available then early IA_RETRIEVE ''MISSING_INFORMATION''
              else if hx_critical_contradictions x \<noteq> [] \<and> IA_VERIFY \<in> available then early IA_VERIFY ''CRITICAL_CONTRADICTION''
              else if hx_calibration_shifted x
              then early (if IA_DIVERSIFY \<in> available \<and> \<not> bst_exhausted status then IA_DIVERSIFY else IA_ABSTAIN) ''CALIBRATION_SHIFTED''
              else if bst_exhausted status then early IA_ABSTAIN ''BUDGET_EXHAUSTED''
              else case threshold_for (ap_threshold_policy p) (hx_risk_class x) (hx_domain x) of
                Inl e \<Rightarrow> Inl e
              | Inr threshold \<Rightarrow> Inr (adaptive_late p x clusters threshold)))"

section \<open>Clusters\<close>

lemma add_to_group_mset: "mset (concat (add_to_group ratio th a gs)) = add_mset a (mset (concat gs))"
  by (induction gs) auto

lemma group_attempts_mset: "mset (concat (group_attempts ratio th as)) = mset as"
proof -
  have "mset (concat (fold (add_to_group ratio th) as gs)) = mset as + mset (concat gs)" for gs
    by (induction as arbitrary: gs) (simp_all add: add_to_group_mset)
  from this [of "[]"] show ?thesis by (simp add: group_attempts_def)
qed

lemma mset_concat_map: "mset (concat (map f xs)) = \<Sum>\<^sub># (image_mset (\<lambda>x. mset (f x)) (mset xs))"
  by (induction xs) auto

text \<open>
  Clusters partition the attempts: every attempt is in exactly one cluster, and the clusters are
  in descending order of their independent weight.
\<close>

lemma clusters_partition:
  assumes "cluster_attempts ratio th as = Inr cs"
  shows "mset (concat (map scl_attempt_ids cs)) = mset (map sat_attempt_id as)
    \<and> sorted (map (\<lambda>c. - scl_independent_weight c) cs)"
proof -
  let ?gs = "group_attempts ratio th as"
  let ?cs = "map (\<lambda>(i, g). make_cluster i g) (List.enumerate 0 ?gs)"
  let ?k = "\<lambda>c. (- scl_independent_weight c, scl_cluster_id c)"
  have cs: "cs = sort_key ?k ?cs" using assms by (simp add: cluster_attempts_def Let_def)
  have "map scl_attempt_ids ?cs = map (map sat_attempt_id) (map snd (List.enumerate 0 ?gs))"
    by (simp only: map_map o_def case_prod_beta make_cluster_def semantic_cluster.select_convs)
  then have "concat (map scl_attempt_ids ?cs) = map sat_attempt_id (concat ?gs)" by (simp add: map_concat)
  moreover have "mset (concat (map scl_attempt_ids cs)) = mset (concat (map scl_attempt_ids ?cs))"
    by (simp only: cs mset_concat_map mset_sort)
  ultimately have "mset (concat (map scl_attempt_ids cs)) = mset (map sat_attempt_id as)"
    by (metis group_attempts_mset mset_map)
  moreover have "sorted (map ?k cs)" by (simp add: cs)
  then have "sorted (map (\<lambda>c. - scl_independent_weight c) cs)"
    by (induction cs) (fastforce simp: less_eq_prod_def)+
  ultimately show ?thesis by simp
qed

section \<open>When inference stops\<close>

lemma early_action [simp]: "id_action (early_decision a r s c f l) = a"
  by (simp add: early_decision_def base_decision_def)

lemma late_action [simp]: "id_action (late_decision a r s t lo c f l) = a"
  by (simp add: late_decision_def)

lemma base_action [simp]: "id_action (base_decision a r s m) = a"
  by (simp add: base_decision_def)

lemma adaptive_late_stop:
  assumes "id_action (adaptive_late p x clusters threshold) = IA_STOP"
  shows "may_stop p x clusters threshold \<and> IA_STOP \<in> hx_available_actions x"
  using assms by (auto simp: adaptive_late_def Let_def split: if_splits)

text \<open>
  C34: An adaptive stop is justified: the enabled policy stops only within the budget, on an available
  stop, with mandatory checks and the output contract satisfied, a calibrated confidence whose
  lower bound reaches the threshold of the risk class, a leading cluster of enough weight and
  enough independent groups, and no next action worth more than it costs.
\<close>

theorem adaptive_stop_justified:
  assumes "adaptive_decide ratio p x = Inr d" and "ap_enabled p" and "id_action d = IA_STOP"
  shows "\<not> bst_exhausted (budget_status_of x) \<and> \<not> hx_calibration_shifted x \<and> IA_STOP \<in> hx_available_actions x
    \<and> hx_mandatory_checks_passed x \<and> hx_output_contract_satisfied x
    \<and> (\<exists>c l t. hx_confidence x = Some c \<and> cf_applicability_status c = ''calibrated'' \<and> cf_lower_bound c = Some l
         \<and> threshold_for (ap_threshold_policy p) (hx_risk_class x) (hx_domain x) = Inr t \<and> t \<le> l)
    \<and> (\<exists>lead rest. attempt_clusters ratio x = Inr (lead # rest) \<and> ap_minimum_leading_fraction p \<le> leading_fraction (lead # rest)
         \<and> ap_minimum_independent_groups p \<le> int (length (scl_correlation_groups lead)))
    \<and> fst (snd (best_next_action x)) \<le> snd (snd (best_next_action x))"
proof -
  obtain clusters where c: "attempt_clusters ratio x = Inr clusters"
    using assms(1,2) by (auto simp: adaptive_decide_def split: sum.splits)
  have ok: "\<not> bst_exhausted (budget_status_of x) \<and> \<not> hx_calibration_shifted x"
    using assms by (auto simp: adaptive_decide_def c Let_def split: if_splits)
  obtain t where t: "threshold_for (ap_threshold_policy p) (hx_risk_class x) (hx_domain x) = Inr t"
      and d: "d = adaptive_late p x clusters t"
    using assms ok by (auto simp: adaptive_decide_def c Let_def split: if_splits sum.splits)
  have s: "may_stop p x clusters t" "IA_STOP \<in> hx_available_actions x"
    using adaptive_late_stop assms(3) d by blast+
  obtain lead rest where l: "clusters = lead # rest"
    using s(1) by (cases clusters) (auto simp: may_stop_def stable_clusters_def)
  obtain c' lb where e: "hx_confidence x = Some c'" "cf_applicability_status c' = ''calibrated''" "cf_lower_bound c' = Some lb" "t \<le> lb"
    using s(1) by (auto simp: may_stop_def applicable_confidence_def lower_bound_of_def split: option.splits)
  show ?thesis using ok s c t l e by (auto simp: may_stop_def stable_clusters_def independent_groups_def)
qed

text \<open>An exhausted budget buys no further attempt, whatever the policy.\<close>

theorem exhausted_never_samples:
  assumes "bst_exhausted (budget_status_of x)"
  shows "id_action (fixed_attempt_decide n x) \<notin> {IA_SAMPLE, IA_DIVERSIFY}
    \<and> id_action (fixed_refinement_decide n x) \<notin> {IA_SAMPLE, IA_DIVERSIFY}
    \<and> (\<forall>d. self_consistency_decide ratio n m x = Inr d \<longrightarrow> id_action d \<notin> {IA_SAMPLE, IA_DIVERSIFY})
    \<and> (\<forall>d. adaptive_decide ratio p x = Inr d \<longrightarrow> id_action d \<notin> {IA_SAMPLE, IA_DIVERSIFY})"
proof -
  have f: "id_action (fixed_attempt_decide n x) \<notin> {IA_SAMPLE, IA_DIVERSIFY}" for n
    using assms by (simp add: fixed_attempt_decide_def Let_def)
  moreover have "id_action (fixed_refinement_decide n x) \<notin> {IA_SAMPLE, IA_DIVERSIFY}"
    using assms by (auto simp: fixed_refinement_decide_def Let_def)
  moreover have "id_action d \<notin> {IA_SAMPLE, IA_DIVERSIFY}" if "self_consistency_decide ratio n m x = Inr d" for d
    using that assms by (auto simp: self_consistency_decide_def Let_def base_decision_def split: sum.splits if_splits)
  moreover have "id_action d \<notin> {IA_SAMPLE, IA_DIVERSIFY}" if "adaptive_decide ratio p x = Inr d" for d
    using that assms f by (auto simp: adaptive_decide_def Let_def split: sum.splits if_splits)
  ultimately show ?thesis by blast
qed

section \<open>A context in which inference stops\<close>

definition demo_attempt :: "string \<Rightarrow> string \<Rightarrow> attempt_record" where
  "demo_attempt i seed =
     \<lparr>at_attempt_id = i, at_task_id = ''t'', at_conclusion = ''yes'', at_atomic_claims = [], at_model_fingerprint = ''m'',
      at_prompt_fingerprint = ''p'', at_seed_family = seed, at_retrieval_fingerprint = ''none'', at_verifier_result_ids = [],
      at_tokens = 10, at_cost = 0, at_latency_ms = 5, at_completed = True\<rparr>"

definition demo_confidence :: confidence_estimate where
  "demo_confidence =
     \<lparr>cf_estimate_id = ''e'', cf_target_id = ''t'', cf_target_type = ''task'', cf_p_correct = Some 1, cf_failure_probability = Some 0,
      cf_lower_bound = Some 1, cf_upper_bound = Some 1, cf_method = ''isotonic'', cf_calibration_model = Some ''cal'',
      cf_calibration_dataset = Some ''d'', cf_calibration_split = Some ''s'', cf_calibration_version = Some ''1'',
      cf_domain = ''code'', cf_risk_class = RISK_HIGH, cf_capability_fingerprint = Some ''f'', cf_prompt_fingerprint = Some ''p'',
      cf_verifier_fingerprints = [], cf_sample_count = 2, cf_semantic_cluster_count = 1, cf_correlation_groups = [],
      cf_held_out_metrics = [], cf_shift_indicators = [], cf_applicability_status = ''calibrated'', cf_schema_version = ''1'',
      cf_metadata = []\<rparr>"

definition halting_context_of :: "inference_action set \<Rightarrow> halting_context" where
  "halting_context_of available =
     \<lparr>hx_task_id = ''t'', hx_domain = ''code'', hx_risk_class = RISK_HIGH, hx_attempts = [demo_attempt ''a1'' ''s1'', demo_attempt ''a2'' ''s2''],
      hx_budget = \<lparr>ib_max_attempts = 5, ib_max_tokens = 1000, ib_max_cost = 1, ib_max_time_ms = 1000,
        ib_max_single_attempt_tokens = None, ib_max_single_attempt_cost = None, ib_max_single_attempt_time_ms = None\<rparr>,
      hx_mandatory_checks_passed = True, hx_output_contract_satisfied = True, hx_confidence = Some demo_confidence,
      hx_critical_contradictions = [''contradiction:a:b''], hx_missing_information = [], hx_ambiguous_fields = [],
      hx_calibration_shifted = False, hx_expected_action_values = [], hx_action_costs = [], hx_available_actions = available\<rparr>"

definition halting_policy :: adaptive_policy where
  "halting_policy =
     \<lparr>ap_threshold_policy = \<lparr>rtp_policy_id = ''r'', rtp_version = ''1'', rtp_domain = ''code'',
        rtp_thresholds = [(RISK_LOW, 1/2), (RISK_MEDIUM, 1/2), (RISK_HIGH, 9/10), (RISK_CRITICAL, 1)], rtp_approved_by = ''me'',
        rtp_human_approval_ref = ''ref'', rtp_deterministic_evidence_fallback = True\<rparr>,
      ap_enabled = True, ap_minimum_independent_groups = 2, ap_minimum_leading_fraction = 6 / 10, ap_fallback_attempts = 3\<rparr>"

definition demo_ratio :: ratio where
  "demo_ratio a b = (if a = b then 1 else 0)"

lemmas demo_halting = demo_attempt_def demo_confidence_def halting_context_of_def halting_policy_def demo_ratio_def

lemma demo_clusters:
  "attempt_clusters demo_ratio (halting_context_of available) =
     Inr [make_cluster 0 (map (\<lambda>(i, s). \<lparr>sat_attempt_id = i, sat_conclusion = ''yes'', sat_atomic_claims = [],
            sat_correlation_group = ''m:p:'' @ s @ '':none'', sat_verifier_coverage = 0, sat_weight = 1\<rparr>) [(''a1'', ''s1''), (''a2'', ''s2'')])]"
  by (simp add: attempt_clusters_def demo_halting to_semantic_def SemanticAttempt_post_init_def correlation_group_def
      cluster_attempts_def group_attempts_def fits_group_def claim_similarity_def)

lemma demo_budget: "\<not> bst_exhausted (budget_status_of (halting_context_of available))"
  by (simp add: budget_status_of_def tail_violations_def exceeds_def demo_halting)

lemma demo_stable:
  assumes "attempt_clusters demo_ratio (halting_context_of available) = Inr clusters"
  shows "stable_clusters halting_policy clusters \<and> independent_groups clusters = 2"
  using assms unfolding demo_clusters
  by (auto simp: stable_clusters_def independent_groups_def leading_fraction_def make_cluster_def correlation_weights_def halting_policy_def)

lemma demo_decide:
  assumes "attempt_clusters demo_ratio (halting_context_of available) = Inr clusters" and "IA_VERIFY \<notin> available"
  shows "adaptive_decide demo_ratio halting_policy (halting_context_of available) =
     Inr (adaptive_late halting_policy (halting_context_of available) clusters (9 / 10))"
  using assms demo_budget [of available]
  by (simp add: adaptive_decide_def Let_def threshold_for_def halting_context_of_def halting_policy_def)

lemma demo_stop:
  assumes "attempt_clusters demo_ratio (halting_context_of {IA_STOP, IA_SAMPLE}) = Inr clusters"
  shows "id_action (adaptive_late halting_policy (halting_context_of {IA_STOP, IA_SAMPLE}) clusters (9 / 10)) = IA_STOP"
  using demo_stable [OF assms]
  by (simp add: adaptive_late_def Let_def may_stop_def applicable_confidence_def lower_bound_of_def best_next_action_def
      inference_actions_def value_or_zero_def demo_halting)

theorem adaptive_stop_justified_witness:
  "\<exists>d. adaptive_decide demo_ratio halting_policy (halting_context_of {IA_STOP, IA_SAMPLE}) = Inr d \<and> id_action d = IA_STOP
     \<and> hx_mandatory_checks_passed (halting_context_of {IA_STOP, IA_SAMPLE})
     \<and> \<not> bst_exhausted (budget_status_of (halting_context_of {IA_STOP, IA_SAMPLE}))"
proof -
  obtain clusters where c: "attempt_clusters demo_ratio (halting_context_of {IA_STOP, IA_SAMPLE}) = Inr clusters"
    by (simp add: demo_clusters)
  note d = demo_decide [OF c] and s = demo_stop [OF c]
  have "ap_enabled halting_policy" by (simp add: halting_policy_def)
  from adaptive_stop_justified [OF _ this s] d s show ?thesis by auto
qed

theorem exhausted_never_samples_witness:
  "bst_exhausted (budget_status_of ((halting_context_of UNIV)\<lparr>hx_attempts := replicate 5 (demo_attempt ''a'' ''s'')\<rparr>))
   \<and> id_action (fixed_attempt_decide 9 ((halting_context_of UNIV)\<lparr>hx_attempts := replicate 5 (demo_attempt ''a'' ''s'')\<rparr>)) \<noteq> IA_SAMPLE"
proof -
  have "bst_exhausted (budget_status_of ((halting_context_of UNIV)\<lparr>hx_attempts := replicate 5 (demo_attempt ''a'' ''s'')\<rparr>))"
    by (simp add: budget_status_of_def tail_violations_def exceeds_def demo_halting)
  with exhausted_never_samples [OF this, of 9] show ?thesis by blast
qed

text \<open>
  With verification unavailable the adaptive policy stops over a critical contradiction, which every
  other policy refuses; and it asks for a further sample although sampling is not available.
\<close>

theorem stop_over_contradiction:
  "\<exists>d. adaptive_decide demo_ratio halting_policy (halting_context_of {IA_STOP, IA_SAMPLE}) = Inr d \<and> id_action d = IA_STOP
     \<and> hx_critical_contradictions (halting_context_of {IA_STOP, IA_SAMPLE}) \<noteq> []
     \<and> id_action (fixed_attempt_decide 2 (halting_context_of {IA_STOP, IA_SAMPLE})) = IA_ABSTAIN"
proof -
  obtain clusters where c: "attempt_clusters demo_ratio (halting_context_of {IA_STOP, IA_SAMPLE}) = Inr clusters"
    by (simp add: demo_clusters)
  have "id_action (fixed_attempt_decide 2 (halting_context_of {IA_STOP, IA_SAMPLE})) = IA_ABSTAIN"
    by (simp add: fixed_attempt_decide_def Let_def minimum_stop_checks_def halting_context_of_def)
  moreover have "hx_critical_contradictions (halting_context_of {IA_STOP, IA_SAMPLE}) \<noteq> []" by (simp add: halting_context_of_def)
  ultimately show ?thesis using demo_decide [OF c] demo_stop [OF c] by simp
qed

theorem unavailable_sample:
  "\<exists>d. adaptive_decide demo_ratio halting_policy (halting_context_of {IA_ABSTAIN}) = Inr d \<and> id_action d = IA_SAMPLE"
proof -
  obtain clusters where c: "attempt_clusters demo_ratio (halting_context_of {IA_ABSTAIN}) = Inr clusters" by (simp add: demo_clusters)
  have "id_action (adaptive_late halting_policy (halting_context_of {IA_ABSTAIN}) clusters (9 / 10)) = IA_SAMPLE"
    using demo_stable [OF c]
    by (simp add: adaptive_late_def Let_def applicable_confidence_def best_next_action_def inference_actions_def demo_halting)
  with demo_decide [OF c] show ?thesis by simp
qed

text \<open>An attempt without a conclusion is a valid record that no clustering policy accepts.\<close>

theorem empty_conclusion_raises:
  "AttemptRecord_post_init ((demo_attempt ''a'' ''s'')\<lparr>at_conclusion := []\<rparr>) = Inr ((demo_attempt ''a'' ''s'')\<lparr>at_conclusion := []\<rparr>)
   \<and> adaptive_decide ratio halting_policy ((halting_context_of UNIV)\<lparr>hx_attempts := [(demo_attempt ''a'' ''s'')\<lparr>at_conclusion := []\<rparr>]\<rparr>)
     = Inl (ValueError ''semantic attempt identity, conclusion, and correlation group are required'')"
  by (simp add: AttemptRecord_post_init_def adaptive_decide_def attempt_clusters_def to_semantic_def SemanticAttempt_post_init_def
      demo_halting)

end
