(* ===== verification/Assurance.thy ===== *)
theory Assurance
  imports Capabilities
begin

text \<open>
  Assurance (\<open>assurance/contracts.py\<close>, \<open>registry.py\<close>, \<open>outcomes.py\<close>): the verifier registry and the
  cascade that runs verifiers within a budget, and the store of outcome labels. Costs are
  real numbers. Verifiers are values that map a claim to a result or an exception.
\<close>

declare map_of_eq_Some_iff [simp del] Some_eq_map_of_iff [simp del]

section \<open>Verification contracts\<close>

datatype verification_status = VS_PASS | VS_FAIL | VS_INDETERMINATE | VS_INAPPLICABLE | VS_ERROR

datatype verifier_kind = VK_DETERMINISTIC | VK_EXTERNAL | VK_MODEL | VK_HUMAN

record 'v verifier_claim =
  vc_claim_id :: string
  vc_target_id :: string
  vc_scope :: string
  vc_value :: 'v
  vc_domain :: string
  vc_risk_class :: risk_class
  vc_tenant_id :: string
  vc_evidence :: "'v list"
  vc_metadata :: "(string, 'v) dict"

definition VerifierClaim_post_init :: "'v verifier_claim \<Rightarrow> 'v verifier_claim res" where
  "VerifierClaim_post_init x =
     require (vc_claim_id x \<noteq> [] \<and> vc_target_id x \<noteq> [] \<and> vc_scope x \<noteq> [] \<and> vc_domain x \<noteq> [])
       (ValueError ''claim identity, target, scope, and domain MUST be non-empty'') (
     require (vc_tenant_id x \<noteq> []) (ValueError ''tenant_id MUST be non-empty'') (Inr x))"

record 'v verifier_descriptor =
  vd_verifier_id :: string
  vd_version :: string
  vd_kind :: verifier_kind
  vd_scopes :: "string set"
  vd_domains :: "string set"
  vd_maximum_risk :: risk_class
  vd_cost :: real
  vd_independence_group :: string
  vd_fingerprint :: string
  vd_requires_human_approval :: bool
  vd_metadata :: "(string, 'v) dict"

definition VerifierDescriptor_post_init :: "'v verifier_descriptor \<Rightarrow> 'v verifier_descriptor res" where
  "VerifierDescriptor_post_init x =
     require (vd_verifier_id x \<noteq> [] \<and> vd_version x \<noteq> [] \<and> vd_scopes x \<noteq> {})
       (ValueError ''verifier identity, version, and scopes MUST be declared'') (
     require (\<not> vd_cost x < 0) (ValueError ''verifier cost MUST be non-negative'') (Inr x))"

definition supports :: "'v verifier_descriptor \<Rightarrow> 'v verifier_claim \<Rightarrow> bool" where
  "supports d c \<longleftrightarrow> vc_scope c \<in> vd_scopes d \<and> (vc_domain c \<in> vd_domains d \<or> ''*'' \<in> vd_domains d)
     \<and> risk_order (vc_risk_class c) \<le> risk_order (vd_maximum_risk d)"

record 'v verifier_result =
  vres_result_id :: string
  vres_verifier_id :: string
  vres_verifier_version :: string
  vres_verifier_fingerprint :: string
  vres_claim_id :: string
  vres_target_id :: string
  vres_scope :: string
  vres_status :: verification_status
  vres_independence_group :: string
  vres_tenant_id :: string
  vres_checks :: "string list"
  vres_evidence_refs :: "string list"
  vres_reason_codes :: "string list"
  vres_details :: "(string, 'v) dict"

definition VerifierResult_post_init :: "'v verifier_result \<Rightarrow> 'v verifier_result res" where
  "VerifierResult_post_init x =
     require (vres_result_id x \<noteq> [] \<and> vres_verifier_id x \<noteq> [] \<and> vres_claim_id x \<noteq> [] \<and> vres_target_id x \<noteq> [] \<and> vres_scope x \<noteq> [])
       (ValueError ''verification result identity and scope MUST be non-empty'') (Inr x)"

record 'v verifier =
  vr_descriptor :: "'v verifier_descriptor"
  vr_verify :: "'v verifier_claim \<Rightarrow> 'v verifier_result res"

abbreviation vr_id :: "'v verifier \<Rightarrow> string" where
  "vr_id v \<equiv> vd_verifier_id (vr_descriptor v)"

section \<open>The verifier registry and the cascade\<close>

record 'v verifier_registry =
  vreg_verifiers :: "(string, 'v verifier) dict"
  vreg_disabled :: "string set"

definition verifier_register :: "'v verifier \<Rightarrow> 'v verifier_registry \<Rightarrow> 'v verifier_registry" where
  "verifier_register v reg = reg\<lparr>vreg_verifiers := dict_set (vr_id v) v (vreg_verifiers reg)\<rparr>"

definition verifier_get :: "string \<Rightarrow> 'v verifier_registry \<Rightarrow> 'v verifier option" where
  "verifier_get i reg = map_of (vreg_verifiers reg) i"

definition verifier_require :: "string \<Rightarrow> 'v verifier_registry \<Rightarrow> 'v verifier res" where
  "verifier_require i reg = (case verifier_get i reg of None \<Rightarrow> Inl (KeyError (''unknown verifier: '' @ i)) | Some v \<Rightarrow> Inr v)"

definition verifier_disable :: "string \<Rightarrow> 'v verifier_registry \<Rightarrow> 'v verifier_registry res" where
  "verifier_disable i reg =
     (case verifier_require i reg of Inl e \<Rightarrow> Inl e | Inr _ \<Rightarrow> Inr (reg\<lparr>vreg_disabled := insert i (vreg_disabled reg)\<rparr>))"

definition verifier_enable :: "string \<Rightarrow> 'v verifier_registry \<Rightarrow> 'v verifier_registry res" where
  "verifier_enable i reg =
     (case verifier_require i reg of Inl e \<Rightarrow> Inl e | Inr _ \<Rightarrow> Inr (reg\<lparr>vreg_disabled := vreg_disabled reg - {i}\<rparr>))"

definition verifier_candidates :: "'v verifier_claim \<Rightarrow> 'v verifier_registry \<Rightarrow> 'v verifier list" where
  "verifier_candidates claim reg =
     filter (\<lambda>v. vr_id v \<notin> vreg_disabled reg \<and> supports (vr_descriptor v) claim)
       (sort_key (\<lambda>v. (vd_cost (vr_descriptor v), vr_id v)) (map snd (vreg_verifiers reg)))"

definition active_descriptors :: "'v verifier_registry \<Rightarrow> 'v verifier_descriptor list" where
  "active_descriptors reg =
     map (\<lambda>(i, v). vr_descriptor v) (filter (\<lambda>(i, v). i \<notin> vreg_disabled reg) (sort_key fst (vreg_verifiers reg)))"

record cascade_policy =
  cpl_required_passes :: int
  cpl_required_independence_groups :: int
  cpl_maximum_cost :: "real option"
  cpl_stop_on_failure :: bool
  cpl_require_human_approval :: bool

definition CascadePolicy_post_init :: "cascade_policy \<Rightarrow> cascade_policy res" where
  "CascadePolicy_post_init p =
     require (\<not> (cpl_required_passes p \<le> 0 \<or> cpl_required_independence_groups p \<le> 0))
       (ValueError ''cascade pass and independence requirements MUST be positive'') (
     require (case cpl_maximum_cost p of None \<Rightarrow> True | Some m \<Rightarrow> \<not> m < 0) (ValueError ''maximum_cost MUST be non-negative'') (Inr p))"

record 'v cascade_result =
  cas_claim :: "'v verifier_claim"
  cas_results :: "'v verifier_result list"
  cas_satisfied :: bool
  cas_total_cost :: real
  cas_reason :: string

definition result_in_scope :: "'v verifier_claim \<Rightarrow> 'v verifier_descriptor \<Rightarrow> 'v verifier_result \<Rightarrow> bool" where
  "result_in_scope c d r \<longleftrightarrow>
     vres_scope r = vc_scope c \<and> vres_claim_id r = vc_claim_id c \<and> vres_target_id r = vc_target_id c
     \<and> vres_tenant_id r = vc_tenant_id c \<and> vres_verifier_id r = vd_verifier_id d \<and> vres_verifier_version r = vd_version d
     \<and> vres_verifier_fingerprint r = vd_fingerprint d \<and> vres_independence_group r = vd_independence_group d"

text \<open>\<open>any(...)\<close> over the results, with the lookup of the verifier; an unknown one raises.\<close>

fun human_passed :: "'v verifier_registry \<Rightarrow> 'v verifier_result list \<Rightarrow> bool res" where
  "human_passed reg [] = Inr False"
| "human_passed reg (r # rs) =
     (if vres_status r = VS_PASS
      then (case verifier_get (vres_verifier_id r) reg of
              None \<Rightarrow> Inl (AttributeError ''descriptor'')
            | Some v \<Rightarrow> if vd_requires_human_approval (vr_descriptor v) then Inr True else human_passed reg rs)
      else human_passed reg rs)"

definition passed_of :: "'v verifier_result list \<Rightarrow> 'v verifier_result list" where
  "passed_of rs = filter (\<lambda>r. vres_status r = VS_PASS) rs"

definition requirements_met :: "cascade_policy \<Rightarrow> 'v verifier_result list \<Rightarrow> bool \<Rightarrow> bool" where
  "requirements_met p rs human \<longleftrightarrow>
     int (length (passed_of rs)) \<ge> cpl_required_passes p
     \<and> int (card (vres_independence_group ` set (passed_of rs))) \<ge> cpl_required_independence_groups p
     \<and> (\<not> cpl_require_human_approval p \<or> human)"

fun cascade_loop ::
  "'v verifier_registry \<Rightarrow> 'v verifier_claim \<Rightarrow> cascade_policy \<Rightarrow> 'v verifier list \<Rightarrow> 'v verifier_result list \<Rightarrow> real
   \<Rightarrow> 'v cascade_result res" where
  "cascade_loop reg c p [] rs cost =
     Inr \<lparr>cas_claim = c, cas_results = rs, cas_satisfied = False, cas_total_cost = cost, cas_reason = ''assurance requirements unmet''\<rparr>"
| "cascade_loop reg c p (v # vs) rs cost =
     (let d = vr_descriptor v in
      if (case cpl_maximum_cost p of None \<Rightarrow> False | Some m \<Rightarrow> cost + vd_cost d > m) then cascade_loop reg c p vs rs cost
      else case vr_verify v c of
             Inl e \<Rightarrow> Inl e
           | Inr r \<Rightarrow>
               if \<not> result_in_scope c d r
               then Inl (DNCVerificationError ''verifier returned a result outside its declared identity or claim scope'')
               else if vres_status r = VS_PASS \<and> vres_checks r = []
               then Inl (DNCVerificationError ''passing verifier result MUST declare performed checks'')
               else if vres_status r = VS_FAIL \<and> cpl_stop_on_failure p
               then Inr \<lparr>cas_claim = c, cas_results = rs @ [r], cas_satisfied = False, cas_total_cost = cost + vd_cost d,
                         cas_reason = ''verification failed''\<rparr>
               else case human_passed reg (rs @ [r]) of
                      Inl e \<Rightarrow> Inl e
                    | Inr human \<Rightarrow>
                        if requirements_met p (rs @ [r]) human
                        then Inr \<lparr>cas_claim = c, cas_results = rs @ [r], cas_satisfied = True,
                                  cas_total_cost = cost + vd_cost d, cas_reason = ''requirements satisfied''\<rparr>
                        else cascade_loop reg c p vs (rs @ [r]) (cost + vd_cost d))"

definition cascade_run :: "'v verifier_registry \<Rightarrow> 'v verifier_claim \<Rightarrow> cascade_policy \<Rightarrow> 'v cascade_result res" where
  "cascade_run reg c p =
     (let candidates = verifier_candidates c reg in
      require (candidates \<noteq> []) (DNCVerificationError ''no applicable verifier for claim scope and risk'')
        (cascade_loop reg c p candidates [] 0))"

text \<open>A result that was accepted: it comes from an enabled verifier that supports the claim and stays in its scope.\<close>

definition accepted :: "'v verifier_registry \<Rightarrow> 'v verifier_claim \<Rightarrow> 'v verifier_result \<Rightarrow> bool" where
  "accepted reg c r \<longleftrightarrow> (\<exists>v \<in> snd ` set (vreg_verifiers reg). vr_id v \<notin> vreg_disabled reg \<and> supports (vr_descriptor v) c
     \<and> vr_verify v c = Inr r \<and> result_in_scope c (vr_descriptor v) r \<and> (vres_status r = VS_PASS \<longrightarrow> vres_checks r \<noteq> []))"

lemma human_passed_True:
  "human_passed reg rs = Inr True \<Longrightarrow>
   \<exists>r \<in> set rs. vres_status r = VS_PASS \<and> (\<exists>v. map_of (vreg_verifiers reg) (vres_verifier_id r) = Some v \<and> vd_requires_human_approval (vr_descriptor v))"
  by (induction rs) (auto simp: verifier_get_def split: if_splits option.splits)

lemma cascade_loop_sound:
  assumes "cascade_loop reg c p vs rs cost = Inr res" and "set vs \<subseteq> set (verifier_candidates c reg)"
    and "list_all (accepted reg c) rs" and "\<forall>m. cpl_maximum_cost p = Some m \<longrightarrow> cost \<le> m"
    and "cpl_stop_on_failure p \<longrightarrow> (\<forall>r \<in> set rs. vres_status r \<noteq> VS_FAIL)"
  shows "list_all (accepted reg c) (cas_results res) \<and> cas_claim res = c
    \<and> (\<forall>m. cpl_maximum_cost p = Some m \<longrightarrow> cas_total_cost res \<le> m)
    \<and> (cas_satisfied res \<longrightarrow> (\<exists>human. human_passed reg (cas_results res) = Inr human \<and> requirements_met p (cas_results res) human)
         \<and> (cpl_stop_on_failure p \<longrightarrow> (\<forall>r \<in> set (cas_results res). vres_status r \<noteq> VS_FAIL)))"
  using assms
proof (induction vs arbitrary: rs cost)
  case (Cons v vs)
  let ?d = "vr_descriptor v"
  have sub: "set vs \<subseteq> set (verifier_candidates c reg)" using Cons.prems(2) by simp
  show ?case
  proof (cases "case cpl_maximum_cost p of None \<Rightarrow> False | Some m \<Rightarrow> cost + vd_cost ?d > m")
    case True
    with Cons.prems(1) have "cascade_loop reg c p vs rs cost = Inr res" by simp
    from Cons.IH [OF this sub Cons.prems(3-5)] show ?thesis .
  next
    case False
    then have m: "\<forall>m. cpl_maximum_cost p = Some m \<longrightarrow> cost + vd_cost ?d \<le> m" by (auto split: option.splits)
    obtain r where r: "vr_verify v c = Inr r" "result_in_scope c ?d r" "vres_status r = VS_PASS \<longrightarrow> vres_checks r \<noteq> []"
      using Cons.prems(1) False by (auto simp: Let_def split: sum.splits if_splits)
    have "accepted reg c r" using Cons.prems(2) r by (auto simp: accepted_def verifier_candidates_def)
    with Cons.prems(3) have acc: "list_all (accepted reg c) (rs @ [r])" by simp
    show ?thesis
    proof (cases "vres_status r = VS_FAIL \<and> cpl_stop_on_failure p")
      case True
      with Cons.prems(1) False r have "res = \<lparr>cas_claim = c, cas_results = rs @ [r], cas_satisfied = False,
          cas_total_cost = cost + vd_cost ?d, cas_reason = ''verification failed''\<rparr>" by (simp add: Let_def)
      with acc m show ?thesis by simp
    next
      case ok: False
      then have f: "cpl_stop_on_failure p \<longrightarrow> (\<forall>r \<in> set (rs @ [r]). vres_status r \<noteq> VS_FAIL)" using Cons.prems(5) by auto
      have nc: "\<not> (vres_status r = VS_PASS \<and> vres_checks r = [])" using r(3) by simp
      obtain h where h: "human_passed reg (rs @ [r]) = Inr h"
        using Cons.prems(1) False r(1,2) nc ok by (cases "human_passed reg (rs @ [r])") (simp_all add: Let_def)
      show ?thesis
      proof (cases "requirements_met p (rs @ [r]) h")
        case True
        with Cons.prems(1) False r(1,2) nc ok h have "res = \<lparr>cas_claim = c, cas_results = rs @ [r], cas_satisfied = True,
            cas_total_cost = cost + vd_cost ?d, cas_reason = ''requirements satisfied''\<rparr>" by (simp add: Let_def)
        with acc m f h True show ?thesis by simp
      next
        case unmet: False
        with Cons.prems(1) False r(1,2) nc ok h have "cascade_loop reg c p vs (rs @ [r]) (cost + vd_cost ?d) = Inr res"
          by (simp add: Let_def)
        from Cons.IH [OF this sub acc m f] show ?thesis .
      qed
    qed
  qed
qed auto

text \<open>
  C32: The verifier cascade is sound: every result it reports was returned by an enabled verifier that
  supports the claim's scope, domain and risk, for this very claim, and a pass names the checks
  performed; the cost stays within the maximum; and a claim is reported as satisfied only
  with the required number of passes from the required number of independent groups, a
  human approval if one is required, and no failure if the policy stops on failures.
\<close>

theorem cascade_sound:
  assumes "cascade_run reg c p = Inr res" and "\<forall>m. cpl_maximum_cost p = Some m \<longrightarrow> 0 \<le> m"
  shows "list_all (accepted reg c) (cas_results res)
    \<and> (\<forall>m. cpl_maximum_cost p = Some m \<longrightarrow> cas_total_cost res \<le> m)
    \<and> (cas_satisfied res \<longrightarrow>
         int (length (passed_of (cas_results res))) \<ge> cpl_required_passes p
         \<and> int (card (vres_independence_group ` set (passed_of (cas_results res)))) \<ge> cpl_required_independence_groups p
         \<and> (cpl_require_human_approval p \<longrightarrow> (\<exists>r \<in> set (passed_of (cas_results res)). \<exists>v.
              map_of (vreg_verifiers reg) (vres_verifier_id r) = Some v \<and> vd_requires_human_approval (vr_descriptor v)))
         \<and> (cpl_stop_on_failure p \<longrightarrow> (\<forall>r \<in> set (cas_results res). vres_status r \<noteq> VS_FAIL)))"
proof -
  have l: "cascade_loop reg c p (verifier_candidates c reg) [] 0 = Inr res"
    using assms(1) by (simp add: cascade_run_def Let_def)
  have s: "list_all (accepted reg c) (cas_results res) \<and> cas_claim res = c
      \<and> (\<forall>m. cpl_maximum_cost p = Some m \<longrightarrow> cas_total_cost res \<le> m)
      \<and> (cas_satisfied res \<longrightarrow> (\<exists>human. human_passed reg (cas_results res) = Inr human \<and> requirements_met p (cas_results res) human)
         \<and> (cpl_stop_on_failure p \<longrightarrow> (\<forall>r \<in> set (cas_results res). vres_status r \<noteq> VS_FAIL)))"
    by (rule cascade_loop_sound [OF l]) (use assms(2) in simp_all)
  have "\<exists>r \<in> set (passed_of (cas_results res)). \<exists>v.
      map_of (vreg_verifiers reg) (vres_verifier_id r) = Some v \<and> vd_requires_human_approval (vr_descriptor v)"
    if "cas_satisfied res" "cpl_require_human_approval p"
  proof -
    from s that have "human_passed reg (cas_results res) = Inr True" by (auto simp: requirements_met_def)
    from human_passed_True [OF this] show ?thesis by (auto simp: passed_of_def)
  qed
  with s show ?thesis unfolding requirements_met_def by blast
qed

definition demo_verifier :: "nat verifier" where
  "demo_verifier = \<lparr>vr_descriptor = \<lparr>vd_verifier_id = ''v'', vd_version = ''1'', vd_kind = VK_HUMAN, vd_scopes = {''s''}, vd_domains = {''*''},
       vd_maximum_risk = RISK_HIGH, vd_cost = 1, vd_independence_group = ''g'', vd_fingerprint = ''f'', vd_requires_human_approval = True,
       vd_metadata = []\<rparr>,
     vr_verify = (\<lambda>c. Inr \<lparr>vres_result_id = ''r'', vres_verifier_id = ''v'', vres_verifier_version = ''1'', vres_verifier_fingerprint = ''f'',
       vres_claim_id = vc_claim_id c, vres_target_id = vc_target_id c, vres_scope = vc_scope c, vres_status = VS_PASS,
       vres_independence_group = ''g'', vres_tenant_id = vc_tenant_id c, vres_checks = [''ok''], vres_evidence_refs = [],
       vres_reason_codes = [], vres_details = []\<rparr>)\<rparr>"

definition demo_claim :: "nat verifier_claim" where
  "demo_claim = \<lparr>vc_claim_id = ''c'', vc_target_id = ''t'', vc_scope = ''s'', vc_value = 0, vc_domain = ''d'', vc_risk_class = RISK_LOW,
     vc_tenant_id = ''tn'', vc_evidence = [], vc_metadata = []\<rparr>"

theorem cascade_sound_witness:
  "\<exists>res. cascade_run \<lparr>vreg_verifiers = [(''v'', demo_verifier)], vreg_disabled = {}\<rparr> demo_claim
       \<lparr>cpl_required_passes = 1, cpl_required_independence_groups = 1, cpl_maximum_cost = Some 2, cpl_stop_on_failure = True,
        cpl_require_human_approval = True\<rparr> = Inr res
     \<and> cas_satisfied res \<and> cas_total_cost res \<le> 2"
proof -
  let ?reg = "\<lparr>vreg_verifiers = [(''v'', demo_verifier)], vreg_disabled = {}\<rparr>"
  let ?p = "\<lparr>cpl_required_passes = 1, cpl_required_independence_groups = 1, cpl_maximum_cost = Some 2, cpl_stop_on_failure = True,
        cpl_require_human_approval = True\<rparr>"
  obtain res where r: "cascade_run ?reg demo_claim ?p = Inr res" "cas_satisfied res"
    by (simp add: cascade_run_def verifier_candidates_def supports_def demo_verifier_def demo_claim_def result_in_scope_def
        verifier_get_def requirements_met_def passed_of_def Let_def)
  moreover have "cas_total_cost res \<le> 2" using cascade_sound [OF r(1)] by simp
  ultimately show ?thesis by blast
qed

section \<open>Outcome labels\<close>

datatype outcome_label_status = OLS_PROVISIONAL | OLS_CONFIRMED | OLS_CORRECTED | OLS_RETRACTED

record 'v outcome_label =
  ol_label_id :: string
  ol_target_id :: string
  ol_value :: 'v
  ol_observed_at_ns :: int
  ol_source :: string
  ol_tenant_id :: string
  ol_status :: outcome_label_status
  ol_supersedes :: "string option"
  ol_evidence_refs :: "string list"

definition OutcomeLabel_post_init :: "'v outcome_label \<Rightarrow> 'v outcome_label res" where
  "OutcomeLabel_post_init l =
     require (ol_label_id l \<noteq> [] \<and> ol_target_id l \<noteq> [] \<and> ol_source l \<noteq> [] \<and> ol_tenant_id l \<noteq> [])
       (ValueError ''outcome label identity, source, and tenant MUST be non-empty'') (
     require (\<not> ol_observed_at_ns l < 0) (ValueError ''observed_at_ns MUST be non-negative'') (Inr l))"

record 'v label_store =
  ls_labels :: "(string, 'v outcome_label) dict"
  ls_target_history :: "(string \<times> string, string list) dict"

definition label_key :: "'v outcome_label \<Rightarrow> string \<times> string" where
  "label_key l = (ol_tenant_id l, ol_target_id l)"

definition supersedes_check :: "'v outcome_label \<Rightarrow> 'v label_store \<Rightarrow> unit res" where
  "supersedes_check l st =
     (case ol_supersedes l of
        None \<Rightarrow> Inr ()
      | Some j \<Rightarrow>
          (case map_of (ls_labels st) j of
             None \<Rightarrow> Inl (ValueError ''superseded label MUST exist for the same tenant and target'')
           | Some prior \<Rightarrow>
               require (label_key prior = label_key l) (ValueError ''superseded label MUST exist for the same tenant and target'') (
               require (ol_status l \<in> {OLS_CORRECTED, OLS_RETRACTED}) (ValueError ''superseding labels MUST be corrected or retracted'') (
               require (\<not> ol_observed_at_ns l < ol_observed_at_ns prior)
                 (ValueError ''delayed corrections MUST NOT precede the superseded observation'') (Inr ())))))"

definition label_ingest :: "'v outcome_label \<Rightarrow> 'v label_store \<Rightarrow> 'v label_store res" where
  "label_ingest l st =
     (case map_of (ls_labels st) (ol_label_id l) of
        Some existing \<Rightarrow>
          require (existing = l) (ValueError (''conflicting outcome label id: '' @ ol_label_id l)) (Inr st)
      | None \<Rightarrow>
          (case supersedes_check l st of
             Inl e \<Rightarrow> Inl e
           | Inr _ \<Rightarrow>
               Inr (st\<lparr>ls_labels := dict_set (ol_label_id l) l (ls_labels st),
                       ls_target_history := dict_set (label_key l)
                         ((case map_of (ls_target_history st) (label_key l) of None \<Rightarrow> [] | Some h \<Rightarrow> h) @ [ol_label_id l])
                         (ls_target_history st)\<rparr>)))"

fun labels_at :: "(string, 'v outcome_label) dict \<Rightarrow> string list \<Rightarrow> 'v outcome_label list res" where
  "labels_at d [] = Inr []"
| "labels_at d (i # is) =
     (case map_of d i of
        None \<Rightarrow> Inl (KeyError i)
      | Some l \<Rightarrow> (case labels_at d is of Inl e \<Rightarrow> Inl e | Inr ls \<Rightarrow> Inr (l # ls)))"

definition history_ids :: "string \<Rightarrow> string \<Rightarrow> 'v label_store \<Rightarrow> string list" where
  "history_ids target tenant st = (case map_of (ls_target_history st) (tenant, target) of None \<Rightarrow> [] | Some h \<Rightarrow> h)"

definition label_history :: "string \<Rightarrow> string \<Rightarrow> 'v label_store \<Rightarrow> 'v outcome_label list res" where
  "label_history target tenant st = labels_at (ls_labels st) (history_ids target tenant st)"

definition label_current :: "string \<Rightarrow> string \<Rightarrow> 'v label_store \<Rightarrow> 'v outcome_label option res" where
  "label_current target tenant st =
     (case label_history target tenant st of
        Inl e \<Rightarrow> Inl e
      | Inr ls \<Rightarrow> Inr (if ls = [] then None else Some (last ls)))"

definition empty_labels :: "'v label_store" where
  "empty_labels = \<lparr>ls_labels = [], ls_target_history = []\<rparr>"

definition label_step :: "'v label_store \<Rightarrow> 'v outcome_label \<Rightarrow> 'v label_store" where
  "label_step st l = keep_old st (label_ingest l st)"

text \<open>A list of labels in which every correction follows what it supersedes.\<close>

fun well_ordered :: "'v outcome_label list \<Rightarrow> 'v outcome_label list \<Rightarrow> bool" where
  "well_ordered before [] \<longleftrightarrow> True"
| "well_ordered before (l # ls) \<longleftrightarrow>
     (\<forall>j. ol_supersedes l = Some j \<longrightarrow> (\<exists>p \<in> set before. ol_label_id p = j \<and> ol_observed_at_ns p \<le> ol_observed_at_ns l
          \<and> ol_status l \<in> {OLS_CORRECTED, OLS_RETRACTED}))
     \<and> well_ordered (before @ [l]) ls"

lemma well_ordered_snoc:
  "well_ordered before (ls @ [l]) \<longleftrightarrow> well_ordered before ls \<and>
     (\<forall>j. ol_supersedes l = Some j \<longrightarrow> (\<exists>p \<in> set (before @ ls). ol_label_id p = j \<and> ol_observed_at_ns p \<le> ol_observed_at_ns l
          \<and> ol_status l \<in> {OLS_CORRECTED, OLS_RETRACTED}))"
  by (induction ls arbitrary: before) auto

definition labels_ok :: "'v label_store \<Rightarrow> bool" where
  "labels_ok st \<longleftrightarrow>
     (\<forall>i l. map_of (ls_labels st) i = Some l \<longrightarrow> ol_label_id l = i \<and> i \<in> set (history_ids (ol_target_id l) (ol_tenant_id l) st))
     \<and> (\<forall>t tn. \<exists>ls. label_history t tn st = Inr ls \<and> well_ordered [] ls
          \<and> (\<forall>l \<in> set ls. ol_target_id l = t \<and> ol_tenant_id l = tn))"

definition labels_grow :: "'v label_store \<Rightarrow> 'v label_store \<Rightarrow> bool" where
  "labels_grow st st' \<longleftrightarrow>
     (\<forall>i l. map_of (ls_labels st) i = Some l \<longrightarrow> map_of (ls_labels st') i = Some l)
     \<and> (\<forall>t tn. \<exists>new. history_ids t tn st' = history_ids t tn st @ new)"

lemma labels_at_append:
  "labels_at d (is @ js) = (case labels_at d is of Inl e \<Rightarrow> Inl e | Inr xs \<Rightarrow>
     (case labels_at d js of Inl e \<Rightarrow> Inl e | Inr ys \<Rightarrow> Inr (xs @ ys)))"
  by (induction "is") (auto split: option.splits sum.splits)

lemma labels_at_mono:
  "labels_at d is = Inr ls \<Longrightarrow> (\<And>i l. map_of d i = Some l \<Longrightarrow> map_of d' i = Some l) \<Longrightarrow> labels_at d' is = Inr ls"
proof (induction "is" arbitrary: ls)
  case (Cons i "is")
  from Cons.prems(1) obtain l xs where l: "map_of d i = Some l" "labels_at d is = Inr xs" "ls = l # xs"
    by (auto split: option.splits sum.splits)
  from Cons.IH [OF l(2) Cons.prems(2)] Cons.prems(2) [OF l(1)] l(3) show ?case by simp
qed simp

lemma labels_at_member: "labels_at d is = Inr ls \<Longrightarrow> i \<in> set is \<Longrightarrow> \<exists>l \<in> set ls. map_of d i = Some l"
  by (induction "is" arbitrary: ls) (fastforce split: option.splits sum.splits)+

lemma label_new_grows:
  assumes "map_of (ls_labels st) (ol_label_id l) = None"
    and "st' = st\<lparr>ls_labels := dict_set (ol_label_id l) l (ls_labels st),
      ls_target_history := dict_set (label_key l) (history_ids (ol_target_id l) (ol_tenant_id l) st @ [ol_label_id l])
        (ls_target_history st)\<rparr>"
  shows "labels_grow st st'"
    and "history_ids t tn st' = history_ids t tn st @ (if label_key l = (tn, t) then [ol_label_id l] else [])"
  using assms by (auto simp: labels_grow_def history_ids_def label_key_def)

lemma label_ingest_cases:
  assumes "label_ingest l st = Inr st'"
  obtains (Same) "st' = st"
  | (New) "map_of (ls_labels st) (ol_label_id l) = None" "supersedes_check l st = Inr ()"
      "st' = st\<lparr>ls_labels := dict_set (ol_label_id l) l (ls_labels st),
         ls_target_history := dict_set (label_key l) (history_ids (ol_target_id l) (ol_tenant_id l) st @ [ol_label_id l])
           (ls_target_history st)\<rparr>"
  using assms by (auto simp: label_ingest_def history_ids_def label_key_def require_def split: option.splits sum.splits if_splits)

lemma label_ingest_ok:
  assumes ok: "labels_ok st" and n: "map_of (ls_labels st) (ol_label_id l) = None" "supersedes_check l st = Inr ()"
    and st': "st' = st\<lparr>ls_labels := dict_set (ol_label_id l) l (ls_labels st),
      ls_target_history := dict_set (label_key l) (history_ids (ol_target_id l) (ol_tenant_id l) st @ [ol_label_id l])
        (ls_target_history st)\<rparr>"
  shows "labels_ok st'"
proof -
  note g = label_new_grows [OF n(1) st']
  have m: "map_of (ls_labels st') i = Some x" if "map_of (ls_labels st) i = Some x" for i x
    using g(1) that by (simp add: labels_grow_def)
  have new: "map_of (ls_labels st') (ol_label_id l) = Some l" using st' by simp
  have "ol_label_id x = i \<and> i \<in> set (history_ids (ol_target_id x) (ol_tenant_id x) st')"
    if "map_of (ls_labels st') i = Some x" for i x
  proof (cases "i = ol_label_id l")
    case True
    with that new show ?thesis unfolding g(2) by (simp add: label_key_def)
  next
    case False
    with that st' have "map_of (ls_labels st) i = Some x" by simp
    with ok show ?thesis unfolding g(2) by (simp add: labels_ok_def)
  qed
  moreover have "\<exists>ls. label_history t tn st' = Inr ls \<and> well_ordered [] ls \<and> (\<forall>x \<in> set ls. ol_target_id x = t \<and> ol_tenant_id x = tn)"
    for t tn
  proof -
    from ok obtain ls where ls: "label_history t tn st = Inr ls" "well_ordered [] ls"
      "\<forall>x \<in> set ls. ol_target_id x = t \<and> ol_tenant_id x = tn" unfolding labels_ok_def by blast
    then have at: "labels_at (ls_labels st') (history_ids t tn st) = Inr ls"
      using labels_at_mono m unfolding label_history_def by blast
    show ?thesis
    proof (cases "label_key l = (tn, t)")
      case False
      with at ls show ?thesis unfolding label_history_def g(2) by simp
    next
      case True
      then have h: "label_history t tn st' = Inr (ls @ [l])"
        unfolding label_history_def g(2) labels_at_append using at new by simp
      have "\<exists>p \<in> set ls. ol_label_id p = j \<and> ol_observed_at_ns p \<le> ol_observed_at_ns l \<and> ol_status l \<in> {OLS_CORRECTED, OLS_RETRACTED}"
        if "ol_supersedes l = Some j" for j
      proof -
        from n(2) that obtain p where p: "map_of (ls_labels st) j = Some p" "label_key p = label_key l"
          "ol_status l \<in> {OLS_CORRECTED, OLS_RETRACTED}" "ol_observed_at_ns p \<le> ol_observed_at_ns l"
          by (auto simp: supersedes_check_def split: option.splits)
        have "ol_label_id p = j \<and> j \<in> set (history_ids (ol_target_id p) (ol_tenant_id p) st)"
          using ok p(1) unfolding labels_ok_def by blast
        with p(2) True have "ol_label_id p = j" "j \<in> set (history_ids t tn st)" by (simp_all add: label_key_def)
        with labels_at_member [OF ls(1) [unfolded label_history_def]] p show ?thesis by fastforce
      qed
      with h ls True show ?thesis by (auto simp: well_ordered_snoc label_key_def)
    qed
  qed
  ultimately show ?thesis unfolding labels_ok_def by blast
qed

interpretation labels: step_machine label_step labels_ok labels_grow
proof
  fix st :: "'v label_store" and l
  assume ok: "labels_ok st"
  show "labels_ok (label_step st l)" and "labels_grow st (label_step st l)"
  proof (atomize (full), cases "label_ingest l st")
    case (Inl e)
    with ok show "labels_ok (label_step st l) \<and> labels_grow st (label_step st l)"
      by (simp add: label_step_def keep_old_def labels_grow_def)
  next
    case (Inr st')
    then show "labels_ok (label_step st l) \<and> labels_grow st (label_step st l)"
      using ok by (cases rule: label_ingest_cases [OF Inr])
        (auto simp: label_step_def keep_old_def labels_grow_def intro: label_ingest_ok dest: label_new_grows)
  qed
qed (auto simp: labels_grow_def, metis append.assoc)

text \<open>
  Outcome labels are an append-only history: after any sequence of ingestions, the history of
  a target is returned without error, contains labels of that target and tenant only, and every
  correction or retraction in it follows the label that it supersedes, in the list and in
  time; further ingestions only append to it.
\<close>

theorem outcome_history_sound:
  "\<exists>ls. label_history t tn (foldl label_step empty_labels cs) = Inr ls \<and> well_ordered [] ls
     \<and> (\<forall>l \<in> set ls. ol_target_id l = t \<and> ol_tenant_id l = tn)
     \<and> (\<exists>new. label_history t tn (foldl label_step empty_labels (cs @ ds)) = Inr (ls @ new))"
proof -
  have "labels_ok empty_labels" by (simp add: labels_ok_def empty_labels_def label_history_def history_ids_def)
  note ok = labels.run_inv [OF this]
  from ok [of cs] obtain ls where ls: "label_history t tn (foldl label_step empty_labels cs) = Inr ls" "well_ordered [] ls"
    "\<forall>l \<in> set ls. ol_target_id l = t \<and> ol_tenant_id l = tn" unfolding labels_ok_def by blast
  let ?a = "foldl label_step empty_labels cs" and ?b = "foldl label_step empty_labels (cs @ ds)"
  have "labels_grow ?a ?b" using labels.run_ext [OF ok [of cs], of ds] by simp
  then obtain new where g: "history_ids t tn ?b = history_ids t tn ?a @ new"
    "\<And>i l. map_of (ls_labels ?a) i = Some l \<Longrightarrow> map_of (ls_labels ?b) i = Some l"
    unfolding labels_grow_def by blast
  from ok [of "cs @ ds"] obtain xs where "label_history t tn ?b = Inr xs" unfolding labels_ok_def by blast
  moreover have "labels_at (ls_labels ?b) (history_ids t tn ?a) = Inr ls"
    using labels_at_mono [OF ls(1) [unfolded label_history_def] g(2)] by simp
  ultimately have "\<exists>new. label_history t tn ?b = Inr (ls @ new)"
    unfolding label_history_def g(1) labels_at_append by (auto split: sum.splits)
  with ls show ?thesis by blast
qed

theorem outcome_history_sound_witness:
  "\<exists>ls. label_history ''t'' ''tn'' (foldl label_step empty_labels
     [\<lparr>ol_label_id = ''a'', ol_target_id = ''t'', ol_value = True, ol_observed_at_ns = 1, ol_source = ''s'', ol_tenant_id = ''tn'',
       ol_status = OLS_PROVISIONAL, ol_supersedes = None, ol_evidence_refs = []\<rparr>]) = Inr ls \<and> well_ordered [] ls"
  using outcome_history_sound [of "''t''" "''tn''" "[\<lparr>ol_label_id = ''a'', ol_target_id = ''t'', ol_value = True, ol_observed_at_ns = 1,
     ol_source = ''s'', ol_tenant_id = ''tn'', ol_status = OLS_PROVISIONAL, ol_supersedes = None, ol_evidence_refs = []\<rparr>]"]
  by blast

end
