(* ===== verification/Control.thy ===== *)
theory Control
  imports Capabilities Cognitive_State
begin

text \<open>
  The semantic controller (\<open>control/contracts.py\<close>, \<open>controller.py\<close>, \<open>generators.py\<close>): candidates with
  predicted outcomes, authorisation, Pareto pruning and lexicographic selection, and the
  lifecycle of the selected action. Floating-point values are real numbers. The hash of the
  audit payload is a parameter, as are callbacks that generate candidates.
\<close>

declare map_of_eq_Some_iff [simp del] Some_eq_map_of_iff [simp del]

section \<open>Contracts\<close>

datatype candidate_source = CS_RULE | CS_PLANNER | CS_MODEL | CS_SKILL | CS_VERIFIER | CS_HYPOTHESIS

fun candidate_source_value :: "candidate_source \<Rightarrow> string" where
  "candidate_source_value CS_RULE = ''RULE''"
| "candidate_source_value CS_PLANNER = ''PLANNER''"
| "candidate_source_value CS_MODEL = ''MODEL''"
| "candidate_source_value CS_SKILL = ''SKILL''"
| "candidate_source_value CS_VERIFIER = ''VERIFIER''"
| "candidate_source_value CS_HYPOTHESIS = ''HYPOTHESIS''"

record outcome_vector =
  ov_quality_gain :: real
  ov_information_gain :: real
  ov_confidence_gain :: real
  ov_monetary_cost :: real
  ov_compute_cost :: real
  ov_latency_ms :: real
  ov_epistemic_risk :: real
  ov_safety_risk :: real
  ov_privacy_risk :: real
  ov_reversibility :: real
  ov_side_effect_magnitude :: real

definition ov_values :: "outcome_vector \<Rightarrow> real list" where
  "ov_values v = [ov_quality_gain v, ov_information_gain v, ov_confidence_gain v, ov_monetary_cost v, ov_compute_cost v,
     ov_latency_ms v, ov_epistemic_risk v, ov_safety_risk v, ov_privacy_risk v, ov_reversibility v, ov_side_effect_magnitude v]"

definition OutcomeVector_post_init :: "outcome_vector \<Rightarrow> outcome_vector res" where
  "OutcomeVector_post_init v =
     require (list_all (\<lambda>x. \<not> x < 0) (ov_values v)) (ValueError ''outcome vector values MUST be non-negative'') (Inr v)"

record action_candidate =
  ac_proposal :: cognitive_proposal
  ac_source :: candidate_source
  ac_prediction :: outcome_vector
  ac_uncertainty :: real
  ac_required_permissions :: "string set"
  ac_preconditions_satisfied :: bool
  ac_shadow_prediction :: "outcome_vector option"

definition ActionCandidate_post_init :: "action_candidate \<Rightarrow> action_candidate res" where
  "ActionCandidate_post_init c =
     require (0 \<le> ac_uncertainty c \<and> ac_uncertainty c \<le> 1) (ValueError ''candidate uncertainty MUST be between 0 and 1'') (Inr c)"

record controller_context =
  ctl_task_id :: string
  ctl_risk_class :: risk_class
  ctl_candidates :: "action_candidate list"
  ctl_available_budget :: real
  ctl_deadline_remaining_ms :: int
  ctl_granted_permissions :: "string set"
  ctl_allowed_actions :: "cognitive_action_type set"
  ctl_stop_authorized :: bool
  ctl_tenant_id :: string

definition ControllerContext_post_init :: "controller_context \<Rightarrow> controller_context res" where
  "ControllerContext_post_init x =
     require (ctl_task_id x \<noteq> [] \<and> ctl_tenant_id x \<noteq> []) (ValueError ''controller task and tenant identity MUST be non-empty'') (
     require (\<not> (ctl_available_budget x < 0 \<or> ctl_deadline_remaining_ms x < 0))
       (ValueError ''controller budget and deadline MUST be non-negative'') (Inr x))"

record candidate_rejection =
  crj_proposal_id :: string
  crj_reason_codes :: "string list"

record controller_decision =
  dec_selected :: "action_candidate option"
  dec_alternatives :: "action_candidate list"
  dec_rejections :: "candidate_rejection list"
  dec_pareto_survivors :: "string list"
  dec_reason_codes :: "string list"
  dec_audit_record_id :: string
  dec_shadow_log :: "(string \<times> outcome_vector) list"

definition dec_action_type :: "controller_decision \<Rightarrow> cognitive_action_type option" where
  "dec_action_type d = map_option (\<lambda>c. cp_action_type (ac_proposal c)) (dec_selected d)"

abbreviation cand_id :: "action_candidate \<Rightarrow> string" where
  "cand_id c \<equiv> cp_proposal_id (ac_proposal c)"

section \<open>Validation and authorisation\<close>

type_synonym semantic_key =
  "string \<times> cognitive_action_type \<times> string list \<times> string list \<times> string list \<times> risk_class \<times> bool \<times> string list"

definition semantic_key :: "action_candidate \<Rightarrow> semantic_key" where
  "semantic_key c = (let p = ac_proposal c in
     (cp_task_id p, cp_action_type p, sort (cp_preconditions p), sort (cp_expected_effects p),
      sort (cp_evidence_requirements p), cp_risk p, cp_reversible p, sorted_list_of_set (ac_required_permissions c)))"

fun deduplicate ::
  "action_candidate list \<Rightarrow> string set \<Rightarrow> semantic_key set \<Rightarrow> action_candidate list \<times> candidate_rejection list" where
  "deduplicate [] seen_ids seen_semantics = ([], [])"
| "deduplicate (c # cs) seen_ids seen_semantics =
     (if cand_id c \<in> seen_ids \<or> semantic_key c \<in> seen_semantics
      then (case deduplicate cs seen_ids seen_semantics of
              (us, rs) \<Rightarrow> (us, \<lparr>crj_proposal_id = cand_id c, crj_reason_codes = [''DUPLICATE'']\<rparr> # rs))
      else (case deduplicate cs (insert (cand_id c) seen_ids) (insert (semantic_key c) seen_semantics) of
              (us, rs) \<Rightarrow> (c # us, rs)))"

fun is_plain :: "metadata_value \<Rightarrow> bool" where
  "is_plain (Plain _) = True"
| "is_plain (No_op _) = False"

text \<open>\<open>metadata.get("no_op_decision")\<close>, where an entry that is \<open>None\<close> counts as absent.\<close>

definition no_op_entry :: "cognitive_proposal \<Rightarrow> metadata_value option" where
  "no_op_entry p =
     (case map_of (cp_metadata p) ''no_op_decision'' of
        None \<Rightarrow> None
      | Some v \<Rightarrow> if v = Plain PNone then None else Some v)"

definition authorization_reasons :: "action_candidate \<Rightarrow> controller_context \<Rightarrow> string list" where
  "authorization_reasons c x = (let p = ac_proposal c; no_op = no_op_entry p in
     (if cp_task_id p \<noteq> ctl_task_id x then [''TASK_MISMATCH''] else [])
     @ (if cp_action_type p \<notin> ctl_allowed_actions x then [''ACTION_NOT_ALLOWED''] else [])
     @ (if risk_order (cp_risk p) > risk_order (ctl_risk_class x) then [''RISK_LIMIT''] else [])
     @ (if cp_estimated_cost p > ctl_available_budget x then [''COST_BUDGET''] else [])
     @ (if cp_estimated_latency_ms p > ctl_deadline_remaining_ms x then [''DEADLINE''] else [])
     @ (if \<not> ac_required_permissions c \<subseteq> ctl_granted_permissions x then [''PERMISSION''] else [])
     @ (if \<not> ac_preconditions_satisfied c then [''PRECONDITION''] else [])
     @ (if cp_action_type p = CA_STOP \<and> \<not> ctl_stop_authorized x then [''STOP_NOT_AUTHORIZED''] else [])
     @ (if cp_action_type p = CA_STOP \<and> no_op \<noteq> None then [''STOP_NO_OP_CONFLATION''] else [])
     @ (if cp_action_type p = CA_RESTRUCTURE \<and> (case no_op of None \<Rightarrow> False | Some v \<Rightarrow> is_plain v)
        then [''INVALID_NO_OP_DECISION''] else []))"

section \<open>Pareto pruning and selection\<close>

definition objectives :: "outcome_vector \<Rightarrow> real list" where
  "objectives v = [ov_quality_gain v, ov_information_gain v, ov_confidence_gain v, - ov_monetary_cost v, - ov_compute_cost v,
     - ov_latency_ms v, - ov_epistemic_risk v, - ov_safety_risk v, - ov_privacy_risk v, ov_reversibility v,
     - ov_side_effect_magnitude v]"

definition dominates :: "outcome_vector \<Rightarrow> outcome_vector \<Rightarrow> bool" where
  "dominates l r \<longleftrightarrow>
     list_all (\<lambda>(a, b). a \<ge> b) (zip (objectives l) (objectives r)) \<and> list_ex (\<lambda>(a, b). a > b) (zip (objectives l) (objectives r))"

text \<open>
  The code compares a candidate with every other object; a candidate does not dominate itself,
  so comparing it with itself as well changes nothing.
\<close>

definition pareto_prune :: "action_candidate list \<Rightarrow> action_candidate list" where
  "pareto_prune cs = filter (\<lambda>c. \<not> list_ex (\<lambda>d. dominates (ac_prediction d) (ac_prediction c)) cs) cs"

definition lexicographic_key ::
  "action_candidate \<Rightarrow> real \<times> real \<times> real \<times> real \<times> real \<times> real \<times> real \<times> real \<times> real \<times> string" where
  "lexicographic_key c = (let v = ac_prediction c in
     (ov_safety_risk v, ov_privacy_risk v, ov_epistemic_risk v + ac_uncertainty c, ov_side_effect_magnitude v,
      - ov_reversibility v, - (ov_quality_gain v + ov_information_gain v + ov_confidence_gain v),
      ov_monetary_cost v, ov_compute_cost v, ov_latency_ms v, cand_id c))"

type_synonym audit_payload = "string \<times> string option \<times> string list \<times> (string \<times> string list) list"

definition first_min :: "action_candidate list \<Rightarrow> action_candidate option" where
  "first_min cs = (case cs of [] \<Rightarrow> None | c # cs' \<Rightarrow> Some (min_on lexicographic_key c cs'))"

definition authorized_of :: "controller_context \<Rightarrow> action_candidate list" where
  "authorized_of x = filter (\<lambda>c. authorization_reasons c x = []) (fst (deduplicate (ctl_candidates x) {} {}))"

definition control_select :: "(audit_payload \<Rightarrow> string) \<Rightarrow> controller_context \<Rightarrow> controller_decision" where
  "control_select audit_hash x =
     (let (unique, duplicates) = deduplicate (ctl_candidates x) {} {};
          authorized = filter (\<lambda>c. authorization_reasons c x = []) unique;
          refused = map (\<lambda>c. \<lparr>crj_proposal_id = cand_id c, crj_reason_codes = authorization_reasons c x\<rparr>)
                      (filter (\<lambda>c. authorization_reasons c x \<noteq> []) unique);
          survivors = pareto_prune authorized;
          selected = first_min survivors;
          alternatives = filter (\<lambda>c. Some (cand_id c) \<noteq> map_option cand_id selected) (sort_key lexicographic_key authorized);
          dominated = map (\<lambda>c. \<lparr>crj_proposal_id = cand_id c, crj_reason_codes = [''PARETO_DOMINATED'']\<rparr>)
                        (filter (\<lambda>c. cand_id c \<notin> cand_id ` set survivors) authorized);
          rejections = duplicates @ refused @ dominated;
          shadow = concat (map (\<lambda>c. case ac_shadow_prediction c of None \<Rightarrow> [] | Some v \<Rightarrow> [(cand_id c, v)]) unique)
      in \<lparr>dec_selected = selected, dec_alternatives = alternatives, dec_rejections = rejections,
          dec_pareto_survivors = map cand_id survivors,
          dec_reason_codes = [if selected \<noteq> None then ''LEXICOGRAPHIC_RISK_SELECTION'' else ''NO_AUTHORIZED_CANDIDATE''],
          dec_audit_record_id = audit_hash (ctl_task_id x, map_option cand_id selected, map cand_id survivors,
             map (\<lambda>r. (crj_proposal_id r, crj_reason_codes r)) rejections),
          dec_shadow_log = shadow\<rparr>)"

section \<open>The lifecycle of the selected action\<close>

definition authorization_sequence :: "action_lifecycle_state list" where
  "authorization_sequence = [AL_PROPOSED, AL_VALIDATED, AL_POLICY_CHECKED, AL_AUTHORIZED]"

fun move_through :: "string \<Rightarrow> action_lifecycle_state list \<Rightarrow> cognitive_state \<Rightarrow> cognitive_state res" where
  "move_through a [] s = Inr s"
| "move_through a (l # ls) s = (case with_action_transition a l s of Inl e \<Rightarrow> Inl e | Inr t \<Rightarrow> move_through a ls t)"

fun from_index :: "'a \<Rightarrow> 'a list \<Rightarrow> 'a list" where
  "from_index x [] = []"
| "from_index x (y # ys) = (if y = x then ys else from_index x ys)"

definition authorize_lifecycle :: "cognitive_state \<Rightarrow> controller_decision \<Rightarrow> cognitive_state res" where
  "authorize_lifecycle s d =
     (case dec_selected d of
        None \<Rightarrow> Inr s
      | Some c \<Rightarrow>
          (let current = map_of (cgs_action_states s) (cand_id c) in
           if current = Some AL_AUTHORIZED then Inr s
           else move_through (cand_id c)
                  (case current of
                     Some l \<Rightarrow> if l \<in> set authorization_sequence then from_index l authorization_sequence else authorization_sequence
                   | None \<Rightarrow> authorization_sequence) s))"

section \<open>Generators\<close>

definition make_candidate ::
  "string \<Rightarrow> risk_class \<Rightarrow> cognitive_action_type \<Rightarrow> candidate_source \<Rightarrow> real \<Rightarrow> real \<Rightarrow> real \<Rightarrow> real \<Rightarrow> real \<Rightarrow> action_candidate" where
  "make_candidate task_id risk action source quality information confidence cost safety =
     \<lparr>ac_proposal =
        \<lparr>cp_proposal_id = task_id @ '':'' @ casefold (candidate_source_value source) @ '':''
             @ casefold (cognitive_action_type_value action),
         cp_task_id = task_id, cp_action_type = action,
         cp_rationale = casefold (candidate_source_value source) @ '' candidate for '' @ cognitive_action_type_value action,
         cp_preconditions = [], cp_expected_effects = [], cp_evidence_requirements = [], cp_estimated_cost = cost,
         cp_estimated_latency_ms = 0, cp_risk = risk, cp_reversible = True, cp_metadata = []\<rparr>,
      ac_source = source,
      ac_prediction =
        \<lparr>ov_quality_gain = quality, ov_information_gain = information, ov_confidence_gain = confidence,
         ov_monetary_cost = cost, ov_compute_cost = 0, ov_latency_ms = 0, ov_epistemic_risk = 0, ov_safety_risk = safety,
         ov_privacy_risk = 0, ov_reversibility = 1, ov_side_effect_magnitude = 0\<rparr>,
      ac_uncertainty = 0, ac_required_permissions = {}, ac_preconditions_satisfied = True, ac_shadow_prediction = None\<rparr>"

definition rule_generate :: "cognitive_state \<Rightarrow> action_candidate list" where
  "rule_generate s = (let task_id = tsk_task_id (cgs_task s); risk = pcx_risk_class (tsk_policy (cgs_task s)) in
     (if unresolved_contradictions s \<noteq> []
      then [make_candidate task_id risk CA_VERIFY CS_RULE 0 (8/10) 0 (1/10) (1/10),
            make_candidate task_id risk CA_REPAIR CS_RULE (5/10) 0 0 (1/10) (1/10)] else [])
     @ (if missing_information s \<noteq> []
        then [make_candidate task_id risk CA_RETRIEVE CS_RULE 0 (7/10) 0 (1/10) (1/10),
              make_candidate task_id risk CA_ASK CS_RULE 0 (9/10) 0 (1/10) (1/10)] else [])
     @ (if cgs_hypotheses s \<noteq> []
        then [make_candidate task_id risk CA_OBSERVE_OR_TEST CS_HYPOTHESIS 0 (9/10) 0 (1/10) (1/10),
              make_candidate task_id risk CA_BRANCH CS_HYPOTHESIS 0 (5/10) 0 (1/10) (1/10)] else [])
     @ (if (case cgs_answer_state_id s of None \<Rightarrow> False | Some a \<Rightarrow> a \<noteq> [])
        then [make_candidate task_id risk CA_VERIFY CS_VERIFIER 0 0 (8/10) (1/10) (1/10),
              make_candidate task_id risk CA_STOP CS_RULE 1 0 0 0 0]
        else [make_candidate task_id risk CA_REASON CS_RULE (6/10) 0 0 (1/10) (1/10),
              make_candidate task_id risk CA_CONTINUE CS_RULE (4/10) 0 0 (1/10) (1/10)])
     @ (if list_ex (\<lambda>i. ei_status i \<in> {ES_CAPABILITY_LIMIT, ES_UNVERIFIABLE}) (cgs_epistemic_items s)
        then [make_candidate task_id risk CA_ESCALATE CS_RULE 0 0 0 (1/10) 0,
              make_candidate task_id risk CA_ABSTAIN CS_RULE 0 0 0 (1/10) 0] else []))"

definition callback_generate ::
  "candidate_source \<Rightarrow> (cognitive_state \<Rightarrow> action_candidate list) \<Rightarrow> cognitive_state \<Rightarrow> action_candidate list res" where
  "callback_generate source callback s =
     (let cs = callback s in
      require (\<not> list_ex (\<lambda>c. ac_source c \<noteq> source) cs)
        (ValueError ''callback candidate source does not match generator declaration'') (Inr cs))"

section \<open>Properties\<close>

lemma dominates_sum: "dominates l r \<Longrightarrow> sum_list (objectives r) < sum_list (objectives l)"
  by (auto simp: dominates_def objectives_def)

lemma pareto_survivor_exists:
  assumes "cs \<noteq> []"
  shows "pareto_prune cs \<noteq> []"
proof -
  let ?f = "\<lambda>c. sum_list (objectives (ac_prediction c))"
  have "Max (?f ` set cs) \<in> ?f ` set cs" using assms by (intro Max_in) auto
  then obtain c where c: "c \<in> set cs" "?f c = Max (?f ` set cs)" by auto
  then have "?f d \<le> ?f c" if "d \<in> set cs" for d using that by simp
  then have "\<not> dominates (ac_prediction d) (ac_prediction c)" if "d \<in> set cs" for d
    using dominates_sum [of "ac_prediction d" "ac_prediction c"] that by fastforce
  with c(1) have "c \<in> set (pareto_prune cs)" by (auto simp: pareto_prune_def list_ex_iff)
  then show ?thesis by auto
qed

lemma deduplicate_spec:
  assumes "deduplicate cs ids sems = (us, rs)"
  shows "set us \<subseteq> set cs \<and> distinct (map cand_id us) \<and> cand_id ` set us \<inter> ids = {}
    \<and> cand_id ` set cs = cand_id ` set us \<union> crj_proposal_id ` set rs"
  using assms
proof (induction cs ids sems arbitrary: us rs rule: deduplicate.induct)
  case (2 c cs ids sems)
  show ?case
  proof (cases "cand_id c \<in> ids \<or> semantic_key c \<in> sems")
    case True
    obtain us' rs' where e: "deduplicate cs ids sems = (us', rs')" by fastforce
    with True 2(3) have "us = us'" "rs = \<lparr>crj_proposal_id = cand_id c, crj_reason_codes = [''DUPLICATE'']\<rparr> # rs'" by auto
    with 2(1) [OF True e] show ?thesis by auto
  next
    case False
    obtain us' rs' where e: "deduplicate cs (insert (cand_id c) ids) (insert (semantic_key c) sems) = (us', rs')" by fastforce
    with False 2(3) have "us = c # us'" "rs = rs'" by auto
    with 2(2) [OF False e] False show ?thesis by auto
  qed
qed simp

lemma deduplicate_reasons:
  "deduplicate cs ids sems = (us, rs) \<Longrightarrow> list_all (\<lambda>r. crj_reason_codes r \<noteq> []) rs"
  by (induction cs ids sems arbitrary: us rs rule: deduplicate.induct) (auto split: if_splits prod.splits)

lemma selected_eq: "dec_selected (control_select h x) = first_min (pareto_prune (authorized_of x))"
  by (simp add: control_select_def authorized_of_def Let_def split: prod.split)

text \<open>
  C30: The controller selects an authorised, undominated candidate of least risk: the selected
  candidate is one of the given ones, passes every authorisation check, is dominated by no
  other authorised candidate and is lexicographically least among the undominated ones; one is
  selected whenever a candidate that is not a duplicate is authorised; and every given
  candidate is a survivor or is rejected with a reason.
\<close>

theorem controller_selection:
  fixes audit_hash :: "audit_payload \<Rightarrow> string" and x :: controller_context
  defines "d \<equiv> control_select audit_hash x"
  shows "(case dec_selected d of
       None \<Rightarrow> authorized_of x = []
     | Some c \<Rightarrow> c \<in> set (ctl_candidates x) \<and> authorization_reasons c x = []
         \<and> \<not> (\<exists>e \<in> set (authorized_of x). dominates (ac_prediction e) (ac_prediction c))
         \<and> (\<forall>e \<in> set (pareto_prune (authorized_of x)). lexicographic_key c \<le> lexicographic_key e))
    \<and> cand_id ` set (ctl_candidates x) = set (dec_pareto_survivors d) \<union> crj_proposal_id ` set (dec_rejections d)
    \<and> list_all (\<lambda>r. crj_reason_codes r \<noteq> []) (dec_rejections d)"
proof -
  obtain us rs where u: "deduplicate (ctl_candidates x) {} {} = (us, rs)" by fastforce
  let ?au = "authorized_of x"
  have au: "?au = filter (\<lambda>c. authorization_reasons c x = []) us" by (simp add: authorized_of_def u)
  let ?refused = "map (\<lambda>c. \<lparr>crj_proposal_id = cand_id c, crj_reason_codes = authorization_reasons c x\<rparr>)
      (filter (\<lambda>c. authorization_reasons c x \<noteq> []) us)"
  let ?dominated = "map (\<lambda>c. \<lparr>crj_proposal_id = cand_id c, crj_reason_codes = [''PARETO_DOMINATED'']\<rparr>)
      (filter (\<lambda>c. cand_id c \<notin> cand_id ` set (pareto_prune ?au)) ?au)"
  have s: "dec_selected d = first_min (pareto_prune ?au)" and p: "dec_pareto_survivors d = map cand_id (pareto_prune ?au)"
    and j: "dec_rejections d = rs @ ?refused @ ?dominated"
    by (simp_all add: d_def control_select_def Let_def u au)
  note us = deduplicate_spec [OF u]
  have dup: "list_all (\<lambda>r. crj_reason_codes r \<noteq> []) rs" by (rule deduplicate_reasons [OF u])
  have sub: "set (pareto_prune ?au) \<subseteq> set ?au" by (auto simp: pareto_prune_def)
  have "cand_id ` set us = cand_id ` set (pareto_prune ?au) \<union> crj_proposal_id ` set (?refused @ ?dominated)"
  proof -
    have "crj_proposal_id ` set ?refused = cand_id ` {c \<in> set us. authorization_reasons c x \<noteq> []}"
      and "crj_proposal_id ` set ?dominated = cand_id ` {c \<in> set ?au. cand_id c \<notin> cand_id ` set (pareto_prune ?au)}"
      by (simp_all add: image_image)
    moreover have "set us = set ?au \<union> {c \<in> set us. authorization_reasons c x \<noteq> []}" by (auto simp: au)
    ultimately show ?thesis using sub unfolding set_append image_Un by blast
  qed
  then have "cand_id ` set (ctl_candidates x) = set (dec_pareto_survivors d) \<union> crj_proposal_id ` set (dec_rejections d)"
    using us unfolding p j by auto
  moreover have "list_all (\<lambda>r. crj_reason_codes r \<noteq> []) (dec_rejections d)"
    using dup unfolding j by (auto simp: list_all_iff)
  moreover have "case dec_selected d of
       None \<Rightarrow> ?au = []
     | Some c \<Rightarrow> c \<in> set (pareto_prune ?au) \<and> (\<forall>e \<in> set (pareto_prune ?au). lexicographic_key c \<le> lexicographic_key e)"
  proof (cases "pareto_prune ?au")
    case Nil
    then show ?thesis using pareto_survivor_exists by (auto simp: s first_min_def)
  next
    case (Cons c cs)
    with min_on_in [of lexicographic_key c cs] min_on_least [of _ c cs lexicographic_key] show ?thesis
      by (simp add: s first_min_def)
  qed
  moreover have "c \<in> set (ctl_candidates x) \<and> authorization_reasons c x = []
      \<and> \<not> (\<exists>e \<in> set ?au. dominates (ac_prediction e) (ac_prediction c))" if "c \<in> set (pareto_prune ?au)" for c
    using that us by (auto simp: pareto_prune_def list_ex_iff au)
  ultimately show ?thesis by (auto split: option.splits)
qed

definition demo_context :: "action_candidate list \<Rightarrow> controller_context" where
  "demo_context cs = \<lparr>ctl_task_id = ''t'', ctl_risk_class = RISK_HIGH, ctl_candidates = cs, ctl_available_budget = 1,
     ctl_deadline_remaining_ms = 10, ctl_granted_permissions = {}, ctl_allowed_actions = {CA_REASON, CA_ASK}, ctl_stop_authorized = False,
     ctl_tenant_id = ''tn''\<rparr>"

definition demo_candidate :: "string \<Rightarrow> real \<Rightarrow> action_candidate" where
  "demo_candidate i cost =
     (let c = make_candidate ''t'' RISK_LOW CA_REASON CS_RULE 1 0 0 cost 0
      in c\<lparr>ac_proposal := (ac_proposal c)\<lparr>cp_proposal_id := i\<rparr>\<rparr>)"

lemma demo_authorized: "authorized_of (demo_context [demo_candidate ''a'' 0]) = [demo_candidate ''a'' 0]"
  by (simp add: authorized_of_def demo_context_def demo_candidate_def make_candidate_def authorization_reasons_def Let_def
      no_op_entry_def)

theorem controller_selection_witness:
  "\<exists>c. dec_selected (control_select (\<lambda>_. ''h'') (demo_context [demo_candidate ''a'' 0])) = Some c
     \<and> authorization_reasons c (demo_context [demo_candidate ''a'' 0]) = []"
  using controller_selection [where audit_hash = "\<lambda>_. ''h''" and x = "demo_context [demo_candidate ''a'' 0]"] demo_authorized
  by (auto split: option.splits)

text \<open>
  Duplicates are dropped before the authorisation, by a key without cost, latency and
  preconditions: a candidate that is refused for its cost hides an affordable one after it.
\<close>

lemma refused_duplicate_hides_authorized:
  "dec_selected (control_select h (demo_context [demo_candidate ''a'' 2, demo_candidate ''b'' 0])) = None
   \<and> dec_selected (control_select h (demo_context [demo_candidate ''b'' 0])) \<noteq> None"
proof -
  have "authorized_of (demo_context [demo_candidate ''a'' 2, demo_candidate ''b'' 0]) = []"
    by (simp add: authorized_of_def demo_context_def demo_candidate_def make_candidate_def authorization_reasons_def Let_def
        semantic_key_def)
  moreover have "authorized_of (demo_context [demo_candidate ''b'' 0]) \<noteq> []"
    by (simp add: authorized_of_def demo_context_def demo_candidate_def make_candidate_def authorization_reasons_def Let_def
        no_op_entry_def)
  ultimately show ?thesis
    using pareto_survivor_exists by (auto simp: selected_eq first_min_def pareto_prune_def split: list.splits)
qed

subsection \<open>Authorising the selected action\<close>

lemma transition_result:
  assumes "state_ok s" and "a \<noteq> []" and "l \<in> set (action_allowed (map_of (cgs_action_states s) a))"
  shows "\<exists>t. with_action_transition a l s = Inr t \<and> state_ok t \<and> map_of (cgs_action_states t) a = Some l"
proof (cases "map_of (cgs_action_states s) a = Some l")
  case True
  then show ?thesis using assms by (simp add: with_action_transition_def Let_def)
next
  case False
  let ?t = "s\<lparr>cgs_action_states := dict_set a l (cgs_action_states s),
      cgs_event_log := cgs_event_log s @ [transition_event a (map_of (cgs_action_states s) a) l]\<rparr>"
  have "CognitiveState_post_init ?t = Inr ?t" using assms(1) by (simp add: state_ok_def CognitiveState_post_init_def)
  then have t: "with_action_transition a l s = Inr ?t"
    using False assms(2,3) by (simp add: with_action_transition_def validate_action_transition_def Let_def)
  with operation_keeps [OF assms(1), of "Move_action a l" ?t] show ?thesis by simp
qed

lemma move_through_authorizes:
  assumes "state_ok s" and "a \<noteq> []" and "map_of (cgs_action_states s) a = st"
    and "(st, ls) \<in> {(None, authorization_sequence), (Some AL_PROPOSED, drop 1 authorization_sequence),
           (Some AL_VALIDATED, drop 2 authorization_sequence), (Some AL_POLICY_CHECKED, drop 3 authorization_sequence)}"
  shows "\<exists>t. move_through a ls s = Inr t \<and> map_of (cgs_action_states t) a = Some AL_AUTHORIZED"
proof -
  have step: "\<exists>t. move_through a (l # ls) s = Inr t \<and> map_of (cgs_action_states t) a = Some AL_AUTHORIZED"
    if "state_ok s" "map_of (cgs_action_states s) a = st" "l \<in> set (action_allowed st)"
      "\<And>t. state_ok t \<Longrightarrow> map_of (cgs_action_states t) a = Some l \<Longrightarrow>
        \<exists>u. move_through a ls t = Inr u \<and> map_of (cgs_action_states u) a = Some AL_AUTHORIZED" for s st l ls
    using transition_result [OF that(1) assms(2), of l] that(2-4) by fastforce
  note defs = authorization_sequence_def action_allowed_def action_sequence_def action_alternative_terminals_def
  have 4: "\<exists>u. move_through a [AL_AUTHORIZED] t = Inr u \<and> map_of (cgs_action_states u) a = Some AL_AUTHORIZED"
    if "state_ok t" "map_of (cgs_action_states t) a = Some AL_POLICY_CHECKED" for t
    by (rule step [OF that]) (simp_all add: defs)
  have 3: "\<exists>u. move_through a [AL_POLICY_CHECKED, AL_AUTHORIZED] t = Inr u \<and> map_of (cgs_action_states u) a = Some AL_AUTHORIZED"
    if "state_ok t" "map_of (cgs_action_states t) a = Some AL_VALIDATED" for t
    by (rule step [OF that _ 4]) (simp_all add: defs)
  have 2: "\<exists>u. move_through a [AL_VALIDATED, AL_POLICY_CHECKED, AL_AUTHORIZED] t = Inr u
      \<and> map_of (cgs_action_states u) a = Some AL_AUTHORIZED"
    if "state_ok t" "map_of (cgs_action_states t) a = Some AL_PROPOSED" for t
    by (rule step [OF that _ 3]) (simp_all add: defs)
  have 1: "\<exists>u. move_through a [AL_PROPOSED, AL_VALIDATED, AL_POLICY_CHECKED, AL_AUTHORIZED] t = Inr u
      \<and> map_of (cgs_action_states u) a = Some AL_AUTHORIZED"
    if "state_ok t" "map_of (cgs_action_states t) a = None" for t
    by (rule step [OF that _ 2]) (simp_all add: defs)
  from assms(4) 1 [OF assms(1)] 2 [OF assms(1)] 3 [OF assms(1)] 4 [OF assms(1)] assms(3) show ?thesis
    by (auto simp: authorization_sequence_def)
qed

text \<open>
  Authorising the selected action succeeds exactly if the action has not gone past
  AUTHORIZED or to another end, and then leaves it AUTHORIZED.
\<close>

lemma authorize_lifecycle_exact:
  assumes "state_ok s" and "dec_selected d = Some c" and "cand_id c \<noteq> []"
  shows "(\<exists>t. authorize_lifecycle s d = Inr t \<and> map_of (cgs_action_states t) (cand_id c) = Some AL_AUTHORIZED)
    \<longleftrightarrow> map_of (cgs_action_states s) (cand_id c) \<in> insert None (Some ` set authorization_sequence)"
proof (cases "map_of (cgs_action_states s) (cand_id c) \<in> insert None (Some ` set authorization_sequence)")
  case True
  with move_through_authorizes [OF assms(1,3) refl] assms(2) show ?thesis
    by (auto simp: authorize_lifecycle_def authorization_sequence_def)
next
  case False
  then obtain l where l: "map_of (cgs_action_states s) (cand_id c) = Some l" "l \<notin> set authorization_sequence" by auto
  then have "AL_PROPOSED \<notin> set (action_allowed (Some l))" "l \<noteq> AL_PROPOSED"
    by (cases l; simp add: authorization_sequence_def action_allowed_def action_sequence_def action_alternative_terminals_def)+
  then have "\<exists>e. with_action_transition (cand_id c) AL_PROPOSED s = Inl e"
    using l assms(3) by (simp add: with_action_transition_def validate_action_transition_def Let_def)
  then have "\<exists>e. move_through (cand_id c) authorization_sequence s = Inl e" by (auto simp: authorization_sequence_def)
  with l assms(2) False show ?thesis by (auto simp: authorize_lifecycle_def authorization_sequence_def)
qed

end
