(* ===== verification/Neural.thy ===== *)
theory Neural
  imports Cognition Enterprise
begin

text \<open>
  Neural units (\<open>neural/*.py\<close>): tensor shapes and unit contracts, the registry of backends, execution
  with adaptive depth, training losses, checkpoints and benchmarks. Layers and exit heads are
  parameters of a model and may raise; the canonical hash is a parameter; floating-point values
  are real numbers, except the confidence a head returns, which may be any floating-point value.
\<close>

declare map_of_eq_Some_iff [simp del] Some_eq_map_of_iff [simp del]

section \<open>Tensors and unit contracts\<close>

datatype gradient_policy = GP_FROZEN | GP_ENABLED | GP_ADAPTER_ONLY | GP_EXTERNAL

datatype compilation_policy = CP_EAGER | CP_COMPILE_ONCE | CP_CACHE_BY_SIGNATURE | CP_BACKEND_MANAGED

text \<open>A dimension is a number, a symbol that stands for the same number everywhere, or open.\<close>

datatype dimension = Fixed int | Symbol string | Open

record tensor_spec =
  ts_shape :: "dimension list"
  ts_dtype :: string
  ts_name :: string
  ts_layout :: string
  ts_device :: string
  ts_requires_gradient :: bool

fun shape_loop :: "(dimension \<times> int) list \<Rightarrow> (string, int) dict \<Rightarrow> bool" where
  "shape_loop [] symbols = True"
| "shape_loop ((Open, observed) # rest) symbols = shape_loop rest symbols"
| "shape_loop ((Fixed n, observed) # rest) symbols = (if n \<noteq> observed then False else shape_loop rest symbols)"
| "shape_loop ((Symbol s, observed) # rest) symbols =
     (case map_of symbols s of
        None \<Rightarrow> shape_loop rest (dict_set s observed symbols)
      | Some previous \<Rightarrow> if previous \<noteq> observed then False else shape_loop rest symbols)"

definition validate_shape :: "tensor_spec \<Rightarrow> int list \<Rightarrow> bool" where
  "validate_shape t actual =
     (if length actual \<noteq> length (ts_shape t) then False else shape_loop (zip (ts_shape t) actual) [])"

record parameter_spec =
  ps_name :: string
  ps_tensor :: tensor_spec
  ps_trainable :: bool
  ps_sharding :: string

record quantization_policy =
  qp_mode :: string
  qp_bits :: "int option"
  qp_calibration_artifact :: "string option"

definition QuantizationPolicy_post_init :: "quantization_policy \<Rightarrow> quantization_policy res" where
  "QuantizationPolicy_post_init q =
     require (\<not> (qp_mode q = ''none'' \<and> qp_bits q \<noteq> None)) (ValueError ''unquantized tensors cannot declare a bit width'') (
     require (case qp_bits q of None \<Rightarrow> True | Some b \<Rightarrow> b \<in> {2, 3, 4, 8, 16}) (ValueError ''unsupported quantization bit width'')
     (Inr q))"

record cache_policy =
  chp_kind :: string
  chp_scope :: string
  chp_max_bytes :: "int option"
  chp_eviction :: string

record neural_unit_contract =
  nuc_inputs :: "(string, tensor_spec) dict"
  nuc_outputs :: "(string, tensor_spec) dict"
  nuc_parameters :: "parameter_spec list"
  nuc_state :: "(string, tensor_spec) dict"
  nuc_gradient_policy :: gradient_policy
  nuc_compilation_policy :: compilation_policy
  nuc_precision :: string
  nuc_quantization :: quantization_policy
  nuc_cache :: cache_policy
  nuc_supported_backends :: "string set"

definition neural_contract_validate :: "neural_unit_contract \<Rightarrow> unit res" where
  "neural_contract_validate c =
     require (nuc_inputs c \<noteq> []) (ValueError ''a neural unit must declare at least one input'') (
     require (nuc_outputs c \<noteq> []) (ValueError ''a neural unit must declare at least one output'') (
     require (length (map ps_name (nuc_parameters c)) = card (set (map ps_name (nuc_parameters c))))
       (ValueError ''parameter names must be unique'') (
     require (\<not> (nuc_gradient_policy c = GP_FROZEN \<and> list_ex ps_trainable (nuc_parameters c)))
       (ValueError ''frozen units cannot contain trainable parameters'') (Inr ()))))"

section \<open>Backends\<close>

text \<open>Compilation, execution and checkpoints of a backend are its own; they are the field \<open>nbk_rest\<close>.\<close>

record 'b neural_backend =
  nbk_backend_id :: string
  nbk_supports :: "neural_unit_contract \<Rightarrow> bool"
  nbk_rest :: 'b

type_synonym 'b backend_registry = "(string, 'b neural_backend) dict"

definition backend_register :: "'b neural_backend \<Rightarrow> 'b backend_registry \<Rightarrow> 'b backend_registry res" where
  "backend_register b reg =
     require (nbk_backend_id b \<notin> fst ` set reg) (ValueError (''neural backend already registered: '' @ nbk_backend_id b))
     (Inr (dict_set (nbk_backend_id b) b reg))"

definition backend_get :: "string \<Rightarrow> 'b backend_registry \<Rightarrow> 'b neural_backend res" where
  "backend_get i reg = (case map_of reg i of None \<Rightarrow> Inl (KeyError (''unknown neural backend: '' @ i)) | Some b \<Rightarrow> Inr b)"

definition backend_select :: "neural_unit_contract \<Rightarrow> string option \<Rightarrow> 'b backend_registry \<Rightarrow> 'b neural_backend res" where
  "backend_select contract preferred reg =
     (case preferred of
        Some i \<Rightarrow>
          (case backend_get i reg of
             Inl e \<Rightarrow> Inl e
           | Inr b \<Rightarrow> require (nbk_supports b contract) (ValueError (''backend '' @ i @ '' does not support the neural contract'')) (Inr b))
      | None \<Rightarrow>
          (let matches = filter (\<lambda>b. nbk_supports b contract) (map snd reg)
           in require (matches \<noteq> []) (LookupError ''no registered neural backend supports the contract'')
                (Inr (hd (sort_key nbk_backend_id matches)))))"

section \<open>Adaptive depth\<close>

record neural_experiment_design =
  ned_model_family :: string
  ned_task_domain :: string
  ned_dataset_hash :: string
  ned_full_depth :: int
  ned_exit_layers :: "int list"
  ned_seed :: int

definition NeuralExperimentDesign_post_init :: "neural_experiment_design \<Rightarrow> neural_experiment_design res" where
  "NeuralExperimentDesign_post_init d =
     require (ned_model_family d \<noteq> [] \<and> ned_task_domain d \<noteq> [] \<and> ned_dataset_hash d \<noteq> [])
       (ValueError ''neural experiment identity and data lineage MUST be complete'') (
     require (\<not> (ned_full_depth d \<le> 0 \<or> ned_exit_layers d = [])) (ValueError ''adaptive model MUST declare depth and exits'') (
     require (sorted_list_of_set (set (ned_exit_layers d)) = ned_exit_layers d) (ValueError ''exit layers MUST be unique and sorted'') (
     require (\<not> (last (ned_exit_layers d) \<noteq> ned_full_depth d \<or> hd (ned_exit_layers d) \<le> 0))
       (ValueError ''exit layers MUST terminate at full depth'') (Inr d))))"

record exit_calibration =
  ec_layer :: int
  ec_domain :: string
  ec_risk_class :: risk_class
  ec_model_fingerprint :: string
  ec_confidence_threshold :: real
  ec_maximum_error :: real
  ec_observed_error :: real
  ec_sample_count :: int
  ec_shifted :: bool

definition ec_applicable :: "exit_calibration \<Rightarrow> bool" where
  "ec_applicable c \<longleftrightarrow> ec_sample_count c \<ge> 20 \<and> ec_observed_error c \<le> ec_maximum_error c \<and> \<not> ec_shifted c"

record 'o exit_observation =
  eo_output :: 'o
  eo_confidence :: pyfloat
  eo_layer :: int

definition ExitObservation_post_init :: "'o exit_observation \<Rightarrow> 'o exit_observation res" where
  "ExitObservation_post_init x =
     require (case eo_confidence x of Fin c \<Rightarrow> 0 \<le> c \<and> c \<le> 1 | _ \<Rightarrow> False)
       (ValueError ''neural exit confidence MUST be finite and between zero and one'') (Inr x)"

record 'o adaptive_depth_result =
  adr_output :: 'o
  adr_exit_layer :: int
  adr_layers_executed :: nat
  adr_full_depth :: int
  adr_used_early_exit :: bool
  adr_calibrated :: bool
  adr_reason_codes :: "string list"
  adr_layer_trace :: "int list"

definition compute_fraction :: "'o adaptive_depth_result \<Rightarrow> real" where
  "compute_fraction r = real (adr_layers_executed r) / real_of_int (adr_full_depth r)"

record ('h, 'o) adaptive_depth_model =
  adm_design :: neural_experiment_design
  adm_model_fingerprint :: string
  adm_layers :: "('h \<Rightarrow> 'h res) list"
  adm_exit_heads :: "(int, 'h \<Rightarrow> ('o \<times> pyfloat) res) dict"
  adm_calibrations :: "exit_calibration list"
  adm_kill_switch :: bool

definition AdaptiveDepthModel_post_init :: "('h, 'o) adaptive_depth_model \<Rightarrow> ('h, 'o) adaptive_depth_model res" where
  "AdaptiveDepthModel_post_init m =
     require (int (length (adm_layers m)) = ned_full_depth (adm_design m)) (ValueError ''layer count MUST match experiment full depth'') (
     require (fst ` set (adm_exit_heads m) = set (ned_exit_layers (adm_design m)))
       (ValueError ''one exit head is required at every declared exit'') (Inr m))"

definition calibration_at :: "('h, 'o) adaptive_depth_model \<Rightarrow> int \<Rightarrow> string \<Rightarrow> risk_class \<Rightarrow> exit_calibration option" where
  "calibration_at m layer domain risk =
     find (\<lambda>c. ec_layer c = layer \<and> ec_domain c = domain \<and> ec_risk_class c = risk
       \<and> ec_model_fingerprint c = adm_model_fingerprint m \<and> ec_applicable c) (adm_calibrations m)"

text \<open>Why an exit before the last layer is not taken, if it is not.\<close>

definition fallback_reason ::
  "('h, 'o) adaptive_depth_model \<Rightarrow> string \<Rightarrow> risk_class \<Rightarrow> bool \<Rightarrow> int \<Rightarrow> pyfloat \<Rightarrow> string option" where
  "fallback_reason m domain risk force layer confidence =
     (if adm_kill_switch m \<or> force
      then Some (if adm_kill_switch m then ''FULL_DEPTH_KILL_SWITCH'' else ''FULL_DEPTH_FORCED'')
      else case calibration_at m layer domain risk of
             None \<Rightarrow> Some (''NO_APPLICABLE_CALIBRATION:'' @ show_int layer)
           | Some c \<Rightarrow> if flt_less confidence (Fin (ec_confidence_threshold c)) then Some (''EXIT_CONFIDENCE_LOW:'' @ show_int layer) else None)"

fun depth_loop ::
  "('h, 'o) adaptive_depth_model \<Rightarrow> string \<Rightarrow> risk_class \<Rightarrow> bool \<Rightarrow> int \<Rightarrow> ('h \<Rightarrow> 'h res) list \<Rightarrow> 'h \<Rightarrow> int list \<Rightarrow> string list
   \<Rightarrow> 'o adaptive_depth_result res" where
  "depth_loop m domain risk force n [] hidden trace reasons =
     Inl (RuntimeError ''adaptive model did not reach its mandatory final exit'')"
| "depth_loop m domain risk force n (layer # rest) hidden trace reasons =
     (case layer hidden of
        Inl e \<Rightarrow> Inl e
      | Inr hidden' \<Rightarrow>
          (let trace' = trace @ [n] in
           case map_of (adm_exit_heads m) n of
             None \<Rightarrow> depth_loop m domain risk force (n + 1) rest hidden' trace' reasons
           | Some head \<Rightarrow>
               (case head hidden' of
                  Inl e \<Rightarrow> Inl e
                | Inr (output, confidence) \<Rightarrow>
                    (case ExitObservation_post_init \<lparr>eo_output = output, eo_confidence = confidence, eo_layer = n\<rparr> of
                       Inl e \<Rightarrow> Inl e
                     | Inr x \<Rightarrow>
                         if n = ned_full_depth (adm_design m)
                         then Inr \<lparr>adr_output = eo_output x, adr_exit_layer = n, adr_layers_executed = length trace',
                                   adr_full_depth = ned_full_depth (adm_design m), adr_used_early_exit = False, adr_calibrated = True,
                                   adr_reason_codes = (if reasons = [] then [''FULL_DEPTH''] else reasons), adr_layer_trace = trace'\<rparr>
                         else (case fallback_reason m domain risk force n (eo_confidence x) of
                                 Some why \<Rightarrow> depth_loop m domain risk force (n + 1) rest hidden' trace' (reasons @ [why])
                               | None \<Rightarrow>
                                   Inr \<lparr>adr_output = eo_output x, adr_exit_layer = n, adr_layers_executed = length trace',
                                        adr_full_depth = ned_full_depth (adm_design m), adr_used_early_exit = True, adr_calibrated = True,
                                        adr_reason_codes = [''CALIBRATED_EARLY_EXIT''], adr_layer_trace = trace'\<rparr>)))))"

definition adaptive_execute ::
  "string \<Rightarrow> risk_class \<Rightarrow> bool \<Rightarrow> 'h \<Rightarrow> ('h, 'o) adaptive_depth_model \<Rightarrow> 'o adaptive_depth_result res" where
  "adaptive_execute domain risk force v m = depth_loop m domain risk force 1 (adm_layers m) v [] []"

section \<open>Evidence, training and benchmarks\<close>

record neural_exit_evidence =
  nee_capability_id :: string
  nee_model_fingerprint :: string
  nee_task_id :: string
  nee_exit_layer :: int
  nee_layers_executed :: nat
  nee_full_depth :: int
  nee_calibrated :: bool
  nee_reason_codes :: "string list"

definition issue_exit_evidence :: "'o adaptive_depth_result \<Rightarrow> string \<Rightarrow> string \<Rightarrow> string \<Rightarrow> neural_exit_evidence res" where
  "issue_exit_evidence r capability_id model_fingerprint task_id =
     require (capability_id \<noteq> [] \<and> model_fingerprint \<noteq> [] \<and> task_id \<noteq> []) (ValueError ''neural exit evidence identity MUST be complete'')
     (Inr \<lparr>nee_capability_id = capability_id, nee_model_fingerprint = model_fingerprint, nee_task_id = task_id,
           nee_exit_layer = adr_exit_layer r, nee_layers_executed = adr_layers_executed r, nee_full_depth = adr_full_depth r,
           nee_calibrated = adr_calibrated r, nee_reason_codes = adr_reason_codes r\<rparr>)"

record adaptive_loss =
  al_total :: real
  al_exit_loss :: real
  al_teacher_loss :: real
  al_compute_regularization :: real

definition arith_mean :: "real list \<Rightarrow> real" where
  "arith_mean xs = sum_list xs / real (length xs)"

definition adaptive_training_loss :: "real list \<Rightarrow> real list \<Rightarrow> real list \<Rightarrow> real \<Rightarrow> real \<Rightarrow> adaptive_loss res" where
  "adaptive_training_loss exit_losses teacher_losses fractions teacher_weight compute_weight =
     require (\<not> (exit_losses = [] \<or> length exit_losses \<noteq> length teacher_losses \<or> length exit_losses \<noteq> length fractions))
       (ValueError ''training loss inputs MUST be aligned and non-empty'') (
     require (\<not> list_ex (\<lambda>v. v < 0) (exit_losses @ teacher_losses @ fractions))
       (ValueError ''training losses and compute fractions MUST be non-negative'')
     (let e = arith_mean exit_losses; t = arith_mean teacher_losses; c = arith_mean fractions
      in Inr \<lparr>al_total = e + teacher_weight * t + compute_weight * c, al_exit_loss = e, al_teacher_loss = t, al_compute_regularization = c\<rparr>))"

record neural_checkpoint =
  nck_checkpoint_id :: string
  nck_model_family :: string
  nck_dataset_hash :: string
  nck_seed :: int
  nck_parameters_hash :: string
  nck_optimizer_hash :: string
  nck_step :: int
  nck_fingerprint :: string

type_synonym checkpoint_content = "string \<times> string \<times> string \<times> int \<times> string \<times> string \<times> int"

definition checkpoint_content :: "neural_checkpoint \<Rightarrow> checkpoint_content" where
  "checkpoint_content c =
     (nck_checkpoint_id c, nck_model_family c, nck_dataset_hash c, nck_seed c, nck_parameters_hash c, nck_optimizer_hash c, nck_step c)"

definition NeuralCheckpoint_post_init :: "(checkpoint_content \<Rightarrow> string) \<Rightarrow> neural_checkpoint \<Rightarrow> neural_checkpoint res" where
  "NeuralCheckpoint_post_init h c =
     require (\<not> (nck_fingerprint c \<noteq> [] \<and> nck_fingerprint c \<noteq> h (checkpoint_content c)))
       (ValueError ''neural checkpoint fingerprint mismatch'')
     (Inr (c\<lparr>nck_fingerprint := h (checkpoint_content c)\<rparr>))"

record neural_benchmark =
  nb_adaptive_accuracy :: real
  nb_full_depth_accuracy :: real
  nb_calibration_error :: real
  nb_average_compute_fraction :: real
  nb_p95_compute_fraction :: real
  nb_latency_fraction :: real
  nb_memory_fraction :: real
  nb_energy_fraction_estimate :: real
  nb_shifted_error :: real
  nb_worst_group_error :: real

definition benchmark_passes :: "real \<Rightarrow> real \<Rightarrow> real \<Rightarrow> neural_benchmark \<Rightarrow> bool" where
  "benchmark_passes tolerance max_shifted max_worst b \<longleftrightarrow>
     nb_adaptive_accuracy b \<ge> nb_full_depth_accuracy b - tolerance \<and> nb_average_compute_fraction b < 1
     \<and> nb_calibration_error b \<le> tolerance \<and> nb_shifted_error b \<le> max_shifted \<and> nb_worst_group_error b \<le> max_worst"

definition p95_position :: "nat \<Rightarrow> nat" where
  "p95_position n = nat (min (int n - 1) (max 0 \<lfloor>95/100 * real n\<rfloor>))"

definition benchmark_compute_fractions :: "real list \<Rightarrow> (real \<times> real) res" where
  "benchmark_compute_fractions fractions =
     require (\<not> (fractions = [] \<or> list_ex (\<lambda>v. \<not> (0 < v \<and> v \<le> 1)) fractions))
       (ValueError ''compute fractions MUST be non-empty and in (0, 1]'')
     (let ordered = sort fractions in Inr (sum_list ordered / real (length ordered), ordered ! p95_position (length ordered)))"

section \<open>What a shape admits\<close>

text \<open>A shape stands for the sizes that arise from some assignment of numbers to its symbols.\<close>

fun dim_fits :: "(string \<Rightarrow> int) \<Rightarrow> dimension \<Rightarrow> int \<Rightarrow> bool" where
  "dim_fits sig Open n \<longleftrightarrow> True"
| "dim_fits sig (Fixed m) n \<longleftrightarrow> m = n"
| "dim_fits sig (Symbol s) n \<longleftrightarrow> sig s = n"

definition agrees :: "(string, int) dict \<Rightarrow> (string \<Rightarrow> int) \<Rightarrow> bool" where
  "agrees symbols sig \<longleftrightarrow> (\<forall>s n. map_of symbols s = Some n \<longrightarrow> sig s = n)"

lemma agrees_dict_set:
  "map_of symbols s = None \<Longrightarrow> agrees (dict_set s n symbols) sig \<longleftrightarrow> agrees symbols sig \<and> sig s = n"
  by (auto simp: agrees_def)

lemma agreesD: "agrees symbols sig \<Longrightarrow> map_of symbols s = Some n \<Longrightarrow> sig s = n"
  by (simp add: agrees_def)

lemma agrees_some: "\<exists>sig. agrees symbols sig"
  by (rule exI [of _ "\<lambda>s. the (map_of symbols s)"]) (simp add: agrees_def)

lemma shape_loop_iff:
  "shape_loop xs symbols \<longleftrightarrow> (\<exists>sig. agrees symbols sig \<and> (\<forall>(d, n)\<in>set xs. dim_fits sig d n))"
proof (induction xs symbols rule: shape_loop.induct)
  case (4 s observed rest symbols)
  show ?case
  proof (cases "map_of symbols s")
    case None
    show ?thesis using 4(1) [OF None] unfolding shape_loop.simps None agrees_dict_set [OF None] by auto
  next
    case (Some n)
    have "agrees symbols sig \<Longrightarrow> sig s = n" for sig using agreesD [of symbols sig s n] Some by simp
    then show ?thesis using 4(2) [OF Some] by (cases "n = observed") (auto simp: Some)
  qed
qed (auto simp: agrees_some)

lemma validate_shape_iff:
  "validate_shape t actual \<longleftrightarrow> (\<exists>sig. list_all2 (dim_fits sig) (ts_shape t) actual)"
proof -
  have "agrees [] sig" for sig by (simp add: agrees_def)
  then show ?thesis unfolding validate_shape_def shape_loop_iff list_all2_iff by auto
qed

section \<open>Where adaptive execution exits\<close>

text \<open>For layers and heads that return: the value after \<open>n\<close> layers and the exits at which execution stops.\<close>

definition hidden_after :: "('h \<Rightarrow> 'h) list \<Rightarrow> 'h \<Rightarrow> nat \<Rightarrow> 'h" where
  "hidden_after fs v n = foldl (\<lambda>h f. f h) v (take n fs)"

text \<open>The calibrations that count for an exit, and the confidences a head may return.\<close>

definition calibrates :: "('h, 'o) adaptive_depth_model \<Rightarrow> string \<Rightarrow> risk_class \<Rightarrow> int \<Rightarrow> exit_calibration \<Rightarrow> bool" where
  "calibrates m domain risk n c \<longleftrightarrow>
     ec_layer c = n \<and> ec_domain c = domain \<and> ec_risk_class c = risk \<and> ec_model_fingerprint c = adm_model_fingerprint m
     \<and> 20 \<le> ec_sample_count c \<and> ec_observed_error c \<le> ec_maximum_error c \<and> \<not> ec_shifted c"

definition valid_confidence :: "pyfloat \<Rightarrow> bool" where
  "valid_confidence x \<longleftrightarrow> (\<exists>c. x = Fin c \<and> 0 \<le> c \<and> c \<le> 1)"

definition exit_justified :: "('h, 'o) adaptive_depth_model \<Rightarrow> string \<Rightarrow> risk_class \<Rightarrow> bool \<Rightarrow> int \<Rightarrow> pyfloat \<Rightarrow> bool" where
  "exit_justified m domain risk force n confidence \<longleftrightarrow>
     n = ned_full_depth (adm_design m)
     \<or> \<not> adm_kill_switch m \<and> \<not> force
       \<and> (\<exists>before c after. adm_calibrations m = before @ c # after \<and> calibrates m domain risk n c
            \<and> (\<forall>x\<in>set before. \<not> calibrates m domain risk n x) \<and> \<not> flt_less confidence (Fin (ec_confidence_threshold c)))"

lemma find_split: "find P xs = Some c \<longleftrightarrow> (\<exists>before after. xs = before @ c # after \<and> P c \<and> (\<forall>x\<in>set before. \<not> P x))"
proof (induction xs)
  case (Cons y ys)
  show ?case
  proof (cases "P y")
    case True
    then show ?thesis by (auto simp: Cons_eq_append_conv)
  next
    case False
    have "(\<exists>before after. y # ys = before @ c # after \<and> P c \<and> (\<forall>x\<in>set before. \<not> P x))
       \<longleftrightarrow> (\<exists>before after. ys = before @ c # after \<and> P c \<and> (\<forall>x\<in>set before. \<not> P x))" (is "?l \<longleftrightarrow> ?r")
    proof
      assume ?l
      then show ?r using False by (auto simp: Cons_eq_append_conv)
    next
      assume ?r
      then obtain b a where "y # ys = (y # b) @ c # a" "P c" "\<forall>x\<in>set (y # b). \<not> P x" using False by auto
      then show ?l by blast
    qed
    then show ?thesis using False Cons.IH by simp
  qed
qed simp

lemma calibration_at_Some:
  "calibration_at m n domain risk = Some c \<longleftrightarrow> (\<exists>before after. adm_calibrations m = before @ c # after
     \<and> calibrates m domain risk n c \<and> (\<forall>x\<in>set before. \<not> calibrates m domain risk n x))"
  unfolding calibration_at_def find_split calibrates_def ec_applicable_def by auto

definition stops_at ::
  "('h, 'o) adaptive_depth_model \<Rightarrow> string \<Rightarrow> risk_class \<Rightarrow> bool \<Rightarrow> (int \<Rightarrow> pyfloat) \<Rightarrow> int \<Rightarrow> bool" where
  "stops_at m domain risk force confidence n \<longleftrightarrow>
     n \<in> set (ned_exit_layers (adm_design m))
     \<and> (\<not> valid_confidence (confidence n) \<or> exit_justified m domain risk force n (confidence n))"

lemma fallback_None:
  "n = ned_full_depth (adm_design m) \<or> fallback_reason m domain risk force n x = None \<longleftrightarrow> exit_justified m domain risk force n x"
proof -
  have "exit_justified m domain risk force n x \<longleftrightarrow> n = ned_full_depth (adm_design m)
     \<or> \<not> adm_kill_switch m \<and> \<not> force
       \<and> (\<exists>c. calibration_at m n domain risk = Some c \<and> \<not> flt_less x (Fin (ec_confidence_threshold c)))"
    unfolding exit_justified_def calibration_at_Some by blast
  then show ?thesis by (auto simp: fallback_reason_def split: option.splits)
qed

lemma ExitObservation_checks:
  "ExitObservation_post_init x = (if valid_confidence (eo_confidence x) then Inr x
     else Inl (ValueError ''neural exit confidence MUST be finite and between zero and one''))"
  by (auto simp: ExitObservation_post_init_def valid_confidence_def require_def split: pyfloat.splits)

lemma hidden_after_Suc: "k < length fs \<Longrightarrow> hidden_after fs v (Suc k) = (fs ! k) (hidden_after fs v k)"
  by (simp add: hidden_after_def take_Suc_conv_app_nth)

lemma upto_snoc: "[1..int k] @ [int k + 1] = [1..int (Suc k)]"
  by (simp add: upto_rec2)

definition stops_first ::
  "('h, 'o) adaptive_depth_model \<Rightarrow> (int \<Rightarrow> bool) \<Rightarrow> (int \<Rightarrow> 'o \<times> pyfloat) \<Rightarrow> 'o adaptive_depth_result res \<Rightarrow> bool" where
  "stops_first m stops seen res \<longleftrightarrow>
     (\<exists>n. stops n \<and> (\<forall>k. stops k \<longrightarrow> n \<le> k)
        \<and> (if valid_confidence (snd (seen n))
           then \<exists>r. res = Inr r \<and> adr_exit_layer r = n \<and> adr_output r = fst (seen n)
              \<and> adr_layer_trace r = [1..n] \<and> int (adr_layers_executed r) = n \<and> adr_full_depth r = ned_full_depth (adm_design m)
              \<and> (adr_used_early_exit r \<longleftrightarrow> n \<noteq> ned_full_depth (adm_design m))
           else res = Inl (ValueError ''neural exit confidence MUST be finite and between zero and one'')))"

lemma depth_loop_exact:
  fixes m :: "('h, 'o) adaptive_depth_model"
  defines "full \<equiv> ned_full_depth (adm_design m)"
  assumes heads: "fst ` set (adm_exit_heads m) = set (ned_exit_layers (adm_design m))"
    and head: "\<forall>(n, head)\<in>set (adm_exit_heads m). head = (\<lambda>h. Inr (g n h))"
    and seen: "seen = (\<lambda>n. g n (hidden_after fs v (nat n)))"
    and stops: "stops = stops_at m domain risk force (\<lambda>n. snd (seen n))"
    and depth: "int (length fs) = full" "full \<in> set (ned_exit_layers (adm_design m))"
    and k: "k < length fs" and none: "\<forall>n. stops n \<longrightarrow> int k < n"
  shows "stops_first m stops seen
    (depth_loop m domain risk force (int k + 1) (map (\<lambda>f h. Inr (f h)) (drop k fs)) (hidden_after fs v k) [1..int k] reasons)"
  using k none
proof (induction "length fs - k" arbitrary: k reasons)
  case 0
  then show ?case by simp
next
  case (Suc d)
  let ?n = "int k + 1"
  let ?h = "hidden_after fs v (Suc k)"
  have n: "nat ?n = Suc k" "int (Suc k) = ?n" by simp_all
  have step: "drop k fs = fs ! k # drop (Suc k) fs" "(fs ! k) (hidden_after fs v k) = ?h"
    using Suc.prems(1) by (simp_all add: Cons_nth_drop_Suc hidden_after_Suc)
  have later: "stops_first m stops seen
      (depth_loop m domain risk force (?n + 1) (map (\<lambda>f h. Inr (f h)) (drop (Suc k) fs)) ?h ([1..int k] @ [?n]) rs)"
    if skip: "\<not> stops ?n" and "?n \<noteq> full" for rs
  proof -
    have "Suc k < length fs" using that(2) depth Suc.prems(1) by simp
    moreover have "\<forall>n. stops n \<longrightarrow> int (Suc k) < n" using Suc.prems(2) skip n by (metis zless_add1_eq less_le not_less add1_zle_eq)
    moreover have "d = length fs - Suc k" using Suc.hyps(2) by simp
    ultimately show ?thesis using Suc.hyps(1) [of "Suc k" rs] unfolding upto_snoc n(2) by simp
  qed
  show ?case
  proof (cases "map_of (adm_exit_heads m) ?n")
    case None
    then have "?n \<notin> set (ned_exit_layers (adm_design m))" using heads by (auto simp: map_of_eq_None_iff)
    then have "\<not> stops ?n" "?n \<noteq> full" using depth by (auto simp: stops stops_at_def)
    then show ?thesis using later None step by (simp add: Let_def)
  next
    case (Some hd)
    have hd: "hd = (\<lambda>h. Inr (g ?n h))" using head map_of_SomeD [OF Some] by auto
    have isx: "?n \<in> set (ned_exit_layers (adm_design m))" using heads map_of_SomeD [OF Some] by force
    obtain o' c where g: "g ?n ?h = (o', c)" by fastforce
    have least: "\<forall>n. stops n \<longrightarrow> ?n \<le> n" using Suc.prems(2) by auto
    have s: "seen ?n = (o', c)" by (simp add: seen n g)
    have t: "stops ?n \<longleftrightarrow> \<not> valid_confidence c \<or> ?n = full \<or> fallback_reason m domain risk force ?n c = None"
      using isx unfolding full_def fallback_None by (simp add: stops stops_at_def s)
    have l: "[1..int k] @ [?n] = [1..?n]" "length [1..?n] = Suc k" using upto_snoc [of k] by (simp_all add: add.commute)
    note loop = step Some hd g ExitObservation_checks Let_def full_def [symmetric]
    show ?thesis
    proof (cases "stops ?n")
      case True
      then show ?thesis unfolding stops_first_def
        by (intro exI [of _ ?n]) (use t least s l in \<open>auto simp: loop\<close>)
    next
      case False
      then show ?thesis using t later by (auto simp: loop split: option.split)
    qed
  qed
qed

lemma design_Inr:
  assumes "NeuralExperimentDesign_post_init d = Inr d'"
  shows "0 < ned_full_depth d \<and> ned_full_depth d \<in> set (ned_exit_layers d) \<and> sorted (ned_exit_layers d) \<and> 0 < hd (ned_exit_layers d)"
proof -
  have d: "0 < ned_full_depth d" "ned_exit_layers d \<noteq> []" "sorted_list_of_set (set (ned_exit_layers d)) = ned_exit_layers d"
      "last (ned_exit_layers d) = ned_full_depth d" "0 < hd (ned_exit_layers d)"
    using assms by (auto simp: NeuralExperimentDesign_post_init_def)
  have "ned_full_depth d \<in> set (ned_exit_layers d)" using last_in_set [OF d(2)] by (simp add: d(4))
  moreover have "sorted (ned_exit_layers d)" using sorted_sorted_list_of_set [of "set (ned_exit_layers d)"] by (simp only: d(3))
  ultimately show ?thesis using d by simp
qed

lemma exits_positive:
  assumes "NeuralExperimentDesign_post_init d = Inr d'" and "n \<in> set (ned_exit_layers d)"
  shows "0 < n"
  using design_Inr [OF assms(1)] assms(2) by (cases "ned_exit_layers d") auto

text \<open>
  C40: Adaptive execution stops exactly where it must. Take a model accepted by its constructors whose
  layers and heads return, and the first declared exit that is the last layer, or, with kill switch
  and forcing off, has an applicable calibration whose threshold the confidence reaches, or whose
  head returns a confidence that is not a number between 0 and 1. In the last case \<open>execute\<close> raises
  \<open>ValueError\<close>. Otherwise it returns a result: the output is the head's on the value after
  exactly the executed layers, which are all traced, and the exit is reported as early unless it
  is the last one.
\<close>

theorem adaptive_depth_exact:
  fixes m :: "('h, 'o) adaptive_depth_model" and domain :: string and risk :: risk_class and force :: bool and v :: 'h
  assumes design: "NeuralExperimentDesign_post_init (adm_design m) = Inr d" and model: "AdaptiveDepthModel_post_init m = Inr m'"
    and layers: "adm_layers m = map (\<lambda>f h. Inr (f h)) fs"
    and head: "\<forall>(n, head)\<in>set (adm_exit_heads m). head = (\<lambda>h. Inr (g n h))"
  defines "seen \<equiv> \<lambda>n. g n (hidden_after fs v (nat n))"
  defines "stops \<equiv> stops_at m domain risk force (\<lambda>n. snd (seen n))"
  shows "\<exists>n. stops n \<and> (\<forall>k. stops k \<longrightarrow> n \<le> k)
    \<and> (if valid_confidence (snd (seen n))
       then \<exists>r. adaptive_execute domain risk force v m = Inr r \<and> adr_exit_layer r = n \<and> adr_output r = fst (seen n)
          \<and> adr_layer_trace r = [1..n] \<and> int (adr_layers_executed r) = n
          \<and> (adr_used_early_exit r \<longleftrightarrow> n \<noteq> ned_full_depth (adm_design m))
          \<and> 0 < compute_fraction r \<and> compute_fraction r \<le> 1
       else adaptive_execute domain risk force v m =
          Inl (ValueError ''neural exit confidence MUST be finite and between zero and one''))"
proof -
  let ?full = "ned_full_depth (adm_design m)"
  have full: "0 < ?full" "?full \<in> set (ned_exit_layers (adm_design m))" using design_Inr [OF design] by simp_all
  have m: "int (length fs) = ?full" "fst ` set (adm_exit_heads m) = set (ned_exit_layers (adm_design m))"
    using model arg_cong [OF layers, of length] by (auto simp: AdaptiveDepthModel_post_init_def)
  have none: "\<forall>n. stops n \<longrightarrow> 0 < n" using exits_positive [OF design] by (auto simp: stops_def stops_at_def)
  have fs: "fs \<noteq> []" using m(1) full(1) by auto
  have "stops ?full" using full(2) by (simp add: stops_def stops_at_def exit_justified_def)
  moreover have "stops_first m stops seen (adaptive_execute domain risk force v m)"
    using depth_loop_exact [OF m(2) head seen_def [THEN meta_eq_to_obj_eq] stops_def [THEN meta_eq_to_obj_eq] m(1) full(2), of 0 "[]"] none fs
    by (simp add: adaptive_execute_def layers hidden_after_def)
  ultimately show ?thesis using none unfolding stops_first_def by (fastforce simp: compute_fraction_def)
qed

text \<open>A model of two layers with an exit after each.\<close>

definition demo_depth :: "(nat, nat) adaptive_depth_model" where
  "demo_depth = \<lparr>adm_design = \<lparr>ned_model_family = ''m'', ned_task_domain = ''d'', ned_dataset_hash = ''h'', ned_full_depth = 2,
       ned_exit_layers = [1, 2], ned_seed = 0\<rparr>,
     adm_model_fingerprint = ''f'', adm_layers = map (\<lambda>f h. Inr (f h)) [Suc, \<lambda>x. 2 * x],
     adm_exit_heads = map (\<lambda>n. (n, \<lambda>h. Inr ((\<lambda>_ x. (x, Fin (1/2))) n h))) [1, 2],
     adm_calibrations = [\<lparr>ec_layer = 1, ec_domain = ''d'', ec_risk_class = RISK_LOW, ec_model_fingerprint = ''f'',
       ec_confidence_threshold = 1/4, ec_maximum_error = 1/10, ec_observed_error = 1/20, ec_sample_count = 20, ec_shifted = False\<rparr>],
     adm_kill_switch = False\<rparr>"

theorem adaptive_depth_exact_witness:
  "\<exists>r. adaptive_execute ''d'' RISK_LOW False 3 demo_depth = Inr r \<and> adr_exit_layer r = 1 \<and> adr_output r = 4 \<and> adr_used_early_exit r"
proof -
  let ?g = "\<lambda>(_::int) x. (x :: nat, Fin (1/2))"
  let ?s = "stops_at demo_depth ''d'' RISK_LOW False (\<lambda>n. Fin (1/2))"
  have d: "NeuralExperimentDesign_post_init (adm_design demo_depth) = Inr (adm_design demo_depth)"
    by (simp add: NeuralExperimentDesign_post_init_def demo_depth_def)
  have m: "AdaptiveDepthModel_post_init demo_depth = Inr demo_depth"
    by (simp add: AdaptiveDepthModel_post_init_def demo_depth_def)
  have l: "adm_layers demo_depth = map (\<lambda>f h. Inr (f h)) [Suc, \<lambda>x. 2 * x]" by (simp add: demo_depth_def)
  have h: "\<forall>(n, head)\<in>set (adm_exit_heads demo_depth). head = (\<lambda>h. Inr (?g n h))" by (simp add: demo_depth_def)
  have t: "?s 1" by (simp add: stops_at_def exit_justified_def demo_depth_def calibrates_def Cons_eq_append_conv)
  have pos: "?s n \<Longrightarrow> 1 \<le> n" for n by (auto simp: stops_at_def demo_depth_def)
  have v: "valid_confidence (Fin (1/2))" unfolding valid_confidence_def by (intro exI [of _ "1/2"]) simp
  obtain n r where n: "?s n" "\<forall>k. ?s k \<longrightarrow> n \<le> k"
    and r: "adaptive_execute ''d'' RISK_LOW False 3 demo_depth = Inr r" "adr_exit_layer r = n"
      "adr_output r = hidden_after [Suc, \<lambda>x. 2 * x] 3 (nat n)"
      "adr_used_early_exit r \<longleftrightarrow> n \<noteq> ned_full_depth (adm_design demo_depth)"
    using adaptive_depth_exact [OF d m l h, of "''d''" RISK_LOW False 3] v by auto
  have "n = 1" using pos [OF n(1)] n(2) t by (simp add: order.antisym)
  then show ?thesis using r by (auto simp: hidden_after_def demo_depth_def)
qed

text \<open>A head that returns the confidence 1.1, or no number at all, makes the execution raise.\<close>

lemma invalid_confidence_raises:
  assumes "\<not> valid_confidence c"
  shows "adaptive_execute ''d'' RISK_LOW force v (demo_depth\<lparr>adm_exit_heads := map (\<lambda>n. (n, \<lambda>h. Inr (h, c))) [1, 2]\<rparr>)
    = Inl (ValueError ''neural exit confidence MUST be finite and between zero and one'')"
  using assms by (simp add: adaptive_execute_def demo_depth_def ExitObservation_checks Let_def)

section \<open>Registries and benchmarks\<close>

lemma backend_select_least:
  assumes "backend_select contract None reg = Inr b"
  shows "b \<in> snd ` set reg \<and> nbk_supports b contract
    \<and> (\<forall>b'\<in>snd ` set reg. nbk_supports b' contract \<longrightarrow> nbk_backend_id b \<le> nbk_backend_id b')"
proof -
  let ?ms = "filter (\<lambda>b. nbk_supports b contract) (map snd reg)"
  have ms: "?ms \<noteq> []" "b = hd (sort_key nbk_backend_id ?ms)" using assms by (auto simp: backend_select_def Let_def)
  obtain x xs where s: "sort_key nbk_backend_id ?ms = x # xs" using ms(1) by (metis length_sort length_0_conv list.exhaust)
  have "set (x # xs) = set ?ms" unfolding s [symmetric] by simp
  moreover have "sorted (map nbk_backend_id (x # xs))" unfolding s [symmetric] by simp
  ultimately show ?thesis using ms(2) s by auto
qed

lemma backend_registered:
  assumes "backend_register b reg = Inr reg'"
  shows "backend_get (nbk_backend_id b) reg' = Inr b \<and> (\<forall>i. map_of reg i \<noteq> None \<longrightarrow> backend_get i reg' = backend_get i reg)"
proof -
  have r: "nbk_backend_id b \<notin> fst ` set reg" "reg' = dict_set (nbk_backend_id b) b reg" using assms by (auto simp: backend_register_def)
  have "map_of reg (nbk_backend_id b) = None" using r(1) by (simp add: map_of_eq_None_iff)
  then show ?thesis by (auto simp: backend_get_def r(2))
qed

lemma sum_list_bounds:
  fixes xs :: "real list"
  assumes "xs \<noteq> []" and "\<forall>x\<in>set xs. 0 < x \<and> x \<le> 1"
  shows "0 < sum_list xs \<and> sum_list xs \<le> real (length xs)"
  using assms
proof (induction xs rule: list_nonempty_induct)
  case (cons x xs)
  then show ?case by (auto intro: add_pos_pos)
qed auto

lemma p95_position_less: "0 < n \<Longrightarrow> p95_position n < n"
  by (simp add: p95_position_def)

lemma benchmark_fractions_bounded:
  assumes "benchmark_compute_fractions xs = Inr (average, p95)"
  shows "0 < average \<and> average \<le> 1 \<and> p95 \<in> set xs \<and> 0 < p95 \<and> p95 \<le> 1"
proof -
  have xs: "xs \<noteq> []" "\<forall>x\<in>set xs. 0 < x \<and> x \<le> 1" and r: "average = sum_list (sort xs) / real (length xs)" "p95 = sort xs ! p95_position (length xs)"
    using assms by (auto simp: benchmark_compute_fractions_def list_ex_iff Let_def)
  have "p95 \<in> set (sort xs)" unfolding r by (rule nth_mem) (simp add: p95_position_less xs(1))
  moreover have "sum_list (sort xs) = sum_list xs" by (metis mset_sort sum_mset_sum_list)
  ultimately show ?thesis using xs sum_list_bounds [OF xs] by (simp add: r(1))
qed

end
