(* ===== verification/DNC_System.thy ===== *)
theory DNC_System
  imports Adaptation Policy_Learning Repair Semantics Enterprise Halting Assurance Control Memory_Store Artifact_Registry Neural Decision_Policy
begin

text \<open>
  The composition of the parts (\<open>system.py\<close>): the system with its counters and registries, the
  gate of the kill switches in front of its operations, and the cycle that generates, authorises,
  transacts, executes, assesses and learns. Execution cores other than the reference core are a
  parameter, as are the identifier of a transaction and the time.
\<close>

declare map_of_eq_Some_iff [simp del] Some_eq_map_of_iff [simp del]

section \<open>The system\<close>

text \<open>The reference core keeps its utility and a counter; an injected core keeps a state of its own.\<close>

datatype 'x execution_core = Reference_core real nat | Injected_core 'x

type_synonym projected = "executable_dag \<times> string list"

definition reference_execute :: "real \<Rightarrow> nat \<Rightarrow> projected \<Rightarrow> execution_result \<times> nat" where
  "reference_execute u n p =
     (let dag = fst p in
      (\<lparr>xr_graph_id = gid_value (dag_graph_id dag), xr_graph_version = show_graph_version (source_version dag), xr_execution_time_ms = 0,
        xr_output = PStr (''reference_result_'' @ show_nat (n + 1)), xr_error = None, xr_metrics = [(''utility'', u)],
        xr_units_executed = int (length (dag_nodes dag)), xr_edges_traversed = int (length (dag_edges dag)), xr_success = True\<rparr>, n + 1))"

type_synonym 'x core_run = "projected \<Rightarrow> 'x \<Rightarrow> execution_result res \<times> 'x"

definition core_execute :: "'x core_run \<Rightarrow> 'x execution_core \<Rightarrow> projected \<Rightarrow> execution_result res \<times> 'x execution_core" where
  "core_execute run core p =
     (case core of
        Reference_core u n \<Rightarrow> (case reference_execute u n p of (r, n') \<Rightarrow> (Inr r, Reference_core u n'))
      | Injected_core x \<Rightarrow> (case run p x of (r, x') \<Rightarrow> (r, Injected_core x')))"

record system_config =
  sc_enable_learning :: bool
  sc_enable_mutation :: bool
  sc_enable_provenance :: bool
  sc_production_mode :: bool
  sc_allow_synthetic_execution :: bool
  sc_enable_adaptive_halting :: bool

definition default_config :: system_config where
  "default_config = \<lparr>sc_enable_learning = True, sc_enable_mutation = True, sc_enable_provenance = True, sc_production_mode = False,
     sc_allow_synthetic_execution = False, sc_enable_adaptive_halting = False\<rparr>"

record system_state_snapshot =
  sss_cycle :: nat
  sss_graph_id :: string
  sss_graph_version :: string
  sss_unit_count :: nat
  sss_edge_count :: nat
  sss_proposals_generated :: nat
  sss_proposals_authorized :: nat
  sss_learning_cycles :: nat
  sss_adaptation_knowledge_cycles :: nat
  sss_cumulative_improvement :: real
  sss_transaction_commits :: nat
  sss_transaction_rollbacks :: nat

record ('x, 'l, 'v) dnc_system =
  sys_execution_id :: string
  sys_config :: system_config
  sys_graph :: structural_graph
  sys_provenance_log :: tx_log
  sys_execution_core :: "'x execution_core"
  sys_cognitive_state :: "cognitive_state option"
  sys_capability_registry :: "'l capability_registry"
  sys_verifier_registry :: "'v verifier_registry"
  sys_assurance_calibrations :: calibration_table
  sys_outcome_labels :: "'v label_store"
  sys_inference_policy :: "adaptive_policy option"
  sys_governed_memory :: governed_memory
  sys_learned_policy_registry :: learned_policy_registry
  sys_kill_switches :: kill_switches
  sys_assessment_counter :: nat
  sys_generator_counter :: nat
  sys_controller :: structural_controller
  sys_learning :: learning_engine
  sys_tracker :: nat
  sys_cycle_count :: nat
  sys_proposals_generated :: nat
  sys_proposals_authorized :: nat
  sys_transaction_commits :: nat
  sys_transaction_rollbacks :: nat
  sys_cycles_since_mutation :: nat
  sys_recent_mutation_count :: nat
  sys_prior_mutation_harmed :: bool
  sys_last_observed_utility :: real

text \<open>
  The constructor on a graph, a core and the registries it is given (or the empty ones the code
  puts in their place); \<open>listener\<close> is the handler of model changes that it adds.
\<close>

definition initial_graph_of :: "string \<Rightarrow> structural_graph option \<Rightarrow> structural_graph res" where
  "initial_graph_of exec_id graph =
     (case graph of
        Some g \<Rightarrow> Inr g
      | None \<Rightarrow>
          (case validate_identity (''dnc:'' @ exec_id) ''GraphID'' of
             Inl e \<Rightarrow> Inl e
           | Inr _ \<Rightarrow> Inr \<lparr>graph_id = GraphID (''dnc:'' @ exec_id), version = initial_version, units = [], edges = [], graph_metadata = []\<rparr>))"

definition new_dnc_system ::
  "string \<Rightarrow> system_config \<Rightarrow> 'x execution_core option \<Rightarrow> structural_graph option \<Rightarrow> cognitive_state option
   \<Rightarrow> 'l capability_registry \<Rightarrow> 'v verifier_registry \<Rightarrow> calibration_table \<Rightarrow> 'v label_store \<Rightarrow> adaptive_policy option
   \<Rightarrow> governed_memory \<Rightarrow> learned_policy_registry \<Rightarrow> kill_switches \<Rightarrow> 'l \<Rightarrow> ('x, 'l, 'v) dnc_system res" where
  "new_dnc_system exec_id config core graph state caps verifiers calibrations labels policy memory policies switches listener =
     (case initial_graph_of exec_id graph of
        Inl e \<Rightarrow> Inl e
      | Inr g \<Rightarrow>
          require (is_valid (validate_graph g))
            (ValueError (''initial graph violates DNC-IR invariants: '' @ intercalate '', '' (map err_code (errors (validate_graph g))))) (
          require (\<not> (sc_production_mode config \<and> core = None))
            (ValueError ''production mode requires an explicit non-synthetic execution core'') (
          (let selected = (case core of None \<Rightarrow> Reference_core (75/100) 0 | Some c \<Rightarrow> c) in
           require (\<not> (sc_production_mode config \<and> (case selected of Reference_core _ _ \<Rightarrow> True | Injected_core _ \<Rightarrow> False)
                       \<and> \<not> sc_allow_synthetic_execution config))
             (ValueError ''synthetic reference execution is disabled in production mode'')
             (Inr \<lparr>sys_execution_id = exec_id, sys_config = config, sys_graph = g,
                   sys_provenance_log = (if sc_enable_provenance config then Some (new_log exec_id) else None),
                   sys_execution_core = selected, sys_cognitive_state = state,
                   sys_capability_registry = add_change_listener listener caps, sys_verifier_registry = verifiers,
                   sys_assurance_calibrations = calibrations, sys_outcome_labels = labels, sys_inference_policy = policy,
                   sys_governed_memory = memory, sys_learned_policy_registry = policies, sys_kill_switches = switches,
                   sys_assessment_counter = 0, sys_generator_counter = 0, sys_controller = new_structural_controller,
                   sys_learning = new_learning_engine, sys_tracker = 0, sys_cycle_count = 0, sys_proposals_generated = 0,
                   sys_proposals_authorized = 0, sys_transaction_commits = 0, sys_transaction_rollbacks = 0,
                   sys_cycles_since_mutation = 999, sys_recent_mutation_count = 0, sys_prior_mutation_harmed = False,
                   sys_last_observed_utility = 75/100\<rparr>)))))"

definition system_snapshot :: "('x, 'l, 'v) dnc_system \<Rightarrow> system_state_snapshot" where
  "system_snapshot s =
     (let k = le_knowledge (sys_learning s); learning = sc_enable_learning (sys_config s)
      in \<lparr>sss_cycle = sys_cycle_count s, sss_graph_id = gid_value (graph_id (sys_graph s)),
          sss_graph_version = show_graph_version (version (sys_graph s)), sss_unit_count = length (units (sys_graph s)),
          sss_edge_count = length (edges (sys_graph s)), sss_proposals_generated = sys_proposals_generated s,
          sss_proposals_authorized = sys_proposals_authorized s, sss_learning_cycles = (if learning then kb_cycle_count k else 0),
          sss_adaptation_knowledge_cycles = (if learning then kb_cycle_count k else 0),
          sss_cumulative_improvement = (if learning then kb_cumulative_improvement k else 0),
          sss_transaction_commits = sys_transaction_commits s, sss_transaction_rollbacks = sys_transaction_rollbacks s\<rparr>)"

section \<open>The gate\<close>

definition gate_tenant :: "string option \<Rightarrow> ('x, 'l, 'v) dnc_system \<Rightarrow> string" where
  "gate_tenant tenant s =
     (case tenant of
        Some (c # cs) \<Rightarrow> c # cs
      | _ \<Rightarrow> (case sys_cognitive_state s of None \<Rightarrow> ''tenant-default'' | Some st \<Rightarrow> cgs_tenant st))"

definition require_enterprise_permitted ::
  "string option \<Rightarrow> string \<Rightarrow> string \<Rightarrow> string \<Rightarrow> string \<Rightarrow> ('x, 'l, 'v) dnc_system \<Rightarrow> unit res" where
  "require_enterprise_permitted tenant capability model skill action s =
     require (permitted (sys_kill_switches s) (gate_tenant tenant s) capability model skill action)
       (DNCPolicyError ''enterprise kill switch denied operation'') (Inr ())"

text \<open>An operation behind the gate.\<close>

definition gated :: "unit res \<Rightarrow> 'a res \<Rightarrow> 'a res" where
  "gated g r = (case g of Inl e \<Rightarrow> Inl e | Inr _ \<Rightarrow> r)"

section \<open>Operations on the cognitive parts\<close>

definition set_cognitive_state :: "cognitive_state option \<Rightarrow> ('x, 'l, 'v) dnc_system \<Rightarrow> ('x, 'l, 'v) dnc_system" where
  "set_cognitive_state st s = s\<lparr>sys_cognitive_state := st\<rparr>"

definition foreign_task :: "string \<Rightarrow> ('x, 'l, 'v) dnc_system \<Rightarrow> bool" where
  "foreign_task task s \<longleftrightarrow> (case sys_cognitive_state s of None \<Rightarrow> False | Some st \<Rightarrow> task \<noteq> tsk_task_id (cgs_task st))"

definition update_cognitive_state :: "cognitive_state \<Rightarrow> ('x, 'l, 'v) dnc_system \<Rightarrow> ('x, 'l, 'v) dnc_system res" where
  "update_cognitive_state st s =
     require (\<not> foreign_task (tsk_task_id (cgs_task st)) s) (ValueError ''updated cognitive state MUST belong to the active task'')
       (Inr (s\<lparr>sys_cognitive_state := Some st\<rparr>))"

definition select_capability :: "capability_requirement \<Rightarrow> int \<Rightarrow> ('x, 'l, 'v) dnc_system \<Rightarrow> capability_selection res" where
  "select_capability r now s =
     gated (require_enterprise_permitted None [] [] [] (cognitive_action_type_value (rq_action_type r)) s)
       (let selection = broker_match r now (sys_capability_registry s)
        in case cs_selected selection of
             None \<Rightarrow> Inr selection
           | Some c \<Rightarrow> gated (require_enterprise_permitted None (cc_capability_id c) (cc_model_id c) [] [] s) (Inr selection))"

definition verify_claim :: "'v verifier_claim \<Rightarrow> cascade_policy \<Rightarrow> ('x, 'l, 'v) dnc_system \<Rightarrow> 'v cascade_result res" where
  "verify_claim c p s =
     gated (require_enterprise_permitted (Some (vc_tenant_id c)) [] [] [] ''VERIFY_CLAIM'' s) (cascade_run (sys_verifier_registry s) c p)"

definition record_outcome_label :: "'v outcome_label \<Rightarrow> ('x, 'l, 'v) dnc_system \<Rightarrow> ('x, 'l, 'v) dnc_system res" where
  "record_outcome_label l s =
     (case label_ingest l (sys_outcome_labels s) of Inl e \<Rightarrow> Inl e | Inr st \<Rightarrow> Inr (s\<lparr>sys_outcome_labels := st\<rparr>))"

definition available_fingerprints :: "int \<Rightarrow> ('x, 'l, 'v) dnc_system \<Rightarrow> string set" where
  "available_fingerprints now s = {fp \<in> cc_fingerprint ` set (cap_available now (sys_capability_registry s)). fp \<noteq> []}"

definition missing_verifiers :: "calibration_key \<Rightarrow> ('x, 'l, 'v) dnc_system \<Rightarrow> string list" where
  "missing_verifiers key s =
     (let active = filter (\<lambda>fp. fp \<noteq> []) (map vd_fingerprint (active_descriptors (sys_verifier_registry s)))
      in filter (\<lambda>fp. fp \<notin> set active) (ck_verifier_fingerprints key))"

definition issue_calibrated_confidence ::
  "string \<Rightarrow> string \<Rightarrow> string \<Rightarrow> real \<Rightarrow> calibration_key \<Rightarrow> int \<Rightarrow> string list \<Rightarrow> int \<Rightarrow> ('x, 'l, 'v) dnc_system
   \<Rightarrow> confidence_estimate res" where
  "issue_calibrated_confidence estimate_id target_id target_type probability key clusters groups now s =
     require (ck_capability_fingerprint key \<in> available_fingerprints now s)
       (DNCCalibrationError ''calibration capability fingerprint is not currently available'') (
     require (missing_verifiers key s = [])
       (DNCCalibrationError ''calibration verifier fingerprints are unavailable'')
     (case require_applicable key (sys_assurance_calibrations s) of
        Inl e \<Rightarrow> Inl e
      | Inr a \<Rightarrow> issue_confidence estimate_id target_id target_type probability a clusters groups))"

definition decide_inference :: "ratio \<Rightarrow> halting_context \<Rightarrow> ('x, 'l, 'v) dnc_system \<Rightarrow> inference_decision res" where
  "decide_inference ratio x s =
     gated (require_enterprise_permitted None [] [] [] ''INFERENCE_DECISION'' s)
       (case sys_inference_policy s of
          None \<Rightarrow> Inl (DNCCapabilityError ''no inference halting policy is configured'')
        | Some p \<Rightarrow>
            if sc_enable_adaptive_halting (sys_config s) then adaptive_decide ratio p x
            else Inr (fixed_attempt_decide (ap_fallback_attempts p) x))"

definition select_cognitive_action ::
  "(audit_payload \<Rightarrow> string) \<Rightarrow> controller_context \<Rightarrow> bool \<Rightarrow> ('x, 'l, 'v) dnc_system
   \<Rightarrow> (controller_decision \<times> ('x, 'l, 'v) dnc_system) res" where
  "select_cognitive_action audit x lifecycled s =
     gated (require_enterprise_permitted None [] [] [] ''COGNITIVE_CONTROL'' s) (
     require (\<not> foreign_task (ctl_task_id x) s) (ValueError ''controller context MUST belong to the active cognitive task'')
     (let d = control_select audit x in
      case dec_selected d of
        None \<Rightarrow> Inr (d, s)
      | Some c \<Rightarrow>
          gated (require_enterprise_permitted None [] [] [] (cognitive_action_type_value (cp_action_type (ac_proposal c))) s)
            (if \<not> lifecycled then Inr (d, s)
             else case sys_cognitive_state s of
                    None \<Rightarrow> Inl (ValueError ''lifecycle authorization requires active cognitive state'')
                  | Some st \<Rightarrow>
                      (case authorize_lifecycle st d of
                         Inl e \<Rightarrow> Inl e
                       | Inr st' \<Rightarrow> Inr (d, s\<lparr>sys_cognitive_state := Some st'\<rparr>)))))"

definition retrieve_memory ::
  "(pyval \<Rightarrow> string set) \<Rightarrow> (memory_record \<Rightarrow> real) option \<Rightarrow> memory_kind \<Rightarrow> retrieval \<Rightarrow> ('x, 'l, 'v) dnc_system
   \<Rightarrow> memory_record list res" where
  "retrieve_memory tokens rerank kind q s =
     gated (require_enterprise_permitted (Some (rq_tenant_id q)) [] [] [] ''RETRIEVE_MEMORY'' s)
       (ms_retrieve tokens rerank q (sys_governed_memory s kind))"

definition select_learned_action ::
  "learned_policy_version \<Rightarrow> shadow_predictor \<Rightarrow> risk_class \<Rightarrow> string \<Rightarrow> string list \<Rightarrow> string \<Rightarrow> string set \<Rightarrow> int
   \<Rightarrow> ('x, 'l, 'v) dnc_system \<Rightarrow> learned_decision res" where
  "select_learned_action policy m risk context_key candidates deterministic safe index s =
     gated (require_enterprise_permitted None [] (lpv_fingerprint policy) [] ''LEARNED_POLICY_SELECT'' s)
       (Inr (select_action policy m context_key candidates deterministic safe
          (can_execute (lpv_fingerprint policy) risk (sys_learned_policy_registry s)) index))"

definition neural_risk_rank :: "risk_class \<Rightarrow> int" where
  "neural_risk_rank r = (case r of RISK_LOW \<Rightarrow> 0 | RISK_MEDIUM \<Rightarrow> 1 | RISK_HIGH \<Rightarrow> 2 | RISK_CRITICAL \<Rightarrow> 3)"

definition available_card :: "string \<Rightarrow> int \<Rightarrow> ('x, 'l, 'v) dnc_system \<Rightarrow> capability_card option" where
  "available_card i now s =
     map_of (foldl (\<lambda>d c. dict_set (cc_capability_id c) c d) [] (cap_available now (sys_capability_registry s))) i"

definition execute_adaptive_neural ::
  "string \<Rightarrow> ('h, 'o) adaptive_depth_model \<Rightarrow> 'h \<Rightarrow> string \<Rightarrow> string \<Rightarrow> risk_class \<Rightarrow> bool \<Rightarrow> int \<Rightarrow> ('x, 'l, 'v) dnc_system
   \<Rightarrow> ('o adaptive_depth_result \<times> neural_exit_evidence) res" where
  "execute_adaptive_neural capability_id model v task_id domain risk force now s =
     gated (require_enterprise_permitted None capability_id (adm_model_fingerprint model) [] ''ADAPTIVE_NEURAL_EXECUTE'' s)
       (case available_card capability_id now s of
          None \<Rightarrow> Inl (DNCCapabilityError ''adaptive neural capability is unavailable'')
        | Some c \<Rightarrow>
            require (cc_model_id c = adm_model_fingerprint model) (DNCCapabilityError ''adaptive neural capability model fingerprint mismatch'') (
            require (case map_of (cc_metadata c) ''adaptive_neural'' of None \<Rightarrow> False | Some x \<Rightarrow> py_truthy x)
              (DNCCapabilityError ''capability is not qualified for adaptive neural execution'') (
            require (neural_risk_rank risk \<le> neural_risk_rank (cc_risk_limit c))
              (DNCCapabilityError ''adaptive neural capability risk limit exceeded'') (
            require (domain \<in> cc_calibration_domains c) (DNCCalibrationError ''adaptive neural capability is not calibrated for domain'') (
            case adaptive_execute domain risk force v model of
              Inl e \<Rightarrow> Inl e
            | Inr result \<Rightarrow>
                (case issue_exit_evidence result capability_id (adm_model_fingerprint model) task_id of
                   Inl e \<Rightarrow> Inl e
                 | Inr ev \<Rightarrow> Inr (result, ev)))))))"

section \<open>Semantic graphs\<close>

definition skills_permitted :: "string list \<Rightarrow> string \<Rightarrow> ('x, 'l, 'v) dnc_system \<Rightarrow> unit res" where
  "skills_permitted skills tenant s =
     (case map_res (\<lambda>i. require_enterprise_permitted (Some tenant) [] [] i [] s) skills of Inl e \<Rightarrow> Inl e | Inr _ \<Rightarrow> Inr ())"

definition synthesize_semantic_graph ::
  "(semantic_payload \<Rightarrow> string) \<Rightarrow> int \<Rightarrow> synthesis_request \<Rightarrow> ('x, 'l, 'v) dnc_system \<Rightarrow> semantic_graph_candidate list res" where
  "synthesize_semantic_graph h now r s =
     (let tenant = cgs_tenant (syn_state r) in
      gated (require_enterprise_permitted (Some tenant) [] [] [] ''SYNTHESIZE_GRAPH'' s) (
      gated (skills_permitted (syn_skill_template_ids r) tenant s) (
      require (sys_cognitive_state s = Some (syn_state r)) (ValueError ''synthesis request MUST use the active cognitive state'')
      (case synthesize h (sys_capability_registry s) now r of
         Inl e \<Rightarrow> Inl e
       | Inr cs \<Rightarrow> Inr (filter (\<lambda>c. list_all (\<lambda>u. uid_value (unit_id u) \<notin> set (dict_keys (units (sys_graph s)))) (sgc_units c)) cs)))))"

definition apply_semantic_candidate ::
  "tx_env \<Rightarrow> transaction_id \<Rightarrow> int \<Rightarrow> semantic_graph_candidate \<Rightarrow> real \<Rightarrow> string set \<Rightarrow> string \<Rightarrow> ('x, 'l, 'v) dnc_system
   \<Rightarrow> ((bool \<times> semantic_validation) \<times> ('x, 'l, 'v) dnc_system) res" where
  "apply_semantic_candidate env tid now c budget granted grade s =
     gated (require_enterprise_permitted None [] [] [] ''APPLY_SEMANTIC_GRAPH'' s)
       (case sys_cognitive_state s of
          None \<Rightarrow> Inl (ValueError ''semantic candidate application requires cognitive state'')
        | Some st \<Rightarrow>
            (let existing = filter (\<lambda>i. i \<in> set (dict_keys (units (sys_graph s)))) (map (\<lambda>u. uid_value (unit_id u)) (sgc_units c)) in
             if existing \<noteq> []
             then Inr ((False, \<lparr>sv_valid = False, sv_reason_codes = map (\<lambda>i. ''SEMANTIC_TRANSPOSITION:'' @ i) existing\<rparr>), s)
             else case validate_semantic_candidate c (sys_capability_registry s) now (tsk_task_id (cgs_task st)) (cgs_tenant st) budget granted grade of
                    Inl e \<Rightarrow> Inl e
                  | Inr v \<Rightarrow>
                      if \<not> sv_valid v then Inr ((False, v), s)
                      else (let r = execute_transaction env (sys_provenance_log s) tid (sys_graph s) (sgc_operations c) (Some (version (sys_graph s)));
                                s' = s\<lparr>sys_graph := tx_graph r, sys_provenance_log := tx_plog r\<rparr>
                            in Inr ((tx_success r, v),
                                 if tx_success r then s'\<lparr>sys_transaction_commits := sys_transaction_commits s + 1\<rparr>
                                 else s'\<lparr>sys_transaction_rollbacks := sys_transaction_rollbacks s + 1\<rparr>))))"

section \<open>The cycle\<close>

definition cycle_generation_context ::
  "generation_objective \<Rightarrow> real \<Rightarrow> necessity_signal set \<Rightarrow> ('x, 'l, 'v) dnc_system \<Rightarrow> generation_context" where
  "cycle_generation_context objective last_utility signals s =
     \<lparr>gc_objective = objective, gc_available_unit_templates = [], gc_current_unit_count = int (length (units (sys_graph s))),
      gc_current_edge_count = int (length (edges (sys_graph s))), gc_last_observed_utility = last_utility,
      gc_recent_mutation_count = int (sys_recent_mutation_count s), gc_cycles_since_mutation = int (sys_cycles_since_mutation s),
      gc_prior_mutation_harmed = sys_prior_mutation_harmed s, gc_necessity_signals = signals\<rparr>"

definition cycle_evaluation_context :: "generation_objective \<Rightarrow> ('x, 'l, 'v) dnc_system \<Rightarrow> evaluation_context" where
  "cycle_evaluation_context objective s =
     \<lparr>ex_current_graph = sys_graph s, ex_active_objectives = [go_task_description objective], ex_constraints = [],
      ex_available_budget = go_cost_budget objective, ex_risk_tolerance = ''HIGH'',
      ex_criteria = \<lparr>ec_min_utility = 3/10, ec_max_risk = ''HIGH'', ec_max_cost = 50, ec_require_rationale = True,
         ec_require_alignment = False, ec_max_units = go_max_units objective, ec_max_edges = go_max_edges objective\<rparr>,
      ex_stability_baseline_utility = sys_last_observed_utility s, ex_cycles_since_mutation = int (sys_cycles_since_mutation s),
      ex_recent_mutation_count = int (sys_recent_mutation_count s)\<rparr>"

type_synonym cycle_result = "bool \<times> assessment option \<times> mutation_proposal option"

definition idle :: "('x, 'l, 'v) dnc_system \<Rightarrow> ('x, 'l, 'v) dnc_system" where
  "idle s = s\<lparr>sys_cycles_since_mutation := sys_cycles_since_mutation s + 1\<rparr>"

text \<open>From the projection to the end of the cycle.\<close>

definition execute_and_assess ::
  "'x core_run \<Rightarrow> mutation_proposal \<Rightarrow> prediction_record \<Rightarrow> string \<Rightarrow> real \<Rightarrow> bool \<Rightarrow> ('x, 'l, 'v) dnc_system
   \<Rightarrow> cycle_result res \<times> ('x, 'l, 'v) dnc_system" where
  "execute_and_assess run p prediction before last_utility learns s =
     (case project (sys_graph s) None of
        Inl e \<Rightarrow> (Inl e, s)
      | Inr dag \<Rightarrow>
          (case core_execute run (sys_execution_core s) dag of
             (Inl e, core) \<Rightarrow> (Inl e, s\<lparr>sys_execution_core := core\<rparr>)
           | (Inr execution, core) \<Rightarrow>
               (let (a, n) = assess_execution execution p before (show_graph_version (version (sys_graph s))) (Some last_utility)
                               (sys_assessment_counter s);
                    s' = s\<lparr>sys_execution_core := core, sys_assessment_counter := n\<rparr>;
                    s'' = (if sc_enable_learning (sys_config s) \<and> learns
                           then s'\<lparr>sys_learning := snd (learn_from_assessment prediction a (sys_learning s))\<rparr> else s')
                in (Inr (True, Some a, Some p),
                    s''\<lparr>sys_prior_mutation_harmed := (as_improvement_delta a < - (2/100)),
                        sys_last_observed_utility := as_post_execution_utility_measured a\<rparr>))))"

text \<open>The transaction of the proposal, or its absence when mutation is disabled.\<close>

definition transact ::
  "tx_env \<Rightarrow> transaction_id \<Rightarrow> mutation_proposal \<Rightarrow> ('x, 'l, 'v) dnc_system \<Rightarrow> bool \<times> ('x, 'l, 'v) dnc_system" where
  "transact env tid p s =
     (if \<not> sc_enable_mutation (sys_config s) then (True, idle s)
      else (let r = execute_transaction env (sys_provenance_log s) tid (sys_graph s) (mp_candidate_operations p) None;
                s' = s\<lparr>sys_graph := tx_graph r, sys_provenance_log := tx_plog r\<rparr>
            in if \<not> tx_success r
               then (False, idle (s'\<lparr>sys_transaction_rollbacks := sys_transaction_rollbacks s + 1\<rparr>))
               else (True, s'\<lparr>sys_transaction_commits := sys_transaction_commits s + 1, sys_cycles_since_mutation := 0,
                              sys_recent_mutation_count := sys_recent_mutation_count s + 1\<rparr>)))"

definition chosen_proposal :: "mutation_proposal list \<Rightarrow> proposal_evaluation list \<Rightarrow> mutation_proposal" where
  "chosen_proposal ps es = (case find (\<lambda>e. pe_decision e = DT_AUTHORIZE) es of None \<Rightarrow> hd ps | Some e \<Rightarrow> pe_proposal e)"

definition carry_out ::
  "tx_env \<Rightarrow> transaction_id \<Rightarrow> 'x core_run \<Rightarrow> mutation_proposal \<Rightarrow> string \<Rightarrow> real \<Rightarrow> bool \<Rightarrow> ('x, 'l, 'v) dnc_system
   \<Rightarrow> cycle_result res \<times> ('x, 'l, 'v) dnc_system" where
  "carry_out env tid run p before last_utility learns s =
     (let (prediction, k) = record_prediction p (sys_tracker s);
          s' = s\<lparr>sys_proposals_authorized := sys_proposals_authorized s + 1, sys_tracker := k\<rparr>;
          (ok, s'') = transact env tid p s'
      in if \<not> ok then (Inr (False, None, Some p), s'')
         else execute_and_assess run p prediction before last_utility learns s'')"

definition run_cycle ::
  "tx_env \<Rightarrow> transaction_id \<Rightarrow> 'x core_run \<Rightarrow> generation_objective \<Rightarrow> assessment option \<Rightarrow> necessity_signal set
   \<Rightarrow> ('x, 'l, 'v) dnc_system \<Rightarrow> cycle_result res \<times> ('x, 'l, 'v) dnc_system" where
  "run_cycle env tid run objective prior signals s =
     (case require_enterprise_permitted None [] [] [] ''STRUCTURAL_CYCLE'' s of
        Inl e \<Rightarrow> (Inl e, s)
      | Inr _ \<Rightarrow>
          (let before = show_graph_version (version (sys_graph s));
               last_utility = (case prior of None \<Rightarrow> sys_last_observed_utility s | Some a \<Rightarrow> as_post_execution_utility_measured a);
               (generated, n) = generate_proposals (sys_graph s) (cycle_generation_context objective last_utility signals s)
                                  (sys_generator_counter s);
               s1 = s\<lparr>sys_cycle_count := sys_cycle_count s + 1, sys_generator_counter := n\<rparr>
           in case generated of
                Inl e \<Rightarrow> (Inl e, s1)
              | Inr ps \<Rightarrow>
                  (let s2 = s1\<lparr>sys_proposals_generated := sys_proposals_generated s + length ps\<rparr> in
                   if ps = [] then (Inr (False, None, None), idle s2)
                   else (let (es, c1) = evaluate_proposals ps (cycle_evaluation_context objective s2) (sys_controller s);
                             (decision, c2) = authorize_top_scoring es c1; s3 = s2\<lparr>sys_controller := c2\<rparr>
                         in case decision of
                              None \<Rightarrow> (Inr (False, None, None), idle s3)
                            | Some d \<Rightarrow>
                                if \<not> ad_authorized d then (Inr (False, None, None), idle s3)
                                else carry_out env tid run (chosen_proposal ps es) before last_utility (prior \<noteq> None) s3))))"

section \<open>What a cycle does to the graph\<close>

lemma chosen_in:
  assumes "ps \<noteq> []" and "evaluate_proposals ps x c = (es, c')"
  shows "chosen_proposal ps es \<in> set ps"
proof (cases "find (\<lambda>e. pe_decision e = DT_AUTHORIZE) es")
  case None
  then show ?thesis using assms(1) by (simp add: chosen_proposal_def)
next
  case (Some e)
  then have "e \<in> set es" by (simp add: find_Some_in)
  then show ?thesis using Some assms(2) by (auto simp: chosen_proposal_def evaluate_proposals_def evaluate_single_def Let_def)
qed

lemma execute_and_assess_frame:
  assumes "execute_and_assess run p q before u learns s = (r, s')"
  shows "sys_graph s' = sys_graph s" "sys_config s' = sys_config s" "sys_transaction_commits s' = sys_transaction_commits s"
    "sys_transaction_rollbacks s' = sys_transaction_rollbacks s" "sys_proposals_authorized s' = sys_proposals_authorized s"
  using assms by (auto simp: execute_and_assess_def Let_def split: sum.splits prod.splits if_splits)

lemma idle_simps [simp]:
  "sys_graph (idle s) = sys_graph s" "sys_config (idle s) = sys_config s" "sys_transaction_commits (idle s) = sys_transaction_commits s"
  "sys_transaction_rollbacks (idle s) = sys_transaction_rollbacks s" "sys_proposals_authorized (idle s) = sys_proposals_authorized s"
  by (simp_all add: idle_def)

text \<open>What happens to the graph and the counters: nothing, an authorised proposal that changes nothing, or a commit.\<close>

definition counters_move :: "nat \<Rightarrow> nat \<Rightarrow> nat \<Rightarrow> ('x, 'l, 'v) dnc_system \<Rightarrow> ('x, 'l, 'v) dnc_system \<Rightarrow> bool" where
  "counters_move a c r s s' \<longleftrightarrow>
     sys_config s' = sys_config s \<and> sys_proposals_authorized s' = sys_proposals_authorized s + a
     \<and> sys_transaction_commits s' = sys_transaction_commits s + c \<and> sys_transaction_rollbacks s' = sys_transaction_rollbacks s + r"

definition transacted ::
  "ir_operation list \<Rightarrow> ('x, 'l, 'v) dnc_system \<Rightarrow> ('x, 'l, 'v) dnc_system \<Rightarrow> bool" where
  "transacted ops s s' \<longleftrightarrow>
     (if \<not> sc_enable_mutation (sys_config s) then counters_move 0 0 0 s s' \<and> sys_graph s' = sys_graph s
      else case abstract_transaction (sys_graph s) ops of
             None \<Rightarrow> counters_move 0 0 1 s s' \<and> sys_graph s' = sys_graph s
           | Some h \<Rightarrow> counters_move 0 1 0 s s' \<and> sys_graph s' = h)"

lemma transact_effect: "transact env tid p s = (ok, s') \<Longrightarrow> transacted (mp_candidate_operations p) s s'"
  using execute_graph [of env "sys_provenance_log s" tid "sys_graph s" "mp_candidate_operations p" None]
  by (auto simp: transact_def transacted_def counters_move_def base_current_def Let_def split: if_splits option.splits)

text \<open>An authorised proposal: its transaction, and then nothing that changes the graph.\<close>

definition carried_out :: "ir_operation list \<Rightarrow> ('x, 'l, 'v) dnc_system \<Rightarrow> ('x, 'l, 'v) dnc_system \<Rightarrow> bool" where
  "carried_out ops s s' \<longleftrightarrow>
     (if \<not> sc_enable_mutation (sys_config s) then counters_move 1 0 0 s s' \<and> sys_graph s' = sys_graph s
      else case abstract_transaction (sys_graph s) ops of
             None \<Rightarrow> counters_move 1 0 1 s s' \<and> sys_graph s' = sys_graph s
           | Some h \<Rightarrow> counters_move 1 1 0 s s' \<and> sys_graph s' = h)"

lemma carry_out_effect:
  assumes "carry_out env tid run p before u learns s = (r, s')"
  shows "carried_out (mp_candidate_operations p) s s'"
proof -
  let ?s = "s\<lparr>sys_proposals_authorized := sys_proposals_authorized s + 1, sys_tracker := snd (record_prediction p (sys_tracker s))\<rparr>"
  obtain ok t where t: "transact env tid p ?s = (ok, t)" by fastforce
  note e = transact_effect [OF t]
  show ?thesis
  proof (cases ok)
    case False
    then have "s' = t" using assms t by (simp add: carry_out_def Let_def case_prod_unfold)
    with e show ?thesis by (auto simp: carried_out_def transacted_def counters_move_def split: option.splits)
  next
    case True
    then have x: "execute_and_assess run p (fst (record_prediction p (sys_tracker s))) before u learns t = (r, s')"
      using assms t by (simp add: carry_out_def Let_def case_prod_unfold)
    show ?thesis using e execute_and_assess_frame [OF x]
      by (auto simp: carried_out_def transacted_def counters_move_def split: option.splits)
  qed
qed

lemma run_cycle_effect:
  assumes "run_cycle env tid run objective prior signals s = (r, s')"
  shows "(counters_move 0 0 0 s s' \<and> sys_graph s' = sys_graph s)
    \<or> (\<exists>x c ps p. gc_objective x = objective \<and> gc_current_unit_count x = int (length (units (sys_graph s)))
         \<and> gc_current_edge_count x = int (length (edges (sys_graph s)))
         \<and> fst (generate_proposals (sys_graph s) x c) = Inr ps \<and> p \<in> set ps \<and> carried_out (mp_candidate_operations p) s s')"
proof -
  define u where "u = (case prior of None \<Rightarrow> sys_last_observed_utility s | Some a \<Rightarrow> as_post_execution_utility_measured a)"
  define x where "x = cycle_generation_context objective u signals s"
  have x: "gc_objective x = objective" "gc_current_unit_count x = int (length (units (sys_graph s)))"
    "gc_current_edge_count x = int (length (edges (sys_graph s)))" by (simp_all add: x_def cycle_generation_context_def)
  obtain g n where g: "generate_proposals (sys_graph s) x (sys_generator_counter s) = (g, n)" by fastforce
  note g' = g [unfolded x_def u_def]
  show ?thesis
  proof (cases "counters_move 0 0 0 s s' \<and> sys_graph s' = sys_graph s")
    case False
    then obtain ps where ps: "g = Inr ps" "ps \<noteq> []"
      using assms g' by (cases g) (auto simp: run_cycle_def Let_def counters_move_def split: sum.splits if_splits)
    let ?s = "s\<lparr>sys_cycle_count := sys_cycle_count s + 1, sys_generator_counter := n,
        sys_proposals_generated := sys_proposals_generated s + length ps\<rparr>"
    obtain es c where es: "evaluate_proposals ps (cycle_evaluation_context objective ?s) (sys_controller s) = (es, c)" by fastforce
    obtain d c2 where d: "authorize_top_scoring es c = (d, c2)" by fastforce
    have "carry_out env tid run (chosen_proposal ps es) (show_graph_version (version (sys_graph s))) u (prior \<noteq> None)
        (?s\<lparr>sys_controller := c2\<rparr>) = (r, s')"
      using assms g' ps es d False unfolding u_def
      by (cases d) (auto simp: run_cycle_def Let_def counters_move_def split: sum.splits if_splits)
    from carry_out_effect [OF this] have "carried_out (mp_candidate_operations (chosen_proposal ps es)) s s'"
      by (auto simp: carried_out_def counters_move_def split: option.splits)
    moreover have "chosen_proposal ps es \<in> set ps" using ps(2) es by (rule chosen_in)
    ultimately show ?thesis using x g ps(1) by (metis fst_conv)
  qed simp
qed

text \<open>A proposal that commits makes the graph no larger than the objective allows.\<close>

lemma apply_all_add: "apply_all g [add_op u] = Some k \<Longrightarrow> length (units k) = length (units g) + 1 \<and> edges k = edges g"
  using apply_add_op [of g u] by (auto simp: Let_def split: if_splits)

lemma apply_all_add_connect:
  "apply_all g [add_op u, connect_op i j] = Some k \<Longrightarrow> length (units k) = length (units g) + 1 \<and> length (edges k) = length (edges g) + 1"
  using apply_add_op [of g u] apply_connect_op [of "result_graph (apply_operation g (add_op u))" i j]
  by (auto simp: Let_def split: if_splits)

lemma apply_all_connect:
  "apply_all g [connect_op i j] = Some k \<Longrightarrow> units k = units g \<and> length (edges k) = length (edges g) + 1"
  using apply_connect_op [of g i j] by (auto simp: Let_def split: if_splits)

lemma committed_size:
  assumes "fst (generate_proposals g x c) = Inr ps" and "p \<in> set ps"
    and x: "gc_current_unit_count x = int (length (units g))" "gc_current_edge_count x = int (length (edges g))"
    and h: "abstract_transaction g (mp_candidate_operations p) = Some h"
  shows "int (length (units h)) \<le> max (int (length (units g))) (go_max_units (gc_objective x))
    \<and> int (length (edges h)) \<le> max (int (length (edges g))) (go_max_edges (gc_objective x))"
proof -
  obtain k where k: "apply_all g (mp_candidate_operations p) = Some k" "units h = units k" "edges h = edges k"
    using abstract_transaction_structure [OF h] by blast
  have "\<not> reshapes (mp_candidate_operations p)" using k(1) apply_reshape by force
  with proposal_shape [OF assms(1,2)]
  consider u where "wants_expansion x" "mp_candidate_operations p = [add_op u]"
    | u i where "wants_expansion x" "mp_candidate_operations p = [add_op u, connect_op i (unit_id u)]"
        "gc_current_edge_count x < go_max_edges (gc_objective x)"
    | i j where "wants_wiring g x" "mp_candidate_operations p = [connect_op i j]"
    by (auto simp: expands_def wires_def)
  then show ?thesis
  proof cases
    case 1
    then show ?thesis using apply_all_add [of g u k] k x by (auto simp: wants_expansion_def Let_def simp del: apply_all.simps)
  next
    case 2
    then show ?thesis using apply_all_add_connect [of g u i "unit_id u" k] k x by (auto simp: wants_expansion_def Let_def simp del: apply_all.simps)
  next
    case 3
    then show ?thesis using apply_all_connect [of g i j k] k x by (auto simp: wants_wiring_def simp del: apply_all.simps)
  qed
qed

section \<open>Runs of cycles\<close>

type_synonym cycle_call = "transaction_id \<times> generation_objective \<times> assessment option \<times> necessity_signal set"

fun cycle_step :: "tx_env \<Rightarrow> 'x core_run \<Rightarrow> ('x, 'l, 'v) dnc_system \<Rightarrow> cycle_call \<Rightarrow> ('x, 'l, 'v) dnc_system" where
  "cycle_step env run s (tid, objective, prior, signals) = snd (run_cycle env tid run objective prior signals s)"

definition cycles_ok :: "structural_graph \<Rightarrow> system_config \<Rightarrow> int \<Rightarrow> int \<Rightarrow> ('x, 'l, 'v) dnc_system \<Rightarrow> bool" where
  "cycles_ok g0 config U E s \<longleftrightarrow>
     (let g = sys_graph s in
      identity_inv g \<and> wf_graph g \<and> graph_id g = graph_id g0 \<and> retired_ids g0 \<subseteq> retired_ids g
      \<and> int (length (units g)) \<le> U \<and> int (length (edges g)) \<le> E \<and> sys_config s = config
      \<and> sequence (version g) = sequence (version g0) + sys_transaction_commits s
      \<and> (if sc_enable_mutation config then sys_proposals_authorized s = sys_transaction_commits s + sys_transaction_rollbacks s
         else g = g0 \<and> sys_transaction_commits s = 0 \<and> sys_transaction_rollbacks s = 0))"

definition call_within :: "int \<Rightarrow> int \<Rightarrow> cycle_call \<Rightarrow> bool" where
  "call_within U E c \<longleftrightarrow> (case c of (_, objective, _, _) \<Rightarrow> go_max_units objective \<le> U \<and> go_max_edges objective \<le> E)"

lemma cycle_step_ok:
  assumes "cycles_ok g0 config U E s" and "call_within U E call"
  shows "cycles_ok g0 config U E (cycle_step env run s call)"
proof -
  obtain tid objective prior signals where c: "call = (tid, objective, prior, signals)" by (cases call) auto
  obtain r s' where s': "run_cycle env tid run objective prior signals s = (r, s')" by fastforce
  from run_cycle_effect [OF s'] have "cycles_ok g0 config U E s'"
  proof
    assume "counters_move 0 0 0 s s' \<and> sys_graph s' = sys_graph s"
    with assms(1) show ?thesis by (auto simp: cycles_ok_def counters_move_def Let_def)
  next
    assume "\<exists>x c ps p. gc_objective x = objective \<and> gc_current_unit_count x = int (length (units (sys_graph s)))
      \<and> gc_current_edge_count x = int (length (edges (sys_graph s)))
      \<and> fst (generate_proposals (sys_graph s) x c) = Inr ps \<and> p \<in> set ps \<and> carried_out (mp_candidate_operations p) s s'"
    then obtain x c ps p where x: "gc_objective x = objective" "gc_current_unit_count x = int (length (units (sys_graph s)))"
      "gc_current_edge_count x = int (length (edges (sys_graph s)))" "fst (generate_proposals (sys_graph s) x c) = Inr ps" "p \<in> set ps"
      and e: "carried_out (mp_candidate_operations p) s s'" by blast
    show ?thesis
    proof (cases "sc_enable_mutation (sys_config s) \<and> abstract_transaction (sys_graph s) (mp_candidate_operations p) \<noteq> None")
      case False
      with assms(1) e show ?thesis by (auto simp: cycles_ok_def carried_out_def counters_move_def Let_def split: if_splits)
    next
      case True
      then obtain h where h: "abstract_transaction (sys_graph s) (mp_candidate_operations p) = Some h" by blast
      have "identity_inv (sys_graph s)" using assms(1) by (simp add: cycles_ok_def Let_def)
      from abstract_transaction_inv [OF this h] committed_size [OF x(4,5,2,3) h] True assms e h
      show ?thesis by (auto simp: cycles_ok_def carried_out_def counters_move_def Let_def call_within_def c x(1) split: if_splits)
    qed
  qed
  then show ?thesis by (simp add: c s')
qed

interpretation cycles: guarded_machine "cycle_step env run" "call_within U E" "cycles_ok g0 config U E" for env run U E g0 config
  by unfold_locales (rule cycle_step_ok)

text \<open>
  C9: The cycle is governed. Start a new system on a graph in which no retired identifier is in use and
  which has at most \<open>U\<close> units and \<open>E\<close> edges, and run any sequence of cycles whose objectives
  allow no more. The graph stays valid, keeps its identity and its retired identifiers and stays within
  the limits, and its version counts the commits. With mutation enabled as many transactions have
  been committed or rolled back as proposals have been authorised; with mutation disabled the
  graph is the initial one. (Only the numbers are claimed: the proposal that is transacted is the
  first authorised one, which need not be the one that is recorded.)
\<close>

theorem cycles_governed:
  assumes "new_dnc_system exec_id config core graph state caps verifiers calibrations labels policy memory policies switches listener = Inr s0"
    and "identity_inv (sys_graph s0)" and "list_all (call_within U E) calls"
    and "int (length (units (sys_graph s0))) \<le> U" and "int (length (edges (sys_graph s0))) \<le> E"
    and s_def: "s = foldl (cycle_step env run) s0 calls"
  shows "wf_graph (sys_graph s) \<and> identity_inv (sys_graph s) \<and> retired_ids (sys_graph s0) \<subseteq> retired_ids (sys_graph s)
    \<and> graph_id (sys_graph s) = graph_id (sys_graph s0)
    \<and> int (length (units (sys_graph s))) \<le> U \<and> int (length (edges (sys_graph s))) \<le> E
    \<and> sequence (version (sys_graph s)) = sequence (version (sys_graph s0)) + sys_transaction_commits s
    \<and> (if sc_enable_mutation config then sys_proposals_authorized s = sys_transaction_commits s + sys_transaction_rollbacks s
       else sys_graph s = sys_graph s0)"
proof -
  have "cycles_ok (sys_graph s0) config U E s0"
    using assms(1,2,4,5) by (auto simp: new_dnc_system_def cycles_ok_def Let_def validate_graph_iff split: sum.splits)
  from cycles.run_keeps [OF this assms(3), of env run] show ?thesis
    unfolding s_def cycles_ok_def Let_def by (auto split: if_splits)
qed

definition demo_system :: "(unit, nat, nat) dnc_system" where
  "demo_system = projr (new_dnc_system ''e'' default_config None (Some demo_graph) (Some demo_cognitive_state) demo_registry
     \<lparr>vreg_verifiers = [], vreg_disabled = {}\<rparr> [] empty_labels None new_memory empty_policy_registry no_switches 0)"

lemma demo_system_new:
  "new_dnc_system ''e'' default_config None (Some demo_graph) (Some demo_cognitive_state) demo_registry
     \<lparr>vreg_verifiers = [], vreg_disabled = {}\<rparr> [] empty_labels None new_memory empty_policy_registry no_switches 0 = Inr demo_system"
  using demo_graph_wf by (simp add: demo_system_def new_dnc_system_def initial_graph_of_def validate_graph_iff default_config_def Let_def)

lemma demo_system_parts:
  "sys_graph demo_system = demo_graph" "sys_cognitive_state demo_system = Some demo_cognitive_state" "sys_config demo_system = default_config"
  "sys_kill_switches demo_system = no_switches" "sys_capability_registry demo_system = add_change_listener 0 demo_registry"
  using demo_graph_wf by (simp_all add: demo_system_def new_dnc_system_def initial_graph_of_def validate_graph_iff default_config_def Let_def)

definition demo_objective :: generation_objective where
  "demo_objective = \<lparr>go_task_description = ''t'', go_target_outcome = [], go_constraints = [], go_cost_budget = 100, go_max_units = 10,
     go_max_edges = 20, go_require_specialization = False, go_allow_composition = True\<rparr>"

abbreviation demo_run :: "unit core_run" where
  "demo_run \<equiv> \<lambda>p u. (Inl (RuntimeError []), u)"

abbreviation demo_cycles :: "(unit, nat, nat) dnc_system" where
  "demo_cycles \<equiv> foldl (cycle_step demo_env demo_run) demo_system (replicate 3 (TransactionID ''t'', demo_objective, None, {CAPACITY_INSUFFICIENCY}))"

theorem cycles_governed_witness:
  "wf_graph (sys_graph demo_cycles) \<and> int (length (units (sys_graph demo_cycles))) \<le> 10
   \<and> sys_proposals_authorized demo_cycles = sys_transaction_commits demo_cycles + sys_transaction_rollbacks demo_cycles"
proof -
  have "identity_inv (sys_graph demo_system)" by (simp add: demo_system_parts demo_graph_identity)
  moreover have "list_all (call_within 10 20) (replicate 3 (TransactionID ''t'', demo_objective, None, {CAPACITY_INSUFFICIENCY}))"
    by (simp add: call_within_def demo_objective_def list_all_iff)
  moreover have "int (length (units (sys_graph demo_system))) \<le> 10" "int (length (edges (sys_graph demo_system))) \<le> 20"
    by (simp_all add: demo_system_parts demo_graph_def)
  ultimately show ?thesis
    using cycles_governed [OF demo_system_new _ _ _ _ refl, of 10 20] by (simp add: default_config_def)
qed

section \<open>From synthesis to the graph\<close>

lemma gated_Inr [simp]: "gated g r = Inr v \<longleftrightarrow> g = Inr () \<and> r = Inr v"
  by (auto simp: gated_def split: sum.splits)

lemma gated_permitted [simp]:
  "require_enterprise_permitted t c m k a s = Inr () \<longleftrightarrow> permitted (sys_kill_switches s) (gate_tenant t s) c m k a"
  by (simp add: require_enterprise_permitted_def)

text \<open>
  C38: What the system synthesises can be applied: a candidate that was synthesised for the active
  state, that the budget, the isolation and the permissions cover and whose identifier is not
  retired, is accepted and committed, and the graph gains exactly its unit and stays valid.
\<close>

theorem synthesized_graph_commits:
  assumes "synthesize_semantic_graph h now r s = Inr cs" and "c \<in> set cs"
    and "list_all (\<lambda>t. SemanticUnitTemplate_post_init t = Inr t) (syn_templates r)"
    and "sgc_estimated_cost c \<le> budget" and "isolation_or 99 (sgc_required_isolation_grade c) \<le> isolation_or (- 1) grade"
    and "\<Union> (cc_permissions ` set (cap_available now (sys_capability_registry s))) \<subseteq> granted"
    and "permitted (sys_kill_switches s) (gate_tenant None s) [] [] [] ''APPLY_SEMANTIC_GRAPH''"
    and "identity_inv (sys_graph s)" and "wf_graph (sys_graph s)"
    and "(\<lambda>u. uid_value (unit_id u)) ` set (sgc_units c) \<inter> retired_ids (sys_graph s) = {}"
  shows "\<exists>s'. apply_semantic_candidate env tid now c budget granted grade s = Inr ((True, \<lparr>sv_valid = True, sv_reason_codes = []\<rparr>), s')
    \<and> units (sys_graph s') = units (sys_graph s) @ map (\<lambda>u. (uid_value (unit_id u), u)) (sgc_units c)
    \<and> edges (sys_graph s') = edges (sys_graph s) \<and> wf_graph (sys_graph s') \<and> identity_inv (sys_graph s')
    \<and> sys_transaction_commits s' = sys_transaction_commits s + 1"
proof -
  from assms(1) obtain ds where ds: "synthesize h (sys_capability_registry s) now r = Inr ds" and st: "sys_cognitive_state s = Some (syn_state r)"
      and cs: "cs = filter (\<lambda>c. list_all (\<lambda>u. uid_value (unit_id u) \<notin> set (dict_keys (units (sys_graph s)))) (sgc_units c)) ds"
    by (auto simp: synthesize_semantic_graph_def Let_def split: sum.splits)
  from assms(2) cs have c: "c \<in> set ds" and new: "list_all (\<lambda>u. uid_value (unit_id u) \<notin> fst ` set (units (sys_graph s))) (sgc_units c)" by auto
  then have fresh: "(\<lambda>u. uid_value (unit_id u)) ` set (sgc_units c) \<inter> (fst ` set (units (sys_graph s)) \<union> retired_ids (sys_graph s)) = {}"
    using assms(10) by (auto simp: list_all_iff)
  from synthesized_candidates_apply [OF ds c assms(3-6,8,9) fresh] obtain k
    where v: "validate_semantic_candidate c (sys_capability_registry s) now (tsk_task_id (cgs_task (syn_state r))) (cgs_tenant (syn_state r)) budget granted grade
        = Inr \<lparr>sv_valid = True, sv_reason_codes = []\<rparr>"
      and k: "abstract_transaction (sys_graph s) (sgc_operations c) = Some k" "wf_graph k" "edges k = edges (sys_graph s)"
        "units k = units (sys_graph s) @ map (\<lambda>u. (uid_value (unit_id u), u)) (sgc_units c)" by blast
  let ?r = "execute_transaction env (sys_provenance_log s) tid (sys_graph s) (sgc_operations c) (Some (version (sys_graph s)))"
  have r: "tx_success ?r" "tx_graph ?r = k" using k(1) by (simp_all add: execute_graph base_current_def)
  have "filter (\<lambda>i. i \<in> set (dict_keys (units (sys_graph s)))) (map (\<lambda>u. uid_value (unit_id u)) (sgc_units c)) = []"
    using new by (auto simp: filter_empty_conv list_all_iff)
  moreover have "gated (require_enterprise_permitted None [] [] [] ''APPLY_SEMANTIC_GRAPH'' s) x = x" for x :: "((bool \<times> semantic_validation) \<times> ('a, 'b, 'c) dnc_system) res"
    using assms(7) by (simp add: gated_def require_enterprise_permitted_def)
  ultimately have "apply_semantic_candidate env tid now c budget granted grade s = Inr ((True, \<lparr>sv_valid = True, sv_reason_codes = []\<rparr>),
      s\<lparr>sys_graph := k, sys_provenance_log := tx_plog ?r, sys_transaction_commits := sys_transaction_commits s + 1\<rparr>)"
    using st v r unfolding apply_semantic_candidate_def by (simp add: Let_def)
  with abstract_transaction_inv [OF assms(8) k(1)] k show ?thesis by simp
qed

definition equipped_system :: "(unit, nat, nat) dnc_system" where
  "equipped_system = demo_system\<lparr>sys_capability_registry := demo_registry\<rparr>"

theorem synthesized_graph_commits_witness:
  "\<exists>c s'. synthesize_semantic_graph (\<lambda>_. ''f'') 8 demo_request equipped_system = Inr [c]
     \<and> apply_semantic_candidate demo_env (TransactionID ''t'') 8 c 5 {''read''} ''I2_PROCESS_LOCAL'' equipped_system
         = Inr ((True, \<lparr>sv_valid = True, sv_reason_codes = []\<rparr>), s') \<and> length (units (sys_graph s')) = 3"
proof -
  obtain c where c: "synthesize (\<lambda>_. ''f'') demo_registry 8 demo_request = Inr [c]"
    "sgc_units c = [semantic_unit demo_request demo_template ''f'' (UnitID ''sem_f'')]" "sgc_estimated_cost c = 2"
    "sgc_required_isolation_grade c = ''I1_GRAPH_ONLY''" by (rule demo_synthesis)
  have p: "sys_graph equipped_system = demo_graph" "sys_capability_registry equipped_system = demo_registry"
    "sys_kill_switches equipped_system = no_switches" "sys_cognitive_state equipped_system = Some demo_cognitive_state"
    by (simp_all add: equipped_system_def demo_system_parts)
  have ok: "permitted no_switches t a b d e" for t a b d e by (simp add: permitted_def no_switches_def)
  have skills: "syn_skill_template_ids demo_request = []" "syn_state demo_request = demo_cognitive_state" by (simp_all add: demo_request_def)
  have new: "list_all (\<lambda>u. uid_value (unit_id u) \<notin> fst ` set (units demo_graph)) (sgc_units c)"
    using demo_request_ok(4) by (simp add: c(2))
  have s: "synthesize_semantic_graph (\<lambda>_. ''f'') 8 demo_request equipped_system = Inr [c]"
    using c(1) new by (simp add: synthesize_semantic_graph_def Let_def p ok skills skills_permitted_def)
  have "(\<lambda>u. uid_value (unit_id u)) ` set (sgc_units c) \<inter> retired_ids demo_graph = {}" using demo_request_ok(4) by (auto simp: c(2))
  moreover have "length (units demo_graph) = 2" by (simp add: demo_graph_def)
  ultimately show ?thesis
    using synthesized_graph_commits [OF s, of c 5 "''I2_PROCESS_LOCAL''" "{''read''}" demo_env "TransactionID ''t''"] s demo_request_ok(1-3)
    by (auto simp: p ok c(2-4) demo_graph_identity demo_graph_wf)
qed

section \<open>The gate\<close>

text \<open>
  What a switch denies is not used: a selected capability is available and neither it nor its model
  nor the requested action is switched off, a selected action is not switched off, and a learned
  policy is used only if its version is not switched off and its registry lets it execute.
\<close>

lemma switches_respected:
  "select_capability rq now s = Inr sel \<Longrightarrow> cs_selected sel = Some c \<Longrightarrow>
     cc_capability_id c \<notin> ks_capabilities (sys_kill_switches s) \<and> cc_model_id c \<notin> ks_models (sys_kill_switches s)
     \<and> cognitive_action_type_value (rq_action_type rq) \<notin> ks_actions (sys_kill_switches s)"
  "select_cognitive_action audit x lc s = Inr (d, s') \<Longrightarrow> dec_selected d = Some a \<Longrightarrow>
     cognitive_action_type_value (cp_action_type (ac_proposal a)) \<notin> ks_actions (sys_kill_switches s)"
  "select_learned_action pol m risk key cands det safe i s = Inr ld \<Longrightarrow> pd_used_learned_policy ld \<Longrightarrow>
     lpv_fingerprint pol \<notin> ks_models (sys_kill_switches s) \<and> can_execute (lpv_fingerprint pol) risk (sys_learned_policy_registry s)"
  by (auto simp: select_capability_def select_cognitive_action_def select_learned_action_def permitted_def select_action_def Let_def
      split: option.splits if_splits sum.splits)

text \<open>
  Adaptive execution runs behind the switches, through an available card for the model, the risk
  and the domain; the evidence restates the result.
\<close>

lemma available_card_in:
  assumes "available_card i now s = Some c"
  shows "c \<in> set (cap_available now (sys_capability_registry s)) \<and> cc_capability_id c = i"
proof -
  have "map_of (foldl (\<lambda>d c. dict_set (cc_capability_id c) c d) d cs) i = Some c
      \<Longrightarrow> c \<in> set cs \<and> cc_capability_id c = i \<or> map_of d i = Some c" for d cs
    by (induction cs arbitrary: d) (fastforce split: if_splits)+
  from this [of "[]"] show ?thesis using assms by (auto simp: available_card_def)
qed

lemma adaptive_neural_governed:
  assumes "execute_adaptive_neural i m v task domain risk force now s = Inr (r, ev)"
  shows "\<exists>c\<in>set (cap_available now (sys_capability_registry s)). cc_capability_id c = i \<and> cc_model_id c = adm_model_fingerprint m
      \<and> neural_risk_rank risk \<le> neural_risk_rank (cc_risk_limit c) \<and> domain \<in> cc_calibration_domains c"
    and "i \<notin> ks_capabilities (sys_kill_switches s) \<and> adm_model_fingerprint m \<notin> ks_models (sys_kill_switches s)
      \<and> ''ADAPTIVE_NEURAL_EXECUTE'' \<notin> ks_actions (sys_kill_switches s)"
    and "adaptive_execute domain risk force v m = Inr r \<and> nee_exit_layer ev = adr_exit_layer r \<and> nee_task_id ev = task"
  using assms
  by (auto simp: execute_adaptive_neural_def permitted_def issue_exit_evidence_def dest!: available_card_in
      split: option.splits sum.splits if_splits)

text \<open>
  The cycle projects without an execution context, so with a governed unit in the graph it raises,
  after the transaction has been committed.
\<close>

lemma governed_graph_never_executes:
  assumes "u \<in> snd ` set (units (sys_graph s))" and "requires_execution_context (contract u)"
  shows "\<not> is_ok (fst (execute_and_assess run p q before last_utility learns s))"
proof -
  have "\<not> is_ok (project (sys_graph s) None)" using assms by (auto simp: project_def)
  then show ?thesis by (auto simp: execute_and_assess_def is_ok_def split: sum.splits)
qed

text \<open>A system that is switched off runs no cycle, and the attempt changes nothing.\<close>

lemma disabled_cycle_refused:
  "ks_global_disabled (sys_kill_switches s) \<Longrightarrow>
   run_cycle env tid run objective prior signals s = (Inl (DNCPolicyError ''enterprise kill switch denied operation''), s)"
  by (simp add: run_cycle_def require_enterprise_permitted_def permitted_def)

text \<open>
  The controller authorises the proposal with the best score, but the cycle carries out the first
  one that could have been authorised.
\<close>

definition five_graph :: structural_graph where
  "five_graph = demo_graph\<lparr>units := map (\<lambda>n. (n, demo_unit n)) [''a'', ''b'', ''c'', ''d'', ''e'']\<rparr>"

definition divergent_system :: "(unit, nat, nat) dnc_system" where
  "divergent_system = demo_system\<lparr>sys_graph := five_graph, sys_prior_mutation_harmed := True, sys_last_observed_utility := 0,
     sys_cycles_since_mutation := 999, sys_recent_mutation_count := 0\<rparr>"

definition divergent_objective :: generation_objective where
  "divergent_objective = demo_objective\<lparr>go_require_specialization := True\<rparr>"

definition divergent_proposals :: "mutation_proposal list" where
  "divergent_proposals =
     projr (fst (generate_proposals five_graph (cycle_generation_context divergent_objective 0 {} divergent_system) 0))"

lemma divergent_proposals_eq:
  "divergent_proposals =
     [make_proposal ''gen_spec_'' 1 five_graph
        [\<lparr>op_type = SPECIALIZE_UNIT, parameters = no_params\<lparr>p_unit_id := Some (UnitID ''a'')\<rparr>, rationale = []\<rparr>] ''Specialize unit for: ''
        (cycle_generation_context divergent_objective 0 {} divergent_system) (5/10) (5/10) ''MEDIUM'',
      make_proposal ''gen_comp_'' 1 five_graph [\<lparr>op_type = COMPOSE_UNITS, parameters = no_params, rationale = []\<rparr>] ''Compose units for: ''
        (cycle_generation_context divergent_objective 0 {} divergent_system) (7/10) (15/10) ''MEDIUM'']"
proof -
  have "mk_UnitID ''a'' = Inr (UnitID ''a'')" "mk_UnitID ''b'' = Inr (UnitID ''b'')" by code_simp+
  then show ?thesis
    by (simp add: divergent_proposals_def generate_proposals_def strategy_def wants_expansion_def wants_wiring_def wants_specialization_def
        wants_composition_def create_specialization_proposal_def create_composition_proposal_def cycle_generation_context_def
        divergent_system_def divergent_objective_def five_graph_def demo_graph_def demo_objective_def Let_def)
qed

theorem authorized_not_transacted:
  "(case evaluate_proposals divergent_proposals (cycle_evaluation_context divergent_objective divergent_system) new_structural_controller of
      (es, c) \<Rightarrow> (case authorize_top_scoring es c of
         (Some d, _) \<Rightarrow> ad_authorized d \<and> ad_proposal_id d \<noteq> mp_proposal_id (chosen_proposal divergent_proposals es) | _ \<Rightarrow> False))"
  by (simp add: divergent_proposals_eq evaluate_proposals_def evaluate_single_def rejection_reasons_def compute_score_def base_score_def
      complexity_penalty_def churn_penalty_def risk_level_def risk_score_def make_proposal_def cycle_evaluation_context_def divergent_system_def
      divergent_objective_def demo_objective_def five_graph_def authorize_top_scoring_def authorize_evaluation_def chosen_proposal_def Let_def)

end
