(* ===== verification/Reference_Control.thy ===== *)
theory Reference_Control
  imports Cognitive_State Capabilities
begin

text \<open>
  The reference controller of the cognitive runtime (\<open>cognition/controller.py\<close>) and its calibration
  profiles (\<open>cognition/calibration.py\<close>): which action it proposes, what the authorisation kernel lets
  pass, and when the task halts. Thresholds are real numbers.
\<close>

declare map_of_eq_Some_iff [simp del] Some_eq_map_of_iff [simp del]

section \<open>Calibration profiles\<close>

record calibration_profile =
  cpf_profile_id :: string
  cpf_domain :: string
  cpf_policy_version :: string
  cpf_risk_thresholds :: "(risk_class, real) dict"
  cpf_evidence_summary :: string
  cpf_capability_fingerprint :: "string option"

definition CalibrationProfile_post_init :: "calibration_profile \<Rightarrow> calibration_profile res" where
  "CalibrationProfile_post_init p =
     require (cpf_profile_id p \<noteq> []) (ValueError ''profile_id MUST be non-empty'') (
     require (cpf_domain p \<noteq> []) (ValueError ''domain MUST be non-empty'') (
     require (cpf_policy_version p \<noteq> []) (ValueError ''policy_version MUST be non-empty'') (
     require (set risk_class_members \<subseteq> fst ` set (cpf_risk_thresholds p)) (ValueError ''risk_thresholds MUST include every RiskClass'') (
     require (list_all (\<lambda>(_, t). 0 \<le> t \<and> t \<le> 1) (cpf_risk_thresholds p)) (ValueError ''risk thresholds MUST be between 0 and 1'')
     (Inr p)))))"

definition profile_threshold :: "calibration_profile \<Rightarrow> risk_class \<Rightarrow> real res" where
  "profile_threshold p r = (case map_of (cpf_risk_thresholds p) r of None \<Rightarrow> Inl (KeyError (risk_class_value r)) | Some t \<Rightarrow> Inr t)"

definition default_reference_calibration :: calibration_profile where
  "default_reference_calibration = \<lparr>cpf_profile_id = ''reference-v0'', cpf_domain = ''deterministic-reference'', cpf_policy_version = ''0'',
     cpf_risk_thresholds = [(RISK_LOW, 1/10), (RISK_MEDIUM, 1/20), (RISK_HIGH, 1/100), (RISK_CRITICAL, 1/1000)],
     cpf_evidence_summary = ''Reference thresholds only; not held-out calibration evidence.'', cpf_capability_fingerprint = None\<rparr>"

record profile_registry =
  prg_profiles :: "(string, calibration_profile) dict"
  prg_invalidated :: "(string, string) dict"

definition profile_register :: "calibration_profile \<Rightarrow> profile_registry \<Rightarrow> profile_registry" where
  "profile_register p reg = reg\<lparr>prg_profiles := dict_set (cpf_profile_id p) p (prg_profiles reg)\<rparr>"

definition profile_get :: "string \<Rightarrow> profile_registry \<Rightarrow> calibration_profile option" where
  "profile_get i reg = (if i \<in> fst ` set (prg_invalidated reg) then None else map_of (prg_profiles reg) i)"

definition profile_invalidate :: "string \<Rightarrow> string \<Rightarrow> profile_registry \<Rightarrow> string list \<times> profile_registry" where
  "profile_invalidate fingerprint reason reg =
     (let invalidated = map fst (filter (\<lambda>(_, p). cpf_capability_fingerprint p = Some fingerprint) (prg_profiles reg))
      in (invalidated, reg\<lparr>prg_invalidated := foldl (\<lambda>d i. dict_set i reason d) (prg_invalidated reg) invalidated\<rparr>))"

definition profile_model_change :: "model_change_event \<Rightarrow> profile_registry \<Rightarrow> profile_registry" where
  "profile_model_change e reg =
     (if mc_previous_fingerprint e \<noteq> []
      then snd (profile_invalidate (mc_previous_fingerprint e) ''provider/model fingerprint changed'' reg) else reg)"

definition invalidation_reason :: "string \<Rightarrow> profile_registry \<Rightarrow> string option" where
  "invalidation_reason i reg = map_of (prg_invalidated reg) i"

section \<open>When a task may stop\<close>

fun RISK_ORDER :: "risk_class \<Rightarrow> nat" where
  "RISK_ORDER RISK_LOW = 1"
| "RISK_ORDER RISK_MEDIUM = 2"
| "RISK_ORDER RISK_HIGH = 3"
| "RISK_ORDER RISK_CRITICAL = 4"

abbreviation state_risk :: "cognitive_state \<Rightarrow> risk_class" where
  "state_risk s \<equiv> pcx_risk_class (tsk_policy (cgs_task s))"

abbreviation state_task :: "cognitive_state \<Rightarrow> string" where
  "state_task s \<equiv> tsk_task_id (cgs_task s)"

definition can_stop :: "cognitive_state \<Rightarrow> calibration_profile \<Rightarrow> bool res" where
  "can_stop s cal =
     (if cgs_answer_state_id s = None then Inr False
      else case has_mandatory_verification s of
             Inl e \<Rightarrow> Inl e
           | Inr False \<Rightarrow> Inr False
           | Inr True \<Rightarrow>
               if unresolved_contradictions s \<noteq> [] \<or> missing_information s \<noteq> [] then Inr False
               else (case cgs_calibrated_risk s of
                       None \<Rightarrow> Inr False
                     | Some risk \<Rightarrow>
                         (case profile_threshold cal (state_risk s) of
                            Inl e \<Rightarrow> Inl e
                          | Inr threshold \<Rightarrow>
                              if risk > threshold then Inr False
                              else (case cgs_marginal_value_estimate s of None \<Rightarrow> Inr True | Some v \<Rightarrow> Inr (\<not> v > 0)))))"

section \<open>The authorisation kernel\<close>

definition kernel_decision :: "string \<Rightarrow> bool \<Rightarrow> bool \<Rightarrow> string option \<Rightarrow> cognitive_decision res" where
  "kernel_decision i authorized selected reason =
     CognitiveDecision_post_init \<lparr>cdn_proposal_id = i, cdn_authorized = authorized, cdn_selected = selected, cdn_rejection_reason = reason,
       cdn_conditions = [], cdn_audit_record_id = None\<rparr>"

definition kernel_authorize :: "calibration_profile \<Rightarrow> cognitive_proposal \<Rightarrow> cognitive_state \<Rightarrow> cognitive_decision res" where
  "kernel_authorize cal p s =
     (if cp_task_id p \<noteq> state_task s
      then kernel_decision (cp_proposal_id p) False False (Some ''proposal task_id does not match cognitive state'')
      else if RISK_ORDER (cp_risk p) > RISK_ORDER (state_risk s)
      then kernel_decision (cp_proposal_id p) False False (Some ''proposal risk exceeds task policy risk class'')
      else case (if cp_action_type p = CA_STOP then can_stop s cal else Inr True) of
             Inl e \<Rightarrow> Inl e
           | Inr False \<Rightarrow> kernel_decision (cp_proposal_id p) False False (Some ''STOP preconditions are not satisfied'')
           | Inr True \<Rightarrow> kernel_decision (cp_proposal_id p) True False None)"

section \<open>The controller\<close>

record reference_controller =
  rfc_calibration :: calibration_profile
  rfc_authorization :: "calibration_profile option"

definition ReferenceCognitiveController_post_init :: "reference_controller \<Rightarrow> reference_controller" where
  "ReferenceCognitiveController_post_init c =
     (if rfc_authorization c = None then c\<lparr>rfc_authorization := Some (rfc_calibration c)\<rparr> else c)"

definition own_proposal :: "cognitive_state \<Rightarrow> string \<Rightarrow> cognitive_action_type \<Rightarrow> string \<Rightarrow> string list \<Rightarrow> cognitive_proposal res" where
  "own_proposal s tail action rationale requirements =
     CognitiveProposal_post_init \<lparr>cp_proposal_id = state_task s @ tail, cp_task_id = state_task s, cp_action_type = action,
       cp_rationale = rationale, cp_preconditions = [], cp_expected_effects = [], cp_evidence_requirements = requirements,
       cp_estimated_cost = 0, cp_estimated_latency_ms = 0, cp_risk = state_risk s, cp_reversible = True, cp_metadata = []\<rparr>"

definition propose_next :: "reference_controller \<Rightarrow> cognitive_state \<Rightarrow> cognitive_proposal res" where
  "propose_next c s =
     (if unresolved_contradictions s \<noteq> []
      then own_proposal s '':verify-conflict'' CA_VERIFY ''unresolved contradictions require verification before stopping''
             (unresolved_contradictions s)
      else if missing_information s \<noteq> []
      then own_proposal s '':ask-missing-info'' CA_ASK ''missing information dominates further internal reasoning'' (missing_information s)
      else case can_stop s (rfc_calibration c) of
             Inl e \<Rightarrow> Inl e
           | Inr True \<Rightarrow> own_proposal s '':stop'' CA_STOP ''answer risk, verification, and information requirements are satisfied'' []
           | Inr False \<Rightarrow>
               if cgs_answer_state_id s \<noteq> None
               then own_proposal s '':verify-answer'' CA_VERIFY ''answer exists but stopping evidence is insufficient'' []
               else own_proposal s '':reason'' CA_REASON ''no answer state exists yet'' [])"

definition decide_next :: "reference_controller \<Rightarrow> cognitive_state \<Rightarrow> cognitive_decision res" where
  "decide_next c s =
     (case propose_next c s of
        Inl e \<Rightarrow> Inl e
      | Inr p \<Rightarrow>
          (case rfc_authorization c of
             None \<Rightarrow> Inl (AttributeError ''authorize'')
           | Some cal \<Rightarrow>
               (case kernel_authorize cal p s of
                  Inl e \<Rightarrow> Inl e
                | Inr d \<Rightarrow> if \<not> cdn_authorized d then Inr d else kernel_decision (cp_proposal_id p) True True None)))"

definition own_halt :: "cognitive_state \<Rightarrow> halting_decision_type \<Rightarrow> string list \<Rightarrow> string list \<Rightarrow> string \<Rightarrow> halting_decision res" where
  "own_halt s decision contradictions missing rationale =
     HaltingDecision_post_init \<lparr>hd_task_id = state_task s, hd_decision = decision, hd_answer_state_id = cgs_answer_state_id s,
       hd_calibrated_risk = cgs_calibrated_risk s, hd_evidence_ids = evidence_ids s, hd_unresolved_contradictions = contradictions,
       hd_missing_information = missing, hd_marginal_value_estimate = cgs_marginal_value_estimate s, hd_rationale = rationale\<rparr>"

definition controller_halt :: "reference_controller \<Rightarrow> cognitive_state \<Rightarrow> halting_decision res" where
  "controller_halt c s =
     (case can_stop s (rfc_calibration c) of
        Inl e \<Rightarrow> Inl e
      | Inr True \<Rightarrow> own_halt s HD_STOP [] [] ''risk and verification policy satisfied''
      | Inr False \<Rightarrow>
          if unresolved_contradictions s \<noteq> []
          then own_halt s HD_VERIFY (unresolved_contradictions s) (missing_information s) ''contradictions remain unresolved''
          else if missing_information s \<noteq> [] then own_halt s HD_ASK [] (missing_information s) ''missing information remains''
          else own_halt s HD_VERIFY [] [] ''stopping preconditions are not yet satisfied'')"

section \<open>The controller stops exactly when it may\<close>

text \<open>What a stop needs, as one condition.\<close>

definition stop_justified :: "cognitive_state \<Rightarrow> calibration_profile \<Rightarrow> bool" where
  "stop_justified s cal \<longleftrightarrow>
     cgs_answer_state_id s \<noteq> None \<and> has_mandatory_verification s = Inr True
     \<and> unresolved_contradictions s = [] \<and> missing_information s = []
     \<and> (\<exists>risk threshold. cgs_calibrated_risk s = Some risk \<and> profile_threshold cal (state_risk s) = Inr threshold \<and> risk \<le> threshold)
     \<and> (\<forall>v. cgs_marginal_value_estimate s = Some v \<longrightarrow> v \<le> 0)"

lemma can_stop_True: "can_stop s cal = Inr True \<longleftrightarrow> stop_justified s cal"
  by (auto simp: can_stop_def stop_justified_def split: sum.splits bool.splits option.splits)

lemma stop_justifiedD:
  assumes "stop_justified s cal"
  shows "unresolved_contradictions s = []" "missing_information s = []" "\<exists>a. cgs_answer_state_id s = Some a" "\<exists>r. cgs_calibrated_risk s = Some r"
  using assms by (auto simp: stop_justified_def)

lemma threshold_returns:
  assumes "CalibrationProfile_post_init cal = Inr cal"
  shows "\<exists>t. profile_threshold cal r = Inr t \<and> 0 \<le> t \<and> t \<le> 1"
proof -
  have a: "set risk_class_members \<subseteq> fst ` set (cpf_risk_thresholds cal)" "list_all (\<lambda>(_, t). 0 \<le> t \<and> t \<le> 1) (cpf_risk_thresholds cal)"
    using assms by (auto simp: CalibrationProfile_post_init_def)
  have "r \<in> fst ` set (cpf_risk_thresholds cal)" using a(1) risk_class.members_all [of r] by blast
  then obtain t where t: "map_of (cpf_risk_thresholds cal) r = Some t" by (metis map_of_eq_None_iff not_None_eq)
  then show ?thesis using a(2) map_of_SomeD [OF t] by (auto simp: profile_threshold_def list_all_iff)
qed

lemma can_stop_returns:
  assumes "CalibrationProfile_post_init cal = Inr cal" and "is_ok (has_mandatory_verification s)"
  shows "can_stop s cal = Inr (stop_justified s cal)"
proof -
  obtain t where "profile_threshold cal (state_risk s) = Inr t" using threshold_returns [OF assms(1)] by blast
  then have "\<exists>b. can_stop s cal = Inr b"
    using assms(2) by (auto simp: can_stop_def is_ok_def split: sum.splits bool.splits option.splits)
  then show ?thesis using can_stop_True [of s cal] by (metis (full_types))
qed

lemma propose_next_ok:
  assumes "state_task s \<noteq> []" and "CalibrationProfile_post_init (rfc_calibration c) = Inr (rfc_calibration c)"
    and "is_ok (has_mandatory_verification s)"
  shows "\<exists>p. propose_next c s = Inr p \<and> cp_task_id p = state_task s \<and> cp_risk p = state_risk s \<and> cp_proposal_id p \<noteq> []
    \<and> (cp_action_type p = CA_STOP \<longleftrightarrow> stop_justified s (rfc_calibration c))"
  unfolding propose_next_def can_stop_returns [OF assms(2,3)]
  using assms(1) stop_justifiedD [of s "rfc_calibration c"]
  by (cases "stop_justified s (rfc_calibration c)") (auto simp: own_proposal_def CognitiveProposal_post_init_def)

lemma halt_ok:
  assumes "state_task s \<noteq> []" and "CalibrationProfile_post_init (rfc_calibration c) = Inr (rfc_calibration c)"
    and "is_ok (has_mandatory_verification s)" and "CognitiveState_post_init s = Inr s"
  shows "\<exists>h. controller_halt c s = Inr h \<and> (hd_decision h = HD_STOP \<longleftrightarrow> stop_justified s (rfc_calibration c))"
proof -
  have s: "case cgs_calibrated_risk s of None \<Rightarrow> True | Some r \<Rightarrow> 0 \<le> r \<and> r \<le> 1"
      "case cgs_marginal_value_estimate s of None \<Rightarrow> True | Some v \<Rightarrow> \<not> v < 0"
    using assms(4) by (auto simp: CognitiveState_post_init_def)
  show ?thesis unfolding controller_halt_def can_stop_returns [OF assms(2,3)]
    using assms(1) s stop_justifiedD [of s "rfc_calibration c"]
    by (cases "stop_justified s (rfc_calibration c)") (auto simp: own_halt_def HaltingDecision_post_init_def)
qed

text \<open>
  The controller agrees with itself: on an accepted state it proposes to stop, and halts the task,
  exactly when the stop is justified, and its kernel authorises and selects whatever it proposes.
\<close>

lemma reference_controller_consistent:
  assumes "c = ReferenceCognitiveController_post_init \<lparr>rfc_calibration = cal, rfc_authorization = None\<rparr>"
    and "CalibrationProfile_post_init cal = Inr cal" and "CognitiveState_post_init s = Inr s" and "state_task s \<noteq> []"
    and "is_ok (has_mandatory_verification s)"
  shows "\<exists>p d h. propose_next c s = Inr p \<and> decide_next c s = Inr d \<and> controller_halt c s = Inr h
    \<and> (cp_action_type p = CA_STOP \<longleftrightarrow> stop_justified s cal) \<and> (hd_decision h = HD_STOP \<longleftrightarrow> stop_justified s cal)
    \<and> cdn_proposal_id d = cp_proposal_id p \<and> cdn_authorized d \<and> cdn_selected d"
proof -
  have c: "rfc_calibration c = cal" "rfc_authorization c = Some cal" by (simp_all add: assms(1) ReferenceCognitiveController_post_init_def)
  obtain p where p: "propose_next c s = Inr p" "cp_task_id p = state_task s" "cp_risk p = state_risk s" "cp_proposal_id p \<noteq> []"
      "cp_action_type p = CA_STOP \<longleftrightarrow> stop_justified s cal"
    using propose_next_ok [of s c] assms(2,4,5) c(1) by auto
  obtain h where h: "controller_halt c s = Inr h" "hd_decision h = HD_STOP \<longleftrightarrow> stop_justified s cal"
    using halt_ok [of s c] assms(2-5) c(1) by auto
  have "kernel_authorize cal p s = kernel_decision (cp_proposal_id p) True False None"
    using p(2,3,5) can_stop_returns [OF assms(2,5)] by (simp add: kernel_authorize_def)
  then have "decide_next c s = kernel_decision (cp_proposal_id p) True True None"
    using p(4) by (simp add: decide_next_def p(1) c(2) kernel_decision_def CognitiveDecision_post_init_def)
  then show ?thesis using p h by (simp add: kernel_decision_def CognitiveDecision_post_init_def)
qed

section \<open>Revoked profiles\<close>

datatype profile_call = PR_register calibration_profile | PR_invalidate string string | PR_change model_change_event

definition profile_step :: "profile_registry \<Rightarrow> profile_call \<Rightarrow> profile_registry" where
  "profile_step reg c =
     (case c of
        PR_register p \<Rightarrow> profile_register p reg
      | PR_invalidate f why \<Rightarrow> snd (profile_invalidate f why reg)
      | PR_change e \<Rightarrow> profile_model_change e reg)"

lemma invalidated_keys: "fst ` set (foldl (\<lambda>d i. dict_set i why d) d is) = fst ` set d \<union> set is"
  by (induction "is" arbitrary: d) auto

lemma profile_invalidate_keys:
  "fst ` set (prg_invalidated (snd (profile_invalidate f why reg))) =
     fst ` set (prg_invalidated reg) \<union> {i. \<exists>p. (i, p) \<in> set (prg_profiles reg) \<and> cpf_capability_fingerprint p = Some f}"
  by (force simp: profile_invalidate_def Let_def invalidated_keys)

interpretation revoked_profile: guarded_machine profile_step "\<lambda>_. True" "\<lambda>reg. i \<in> fst ` set (prg_invalidated reg)" for i
proof
  fix reg :: profile_registry and c :: profile_call
  assume "i \<in> fst ` set (prg_invalidated reg)"
  then show "i \<in> fst ` set (prg_invalidated (profile_step reg c))"
    by (cases c) (simp_all add: profile_step_def profile_register_def profile_model_change_def profile_invalidate_keys)
qed

text \<open>A profile of a changed model is never returned again, also not after its identifier is registered anew.\<close>

lemma revoked_profile_stays:
  assumes "map_of (prg_profiles reg) i = Some p" and "cpf_capability_fingerprint p = Some (mc_previous_fingerprint e)"
    and "mc_previous_fingerprint e \<noteq> []"
  shows "profile_get i (foldl profile_step (profile_model_change e reg) calls) = None"
proof -
  have "i \<in> fst ` set (prg_invalidated (profile_model_change e reg))"
    using assms(2,3) map_of_SomeD [OF assms(1)] by (auto simp: profile_model_change_def profile_invalidate_keys)
  then have "i \<in> fst ` set (prg_invalidated (foldl profile_step (profile_model_change e reg) calls))"
    by (intro revoked_profile.run_keeps) (simp_all add: list_all_iff)
  then show ?thesis by (simp add: profile_get_def)
qed

end
