(* ===== verification/Pilot.thy ===== *)
theory Pilot
  imports Py_Library
begin

text \<open>
  The rollout of a pilot (\<open>pilot/governance.py\<close>): evidence, exercises, readiness and approvals, the
  stages of the rollout and the review for general availability. The digests of the workflow and
  of the evidence are parameters; floating-point values are real numbers.
\<close>

declare map_of_eq_Some_iff [simp del] Some_eq_map_of_iff [simp del]

section \<open>Evidence\<close>

datatype rollout_stage = OFFLINE_REPLAY | SHADOW | LIMITED_CANARY | GENERAL_AVAILABILITY

datatype exercise_kind = INCIDENT | PROVIDER_CHANGE | MODEL_CHANGE | POLICY_CHANGE | SKILL_ROLLBACK | DISASTER_RECOVERY

fun exercise_kind_value :: "exercise_kind \<Rightarrow> string" where
  "exercise_kind_value INCIDENT = ''incident''"
| "exercise_kind_value PROVIDER_CHANGE = ''provider_change''"
| "exercise_kind_value MODEL_CHANGE = ''model_change''"
| "exercise_kind_value POLICY_CHANGE = ''policy_change''"
| "exercise_kind_value SKILL_ROLLBACK = ''skill_rollback''"
| "exercise_kind_value DISASTER_RECOVERY = ''disaster_recovery''"

definition exercise_kinds :: "exercise_kind list" where
  "exercise_kinds = [INCIDENT, PROVIDER_CHANGE, MODEL_CHANGE, POLICY_CHANGE, SKILL_ROLLBACK, DISASTER_RECOVERY]"

datatype approval_role = PRODUCT | DOMAIN | RESEARCH | SECURITY | PRIVACY | OPERATIONS | ARCHITECTURE

fun approval_role_value :: "approval_role \<Rightarrow> string" where
  "approval_role_value PRODUCT = ''product''"
| "approval_role_value DOMAIN = ''domain''"
| "approval_role_value RESEARCH = ''research''"
| "approval_role_value SECURITY = ''security''"
| "approval_role_value PRIVACY = ''privacy''"
| "approval_role_value OPERATIONS = ''operations''"
| "approval_role_value ARCHITECTURE = ''architecture''"

definition approval_roles :: "approval_role list" where
  "approval_roles = [PRODUCT, DOMAIN, RESEARCH, SECURITY, PRIVACY, OPERATIONS, ARCHITECTURE]"

interpretation exercise_kind_enum: value_enum exercise_kinds exercise_kind_value
  by unfold_locales (auto simp: exercise_kinds_def, metis exercise_kind.exhaust)

interpretation approval_role_enum: value_enum approval_roles approval_role_value
  by unfold_locales (auto simp: approval_roles_def, metis approval_role.exhaust)

record workflow_profile =
  wp_workflow_id :: string
  wp_version :: string
  wp_domain :: string
  wp_domain_owner :: string
  wp_reversible :: bool
  wp_outcome_measurable :: bool
  wp_critical :: bool
  wp_system_fingerprint :: string
  wp_data_classification :: string
  wp_rollback_target :: string

definition WorkflowProfile_post_init :: "workflow_profile \<Rightarrow> workflow_profile res" where
  "WorkflowProfile_post_init w =
     require (list_all (\<lambda>v. \<not> blank v) [wp_workflow_id w, wp_version w, wp_domain w, wp_domain_owner w, wp_system_fingerprint w,
         wp_data_classification w, wp_rollback_target w]) (ValueError ''workflow profile fields must be non-empty'') (
     require (\<not> (\<not> wp_reversible w \<or> \<not> wp_outcome_measurable w \<or> wp_critical w))
       (ValueError ''first pilot must be reversible, measurable, and noncritical'') (Inr w))"

record pilot_criteria =
  pcr_baseline_value :: real
  pcr_minimum_business_value :: real
  pcr_maximum_failure_rate :: real
  pcr_maximum_p95_latency_ms :: real
  pcr_maximum_cost_per_case :: real
  pcr_minimum_observations :: int
  pcr_minimum_duration_days :: int
  pcr_require_delayed_outcomes :: bool
  pcr_require_operator_feedback :: bool

definition PilotCriteria_post_init :: "pilot_criteria \<Rightarrow> pilot_criteria res" where
  "PilotCriteria_post_init c =
     require (\<not> (pcr_minimum_observations c \<le> 0 \<or> pcr_minimum_duration_days c \<le> 0))
       (ValueError ''sustained evidence thresholds must be positive'') (
     require (0 \<le> pcr_maximum_failure_rate c \<and> pcr_maximum_failure_rate c \<le> 1)
       (ValueError ''maximum_failure_rate must be between zero and one'') (
     require (\<not> (pcr_maximum_p95_latency_ms c \<le> 0 \<or> pcr_maximum_cost_per_case c \<le> 0))
       (ValueError ''SLO and cost limits must be positive'') (
     require (\<not> pcr_minimum_business_value c \<le> pcr_baseline_value c)
       (ValueError ''minimum business value must exceed the frozen baseline'') (Inr c))))"

record outcome_observation =
  oo_observation_id :: string
  oo_stage :: rollout_stage
  oo_day :: int
  oo_business_value :: real
  oo_failed :: bool
  oo_latency_ms :: real
  oo_cost :: real
  oo_operator_feedback :: "string option"
  oo_delayed_outcome :: "real option"
  oo_source :: string
  oo_external :: bool

definition OutcomeObservation_post_init :: "outcome_observation \<Rightarrow> outcome_observation res" where
  "OutcomeObservation_post_init x =
     require (\<not> (blank (oo_observation_id x) \<or> blank (oo_source x))) (ValueError ''observation identity and source are required'') (
     require (\<not> (oo_day x < 0 \<or> oo_latency_ms x < 0 \<or> oo_cost x < 0))
       (ValueError ''observation measurements cannot be negative'') (Inr x))"

record exercise_record =
  exr_kind :: exercise_kind
  exr_exercised_by :: string
  exr_evidence_uri :: string
  exr_passed :: bool

record operational_readiness =
  opr_capacity_plan :: string
  opr_cost_plan :: string
  opr_support_model :: string
  opr_upgrade_policy :: string
  opr_deprecation_policy :: string
  opr_customer_documentation :: string

definition readiness_complete :: "operational_readiness \<Rightarrow> bool" where
  "readiness_complete r \<longleftrightarrow>
     list_all (\<lambda>v. \<not> blank v) [opr_capacity_plan r, opr_cost_plan r, opr_support_model r, opr_upgrade_policy r, opr_deprecation_policy r,
       opr_customer_documentation r]"

record pilot_approval =
  pa_role :: approval_role
  pa_approver :: string
  pa_workflow_fingerprint :: string
  pa_evidence_fingerprint :: string
  pa_approved :: bool

record ga_review =
  gar_approved :: bool
  gar_reasons :: "string list"
  gar_workflow_fingerprint :: string
  gar_evidence_fingerprint :: string
  gar_qualified_domain :: string

section \<open>The program\<close>

record pilot_program =
  pp_workflow :: workflow_profile
  pp_criteria :: pilot_criteria
  pp_stage :: rollout_stage
  pp_observations :: "outcome_observation list"
  pp_exercises :: "(exercise_kind, exercise_record) dict"
  pp_readiness :: "operational_readiness option"
  pp_approvals :: "(approval_role, pilot_approval) dict"

definition new_pilot :: "workflow_profile \<Rightarrow> pilot_criteria \<Rightarrow> pilot_program" where
  "new_pilot w c = \<lparr>pp_workflow = w, pp_criteria = c, pp_stage = OFFLINE_REPLAY, pp_observations = [], pp_exercises = [],
     pp_readiness = None, pp_approvals = []\<rparr>"

text \<open>The part of \<open>snapshot\<close> that the evidence fingerprint covers: everything but the stage and the approvals.\<close>

type_synonym pilot_evidence =
  "workflow_profile \<times> pilot_criteria \<times> outcome_observation list \<times> exercise_record list \<times> operational_readiness option"

definition evidence_of :: "pilot_program \<Rightarrow> pilot_evidence" where
  "evidence_of p =
     (pp_workflow p, pp_criteria p, pp_observations p, map snd (sort_key (\<lambda>(k, _). exercise_kind_value k) (pp_exercises p)), pp_readiness p)"

definition pilot_snapshot :: "pilot_program \<Rightarrow> pilot_evidence \<times> rollout_stage \<times> pilot_approval list" where
  "pilot_snapshot p = (evidence_of p, pp_stage p, map snd (sort_key (\<lambda>(r, _). approval_role_value r) (pp_approvals p)))"

record digests =
  dg_workflow :: "workflow_profile \<Rightarrow> string"
  dg_evidence :: "pilot_evidence \<Rightarrow> string"

definition record_pilot_outcome :: "outcome_observation \<Rightarrow> pilot_program \<Rightarrow> pilot_program res" where
  "record_pilot_outcome x p =
     require (oo_stage x = pp_stage p) (ValueError ''outcome stage must match the active rollout stage'') (
     require (oo_observation_id x \<notin> oo_observation_id ` set (pp_observations p)) (ValueError ''observation_id must be unique'')
     (Inr (p\<lparr>pp_observations := pp_observations p @ [x], pp_approvals := []\<rparr>)))"

definition record_exercise :: "exercise_record \<Rightarrow> pilot_program \<Rightarrow> pilot_program res" where
  "record_exercise x p =
     require (\<not> (blank (exr_exercised_by x) \<or> blank (exr_evidence_uri x))) (ValueError ''exercise owner and evidence are required'')
     (Inr (p\<lparr>pp_exercises := dict_set (exr_kind x) x (pp_exercises p), pp_approvals := []\<rparr>))"

definition set_operational_readiness :: "operational_readiness \<Rightarrow> pilot_program \<Rightarrow> pilot_program res" where
  "set_operational_readiness r p =
     require (readiness_complete r) (ValueError ''all operational readiness fields are required'')
     (Inr (p\<lparr>pp_readiness := Some r, pp_approvals := []\<rparr>))"

definition at_stage :: "rollout_stage \<Rightarrow> pilot_program \<Rightarrow> outcome_observation list" where
  "at_stage st p = filter (\<lambda>x. oo_stage x = st) (pp_observations p)"

fun next_stage :: "rollout_stage \<Rightarrow> rollout_stage option" where
  "next_stage OFFLINE_REPLAY = Some SHADOW"
| "next_stage SHADOW = Some LIMITED_CANARY"
| "next_stage _ = None"

definition pilot_promote :: "rollout_stage \<Rightarrow> pilot_program \<Rightarrow> pilot_program res" where
  "pilot_promote target p =
     require (next_stage (pp_stage p) = Some target) (ValueError ''rollout stages must advance offline, shadow, then canary'') (
     require (\<not> (at_stage (pp_stage p) p = [] \<or> list_ex oo_failed (at_stage (pp_stage p) p)))
       (ValueError ''stage promotion requires successful evidence in the active stage'')
     (Inr (p\<lparr>pp_stage := target, pp_approvals := []\<rparr>)))"

definition pilot_rollback :: "pilot_program \<Rightarrow> pilot_program" where
  "pilot_rollback p = p\<lparr>pp_stage := SHADOW, pp_approvals := []\<rparr>"

definition pilot_approve :: "digests \<Rightarrow> approval_role \<Rightarrow> string \<Rightarrow> bool \<Rightarrow> pilot_program \<Rightarrow> (pilot_approval \<times> pilot_program) res" where
  "pilot_approve dg role approver approved p =
     require (\<not> blank approver) (ValueError ''approver identity is required'') (
     require (\<not> list_ex (\<lambda>(_, a). pa_approver a = approver \<and> pa_role a \<noteq> role) (pp_approvals p))
       (ValueError ''required approval roles must have independent approvers'')
     (let a = \<lparr>pa_role = role, pa_approver = approver, pa_workflow_fingerprint = dg_workflow dg (pp_workflow p),
               pa_evidence_fingerprint = dg_evidence dg (evidence_of p), pa_approved = approved\<rparr>
      in Inr (a, p\<lparr>pp_approvals := dict_set role a (pp_approvals p)\<rparr>)))"

section \<open>The review\<close>

definition failing :: "bool \<Rightarrow> string \<Rightarrow> string list" where
  "failing b why = (if b then [why] else [])"

definition average :: "('a \<Rightarrow> real) \<Rightarrow> 'a list \<Rightarrow> real" where
  "average f xs = sum_list (map f xs) / real (length xs)"

definition p95_index :: "nat \<Rightarrow> nat" where
  "p95_index n = nat (max 0 (\<lfloor>95/100 * real n + 999999/1000000\<rfloor> - 1))"

text \<open>The tests on the external observations of the canary stage, of which there is at least one.\<close>

definition canary_failures :: "pilot_criteria \<Rightarrow> outcome_observation list \<Rightarrow> string list" where
  "canary_failures c xs =
     failing (Max (oo_day ` set xs) - Min (oo_day ` set xs) + 1 < pcr_minimum_duration_days c)
       ''canary evidence is not sustained for the required duration''
     @ failing (average (\<lambda>x. if oo_failed x then 1 else 0) xs > pcr_maximum_failure_rate c) ''canary failure rate exceeds criterion''
     @ failing (average oo_business_value xs < pcr_minimum_business_value c) ''business value does not exceed the declared threshold''
     @ failing (sort (map oo_latency_ms xs) ! p95_index (length xs) > pcr_maximum_p95_latency_ms c) ''p95 latency exceeds SLO''
     @ failing (average oo_cost xs > pcr_maximum_cost_per_case c) ''mean cost exceeds criterion''
     @ failing (pcr_require_delayed_outcomes c \<and> list_ex (\<lambda>x. oo_delayed_outcome x = None) xs) ''delayed business outcomes are incomplete''
     @ failing (pcr_require_operator_feedback c \<and>
         list_ex (\<lambda>x. case oo_operator_feedback x of None \<Rightarrow> True | Some f \<Rightarrow> blank f) xs) ''operator feedback is incomplete''"

definition evidence_failures :: "pilot_program \<Rightarrow> string list" where
  "evidence_failures p =
     (if pp_stage p \<notin> {LIMITED_CANARY, GENERAL_AVAILABILITY} then [''pilot has not reached limited canary'']
      else (let external = filter oo_external (at_stage LIMITED_CANARY p) in
        failing (int (length external) < pcr_minimum_observations (pp_criteria p)) ''insufficient external canary observations''
        @ (if external = [] then []
           else canary_failures (pp_criteria p) external
             @ failing (\<not> list_all (\<lambda>k. list_ex (\<lambda>(k', r). k' = k \<and> exr_passed r) (pp_exercises p)) exercise_kinds)
                 ''required incident/change/rollback/recovery exercises are incomplete''
             @ failing (case pp_readiness p of None \<Rightarrow> True | Some r \<Rightarrow> \<not> readiness_complete r) ''operational readiness package is incomplete'')))"

definition approval_failures :: "digests \<Rightarrow> pilot_program \<Rightarrow> approval_role \<Rightarrow> string list" where
  "approval_failures dg p role =
     (case map_of (pp_approvals p) role of
        None \<Rightarrow> [''missing '' @ approval_role_value role @ '' approval'']
      | Some a \<Rightarrow>
          if \<not> pa_approved a then [approval_role_value role @ '' approval denied'']
          else failing (pa_workflow_fingerprint a \<noteq> dg_workflow dg (pp_workflow p) \<or> pa_evidence_fingerprint a \<noteq> dg_evidence dg (evidence_of p))
                 (''stale '' @ approval_role_value role @ '' approval''))"

definition review_general_availability :: "digests \<Rightarrow> pilot_program \<Rightarrow> ga_review \<times> pilot_program" where
  "review_general_availability dg p =
     (let reasons = evidence_failures p @ concat (map (approval_failures dg p) (sort_key approval_role_value approval_roles));
          approved = (reasons = [])
      in (\<lparr>gar_approved = approved, gar_reasons = reasons, gar_workflow_fingerprint = dg_workflow dg (pp_workflow p),
           gar_evidence_fingerprint = dg_evidence dg (evidence_of p), gar_qualified_domain = wp_domain (pp_workflow p)\<rparr>,
          if approved then p\<lparr>pp_stage := GENERAL_AVAILABILITY\<rparr> else p))"

section \<open>What a rollout has shown\<close>

datatype pilot_call =
    P_outcome outcome_observation | P_exercise exercise_record | P_ready operational_readiness | P_promote rollout_stage | P_rollback
  | P_approve approval_role string bool | P_review

definition pilot_or :: "pilot_program \<Rightarrow> pilot_program res \<Rightarrow> pilot_program" where
  "pilot_or p r = (case r of Inl _ \<Rightarrow> p | Inr q \<Rightarrow> q)"

definition pilot_step :: "digests \<Rightarrow> pilot_program \<Rightarrow> pilot_call \<Rightarrow> pilot_program" where
  "pilot_step dg p c =
     (case c of
        P_outcome x \<Rightarrow> pilot_or p (record_pilot_outcome x p)
      | P_exercise x \<Rightarrow> pilot_or p (record_exercise x p)
      | P_ready r \<Rightarrow> pilot_or p (set_operational_readiness r p)
      | P_promote st \<Rightarrow> pilot_or p (pilot_promote st p)
      | P_rollback \<Rightarrow> pilot_rollback p
      | P_approve role approver ok \<Rightarrow> (case pilot_approve dg role approver ok p of Inl _ \<Rightarrow> p | Inr (_, q) \<Rightarrow> q)
      | P_review \<Rightarrow> snd (review_general_availability dg p))"

lemmas pilot_ops = pilot_step_def pilot_or_def record_pilot_outcome_def record_exercise_def set_operational_readiness_def
  pilot_promote_def pilot_rollback_def review_general_availability_def

text \<open>Approvals are for the present evidence and by different persons; the canary follows a shadow stage without failures.\<close>

definition approvals_ok :: "digests \<Rightarrow> pilot_program \<Rightarrow> bool" where
  "approvals_ok dg p \<longleftrightarrow>
     dict_ok (pp_approvals p)
     \<and> (\<forall>(r, a)\<in>set (pp_approvals p). pa_role a = r \<and> pa_workflow_fingerprint a = dg_workflow dg (pp_workflow p)
          \<and> pa_evidence_fingerprint a = dg_evidence dg (evidence_of p))
     \<and> (\<forall>(r, a)\<in>set (pp_approvals p). \<forall>(r', a')\<in>set (pp_approvals p). pa_approver a = pa_approver a' \<longrightarrow> r = r')"

definition shadow_passed :: "pilot_program \<Rightarrow> bool" where
  "shadow_passed p \<longleftrightarrow> at_stage SHADOW p \<noteq> [] \<and> \<not> list_ex oo_failed (at_stage SHADOW p)"

definition pilot_inv :: "digests \<Rightarrow> workflow_profile \<Rightarrow> pilot_criteria \<Rightarrow> pilot_program \<Rightarrow> bool" where
  "pilot_inv dg w c p \<longleftrightarrow>
     pp_workflow p = w \<and> pp_criteria p = c \<and> distinct (map oo_observation_id (pp_observations p)) \<and> approvals_ok dg p
     \<and> (pp_stage p \<in> {LIMITED_CANARY, GENERAL_AVAILABILITY} \<longrightarrow> shadow_passed p)"

lemma no_approvals_ok [simp]: "pp_approvals p = [] \<Longrightarrow> approvals_ok dg p"
  by (simp add: approvals_ok_def)

lemma approve_ok:
  assumes "approvals_ok dg p" and "pilot_approve dg role approver ok p = Inr (a, q)"
  shows "approvals_ok dg q"
proof -
  have q: "q = p\<lparr>pp_approvals := dict_set role a (pp_approvals p)\<rparr>" and a: "pa_role a = role" "pa_approver a = approver"
      "pa_workflow_fingerprint a = dg_workflow dg (pp_workflow p)" "pa_evidence_fingerprint a = dg_evidence dg (evidence_of p)"
    and other: "\<forall>(r, b)\<in>set (pp_approvals p). pa_approver b = approver \<longrightarrow> pa_role b = role"
    using assms(2) by (auto simp: pilot_approve_def Let_def list_ex_iff)
  have e: "evidence_of q = evidence_of p" by (simp add: q evidence_of_def)
  have s: "x \<in> set (dict_set role a (pp_approvals p)) \<Longrightarrow> x = (role, a) \<or> x \<in> set (pp_approvals p)" for x
    using set_dict_set_subset [of role a "pp_approvals p"] by auto
  have d: "dict_ok (dict_set role a (pp_approvals p))" using assms(1) by (simp add: approvals_ok_def)
  have 1: "\<forall>(r, b)\<in>set (dict_set role a (pp_approvals p)). pa_role b = r \<and> pa_workflow_fingerprint b = dg_workflow dg (pp_workflow p)
      \<and> pa_evidence_fingerprint b = dg_evidence dg (evidence_of p)"
    using assms(1) a s unfolding approvals_ok_def by blast
  have 2: "r = r'" if m: "(r, b) \<in> set (dict_set role a (pp_approvals p))" "(r', b') \<in> set (dict_set role a (pp_approvals p))"
      and e: "pa_approver b = pa_approver b'" for r b r' b'
  proof -
    have own: "pa_role b = r" "pa_role b' = r'" using 1 m by auto
    consider "(r, b) = (role, a)" "(r', b') = (role, a)" | "(r, b) = (role, a)" "(r', b') \<in> set (pp_approvals p)"
      | "(r, b) \<in> set (pp_approvals p)" "(r', b') = (role, a)" | "(r, b) \<in> set (pp_approvals p)" "(r', b') \<in> set (pp_approvals p)"
      using s m by blast
    then show ?thesis
    proof cases
      case 4
      then show ?thesis using assms(1) e unfolding approvals_ok_def by blast
    qed (use other own e a(2) in auto)
  qed
  show ?thesis using d 1 2 unfolding approvals_ok_def e by (auto simp: q)
qed

lemma pilot_step_inv:
  assumes "pilot_inv dg w c p"
  shows "pilot_inv dg w c (pilot_step dg p call)"
proof (cases call)
  case (P_approve role approver ok)
  show ?thesis
  proof (cases "pilot_approve dg role approver ok p")
    case (Inr r)
    obtain a q where r: "r = (a, q)" by fastforce
    have "approvals_ok dg q" using assms Inr approve_ok unfolding r pilot_inv_def by blast
    moreover have "q = p\<lparr>pp_approvals := pp_approvals q\<rparr>" using Inr by (auto simp: r pilot_approve_def Let_def)
    then have "pp_workflow q = pp_workflow p \<and> pp_criteria q = pp_criteria p \<and> pp_observations q = pp_observations p \<and> pp_stage q = pp_stage p"
      by (metis pilot_program.simps(1-4) pilot_program.select_convs(1-4) pilot_program.update_convs(7) pilot_program.surjective)
    ultimately show ?thesis using assms by (simp add: pilot_step_def P_approve Inr r pilot_inv_def shadow_passed_def at_stage_def)
  qed (use assms in \<open>simp add: pilot_step_def P_approve\<close>)
next
  case P_review
  have "approvals_ok dg (p\<lparr>pp_stage := st\<rparr>) = approvals_ok dg p" for st by (simp add: approvals_ok_def evidence_of_def)
  moreover have "pp_stage p \<in> {LIMITED_CANARY, GENERAL_AVAILABILITY}" if "evidence_failures p = []"
    using that by (auto simp: evidence_failures_def split: if_splits)
  ultimately show ?thesis using assms by (auto simp: P_review pilot_ops pilot_inv_def Let_def shadow_passed_def at_stage_def)
qed (use assms in \<open>auto simp: pilot_ops pilot_inv_def shadow_passed_def at_stage_def require_def split: if_splits elim: next_stage.elims\<close>)

interpretation pilot: guarded_machine "pilot_step dg" "\<lambda>_. True" "pilot_inv dg w c" for dg w c
  by unfold_locales (rule pilot_step_inv)

lemma failing_Nil [simp]: "failing b why = [] \<longleftrightarrow> \<not> b"
  by (simp add: failing_def)

lemma stage_step:
  assumes "pp_stage (pilot_step dg p call) = GENERAL_AVAILABILITY"
  shows "pp_stage p = GENERAL_AVAILABILITY \<or> call = P_review \<and> gar_approved (fst (review_general_availability dg p))"
  using assms by (cases call) (auto simp: pilot_ops pilot_approve_def Let_def require_def split: if_splits elim: next_stage.elims)

text \<open>General availability comes only from an approved review.\<close>

lemma reviewed:
  assumes "pp_stage (foldl (pilot_step dg) (new_pilot w c) calls) = GENERAL_AVAILABILITY"
  shows "\<exists>before after. calls = before @ P_review # after
    \<and> gar_approved (fst (review_general_availability dg (foldl (pilot_step dg) (new_pilot w c) before)))"
  using assms
proof (induction calls rule: rev_induct)
  case Nil
  then show ?case by (simp add: new_pilot_def)
next
  case (snoc call calls)
  let ?p = "foldl (pilot_step dg) (new_pilot w c) calls"
  show ?case
  proof (cases "call = P_review \<and> gar_approved (fst (review_general_availability dg ?p))")
    case True
    then show ?thesis by blast
  next
    case False
    then have "pp_stage ?p = GENERAL_AVAILABILITY"
      using snoc.prems stage_step [of dg ?p call] by auto
    then show ?thesis using snoc.IH by (metis append.assoc append_Cons)
  qed
qed

lemma approvals_given:
  assumes "approvals_ok dg p" and "concat (map (approval_failures dg p) (sort_key approval_role_value approval_roles)) = []"
  shows "\<exists>approver. inj approver \<and> (\<forall>role. \<exists>a. map_of (pp_approvals p) role = Some a \<and> pa_approved a \<and> pa_approver a = approver role
      \<and> pa_evidence_fingerprint a = dg_evidence dg (evidence_of p))"
proof -
  have none: "approval_failures dg p role = []" for role
    using assms(2) approval_role_enum.members_all [of role] by auto
  have all: "\<exists>a. map_of (pp_approvals p) role = Some a \<and> pa_approved a \<and> pa_evidence_fingerprint a = dg_evidence dg (evidence_of p)" for role
    using none [of role] unfolding approval_failures_def by (auto split: option.splits if_splits)
  have pair: "r = r'" if "(r, a) \<in> set (pp_approvals p)" "(r', a') \<in> set (pp_approvals p)" "pa_approver a = pa_approver a'" for r a r' a'
    using assms(1) that unfolding approvals_ok_def by blast
  let ?f = "\<lambda>role. pa_approver (the (map_of (pp_approvals p) role))"
  have "inj ?f"
  proof (rule injI)
    fix r r' assume e: "?f r = ?f r'"
    obtain a a' where "map_of (pp_approvals p) r = Some a" "map_of (pp_approvals p) r' = Some a'" using all by blast
    then show "r = r'" using e by (intro pair [of r a r' a']) (simp_all add: map_of_SomeD)
  qed
  moreover have "\<exists>a. map_of (pp_approvals p) role = Some a \<and> pa_approved a \<and> pa_approver a = ?f role
      \<and> pa_evidence_fingerprint a = dg_evidence dg (evidence_of p)" for role
    using all [of role] by auto
  ultimately show ?thesis by blast
qed

text \<open>What it means that no test of the canary evidence fails.\<close>

lemma canary_passed:
  assumes "canary_failures c xs = []" and "xs \<noteq> []"
  shows "\<exists>x\<in>set xs. \<exists>y\<in>set xs. pcr_minimum_duration_days c \<le> oo_day y - oo_day x + 1"
    and "average (\<lambda>x. if oo_failed x then 1 else 0) xs \<le> pcr_maximum_failure_rate c"
    and "pcr_minimum_business_value c \<le> average oo_business_value xs"
    and "sort (map oo_latency_ms xs) ! p95_index (length xs) \<le> pcr_maximum_p95_latency_ms c"
    and "average oo_cost xs \<le> pcr_maximum_cost_per_case c"
    and "pcr_require_delayed_outcomes c \<longrightarrow> (\<forall>x\<in>set xs. oo_delayed_outcome x \<noteq> None)"
    and "pcr_require_operator_feedback c \<longrightarrow> (\<forall>x\<in>set xs. \<exists>f. oo_operator_feedback x = Some f \<and> \<not> blank f)"
proof -
  have "Max (oo_day ` set xs) \<in> oo_day ` set xs" "Min (oo_day ` set xs) \<in> oo_day ` set xs" using assms(2) by simp_all
  moreover have "pcr_minimum_duration_days c \<le> Max (oo_day ` set xs) - Min (oo_day ` set xs) + 1"
    using assms(1) by (simp add: canary_failures_def)
  ultimately show "\<exists>x\<in>set xs. \<exists>y\<in>set xs. pcr_minimum_duration_days c \<le> oo_day y - oo_day x + 1" by force
  show "pcr_require_operator_feedback c \<longrightarrow> (\<forall>x\<in>set xs. \<exists>f. oo_operator_feedback x = Some f \<and> \<not> blank f)"
    using assms(1) by (auto simp: canary_failures_def list_ex_iff split: option.splits)
qed (use assms(1) in \<open>auto simp: canary_failures_def list_ex_iff\<close>)

text \<open>
  C39: General availability is earned: when a rollout reaches it, by whatever calls, there was a review
  at which the shadow stage had evidence without a failure; the external observations of the canary
  were as many and spread over as many days as the criteria ask, their failure rate, mean value,
  95th percentile of latency and mean cost met the criteria, with a mean value above the frozen
  baseline, and their delayed outcomes and operator feedback were complete where required; every
  required exercise had passed, the readiness package was complete, and every role had approved
  that very evidence, no two by the same person.
\<close>

theorem general_availability_earned:
  assumes "PilotCriteria_post_init c = Inr c"
    and "pp_stage (foldl (pilot_step dg) (new_pilot w c) calls) = GENERAL_AVAILABILITY"
  shows "\<exists>before after p external. calls = before @ P_review # after \<and> p = foldl (pilot_step dg) (new_pilot w c) before
    \<and> shadow_passed p \<and> external = filter oo_external (at_stage LIMITED_CANARY p)
    \<and> pcr_minimum_observations c \<le> int (length external)
    \<and> (\<exists>x\<in>set external. \<exists>y\<in>set external. pcr_minimum_duration_days c \<le> oo_day y - oo_day x + 1)
    \<and> average (\<lambda>x. if oo_failed x then 1 else 0) external \<le> pcr_maximum_failure_rate c
    \<and> pcr_minimum_business_value c \<le> average oo_business_value external
    \<and> pcr_baseline_value c < average oo_business_value external
    \<and> sort (map oo_latency_ms external) ! p95_index (length external) \<le> pcr_maximum_p95_latency_ms c
    \<and> average oo_cost external \<le> pcr_maximum_cost_per_case c
    \<and> (pcr_require_delayed_outcomes c \<longrightarrow> (\<forall>x\<in>set external. oo_delayed_outcome x \<noteq> None))
    \<and> (pcr_require_operator_feedback c \<longrightarrow> (\<forall>x\<in>set external. \<exists>f. oo_operator_feedback x = Some f \<and> \<not> blank f))
    \<and> (\<exists>r. pp_readiness p = Some r \<and> readiness_complete r)
    \<and> (\<forall>kind. \<exists>r. (kind, r) \<in> set (pp_exercises p) \<and> exr_passed r)
    \<and> (\<exists>approver. inj approver \<and> (\<forall>role. \<exists>a. map_of (pp_approvals p) role = Some a \<and> pa_approved a \<and> pa_approver a = approver role
        \<and> pa_evidence_fingerprint a = dg_evidence dg (evidence_of p)))"
proof -
  obtain before after where b: "calls = before @ P_review # after"
    and r: "gar_approved (fst (review_general_availability dg (foldl (pilot_step dg) (new_pilot w c) before)))"
    using reviewed [OF assms(2)] by blast
  define p where "p = foldl (pilot_step dg) (new_pilot w c) before"
  define external where "external = filter oo_external (at_stage LIMITED_CANARY p)"
  have "pilot_inv dg w c (new_pilot w c)" by (simp add: pilot_inv_def new_pilot_def)
  then have inv: "pilot_inv dg w c p" unfolding p_def by (rule pilot.run_keeps) (simp add: list_all_iff)
  then have c: "pp_criteria p = c" by (simp add: pilot_inv_def)
  have e: "evidence_failures p = []" and a: "concat (map (approval_failures dg p) (sort_key approval_role_value approval_roles)) = []"
    using r unfolding p_def [symmetric] review_general_availability_def Let_def by simp_all
  have stage: "pp_stage p \<in> {LIMITED_CANARY, GENERAL_AVAILABILITY}" using e by (auto simp: evidence_failures_def split: if_splits)
  have n: "pcr_minimum_observations c \<le> int (length external)"
    using e stage unfolding evidence_failures_def by (cases "pp_stage p") (simp_all add: Let_def external_def c)
  then have ne: "external \<noteq> []" using assms(1) by (auto simp: PilotCriteria_post_init_def)
  then have t: "canary_failures c external = []" and o': "\<exists>r. pp_readiness p = Some r \<and> readiness_complete r"
    and x: "list_all (\<lambda>k. list_ex (\<lambda>(k', r). k' = k \<and> exr_passed r) (pp_exercises p)) exercise_kinds"
    using e stage unfolding evidence_failures_def
    by (cases "pp_stage p"; simp add: Let_def external_def [symmetric] c split: option.splits)+
  have "\<exists>r. (kind, r) \<in> set (pp_exercises p) \<and> exr_passed r" for kind
    using x exercise_kind_enum.members_all [of kind] by (auto simp: list_all_iff list_ex_iff)
  moreover note canary_passed [OF t ne] o'
  moreover from this have "pcr_baseline_value c < average oo_business_value external"
    using assms(1) by (simp add: PilotCriteria_post_init_def)
  moreover have "shadow_passed p" using inv stage unfolding pilot_inv_def by blast
  moreover note approvals_given [OF _ a] n
  ultimately show ?thesis using b inv p_def external_def unfolding pilot_inv_def by blast
qed

definition demo_workflow :: workflow_profile where
  "demo_workflow = \<lparr>wp_workflow_id = ''w'', wp_version = ''1'', wp_domain = ''d'', wp_domain_owner = ''o'', wp_reversible = True,
     wp_outcome_measurable = True, wp_critical = False, wp_system_fingerprint = ''f'', wp_data_classification = ''c'', wp_rollback_target = ''r''\<rparr>"

definition demo_criteria :: pilot_criteria where
  "demo_criteria = \<lparr>pcr_baseline_value = 0, pcr_minimum_business_value = 1, pcr_maximum_failure_rate = 0, pcr_maximum_p95_latency_ms = 9,
     pcr_maximum_cost_per_case = 9, pcr_minimum_observations = 1, pcr_minimum_duration_days = 1, pcr_require_delayed_outcomes = True,
     pcr_require_operator_feedback = True\<rparr>"

definition demo_observation :: "string \<Rightarrow> rollout_stage \<Rightarrow> outcome_observation" where
  "demo_observation i st = \<lparr>oo_observation_id = i, oo_stage = st, oo_day = 3, oo_business_value = 2, oo_failed = False, oo_latency_ms = 5,
     oo_cost = 1, oo_operator_feedback = Some ''ok'', oo_delayed_outcome = Some 1, oo_source = ''s'', oo_external = True\<rparr>"

definition demo_digests :: digests where
  "demo_digests = \<lparr>dg_workflow = (\<lambda>_. ''w''), dg_evidence = (\<lambda>_. ''e'')\<rparr>"

definition demo_rollout :: "pilot_call list" where
  "demo_rollout =
     [P_outcome (demo_observation ''a'' OFFLINE_REPLAY), P_promote SHADOW, P_outcome (demo_observation ''b'' SHADOW), P_promote LIMITED_CANARY,
      P_outcome (demo_observation ''c'' LIMITED_CANARY)]
     @ map (\<lambda>k. P_exercise \<lparr>exr_kind = k, exr_exercised_by = ''x'', exr_evidence_uri = ''u'', exr_passed = True\<rparr>) exercise_kinds
     @ [P_ready \<lparr>opr_capacity_plan = ''a'', opr_cost_plan = ''b'', opr_support_model = ''c'', opr_upgrade_policy = ''d'',
          opr_deprecation_policy = ''e'', opr_customer_documentation = ''f''\<rparr>]
     @ map (\<lambda>r. P_approve r (approval_role_value r) True) approval_roles @ [P_review]"

lemma demo_rollout_available:
  "pp_stage (foldl (pilot_step demo_digests) (new_pilot demo_workflow demo_criteria) demo_rollout) = GENERAL_AVAILABILITY"
  by code_simp

theorem general_availability_earned_witness:
  "\<exists>before after. demo_rollout = before @ P_review # after
     \<and> shadow_passed (foldl (pilot_step demo_digests) (new_pilot demo_workflow demo_criteria) before)"
proof -
  have "PilotCriteria_post_init demo_criteria = Inr demo_criteria" by (simp add: PilotCriteria_post_init_def demo_criteria_def)
  from general_availability_earned [OF this demo_rollout_available] show ?thesis by blast
qed

text \<open>Rolling back a program that is still offline moves it to the shadow stage, without any evidence.\<close>

lemma rollback_skips_offline:
  "pp_stage (pilot_step dg (new_pilot w c) P_rollback) = SHADOW \<and> pp_observations (pilot_step dg (new_pilot w c) P_rollback) = []"
  by (simp add: pilot_step_def pilot_rollback_def new_pilot_def)

text \<open>A later review that fails leaves the program generally available.\<close>

lemma failed_review_keeps_stage:
  "\<not> gar_approved (fst (review_general_availability dg p)) \<Longrightarrow> pp_stage (snd (review_general_availability dg p)) = pp_stage p"
  by (auto simp: review_general_availability_def Let_def)

end
