(* ===== verification/Evaluation_Suite.thy ===== *)
theory Evaluation_Suite
  imports Enterprise
begin

text \<open>
  The evaluation suite (\<open>observability/evaluation.py\<close>) and the failure taxonomy
  (\<open>observability/failure.py\<close>): statistics of trials, the correction for multiple comparisons,
  regressions and tolerances; classification of failures, their handling and alerts. Floating-point
  arithmetic is exact here, and an effect size may be infinite.
\<close>

declare map_of_eq_Some_iff [simp del] Some_eq_map_of_iff [simp del]

section \<open>Records\<close>

datatype metric_class = CLASS_1_FUNCTIONAL | CLASS_2_ADAPTABILITY | CLASS_3_EFFICIENCY | CLASS_4_LEARNING

datatype result_classification = WIN | LOSS | TIE | INCONCLUSIVE

fun result_classification_value :: "result_classification \<Rightarrow> string" where
  "result_classification_value WIN = ''WIN''"
| "result_classification_value LOSS = ''LOSS''"
| "result_classification_value TIE = ''TIE''"
| "result_classification_value INCONCLUSIVE = ''INCONCLUSIVE''"

record metric_result =
  mr_metric_name :: string
  mr_metric_class :: metric_class
  mr_dnc_value :: real
  mr_baseline_value :: real
  mr_p_value :: real
  mr_effect_size :: pyfloat
  mr_classification :: result_classification

record evaluation_scenario =
  esc_scenario_id :: string
  esc_task_class :: string
  esc_task_description :: string
  esc_input_distribution :: string
  esc_expected_output_spec :: string
  esc_baseline_implementations :: "string list"
  esc_success_criteria :: string

record evaluation_run =
  er_run_id :: string
  er_scenario_id :: string
  er_runtime_under_test :: string
  er_baseline_ids :: "string list"
  er_metric_results :: "metric_result list"
  er_timestamp :: real

datatype evaluation_stage = EV_SMOKE | EV_INTEGRATION | EV_FULL | EV_ASYNC

record evaluation_suite =
  evs_scenarios :: "(string, evaluation_scenario) dict"
  evs_history :: "evaluation_run list"

definition new_suite :: evaluation_suite where
  "new_suite = \<lparr>evs_scenarios = [], evs_history = []\<rparr>"

definition register_scenario :: "evaluation_scenario \<Rightarrow> evaluation_suite \<Rightarrow> evaluation_suite" where
  "register_scenario x s = s\<lparr>evs_scenarios := dict_set (esc_scenario_id x) x (evs_scenarios s)\<rparr>"

section \<open>Statistics\<close>

definition approximate_p :: "real \<Rightarrow> int \<Rightarrow> real" where
  "approximate_p t_stat df0 =
     (let x = \<bar>t_stat\<bar> in
      if x \<le> 0 then 1
      else (let df = (if df0 \<le> 0 then max 1 \<lfloor>2 * x\<rfloor> else df0);
                z = x / sqrt (1 + x ^ 2 / real_of_int df);
                p = exp (- 1/2 * z ^ 2) / sqrt (2 * pi);
                p' = min (p * (1 + z ^ 2 / real_of_int df)) 1
            in max 0 (min 1 (2 * p'))))"

definition sample_mean :: "real list \<Rightarrow> real" where
  "sample_mean xs = (if xs = [] then 0 else sum_list xs / real (length xs))"

definition sample_variance :: "real list \<Rightarrow> real" where
  "sample_variance xs = sum_list (map (\<lambda>v. (v - sample_mean xs) ^ 2) xs) / real_of_int (max (int (length xs) - 1) 1)"

definition cohens_d :: "real list \<Rightarrow> real list \<Rightarrow> pyfloat" where
  "cohens_d xs ys =
     (let m = sample_mean xs; b = sample_mean ys; s = sqrt (sample_variance xs); t = sqrt (sample_variance ys) in
      if length xs + length ys > 0 \<and> s + t > 0 then Fin ((m - b) / ((s + t) / 2))
      else if m \<noteq> b then (if m - b > 0 then PosInf else NegInf)
      else Fin 0)"

definition welch_p :: "real list \<Rightarrow> real list \<Rightarrow> real" where
  "welch_p xs ys =
     (let n = length xs; k = length ys; m = sample_mean xs; b = sample_mean ys; s = sqrt (sample_variance xs); t = sqrt (sample_variance ys) in
      if s = 0 \<and> t = 0 \<and> m \<noteq> b then 0
      else if s > 0 \<and> t > 0 \<and> n > 1 \<and> k > 1
      then (let se = sqrt (s ^ 2 / real n + t ^ 2 / real k)
            in if se > 0 then approximate_p ((m - b) / se) (int n + int k - 2) else 1)
      else 1)"

definition compute_statistics :: "real list \<Rightarrow> real list \<Rightarrow> real \<times> real \<times> real \<times> pyfloat" where
  "compute_statistics xs ys =
     (if length xs = 0 then (0, 0, 1, Fin 0) else (sample_mean xs, sqrt (sample_variance xs), welch_p xs ys, cohens_d xs ys))"

definition classify_result :: "real \<Rightarrow> pyfloat \<Rightarrow> result_classification" where
  "classify_result p effect = (if p \<ge> 5/100 then TIE else if flt_less (Fin 0) effect then WIN else LOSS)"

section \<open>Multiple comparisons\<close>

definition by_class :: "metric_result list \<Rightarrow> (metric_class, metric_result list) dict" where
  "by_class rs =
     foldl (\<lambda>d r. dict_set (mr_metric_class r) ((case map_of d (mr_metric_class r) of None \<Rightarrow> [] | Some xs \<Rightarrow> xs) @ [r]) d) [] rs"

definition adjust :: "nat \<Rightarrow> nat \<times> metric_result \<Rightarrow> metric_result" where
  "adjust k ir =
     (case ir of (i, r) \<Rightarrow>
        (let p = min (mr_p_value r * (real k - real i)) 1
         in r\<lparr>mr_p_value := p, mr_classification := classify_result p (mr_effect_size r)\<rparr>))"

definition holm_bonferroni :: "metric_result list \<Rightarrow> metric_result list" where
  "holm_bonferroni rs =
     concat (map (\<lambda>(_, xs). let ys = sort_key mr_p_value xs in map (adjust (length ys)) (enumerate 0 ys)) (by_class rs))"

definition detect_regression ::
  "evaluation_run \<Rightarrow> (string, (string, result_classification) dict) dict \<Rightarrow> (string \<times> string \<times> string) list" where
  "detect_regression run prior =
     concat (map (\<lambda>r.
       let before = (case map_of (case map_of prior (er_scenario_id run) of None \<Rightarrow> [] | Some d \<Rightarrow> d) (mr_metric_name r) of
                       None \<Rightarrow> TIE | Some c \<Rightarrow> c)
       in if before \<in> {WIN, TIE} \<and> mr_classification r = LOSS
          then [(er_scenario_id run, mr_metric_name r, result_classification_value before)] else [])
       (er_metric_results run))"

definition stage_for_update :: "string \<Rightarrow> evaluation_stage" where
  "stage_for_update t =
     (case map_of [(''rollback'', EV_SMOKE), (''parameter_tweak'', EV_SMOKE), (''cost_estimate_change'', EV_SMOKE), (''security_patch'', EV_SMOKE),
        (''module_parameter_change'', EV_INTEGRATION), (''graph_template_change'', EV_INTEGRATION), (''new_module_type'', EV_FULL),
        (''new_planner_algorithm'', EV_FULL), (''new_module_added'', EV_FULL)] t of
        None \<Rightarrow> EV_INTEGRATION | Some s \<Rightarrow> s)"

text \<open>The values that are compared are numbers, or lists where a caller passes them.\<close>

datatype metric_value = Num real | Vec "real list"

fun degradation_loop :: "(string \<times> metric_value) list \<Rightarrow> (string, metric_value) dict \<Rightarrow> bool res" where
  "degradation_loop [] updated = Inr True"
| "degradation_loop ((metric, baseline) # rest) updated =
     (let new = (case map_of updated metric of None \<Rightarrow> baseline | Some v \<Rightarrow> v) in
      if baseline = Num 0 then (if new \<noteq> Num 0 then Inr False else degradation_loop rest updated)
      else (case (new, baseline) of
              (Num u, Num b) \<Rightarrow> if \<bar>u - b\<bar> / \<bar>b\<bar> > 5/100 then Inr False else degradation_loop rest updated
            | _ \<Rightarrow> Inl (TypeError ''unsupported operand type(s) for -'')))"

definition degradation_within_tolerance :: "(string, metric_value) dict \<Rightarrow> (string, metric_value) dict \<Rightarrow> bool res" where
  "degradation_within_tolerance baseline updated = degradation_loop baseline updated"

section \<open>Failures\<close>

datatype failure_classification =
  FAILURE_TRANSIENT | FAILURE_RECOVERABLE | FAILURE_UNRECOVERABLE | FAILURE_FATAL | FAILURE_CATASTROPHIC | INVALID_OUTPUT | PARTIAL_FAILURE

datatype failure_signal =
  FS_TIMEOUT | FS_RESOURCE_EXHAUSTED | FS_INVALID_OUTPUT | FS_CONTRACT_VIOLATION | FS_PANIC | FS_RETRY_EXHAUSTED
  | FS_ERROR_CORRECTION_SUCCEEDED | FS_ERROR_CORRECTION_FAILED | FS_GPU_RECOVERY

fun SIGNAL_TO_CLASSIFICATION :: "failure_signal \<Rightarrow> failure_classification" where
  "SIGNAL_TO_CLASSIFICATION FS_TIMEOUT = FAILURE_TRANSIENT"
| "SIGNAL_TO_CLASSIFICATION FS_RESOURCE_EXHAUSTED = FAILURE_RECOVERABLE"
| "SIGNAL_TO_CLASSIFICATION FS_INVALID_OUTPUT = INVALID_OUTPUT"
| "SIGNAL_TO_CLASSIFICATION FS_CONTRACT_VIOLATION = FAILURE_FATAL"
| "SIGNAL_TO_CLASSIFICATION FS_PANIC = FAILURE_FATAL"
| "SIGNAL_TO_CLASSIFICATION FS_RETRY_EXHAUSTED = FAILURE_RECOVERABLE"
| "SIGNAL_TO_CLASSIFICATION FS_ERROR_CORRECTION_SUCCEEDED = FAILURE_RECOVERABLE"
| "SIGNAL_TO_CLASSIFICATION FS_ERROR_CORRECTION_FAILED = FAILURE_UNRECOVERABLE"
| "SIGNAL_TO_CLASSIFICATION FS_GPU_RECOVERY = FAILURE_RECOVERABLE"

text \<open>A module instance is given by its string form, under which failures are counted.\<close>

record failure_record =
  fr_module_instance_id :: string
  fr_signal :: failure_signal
  fr_classification :: failure_classification
  fr_step_index :: int
  fr_payload :: "(string, pyval) dict"

record failure_classifier =
  fc_failure_counts :: "(string, nat) dict"
  fc_module_failure_rates :: "(string, real) dict"

definition new_classifier :: failure_classifier where
  "new_classifier = \<lparr>fc_failure_counts = [], fc_module_failure_rates = []\<rparr>"

definition MAX_TRANSIENT_RETRIES :: nat where
  "MAX_TRANSIENT_RETRIES = 3"

definition count_of :: "string \<Rightarrow> failure_classifier \<Rightarrow> nat" where
  "count_of key f = (case map_of (fc_failure_counts f) key of None \<Rightarrow> 0 | Some n \<Rightarrow> n)"

definition increment_retry_count :: "string \<Rightarrow> failure_classifier \<Rightarrow> nat \<times> failure_classifier" where
  "increment_retry_count key f =
     (let n = count_of key f + 1 in (n, f\<lparr>fc_failure_counts := dict_set key n (fc_failure_counts f)\<rparr>))"

definition classify_failure ::
  "string \<Rightarrow> failure_signal \<Rightarrow> int \<Rightarrow> (string, pyval) dict \<Rightarrow> failure_classifier \<Rightarrow> failure_record \<times> failure_classifier" where
  "classify_failure module_id signal step payload f =
     (let (c, f') =
        (if signal = FS_TIMEOUT
         then (let (n, f') = increment_retry_count module_id f
               in (if n \<ge> MAX_TRANSIENT_RETRIES then FAILURE_UNRECOVERABLE else FAILURE_TRANSIENT, f'))
         else (SIGNAL_TO_CLASSIFICATION signal, f))
      in (\<lparr>fr_module_instance_id = module_id, fr_signal = signal, fr_classification = c, fr_step_index = step, fr_payload = payload\<rparr>, f'))"

definition record_failure :: "string \<Rightarrow> int \<Rightarrow> failure_classifier \<Rightarrow> failure_classifier" where
  "record_failure key invocations f =
     (let n = count_of key f + 1; f' = f\<lparr>fc_failure_counts := dict_set key n (fc_failure_counts f)\<rparr>
      in if invocations > 0 then f'\<lparr>fc_module_failure_rates := dict_set key (real n / real_of_int invocations) (fc_module_failure_rates f)\<rparr> else f')"

definition get_failure_rate :: "string \<Rightarrow> failure_classifier \<Rightarrow> real" where
  "get_failure_rate key f = (case map_of (fc_module_failure_rates f) key of None \<Rightarrow> 0 | Some r \<Rightarrow> r)"

fun handle_failure :: "failure_classification \<Rightarrow> string" where
  "handle_failure FAILURE_TRANSIENT = ''RETRY''"
| "handle_failure FAILURE_RECOVERABLE = ''RECOVER''"
| "handle_failure FAILURE_UNRECOVERABLE = ''TRIGGER_REPLAN''"
| "handle_failure FAILURE_FATAL = ''TRIGGER_REPLAN_AUDIT''"
| "handle_failure FAILURE_CATASTROPHIC = ''HALT_ALL''"
| "handle_failure INVALID_OUTPUT = ''TRIGGER_REPLAN''"
| "handle_failure PARTIAL_FAILURE = ''MAJORITY_VOTE''"

datatype alert_severity = P1_CRITICAL | P2_HIGH | P3_MEDIUM | P4_LOW

definition determine_severity :: "failure_record \<Rightarrow> real \<Rightarrow> real \<Rightarrow> alert_severity" where
  "determine_severity r failure_rate retry_rate =
     (if fr_classification r = FAILURE_CATASTROPHIC then P1_CRITICAL
      else if failure_rate > 5/100 then P1_CRITICAL
      else if failure_rate > 1/100 then P2_HIGH
      else if retry_rate > 1/2 \<and> fr_classification r = FAILURE_TRANSIENT then P2_HIGH
      else if failure_rate > 1/1000 then P3_MEDIUM
      else P4_LOW)"

fun get_runbook_trigger :: "alert_severity \<Rightarrow> string" where
  "get_runbook_trigger P1_CRITICAL = ''CATASTROPHIC_RUNBOOK''"
| "get_runbook_trigger P2_HIGH = ''UNRECOVERABLE_RUNBOOK''"
| "get_runbook_trigger P3_MEDIUM = ''RECOVERABLE_RUNBOOK''"
| "get_runbook_trigger P4_LOW = ''LOG_ONLY''"

section \<open>What the statistics guarantee\<close>

lemma approximate_p_bounds: "0 \<le> approximate_p t df \<and> approximate_p t df \<le> 1"
  by (simp add: approximate_p_def Let_def)

lemma statistics_p_bounds:
  assumes "compute_statistics xs ys = (m, s, p, d)"
  shows "0 \<le> p \<and> p \<le> 1 \<and> 0 \<le> s"
proof -
  have "0 \<le> sum_list (map (\<lambda>v. (v - sample_mean xs) ^ 2) xs)" by (rule sum_list_nonneg) auto
  then have "0 \<le> sample_variance xs" by (simp add: sample_variance_def)
  moreover have "0 \<le> welch_p xs ys \<and> welch_p xs ys \<le> 1" using approximate_p_bounds by (simp add: welch_p_def Let_def)
  ultimately show ?thesis using assms by (auto simp: compute_statistics_def split: if_splits)
qed

text \<open>The correction keeps every result, once, and never lowers a p-value.\<close>

definition unadjusted :: "metric_result \<Rightarrow> string \<times> metric_class \<times> real \<times> real \<times> pyfloat" where
  "unadjusted r = (mr_metric_name r, mr_metric_class r, mr_dnc_value r, mr_baseline_value r, mr_effect_size r)"

lemma mset_dict_set_append:
  assumes "dict_ok d"
  shows "mset (concat (map snd (dict_set k ((case map_of d k of None \<Rightarrow> [] | Some xs \<Rightarrow> xs) @ [r]) d))) = mset (concat (map snd d)) + {#r#}"
  using assms
proof (induction d)
  case (Cons kv d)
  obtain k' xs where kv: "kv = (k', xs)" by fastforce
  show ?case
  proof (cases "k' = k")
    case True
    then show ?thesis by (simp add: kv)
  next
    case False
    then show ?thesis using Cons by (simp add: kv)
  qed
qed simp

lemma by_class_mset: "mset (concat (map snd (by_class rs))) = mset rs \<and> dict_ok (by_class rs)"
proof (induction rs rule: rev_induct)
  case Nil
  then show ?case by (simp add: by_class_def)
next
  case (snoc r rs)
  have "by_class (rs @ [r]) = dict_set (mr_metric_class r) ((case map_of (by_class rs) (mr_metric_class r) of None \<Rightarrow> [] | Some xs \<Rightarrow> xs) @ [r]) (by_class rs)"
    by (simp add: by_class_def)
  then show ?case using snoc mset_dict_set_append [of "by_class rs" "mr_metric_class r" r] by simp
qed

lemma adjust_fields [simp]: "unadjusted (adjust k (i, r)) = unadjusted r"
  by (simp add: adjust_def unadjusted_def Let_def)

lemma map_adjust_enumerate: "map unadjusted (map (adjust k) (enumerate i ys)) = map unadjusted ys"
  by (induction ys arbitrary: i) simp_all

lemma holm_keeps_results: "mset (map unadjusted (holm_bonferroni rs)) = mset (map unadjusted rs)"
proof -
  have "mset (map unadjusted (map (adjust (length xs)) (enumerate 0 (sort_key mr_p_value xs)))) = mset (map unadjusted xs)" for xs
    unfolding map_adjust_enumerate by simp
  then have one: "image_mset unadjusted (image_mset (adjust (length xs)) (mset (enumerate 0 (sort_key mr_p_value xs)))) = image_mset unadjusted (mset xs)" for xs
    by (simp only: mset_map)
  have "mset (map unadjusted (concat (map (\<lambda>(_, xs). let ys = sort_key mr_p_value xs in map (adjust (length ys)) (enumerate 0 ys)) d)))
      = mset (map unadjusted (concat (map snd d)))" for d :: "(metric_class, metric_result list) dict"
    by (induction d) (auto simp: Let_def one)
  then have "mset (map unadjusted (holm_bonferroni rs)) = image_mset unadjusted (mset (concat (map snd (by_class rs))))"
    by (simp add: holm_bonferroni_def)
  then show ?thesis using by_class_mset [of rs] by simp
qed

text \<open>
  A step-down correction rejects no hypothesis after the first that it retains; here the second of two
  results can win although the first, with the smaller p-value, does not.
\<close>

definition demo_metric :: "string \<Rightarrow> real \<Rightarrow> metric_result" where
  "demo_metric name p = \<lparr>mr_metric_name = name, mr_metric_class = CLASS_1_FUNCTIONAL, mr_dnc_value = 1, mr_baseline_value = 0, mr_p_value = p,
     mr_effect_size = Fin 1, mr_classification = TIE\<rparr>"

lemma holm_not_step_down:
  "map (\<lambda>r. (mr_metric_name r, mr_classification r)) (holm_bonferroni [demo_metric ''a'' (3/100), demo_metric ''b'' (4/100)])
     = [(''a'', TIE), (''b'', WIN)]"
  by (simp add: holm_bonferroni_def by_class_def demo_metric_def adjust_def classify_result_def Let_def)

text \<open>A vector is not a number: comparing two of them raises.\<close>

lemma degradation_of_vectors: "degradation_within_tolerance [(k, Vec v)] [(k, Vec w)] = Inl (TypeError ''unsupported operand type(s) for -'')"
  by (simp add: degradation_within_tolerance_def)

section \<open>Failures are retried a bounded number of times\<close>

datatype failure_call = FC_classify string failure_signal int | FC_record string int

definition failure_step :: "failure_classifier \<Rightarrow> failure_call \<Rightarrow> failure_classifier" where
  "failure_step f c =
     (case c of FC_classify m s i \<Rightarrow> snd (classify_failure m s i [] f) | FC_record k n \<Rightarrow> record_failure k n f)"

lemma failure_step_count:
  "count_of k (failure_step f c) =
     count_of k f + (case c of FC_classify m s i \<Rightarrow> if m = k \<and> s = FS_TIMEOUT then 1 else 0 | FC_record m n \<Rightarrow> if m = k then 1 else 0)"
  by (auto simp: failure_step_def classify_failure_def increment_retry_count_def record_failure_def count_of_def Let_def split: failure_call.split)

text \<open>The third time-out of a module is unrecoverable, whatever has happened in between.\<close>

interpretation exhausted: guarded_machine failure_step "\<lambda>_. True" "\<lambda>f. MAX_TRANSIENT_RETRIES \<le> count_of k f + 1" for k
  by unfold_locales (simp add: failure_step_count)

lemma timeouts_exhausted:
  assumes "MAX_TRANSIENT_RETRIES \<le> count_of m f + 1"
  shows "handle_failure (fr_classification (fst (classify_failure m FS_TIMEOUT i p (foldl failure_step f calls)))) = ''TRIGGER_REPLAN''"
proof -
  have "MAX_TRANSIENT_RETRIES \<le> count_of m (foldl failure_step f calls) + 1"
    using assms by (intro exhausted.run_keeps) (simp_all add: list_all_iff)
  then show ?thesis by (simp add: classify_failure_def increment_retry_count_def Let_def)
qed

end
