(* ===== verification/Continual.thy ===== *)
theory Continual
  imports Evaluation_Suite Provenance
begin

text \<open>
  Continual learning (\<open>learning/continual.py\<close>): the versioned knowledge base, the check of behavioural
  drift over a representative sample, the verification protocol with its circuit breaker, candidate
  updates, and the search for the version that caused a violation. The values of modules and costs
  are real numbers, plans are a parameter of the types, and readings of the clock are arguments.
\<close>

declare map_of_eq_Some_iff [simp del] Some_eq_map_of_iff [simp del]

section \<open>The knowledge base\<close>

text \<open>What a learning event proposes: a plan, if any, module and cost values, and anything else.\<close>

record 'p learning_summary =
  lsm_plan :: "'p option"
  lsm_modules :: "(string, real) dict"
  lsm_costs :: "(string, real) dict"
  lsm_other :: "(string, pyval) dict"

datatype 'p plan_entry = Template 'p | Novel_template "'p learning_summary"

record 'p learning_event =
  lev_event_id :: string
  lev_trigger_execution_id :: string
  lev_trigger_step :: int
  lev_observed_outcome :: pyval
  lev_expected_outcome :: pyval
  lev_delta_quality :: real
  lev_is_novel :: bool
  lev_candidate_update_summary :: "'p learning_summary"

record 'p kb_content =
  KB_modules :: "(string, real) dict"
  KB_plans :: "(string, 'p plan_entry) dict"
  KB_costs :: "(string, real) dict"

record 'p knowledge_base =
  kb_version :: int
  kb_current :: "'p kb_content"
  kb_versions :: "(int, 'p kb_content) dict"

definition empty_content :: "'p kb_content" where
  "empty_content = \<lparr>KB_modules = [], KB_plans = [], KB_costs = []\<rparr>"

definition new_kb :: "'p knowledge_base" where
  "new_kb = \<lparr>kb_version = 0, kb_current = empty_content, kb_versions = []\<rparr>"

definition kb_commit :: "'p knowledge_base \<Rightarrow> int \<times> 'p knowledge_base" where
  "kb_commit kb =
     (let v = kb_version kb + 1 in (v, kb\<lparr>kb_version := v, kb_versions := dict_set v (kb_current kb) (kb_versions kb)\<rparr>))"

definition get_version :: "int \<Rightarrow> 'p knowledge_base \<Rightarrow> 'p kb_content res" where
  "get_version v kb =
     (case map_of (kb_versions kb) v of None \<Rightarrow> Inl (KeyError (''KB version '' @ show_int v @ '' not found'')) | Some s \<Rightarrow> Inr s)"

definition kb_rollback_to :: "int \<Rightarrow> 'p knowledge_base \<Rightarrow> 'p knowledge_base res" where
  "kb_rollback_to v kb = (case get_version v kb of Inl e \<Rightarrow> Inl e | Inr s \<Rightarrow> Inr (kb\<lparr>kb_current := s, kb_version := v\<rparr>))"

section \<open>Drift\<close>

record drift_execution =
  xrc_execution_id :: string
  xrc_task_class :: string
  xrc_metric_vector :: "real list"
  xrc_timestamp :: real

record drift_checker =
  dc_history :: "drift_execution list"
  dc_sample :: "nat set"
  dc_centers :: "real list list"
  dc_assignments :: "nat list"

definition new_drift_checker :: drift_checker where
  "new_drift_checker = \<lparr>dc_history = [], dc_sample = {}, dc_centers = [], dc_assignments = []\<rparr>"

definition K_CLUSTERS :: nat where
  "K_CLUSTERS = 10"

definition MAX_DRIFT_CHECK_SAMPLES :: nat where
  "MAX_DRIFT_CHECK_SAMPLES = 100"

definition sigma_of :: "nat \<Rightarrow> real list list \<Rightarrow> real" where
  "sigma_of d vs =
     (let col = map (\<lambda>v. v ! d) (filter (\<lambda>v. length v > d) vs) in
      if length col > 1
      then (let mean = sum_list col / real (length col); variance = sum_list (map (\<lambda>x. (x - mean) ^ 2) col) / real (length col)
            in if variance > 0 then sqrt variance else 1)
      else 1)"

definition euclidean_normalized :: "real list \<Rightarrow> real list \<Rightarrow> real list list \<Rightarrow> real res" where
  "euclidean_normalized v w vs =
     (if length v = 0 then Inr 0
      else require (length v \<le> length w) (IndexError ''list index out of range'')
        (Inr (sqrt (sum_list (map (\<lambda>d. ((v ! d - w ! d) / sigma_of d vs) ^ 2) [0..<length v])))))"

text \<open>The initial centres are written number by number; a vector that is too short ends the loop.\<close>

fun write_center :: "nat \<Rightarrow> real list \<Rightarrow> nat list \<Rightarrow> real list list \<Rightarrow> unit res \<times> real list list" where
  "write_center i v [] cs = (Inr (), cs)"
| "write_center i v (d # ds) cs =
     (if d < length v then write_center i v ds (cs[i := (cs ! i)[d := v ! d]]) else (Inl (IndexError ''list index out of range''), cs))"

fun init_centers :: "real list list \<Rightarrow> nat \<Rightarrow> real list list \<Rightarrow> real list list \<Rightarrow> unit res \<times> real list list" where
  "init_centers all n [] cs = (Inr (), cs)"
| "init_centers all n (v # vs) cs =
     (case write_center (length (takeWhile (\<lambda>w. w \<noteq> v) all) mod K_CLUSTERS) v [0..<n] cs of
        (Inl e, cs') \<Rightarrow> (Inl e, cs')
      | (Inr _, cs') \<Rightarrow> init_centers all n vs cs')"

fun nearest :: "real list \<Rightarrow> real list list \<Rightarrow> nat \<times> real list list \<Rightarrow> (nat \<times> real) option \<Rightarrow> nat res" where
  "nearest v all (i, []) best = Inr (case best of None \<Rightarrow> 0 | Some (j, _) \<Rightarrow> j)"
| "nearest v all (i, c # cs) best =
     (case euclidean_normalized v c all of
        Inl e \<Rightarrow> Inl e
      | Inr gap \<Rightarrow> nearest v all (i + 1, cs) (if (case best of None \<Rightarrow> True | Some (_, m) \<Rightarrow> gap < m) then Some (i, gap) else best))"

fun assign_all :: "real list list \<Rightarrow> real list list \<Rightarrow> real list list \<Rightarrow> nat list \<Rightarrow> unit res \<times> nat list" where
  "assign_all all cs [] done = (Inr (), done)"
| "assign_all all cs (v # vs) done =
     (case nearest v all (0, cs) None of Inl e \<Rightarrow> (Inl e, done) | Inr c \<Rightarrow> assign_all all cs vs (done @ [c]))"

definition farthest_member :: "drift_checker \<Rightarrow> nat \<Rightarrow> nat list res" where
  "farthest_member dc c =
     (let members = filter (\<lambda>i. dc_assignments dc ! i = c) [0..<length (dc_assignments dc)];
          vs = map xrc_metric_vector (dc_history dc)
      in case map_res (\<lambda>i. case euclidean_normalized (vs ! i) (dc_centers dc ! c) vs of Inl e \<Rightarrow> Inl e | Inr x \<Rightarrow> Inr (i, x)) members of
           Inl e \<Rightarrow> Inl e
         | Inr [] \<Rightarrow> Inr []
         | Inr (m # ms) \<Rightarrow> Inr [fst (max_on snd m ms)])"

definition most_recent :: "drift_checker \<Rightarrow> string \<Rightarrow> nat list" where
  "most_recent dc task_class =
     (case filter (\<lambda>i. xrc_task_class (dc_history dc ! i) = task_class) [0..<length (dc_history dc)] of
        [] \<Rightarrow> []
      | i # is \<Rightarrow> [max_on (\<lambda>i. xrc_timestamp (dc_history dc ! i)) i is])"

definition update_representative_sample :: "drift_checker \<Rightarrow> unit res \<times> drift_checker" where
  "update_representative_sample dc =
     (case map_res (farthest_member dc) [0..<K_CLUSTERS] of
        Inl e \<Rightarrow> (Inl e, dc)
      | Inr far \<Rightarrow>
          (let s = set (concat far) \<union> set (concat (map (most_recent dc) (map xrc_task_class (dc_history dc)))) in
           (Inr (), dc\<lparr>dc_sample := (if card s > MAX_DRIFT_CHECK_SAMPLES then set (take MAX_DRIFT_CHECK_SAMPLES (sorted_list_of_set s)) else s)\<rparr>)))"

definition recompute_clusters :: "drift_checker \<Rightarrow> unit res \<times> drift_checker" where
  "recompute_clusters dc =
     (if length (dc_history dc) < K_CLUSTERS then (Inr (), dc\<lparr>dc_sample := {0..<length (dc_history dc)}\<rparr>)
      else (let vs = map xrc_metric_vector (dc_history dc); n = (case vs of [] \<Rightarrow> 0 | v # _ \<Rightarrow> length v) in
        if n = 0 then (Inr (), dc)
        else (case init_centers vs n (take K_CLUSTERS vs) (replicate K_CLUSTERS (replicate n 0)) of
                (Inl e, cs) \<Rightarrow> (Inl e, dc\<lparr>dc_centers := cs\<rparr>)
              | (Inr _, cs) \<Rightarrow>
                  (case assign_all vs cs vs [] of
                     (Inl e, as) \<Rightarrow> (Inl e, dc\<lparr>dc_centers := cs, dc_assignments := as\<rparr>)
                   | (Inr _, as) \<Rightarrow> update_representative_sample (dc\<lparr>dc_centers := cs, dc_assignments := as\<rparr>)))))"

definition record_execution :: "drift_execution \<Rightarrow> drift_checker \<Rightarrow> unit res \<times> drift_checker" where
  "record_execution r dc =
     (let dc' = dc\<lparr>dc_history := dc_history dc @ [r]\<rparr>; n = length (dc_history dc')
      in if n > 10 \<and> n mod 10 = 1 then recompute_clusters dc' else (Inr (), dc'))"

definition compute_drift :: "nat \<Rightarrow> real list \<Rightarrow> drift_checker \<Rightarrow> pyfloat res" where
  "compute_drift i w dc =
     (if i \<ge> length (dc_history dc) then Inr (Fin 0)
      else (let v = xrc_metric_vector (dc_history dc ! i) in
        if length v \<noteq> length w then Inr PosInf
        else require (v \<noteq> []) (ValueError ''max() arg is an empty sequence'') (Inr (Fin (Max (set (map2 (\<lambda>x y. \<bar>x - y\<bar>) v w)))))))"

definition get_representative_sample :: "drift_checker \<Rightarrow> nat list" where
  "get_representative_sample dc = sorted_list_of_set (dc_sample dc)"

text \<open>The sample is a set; its violations are listed here in ascending order.\<close>

definition is_within_drift_bound :: "real list \<Rightarrow> real \<Rightarrow> drift_checker \<Rightarrow> (bool \<times> (nat \<times> pyfloat) list) res" where
  "is_within_drift_bound w bound dc =
     (case map_res (\<lambda>i. case compute_drift i w dc of Inl e \<Rightarrow> Inl e | Inr x \<Rightarrow> Inr (i, x)) (get_representative_sample dc) of
        Inl e \<Rightarrow> Inl e
      | Inr ds \<Rightarrow> (let violations = filter (\<lambda>(_, x). flt_less (Fin bound) x) ds in Inr (violations = [], violations)))"

section \<open>The circuit breaker\<close>

record circuit_breaker =
  cb_rollback_times :: "real list"
  cb_suspended :: bool
  cb_suspension_until :: real

definition new_breaker :: circuit_breaker where
  "new_breaker = \<lparr>cb_rollback_times = [], cb_suspended = False, cb_suspension_until = 0\<rparr>"

definition MAX_ROLLBACKS :: nat where
  "MAX_ROLLBACKS = 3"

definition WINDOW_DURATION_MS :: int where
  "WINDOW_DURATION_MS = 3600000"

definition cleanup_old :: "real \<Rightarrow> circuit_breaker \<Rightarrow> circuit_breaker" where
  "cleanup_old now b = b\<lparr>cb_rollback_times := filter (\<lambda>t. t > now - real_of_int WINDOW_DURATION_MS) (cb_rollback_times b)\<rparr>"

text \<open>The clock is read for the entry, for the clean-up and for the suspension.\<close>

definition record_rollback :: "real \<times> real \<times> real \<Rightarrow> circuit_breaker \<Rightarrow> circuit_breaker" where
  "record_rollback ts b =
     (case ts of (t1, t2, t3) \<Rightarrow>
        (let b' = cleanup_old t2 (b\<lparr>cb_rollback_times := cb_rollback_times b @ [t1]\<rparr>)
         in if length (cb_rollback_times b') > MAX_ROLLBACKS
            then b'\<lparr>cb_suspended := True, cb_suspension_until := t3 + real_of_int WINDOW_DURATION_MS\<rparr> else b'))"

definition can_commit :: "real \<Rightarrow> circuit_breaker \<Rightarrow> bool \<times> circuit_breaker" where
  "can_commit now b =
     (let b' = (if cb_suspended b \<and> now > cb_suspension_until b then b\<lparr>cb_suspended := False\<rparr> else b) in (\<not> cb_suspended b', b'))"

definition emit_circuit_break_event :: "pyval hash_env \<Rightarrow> id_env \<Rightarrow> pyval prov_log \<Rightarrow> pyval prov_log" where
  "emit_circuit_break_event env ids lg =
     snd (prov_append env ids lg ''KB_ROLLBACK'' None None
       (PDict [(''type'', PStr ''ROLLBACK_FREQUENCY_CIRCUIT_BREAKER''), (''window_duration_ms'', PInt WINDOW_DURATION_MS),
               (''max_rollbacks'', PInt (int MAX_ROLLBACKS))]))"

definition rollback_count_in_window :: "real \<Rightarrow> circuit_breaker \<Rightarrow> nat \<times> circuit_breaker" where
  "rollback_count_in_window now b = (let b' = cleanup_old now b in (length (cb_rollback_times b'), b'))"

section \<open>The verification protocol\<close>

record 'p learning_protocol =
  lvp_kb :: "'p knowledge_base"
  lvp_drift_checker :: drift_checker
  lvp_breaker :: circuit_breaker

definition new_protocol :: "'p learning_protocol" where
  "new_protocol = \<lparr>lvp_kb = new_kb, lvp_drift_checker = new_drift_checker, lvp_breaker = new_breaker\<rparr>"

definition kb_put_all :: "('k \<times> 'v) list \<Rightarrow> ('k, 'v) dict \<Rightarrow> ('k, 'v) dict" where
  "kb_put_all new d = foldl (\<lambda>d (k, v). dict_set k v d) d new"

definition apply_update :: "'p kb_content \<Rightarrow> 'p knowledge_base \<Rightarrow> 'p knowledge_base" where
  "apply_update u kb =
     kb\<lparr>kb_current := \<lparr>KB_modules = kb_put_all (KB_modules u) (KB_modules (kb_current kb)), KB_plans = kb_put_all (KB_plans u) (KB_plans (kb_current kb)),
        KB_costs = kb_put_all (KB_costs u) (KB_costs (kb_current kb))\<rparr>\<rparr>"

definition current_metric_values :: "(string, metric_value) dict" where
  "current_metric_values = [(''metric_vector'', Vec [1/2, 1/2, 1/2])]"

definition metric_vector_of :: "(string, metric_value) dict \<Rightarrow> real list" where
  "metric_vector_of d = (case map_of d ''metric_vector'' of Some (Vec v) \<Rightarrow> v | _ \<Rightarrow> [0])"

text \<open>Rejected updates roll the knowledge base back before they raise.\<close>

definition reject_update :: "exc \<Rightarrow> 'p learning_protocol \<Rightarrow> bool res \<times> 'p learning_protocol" where
  "reject_update why p =
     (case kb_rollback_to (kb_version (lvp_kb p) - 1) (lvp_kb p) of
        Inl e \<Rightarrow> (Inl e, p)
      | Inr kb \<Rightarrow> (Inl why, p\<lparr>lvp_kb := kb\<rparr>))"

definition commit_update :: "real \<Rightarrow> 'p learning_protocol \<Rightarrow> bool res \<times> 'p learning_protocol" where
  "commit_update drift_bound p =
     (case degradation_within_tolerance current_metric_values current_metric_values of
        Inl e \<Rightarrow> (Inl e, p)
      | Inr False \<Rightarrow> reject_update (CatastrophicForgettingDetected ''Metric degradation exceeds tolerance'') p
      | Inr True \<Rightarrow>
          (case is_within_drift_bound (metric_vector_of current_metric_values) drift_bound (lvp_drift_checker p) of
             Inl e \<Rightarrow> (Inl e, p)
           | Inr (False, _) \<Rightarrow> reject_update (DriftBoundExceeded ''Drift bound exceeded'') p
           | Inr (True, _) \<Rightarrow> (Inr True, p\<lparr>lvp_kb := snd (kb_commit (lvp_kb p))\<rparr>)))"

text \<open>The simulation step builds a sample that nothing reads, and always succeeds.\<close>

definition simulation_step :: bool where
  "simulation_step = True"

definition verify_and_commit ::
  "pyval hash_env \<Rightarrow> id_env \<Rightarrow> real \<Rightarrow> 'p learning_event list \<Rightarrow> 'p kb_content \<Rightarrow> real \<Rightarrow> pyval prov_log \<Rightarrow> 'p learning_protocol
   \<Rightarrow> bool res \<times> pyval prov_log \<times> 'p learning_protocol" where
  "verify_and_commit env ids now batch u drift_bound lg p =
     (if batch = [] then (Inl (LearningWithoutEvents ''candidate_update requires at least one learning event''), lg, p)
      else (let (ok, b) = can_commit now (lvp_breaker p); p' = p\<lparr>lvp_breaker := b\<rparr> in
        if \<not> ok then (Inr False, emit_circuit_break_event env ids lg, p')
        else if \<not> simulation_step then (Inr False, lg, p')
        else (let (r, p'') = commit_update drift_bound (p'\<lparr>lvp_kb := apply_update u (lvp_kb p')\<rparr>) in (r, lg, p''))))"

section \<open>Candidate updates\<close>

record update_generator =
  ug_learning_rate :: real
  ug_max_update_magnitude :: real
  ug_cost_error_threshold :: real
  ug_learning_threshold :: real

definition default_generator :: update_generator where
  "default_generator = \<lparr>ug_learning_rate = 1/100, ug_max_update_magnitude = 1/20, ug_cost_error_threshold = 1/10, ug_learning_threshold = 1/20\<rparr>"

definition kb_value :: "(string, real) dict \<Rightarrow> string \<Rightarrow> real" where
  "kb_value d k = (case map_of d k of None \<Rightarrow> 0 | Some v \<Rightarrow> v)"

definition bounded_value :: "update_generator \<Rightarrow> real \<Rightarrow> real \<Rightarrow> real" where
  "bounded_value g current v =
     current + max (min (v - current) (ug_max_update_magnitude g * \<bar>current\<bar>)) (- ug_max_update_magnitude g * \<bar>current\<bar>)"

definition module_updates :: "update_generator \<Rightarrow> 'p knowledge_base \<Rightarrow> 'p learning_event list \<Rightarrow> (string, real) dict" where
  "module_updates g kb batch =
     foldl (\<lambda>d (k, v). dict_set k (bounded_value g (kb_value (KB_modules (kb_current kb)) k) v) d) []
       (concat (map (\<lambda>e. lsm_modules (lev_candidate_update_summary e)) batch))"

definition cost_error :: "real \<Rightarrow> real \<Rightarrow> real" where
  "cost_error current v = (if current > 0 then \<bar>v - current\<bar> / current else 0)"

definition cost_updates :: "update_generator \<Rightarrow> 'p knowledge_base \<Rightarrow> 'p learning_event list \<Rightarrow> (string, real) dict" where
  "cost_updates g kb batch =
     foldl (\<lambda>d (k, v). let current = kb_value (KB_costs (kb_current kb)) k in
         if cost_error current v > ug_cost_error_threshold g then dict_set k (current - ug_learning_rate g * (v - current)) d else d) []
       (concat (map (\<lambda>e. lsm_costs (lev_candidate_update_summary e)) batch))"

definition plan_updates :: "'p learning_event list \<Rightarrow> (string, 'p plan_entry) dict" where
  "plan_updates batch =
     (case batch of
        [] \<Rightarrow> []
      | first # _ \<Rightarrow>
          if \<not> lev_is_novel first
          then foldl (\<lambda>d e. case lsm_plan (lev_candidate_update_summary e) of None \<Rightarrow> d | Some p \<Rightarrow> dict_set ''template'' (Template p) d) [] batch
          else [(''novel_template'', Novel_template (lev_candidate_update_summary first))])"

definition generate_update :: "update_generator \<Rightarrow> 'p learning_event list \<Rightarrow> 'p knowledge_base \<Rightarrow> 'p kb_content option" where
  "generate_update g batch kb =
     (if batch = [] then None
      else if \<bar>sum_list (map lev_delta_quality batch) / real (length batch)\<bar> < ug_learning_threshold g then None
      else Some \<lparr>KB_modules = module_updates g kb batch, KB_plans = plan_updates batch, KB_costs = cost_updates g kb batch\<rparr>)"

section \<open>The search for the root cause\<close>

function bisect ::
  "('p kb_content \<Rightarrow> bool) \<Rightarrow> int list \<Rightarrow> int \<Rightarrow> int \<Rightarrow> int option \<Rightarrow> 'p knowledge_base \<Rightarrow> int option res \<times> 'p knowledge_base" where
  "bisect violating vs lo hi result kb =
     (if lo \<le> hi
      then (let mid = (lo + hi) div 2; version = vs ! nat mid in
        case get_version version kb of
          Inl e \<Rightarrow> (Inl e, kb)
        | Inr snapshot \<Rightarrow>
            (let kb' = kb\<lparr>kb_current := snapshot, kb_version := version\<rparr> in
             if violating snapshot then bisect violating vs lo (mid - 1) (Some version) kb'
             else bisect violating vs (mid + 1) hi result kb'))
      else (Inr result, kb))"
  by pat_completeness auto

termination
  by (relation "measure (\<lambda>(_, _, lo, hi, _, _). nat (hi + 1 - lo))") auto

declare bisect.simps [simp del]

definition identify_violating_version ::
  "('p kb_content \<Rightarrow> bool) \<Rightarrow> int list \<Rightarrow> 'p knowledge_base \<Rightarrow> int option res \<times> 'p knowledge_base" where
  "identify_violating_version violating vs kb =
     (if vs = [] then (Inr None, kb)
      else case bisect violating vs 0 (int (length vs) - 1) None kb of
             (Inr (Some v), kb') \<Rightarrow>
               (case kb_rollback_to (if v > 1 then v - 1 else 1) kb' of
                  Inl e \<Rightarrow> (Inl e, kb')
                | Inr kb'' \<Rightarrow> (Inr (Some v), kb''))
           | other \<Rightarrow> other)"

definition rollback_to_root_cause ::
  "pyval hash_env \<Rightarrow> id_env \<Rightarrow> int \<Rightarrow> pyval prov_log \<Rightarrow> 'p knowledge_base \<Rightarrow> (int \<times> pyval prov_log \<times> 'p knowledge_base) res" where
  "rollback_to_root_cause env ids v lg kb =
     (let target = max 1 (v - 1) in
      case kb_rollback_to target kb of
        Inl e \<Rightarrow> Inl e
      | Inr kb' \<Rightarrow>
          Inr (target,
               snd (prov_append env ids lg ''KB_ROLLBACK'' None None
                 (PDict [(''violating_version_id'', PInt v), (''target_version_id'', PInt target),
                         (''bisection_steps_taken'', PInt (if v > 0 then \<lfloor>log 2 (real_of_int v)\<rfloor> else 0)),
                         (''invariant_violated'', PStr ''UNKNOWN'')])),
               kb'))"

section \<open>The search finds the first violating version\<close>

lemma kb_rollback_ok:
  "map_of (kb_versions kb) v = Some s \<Longrightarrow> kb_rollback_to v kb = Inr (kb\<lparr>kb_current := s, kb_version := v\<rparr>)"
  by (simp add: kb_rollback_to_def get_version_def)

text \<open>
  All positions below \<open>lo\<close> satisfy the invariant, all above \<open>hi\<close> violate it, and the result so far is
  the version just above \<open>hi\<close>.
\<close>

lemma bisect_first:
  assumes "\<forall>v\<in>set vs. map_of (kb_versions kb) v = Some (snap v)"
    and "\<forall>i j. i < j \<longrightarrow> j < length vs \<longrightarrow> violating (snap (vs ! i)) \<longrightarrow> violating (snap (vs ! j))"
    and "0 \<le> lo" "lo \<le> hi + 1" "hi < int (length vs)"
    and "\<forall>i<nat lo. \<not> violating (snap (vs ! i))"
    and "result = (if hi + 1 < int (length vs) then Some (vs ! nat (hi + 1)) else None)"
    and "hi + 1 < int (length vs) \<Longrightarrow> violating (snap (vs ! nat (hi + 1)))"
  shows "\<exists>kb'. bisect violating vs lo hi result kb = (Inr (find (\<lambda>v. violating (snap v)) vs), kb') \<and> kb_versions kb' = kb_versions kb"
  using assms
proof (induction violating vs lo hi result kb rule: bisect.induct)
  case (1 violating vs lo hi result kb)
  show ?case
  proof (cases "lo \<le> hi")
    case True
    define mid where "mid = (lo + hi) div 2"
    have mid: "lo \<le> mid" "mid \<le> hi" "nat mid < length vs" using True 1(5,7) by (auto simp: mid_def)
    have get: "get_version (vs ! nat mid) kb = Inr (snap (vs ! nat mid))" using 1(3) mid(3) by (simp add: get_version_def)
    let ?kb = "kb\<lparr>kb_current := snap (vs ! nat mid), kb_version := vs ! nat mid\<rparr>"
    have all: "\<forall>v\<in>set vs. map_of (kb_versions ?kb) v = Some (snap v)" using 1(3) by simp
    show ?thesis
    proof (cases "violating (snap (vs ! nat mid))")
      case v: True
      have "\<exists>kb'. bisect violating vs lo (mid - 1) (Some (vs ! nat mid)) ?kb = (Inr (find (\<lambda>v. violating (snap v)) vs), kb')
          \<and> kb_versions kb' = kb_versions ?kb"
        using 1(1) [OF True mid_def refl get refl v all 1(4,5) _ _ 1(8)] mid v 1(5,7) by simp
      then show ?thesis by (simp add: bisect.simps [of _ _ lo hi] True mid_def [symmetric] get v Let_def)
    next
      case v: False
      have low: "\<forall>i<nat (mid + 1). \<not> violating (snap (vs ! i))"
      proof (intro allI impI)
        fix i
        assume "i < nat (mid + 1)"
        then have "i < nat mid \<or> i = nat mid" using mid(1) 1(5) by auto
        then show "\<not> violating (snap (vs ! i))" using 1(4) mid(3) v by auto
      qed
      have "\<exists>kb'. bisect violating vs (mid + 1) hi result ?kb = (Inr (find (\<lambda>v. violating (snap v)) vs), kb')
          \<and> kb_versions kb' = kb_versions ?kb"
        using 1(2) [OF True mid_def refl get refl v all 1(4) _ _ 1(7) low 1(9,10)] mid 1(5) by simp
      then show ?thesis by (simp add: bisect.simps [of _ _ lo hi] True mid_def [symmetric] get v Let_def)
    qed
  next
    case False
    then have lo: "lo = hi + 1" using 1(6) by simp
    have "find (\<lambda>v. violating (snap v)) vs = result"
    proof (cases "hi + 1 < int (length vs)")
      case True
      then have "nat lo < length vs" "violating (snap (vs ! nat lo))" using lo 1(5,10) by auto
      then show ?thesis using 1(8,9) True lo by (auto simp: find_Some_iff)
    next
      case none: False
      then have "nat lo = length vs" using lo 1(5,7) by auto
      then show ?thesis using 1(8,9) none by (auto simp: find_None_iff in_set_conv_nth)
    qed
    then show ?thesis using False by (simp add: bisect.simps [of _ _ lo hi])
  qed
qed

text \<open>
  With all versions on record and violations that persist, the search returns the first violating
  version and leaves the knowledge base at the version before it.
\<close>

lemma root_cause_found:
  assumes "\<forall>v\<in>set vs. map_of (kb_versions kb) v = Some (snap v)"
    and "\<forall>i j. i < j \<longrightarrow> j < length vs \<longrightarrow> violating (snap (vs ! i)) \<longrightarrow> violating (snap (vs ! j))"
    and "find (\<lambda>v. violating (snap v)) vs = Some v"
    and "map_of (kb_versions kb) (if v > 1 then v - 1 else 1) = Some good"
  shows "\<exists>kb'. identify_violating_version violating vs kb = (Inr (Some v), kb')
    \<and> kb_current kb' = good \<and> kb_version kb' = (if v > 1 then v - 1 else 1) \<and> kb_versions kb' = kb_versions kb"
proof -
  have "vs \<noteq> []" using assms(3) by auto
  moreover obtain kb' where "bisect violating vs 0 (int (length vs) - 1) None kb = (Inr (Some v), kb')" "kb_versions kb' = kb_versions kb"
    using bisect_first [OF assms(1,2), where lo = 0 and hi = "int (length vs) - 1" and result = None] assms(3) by auto
  ultimately show ?thesis using assms(4) by (auto simp: identify_violating_version_def kb_rollback_ok)
qed

section \<open>Updates are bounded\<close>

lemma bounded_value_bounds:
  assumes "0 \<le> ug_max_update_magnitude g"
  shows "\<bar>bounded_value g current v - current\<bar> \<le> ug_max_update_magnitude g * \<bar>current\<bar>"
proof -
  have "0 \<le> ug_max_update_magnitude g * \<bar>current\<bar>" using assms by simp
  then show ?thesis by (auto simp: bounded_value_def max_def min_def)
qed

lemma foldl_dict_set_values:
  "map_of (foldl (\<lambda>d (k, v). dict_set k (f k v) d) d kvs) k = Some y \<Longrightarrow> map_of d k = Some y \<or> (\<exists>v. (k, v) \<in> set kvs \<and> y = f k v)"
  by (induction kvs arbitrary: d) (fastforce split: if_splits)+

lemma module_updates_bounded:
  assumes "0 \<le> ug_max_update_magnitude g" and "map_of (module_updates g kb batch) k = Some y"
  shows "\<bar>y - kb_value (KB_modules (kb_current kb)) k\<bar> \<le> ug_max_update_magnitude g * \<bar>kb_value (KB_modules (kb_current kb)) k\<bar>"
  using foldl_dict_set_values [OF assms(2) [unfolded module_updates_def]] bounded_value_bounds [OF assms(1)] by auto

text \<open>A module without a value starts at zero, and the bound is relative: it never leaves zero.\<close>

lemma new_module_stays_zero: "bounded_value g 0 v = 0"
  by (simp add: bounded_value_def)

text \<open>The step of a cost leads away from the observed value.\<close>

lemma cost_moves_away:
  assumes "0 < ug_learning_rate g" and "v \<noteq> current"
  shows "\<bar>v - (current - ug_learning_rate g * (v - current))\<bar> > \<bar>v - current\<bar>"
proof -
  have "v - (current - ug_learning_rate g * (v - current)) = (1 + ug_learning_rate g) * (v - current)" by (simp add: algebra_simps)
  then have "\<bar>v - (current - ug_learning_rate g * (v - current))\<bar> = (1 + ug_learning_rate g) * \<bar>v - current\<bar>"
    using assms(1) by (simp add: abs_mult)
  then show ?thesis using assms by (simp add: algebra_simps)
qed

section \<open>The protocol\<close>

text \<open>
  The suite compares the metric vectors as if they were numbers, so a verification that gets that
  far raises, and leaves the update applied and uncommitted.
\<close>

lemma verification_always_raises:
  assumes "batch \<noteq> []" and "fst (can_commit now (lvp_breaker p))"
  shows "\<exists>e p'. verify_and_commit env ids now batch u bound lg p = (Inl (TypeError e), lg, p')
    \<and> lvp_kb p' = apply_update u (lvp_kb p)"
  using assms by (auto simp: verify_and_commit_def simulation_step_def commit_update_def current_metric_values_def degradation_of_vectors split: prod.splits)

lemma commit_raises: "fst (commit_update bound p) = Inl (TypeError ''unsupported operand type(s) for -'')"
  by (simp add: commit_update_def current_metric_values_def degradation_of_vectors)

lemma verification_never_commits: "fst (verify_and_commit env ids now batch u bound lg p) \<noteq> Inr True"
  by (auto simp: verify_and_commit_def simulation_step_def Let_def case_prod_unfold commit_raises)

text \<open>A rejected update would be undone by one version too many: the last committed version is dropped too.\<close>

lemma rejection_drops_last_version:
  assumes "map_of (kb_versions (lvp_kb p)) (kb_version (lvp_kb p) - 1) = Some s"
  shows "\<exists>p'. reject_update why p = (Inl why, p') \<and> kb_current (lvp_kb p') = s \<and> kb_version (lvp_kb p') = kb_version (lvp_kb p) - 1"
  using assms by (simp add: reject_update_def kb_rollback_ok)

text \<open>A commit after a rollback replaces the version that follows the target.\<close>

lemma commit_overwrites_version:
  assumes "kb_rollback_to v kb = Inr kb'" and "map_of (kb_versions kb) (v + 1) = Some old" and "kb_current kb' \<noteq> old"
  shows "\<exists>s. get_version (v + 1) (snd (kb_commit kb')) = Inr s \<and> s \<noteq> old"
  using assms by (auto simp: kb_rollback_to_def get_version_def kb_commit_def Let_def split: option.splits)

section \<open>The circuit breaker suspends commits for a window\<close>

text \<open>More than three rollbacks within a window suspend commits until a window later, and not longer.\<close>

lemma breaker_suspends:
  assumes "length (cb_rollback_times (record_rollback (t1, t2, t3) b)) > MAX_ROLLBACKS"
  shows "fst (can_commit now (record_rollback (t1, t2, t3) b)) \<longleftrightarrow> now > t3 + real_of_int WINDOW_DURATION_MS"
  using assms by (auto simp: record_rollback_def can_commit_def Let_def split: if_splits)

text \<open>The protocol itself never records a rollback, so a new protocol is never suspended.\<close>

definition verify_step :: "pyval hash_env \<Rightarrow> id_env \<Rightarrow> pyval prov_log \<times> 'p learning_protocol
   \<Rightarrow> real \<times> 'p learning_event list \<times> 'p kb_content \<times> real \<Rightarrow> pyval prov_log \<times> 'p learning_protocol" where
  "verify_step env ids s c =
     (case (s, c) of ((lg, p), (now, batch, u, bound)) \<Rightarrow> snd (verify_and_commit env ids now batch u bound lg p))"

lemma reject_breaker: "lvp_breaker (snd (reject_update why p)) = lvp_breaker p"
  by (simp add: reject_update_def split: sum.split)

lemma commit_breaker: "lvp_breaker (snd (commit_update bound p)) = lvp_breaker p"
  by (auto simp: commit_update_def reject_breaker split: sum.split bool.split)

interpretation unsuspended: guarded_machine "verify_step env ids" "\<lambda>_. True" "\<lambda>(lg, p). \<not> cb_suspended (lvp_breaker p)" for env ids
proof
  fix s :: "pyval prov_log \<times> 'p learning_protocol" and c :: "real \<times> 'p learning_event list \<times> 'p kb_content \<times> real"
  assume s: "case s of (lg, p) \<Rightarrow> \<not> cb_suspended (lvp_breaker p)"
  obtain lg p now batch u bound where e: "s = (lg, p)" "c = (now, batch, u, bound)" by (metis surj_pair)
  have b: "can_commit now (lvp_breaker p) = (True, lvp_breaker p)" using s by (simp add: e can_commit_def)
  show "case verify_step env ids s c of (lg, p) \<Rightarrow> \<not> cb_suspended (lvp_breaker p)"
    using s commit_breaker [of bound "p\<lparr>lvp_breaker := lvp_breaker p, lvp_kb := apply_update u (lvp_kb p)\<rparr>"]
    by (auto simp: verify_step_def e verify_and_commit_def b Let_def split: prod.split)
qed

lemma breaker_never_trips: "\<not> cb_suspended (lvp_breaker (snd (foldl (verify_step env ids) (lg, new_protocol) calls)))"
  using unsuspended.run_keeps [of "(lg, new_protocol)" calls env ids]
  by (simp add: new_protocol_def new_breaker_def list_all_iff case_prod_unfold)

section \<open>The sample of the drift check\<close>

definition sample_ok :: "drift_checker \<Rightarrow> bool" where
  "sample_ok dc \<longleftrightarrow> dc_sample dc \<subseteq> {0..<length (dc_history dc)} \<and> card (dc_sample dc) \<le> MAX_DRIFT_CHECK_SAMPLES"

lemma map_res_fst:
  "map_res (\<lambda>i. case f i of Inl e \<Rightarrow> Inl e | Inr x \<Rightarrow> Inr (i, x)) is = Inr ys \<Longrightarrow> map fst ys = is"
  by (induction "is" arbitrary: ys) (auto split: sum.splits)

lemma farthest_in:
  assumes "farthest_member dc c = Inr is"
  shows "set is \<subseteq> {0..<length (dc_assignments dc)}"
proof -
  let ?ms = "filter (\<lambda>i. dc_assignments dc ! i = c) [0..<length (dc_assignments dc)]"
  let ?vs = "map xrc_metric_vector (dc_history dc)"
  let ?r = "map_res (\<lambda>i. case euclidean_normalized (?vs ! i) (dc_centers dc ! c) ?vs of Inl e \<Rightarrow> Inl e | Inr x \<Rightarrow> Inr (i, x)) ?ms"
  obtain ys where r: "?r = Inr ys" using assms by (cases ?r) (auto simp: farthest_member_def Let_def)
  have ys: "map fst ys = ?ms" "is = (case ys of [] \<Rightarrow> [] | m # ms \<Rightarrow> [fst (max_on snd m ms)])"
    using map_res_fst [OF r] assms by (auto simp: farthest_member_def Let_def r split: list.splits)
  have "set is \<subseteq> fst ` set ys"
  proof (cases ys)
    case (Cons m ms)
    then show ?thesis using imageI [OF max_on_in [of snd m ms], of fst] by (simp add: ys(2))
  qed (simp add: ys(2))
  also have "\<dots> = set ?ms" using arg_cong [OF ys(1), of set] by simp
  finally show ?thesis by auto
qed

lemma recent_in: "set (most_recent dc t) \<subseteq> {0..<length (dc_history dc)}"
proof -
  let ?is = "filter (\<lambda>i. xrc_task_class (dc_history dc ! i) = t) [0..<length (dc_history dc)]"
  have "set (most_recent dc t) \<subseteq> set ?is"
  proof (cases ?is)
    case (Cons i js)
    then show ?thesis using max_on_in [of "\<lambda>i. xrc_timestamp (dc_history dc ! i)" i js]
      unfolding most_recent_def by simp
  qed (simp add: most_recent_def)
  then show ?thesis by auto
qed

lemma assign_length: "assign_all vs cs ws as = (Inr (), as') \<Longrightarrow> length as' = length as + length ws"
  by (induction ws arbitrary: as) (auto split: sum.splits)

lemma map_res_all: "map_res f xs = Inr ys \<Longrightarrow> y \<in> set ys \<Longrightarrow> \<exists>x\<in>set xs. f x = Inr y"
  by (induction xs arbitrary: ys) (auto split: sum.splits)

lemma update_sample_ok:
  assumes "length (dc_assignments dc) = length (dc_history dc)" and "sample_ok dc"
  shows "sample_ok (snd (update_representative_sample dc))"
proof (cases "map_res (farthest_member dc) [0..<K_CLUSTERS]")
  case (Inl e)
  then show ?thesis using assms by (simp add: update_representative_sample_def)
next
  case (Inr far)
  define s where "s = set (concat far) \<union> set (concat (map (most_recent dc) (map xrc_task_class (dc_history dc))))"
  have "set (concat far) \<subseteq> {0..<length (dc_history dc)}"
    using map_res_all [OF Inr] farthest_in [of dc] assms(1) by fastforce
  moreover have "set (concat (map (most_recent dc) (map xrc_task_class (dc_history dc)))) \<subseteq> {0..<length (dc_history dc)}"
    using recent_in [of dc] by fastforce
  ultimately have s: "s \<subseteq> {0..<length (dc_history dc)}" by (simp add: s_def)
  then have "finite s" by (rule finite_subset) simp
  then have "set (take n (sorted_list_of_set s)) \<subseteq> {0..<length (dc_history dc)}" for n
    using set_take_subset [of n "sorted_list_of_set s"] s by auto
  moreover have "card (set (take n (sorted_list_of_set s))) \<le> n" for n
    using card_length [of "take n (sorted_list_of_set s)"] by simp
  moreover have "snd (update_representative_sample dc) =
      dc\<lparr>dc_sample := (if card s > MAX_DRIFT_CHECK_SAMPLES then set (take MAX_DRIFT_CHECK_SAMPLES (sorted_list_of_set s)) else s)\<rparr>"
    unfolding update_representative_sample_def Inr s_def by (simp add: Let_def)
  ultimately show ?thesis using s by (simp add: sample_ok_def)
qed

lemma recompute_sample_ok:
  assumes "sample_ok dc"
  shows "sample_ok (snd (recompute_clusters dc)) \<and> dc_history (snd (recompute_clusters dc)) = dc_history dc"
proof -
  let ?vs = "map xrc_metric_vector (dc_history dc)"
  have hist: "dc_history (snd (update_representative_sample d)) = dc_history d" for d
    by (simp add: update_representative_sample_def Let_def split: sum.split)
  have same: "sample_ok (dc\<lparr>dc_centers := cs\<rparr>)" "sample_ok (dc\<lparr>dc_centers := cs, dc_assignments := as\<rparr>)" for cs as
    using assms by (simp_all add: sample_ok_def)
  have upd: "sample_ok (snd (update_representative_sample (dc\<lparr>dc_centers := cs, dc_assignments := as\<rparr>)))"
    if "assign_all ?vs cs ?vs [] = (Inr u, as)" for cs as u
    using that assign_length [of ?vs cs ?vs "[]" as] same(2) by (intro update_sample_ok) auto
  show ?thesis
    using assms upd same hist
    by (auto simp: recompute_clusters_def Let_def sample_ok_def [of "dc\<lparr>dc_sample := S\<rparr>" for S] K_CLUSTERS_def MAX_DRIFT_CHECK_SAMPLES_def
        split: prod.split sum.split)
qed

text \<open>The sample always refers to recorded executions, at most a hundred of them.\<close>

interpretation drift_sample: guarded_machine "\<lambda>dc r. snd (record_execution r dc)" "\<lambda>_. True" sample_ok
proof
  fix dc r
  assume "sample_ok dc"
  then have "sample_ok (dc\<lparr>dc_history := dc_history dc @ [r]\<rparr>)" by (auto simp: sample_ok_def)
  then show "sample_ok (snd (record_execution r dc))" using recompute_sample_ok by (simp add: record_execution_def Let_def)
qed

lemma drift_sample_bounded: "sample_ok (foldl (\<lambda>dc r. snd (record_execution r dc)) new_drift_checker rs)"
  by (rule drift_sample.run_keeps) (simp_all add: sample_ok_def new_drift_checker_def list_all_iff)

end
