(* ===== verification/Plugins.thy ===== *)
theory Plugins
  imports Schema
begin

text \<open>
  Plugin manifests, the policy that admits them, and the registry that loads them
  (\<open>plugins/contracts.py\<close>, \<open>plugins/loader.py\<close>). Manifests are read from and written to dynamic values.
  The digest of a document, the resolution of entry points and the plugins themselves are parameters.
  Names are ASCII texts; the rendering of offending values in messages is left out.
\<close>

declare map_of_eq_Some_iff [simp del] Some_eq_map_of_iff [simp del]

section \<open>Syntax\<close>

definition PLUGIN_MANIFEST_SCHEMA_ID :: string where "PLUGIN_MANIFEST_SCHEMA_ID = ''dnc.plugin.manifest''"
definition PLUGIN_MANIFEST_SCHEMA_VERSION :: string where "PLUGIN_MANIFEST_SCHEMA_VERSION = ''1.0.0''"
definition PLUGIN_API_VERSION :: string where "PLUGIN_API_VERSION = ''1.0.0''"

definition is_lower :: "char \<Rightarrow> bool" where
  "is_lower c \<longleftrightarrow> (of_char c :: nat) \<in> {97..122}"

definition is_upper :: "char \<Rightarrow> bool" where
  "is_upper c \<longleftrightarrow> (of_char c :: nat) \<in> {65..90}"

text \<open>\<open>[a-z0-9]+(?:[._-][a-z0-9]+)*\<close>; the flag says that the last character was no separator.\<close>

fun plugin_id_rest :: "bool \<Rightarrow> string \<Rightarrow> bool" where
  "plugin_id_rest plain [] = plain"
| "plugin_id_rest plain (c # cs) =
     (if is_lower c \<or> is_digit c then plugin_id_rest True cs
      else c \<in> set ''._-'' \<and> plain \<and> plugin_id_rest False cs)"

definition plugin_id_ok :: "string \<Rightarrow> bool" where
  "plugin_id_ok s = plugin_id_rest False s"

definition name_start :: "char \<Rightarrow> bool" where
  "name_start c \<longleftrightarrow> is_lower c \<or> is_upper c \<or> c = CHR ''_''"

text \<open>\<open>[A-Za-z_]\w*(?:\.[A-Za-z_]\w*)*\<close>; the flag says that a name has begun.\<close>

fun dotted_name :: "bool \<Rightarrow> string \<Rightarrow> bool" where
  "dotted_name begun [] = begun"
| "dotted_name False (c # cs) = (name_start c \<and> dotted_name True cs)"
| "dotted_name True (c # cs) =
     (if name_start c \<or> is_digit c then dotted_name True cs else c = CHR ''.'' \<and> dotted_name False cs)"

definition entry_point_ok :: "string \<Rightarrow> bool" where
  "entry_point_ok s \<longleftrightarrow>
     CHR '':'' \<in> set s \<and> dotted_name False (takeWhile (\<lambda>c. c \<noteq> CHR '':'') s) \<and> dotted_name False (tl (dropWhile (\<lambda>c. c \<noteq> CHR '':'') s))"

definition require_semver :: "string \<Rightarrow> string \<Rightarrow> unit res" where
  "require_semver v name =
     require (is_ok (parse_version (PStr v))) (DNCValidationError (name @ '' MUST be a semantic version'')) (Inr ())"

definition validate_tokens :: "string set \<Rightarrow> string \<Rightarrow> bool \<Rightarrow> unit res" where
  "validate_tokens values name require_nonempty =
     require (\<not> (require_nonempty \<and> values = {})) (DNCValidationError (name @ '' MUST not be empty'')) (
     require (\<forall>v\<in>values. normalized v) (DNCValidationError (name @ '' MUST contain normalized non-empty strings'')) (Inr ()))"

section \<open>Manifests\<close>

record plugin_manifest =
  pm_plugin_id :: string
  pm_plugin_version :: string
  pm_entry_point :: string
  pm_capabilities :: "string set"
  pm_permissions :: "string set"
  pm_supported_ir_versions :: "string set"
  pm_api_version :: string

definition PluginManifest_post_init :: "plugin_manifest \<Rightarrow> plugin_manifest res" where
  "PluginManifest_post_init m =
     require (plugin_id_ok (pm_plugin_id m)) (DNCValidationError ''plugin_id MUST use normalized lowercase identifier syntax'') (
     seq (require_semver (pm_plugin_version m) ''plugin_version'') (
     seq (require_semver (pm_api_version m) ''api_version'') (
     require (entry_point_ok (pm_entry_point m)) (DNCValidationError ''entry_point MUST use 'package.module:attribute' syntax'') (
     seq (validate_tokens (pm_capabilities m) ''capabilities'' True) (
     seq (validate_tokens (pm_permissions m) ''permissions'' False) (
     seq (validate_tokens (pm_supported_ir_versions m) ''supported_ir_versions'' True) (
     seq (for_each (\<lambda>v. require_semver v ''supported_ir_versions item'') (sorted_list_of_set (pm_supported_ir_versions m)))
       (Inr m))))))))"

definition sorted_texts :: "string set \<Rightarrow> pyval" where
  "sorted_texts s = PList (map PStr (sorted_list_of_set s))"

definition manifest_to_dict :: "plugin_manifest \<Rightarrow> document" where
  "manifest_to_dict m =
     [(''schema_id'', PStr PLUGIN_MANIFEST_SCHEMA_ID), (''schema_version'', PStr PLUGIN_MANIFEST_SCHEMA_VERSION),
      (''compatibility_version'', PStr compatibility_const), (''plugin_id'', PStr (pm_plugin_id m)),
      (''plugin_version'', PStr (pm_plugin_version m)), (''api_version'', PStr (pm_api_version m)),
      (''entry_point'', PStr (pm_entry_point m)), (''capabilities'', sorted_texts (pm_capabilities m)),
      (''permissions'', sorted_texts (pm_permissions m)), (''supported_ir_versions'', sorted_texts (pm_supported_ir_versions m))]"

definition MANIFEST_FIELDS :: "string set" where
  "MANIFEST_FIELDS = {''schema_id'', ''schema_version'', ''compatibility_version'', ''plugin_id'', ''plugin_version'', ''api_version'',
     ''entry_point'', ''capabilities'', ''permissions'', ''supported_ir_versions''}"

definition text_of :: "pyval \<Rightarrow> string option" where
  "text_of v = (case v of PStr s \<Rightarrow> Some s | _ \<Rightarrow> None)"

definition texts_of :: "pyval \<Rightarrow> string list" where
  "texts_of v = (case v of PList xs \<Rightarrow> List.map_filter text_of xs | _ \<Rightarrow> [])"

definition require_text :: "document \<Rightarrow> string \<Rightarrow> unit res" where
  "require_text d name =
     require (text_of (field d name) \<noteq> None) (DNCValidationError (''plugin manifest '' @ name @ '' MUST be a string'')) (Inr ())"

definition require_texts :: "document \<Rightarrow> string \<Rightarrow> unit res" where
  "require_texts d name =
     (case field d name of
        PList xs \<Rightarrow>
          require (list_all (\<lambda>x. text_of x \<noteq> None) xs) (DNCValidationError (''plugin manifest '' @ name @ '' MUST contain strings'')) (
          seq (validate_tokens (set (texts_of (PList xs))) name (name \<noteq> ''permissions'')) (
          require (distinct (texts_of (PList xs))) (DNCValidationError (''plugin manifest '' @ name @ '' MUST contain unique values'')) (Inr ())))
      | _ \<Rightarrow> Inl (DNCValidationError (''plugin manifest '' @ name @ '' MUST be an array'')))"

definition validate_manifest_document :: "pyval \<Rightarrow> unit res" where
  "validate_manifest_document v =
     (case v of
        PDict d \<Rightarrow>
          require (fst ` set d = MANIFEST_FIELDS) (DNCValidationError ''plugin manifest fields are invalid'') (
          require (field d ''schema_id'' = PStr PLUGIN_MANIFEST_SCHEMA_ID) (DNCValidationError ''unsupported plugin manifest schema_id'') (
          require (field d ''schema_version'' = PStr PLUGIN_MANIFEST_SCHEMA_VERSION) (DNCValidationError ''unsupported plugin manifest schema_version'') (
          require (field d ''compatibility_version'' = PStr compatibility_const) (DNCValidationError ''unsupported plugin compatibility_version'') (
          seq (for_each (require_text d) [''plugin_id'', ''plugin_version'', ''api_version'', ''entry_point''])
            (for_each (require_texts d) [''capabilities'', ''permissions'', ''supported_ir_versions''])))))
      | _ \<Rightarrow> Inl (DNCValidationError ''plugin manifest MUST be an object''))"

definition manifest_from_dict :: "pyval \<Rightarrow> plugin_manifest res" where
  "manifest_from_dict v =
     seq (validate_manifest_document v)
       (let d = dict_of v; text = (\<lambda>name. the (text_of (field d name))); texts = (\<lambda>name. set (texts_of (field d name)))
        in PluginManifest_post_init \<lparr>pm_plugin_id = text ''plugin_id'', pm_plugin_version = text ''plugin_version'',
             pm_entry_point = text ''entry_point'', pm_capabilities = texts ''capabilities'', pm_permissions = texts ''permissions'',
             pm_supported_ir_versions = texts ''supported_ir_versions'', pm_api_version = text ''api_version''\<rparr>)"

definition manifest_fingerprint :: "(document \<Rightarrow> string) \<Rightarrow> plugin_manifest \<Rightarrow> string" where
  "manifest_fingerprint digest m = digest (manifest_to_dict m)"

definition assert_runtime_compatible :: "plugin_manifest \<Rightarrow> unit res" where
  "assert_runtime_compatible m =
     require (pm_api_version m = PLUGIN_API_VERSION) (DNCValidationError ''plugin API is unsupported'') (
     require (pm_supported_ir_versions m - set supported_versions = {}) (DNCValidationError ''plugin declares unsupported DNC-IR versions'') (
     require (schema_version_const \<in> pm_supported_ir_versions m) (DNCValidationError ''plugin does not support current DNC-IR'') (Inr ())))"

section \<open>The policy\<close>

record plugin_load_policy =
  plp_trusted_manifest_hashes :: "string set"
  plp_allowed_capabilities :: "string set"
  plp_allowed_permissions :: "string set"

definition sha256_text :: "string \<Rightarrow> bool" where
  "sha256_text s \<longleftrightarrow> length s = 64 \<and> list_all (\<lambda>c. is_digit c \<or> (of_char c :: nat) \<in> {97..102}) s"

definition PluginLoadPolicy_post_init :: "plugin_load_policy \<Rightarrow> plugin_load_policy res" where
  "PluginLoadPolicy_post_init p =
     seq (validate_tokens (plp_allowed_capabilities p) ''allowed_capabilities'' False) (
     seq (validate_tokens (plp_allowed_permissions p) ''allowed_permissions'' False) (
     require (\<forall>h\<in>plp_trusted_manifest_hashes p. sha256_text h)
       (DNCValidationError ''trusted_manifest_hashes MUST contain lowercase SHA-256 digests'') (Inr p)))"

definition trust_policy ::
  "(document \<Rightarrow> string) \<Rightarrow> plugin_manifest \<Rightarrow> string set option \<Rightarrow> string set option \<Rightarrow> plugin_load_policy res" where
  "trust_policy digest m caps perms =
     PluginLoadPolicy_post_init \<lparr>plp_trusted_manifest_hashes = {manifest_fingerprint digest m},
       plp_allowed_capabilities = (case caps of None \<Rightarrow> pm_capabilities m | Some c \<Rightarrow> c),
       plp_allowed_permissions = (case perms of None \<Rightarrow> pm_permissions m | Some c \<Rightarrow> c)\<rparr>"

definition admit_manifest :: "(document \<Rightarrow> string) \<Rightarrow> plugin_load_policy \<Rightarrow> plugin_manifest \<Rightarrow> unit res" where
  "admit_manifest digest p m =
     seq (assert_runtime_compatible m) (
     require (manifest_fingerprint digest m \<in> plp_trusted_manifest_hashes p) (DNCPolicyError ''plugin manifest fingerprint is not trusted'') (
     require (pm_capabilities m - plp_allowed_capabilities p = {}) (DNCPolicyError ''plugin capabilities are not allowed'') (
     require (pm_permissions m - plp_allowed_permissions p = {}) (DNCPolicyError ''plugin permissions are not allowed'') (Inr ()))))"

section \<open>The registry\<close>

record plugin_registry =
  plr_policy :: plugin_load_policy
  plr_manifests :: "(string, plugin_manifest) dict"
  plr_fingerprints :: "(string, string) dict"

definition new_plugin_registry :: "plugin_load_policy \<Rightarrow> plugin_registry" where
  "new_plugin_registry p = \<lparr>plr_policy = p, plr_manifests = [], plr_fingerprints = []\<rparr>"

definition plugin_register :: "(document \<Rightarrow> string) \<Rightarrow> plugin_manifest \<Rightarrow> plugin_registry \<Rightarrow> plugin_registry res" where
  "plugin_register digest m reg =
     seq (admit_manifest digest (plr_policy reg) m) (
     require (pm_plugin_id m \<notin> fst ` set (plr_manifests reg)) (DNCValidationError (''plugin already registered: '' @ pm_plugin_id m))
     (Inr (reg\<lparr>plr_manifests := dict_set (pm_plugin_id m) m (plr_manifests reg),
               plr_fingerprints := dict_set (pm_plugin_id m) (manifest_fingerprint digest m) (plr_fingerprints reg)\<rparr>)))"

definition plugin_manifest_of :: "(document \<Rightarrow> string) \<Rightarrow> string \<Rightarrow> plugin_registry \<Rightarrow> plugin_manifest res" where
  "plugin_manifest_of digest i reg =
     (case map_of (plr_manifests reg) i of
        None \<Rightarrow> Inl (KeyError (''unknown plugin: '' @ i))
      | Some m \<Rightarrow>
          (case map_of (plr_fingerprints reg) i of
             None \<Rightarrow> Inl (KeyError i)
           | Some f \<Rightarrow>
               require (manifest_fingerprint digest m = f) (DNCValidationError ''registered plugin manifest changed after admission'') (Inr m)))"

definition all_plugins :: "(document \<Rightarrow> string) \<Rightarrow> plugin_registry \<Rightarrow> plugin_manifest list res" where
  "all_plugins digest reg = map_res (\<lambda>i. plugin_manifest_of digest i reg) (sort (map fst (plr_manifests reg)))"

text \<open>\<open>except DNCError: raise\<close>, and any other exception is wrapped.\<close>

fun is_dnc_error :: "exc \<Rightarrow> bool" where
  "is_dnc_error (DNCValidationError _) = True"
| "is_dnc_error (DNCPolicyError _) = True"
| "is_dnc_error (DNCCapabilityError _) = True"
| "is_dnc_error (DNCCalibrationError _) = True"
| "is_dnc_error (DNCExecutionError _) = True"
| "is_dnc_error (DNCVerificationError _) = True"
| "is_dnc_error _ = False"

definition wrapping :: "string \<Rightarrow> 'a res \<Rightarrow> 'a res" where
  "wrapping msg r = (case r of Inr v \<Rightarrow> Inr v | Inl e \<Rightarrow> if is_dnc_error e then Inl e else Inl (DNCCapabilityError msg))"

text \<open>
  Resolution may raise, or give something that is not callable (\<open>None\<close>), or a factory; a plugin shows
  its manifest if it implements the protocol, and showing it may raise.
\<close>

definition plugin_load ::
  "(document \<Rightarrow> string) \<Rightarrow> (string \<Rightarrow> 'pl res option res) \<Rightarrow> ('pl \<Rightarrow> plugin_manifest option res) \<Rightarrow> string \<Rightarrow> plugin_registry \<Rightarrow> 'pl res" where
  "plugin_load digest resolve shows_manifest i reg =
     (case plugin_manifest_of digest i reg of
        Inl e \<Rightarrow> Inl e
      | Inr m \<Rightarrow>
          seq (admit_manifest digest (plr_policy reg) m)
          (case wrapping ''plugin entry point resolution failed'' (resolve (pm_entry_point m)) of
             Inl e \<Rightarrow> Inl e
           | Inr None \<Rightarrow> Inl (DNCValidationError ''plugin entry point MUST resolve to a factory'')
           | Inr (Some factory) \<Rightarrow>
               (case wrapping ''plugin factory failed'' factory of
                  Inl e \<Rightarrow> Inl e
                | Inr plugin \<Rightarrow>
                    (case wrapping ''plugin contract inspection failed'' (shows_manifest plugin) of
                       Inl e \<Rightarrow> Inl e
                     | Inr None \<Rightarrow> Inl (DNCValidationError ''plugin factory MUST return an object with manifest and activate'')
                     | Inr (Some loaded) \<Rightarrow>
                         require (manifest_fingerprint digest loaded = manifest_fingerprint digest m)
                           (DNCValidationError ''loaded plugin manifest does not match admitted manifest'') (Inr plugin)))))"

section \<open>Manifests survive the round trip\<close>

lemma seq_Inr [simp]: "seq a b = Inr v \<longleftrightarrow> a = Inr () \<and> b = Inr v"
  by (auto simp: seq_def split: sum.splits)

lemma texts_of_strings [simp]: "texts_of (PList (map PStr xs)) = xs"
  by (induction xs) (simp_all add: texts_of_def text_of_def List.map_filter_def)

lemma require_texts_sorted:
  assumes "finite s" and "validate_tokens s name (name \<noteq> ''permissions'') = Inr ()" and "field d name = sorted_texts s"
  shows "require_texts d name = Inr ()"
proof -
  have "list_all (\<lambda>x. text_of x \<noteq> None) (map PStr (sorted_list_of_set s))" by (simp add: list_all_iff text_of_def)
  then show ?thesis using assms by (simp add: require_texts_def sorted_texts_def seq_def)
qed

lemma manifest_roundtrip:
  assumes "PluginManifest_post_init m = Inr m" and "finite (pm_capabilities m)" and "finite (pm_permissions m)"
    and "finite (pm_supported_ir_versions m)"
  shows "manifest_from_dict (PDict (manifest_to_dict m)) = Inr m"
proof -
  let ?d = "manifest_to_dict m"
  have f: "field ?d ''schema_id'' = PStr PLUGIN_MANIFEST_SCHEMA_ID" "field ?d ''schema_version'' = PStr PLUGIN_MANIFEST_SCHEMA_VERSION"
      "field ?d ''compatibility_version'' = PStr compatibility_const" "field ?d ''plugin_id'' = PStr (pm_plugin_id m)"
      "field ?d ''plugin_version'' = PStr (pm_plugin_version m)" "field ?d ''api_version'' = PStr (pm_api_version m)"
      "field ?d ''entry_point'' = PStr (pm_entry_point m)" "field ?d ''capabilities'' = sorted_texts (pm_capabilities m)"
      "field ?d ''permissions'' = sorted_texts (pm_permissions m)"
      "field ?d ''supported_ir_versions'' = sorted_texts (pm_supported_ir_versions m)"
    by (simp_all add: field_def manifest_to_dict_def)
  have t: "validate_tokens (pm_capabilities m) ''capabilities'' True = Inr ()" "validate_tokens (pm_permissions m) ''permissions'' False = Inr ()"
      "validate_tokens (pm_supported_ir_versions m) ''supported_ir_versions'' True = Inr ()"
    using assms(1) by (auto simp: PluginManifest_post_init_def)
  have r: "require_texts ?d ''capabilities'' = Inr ()" "require_texts ?d ''permissions'' = Inr ()" "require_texts ?d ''supported_ir_versions'' = Inr ()"
    using require_texts_sorted [OF assms(2) _ f(8)] require_texts_sorted [OF assms(3) _ f(9)] require_texts_sorted [OF assms(4) _ f(10)] t by simp_all
  have "fst ` set ?d = MANIFEST_FIELDS" by (simp add: manifest_to_dict_def MANIFEST_FIELDS_def)
  then have "validate_manifest_document (PDict ?d) = Inr ()"
    using r by (simp add: validate_manifest_document_def f require_text_def text_of_def)
  moreover have "set (texts_of (sorted_texts s)) = s" if "finite s" for s using that by (simp add: sorted_texts_def)
  moreover have self: "\<lparr>pm_plugin_id = pm_plugin_id m, pm_plugin_version = pm_plugin_version m, pm_entry_point = pm_entry_point m,
      pm_capabilities = pm_capabilities m, pm_permissions = pm_permissions m, pm_supported_ir_versions = pm_supported_ir_versions m,
      pm_api_version = pm_api_version m\<rparr> = m" by simp
  ultimately show ?thesis using assms by (simp add: manifest_from_dict_def f text_of_def self)
qed

section \<open>Only admitted plugins are loaded\<close>

lemma admit_manifest_iff:
  "admit_manifest digest p m = Inr () \<longleftrightarrow>
     pm_api_version m = PLUGIN_API_VERSION \<and> pm_supported_ir_versions m \<subseteq> set supported_versions \<and> schema_version_const \<in> pm_supported_ir_versions m
     \<and> manifest_fingerprint digest m \<in> plp_trusted_manifest_hashes p
     \<and> pm_capabilities m \<subseteq> plp_allowed_capabilities p \<and> pm_permissions m \<subseteq> plp_allowed_permissions p"
  by (auto simp: admit_manifest_def assert_runtime_compatible_def)

lemma loaded_plugin_admitted:
  assumes "plugin_load digest resolve shows_manifest i reg = Inr plugin"
  shows "\<exists>m loaded. map_of (plr_manifests reg) i = Some m \<and> admit_manifest digest (plr_policy reg) m = Inr ()
    \<and> shows_manifest plugin = Inr (Some loaded) \<and> manifest_fingerprint digest loaded = manifest_fingerprint digest m"
  using assms
  by (auto simp: plugin_load_def plugin_manifest_of_def wrapping_def split: sum.splits option.splits if_splits)

text \<open>Without admission nothing is resolved: the result does not depend on the code of the plugin.\<close>

lemma unadmitted_not_resolved:
  assumes "\<forall>m. map_of (plr_manifests reg) i = Some m \<longrightarrow> admit_manifest digest (plr_policy reg) m \<noteq> Inr ()"
  shows "plugin_load digest resolve shows_manifest i reg = plugin_load digest resolve' shows_manifest' i reg"
  using assms
  by (auto simp: plugin_load_def plugin_manifest_of_def seq_def split: sum.splits option.splits if_splits)

lemma trusted_manifest_pinned:
  assumes "trust_policy digest m c p = Inr pol" and "admit_manifest digest pol m' = Inr ()"
  shows "digest (manifest_to_dict m') = digest (manifest_to_dict m)"
  using assms by (auto simp: trust_policy_def PluginLoadPolicy_post_init_def admit_manifest_iff manifest_fingerprint_def)

text \<open>Registered manifests stay as they were admitted.\<close>

definition plugins_ok :: "(document \<Rightarrow> string) \<Rightarrow> plugin_load_policy \<Rightarrow> plugin_registry \<Rightarrow> bool" where
  "plugins_ok digest p reg \<longleftrightarrow>
     plr_policy reg = p
     \<and> (\<forall>i m. map_of (plr_manifests reg) i = Some m \<longrightarrow>
          pm_plugin_id m = i \<and> admit_manifest digest p m = Inr () \<and> map_of (plr_fingerprints reg) i = Some (manifest_fingerprint digest m))"

definition plugin_step :: "(document \<Rightarrow> string) \<Rightarrow> plugin_registry \<Rightarrow> plugin_manifest \<Rightarrow> plugin_registry" where
  "plugin_step digest reg m = (case plugin_register digest m reg of Inl _ \<Rightarrow> reg | Inr reg' \<Rightarrow> reg')"

interpretation plugins: guarded_machine "plugin_step digest" "\<lambda>_. True" "plugins_ok digest p" for digest p
  by unfold_locales (auto simp: plugins_ok_def plugin_step_def plugin_register_def split: sum.splits if_splits)

lemma registered_plugins_admitted:
  assumes "reg = foldl (plugin_step digest) (new_plugin_registry p) ms"
  shows "plugins_ok digest p reg"
    and "map_of (plr_manifests reg) i = Some m \<Longrightarrow> plugin_manifest_of digest i reg = Inr m"
proof -
  have "plugins_ok digest p (new_plugin_registry p)" by (simp add: plugins_ok_def new_plugin_registry_def)
  then show ok: "plugins_ok digest p reg" unfolding assms by (rule plugins.run_keeps) (simp add: list_all_iff)
  show "plugin_manifest_of digest i reg = Inr m" if "map_of (plr_manifests reg) i = Some m"
    using ok that by (simp add: plugins_ok_def plugin_manifest_of_def)
qed

end
