(* ===== verification/Spec2Isabelle.thy ===== *)
theory Spec2Isabelle
  imports Replay Execution_State Event_Repository Work_Queue Object_Store Handoff Memory_Store Skills Runtime_Proofs Artifact_Registry DNC_System Reference_Control Pilot Continual Plugins
begin

text \<open>
  \<^bold>\<open>Dynamic Neural Computing: a verified model of the structural core and its services.\<close>

  The program keeps a graph of computational units that is changed at run time. Units and
  edges carry contracts; a validator decides which graphs and execution contexts are
  acceptable; a mutation engine applies single operations with an undo log; a transaction
  manager runs batches of operations under optimistic concurrency control and logs
  provenance; the graph is projected to an executable DAG that a scheduler dispatches over a
  working memory; histories of transactions can be replayed, and graphs serialised. Around
  this core are a runtime that plans a task, runs the planned modules under a decision policy
  and a budget, replans and rolls back, and services: an event repository with outbox and inbox, a durable work queue, a
  content-addressed object store, registries of artifacts and graphs, a handoff protocol between nodes, governed memory, and a
  registry of reusable skills. A cognitive layer keeps an append-only epistemic state with life
  cycles, selects actions, matches capabilities, checks claims with verifiers, tracks calibration
  and decides when inference halts; enterprise controls authorise, meter, audit and redact.

  \<^bold>\<open>Theories and what they model\<close> (files under \<open>src/src/dnc\<close>):
  \<^item> \<open>DNC_Prelude\<close>: exceptions as values, \<open>str.strip\<close>, dynamic values, insertion-ordered
    dictionaries, and the interfaces shared by the components as locales: \<open>keyed_store\<close> (what a
    lookup returns after a write), \<open>step_machine\<close> (an operation keeps an invariant and extends
    the state, hence so does every sequence of calls), \<open>value_enum\<close> (enumerations with
    distinct string values), \<open>guarded_machine\<close> (what calls of a certain kind leave in place).
    \<open>raising_machine\<close> (calls that may raise) stands beside its client \<open>Runtime_Proofs\<close>.
  \<^item> \<open>Backups\<close>: runs in which a client takes snapshots of a component and restores them, with the locale
    \<open>backups\<close> (a restoration brings nothing new: what holds was brought about by a call of the run),
    interpreted on the work queue, the skills and the learned policies.
  \<^item> \<open>IR_Contracts\<close>, \<open>IR_Graph\<close>, \<open>IR_Validator\<close>: \<open>kernel/contracts.py\<close>, \<open>ir/contracts.py\<close>,
    \<open>ir/identity.py\<close>, \<open>ir/unit.py\<close>, \<open>ir/operations.py\<close>, \<open>ir/graph.py\<close>, \<open>ir/validator.py\<close>.
    Constructors with their checks, the identity registry, graph editing, and the validator,
    shown to accept exactly the graphs that satisfy a declarative well-formedness.
  \<^item> \<open>Mutation\<close>: \<open>mutation/engine.py\<close>, \<open>mutation/undo.py\<close>. Every operation with its inverse;
    failed operations change nothing, retired identifiers never return, rollback restores the
    structure where the undo entry is unambiguous.
  \<^item> \<open>Provenance\<close>: \<open>observability/provenance.py\<close>. The hash chain, its verification and its two
    queries, whose loops terminate with the causal chain and with all effects.
  \<^item> \<open>Transaction\<close>, \<open>Transaction_Proofs\<close>: \<open>transaction/manager.py\<close>, \<open>transaction/context.py\<close>.
    The manager refines an abstract transaction on graphs; no lost updates; final states; the
    exact provenance script.
  \<^item> \<open>Kahn\<close>, \<open>Projection\<close>, \<open>Scheduler\<close>, \<open>Working_Memory\<close>: \<open>projection/*.py\<close>,
    \<open>scheduler/scheduler.py\<close>, \<open>state/working_memory.py\<close>, \<open>runtime/types.py\<close>. Kahn's algorithm
    once, as a locale over a graph with in-degrees, interpreted on the projector and on the
    scheduler: it orders a graph completely exactly if the graph is acyclic. Scheduling
    rounds complete every module.
  \<^item> \<open>Execution_State\<close>: \<open>state/*.py\<close>, \<open>invariants/runtime_invariants.py\<close>. The execution state, its
    snapshots, the bounded checkpoint record, the module registry and the invariant checks.
  \<^item> \<open>Schema\<close>, \<open>Serialization\<close>, \<open>Replay\<close>: \<open>kernel/versioning.py\<close>, \<open>ir/schema.py\<close>,
    \<open>ir/serialization.py\<close>, \<open>replay/structural_replay.py\<close>. Documents are validated and read back;
    replaying the committed batches of a history reconstructs its graph.
  \<^item> \<open>Event_Repository\<close>, \<open>Work_Queue\<close>, \<open>Object_Store\<close>: \<open>persistence/*.py\<close>. Gapless event streams
    and idempotent receipt, fenced leases (as long as no snapshot older than the lease is restored)
    and at-most-once completion, integrity of objects.
  \<^item> \<open>Handoff\<close>: \<open>distributed/protocol.py\<close>. Retries within the window are absorbed.
  \<^item> \<open>Memory_Store\<close>, \<open>Skills\<close>: \<open>memory/*.py\<close>. Retrieval, deletion, backup and compression of
    governed records; the lifecycle of skills.
  \<^item> \<open>Planner\<close>: \<open>planner/pipeline.py\<close>. Analysis of the task, selection of modules, construction and
    validation of the module graph, and the difference of two graphs. The pipeline never raises;
    a returned plan is acyclic, within the budget and accepted by the scheduler.
  \<^item> \<open>Decision_Policy\<close>, \<open>Cost_Semantics\<close>: \<open>execution/decision_policy.py\<close>, \<open>cost/semantics.py\<close>. The rule
    policy with its replan limit and cooldown; budgets with their accounts.
  \<^item> \<open>Runtime_Loop\<close>, \<open>Runtime_Proofs\<close>: \<open>runtime/runtime.py\<close>, \<open>execution/trace.py\<close>. The control loop that
    decides, dispatches, replans, rolls back and terminates; every call keeps the invariants
    of the execution state, and with modules that return a planned task is completed.
  \<^item> \<open>Artifact_Registry\<close>: \<open>registry.py\<close>. Registries of artifacts and graphs per tenant over the
    object store; a registered graph can be loaded and is admitted again.
  \<^item> \<open>Py_Library\<close>, \<open>Cognition\<close>, \<open>Cognitive_State\<close>: \<open>cognition/canonical.py\<close>, \<open>cognition/contracts.py\<close>,
    \<open>cognition/state.py\<close>. Text normalisation and canonical data; the records with the checks of
    their constructors; the append-only state, whose invalidation is exactly reachability along
    dependencies and whose actions follow the prescribed life cycle.
  \<^item> \<open>Capabilities\<close>, \<open>Control\<close>: \<open>capabilities/contracts.py\<close>, \<open>capabilities/registry.py\<close>,
    \<open>capabilities/broker.py\<close>, \<open>control/*.py\<close> but \<open>evaluation.py\<close>. The broker selects the best eligible
    card, the controller an authorised undominated candidate; registry images restore.
  \<^item> \<open>Assurance\<close>, \<open>Calibration\<close>, \<open>Halting\<close>: \<open>assurance/*.py\<close> but \<open>verifiers.py\<close>, \<open>halting/contracts.py\<close>,
    \<open>halting/policy.py\<close>. The verifier cascade is sound, outcome labels are an append-only history, a
    model change revokes the calibrations in the registry for good, isotonic fits are monotone, and inference stops
    only when the stop is justified.
  \<^item> \<open>Enterprise\<close>: \<open>enterprise/*.py\<close>. Authorisation, quotas, kill switches, redaction, the audit log and
    data governance.
  \<^item> \<open>Repair\<close>: \<open>repair/*.py\<close> but \<open>evaluation.py\<close>. A repair that succeeds recomputes exactly the
    items that depend on a root through the dependencies items and views list, in dependency order.
    The snapshot of the system around a repair is not modelled.
  \<^item> \<open>Structural_Control\<close>, \<open>Adaptation\<close>: \<open>dcc/dcc_contracts.py\<close>, \<open>dcc/computation_generator.py\<close>,
    \<open>dcc/structural_controller.py\<close>, \<open>dcc/assessment_engine.py\<close>, \<open>dcc/learning_engine.py\<close>. Proposals of
    structural changes, their scores and authorisation, the assessment of executions and the
    knowledge learned from them.
  \<^item> \<open>Policy_Learning\<close>: \<open>policy_learning/*.py\<close>. A learned policy selects only safe actions within
    its limits and executes only while registered and promoted on evidence; what is rolled back stays so, unless an older
    snapshot is restored.
  \<^item> \<open>Semantics\<close>: \<open>semantics/*.py\<close> but \<open>evaluation.py\<close>. Templates are turned into candidate units, which
    the validator accepts; experiments are selected by value and judged by their falsifier.
  \<^item> \<open>DNC_System\<close>: \<open>system.py\<close>. The composition of the parts behind the kill switches, and the cycle
    of generation, authorisation, transaction, execution, assessment and learning, which keeps
    the graph valid and within the limits of its objectives.
    Adaptive neural execution runs behind the same switches.
  \<^item> \<open>Neural\<close>: \<open>neural/*.py\<close>. Tensor shapes, unit contracts and backends, and execution with adaptive
    depth, which stops at the first exit that is final or calibrated and confident enough, and
    raises on an invalid confidence.
  \<^item> \<open>Reference_Control\<close>: \<open>cognition/controller.py\<close>, \<open>cognition/calibration.py\<close>. The reference controller
    proposes to stop, and halts, exactly when a stop is justified; revoked profiles stay revoked.
  \<^item> \<open>Pilot\<close>: \<open>pilot/governance.py\<close>. A rollout becomes generally available only on evidence that met
    the criteria and that every role has approved.
  \<^item> \<open>Evaluation_Suite\<close>, \<open>Continual\<close>: \<open>observability/evaluation.py\<close>, \<open>observability/failure.py\<close>,
    \<open>learning/continual.py\<close>. Statistics, tolerances and the handling of failures; the knowledge base with
    its versions, drift check, circuit breaker and updates. The search for a root cause finds the
    first violating version.
  \<^item> \<open>Plugins\<close>: \<open>plugins/contracts.py\<close>, \<open>plugins/loader.py\<close>. Manifests are read back as written, and a
    plugin is resolved and loaded only when the policy admits its manifest.
  \<^item> \<open>Demo_Graphs\<close>: concrete graphs for the instances of theorems with hypotheses.

  \<^bold>\<open>Conventions.\<close> A method that may raise returns a sum (\<open>Inl\<close> the exception); where the code
  changes its object before it raises, the exception is returned beside the new state. Objects
  are records, passed and returned; a deep copy is the value itself and is taken to succeed, so that
  the branches of the transaction manager for a copy that raises are left out. Python integers are \<open>int\<close>
  or \<open>nat\<close>; floating-point numbers that are only compared are \<open>real\<close>. Random identifiers, the
  clock, name-based UUIDs, the iteration order of sets, SHA-256, the JSON text of a document,
  modules, providers and user-supplied functions are parameters.
  Locks make calls sequential, so a concurrent history is a sequence of calls.

  \<^bold>\<open>Loops and fuel.\<close> No model uses fuel. Worklists (Kahn's algorithm, effects of an event,
  dependants of an invalid item) and the pooling of adjacent violators are
  functions with a termination measure; the walk along causes is a partial function, and it is
  proved to return on every log that \<open>append\<close> wrote whose events name earlier events as their
  causes. The control loop of the runtime is modelled per
  iteration; a run is a sequence of iterations, and the completion theorem says how many are
  enough.

  \<^bold>\<open>Not modelled.\<close> Code over floating-point functions (calibration metrics and fits, learned
  adaptation, the statistics of the experiment harness), snapshots of live objects and of the whole system, bindings to
  PyTorch and HTTP, command line and reports. The manifest lists every component with its status.
\<close>

end
